(* ===== verification/Go_Prelude.thy ===== *)
theory Go_Prelude
  imports Main "HOL-Library.List_Lexorder" "HOL-Library.Char_ord" "HOL-Library.Sublist"
begin

text \<open>
  What the components share: the parts of Go's \<open>strings\<close> package they call, Go's
  \<open>error\<close> values with \<open>NewAggregate\<close> of \<open>kubernetes/pkg/util/errors/errors.go\<close>, and
  \<open>sets.String\<close> of \<open>kubernetes/pkg/util/sets/string.go\<close>.

  Strings are byte strings; the case conversions are those of ASCII, which is what resource,
  group, verb and host names are made of.  An \<open>error\<close> keeps the format string and the
  arguments instead of the rendered text.
\<close>

named_theorems gset_simps \<open>rewriting of sets.String operations to membership\<close>
named_theorems gostring_simps \<open>rewriting of the strings package to list operations\<close>

section \<open>Strings\<close>

definition has_prefix :: "string \<Rightarrow> string \<Rightarrow> bool" where
  "has_prefix s p \<longleftrightarrow> take (length p) s = p"

definition has_suffix :: "string \<Rightarrow> string \<Rightarrow> bool" where
  "has_suffix s p \<longleftrightarrow> length p \<le> length s \<and> drop (length s - length p) s = p"

definition is_upper :: "char \<Rightarrow> bool" where
  "is_upper c \<longleftrightarrow> 65 \<le> (of_char c :: nat) \<and> (of_char c :: nat) \<le> 90"

definition lower_char :: "char \<Rightarrow> char" where
  "lower_char c = (if is_upper c then char_of ((of_char c :: nat) + 32) else c)"

definition to_lower :: "string \<Rightarrow> string" where
  "to_lower s = map lower_char s"

text \<open>\<open>strings.Split(s, sep)\<close> and \<open>strings.SplitN(s, sep, 2)\<close> for a one-character separator.\<close>

fun split_char :: "char \<Rightarrow> string \<Rightarrow> string list" where
  "split_char sep [] = [[]]"
| "split_char sep (c # cs) =
     (if c = sep then [] # split_char sep cs
      else (case split_char sep cs of
              [] \<Rightarrow> [[c]]
            | w # ws \<Rightarrow> (c # w) # ws))"

definition splitN2 :: "char \<Rightarrow> string \<Rightarrow> string list" where
  "splitN2 sep s =
     (if sep \<in> set s
      then [takeWhile (\<lambda>c. c \<noteq> sep) s, drop 1 (dropWhile (\<lambda>c. c \<noteq> sep) s)]
      else [s])"

text \<open>\<open>strings.LastIndex(s, sep)\<close>, with \<open>None\<close> for Go's \<open>-1\<close>.\<close>

fun last_index :: "char \<Rightarrow> string \<Rightarrow> nat option" where
  "last_index sep [] = None"
| "last_index sep (c # cs) =
     (case last_index sep cs of
        Some i \<Rightarrow> Some (Suc i)
      | None \<Rightarrow> if c = sep then Some 0 else None)"

text \<open>\<open>strings.Index(s, sep)\<close> and \<open>strings.IndexRune(s, sep)\<close> for one ASCII character.\<close>

fun first_index :: "char \<Rightarrow> string \<Rightarrow> nat option" where
  "first_index sep [] = None"
| "first_index sep (c # cs) = (if c = sep then Some 0 else map_option Suc (first_index sep cs))"

text \<open>\<open>strings.Join(parts, sep)\<close>.\<close>

fun join_with :: "string \<Rightarrow> string list \<Rightarrow> string" where
  "join_with sep [] = []"
| "join_with sep [w] = w"
| "join_with sep (w # v # ws) = w @ sep @ join_with sep (v # ws)"

lemma has_prefix_iff [gostring_simps]: "has_prefix s p \<longleftrightarrow> (\<exists>t. s = p @ t)"
  unfolding has_prefix_def by (metis append_eq_conv_conj append_take_drop_id)

lemma has_prefix_append [simp]: "has_prefix (p @ t) p"
  by (simp add: has_prefix_def)

lemma has_prefix_trans: "has_prefix s p \<Longrightarrow> has_prefix p q \<Longrightarrow> has_prefix s q"
  by (auto simp: has_prefix_iff)

lemma has_prefix_Nil [simp]: "has_prefix s []"
  by (simp add: has_prefix_def)

lemma has_suffix_iff [gostring_simps]: "has_suffix s p \<longleftrightarrow> (\<exists>t. s = t @ p)"
  unfolding has_suffix_def
proof
  assume "length p \<le> length s \<and> drop (length s - length p) s = p"
  then have "s = take (length s - length p) s @ p"
    by (metis append_take_drop_id)
  then show "\<exists>t. s = t @ p" ..
qed auto

lemma has_suffix_append [simp]: "has_suffix (t @ p) p"
  by (auto simp: has_suffix_iff)

lemma of_char_lower_char:
  "(of_char (lower_char c) :: nat) = (if is_upper c then of_char c + 32 else of_char c)"
  by (auto simp: lower_char_def is_upper_def of_char_of)

lemma not_upper_lower_char [simp]: "\<not> is_upper (lower_char c)"
proof (cases "is_upper c")
  case True
  then have "65 \<le> (of_char c :: nat)" by (simp add: is_upper_def)
  then have "\<not> (of_char (lower_char c) :: nat) \<le> 90"
    using True by (simp add: of_char_lower_char)
  then show ?thesis by (simp add: is_upper_def)
next
  case False
  then show ?thesis by (simp add: lower_char_def)
qed

lemma lower_char_id: "\<not> is_upper c \<Longrightarrow> lower_char c = c"
  by (simp add: lower_char_def)

lemma to_lower_no_upper: "list_all (\<lambda>c. \<not> is_upper c) (to_lower s)"
  by (simp add: to_lower_def list_all_iff)

lemma to_lower_id: "list_all (\<lambda>c. \<not> is_upper c) s \<Longrightarrow> to_lower s = s"
  by (induction s) (auto simp: to_lower_def lower_char_id)

lemma to_lower_idem [simp]: "to_lower (to_lower s) = to_lower s"
  by (rule to_lower_id) (rule to_lower_no_upper)

lemma to_lower_append: "to_lower (s @ t) = to_lower s @ to_lower t"
  by (simp add: to_lower_def)

lemma split_char_ne [simp]: "split_char sep s \<noteq> []"
  by (induction s) (auto split: list.splits)

lemma split_char_join: "sep \<notin> set s \<Longrightarrow> split_char sep s = [s]"
  by (induction s) auto

lemma split_char_append:
  "sep \<notin> set s \<Longrightarrow> split_char sep (s @ sep # t) = s # split_char sep t"
  by (induction s) auto

lemma split_char_two:
  "split_char sep t = [a, b] \<Longrightarrow> t = a @ sep # b \<and> sep \<notin> set a \<and> sep \<notin> set b"
proof (induction t arbitrary: a b)
  case (Cons c cs)
  have single: "split_char sep u = [x] \<Longrightarrow> u = x \<and> sep \<notin> set x" for u x
    by (induction u arbitrary: x) (auto split: if_splits list.splits)
  show ?case
    using Cons.prems Cons.IH by (auto split: if_splits list.splits dest: single)
qed simp

lemma last_index_None: "last_index sep s = None \<longleftrightarrow> sep \<notin> set s"
  by (induction s) (auto split: option.splits)

lemma last_index_Some:
  "last_index sep s = Some i \<Longrightarrow>
   i < length s \<and> s ! i = sep \<and> sep \<notin> set (drop (Suc i) s)"
  by (induction s arbitrary: i)
    (auto simp: last_index_None split: option.splits if_splits)

lemma last_index_append:
  "sep \<notin> set t \<Longrightarrow> last_index sep (s @ sep # t) = Some (length s)"
proof (induction s)
  case Nil
  then show ?case by (simp add: last_index_None [THEN iffD2])
qed simp

lemma first_index_None: "first_index sep s = None \<longleftrightarrow> sep \<notin> set s"
  by (induction s) auto

lemma first_index_Some:
  "first_index sep s = Some i \<longleftrightarrow>
     i < length s \<and> sep \<notin> set (take i s) \<and> s = take i s @ sep # drop (Suc i) s"
proof (induction s arbitrary: i)
  case (Cons c cs)
  then show ?case by (cases i) auto
qed simp

lemma first_index_append: "sep \<notin> set s \<Longrightarrow> first_index sep (s @ sep # t) = Some (length s)"
  by (induction s) auto

section \<open>Errors\<close>

datatype go_error =
    Errorf string "string list"
  | ErrorfE string "string list" "go_error list"
  | NotFoundErr string string
  | ForbiddenErr string string go_error
  | BadRequestErr string "string list"
  | InternalErr go_error
  | ConflictErr string string
  | AlreadyExistsErr string string
  | FatalErr go_error
  | AggregateErr "go_error list"

text \<open>\<open>NewAggregate\<close>: no error for an empty list or a list of nils.\<close>

definition NewAggregate :: "go_error option list \<Rightarrow> go_error option" where
  "NewAggregate errlist =
     (if errlist = [] then None
      else (let errs = List.map_filter (\<lambda>e. e) errlist
            in if errs = [] then None else Some (AggregateErr errs)))"

abbreviation aggregate :: "go_error list \<Rightarrow> go_error option" where
  "aggregate errs \<equiv> NewAggregate (map Some errs)"

lemma map_filter_id_Some [simp]: "List.map_filter (\<lambda>e. e) (map Some es) = es"
  by (induction es) (auto simp: List.map_filter_simps)

lemma NewAggregate_Some [simp]: "aggregate es = (if es = [] then None else Some (AggregateErr es))"
  by (simp add: NewAggregate_def Let_def)

text \<open>\<open>IsNotFound\<close>, \<open>IsConflict\<close> and \<open>IsAlreadyExists\<close> of the API errors package.\<close>

fun IsNotFound :: "go_error \<Rightarrow> bool" where
  "IsNotFound (NotFoundErr _ _) = True"
| "IsNotFound _ = False"

fun IsConflict :: "go_error \<Rightarrow> bool" where
  "IsConflict (ConflictErr _ _) = True"
| "IsConflict _ = False"

fun IsAlreadyExists :: "go_error \<Rightarrow> bool" where
  "IsAlreadyExists (AlreadyExistsErr _ _) = True"
| "IsAlreadyExists _ = False"

section \<open>\<open>sets.String\<close>\<close>

text \<open>
  A \<open>sets.String\<close> is a Go map, so it may be nil, and ranging over it visits the keys in an
  arbitrary order: it is modelled as an optional list of keys in the order a range visits
  them (\<open>None\<close> is nil).  A theorem about every such list is a theorem about every order.
\<close>

type_synonym sset = "string list option"

definition elems :: "sset \<Rightarrow> string list" where
  "elems s = (case s of None \<Rightarrow> [] | Some xs \<Rightarrow> xs)"

definition ins1 :: "string list \<Rightarrow> string \<Rightarrow> string list" where
  "ins1 xs x = (if x \<in> set xs then xs else xs @ [x])"

definition Insert :: "string list \<Rightarrow> string list \<Rightarrow> string list" where
  "Insert xs items = foldl ins1 xs items"

definition NewString :: "string list \<Rightarrow> sset" where
  "NewString items = Some (Insert [] items)"

definition Delete :: "sset \<Rightarrow> string \<Rightarrow> sset" where
  "Delete s x = map_option (filter (\<lambda>y. y \<noteq> x)) s"

definition Has :: "sset \<Rightarrow> string \<Rightarrow> bool" where
  "Has s x \<longleftrightarrow> x \<in> set (elems s)"

fun HasAll :: "sset \<Rightarrow> string list \<Rightarrow> bool" where
  "HasAll s [] = True"
| "HasAll s (x # xs) = (if \<not> Has s x then False else HasAll s xs)"

fun HasAny :: "sset \<Rightarrow> string list \<Rightarrow> bool" where
  "HasAny s [] = False"
| "HasAny s (x # xs) = (if Has s x then True else HasAny s xs)"

definition SetDifference :: "sset \<Rightarrow> sset \<Rightarrow> sset" where
  "SetDifference s1 s2 = NewString (filter (\<lambda>k. \<not> Has s2 k) (elems s1))"

definition SetUnion :: "sset \<Rightarrow> sset \<Rightarrow> sset" where
  "SetUnion s1 s2 = Some (Insert (Insert [] (elems s1)) (elems s2))"

definition IsSuperset :: "sset \<Rightarrow> sset \<Rightarrow> bool" where
  "IsSuperset s1 s2 \<longleftrightarrow> list_all (Has s1) (elems s2)"

definition SetIntersection :: "sset \<Rightarrow> sset \<Rightarrow> sset" where
  "SetIntersection s1 s2 =
     (let (walk, other) = (if length (elems s1) < length (elems s2) then (s1, s2) else (s2, s1))
      in NewString (filter (Has other) (elems walk)))"

text \<open>\<open>List\<close> returns the keys sorted.\<close>

definition SList :: "sset \<Rightarrow> string list" where
  "SList s = sort (elems s)"

lemma elems_simps [simp]: "elems None = []" "elems (Some xs) = xs"
  by (simp_all add: elems_def)

lemma set_ins1 [simp]: "set (ins1 xs x) = insert x (set xs)"
  by (auto simp: ins1_def)

lemma distinct_ins1 [simp]: "distinct xs \<Longrightarrow> distinct (ins1 xs x)"
  by (simp add: ins1_def)

lemma set_Insert [simp]: "set (Insert xs items) = set xs \<union> set items"
  unfolding Insert_def by (induction items arbitrary: xs) auto

lemma distinct_Insert: "distinct xs \<Longrightarrow> distinct (Insert xs items)"
  unfolding Insert_def by (induction items arbitrary: xs) auto

lemma Has_simps [gset_simps]:
  "Has None x \<longleftrightarrow> False"
  "Has (Some xs) x \<longleftrightarrow> x \<in> set xs"
  by (simp_all add: Has_def)

lemma Has_NewString [gset_simps]: "Has (NewString xs) x \<longleftrightarrow> x \<in> set xs"
  by (simp add: Has_def NewString_def)

lemma Has_Delete [gset_simps]: "Has (Delete s y) x \<longleftrightarrow> x \<noteq> y \<and> Has s x"
  by (cases s) (auto simp: Has_def Delete_def)

lemma HasAll_iff [gset_simps]: "HasAll s xs \<longleftrightarrow> (\<forall>x \<in> set xs. Has s x)"
  by (induction xs) auto

lemma HasAny_iff [gset_simps]: "HasAny s xs \<longleftrightarrow> (\<exists>x \<in> set xs. Has s x)"
  by (induction xs) auto

lemma Has_SetDifference [gset_simps]: "Has (SetDifference s1 s2) x \<longleftrightarrow> Has s1 x \<and> \<not> Has s2 x"
  by (auto simp: Has_def SetDifference_def NewString_def)

lemma Has_SetUnion [gset_simps]: "Has (SetUnion s1 s2) x \<longleftrightarrow> Has s1 x \<or> Has s2 x"
  by (auto simp: Has_def SetUnion_def)

lemma Has_SetIntersection [gset_simps]: "Has (SetIntersection s1 s2) x \<longleftrightarrow> Has s1 x \<and> Has s2 x"
  by (auto simp: Has_def SetIntersection_def NewString_def)

lemma set_SList [simp]: "set (SList s) = set (elems s)"
  by (simp add: SList_def)

lemma SList_Nil [simp]: "SList s = [] \<longleftrightarrow> elems s = []"
  by (metis set_SList set_empty)

lemma elems_NewString_single [simp]: "elems (NewString [x]) = [x]"
  by (simp add: NewString_def Insert_def ins1_def)

lemma SList_NewString_single [simp]: "SList (NewString [x]) = [x]"
  by (simp add: SList_def)

lemma NewString_Nil [simp]: "NewString [] = Some []"
  by (simp add: NewString_def Insert_def)

lemma elems_NewString_empty [simp]: "elems (NewString xs) = [] \<longleftrightarrow> xs = []"
  by (simp add: NewString_def flip: set_empty)

lemma set_elems_NewString [simp]: "set (elems (NewString xs)) = set xs"
  by (simp add: NewString_def)

lemma Has_elems: "x \<in> set (elems s) \<longleftrightarrow> Has s x"
  by (simp add: Has_def)

end
