(* ===== verification/K8s_Names.thy ===== *)
theory K8s_Names
  imports Go_Prelude
begin

text \<open>
  Names of the Kubernetes API: the DNS-1123 checks of \<open>kubernetes/pkg/util/validation/validation.go\<close>,
  the name validators of \<open>kubernetes/pkg/api/validation/validation.go\<close> built on them, and the user
  and group names of service accounts of \<open>kubernetes/pkg/serviceaccount/util.go\<close>.
  The regular expressions are written out as character tests; the error lists keep the format
  names of the messages.
\<close>

section \<open>DNS labels and subdomains\<close>

definition is_alnum :: "char \<Rightarrow> bool" where
  "is_alnum c \<longleftrightarrow>
     (97 \<le> (of_char c :: nat) \<and> (of_char c :: nat) \<le> 122) \<or>
     (48 \<le> (of_char c :: nat) \<and> (of_char c :: nat) \<le> 57)"

text \<open>\<open>[a-z0-9]([-a-z0-9]*[a-z0-9])?\<close>\<close>

definition dns1123Label_match :: "string \<Rightarrow> bool" where
  "dns1123Label_match s \<longleftrightarrow>
     s \<noteq> [] \<and> is_alnum (hd s) \<and> is_alnum (last s) \<and>
     list_all (\<lambda>c. is_alnum c \<or> c = CHR ''-'') s"

definition IsDNS1123Label :: "string \<Rightarrow> go_error list" where
  "IsDNS1123Label value =
     (if 63 < length value then [Errorf ''MaxLenError'' []] else []) @
     (if \<not> dns1123Label_match value then [Errorf ''RegexError'' []] else [])"

text \<open>A label followed by any number of dot-separated labels.\<close>

definition IsDNS1123Subdomain :: "string \<Rightarrow> go_error list" where
  "IsDNS1123Subdomain value =
     (if 253 < length value then [Errorf ''MaxLenError'' []] else []) @
     (if \<not> list_all dns1123Label_match (split_char CHR ''.'' value)
      then [Errorf ''RegexError'' []] else [])"

text \<open>
  \<open>maskTrailingDash\<close> slices \<open>name[:len(name)-2]\<close>, which panics on the one-character name
  \<open>-\<close>: \<open>None\<close> is that panic.
\<close>

definition maskTrailingDash :: "string \<Rightarrow> string option" where
  "maskTrailingDash name =
     (if has_suffix name ''-''
      then (if length name < 2 then None else Some (take (length name - 2) name @ ''a''))
      else Some name)"

definition NameIsDNSLabel :: "string \<Rightarrow> bool \<Rightarrow> go_error list option" where
  "NameIsDNSLabel name pref =
     (case (if pref then maskTrailingDash name else Some name) of
        None \<Rightarrow> None
      | Some n \<Rightarrow> Some (IsDNS1123Label n))"

definition NameIsDNSSubdomain :: "string \<Rightarrow> bool \<Rightarrow> go_error list option" where
  "NameIsDNSSubdomain name pref =
     (case (if pref then maskTrailingDash name else Some name) of
        None \<Rightarrow> None
      | Some n \<Rightarrow> Some (IsDNS1123Subdomain n))"

section \<open>Service account names\<close>

definition ServiceAccountUsernamePrefix :: string where
  "ServiceAccountUsernamePrefix = ''system:serviceaccount:''"

definition ServiceAccountGroupPrefix :: string where
  "ServiceAccountGroupPrefix = ''system:serviceaccounts:''"

definition AllServiceAccountsGroup :: string where
  "AllServiceAccountsGroup = ''system:serviceaccounts''"

definition MakeUsername :: "string \<Rightarrow> string \<Rightarrow> string" where
  "MakeUsername namespace name = ServiceAccountUsernamePrefix @ namespace @ '':'' @ name"

definition invalidUsernameErr :: go_error where
  "invalidUsernameErr = Errorf ''Username must be in the form %s'' [MakeUsername ''namespace'' ''name'']"

text \<open>The validators are called without the prefix flag, so they cannot panic here.\<close>

definition SplitUsername :: "string \<Rightarrow> go_error + string \<times> string" where
  "SplitUsername username =
     (if \<not> has_prefix username ServiceAccountUsernamePrefix then Inl invalidUsernameErr
      else
        (case split_char CHR '':'' (drop (length ServiceAccountUsernamePrefix) username) of
           [namespace, name] \<Rightarrow>
             (if NameIsDNSLabel namespace False \<noteq> Some [] then Inl invalidUsernameErr
              else if NameIsDNSSubdomain name False \<noteq> Some [] then Inl invalidUsernameErr
              else Inr (namespace, name))
         | _ \<Rightarrow> Inl invalidUsernameErr))"

definition MakeNamespaceGroupName :: "string \<Rightarrow> string" where
  "MakeNamespaceGroupName namespace = ServiceAccountGroupPrefix @ namespace"

definition MakeGroupNames :: "string \<Rightarrow> string \<Rightarrow> string list" where
  "MakeGroupNames namespace name = [AllServiceAccountsGroup, MakeNamespaceGroupName namespace]"

section \<open>Lemmas\<close>

lemma MakeUsername_prefix [simp]: "has_prefix (MakeUsername ns n) ServiceAccountUsernamePrefix"
  by (simp add: MakeUsername_def)

lemma colon_not_alnum [simp]: "\<not> is_alnum CHR '':''" "CHR '':'' \<noteq> CHR ''-''"
  by (simp_all add: is_alnum_def)

lemma label_no_colon: "dns1123Label_match s \<Longrightarrow> CHR '':'' \<notin> set s"
  by (auto simp: dns1123Label_match_def list_all_iff)

lemma set_split_char: "set s \<subseteq> insert sep (\<Union> (set ` set (split_char sep s)))"
proof (induction s)
  case (Cons c cs)
  show ?case
  proof (cases "c = sep")
    case False
    obtain w ws where "split_char sep cs = w # ws"
      by (cases "split_char sep cs") auto
    with False Cons.IH show ?thesis by auto
  qed (use Cons.IH in auto)
qed simp

lemma subdomain_no_colon:
  assumes "list_all dns1123Label_match (split_char CHR ''.'' s)"
  shows "CHR '':'' \<notin> set s"
proof
  assume "CHR '':'' \<in> set s"
  with set_split_char [of s "CHR ''.''"]
  obtain w where "w \<in> set (split_char CHR ''.'' s)" "CHR '':'' \<in> set w"
    by auto
  with assms label_no_colon show False by (auto simp: list_all_iff)
qed

lemma IsDNS1123Label_Nil: "IsDNS1123Label v = [] \<longleftrightarrow> length v \<le> 63 \<and> dns1123Label_match v"
  by (auto simp: IsDNS1123Label_def)

lemma IsDNS1123Subdomain_Nil:
  "IsDNS1123Subdomain v = [] \<longleftrightarrow>
   length v \<le> 253 \<and> list_all dns1123Label_match (split_char CHR ''.'' v)"
  by (auto simp: IsDNS1123Subdomain_def)

lemma SplitUsername_Inr_iff:
  "SplitUsername u = Inr (ns, n) \<longleftrightarrow>
     u = MakeUsername ns n \<and> IsDNS1123Label ns = [] \<and> IsDNS1123Subdomain n = []"
proof
  assume r: "u = MakeUsername ns n \<and> IsDNS1123Label ns = [] \<and> IsDNS1123Subdomain n = []"
  then have "CHR '':'' \<notin> set ns" "CHR '':'' \<notin> set n"
    by (auto simp: IsDNS1123Label_Nil IsDNS1123Subdomain_Nil label_no_colon subdomain_no_colon)
  then have "split_char CHR '':'' (ns @ '':'' @ n) = [ns, n]"
    by (simp add: split_char_append split_char_join)
  with r show "SplitUsername u = Inr (ns, n)"
    by (simp add: SplitUsername_def MakeUsername_def NameIsDNSLabel_def NameIsDNSSubdomain_def)
next
  assume l: "SplitUsername u = Inr (ns, n)"
  let ?t = "drop (length ServiceAccountUsernamePrefix) u"
  have p: "has_prefix u ServiceAccountUsernamePrefix"
    and s: "split_char CHR '':'' ?t = [ns, n]"
    and v: "IsDNS1123Label ns = []" "IsDNS1123Subdomain n = []"
    using l by (auto simp: SplitUsername_def NameIsDNSLabel_def NameIsDNSSubdomain_def
        split: if_splits list.splits)
  have "u = ServiceAccountUsernamePrefix @ ?t"
    using p by (auto simp: has_prefix_iff)
  also have "?t = ns @ '':'' @ n"
    using split_char_two [OF s] by simp
  finally show "u = MakeUsername ns n \<and> IsDNS1123Label ns = [] \<and> IsDNS1123Subdomain n = []"
    using v by (simp add: MakeUsername_def)
qed

text \<open>
  Distinct service accounts never share a user name, and splitting a user name recovers the
  account it was made from: \<open>SplitUsername\<close> and \<open>MakeUsername\<close> are inverse on valid names.
\<close>

theorem service_account_names_injective:
  assumes "IsDNS1123Label ns = []" and "IsDNS1123Subdomain n = []"
  shows "SplitUsername (MakeUsername ns n) = Inr (ns, n) \<and>
    (\<forall>u. SplitUsername u = Inr (ns, n) \<longleftrightarrow> u = MakeUsername ns n)"
  using assms by (auto simp: SplitUsername_Inr_iff)

theorem service_account_names_injective_witness:
  "SplitUsername (MakeUsername ''ns1'' ''builder'') = Inr (''ns1'', ''builder'')"
proof -
  have a: "IsDNS1123Label ''ns1'' = []"
    by (simp add: IsDNS1123Label_def dns1123Label_match_def is_alnum_def)
  have b: "IsDNS1123Subdomain ''builder'' = []"
    by (simp add: IsDNS1123Subdomain_def dns1123Label_match_def is_alnum_def)
  show ?thesis using service_account_names_injective [OF a b] by simp
qed

text \<open>
  The prefix mode of the validators: the mask that hides a trailing dash cuts one character
  too many, so a 64-character generated name passes the 63-character limit, and the
  one-character name makes the slice expression panic.
\<close>

text \<open>
  With the prefix flag set, \<open>NameIsDNSLabel\<close> panics on the name \<open>-\<close>, and for every
  other name with a trailing dash it validates a string that is one character shorter than the
  name.
\<close>

theorem maskTrailingDash_drops_a_character:
  "NameIsDNSLabel ''-'' True = None \<and>
   (\<forall>s. NameIsDNSLabel (s @ ''x-'') True = Some (IsDNS1123Label (s @ ''a'')))"
  by (simp add: NameIsDNSLabel_def maskTrailingDash_def has_suffix_def)

end
