(* ===== verification/Policy_Types.thy ===== *)
theory Policy_Types
  imports K8s_Names
begin

text \<open>
  The data of \<open>origin/pkg/authorization/api/types.go\<close>: policy rules, roles, role bindings,
  the policy documents that hold them, the access review objects, and the requester
  (\<open>kubernetes/pkg/auth/user/user.go\<close>); then the subject helpers of
  \<open>origin/pkg/authorization/api/helpers.go\<close>.

  A Go map is an association list in the order a range visits it; a lookup is \<open>map_of\<close>.
  Of \<open>ObjectMeta\<close> the fields the components read are kept.  A \<open>runtime.Object\<close> whose type the
  code never inspects is a string.
\<close>

section \<open>Shared API types\<close>

record type_meta =
  tm_kind :: string
  tm_api_version :: string

record object_meta =
  meta_name :: string
  meta_namespace :: string
  meta_uid :: string
  meta_labels :: "(string \<times> string) list"
  meta_annotations :: "(string \<times> string) list"

record object_reference =
  or_kind :: string
  or_namespace :: string
  or_name :: string
  or_uid :: string
  or_api_version :: string
  or_resource_version :: string
  or_field_path :: string

definition subject_ref :: "string \<Rightarrow> string \<Rightarrow> string \<Rightarrow> object_reference" where
  "subject_ref kind namespace name =
     \<lparr>or_kind = kind, or_namespace = namespace, or_name = name, or_uid = [],
      or_api_version = [], or_resource_version = [], or_field_path = []\<rparr>"

record user_info =
  ui_name :: string
  ui_uid :: string
  ui_groups :: "string list"
  ui_extra :: "(string \<times> string list) list"

text \<open>\<open>extra[key]\<close>: the zero value (no entries) for a missing key.\<close>

definition extra_values :: "user_info \<Rightarrow> string \<Rightarrow> string list" where
  "extra_values u key = (case map_of (ui_extra u) key of None \<Rightarrow> [] | Some vs \<Rightarrow> vs)"

section \<open>Rules, roles and bindings\<close>

definition PolicyName :: string where "PolicyName = ''default''"
definition APIGroupAll :: string where "APIGroupAll = ''*''"
definition ResourceAll :: string where "ResourceAll = ''*''"
definition VerbAll :: string where "VerbAll = ''*''"
definition NonResourceAll :: string where "NonResourceAll = ''*''"
definition ScopesKey :: string where "ScopesKey = ''authorization.openshift.io/scopes''"
definition ScopesAllNamespaces :: string where "ScopesAllNamespaces = ''*''"

definition UserKind :: string where "UserKind = ''User''"
definition GroupKind :: string where "GroupKind = ''Group''"
definition ServiceAccountKind :: string where "ServiceAccountKind = ''ServiceAccount''"
definition SystemUserKind :: string where "SystemUserKind = ''SystemUser''"
definition SystemGroupKind :: string where "SystemGroupKind = ''SystemGroup''"

lemmas kind_defs = UserKind_def GroupKind_def ServiceAccountKind_def SystemUserKind_def
  SystemGroupKind_def

lemmas all_defs = APIGroupAll_def ResourceAll_def VerbAll_def NonResourceAll_def

datatype restriction = IsPersonalSubjectAccessReview type_meta | OtherRestriction string

record policy_rule =
  pr_verbs :: sset
  pr_attribute_restrictions :: "restriction option"
  pr_api_groups :: "string list"
  pr_resources :: sset
  pr_resource_names :: sset
  pr_non_resource_urls :: sset

definition zero_rule :: policy_rule where
  "zero_rule =
     \<lparr>pr_verbs = None, pr_attribute_restrictions = None, pr_api_groups = [],
      pr_resources = None, pr_resource_names = None, pr_non_resource_urls = None\<rparr>"

definition DiscoveryRule :: policy_rule where
  "DiscoveryRule = zero_rule\<lparr>
     pr_verbs := NewString [''get''],
     pr_non_resource_urls := NewString
       [''/version'', ''/version/*'',
        ''/api'', ''/api/*'',
        ''/apis'', ''/apis/*'',
        ''/oapi'', ''/oapi/*'',
        ''/swaggerapi'', ''/swaggerapi/*'',
        ''/osapi'', ''/osapi/'',
        ''/.well-known'', ''/.well-known/*'']\<rparr>"

record role =
  role_type :: type_meta
  role_meta :: object_meta
  role_rules :: "policy_rule list"

record role_binding =
  rb_type :: type_meta
  rb_meta :: object_meta
  rb_subjects :: "object_reference list"
  rb_role_ref :: object_reference

record policy =
  pol_type :: type_meta
  pol_meta :: object_meta
  pol_last_modified :: int
  pol_roles :: "(string \<times> role) list"

record policy_binding =
  pb_type :: type_meta
  pb_meta :: object_meta
  pb_last_modified :: int
  pb_policy_ref :: object_reference
  pb_role_bindings :: "(string \<times> role_binding) list"

record cluster_role =
  crole_type :: type_meta
  crole_meta :: object_meta
  crole_rules :: "policy_rule list"

record cluster_role_binding =
  crb_type :: type_meta
  crb_meta :: object_meta
  crb_subjects :: "object_reference list"
  crb_role_ref :: object_reference

record cluster_policy =
  cpol_type :: type_meta
  cpol_meta :: object_meta
  cpol_last_modified :: int
  cpol_roles :: "(string \<times> cluster_role) list"

record cluster_policy_binding =
  cpb_type :: type_meta
  cpb_meta :: object_meta
  cpb_last_modified :: int
  cpb_policy_ref :: object_reference
  cpb_role_bindings :: "(string \<times> cluster_role_binding) list"

section \<open>Access reviews\<close>

record action =
  act_namespace :: string
  act_verb :: string
  act_group :: string
  act_version :: string
  act_resource :: string
  act_resource_name :: string
  act_path :: string
  act_is_non_resource_url :: bool
  act_content :: "string option"

text \<open>\<open>Scopes\<close> is a slice whose nil and empty values mean different things.\<close>

record subject_access_review =
  sar_type :: type_meta
  sar_action :: action
  sar_user :: string
  sar_groups :: sset
  sar_scopes :: "string list option"

record local_subject_access_review =
  lsar_type :: type_meta
  lsar_action :: action
  lsar_user :: string
  lsar_groups :: sset
  lsar_scopes :: "string list option"

record subject_rules_review_spec =
  srr_user :: string
  srr_groups :: "string list"
  srr_scopes :: "string list option"

record subject_rules_review_status =
  srr_rules :: "policy_rule list"
  srr_evaluation_error :: "go_error option"

record subject_rules_review =
  srr_type :: type_meta
  srr_spec :: subject_rules_review_spec
  srr_status :: subject_rules_review_status

record self_subject_rules_review =
  ssrr_type :: type_meta
  ssrr_spec_scopes :: "string list option"
  ssrr_status :: subject_rules_review_status

datatype runtime_object =
    ObjSAR subject_access_review
  | ObjLocalSAR local_subject_access_review
  | ObjSubjectRulesReview subject_rules_review
  | ObjSelfSubjectRulesReview self_subject_rules_review
  | ObjOther string

end
