(* ===== verification/Policy_Helpers.thy ===== *)
theory Policy_Helpers
  imports Policy_Types
begin

text \<open>
  The resource groups of \<open>origin/pkg/authorization/api/deprecated_fields.go\<close> and the helpers of
  \<open>origin/pkg/authorization/api/helpers.go\<close>: expansion of resource groups
  (\<open>NormalizeResources\<close>), the user and group names a list of subjects stands for, and the rule
  builder.  The work list of \<open>NormalizeResources\<close> terminates because a group is expanded only
  once; the measure is the number of groups not yet visited.
\<close>

section \<open>Resource groups\<close>

type_synonym resource_groups = "(string \<times> string list) list"

definition resourceGroupPrefix :: string where
  "resourceGroupPrefix = ''resourcegroup:''"

definition needsNormalizing :: "string \<Rightarrow> bool" where
  "needsNormalizing s \<longleftrightarrow> has_prefix s resourceGroupPrefix \<or> list_ex is_upper s"

function normalize_loop ::
  "resource_groups \<Rightarrow> string list \<Rightarrow> string list \<Rightarrow> string list \<Rightarrow> string list" where
  "normalize_loop groups [] visited ret = ret"
| "normalize_loop groups (cur # toVisit) visited ret =
     (if cur \<in> set visited then normalize_loop groups toVisit visited ret
      else if \<not> has_prefix cur resourceGroupPrefix
        then normalize_loop groups toVisit (cur # visited) (ins1 ret (to_lower cur))
      else (case map_of groups cur of
              Some types \<Rightarrow> normalize_loop groups (toVisit @ types) (cur # visited) ret
            | None \<Rightarrow> normalize_loop groups toVisit (cur # visited) ret))"
  by pat_completeness auto

termination
proof (relation "measures [\<lambda>(groups, toVisit, visited, ret). card (set (map fst groups) - set visited),
    \<lambda>(groups, toVisit, visited, ret). length toVisit]"; (simp; fail)?)
  fix groups :: resource_groups and cur :: string and toVisit visited ret :: "string list"
  assume new: "cur \<notin> set visited"
  have le: "card (set (map fst groups) - set (cur # visited)) \<le> card (set (map fst groups) - set visited)"
    by (intro card_mono) auto
  then show "((groups, toVisit, cur # visited, ins1 ret (to_lower cur)), groups, cur # toVisit, visited, ret)
      \<in> measures [\<lambda>(groups, toVisit, visited, ret). card (set (map fst groups) - set visited),
          \<lambda>(groups, toVisit, visited, ret). length toVisit]"
    by (auto simp: le_less)
  from le show "((groups, toVisit, cur # visited, ret), groups, cur # toVisit, visited, ret)
      \<in> measures [\<lambda>(groups, toVisit, visited, ret). card (set (map fst groups) - set visited),
          \<lambda>(groups, toVisit, visited, ret). length toVisit]"
    by (auto simp: le_less)
  fix types assume "map_of groups cur = Some types"
  then have "cur \<in> set (map fst groups)"
    by (auto dest: map_of_SomeD intro: rev_image_eqI)
  with new have "card (set (map fst groups) - set (cur # visited)) < card (set (map fst groups) - set visited)"
    by (intro psubset_card_mono) auto
  then show "((groups, toVisit @ types, cur # visited, ret), groups, cur # toVisit, visited, ret)
      \<in> measures [\<lambda>(groups, toVisit, visited, ret). card (set (map fst groups) - set visited),
          \<lambda>(groups, toVisit, visited, ret). length toVisit]"
    by simp
qed

text \<open>
  The range over the raw set stops at the first name that needs normalizing; without one the
  set itself is returned.
\<close>

definition normalize_with :: "resource_groups \<Rightarrow> sset \<Rightarrow> sset" where
  "normalize_with groups rawResources =
     (if \<not> list_ex needsNormalizing (elems rawResources) then rawResources
      else Some (normalize_loop groups (SList rawResources) [] []))"

definition groupsToResources_literal :: resource_groups where
  "groupsToResources_literal =
   [(''resourcegroup:builds'',
       [''builds'', ''buildconfigs'', ''buildlogs'', ''buildconfigs/instantiate'',
        ''buildconfigs/instantiatebinary'', ''builds/log'', ''builds/clone'',
        ''buildconfigs/webhooks'']),
    (''resourcegroup:images'',
       [''imagestreams'', ''imagestreammappings'', ''imagestreamtags'', ''imagestreamimages'',
        ''imagestreamimports'']),
    (''resourcegroup:deployments'',
       [''deploymentconfigs'', ''generatedeploymentconfigs'', ''deploymentconfigrollbacks'',
        ''deploymentconfigs/log'', ''deploymentconfigs/scale'']),
    (''resourcegroup:sdn'', [''clusternetworks'', ''hostsubnets'', ''netnamespaces'']),
    (''resourcegroup:templates'', [''templates'', ''templateconfigs'', ''processedtemplates'']),
    (''resourcegroup:users'', [''identities'', ''users'', ''useridentitymappings'', ''groups'']),
    (''resourcegroup:oauth'',
       [''oauthauthorizetokens'', ''oauthaccesstokens'', ''oauthclients'',
        ''oauthclientauthorizations'']),
    (''resourcegroup:policy'', [''policies'', ''policybindings'']),
    (''resourcegroup:granter'',
       [''roles'', ''rolebindings'', ''resourceaccessreviews'', ''subjectaccessreviews'',
        ''localresourceaccessreviews'', ''localsubjectaccessreviews'']),
    (''resourcegroup:exposedopenshift'',
       [''resourcegroup:builds'', ''resourcegroup:images'', ''resourcegroup:deployments'',
        ''resourcegroup:templates'', ''routes'']),
    (''resourcegroup:allopenshift'',
       [''resourcegroup:exposedopenshift'', ''resourcegroup:users'', ''resourcegroup:oauth'',
        ''resourcegroup:policy'', ''resourcegroup:sdn'', ''resourcegroup:granter'',
        ''resourcegroup:allopenshift-status'', ''projects'',
        ''clusterroles'', ''clusterrolebindings'', ''clusterpolicies'', ''clusterpolicybindings'',
        ''images'', ''projectrequests'', ''builds/details'', ''imagestreams/secrets'',
        ''selfsubjectrulesreviews'']),
    (''resourcegroup:allopenshift-status'',
       [''imagestreams/status'', ''routes/status'', ''deploymentconfigs/status'']),
    (''resourcegroup:quota'', [''limitranges'', ''resourcequotas'', ''resourcequotausages'']),
    (''resourcegroup:exposedkube'',
       [''pods'', ''replicationcontrollers'', ''serviceaccounts'', ''services'', ''endpoints'',
        ''persistentvolumeclaims'', ''pods/log'', ''configmaps'']),
    (''resourcegroup:privatekube'',
       [''minions'', ''nodes'', ''bindings'', ''events'', ''namespaces'', ''persistentvolumes'',
        ''securitycontextconstraints'']),
    (''resourcegroup:allkube'',
       [''resourcegroup:privatekube'', ''resourcegroup:exposedkube'', ''resourcegroup:quota'']),
    (''resourcegroup:allkube-status'',
       [''pods/status'', ''resourcequotas/status'', ''namespaces/status'',
        ''replicationcontrollers/status'']),
    (''resourcegroup:openshift-escalating'',
       [''oauthauthorizetokens'', ''oauthaccesstokens'', ''imagestreams/secrets'']),
    (''resourcegroup:kube-escalating'', [''secrets'']),
    (''resourcegroup:escalating'',
       [''resourcegroup:openshift-escalating'', ''resourcegroup:kube-escalating'']),
    (''resourcegroup:non-escalating'',
       [''resourcegroup:openshift-non-escalating'', ''resourcegroup:kube-non-escalating''])]"

text \<open>
  \<open>init\<close> adds the two non-escalating groups, each computed from the map as it is at that point.
\<close>

definition group_members :: "resource_groups \<Rightarrow> string \<Rightarrow> string list" where
  "group_members groups g = (case map_of groups g of None \<Rightarrow> [] | Some ts \<Rightarrow> ts)"

definition add_non_escalating ::
  "resource_groups \<Rightarrow> string \<Rightarrow> string \<Rightarrow> string \<Rightarrow> resource_groups" where
  "add_non_escalating groups target allg escg =
     (target, SList (SetDifference
        (normalize_with groups (NewString (group_members groups allg)))
        (normalize_with groups (NewString (group_members groups escg))))) # groups"

definition groupsToResources :: resource_groups where
  "groupsToResources =
     add_non_escalating
       (add_non_escalating groupsToResources_literal ''resourcegroup:openshift-non-escalating''
          ''resourcegroup:allopenshift'' ''resourcegroup:openshift-escalating'')
       ''resourcegroup:kube-non-escalating''
       ''resourcegroup:allkube'' ''resourcegroup:kube-escalating''"

definition NormalizeResources :: "sset \<Rightarrow> sset" where
  "NormalizeResources rawResources = normalize_with groupsToResources rawResources"

section \<open>What normalization computes\<close>

text \<open>
  The abstract reading of a resource entry: a plain name stands for its lower-case form, a
  group for everything its members stand for.
\<close>

inductive expands :: "resource_groups \<Rightarrow> string \<Rightarrow> string \<Rightarrow> bool" for groups where
  plain: "\<not> has_prefix r resourceGroupPrefix \<Longrightarrow> expands groups r (to_lower r)"
| group: "has_prefix r resourceGroupPrefix \<Longrightarrow> map_of groups r = Some ts \<Longrightarrow> t \<in> set ts \<Longrightarrow>
    expands groups t x \<Longrightarrow> expands groups r x"

inductive_simps expands_iff: "expands groups r x"

lemma expands_plain: "\<not> has_prefix r resourceGroupPrefix \<Longrightarrow> expands groups r x \<longleftrightarrow> x = to_lower r"
  by (auto elim: expands.cases intro: expands.plain)

lemma normalize_loop_sound:
  "x \<in> set (normalize_loop groups toVisit visited ret) \<Longrightarrow>
   x \<in> set ret \<or> (\<exists>r \<in> set toVisit. expands groups r x)"
proof (induction groups toVisit visited ret rule: normalize_loop.induct)
  case (2 groups cur toVisit visited ret)
  show ?case
  proof (cases "cur \<in> set visited")
    case True
    with 2 show ?thesis by auto
  next
    case new: False
    show ?thesis
    proof (cases "has_prefix cur resourceGroupPrefix")
      case True
      with new 2 show ?thesis
        by (cases "map_of groups cur") (auto intro: expands.group)
    next
      case False
      with new 2 show ?thesis by (auto intro: expands.plain)
    qed
  qed
qed simp

text \<open>A set of names closed under group membership, whose plain names are in the result.\<close>

definition closed_in :: "resource_groups \<Rightarrow> string set \<Rightarrow> string set \<Rightarrow> string set \<Rightarrow> bool" where
  "closed_in groups V W R \<longleftrightarrow> (\<forall>v \<in> V.
     (\<not> has_prefix v resourceGroupPrefix \<longrightarrow> to_lower v \<in> R) \<and>
     (has_prefix v resourceGroupPrefix \<longrightarrow>
        (\<forall>ts. map_of groups v = Some ts \<longrightarrow> set ts \<subseteq> W)))"

lemma closed_in_expands:
  "expands groups r x \<Longrightarrow> r \<in> V \<Longrightarrow> closed_in groups V V R \<Longrightarrow> x \<in> R"
  by (induction rule: expands.induct) (auto simp: closed_in_def)

lemma normalize_loop_closed:
  "closed_in groups (set visited) (set visited \<union> set toVisit) (set ret) \<Longrightarrow>
   \<exists>V. set visited \<union> set toVisit \<subseteq> V \<and>
       closed_in groups V V (set (normalize_loop groups toVisit visited ret))"
proof (induction groups toVisit visited ret rule: normalize_loop.induct)
  case (1 groups visited ret)
  then show ?case by auto
next
  case (2 groups cur toVisit visited ret)
  show ?case
  proof (cases "cur \<in> set visited")
    case True
    with 2 show ?thesis by (simp add: insert_absorb)
  next
    case new: False
    show ?thesis
    proof (cases "has_prefix cur resourceGroupPrefix")
      case False
      have "closed_in groups (set (cur # visited)) (set (cur # visited) \<union> set toVisit)
          (set (ins1 ret (to_lower cur)))"
        using 2(5) False by (auto simp: closed_in_def)
      from 2(2) [OF new False this] False new show ?thesis by auto
    next
      case True
      show ?thesis
      proof (cases "map_of groups cur")
        case None
        have "closed_in groups (set (cur # visited)) (set (cur # visited) \<union> set toVisit) (set ret)"
          using 2(5) True None by (auto simp: closed_in_def)
        from 2(3) [OF new _ None this] True None new show ?thesis by auto
      next
        case (Some types)
        have "closed_in groups (set (cur # visited)) (set (cur # visited) \<union> set (toVisit @ types)) (set ret)"
          using 2(5) True Some by (fastforce simp: closed_in_def)
        from 2(4) [OF new _ Some this] True Some new show ?thesis by auto
      qed
    qed
  qed
qed

lemma normalize_loop_set:
  "set (normalize_loop groups toVisit [] []) = {x. \<exists>r \<in> set toVisit. expands groups r x}"
proof
  show "set (normalize_loop groups toVisit [] []) \<subseteq> {x. \<exists>r \<in> set toVisit. expands groups r x}"
    using normalize_loop_sound [of _ groups toVisit "[]" "[]"] by auto
  obtain V where "set toVisit \<subseteq> V"
    and "closed_in groups V V (set (normalize_loop groups toVisit [] []))"
    using normalize_loop_closed [of groups "[]" toVisit "[]"] by (auto simp: closed_in_def)
  then show "{x. \<exists>r \<in> set toVisit. expands groups r x} \<subseteq> set (normalize_loop groups toVisit [] [])"
    by (auto intro: closed_in_expands)
qed

lemma not_needsNormalizing_expands:
  "\<not> needsNormalizing r \<Longrightarrow> expands groups r x \<longleftrightarrow> x = r"
  by (simp add: needsNormalizing_def expands_plain to_lower_id list_all_iff list_ex_iff)

lemma Has_normalize_with:
  "Has (normalize_with groups s) x \<longleftrightarrow> (\<exists>r. Has s r \<and> expands groups r x)"
proof (cases "list_ex needsNormalizing (elems s)")
  case True
  then show ?thesis
    by (simp add: normalize_with_def Has_def normalize_loop_set Bex_def)
next
  case False
  then show ?thesis
    by (auto simp: normalize_with_def Has_def list_ex_iff not_needsNormalizing_expands)
qed

lemma plain_expands_no_upper: "expands groups r x \<Longrightarrow> list_all (\<lambda>c. \<not> is_upper c) x"
  by (induction rule: expands.induct) (rule to_lower_no_upper)

lemma normalize_with_no_upper:
  "Has (normalize_with groups s) x \<Longrightarrow> to_lower x = x"
  by (auto simp: Has_normalize_with dest: plain_expands_no_upper to_lower_id)

text \<open>
  Resource normalization, for any table of resource groups (cyclic ones included), returns
  exactly the lower-case names the raw entries stand for through any nesting of groups, whether
  or not the shortcut for sets that are already normal is taken.
\<close>

theorem NormalizeResources_refines_expands:
  "{x. Has (normalize_with groups s) x} = {x. \<exists>r. Has s r \<and> expands groups r x} \<and>
   {x. Has (NormalizeResources s) x} = {x. \<exists>r. Has s r \<and> expands groupsToResources r x}"
  by (simp add: Has_normalize_with NormalizeResources_def)

end
