(* ===== verification/Subjects.thy ===== *)
theory Subjects
  imports Policy_Helpers
begin

text \<open>
  The subjects of role bindings (\<open>origin/pkg/authorization/api/helpers.go\<close>) and the adapters of
  \<open>origin/pkg/authorization/interfaces/interfaces.go\<close> through which the rule resolver and the
  authorizer see local and cluster objects alike.  The central lemma: the membership tests the
  authorizer runs per request agree with the user and group sets it reports to reviews.
\<close>

section \<open>Subject helpers\<close>

definition GetPolicyBindingName :: "string \<Rightarrow> string" where
  "GetPolicyBindingName policyRefNamespace = policyRefNamespace @ '':'' @ PolicyName"

definition ClusterPolicyBindingName :: string where
  "ClusterPolicyBindingName = GetPolicyBindingName []"

text \<open>The values of the map, sorted by name, or in reverse.\<close>

definition getRoleBindingValues :: "(string \<times> role_binding) list \<Rightarrow> role_binding list" where
  "getRoleBindingValues roleBindingMap = map snd roleBindingMap"

definition SortRoleBindings :: "(string \<times> role_binding) list \<Rightarrow> bool \<Rightarrow> role_binding list" where
  "SortRoleBindings roleBindingMap reverse =
     (let roleBindings = sort_key (\<lambda>b. meta_name (rb_meta b)) (getRoleBindingValues roleBindingMap)
      in if reverse then rev roleBindings else roleBindings)"

type_synonym name_validator = "string \<Rightarrow> bool \<Rightarrow> go_error list"

definition build_user_subject :: "name_validator \<Rightarrow> string \<Rightarrow> object_reference" where
  "build_user_subject userNameValidator user =
     (case SplitUsername user of
        Inr (saNamespace, saName) \<Rightarrow> subject_ref ServiceAccountKind saNamespace saName
      | Inl _ \<Rightarrow>
          subject_ref (if userNameValidator user False \<noteq> [] then SystemUserKind else UserKind) [] user)"

definition build_group_subject :: "name_validator \<Rightarrow> string \<Rightarrow> object_reference" where
  "build_group_subject groupNameValidator grp =
     subject_ref (if groupNameValidator grp False \<noteq> [] then SystemGroupKind else GroupKind) [] grp"

definition BuildSubjects ::
  "string list \<Rightarrow> string list \<Rightarrow> name_validator \<Rightarrow> name_validator \<Rightarrow> object_reference list" where
  "BuildSubjects users groups userNameValidator groupNameValidator =
     map (build_user_subject userNameValidator) users @
     map (build_group_subject groupNameValidator) groups"

definition subject_namespace :: "string \<Rightarrow> object_reference \<Rightarrow> string" where
  "subject_namespace currentNamespace subject =
     (if 0 < length (or_namespace subject) then or_namespace subject else currentNamespace)"

fun StringSubjectsFor :: "string \<Rightarrow> object_reference list \<Rightarrow> string list \<times> string list" where
  "StringSubjectsFor currentNamespace [] = ([], [])"
| "StringSubjectsFor currentNamespace (subject # subjects) =
     (let (users, groups) = StringSubjectsFor currentNamespace subjects in
      if or_kind subject = ServiceAccountKind then
        (let namespace = subject_namespace currentNamespace subject in
         if 0 < length namespace then (MakeUsername namespace (or_name subject) # users, groups)
         else (users, groups))
      else if or_kind subject \<in> {UserKind, SystemUserKind} then (or_name subject # users, groups)
      else if or_kind subject \<in> {GroupKind, SystemGroupKind} then (users, or_name subject # groups)
      else (users, groups))"

text \<open>The display variant: users, groups, service accounts, others.\<close>

fun SubjectsStrings ::
  "string \<Rightarrow> object_reference list \<Rightarrow> string list \<times> string list \<times> string list \<times> string list" where
  "SubjectsStrings currentNamespace [] = ([], [], [], [])"
| "SubjectsStrings currentNamespace (subject # subjects) =
     (let (users, groups, sas, others) = SubjectsStrings currentNamespace subjects in
      if or_kind subject = ServiceAccountKind then
        (if 0 < length (or_namespace subject) \<and> currentNamespace \<noteq> or_namespace subject
         then (users, groups, (or_namespace subject @ ''/'' @ or_name subject) # sas, others)
         else (users, groups, or_name subject # sas, others))
      else if or_kind subject \<in> {UserKind, SystemUserKind} then (or_name subject # users, groups, sas, others)
      else if or_kind subject \<in> {GroupKind, SystemGroupKind} then (users, or_name subject # groups, sas, others)
      else (users, groups, sas,
            (or_kind subject @ ''/'' @ or_namespace subject @ ''/'' @ or_name subject) # others))"

fun plain_user_in :: "object_reference list \<Rightarrow> string \<Rightarrow> bool" where
  "plain_user_in [] user = False"
| "plain_user_in (subject # subjects) user =
     (if or_kind subject \<in> {UserKind, SystemUserKind} \<and> user = or_name subject then True
      else plain_user_in subjects user)"

fun sa_or_user_in :: "object_reference list \<Rightarrow> string \<Rightarrow> string \<Rightarrow> bool" where
  "sa_or_user_in [] currentNamespace user = False"
| "sa_or_user_in (subject # subjects) currentNamespace user =
     (if or_kind subject = ServiceAccountKind then
        (let namespace = subject_namespace currentNamespace subject in
         if length namespace = 0 then sa_or_user_in subjects currentNamespace user
         else if user = MakeUsername namespace (or_name subject) then True
         else sa_or_user_in subjects currentNamespace user)
      else if or_kind subject \<in> {UserKind, SystemUserKind} \<and> user = or_name subject then True
      else sa_or_user_in subjects currentNamespace user)"

text \<open>User names without the service account prefix skip the service account subjects.\<close>

definition SubjectsContainUser :: "object_reference list \<Rightarrow> string \<Rightarrow> string \<Rightarrow> bool" where
  "SubjectsContainUser subjects currentNamespace user =
     (if \<not> has_prefix user ServiceAccountUsernamePrefix then plain_user_in subjects user
      else sa_or_user_in subjects currentNamespace user)"

fun SubjectsContainAnyGroup :: "object_reference list \<Rightarrow> string list \<Rightarrow> bool" where
  "SubjectsContainAnyGroup [] groups = False"
| "SubjectsContainAnyGroup (subject # subjects) groups =
     (if or_kind subject \<in> {GroupKind, SystemGroupKind} \<and> list_ex (\<lambda>grp. grp = or_name subject) groups
      then True else SubjectsContainAnyGroup subjects groups)"

definition AddUserToSAR :: "user_info \<Rightarrow> subject_access_review \<Rightarrow> subject_access_review" where
  "AddUserToSAR user sar = sar\<lparr>sar_user := ui_name user, sar_groups := NewString (ui_groups user),
     sar_scopes := Some (extra_values user ScopesKey)\<rparr>"

definition AddUserToLSAR :: "user_info \<Rightarrow> local_subject_access_review \<Rightarrow> local_subject_access_review" where
  "AddUserToLSAR user lsar = lsar\<lparr>lsar_user := ui_name user, lsar_groups := NewString (ui_groups user),
     lsar_scopes := Some (extra_values user ScopesKey)\<rparr>"

section \<open>The rule builder\<close>

definition NewRule :: "string list \<Rightarrow> policy_rule" where
  "NewRule verbs = zero_rule\<lparr>pr_verbs := NewString verbs, pr_resources := Some [],
     pr_resource_names := Some []\<rparr>"

definition builder_Groups :: "policy_rule \<Rightarrow> string list \<Rightarrow> policy_rule" where
  "builder_Groups r groups = r\<lparr>pr_api_groups := pr_api_groups r @ groups\<rparr>"

text \<open>\<open>Insert\<close> on a nil set panics in Go; the builder starts from empty, non-nil sets.\<close>

definition builder_Resources :: "policy_rule \<Rightarrow> string list \<Rightarrow> policy_rule" where
  "builder_Resources r resources = r\<lparr>pr_resources := map_option (\<lambda>xs. Insert xs resources) (pr_resources r)\<rparr>"

definition builder_Names :: "policy_rule \<Rightarrow> string list \<Rightarrow> policy_rule" where
  "builder_Names r names = r\<lparr>pr_resource_names := map_option (\<lambda>xs. Insert xs names) (pr_resource_names r)\<rparr>"

definition builder_Rule :: "policy_rule \<Rightarrow> go_error + policy_rule" where
  "builder_Rule r =
     (if elems (pr_verbs r) = [] then Inl (Errorf ''verbs are required: %#v'' [])
      else if elems (pr_non_resource_urls r) \<noteq> [] then
        (if pr_api_groups r \<noteq> [] \<or> elems (pr_resources r) \<noteq> [] \<or> elems (pr_resource_names r) \<noteq> []
         then Inl (Errorf ''non-resource rule may not have apiGroups, resources, or resourceNames: %#v'' [])
         else Inr r)
      else if elems (pr_resources r) \<noteq> [] then
        (if elems (pr_non_resource_urls r) \<noteq> []
         then Inl (Errorf ''resource rule may not have nonResourceURLs: %#v'' [])
         else if pr_api_groups r = [] then Inl (Errorf ''resource rule must have apiGroups: %#v'' [])
         else Inr r)
      else Inl (Errorf ''a rule must have either nonResourceURLs or resources: %#v'' []))"

text \<open>\<open>None\<close> is the panic of \<open>RuleOrDie\<close>.\<close>

definition RuleOrDie :: "policy_rule \<Rightarrow> policy_rule option" where
  "RuleOrDie r = (case builder_Rule r of Inl _ \<Rightarrow> None | Inr rule \<Rightarrow> Some rule)"

section \<open>Adapters for local and cluster objects\<close>

datatype role_if = RoleAdapter role | ClusterRoleAdapter cluster_role

fun role_if_name :: "role_if \<Rightarrow> string" where
  "role_if_name (RoleAdapter r) = meta_name (role_meta r)"
| "role_if_name (ClusterRoleAdapter r) = meta_name (crole_meta r)"

fun role_if_namespace :: "role_if \<Rightarrow> string" where
  "role_if_namespace (RoleAdapter r) = meta_namespace (role_meta r)"
| "role_if_namespace (ClusterRoleAdapter r) = meta_namespace (crole_meta r)"

fun role_if_rules :: "role_if \<Rightarrow> policy_rule list" where
  "role_if_rules (RoleAdapter r) = role_rules r"
| "role_if_rules (ClusterRoleAdapter r) = crole_rules r"

datatype role_binding_if =
    RoleBindingAdapter role_binding
  | ClusterRoleBindingAdapter cluster_role_binding

fun rb_if_name :: "role_binding_if \<Rightarrow> string" where
  "rb_if_name (RoleBindingAdapter b) = meta_name (rb_meta b)"
| "rb_if_name (ClusterRoleBindingAdapter b) = meta_name (crb_meta b)"

fun rb_if_namespace :: "role_binding_if \<Rightarrow> string" where
  "rb_if_namespace (RoleBindingAdapter b) = meta_namespace (rb_meta b)"
| "rb_if_namespace (ClusterRoleBindingAdapter b) = meta_namespace (crb_meta b)"

fun rb_if_role_ref :: "role_binding_if \<Rightarrow> object_reference" where
  "rb_if_role_ref (RoleBindingAdapter b) = rb_role_ref b"
| "rb_if_role_ref (ClusterRoleBindingAdapter b) = crb_role_ref b"

fun rb_if_subjects :: "role_binding_if \<Rightarrow> object_reference list" where
  "rb_if_subjects (RoleBindingAdapter b) = rb_subjects b"
| "rb_if_subjects (ClusterRoleBindingAdapter b) = crb_subjects b"

definition rb_if_users :: "role_binding_if \<Rightarrow> sset" where
  "rb_if_users b = NewString (fst (StringSubjectsFor (rb_if_namespace b) (rb_if_subjects b)))"

definition rb_if_groups :: "role_binding_if \<Rightarrow> sset" where
  "rb_if_groups b = NewString (snd (StringSubjectsFor (rb_if_namespace b) (rb_if_subjects b)))"

definition AppliesToUser :: "role_binding_if \<Rightarrow> user_info \<Rightarrow> bool" where
  "AppliesToUser b user =
     (if SubjectsContainUser (rb_if_subjects b) (rb_if_namespace b) (ui_name user) then True
      else if SubjectsContainAnyGroup (rb_if_subjects b) (ui_groups user) then True
      else False)"

text \<open>
  \<open>Roles()\<close> and \<open>RoleBindings()\<close> adapt every entry of the map.  The receiver is a value, so the
  cached field is never kept; each call builds the map anew.
\<close>

definition policy_adapter_roles :: "policy \<Rightarrow> (string \<times> role_if) list" where
  "policy_adapter_roles p = map (\<lambda>(key, r). (key, RoleAdapter r)) (pol_roles p)"

definition cluster_policy_adapter_roles :: "cluster_policy \<Rightarrow> (string \<times> role_if) list" where
  "cluster_policy_adapter_roles p = map (\<lambda>(key, r). (key, ClusterRoleAdapter r)) (cpol_roles p)"

definition policy_binding_adapter_bindings :: "policy_binding \<Rightarrow> (string \<times> role_binding_if) list" where
  "policy_binding_adapter_bindings p = map (\<lambda>(key, b). (key, RoleBindingAdapter b)) (pb_role_bindings p)"

definition cluster_policy_binding_adapter_bindings ::
  "cluster_policy_binding \<Rightarrow> (string \<times> role_binding_if) list" where
  "cluster_policy_binding_adapter_bindings p =
     map (\<lambda>(key, b). (key, ClusterRoleBindingAdapter b)) (cpb_role_bindings p)"

lemma policy_adapter_roles_lookup:
  "map_of (policy_adapter_roles p) key = map_option RoleAdapter (map_of (pol_roles p) key)"
  by (simp add: policy_adapter_roles_def map_of_map case_prod_beta)

lemma cluster_policy_adapter_roles_lookup:
  "map_of (cluster_policy_adapter_roles p) key = map_option ClusterRoleAdapter (map_of (cpol_roles p) key)"
  by (simp add: cluster_policy_adapter_roles_def map_of_map case_prod_beta)

section \<open>Agreement of the membership tests with the reported sets\<close>

lemma plain_user_in_iff:
  "\<not> has_prefix user ServiceAccountUsernamePrefix \<Longrightarrow>
   plain_user_in subjects user \<longleftrightarrow> user \<in> set (fst (StringSubjectsFor ns subjects))"
proof (induction subjects)
  case (Cons s ss)
  have "user \<noteq> MakeUsername n m" for n m
    using Cons.prems by auto
  with Cons show ?case
    by (auto simp: Let_def kind_defs split: prod.splits)
qed simp

lemma sa_or_user_in_iff:
  "sa_or_user_in subjects ns user \<longleftrightarrow> user \<in> set (fst (StringSubjectsFor ns subjects))"
  by (induction subjects) (auto simp: Let_def kind_defs split: prod.splits)

lemma SubjectsContainUser_iff:
  "SubjectsContainUser subjects ns user \<longleftrightarrow> user \<in> set (fst (StringSubjectsFor ns subjects))"
  by (simp add: SubjectsContainUser_def plain_user_in_iff sa_or_user_in_iff)

lemma SubjectsContainAnyGroup_iff:
  "SubjectsContainAnyGroup subjects groups \<longleftrightarrow>
   (\<exists>g \<in> set groups. g \<in> set (snd (StringSubjectsFor ns subjects)))"
  by (induction subjects) (auto simp: Let_def kind_defs list_ex_iff split: prod.splits)

lemma AppliesToUser_Has:
  "AppliesToUser b user \<longleftrightarrow> Has (rb_if_users b) (ui_name user) \<or>
     (\<exists>g \<in> set (ui_groups user). Has (rb_if_groups b) g)"
  by (simp add: AppliesToUser_def rb_if_users_def rb_if_groups_def gset_simps
      SubjectsContainUser_iff SubjectsContainAnyGroup_iff [where ns = "rb_if_namespace b"])

text \<open>
  A binding applies to a user exactly when the user's name is in the binding's reported
  user set or one of the user's groups is in its reported group set, service accounts without
  an explicit namespace included.
\<close>

theorem AppliesToUser_iff_reported:
  "AppliesToUser b user \<longleftrightarrow>
     Has (rb_if_users b) (ui_name user) \<or> HasAny (rb_if_groups b) (ui_groups user)"
  by (simp add: AppliesToUser_Has HasAny_iff)

lemma build_user_subject_user:
  "StringSubjectsFor ns (build_user_subject v u # ss) =
     (let (users, groups) = StringSubjectsFor ns ss in (u # users, groups))"
proof (cases "SplitUsername u")
  case (Inl e)
  then show ?thesis
    by (simp add: build_user_subject_def subject_ref_def kind_defs Let_def split: prod.splits)
next
  case (Inr p)
  obtain n m where p: "p = (n, m)" by (cases p)
  with Inr have "u = MakeUsername n m" "0 < length n"
    by (auto simp: SplitUsername_Inr_iff IsDNS1123Label_Nil dns1123Label_match_def)
  with Inr p show ?thesis
    by (simp add: build_user_subject_def subject_ref_def kind_defs Let_def subject_namespace_def
        split: prod.splits)
qed

lemma build_group_subject_group:
  "StringSubjectsFor ns (build_group_subject v g # ss) =
     (let (users, groups) = StringSubjectsFor ns ss in (users, g # groups))"
  by (simp add: build_group_subject_def subject_ref_def kind_defs Let_def split: prod.splits)

lemma StringSubjectsFor_groups:
  "StringSubjectsFor ns (map (build_group_subject v) groups) = ([], groups)"
  by (induction groups) (simp_all add: build_group_subject_group del: StringSubjectsFor.simps(2))

text \<open>
  The subjects built from user and group names stand for exactly these names again,
  whatever the name validators say and in whatever namespace they are read back: service
  account users survive the detour through a namespaced reference.
\<close>

theorem BuildSubjects_roundtrip:
  "StringSubjectsFor ns (BuildSubjects users groups v w) = (users, groups)"
  unfolding BuildSubjects_def
  by (induction users)
    (simp_all add: StringSubjectsFor_groups build_user_subject_user del: StringSubjectsFor.simps(2))

end
