(* ===== verification/Rule_Match.thy ===== *)
theory Rule_Match
  imports Subjects
begin

text \<open>
  Matching a request against a policy rule: \<open>origin/pkg/authorization/authorizer/attributes.go\<close>,
  \<open>personal_subjectaccessreview.go\<close>, the request-to-attributes step
  (\<open>attributes_builder.go\<close>, \<open>browser_safe_request_info_resolver.go\<close>) and the conversion to and
  from Kubernetes attributes (\<open>adapter/attributes.go\<close>).

  Reading the body of an HTTP request and decoding it with the API codec are part of the
  request here: \<open>http_body\<close> is what reading returns, \<open>http_decode\<close> what the codec makes of it.
  The request info factory is a parameter of \<open>GetAttributes\<close> and \<open>NewRequestInfo\<close>.
\<close>

section \<open>Requests and attributes\<close>

record http_request =
  http_method :: string
  http_headers :: "(string \<times> string) list"
  http_body :: "go_error + string"
  http_decode :: "string \<Rightarrow> go_error + runtime_object"

datatype request_attributes =
    ReqNil
  | ReqHTTP http_request
  | ReqSAR subject_access_review
  | ReqLocalSAR local_subject_access_review
  | ReqOther string

record auth_attributes =
  aa_verb :: string
  aa_api_version :: string
  aa_api_group :: string
  aa_resource :: string
  aa_resource_name :: string
  aa_request_attributes :: request_attributes
  aa_non_resource_url :: bool
  aa_url :: string

definition zero_attributes :: auth_attributes where
  "zero_attributes =
     \<lparr>aa_verb = [], aa_api_version = [], aa_api_group = [], aa_resource = [],
      aa_resource_name = [], aa_request_attributes = ReqNil, aa_non_resource_url = False, aa_url = []\<rparr>"

definition ToDefaultAuthorizationAttributes :: "action \<Rightarrow> auth_attributes" where
  "ToDefaultAuthorizationAttributes a = zero_attributes\<lparr>
     aa_verb := act_verb a, aa_api_group := act_group a, aa_api_version := act_version a,
     aa_resource := act_resource a, aa_resource_name := act_resource_name a, aa_url := act_path a,
     aa_non_resource_url := act_is_non_resource_url a\<rparr>"

section \<open>Personal access reviews\<close>

definition isPersonalAccessReviewFromSAR :: "subject_access_review \<Rightarrow> bool" where
  "isPersonalAccessReviewFromSAR sar =
     (if length (sar_user sar) = 0 \<and> length (elems (sar_groups sar)) = 0 then True else False)"

definition isPersonalAccessReviewFromLocalSAR :: "local_subject_access_review \<Rightarrow> bool" where
  "isPersonalAccessReviewFromLocalSAR sar =
     (if length (lsar_user sar) = 0 \<and> length (elems (lsar_groups sar)) = 0 then True else False)"

definition isPersonalAccessReviewFromRequest :: "http_request \<Rightarrow> bool \<times> go_error option" where
  "isPersonalAccessReviewFromRequest req =
     (case http_body req of
        Inl err \<Rightarrow> (False, Some err)
      | Inr body \<Rightarrow>
          (case http_decode req body of
             Inl err \<Rightarrow> (False, Some err)
           | Inr obj \<Rightarrow>
               (case obj of
                  ObjSAR sar \<Rightarrow> (isPersonalAccessReviewFromSAR sar, None)
                | ObjLocalSAR sar \<Rightarrow> (isPersonalAccessReviewFromLocalSAR sar, None)
                | _ \<Rightarrow> (False, None))))"

definition IsPersonalAccessReview :: "auth_attributes \<Rightarrow> bool \<times> go_error option" where
  "IsPersonalAccessReview a =
     (case aa_request_attributes a of
        ReqHTTP req \<Rightarrow> isPersonalAccessReviewFromRequest req
      | ReqSAR sar \<Rightarrow> (isPersonalAccessReviewFromSAR sar, None)
      | ReqLocalSAR sar \<Rightarrow> (isPersonalAccessReviewFromLocalSAR sar, None)
      | _ \<Rightarrow> (False, Some (Errorf ''unexpected request attributes for checking personal access review: %v'' [])))"

section \<open>Rule matching\<close>

fun apiGroupMatches :: "auth_attributes \<Rightarrow> string list \<Rightarrow> bool" where
  "apiGroupMatches a [] = False"
| "apiGroupMatches a (allowedGroup # allowedGroups) =
     (if allowedGroup = APIGroupAll then True
      else if to_lower allowedGroup = to_lower (aa_api_group a) then True
      else apiGroupMatches a allowedGroups)"

definition verbMatches :: "auth_attributes \<Rightarrow> sset \<Rightarrow> bool" where
  "verbMatches a verbs \<longleftrightarrow> Has verbs VerbAll \<or> Has verbs (to_lower (aa_verb a))"

definition resourceMatches :: "auth_attributes \<Rightarrow> sset \<Rightarrow> bool" where
  "resourceMatches a allowed \<longleftrightarrow> Has allowed ResourceAll \<or> Has allowed (to_lower (aa_resource a))"

definition nameMatches :: "auth_attributes \<Rightarrow> sset \<Rightarrow> bool" where
  "nameMatches a allowed = (if length (elems allowed) = 0 then True else Has allowed (aa_resource_name a))"

fun url_matches_any :: "string \<Rightarrow> string list \<Rightarrow> bool" where
  "url_matches_any url [] = False"
| "url_matches_any url (allowed # rest) =
     (if has_suffix allowed ''*'' \<and> has_prefix url (take (length allowed - 1) allowed) then True
      else if url = allowed then True
      else url_matches_any url rest)"

definition nonResourceMatches :: "auth_attributes \<Rightarrow> policy_rule \<Rightarrow> bool" where
  "nonResourceMatches a rule = url_matches_any (aa_url a) (elems (pr_non_resource_urls rule))"

definition RuleMatches :: "auth_attributes \<Rightarrow> policy_rule \<Rightarrow> bool \<times> go_error option" where
  "RuleMatches a rule =
     (if aa_non_resource_url a then
        (if nonResourceMatches a rule then
           (if verbMatches a (pr_verbs rule) then (True, None) else (False, None))
         else (False, None))
      else if verbMatches a (pr_verbs rule) then
        (if apiGroupMatches a (pr_api_groups rule) then
           (let allowedResourceTypes = NormalizeResources (pr_resources rule) in
            if resourceMatches a allowedResourceTypes then
              (if nameMatches a (pr_resource_names rule) then
                 (case pr_attribute_restrictions rule of
                    None \<Rightarrow> (True, None)
                  | Some (IsPersonalSubjectAccessReview _) \<Rightarrow> IsPersonalAccessReview a
                  | Some (OtherRestriction r) \<Rightarrow> (False, Some (Errorf ''unable to interpret: %#v'' [r])))
               else (False, None))
            else (False, None))
         else (False, None))
      else (False, None))"

lemma apiGroupMatches_iff:
  "apiGroupMatches a gs \<longleftrightarrow> (\<exists>g \<in> set gs. g = APIGroupAll \<or> to_lower g = to_lower (aa_api_group a))"
  by (induction gs) auto

definition url_matches :: "string \<Rightarrow> string \<Rightarrow> bool" where
  "url_matches url allowed \<longleftrightarrow>
     url = allowed \<or> (has_suffix allowed ''*'' \<and> has_prefix url (take (length allowed - 1) allowed))"

lemma url_matches_any_iff: "url_matches_any url us \<longleftrightarrow> (\<exists>u \<in> set us. url_matches url u)"
  by (induction us) (auto simp: url_matches_def)

lemma resourceMatches_iff:
  "resourceMatches a (NormalizeResources s) \<longleftrightarrow>
   (\<exists>r. Has s r \<and> (expands groupsToResources r ResourceAll \<or>
      expands groupsToResources r (to_lower (aa_resource a))))"
  by (auto simp: resourceMatches_def NormalizeResources_def Has_normalize_with)

text \<open>What a rule without attribute restrictions allows, as one condition.\<close>

definition rule_allows :: "policy_rule \<Rightarrow> auth_attributes \<Rightarrow> bool" where
  "rule_allows rule a \<longleftrightarrow>
     verbMatches a (pr_verbs rule) \<and>
     (if aa_non_resource_url a then (\<exists>u. Has (pr_non_resource_urls rule) u \<and> url_matches (aa_url a) u)
      else apiGroupMatches a (pr_api_groups rule) \<and>
        resourceMatches a (NormalizeResources (pr_resources rule)) \<and>
        nameMatches a (pr_resource_names rule))"

lemma RuleMatches_allows: "fst (RuleMatches a rule) \<Longrightarrow> rule_allows rule a"
  by (auto simp: RuleMatches_def rule_allows_def nonResourceMatches_def url_matches_any_iff Let_def
      Has_def split: if_splits)

lemma RuleMatches_unrestricted:
  "pr_attribute_restrictions rule = None \<Longrightarrow> RuleMatches a rule = (rule_allows rule a, None)"
  by (auto simp: RuleMatches_def rule_allows_def nonResourceMatches_def url_matches_any_iff Let_def
      Has_def)

section \<open>From a request to attributes\<close>

record request_info =
  ri_is_resource_request :: bool
  ri_path :: string
  ri_verb :: string
  ri_api_prefix :: string
  ri_api_group :: string
  ri_api_version :: string
  ri_namespace :: string
  ri_resource :: string
  ri_subresource :: string
  ri_name :: string
  ri_parts :: "string list"

type_synonym info_factory = "http_request \<Rightarrow> request_info \<times> go_error option"

definition GetAttributes :: "info_factory \<Rightarrow> http_request \<Rightarrow> go_error + auth_attributes" where
  "GetAttributes infoFactory req =
     (let (info, err) = infoFactory req in
      case err of
        Some e \<Rightarrow> Inl e
      | None \<Rightarrow>
          (if \<not> ri_is_resource_request info then
             Inr (zero_attributes\<lparr>aa_verb := to_lower (http_method req), aa_non_resource_url := True,
                    aa_url := ri_path info\<rparr>)
           else
             (let resource = (if 0 < length (ri_subresource info)
                              then ri_resource info @ ''/'' @ ri_subresource info
                              else ri_resource info) in
              Inr \<lparr>aa_verb = ri_verb info, aa_api_version = ri_api_version info,
                   aa_api_group = ri_api_group info, aa_resource = resource,
                   aa_resource_name = ri_name info, aa_request_attributes = ReqHTTP req,
                   aa_non_resource_url = False, aa_url = ri_path info\<rparr>)))"

text \<open>
  The browser-safe resolver: \<open>contextMapper\<close> gives the context of the request, \<open>None\<close> when it
  has none, and in it the user, \<open>None\<close> when there is none.
\<close>

definition NewRequestInfo ::
  "(http_request \<Rightarrow> user_info option option) \<Rightarrow> sset \<Rightarrow> info_factory \<Rightarrow> info_factory" where
  "NewRequestInfo contextMapper authenticatedGroups infoFactory req =
     (let (info, err) = infoFactory req in
      case err of
        Some e \<Rightarrow> (info, Some e)
      | None \<Rightarrow>
          (if \<not> ri_is_resource_request info then (info, None)
           else
             (let isProxyVerb = (ri_verb info = ''proxy'');
                  isProxySubresource = (ri_subresource info = ''proxy'') in
              if \<not> isProxyVerb \<and> \<not> isProxySubresource then (info, None)
              else if 0 < length (case map_of (http_headers req) ''X-CSRF-Token'' of None \<Rightarrow> [] | Some v \<Rightarrow> v)
                then (info, None)
              else if (case contextMapper req of
                         Some (Some user) \<Rightarrow> HasAny authenticatedGroups (ui_groups user)
                       | _ \<Rightarrow> False)
                then (info, None)
              else
                (let info1 = (if isProxyVerb then info\<lparr>ri_verb := ''unsafeproxy''\<rparr> else info) in
                 (if isProxySubresource then info1\<lparr>ri_subresource := ''unsafeproxy''\<rparr> else info1, None)))))"

text \<open>
  A resource request that carries no CSRF token and no user of an authenticated group never
  reaches authorization as a plain proxy request: neither its verb nor its subresource is
  \<open>proxy\<close>, so a rule granting \<open>proxy\<close> does not cover what a browser can be made to send.
\<close>

theorem browser_requests_are_unsafe_proxy:
  assumes "snd (infoFactory req) = None"
    and "ri_is_resource_request (fst (infoFactory req))"
    and "map_of (http_headers req) ''X-CSRF-Token'' \<in> {None, Some []}"
    and "case contextMapper req of Some (Some user) \<Rightarrow> \<not> HasAny authGroups (ui_groups user) | _ \<Rightarrow> True"
  shows "ri_verb (fst (NewRequestInfo contextMapper authGroups infoFactory req)) \<noteq> ''proxy'' \<and>
         ri_subresource (fst (NewRequestInfo contextMapper authGroups infoFactory req)) \<noteq> ''proxy'' \<and>
         snd (NewRequestInfo contextMapper authGroups infoFactory req) = None"
  using assms
  by (cases "infoFactory req") (auto simp: NewRequestInfo_def Let_def split: option.splits)

definition sample_request :: http_request where
  "sample_request = \<lparr>http_method = ''GET'', http_headers = [], http_body = Inr [],
     http_decode = (\<lambda>_. Inr (ObjOther []))\<rparr>"

definition sample_proxy_info :: request_info where
  "sample_proxy_info = \<lparr>ri_is_resource_request = True, ri_path = ''/api/v1/proxy/x'', ri_verb = ''proxy'',
     ri_api_prefix = ''api'', ri_api_group = [], ri_api_version = ''v1'', ri_namespace = ''ns'',
     ri_resource = ''pods'', ri_subresource = [], ri_name = ''p'', ri_parts = []\<rparr>"

theorem browser_requests_are_unsafe_proxy_witness:
  "ri_verb (fst (NewRequestInfo (\<lambda>_. None) (NewString [''system:authenticated''])
      (\<lambda>_. (sample_proxy_info, None)) sample_request)) \<noteq> ''proxy''"
  by (rule browser_requests_are_unsafe_proxy [THEN conjunct1])
    (simp_all add: sample_request_def sample_proxy_info_def)

section \<open>Kubernetes attributes\<close>

text \<open>
  \<open>AdapterAttributes\<close> is the origin implementation of the Kubernetes attributes interface; any
  other implementation is seen through its getters.
\<close>

record adapter_attributes =
  ad_namespace :: string
  ad_user :: user_info
  ad_attributes :: auth_attributes

record k8s_attributes =
  ka_namespace :: string
  ka_user :: user_info
  ka_verb :: string
  ka_api_group :: string
  ka_api_version :: string
  ka_resource :: string
  ka_subresource :: string
  ka_name :: string
  ka_is_resource_request :: bool
  ka_path :: string

datatype k8s_attributes_if = Adapter adapter_attributes | OtherAttributes k8s_attributes

definition adapter_GetSubresource :: "adapter_attributes \<Rightarrow> string" where
  "adapter_GetSubresource a =
     (let tokens = splitN2 CHR ''/'' (aa_resource (ad_attributes a))
      in if length tokens \<noteq> 2 then [] else tokens ! 1)"

definition adapter_GetResource :: "adapter_attributes \<Rightarrow> string" where
  "adapter_GetResource a =
     (let tokens = splitN2 CHR ''/'' (aa_resource (ad_attributes a))
      in if length tokens < 1 then [] else tokens ! 0)"

definition adapter_IsReadOnly :: "adapter_attributes \<Rightarrow> bool" where
  "adapter_IsReadOnly a \<longleftrightarrow> aa_verb (ad_attributes a) \<in> {''get'', ''list'', ''watch''}"

definition KubernetesAuthorizerAttributes ::
  "string \<Rightarrow> user_info \<Rightarrow> auth_attributes \<Rightarrow> k8s_attributes_if" where
  "KubernetesAuthorizerAttributes namespace user oattrs =
     Adapter \<lparr>ad_namespace = namespace, ad_user = user, ad_attributes = oattrs\<rparr>"

text \<open>What the getters of the interface return for an \<open>AdapterAttributes\<close>.\<close>

definition adapter_view :: "adapter_attributes \<Rightarrow> k8s_attributes" where
  "adapter_view a =
     \<lparr>ka_namespace = ad_namespace a, ka_user = ad_user a, ka_verb = aa_verb (ad_attributes a),
      ka_api_group = aa_api_group (ad_attributes a), ka_api_version = aa_api_version (ad_attributes a),
      ka_resource = adapter_GetResource a, ka_subresource = adapter_GetSubresource a,
      ka_name = aa_resource_name (ad_attributes a),
      ka_is_resource_request = (\<not> aa_non_resource_url (ad_attributes a)),
      ka_path = aa_url (ad_attributes a)\<rparr>"

text \<open>The context is the pair of namespace and user.\<close>

definition build_origin_attributes :: "k8s_attributes \<Rightarrow> auth_attributes" where
  "build_origin_attributes k =
     (let o' = \<lparr>aa_verb = ka_verb k, aa_api_version = ka_api_version k, aa_api_group = ka_api_group k,
               aa_resource = ka_resource k, aa_resource_name = ka_name k, aa_request_attributes = ReqNil,
               aa_non_resource_url = (ka_is_resource_request k = False), aa_url = ka_path k\<rparr>
      in if 0 < length (ka_subresource k)
         then o'\<lparr>aa_resource := ka_resource k @ ''/'' @ ka_subresource k\<rparr> else o')"

fun OriginAuthorizerAttributes ::
  "k8s_attributes_if \<Rightarrow> (string \<times> user_info) \<times> auth_attributes" where
  "OriginAuthorizerAttributes (Adapter a) = ((ad_namespace a, ad_user a), ad_attributes a)"
| "OriginAuthorizerAttributes (OtherAttributes k) = ((ka_namespace k, ka_user k), build_origin_attributes k)"

lemma splitN2_join: "sep \<in> set s \<Longrightarrow> \<exists>a b. splitN2 sep s = [a, b] \<and> s = a @ sep # b"
proof -
  assume s: "sep \<in> set s"
  then have "\<exists>b. dropWhile (\<lambda>c. c \<noteq> sep) s = sep # b"
    by (induction s) auto
  then obtain b where b: "dropWhile (\<lambda>c. c \<noteq> sep) s = sep # b" ..
  have j: "takeWhile (\<lambda>c. c \<noteq> sep) s @ sep # b = s"
    using takeWhile_dropWhile_id [of "\<lambda>c. c \<noteq> sep" s] by (simp only: b)
  have "splitN2 sep s = [takeWhile (\<lambda>c. c \<noteq> sep) s, b]"
    using s by (simp add: splitN2_def b)
  with j show ?thesis by metis
qed

text \<open>
  Converting origin attributes to Kubernetes attributes and back is the identity, and even a
  foreign implementation that copies what the getters return loses only the raw request, unless
  the resource ends in an empty subresource.
\<close>

theorem attributes_roundtrip:
  assumes "\<not> has_suffix (aa_resource oattrs) ''/''"
  shows "OriginAuthorizerAttributes (KubernetesAuthorizerAttributes ns user oattrs) = ((ns, user), oattrs) \<and>
    OriginAuthorizerAttributes (OtherAttributes (adapter_view
        \<lparr>ad_namespace = ns, ad_user = user, ad_attributes = oattrs\<rparr>)) =
      ((ns, user), oattrs\<lparr>aa_request_attributes := ReqNil\<rparr>)"
proof (cases "CHR ''/'' \<in> set (aa_resource oattrs)")
  case True
  then obtain a b where s: "splitN2 CHR ''/'' (aa_resource oattrs) = [a, b]"
    and r: "aa_resource oattrs = a @ CHR ''/'' # b"
    using splitN2_join by blast
  from r assms have ne: "b \<noteq> []" by auto
  have "a @ CHR ''/'' # b = aa_resource oattrs" using r by simp
  with s ne show ?thesis
    by (simp add: KubernetesAuthorizerAttributes_def adapter_view_def build_origin_attributes_def
        adapter_GetResource_def adapter_GetSubresource_def Let_def)
next
  case False
  then show ?thesis
    by (simp add: KubernetesAuthorizerAttributes_def adapter_view_def build_origin_attributes_def
        adapter_GetResource_def adapter_GetSubresource_def Let_def splitN2_def)
qed

definition sample_user :: user_info where
  "sample_user = \<lparr>ui_name = ''alice'', ui_uid = [], ui_groups = [''devs''], ui_extra = []\<rparr>"

theorem attributes_roundtrip_witness:
  "OriginAuthorizerAttributes (KubernetesAuthorizerAttributes ''ns'' sample_user
     (zero_attributes\<lparr>aa_resource := ''pods/log''\<rparr>)) =
   ((''ns'', sample_user), zero_attributes\<lparr>aa_resource := ''pods/log''\<rparr>)"
  by (rule attributes_roundtrip [THEN conjunct1]) (simp add: has_suffix_def)

end
