(* ===== verification/Rule_Cover.thy ===== *)
theory Rule_Cover
  imports Rule_Match
begin

text \<open>
  Coverage of one set of rules by another (\<open>origin/pkg/authorization/rulevalidation/user_covers.go\<close>)
  and the compaction of rules that differ only by verb (\<open>compact_rules.go\<close>).  Coverage is the
  check that keeps a user from granting more than they have; its soundness is stated against
  the matching of requests in \<open>Rule_Match\<close>.
\<close>

section \<open>Coverage\<close>

definition breakdownRuleForGroup :: "string \<Rightarrow> policy_rule \<Rightarrow> policy_rule list" where
  "breakdownRuleForGroup grp rule =
     concat (map (\<lambda>resource. concat (map (\<lambda>verb.
       if 0 < length (elems (pr_resource_names rule)) then
         map (\<lambda>resourceName. zero_rule\<lparr>pr_api_groups := [grp], pr_resources := NewString [resource],
                pr_verbs := NewString [verb], pr_resource_names := NewString [resourceName]\<rparr>)
             (SList (pr_resource_names rule))
       else [zero_rule\<lparr>pr_api_groups := [grp], pr_resources := NewString [resource],
                pr_verbs := NewString [verb]\<rparr>])
       (elems (pr_verbs rule)))) (elems (NormalizeResources (pr_resources rule))))"

definition BreakdownRule :: "policy_rule \<Rightarrow> policy_rule list" where
  "BreakdownRule rule =
     concat (map (\<lambda>grp. breakdownRuleForGroup grp rule) (pr_api_groups rule)) @
     (if length (pr_api_groups rule) = 0
      then map (\<lambda>subrule. subrule\<lparr>pr_api_groups := []\<rparr>) (breakdownRuleForGroup [] rule) else []) @
     concat (map (\<lambda>nonResourceURL. map (\<lambda>verb.
         zero_rule\<lparr>pr_verbs := NewString [verb], pr_non_resource_urls := NewString [nonResourceURL]\<rparr>)
       (elems (pr_verbs rule))) (elems (pr_non_resource_urls rule)))"

text \<open>
  \<open>prefixMatch\<close> is declared false and never assigned, and a wildcard match returns from the
  whole function.
\<close>

fun wildcard_allows :: "string list \<Rightarrow> string \<Rightarrow> bool" where
  "wildcard_allows [] requestedPath = False"
| "wildcard_allows (allowedPath # rest) requestedPath =
     (if has_suffix allowedPath ''*'' \<and>
         has_prefix requestedPath (take (length allowedPath - 1) allowedPath)
      then True else wildcard_allows rest requestedPath)"

fun nonResource_loop :: "sset \<Rightarrow> string list \<Rightarrow> bool" where
  "nonResource_loop allowedPaths [] = True"
| "nonResource_loop allowedPaths (requestedPath # rest) =
     (if Has allowedPaths requestedPath then nonResource_loop allowedPaths rest
      else if wildcard_allows (elems allowedPaths) requestedPath then True
      else False)"

definition nonResourceRuleCovers :: "sset \<Rightarrow> sset \<Rightarrow> bool" where
  "nonResourceRuleCovers allowedPaths requestedPaths =
     (if Has allowedPaths NonResourceAll then True
      else nonResource_loop allowedPaths (elems requestedPaths))"

definition ruleCovers :: "policy_rule \<Rightarrow> policy_rule \<Rightarrow> bool" where
  "ruleCovers ownerRule subrule =
     (let allResources = NormalizeResources (pr_resources ownerRule);
          ownerGroups = NewString (pr_api_groups ownerRule);
          groupMatches = Has ownerGroups APIGroupAll \<or> HasAll ownerGroups (pr_api_groups subrule) \<or>
            (length (pr_api_groups ownerRule) = 0 \<and> length (pr_api_groups subrule) = 0);
          verbMatches' = Has (pr_verbs ownerRule) VerbAll \<or>
            HasAll (pr_verbs ownerRule) (SList (pr_verbs subrule));
          resourceMatches' = Has (pr_resources ownerRule) ResourceAll \<or>
            HasAll allResources (SList (pr_resources subrule));
          resourceNameMatches =
            (if length (elems (pr_resource_names subrule)) = 0
             then length (elems (pr_resource_names ownerRule)) = 0
             else length (elems (pr_resource_names ownerRule)) = 0 \<or>
               HasAll (pr_resource_names ownerRule) (SList (pr_resource_names subrule)));
          nonResourceCovers = nonResourceRuleCovers (pr_non_resource_urls ownerRule)
            (pr_non_resource_urls subrule)
      in verbMatches' \<and> resourceMatches' \<and> resourceNameMatches \<and> groupMatches \<and> nonResourceCovers)"

definition Covers :: "policy_rule list \<Rightarrow> policy_rule list \<Rightarrow> bool \<times> policy_rule list" where
  "Covers ownerRules servantRules =
     (let subrules = concat (map BreakdownRule servantRules);
          uncoveredRules = filter (\<lambda>subrule. \<not> list_ex (\<lambda>ownerRule. ruleCovers ownerRule subrule) ownerRules) subrules
      in (length uncoveredRules = 0, uncoveredRules))"

section \<open>Compaction\<close>

type_synonym group_resource = "string \<times> string"

text \<open>
  \<open>reflect.DeepEqual\<close> against a rule that holds only groups, resources and verbs: the other sets
  must be nil, not merely empty.
\<close>

definition isSimpleResourceRule :: "policy_rule \<Rightarrow> group_resource option" where
  "isSimpleResourceRule rule =
     (if 0 < length (elems (pr_resource_names rule)) \<or> 0 < length (elems (pr_non_resource_urls rule)) \<or>
         pr_attribute_restrictions rule \<noteq> None then None
      else if length (pr_api_groups rule) \<noteq> 1 \<or> length (elems (pr_resources rule)) \<noteq> 1 then None
      else if pr_resource_names rule \<noteq> None \<or> pr_non_resource_urls rule \<noteq> None then None
      else Some (pr_api_groups rule ! 0, SList (pr_resources rule) ! 0))"

text \<open>The map of simple rules, in the order of first insertion; the deep copy cannot fail.\<close>

fun add_simple :: "group_resource \<Rightarrow> policy_rule \<Rightarrow> (group_resource \<times> policy_rule) list \<Rightarrow>
    (group_resource \<times> policy_rule) list" where
  "add_simple resource rule [] = [(resource, rule)]"
| "add_simple resource rule ((r, existingRule) # rest) =
     (if r = resource then
        (r, existingRule\<lparr>pr_verbs := Some (Insert (elems (pr_verbs existingRule)) (SList (pr_verbs rule)))\<rparr>) # rest
      else (r, existingRule) # add_simple resource rule rest)"

fun compact_loop :: "policy_rule list \<Rightarrow> policy_rule list \<Rightarrow> (group_resource \<times> policy_rule) list \<Rightarrow>
    policy_rule list \<times> (group_resource \<times> policy_rule) list" where
  "compact_loop [] compacted simpleRules = (compacted, simpleRules)"
| "compact_loop (rule # rules) compacted simpleRules =
     (case isSimpleResourceRule rule of
        Some resource \<Rightarrow> compact_loop rules compacted (add_simple resource rule simpleRules)
      | None \<Rightarrow> compact_loop rules (compacted @ [rule]) simpleRules)"

definition CompactRules :: "policy_rule list \<Rightarrow> policy_rule list" where
  "CompactRules rules =
     (let (compacted, simpleRules) = compact_loop rules [] [] in compacted @ map snd simpleRules)"

section \<open>Coverage is sound\<close>

text \<open>The requests that a list of rules, read without their restrictions, allows.\<close>

definition allowed_by :: "policy_rule list \<Rightarrow> auth_attributes \<Rightarrow> bool" where
  "allowed_by rules a \<longleftrightarrow> (\<exists>rule \<in> set rules. rule_allows rule a)"

lemma wildcard_allows_iff:
  "wildcard_allows us p \<longleftrightarrow> (\<exists>u \<in> set us. has_suffix u ''*'' \<and> has_prefix p (take (length u - 1) u))"
  by (induction us) auto

text \<open>
  A wildcard that itself ends in a wildcard (\<open>/a**\<close>) covers the path pattern \<open>/a*\<close> by prefix,
  although it matches fewer URLs; such owner entries are excluded.
\<close>

definition single_wildcard :: "policy_rule \<Rightarrow> bool" where
  "single_wildcard rule \<longleftrightarrow> list_all (\<lambda>u. \<not> has_suffix u ''**'') (elems (pr_non_resource_urls rule))"

lemma wildcard_covers_pattern:
  assumes u: "has_suffix u ''*''" "\<not> has_suffix u ''**''"
    and p: "has_prefix p (take (length u - 1) u)"
    and m: "url_matches url p"
  shows "url_matches url u"
proof -
  obtain w where w: "u = w @ ''*''" using u(1) by (auto simp: has_suffix_iff)
  have pw: "has_prefix p w" using p w by simp
  have "has_prefix url w"
  proof (cases "url = p")
    case False
    with m obtain q where q: "p = q @ ''*''" and uq: "has_prefix url q"
      by (auto simp: url_matches_def has_suffix_iff)
    have "has_prefix q w"
    proof (rule ccontr)
      assume n: "\<not> has_prefix q w"
      from pw obtain t where t: "q @ ''*'' = w @ t" using q by (auto simp: has_prefix_iff)
      have "t = []"
      proof (rule ccontr)
        assume "t \<noteq> []"
        then obtain t' c where "t = t' @ [c]" by (metis rev_exhaust)
        with t have "q = w @ t'" by simp
        with n show False by simp
      qed
      with t have "w = q @ ''*''" by simp
      with w have "u = q @ ''**''" by simp
      with u(2) show False by simp
    qed
    with uq show ?thesis by (rule has_prefix_trans)
  qed (use pw in simp)
  with w show ?thesis by (simp add: url_matches_def)
qed

lemma nonResource_single:
  assumes "nonResourceRuleCovers (pr_non_resource_urls ownerRule) (NewString [p])"
    and "single_wildcard ownerRule" and "url_matches url p"
  shows "\<exists>u. Has (pr_non_resource_urls ownerRule) u \<and> url_matches url u"
proof (cases "Has (pr_non_resource_urls ownerRule) NonResourceAll")
  case True
  moreover have "url_matches url NonResourceAll"
    by (simp add: url_matches_def NonResourceAll_def has_suffix_def)
  ultimately show ?thesis by blast
next
  case False
  with assms(1) have "Has (pr_non_resource_urls ownerRule) p \<or>
      wildcard_allows (elems (pr_non_resource_urls ownerRule)) p"
    by (auto simp: nonResourceRuleCovers_def split: if_splits)
  then show ?thesis
  proof
    assume "wildcard_allows (elems (pr_non_resource_urls ownerRule)) p"
    then obtain u where "Has (pr_non_resource_urls ownerRule) u" and "has_suffix u ''*''"
      and "has_prefix p (take (length u - 1) u)"
      by (auto simp: wildcard_allows_iff Has_def)
    with assms(2,3) wildcard_covers_pattern show ?thesis
      by (fastforce simp: single_wildcard_def list_all_iff Has_def)
  qed (use assms(3) in blast)
qed

text \<open>Every request a rule allows is allowed by one of the pieces it is broken into.\<close>

lemma breakdownRuleForGroup_iff:
  "s \<in> set (breakdownRuleForGroup g rule) \<longleftrightarrow>
   (\<exists>r v. Has (NormalizeResources (pr_resources rule)) r \<and> Has (pr_verbs rule) v \<and>
     (if elems (pr_resource_names rule) = []
      then s = zero_rule\<lparr>pr_api_groups := [g], pr_resources := NewString [r], pr_verbs := NewString [v]\<rparr>
      else \<exists>n. Has (pr_resource_names rule) n \<and>
        s = zero_rule\<lparr>pr_api_groups := [g], pr_resources := NewString [r],
              pr_verbs := NewString [v], pr_resource_names := NewString [n]\<rparr>))"
  by (auto simp: breakdownRuleForGroup_def Has_def)

lemma star_expands [simp]: "expands groups ResourceAll x \<longleftrightarrow> x = ResourceAll"
proof -
  have "\<not> needsNormalizing ResourceAll"
    by (simp add: needsNormalizing_def ResourceAll_def resourceGroupPrefix_def has_prefix_def is_upper_def)
  then show ?thesis by (rule not_needsNormalizing_expands)
qed

lemma Has_NormalizeResources_star: "Has s ResourceAll \<Longrightarrow> Has (NormalizeResources s) ResourceAll"
  by (auto simp: NormalizeResources_def Has_normalize_with)

lemma ruleCovers_verbs:
  "ruleCovers r s \<Longrightarrow> elems (pr_verbs s) = [v] \<Longrightarrow> Has (pr_verbs r) VerbAll \<or> Has (pr_verbs r) v"
  by (auto simp: ruleCovers_def Let_def HasAll_iff)

lemma ruleCovers_groups:
  "ruleCovers r s \<Longrightarrow> pr_api_groups s = [g] \<Longrightarrow> APIGroupAll \<in> set (pr_api_groups r) \<or> g \<in> set (pr_api_groups r)"
  by (auto simp: ruleCovers_def Let_def gset_simps)

lemma ruleCovers_resources:
  "ruleCovers r s \<Longrightarrow> elems (pr_resources s) = [x] \<Longrightarrow>
   Has (NormalizeResources (pr_resources r)) ResourceAll \<or> Has (NormalizeResources (pr_resources r)) x"
  by (auto simp: ruleCovers_def Let_def HasAll_iff dest: Has_NormalizeResources_star)

lemma ruleCovers_names:
  "ruleCovers r s \<Longrightarrow> elems (pr_resource_names s) = [] \<Longrightarrow> elems (pr_resource_names r) = []"
  "ruleCovers r s \<Longrightarrow> elems (pr_resource_names s) = [n] \<Longrightarrow>
     elems (pr_resource_names r) = [] \<or> Has (pr_resource_names r) n"
  by (auto simp: ruleCovers_def Let_def HasAll_iff split: if_splits)

lemma ruleCovers_urls:
  "ruleCovers r s \<Longrightarrow> nonResourceRuleCovers (pr_non_resource_urls r) (pr_non_resource_urls s)"
  by (simp add: ruleCovers_def Let_def)

lemmas ruleCovers_dests = ruleCovers_verbs ruleCovers_groups ruleCovers_resources ruleCovers_names
  ruleCovers_urls

lemma verbMatches_mono:
  "verbMatches a (NewString [v]) \<Longrightarrow> Has s VerbAll \<or> Has s v \<Longrightarrow> verbMatches a s"
  by (auto simp: verbMatches_def gset_simps)

lemma verbMatches_piece: "verbMatches a s \<Longrightarrow> \<exists>v. Has s v \<and> verbMatches a (NewString [v])"
  by (auto simp: verbMatches_def gset_simps)

lemma resourceMatches_mono:
  "resourceMatches a (NewString [x]) \<Longrightarrow> Has s ResourceAll \<or> Has s x \<Longrightarrow> resourceMatches a s"
  by (auto simp: resourceMatches_def gset_simps)

lemma resourceMatches_piece:
  "resourceMatches a s \<Longrightarrow> \<exists>x. Has s x \<and> resourceMatches a (NewString [x])"
  by (auto simp: resourceMatches_def gset_simps)

lemma apiGroupMatches_mono:
  "apiGroupMatches a [g] \<Longrightarrow> APIGroupAll \<in> set gs \<or> g \<in> set gs \<Longrightarrow> apiGroupMatches a gs"
  by (auto simp: apiGroupMatches_iff)

lemma nameMatches_cases:
  "nameMatches a s \<longleftrightarrow> elems s = [] \<or> Has s (aa_resource_name a)"
  by (auto simp: nameMatches_def)

text \<open>
  A piece of a rule that allows a request, described by what it holds: either a verb and a URL
  pattern, or a verb, a group, a resource and at most one name.
\<close>

definition url_piece :: "string \<Rightarrow> string \<Rightarrow> policy_rule" where
  "url_piece v u = zero_rule\<lparr>pr_verbs := NewString [v], pr_non_resource_urls := NewString [u]\<rparr>"

lemma BreakdownRule_url:
  "Has (pr_verbs rule) v \<Longrightarrow> Has (pr_non_resource_urls rule) u \<Longrightarrow> url_piece v u \<in> set (BreakdownRule rule)"
  by (auto simp: BreakdownRule_def url_piece_def Has_def)

lemma BreakdownRule_group:
  "g \<in> set (pr_api_groups rule) \<Longrightarrow> s \<in> set (breakdownRuleForGroup g rule) \<Longrightarrow> s \<in> set (BreakdownRule rule)"
  by (auto simp: BreakdownRule_def)

lemma BreakdownRule_resource:
  assumes "g \<in> set (pr_api_groups rule)" "Has (NormalizeResources (pr_resources rule)) x"
    "Has (pr_verbs rule) v" "nameMatches a (pr_resource_names rule)"
  obtains s where "s \<in> set (BreakdownRule rule)" "pr_api_groups s = [g]" "elems (pr_verbs s) = [v]"
    "elems (pr_resources s) = [x]"
    "elems (pr_resource_names s) = [] \<or> elems (pr_resource_names s) = [aa_resource_name a]"
proof (cases "elems (pr_resource_names rule) = []")
  case True
  let ?s = "zero_rule\<lparr>pr_api_groups := [g], pr_resources := NewString [x], pr_verbs := NewString [v]\<rparr>"
  have "?s \<in> set (breakdownRuleForGroup g rule)"
    using assms True by (auto simp: breakdownRuleForGroup_iff)
  then show ?thesis
    using that [of ?s] assms(1) BreakdownRule_group by (simp add: zero_rule_def)
next
  case False
  let ?s = "zero_rule\<lparr>pr_api_groups := [g], pr_resources := NewString [x], pr_verbs := NewString [v],
      pr_resource_names := NewString [aa_resource_name a]\<rparr>"
  have "?s \<in> set (breakdownRuleForGroup g rule)"
    using assms False by (auto simp: breakdownRuleForGroup_iff nameMatches_cases)
  then show ?thesis
    using that [of ?s] assms(1) BreakdownRule_group by simp
qed

lemma Covers_piece:
  "fst (Covers owners servants) \<Longrightarrow> r \<in> set servants \<Longrightarrow> s \<in> set (BreakdownRule r) \<Longrightarrow>
   \<exists>owner \<in> set owners. ruleCovers owner s"
  by (auto simp: Covers_def Let_def filter_empty_conv list_ex_iff)

lemma Covers_allowed_by:
  assumes c: "fst (Covers owners servants)"
    and sw: "\<forall>owner \<in> set owners. single_wildcard owner"
    and m: "allowed_by servants a"
  shows "allowed_by owners a"
proof -
  obtain r where r: "r \<in> set servants" and al: "rule_allows r a"
    using m by (auto simp: allowed_by_def)
  obtain v where v: "Has (pr_verbs r) v" "verbMatches a (NewString [v])"
    using al verbMatches_piece by (auto simp: rule_allows_def)
  show ?thesis
  proof (cases "aa_non_resource_url a")
    case True
    then obtain u where u: "Has (pr_non_resource_urls r) u" "url_matches (aa_url a) u"
      using al by (auto simp: rule_allows_def)
    obtain own where own: "own \<in> set owners" and cov: "ruleCovers own (url_piece v u)"
      using Covers_piece [OF c r BreakdownRule_url [OF v(1) u(1)]] by blast
    have "verbMatches a (pr_verbs own)"
      using ruleCovers_verbs [OF cov, of v] v(2) by (auto simp: url_piece_def intro: verbMatches_mono)
    moreover have "\<exists>w. Has (pr_non_resource_urls own) w \<and> url_matches (aa_url a) w"
      using ruleCovers_urls [OF cov] sw own u(2) nonResource_single [of own u "aa_url a"]
      by (simp add: url_piece_def)
    ultimately show ?thesis
      using True own by (auto simp: allowed_by_def rule_allows_def)
  next
    case False
    with al obtain g x where g: "g \<in> set (pr_api_groups r)" "apiGroupMatches a [g]"
      and x: "Has (NormalizeResources (pr_resources r)) x" "resourceMatches a (NewString [x])"
      and n: "nameMatches a (pr_resource_names r)"
      using resourceMatches_piece by (fastforce simp: rule_allows_def apiGroupMatches_iff)
    obtain s where s: "s \<in> set (BreakdownRule r)" "pr_api_groups s = [g]" "elems (pr_verbs s) = [v]"
        "elems (pr_resources s) = [x]"
        "elems (pr_resource_names s) = [] \<or> elems (pr_resource_names s) = [aa_resource_name a]"
      using BreakdownRule_resource [OF g(1) x(1) v(1) n] by blast
    obtain own where own: "own \<in> set owners" and cov: "ruleCovers own s"
      using Covers_piece [OF c r s(1)] by blast
    have "verbMatches a (pr_verbs own)"
      using ruleCovers_verbs [OF cov s(3)] v(2) verbMatches_mono by blast
    moreover have "apiGroupMatches a (pr_api_groups own)"
      using ruleCovers_groups [OF cov s(2)] g(2) apiGroupMatches_mono by blast
    moreover have "resourceMatches a (NormalizeResources (pr_resources own))"
      using ruleCovers_resources [OF cov s(4)] x(2) resourceMatches_mono by blast
    moreover have "nameMatches a (pr_resource_names own)"
      using ruleCovers_names [OF cov] s(5) by (auto simp: nameMatches_cases)
    ultimately show ?thesis
      using False own by (auto simp: allowed_by_def rule_allows_def)
  qed
qed

text \<open>
  C6: the escalation check is sound.  When the owner's rules carry no attribute restrictions and
  no double wildcard, \<open>Covers\<close> answers true only if every request some servant rule matches is
  matched, without error, by one of the owner's rules.
\<close>

theorem Covers_sound:
  assumes "fst (Covers ownerRules servantRules)"
    and "\<forall>r \<in> set ownerRules. single_wildcard r \<and> pr_attribute_restrictions r = None"
    and "servantRule \<in> set servantRules" and "fst (RuleMatches a servantRule)"
  shows "\<exists>ownerRule \<in> set ownerRules. RuleMatches a ownerRule = (True, None)"
proof -
  have "allowed_by servantRules a"
    using assms(3,4) RuleMatches_allows by (auto simp: allowed_by_def)
  then have "allowed_by ownerRules a"
    using Covers_allowed_by assms(1,2) by blast
  then show ?thesis
    using assms(2) by (auto simp: allowed_by_def RuleMatches_unrestricted)
qed

definition sample_owner :: policy_rule where
  "sample_owner = zero_rule\<lparr>pr_verbs := NewString [''*''], pr_non_resource_urls := NewString [''/api*'']\<rparr>"

definition sample_servant :: policy_rule where
  "sample_servant = zero_rule\<lparr>pr_verbs := NewString [''get''], pr_non_resource_urls := NewString [''/api/*'']\<rparr>"

definition sample_url_request :: auth_attributes where
  "sample_url_request = zero_attributes\<lparr>aa_verb := ''get'', aa_non_resource_url := True, aa_url := ''/api/v1''\<rparr>"

lemmas sample_defs = sample_owner_def sample_servant_def sample_url_request_def zero_rule_def
  zero_attributes_def NewString_def Insert_def ins1_def

lemma Covers_url_rules:
  "Covers [zero_rule\<lparr>pr_verbs := Some [v], pr_attribute_restrictions := res, pr_non_resource_urls := Some [u]\<rparr>]
     [zero_rule\<lparr>pr_verbs := Some [v'], pr_non_resource_urls := Some [u']\<rparr>] =
   (if (v = VerbAll \<or> v = v') \<and> nonResourceRuleCovers (Some [u]) (Some [u'])
    then (True, []) else (False, [zero_rule\<lparr>pr_verbs := Some [v'], pr_non_resource_urls := Some [u']\<rparr>]))"
  by (auto simp: Covers_def BreakdownRule_def breakdownRuleForGroup_def zero_rule_def ruleCovers_def
      NormalizeResources_def normalize_with_def Let_def gset_simps SList_def NewString_def Insert_def ins1_def)

theorem Covers_sound_witness:
  "\<exists>ownerRule \<in> set [sample_owner]. RuleMatches sample_url_request ownerRule = (True, None)"
proof (rule Covers_sound)
  show "fst (Covers [sample_owner] [sample_servant])"
    using Covers_url_rules [where v = "''*''" and res = None and u = "''/api*''" and v' = "''get''" and u' = "''/api/*''"]
    by (simp add: sample_defs VerbAll_def NonResourceAll_def nonResourceRuleCovers_def gset_simps
        has_suffix_def has_prefix_def)
  show "\<forall>r \<in> set [sample_owner]. single_wildcard r \<and> pr_attribute_restrictions r = None"
    by (simp add: single_wildcard_def sample_defs has_suffix_def)
  show "sample_servant \<in> set [sample_servant]" by simp
  show "fst (RuleMatches sample_url_request sample_servant)"
    by (simp add: RuleMatches_unrestricted rule_allows_def sample_defs verbMatches_def gset_simps
        url_matches_def has_suffix_def has_prefix_def to_lower_def lower_char_def is_upper_def VerbAll_def)
qed

definition restricted_review_rule :: "restriction option \<Rightarrow> policy_rule" where
  "restricted_review_rule res = zero_rule\<lparr>pr_verbs := Some [''create''], pr_api_groups := [[]],
     pr_resources := Some [''subjectaccessreviews''], pr_attribute_restrictions := res\<rparr>"

lemma normal_resource [simp]:
  "NormalizeResources (Some [''subjectaccessreviews'']) = Some [''subjectaccessreviews'']"
  by (simp add: NormalizeResources_def normalize_with_def needsNormalizing_def resourceGroupPrefix_def
      has_prefix_def is_upper_def)

definition review_of_other :: "string \<Rightarrow> auth_attributes" where
  "review_of_other u = zero_attributes\<lparr>aa_verb := ''create'', aa_resource := ''subjectaccessreviews'',
     aa_request_attributes := ReqSAR \<lparr>sar_type = \<lparr>tm_kind = [], tm_api_version = []\<rparr>,
       sar_action = \<lparr>act_namespace = [], act_verb = ''get'', act_group = [], act_version = [],
         act_resource = ''secrets'', act_resource_name = [], act_path = [],
         act_is_non_resource_url = False, act_content = None\<rparr>,
       sar_user = u, sar_groups = None, sar_scopes = None\<rparr>\<rparr>"

lemma restricted_review_rule_matches:
  "RuleMatches (review_of_other u) (restricted_review_rule None) = (True, None)"
  "RuleMatches (review_of_other u) (restricted_review_rule (Some (IsPersonalSubjectAccessReview tm))) =
     (u = [], None)"
  by (simp_all add: RuleMatches_def review_of_other_def restricted_review_rule_def zero_rule_def
      zero_attributes_def verbMatches_def resourceMatches_def nameMatches_def gset_simps all_defs
      to_lower_def lower_char_def is_upper_def IsPersonalAccessReview_def isPersonalAccessReviewFromSAR_def)

text \<open>
  Coverage does not look at attribute restrictions.  For a resource request, an owner whose
  only rule is limited to reviews about oneself is said to cover the same rule without the limit,
  although the two differ on a review about another user.
\<close>

theorem Covers_ignores_restrictions:
  "Covers [restricted_review_rule (Some (IsPersonalSubjectAccessReview tm))] [restricted_review_rule None]
     = (True, []) \<and>
   RuleMatches (review_of_other (c # u)) (restricted_review_rule None) = (True, None) \<and>
   RuleMatches (review_of_other (c # u)) (restricted_review_rule (Some (IsPersonalSubjectAccessReview tm)))
     = (False, None)"
proof -
  have "Covers [restricted_review_rule (Some (IsPersonalSubjectAccessReview tm))] [restricted_review_rule None]
     = (True, [])"
    by (simp add: Covers_def BreakdownRule_def breakdownRuleForGroup_def restricted_review_rule_def
        zero_rule_def ruleCovers_def nonResourceRuleCovers_def Let_def gset_simps)
  then show ?thesis
    by (simp add: restricted_review_rule_matches)
qed

section \<open>Compaction preserves what is allowed\<close>

lemma isSimpleResourceRule_Some:
  "isSimpleResourceRule rule = Some (g, x) \<longleftrightarrow>
   pr_api_groups rule = [g] \<and> pr_resources rule = Some [x] \<and> pr_resource_names rule = None \<and>
   pr_non_resource_urls rule = None \<and> pr_attribute_restrictions rule = None"
proof -
  have one: "length xs = Suc 0 \<longleftrightarrow> (\<exists>y. xs = [y])" for xs :: "'a list"
    by (cases xs) auto
  show ?thesis
    by (cases "pr_resources rule")
      (auto simp: isSimpleResourceRule_def one SList_def)
qed

lemma simple_rule_matches:
  "isSimpleResourceRule rule = Some (g, x) \<Longrightarrow>
   RuleMatches a rule =
     (\<not> aa_non_resource_url a \<and> verbMatches a (pr_verbs rule) \<and> apiGroupMatches a [g] \<and>
      resourceMatches a (NormalizeResources (Some [x])), None)"
  by (auto simp: isSimpleResourceRule_Some RuleMatches_unrestricted rule_allows_def nameMatches_def Has_simps)

definition some_rule_matches :: "auth_attributes \<Rightarrow> policy_rule list \<Rightarrow> bool" where
  "some_rule_matches a rules \<longleftrightarrow> (\<exists>r \<in> set rules. fst (RuleMatches a r))"

definition simple_map :: "(group_resource \<times> policy_rule) list \<Rightarrow> bool" where
  "simple_map m \<longleftrightarrow> (\<forall>(k, r) \<in> set m. isSimpleResourceRule r = Some k)"

lemma simple_map_add_simple:
  "simple_map m \<Longrightarrow> isSimpleResourceRule rule = Some k \<Longrightarrow> simple_map (add_simple k rule m)"
  by (cases k, induction k rule m rule: add_simple.induct)
    (auto simp: simple_map_def isSimpleResourceRule_Some)

lemma verbMatches_Insert:
  "verbMatches a (Some (Insert (elems s) (SList t))) \<longleftrightarrow> verbMatches a s \<or> verbMatches a t"
  by (auto simp: verbMatches_def Has_def)

lemma add_simple_matches:
  "simple_map m \<Longrightarrow> isSimpleResourceRule rule = Some k \<Longrightarrow>
   some_rule_matches a (map snd (add_simple k rule m)) \<longleftrightarrow>
     fst (RuleMatches a rule) \<or> some_rule_matches a (map snd m)"
proof (induction k rule m rule: add_simple.induct)
  case (1 k rule)
  then show ?case by (simp add: some_rule_matches_def)
next
  case (2 k rule r e rest)
  have rest: "simple_map rest" using "2.prems" by (simp add: simple_map_def)
  show ?case
  proof (cases "r = k")
    case True
    obtain g x where k: "k = (g, x)" by (cases k)
    let ?e = "e\<lparr>pr_verbs := Some (Insert (elems (pr_verbs e)) (SList (pr_verbs rule)))\<rparr>"
    have e: "isSimpleResourceRule e = Some (g, x)" using "2.prems" True k by (simp add: simple_map_def)
    then have e': "isSimpleResourceRule ?e = Some (g, x)" by (simp add: isSimpleResourceRule_Some)
    have "fst (RuleMatches a ?e) \<longleftrightarrow> fst (RuleMatches a e) \<or> fst (RuleMatches a rule)"
      using simple_rule_matches [OF e] simple_rule_matches [OF e'] simple_rule_matches [of rule g x]
        "2.prems" k by (auto simp: verbMatches_Insert)
    with True show ?thesis by (auto simp: some_rule_matches_def)
  next
    case False
    with 2 rest show ?thesis by (auto simp: some_rule_matches_def)
  qed
qed

lemma compact_loop_matches:
  "simple_map m \<Longrightarrow> compact_loop rules compacted m = (c, m') \<Longrightarrow>
   some_rule_matches a (c @ map snd m') \<longleftrightarrow> some_rule_matches a (rules @ compacted @ map snd m)"
proof (induction rules compacted m rule: compact_loop.induct)
  case (2 rule rules compacted m)
  show ?case
  proof (cases "isSimpleResourceRule rule")
    case None
    with 2 show ?thesis by (auto simp: some_rule_matches_def)
  next
    case (Some k)
    from 2 Some have "some_rule_matches a (c @ map snd m') \<longleftrightarrow>
        some_rule_matches a (rules @ compacted @ map snd (add_simple k rule m))"
      by (simp add: simple_map_add_simple)
    also have "\<dots> \<longleftrightarrow> some_rule_matches a (rules @ compacted) \<or>
        some_rule_matches a (map snd (add_simple k rule m))"
      by (auto simp: some_rule_matches_def)
    finally show ?thesis
      using add_simple_matches [OF "2.prems"(1) Some, of a] by (auto simp: some_rule_matches_def)
  qed
qed (simp add: some_rule_matches_def)

lemma CompactRules_some_rule_matches:
  "some_rule_matches a (CompactRules rules) \<longleftrightarrow> some_rule_matches a rules"
  using compact_loop_matches [of "[]" rules "[]" _ _ a]
  by (simp add: CompactRules_def simple_map_def split: prod.splits)

lemma add_simple_keys:
  "set (map fst (add_simple k rule m)) = insert k (set (map fst m))"
  by (induction k rule m rule: add_simple.induct) auto

lemma add_simple_distinct:
  "distinct (map fst m) \<Longrightarrow> distinct (map fst (add_simple k rule m))"
proof (induction k rule m rule: add_simple.induct)
  case (2 k rule r e rest)
  then show ?case using add_simple_keys [of k rule rest] by (auto simp del: set_map)
qed simp

lemma compact_loop_shape:
  "compact_loop rules compacted m = (c, m') \<Longrightarrow> simple_map m \<Longrightarrow> distinct (map fst m) \<Longrightarrow>
   list_all (\<lambda>r. isSimpleResourceRule r = None) compacted \<Longrightarrow>
   simple_map m' \<and> distinct (map fst m') \<and> list_all (\<lambda>r. isSimpleResourceRule r = None) c"
  by (induction rules compacted m rule: compact_loop.induct)
    (auto simp: simple_map_add_simple add_simple_distinct split: option.splits)

text \<open>
  Compacting a list of rules changes neither what it allows, restrictions included, nor
  leaves two simple rules for the same group and resource.
\<close>

theorem CompactRules_correct:
  "((\<exists>r \<in> set (CompactRules rules). fst (RuleMatches a r)) \<longleftrightarrow>
      (\<exists>r \<in> set rules. fst (RuleMatches a r))) \<and>
   distinct (filter (\<lambda>k. k \<noteq> None) (map isSimpleResourceRule (CompactRules rules)))"
proof -
  obtain c m where cl: "compact_loop rules [] [] = (c, m)" by fastforce
  then have sh: "simple_map m" "distinct (map fst m)" "list_all (\<lambda>r. isSimpleResourceRule r = None) c"
    using compact_loop_shape [OF cl] by (auto simp: simple_map_def)
  have "filter (\<lambda>k. k \<noteq> None) (map isSimpleResourceRule c) = []"
    using sh(3) by (induction c) auto
  moreover have "map isSimpleResourceRule (map snd m) = map Some (map fst m)"
    using sh(1) by (auto simp: simple_map_def)
  ultimately have "filter (\<lambda>k. k \<noteq> None) (map isSimpleResourceRule (CompactRules rules)) = map Some (map fst m)"
    by (simp add: CompactRules_def cl filter_map comp_def)
  then have "distinct (filter (\<lambda>k. k \<noteq> None) (map isSimpleResourceRule (CompactRules rules)))"
    using sh(2) by (simp add: distinct_map inj_on_def)
  then show ?thesis
    using CompactRules_some_rule_matches by (simp add: some_rule_matches_def)
qed

end
