(* ===== verification/Rule_Resolver.thy ===== *)
theory Rule_Resolver
  imports Rule_Cover
begin

text \<open>
  The rule resolver of \<open>origin/pkg/authorization/rulevalidation/find_rules.go\<close> and its interface
  \<open>AuthorizationRuleResolver\<close>.  The listers and getters over the policy store are parameters:
  each returns what the store returns, an error included.  The interface is the locale
  \<open>rule_resolver\<close>; its laws are what the authorizer, the scope authorizer and the escalation
  check rely on, and the resolver over the policy store is shown to meet them.
\<close>

section \<open>The interface\<close>

record rule_resolver_if =
  rr_GetRoleBindings :: "string \<Rightarrow> role_binding_if list \<times> go_error option"
  rr_GetRole :: "role_binding_if \<Rightarrow> go_error + role_if"
  rr_RulesFor :: "user_info \<Rightarrow> string \<Rightarrow> policy_rule list \<times> go_error option"

text \<open>
  The rules of the bindings that apply to the user and whose role can be found, and whether
  anything went wrong on the way.
\<close>

definition bound_rule :: "rule_resolver_if \<Rightarrow> role_binding_if \<Rightarrow> policy_rule \<Rightarrow> bool" where
  "bound_rule R b rule \<longleftrightarrow> (\<exists>r. rr_GetRole R b = Inr r \<and> rule \<in> set (role_if_rules r))"

locale rule_resolver =
  fixes R :: rule_resolver_if
  assumes RulesFor_set:
      "set (fst (rr_RulesFor R user ns)) =
       {rule. \<exists>b \<in> set (fst (rr_GetRoleBindings R ns)). AppliesToUser b user \<and> bound_rule R b rule}"
    and RulesFor_error:
      "snd (rr_RulesFor R user ns) = None \<longleftrightarrow>
       snd (rr_GetRoleBindings R ns) = None \<and>
       (\<forall>b \<in> set (fst (rr_GetRoleBindings R ns)). AppliesToUser b user \<longrightarrow> \<not> isl (rr_GetRole R b))"
begin

lemma RulesFor_iff:
  "rule \<in> set (fst (rr_RulesFor R user ns)) \<longleftrightarrow>
   (\<exists>b \<in> set (fst (rr_GetRoleBindings R ns)). AppliesToUser b user \<and> bound_rule R b rule)"
  by (simp add: RulesFor_set)

lemma RulesFor_user_only:
  "ui_name u = ui_name v \<Longrightarrow> ui_groups u = ui_groups v \<Longrightarrow>
   set (fst (rr_RulesFor R u ns)) = set (fst (rr_RulesFor R v ns))"
  by (simp add: RulesFor_set AppliesToUser_Has)

lemma RulesFor_more_groups:
  "ui_name u = ui_name v \<Longrightarrow> set (ui_groups u) \<subseteq> set (ui_groups v) \<Longrightarrow>
   set (fst (rr_RulesFor R u ns)) \<subseteq> set (fst (rr_RulesFor R v ns))"
  by (auto simp: RulesFor_set AppliesToUser_Has)

end

section \<open>The resolver over the policy store\<close>

record default_rule_resolver =
  drr_policyGetter :: "(string \<Rightarrow> string \<Rightarrow> go_error + policy) option"
  drr_bindingLister :: "(string \<Rightarrow> policy_binding list option \<times> go_error option) option"
  drr_clusterPolicyGetter :: "string \<Rightarrow> go_error + cluster_policy"
  drr_clusterBindingLister :: "cluster_policy_binding list option \<times> go_error option"

definition cluster_bindings_of :: "cluster_policy_binding list option \<Rightarrow> role_binding_if list" where
  "cluster_bindings_of clusterBindings =
     (case clusterBindings of
        None \<Rightarrow> []
      | Some items \<Rightarrow> concat (map (\<lambda>pb. map (\<lambda>(_, value). ClusterRoleBindingAdapter value) (cpb_role_bindings pb)) items))"

definition namespace_bindings_of :: "policy_binding list option \<Rightarrow> role_binding_if list" where
  "namespace_bindings_of namespaceBindings =
     (case namespaceBindings of
        None \<Rightarrow> []
      | Some items \<Rightarrow> concat (map (\<lambda>pb. map (\<lambda>(_, value). RoleBindingAdapter value) (pb_role_bindings pb)) items))"

definition GetRoleBindings ::
  "default_rule_resolver \<Rightarrow> string \<Rightarrow> role_binding_if list \<times> go_error option" where
  "GetRoleBindings a namespace =
     (let (clusterBindings, clusterErr) = drr_clusterBindingLister a;
          (namespaceBindings, namespaceErr) =
            (case drr_bindingLister a of
               Some lister \<Rightarrow> if 0 < length namespace then lister namespace else (None, None)
             | None \<Rightarrow> (None, None));
          bindings = cluster_bindings_of clusterBindings @ namespace_bindings_of namespaceBindings;
          errs = (case clusterErr of None \<Rightarrow> [] | Some e \<Rightarrow> [e]) @
                 (case namespaceErr of None \<Rightarrow> [] | Some e \<Rightarrow> [e])
      in (bindings, aggregate errs))"

definition role_not_found :: "string \<Rightarrow> go_error" where
  "role_not_found name = NotFoundErr ''role'' name"

definition GetRole :: "default_rule_resolver \<Rightarrow> role_binding_if \<Rightarrow> go_error + role_if" where
  "GetRole a roleBinding =
     (let namespace = or_namespace (rb_if_role_ref roleBinding);
          name = or_name (rb_if_role_ref roleBinding) in
      if length namespace = 0 then
        (case drr_clusterPolicyGetter a PolicyName of
           Inl err \<Rightarrow> if IsNotFound err then Inl (role_not_found name) else Inl err
         | Inr pol \<Rightarrow>
             (case map_of (cpol_roles pol) name of
                None \<Rightarrow> Inl (role_not_found name)
              | Some r \<Rightarrow> Inr (ClusterRoleAdapter r)))
      else
        (case drr_policyGetter a of
           None \<Rightarrow> Inl (role_not_found name)
         | Some getter \<Rightarrow>
             (case getter namespace PolicyName of
                Inl err \<Rightarrow> if IsNotFound err then Inl (role_not_found name) else Inl err
              | Inr pol \<Rightarrow>
                  (case map_of (pol_roles pol) name of
                     None \<Rightarrow> Inl (role_not_found name)
                   | Some r \<Rightarrow> Inr (RoleAdapter r)))))"

fun rules_loop ::
  "(role_binding_if \<Rightarrow> go_error + role_if) \<Rightarrow> user_info \<Rightarrow> role_binding_if list \<Rightarrow>
   policy_rule list \<Rightarrow> go_error list \<Rightarrow> policy_rule list \<times> go_error list" where
  "rules_loop getRole user [] rules errs = (rules, errs)"
| "rules_loop getRole user (roleBinding # roleBindings) rules errs =
     (if \<not> AppliesToUser roleBinding user then rules_loop getRole user roleBindings rules errs
      else (case getRole roleBinding of
              Inl err \<Rightarrow> rules_loop getRole user roleBindings rules (errs @ [err])
            | Inr role \<Rightarrow> rules_loop getRole user roleBindings (rules @ role_if_rules role) errs))"

definition RulesFor ::
  "default_rule_resolver \<Rightarrow> user_info \<Rightarrow> string \<Rightarrow> policy_rule list \<times> go_error option" where
  "RulesFor a user namespace =
     (let (roleBindings, err) = GetRoleBindings a namespace;
          errs = (case err of None \<Rightarrow> [] | Some e \<Rightarrow> [e]);
          (rules, errs') = rules_loop (GetRole a) user roleBindings [] errs
      in (rules, aggregate errs'))"

definition appliesToUser :: "sset \<Rightarrow> sset \<Rightarrow> user_info \<Rightarrow> bool" where
  "appliesToUser ruleUsers ruleGroups user =
     (if Has ruleUsers (ui_name user) then True else list_ex (Has ruleGroups) (ui_groups user))"

definition DefaultRuleResolver :: "default_rule_resolver \<Rightarrow> rule_resolver_if" where
  "DefaultRuleResolver a =
     \<lparr>rr_GetRoleBindings = GetRoleBindings a, rr_GetRole = GetRole a, rr_RulesFor = RulesFor a\<rparr>"

lemma rules_loop_result:
  "rules_loop getRole user bs rules errs = (rs, es) \<Longrightarrow>
   set rs = set rules \<union> {rule. \<exists>b \<in> set bs. AppliesToUser b user \<and>
     (\<exists>r. getRole b = Inr r \<and> rule \<in> set (role_if_rules r))} \<and>
   (es = [] \<longleftrightarrow> errs = [] \<and> (\<forall>b \<in> set bs. AppliesToUser b user \<longrightarrow> \<not> isl (getRole b)))"
proof (induction getRole user bs rules errs rule: rules_loop.induct)
  case (2 getRole user b bs rules errs)
  show ?case
  proof (cases "AppliesToUser b user")
    case False
    with 2 show ?thesis by auto
  next
    case applies: True
    show ?thesis
    proof (cases "getRole b")
      case (Inl e)
      with applies 2 show ?thesis by auto
    next
      case (Inr r)
      with applies 2 show ?thesis by auto
    qed
  qed
qed auto

interpretation store: rule_resolver "DefaultRuleResolver a" for a
proof
  fix user :: user_info and ns :: string
  obtain bs err where g: "GetRoleBindings a ns = (bs, err)" by fastforce
  let ?errs = "case err of None \<Rightarrow> [] | Some e \<Rightarrow> [e]"
  obtain rs es where l: "rules_loop (GetRole a) user bs [] ?errs = (rs, es)" by fastforce
  have rf: "RulesFor a user ns = (rs, aggregate es)"
    by (simp add: RulesFor_def g l)
  show "set (fst (rr_RulesFor (DefaultRuleResolver a) user ns)) =
      {rule. \<exists>b\<in>set (fst (rr_GetRoleBindings (DefaultRuleResolver a) ns)).
        AppliesToUser b user \<and> bound_rule (DefaultRuleResolver a) b rule}"
    using rules_loop_result [OF l] by (simp add: DefaultRuleResolver_def rf g bound_rule_def)
  show "(snd (rr_RulesFor (DefaultRuleResolver a) user ns) = None) \<longleftrightarrow>
      snd (rr_GetRoleBindings (DefaultRuleResolver a) ns) = None \<and>
      (\<forall>b\<in>set (fst (rr_GetRoleBindings (DefaultRuleResolver a) ns)).
        AppliesToUser b user \<longrightarrow> \<not> isl (rr_GetRole (DefaultRuleResolver a) b))"
    using rules_loop_result [OF l]
    by (simp add: DefaultRuleResolver_def rf g split: option.splits)
qed

lemma GetRole_not_found_or_error:
  "GetRole a b = Inl e \<Longrightarrow> e = role_not_found (or_name (rb_if_role_ref b)) \<or> \<not> IsNotFound e"
  by (auto simp: GetRole_def Let_def split: if_splits sum.splits option.splits)

lemma GetRole_eq_Inr:
  "GetRole a b = Inr r \<longleftrightarrow>
     (if or_namespace (rb_if_role_ref b) = []
      then \<exists>p cr. drr_clusterPolicyGetter a PolicyName = Inr p \<and>
        map_of (cpol_roles p) (or_name (rb_if_role_ref b)) = Some cr \<and> r = ClusterRoleAdapter cr
      else \<exists>get p lr. drr_policyGetter a = Some get \<and>
        get (or_namespace (rb_if_role_ref b)) PolicyName = Inr p \<and>
        map_of (pol_roles p) (or_name (rb_if_role_ref b)) = Some lr \<and> r = RoleAdapter lr)"
  by (auto simp: GetRole_def Let_def split: if_splits sum.splits option.splits)

lemma set_RulesFor:
  "rule \<in> set (fst (RulesFor a user ns)) \<longleftrightarrow>
   (\<exists>b r. b \<in> set (fst (GetRoleBindings a ns)) \<and> AppliesToUser b user \<and>
     GetRole a b = Inr r \<and> rule \<in> set (role_if_rules r))"
  using store.RulesFor_iff [of rule a user ns] by (auto simp: DefaultRuleResolver_def bound_rule_def)

text \<open>The bindings found are those either lister returns, also beside an error of the other.\<close>

lemma set_GetRoleBindings:
  "b \<in> set (fst (GetRoleBindings a ns)) \<longleftrightarrow>
   b \<in> set (cluster_bindings_of (fst (drr_clusterBindingLister a))) \<or>
   ns \<noteq> [] \<and> (\<exists>lister. drr_bindingLister a = Some lister \<and>
     b \<in> set (namespace_bindings_of (fst (lister ns))))"
  by (auto simp: GetRoleBindings_def namespace_bindings_of_def [of None] split: prod.splits option.splits)

text \<open>
  C7: a reference without a namespace is resolved among the cluster roles only and one with a
  namespace in that namespace only, and the rules of a user are exactly those of the resolvable
  roles bound in the cluster or the namespace to the user or one of the user's groups, whatever
  errors occur for other bindings.
\<close>

theorem RulesFor_exactly_bound_rules:
  "(rule \<in> set (fst (RulesFor a user ns)) \<longleftrightarrow>
      (\<exists>b r. b \<in> set (fst (GetRoleBindings a ns)) \<and> AppliesToUser b user \<and>
        GetRole a b = Inr r \<and> rule \<in> set (role_if_rules r))) \<and>
   (GetRole a b = Inr r \<longleftrightarrow>
      (if or_namespace (rb_if_role_ref b) = []
       then \<exists>p cr. drr_clusterPolicyGetter a PolicyName = Inr p \<and>
         map_of (cpol_roles p) (or_name (rb_if_role_ref b)) = Some cr \<and> r = ClusterRoleAdapter cr
       else \<exists>get p lr. drr_policyGetter a = Some get \<and>
         get (or_namespace (rb_if_role_ref b)) PolicyName = Inr p \<and>
         map_of (pol_roles p) (or_name (rb_if_role_ref b)) = Some lr \<and> r = RoleAdapter lr))"
by (rule conjI [OF set_RulesFor GetRole_eq_Inr])

end
