(* ===== verification/Messages.thy ===== *)
theory Messages
  imports Rule_Resolver
begin

text \<open>
  The denial messages of \<open>origin/pkg/authorization/authorizer/messages.go\<close>.  A parsed template is
  the function that executes it; the fixed templates are written out as the strings they
  render, and the administrator's template for project requests is turned into such a function
  by the parameter \<open>parse\<close> (\<open>None\<close> is the panic of \<open>template.Must\<close>).
\<close>

record message_context =
  mc_user :: user_info
  mc_namespace :: string
  mc_attributes :: auth_attributes

type_synonym message_maker = "message_context \<Rightarrow> string \<times> go_error option"
type_synonym maker_map = "string \<rightharpoonup> (string \<rightharpoonup> message_maker)"

record forbidden_message_resolver =
  fmr_namespaced :: maker_map
  fmr_rootScoped :: maker_map
  fmr_nonResourceURL :: message_maker
  fmr_default :: message_maker

definition quoted :: "string \<Rightarrow> string" where
  "quoted s = ''\"'' @ s @ ''\"''"

definition user_cannot :: "message_context \<Rightarrow> string" where
  "user_cannot ctx = ''User '' @ quoted (ui_name (mc_user ctx)) @ '' cannot ''"

definition apiGroupIfNotEmpty :: "message_context \<Rightarrow> string" where
  "apiGroupIfNotEmpty ctx =
     (if length (aa_api_group (mc_attributes ctx)) \<noteq> 0 then aa_api_group (mc_attributes ctx) @ ''.'' else [])"

definition group_resource_text :: "message_context \<Rightarrow> string" where
  "group_resource_text ctx = apiGroupIfNotEmpty ctx @ aa_resource (mc_attributes ctx)"

definition in_project_text :: "string \<Rightarrow> message_maker" where
  "in_project_text verb ctx =
     (user_cannot ctx @ verb @ '' '' @ group_resource_text ctx @ '' in project '' @ quoted (mc_namespace ctx), None)"

definition at_cluster_scope_text :: "string \<Rightarrow> message_maker" where
  "at_cluster_scope_text verb ctx =
     (user_cannot ctx @ verb @ '' '' @ group_resource_text ctx @ '' at the cluster scope'', None)"

definition all_in_cluster_text :: "string \<Rightarrow> message_maker" where
  "all_in_cluster_text verb ctx =
     (user_cannot ctx @ verb @ '' all '' @ group_resource_text ctx @ '' in the cluster'', None)"

definition nonResourceURL_text :: message_maker where
  "nonResourceURL_text ctx =
     (user_cannot ctx @ quoted (aa_verb (mc_attributes ctx)) @ '' on '' @ quoted (aa_url (mc_attributes ctx)), None)"

definition default_text :: message_maker where
  "default_text ctx =
     (user_cannot ctx @ quoted (aa_verb (mc_attributes ctx)) @ '' '' @ quoted (group_resource_text ctx) @
      '' with name '' @ quoted (aa_resource_name (mc_attributes ctx)) @
      '' in project '' @ quoted (mc_namespace ctx), None)"

definition get_project_text :: message_maker where
  "get_project_text ctx = (user_cannot ctx @ ''get project '' @ quoted (mc_namespace ctx), None)"

definition addForbiddenMessageMaker :: "string \<Rightarrow> string \<Rightarrow> message_maker \<Rightarrow> maker_map \<Rightarrow> maker_map" where
  "addForbiddenMessageMaker verb resource messageMaker target =
     target(verb \<mapsto> (case target verb of None \<Rightarrow> Map.empty | Some m \<Rightarrow> m)(resource \<mapsto> messageMaker))"

definition DefaultProjectRequestForbidden :: string where
  "DefaultProjectRequestForbidden = ''You may not request a new project via this API.''"

definition NewForbiddenMessageResolver ::
  "(string \<Rightarrow> message_maker option) \<Rightarrow> string \<Rightarrow> forbidden_message_resolver option" where
  "NewForbiddenMessageResolver parse projectRequestForbiddenTemplate =
     (let projectRequestDeny = (if length projectRequestForbiddenTemplate = 0
            then DefaultProjectRequestForbidden else projectRequestForbiddenTemplate) in
      case parse projectRequestDeny of
        None \<Rightarrow> None
      | Some projectMaker \<Rightarrow>
          Some \<lparr>fmr_namespaced =
             (addForbiddenMessageMaker ''get'' ''projects'' get_project_text \<circ>
              addForbiddenMessageMaker ''delete'' ResourceAll (in_project_text ''delete'') \<circ>
              addForbiddenMessageMaker ''update'' ResourceAll (in_project_text ''update'') \<circ>
              addForbiddenMessageMaker ''watch'' ResourceAll (in_project_text ''watch'') \<circ>
              addForbiddenMessageMaker ''list'' ResourceAll (in_project_text ''list'') \<circ>
              addForbiddenMessageMaker ''get'' ResourceAll (in_project_text ''get'') \<circ>
              addForbiddenMessageMaker ''create'' ResourceAll (in_project_text ''create'')) Map.empty,
           fmr_rootScoped =
             (addForbiddenMessageMaker ''create'' ''projectrequests'' projectMaker \<circ>
              addForbiddenMessageMaker ''delete'' ResourceAll (at_cluster_scope_text ''delete'') \<circ>
              addForbiddenMessageMaker ''update'' ResourceAll (at_cluster_scope_text ''update'') \<circ>
              addForbiddenMessageMaker ''watch'' ResourceAll (all_in_cluster_text ''watch'') \<circ>
              addForbiddenMessageMaker ''list'' ResourceAll (all_in_cluster_text ''list'') \<circ>
              addForbiddenMessageMaker ''get'' ResourceAll (at_cluster_scope_text ''get'') \<circ>
              addForbiddenMessageMaker ''create'' ResourceAll (at_cluster_scope_text ''create'')) Map.empty,
           fmr_nonResourceURL = nonResourceURL_text,
           fmr_default = default_text\<rparr>)"

definition MakeMessage :: "forbidden_message_resolver \<Rightarrow> message_maker" where
  "MakeMessage m ctx =
     (if aa_non_resource_url (mc_attributes ctx) then fmr_nonResourceURL m ctx
      else
        (let messageMakerMap = (if length (mc_namespace ctx) = 0 then fmr_rootScoped m else fmr_namespaced m) in
         case (case messageMakerMap (aa_verb (mc_attributes ctx)) of
                 None \<Rightarrow> messageMakerMap VerbAll | Some r \<Rightarrow> Some r) of
           None \<Rightarrow> fmr_default m ctx
         | Some resources \<Rightarrow>
             (case (case resources (aa_resource (mc_attributes ctx)) of
                      None \<Rightarrow> resources ResourceAll | Some mk \<Rightarrow> Some mk) of
                None \<Rightarrow> fmr_default m ctx
              | Some messageMaker \<Rightarrow>
                  (case messageMaker ctx of
                     (_, Some err) \<Rightarrow> fmr_default m ctx
                   | (specificMessage, None) \<Rightarrow> (specificMessage, None)))))"

lemma default_text_no_error [simp]: "snd (default_text ctx) = None" "snd (nonResourceURL_text ctx) = None"
  by (simp_all add: default_text_def nonResourceURL_text_def)

lemma MakeMessage_no_error:
  assumes "NewForbiddenMessageResolver parse tmpl = Some m"
  shows "snd (MakeMessage m ctx) = None"
proof -
  have d: "fmr_default m = default_text" "fmr_nonResourceURL m = nonResourceURL_text"
    using assms by (auto simp: NewForbiddenMessageResolver_def Let_def split: option.splits)
  show ?thesis
    by (simp add: MakeMessage_def d Let_def split: option.split prod.split)
qed

text \<open>
  A denial always has a message, whatever the administrator's template does when it is
  executed, and that template is used exactly for denied project requests: it answers a create
  of \<open>projectrequests\<close> outside every namespace, with the default text as the fallback.
\<close>

theorem forbidden_message_total:
  assumes "NewForbiddenMessageResolver parse tmpl = Some m"
  shows "snd (MakeMessage m ctx) = None \<and>
    (aa_non_resource_url (mc_attributes ctx) = False \<and> mc_namespace ctx = [] \<and>
       aa_verb (mc_attributes ctx) = ''create'' \<and> aa_resource (mc_attributes ctx) = ''projectrequests'' \<longrightarrow>
     (\<exists>custom. parse (if tmpl = [] then DefaultProjectRequestForbidden else tmpl) = Some custom \<and>
       MakeMessage m ctx = (if snd (custom ctx) = None then custom ctx else default_text ctx)))"
proof (intro conjI impI)
  show "snd (MakeMessage m ctx) = None"
    using assms by (rule MakeMessage_no_error)
next
  assume c: "aa_non_resource_url (mc_attributes ctx) = False \<and> mc_namespace ctx = [] \<and>
       aa_verb (mc_attributes ctx) = ''create'' \<and> aa_resource (mc_attributes ctx) = ''projectrequests''"
  obtain custom where p: "parse (if tmpl = [] then DefaultProjectRequestForbidden else tmpl) = Some custom"
    using assms by (auto simp: NewForbiddenMessageResolver_def Let_def split: option.splits if_splits)
  have m: "fmr_default m = default_text"
    "fmr_rootScoped m ''create'' = Some [ResourceAll \<mapsto> at_cluster_scope_text ''create'', ''projectrequests'' \<mapsto> custom]"
    using assms p by (auto simp: NewForbiddenMessageResolver_def Let_def addForbiddenMessageMaker_def)
  have "MakeMessage m ctx = (if snd (custom ctx) = None then custom ctx else default_text ctx)"
    using c m by (cases "custom ctx") (simp add: MakeMessage_def Let_def split: option.split)
  with p show "\<exists>custom. parse (if tmpl = [] then DefaultProjectRequestForbidden else tmpl) = Some custom \<and>
       MakeMessage m ctx = (if snd (custom ctx) = None then custom ctx else default_text ctx)"
    by blast
qed

theorem forbidden_message_total_witness:
  "snd (MakeMessage (the (NewForbiddenMessageResolver (\<lambda>t. Some (\<lambda>ctx. (t, None))) ''no projects''))
     \<lparr>mc_user = sample_user, mc_namespace = [], mc_attributes = zero_attributes\<rparr>) = None"
proof -
  have "NewForbiddenMessageResolver (\<lambda>t. Some (\<lambda>ctx. (t, None))) ''no projects'' \<noteq> None"
    by (simp add: NewForbiddenMessageResolver_def Let_def)
  then obtain m where m: "NewForbiddenMessageResolver (\<lambda>t. Some (\<lambda>ctx. (t, None))) ''no projects'' = Some m"
    by blast
  show ?thesis
    using forbidden_message_total [OF m] by (simp add: m)
qed

end
