(* ===== verification/Authorizer.thy ===== *)
theory Authorizer
  imports Messages
begin

text \<open>
  The authorizer of \<open>origin/pkg/authorization/authorizer/authorizer.go\<close> and the escalation check
  \<open>ConfirmNoEscalation\<close> of \<open>origin/pkg/authorization/rulevalidation/policy_comparator.go\<close>, over the
  rule resolver interface.  The lemmas about both are proved for every resolver that meets the
  laws of \<open>rule_resolver\<close> and hold of the policy store through its interpretation.
\<close>

section \<open>The authorizer\<close>

record req_context =
  ctx_user :: "user_info option"
  ctx_namespace :: "string option"

definition NamespaceValue :: "req_context \<Rightarrow> string" where
  "NamespaceValue ctx = (case ctx_namespace ctx of None \<Rightarrow> [] | Some ns \<Rightarrow> ns)"

text \<open>The reason of a decision; \<open>err.Error()\<close> and formatted reasons keep their arguments.\<close>

datatype reason =
    Reason string
  | ReasonErr go_error
  | ScopesPrevent "string list" reason

record openshift_authorizer =
  oa_ruleResolver :: rule_resolver_if
  oa_messageMaker :: message_maker

fun rule_decision_loop ::
  "auth_attributes \<Rightarrow> string \<Rightarrow> policy_rule list \<Rightarrow> go_error list \<Rightarrow> reason option \<times> go_error list" where
  "rule_decision_loop attributes namespace [] errs = (None, errs)"
| "rule_decision_loop attributes namespace (rule # rules) errs =
     (case RuleMatches attributes rule of
        (_, Some err) \<Rightarrow> rule_decision_loop attributes namespace rules (errs @ [err])
      | (matches, None) \<Rightarrow>
          (if matches then
             (if length namespace = 0 then (Some (Reason ''allowed by cluster rule''), errs)
              else (Some (Reason (''allowed by rule in '' @ namespace)), errs))
           else rule_decision_loop attributes namespace rules errs))"

definition authorizeWithNamespaceRules ::
  "openshift_authorizer \<Rightarrow> user_info \<Rightarrow> string \<Rightarrow> auth_attributes \<Rightarrow> bool \<times> reason \<times> go_error option" where
  "authorizeWithNamespaceRules a user namespace attributes =
     (let (allRules, ruleRetrievalError) = rr_RulesFor (oa_ruleResolver a) user namespace in
      case rule_decision_loop attributes namespace allRules [] of
        (Some reason, _) \<Rightarrow> (True, reason, None)
      | (None, errs) \<Rightarrow>
          (if length errs = 0 then (False, Reason [], ruleRetrievalError)
           else (False, Reason [], aggregate (errs @
                  (case ruleRetrievalError of None \<Rightarrow> [] | Some e \<Rightarrow> [e])))))"

definition Authorize ::
  "openshift_authorizer \<Rightarrow> req_context \<Rightarrow> auth_attributes \<Rightarrow> bool \<times> reason \<times> go_error option" where
  "Authorize a ctx attributes =
     (case ctx_user ctx of
        None \<Rightarrow> (False, Reason [], Some (Errorf ''no user available on context'' []))
      | Some user \<Rightarrow>
          (let namespace = NamespaceValue ctx;
               (allowed, reason, err) = authorizeWithNamespaceRules a user namespace attributes in
           if allowed then (True, reason, None)
           else (case err of
              Some e \<Rightarrow> (False, Reason [], Some e)
            | None \<Rightarrow>
                (let (denyReason, merr) =
                       oa_messageMaker a \<lparr>mc_user = user, mc_namespace = namespace, mc_attributes = attributes\<rparr> in
                 (False, (case merr of None \<Rightarrow> Reason denyReason | Some e \<Rightarrow> ReasonErr e), None)))))"

fun subjects_rule_loop ::
  "auth_attributes \<Rightarrow> role_binding_if \<Rightarrow> policy_rule list \<Rightarrow> string list \<Rightarrow> string list \<Rightarrow> go_error list \<Rightarrow>
   string list \<times> string list \<times> go_error list" where
  "subjects_rule_loop attributes b [] users groups errs = (users, groups, errs)"
| "subjects_rule_loop attributes b (rule # rules) users groups errs =
     (case RuleMatches attributes rule of
        (_, Some err) \<Rightarrow> subjects_rule_loop attributes b rules users groups (errs @ [err])
      | (matches, None) \<Rightarrow>
          (if matches then subjects_rule_loop attributes b rules
             (Insert users (SList (rb_if_users b))) (Insert groups (SList (rb_if_groups b))) errs
           else subjects_rule_loop attributes b rules users groups errs))"

fun subjects_binding_loop ::
  "rule_resolver_if \<Rightarrow> auth_attributes \<Rightarrow> role_binding_if list \<Rightarrow> string list \<Rightarrow> string list \<Rightarrow>
   go_error list \<Rightarrow> string list \<times> string list \<times> go_error list" where
  "subjects_binding_loop R attributes [] users groups errs = (users, groups, errs)"
| "subjects_binding_loop R attributes (b # bs) users groups errs =
     (case rr_GetRole R b of
        Inl err \<Rightarrow> subjects_binding_loop R attributes bs users groups (errs @ [err])
      | Inr role \<Rightarrow>
          (let (users', groups', errs') = subjects_rule_loop attributes b (role_if_rules role) users groups errs
           in subjects_binding_loop R attributes bs users' groups' errs'))"

definition getAllowedSubjectsFromNamespaceBindings ::
  "openshift_authorizer \<Rightarrow> string \<Rightarrow> auth_attributes \<Rightarrow> sset \<times> sset \<times> go_error option" where
  "getAllowedSubjectsFromNamespaceBindings a namespace attributes =
     (let (roleBindings, err) = rr_GetRoleBindings (oa_ruleResolver a) namespace;
          (users, groups, errs) = subjects_binding_loop (oa_ruleResolver a) attributes roleBindings [] []
            (case err of None \<Rightarrow> [] | Some e \<Rightarrow> [e])
      in (Some users, Some groups, aggregate errs))"

definition GetAllowedSubjects ::
  "openshift_authorizer \<Rightarrow> req_context \<Rightarrow> auth_attributes \<Rightarrow> sset \<times> sset \<times> go_error option" where
  "GetAllowedSubjects a ctx attributes =
     getAllowedSubjectsFromNamespaceBindings a (NamespaceValue ctx) attributes"

section \<open>What the loops compute\<close>

definition rule_grants :: "auth_attributes \<Rightarrow> policy_rule \<Rightarrow> bool" where
  "rule_grants attributes rule \<longleftrightarrow> RuleMatches attributes rule = (True, None)"

lemma rule_decision_loop_Some:
  "(\<exists>reason es. rule_decision_loop attributes ns rules errs = (Some reason, es)) \<longleftrightarrow>
   (\<exists>rule \<in> set rules. rule_grants attributes rule)"
  by (induction attributes ns rules errs rule: rule_decision_loop.induct)
    (auto simp: rule_grants_def split: prod.split option.split)

lemma authorizeWithNamespaceRules_allowed:
  "fst (authorizeWithNamespaceRules a user ns attributes) \<longleftrightarrow>
   (\<exists>rule \<in> set (fst (rr_RulesFor (oa_ruleResolver a) user ns)). rule_grants attributes rule)"
  using rule_decision_loop_Some [of attributes ns "fst (rr_RulesFor (oa_ruleResolver a) user ns)" "[]"]
  by (auto simp: authorizeWithNamespaceRules_def split: prod.splits option.splits)

lemma subjects_rule_loop_result:
  "subjects_rule_loop attributes b rules users groups errs = (us, gs, es) \<Longrightarrow>
   (\<forall>u. u \<in> set us \<longleftrightarrow> u \<in> set users \<or>
     (Has (rb_if_users b) u \<and> (\<exists>rule \<in> set rules. rule_grants attributes rule))) \<and>
   (\<forall>g. g \<in> set gs \<longleftrightarrow> g \<in> set groups \<or>
     (Has (rb_if_groups b) g \<and> (\<exists>rule \<in> set rules. rule_grants attributes rule)))"
  by (induction attributes b rules users groups errs rule: subjects_rule_loop.induct)
    (auto simp: rule_grants_def Has_elems split: prod.splits option.splits if_splits)

lemma subjects_binding_loop_result:
  "subjects_binding_loop R attributes bs users groups errs = (us, gs, es) \<Longrightarrow>
   (\<forall>u. u \<in> set us \<longleftrightarrow> u \<in> set users \<or> (\<exists>b \<in> set bs. Has (rb_if_users b) u \<and>
     (\<exists>rule. bound_rule R b rule \<and> rule_grants attributes rule))) \<and>
   (\<forall>g. g \<in> set gs \<longleftrightarrow> g \<in> set groups \<or> (\<exists>b \<in> set bs. Has (rb_if_groups b) g \<and>
     (\<exists>rule. bound_rule R b rule \<and> rule_grants attributes rule)))"
proof (induction R attributes bs users groups errs rule: subjects_binding_loop.induct)
  case (2 R attributes b bs users groups errs)
  show ?case
  proof (cases "rr_GetRole R b")
    case (Inl e)
    with 2 show ?thesis by (auto simp: bound_rule_def)
  next
    case (Inr r)
    obtain us1 gs1 es1 where l: "subjects_rule_loop attributes b (role_if_rules r) users groups errs = (us1, gs1, es1)"
      by (metis prod_cases3)
    have "subjects_binding_loop R attributes bs us1 gs1 es1 = (us, gs, es)"
      using "2.prems" Inr l by simp
    then have ih: "(\<forall>u. u \<in> set us \<longleftrightarrow> u \<in> set us1 \<or> (\<exists>b \<in> set bs. Has (rb_if_users b) u \<and>
        (\<exists>rule. bound_rule R b rule \<and> rule_grants attributes rule))) \<and>
      (\<forall>g. g \<in> set gs \<longleftrightarrow> g \<in> set gs1 \<or> (\<exists>b \<in> set bs. Has (rb_if_groups b) g \<and>
        (\<exists>rule. bound_rule R b rule \<and> rule_grants attributes rule)))"
      using "2.IH"(2) [OF Inr l [symmetric] refl refl] by simp
    from Inr have bnd: "bound_rule R b rule \<longleftrightarrow> rule \<in> set (role_if_rules r)" for rule
      by (simp add: bound_rule_def)
    show ?thesis
      using ih subjects_rule_loop_result [OF l] bnd by auto
  qed
qed auto

context rule_resolver
begin

lemma allowed_iff_reported:
  assumes "oa_ruleResolver a = R"
    and "getAllowedSubjectsFromNamespaceBindings a ns attributes = (users, groups, err)"
  shows "fst (authorizeWithNamespaceRules a user ns attributes) \<longleftrightarrow>
    Has users (ui_name user) \<or> HasAny groups (ui_groups user)"
proof -
  obtain bs berr where b: "rr_GetRoleBindings R ns = (bs, berr)" by fastforce
  obtain us gs es where l: "subjects_binding_loop R attributes bs [] []
      (case berr of None \<Rightarrow> [] | Some e \<Rightarrow> [e]) = (us, gs, es)" by (metis prod_cases3)
  have "users = Some us" "groups = Some gs"
    using assms b l by (simp_all add: getAllowedSubjectsFromNamespaceBindings_def)
  then show ?thesis
    using subjects_binding_loop_result [OF l] assms(1) b
    by (auto simp: authorizeWithNamespaceRules_allowed RulesFor_set AppliesToUser_Has gset_simps)
qed

lemma allowed_without_error:
  "fst (authorizeWithNamespaceRules a user ns attributes) \<Longrightarrow>
   snd (snd (authorizeWithNamespaceRules a user ns attributes)) = None"
  by (auto simp: authorizeWithNamespaceRules_def split: prod.splits option.splits if_splits)

end

lemma fst_Authorize:
  "fst (Authorize a ctx attributes) \<longleftrightarrow>
   (\<exists>user. ctx_user ctx = Some user \<and>
     fst (authorizeWithNamespaceRules a user (NamespaceValue ctx) attributes))"
  by (auto simp: Authorize_def Let_def split: option.splits prod.splits)

definition store_authorizer :: "default_rule_resolver \<Rightarrow> message_maker \<Rightarrow> openshift_authorizer" where
  "store_authorizer a mk = \<lparr>oa_ruleResolver = DefaultRuleResolver a, oa_messageMaker = mk\<rparr>"

text \<open>
  C2: the two questions the authorizer answers agree.  Over the policy store, with any errors of
  the store, a user on the context is allowed the request exactly when the user's name or one of
  the user's groups is among the subjects reported as allowed, and a context without a user is
  never allowed.
\<close>

theorem Authorize_iff_allowed_subject:
  "fst (Authorize (store_authorizer a mk) ctx attributes) \<longleftrightarrow>
   (case (ctx_user ctx, GetAllowedSubjects (store_authorizer a mk) ctx attributes) of
      (None, _) \<Rightarrow> False
    | (Some user, users, groups, err) \<Rightarrow> Has users (ui_name user) \<or> HasAny groups (ui_groups user))"
proof -
  obtain users groups err where g: "getAllowedSubjectsFromNamespaceBindings (store_authorizer a mk)
      (NamespaceValue ctx) attributes = (users, groups, err)"
    by (metis prod_cases3)
  have "fst (authorizeWithNamespaceRules (store_authorizer a mk) user (NamespaceValue ctx) attributes) \<longleftrightarrow>
      Has users (ui_name user) \<or> HasAny groups (ui_groups user)" for user
    by (rule store.allowed_iff_reported [OF _ g]) (simp add: store_authorizer_def)
  then show ?thesis
    by (simp add: fst_Authorize GetAllowedSubjects_def g split: option.split)
qed

lemma Authorize_allowed_no_error:
  "fst (Authorize a ctx attributes) \<Longrightarrow> snd (snd (Authorize a ctx attributes)) = None"
  by (auto simp: Authorize_def Let_def split: option.splits prod.splits if_splits)

text \<open>
  C1: errors never grant and never hide a grant.  The request is allowed exactly when a binding
  that the cluster lister or the lister of the request's namespace returned, with or without an
  error beside it, applies to the user, its role is in the policy its reference names, and a rule
  of that role matches the request without error.  An allowed answer carries no error.
\<close>

theorem Authorize_grants_exactly_matching_rules:
  "(fst (Authorize (store_authorizer a mk) ctx attributes) \<longleftrightarrow>
      (\<exists>user b r rule. ctx_user ctx = Some user \<and>
        (b \<in> set (cluster_bindings_of (fst (drr_clusterBindingLister a))) \<or>
         NamespaceValue ctx \<noteq> [] \<and> (\<exists>lister. drr_bindingLister a = Some lister \<and>
           b \<in> set (namespace_bindings_of (fst (lister (NamespaceValue ctx)))))) \<and>
        (Has (rb_if_users b) (ui_name user) \<or> HasAny (rb_if_groups b) (ui_groups user)) \<and>
        (if or_namespace (rb_if_role_ref b) = []
         then \<exists>p cr. drr_clusterPolicyGetter a PolicyName = Inr p \<and>
           map_of (cpol_roles p) (or_name (rb_if_role_ref b)) = Some cr \<and> r = ClusterRoleAdapter cr
         else \<exists>get p lr. drr_policyGetter a = Some get \<and>
           get (or_namespace (rb_if_role_ref b)) PolicyName = Inr p \<and>
           map_of (pol_roles p) (or_name (rb_if_role_ref b)) = Some lr \<and> r = RoleAdapter lr) \<and>
        rule \<in> set (role_if_rules r) \<and> RuleMatches attributes rule = (True, None))) \<and>
   \<not> (fst (Authorize (store_authorizer a mk) ctx attributes) \<and>
      snd (snd (Authorize (store_authorizer a mk) ctx attributes)) \<noteq> None)"
proof
  show "\<not> (fst (Authorize (store_authorizer a mk) ctx attributes) \<and>
      snd (snd (Authorize (store_authorizer a mk) ctx attributes)) \<noteq> None)"
    by (auto dest: Authorize_allowed_no_error)
  have "fst (Authorize (store_authorizer a mk) ctx attributes) \<longleftrightarrow>
      (\<exists>user b r rule. ctx_user ctx = Some user \<and> b \<in> set (fst (GetRoleBindings a (NamespaceValue ctx))) \<and>
        AppliesToUser b user \<and> GetRole a b = Inr r \<and> rule \<in> set (role_if_rules r) \<and>
        RuleMatches attributes rule = (True, None))"
    by (auto simp: fst_Authorize authorizeWithNamespaceRules_allowed store_authorizer_def
        DefaultRuleResolver_def rule_grants_def Bex_def set_RulesFor)
  then show "fst (Authorize (store_authorizer a mk) ctx attributes) \<longleftrightarrow>
      (\<exists>user b r rule. ctx_user ctx = Some user \<and>
        (b \<in> set (cluster_bindings_of (fst (drr_clusterBindingLister a))) \<or>
         NamespaceValue ctx \<noteq> [] \<and> (\<exists>lister. drr_bindingLister a = Some lister \<and>
           b \<in> set (namespace_bindings_of (fst (lister (NamespaceValue ctx)))))) \<and>
        (Has (rb_if_users b) (ui_name user) \<or> HasAny (rb_if_groups b) (ui_groups user)) \<and>
        (if or_namespace (rb_if_role_ref b) = []
         then \<exists>p cr. drr_clusterPolicyGetter a PolicyName = Inr p \<and>
           map_of (cpol_roles p) (or_name (rb_if_role_ref b)) = Some cr \<and> r = ClusterRoleAdapter cr
         else \<exists>get p lr. drr_policyGetter a = Some get \<and>
           get (or_namespace (rb_if_role_ref b)) PolicyName = Inr p \<and>
           map_of (pol_roles p) (or_name (rb_if_role_ref b)) = Some lr \<and> r = RoleAdapter lr) \<and>
        rule \<in> set (role_if_rules r) \<and> RuleMatches attributes rule = (True, None))"
    by (simp only: set_GetRoleBindings GetRole_eq_Inr AppliesToUser_Has HasAny_iff)
qed

section \<open>The escalation check\<close>

definition quote_char :: "char \<Rightarrow> string" where
  "quote_char c = (if c = CHR ''\"'' \<or> c = CHR 0x5C then [CHR 0x5C, c] else [c])"

definition quote :: "string \<Rightarrow> string" where
  "quote s = ''\"'' @ concat (map quote_char s) @ ''\"''"

definition quote_list :: "string list \<Rightarrow> string" where
  "quote_list xs = ''['' @ join_with '' '' (map quote xs) @ '']''"

text \<open>
  \<open>CompactString\<close>: the rendering of a restriction object by \<open>fmt\<close> is the parameter \<open>fmtObj\<close>.
  Names are printable ASCII, so quoting escapes only the quote and the backslash.
\<close>

definition CompactString :: "(restriction \<Rightarrow> string) \<Rightarrow> policy_rule \<Rightarrow> string" where
  "CompactString fmtObj r =
     ''{'' @ join_with '', ''
       ((if 0 < length (elems (pr_verbs r)) then [''Verbs:'' @ quote_list (SList (pr_verbs r))] else []) @
        (if 0 < length (pr_api_groups r) then [''APIGroups:'' @ quote_list (pr_api_groups r)] else []) @
        (if 0 < length (elems (pr_resources r)) then [''Resources:'' @ quote_list (SList (pr_resources r))] else []) @
        (if 0 < length (elems (pr_resource_names r))
         then [''ResourceNames:'' @ quote_list (SList (pr_resource_names r))] else []) @
        (case pr_attribute_restrictions r of None \<Rightarrow> [] | Some o' \<Rightarrow> [''Restrictions:'' @ fmtObj o']) @
        (if 0 < length (elems (pr_non_resource_urls r))
         then [''NonResourceURLs:'' @ quote_list (SList (pr_non_resource_urls r))] else [])) @ ''}''"

definition escalation_error ::
  "(restriction \<Rightarrow> string) \<Rightarrow> string \<Rightarrow> string \<Rightarrow> user_info \<Rightarrow> policy_rule list \<Rightarrow> go_error option \<Rightarrow> go_error" where
  "escalation_error fmtObj resource name user missing resolutionErr =
     (let lines = sort (map (CompactString fmtObj) (CompactRules missing));
          joined = join_with [char_of (10 :: nat)] lines in
      ForbiddenErr resource name
        (case resolutionErr of
           Some e \<Rightarrow> ErrorfE ''user %q cannot grant extra privileges: %v rule resolution errors: %v''
             [ui_name user, joined] [e]
         | None \<Rightarrow> Errorf ''user %q cannot grant extra privileges: %v'' [ui_name user, joined]))"

definition ConfirmNoEscalation ::
  "(restriction \<Rightarrow> string) \<Rightarrow> req_context \<Rightarrow> string \<Rightarrow> string \<Rightarrow> rule_resolver_if \<Rightarrow> rule_resolver_if option \<Rightarrow>
   role_if \<Rightarrow> go_error option" where
  "ConfirmNoEscalation fmtObj ctx resource name ruleResolver cachedRuleResolver role =
     (case ctx_user ctx of
        None \<Rightarrow> Some (ForbiddenErr resource name (Errorf ''no user provided in context'' []))
      | Some user \<Rightarrow>
          (let namespace = NamespaceValue ctx in
           if (case cachedRuleResolver of
                 None \<Rightarrow> False
               | Some cached \<Rightarrow>
                   (case rr_RulesFor cached user namespace of
                      (ownerRules, None) \<Rightarrow> fst (Covers ownerRules (role_if_rules role))
                    | (_, Some _) \<Rightarrow> False))
           then None
           else
             (let (ownerRules, err) = rr_RulesFor ruleResolver user namespace;
                  (ownerRightsCover, missingRights) = Covers ownerRules (role_if_rules role) in
              if ownerRightsCover then None
              else Some (escalation_error fmtObj resource name user missingRights err))))"

text \<open>
  Rules that \<open>Covers\<close> reads as they are meant: no double wildcard, and one with an attribute restriction
  allows, its restriction aside, none of the requests in question.
\<close>

definition plain_for :: "policy_rule list \<Rightarrow> policy_rule list \<Rightarrow> bool" where
  "plain_for servants owners \<longleftrightarrow>
     (\<forall>own \<in> set owners. single_wildcard own \<and>
        (pr_attribute_restrictions own = None \<or>
         (\<forall>rule \<in> set servants. \<forall>a. \<not> (rule_allows rule a \<and> rule_allows own a))))"

lemma Covers_grants:
  assumes "fst (Covers owners servants)" "plain_for servants owners" "rule \<in> set servants"
    "fst (RuleMatches attributes rule)"
  shows "\<exists>r \<in> set owners. rule_grants attributes r"
proof -
  have m: "rule_allows rule attributes" using assms(4) by (rule RuleMatches_allows)
  then have "allowed_by owners attributes"
    using Covers_allowed_by [OF assms(1), of attributes] assms(2,3) by (auto simp: plain_for_def allowed_by_def)
  then obtain own where own: "own \<in> set owners" "rule_allows own attributes" by (auto simp: allowed_by_def)
  then have "pr_attribute_restrictions own = None" using assms(2,3) m by (auto simp: plain_for_def)
  then have "rule_grants attributes own" using own(2) by (simp add: rule_grants_def RuleMatches_unrestricted)
  then show ?thesis using own(1) by blast
qed

text \<open>
  C3: no escalation.  When \<open>ConfirmNoEscalation\<close> lets a user write a role, with or without a cached
  resolver, every request the role's rules match is one the authorizer over the resolver that answered
  allows the user already.  This holds for a user none of whose rules has a double wildcard, and whose
  rules with an attribute restriction allow nothing that the role allows: \<open>Covers\<close> looks at neither, so a
  restricted rule for the same requests would be taken for an unrestricted one.
\<close>

theorem ConfirmNoEscalation_safe:
  assumes ok: "ConfirmNoEscalation fmtObj ctx resource name (DefaultRuleResolver fresh)
      (map_option DefaultRuleResolver cached) role = None"
    and plain: "\<And>user. ctx_user ctx = Some user \<Longrightarrow>
        plain_for (role_if_rules role) (fst (RulesFor fresh user (NamespaceValue ctx)))"
      "\<And>user c. ctx_user ctx = Some user \<Longrightarrow> cached = Some c \<Longrightarrow>
        plain_for (role_if_rules role) (fst (RulesFor c user (NamespaceValue ctx)))"
    and rule: "rule \<in> set (role_if_rules role)" "fst (RuleMatches attributes rule)"
  shows "fst (Authorize (store_authorizer fresh mk) ctx attributes) \<or>
    (\<exists>c. cached = Some c \<and> fst (Authorize (store_authorizer c mk) ctx attributes))"
proof -
  obtain user where u: "ctx_user ctx = Some user"
    using ok by (auto simp: ConfirmNoEscalation_def split: option.splits)
  let ?rf = "\<lambda>a. fst (RulesFor a user (NamespaceValue ctx))"
  obtain a where a: "a = fresh \<or> cached = Some a" "fst (Covers (?rf a) (role_if_rules role))"
    using ok u that [of fresh] that [of "the cached"]
    by (cases cached) (auto simp: ConfirmNoEscalation_def DefaultRuleResolver_def Let_def
        split: option.splits prod.splits if_splits)
  with plain have "\<exists>r \<in> set (?rf a). rule_grants attributes r"
    using Covers_grants rule u by blast
  then have "fst (Authorize (store_authorizer a mk) ctx attributes)"
    using u by (simp add: fst_Authorize authorizeWithNamespaceRules_allowed store_authorizer_def
        DefaultRuleResolver_def)
  with a(1) show ?thesis by blast
qed

definition no_type :: type_meta where
  "no_type = \<lparr>tm_kind = [], tm_api_version = []\<rparr>"

definition named :: "string \<Rightarrow> object_meta" where
  "named n = \<lparr>meta_name = n, meta_namespace = [], meta_uid = [], meta_labels = [], meta_annotations = []\<rparr>"

definition sample_store :: default_rule_resolver where
  "sample_store =
     \<lparr>drr_policyGetter = None, drr_bindingLister = None,
      drr_clusterPolicyGetter = (\<lambda>_. Inr \<lparr>cpol_type = no_type, cpol_meta = named ''default'',
        cpol_last_modified = 0,
        cpol_roles = [(''r'', \<lparr>crole_type = no_type, crole_meta = named ''r'', crole_rules = [sample_owner]\<rparr>)]\<rparr>),
      drr_clusterBindingLister = (Some [\<lparr>cpb_type = no_type, cpb_meta = named '':default'',
        cpb_last_modified = 0, cpb_policy_ref = subject_ref [] [] ''default'',
        cpb_role_bindings = [(''b'', \<lparr>crb_type = no_type, crb_meta = named ''b'',
          crb_subjects = [subject_ref UserKind [] ''alice''], crb_role_ref = subject_ref [] [] ''r''\<rparr>)]\<rparr>], None)\<rparr>"

lemma sample_store_rules:
  "\<exists>bs. RulesFor sample_store user ns = (if bs then [sample_owner] else [], None) \<and> (ui_name user = ''alice'' \<longrightarrow> bs)"
proof -
  let ?b = "ClusterRoleBindingAdapter \<lparr>crb_type = no_type, crb_meta = named ''b'',
          crb_subjects = [subject_ref UserKind [] ''alice''], crb_role_ref = subject_ref [] [] ''r''\<rparr>"
  have "RulesFor sample_store user ns = (if AppliesToUser ?b user then [sample_owner] else [], None)"
    by (simp add: RulesFor_def GetRoleBindings_def GetRole_def sample_store_def cluster_bindings_of_def
        namespace_bindings_of_def Let_def subject_ref_def)
  moreover have "ui_name user = ''alice'' \<Longrightarrow> AppliesToUser ?b user"
    by (simp add: AppliesToUser_Has rb_if_users_def subject_ref_def kind_defs gset_simps)
  ultimately show ?thesis by blast
qed

definition sample_ctx :: req_context where
  "sample_ctx = \<lparr>ctx_user = Some sample_user, ctx_namespace = Some ''ns''\<rparr>"

definition sample_role :: role_if where
  "sample_role = RoleAdapter \<lparr>role_type = no_type, role_meta = named ''x'', role_rules = [sample_servant]\<rparr>"

theorem ConfirmNoEscalation_safe_witness:
  "fst (Authorize (store_authorizer sample_store default_text) sample_ctx sample_url_request)"
proof -
  have r: "RulesFor sample_store sample_user ns = ([sample_owner], None)" for ns
    using sample_store_rules [of sample_user ns] by (auto simp: sample_user_def)
  have c: "Covers [sample_owner] [sample_servant] = (True, [])"
    using Covers_url_rules [where v = "''*''" and res = None and u = "''/api*''" and v' = "''get''" and u' = "''/api/*''"]
    by (simp add: sample_defs VerbAll_def NonResourceAll_def nonResourceRuleCovers_def gset_simps
        has_suffix_def has_prefix_def)
  have "fst (Authorize (store_authorizer sample_store default_text) sample_ctx sample_url_request) \<or>
    (\<exists>c. None = Some c \<and> fst (Authorize (store_authorizer c default_text) sample_ctx sample_url_request))"
  proof (rule ConfirmNoEscalation_safe [where role = sample_role and rule = sample_servant
        and fmtObj = "\<lambda>_. []" and resource = "''role''" and name = "''x''"])
    show "ConfirmNoEscalation (\<lambda>_. []) sample_ctx ''role'' ''x'' (DefaultRuleResolver sample_store)
        (map_option DefaultRuleResolver None) sample_role = None"
      using c by (simp add: ConfirmNoEscalation_def sample_ctx_def DefaultRuleResolver_def r
          sample_role_def Let_def split: prod.split)
    show "plain_for (role_if_rules sample_role) (fst (RulesFor sample_store user (NamespaceValue sample_ctx)))" for user
      using sample_store_rules [of user "NamespaceValue sample_ctx"]
      by (auto simp: plain_for_def single_wildcard_def sample_defs has_suffix_def)
    show "sample_servant \<in> set (role_if_rules sample_role)"
      by (simp add: sample_role_def)
    show "fst (RuleMatches sample_url_request sample_servant)"
      by (simp add: RuleMatches_unrestricted rule_allows_def sample_defs verbMatches_def gset_simps
          url_matches_def has_suffix_def has_prefix_def to_lower_def lower_char_def is_upper_def VerbAll_def)
  qed simp
  then show ?thesis by simp
qed

end
