(* ===== verification/Scopes.thy ===== *)
theory Scopes
  imports Authorizer
begin

text \<open>
  Token scopes: \<open>origin/pkg/authorization/authorizer/scope/converter.go\<close> turns scopes into policy
  rules, and \<open>scope/authorizer.go\<close> limits an authorizer to the requests these rules match.  The cluster policy getter is a
  parameter.  The interface \<open>ScopeEvaluator\<close> is the locale \<open>scope_evaluator\<close>, interpreted on the
  two evaluators the code registers.
\<close>

type_synonym cluster_policy_getter = "string \<Rightarrow> go_error + cluster_policy"

record scope_evaluator_if =
  se_Handles :: "string \<Rightarrow> bool"
  se_Validate :: "string \<Rightarrow> go_error option"
  se_Describe :: "string \<Rightarrow> go_error + string \<times> string"
  se_ResolveRules :: "string \<Rightarrow> string \<Rightarrow> cluster_policy_getter \<Rightarrow> go_error + policy_rule list"
  se_ResolveGettableNamespaces :: "string \<Rightarrow> cluster_policy_getter \<Rightarrow> string list \<times> go_error option"

section \<open>\<open>user:\<close> scopes\<close>

definition UserIndicator :: string where "UserIndicator = ''user:''"
definition ClusterRoleIndicator :: string where "ClusterRoleIndicator = ''role:''"
definition UserInfo :: string where "UserInfo = UserIndicator @ ''info''"
definition UserAccessCheck :: string where "UserAccessCheck = UserIndicator @ ''check-access''"
definition UserListScopedProjects :: string where
  "UserListScopedProjects = UserIndicator @ ''list-scoped-projects''"
definition UserListAllProjects :: string where "UserListAllProjects = UserIndicator @ ''list-projects''"
definition UserFull :: string where "UserFull = UserIndicator @ ''full''"

lemmas user_scope_defs = UserIndicator_def UserInfo_def UserAccessCheck_def
  UserListScopedProjects_def UserListAllProjects_def UserFull_def

definition unrecognized_scope :: "string \<Rightarrow> go_error" where
  "unrecognized_scope scope = Errorf ''unrecognized scope: %v'' [scope]"

definition user_Handles :: "string \<Rightarrow> bool" where
  "user_Handles scope = has_prefix scope UserIndicator"

definition user_Validate :: "string \<Rightarrow> go_error option" where
  "user_Validate scope =
     (if scope \<in> {UserFull, UserInfo, UserAccessCheck, UserListScopedProjects, UserListAllProjects}
      then None else Some (unrecognized_scope scope))"

definition user_Describe :: "string \<Rightarrow> go_error + string \<times> string" where
  "user_Describe scope =
     (if scope = UserInfo then
        Inr (''Read-only access to your user information (including username, identities, and group membership)'', [])
      else if scope = UserAccessCheck then
        Inr (''Read-only access to view your privileges (for example, '' @ quoted ''can I create builds?'' @ '')'', [])
      else if scope = UserListScopedProjects then
        Inr (''Read-only access to list your projects viewable with this token and view their metadata (display name, description, etc.)'', [])
      else if scope = UserListAllProjects then
        Inr (''Read-only access to list your projects and view their metadata (display name, description, etc.)'', [])
      else if scope = UserFull then
        Inr (''Full read/write access with all of your permissions'',
             ''Includes any access you have to escalating resources like secrets'')
      else Inl (unrecognized_scope scope))"

text \<open>The API groups of users, projects, authorization and Kubernetes are all the empty group.\<close>

definition resource_rule :: "string list \<Rightarrow> string list \<Rightarrow> string list \<Rightarrow> policy_rule" where
  "resource_rule verbs groups resources = zero_rule\<lparr>pr_verbs := NewString verbs,
     pr_api_groups := groups, pr_resources := NewString resources\<rparr>"

definition selfsubjectrulesreviews_rule :: policy_rule where
  "selfsubjectrulesreviews_rule =
     (case RuleOrDie (builder_Resources (builder_Groups (NewRule [''create'']) [[]]) [''selfsubjectrulesreviews'']) of
        Some r \<Rightarrow> r | None \<Rightarrow> zero_rule)"

definition user_ResolveRules ::
  "string \<Rightarrow> string \<Rightarrow> cluster_policy_getter \<Rightarrow> go_error + policy_rule list" where
  "user_ResolveRules scope namespace clusterPolicyGetter =
     (if scope = UserInfo then
        Inr [(resource_rule [''get''] [[]] [''users''])\<lparr>pr_resource_names := NewString [''~'']\<rparr>]
      else if scope = UserAccessCheck then
        Inr [(resource_rule [''create''] [[]] [''subjectaccessreviews'', ''localsubjectaccessreviews''])
               \<lparr>pr_attribute_restrictions := Some (IsPersonalSubjectAccessReview no_type)\<rparr>,
             selfsubjectrulesreviews_rule]
      else if scope = UserListScopedProjects then
        Inr [resource_rule [''list'', ''watch''] [[]] [''projects'']]
      else if scope = UserListAllProjects then
        Inr [resource_rule [''list'', ''watch''] [[]] [''projects''],
             resource_rule [''get''] [[]] [''namespaces'']]
      else if scope = UserFull then
        Inr [resource_rule [''*''] [''*''] [''*''],
             zero_rule\<lparr>pr_verbs := NewString [''*''], pr_non_resource_urls := NewString [''*'']\<rparr>]
      else Inl (unrecognized_scope scope))"

definition user_ResolveGettableNamespaces ::
  "string \<Rightarrow> cluster_policy_getter \<Rightarrow> string list \<times> go_error option" where
  "user_ResolveGettableNamespaces scope clusterPolicyGetter =
     (if scope \<in> {UserFull, UserListAllProjects} then ([''*''], None) else ([], None))"

definition userEvaluator :: scope_evaluator_if where
  "userEvaluator = \<lparr>se_Handles = user_Handles, se_Validate = user_Validate, se_Describe = user_Describe,
     se_ResolveRules = user_ResolveRules,
     se_ResolveGettableNamespaces = user_ResolveGettableNamespaces\<rparr>"

section \<open>\<open>role:\<close> scopes\<close>

definition clusterRole_Handles :: "string \<Rightarrow> bool" where
  "clusterRole_Handles scope = has_prefix scope ClusterRoleIndicator"

definition bad_format :: "string \<Rightarrow> go_error" where
  "bad_format scope = Errorf ''bad format for scope %v'' [scope]"

text \<open>Role name, namespace and whether escalating resources are included.\<close>

definition ParseClusterRoleScope :: "string \<Rightarrow> go_error + string \<times> string \<times> bool" where
  "ParseClusterRoleScope scope0 =
     (if \<not> has_prefix scope0 ClusterRoleIndicator then Inl (bad_format scope0)
      else
        (let escalating = has_suffix scope0 '':!'';
             scope = (if escalating
               then (case last_index CHR '':'' scope0 of Some i \<Rightarrow> take i scope0 | None \<Rightarrow> scope0)
               else scope0) in
         (case splitN2 CHR '':'' scope of
            [_, rest] \<Rightarrow>
              (case last_index CHR '':'' rest of
                 None \<Rightarrow> Inl (bad_format scope)
               | Some lastColonIndex \<Rightarrow>
                   (if lastColonIndex = 0 \<or> lastColonIndex = length rest - 1 then Inl (bad_format scope)
                    else Inr (take lastColonIndex rest, drop (lastColonIndex + 1) rest, escalating)))
          | _ \<Rightarrow> Inl (bad_format scope))))"

definition parseScope :: "string \<Rightarrow> go_error + string \<times> string \<times> bool" where
  "parseScope scope =
     (if \<not> clusterRole_Handles scope then Inl (bad_format scope) else ParseClusterRoleScope scope)"

definition clusterRole_Validate :: "string \<Rightarrow> go_error option" where
  "clusterRole_Validate scope = (case parseScope scope of Inl err \<Rightarrow> Some err | Inr _ \<Rightarrow> None)"

definition clusterRole_Describe :: "string \<Rightarrow> go_error + string \<times> string" where
  "clusterRole_Describe scope =
     (case parseScope scope of
        Inl err \<Rightarrow> Inl err
      | Inr (roleName, scopeNamespace, escalating) \<Rightarrow>
          (let scopePhrase = (if scopeNamespace = ScopesAllNamespaces then ''server-wide''
                 else ''in project '' @ quote scopeNamespace);
               warning = (if escalating then ''Includes access to escalating resources like secrets'' else []);
               escalatingPhrase = (if escalating then [] else '', except access escalating resources like secrets'')
           in Inr (''Anything you can do '' @ scopePhrase @ '' that is also allowed by the '' @ quote roleName @
                   '' role'' @ escalatingPhrase, warning)))"

definition escalatingScopeResources :: "group_resource list" where
  "escalatingScopeResources =
     [([], ''secrets''), ([], ''imagestreams/secrets''),
      ([], ''oauthauthorizetokens''), ([], ''oauthaccesstokens''),
      ([], ''roles''), ([], ''rolebindings''),
      ([], ''clusterroles''), ([], ''clusterrolebindings'')]"

definition getAPIGroupSet :: "policy_rule \<Rightarrow> sset" where
  "getAPIGroupSet rule =
     (let apiGroups = Insert [] (pr_api_groups rule)
      in if length apiGroups = 0 then Some (Insert apiGroups [[]]) else Some apiGroups)"

text \<open>
  The copy is made on the first match; since it equals its original, deleting from the rule
  itself is the same computation.  Both tests read the original rule.
\<close>

fun delete_escalating :: "policy_rule \<Rightarrow> group_resource list \<Rightarrow> sset \<Rightarrow> sset" where
  "delete_escalating orig [] resources = resources"
| "delete_escalating orig ((grp, resource) # rest) resources =
     (if \<not> (Has (getAPIGroupSet orig) grp \<and> Has (pr_resources orig) resource)
      then delete_escalating orig rest resources
      else delete_escalating orig rest (Delete resources resource))"

definition removeEscalatingResources :: "policy_rule \<Rightarrow> policy_rule" where
  "removeEscalatingResources rule =
     rule\<lparr>pr_resources := delete_escalating rule escalatingScopeResources (pr_resources rule)\<rparr>"

definition scope_safe_rules :: "bool \<Rightarrow> policy_rule list \<Rightarrow> policy_rule list" where
  "scope_safe_rules escalating rules =
     concat (map (\<lambda>rule.
       if escalating then [rule]
       else if Has (pr_verbs rule) VerbAll \<or> Has (pr_resources rule) ResourceAll \<or>
         Has (getAPIGroupSet rule) APIGroupAll then []
       else [removeEscalatingResources rule]) rules)"

definition clusterRole_resolveRules :: "string \<Rightarrow> cluster_policy_getter \<Rightarrow> go_error + policy_rule list" where
  "clusterRole_resolveRules scope clusterPolicyGetter =
     (case parseScope scope of
        Inl err \<Rightarrow> Inl err
      | Inr (roleName, _, escalating) \<Rightarrow>
          (case clusterPolicyGetter ''default'' of
             Inl err \<Rightarrow> Inl err
           | Inr pol \<Rightarrow>
               (case map_of (cpol_roles pol) roleName of
                  None \<Rightarrow> Inl (NotFoundErr ''clusterrole'' roleName)
                | Some role \<Rightarrow> Inr (scope_safe_rules escalating (crole_rules role)))))"

definition clusterRole_ResolveRules ::
  "string \<Rightarrow> string \<Rightarrow> cluster_policy_getter \<Rightarrow> go_error + policy_rule list" where
  "clusterRole_ResolveRules scope namespace clusterPolicyGetter =
     (case parseScope scope of
        Inl err \<Rightarrow> Inl err
      | Inr (_, scopeNamespace, _) \<Rightarrow>
          (if \<not> (scopeNamespace = ScopesAllNamespaces \<or> scopeNamespace = namespace) then Inr []
           else clusterRole_resolveRules scope clusterPolicyGetter))"

fun get_namespaces_loop :: "auth_attributes \<Rightarrow> string \<Rightarrow> policy_rule list \<Rightarrow> go_error list \<Rightarrow>
    string list \<times> go_error option" where
  "get_namespaces_loop attributes scopeNamespace [] errors = ([], aggregate errors)"
| "get_namespaces_loop attributes scopeNamespace (rule # rules) errors =
     (case RuleMatches attributes rule of
        (_, Some err) \<Rightarrow> get_namespaces_loop attributes scopeNamespace rules (errors @ [err])
      | (matches, None) \<Rightarrow>
          (if matches then ([scopeNamespace], None)
           else get_namespaces_loop attributes scopeNamespace rules errors))"

definition get_namespaces_attributes :: auth_attributes where
  "get_namespaces_attributes = zero_attributes\<lparr>aa_verb := ''get'', aa_resource := ''namespaces''\<rparr>"

definition clusterRole_ResolveGettableNamespaces ::
  "string \<Rightarrow> cluster_policy_getter \<Rightarrow> string list \<times> go_error option" where
  "clusterRole_ResolveGettableNamespaces scope clusterPolicyGetter =
     (case parseScope scope of
        Inl err \<Rightarrow> ([], Some err)
      | Inr (_, scopeNamespace, _) \<Rightarrow>
          (case clusterRole_resolveRules scope clusterPolicyGetter of
             Inl err \<Rightarrow> ([], Some err)
           | Inr rules \<Rightarrow> get_namespaces_loop get_namespaces_attributes scopeNamespace rules []))"

definition clusterRoleEvaluator :: scope_evaluator_if where
  "clusterRoleEvaluator = \<lparr>se_Handles = clusterRole_Handles, se_Validate = clusterRole_Validate,
     se_Describe = clusterRole_Describe, se_ResolveRules = clusterRole_ResolveRules,
     se_ResolveGettableNamespaces = clusterRole_ResolveGettableNamespaces\<rparr>"

section \<open>All evaluators\<close>

definition ScopeEvaluators :: "scope_evaluator_if list" where
  "ScopeEvaluators = [userEvaluator, clusterRoleEvaluator]"

fun resolve_with :: "scope_evaluator_if list \<Rightarrow> string \<Rightarrow> string \<Rightarrow> cluster_policy_getter \<Rightarrow>
    bool \<times> policy_rule list \<times> go_error list" where
  "resolve_with [] scope namespace getter = (False, [], [])"
| "resolve_with (e # es) scope namespace getter =
     (let (found, rules, errors) = resolve_with es scope namespace getter in
      if se_Handles e scope then
        (case se_ResolveRules e scope namespace getter of
           Inl err \<Rightarrow> (True, rules, err # errors)
         | Inr currRules \<Rightarrow> (True, currRules @ rules, errors))
      else (found, rules, errors))"

definition no_evaluator :: "string \<Rightarrow> go_error" where
  "no_evaluator scope = Errorf ''no scope evaluator found for %q'' [scope]"

fun scopes_loop :: "string list \<Rightarrow> string \<Rightarrow> cluster_policy_getter \<Rightarrow> policy_rule list \<times> go_error list" where
  "scopes_loop [] namespace getter = ([], [])"
| "scopes_loop (scope # scopes) namespace getter =
     (let (found, currRules, currErrors) = resolve_with ScopeEvaluators scope namespace getter;
          (rules, errors) = scopes_loop scopes namespace getter
      in (currRules @ rules, currErrors @ (if found then [] else [no_evaluator scope]) @ errors))"

definition ScopesToRules ::
  "string list \<Rightarrow> string \<Rightarrow> cluster_policy_getter \<Rightarrow> policy_rule list \<times> go_error option" where
  "ScopesToRules scopes namespace getter =
     (let (rules, errors) = scopes_loop scopes namespace getter
      in (DiscoveryRule # rules, aggregate errors))"

text \<open>The inner loop stops at the first evaluator that resolves the scope without an error.\<close>

fun visible_with :: "scope_evaluator_if list \<Rightarrow> string \<Rightarrow> cluster_policy_getter \<Rightarrow>
    bool \<times> string list \<times> go_error list" where
  "visible_with [] scope getter = (False, [], [])"
| "visible_with (e # es) scope getter =
     (if se_Handles e scope then
        (case se_ResolveGettableNamespaces e scope getter of
           (_, Some err) \<Rightarrow> (let (_, nss, errors) = visible_with es scope getter in (True, nss, err # errors))
         | (allowed, None) \<Rightarrow> (True, allowed, []))
      else visible_with es scope getter)"

fun visible_loop :: "string list \<Rightarrow> cluster_policy_getter \<Rightarrow> string list \<Rightarrow> go_error list \<Rightarrow>
    string list \<times> go_error list" where
  "visible_loop [] getter visible errors = (visible, errors)"
| "visible_loop (scope # scopes) getter visible errors =
     (let (found, nss, errs) = visible_with ScopeEvaluators scope getter
      in visible_loop scopes getter (Insert visible nss)
           (errors @ errs @ (if found then [] else [no_evaluator scope])))"

definition ScopesToVisibleNamespaces ::
  "string list \<Rightarrow> cluster_policy_getter \<Rightarrow> sset \<times> go_error option" where
  "ScopesToVisibleNamespaces scopes getter =
     (if length scopes = 0 then (NewString [''*''], None)
      else (let (visible, errors) = visible_loop scopes getter [] []
            in (Some visible, aggregate errors)))"

section \<open>Scope restrictions of OAuth clients\<close>

record cluster_role_scope_restriction =
  csr_role_names :: "string list"
  csr_namespaces :: "string list"
  csr_allow_escalation :: bool

record scope_restriction =
  sr_exact_values :: "string list"
  sr_cluster_role :: "cluster_role_scope_restriction option"

fun ValidateLiteralScopeRestrictions :: "string \<Rightarrow> string list \<Rightarrow> string list \<Rightarrow> go_error option" where
  "ValidateLiteralScopeRestrictions scope literals [] = Some (Errorf ''%v not found in %v'' (scope # literals))"
| "ValidateLiteralScopeRestrictions scope literals (l # rest) =
     (if l = scope then None else ValidateLiteralScopeRestrictions scope literals rest)"

definition ValidateClusterRoleScopeRestrictions ::
  "string \<Rightarrow> cluster_role_scope_restriction \<Rightarrow> go_error option" where
  "ValidateClusterRoleScopeRestrictions scope restriction =
     (case parseScope scope of
        Inl err \<Rightarrow> Some err
      | Inr (role, namespace, escalating) \<Rightarrow>
          (if \<not> list_ex (\<lambda>r. r = ''*'' \<or> r = role) (csr_role_names restriction)
           then Some (Errorf ''%v does not use an approved name'' [scope])
           else if \<not> list_ex (\<lambda>n. n = ''*'' \<or> n = namespace) (csr_namespaces restriction)
           then Some (Errorf ''%v does not use an approved namespace'' [scope])
           else if escalating \<and> \<not> csr_allow_escalation restriction
           then Some (Errorf ''%v is not allowed to escalate'' [scope])
           else None))"

fun restrictions_loop :: "string \<Rightarrow> scope_restriction list \<Rightarrow> go_error list \<Rightarrow> go_error option" where
  "restrictions_loop scope [] errs =
     aggregate (if length errs = 0 then [Errorf ''%v did not match any scope restriction'' [scope]] else errs)"
| "restrictions_loop scope (restriction # rest) errs =
     (if 0 < length (sr_exact_values restriction) then
        (case ValidateLiteralScopeRestrictions scope (sr_exact_values restriction) (sr_exact_values restriction) of
           Some err \<Rightarrow> restrictions_loop scope rest (errs @ [err])
         | None \<Rightarrow> None)
      else (case sr_cluster_role restriction of
              None \<Rightarrow> restrictions_loop scope rest errs
            | Some cr \<Rightarrow>
                (if \<not> clusterRole_Handles scope then restrictions_loop scope rest errs
                 else (case ValidateClusterRoleScopeRestrictions scope cr of
                         Some err \<Rightarrow> restrictions_loop scope rest (errs @ [err])
                       | None \<Rightarrow> None))))"

definition validateScopeRestrictions :: "scope_restriction list \<Rightarrow> string \<Rightarrow> go_error option" where
  "validateScopeRestrictions restrictions scope =
     (if length restrictions = 0 then None else restrictions_loop scope restrictions [])"

text \<open>The client is its name and its restrictions.\<close>

definition ValidateScopeRestrictions ::
  "string \<Rightarrow> scope_restriction list \<Rightarrow> string list \<Rightarrow> go_error option" where
  "ValidateScopeRestrictions clientName restrictions scopes =
     (if length restrictions = 0 then None
      else if length scopes = 0 then Some (Errorf ''%v may not request unscoped tokens'' [clientName])
      else aggregate (List.map_filter (validateScopeRestrictions restrictions) scopes))"

section \<open>The scope authorizer\<close>

type_synonym authorize_fn = "req_context \<Rightarrow> auth_attributes \<Rightarrow> bool \<times> reason \<times> go_error option"

record scope_authorizer =
  sa_delegate :: authorize_fn
  sa_clusterPolicyGetter :: cluster_policy_getter
  sa_messageMaker :: message_maker

fun scope_match_loop :: "auth_attributes \<Rightarrow> policy_rule list \<Rightarrow> go_error list \<Rightarrow> bool \<times> go_error list" where
  "scope_match_loop attributes [] errs = (False, errs)"
| "scope_match_loop attributes (rule # rules) errs =
     (case RuleMatches attributes rule of
        (_, Some err) \<Rightarrow> scope_match_loop attributes rules (errs @ [err])
      | (matches, None) \<Rightarrow> (if matches then (True, errs) else scope_match_loop attributes rules errs))"

definition scope_Authorize :: "scope_authorizer \<Rightarrow> authorize_fn" where
  "scope_Authorize a ctx attributes =
     (case ctx_user ctx of
        None \<Rightarrow> (False, Reason [], Some (Errorf ''user missing from context'' []))
      | Some user \<Rightarrow>
          (let scopes = extra_values user ScopesKey in
           if length scopes = 0 then sa_delegate a ctx attributes
           else
             (let namespace = NamespaceValue ctx;
                  (rules, err) = ScopesToRules scopes namespace (sa_clusterPolicyGetter a);
                  (matched, nonFatalErrors) =
                    scope_match_loop attributes rules (case err of None \<Rightarrow> [] | Some e \<Rightarrow> [e]) in
              if matched then sa_delegate a ctx attributes
              else
                (let (denyReason, merr) = sa_messageMaker a
                       \<lparr>mc_user = user, mc_namespace = namespace, mc_attributes = attributes\<rparr>
                 in (False,
                     ScopesPrevent scopes (case merr of None \<Rightarrow> Reason denyReason | Some e \<Rightarrow> ReasonErr e),
                     aggregate nonFatalErrors)))))"

section \<open>The evaluators meet their interface\<close>

locale scope_evaluator =
  fixes E :: scope_evaluator_if
  assumes valid_handled: "se_Validate E scope = None \<Longrightarrow> se_Handles E scope"
    and resolved_valid: "se_ResolveRules E scope ns getter = Inr rules \<Longrightarrow> se_Validate E scope = None"
    and described_valid: "\<not> isl (se_Describe E scope) \<longleftrightarrow> se_Validate E scope = None"
begin

lemma invalid_rejected:
  "se_Validate E scope = Some err \<Longrightarrow> isl (se_ResolveRules E scope ns getter)"
  using resolved_valid [of scope ns getter] by (cases "se_ResolveRules E scope ns getter") auto

lemma unhandled_rejected: "\<not> se_Handles E scope \<Longrightarrow> isl (se_ResolveRules E scope ns getter)"
  using valid_handled invalid_rejected [of scope _ ns getter] by (cases "se_Validate E scope") auto

end

lemma parseScope_handles: "parseScope scope = Inr r \<Longrightarrow> clusterRole_Handles scope"
  by (auto simp: parseScope_def split: if_splits)

interpretation user_scopes: scope_evaluator userEvaluator
proof
  fix scope ns :: string and getter :: cluster_policy_getter and rules
  show "se_Validate userEvaluator scope = None \<Longrightarrow> se_Handles userEvaluator scope"
    by (auto simp: userEvaluator_def user_Validate_def user_Handles_def user_scope_defs has_prefix_def split: if_splits)
  show "se_ResolveRules userEvaluator scope ns getter = Inr rules \<Longrightarrow> se_Validate userEvaluator scope = None"
    by (auto simp: userEvaluator_def user_Validate_def user_ResolveRules_def split: if_splits)
  show "\<not> isl (se_Describe userEvaluator scope) \<longleftrightarrow> se_Validate userEvaluator scope = None"
    by (auto simp: userEvaluator_def user_Validate_def user_Describe_def)
qed

interpretation role_scopes: scope_evaluator clusterRoleEvaluator
proof
  fix scope ns :: string and getter :: cluster_policy_getter and rules
  show "se_Validate clusterRoleEvaluator scope = None \<Longrightarrow> se_Handles clusterRoleEvaluator scope"
    by (auto simp: clusterRoleEvaluator_def clusterRole_Validate_def dest: parseScope_handles split: sum.splits)
  show "se_ResolveRules clusterRoleEvaluator scope ns getter = Inr rules \<Longrightarrow>
      se_Validate clusterRoleEvaluator scope = None"
    by (auto simp: clusterRoleEvaluator_def clusterRole_Validate_def clusterRole_ResolveRules_def split: sum.splits)
  show "\<not> isl (se_Describe clusterRoleEvaluator scope) \<longleftrightarrow> se_Validate clusterRoleEvaluator scope = None"
    by (auto simp: clusterRoleEvaluator_def clusterRole_Validate_def clusterRole_Describe_def Let_def split: sum.splits)
qed

lemma handles_exclusive: "\<not> (user_Handles scope \<and> clusterRole_Handles scope)"
  by (auto simp: user_Handles_def clusterRole_Handles_def has_prefix_iff UserIndicator_def ClusterRoleIndicator_def)

text \<open>The rules of one scope, and the error, when it has none.\<close>

definition scope_rules :: "string \<Rightarrow> string \<Rightarrow> cluster_policy_getter \<Rightarrow> go_error + policy_rule list" where
  "scope_rules scope namespace getter =
     (if user_Handles scope then user_ResolveRules scope namespace getter
      else if clusterRole_Handles scope then clusterRole_ResolveRules scope namespace getter
      else Inl (no_evaluator scope))"

lemma resolve_with_ScopeEvaluators:
  "resolve_with ScopeEvaluators scope ns getter =
     (user_Handles scope \<or> clusterRole_Handles scope,
      case scope_rules scope ns getter of Inl _ \<Rightarrow> [] | Inr rules \<Rightarrow> rules,
      if user_Handles scope \<or> clusterRole_Handles scope
      then (case scope_rules scope ns getter of Inl e \<Rightarrow> [e] | Inr _ \<Rightarrow> []) else [])"
  using handles_exclusive [of scope]
  by (auto simp: ScopeEvaluators_def scope_rules_def userEvaluator_def clusterRoleEvaluator_def split: sum.split)

lemma scope_rules_unhandled:
  "\<not> user_Handles scope \<Longrightarrow> \<not> clusterRole_Handles scope \<Longrightarrow> scope_rules scope ns getter = Inl (no_evaluator scope)"
  by (simp add: scope_rules_def)

lemma scopes_loop_Cons:
  "scopes_loop (s # ss) ns getter =
     (case scope_rules s ns getter of
        Inl e \<Rightarrow> (fst (scopes_loop ss ns getter), e # snd (scopes_loop ss ns getter))
      | Inr rs \<Rightarrow> (rs @ fst (scopes_loop ss ns getter), snd (scopes_loop ss ns getter)))"
proof (cases "user_Handles s \<or> clusterRole_Handles s")
  case True
  then show ?thesis
    by (simp add: resolve_with_ScopeEvaluators case_prod_beta split: sum.split)
next
  case False
  then show ?thesis
    by (simp add: resolve_with_ScopeEvaluators scope_rules_unhandled case_prod_beta)
qed

lemma scopes_loop_result:
  "set (fst (scopes_loop scopes ns getter)) =
     {r. \<exists>s \<in> set scopes. \<exists>rs. scope_rules s ns getter = Inr rs \<and> r \<in> set rs} \<and>
   (snd (scopes_loop scopes ns getter) = [] \<longleftrightarrow> (\<forall>s \<in> set scopes. \<not> isl (scope_rules s ns getter)))"
proof (induction scopes)
  case (Cons s ss)
  then show ?case
    by (cases "scope_rules s ns getter") (auto simp: scopes_loop_Cons simp del: scopes_loop.simps)
qed simp

text \<open>
  Scopes become exactly the discovery rule and the rules of the scopes that resolve; the
  result is error-free only when every scope resolves, and a scope that its evaluator does not
  validate never resolves.
\<close>

theorem ScopesToRules_exactly_resolved:
  "set (fst (ScopesToRules scopes ns getter)) =
     insert DiscoveryRule {r. \<exists>s \<in> set scopes. \<exists>rs. scope_rules s ns getter = Inr rs \<and> r \<in> set rs} \<and>
   (snd (ScopesToRules scopes ns getter) = None \<longleftrightarrow> list_all (\<lambda>s. \<not> isl (scope_rules s ns getter)) scopes) \<and>
   \<not> (user_Validate s \<noteq> None \<and> clusterRole_Validate s \<noteq> None \<and> \<not> isl (scope_rules s ns getter))"
proof -
  have "isl (scope_rules s ns getter)" if "user_Validate s \<noteq> None" "clusterRole_Validate s \<noteq> None"
  proof -
    from that obtain e1 e2 where "user_Validate s = Some e1" "clusterRole_Validate s = Some e2" by blast
    then have v: "se_Validate userEvaluator s = Some e1" "se_Validate clusterRoleEvaluator s = Some e2"
      by (simp_all add: userEvaluator_def clusterRoleEvaluator_def)
    from user_scopes.invalid_rejected [OF v(1), of ns getter]
      role_scopes.invalid_rejected [OF v(2), of ns getter]
    show ?thesis
      by (simp add: userEvaluator_def clusterRoleEvaluator_def scope_rules_def)
  qed
  then have "\<not> (user_Validate s \<noteq> None \<and> clusterRole_Validate s \<noteq> None \<and> \<not> isl (scope_rules s ns getter))"
    by blast
  then show ?thesis
    using scopes_loop_result [of scopes ns getter]
    by (simp only: ScopesToRules_def case_prod_beta Let_def fst_conv snd_conv list.simps
        NewAggregate_Some list_all_iff simp_thms option.distinct if_split) simp
qed

section \<open>Role scopes\<close>

lemma role_scope_suffix:
  assumes "CHR '':'' \<notin> set ns" "ns \<noteq> []" "ns \<noteq> ''!''"
  shows "\<not> has_suffix (p @ '':'' @ ns) '':!''"
proof
  assume "has_suffix (p @ '':'' @ ns) '':!''"
  then obtain t where t: "p @ '':'' @ ns = t @ '':!''" by (auto simp: has_suffix_iff)
  obtain ns' c where ns: "ns = ns' @ [c]" using assms(2) by (metis rev_exhaust)
  with t have e: "p @ '':'' @ ns' = t @ '':''" "c = CHR ''!''" by auto
  show False
  proof (cases ns' rule: rev_cases)
    case Nil
    with ns e assms(3) show False by simp
  next
    case (snoc ys y)
    with e have "y = CHR '':''" by auto
    with ns snoc assms(1) show False by simp
  qed
qed

lemma parse_role_tail:
  assumes "r \<noteq> []" "ns \<noteq> []" "CHR '':'' \<notin> set ns"
  shows "splitN2 CHR '':'' (''role:'' @ r @ '':'' @ ns) = [''role'', r @ '':'' @ ns]"
    and "last_index CHR '':'' (r @ '':'' @ ns) = Some (length r)"
  using assms last_index_append [of "CHR '':''" ns r] by (simp_all add: splitN2_def)

lemma ParseClusterRoleScope_make:
  assumes "r \<noteq> []" "ns \<noteq> []" "CHR '':'' \<notin> set ns"
  shows "ns \<noteq> ''!'' \<Longrightarrow> ParseClusterRoleScope (''role:'' @ r @ '':'' @ ns) = Inr (r, ns, False)"
    and "ParseClusterRoleScope (''role:'' @ r @ '':'' @ ns @ '':!'') = Inr (r, ns, True)"
proof -
  note p = parse_role_tail [OF assms]
  assume n: "ns \<noteq> ''!''"
  have "\<not> has_suffix (''role:'' @ r @ '':'' @ ns) '':!''"
    using role_scope_suffix [OF assms(3,2) n, of "''role:'' @ r"] by simp
  then show "ParseClusterRoleScope (''role:'' @ r @ '':'' @ ns) = Inr (r, ns, False)"
    using p assms by (simp add: ParseClusterRoleScope_def ClusterRoleIndicator_def has_prefix_def Let_def)
next
  note p = parse_role_tail [OF assms]
  let ?s = "''role:'' @ r @ '':'' @ ns"
  have "has_suffix (?s @ '':!'') '':!''" by (rule has_suffix_append)
  moreover have "last_index CHR '':'' (?s @ '':!'') = Some (length ?s)"
    using last_index_append [of "CHR '':''" "''!''" ?s] by simp
  ultimately show "ParseClusterRoleScope (''role:'' @ r @ '':'' @ ns @ '':!'') = Inr (r, ns, True)"
    using p assms by (simp add: ParseClusterRoleScope_def ClusterRoleIndicator_def has_prefix_def Let_def)
qed

lemma ParseClusterRoleScope_shape:
  assumes "ParseClusterRoleScope s = Inr (r, ns, esc)"
  shows "r \<noteq> [] \<and> ns \<noteq> [] \<and> CHR '':'' \<notin> set ns"
proof -
  obtain rest i where i: "last_index CHR '':'' rest = Some i" "i \<noteq> 0" "i \<noteq> length rest - 1"
    and r: "r = take i rest" "ns = drop (Suc i) rest"
    using assms by (auto simp: ParseClusterRoleScope_def Let_def split: if_splits list.splits option.splits)
  from last_index_Some [OF i(1)] i r show ?thesis by auto
qed

text \<open>
  A role scope written for a role (whose name may contain colons) and a namespace is parsed
  back to them, with and without the escalation mark, and every scope that parses names a
  non-empty role and a namespace without a colon.
\<close>

theorem role_scope_roundtrip:
  assumes "r \<noteq> []" "ns \<noteq> []" "CHR '':'' \<notin> set ns" "ns \<noteq> ''!''"
  shows "ParseClusterRoleScope (ClusterRoleIndicator @ r @ '':'' @ ns) = Inr (r, ns, False) \<and>
    ParseClusterRoleScope (ClusterRoleIndicator @ r @ '':'' @ ns @ '':!'') = Inr (r, ns, True)"
  using ParseClusterRoleScope_make [OF assms(1-3)] assms(4) by (simp add: ClusterRoleIndicator_def)

theorem role_scope_roundtrip_witness:
  "ParseClusterRoleScope (ClusterRoleIndicator @ ''system:edit'' @ '':'' @ ''ns1'') = Inr (''system:edit'', ''ns1'', False)"
  using role_scope_roundtrip [of "''system:edit''" "''ns1''"] by simp

lemma Has_delete_escalating:
  "Has (delete_escalating orig es resources) x \<longleftrightarrow>
   Has resources x \<and>
   \<not> (\<exists>g. (g, x) \<in> set es \<and> Has (getAPIGroupSet orig) g \<and> Has (pr_resources orig) x)"
  by (induction orig es resources rule: delete_escalating.induct) (auto simp: Has_Delete)

lemma Has_getAPIGroupSet:
  "Has (getAPIGroupSet rule) g \<longleftrightarrow>
   (if pr_api_groups rule = [] then g = [] else g \<in> set (pr_api_groups rule))"
  by (auto simp: getAPIGroupSet_def Let_def Has_simps simp flip: set_empty)

text \<open>Rules whose resources are neither groups nor upper-case, with lower-case API groups.\<close>

definition normal_rule :: "policy_rule \<Rightarrow> bool" where
  "normal_rule rule \<longleftrightarrow>
     (\<forall>r. Has (pr_resources rule) r \<longrightarrow> \<not> needsNormalizing r) \<and>
     (\<forall>g \<in> set (pr_api_groups rule). to_lower g = g)"

definition escalating_request :: "auth_attributes \<Rightarrow> bool" where
  "escalating_request a \<longleftrightarrow> \<not> aa_non_resource_url a \<and>
     (to_lower (aa_api_group a), to_lower (aa_resource a)) \<in> set escalatingScopeResources"

lemma scope_safe_rules_elem:
  "s \<in> set (scope_safe_rules False rules) \<Longrightarrow>
   \<exists>rule \<in> set rules. s = removeEscalatingResources rule \<and>
     \<not> Has (pr_resources rule) ResourceAll \<and> \<not> Has (getAPIGroupSet rule) APIGroupAll"
  by (auto simp: scope_safe_rules_def split: if_splits)

lemma scope_safe_rules_no_escalation:
  assumes "\<forall>rule \<in> set rules. normal_rule rule" and "s \<in> set (scope_safe_rules False rules)"
    and "escalating_request a"
  shows "\<not> rule_allows s a"
proof
  assume al: "rule_allows s a"
  obtain rule where rule: "rule \<in> set rules" "s = removeEscalatingResources rule"
    "\<not> Has (pr_resources rule) ResourceAll" "\<not> Has (getAPIGroupSet rule) APIGroupAll"
    using scope_safe_rules_elem [OF assms(2)] by blast
  have n: "normal_rule rule" using assms(1) rule(1) by blast
  have esc: "(to_lower (aa_api_group a), to_lower (aa_resource a)) \<in> set escalatingScopeResources"
    and nr: "\<not> aa_non_resource_url a"
    using assms(3) by (simp_all add: escalating_request_def)
  have e0: "to_lower (aa_api_group a) = []"
    using esc by (auto simp: escalatingScopeResources_def)
  have sub: "Has (pr_resources s) r \<Longrightarrow> Has (pr_resources rule) r" for r
    using rule(2) by (simp add: removeEscalatingResources_def Has_delete_escalating)
  have x: "Has (NormalizeResources (pr_resources s)) y \<longleftrightarrow> Has (pr_resources s) y" for y
    using n sub by (auto simp: NormalizeResources_def Has_normalize_with normal_rule_def not_needsNormalizing_expands)
  have res: "Has (pr_resources s) (to_lower (aa_resource a))"
    using al nr sub rule(3) by (auto simp: rule_allows_def resourceMatches_def x)
  have "apiGroupMatches a (pr_api_groups rule)"
    using al nr rule(2) by (simp add: rule_allows_def removeEscalatingResources_def)
  then obtain g where "g \<in> set (pr_api_groups rule)" "g = APIGroupAll \<or> to_lower g = []"
    using e0 by (auto simp: apiGroupMatches_iff)
  moreover from this have "to_lower g = g" using n by (simp add: normal_rule_def)
  ultimately have "Has (getAPIGroupSet rule) []"
    using rule(4) by (auto simp: Has_getAPIGroupSet split: if_splits)
  then have "\<not> Has (pr_resources s) (to_lower (aa_resource a))"
    using rule(2) esc e0 sub by (auto simp: removeEscalatingResources_def Has_delete_escalating)
  with res show False by blast
qed

text \<open>
  C5: a role scope without the escalation mark never lets a request for secrets, tokens, roles or
  bindings through: no rule it resolves to matches such a request, for roles whose rules name
  their resources and groups in lower case and without resource groups.
\<close>

theorem unmarked_role_scope_no_escalation:
  assumes "parseScope scope = Inr (roleName, scopeNs, False)"
    and "clusterRole_ResolveRules scope ns getter = Inr rules"
    and "\<And>pol role. getter ''default'' = Inr pol \<Longrightarrow> map_of (cpol_roles pol) roleName = Some role \<Longrightarrow>
      \<forall>rule \<in> set (crole_rules role). normal_rule rule"
    and "escalating_request a" and "s \<in> set rules"
  shows "\<not> fst (RuleMatches a s)"
proof -
  obtain pol role where p: "getter ''default'' = Inr pol" "map_of (cpol_roles pol) roleName = Some role"
    and r: "rules = scope_safe_rules False (crole_rules role)"
    using assms(1,2,5) by (auto simp: clusterRole_ResolveRules_def clusterRole_resolveRules_def
        split: if_splits sum.splits option.splits)
  have "\<not> rule_allows s a"
    using scope_safe_rules_no_escalation assms(3) [OF p] assms(4,5) r by blast
  then show ?thesis using RuleMatches_allows by blast
qed

definition role_policy :: "policy_rule list \<Rightarrow> cluster_policy" where
  "role_policy rules = \<lparr>cpol_type = no_type, cpol_meta = named ''default'', cpol_last_modified = 0,
     cpol_roles = [(''view'', \<lparr>crole_type = no_type, crole_meta = named ''view'', crole_rules = rules\<rparr>)]\<rparr>"

definition get_secrets :: auth_attributes where
  "get_secrets = zero_attributes\<lparr>aa_verb := ''get'', aa_resource := ''secrets''\<rparr>"

lemmas parse_eval = parseScope_def clusterRole_Handles_def ParseClusterRoleScope_def
  ClusterRoleIndicator_def has_prefix_def has_suffix_def splitN2_def Let_def

theorem unmarked_role_scope_no_escalation_witness:
  "\<not> fst (RuleMatches get_secrets
     (removeEscalatingResources (resource_rule [''get''] [[]] [''secrets'', ''pods''])))"
proof (rule unmarked_role_scope_no_escalation)
  show "parseScope ''role:view:*'' = Inr (''view'', ''*'', False)"
    by (simp add: parse_eval)
  let ?r = "resource_rule [''get''] [[]] [''secrets'', ''pods'']"
  let ?getter = "\<lambda>_ :: string. Inr (role_policy [?r]) :: go_error + cluster_policy"
  show "clusterRole_ResolveRules ''role:view:*'' ''ns'' ?getter = Inr [removeEscalatingResources ?r]"
    by (simp add: clusterRole_ResolveRules_def clusterRole_resolveRules_def parse_eval role_policy_def
        ScopesAllNamespaces_def scope_safe_rules_def resource_rule_def zero_rule_def all_defs
        gset_simps Has_getAPIGroupSet)
  show "\<forall>rule \<in> set (crole_rules role). normal_rule rule"
    if "?getter ''default'' = Inr pol" "map_of (cpol_roles pol) ''view'' = Some role" for pol role
    using that by (auto simp: role_policy_def normal_rule_def resource_rule_def zero_rule_def gset_simps
        needsNormalizing_def resourceGroupPrefix_def has_prefix_def is_upper_def to_lower_def)
  show "escalating_request get_secrets"
    by (simp add: escalating_request_def get_secrets_def zero_attributes_def escalatingScopeResources_def
        to_lower_def lower_char_def is_upper_def)
qed simp

definition escalating_group_rule :: policy_rule where
  "escalating_group_rule = resource_rule [''get''] [[]] [''resourcegroup:escalating'']"

lemma escalating_group_expands: "expands groupsToResources ''resourcegroup:escalating'' ''secrets''"
proof (rule expands.group)
  show "has_prefix ''resourcegroup:escalating'' resourceGroupPrefix"
    "map_of groupsToResources ''resourcegroup:escalating'' =
       Some [''resourcegroup:openshift-escalating'', ''resourcegroup:kube-escalating'']"
    by (simp_all add: resourceGroupPrefix_def has_prefix_def groupsToResources_def add_non_escalating_def
        groupsToResources_literal_def)
  show "expands groupsToResources ''resourcegroup:kube-escalating'' ''secrets''"
  proof (rule expands.group)
    show "has_prefix ''resourcegroup:kube-escalating'' resourceGroupPrefix"
      "map_of groupsToResources ''resourcegroup:kube-escalating'' = Some [''secrets'']"
      by (simp_all add: resourceGroupPrefix_def has_prefix_def groupsToResources_def add_non_escalating_def
          groupsToResources_literal_def)
    show "expands groupsToResources ''secrets'' ''secrets''"
      by (simp add: expands_plain resourceGroupPrefix_def has_prefix_def to_lower_def lower_char_def is_upper_def)
  qed simp
qed simp

text \<open>
  The restriction to plain names matters.  A role rule that names the resource group
  \<open>resourcegroup:escalating\<close> passes through an unmarked role scope unchanged and matches a get of
  secrets: the filter compares the raw entries, the authorizer the expanded ones.
\<close>

theorem resource_groups_escape_the_scope_filter:
  "clusterRole_ResolveRules ''role:view:*'' ns (\<lambda>_. Inr (role_policy [escalating_group_rule])) =
     Inr [escalating_group_rule] \<and>
   escalating_request get_secrets \<and> RuleMatches get_secrets escalating_group_rule = (True, None)"
proof (intro conjI)
  show "clusterRole_ResolveRules ''role:view:*'' ns (\<lambda>_. Inr (role_policy [escalating_group_rule])) =
     Inr [escalating_group_rule]"
    by (simp add: clusterRole_ResolveRules_def clusterRole_resolveRules_def parse_eval role_policy_def
        ScopesAllNamespaces_def scope_safe_rules_def escalating_group_rule_def resource_rule_def
        zero_rule_def all_defs gset_simps Has_getAPIGroupSet removeEscalatingResources_def
        escalatingScopeResources_def)
  show "escalating_request get_secrets"
    by (simp add: escalating_request_def get_secrets_def zero_attributes_def escalatingScopeResources_def
        to_lower_def lower_char_def is_upper_def)
  have "rule_allows escalating_group_rule get_secrets"
    using escalating_group_expands
    by (simp add: rule_allows_def escalating_group_rule_def resource_rule_def get_secrets_def
        zero_attributes_def zero_rule_def verbMatches_def apiGroupMatches_iff nameMatches_def
        resourceMatches_iff gset_simps to_lower_def lower_char_def is_upper_def)
  then show "RuleMatches get_secrets escalating_group_rule = (True, None)"
    by (subst RuleMatches_unrestricted) (simp_all add: escalating_group_rule_def resource_rule_def zero_rule_def)
qed

section \<open>Scopes only narrow\<close>

lemma scope_match_loop_fst:
  "fst (scope_match_loop attributes rules errs) \<longleftrightarrow> (\<exists>rule \<in> set rules. rule_grants attributes rule)"
  by (induction attributes rules errs rule: scope_match_loop.induct)
    (auto simp: rule_grants_def split: prod.split option.split)

locale authorizer_if =
  fixes authorize :: authorize_fn
  assumes allowed_no_error:
      "fst (authorize ctx attributes) \<Longrightarrow> snd (snd (authorize ctx attributes)) = None"
    and needs_user: "fst (authorize ctx attributes) \<Longrightarrow> ctx_user ctx \<noteq> None"
begin

lemma scoped_allowed_iff:
  "fst (scope_Authorize \<lparr>sa_delegate = authorize, sa_clusterPolicyGetter = getter, sa_messageMaker = mk\<rparr> ctx attributes) \<longleftrightarrow>
   fst (authorize ctx attributes) \<and>
   (\<exists>user. ctx_user ctx = Some user \<and>
     (extra_values user ScopesKey = [] \<or>
      (\<exists>rule \<in> set (fst (ScopesToRules (extra_values user ScopesKey) (NamespaceValue ctx) getter)).
         rule_grants attributes rule)))"
proof (cases "ctx_user ctx")
  case None
  then show ?thesis by (simp add: scope_Authorize_def)
next
  case (Some user)
  obtain rules err where r: "ScopesToRules (extra_values user ScopesKey) (NamespaceValue ctx) getter = (rules, err)"
    by fastforce
  obtain m es where m: "scope_match_loop attributes rules (case err of None \<Rightarrow> [] | Some e \<Rightarrow> [e]) = (m, es)"
    by fastforce
  have "m \<longleftrightarrow> (\<exists>rule \<in> set rules. rule_grants attributes rule)"
    using scope_match_loop_fst [of attributes rules] m by (metis fst_conv)
  then show ?thesis
    using Some by (auto simp: scope_Authorize_def r m Let_def split: prod.split)
qed

lemma scoped_allowed_no_error:
  "fst (scope_Authorize \<lparr>sa_delegate = authorize, sa_clusterPolicyGetter = getter, sa_messageMaker = mk\<rparr> ctx attributes) \<Longrightarrow>
   snd (snd (scope_Authorize \<lparr>sa_delegate = authorize, sa_clusterPolicyGetter = getter, sa_messageMaker = mk\<rparr> ctx attributes)) = None"
  using allowed_no_error [of ctx attributes]
  by (auto simp: scope_Authorize_def Let_def split: option.splits prod.splits if_splits)

end

interpretation base_authorizer: authorizer_if "Authorize a" for a
  by unfold_locales (auto simp: Authorize_allowed_no_error fst_Authorize)

definition scoped_store_authorizer ::
  "default_rule_resolver \<Rightarrow> cluster_policy_getter \<Rightarrow> message_maker \<Rightarrow> scope_authorizer" where
  "scoped_store_authorizer a getter mk =
     \<lparr>sa_delegate = Authorize (store_authorizer a mk), sa_clusterPolicyGetter = getter, sa_messageMaker = mk\<rparr>"

interpretation scoped_authorizer: authorizer_if "scope_Authorize (scoped_store_authorizer a getter mk)" for a getter mk
proof
  fix ctx attributes
  assume a: "fst (scope_Authorize (scoped_store_authorizer a getter mk) ctx attributes)"
  then show "snd (snd (scope_Authorize (scoped_store_authorizer a getter mk) ctx attributes)) = None"
    unfolding scoped_store_authorizer_def by (rule base_authorizer.scoped_allowed_no_error)
  from a show "ctx_user ctx \<noteq> None"
    unfolding scoped_store_authorizer_def by (auto simp: base_authorizer.scoped_allowed_iff)
qed

text \<open>
  C4: scopes only ever take access away.  A scoped request is allowed exactly when the unscoped
  authorizer allows it and, unless the user carries no scopes, one of the rules the scopes
  resolve to in this namespace matches it; errors in some scopes do not widen the others.
\<close>

theorem scopes_only_narrow:
  "fst (scope_Authorize (scoped_store_authorizer a getter mk) ctx attributes) \<longleftrightarrow>
   fst (Authorize (store_authorizer a mk) ctx attributes) \<and>
   (\<exists>user. ctx_user ctx = Some user \<and>
     (if extra_values user ScopesKey = [] then True
      else \<exists>rule. rule \<in> set (fst (ScopesToRules (extra_values user ScopesKey) (NamespaceValue ctx) getter)) \<and>
        RuleMatches attributes rule = (True, None)))"
  unfolding scoped_store_authorizer_def base_authorizer.scoped_allowed_iff
  by (auto simp: rule_grants_def)

section \<open>Client restrictions\<close>

definition restriction_accepts :: "scope_restriction \<Rightarrow> string \<Rightarrow> bool" where
  "restriction_accepts restriction scope \<longleftrightarrow>
     (if sr_exact_values restriction \<noteq> [] then scope \<in> set (sr_exact_values restriction)
      else (case sr_cluster_role restriction of
              None \<Rightarrow> False
            | Some cr \<Rightarrow>
                (case parseScope scope of
                   Inl _ \<Rightarrow> False
                 | Inr (role, namespace, escalating) \<Rightarrow>
                     (''*'' \<in> set (csr_role_names cr) \<or> role \<in> set (csr_role_names cr)) \<and>
                     (''*'' \<in> set (csr_namespaces cr) \<or> namespace \<in> set (csr_namespaces cr)) \<and>
                     (escalating \<longrightarrow> csr_allow_escalation cr))))"

lemma ValidateLiteral_None:
  "ValidateLiteralScopeRestrictions scope lits ls = None \<longleftrightarrow> scope \<in> set ls"
  by (induction scope lits ls rule: ValidateLiteralScopeRestrictions.induct) auto

lemma ValidateClusterRole_None:
  "ValidateClusterRoleScopeRestrictions scope cr = None \<longleftrightarrow>
   (case parseScope scope of
      Inl _ \<Rightarrow> False
    | Inr (role, namespace, escalating) \<Rightarrow>
        (''*'' \<in> set (csr_role_names cr) \<or> role \<in> set (csr_role_names cr)) \<and>
        (''*'' \<in> set (csr_namespaces cr) \<or> namespace \<in> set (csr_namespaces cr)) \<and>
        (escalating \<longrightarrow> csr_allow_escalation cr))"
  by (auto simp: ValidateClusterRoleScopeRestrictions_def list_ex_iff split: sum.split)

lemma restrictions_loop_None:
  "restrictions_loop scope rs errs = None \<longleftrightarrow> (\<exists>r \<in> set rs. restriction_accepts r scope)"
proof (induction scope rs errs rule: restrictions_loop.induct)
  case (1 scope errs)
  then show ?case by simp
next
  case (2 scope r rest errs)
  show ?case
  proof (cases "sr_exact_values r = []")
    case False
    then show ?thesis
      using 2 ValidateLiteral_None [of scope "sr_exact_values r" "sr_exact_values r"]
      by (auto simp: restriction_accepts_def split: option.split)
  next
    case True
    show ?thesis
    proof (cases "sr_cluster_role r")
      case None
      with True 2 show ?thesis by (simp add: restriction_accepts_def)
    next
      case (Some cr)
      have ac: "restriction_accepts r scope \<longleftrightarrow> ValidateClusterRoleScopeRestrictions scope cr = None"
        using True Some by (simp add: restriction_accepts_def ValidateClusterRole_None)
      show ?thesis
      proof (cases "clusterRole_Handles scope")
        case False
        then have "ValidateClusterRoleScopeRestrictions scope cr \<noteq> None"
          by (simp add: ValidateClusterRoleScopeRestrictions_def parseScope_def)
        with False True Some 2 ac show ?thesis by simp
      next
        case h: True
        with True Some 2 ac show ?thesis by (auto split: option.split)
      qed
    qed
  qed
qed

lemma map_filter_empty: "List.map_filter f xs = [] \<longleftrightarrow> (\<forall>x \<in> set xs. f x = None)"
  by (induction xs) (auto simp: List.map_filter_simps split: option.split)

text \<open>
  A client's token request passes the scope check exactly when the client has no
  restrictions, or it asks for at least one scope and each scope it asks for is accepted by one
  of the restrictions on its own.
\<close>

theorem ValidateScopeRestrictions_iff:
  "ValidateScopeRestrictions client restrictions scopes = None \<longleftrightarrow>
   (if restrictions = [] then True
    else scopes \<noteq> [] \<and> list_all (\<lambda>s. list_ex (\<lambda>r. restriction_accepts r s) restrictions) scopes)"
  by (auto simp: ValidateScopeRestrictions_def validateScopeRestrictions_def map_filter_empty
      restrictions_loop_None list_all_iff list_ex_iff)

end
