(* ===== verification/Kube_Store.thy ===== *)
theory Kube_Store
  imports Go_Prelude "HOL-Library.AList"
begin

text \<open>
  Watch events (\<open>kubernetes/pkg/watch/watch.go\<close>) and the object store of
  \<open>kubernetes/pkg/client/cache/store.go\<close>, a map from keys to objects: the interface \<open>Store\<close> as a
  record of operations, what its users rely on as the locale \<open>kv_store\<close>, and the implementation
  \<open>cache\<close> over \<open>threadSafeMap\<close>, on which the locale is interpreted.  Indices are not modelled.
\<close>

datatype event_type = Added | Modified | Deleted | ErrorEvent

section \<open>The store interface\<close>

text \<open>A key function computes the key of an object or fails.\<close>

type_synonym 'o key_func = "'o \<Rightarrow> go_error + string"

record ('s, 'o) store_if =
  st_Add :: "'s \<Rightarrow> 'o \<Rightarrow> 's \<times> go_error option"
  st_Update :: "'s \<Rightarrow> 'o \<Rightarrow> 's \<times> go_error option"
  st_Delete :: "'s \<Rightarrow> 'o \<Rightarrow> 's \<times> go_error option"
  st_GetByKey :: "'s \<Rightarrow> string \<Rightarrow> go_error + 'o option"
  st_ListKeys :: "'s \<Rightarrow> string list"
  st_Replace :: "'s \<Rightarrow> 'o list \<Rightarrow> string \<Rightarrow> 's \<times> go_error option"

locale kv_store =
  fixes ops :: "('s, 'o) store_if"
    and key :: "'o key_func"
  assumes GetByKey_total: "\<exists>v. st_GetByKey ops s k = Inr v"
    and Add_ok: "key x = Inr k \<Longrightarrow> snd (st_Add ops s x) = None"
    and Update_ok: "key x = Inr k \<Longrightarrow> snd (st_Update ops s x) = None"
    and Delete_ok: "key x = Inr k \<Longrightarrow> snd (st_Delete ops s x) = None"
    and Replace_ok: "map key xs = map Inr ks \<Longrightarrow> snd (st_Replace ops s xs v) = None"
    and get_Add: "key x = Inr k \<Longrightarrow> st_GetByKey ops (fst (st_Add ops s x)) k' =
      (if k' = k then Inr (Some x) else st_GetByKey ops s k')"
    and get_Update: "key x = Inr k \<Longrightarrow> st_GetByKey ops (fst (st_Update ops s x)) k' =
      (if k' = k then Inr (Some x) else st_GetByKey ops s k')"
    and get_Delete: "key x = Inr k \<Longrightarrow> st_GetByKey ops (fst (st_Delete ops s x)) k' =
      (if k' = k then Inr None else st_GetByKey ops s k')"
    and get_Replace: "map key xs = map Inr ks \<Longrightarrow> distinct ks \<Longrightarrow>
      st_GetByKey ops (fst (st_Replace ops s xs v)) k = Inr (map_of (zip ks xs) k)"
    and keys_iff: "k \<in> set (st_ListKeys ops s) \<longleftrightarrow> st_GetByKey ops s k \<noteq> Inr None"
begin

definition lookup :: "'s \<Rightarrow> string \<Rightarrow> 'o option" where
  "lookup s k = (case st_GetByKey ops s k of Inl e \<Rightarrow> None | Inr v \<Rightarrow> v)"

lemma GetByKey_lookup: "st_GetByKey ops s k = Inr (lookup s k)"
  using GetByKey_total [of s k] by (auto simp: lookup_def)

lemma lookup_simps:
  "key x = Inr k \<Longrightarrow> lookup (fst (st_Add ops s x)) = (lookup s)(k \<mapsto> x)"
  "key x = Inr k \<Longrightarrow> lookup (fst (st_Update ops s x)) = (lookup s)(k \<mapsto> x)"
  "key x = Inr k \<Longrightarrow> lookup (fst (st_Delete ops s x)) = (lookup s)(k := None)"
  "map key xs = map Inr ks \<Longrightarrow> distinct ks \<Longrightarrow>
     lookup (fst (st_Replace ops s xs v)) = map_of (zip ks xs)"
  by (rule ext; simp add: lookup_def get_Add get_Update get_Delete get_Replace)+

lemma ListKeys_dom: "set (st_ListKeys ops s) = dom (lookup s)"
  by (auto simp: keys_iff GetByKey_lookup)

end

section \<open>The cache\<close>

type_synonym 'o cache_map = "(string \<times> 'o) list"

definition KeyError :: "go_error \<Rightarrow> go_error" where
  "KeyError e = ErrorfE ''could not create key for object %+v: %v'' [] [e]"

definition cache_put :: "'o key_func \<Rightarrow> 'o cache_map \<Rightarrow> 'o \<Rightarrow> 'o cache_map \<times> go_error option" where
  "cache_put key items x =
     (case key x of Inl e \<Rightarrow> (items, Some (KeyError e)) | Inr k \<Rightarrow> (AList.update k x items, None))"

definition cache_Delete :: "'o key_func \<Rightarrow> 'o cache_map \<Rightarrow> 'o \<Rightarrow> 'o cache_map \<times> go_error option" where
  "cache_Delete key items x =
     (case key x of Inl e \<Rightarrow> (items, Some (KeyError e)) | Inr k \<Rightarrow> (AList.delete k items, None))"

fun replace_loop :: "'o key_func \<Rightarrow> 'o list \<Rightarrow> 'o cache_map \<Rightarrow> go_error + 'o cache_map" where
  "replace_loop key [] items = Inr items"
| "replace_loop key (x # xs) items =
     (case key x of
        Inl e \<Rightarrow> Inl (KeyError e)
      | Inr k \<Rightarrow> replace_loop key xs (AList.update k x items))"

definition cache_Replace ::
  "'o key_func \<Rightarrow> 'o cache_map \<Rightarrow> 'o list \<Rightarrow> string \<Rightarrow> 'o cache_map \<times> go_error option" where
  "cache_Replace key items xs resourceVersion =
     (case replace_loop key xs [] of Inl e \<Rightarrow> (items, Some e) | Inr items' \<Rightarrow> (items', None))"

definition cache_store :: "'o key_func \<Rightarrow> ('o cache_map, 'o) store_if" where
  "cache_store key =
     \<lparr>st_Add = cache_put key, st_Update = cache_put key, st_Delete = cache_Delete key,
      st_GetByKey = (\<lambda>items k. Inr (map_of items k)), st_ListKeys = map fst,
      st_Replace = cache_Replace key\<rparr>"

lemma replace_loop_ok:
  "map key xs = map Inr ks \<Longrightarrow> distinct ks \<Longrightarrow>
   \<exists>items'. replace_loop key xs items = Inr items' \<and> map_of items' = map_of items ++ map_of (zip ks xs)"
proof (induction xs arbitrary: ks items)
  case (Cons x xs)
  then obtain k ks' where ks: "ks = k # ks'" "key x = Inr k" "map key xs = map Inr ks'" "k \<notin> set ks'"
    "distinct ks'"
    by (cases ks) auto
  obtain items' where loop: "replace_loop key xs (AList.update k x items) = Inr items'"
    and m: "map_of items' = map_of (AList.update k x items) ++ map_of (zip ks' xs)"
    using Cons.IH [OF ks(3,5)] by blast
  have "length ks' = length xs" using ks(3) by (metis length_map)
  then have "map_of (zip ks' xs) k = None" using ks(4) by (simp add: map_of_zip_is_None)
  then have "map_of (AList.update k x items) ++ map_of (zip ks' xs) = map_of items ++ map_of (zip ks (x # xs))"
    by (auto simp: ks(1) map_add_def update_conv' fun_eq_iff split: option.splits)
  note trans [OF m this]
  moreover have "replace_loop key (x # xs) items = Inr items'" using loop ks(2) by simp
  ultimately show ?case by blast
qed simp

lemma replace_loop_no_error: "map key xs = map Inr ks \<Longrightarrow> \<exists>items'. replace_loop key xs items = Inr items'"
proof (induction xs arbitrary: ks items)
  case (Cons x xs)
  then show ?case by (cases ks) auto
qed simp

interpretation cache: kv_store "cache_store key" key
proof
  fix s x k k' xs ks v
  show "\<exists>v. st_GetByKey (cache_store key) s k = Inr v" by (simp add: cache_store_def)
  show "k \<in> set (st_ListKeys (cache_store key) s) \<longleftrightarrow> st_GetByKey (cache_store key) s k \<noteq> Inr None"
    by (auto simp: cache_store_def map_of_eq_None_iff simp del: not_None_eq)
  show "map key xs = map Inr ks \<Longrightarrow> snd (st_Replace (cache_store key) s xs v) = None"
    using replace_loop_no_error [of key xs ks "[]"] by (auto simp: cache_store_def cache_Replace_def)
  show "map key xs = map Inr ks \<Longrightarrow> distinct ks \<Longrightarrow>
      st_GetByKey (cache_store key) (fst (st_Replace (cache_store key) s xs v)) k = Inr (map_of (zip ks xs) k)"
    using replace_loop_ok [of key xs ks "[]"] by (auto simp: cache_store_def cache_Replace_def)
qed (simp_all add: cache_store_def cache_put_def cache_Delete_def update_conv' delete_conv')

end
