(* ===== verification/Routes.thy ===== *)
theory Routes
  imports K8s_Names Kube_Store
begin

text \<open>
  Routes and the chain of router plugins: the route fields the plugins read
  (\<open>origin/pkg/route/api/types.go\<close>), \<open>RouteLessThan\<close> and \<open>GetDomainForHost\<close> of
  \<open>route/api/helper.go\<close>, \<open>ValidateHostName\<close> of \<open>route/api/validation/validation.go\<close>, the plugin
  interface of \<open>router/interfaces.go\<close>, and the admission of hosts by domain lists of
  \<open>cmd/infra/router/router.go\<close>.

  A plugin calls the next plugin of the chain and a rejection recorder; both are functions on a
  state of the outside world, of any type, so a theorem holds whatever they do and answer.  They
  may write the status of a route, which no plugin of the model reads.
\<close>

section \<open>Routes\<close>

record route =
  rt_Namespace :: string
  rt_Name :: string
  rt_UID :: string
  rt_CreationTimestamp :: int
  rt_Host :: string
  rt_Path :: string
  rt_To :: string
  rt_AlternateBackends :: "string list"
  rt_WildcardPolicy :: string

definition RouteLessThan :: "route \<Rightarrow> route \<Rightarrow> bool" where
  "RouteLessThan route1 route2 =
     (if rt_CreationTimestamp route1 < rt_CreationTimestamp route2 then True
      else if rt_CreationTimestamp route2 < rt_CreationTimestamp route1 then False
      else rt_UID route1 < rt_UID route2)"

definition GetDomainForHost :: "string \<Rightarrow> string" where
  "GetDomainForHost host =
     (case first_index (CHR ''.'') host of
        Some idx \<Rightarrow> drop (idx + 1) host
      | None \<Rightarrow> [])"

definition routeNameKey :: "route \<Rightarrow> string" where
  "routeNameKey r = rt_Namespace r @ ''/'' @ rt_Name r"

definition same_route :: "route \<Rightarrow> route \<Rightarrow> bool" where
  "same_route r s \<longleftrightarrow> rt_Namespace r = rt_Namespace s \<and> rt_Name r = rt_Name s"

text \<open>The loop of \<open>routeKeys\<close> writes entry \<open>i\<close> for the \<open>i\<close>th alternate backend, from 0.\<close>

fun routeKeys_loop :: "string \<Rightarrow> nat \<Rightarrow> string list \<Rightarrow> string list \<Rightarrow> string list" where
  "routeKeys_loop namespace i [] keys = keys"
| "routeKeys_loop namespace i (svc # svcs) keys =
     routeKeys_loop namespace (i + 1) svcs (keys[i := namespace @ ''/'' @ svc])"

definition routeKeys :: "route \<Rightarrow> string list" where
  "routeKeys r =
     routeKeys_loop (rt_Namespace r) 0 (rt_AlternateBackends r)
       ((replicate (1 + length (rt_AlternateBackends r)) [])[0 := rt_Namespace r @ ''/'' @ rt_To r])"

definition WildcardPolicyNone :: string where "WildcardPolicyNone = ''None''"
definition WildcardPolicySubdomain :: string where "WildcardPolicySubdomain = ''Subdomain''"

definition invalid_host :: "string \<Rightarrow> go_error \<Rightarrow> go_error" where
  "invalid_host host e = ErrorfE ''spec.host: Invalid value: %q: %s'' [host] [e]"

definition ValidateHostName :: "route \<Rightarrow> go_error list" where
  "ValidateHostName r =
     (if length (rt_Host r) < 1 then []
      else
        (if length (IsDNS1123Subdomain (rt_Host r)) \<noteq> 0
         then [invalid_host (rt_Host r) (Errorf ''host must conform to DNS 952 subdomain conventions'' [])]
         else []) @
        concat (map (\<lambda>s. map (invalid_host (rt_Host r)) (IsDNS1123Label s))
                  (split_char (CHR ''.'') (rt_Host r))))"

subsection \<open>Age\<close>

text \<open>
  \<open>RouteLessThan\<close> orders routes by creation time, then by UID: the lexicographic order on ages,
  which is linear, so that \<open>sorted\<close> and its library facts apply to lists of routes.
\<close>

datatype age = Age (age_created: int) (age_uid: string)

instantiation age :: linorder
begin

definition less_eq_age :: "age \<Rightarrow> age \<Rightarrow> bool" where
  "less_eq_age a b \<longleftrightarrow>
     age_created a < age_created b \<or> age_created a = age_created b \<and> age_uid a \<le> age_uid b"

definition less_age :: "age \<Rightarrow> age \<Rightarrow> bool" where
  "less_age a b \<longleftrightarrow>
     age_created a < age_created b \<or> age_created a = age_created b \<and> age_uid a < age_uid b"

instance
  by standard (auto simp: less_eq_age_def less_age_def intro: age.expand)

end

definition age_of :: "route \<Rightarrow> age" where
  "age_of r = Age (rt_CreationTimestamp r) (rt_UID r)"

lemma RouteLessThan_age: "RouteLessThan r s \<longleftrightarrow> age_of r < age_of s"
  by (auto simp: RouteLessThan_def age_of_def less_age_def)

lemma RouteLessThan_irrefl [simp]: "\<not> RouteLessThan r r"
  by (simp add: RouteLessThan_age)

lemma same_route_refl [simp]: "same_route r r"
  by (simp add: same_route_def)

lemma same_route_sym: "same_route r s \<Longrightarrow> same_route s r"
  by (simp add: same_route_def)

lemma same_route_key:
  assumes "CHR ''/'' \<notin> set (rt_Namespace r)" "CHR ''/'' \<notin> set (rt_Namespace s)"
  shows "routeNameKey r = routeNameKey s \<longleftrightarrow> same_route r s"
proof
  assume "routeNameKey r = routeNameKey s"
  then have eq: "rt_Namespace r @ CHR ''/'' # rt_Name r = rt_Namespace s @ CHR ''/'' # rt_Name s"
    by (simp add: routeNameKey_def)
  have "first_index (CHR ''/'') (rt_Namespace r @ CHR ''/'' # rt_Name r) = Some (length (rt_Namespace r))"
    "first_index (CHR ''/'') (rt_Namespace s @ CHR ''/'' # rt_Name s) = Some (length (rt_Namespace s))"
    using assms by (auto intro: first_index_append)
  then show "same_route r s" using eq by (simp add: same_route_def)
qed (simp add: routeNameKey_def same_route_def)

section \<open>The plugin chain\<close>

text \<open>An event is one call of the \<open>Plugin\<close> interface; endpoints are given by namespace and name.\<close>

datatype plugin_event =
    HandleRoute event_type route
  | HandleEndpoints event_type string string
  | HandleNode event_type string
  | HandleNamespaces sset
  | Commit

record 'w router_chain =
  rc_plugin :: "'w \<Rightarrow> plugin_event \<Rightarrow> 'w \<times> go_error option"
  rc_reject :: "'w \<Rightarrow> route \<Rightarrow> string \<Rightarrow> go_error \<Rightarrow> 'w"

text \<open>What a plugin does to the outside world is a list of calls; the recording chain keeps it.\<close>

datatype router_call = Rejected route string go_error | Sent plugin_event

fun run_call :: "'w router_chain \<Rightarrow> 'w \<Rightarrow> router_call \<Rightarrow> 'w" where
  "run_call C w (Rejected r reason msg) = rc_reject C w r reason msg"
| "run_call C w (Sent e) = fst (rc_plugin C w e)"

definition run_calls :: "'w router_chain \<Rightarrow> 'w \<Rightarrow> router_call list \<Rightarrow> 'w" where
  "run_calls C w cs = foldl (run_call C) w cs"

lemma run_calls_simps [simp]:
  "run_calls C w [] = w"
  "run_calls C w (c # cs) = run_calls C (run_call C w c) cs"
  "run_calls C w (cs @ ds) = run_calls C (run_calls C w cs) ds"
  by (simp_all add: run_calls_def)

definition recording_chain :: "router_call list router_chain" where
  "recording_chain =
     \<lparr>rc_plugin = (\<lambda>w e. (w @ [Sent e], None)), rc_reject = (\<lambda>w r reason msg. w @ [Rejected r reason msg])\<rparr>"

lemma run_calls_recording [simp]: "run_calls recording_chain w cs = w @ cs"
proof (induction cs arbitrary: w)
  case (Cons c cs)
  then show ?case by (cases c) (simp_all add: recording_chain_def)
qed simp

section \<open>Admission by domain\<close>

record router_selection =
  rs_HostnameTemplate :: string
  rs_OverrideHostname :: bool
  rs_BlacklistedDomains :: sset
  rs_WhitelistedDomains :: sset
  rs_AllowWildcardRoutes :: bool

function hostInDomainList :: "string \<Rightarrow> sset \<Rightarrow> bool" where
  "hostInDomainList host domains =
     (if Has domains host then True
      else (case first_index (CHR ''.'') host of
              Some idx \<Rightarrow> if 0 < idx then hostInDomainList (drop (idx + 1) host) domains else False
            | None \<Rightarrow> False))"
  by pat_completeness auto
termination
  by (relation "measure (\<lambda>(host, domains). length host)") (auto simp: first_index_Some)

declare hostInDomainList.simps [simp del]

definition AdmissionCheck :: "router_selection \<Rightarrow> route \<Rightarrow> go_error option" where
  "AdmissionCheck o' r =
     (if length (rt_Host r) < 1 then None
      else if hostInDomainList (rt_Host r) (rs_BlacklistedDomains o')
      then Some (Errorf ''host in list of denied domains'' [])
      else if 0 < length (elems (rs_WhitelistedDomains o'))
      then (if hostInDomainList (rt_Host r) (rs_WhitelistedDomains o') then None
            else Some (Errorf ''host not in the allowed list of domains'' []))
      else None)"

definition RouteAdmissionFunc :: "router_selection \<Rightarrow> route \<Rightarrow> go_error option" where
  "RouteAdmissionFunc o' r =
     (case AdmissionCheck o' r of
        Some err \<Rightarrow> Some err
      | None \<Rightarrow>
          if rt_WildcardPolicy r = WildcardPolicyNone then None
          else if rt_WildcardPolicy r = WildcardPolicySubdomain
          then (if rs_AllowWildcardRoutes o' then None
                else Some (Errorf ''wildcard routes are not allowed'' []))
          else Some (Errorf ''unknown wildcard policy %v'' [rt_WildcardPolicy r]))"

subsection \<open>Domains of a valid host\<close>

text \<open>A host lies in a domain when it is the domain or ends in a dot and the domain.\<close>

definition host_in :: "string \<Rightarrow> string \<Rightarrow> bool" where
  "host_in host d \<longleftrightarrow> host = d \<or> (\<exists>p. host = p @ CHR ''.'' # d)"

lemma host_in_step:
  assumes "CHR ''.'' \<notin> set l"
  shows "host_in (l @ CHR ''.'' # rest) d \<longleftrightarrow> l @ CHR ''.'' # rest = d \<or> host_in rest d"
proof -
  have "(\<exists>p. l @ CHR ''.'' # rest = p @ CHR ''.'' # d) \<longleftrightarrow> host_in rest d"
    using assms
    by (fastforce simp: host_in_def append_eq_append_conv2 Cons_eq_append_conv append_eq_Cons_conv)
  then show ?thesis by (auto simp: host_in_def)
qed

lemma hostInDomainList_labels:
  "list_all (\<lambda>l. l \<noteq> []) (split_char (CHR ''.'') host) \<Longrightarrow>
   hostInDomainList host domains \<longleftrightarrow> (\<exists>d. Has domains d \<and> host_in host d)"
proof (induction host domains rule: hostInDomainList.induct)
  case (1 host domains)
  show ?case
  proof (cases "first_index (CHR ''.'') host")
    case None
    then have "CHR ''.'' \<notin> set host" by (simp add: first_index_None)
    then have "host_in host d \<longleftrightarrow> host = d" for d by (auto simp: host_in_def)
    then show ?thesis by (auto simp: hostInDomainList.simps [of host] None)
  next
    case (Some i)
    obtain l rest where l: "CHR ''.'' \<notin> set l" "length l = i" and host: "host = l @ CHR ''.'' # rest"
      using Some unfolding first_index_Some by (metis length_take min.absorb2 order_less_imp_le)
    have labels: "split_char (CHR ''.'') host = l # split_char (CHR ''.'') rest"
      using l host by (simp add: split_char_append)
    then have "0 < i" "drop (i + 1) host = rest" using "1.prems" l host by auto
    then have "\<not> Has domains host \<Longrightarrow>
      hostInDomainList rest domains \<longleftrightarrow> (\<exists>d. Has domains d \<and> host_in rest d)"
      using "1.IH" [OF _ Some] "1.prems" labels by simp
    moreover have "hostInDomainList host domains \<longleftrightarrow> Has domains host \<or> hostInDomainList rest domains"
      using \<open>0 < i\<close> \<open>drop (i + 1) host = rest\<close> by (subst hostInDomainList.simps) (simp add: Some)
    moreover have "host_in host d \<longleftrightarrow> host = d \<or> host_in rest d" for d
      unfolding host by (rule host_in_step [OF l(1)])
    ultimately show ?thesis by (cases "Has domains host") auto
  qed
qed

lemma valid_host_labels:
  assumes "ValidateHostName r = []" "rt_Host r \<noteq> []"
  shows "list_all (\<lambda>l. l \<noteq> []) (split_char (CHR ''.'') (rt_Host r))"
  using assms
  by (auto simp: ValidateHostName_def IsDNS1123Subdomain_def dns1123Label_match_def list_all_iff
      Suc_le_eq split: if_splits)

text \<open>
  For a route with a valid host name, admission by domain lists refuses exactly the hosts that
  are, or lie below, a denied domain, and, when there is an allowed list, those that are not and do
  not lie below an allowed domain; denial takes precedence.
\<close>

lemma AdmissionCheck_domains:
  assumes "ValidateHostName r = []" "rt_Host r \<noteq> []"
  shows "AdmissionCheck sel r = None \<longleftrightarrow>
    \<not> (\<exists>d. Has (rs_BlacklistedDomains sel) d \<and> host_in (rt_Host r) d) \<and>
    (elems (rs_WhitelistedDomains sel) = [] \<or>
     (\<exists>d. Has (rs_WhitelistedDomains sel) d \<and> host_in (rt_Host r) d))"
  using assms valid_host_labels [OF assms]
  by (simp add: AdmissionCheck_def hostInDomainList_labels)

text \<open>A route to try the plugins on.\<close>

definition sample_route :: "string \<Rightarrow> string \<Rightarrow> int \<Rightarrow> string \<Rightarrow> string \<Rightarrow> string \<Rightarrow> route" where
  "sample_route ns name created host path policy =
     \<lparr>rt_Namespace = ns, rt_Name = name, rt_UID = name, rt_CreationTimestamp = created, rt_Host = host,
      rt_Path = path, rt_To = ''svc'', rt_AlternateBackends = [], rt_WildcardPolicy = policy\<rparr>"

end
