(* ===== verification/Unique_Host.thy ===== *)
theory Unique_Host
  imports Routes "HOL-Library.AList"
begin

text \<open>
  \<open>origin/pkg/router/controller/unique_host.go\<close>: the router plugin that lets one namespace at a
  time claim a host, and one route at a time claim a path of it.  A Go map is an association list
  with distinct keys, in the order a range visits them.  The loop of \<open>HandleRoute\<close> writes into the
  slice the map holds, so its result replaces the list of the host also when it returns an error.
  An access to the first element of an empty list is a panic, \<open>None\<close>.
\<close>

section \<open>State and operations\<close>

definition HostForRoute :: "route \<Rightarrow> string" where
  "HostForRoute r = rt_Host r"

type_synonym host_map = "(string \<times> route list) list"

record unique_host =
  uh_hostForRoute :: "route \<Rightarrow> string"
  uh_hostToRoute :: host_map
  uh_routeToHost :: "(string \<times> string) list"
  uh_allowedNamespaces :: sset
  uh_disableOwnershipCheck :: bool

definition NewUniqueHost :: "(route \<Rightarrow> string) \<Rightarrow> bool \<Rightarrow> unique_host" where
  "NewUniqueHost fn disableOwnershipCheck =
     \<lparr>uh_hostForRoute = fn, uh_hostToRoute = [], uh_routeToHost = [], uh_allowedNamespaces = None,
      uh_disableOwnershipCheck = disableOwnershipCheck\<rparr>"

definition RoutesForHost :: "unique_host \<Rightarrow> string \<Rightarrow> route list option" where
  "RoutesForHost p host = map_of (uh_hostToRoute p) host"

definition HostLen :: "unique_host \<Rightarrow> nat" where
  "HostLen p = length (uh_hostToRoute p)"

definition claimed_error :: "string \<Rightarrow> string \<Rightarrow> go_error" where
  "claimed_error name host = Errorf ''route %s already exposes %s and is older'' [name, host]"

text \<open>
  The loop over the routes of the host: the list it leaves, the calls it makes, and either the
  error it returns or the flag \<open>added\<close>.
\<close>

fun claim_loop ::
  "string \<Rightarrow> string \<Rightarrow> route \<Rightarrow> route list \<Rightarrow> bool \<Rightarrow>
   route list \<times> router_call list \<times> (go_error + bool)" where
  "claim_loop host oldestName route [] added = ([], [], Inr added)"
| "claim_loop host oldestName route (old # olds) added =
     (if rt_Path old = rt_Path route then
        if RouteLessThan old route then
          (let err = claimed_error oldestName host
           in (old # olds, [Rejected route ''HostAlreadyClaimed'' err], Inl err))
        else if same_route old route then (route # olds, [], Inr True)
        else
          (let (olds', cs, res) = claim_loop host oldestName route olds True
           in (route # olds',
               [Rejected old ''HostAlreadyClaimed'' (Errorf ''replaced by older route %s'' [rt_Name route]),
                Sent (HandleRoute Deleted old)] @ cs, res))
      else
        (let (olds', cs, res) = claim_loop host oldestName route olds added
         in (old # olds', cs, res)))"

text \<open>The part after the loop when the route replaced no other.\<close>

definition add_to_host :: "route \<Rightarrow> route list \<Rightarrow> route list" where
  "add_to_host route old =
     (let next' = filter (\<lambda>r. routeNameKey r \<noteq> routeNameKey route) old;
          oldest = (case next' of [] \<Rightarrow> route | r # _ \<Rightarrow> r)
      in if RouteLessThan route oldest then route # next' else next' @ [route])"

definition displace_calls :: "string \<Rightarrow> string \<Rightarrow> route list \<Rightarrow> router_call list" where
  "displace_calls ns host old =
     concat (map (\<lambda>r. [Rejected r ''HostAlreadyClaimed'' (Errorf ''namespace %s owns hostname %s'' [ns, host]),
                       Sent (HandleRoute Deleted r)]) old)"

text \<open>Claiming the host: the new list of the host, the calls, and the error if it is refused.\<close>

definition claim_host ::
  "bool \<Rightarrow> string \<Rightarrow> route \<Rightarrow> route list option \<Rightarrow>
   (route list \<times> router_call list \<times> go_error option) option" where
  "claim_host disableCheck host route claimed =
     (case claimed of
        None \<Rightarrow> Some ([route], [], None)
      | Some [] \<Rightarrow> None
      | Some (oldest # rest) \<Rightarrow>
          Some
            (if disableCheck \<or> rt_Namespace oldest = rt_Namespace route then
               (case claim_loop host (rt_Name oldest) route (oldest # rest) False of
                  (old, cs, Inl err) \<Rightarrow> (old, cs, Some err)
                | (old, cs, Inr True) \<Rightarrow> (old, cs, None)
                | (old, cs, Inr False) \<Rightarrow> (add_to_host route old, cs, None))
             else if RouteLessThan oldest route then
               (let err = Errorf ''a route in another namespace holds %s and is older than %s''
                            [host, rt_Name route]
                in (oldest # rest, [Rejected route ''HostAlreadyClaimed'' err], Some err))
             else ([route], displace_calls (rt_Namespace oldest) host (oldest # rest), None)))"

text \<open>The switch on the event type, after the claim.\<close>

definition forget_moved :: "unique_host \<Rightarrow> string \<Rightarrow> string \<Rightarrow> host_map" where
  "forget_moved p name host =
     (case map_of (uh_routeToHost p) name of
        Some old \<Rightarrow> if old \<noteq> host then AList.delete old (uh_hostToRoute p) else uh_hostToRoute p
      | None \<Rightarrow> uh_hostToRoute p)"

definition drop_deleted :: "host_map \<Rightarrow> string \<Rightarrow> route \<Rightarrow> host_map" where
  "drop_deleted hosts host route =
     (case map_of hosts host of
        Some old \<Rightarrow>
          (if length old \<le> 1 then AList.delete host hosts
           else (let next' = filter (\<lambda>r. rt_Name r \<noteq> rt_Name route) old
                 in if 0 < length next' then AList.update host next' hosts
                    else AList.delete host hosts))
      | None \<Rightarrow> hosts)"

definition after_claim :: "unique_host \<Rightarrow> event_type \<Rightarrow> route \<Rightarrow> string \<Rightarrow> unique_host" where
  "after_claim p eventType route host =
     (let name = routeNameKey route in
      case eventType of
        Deleted \<Rightarrow>
          p\<lparr>uh_hostToRoute := drop_deleted (uh_hostToRoute p) host route,
            uh_routeToHost := AList.delete name (uh_routeToHost p)\<rparr>
      | ErrorEvent \<Rightarrow> p
      | _ \<Rightarrow>
          p\<lparr>uh_hostToRoute := forget_moved p name host,
            uh_routeToHost := AList.update name host (uh_routeToHost p)\<rparr>)"

definition host_error :: "go_error list \<Rightarrow> go_error" where
  "host_error errs = ErrorfE ''host name validation errors: %s'' [] errs"

definition namespace_allowed :: "unique_host \<Rightarrow> string \<Rightarrow> bool" where
  "namespace_allowed p ns \<longleftrightarrow> uh_allowedNamespaces p = None \<or> Has (uh_allowedNamespaces p) ns"

definition uh_HandleRoute ::
  "'w router_chain \<Rightarrow> unique_host \<times> 'w \<Rightarrow> event_type \<Rightarrow> route \<Rightarrow>
   ((unique_host \<times> 'w) \<times> go_error option) option" where
  "uh_HandleRoute C pw eventType route0 =
     (case pw of (p, w) \<Rightarrow>
        if \<not> namespace_allowed p (rt_Namespace route0) then Some ((p, w), None)
        else
          (let host = uh_hostForRoute p route0 in
           if length host = 0 then
             Some ((p, rc_reject C w route0 ''NoHostValue''
                         (Errorf ''no host value was defined for the route'' [])), None)
           else
             (let route = route0\<lparr>rt_Host := host\<rparr>; errs = ValidateHostName route in
              if 0 < length errs then
                Some ((p, rc_reject C w route ''InvalidHost'' (host_error errs)), Some (host_error errs))
              else
                (case claim_host (uh_disableOwnershipCheck p) host route (map_of (uh_hostToRoute p) host) of
                   None \<Rightarrow> None
                 | Some (routes, cs, err) \<Rightarrow>
                     (let p1 = p\<lparr>uh_hostToRoute := AList.update host routes (uh_hostToRoute p)\<rparr>;
                          w1 = run_calls C w cs
                      in case err of
                           Some e \<Rightarrow> Some ((p1, w1), Some e)
                         | None \<Rightarrow>
                             (let p2 = after_claim p1 eventType route host in
                              if eventType = ErrorEvent then Some ((p2, w1), None)
                              else (let (w2, res) = rc_plugin C w1 (HandleRoute eventType route)
                                    in Some ((p2, w2), res))))))))"

text \<open>The range over the hosts in \<open>HandleNamespaces\<close>; the flag is \<open>changed\<close>.\<close>

fun namespaces_loop ::
  "sset \<Rightarrow> host_map \<Rightarrow> (string \<times> string) list \<Rightarrow> bool \<Rightarrow>
   (host_map \<times> (string \<times> string) list \<times> bool) option" where
  "namespaces_loop namespaces [] names changed = Some ([], names, changed)"
| "namespaces_loop namespaces ((k, v) # hosts) names changed =
     (case v of
        [] \<Rightarrow> None
      | r # _ \<Rightarrow>
          (if Has namespaces (rt_Namespace r) then
             map_option (\<lambda>(hs, res). ((k, v) # hs, res)) (namespaces_loop namespaces hosts names changed)
           else namespaces_loop namespaces hosts
                  (foldl (\<lambda>ns r. AList.delete (routeNameKey r) ns) names v) True))"

definition uh_HandleNamespaces ::
  "'w router_chain \<Rightarrow> unique_host \<times> 'w \<Rightarrow> sset \<Rightarrow> ((unique_host \<times> 'w) \<times> go_error option) option" where
  "uh_HandleNamespaces C pw namespaces =
     (case pw of (p, w) \<Rightarrow>
        (case namespaces_loop namespaces (uh_hostToRoute p) (uh_routeToHost p) False of
           None \<Rightarrow> None
         | Some (hosts, names, changed) \<Rightarrow>
             (let p1 = p\<lparr>uh_allowedNamespaces := namespaces, uh_hostToRoute := hosts, uh_routeToHost := names\<rparr>
              in if \<not> changed \<and> 0 < length (elems namespaces) then Some ((p1, w), None)
                 else (let (w1, res) = rc_plugin C w (HandleNamespaces namespaces)
                       in Some ((p1, w1), res)))))"

definition uh_HandleEndpoints ::
  "'w router_chain \<Rightarrow> unique_host \<times> 'w \<Rightarrow> event_type \<Rightarrow> string \<Rightarrow> string \<Rightarrow>
   (unique_host \<times> 'w) \<times> go_error option" where
  "uh_HandleEndpoints C pw eventType ns name =
     (case pw of (p, w) \<Rightarrow>
        if \<not> namespace_allowed p ns then ((p, w), None)
        else (let (w1, res) = rc_plugin C w (HandleEndpoints eventType ns name) in ((p, w1), res)))"

text \<open>The plugin's methods together: one call of the \<open>Plugin\<close> interface.\<close>

definition uh_handle ::
  "'w router_chain \<Rightarrow> unique_host \<times> 'w \<Rightarrow> plugin_event \<Rightarrow>
   ((unique_host \<times> 'w) \<times> go_error option) option" where
  "uh_handle C pw ev =
     (case ev of
        HandleRoute eventType route \<Rightarrow> uh_HandleRoute C pw eventType route
      | HandleEndpoints eventType ns name \<Rightarrow> Some (uh_HandleEndpoints C pw eventType ns name)
      | HandleNamespaces namespaces \<Rightarrow> uh_HandleNamespaces C pw namespaces
      | _ \<Rightarrow> (case pw of (p, w) \<Rightarrow> (let (w1, res) = rc_plugin C w ev in Some ((p, w1), res))))"

section \<open>Claims\<close>

named_theorems claim_simps \<open>what the claim loop does to a host with distinct paths\<close>

lemma claim_loop_paths:
  "claim_loop host o' route olds added = (olds', cs, res) \<Longrightarrow>
   map rt_Path olds' = map rt_Path olds \<and> set olds' \<subseteq> insert route (set olds)"
  by (induction olds arbitrary: added olds' cs res)
    (force simp: Let_def split: if_splits prod.splits)+

lemma claim_loop_miss [claim_simps]:
  "rt_Path route \<notin> rt_Path ` set olds \<Longrightarrow> claim_loop host o' route olds added = (olds, [], Inr added)"
  by (induction olds arbitrary: added) (auto simp: eq_commute [of "rt_Path route"])

lemma claim_loop_hit [claim_simps]:
  assumes "distinct (map rt_Path (xs @ old # ys))" "rt_Path old = rt_Path route"
  shows "claim_loop host o' route (xs @ old # ys) added =
    (if RouteLessThan old route
     then (xs @ old # ys, [Rejected route ''HostAlreadyClaimed'' (claimed_error o' host)],
           Inl (claimed_error o' host))
     else if same_route old route then (xs @ route # ys, [], Inr True)
     else (xs @ route # ys,
           [Rejected old ''HostAlreadyClaimed'' (Errorf ''replaced by older route %s'' [rt_Name route]),
            Sent (HandleRoute Deleted old)], Inr True))"
  using assms
proof (induction xs arbitrary: added)
  case Nil
  then have "rt_Path route \<notin> rt_Path ` set ys" by simp
  then show ?case using Nil by (simp add: claim_loop_miss Let_def)
next
  case (Cons x xs)
  then have "rt_Path x \<noteq> rt_Path route" by auto
  then show ?case using Cons by (simp add: Let_def)
qed

lemma claim_loop_refused:
  "claim_loop host o' route olds added = (olds', cs, Inr a) \<Longrightarrow>
   a \<longleftrightarrow> added \<or> rt_Path route \<in> rt_Path ` set olds"
  by (induction olds arbitrary: added olds' cs a)
    (force simp: Let_def split: if_splits prod.splits)+

lemma set_add_to_host:
  "set (add_to_host route old) =
     insert route {r \<in> set old. routeNameKey r \<noteq> routeNameKey route}"
  by (auto simp: add_to_host_def Let_def)

lemma distinct_add_to_host:
  "distinct (map rt_Path old) \<Longrightarrow> rt_Path route \<notin> rt_Path ` set old \<Longrightarrow>
   distinct (map rt_Path (add_to_host route old))"
  by (auto simp: add_to_host_def Let_def distinct_map_filter)

lemma add_to_host_not_Nil [simp]: "add_to_host route old \<noteq> []"
  by (simp add: add_to_host_def Let_def)

declare claim_loop.simps [simp del]

section \<open>The invariant of the claims\<close>

text \<open>
  The routes of a host are never none, serve that host on distinct paths, and with the ownership
  check are of one namespace, an allowed one.
\<close>

definition host_ok :: "bool \<Rightarrow> (string \<Rightarrow> bool) \<Rightarrow> string \<Rightarrow> route list \<Rightarrow> bool" where
  "host_ok disableCheck allowed host rs \<longleftrightarrow>
     rs \<noteq> [] \<and> (\<forall>r \<in> set rs. rt_Host r = host) \<and> distinct (map rt_Path rs) \<and>
     (\<not> disableCheck \<longrightarrow> (\<exists>ns. allowed ns \<and> (\<forall>r \<in> set rs. rt_Namespace r = ns)))"

definition uh_ok :: "unique_host \<Rightarrow> bool" where
  "uh_ok p \<longleftrightarrow> distinct (map fst (uh_hostToRoute p)) \<and>
     (\<forall>(h, rs) \<in> set (uh_hostToRoute p).
        host_ok (uh_disableOwnershipCheck p) (namespace_allowed p) h rs)"

lemma host_okD:
  assumes "host_ok d a h rs"
  shows "rs \<noteq> []" "r \<in> set rs \<Longrightarrow> rt_Host r = h" "distinct (map rt_Path rs)"
    "\<not> d \<Longrightarrow> r \<in> set rs \<Longrightarrow> rt_Namespace r = rt_Namespace (hd rs)"
    "\<not> d \<Longrightarrow> a (rt_Namespace (hd rs))"
  using assms by (auto simp: host_ok_def)

lemma host_ok_subset:
  "host_ok d a h rs \<Longrightarrow> rs' \<noteq> [] \<Longrightarrow> set rs' \<subseteq> set rs \<Longrightarrow> distinct (map rt_Path rs') \<Longrightarrow> host_ok d a h rs'"
  unfolding host_ok_def by blast

lemma host_ok_allowed:
  "host_ok d a h rs \<Longrightarrow> b (rt_Namespace (hd rs)) \<Longrightarrow> host_ok d b h rs"
  unfolding host_ok_def by (metis list.set_sel(1))

lemma claim_host_total:
  assumes "claimed \<noteq> Some []"
  obtains routes cs err where "claim_host d host route claimed = Some (routes, cs, err)"
proof -
  have "claim_host d host route claimed \<noteq> None"
    using assms by (simp add: claim_host_def del: not_None_eq split: option.splits list.splits)
  then show thesis using that by (metis option.exhaust prod_cases3)
qed

lemma claim_host_ok:
  assumes claim: "claim_host d host route claimed = Some (routes, cs, err)"
    and route: "rt_Host route = host" "a (rt_Namespace route)"
    and ok: "\<And>rs. claimed = Some rs \<Longrightarrow> host_ok d a host rs"
  shows "host_ok d a host routes"
proof (cases claimed)
  case None
  then show ?thesis using claim route by (auto simp: claim_host_def host_ok_def)
next
  case (Some rs)
  then obtain oldest rest where rs: "rs = oldest # rest" using claim
    by (cases rs) (auto simp: claim_host_def)
  have hok: "host_ok d a host (oldest # rest)" using ok Some rs by simp
  show ?thesis
  proof (cases "d \<or> rt_Namespace oldest = rt_Namespace route")
    case same: True
    obtain old cs' res where loop: "claim_loop host (rt_Name oldest) route rs False = (old, cs', res)"
      by (cases "claim_loop host (rt_Name oldest) route rs False")
    note paths = claim_loop_paths [OF loop]
    have routes: "routes = (if res = Inr False then add_to_host route old else old)"
      using claim same loop
      by (auto simp: claim_host_def Some rs split: sum.splits bool.splits if_splits)
    have "old \<noteq> []" using paths rs by auto
    then have ne: "routes \<noteq> []" by (simp add: routes add_to_host_not_Nil)
    have dist: "distinct (map rt_Path old)" using paths hok by (simp add: host_ok_def rs)
    have "distinct (map rt_Path routes)"
    proof (cases "res = Inr False")
      case True
      then have "rt_Path route \<notin> set (map rt_Path rs)"
        using claim_loop_refused [OF loop [unfolded True]] by simp
      then have "rt_Path route \<notin> rt_Path ` set old"
        using paths by (metis list.set_map)
      then show ?thesis using dist by (simp add: routes True distinct_add_to_host)
    qed (simp add: routes dist)
    moreover have "set routes \<subseteq> insert route (set rs)"
      using paths by (auto simp: routes set_add_to_host)
    moreover note ne
    ultimately show ?thesis
      using hok same route unfolding host_ok_def rs by (auto simp: subset_iff) (metis list.set_intros)+
  next
    case False
    then show ?thesis using claim hok route
      by (auto simp: claim_host_def Some rs host_ok_def Let_def split: if_splits)
  qed
qed

lemma namespace_allowed_updates [simp]:
  "namespace_allowed (p\<lparr>uh_hostToRoute := hs\<rparr>) = namespace_allowed p"
  "namespace_allowed (p\<lparr>uh_routeToHost := ns\<rparr>) = namespace_allowed p"
  by (simp_all add: namespace_allowed_def fun_eq_iff)

lemma map_of_update_same: "map_of al k = Some v \<Longrightarrow> AList.update k v al = al"
  by (induction al) auto

lemma uh_ok_lookup:
  "uh_ok p \<Longrightarrow> map_of (uh_hostToRoute p) h = Some rs \<Longrightarrow>
   host_ok (uh_disableOwnershipCheck p) (namespace_allowed p) h rs"
  by (auto simp: uh_ok_def dest!: map_of_SomeD)

lemma uh_okI:
  assumes "distinct (map fst (uh_hostToRoute p))"
    and "\<And>h rs. map_of (uh_hostToRoute p) h = Some rs \<Longrightarrow>
           host_ok (uh_disableOwnershipCheck p) (namespace_allowed p) h rs"
  shows "uh_ok p"
  using assms by (auto simp: uh_ok_def)

lemma uh_ok_update:
  assumes "uh_ok p" "host_ok (uh_disableOwnershipCheck p) (namespace_allowed p) host routes"
  shows "uh_ok (p\<lparr>uh_hostToRoute := AList.update host routes (uh_hostToRoute p)\<rparr>)"
  using assms
  by (intro uh_okI)
    (auto simp: uh_ok_def distinct_update update_conv' split: if_splits
      dest!: map_of_SomeD)

lemma uh_ok_delete:
  assumes "uh_ok p"
  shows "uh_ok (p\<lparr>uh_hostToRoute := AList.delete host (uh_hostToRoute p)\<rparr>)"
  using assms
  by (intro uh_okI)
    (auto simp: uh_ok_def distinct_delete delete_conv' split: if_splits
      dest!: map_of_SomeD)

lemma uh_ok_names [simp]: "uh_ok (p\<lparr>uh_routeToHost := names\<rparr>) \<longleftrightarrow> uh_ok p"
  by (simp add: uh_ok_def)

lemma uh_ok_after_claim:
  assumes "uh_ok p"
  shows "uh_ok (after_claim p eventType route host)"
proof -
  have moved: "uh_ok (p\<lparr>uh_hostToRoute := forget_moved p name host\<rparr>)" for name
    using assms uh_ok_delete [OF assms]
    by (auto simp: forget_moved_def split: option.splits)
  have next_ok: "host_ok d a h old \<Longrightarrow> filter P old \<noteq> [] \<Longrightarrow> host_ok d a h (filter P old)" for d a h old P
    by (rule host_ok_subset) (auto simp: distinct_map_filter dest: host_okD(3))
  have dropped: "uh_ok (p\<lparr>uh_hostToRoute := drop_deleted (uh_hostToRoute p) host route\<rparr>)"
  proof (cases "map_of (uh_hostToRoute p) host")
    case (Some old)
    note upd = uh_ok_update [OF assms next_ok [OF uh_ok_lookup [OF assms Some]]]
    show ?thesis
      using uh_ok_delete [OF assms] upd by (simp add: drop_deleted_def Some Let_def)
  qed (simp add: drop_deleted_def assms)
  show ?thesis
    using moved dropped assms
    by (cases eventType) (simp_all add: after_claim_def Let_def)
qed

lemma after_claim_fields [simp]:
  "uh_disableOwnershipCheck (after_claim p eventType r h) = uh_disableOwnershipCheck p"
  "uh_hostForRoute (after_claim p eventType r h) = uh_hostForRoute p"
  by (cases eventType; simp add: after_claim_def Let_def)+

lemma uh_HandleRoute_ok:
  assumes "uh_ok p"
  shows "\<exists>p' w' res. uh_HandleRoute C (p, w) eventType route = Some ((p', w'), res) \<and> uh_ok p' \<and>
    uh_disableOwnershipCheck p' = uh_disableOwnershipCheck p"
proof -
  let ?host = "uh_hostForRoute p route"
  let ?r = "route\<lparr>rt_Host := ?host\<rparr>"
  let ?claim = "claim_host (uh_disableOwnershipCheck p) ?host ?r (map_of (uh_hostToRoute p) ?host)"
  have "map_of (uh_hostToRoute p) ?host \<noteq> Some []"
    using uh_ok_lookup [OF assms, of ?host] by (auto simp: host_ok_def)
  then obtain routes cs err where claim: "?claim = Some (routes, cs, err)"
    by (rule claim_host_total)
  let ?p1 = "p\<lparr>uh_hostToRoute := AList.update ?host routes (uh_hostToRoute p)\<rparr>"
  have p1: "namespace_allowed p (rt_Namespace route) \<Longrightarrow> uh_ok ?p1"
    using claim_host_ok [OF claim, of "namespace_allowed p"] uh_ok_lookup [OF assms]
    by (auto intro: uh_ok_update [OF assms])
  show ?thesis
    using assms p1 uh_ok_after_claim [OF p1]
    by (auto simp: uh_HandleRoute_def Let_def claim split: option.splits prod.splits)
qed

lemma namespaces_loop_spec:
  "\<forall>(h, rs) \<in> set hosts. rs \<noteq> [] \<Longrightarrow>
   \<exists>names' changed'. namespaces_loop namespaces hosts names changed =
     Some (filter (\<lambda>(h, rs). Has namespaces (rt_Namespace (hd rs))) hosts, names', changed')"
proof (induction namespaces hosts names changed rule: namespaces_loop.induct)
  case (2 namespaces k v hosts names changed)
  then obtain r rs where v: "v = r # rs" by (cases v) auto
  show ?case using 2 v by (cases "Has namespaces (rt_Namespace r)") auto
qed simp

lemma uh_HandleNamespaces_ok:
  assumes "uh_ok p"
  shows "\<exists>p' w' res. uh_HandleNamespaces C (p, w) namespaces = Some ((p', w'), res) \<and> uh_ok p' \<and>
    uh_disableOwnershipCheck p' = uh_disableOwnershipCheck p"
proof -
  let ?hosts = "filter (\<lambda>(h, rs). Has namespaces (rt_Namespace (hd rs))) (uh_hostToRoute p)"
  obtain names changed where loop:
    "namespaces_loop namespaces (uh_hostToRoute p) (uh_routeToHost p) False = Some (?hosts, names, changed)"
    using namespaces_loop_spec [of "uh_hostToRoute p" namespaces "uh_routeToHost p" False] assms
    by (fastforce simp: uh_ok_def host_ok_def)
  let ?p1 = "p\<lparr>uh_allowedNamespaces := namespaces, uh_hostToRoute := ?hosts, uh_routeToHost := names\<rparr>"
  have "uh_ok ?p1"
    using assms
    by (auto simp: uh_ok_def distinct_map_filter namespace_allowed_def intro: host_ok_allowed)
  then show ?thesis
    by (auto simp: uh_HandleNamespaces_def loop Let_def split: prod.splits)
qed

lemma uh_handle_ok:
  assumes "uh_ok p"
  shows "\<exists>p' w' res. uh_handle C (p, w) ev = Some ((p', w'), res) \<and> uh_ok p' \<and>
    uh_disableOwnershipCheck p' = uh_disableOwnershipCheck p"
  using assms uh_HandleRoute_ok [OF assms] uh_HandleNamespaces_ok [OF assms]
  by (cases ev)
    (auto simp: uh_handle_def uh_HandleEndpoints_def Let_def split: prod.splits)

text \<open>The states the plugin reaches, by any calls of its interface.\<close>

inductive uh_reach :: "'w router_chain \<Rightarrow> (route \<Rightarrow> string) \<Rightarrow> bool \<Rightarrow> unique_host \<Rightarrow> 'w \<Rightarrow> bool"
  for C :: "'w router_chain" and fn :: "route \<Rightarrow> string" and disableCheck :: bool where
  new: "uh_reach C fn disableCheck (NewUniqueHost fn disableCheck) w"
| call: "uh_reach C fn disableCheck p w \<Longrightarrow> uh_handle C (p, w) ev = Some ((p', w'), res) \<Longrightarrow>
    uh_reach C fn disableCheck p' w'"

lemma uh_reach_ok:
  "uh_reach C fn disableCheck p w \<Longrightarrow> uh_ok p \<and> uh_disableOwnershipCheck p = disableCheck"
proof (induction rule: uh_reach.induct)
  case (call p w ev p' w' res)
  then show ?case using uh_handle_ok [of p C w ev] by auto
qed (simp add: NewUniqueHost_def uh_ok_def)

section \<open>What a claim decides\<close>

text \<open>
  Specification: a claim is refused by an older route of the same path in the namespace of the host
  (in any namespace without the ownership check), or by the first route of a host held by another
  namespace; otherwise it displaces the route of its path, or every route of the other namespace.
\<close>

definition claim_shares :: "bool \<Rightarrow> route \<Rightarrow> route list \<Rightarrow> bool" where
  "claim_shares d route rs \<longleftrightarrow> d \<or> rt_Namespace (hd rs) = rt_Namespace route"

definition claim_blocked :: "bool \<Rightarrow> route \<Rightarrow> route list \<Rightarrow> bool" where
  "claim_blocked d route rs \<longleftrightarrow> rs \<noteq> [] \<and>
     (if claim_shares d route rs
      then list_ex (\<lambda>r. rt_Path r = rt_Path route \<and> RouteLessThan r route) rs
      else RouteLessThan (hd rs) route)"

definition claim_displaces :: "bool \<Rightarrow> route \<Rightarrow> route list \<Rightarrow> route list" where
  "claim_displaces d route rs =
     (if claim_shares d route rs
      then filter (\<lambda>r. rt_Path r = rt_Path route \<and> \<not> same_route r route) rs else rs)"

definition claim_keeps :: "bool \<Rightarrow> route \<Rightarrow> route list \<Rightarrow> route set" where
  "claim_keeps d route rs =
     (if \<not> claim_shares d route rs then {}
      else if list_ex (\<lambda>r. rt_Path r = rt_Path route) rs
      then {r \<in> set rs. rt_Path r \<noteq> rt_Path route}
      else {r \<in> set rs. routeNameKey r \<noteq> routeNameKey route})"

definition sent_events :: "router_call list \<Rightarrow> plugin_event list" where
  "sent_events cs = concat (map (\<lambda>c. case c of Sent e \<Rightarrow> [e] | _ \<Rightarrow> []) cs)"

lemma sent_displace_calls [simp]:
  "sent_events (displace_calls ns host rs) = map (HandleRoute Deleted) rs"
  by (induction rs) (auto simp: sent_events_def displace_calls_def)

definition claim_refused :: "route \<Rightarrow> route list \<Rightarrow> (route list \<times> router_call list \<times> go_error option) option \<Rightarrow> bool" where
  "claim_refused route rs res \<longleftrightarrow>
     (\<exists>e. res = Some (rs, [Rejected route ''HostAlreadyClaimed'' e], Some e))"

definition claim_granted :: "bool \<Rightarrow> route \<Rightarrow> route list \<Rightarrow>
    (route list \<times> router_call list \<times> go_error option) option \<Rightarrow> bool" where
  "claim_granted d route rs res \<longleftrightarrow>
     (\<exists>routes cs. res = Some (routes, cs, None) \<and>
        set routes = insert route (claim_keeps d route rs) \<and>
        sent_events cs = map (HandleRoute Deleted) (claim_displaces d route rs))"

definition claim_result :: "bool \<Rightarrow> route \<Rightarrow> route list \<Rightarrow>
    (route list \<times> router_call list \<times> go_error option) option \<Rightarrow> bool" where
  "claim_result d route rs res \<longleftrightarrow>
     (if claim_blocked d route rs then claim_refused route rs res else claim_granted d route rs res)"

lemma claim_host_shared:
  assumes "claim_shares d route (oldest # rest)"
  shows "claim_host d host route (Some (oldest # rest)) =
      Some (case claim_loop host (rt_Name oldest) route (oldest # rest) False of
              (old, cs, Inl err) \<Rightarrow> (old, cs, Some err)
            | (old, cs, Inr True) \<Rightarrow> (old, cs, None)
            | (old, cs, Inr False) \<Rightarrow> (add_to_host route old, cs, None))"
  using assms by (simp add: claim_host_def claim_shares_def)

lemma claim_result_hit:
  assumes "distinct (map rt_Path rs)" "claim_shares d route rs" "old \<in> set rs" "rt_Path old = rt_Path route"
  shows "claim_result d route rs (claim_host d host route (Some rs))"
proof -
  obtain oldest rest where rs: "rs = oldest # rest" using assms(3) by (cases rs) auto
  obtain xs ys where parts: "rs = xs @ old # ys" using assms(3) by (auto dest: split_list)
  have others: "\<forall>r \<in> set xs \<union> set ys. rt_Path r \<noteq> rt_Path route"
    using assms(1,4) by (auto simp: parts) (metis image_eqI)+
  have less: "claim_blocked d route rs \<longleftrightarrow> RouteLessThan old route"
    using assms(2,4) others by (auto simp: claim_blocked_def parts list_ex_iff)
  have displaced: "claim_displaces d route rs = (if same_route old route then [] else [old])"
    using assms(2,4) others by (auto simp: claim_displaces_def parts filter_empty_conv)
  have keeps: "claim_keeps d route rs = set xs \<union> set ys"
    using assms(2,4) others by (auto simp: claim_keeps_def parts)
  have loop: "claim_loop host (rt_Name oldest) route rs False =
    (if RouteLessThan old route
     then (rs, [Rejected route ''HostAlreadyClaimed'' (claimed_error (rt_Name oldest) host)],
           Inl (claimed_error (rt_Name oldest) host))
     else if same_route old route then (xs @ route # ys, [], Inr True)
     else (xs @ route # ys,
           [Rejected old ''HostAlreadyClaimed'' (Errorf ''replaced by older route %s'' [rt_Name route]),
            Sent (HandleRoute Deleted old)], Inr True))"
    unfolding parts by (rule claim_loop_hit [OF assms(1) [unfolded parts] assms(4)])
  have res: "claim_host d host route (Some rs) =
    Some (case claim_loop host (rt_Name oldest) route rs False of
              (old, cs, Inl err) \<Rightarrow> (old, cs, Some err)
            | (old, cs, Inr True) \<Rightarrow> (old, cs, None)
            | (old, cs, Inr False) \<Rightarrow> (add_to_host route old, cs, None))"
    using claim_host_shared assms(2) by (simp only: rs)
  show ?thesis
    by (simp add: claim_result_def less claim_refused_def claim_granted_def res loop keeps displaced
        sent_events_def)
qed

lemma claim_result_miss:
  assumes "claim_shares d route rs" "rs \<noteq> []" "rt_Path route \<notin> rt_Path ` set rs"
  shows "claim_result d route rs (claim_host d host route (Some rs))"
proof -
  obtain oldest rest where rs: "rs = oldest # rest" using assms(2) by (cases rs) auto
  have no: "\<forall>r \<in> set rs. rt_Path r \<noteq> rt_Path route" using assms(3) by (metis image_eqI)
  have res: "claim_host d host route (Some rs) = Some (add_to_host route rs, [], None)"
    using claim_host_shared [OF assms(1) [unfolded rs], of host] claim_loop_miss [OF assms(3)]
    by (simp add: rs)
  have "claim_displaces d route rs = []" "\<not> claim_blocked d route rs"
    "claim_keeps d route rs = {r \<in> set rs. routeNameKey r \<noteq> routeNameKey route}"
    using assms(1) no by (auto simp: claim_displaces_def claim_blocked_def claim_keeps_def list_ex_iff filter_empty_conv)
  then show ?thesis
    by (simp add: claim_result_def claim_granted_def res set_add_to_host sent_events_def)
qed

lemma claim_result_foreign:
  assumes "\<not> claim_shares d route rs" "rs \<noteq> []"
  shows "claim_result d route rs (claim_host d host route (Some rs))"
  using assms
  by (cases rs)
    (auto simp: claim_result_def claim_shares_def claim_blocked_def claim_host_def claim_refused_def
      claim_granted_def claim_keeps_def claim_displaces_def Let_def)

lemma claim_host_decides:
  assumes "distinct (map rt_Path rs)" "rs \<noteq> []"
  shows "claim_result d route rs (claim_host d host route (Some rs))"
  using claim_result_hit [OF assms(1)] claim_result_miss [OF _ assms(2)] claim_result_foreign [OF _ assms(2)]
  by (metis (no_types, lifting) imageE)

lemma claim_host_free:
  "claim_result d route [] (claim_host d host route None)"
  by (simp add: claim_result_def claim_blocked_def claim_granted_def claim_host_def claim_keeps_def
      claim_displaces_def sent_events_def)

lemma map_of_forget_moved:
  "map_of (forget_moved p name host) host = map_of (uh_hostToRoute p) host"
  by (auto simp: forget_moved_def delete_conv' split: option.splits)

lemma map_of_after_claim:
  assumes "eventType = Added \<or> eventType = Modified"
  shows "map_of (uh_hostToRoute (after_claim p eventType route host)) host = map_of (uh_hostToRoute p) host"
  using assms by (auto simp: after_claim_def Let_def map_of_forget_moved)

definition routes_of :: "unique_host \<Rightarrow> string \<Rightarrow> route list" where
  "routes_of p host = (case RoutesForHost p host of None \<Rightarrow> [] | Some rs \<Rightarrow> rs)"

lemma uh_HandleRoute_decides:
  assumes ok: "uh_ok p" and ev: "eventType = Added \<or> eventType = Modified"
    and allowed: "namespace_allowed p (rt_Namespace route0)"
    and host: "host = uh_hostForRoute p route0" "host \<noteq> []"
    and route: "route = route0\<lparr>rt_Host := host\<rparr>" "ValidateHostName route = []"
    and rs: "rs = routes_of p host" and d: "d = uh_disableOwnershipCheck p"
  shows "if claim_blocked d route rs
    then \<exists>e. uh_HandleRoute C (p, w) eventType route0 =
           Some ((p, rc_reject C w route ''HostAlreadyClaimed'' e), Some e)
    else \<exists>cs p'. uh_HandleRoute C (p, w) eventType route0 =
           Some ((p', fst (rc_plugin C (run_calls C w cs) (HandleRoute eventType route))),
                 snd (rc_plugin C (run_calls C w cs) (HandleRoute eventType route))) \<and>
         set (routes_of p' host) = insert route (claim_keeps d route rs) \<and>
         sent_events cs = map (HandleRoute Deleted) (claim_displaces d route rs)"
proof -
  let ?old = "map_of (uh_hostToRoute p) host"
  have hok: "?old = Some rs' \<Longrightarrow> rs' \<noteq> [] \<and> distinct (map rt_Path rs')" for rs'
    using uh_ok_lookup [OF ok, of host] by (auto simp: host_ok_def)
  have result: "claim_result d route rs (claim_host d host route ?old)"
    using hok claim_host_decides claim_host_free
    by (auto simp: rs routes_of_def RoutesForHost_def split: option.splits)
  have run: "uh_HandleRoute C (p, w) eventType route0 =
      (case claim_host d host route ?old of
         None \<Rightarrow> None
       | Some (routes, cs, err) \<Rightarrow>
           (let p1 = p\<lparr>uh_hostToRoute := AList.update host routes (uh_hostToRoute p)\<rparr>;
                w1 = run_calls C w cs
            in case err of
                 Some e \<Rightarrow> Some ((p1, w1), Some e)
               | None \<Rightarrow>
                   (let p2 = after_claim p1 eventType route host;
                        (w2, res) = rc_plugin C w1 (HandleRoute eventType route)
                    in Some ((p2, w2), res))))"
    using ev allowed host(2) route(2)
    by (auto simp: uh_HandleRoute_def Let_def route(1) host(1) d split: option.splits prod.splits)
  show ?thesis
  proof (cases "claim_blocked d route rs")
    case True
    then obtain e where res: "claim_host d host route ?old =
        Some (rs, [Rejected route ''HostAlreadyClaimed'' e], Some e)"
      using result by (auto simp: claim_result_def claim_refused_def)
    have "rs \<noteq> []" using True by (simp add: claim_blocked_def)
    then have "?old = Some rs"
      by (auto simp: rs routes_of_def RoutesForHost_def split: option.splits)
    then have "uh_HandleRoute C (p, w) eventType route0 =
        Some ((p, rc_reject C w route ''HostAlreadyClaimed'' e), Some e)"
      using res by (simp add: run map_of_update_same)
    then show ?thesis using True by auto
  next
    case False
    then obtain routes cs where res: "claim_host d host route ?old = Some (routes, cs, None)"
      and set: "set routes = insert route (claim_keeps d route rs)"
      and sent: "sent_events cs = map (HandleRoute Deleted) (claim_displaces d route rs)"
      using result by (auto simp: claim_result_def claim_granted_def)
    let ?p1 = "p\<lparr>uh_hostToRoute := AList.update host routes (uh_hostToRoute p)\<rparr>"
    have "routes_of (after_claim ?p1 eventType route host) host = routes"
      by (simp add: routes_of_def RoutesForHost_def map_of_after_claim [OF ev] update_conv')
    moreover have "uh_HandleRoute C (p, w) eventType route0 =
        Some ((after_claim ?p1 eventType route host,
               fst (rc_plugin C (run_calls C w cs) (HandleRoute eventType route))),
              snd (rc_plugin C (run_calls C w cs) (HandleRoute eventType route)))"
      by (simp add: run res Let_def split_beta)
    ultimately show ?thesis using False set sent by auto
  qed
qed

text \<open>Runs of the plugin over the recording chain.\<close>

fun uh_run ::
  "unique_host \<times> router_call list \<Rightarrow> plugin_event list \<Rightarrow> (unique_host \<times> router_call list) option" where
  "uh_run pw [] = Some pw"
| "uh_run pw (ev # evs) =
     (case uh_handle recording_chain pw ev of None \<Rightarrow> None | Some (pw', _) \<Rightarrow> uh_run pw' evs)"

lemma uh_run_reach:
  "uh_run (p, w) evs = Some (p', w') \<Longrightarrow> uh_reach recording_chain fn d p w \<Longrightarrow>
   uh_reach recording_chain fn d p' w'"
proof (induction evs arbitrary: p w)
  case (Cons ev evs)
  then show ?case by (auto split: option.splits prod.splits intro: uh_reach.call)
qed simp

text \<open>The calls a run makes, starting from a new plugin with the ownership check.\<close>

definition uh_calls :: "plugin_event list \<Rightarrow> router_call list option" where
  "uh_calls evs = map_option snd (uh_run (NewUniqueHost HostForRoute False, []) evs)"

lemma uh_run_new:
  "uh_run (NewUniqueHost fn d, []) evs = Some (p, w) \<Longrightarrow> uh_reach recording_chain fn d p w"
  by (rule uh_run_reach [OF _ uh_reach.new])

section \<open>Properties of the plugin\<close>

definition shop_a :: route where "shop_a = sample_route ''a'' ''r1'' 5 ''h.test'' ''/a'' []"
definition shop_b :: route where "shop_b = sample_route ''a'' ''r2'' 9 ''h.test'' ''/b'' []"
definition shop_a_moved :: route where "shop_a_moved = sample_route ''a'' ''r1'' 5 ''g.test'' ''/a'' []"
definition foreign_shop :: "int \<Rightarrow> route" where
  "foreign_shop created = sample_route ''b'' ''r3'' created ''h.test'' ''/b'' []"

definition shop_calls :: "router_call list" where
  "shop_calls = [Sent (HandleRoute Added shop_a), Sent (HandleRoute Added shop_b)]"

definition shop_state :: "unique_host" where
  "shop_state = fst (the (uh_run (NewUniqueHost HostForRoute False, [])
     [HandleRoute Added shop_a, HandleRoute Added shop_b]))"

lemma shop_state_reach: "uh_reach recording_chain HostForRoute False shop_state shop_calls"
proof -
  let ?run = "uh_run (NewUniqueHost HostForRoute False, []) [HandleRoute Added shop_a, HandleRoute Added shop_b]"
  have "map_option snd ?run = Some shop_calls" by code_simp
  then have "?run = Some (shop_state, shop_calls)" by (cases ?run) (auto simp: shop_state_def)
  then show ?thesis by (rule uh_run_new)
qed

text \<open>
  C22: in every state the plugin reaches, whatever calls it gets and whatever the next plugin and the
  recorder do, no call panics; each tracked host has at least one route, its routes serve that host
  on distinct paths, and with the ownership check they are all of one namespace, which is allowed.
\<close>

theorem host_claims_invariant:
  assumes "uh_reach C fn disableCheck p w"
  shows "uh_handle C (p, w) ev \<noteq> None \<and>
    (\<forall>h rs. RoutesForHost p h = Some rs \<longrightarrow>
       rs \<noteq> [] \<and> distinct (map rt_Path rs) \<and> (\<forall>r \<in> set rs. rt_Host r = h) \<and>
       (disableCheck \<or> (\<forall>r \<in> set rs. rt_Namespace r = rt_Namespace (hd rs) \<and>
          namespace_allowed p (rt_Namespace r))))"
proof -
  note ok = uh_reach_ok [OF assms]
  have "uh_handle C (p, w) ev \<noteq> None"
    using uh_handle_ok [of p C w ev] ok by auto
  moreover have "host_ok disableCheck (namespace_allowed p) h rs" if "RoutesForHost p h = Some rs" for h rs
    using uh_ok_lookup [of p h rs] that ok by (auto simp: RoutesForHost_def)
  ultimately show ?thesis by (metis (no_types, lifting) host_okD)
qed

theorem host_claims_invariant_witness:
  "uh_handle recording_chain (shop_state, shop_calls) (HandleRoute Deleted shop_a) \<noteq> None"
  using host_claims_invariant [OF shop_state_reach] by blast

text \<open>
  C21: what becomes of an added or modified route, in every reachable state.  A route of a namespace that
  is not allowed is ignored; one without a host or with an invalid host is refused, with nothing but a
  rejection recorded.  Any other route is refused in the same way exactly when it is blocked by an older
  claim as specified; otherwise the plugin withdraws exactly the displaced routes, keeps the others the
  specification names and passes the route on.
\<close>

theorem claim_decides_forwarding:
  assumes "uh_reach C fn d p w" "eventType = Added \<or> eventType = Modified"
    "host = uh_hostForRoute p route0" "route = route0\<lparr>rt_Host := host\<rparr>" "rs = routes_of p host"
  shows "if \<not> namespace_allowed p (rt_Namespace route0)
    then uh_HandleRoute C (p, w) eventType route0 = Some ((p, w), None)
    else if host = []
    then \<exists>e. uh_HandleRoute C (p, w) eventType route0 = Some ((p, rc_reject C w route0 ''NoHostValue'' e), None)
    else if ValidateHostName route \<noteq> []
    then \<exists>e. uh_HandleRoute C (p, w) eventType route0 = Some ((p, rc_reject C w route ''InvalidHost'' e), Some e)
    else if claim_blocked d route rs
    then \<exists>e. uh_HandleRoute C (p, w) eventType route0 =
           Some ((p, rc_reject C w route ''HostAlreadyClaimed'' e), Some e)
    else \<exists>cs p'. uh_HandleRoute C (p, w) eventType route0 =
           Some ((p', fst (rc_plugin C (run_calls C w cs) (HandleRoute eventType route))),
                 snd (rc_plugin C (run_calls C w cs) (HandleRoute eventType route))) \<and>
         set (routes_of p' host) = insert route (claim_keeps d route rs) \<and>
         sent_events cs = map (HandleRoute Deleted) (claim_displaces d route rs)"
proof -
  have "uh_ok p" "d = uh_disableOwnershipCheck p" using uh_reach_ok [OF assms(1)] by auto
  note decided = uh_HandleRoute_decides [OF this(1) assms(2) _ assms(3) _ assms(4) _ assms(5) this(2), of C w]
  consider "\<not> namespace_allowed p (rt_Namespace route0)"
    | "namespace_allowed p (rt_Namespace route0)" "host = []"
    | "namespace_allowed p (rt_Namespace route0)" "host \<noteq> []" "ValidateHostName route \<noteq> []"
    | "namespace_allowed p (rt_Namespace route0)" "host \<noteq> []" "ValidateHostName route = []" by blast
  then show ?thesis
  proof cases
    case 4
    from 4 show ?thesis using decided [OF 4] by (simp only: if_False simp_thms)
  qed (use assms(3,4) in \<open>auto simp: uh_HandleRoute_def Let_def\<close>)
qed

theorem claim_decides_forwarding_witness:
  "\<exists>e. uh_HandleRoute recording_chain (shop_state, shop_calls) Added (foreign_shop 7)
    = Some ((shop_state, rc_reject recording_chain shop_calls (foreign_shop 7) ''HostAlreadyClaimed'' e), Some e)"
proof -
  have fs: "namespace_allowed shop_state (rt_Namespace (foreign_shop 7))"
    "''h.test'' = uh_hostForRoute shop_state (foreign_shop 7)"
    "foreign_shop 7 = (foreign_shop 7)\<lparr>rt_Host := ''h.test''\<rparr>"
    "ValidateHostName (foreign_shop 7) = []" "[shop_a, shop_b] = routes_of shop_state ''h.test''"
    "claim_blocked False (foreign_shop 7) [shop_a, shop_b]"
    by code_simp+
  show ?thesis
    using claim_decides_forwarding [OF shop_state_reach _ fs(2,3,5), of Added] fs(1,4,6) by auto
qed

text \<open>
  Two ways in which a host is lost that its namespace still serves.  When one of two routes of a
  host moves to another host, the plugin forgets the host altogether, and the route of another
  namespace is passed on although the remaining route is still served.  And when an older route
  replaces a path, it is not moved to the front of the list, so a route of another namespace that is
  younger than it, but older than the first of the list, takes the host.
\<close>

theorem held_hosts_can_be_lost:
  "uh_calls [HandleRoute Added shop_a, HandleRoute Added shop_b, HandleRoute Added (foreign_shop 7)] =
     Some [Sent (HandleRoute Added shop_a), Sent (HandleRoute Added shop_b),
       Rejected (foreign_shop 7) ''HostAlreadyClaimed''
         (Errorf ''a route in another namespace holds %s and is older than %s'' [''h.test'', ''r3''])] \<and>
   uh_calls [HandleRoute Added shop_a, HandleRoute Added shop_b, HandleRoute Modified shop_a_moved,
       HandleRoute Added (foreign_shop 7)] =
     Some [Sent (HandleRoute Added shop_a), Sent (HandleRoute Added shop_b),
       Sent (HandleRoute Modified shop_a_moved), Sent (HandleRoute Added (foreign_shop 7))] \<and>
   (let old_b = sample_route ''a'' ''r0'' 1 ''h.test'' ''/b'' [] in
    RouteLessThan old_b (foreign_shop 3) \<and>
    map_option last (uh_calls [HandleRoute Added shop_a, HandleRoute Added shop_b,
       HandleRoute Added old_b, HandleRoute Added (foreign_shop 3)]) =
     Some (Sent (HandleRoute Added (foreign_shop 3))))"
  by code_simp

end
