(* ===== verification/Host_Admitter.thy ===== *)
theory Host_Admitter
  imports Routes "HOL-Library.AList"
begin

text \<open>
  \<open>origin/pkg/router/controller/host_admitter.go\<close>: the router plugin in front of \<open>Unique_Host\<close> that
  admits routes by domain and, when wildcard routes are allowed, keeps which routes claim a host,
  claim a wildcard domain, and block wildcards of a domain.  A \<open>RouteMap\<close> is an association list;
  a missing key reads as the nil slice.
\<close>

section \<open>Route maps\<close>

type_synonym route_map = "(string \<times> route list) list"

definition rm_get :: "route_map \<Rightarrow> string \<Rightarrow> route list" where
  "rm_get srm key = (case map_of srm key of None \<Rightarrow> [] | Some m \<Rightarrow> m)"

definition RemoveRoute :: "route_map \<Rightarrow> string \<Rightarrow> route \<Rightarrow> route_map \<times> bool" where
  "RemoveRoute srm key route =
     (let m = rm_get srm key;
          removed = list_ex (\<lambda>v. same_route v route) m;
          kept = filter (\<lambda>v. \<not> same_route v route) m
      in (if 0 < length kept then AList.update key kept srm else AList.delete key srm, removed))"

fun insert_loop :: "route \<Rightarrow> route list \<Rightarrow> route list" where
  "insert_loop route [] = [route]"
| "insert_loop route (r # m) =
     (if RouteLessThan route r then route # r # m else r # insert_loop route m)"

definition InsertRoute :: "route_map \<Rightarrow> string \<Rightarrow> route \<Rightarrow> route_map" where
  "InsertRoute srm key route =
     (let srm1 = fst (RemoveRoute srm key route)
      in AList.update key (insert_loop route (rm_get srm1 key)) srm1)"

subsection \<open>Route maps as an interface\<close>

text \<open>
  What the plugin relies on: looking up after a removal and an insertion, and that an insertion
  keeps the routes of a key sorted by age.
\<close>

locale route_table =
  fixes get :: "'m \<Rightarrow> string \<Rightarrow> route list"
    and remove :: "'m \<Rightarrow> string \<Rightarrow> route \<Rightarrow> 'm"
    and insert_route :: "'m \<Rightarrow> string \<Rightarrow> route \<Rightarrow> 'm"
  assumes get_remove: "get (remove m k r) k' =
      (if k' = k then filter (\<lambda>v. \<not> same_route v r) (get m k) else get m k')"
    and set_insert: "set (get (insert_route m k r) k') =
      (if k' = k then insert r {v \<in> set (get m k). \<not> same_route v r} else set (get m k'))"
    and sorted_insert: "sorted (map age_of (get m k')) \<Longrightarrow> sorted (map age_of (get (insert_route m k r) k'))"
begin

text \<open>Entries of a key belong there, \<open>owner r = k\<close>, and are in the order of their age.\<close>

definition keyed :: "(route \<Rightarrow> string) \<Rightarrow> 'm \<Rightarrow> bool" where
  "keyed owner m \<longleftrightarrow> (\<forall>k. sorted (map age_of (get m k)) \<and> (\<forall>r \<in> set (get m k). owner r = k))"

lemma keyedD: "keyed owner m \<Longrightarrow> r \<in> set (get m k) \<Longrightarrow> owner r = k"
  by (simp add: keyed_def)

lemma sorted_filter_age: "sorted (map age_of xs) \<Longrightarrow> sorted (map age_of (filter P xs))"
  by (rule sorted_filter)

lemma keyed_remove: "keyed owner m \<Longrightarrow> keyed owner (remove m k r)"
  by (auto simp: keyed_def get_remove sorted_filter_age)

lemma keyed_insert: "keyed owner m \<Longrightarrow> owner r = k \<Longrightarrow> keyed owner (insert_route m k r)"
  by (auto simp: keyed_def set_insert sorted_insert)

text \<open>A table all of whose entries with a property were removed has none left.\<close>

definition removes :: "(route \<Rightarrow> string) \<Rightarrow> 'm \<Rightarrow> route list \<Rightarrow> 'm" where
  "removes owner m rs = foldl (\<lambda>t r. remove t (owner r) r) m rs"

lemma removes_simps [simp]:
  "removes owner m [] = m"
  "removes owner m (r # rs) = removes owner (remove m (owner r) r) rs"
  by (simp_all add: removes_def)

lemma get_removes_sub: "set (get (removes owner m rs) k) \<subseteq> set (get m k)"
proof (induction rs arbitrary: m)
  case (Cons r rs)
  then show ?case using Cons [of "remove m (owner r) r"] by (auto simp: get_remove split: if_splits)
qed simp

lemma get_removes_gone:
  "r \<in> set rs \<Longrightarrow> owner r = k \<Longrightarrow> r \<notin> set (get (removes owner m rs) k)"
proof (induction rs arbitrary: m)
  case (Cons s rs)
  show ?case
  proof (cases "r \<in> set rs")
    case False
    then show ?thesis
      using Cons.prems get_removes_sub [of owner "remove m (owner s) s" rs k] by (auto simp: get_remove)
  qed (simp add: Cons.IH Cons.prems)
qed simp

lemma keyed_removes: "keyed owner m \<Longrightarrow> keyed owner (removes owner m rs)"
  by (induction rs arbitrary: m) (simp_all add: keyed_remove)

end

lemma rm_get_update [simp]: "rm_get (AList.update k v srm) k' = (if k' = k then v else rm_get srm k')"
  by (simp add: rm_get_def update_conv')

lemma rm_get_delete [simp]: "rm_get (AList.delete k srm) k' = (if k' = k then [] else rm_get srm k')"
  by (simp add: rm_get_def delete_conv')

lemma set_insert_loop [simp]: "set (insert_loop r m) = insert r (set m)"
  by (induction m) auto

lemma sorted_insert_loop: "sorted (map age_of m) \<Longrightarrow> sorted (map age_of (insert_loop r m))"
  by (induction m) (auto simp: RouteLessThan_age not_less)

interpretation routes: route_table rm_get "\<lambda>srm k r. fst (RemoveRoute srm k r)" InsertRoute
proof
  show get_remove: "rm_get (fst (RemoveRoute m k r)) k' =
      (if k' = k then filter (\<lambda>v. \<not> same_route v r) (rm_get m k) else rm_get m k')" for m k r k'
    by (simp add: RemoveRoute_def Let_def filter_empty_conv)
  show "set (rm_get (InsertRoute m k r) k') =
      (if k' = k then insert r {v \<in> set (rm_get m k). \<not> same_route v r} else set (rm_get m k'))" for m k r k'
    by (auto simp: InsertRoute_def Let_def get_remove)
  show "sorted (map age_of (rm_get m k')) \<Longrightarrow> sorted (map age_of (rm_get (InsertRoute m k r) k'))" for m k r k'
    by (auto simp: InsertRoute_def Let_def get_remove intro: sorted_insert_loop sorted_filter)
qed

section \<open>The plugin\<close>

record host_admitter =
  ha_admitter :: "route \<Rightarrow> go_error option"
  ha_allowWildcardRoutes :: bool
  ha_disableNamespaceCheck :: bool
  ha_claimedHosts :: route_map
  ha_claimedWildcards :: route_map
  ha_blockedWildcards :: route_map

definition NewHostAdmitter :: "(route \<Rightarrow> go_error option) \<Rightarrow> bool \<Rightarrow> bool \<Rightarrow> host_admitter" where
  "NewHostAdmitter fn allowWildcards disableNamespaceCheck =
     \<lparr>ha_admitter = fn, ha_allowWildcardRoutes = allowWildcards,
      ha_disableNamespaceCheck = disableNamespaceCheck,
      ha_claimedHosts = [], ha_claimedWildcards = [], ha_blockedWildcards = []\<rparr>"

definition is_wildcard :: "route \<Rightarrow> bool" where
  "is_wildcard r \<longleftrightarrow> rt_WildcardPolicy r = WildcardPolicySubdomain"

text \<open>
  Which routes the three loops of \<open>displacedRoutes\<close> skip; every other route either is older, which
  is an error, or is displaced.
\<close>

definition own_route :: "bool \<Rightarrow> route \<Rightarrow> route \<Rightarrow> bool" where
  "own_route noCheck new r \<longleftrightarrow> noCheck \<or> rt_Namespace r = rt_Namespace new"

definition host_skip :: "bool \<Rightarrow> route \<Rightarrow> route \<Rightarrow> bool" where
  "host_skip noCheck new r \<longleftrightarrow>
     own_route noCheck new r \<and>
     (if \<not> noCheck \<and> rt_Name r = rt_Name new then True
      else if is_wildcard new then True
      else rt_Path r \<noteq> rt_Path new)"

definition wildcard_skip :: "bool \<Rightarrow> route \<Rightarrow> route \<Rightarrow> bool" where
  "wildcard_skip noCheck new r \<longleftrightarrow>
     own_route noCheck new r \<and>
     (if \<not> noCheck \<and> rt_Name r = rt_Name new then True
      else if \<not> is_wildcard new then True
      else rt_Path r \<noteq> rt_Path new)"

definition blocked_skip :: "bool \<Rightarrow> route \<Rightarrow> route \<Rightarrow> bool" where
  "blocked_skip noCheck new r \<longleftrightarrow> own_route noCheck new r"

fun scan_routes ::
  "(route \<Rightarrow> bool) \<Rightarrow> (route \<Rightarrow> go_error) \<Rightarrow> route \<Rightarrow> route list \<Rightarrow> route list \<Rightarrow>
   (go_error \<times> string) + route list" where
  "scan_routes skip errOf new [] displaced = Inr displaced"
| "scan_routes skip errOf new (r # rs) displaced =
     (if skip r then scan_routes skip errOf new rs displaced
      else if RouteLessThan r new then Inl (errOf r, rt_Namespace r)
      else scan_routes skip errOf new rs (displaced @ [r]))"

definition displacedRoutes :: "host_admitter \<Rightarrow> route \<Rightarrow> (go_error \<times> string) + route list" where
  "displacedRoutes p new =
     (let noCheck = ha_disableNamespaceCheck p; wildcardKey = GetDomainForHost (rt_Host new) in
      case scan_routes (host_skip noCheck new)
             (\<lambda>r. Errorf ''route %s/%s has host %s'' [rt_Namespace r, rt_Name r, rt_Host r])
             new (rm_get (ha_claimedHosts p) (rt_Host new)) [] of
        Inl e \<Rightarrow> Inl e
      | Inr displaced \<Rightarrow>
          (case scan_routes (wildcard_skip noCheck new)
                  (\<lambda>r. Errorf ''wildcard route %s/%s has host *.%s, blocking %s''
                         [rt_Namespace r, rt_Name r, wildcardKey, rt_Host new])
                  new (rm_get (ha_claimedWildcards p) wildcardKey) displaced of
             Inl e \<Rightarrow> Inl e
           | Inr displaced \<Rightarrow>
               if is_wildcard new
               then scan_routes (blocked_skip noCheck new)
                      (\<lambda>r. Errorf ''route %s/%s has host %s, blocking *.%s''
                             [rt_Namespace r, rt_Name r, rt_Host r, wildcardKey])
                      new (rm_get (ha_blockedWildcards p) wildcardKey) displaced
               else Inr displaced))"

definition displaced_message :: "route \<Rightarrow> route \<Rightarrow> go_error" where
  "displaced_message route displacedRoute =
     (if rt_Namespace route = rt_Namespace displacedRoute then
        (if is_wildcard route
         then Errorf ''wildcard route %s/%s has host *.%s blocking %s''
                [rt_Namespace route, rt_Name route, GetDomainForHost (rt_Host displacedRoute),
                 rt_Host displacedRoute]
         else Errorf ''route %s/%s has host %s, blocking %s''
                [rt_Namespace route, rt_Name route, rt_Host route, rt_Host displacedRoute])
      else Errorf ''a route in another namespace holds host %s'' [rt_Host displacedRoute])"

text \<open>Forgetting a route in all three maps, as for a displaced or deleted one.\<close>

definition forget_route :: "host_admitter \<Rightarrow> route \<Rightarrow> host_admitter" where
  "forget_route p r =
     (let wildcardKey = GetDomainForHost (rt_Host r)
      in p\<lparr>ha_claimedHosts := fst (RemoveRoute (ha_claimedHosts p) (rt_Host r) r),
           ha_blockedWildcards := fst (RemoveRoute (ha_blockedWildcards p) wildcardKey r),
           ha_claimedWildcards := fst (RemoveRoute (ha_claimedWildcards p) wildcardKey r)\<rparr>)"

fun remove_displaced ::
  "'w router_chain \<Rightarrow> route \<Rightarrow> host_admitter \<times> 'w \<Rightarrow> route list \<Rightarrow> host_admitter \<times> 'w" where
  "remove_displaced C route pw [] = pw"
| "remove_displaced C route (p, w) (r # rs) =
     remove_displaced C route
       (forget_route p r,
        run_calls C w [Rejected r ''HostAlreadyClaimed'' (displaced_message route r),
                       Sent (HandleRoute Deleted r)]) rs"

text \<open>The switch on the wildcard policy: the new state, or the error of an unsupported policy.\<close>

definition claim_route :: "host_admitter \<Rightarrow> route \<Rightarrow> host_admitter \<times> go_error option" where
  "claim_route p route =
     (let host = rt_Host route; wildcardKey = GetDomainForHost host in
      if rt_WildcardPolicy route = WildcardPolicyNone then
        (p\<lparr>ha_claimedHosts := InsertRoute (ha_claimedHosts p) host route,
           ha_blockedWildcards := InsertRoute (ha_blockedWildcards p) wildcardKey route,
           ha_claimedWildcards := fst (RemoveRoute (ha_claimedWildcards p) wildcardKey route)\<rparr>, None)
      else if is_wildcard route then
        (p\<lparr>ha_claimedWildcards := InsertRoute (ha_claimedWildcards p) wildcardKey route,
           ha_claimedHosts := fst (RemoveRoute (ha_claimedHosts p) host route),
           ha_blockedWildcards := fst (RemoveRoute (ha_blockedWildcards p) wildcardKey route)\<rparr>, None)
      else (forget_route p route, Some (Errorf ''unsupported wildcard policy %s'' [rt_WildcardPolicy route])))"

text \<open>\<open>addRoute\<close> also sets an empty wildcard policy of the route it is given, which it returns.\<close>

definition addRoute ::
  "'w router_chain \<Rightarrow> host_admitter \<times> 'w \<Rightarrow> route \<Rightarrow> (host_admitter \<times> 'w) \<times> route \<times> go_error option" where
  "addRoute C pw route =
     (case pw of (p, w) \<Rightarrow>
        (case displacedRoutes p route of
           Inl (err, ownerNamespace) \<Rightarrow>
             (let msg = (if ownerNamespace = rt_Namespace route then err
                         else Errorf ''a route in another namespace holds host %s'' [rt_Host route])
              in ((p, rc_reject C w route ''HostAlreadyClaimed'' msg), route, Some err))
         | Inr displaced \<Rightarrow>
             (let (p1, w1) = remove_displaced C route (p, w) displaced;
                  route1 = (if length (rt_WildcardPolicy route) = 0
                            then route\<lparr>rt_WildcardPolicy := WildcardPolicyNone\<rparr> else route);
                  (p2, err) = claim_route p1 route1
              in case err of
                   Some e \<Rightarrow> ((p2, rc_reject C w1 route1 ''RouteNotAdmitted'' e), route1, Some e)
                 | None \<Rightarrow> ((p2, w1), route1, None))))"

definition ha_HandleRoute ::
  "'w router_chain \<Rightarrow> host_admitter \<times> 'w \<Rightarrow> event_type \<Rightarrow> route \<Rightarrow> (host_admitter \<times> 'w) \<times> go_error option" where
  "ha_HandleRoute C pw eventType route =
     (case pw of (p, w) \<Rightarrow>
        (case ha_admitter p route of
           Some err \<Rightarrow> ((p, rc_reject C w route ''RouteNotAdmitted'' err), Some err)
         | None \<Rightarrow>
             (let (p1, w1, route1, err) =
                (if ha_allowWildcardRoutes p \<and> 0 < length (rt_Host route) then
                   (case eventType of
                      Deleted \<Rightarrow> (forget_route p route, w, route, None)
                    | ErrorEvent \<Rightarrow> (p, w, route, None)
                    | _ \<Rightarrow> (case addRoute C (p, w) route of ((p', w'), r', e) \<Rightarrow> (p', w', r', e)))
                 else (p, w, route, None))
              in case err of
                   Some e \<Rightarrow> ((p1, w1), Some e)
                 | None \<Rightarrow> (let (w2, res) = rc_plugin C w1 (HandleRoute eventType route1)
                            in ((p1, w2), res)))))"

definition ha_handle ::
  "'w router_chain \<Rightarrow> host_admitter \<times> 'w \<Rightarrow> plugin_event \<Rightarrow> (host_admitter \<times> 'w) \<times> go_error option" where
  "ha_handle C pw ev =
     (case ev of
        HandleRoute eventType route \<Rightarrow> ha_HandleRoute C pw eventType route
      | _ \<Rightarrow> (case pw of (p, w) \<Rightarrow> (let (w1, res) = rc_plugin C w ev in ((p, w1), res))))"

section \<open>Displaced routes\<close>

lemma scan_routes_Inr:
  "scan_routes skip errOf new rs acc = Inr D \<Longrightarrow>
   D = acc @ filter (\<lambda>r. \<not> skip r) rs \<and> (\<forall>r \<in> set rs. skip r \<or> \<not> RouteLessThan r new)"
proof (induction rs arbitrary: acc)
  case (Cons r rs)
  then show ?case using Cons.IH [of acc] Cons.IH [of "acc @ [r]"] by (auto split: if_splits)
qed simp

lemma scan_routes_Inl:
  "scan_routes skip errOf new rs acc = Inl (e, ns) \<Longrightarrow>
   \<exists>r \<in> set rs. \<not> skip r \<and> RouteLessThan r new \<and> e = errOf r \<and> ns = rt_Namespace r"
  by (induction rs arbitrary: acc) (auto split: if_splits)

definition domain_of :: "route \<Rightarrow> string" where
  "domain_of r = GetDomainForHost (rt_Host r)"

text \<open>The routes of the three maps in conflict with a new route.\<close>

definition conflicts :: "host_admitter \<Rightarrow> route \<Rightarrow> route list" where
  "conflicts p new =
     filter (\<lambda>r. \<not> host_skip (ha_disableNamespaceCheck p) new r) (rm_get (ha_claimedHosts p) (rt_Host new)) @
     filter (\<lambda>r. \<not> wildcard_skip (ha_disableNamespaceCheck p) new r) (rm_get (ha_claimedWildcards p) (domain_of new)) @
     (if is_wildcard new
      then filter (\<lambda>r. \<not> blocked_skip (ha_disableNamespaceCheck p) new r) (rm_get (ha_blockedWildcards p) (domain_of new))
      else [])"

lemma displacedRoutes_Inr:
  "displacedRoutes p new = Inr D \<Longrightarrow> D = conflicts p new \<and> (\<forall>r \<in> set D. \<not> RouteLessThan r new)"
  by (auto simp: displacedRoutes_def Let_def conflicts_def domain_of_def
      split: sum.splits if_splits dest!: scan_routes_Inr)

lemma displacedRoutes_Inl:
  "displacedRoutes p new = Inl (e, ns) \<Longrightarrow>
   \<exists>r \<in> set (conflicts p new). RouteLessThan r new \<and> ns = rt_Namespace r"
  by (fastforce simp: displacedRoutes_def Let_def conflicts_def domain_of_def
      split: sum.splits if_splits dest: scan_routes_Inl scan_routes_Inr)

lemma remove_displaced_state:
  "fst (remove_displaced C route (p, w) rs) =
     p\<lparr>ha_claimedHosts := routes.removes rt_Host (ha_claimedHosts p) rs,
       ha_blockedWildcards := routes.removes domain_of (ha_blockedWildcards p) rs,
       ha_claimedWildcards := routes.removes domain_of (ha_claimedWildcards p) rs\<rparr>"
  by (induction rs arbitrary: p w) (simp_all add: forget_route_def Let_def domain_of_def)

text \<open>A route of another namespace is in conflict with every claim for its host or domain.\<close>

lemma foreign_conflicts:
  assumes "\<not> ha_disableNamespaceCheck p" "rt_Namespace r \<noteq> rt_Namespace new"
  shows "r \<in> set (rm_get (ha_claimedHosts p) (rt_Host new)) \<Longrightarrow> r \<in> set (conflicts p new)"
    and "r \<in> set (rm_get (ha_claimedWildcards p) (domain_of new)) \<Longrightarrow> r \<in> set (conflicts p new)"
    and "is_wildcard new \<Longrightarrow> r \<in> set (rm_get (ha_blockedWildcards p) (domain_of new)) \<Longrightarrow>
      r \<in> set (conflicts p new)"
  using assms
  by (simp_all add: conflicts_def host_skip_def wildcard_skip_def blocked_skip_def own_route_def)

section \<open>Isolation of namespaces\<close>

text \<open>
  All routes claiming a host are of one namespace, and so are all routes claiming a wildcard domain
  together with those that block its wildcards.
\<close>

definition in_namespace :: "string \<Rightarrow> route list \<Rightarrow> bool" where
  "in_namespace ns rs \<longleftrightarrow> (\<forall>r \<in> set rs. rt_Namespace r = ns)"

definition isolated :: "route_map \<Rightarrow> route_map \<Rightarrow> route_map \<Rightarrow> bool" where
  "isolated hosts wildcards blocked \<longleftrightarrow>
     (\<forall>h. \<exists>ns. in_namespace ns (rm_get hosts h)) \<and>
     (\<forall>d. rm_get wildcards d = [] \<or>
        (\<exists>ns. in_namespace ns (rm_get wildcards d) \<and> in_namespace ns (rm_get blocked d)))"

definition ha_ok :: "host_admitter \<Rightarrow> bool" where
  "ha_ok p \<longleftrightarrow>
     routes.keyed rt_Host (ha_claimedHosts p) \<and>
     routes.keyed domain_of (ha_claimedWildcards p) \<and>
     routes.keyed domain_of (ha_blockedWildcards p) \<and>
     (ha_disableNamespaceCheck p \<or>
      isolated (ha_claimedHosts p) (ha_claimedWildcards p) (ha_blockedWildcards p))"

definition sub_map :: "route_map \<Rightarrow> route_map \<Rightarrow> bool" where
  "sub_map a b \<longleftrightarrow> (\<forall>k. set (rm_get a k) \<subseteq> set (rm_get b k))"

lemma in_namespace_sub: "in_namespace ns rs \<Longrightarrow> set rs' \<subseteq> set rs \<Longrightarrow> in_namespace ns rs'"
  by (auto simp: in_namespace_def)

lemma isolated_sub:
  assumes "isolated h w b" "sub_map h' h" "sub_map w' w" "sub_map b' b"
  shows "isolated h' w' b'"
proof -
  have "\<exists>ns. in_namespace ns (rm_get h' k)" for k
    using assms in_namespace_sub unfolding isolated_def sub_map_def by meson
  moreover have "rm_get w' k = [] \<or>
      (\<exists>ns. in_namespace ns (rm_get w' k) \<and> in_namespace ns (rm_get b' k))" for k
    using assms in_namespace_sub unfolding isolated_def sub_map_def
    by (metis list.set_intros(1) neq_Nil_conv set_empty subset_empty)
  ultimately show ?thesis by (simp add: isolated_def)
qed

lemma sub_map_remove [simp]: "sub_map (fst (RemoveRoute m k r)) m"
  by (auto simp: sub_map_def routes.get_remove)

lemma sub_map_removes [simp]: "sub_map (routes.removes owner m rs) m"
  by (simp add: sub_map_def routes.get_removes_sub)

lemma sub_map_trans: "sub_map a b \<Longrightarrow> sub_map b c \<Longrightarrow> sub_map a c"
  unfolding sub_map_def by blast

lemma ha_ok_forget: "ha_ok p \<Longrightarrow> ha_ok (forget_route p r)"
  by (auto simp: ha_ok_def forget_route_def Let_def routes.keyed_remove intro: isolated_sub)

text \<open>Claiming for a route whose host and domain no other namespace holds.\<close>

lemma in_namespace_insert [simp]:
  "in_namespace ns (rm_get (InsertRoute m k r) k') \<longleftrightarrow>
     (if k' = k then rt_Namespace r = ns \<and> in_namespace ns (filter (\<lambda>v. \<not> same_route v r) (rm_get m k))
      else in_namespace ns (rm_get m k'))"
  by (auto simp: in_namespace_def routes.set_insert)

lemma in_namespace_filter: "in_namespace ns rs \<Longrightarrow> in_namespace ns (filter P rs)"
  by (simp add: in_namespace_def)

lemma InsertRoute_nonempty: "rm_get (InsertRoute m k r) k' = [] \<longleftrightarrow> k' \<noteq> k \<and> rm_get m k' = []"
  by (auto simp: routes.set_insert simp flip: set_empty)

lemma isolated_host_claim:
  assumes iso: "isolated h w b"
    and hosts: "in_namespace (rt_Namespace new) (rm_get h (rt_Host new))"
    and wilds: "in_namespace (rt_Namespace new) (rm_get w (domain_of new))"
  shows "isolated (InsertRoute h (rt_Host new) new) (fst (RemoveRoute w (domain_of new) new))
    (InsertRoute b (domain_of new) new)"
proof -
  have "\<exists>ns. in_namespace ns (rm_get (InsertRoute h (rt_Host new) new) k)" for k
  proof (cases "k = rt_Host new")
    case True
    then show ?thesis using in_namespace_filter [OF hosts] by (intro exI [of _ "rt_Namespace new"]) simp
  qed (use iso in \<open>auto simp: isolated_def\<close>)
  moreover have "w' = [] \<or> (\<exists>ns. in_namespace ns w' \<and> in_namespace ns (rm_get (InsertRoute b (domain_of new) new) k))"
    if w': "w' = rm_get (fst (RemoveRoute w (domain_of new) new)) k" for k w'
  proof (cases "k = domain_of new \<and> w' \<noteq> []")
    case True
    then have "rm_get w k \<noteq> []" using w' by (auto simp: routes.get_remove)
    then obtain ns where ns: "in_namespace ns (rm_get w k)" "in_namespace ns (rm_get b k)"
      using iso by (auto simp: isolated_def)
    then have "ns = rt_Namespace new"
      using wilds True \<open>rm_get w k \<noteq> []\<close> by (cases "rm_get w k") (auto simp: in_namespace_def)
    then show ?thesis
      using ns True w' by (auto simp: routes.get_remove in_namespace_filter)
  next
    case False
    then show ?thesis using iso w' by (auto simp: isolated_def routes.get_remove)
  qed
  ultimately show ?thesis by (simp add: isolated_def)
qed

lemma isolated_wildcard_claim:
  assumes iso: "isolated h w b"
    and wilds: "in_namespace (rt_Namespace new) (rm_get w (domain_of new))"
    and blocked: "in_namespace (rt_Namespace new) (rm_get b (domain_of new))"
  shows "isolated (fst (RemoveRoute h (rt_Host new) new)) (InsertRoute w (domain_of new) new)
    (fst (RemoveRoute b (domain_of new) new))"
proof -
  have "\<exists>ns. in_namespace ns (rm_get (fst (RemoveRoute h (rt_Host new) new)) k)" for k
    using iso in_namespace_filter unfolding isolated_def routes.get_remove by (metis (full_types))
  moreover have "rm_get (InsertRoute w (domain_of new) new) k = [] \<or>
      (\<exists>ns. in_namespace ns (rm_get (InsertRoute w (domain_of new) new) k) \<and>
            in_namespace ns (rm_get (fst (RemoveRoute b (domain_of new) new)) k))" for k
    using iso wilds blocked
    by (cases "k = domain_of new")
      (auto simp: isolated_def routes.get_remove InsertRoute_nonempty in_namespace_filter)
  ultimately show ?thesis by (simp add: isolated_def)
qed

lemma ha_ok_claim:
  assumes ok: "ha_ok p"
    and free: "\<And>r. \<not> ha_disableNamespaceCheck p \<Longrightarrow> rt_Namespace r \<noteq> rt_Namespace new \<Longrightarrow>
      r \<notin> set (rm_get (ha_claimedHosts p) (rt_Host new)) \<and>
      r \<notin> set (rm_get (ha_claimedWildcards p) (domain_of new)) \<and>
      (is_wildcard new \<longrightarrow> r \<notin> set (rm_get (ha_blockedWildcards p) (domain_of new)))"
  shows "ha_ok (fst (claim_route p new))"
proof -
  have ns: "in_namespace (rt_Namespace new) (rm_get (ha_claimedHosts p) (rt_Host new))"
    "in_namespace (rt_Namespace new) (rm_get (ha_claimedWildcards p) (domain_of new))"
    "is_wildcard new \<Longrightarrow> in_namespace (rt_Namespace new) (rm_get (ha_blockedWildcards p) (domain_of new))"
    if "\<not> ha_disableNamespaceCheck p"
    using free [OF that] by (auto simp: in_namespace_def)
  let ?H = "ha_claimedHosts p" and ?W = "ha_claimedWildcards p" and ?B = "ha_blockedWildcards p"
  have host: "ha_disableNamespaceCheck p \<or>
      isolated (InsertRoute ?H (rt_Host new) new) (fst (RemoveRoute ?W (domain_of new) new))
        (InsertRoute ?B (domain_of new) new)"
    using ok ns(1,2) isolated_host_claim [of ?H ?W ?B new] by (auto simp: ha_ok_def)
  have wildcard: "is_wildcard new \<Longrightarrow> ha_disableNamespaceCheck p \<or>
      isolated (fst (RemoveRoute ?H (rt_Host new) new)) (InsertRoute ?W (domain_of new) new)
        (fst (RemoveRoute ?B (domain_of new) new))"
    using ok ns(2,3) isolated_wildcard_claim [of ?H ?W ?B new] by (auto simp: ha_ok_def)
  have keys: "routes.keyed rt_Host ?H" "routes.keyed domain_of ?W" "routes.keyed domain_of ?B"
    using ok by (simp_all add: ha_ok_def)
  consider "rt_WildcardPolicy new = WildcardPolicyNone" | "rt_WildcardPolicy new \<noteq> WildcardPolicyNone" "is_wildcard new"
    | "rt_WildcardPolicy new \<noteq> WildcardPolicyNone" "\<not> is_wildcard new" by blast
  then show ?thesis
  proof cases
    case 1
    then show ?thesis
      using host keys
      by (simp add: claim_route_def Let_def ha_ok_def domain_of_def [symmetric] routes.keyed_remove routes.keyed_insert)
  next
    case 2
    then show ?thesis
      using wildcard keys
      by (simp add: claim_route_def Let_def ha_ok_def domain_of_def [symmetric] routes.keyed_remove routes.keyed_insert)
  qed (simp add: claim_route_def Let_def ha_ok_forget [OF ok])
qed

lemma ha_ok_displaced:
  assumes ok: "ha_ok p" and D: "D = conflicts p new"
    and p1: "p1 = fst (remove_displaced C route (p, w) D)"
  shows "ha_ok p1" and "ha_disableNamespaceCheck p1 = ha_disableNamespaceCheck p"
    and "\<not> ha_disableNamespaceCheck p \<Longrightarrow> rt_Namespace r \<noteq> rt_Namespace new \<Longrightarrow>
      r \<notin> set (rm_get (ha_claimedHosts p1) (rt_Host new)) \<and>
      r \<notin> set (rm_get (ha_claimedWildcards p1) (domain_of new)) \<and>
      (is_wildcard new \<longrightarrow> r \<notin> set (rm_get (ha_blockedWildcards p1) (domain_of new)))"
proof -
  note p1 = p1 [unfolded remove_displaced_state]
  show "ha_ok p1" "ha_disableNamespaceCheck p1 = ha_disableNamespaceCheck p"
    using ok by (auto simp: p1 ha_ok_def routes.keyed_removes intro: isolated_sub)
  assume check: "\<not> ha_disableNamespaceCheck p" and foreign: "rt_Namespace r \<noteq> rt_Namespace new"
  have gone: "r \<notin> set (rm_get (routes.removes owner m D) k)"
    if m: "routes.keyed owner m" and conflict: "r \<in> set (rm_get m k) \<Longrightarrow> r \<in> set D" for owner m k
  proof
    assume "r \<in> set (rm_get (routes.removes owner m D) k)"
    moreover from this have "r \<in> set (rm_get m k)" using routes.get_removes_sub [of owner m D k] by blast
    moreover from this have "owner r = k" by (rule routes.keyedD [OF m])
    ultimately show False using routes.get_removes_gone [of r D owner k m] conflict by blast
  qed
  show "r \<notin> set (rm_get (ha_claimedHosts p1) (rt_Host new)) \<and>
      r \<notin> set (rm_get (ha_claimedWildcards p1) (domain_of new)) \<and>
      (is_wildcard new \<longrightarrow> r \<notin> set (rm_get (ha_blockedWildcards p1) (domain_of new)))"
    using ok foreign_conflicts [OF check foreign] gone
    by (simp add: p1 ha_ok_def D [symmetric])
qed

lemma claim_route_fields [simp]:
  "ha_disableNamespaceCheck (fst (claim_route p r)) = ha_disableNamespaceCheck p"
  by (simp add: claim_route_def forget_route_def Let_def)

lemma addRoute_ok:
  assumes ok: "ha_ok p" and add: "addRoute C (p, w) route = ((p', w'), route', err)"
  shows "ha_ok p' \<and> ha_disableNamespaceCheck p' = ha_disableNamespaceCheck p"
proof (cases "displacedRoutes p route")
  case (Inl e)
  then show ?thesis using add ok by (cases e) (auto simp: addRoute_def Let_def)
next
  case (Inr D)
  let ?route = "if rt_WildcardPolicy route = [] then route\<lparr>rt_WildcardPolicy := WildcardPolicyNone\<rparr> else route"
  have same: "rt_Host ?route = rt_Host route" "domain_of ?route = domain_of route"
    "rt_Namespace ?route = rt_Namespace route" "is_wildcard ?route = is_wildcard route"
    by (auto simp: domain_of_def is_wildcard_def WildcardPolicyNone_def WildcardPolicySubdomain_def)
  obtain p1 w1 where rem: "remove_displaced C route (p, w) D = (p1, w1)" by fastforce
  have p1: "p1 = fst (remove_displaced C route (p, w) D)" by (simp add: rem)
  have D: "D = conflicts p route" using displacedRoutes_Inr [OF Inr] by simp
  note displaced = ha_ok_displaced [OF ok D p1]
  have "ha_ok (fst (claim_route p1 ?route))"
    by (rule ha_ok_claim [OF displaced(1)]) (use displaced(2,3) same in auto)
  moreover have "p' = fst (claim_route p1 ?route)"
    using add by (auto simp: addRoute_def Inr rem Let_def split: prod.splits option.splits)
  ultimately show ?thesis using displaced(2) by simp
qed

lemma forget_route_fields [simp]:
  "ha_disableNamespaceCheck (forget_route p r) = ha_disableNamespaceCheck p"
  by (simp add: forget_route_def Let_def)

lemma ha_HandleRoute_ok:
  assumes "ha_ok p" "ha_HandleRoute C (p, w) eventType route = ((p', w'), res)"
  shows "ha_ok p' \<and> ha_disableNamespaceCheck p' = ha_disableNamespaceCheck p"
  using assms
  by (auto simp: ha_HandleRoute_def Let_def ha_ok_forget
      split: option.splits prod.splits event_type.splits if_splits dest: addRoute_ok)

lemma ha_handle_ok:
  assumes "ha_ok p" "ha_handle C (p, w) ev = ((p', w'), res)"
  shows "ha_ok p' \<and> ha_disableNamespaceCheck p' = ha_disableNamespaceCheck p"
  using assms
  by (cases ev)
    (auto simp: ha_handle_def Let_def split: prod.splits dest: ha_HandleRoute_ok)

inductive ha_reach ::
  "'w router_chain \<Rightarrow> (route \<Rightarrow> go_error option) \<Rightarrow> bool \<Rightarrow> bool \<Rightarrow> host_admitter \<Rightarrow> 'w \<Rightarrow> bool"
  for C fn allowWildcards noCheck where
  new: "ha_reach C fn allowWildcards noCheck (NewHostAdmitter fn allowWildcards noCheck) w"
| call: "ha_reach C fn allowWildcards noCheck p w \<Longrightarrow> ha_handle C (p, w) ev = ((p', w'), res) \<Longrightarrow>
    ha_reach C fn allowWildcards noCheck p' w'"

lemma rm_get_Nil [simp]: "rm_get [] k = []"
  by (simp add: rm_get_def)

lemma ha_reach_ok:
  "ha_reach C fn a noCheck p w \<Longrightarrow> ha_ok p \<and> ha_disableNamespaceCheck p = noCheck"
proof (induction rule: ha_reach.induct)
  case (call p w ev p' w' res)
  then show ?case using ha_handle_ok [of p C w ev p' w' res] by auto
qed (simp add: NewHostAdmitter_def ha_ok_def routes.keyed_def isolated_def in_namespace_def)

section \<open>Properties of the plugin\<close>

text \<open>
  C23: with the namespace check on, in every state the plugin reaches all routes that claim a host
  are of one namespace, and, when the wildcards of a domain are claimed, all routes that claim them or
  block them are of one namespace.  Every route that claims a host, claims wildcards or blocks wildcards
  is filed under its own host or domain, the oldest first.  Routes that block the wildcards of a domain
  that nobody claims may be of several namespaces.
\<close>

theorem claims_isolate_namespaces:
  assumes "ha_reach C fn allowWildcards False p w"
  shows "(r \<in> set (rm_get (ha_claimedHosts p) h) \<and> s \<in> set (rm_get (ha_claimedHosts p) h) \<longrightarrow>
        rt_Namespace r = rt_Namespace s \<and> rt_Host r = h) \<and>
    (r \<in> set (rm_get (ha_claimedWildcards p) d) \<and>
     s \<in> set (rm_get (ha_claimedWildcards p) d) \<union> set (rm_get (ha_blockedWildcards p) d) \<longrightarrow>
        rt_Namespace r = rt_Namespace s) \<and>
    (r \<in> set (rm_get (ha_claimedWildcards p) d) \<union> set (rm_get (ha_blockedWildcards p) d) \<longrightarrow>
        GetDomainForHost (rt_Host r) = d) \<and>
    sorted (map age_of (rm_get (ha_claimedHosts p) h)) \<and>
    sorted (map age_of (rm_get (ha_claimedWildcards p) d)) \<and>
    sorted (map age_of (rm_get (ha_blockedWildcards p) d))"
proof -
  have ok: "ha_ok p" "\<not> ha_disableNamespaceCheck p" using ha_reach_ok [OF assms] by auto
  then have keyed: "routes.keyed rt_Host (ha_claimedHosts p)" "routes.keyed domain_of (ha_claimedWildcards p)"
      "routes.keyed domain_of (ha_blockedWildcards p)"
    and iso: "isolated (ha_claimedHosts p) (ha_claimedWildcards p) (ha_blockedWildcards p)"
    by (auto simp: ha_ok_def)
  obtain n where n: "in_namespace n (rm_get (ha_claimedHosts p) h)"
    using iso unfolding isolated_def by blast
  obtain m where m: "rm_get (ha_claimedWildcards p) d = [] \<or>
      in_namespace m (rm_get (ha_claimedWildcards p) d) \<and> in_namespace m (rm_get (ha_blockedWildcards p) d)"
    using iso unfolding isolated_def by blast
  have "rt_Namespace r = rt_Namespace s \<and> rt_Host r = h"
    if "r \<in> set (rm_get (ha_claimedHosts p) h)" "s \<in> set (rm_get (ha_claimedHosts p) h)"
    using that n routes.keyedD [OF keyed(1)] by (simp add: in_namespace_def)
  moreover have "rt_Namespace r = rt_Namespace s"
    if "r \<in> set (rm_get (ha_claimedWildcards p) d)"
      "s \<in> set (rm_get (ha_claimedWildcards p) d) \<union> set (rm_get (ha_blockedWildcards p) d)"
    using that m by (auto simp: in_namespace_def)
  moreover have "GetDomainForHost (rt_Host r) = d"
    if "r \<in> set (rm_get (ha_claimedWildcards p) d) \<union> set (rm_get (ha_blockedWildcards p) d)"
    using that routes.keyedD [OF keyed(2)] routes.keyedD [OF keyed(3)] by (auto simp: domain_of_def)
  ultimately show ?thesis using keyed by (simp add: routes.keyed_def)
qed

text \<open>Runs over the recording chain, from a new plugin that allows wildcards.\<close>

fun ha_run :: "host_admitter \<times> router_call list \<Rightarrow> plugin_event list \<Rightarrow> host_admitter \<times> router_call list" where
  "ha_run pw [] = pw"
| "ha_run pw (ev # evs) = ha_run (fst (ha_handle recording_chain pw ev)) evs"

definition ha_new :: host_admitter where
  "ha_new = NewHostAdmitter (\<lambda>_. None) True False"

lemma ha_run_reach:
  "ha_reach recording_chain fn a c p w \<Longrightarrow>
   ha_reach recording_chain fn a c (fst (ha_run (p, w) evs)) (snd (ha_run (p, w) evs))"
proof (induction evs arbitrary: p w)
  case (Cons ev evs)
  obtain p' w' res where step: "ha_handle recording_chain (p, w) ev = ((p', w'), res)" by (metis prod.exhaust)
  show ?case using Cons.IH [OF ha_reach.call [OF Cons.prems step]] by (simp add: step)
qed simp

theorem claims_isolate_namespaces_witness:
  "let p = fst (ha_run (ha_new, []) [HandleRoute Added (sample_route ''a'' ''r'' 1 ''w.acme.test'' [] ''Subdomain'')]);
       r = sample_route ''a'' ''r'' 1 ''w.acme.test'' [] ''Subdomain''
   in r \<in> set (rm_get (ha_claimedWildcards p) ''acme.test'') \<and> GetDomainForHost (rt_Host r) = ''acme.test''"
proof -
  let ?r = "sample_route ''a'' ''r'' 1 ''w.acme.test'' [] ''Subdomain''"
  let ?pw = "ha_run (ha_new, []) [HandleRoute Added ?r]"
  have "ha_reach recording_chain (\<lambda>_. None) True False (fst ?pw) (snd ?pw)"
    unfolding ha_new_def by (rule ha_run_reach [OF ha_reach.new])
  moreover have "?r \<in> set (rm_get (ha_claimedWildcards (fst ?pw)) ''acme.test'')" by code_simp
  ultimately show ?thesis
    using claims_isolate_namespaces [of _ _ _ "fst ?pw" "snd ?pw" ?r _ ?r "''acme.test''"] by (simp add: Let_def)
qed

text \<open>
  A route that moves to another host keeps its claim on the old one, which nothing but deleting
  the route under its old host ends: a route of another namespace is refused the host although no
  route serves it, even after the moved route is deleted.
\<close>

theorem moved_route_keeps_old_host:
  "let r = sample_route ''a'' ''r'' 1 ''h.acme.test'' [] ''None'';
       moved = sample_route ''a'' ''r'' 1 ''g.acme.test'' [] ''None'';
       other = sample_route ''b'' ''s'' 2 ''h.acme.test'' [] ''None''
   in snd (ha_run (ha_new, [])
        [HandleRoute Added r, HandleRoute Modified moved, HandleRoute Deleted moved, HandleRoute Added other]) =
      [Sent (HandleRoute Added r), Sent (HandleRoute Modified moved), Sent (HandleRoute Deleted moved),
       Rejected other ''HostAlreadyClaimed''
         (Errorf ''a route in another namespace holds host %s'' [''h.acme.test''])]"
  by code_simp

end
