(* ===== verification/Router_Chain.thy ===== *)
theory Router_Chain
  imports Unique_Host Host_Admitter
begin

text \<open>
  How the router finds the host of a route (\<open>cmd/infra/router/router.go\<close> and
  \<open>cmd/util/variable/variable.go\<close>), and the chain that \<open>cmd/infra/router/template.go\<close> builds: the host admitter, with the admission
  function of the router's options, in front of the unique host plugin, in front of the rest of the
  router, which is a parameter.  A panic of the unique host plugin is the world \<open>None\<close>.
\<close>

section \<open>The host of a route\<close>

text \<open>
  \<open>os.Expand\<close> cuts a string into text and the names that follow a dollar sign: \<open>getShellName\<close> gives the
  name and how much of the text it takes.
\<close>

definition isShellSpecialVar :: "char \<Rightarrow> bool" where
  "isShellSpecialVar c \<longleftrightarrow> c \<in> set ''*#$@!?0123456789''"

definition isAlphaNum :: "char \<Rightarrow> bool" where
  "isAlphaNum c \<longleftrightarrow> c = CHR ''_'' \<or> c \<in> set ''0123456789'' \<or>
     c \<in> set ''abcdefghijklmnopqrstuvwxyz'' \<or> c \<in> set ''ABCDEFGHIJKLMNOPQRSTUVWXYZ''"

definition getShellName :: "string \<Rightarrow> string \<times> nat" where
  "getShellName s =
     (if hd s = CHR ''{'' then
        (if length s > 2 \<and> isShellSpecialVar (s ! 1) \<and> s ! 2 = CHR ''}'' then ([s ! 1], 3)
         else (case first_index (CHR ''}'') (tl s) of
                 Some i \<Rightarrow> (take i (tl s), i + 2)
               | None \<Rightarrow> ([], 1)))
      else if isShellSpecialVar (hd s) then ([hd s], 1)
      else (let name = takeWhile isAlphaNum s in (name, length name)))"

datatype expand_part = Text char | Key string

function expand_parts :: "string \<Rightarrow> expand_part list" where
  "expand_parts [] = []"
| "expand_parts (c # cs) =
     (if c = CHR ''$'' \<and> cs \<noteq> []
      then (let (name, w) = getShellName cs in Key name # expand_parts (drop w cs))
      else Text c # expand_parts cs)"
  by pat_completeness auto
termination
  by (relation "measure length") auto

text \<open>The keys are looked up in each function in turn; those none of them knows are an error.\<close>

fun key_value :: "(string \<Rightarrow> string option) list \<Rightarrow> string \<Rightarrow> string option" where
  "key_value [] key = None"
| "key_value (fn # fns) key = (case fn key of None \<Rightarrow> key_value fns key | Some val \<Rightarrow> Some val)"

definition expand_part_text :: "(string \<Rightarrow> string option) list \<Rightarrow> expand_part \<Rightarrow> string" where
  "expand_part_text fns part =
     (case part of Text c \<Rightarrow> [c] | Key key \<Rightarrow> (case key_value fns key of None \<Rightarrow> [] | Some val \<Rightarrow> val))"

definition expand_unmatched :: "(string \<Rightarrow> string option) list \<Rightarrow> expand_part list \<Rightarrow> string list" where
  "expand_unmatched fns parts =
     concat (map (\<lambda>part. case part of Text c \<Rightarrow> [] | Key key \<Rightarrow> if key_value fns key = None then [key] else []) parts)"

definition ExpandStrict :: "string \<Rightarrow> (string \<Rightarrow> string option) list \<Rightarrow> go_error + string" where
  "ExpandStrict s fns =
     (let parts = expand_parts s; result = concat (map (expand_part_text fns) parts)
      in (case expand_unmatched fns parts of
            [] \<Rightarrow> Inr result
          | [key] \<Rightarrow> Inl (Errorf ''the key %q in %q is not recognized'' [key, s])
          | unmatched \<Rightarrow> Inl (Errorf ''multiple keys in %q were not recognized: %s'' [s, join_with '', '' unmatched])))"

definition IsGeneratedRouteName :: "string \<Rightarrow> bool" where
  "IsGeneratedRouteName name \<longleftrightarrow> CHR ''/'' \<in> set name"

definition GetNameForHost :: "string \<Rightarrow> string" where
  "GetNameForHost name =
     (if IsGeneratedRouteName name then (let nameParts = split_char (CHR ''/'') name in nameParts ! 1) else name)"

definition trim_quotes :: "string \<Rightarrow> string" where
  "trim_quotes s =
     (let quote = (\<lambda>c. c = CHR 0x22 \<or> c = CHR 0x27)
      in rev (dropWhile quote (rev (dropWhile quote s))))"

definition template_host :: "router_selection \<Rightarrow> route \<Rightarrow> string" where
  "template_host sel r =
     (let nameForHost = GetNameForHost (rt_Name r)
      in (case ExpandStrict (rs_HostnameTemplate sel)
              [\<lambda>key. if key = ''name'' then Some nameForHost
                    else if key = ''namespace'' then Some (rt_Namespace r) else None] of
            Inl err \<Rightarrow> []
          | Inr s \<Rightarrow> trim_quotes s))"

definition RouteSelectionFunc :: "router_selection \<Rightarrow> route \<Rightarrow> string" where
  "RouteSelectionFunc sel =
     (if length (rs_HostnameTemplate sel) = 0 then HostForRoute
      else (\<lambda>r. if \<not> rs_OverrideHostname sel \<and> length (rt_Host r) > 0 then rt_Host r else template_host sel r))"

section \<open>The plugins of the chain\<close>

definition uh_chain :: "'w router_chain \<Rightarrow> (unique_host \<times> 'w) option router_chain" where
  "uh_chain C =
     \<lparr>rc_plugin = (\<lambda>pw e.
        (case pw of
           None \<Rightarrow> (None, None)
         | Some pw \<Rightarrow> (case uh_handle C pw e of None \<Rightarrow> (None, None) | Some (pw', res) \<Rightarrow> (Some pw', res)))),
      rc_reject = (\<lambda>pw r reason msg. map_option (\<lambda>(p, w). (p, rc_reject C w r reason msg)) pw)\<rparr>"

definition new_chain ::
  "router_selection \<Rightarrow> bool \<Rightarrow> 'w \<Rightarrow> host_admitter \<times> (unique_host \<times> 'w) option" where
  "new_chain sel noCheck w =
     (NewHostAdmitter (RouteAdmissionFunc sel) (rs_AllowWildcardRoutes sel) noCheck,
      Some (NewUniqueHost (RouteSelectionFunc sel) noCheck, w))"

fun chain_run ::
  "'w router_chain \<Rightarrow> host_admitter \<times> (unique_host \<times> 'w) option \<Rightarrow> plugin_event list \<Rightarrow>
   host_admitter \<times> (unique_host \<times> 'w) option" where
  "chain_run C s [] = s"
| "chain_run C s (ev # evs) = chain_run C (fst (ha_handle (uh_chain C) s ev)) evs"

section \<open>Which hosts a call adds\<close>

text \<open>The hosts the unique host plugin may start tracking on an event.\<close>

definition new_hosts :: "unique_host \<Rightarrow> plugin_event \<Rightarrow> string set" where
  "new_hosts p ev =
     (case ev of
        HandleRoute eventType route \<Rightarrow>
          (if eventType = Deleted \<or> ValidateHostName (route\<lparr>rt_Host := uh_hostForRoute p route\<rparr>) \<noteq> [] then {}
           else {uh_hostForRoute p route} - {[]})
      | _ \<Rightarrow> {})"

definition tracked :: "unique_host \<Rightarrow> string set" where
  "tracked p = fst ` set (uh_hostToRoute p)"

lemma tracked_iff: "h \<in> tracked p \<longleftrightarrow> RoutesForHost p h \<noteq> None"
  by (auto simp: tracked_def RoutesForHost_def map_of_eq_None_iff simp del: not_None_eq)

lemma fst_set_update: "fst ` set (AList.update k v al) = insert k (fst ` set al)"
  by (simp add: AList.dom_update)

lemma fst_set_delete: "fst ` set (AList.delete k al) = fst ` set al - {k}"
  by (auto simp: AList.delete_eq)

lemma tracked_after_claim_deleted:
  assumes "rs \<noteq> []" "distinct (map fst (uh_hostToRoute p))"
    "map_of (uh_hostToRoute p) host = None \<longrightarrow> length rs = 1"
  shows "tracked (after_claim (p\<lparr>uh_hostToRoute := AList.update host rs (uh_hostToRoute p)\<rparr>) Deleted route host)
    \<subseteq> tracked p"
proof (cases "map_of (uh_hostToRoute p) host")
  case None
  then show ?thesis
    using assms
    by (auto simp: after_claim_def Let_def drop_deleted_def tracked_def update_conv' fst_set_delete
        fst_set_update)
next
  case (Some x)
  then have "host \<in> tracked p" by (auto simp: tracked_iff RoutesForHost_def)
  then show ?thesis
    by (auto simp: after_claim_def Let_def drop_deleted_def tracked_def update_conv' fst_set_delete
        fst_set_update split: if_splits)
qed

lemma tracked_after_claim:
  "tracked (after_claim (p\<lparr>uh_hostToRoute := hs\<rparr>) eventType route host)
    \<subseteq> fst ` set hs \<union> tracked p \<union> {host}"
  by (cases eventType)
    (auto simp: after_claim_def Let_def drop_deleted_def tracked_def fst_set_delete fst_set_update
      forget_moved_def split: option.splits if_splits)

lemma uh_HandleRoute_tracked:
  assumes run: "uh_HandleRoute C (p, w) eventType route0 = Some ((p', w'), res)" and ok: "uh_ok p"
  shows "tracked p' \<subseteq> tracked p \<union> new_hosts p (HandleRoute eventType route0) \<and>
    uh_hostForRoute p' = uh_hostForRoute p"
proof -
  let ?host = "uh_hostForRoute p route0"
  let ?route = "route0\<lparr>rt_Host := ?host\<rparr>"
  let ?claim = "claim_host (uh_disableOwnershipCheck p) ?host ?route (map_of (uh_hostToRoute p) ?host)"
  consider "p' = p" | routes cs err where "?claim = Some (routes, cs, err)" "?host \<noteq> []"
      "ValidateHostName ?route = []"
      "p' = p\<lparr>uh_hostToRoute := AList.update ?host routes (uh_hostToRoute p)\<rparr> \<and> err \<noteq> None \<or>
       p' = after_claim (p\<lparr>uh_hostToRoute := AList.update ?host routes (uh_hostToRoute p)\<rparr>) eventType ?route ?host"
    using run by (auto simp: uh_HandleRoute_def Let_def split: if_splits option.splits prod.splits)
  then show ?thesis
  proof cases
    case 1
    then show ?thesis by auto
  next
    case (2 routes cs err)
    have upd: "fst ` set (AList.update ?host routes (uh_hostToRoute p)) = insert ?host (tracked p)"
      by (simp add: fst_set_update tracked_def)
    have fn: "uh_hostForRoute p' = uh_hostForRoute p" using 2(4) by auto
    have free: "map_of (uh_hostToRoute p) ?host = None \<Longrightarrow> err = None \<and> length routes = 1"
      using 2(1) by (auto simp: claim_host_def)
    show ?thesis
    proof (cases "map_of (uh_hostToRoute p) ?host = None \<and> eventType = Deleted")
      case True
      then have "p' = after_claim (p\<lparr>uh_hostToRoute := AList.update ?host routes (uh_hostToRoute p)\<rparr>)
          Deleted ?route ?host"
        using 2(4) free by auto
      moreover have "routes \<noteq> []" "distinct (map fst (uh_hostToRoute p))"
        using free True ok by (auto simp: uh_ok_def)
      ultimately have "tracked p' \<subseteq> tracked p"
        using tracked_after_claim_deleted [of routes p ?host] free by simp
      then show ?thesis using fn by blast
    next
      case False
      have "tracked p' \<subseteq> insert ?host (tracked p)"
        using 2(4)
      proof (elim disjE conjE)
        assume "p' = p\<lparr>uh_hostToRoute := AList.update ?host routes (uh_hostToRoute p)\<rparr>"
        then have "tracked p' = fst ` set (AList.update ?host routes (uh_hostToRoute p))"
          by (simp add: tracked_def)
        then show ?thesis using upd by simp
      next
        assume "p' = after_claim (p\<lparr>uh_hostToRoute := AList.update ?host routes (uh_hostToRoute p)\<rparr>)
          eventType ?route ?host"
        then show ?thesis
          using tracked_after_claim [of "AList.update ?host routes (uh_hostToRoute p)" p eventType ?route ?host]
          by (simp add: upd)
      qed
      moreover have "?host \<in> tracked p \<or> ?host \<in> new_hosts p (HandleRoute eventType route0)"
        using False 2(2,3) by (auto simp: new_hosts_def tracked_iff RoutesForHost_def)
      ultimately show ?thesis using fn by auto
    qed
  qed
qed

lemma uh_HandleNamespaces_tracked:
  assumes "uh_HandleNamespaces C (p, w) ns = Some ((p', w'), res)" "uh_ok p"
  shows "tracked p' \<subseteq> tracked p \<and> uh_hostForRoute p' = uh_hostForRoute p"
proof -
  have "\<forall>(h, rs) \<in> set (uh_hostToRoute p). rs \<noteq> []" using assms(2) by (auto simp: uh_ok_def host_ok_def)
  from namespaces_loop_spec [OF this, of ns "uh_routeToHost p" False]
  show ?thesis
    using assms(1) by (auto simp: uh_HandleNamespaces_def tracked_def Let_def image_iff split: prod.splits if_splits)
      force+
qed

lemma uh_handle_tracked:
  assumes "uh_handle C (p, w) ev = Some ((p', w'), res)" "uh_ok p"
  shows "tracked p' \<subseteq> tracked p \<union> new_hosts p ev \<and> uh_hostForRoute p' = uh_hostForRoute p"
  using assms uh_HandleRoute_tracked [OF _ assms(2)] uh_HandleNamespaces_tracked [OF _ assms(2)]
  by (cases ev)
    (fastforce simp: uh_handle_def uh_HandleEndpoints_def Let_def split: prod.splits if_splits)+

section \<open>The chain\<close>

text \<open>
  The state of the chain: no panic has happened, both plugins are in a good state, and every host the
  unique host plugin tracks is a valid name, found for a route that the domain lists admit.
\<close>

definition admitted_host :: "router_selection \<Rightarrow> string \<Rightarrow> bool" where
  "admitted_host sel h \<longleftrightarrow> h \<noteq> [] \<and>
     (\<exists>r. RouteSelectionFunc sel r = h \<and> ValidateHostName (r\<lparr>rt_Host := h\<rparr>) = [] \<and> AdmissionCheck sel r = None)"

definition world_ok :: "router_selection \<Rightarrow> bool \<Rightarrow> (unique_host \<times> 'w) option \<Rightarrow> bool" where
  "world_ok sel noCheck pw \<longleftrightarrow>
     (\<exists>p w. pw = Some (p, w) \<and> uh_ok p \<and> uh_disableOwnershipCheck p = noCheck \<and>
        uh_hostForRoute p = RouteSelectionFunc sel \<and> (\<forall>h \<in> tracked p. admitted_host sel h))"

lemma world_ok_reject:
  "world_ok sel noCheck pw \<Longrightarrow> world_ok sel noCheck (rc_reject (uh_chain C) pw r reason msg)"
  by (auto simp: world_ok_def uh_chain_def)

lemma world_ok_plugin:
  assumes "world_ok sel noCheck pw"
    and "\<And>t r. ev = HandleRoute t r \<Longrightarrow> t = Deleted \<or> RouteAdmissionFunc sel r = None"
  shows "world_ok sel noCheck (fst (rc_plugin (uh_chain C) pw ev))"
proof -
  obtain p w where pw: "pw = Some (p, w)" and ok: "uh_ok p" "uh_disableOwnershipCheck p = noCheck"
    "uh_hostForRoute p = RouteSelectionFunc sel" "\<forall>h \<in> tracked p. admitted_host sel h"
    using assms(1) by (auto simp: world_ok_def)
  obtain p' w' res where run: "uh_handle C (p, w) ev = Some ((p', w'), res)"
    and ok': "uh_ok p'" "uh_disableOwnershipCheck p' = uh_disableOwnershipCheck p"
    using uh_handle_ok [OF ok(1), of C w ev] by blast
  have "\<forall>h \<in> new_hosts p ev. admitted_host sel h"
    using assms(2) ok(3)
    by (force simp: new_hosts_def admitted_host_def RouteAdmissionFunc_def
        split: plugin_event.splits option.splits if_splits)
  then have "\<forall>h \<in> tracked p'. admitted_host sel h"
    using uh_handle_tracked [OF run ok(1)] ok(4) by blast
  moreover have "uh_hostForRoute p' = RouteSelectionFunc sel" using uh_handle_tracked [OF run ok(1)] ok(3) by simp
  ultimately show ?thesis using ok ok' by (simp add: world_ok_def uh_chain_def pw run)
qed

lemma remove_displaced_world:
  "world_ok sel noCheck pw \<Longrightarrow> world_ok sel noCheck (snd (remove_displaced (uh_chain C) route (p, pw) rs))"
proof (induction rs arbitrary: p pw)
  case (Cons r rs)
  show ?case
    using Cons.IH world_ok_plugin [OF world_ok_reject [OF Cons.prems], of "HandleRoute Deleted r"] by simp
qed simp

lemma addRoute_world:
  "world_ok sel noCheck pw \<Longrightarrow> world_ok sel noCheck (snd (fst (addRoute (uh_chain C) (p, pw) route)))"
  using remove_displaced_world [of sel noCheck pw C route p]
  by (auto simp: addRoute_def Let_def world_ok_reject split_beta split: sum.splits option.splits)

lemma addRoute_route:
  "addRoute C pw route = (pw', route', err) \<Longrightarrow> rt_WildcardPolicy route \<noteq> [] \<Longrightarrow> route' = route"
  by (auto simp: addRoute_def Let_def split: prod.splits sum.splits option.splits)

lemma admitted_policy: "RouteAdmissionFunc sel r = None \<Longrightarrow> rt_WildcardPolicy r \<noteq> []"
  by (auto simp: RouteAdmissionFunc_def WildcardPolicyNone_def WildcardPolicySubdomain_def
      split: option.splits if_splits)

lemma ha_HandleRoute_world:
  assumes ok: "world_ok sel noCheck pw" and admitter: "ha_admitter p = RouteAdmissionFunc sel"
  shows "world_ok sel noCheck (snd (fst (ha_HandleRoute (uh_chain C) (p, pw) t r)))"
proof (cases "RouteAdmissionFunc sel r")
  case (Some e)
  then show ?thesis using ok by (simp add: ha_HandleRoute_def admitter world_ok_reject)
next
  case None
  have send: "world_ok sel noCheck (fst (rc_plugin (uh_chain C) pw' (HandleRoute t r)))"
    if "world_ok sel noCheck pw'" for pw'
    using world_ok_plugin [OF that, of "HandleRoute t r"] None by simp
  obtain p1 pw1 r1 err where add: "addRoute (uh_chain C) (p, pw) r = ((p1, pw1), r1, err)" by (metis prod.exhaust)
  have "world_ok sel noCheck pw1" using addRoute_world [OF ok, of C p r] by (simp add: add)
  moreover have "r1 = r" using addRoute_route [OF add admitted_policy [OF None]] .
  ultimately show ?thesis
    using ok send by (auto simp: ha_HandleRoute_def admitter None add Let_def split_beta
        split: option.splits event_type.splits)
qed

lemma ha_handle_world:
  assumes "world_ok sel noCheck pw" "ha_admitter p = RouteAdmissionFunc sel"
  shows "world_ok sel noCheck (snd (fst (ha_handle (uh_chain C) (p, pw) ev)))"
  using ha_HandleRoute_world [OF assms] world_ok_plugin [OF assms(1), of ev C]
  by (cases ev) (auto simp: ha_handle_def Let_def split_beta)

lemma remove_displaced_admitter:
  "ha_admitter (fst (remove_displaced C route (p, w) rs)) = ha_admitter p"
  by (simp add: remove_displaced_state)

lemma addRoute_admitter:
  "ha_admitter (fst (fst (addRoute C (p, w) route))) = ha_admitter p"
  using remove_displaced_admitter [of C route p w]
  by (auto simp: addRoute_def Let_def split_beta claim_route_def forget_route_def
      split: sum.splits option.splits)

lemma ha_handle_admitter:
  "ha_admitter (fst (fst (ha_handle C (p, w) ev))) = ha_admitter p"
  using addRoute_admitter [of C p w]
  by (cases ev)
    (auto simp: ha_handle_def ha_HandleRoute_def Let_def split_beta forget_route_def
      split: option.splits event_type.splits)

lemma chain_run_reach:
  assumes "ha_reach (uh_chain C) (RouteAdmissionFunc sel) a noCheck p pw" "world_ok sel noCheck pw"
    "ha_admitter p = RouteAdmissionFunc sel" "chain_run C (p, pw) evs = (p', pw')"
  shows "ha_reach (uh_chain C) (RouteAdmissionFunc sel) a noCheck p' pw' \<and> world_ok sel noCheck pw'"
  using assms
proof (induction evs arbitrary: p pw)
  case (Cons ev evs)
  obtain p1 pw1 res where step: "ha_handle (uh_chain C) (p, pw) ev = ((p1, pw1), res)" by (metis prod.exhaust)
  show ?case
    using Cons.IH [of p1 pw1] Cons.prems ha_reach.call [OF Cons.prems(1) step]
      ha_handle_world [OF Cons.prems(2,3), of C ev] ha_handle_admitter [of "uh_chain C" p pw ev]
    by (simp add: step)
qed simp

lemma new_chain_run:
  assumes "chain_run C (new_chain sel noCheck w) evs = (p, pw)"
  shows "ha_reach (uh_chain C) (RouteAdmissionFunc sel) (rs_AllowWildcardRoutes sel) noCheck p pw \<and>
    world_ok sel noCheck pw"
proof (rule chain_run_reach [OF ha_reach.new])
  show "world_ok sel noCheck (Some (NewUniqueHost (RouteSelectionFunc sel) noCheck, w))"
    by (simp add: world_ok_def NewUniqueHost_def uh_ok_def tracked_def)
qed (use assms in \<open>auto simp: new_chain_def NewHostAdmitter_def\<close>)

text \<open>The check of a host name looks at the host only, and the domain lists at the host of the spec.\<close>

lemma ValidateHostName_host: "rt_Host r = rt_Host r' \<Longrightarrow> ValidateHostName r = ValidateHostName r'"
  by (simp add: ValidateHostName_def)

lemma admitted_host_valid:
  assumes "admitted_host sel h"
  shows "h \<noteq> [] \<and> (\<forall>r. rt_Host r = h \<longrightarrow> ValidateHostName r = [])"
proof -
  obtain r0 where r0: "ValidateHostName (r0\<lparr>rt_Host := h\<rparr>) = []" and h: "h \<noteq> []"
    using assms by (auto simp: admitted_host_def)
  have "ValidateHostName r = []" if "rt_Host r = h" for r
    using ValidateHostName_host [of r "r0\<lparr>rt_Host := h\<rparr>"] r0 that by simp
  then show ?thesis using h by simp
qed

lemma admitted_host_domains:
  assumes "admitted_host sel h"
  shows "(\<not> (\<exists>d. Has (rs_BlacklistedDomains sel) d \<and> host_in h d) \<and>
      (elems (rs_WhitelistedDomains sel) = [] \<or> (\<exists>d. Has (rs_WhitelistedDomains sel) d \<and> host_in h d))) \<or>
    rs_HostnameTemplate sel \<noteq> [] \<and> (\<exists>r. (rs_OverrideHostname sel \<or> rt_Host r = []) \<and> template_host sel r = h)"
proof -
  obtain r where r: "RouteSelectionFunc sel r = h" "ValidateHostName (r\<lparr>rt_Host := h\<rparr>) = []" "AdmissionCheck sel r = None"
    and h: "h \<noteq> []"
    using assms by (auto simp: admitted_host_def)
  show ?thesis
  proof (cases "rt_Host r = h")
    case True
    then have "ValidateHostName r = []" using r(2) ValidateHostName_host [of r "r\<lparr>rt_Host := h\<rparr>"] by simp
    then show ?thesis using AdmissionCheck_domains [of r sel] r(3) h True by simp
  next
    case False
    then show ?thesis using r(1) by (auto simp: RouteSelectionFunc_def HostForRoute_def split: if_splits)
  qed
qed

text \<open>
  C20: the two plugins together, built with the options of the router, after any events and whatever the
  rest of the router answers.  No call panics, and every host that the unique host plugin tracks is a
  valid name.  It lies in no denied domain and, with a list of allowed domains, in one of them, unless
  it was made from the host name template of the options, which the domain lists do not see.  With the
  ownership check on, all the routes of a host are of one namespace.
\<close>

theorem chain_tracks_admitted_hosts:
  assumes "chain_run C (new_chain sel noCheck w) evs = (p, pw)"
  shows "\<exists>u w'. pw = Some (u, w') \<and>
    (\<forall>h rs. RoutesForHost u h = Some rs \<longrightarrow>
       h \<noteq> [] \<and> (\<forall>r. rt_Host r = h \<longrightarrow> ValidateHostName r = []) \<and>
       (\<not> (\<exists>d. Has (rs_BlacklistedDomains sel) d \<and> host_in h d) \<and>
        (elems (rs_WhitelistedDomains sel) = [] \<or> (\<exists>d. Has (rs_WhitelistedDomains sel) d \<and> host_in h d)) \<or>
        rs_HostnameTemplate sel \<noteq> [] \<and> (\<exists>r. (rs_OverrideHostname sel \<or> rt_Host r = []) \<and> template_host sel r = h)) \<and>
       (noCheck \<or> (\<exists>ns. \<forall>r \<in> set rs. rt_Namespace r = ns)))"
proof -
  obtain u w' where pw: "pw = Some (u, w')" and ok: "uh_ok u" "uh_disableOwnershipCheck u = noCheck"
    and adm: "\<forall>h \<in> tracked u. admitted_host sel h"
    using new_chain_run [OF assms] by (auto simp: world_ok_def)
  have admitted: "admitted_host sel h" if "RoutesForHost u h = Some rs" for h rs
    using adm that tracked_iff [of h u] by auto
  have "h \<noteq> [] \<and> (\<forall>r. rt_Host r = h \<longrightarrow> ValidateHostName r = [])" if "RoutesForHost u h = Some rs" for h rs
    by (rule admitted_host_valid [OF admitted [OF that]])
  moreover have "noCheck \<or> (\<exists>ns. \<forall>r \<in> set rs. rt_Namespace r = ns)" if "RoutesForHost u h = Some rs" for h rs
    using uh_ok_lookup [OF ok(1), of h rs] that ok(2) by (auto simp: RoutesForHost_def host_ok_def)
  ultimately show ?thesis using admitted_host_domains [OF admitted] pw by blast
qed

theorem chain_tracks_admitted_hosts_witness:
  "let sel = \<lparr>rs_HostnameTemplate = [], rs_OverrideHostname = False, rs_BlacklistedDomains = NewString [''evil.test''], rs_WhitelistedDomains = None,
              rs_AllowWildcardRoutes = True\<rparr>
   in \<exists>u w'. snd (chain_run recording_chain (new_chain sel False [])
        [HandleRoute Added (sample_route ''a'' ''r'' 1 ''w.evil.test'' [] ''None''),
         HandleRoute Added (sample_route ''a'' ''r'' 1 ''w.acme.test'' [] ''None'')]) = Some (u, w') \<and>
      RoutesForHost u ''w.evil.test'' = None"
proof -
  let ?sel = "\<lparr>rs_HostnameTemplate = [], rs_OverrideHostname = False, rs_BlacklistedDomains = NewString [''evil.test''], rs_WhitelistedDomains = None,
      rs_AllowWildcardRoutes = True\<rparr>"
  let ?evs = "[HandleRoute Added (sample_route ''a'' ''r'' 1 ''w.evil.test'' [] ''None''),
      HandleRoute Added (sample_route ''a'' ''r'' 1 ''w.acme.test'' [] ''None'')]"
  obtain p pw where run: "chain_run recording_chain (new_chain ?sel False []) ?evs = (p, pw)" by fastforce
  have evil: "Has (rs_BlacklistedDomains ?sel) ''evil.test''" by (simp add: gset_simps)
  have below: "host_in ''w.evil.test'' ''evil.test''"
    unfolding host_in_def by (intro disjI2 exI [of _ "''w''"]) simp
  obtain u w' where "pw = Some (u, w')"
    and tracked: "\<And>h rs. RoutesForHost u h = Some rs \<Longrightarrow>
      \<not> (\<exists>d. Has (rs_BlacklistedDomains ?sel) d \<and> host_in h d) \<or> rs_HostnameTemplate ?sel \<noteq> []"
    using chain_tracks_admitted_hosts [OF run] by blast
  moreover have "RoutesForHost u ''w.evil.test'' = None"
    using tracked [of "''w.evil.test''"] evil below by (cases "RoutesForHost u ''w.evil.test''") auto
  ultimately show ?thesis using run unfolding Let_def by (metis snd_conv)
qed

text \<open>
  Hosts made from the template are not compared with the domain lists: a router whose template lies in a
  denied domain still serves a route without a host.
\<close>

definition template_selection :: router_selection where
  "template_selection =
     \<lparr>rs_HostnameTemplate = ''${name}-${namespace}.evil.test'', rs_OverrideHostname = False,
      rs_BlacklistedDomains = NewString [''evil.test''], rs_WhitelistedDomains = None, rs_AllowWildcardRoutes = False\<rparr>"

lemma template_hosts_pass_the_domain_lists:
  "AdmissionCheck template_selection (sample_route ''a'' ''r'' 1 [] [] ''None'') = None \<and>
   RouteSelectionFunc template_selection (sample_route ''a'' ''r'' 1 [] [] ''None'') = ''r-a.evil.test'' \<and>
   AdmissionCheck template_selection (sample_route ''a'' ''r'' 1 ''r-a.evil.test'' [] ''None'') \<noteq> None"
  by code_simp

end
