(* ===== verification/Go_Numbers.thy ===== *)
theory Go_Numbers
  imports Go_Prelude "HOL-Library.Word"
begin

text \<open>
  Numbers as text: what the program uses of Go's \<open>strconv\<close> and of the \<open>%d\<close> verb of
  \<open>fmt\<close>.  Printing is \<open>decimal\<close>, \<open>Atoi\<close> is the 64-bit one, and \<open>scan_uint32\<close> is the
  \<open>%d\<close> of \<open>fmt.Sscanf\<close> for an operand of type \<open>uint32\<close>, which returns the rest of the input.
\<close>

named_theorems number_text \<open>printing and parsing of numbers\<close>

definition digit_char :: "nat \<Rightarrow> char" where
  "digit_char d = char_of (48 + d)"

definition is_digit :: "char \<Rightarrow> bool" where
  "is_digit c \<longleftrightarrow> 48 \<le> (of_char c :: nat) \<and> (of_char c :: nat) \<le> 57"

definition digit_value :: "char \<Rightarrow> nat" where
  "digit_value c = of_char c - 48"

fun decimal :: "nat \<Rightarrow> string" where
  "decimal n = (if n < 10 then [digit_char n] else decimal (n div 10) @ [digit_char (n mod 10)])"

declare decimal.simps [simp del]

definition digits_value :: "string \<Rightarrow> nat" where
  "digits_value s = foldl (\<lambda>acc c. acc * 10 + digit_value c) 0 s"

lemma digit_char_simps [simp]:
  "d < 10 \<Longrightarrow> is_digit (digit_char d)"
  "d < 10 \<Longrightarrow> digit_value (digit_char d) = d"
proof -
  assume "d < 10"
  then have "(of_char (digit_char d) :: nat) = 48 + d"
    by (simp add: digit_char_def)
  with \<open>d < 10\<close> show "is_digit (digit_char d)" "digit_value (digit_char d) = d"
    by (simp_all add: is_digit_def digit_value_def)
qed

lemma decimal_digits [simp]: "list_all is_digit (decimal n)"
proof (induction n rule: decimal.induct)
  case (1 n)
  then show ?case
    by (cases "n < 10") (simp_all add: decimal.simps [of n])
qed

lemma decimal_not_Nil [simp]: "decimal n \<noteq> []"
  by (simp add: decimal.simps [of n])

lemma digits_value_decimal [number_text]: "digits_value (decimal n) = n"
proof (induction n rule: decimal.induct)
  case (1 n)
  then show ?case
    by (cases "n < 10") (simp_all add: decimal.simps [of n] digits_value_def)
qed

lemma decimal_inject [simp]: "decimal m = decimal n \<longleftrightarrow> m = n"
  by (metis digits_value_decimal)

lemma decimal_no_char: "\<not> is_digit c \<Longrightarrow> c \<notin> set (decimal n)"
  using decimal_digits [of n] by (auto simp: list_all_iff)

lemma decimal_hd_digit [simp]: "is_digit (hd (decimal n))"
  using decimal_digits [of n] by (cases "decimal n") auto

text \<open>
  \<open>strconv.ParseInt(s, 10, 64)\<close>: an optional sign and at least one digit.  The value comes with
  the error: 0 for a syntax error, the nearest 64-bit integer when the number is out of range.  A
  number too large for 64 bits is reported as such before the rest of the text is looked at.
  \<open>Atoi\<close> is the same for an \<open>int\<close> of 64 bits; its callers use the value only without an error.
\<close>

definition syntax_error :: "string \<Rightarrow> go_error" where
  "syntax_error s = Errorf ''strconv.ParseInt: parsing %q: invalid syntax'' [s]"

definition range_error :: "string \<Rightarrow> go_error" where
  "range_error s = Errorf ''strconv.ParseInt: parsing %q: value out of range'' [s]"

definition ParseInt :: "string \<Rightarrow> int \<times> go_error option" where
  "ParseInt s =
     (let neg = (s \<noteq> [] \<and> hd s = CHR ''-'');
          body = (if s \<noteq> [] \<and> (hd s = CHR ''-'' \<or> hd s = CHR ''+'') then tl s else s);
          ds = takeWhile is_digit body;
          v = int (digits_value ds)
      in if v \<ge> 2 ^ 64 then (if neg then - (2 ^ 63) else 2 ^ 63 - 1, Some (range_error s))
         else if body = [] \<or> ds \<noteq> body then (0, Some (syntax_error s))
         else if \<not> neg \<and> v \<ge> 2 ^ 63 then (2 ^ 63 - 1, Some (range_error s))
         else if neg \<and> v > 2 ^ 63 then (- (2 ^ 63), Some (range_error s))
         else (if neg then - v else v, None))"

definition Atoi :: "string \<Rightarrow> go_error + int" where
  "Atoi s = (case ParseInt s of (v, None) \<Rightarrow> Inr v | (v, Some e) \<Rightarrow> Inl e)"

lemma sign_not_digit [simp]: "\<not> is_digit CHR ''-''" "\<not> is_digit CHR ''+''"
  by (simp_all add: is_digit_def)

lemma takeWhile_decimal_all [simp]: "takeWhile is_digit (decimal n) = decimal n"
  using decimal_digits [of n] by (simp add: list_all_iff takeWhile_eq_all_conv)

lemma ParseInt_decimal [number_text]: "n < 2 ^ 63 \<Longrightarrow> ParseInt (decimal n) = (int n, None)"
proof -
  assume n: "n < 2 ^ 63"
  have sign: "hd (decimal n) \<noteq> CHR ''-''" "hd (decimal n) \<noteq> CHR ''+''"
    by (metis decimal_hd_digit sign_not_digit(1), metis decimal_hd_digit sign_not_digit(2))
  have "\<not> (2::int) ^ 63 \<le> int n" "\<not> (2::int) ^ 64 \<le> int n"
    using n by (simp_all add: not_le)
  then show ?thesis
    by (simp add: ParseInt_def Let_def sign digits_value_decimal)
qed

lemma ParseInt_range: "- (2 ^ 63) \<le> fst (ParseInt s) \<and> fst (ParseInt s) < 2 ^ 63"
  by (simp add: ParseInt_def Let_def)

lemma Atoi_decimal [number_text]: "n < 2 ^ 63 \<Longrightarrow> Atoi (decimal n) = Inr (int n)"
  by (simp add: Atoi_def ParseInt_decimal)

text \<open>
  \<open>fmt.Sscanf\<close> with \<open>%d\<close> into a \<open>uint32\<close>: blanks are skipped, the longest run of digits is
  read, an empty run or a value over 32 bits is an error.
\<close>

definition scan_error :: "string \<Rightarrow> go_error" where
  "scan_error s = Errorf ''unexpected input %q'' [s]"

definition scan_uint32 :: "string \<Rightarrow> go_error + 32 word \<times> string" where
  "scan_uint32 s =
     (let t = dropWhile (\<lambda>c. c = CHR '' '' \<or> c = CHR 0x09) s;
          ds = takeWhile is_digit t
      in if ds = [] \<or> digits_value ds \<ge> 2 ^ 32 then Inl (scan_error s)
         else Inr (of_nat (digits_value ds), dropWhile is_digit t))"

text \<open>A literal byte of the format must be the next byte of the input.\<close>

definition scan_char :: "char \<Rightarrow> string \<Rightarrow> go_error + string" where
  "scan_char c s = (if s \<noteq> [] \<and> hd s = c then Inr (tl s) else Inl (scan_error s))"

lemma takeWhile_decimal:
  "rest = [] \<or> \<not> is_digit (hd rest) \<Longrightarrow> takeWhile is_digit (decimal n @ rest) = decimal n"
  "rest = [] \<or> \<not> is_digit (hd rest) \<Longrightarrow> dropWhile is_digit (decimal n @ rest) = rest"
  using decimal_digits [of n]
  by (auto simp: list_all_iff takeWhile_append dropWhile_append takeWhile_eq_all_conv)
    (metis hd_conv_nth list.sel(1) list.set_sel(1) takeWhile.simps takeWhile_eq_Nil_iff
      dropWhile_eq_self_iff)+

lemma scan_uint32_decimal [number_text]:
  assumes "rest = [] \<or> \<not> is_digit (hd rest)"
  shows "scan_uint32 (decimal (unat w) @ rest) = Inr (w, rest)"
proof -
  obtain c cs where d: "decimal (unat w) = c # cs" by (cases "decimal (unat w)") auto
  have "is_digit c" using decimal_hd_digit [of "unat w"] d by simp
  then have blank: "c \<noteq> CHR '' ''" "c \<noteq> CHR 0x09" by (auto simp: is_digit_def)
  have skip: "dropWhile (\<lambda>c. c = CHR '' '' \<or> c = CHR 0x09) (decimal (unat w) @ rest)
      = decimal (unat w) @ rest"
    using blank by (simp add: d)
  have "unat w < 2 ^ 32" by (rule order.strict_trans2 [OF unsigned_less]) simp
  then show ?thesis
    by (simp add: scan_uint32_def skip takeWhile_decimal [OF assms] digits_value_decimal)
qed

text \<open>A scan that starts anywhere and wraps around visits every residue.\<close>

lemma residue_reached: "(x::nat) < m \<Longrightarrow> \<exists>j < m. (d + j) mod m = x"
proof -
  assume x: "x < m"
  have "(d + (x + (m - d mod m)) mod m) mod m = (d mod m + (x + (m - d mod m))) mod m"
    by (metis mod_add_eq mod_mod_trivial)
  also have "\<dots> = x"
  proof -
    have "d mod m < m" using x by simp
    then have "d mod m + (x + (m - d mod m)) = x + m" by simp
    then show ?thesis using x by simp
  qed
  finally have "(d + (x + (m - d mod m)) mod m) mod m = x" .
  moreover have "(x + (m - d mod m)) mod m < m" using x by simp
  ultimately show ?thesis by blast
qed

end
