(* ===== verification/Namer.thy ===== *)
theory Namer
  imports Go_Numbers
begin

text \<open>
  Names with a suffix and a bounded length (\<open>origin/pkg/util/namer/namer.go\<close>), used for the pods of
  builds and deployments.  A slice out of range panics in Go: \<open>None\<close>.  The hash is the FNV-1a hash
  of Go's \<open>hash/fnv\<close> with its 32-bit wrap-around.
\<close>

section \<open>The hash\<close>

definition fnv_offset32 :: "32 word" where "fnv_offset32 = 2166136261"
definition fnv_prime32 :: "32 word" where "fnv_prime32 = 16777619"

definition fnv32a :: "string \<Rightarrow> 32 word" where
  "fnv32a s = foldl (\<lambda>h c. xor h (of_nat (of_char c)) * fnv_prime32) fnv_offset32 s"

definition hex_digit :: "nat \<Rightarrow> char" where
  "hex_digit d = (if d < 10 then char_of (48 + d) else char_of (87 + d))"

text \<open>\<open>%08x\<close>: eight digits are enough for 32 bits.\<close>

fun hex_digits :: "nat \<Rightarrow> nat \<Rightarrow> string" where
  "hex_digits 0 n = []"
| "hex_digits (Suc k) n = hex_digits k (n div 16) @ [hex_digit (n mod 16)]"

definition namer_hash :: "string \<Rightarrow> string" where
  "namer_hash s = hex_digits 8 (unat (fnv32a s))"

lemma length_hex_digits [simp]: "length (hex_digits k n) = k"
  by (induction k arbitrary: n) auto

lemma length_namer_hash [simp]: "length (namer_hash s) = 8"
  by (simp add: namer_hash_def)

lemma hex_digit_inject: "a < 16 \<Longrightarrow> b < 16 \<Longrightarrow> hex_digit a = hex_digit b \<Longrightarrow> a = b"
proof -
  have val: "d < 16 \<Longrightarrow> (of_char (hex_digit d) :: nat) = (if d < 10 then 48 + d else 87 + d)" for d
    by (simp add: hex_digit_def)
  assume "a < 16" "b < 16" "hex_digit a = hex_digit b"
  then have "(if a < 10 then 48 + a else 87 + a) = (if b < 10 then 48 + b else 87 + b)"
    using val [of a] val [of b] by simp
  then show "a = b" using \<open>a < 16\<close> \<open>b < 16\<close> by (auto split: if_splits)
qed

lemma hex_digits_inject:
  "m < 16 ^ k \<Longrightarrow> n < 16 ^ k \<Longrightarrow> hex_digits k m = hex_digits k n \<Longrightarrow> m = n"
proof (induction k arbitrary: m n)
  case (Suc k)
  have "m div 16 < 16 ^ k" "n div 16 < 16 ^ k"
    using Suc.prems by (simp_all add: less_mult_imp_div_less mult.commute)
  then have "m div 16 = n div 16" using Suc.IH Suc.prems(3) by simp
  moreover have "m mod 16 = n mod 16" using Suc.prems(3) by (intro hex_digit_inject) auto
  ultimately show ?case by (metis div_mult_mod_eq)
qed simp

lemma namer_hash_inject [simp]: "namer_hash s = namer_hash t \<longleftrightarrow> fnv32a s = fnv32a t"
proof
  assume "namer_hash s = namer_hash t"
  moreover have "unat w < 16 ^ 8" for w :: "32 word" by (rule less_le_trans [OF unsigned_less]) simp
  ultimately have "unat (fnv32a s) = unat (fnv32a t)"
    unfolding namer_hash_def by (blast dest: hex_digits_inject)
  then show "fnv32a s = fnv32a t" by (simp add: word_unat_eq_iff)
qed (simp add: namer_hash_def)

section \<open>\<open>GetName\<close>\<close>

definition go_take :: "string \<Rightarrow> int \<Rightarrow> string option" where
  "go_take s n = (if 0 \<le> n \<and> n \<le> int (length s) then Some (take (nat n) s) else None)"

definition GetName :: "string \<Rightarrow> string \<Rightarrow> int \<Rightarrow> string option" where
  "GetName base suff maxLength =
     (if maxLength \<le> 0 then Some []
      else let name = base @ ''-'' @ suff in
        if int (length name) \<le> maxLength then Some name
        else let baseLength = maxLength - 10 - int (length suff) in
          if baseLength < 0 then
            (case go_take base (min (int (length base)) (max 0 (maxLength - 9))) of
               None \<Rightarrow> None
             | Some pre \<Rightarrow>
                 let shortName = pre @ ''-'' @ namer_hash name
                 in go_take shortName (min maxLength (int (length shortName))))
          else
            (case go_take base baseLength of
               None \<Rightarrow> None
             | Some pre \<Rightarrow> Some (pre @ ''-'' @ namer_hash base @ ''-'' @ suff)))"

definition DNS1123SubdomainMaxLength :: int where "DNS1123SubdomainMaxLength = 253"

definition GetPodName :: "string \<Rightarrow> string \<Rightarrow> string option" where
  "GetPodName base suff = GetName base suff DNS1123SubdomainMaxLength"

lemma GetName_bounded:
  "\<exists>n. GetName base suff maxLength = Some n \<and> int (length n) \<le> max 0 maxLength"
proof (cases "maxLength \<le> 0 \<or> int (length base) + int (length suff) + 1 \<le> maxLength")
  case False
  then have "nat (maxLength - 10 - int (length suff)) < length base" if "maxLength \<ge> 10 + int (length suff)"
    using that by linarith
  then show ?thesis
    using False by (auto simp: GetName_def go_take_def Let_def)
qed (auto simp: GetName_def)

lemma GetName_short:
  "int (length base) + int (length suff) + 1 \<le> maxLength \<Longrightarrow>
   GetName base suff maxLength = Some (base @ ''-'' @ suff)"
  by (simp add: GetName_def)

text \<open>
  With room for the hash, two long bases get one name only if their hashes and their first
  characters agree.
\<close>

lemma GetName_long_inject:
  assumes "int (length base) + int (length suff) + 1 > maxLength"
    "int (length base') + int (length suff) + 1 > maxLength"
    "maxLength \<ge> 10 + int (length suff)"
    and eq: "GetName base suff maxLength = GetName base' suff maxLength"
  shows "fnv32a base = fnv32a base' \<and>
    take (nat (maxLength - 10 - int (length suff))) base =
    take (nat (maxLength - 10 - int (length suff))) base'"
proof -
  let ?k = "nat (maxLength - 10 - int (length suff))"
  have long: "GetName b suff maxLength = Some (take ?k b @ ''-'' @ namer_hash b @ ''-'' @ suff)"
    if "int (length b) + int (length suff) + 1 > maxLength" for b
    using that assms(3) by (simp add: GetName_def go_take_def Let_def)
  have len: "length (take ?k b) = ?k" if "int (length b) + int (length suff) + 1 > maxLength" for b
    using that assms(3) by simp
  from eq have "take ?k base @ ''-'' @ namer_hash base @ ''-'' @ suff =
      take ?k base' @ ''-'' @ namer_hash base' @ ''-'' @ suff"
    using long [OF assms(1)] long [OF assms(2)] by simp
  then have "take ?k base = take ?k base'" "namer_hash base = namer_hash base'"
    using len [OF assms(1)] len [OF assms(2)] by (simp_all add: append_eq_append_conv)
  then show ?thesis by simp
qed

end
