(* ===== verification/Build_Types.thy ===== *)
theory Build_Types
  imports Policy_Types Namer "HOL-Library.AList"
begin

text \<open>
  Builds: the fields of \<open>Build\<close> and of its status that the controllers read and write
  (\<open>origin/pkg/build/api/types.go\<close>), the accessors of \<open>origin/pkg/build/util/util.go\<close>, the selector
  by which the builds of a configuration are listed (\<open>kubernetes/pkg/labels\<close>), and the pods that run
  builds.  A Go map is an association list; a nil annotation map, which panics on a write, is \<open>None\<close>.
\<close>

section \<open>Data\<close>

datatype build_phase =
    PhaseNew | PhasePending | PhaseRunning | PhaseComplete | PhaseFailed | PhaseError
  | PhaseCancelled | PhaseOther string

datatype run_policy_kind = RunParallel | RunSerial | RunSerialLatestOnly

record build =
  b_Namespace :: string
  b_Name :: string
  b_Labels :: "(string \<times> string) list"
  b_Annotations :: "(string \<times> string) list option"
  b_Created :: nat
  b_Pipeline :: bool
  b_OutputTo :: "object_reference option"
  b_PushSecret :: "string option"
  b_Phase :: build_phase
  b_Cancelled :: bool
  b_Reason :: string
  b_Message :: string
  b_Start :: "int option"
  b_Completion :: "int option"
  b_Duration :: int
  b_OutputRef :: string

datatype pod_phase = PodRunning | PodPending | PodSucceeded | PodFailed | PodPhaseOther string

text \<open>
  Of a pod: its identity, annotations and age, its phase, and for every container the exit code
  if it has terminated.
\<close>

record build_pod =
  p_Namespace :: string
  p_Name :: string
  p_Annotations :: "(string \<times> string) list"
  p_Created :: nat
  p_Phase :: pod_phase
  p_ExitCodes :: "int option list"

definition BuildAnnotation :: string where "BuildAnnotation = ''openshift.io/build.name''"
definition BuildConfigAnnotation :: string where
  "BuildConfigAnnotation = ''openshift.io/build-config.name''"
definition BuildNumberAnnotation :: string where "BuildNumberAnnotation = ''openshift.io/build.number''"
definition BuildPodNameAnnotation :: string where
  "BuildPodNameAnnotation = ''openshift.io/build.pod-name''"
definition BuildRunPolicyLabel :: string where
  "BuildRunPolicyLabel = ''openshift.io/build.start-policy''"
definition BuildConfigLabel :: string where "BuildConfigLabel = ''openshift.io/build-config.name''"
definition BuildConfigLabelDeprecated :: string where "BuildConfigLabelDeprecated = ''buildconfig''"
definition BuildAcceptedAnnotation :: string where
  "BuildAcceptedAnnotation = ''build.openshift.io/accepted''"

lemmas annotation_names =
  BuildAnnotation_def BuildConfigAnnotation_def BuildNumberAnnotation_def BuildPodNameAnnotation_def
  BuildRunPolicyLabel_def BuildConfigLabel_def BuildConfigLabelDeprecated_def
  BuildAcceptedAnnotation_def

section \<open>Accessors\<close>

text \<open>Reading a missing key of a map, or a nil map, gives the empty string.\<close>

definition map_value :: "(string \<times> string) list \<Rightarrow> string \<Rightarrow> string" where
  "map_value m k = (case map_of m k of None \<Rightarrow> [] | Some v \<Rightarrow> v)"

definition annotations_of :: "build \<Rightarrow> (string \<times> string) list" where
  "annotations_of b = (case b_Annotations b of None \<Rightarrow> [] | Some m \<Rightarrow> m)"

definition GetBuildName :: "build_pod \<Rightarrow> string" where
  "GetBuildName pod = map_value (p_Annotations pod) BuildAnnotation"

definition GetBuildPodName :: "build \<Rightarrow> string" where
  "GetBuildPodName b = the (GetPodName (b_Name b) ''build'')"

definition IsBuildComplete :: "build \<Rightarrow> bool" where
  "IsBuildComplete b \<longleftrightarrow>
     b_Phase b \<noteq> PhaseRunning \<and> b_Phase b \<noteq> PhasePending \<and> b_Phase b \<noteq> PhaseNew"

definition BuildNumber :: "build \<Rightarrow> int \<times> go_error option" where
  "BuildNumber b =
     (case map_of (annotations_of b) BuildNumberAnnotation of
        Some stringNumber \<Rightarrow> ParseInt stringNumber
      | None \<Rightarrow> (0, Some (Errorf ''build %s/%s does not have %s annotation''
                          [b_Namespace b, b_Name b, BuildNumberAnnotation])))"

definition BuildRunPolicy :: "build \<Rightarrow> run_policy_kind" where
  "BuildRunPolicy b =
     (case map_of (b_Labels b) BuildRunPolicyLabel of
        Some v \<Rightarrow>
          if v = ''Parallel'' then RunParallel
          else if v = ''Serial'' then RunSerial
          else if v = ''SerialLatestOnly'' then RunSerialLatestOnly
          else RunSerial
      | None \<Rightarrow> RunSerial)"

definition ConfigNameForBuild :: "build \<Rightarrow> string" where
  "ConfigNameForBuild b =
     (case map_of (annotations_of b) BuildConfigAnnotation of
        Some v \<Rightarrow> v
      | None \<Rightarrow>
          (case map_of (b_Labels b) BuildConfigLabel of
             Some v \<Rightarrow> v
           | None \<Rightarrow> map_value (b_Labels b) BuildConfigLabelDeprecated))"

definition VersionForBuild :: "build \<Rightarrow> int" where
  "VersionForBuild b =
     (case Atoi (map_value (annotations_of b) BuildNumberAnnotation) of Inl e \<Rightarrow> 0 | Inr v \<Rightarrow> v)"

section \<open>Selectors and listing\<close>

text \<open>\<open>[A-Za-z0-9]\<close> with \<open>-\<close>, \<open>_\<close>, \<open>.\<close> inside, at most 63 characters, or the empty value.\<close>

definition is_qname_char :: "char \<Rightarrow> bool" where
  "is_qname_char c \<longleftrightarrow> is_alnum c \<or> is_upper c"

definition labelValue_match :: "string \<Rightarrow> bool" where
  "labelValue_match s \<longleftrightarrow>
     s = [] \<or> (is_qname_char (hd s) \<and> is_qname_char (last s) \<and>
       list_all (\<lambda>c. is_qname_char c \<or> c = CHR ''-'' \<or> c = CHR ''_'' \<or> c = CHR ''.'') s)"

definition IsValidLabelValue :: "string \<Rightarrow> go_error list" where
  "IsValidLabelValue value =
     (if 63 < length value then [Errorf ''MaxLenError'' []] else []) @
     (if \<not> labelValue_match value then [Errorf ''RegexError'' []] else [])"

text \<open>
  A selector is a list of equality requirements.  \<open>SelectorFromSet\<close> of a set with an invalid value
  is the empty selector, which matches everything.  The key here is the constant \<open>BuildConfigLabel\<close>,
  a valid label key.
\<close>

type_synonym selector = "(string \<times> string) list"

definition SelectorFromSet1 :: "string \<Rightarrow> string \<Rightarrow> selector" where
  "SelectorFromSet1 key v = (if IsValidLabelValue v \<noteq> [] then [] else [(key, v)])"

fun Selector_Matches :: "selector \<Rightarrow> (string \<times> string) list \<Rightarrow> bool" where
  "Selector_Matches [] labels = True"
| "Selector_Matches ((k, v) # reqs) labels =
     (if map_of labels k \<noteq> Some v then False else Selector_Matches reqs labels)"

definition LabelValue :: "string \<Rightarrow> string" where
  "LabelValue name = (if length name \<le> 63 then name else take 63 name)"

definition BuildConfigSelector :: "string \<Rightarrow> selector" where
  "BuildConfigSelector name = SelectorFromSet1 BuildConfigLabel (LabelValue name)"

text \<open>
  \<open>BuildConfigBuilds\<close> with a filter that may change variables of its caller: the filter takes
  their value and returns the new one.  \<open>lister\<close> is \<open>BuildLister.List\<close>.
\<close>

type_synonym lister = "string \<Rightarrow> selector \<Rightarrow> go_error + build list"

fun filter_loop :: "('v \<Rightarrow> build \<Rightarrow> 'v \<times> bool) \<Rightarrow> 'v \<Rightarrow> build list \<Rightarrow> 'v \<times> build list" where
  "filter_loop f v [] = (v, [])"
| "filter_loop f v (b # bs) =
     (let (v', keep) = f v b; (v'', kept) = filter_loop f v' bs
      in (v'', if keep then b # kept else kept))"

definition BuildConfigBuilds ::
  "lister \<Rightarrow> string \<Rightarrow> string \<Rightarrow> ('v \<Rightarrow> build \<Rightarrow> 'v \<times> bool) option \<Rightarrow> 'v
   \<Rightarrow> 'v \<times> (go_error + build list)" where
  "BuildConfigBuilds List ns name filterFunc v =
     (case List ns (BuildConfigSelector name) of
        Inl err \<Rightarrow> (v, Inl err)
      | Inr result \<Rightarrow>
          (case filterFunc of
             None \<Rightarrow> (v, Inr result)
           | Some f \<Rightarrow> (let (v', kept) = filter_loop f v result in (v', Inr kept))))"

section \<open>Facts\<close>

lemma GetBuildPodName_Some: "GetPodName (b_Name b) ''build'' = Some (GetBuildPodName b)"
  using GetName_bounded [of "b_Name b" "''build''" DNS1123SubdomainMaxLength]
  by (auto simp: GetBuildPodName_def GetPodName_def)

lemma Selector_Matches_iff:
  "Selector_Matches reqs labels \<longleftrightarrow> (\<forall>(k, v) \<in> set reqs. map_of labels k = Some v)"
  by (induction reqs) (auto split: if_splits)

lemma filter_loop_pure:
  "(\<And>v b. f v b = (v, P b)) \<Longrightarrow> filter_loop f v bs = (v, filter P bs)"
  by (induction bs) auto

lemma IsBuildComplete_phase:
  "b_Phase b = PhaseNew \<Longrightarrow> \<not> IsBuildComplete b" "b_Phase b = PhasePending \<Longrightarrow> \<not> IsBuildComplete b"
  "b_Phase b = PhaseRunning \<Longrightarrow> \<not> IsBuildComplete b"
  by (simp_all add: IsBuildComplete_def)

end
