(* ===== verification/Build_Policies.thy ===== *)
theory Build_Policies
  imports Build_Types
begin

text \<open>
  The run policies of builds (\<open>origin/pkg/build/controller/policy\<close>): which queued builds of a
  configuration may start.  \<open>BuildLister\<close> and \<open>BuildUpdater\<close> are clients of the API server; they
  are operations on a state of any type, so that an update may include what the rest of the
  cluster does in the meantime.  \<open>wait.Poll\<close> is that of \<open>kubernetes/pkg/util/wait\<close>; the number of
  ticks before the timeout is an argument, and so are the random UUIDs.
\<close>

record 's build_api =
  api_List :: "'s \<Rightarrow> lister"
  api_Update :: "'s \<Rightarrow> string \<Rightarrow> build \<Rightarrow> 's \<times> go_error option"

section \<open>Polling\<close>

definition ErrWaitTimeout :: go_error where
  "ErrWaitTimeout = Errorf ''timed out waiting for the condition'' []"

fun Poll :: "nat \<Rightarrow> ('s \<Rightarrow> 's \<times> bool \<times> go_error option) \<Rightarrow> 's \<Rightarrow> 's \<times> go_error option" where
  "Poll ticks condition s =
     (case condition s of
        (s', ok, Some err) \<Rightarrow> (s', Some err)
      | (s', ok, None) \<Rightarrow>
          if ok then (s', None)
          else (case ticks of 0 \<Rightarrow> (s', Some ErrWaitTimeout) | Suc n \<Rightarrow> Poll n condition s'))"

declare Poll.simps [simp del]

text \<open>The condition of both polls: update the build, retry on a conflict.\<close>

definition update_condition ::
  "'s build_api \<Rightarrow> build \<Rightarrow> 's \<Rightarrow> 's \<times> bool \<times> go_error option" where
  "update_condition api b s =
     (case api_Update api s (b_Namespace b) b of
        (s', Some err) \<Rightarrow> if IsConflict err then (s', False, None) else (s', True, Some err)
      | (s', None) \<Rightarrow> (s', True, None))"

section \<open>The next build of a configuration\<close>

definition is_active :: "build \<Rightarrow> bool" where
  "is_active b \<longleftrightarrow> b_Phase b = PhasePending \<or> b_Phase b = PhaseRunning"

definition hasRunningSerialBuild :: "lister \<Rightarrow> string \<Rightarrow> string \<Rightarrow> bool" where
  "hasRunningSerialBuild List ns name =
     fst (BuildConfigBuilds List ns name
       (Some (\<lambda>hasRunningBuilds b.
          (if is_active b \<and> (BuildRunPolicy b = RunSerial \<or> BuildRunPolicy b = RunSerialLatestOnly)
           then True else hasRunningBuilds, False))) False)"

fun next_loop ::
  "build list \<Rightarrow> build option \<Rightarrow> int \<Rightarrow> build list \<Rightarrow> go_error + build option \<times> build list" where
  "next_loop [] nextBuild previousBuildNumber nextParallelBuilds = Inr (nextBuild, nextParallelBuilds)"
| "next_loop (b # bs) nextBuild previousBuildNumber nextParallelBuilds =
     (case BuildNumber b of
        (n, Some err) \<Rightarrow> Inl err
      | (n, None) \<Rightarrow>
          let nextParallelBuilds' = (if BuildRunPolicy b = RunParallel then nextParallelBuilds @ [b] else nextParallelBuilds)
          in if previousBuildNumber = 0 \<or> n < previousBuildNumber
             then next_loop bs (Some b) n nextParallelBuilds'
             else next_loop bs nextBuild previousBuildNumber nextParallelBuilds')"

definition GetNextConfigBuild :: "lister \<Rightarrow> string \<Rightarrow> string \<Rightarrow> bool \<times> (go_error + build list)" where
  "GetNextConfigBuild List ns name =
     (case BuildConfigBuilds List ns name
        (Some (\<lambda>hasRunningBuilds b.
           if is_active b then (True, False) else (hasRunningBuilds, b_Phase b = PhaseNew))) False of
        (hasRunningBuilds, Inl err) \<Rightarrow> (hasRunningBuilds, Inl err)
      | (hasRunningBuilds, Inr builds) \<Rightarrow>
          (case next_loop builds None 0 [] of
             Inl err \<Rightarrow> (hasRunningBuilds, Inl err)
           | Inr (None, nextParallelBuilds) \<Rightarrow> (hasRunningBuilds, Inr [])
           | Inr (Some b, nextParallelBuilds) \<Rightarrow>
               (hasRunningBuilds, Inr (if BuildRunPolicy b = RunParallel then nextParallelBuilds else [b]))))"

section \<open>Completion of a build\<close>

text \<open>Writing to a nil map panics.\<close>

definition set_annotation :: "string \<Rightarrow> string \<Rightarrow> build \<Rightarrow> build option" where
  "set_annotation k v b =
     (case b_Annotations b of
        None \<Rightarrow> None
      | Some m \<Rightarrow> Some (b\<lparr>b_Annotations := Some (AList.update k v m)\<rparr>))"

fun accept_loop ::
  "'s build_api \<Rightarrow> nat \<Rightarrow> (build \<Rightarrow> string) \<Rightarrow> build list \<Rightarrow> 's \<Rightarrow> ('s \<times> go_error option) option" where
  "accept_loop api ticks uuid [] s = Some (s, None)"
| "accept_loop api ticks uuid (b # bs) s =
     (case set_annotation BuildAcceptedAnnotation (uuid b) b of
        None \<Rightarrow> None
      | Some b' \<Rightarrow>
          (case Poll ticks (update_condition api b') s of
             (s', Some err) \<Rightarrow> Some (s', Some err)
           | (s', None) \<Rightarrow> accept_loop api ticks uuid bs s'))"

definition handleComplete ::
  "'s build_api \<Rightarrow> nat \<Rightarrow> (build \<Rightarrow> string) \<Rightarrow> build \<Rightarrow> 's \<Rightarrow> ('s \<times> go_error option) option" where
  "handleComplete api ticks uuid b s =
     (let bcName = ConfigNameForBuild b in
      if bcName = [] then Some (s, None)
      else (case GetNextConfigBuild (api_List api s) (b_Namespace b) bcName of
              (hasRunningBuilds, Inl err) \<Rightarrow>
                Some (s, Some (ErrorfE ''unable to get the next build for %s/%s: %v''
                  [b_Namespace b, b_Name b] [err]))
            | (hasRunningBuilds, Inr nextBuilds) \<Rightarrow>
                if hasRunningBuilds \<or> nextBuilds = [] then Some (s, None)
                else accept_loop api ticks uuid nextBuilds s))"

section \<open>The policies\<close>

datatype run_policy = ParallelPolicy | SerialPolicy | SerialLatestOnlyPolicy

definition GetAllRunPolicies :: "run_policy list" where
  "GetAllRunPolicies = [ParallelPolicy, SerialPolicy, SerialLatestOnlyPolicy]"

fun ForBuild :: "build \<Rightarrow> run_policy list \<Rightarrow> run_policy option" where
  "ForBuild b [] = None"
| "ForBuild b (p # policies) =
     (case BuildRunPolicy b of
        RunParallel \<Rightarrow> if p = ParallelPolicy then Some p else ForBuild b policies
      | RunSerial \<Rightarrow> if p = SerialPolicy then Some p else ForBuild b policies
      | RunSerialLatestOnly \<Rightarrow> if p = SerialLatestOnlyPolicy then Some p else ForBuild b policies)"

definition ParallelPolicy_IsRunnable ::
  "'s build_api \<Rightarrow> build \<Rightarrow> 's \<Rightarrow> 's \<times> bool \<times> go_error option" where
  "ParallelPolicy_IsRunnable api b s =
     (let bcName = ConfigNameForBuild b in
      if bcName = [] then (s, True, None)
      else (s, \<not> hasRunningSerialBuild (api_List api s) (b_Namespace b) bcName, None))"

definition SerialPolicy_IsRunnable ::
  "'s build_api \<Rightarrow> build \<Rightarrow> 's \<Rightarrow> 's \<times> bool \<times> go_error option" where
  "SerialPolicy_IsRunnable api b s =
     (let bcName = ConfigNameForBuild b in
      if bcName = [] then (s, True, None)
      else (case GetNextConfigBuild (api_List api s) (b_Namespace b) bcName of
              (runningBuilds, Inl err) \<Rightarrow> (s, False, Some err)
            | (runningBuilds, Inr nextBuilds) \<Rightarrow>
                if runningBuilds then (s, False, None)
                else (s, length nextBuilds = 1 \<and> b_Name (hd nextBuilds) = b_Name b, None)))"

definition NoBuildNumberAnnotationError :: "build \<Rightarrow> go_error" where
  "NoBuildNumberAnnotationError b =
     Errorf ''build %s/%s does not have required %q annotation set''
       [b_Namespace b, b_Name b, BuildNumberAnnotation]"

fun cancel_loop ::
  "'s build_api \<Rightarrow> nat \<Rightarrow> build list \<Rightarrow> 's \<Rightarrow> go_error list \<Rightarrow> 's \<times> go_error list" where
  "cancel_loop api ticks [] s errs = (s, errs)"
| "cancel_loop api ticks (b # bs) s errs =
     (case Poll ticks (update_condition api (b\<lparr>b_Cancelled := True\<rparr>)) s of
        (s', Some err) \<Rightarrow> cancel_loop api ticks bs s' (errs @ [err])
      | (s', None) \<Rightarrow> cancel_loop api ticks bs s' errs)"

definition cancelPreviousBuilds ::
  "'s build_api \<Rightarrow> nat \<Rightarrow> build \<Rightarrow> 's \<Rightarrow> 's \<times> go_error list" where
  "cancelPreviousBuilds api ticks build s =
     (let bcName = ConfigNameForBuild build in
      if bcName = [] then (s, [])
      else (case BuildNumber build of
              (currentBuildNumber, Some err) \<Rightarrow> (s, [NoBuildNumberAnnotationError build])
            | (currentBuildNumber, None) \<Rightarrow>
                (case BuildConfigBuilds (api_List api s) (b_Namespace build) bcName
                   (Some (\<lambda>u b. (u,
                      if IsBuildComplete b \<or> b_Phase b = PhaseRunning then False
                      else fst (BuildNumber b) < currentBuildNumber))) () of
                   (u, Inl err) \<Rightarrow> (s, [err])
                 | (u, Inr builds) \<Rightarrow> cancel_loop api ticks builds s [])))"

definition SerialLatestOnlyPolicy_IsRunnable ::
  "'s build_api \<Rightarrow> nat \<Rightarrow> build \<Rightarrow> 's \<Rightarrow> 's \<times> bool \<times> go_error option" where
  "SerialLatestOnlyPolicy_IsRunnable api ticks b s =
     (let bcName = ConfigNameForBuild b in
      if bcName = [] then (s, True, None)
      else (case cancelPreviousBuilds api ticks b s of (s', errs) \<Rightarrow>
        (case aggregate errs of
           Some err \<Rightarrow> (s', False, Some err)
         | None \<Rightarrow>
             (case GetNextConfigBuild (api_List api s') (b_Namespace b) bcName of
                (runningBuilds, Inl err) \<Rightarrow> (s', False, Some err)
              | (runningBuilds, Inr nextBuilds) \<Rightarrow>
                  if runningBuilds then (s', False, None)
                  else (s', length nextBuilds = 1 \<and> b_Name (hd nextBuilds) = b_Name b, None)))))"

definition IsRunnable ::
  "'s build_api \<Rightarrow> nat \<Rightarrow> run_policy \<Rightarrow> build \<Rightarrow> 's \<Rightarrow> 's \<times> bool \<times> go_error option" where
  "IsRunnable api ticks p b s =
     (case p of
        ParallelPolicy \<Rightarrow> ParallelPolicy_IsRunnable api b s
      | SerialPolicy \<Rightarrow> SerialPolicy_IsRunnable api b s
      | SerialLatestOnlyPolicy \<Rightarrow> SerialLatestOnlyPolicy_IsRunnable api ticks b s)"

text \<open>All three policies handle the completion of a build with \<open>handleComplete\<close>.\<close>

definition OnComplete ::
  "'s build_api \<Rightarrow> nat \<Rightarrow> (build \<Rightarrow> string) \<Rightarrow> run_policy \<Rightarrow> build \<Rightarrow> 's
   \<Rightarrow> ('s \<times> go_error option) option" where
  "OnComplete api ticks uuid p b s = handleComplete api ticks uuid b s"

section \<open>What the listing decides\<close>

lemma filter_loop_any:
  "filter_loop (\<lambda>v b. (if P b then True else v, False)) v bs = (v \<or> list_ex P bs, [])"
  by (induction bs arbitrary: v) auto

lemma filter_loop_next:
  "filter_loop (\<lambda>v b. if is_active b then (True, False) else (v, b_Phase b = PhaseNew)) v bs =
     (v \<or> list_ex is_active bs, filter (\<lambda>b. b_Phase b = PhaseNew) bs)"
  by (induction bs arbitrary: v) (auto simp: is_active_def)

lemma hasRunningSerialBuild_listed:
  "List ns (BuildConfigSelector name) = Inr bs \<Longrightarrow>
   hasRunningSerialBuild List ns name \<longleftrightarrow>
     (\<exists>b \<in> set bs. is_active b \<and> BuildRunPolicy b \<noteq> RunParallel)"
  unfolding hasRunningSerialBuild_def BuildConfigBuilds_def
  by (simp add: filter_loop_any list_ex_iff) (metis run_policy_kind.exhaust run_policy_kind.distinct)

lemma hasRunningSerialBuild_error:
  "List ns (BuildConfigSelector name) = Inl e \<Longrightarrow> \<not> hasRunningSerialBuild List ns name"
  by (simp add: hasRunningSerialBuild_def BuildConfigBuilds_def)

lemma GetNextConfigBuild_listed:
  "List ns (BuildConfigSelector name) = Inr bs \<Longrightarrow>
   GetNextConfigBuild List ns name =
     (list_ex is_active bs,
      case next_loop (filter (\<lambda>b. b_Phase b = PhaseNew) bs) None 0 [] of
        Inl err \<Rightarrow> Inl err
      | Inr (None, _) \<Rightarrow> Inr []
      | Inr (Some b, par) \<Rightarrow> Inr (if BuildRunPolicy b = RunParallel then par else [b]))"
  unfolding GetNextConfigBuild_def BuildConfigBuilds_def
  by (simp add: filter_loop_next split: sum.splits prod.splits option.splits)

text \<open>
  The reference: builds whose numbers can be read; the queued build with the least number; the
  builds to start with it.
\<close>

definition numbered :: "build \<Rightarrow> bool" where
  "numbered b \<longleftrightarrow> snd (BuildNumber b) = None \<and> fst (BuildNumber b) > 0"

definition bnum :: "build \<Rightarrow> int" where
  "bnum b = fst (BuildNumber b)"

definition first_queued :: "build list \<Rightarrow> build \<Rightarrow> bool" where
  "first_queued bs m \<longleftrightarrow> m \<in> set bs \<and> (\<forall>b \<in> set bs. bnum m \<le> bnum b)"

lemma numberedE: "numbered b \<Longrightarrow> BuildNumber b = (bnum b, None) \<and> bnum b > 0"
  by (cases "BuildNumber b") (simp add: numbered_def bnum_def)

lemma next_loop_acc:
  assumes "list_all numbered bs" "numbered m" "prev = bnum m"
  shows "\<exists>m'. next_loop bs (Some m) prev par =
      Inr (Some m', par @ filter (\<lambda>b. BuildRunPolicy b = RunParallel) bs)
    \<and> first_queued (m # bs) m'"
  using assms
proof (induction bs arbitrary: m prev par)
  case Nil
  then show ?case by (simp add: first_queued_def)
next
  case (Cons b bs)
  then have b: "BuildNumber b = (bnum b, None)" "bnum b > 0" "list_all numbered bs" "numbered b"
    by (simp_all add: numberedE)
  have m: "bnum m > 0" using Cons.prems(2) by (simp add: numberedE)
  let ?par = "if BuildRunPolicy b = RunParallel then par @ [b] else par"
  show ?case
  proof (cases "bnum b < bnum m")
    case True
    with Cons.IH [OF b(3) b(4) refl, of ?par] b m Cons.prems(3) show ?thesis
      by (auto simp: first_queued_def Let_def)
  next
    case False
    with Cons.IH [OF b(3) Cons.prems(2) refl, of ?par] b m Cons.prems(3) show ?thesis
      by (auto simp: first_queued_def Let_def)
  qed
qed

lemma next_loop_least:
  assumes "list_all numbered bs"
  shows "bs = [] \<and> next_loop bs None 0 [] = Inr (None, []) \<or>
    (\<exists>m. next_loop bs None 0 [] = Inr (Some m, filter (\<lambda>b. BuildRunPolicy b = RunParallel) bs)
       \<and> first_queued bs m)"
proof (cases bs)
  case (Cons b bs')
  then have "BuildNumber b = (bnum b, None)" "list_all numbered bs'" "numbered b"
    using assms by (simp_all add: numberedE)
  with next_loop_acc [of bs' b "bnum b" "if BuildRunPolicy b = RunParallel then [b] else []"]
  show ?thesis by (auto simp: Cons Let_def)
qed simp

text \<open>An error of the loop is that of a build without a readable number.\<close>

lemma next_loop_numbers:
  "next_loop bs m n par = Inr r \<Longrightarrow> b \<in> set bs \<Longrightarrow> snd (BuildNumber b) = None"
  by (induction bs m n par rule: next_loop.induct)
    (auto simp: Let_def split: prod.splits option.splits if_splits)

lemma next_loop_members:
  "next_loop bs m n par = Inr (m', par') \<Longrightarrow>
   set_option m' \<subseteq> set bs \<union> set_option m \<and> set par' \<subseteq> set bs \<union> set par"
proof (induction bs m n par rule: next_loop.induct)
  case (2 b bs m n par)
  then show ?case
    by (auto simp: Let_def split: prod.splits option.splits if_splits)
qed auto

text \<open>Every build has a policy, the one of its kind.\<close>

definition policy_of :: "build \<Rightarrow> run_policy" where
  "policy_of b =
     (case BuildRunPolicy b of RunParallel \<Rightarrow> ParallelPolicy | RunSerial \<Rightarrow> SerialPolicy
      | RunSerialLatestOnly \<Rightarrow> SerialLatestOnlyPolicy)"

lemma ForBuild_all [simp]: "ForBuild b GetAllRunPolicies = Some (policy_of b)"
  by (simp add: GetAllRunPolicies_def policy_of_def split: run_policy_kind.splits)

section \<open>The contract of a run policy\<close>

text \<open>
  \<open>quiet bs\<close>: no listed build is active and the queued ones have distinct readable numbers.
\<close>

definition queued :: "build list \<Rightarrow> build list" where
  "queued bs = filter (\<lambda>b. b_Phase b = PhaseNew) bs"

definition quiet :: "build list \<Rightarrow> bool" where
  "quiet bs \<longleftrightarrow> \<not> list_ex is_active bs \<and> list_all numbered (queued bs) \<and> distinct (map bnum (queued bs))"

definition listing :: "('s \<Rightarrow> lister) \<Rightarrow> build \<Rightarrow> 's \<Rightarrow> go_error + build list" where
  "listing List b s = List s (b_Namespace b) (BuildConfigSelector (ConfigNameForBuild b))"

definition alone :: "build list \<Rightarrow> bool" where
  "alone bs \<longleftrightarrow> (\<forall>c \<in> set bs. \<forall>d \<in> set bs.
     is_active c \<and> is_active d \<and> BuildRunPolicy c \<noteq> RunParallel \<longrightarrow> b_Name c = b_Name d)"

locale run_policy_contract =
  fixes List :: "'s \<Rightarrow> lister"
    and run :: "build \<Rightarrow> 's \<Rightarrow> 's \<times> bool \<times> go_error option"
    and kind :: run_policy_kind
  assumes no_error: "run b s = (s', True, e) \<Longrightarrow> e = None"
    and exclusive: "run b s = (s', True, None) \<Longrightarrow> BuildRunPolicy b = kind \<Longrightarrow>
      ConfigNameForBuild b \<noteq> [] \<Longrightarrow> listing List b s' = Inr bs \<Longrightarrow> c \<in> set bs \<Longrightarrow> is_active c \<Longrightarrow>
      kind = RunParallel \<and> BuildRunPolicy c = RunParallel"
    and first_runs: "BuildRunPolicy b = kind \<Longrightarrow> ConfigNameForBuild b \<noteq> [] \<Longrightarrow>
      listing List b s = Inr bs \<Longrightarrow> quiet bs \<Longrightarrow> first_queued (queued bs) b \<Longrightarrow> run b s = (s, True, None)"
begin

lemma start_keeps_alone:
  assumes run: "run b s = (s', True, None)" and b: "BuildRunPolicy b = kind" "ConfigNameForBuild b \<noteq> []"
    and listed: "listing List b s' = Inr bs" and alone: "alone bs"
    and same: "b_Name b' = b_Name b" "BuildRunPolicy b' = BuildRunPolicy b"
  shows "alone (map (\<lambda>x. if b_Name x = b_Name b then b' else x) bs)"
proof -
  have act: "kind = RunParallel \<and> BuildRunPolicy c = RunParallel" if "c \<in> set bs" "is_active c" for c
    using exclusive [OF run b listed that] .
  show ?thesis
    unfolding alone_def
  proof (intro ballI impI)
    fix c d
    assume c: "c \<in> set (map (\<lambda>x. if b_Name x = b_Name b then b' else x) bs)"
      and d: "d \<in> set (map (\<lambda>x. if b_Name x = b_Name b then b' else x) bs)"
      and a: "is_active c \<and> is_active d \<and> BuildRunPolicy c \<noteq> RunParallel"
    have "c = b' \<or> c \<in> set bs" "d = b' \<or> d \<in> set bs" using c d by auto
    moreover have "c \<notin> set bs" using a act by blast
    moreover from this have "kind \<noteq> RunParallel" using a b same \<open>c = b' \<or> c \<in> set bs\<close> by auto
    ultimately have "c = b'" "d = b'" using a act by blast+
    then show "b_Name c = b_Name d" by simp
  qed
qed

end

text \<open>The conditions under which the serial policies go on to the last test.\<close>

lemma GetNextConfigBuild_quiet:
  assumes "List ns (BuildConfigSelector name) = Inr bs" "quiet bs" "first_queued (queued bs) b"
    "BuildRunPolicy b \<noteq> RunParallel"
  shows "GetNextConfigBuild List ns name = (False, Inr [b])"
proof -
  have q: "list_all numbered (queued bs)" "distinct (map bnum (queued bs))"
    using assms(2) by (simp_all add: quiet_def)
  have ne: "queued bs \<noteq> []" using assms(3) by (auto simp: first_queued_def)
  obtain m where m: "next_loop (queued bs) None 0 [] =
      Inr (Some m, filter (\<lambda>b. BuildRunPolicy b = RunParallel) (queued bs))" "first_queued (queued bs) m"
    using next_loop_least [OF q(1)] ne by auto
  have "m \<in> set (queued bs)" "b \<in> set (queued bs)" "bnum m = bnum b"
    using m(2) assms(3) by (auto simp: first_queued_def intro: antisym)
  then have "m = b" using q(2) by (auto simp: distinct_map inj_on_def)
  then show ?thesis
    using m(1) assms(2,4) by (simp add: GetNextConfigBuild_listed [of List, OF assms(1)] quiet_def queued_def)
qed

lemma serial_last_test:
  assumes "List ns (BuildConfigSelector name) = Inr bs" "GetNextConfigBuild List ns name = (False, r)"
    "c \<in> set bs"
  shows "\<not> is_active c"
  using assms by (auto simp: GetNextConfigBuild_listed list_ex_iff)

lemma cancelPreviousBuilds_none:
  assumes "listing (api_List api) b s = Inr bs" "quiet bs" "first_queued (queued bs) b"
  shows "cancelPreviousBuilds api ticks b s = (s, [])"
proof -
  have b: "BuildNumber b = (bnum b, None)"
    using assms(2,3) by (auto simp: quiet_def first_queued_def list_all_iff dest: numberedE)
  have none: "filter (\<lambda>c. if IsBuildComplete c \<or> b_Phase c = PhaseRunning then False
      else fst (BuildNumber c) < bnum b) bs = []"
    using assms(2,3)
    by (auto simp: filter_empty_conv quiet_def first_queued_def list_ex_iff is_active_def queued_def
        IsBuildComplete_def bnum_def not_less)
  show ?thesis
    using assms(1)
    by (simp add: cancelPreviousBuilds_def BuildConfigBuilds_def listing_def b Let_def none
        filter_loop_pure [where P = "\<lambda>c. if IsBuildComplete c \<or> b_Phase c = PhaseRunning then False
          else fst (BuildNumber c) < bnum b"])
qed

interpretation parallel: run_policy_contract "api_List api" "ParallelPolicy_IsRunnable api" RunParallel
proof
  fix b :: build and s s' :: 'a and e bs c
  show "ParallelPolicy_IsRunnable api b s = (s', True, e) \<Longrightarrow> e = None"
    by (auto simp: ParallelPolicy_IsRunnable_def Let_def split: if_splits)
  show "ParallelPolicy_IsRunnable api b s = (s', True, None) \<Longrightarrow> BuildRunPolicy b = RunParallel \<Longrightarrow>
      ConfigNameForBuild b \<noteq> [] \<Longrightarrow> listing (api_List api) b s' = Inr bs \<Longrightarrow> c \<in> set bs \<Longrightarrow> is_active c \<Longrightarrow>
      RunParallel = RunParallel \<and> BuildRunPolicy c = RunParallel"
    by (auto simp: ParallelPolicy_IsRunnable_def Let_def listing_def hasRunningSerialBuild_listed)
  show "BuildRunPolicy b = RunParallel \<Longrightarrow> ConfigNameForBuild b \<noteq> [] \<Longrightarrow>
      listing (api_List api) b s = Inr bs \<Longrightarrow> quiet bs \<Longrightarrow> first_queued (queued bs) b \<Longrightarrow>
      ParallelPolicy_IsRunnable api b s = (s, True, None)"
    by (auto simp: ParallelPolicy_IsRunnable_def Let_def listing_def hasRunningSerialBuild_listed
        quiet_def list_ex_iff)
qed

interpretation serial: run_policy_contract "api_List api" "SerialPolicy_IsRunnable api" RunSerial
proof
  fix b :: build and s s' :: 'a and e bs c
  show "SerialPolicy_IsRunnable api b s = (s', True, e) \<Longrightarrow> e = None"
    by (auto simp: SerialPolicy_IsRunnable_def Let_def split: if_splits prod.splits sum.splits)
  show "SerialPolicy_IsRunnable api b s = (s', True, None) \<Longrightarrow> BuildRunPolicy b = RunSerial \<Longrightarrow>
      ConfigNameForBuild b \<noteq> [] \<Longrightarrow> listing (api_List api) b s' = Inr bs \<Longrightarrow> c \<in> set bs \<Longrightarrow> is_active c \<Longrightarrow>
      RunSerial = RunParallel \<and> BuildRunPolicy c = RunParallel"
    by (auto simp: SerialPolicy_IsRunnable_def Let_def listing_def
        split: if_splits prod.splits sum.splits dest: serial_last_test)
  show "BuildRunPolicy b = RunSerial \<Longrightarrow> ConfigNameForBuild b \<noteq> [] \<Longrightarrow>
      listing (api_List api) b s = Inr bs \<Longrightarrow> quiet bs \<Longrightarrow> first_queued (queued bs) b \<Longrightarrow>
      SerialPolicy_IsRunnable api b s = (s, True, None)"
    by (simp add: SerialPolicy_IsRunnable_def Let_def listing_def GetNextConfigBuild_quiet)
qed

interpretation latest: run_policy_contract "api_List api" "SerialLatestOnlyPolicy_IsRunnable api ticks"
  RunSerialLatestOnly
proof
  fix b :: build and s s' :: 'a and e bs c
  show "SerialLatestOnlyPolicy_IsRunnable api ticks b s = (s', True, e) \<Longrightarrow> e = None"
    by (auto simp: SerialLatestOnlyPolicy_IsRunnable_def Let_def
        split: if_splits prod.splits sum.splits option.splits)
  show "SerialLatestOnlyPolicy_IsRunnable api ticks b s = (s', True, None) \<Longrightarrow>
      BuildRunPolicy b = RunSerialLatestOnly \<Longrightarrow>
      ConfigNameForBuild b \<noteq> [] \<Longrightarrow> listing (api_List api) b s' = Inr bs \<Longrightarrow> c \<in> set bs \<Longrightarrow> is_active c \<Longrightarrow>
      RunSerialLatestOnly = RunParallel \<and> BuildRunPolicy c = RunParallel"
    by (auto simp: SerialLatestOnlyPolicy_IsRunnable_def Let_def listing_def
        split: if_splits prod.splits sum.splits option.splits dest: serial_last_test)
  show "BuildRunPolicy b = RunSerialLatestOnly \<Longrightarrow> ConfigNameForBuild b \<noteq> [] \<Longrightarrow>
      listing (api_List api) b s = Inr bs \<Longrightarrow> quiet bs \<Longrightarrow> first_queued (queued bs) b \<Longrightarrow>
      SerialLatestOnlyPolicy_IsRunnable api ticks b s = (s, True, None)"
    by (simp add: SerialLatestOnlyPolicy_IsRunnable_def Let_def cancelPreviousBuilds_none)
      (simp add: listing_def GetNextConfigBuild_quiet)
qed

text \<open>The contracts together: what a policy decides about the builds it is picked for.\<close>

lemma policy_exclusive:
  assumes "IsRunnable api ticks (policy_of b) b s = (s', True, None)" "ConfigNameForBuild b \<noteq> []"
    "listing (api_List api) b s' = Inr bs" "c \<in> set bs" "is_active c"
  shows "BuildRunPolicy b = RunParallel \<and> BuildRunPolicy c = RunParallel"
proof (cases "BuildRunPolicy b")
  case RunParallel
  then show ?thesis using assms parallel.exclusive [of api b s s' bs c]
    by (simp add: IsRunnable_def policy_of_def)
next
  case RunSerial
  then show ?thesis using assms serial.exclusive [of api b s s' bs c]
    by (simp add: IsRunnable_def policy_of_def)
next
  case RunSerialLatestOnly
  then show ?thesis using assms latest.exclusive [of api ticks b s s' bs c]
    by (simp add: IsRunnable_def policy_of_def)
qed

lemma policy_first_runs:
  assumes "ConfigNameForBuild b \<noteq> []" "listing (api_List api) b s = Inr bs" "quiet bs"
    "first_queued (queued bs) b"
  shows "IsRunnable api ticks (policy_of b) b s = (s, True, None)"
  using assms parallel.first_runs [of b api s bs] serial.first_runs [of b api s bs]
    latest.first_runs [of b api s bs ticks]
  by (cases "BuildRunPolicy b") (simp_all add: IsRunnable_def policy_of_def)

lemma policy_no_error:
  "IsRunnable api ticks p b s = (s', True, e) \<Longrightarrow> e = None"
  using parallel.no_error [of api b s s' e] serial.no_error [of api b s s' e]
    latest.no_error [of api ticks b s s' e]
  by (cases p) (simp_all add: IsRunnable_def)

lemma first_queued_ex: "list_all numbered bs \<Longrightarrow> bs \<noteq> [] \<Longrightarrow> \<exists>m. first_queued bs m"
  using next_loop_least [of bs] by auto

section \<open>Failing updates\<close>

lemma GetNextConfigBuild_members:
  assumes "List ns (BuildConfigSelector name) = Inr bs" "GetNextConfigBuild List ns name = (r, Inr nextBuilds)"
  shows "set nextBuilds \<subseteq> set (queued bs) \<and> (\<forall>b \<in> set nextBuilds. snd (BuildNumber b) = None)"
proof -
  obtain m par where loop: "next_loop (queued bs) None 0 [] = Inr (m, par)"
    and n: "nextBuilds = (case m of None \<Rightarrow> [] | Some b \<Rightarrow> if BuildRunPolicy b = RunParallel then par else [b])"
    using assms(2) unfolding GetNextConfigBuild_listed [of List, OF assms(1)] queued_def
    by (auto split: sum.splits prod.splits option.splits)
  have "set nextBuilds \<subseteq> set (queued bs)"
    using next_loop_members [OF loop] by (auto simp: n split: option.splits if_splits)
  then show ?thesis using next_loop_numbers [OF loop] by blast
qed

text \<open>
  Completion writes an annotation into builds that have a number annotation, hence a map to write
  to: it does not panic.
\<close>

lemma accept_loop_total:
  "\<forall>b \<in> set bs. b_Annotations b \<noteq> None \<Longrightarrow> accept_loop api ticks uuid bs s \<noteq> None"
  by (induction bs arbitrary: s) (auto simp: set_annotation_def split: option.splits prod.splits)

lemma handleComplete_total: "handleComplete api ticks uuid b s \<noteq> None"
proof (cases "api_List api s (b_Namespace b) (BuildConfigSelector (ConfigNameForBuild b))")
  case (Inl e)
  then show ?thesis
    by (simp add: handleComplete_def Let_def GetNextConfigBuild_def BuildConfigBuilds_def)
next
  case (Inr bs)
  have "b_Annotations c \<noteq> None" if "snd (BuildNumber c) = None" for c
    using that by (auto simp: BuildNumber_def annotations_of_def split: option.splits)
  then have "accept_loop api ticks uuid nb s \<noteq> None"
    if "GetNextConfigBuild (api_List api s) (b_Namespace b) (ConfigNameForBuild b) = (r, Inr nb)" for r nb
    using GetNextConfigBuild_members [of "api_List api s", OF Inr that] by (intro accept_loop_total) blast
  then show ?thesis
    by (simp add: handleComplete_def Let_def split: prod.splits sum.splits)
qed

text \<open>
  A build that is refused with a conflict because its copy is stale stays refused, so the retries
  of the polls only end with the timeout.
\<close>

lemma conflict_retry_is_futile:
  assumes stale: "\<And>s s' e. api_Update api s (b_Namespace b) b = (s', Some e) \<Longrightarrow> IsConflict e \<Longrightarrow>
      \<exists>s'' e'. api_Update api s' (b_Namespace b) b = (s'', Some e') \<and> IsConflict e'"
    and first: "api_Update api s (b_Namespace b) b = (s1, Some e)" "IsConflict e"
  shows "\<exists>s'. Poll ticks (update_condition api b) s = (s', Some ErrWaitTimeout)"
  using first
proof (induction ticks arbitrary: s s1 e)
  case 0
  then show ?case by (simp add: Poll.simps [of 0] update_condition_def)
next
  case (Suc n)
  obtain s2 e2 where "api_Update api s1 (b_Namespace b) b = (s2, Some e2)" "IsConflict e2"
    using stale [OF Suc.prems] by blast
  from Suc.IH [OF this] Suc.prems show ?case
    by (simp add: Poll.simps [of "Suc n"] update_condition_def)
qed

section \<open>A server for examples\<close>

definition list_api :: "build list build_api" where
  "list_api =
     \<lparr>api_List = (\<lambda>bs ns sel. Inr (filter (\<lambda>b. b_Namespace b = ns \<and> Selector_Matches sel (b_Labels b)) bs)),
      api_Update = (\<lambda>bs ns b. (map (\<lambda>x. if b_Namespace x = b_Namespace b \<and> b_Name x = b_Name b then b else x) bs, None))\<rparr>"

definition sample_build :: "string \<Rightarrow> string \<Rightarrow> string \<Rightarrow> build_phase \<Rightarrow> build" where
  "sample_build name pol number ph =
     \<lparr>b_Namespace = ''ns'', b_Name = name,
      b_Labels = [(BuildConfigLabel, ''bc''), (BuildRunPolicyLabel, pol)],
      b_Annotations = Some [(BuildConfigAnnotation, ''bc''), (BuildNumberAnnotation, number)],
      b_Created = 0, b_Pipeline = False, b_OutputTo = None, b_PushSecret = None, b_Phase = ph,
      b_Cancelled = False, b_Reason = [], b_Message = [], b_Start = None, b_Completion = None,
      b_Duration = 0, b_OutputRef = []\<rparr>"

lemma ParseInt_sample: "ParseInt ''1'' = (1, None)" "ParseInt ''2'' = (2, None)"
  by (simp_all add: ParseInt_def is_digit_def digits_value_def digit_value_def)

lemma sample_build_simps [simp]:
  "b_Namespace (sample_build n p k ph) = ''ns''" "b_Name (sample_build n p k ph) = n"
  "b_Phase (sample_build n p k ph) = ph" "ConfigNameForBuild (sample_build n p k ph) = ''bc''"
  "Selector_Matches (BuildConfigSelector ''bc'') (b_Labels (sample_build n p k ph))"
  "BuildNumber (sample_build n p k ph) = ParseInt k"
  "BuildRunPolicy (sample_build n p k ph) =
     (if p = ''Parallel'' then RunParallel else if p = ''SerialLatestOnly'' then RunSerialLatestOnly else RunSerial)"
  by (simp_all add: sample_build_def ConfigNameForBuild_def annotations_of_def BuildNumber_def BuildRunPolicy_def
      annotation_names BuildConfigSelector_def SelectorFromSet1_def LabelValue_def)

section \<open>Properties\<close>

text \<open>
  C25: builds of a configuration do not get stuck: when none is active and the queued ones have
  distinct readable numbers, the policy of one of them lets it run.
\<close>

theorem some_queued_build_can_start:
  assumes "api_List api s ns (BuildConfigSelector name) = Inr bs" "name \<noteq> []" "quiet bs" "queued bs \<noteq> []"
    "\<forall>b \<in> set (queued bs). b_Namespace b = ns \<and> ConfigNameForBuild b = name"
  shows "\<exists>b \<in> set (queued bs). \<exists>p. ForBuild b GetAllRunPolicies = Some p \<and>
    IsRunnable api ticks p b s = (s, True, None)"
proof -
  obtain b where b: "first_queued (queued bs) b"
    using first_queued_ex assms(3,4) by (auto simp: quiet_def)
  then have m: "b \<in> set (queued bs)" by (simp add: first_queued_def)
  then have "IsRunnable api ticks (policy_of b) b s = (s, True, None)"
    using assms b by (intro policy_first_runs [where bs = bs]) (simp_all add: listing_def)
  then show ?thesis using m by auto
qed

lemma some_queued_build_can_start_witness:
  "\<exists>b \<in> set (queued [sample_build ''a'' ''Serial'' ''1'' PhaseNew, sample_build ''b'' ''Parallel'' ''2'' PhaseNew]).
     \<exists>p. ForBuild b GetAllRunPolicies = Some p \<and>
       IsRunnable list_api 3 p b [sample_build ''a'' ''Serial'' ''1'' PhaseNew, sample_build ''b'' ''Parallel'' ''2'' PhaseNew] =
         ([sample_build ''a'' ''Serial'' ''1'' PhaseNew, sample_build ''b'' ''Parallel'' ''2'' PhaseNew], True, None)"
  by (rule some_queued_build_can_start [where ns = "''ns''" and name = "''bc''"])
    (simp_all add: list_api_def quiet_def queued_def is_active_def numbered_def bnum_def ParseInt_sample)

text \<open>
  When the builds of a configuration cannot be listed, the serial policies refuse with the
  error, but the parallel policy lets the build run: it then knows nothing of a running serial build.
\<close>

theorem run_policies_on_list_error:
  assumes "api_List api s (b_Namespace b) (BuildConfigSelector (ConfigNameForBuild b)) = Inl err"
    "ConfigNameForBuild b \<noteq> []"
  shows "IsRunnable api ticks ParallelPolicy b s = (s, True, None) \<and>
    IsRunnable api ticks SerialPolicy b s = (s, False, Some err) \<and>
    (\<exists>e. IsRunnable api ticks SerialLatestOnlyPolicy b s = (s, False, Some e))"
proof -
  have next_err: "GetNextConfigBuild (api_List api s) (b_Namespace b) (ConfigNameForBuild b) = (False, Inl err)"
    using assms(1) by (simp add: GetNextConfigBuild_def BuildConfigBuilds_def)
  have "\<exists>e. cancelPreviousBuilds api ticks b s = (s, [e])"
    using assms by (cases "BuildNumber b"; cases "snd (BuildNumber b)")
      (auto simp: cancelPreviousBuilds_def BuildConfigBuilds_def Let_def)
  then show ?thesis
    using assms next_err
    by (auto simp: IsRunnable_def ParallelPolicy_IsRunnable_def SerialPolicy_IsRunnable_def
        SerialLatestOnlyPolicy_IsRunnable_def hasRunningSerialBuild_error Let_def)
qed

lemma run_policies_on_list_error_witness:
  "IsRunnable (list_api\<lparr>api_List := \<lambda>s ns sel. Inl ErrWaitTimeout\<rparr>) 3 ParallelPolicy
     (sample_build ''b'' ''Parallel'' ''2'' PhaseNew) [sample_build ''a'' ''Serial'' ''1'' PhaseRunning] =
   ([sample_build ''a'' ''Serial'' ''1'' PhaseRunning], True, None)"
  using run_policies_on_list_error [of "list_api\<lparr>api_List := \<lambda>s ns sel. Inl ErrWaitTimeout\<rparr>"
      "[sample_build ''a'' ''Serial'' ''1'' PhaseRunning]" "sample_build ''b'' ''Parallel'' ''2'' PhaseNew"
      ErrWaitTimeout 3]
  by simp

end
