(* ===== verification/Build_Controller.thy ===== *)
theory Build_Controller
  imports Build_Policies
begin

text \<open>
  The build controllers (\<open>origin/pkg/build/controller/controller.go\<close>) and the retry function of
  \<open>controller/factory/factory.go\<close>.  A controller works on a pointer to a cached build, so every
  handler returns the build as it leaves it in memory, next to the state of the cluster; \<open>None\<close>
  is a panic.  What the controllers call is a record of operations on the cluster state: the API
  client, the pod and image stream clients, the strategy that makes a pod from a build, and the
  admission plugins applied to it.  Events and log lines are left out.
\<close>

record 's build_world = "'s build_api" +
  api_GetPod :: "'s \<Rightarrow> string \<Rightarrow> string \<Rightarrow> go_error + build_pod"
  api_CreatePod :: "'s \<Rightarrow> string \<Rightarrow> build_pod \<Rightarrow> 's \<times> go_error option"
  api_DeletePod :: "'s \<Rightarrow> string \<Rightarrow> build_pod \<Rightarrow> 's \<times> go_error option"
  api_GetImageStream :: "'s \<Rightarrow> string \<Rightarrow> string \<Rightarrow> go_error + string"
  api_GetSecret :: "'s \<Rightarrow> string \<Rightarrow> string \<Rightarrow> go_error option"
  w_Copy :: "build \<Rightarrow> go_error + build"
  w_CreateBuildPod :: "build \<Rightarrow> go_error + build_pod"
  w_ApplyDefaults :: "build_pod \<Rightarrow> build_pod \<times> go_error option"
  w_ApplyOverrides :: "build_pod \<Rightarrow> build_pod \<times> go_error option"
  w_Ticks :: nat
  w_Uuid :: "build \<Rightarrow> string"

abbreviation api_of :: "'s build_world \<Rightarrow> 's build_api" where
  "api_of w \<equiv> \<lparr>api_List = api_List w, api_Update = api_Update w\<rparr>"

definition update_build :: "'s build_world \<Rightarrow> 's \<Rightarrow> build \<Rightarrow> 's \<times> go_error option" where
  "update_build w s b = api_Update w s (b_Namespace b) b"

section \<open>Helpers\<close>

definition set_reason :: "string \<Rightarrow> string \<Rightarrow> build \<Rightarrow> build" where
  "set_reason r m b = b\<lparr>b_Reason := r, b_Message := m\<rparr>"

definition hasBuildPodNameAnnotation :: "build \<Rightarrow> bool" where
  "hasBuildPodNameAnnotation b \<longleftrightarrow>
     (case b_Annotations b of None \<Rightarrow> False | Some m \<Rightarrow> map_of m BuildPodNameAnnotation \<noteq> None)"

definition setBuildPodNameAnnotation :: "string \<Rightarrow> build \<Rightarrow> build" where
  "setBuildPodNameAnnotation podName b =
     b\<lparr>b_Annotations := Some (AList.update BuildPodNameAnnotation podName
        (case b_Annotations b of None \<Rightarrow> [] | Some m \<Rightarrow> m))\<rparr>"

text \<open>Times are nanoseconds; \<open>Rfc3339Copy\<close> drops the fraction of a second.\<close>

definition Rfc3339Copy :: "int \<Rightarrow> int" where
  "Rfc3339Copy t = t div 1000000000 * 1000000000"

definition setBuildCompletionTimeAndDuration :: "int \<Rightarrow> build \<Rightarrow> build" where
  "setBuildCompletionTimeAndDuration now b =
     (let b' = b\<lparr>b_Completion := Some now\<rparr>
      in (case b_Start b of
            None \<Rightarrow> b'
          | Some start \<Rightarrow> b'\<lparr>b_Duration := Rfc3339Copy now - Rfc3339Copy start\<rparr>))"

definition isBuildCancellable :: "build \<Rightarrow> bool" where
  "isBuildCancellable b \<longleftrightarrow>
     b_Phase b = PhaseNew \<or> b_Phase b = PhasePending \<or> b_Phase b = PhaseRunning"

definition handleBuildCompletion :: "'s build_world \<Rightarrow> build \<Rightarrow> run_policy list \<Rightarrow> 's \<Rightarrow> 's option" where
  "handleBuildCompletion w b runPolicies s =
     (if \<not> IsBuildComplete b then Some s
      else (case ForBuild b runPolicies of
              None \<Rightarrow> Some s
            | Some p \<Rightarrow> map_option fst (OnComplete (api_of w) (w_Ticks w) (w_Uuid w) p b s)))"

section \<open>\<open>BuildController\<close>\<close>

text \<open>The first part of \<open>CancelBuild\<close>: the pod of the build is deleted if it exists.\<close>

definition delete_build_pod :: "'s build_world \<Rightarrow> build \<Rightarrow> 's \<Rightarrow> 's \<times> go_error option" where
  "delete_build_pod w b s =
     (case api_GetPod w s (b_Namespace b) (GetBuildPodName b) of
        Inl err \<Rightarrow>
          if IsNotFound err then (s, None)
          else (s, Some (ErrorfE ''Failed to get pod for build %s/%s: %v'' [b_Namespace b, b_Name b] [err]))
      | Inr pod \<Rightarrow>
          (case api_DeletePod w s (b_Namespace b) pod of
             (s', None) \<Rightarrow> (s', None)
           | (s', Some err) \<Rightarrow>
               if IsNotFound err then (s', None)
               else (s', Some (ErrorfE ''Could not delete build pod %s/%s: %v'' [b_Namespace b, p_Name pod] [err]))))"

definition cancelled_build :: "int \<Rightarrow> build \<Rightarrow> build" where
  "cancelled_build now b =
     set_reason ''CancelledBuild'' ''The build was cancelled by the user.''
       (setBuildCompletionTimeAndDuration now (b\<lparr>b_Phase := PhaseCancelled\<rparr>))"

definition CancelBuild ::
  "'s build_world \<Rightarrow> run_policy list \<Rightarrow> int \<Rightarrow> build \<Rightarrow> 's \<Rightarrow> ('s \<times> build \<times> go_error option) option" where
  "CancelBuild w runPolicies now b s =
     (if \<not> isBuildCancellable b then Some (s, b, None)
      else (case delete_build_pod w b s of
        (s', Some err) \<Rightarrow> Some (s', b, Some err)
      | (s', None) \<Rightarrow>
          let b' = cancelled_build now b in
          (case update_build w s' b' of
             (s'', Some err) \<Rightarrow>
               Some (s'', b', Some (ErrorfE ''Failed to update build %s/%s: %v''
                 [b_Namespace b, b_Name b] [err]))
           | (s'', None) \<Rightarrow>
               map_option (\<lambda>s3. (s3, b', None)) (handleBuildCompletion w b' runPolicies s''))))"

definition SplitImageStreamTag :: "string \<Rightarrow> string \<times> string \<times> bool" where
  "SplitImageStreamTag nameAndTag =
     (let parts = splitN2 CHR '':'' nameAndTag;
          tag = (if length parts > 1 then parts ! 1 else [])
      in (parts ! 0, if tag = [] then ''latest'' else tag, length parts = 2))"

definition resolveOutputDockerImageReference ::
  "'s build_world \<Rightarrow> build \<Rightarrow> 's \<Rightarrow> go_error + string" where
  "resolveOutputDockerImageReference w b s =
     (case b_OutputTo b of
        None \<Rightarrow> Inr []
      | Some outputTo \<Rightarrow>
          if or_name outputTo = [] then Inr []
          else if or_kind outputTo = ''DockerImage'' then Inr (or_name outputTo)
          else if or_kind outputTo = ''ImageStream'' \<or> or_kind outputTo = ''ImageStreamTag'' then
            let ns = (if or_namespace outputTo = [] then b_Namespace b else or_namespace outputTo);
                (streamName, tag, ok) =
                  (if or_kind outputTo = ''ImageStreamTag''
                   then (case SplitImageStreamTag (or_name outputTo) of (n, t, ok) \<Rightarrow> (n, CHR '':'' # t, ok))
                   else (or_name outputTo, [], True))
            in if \<not> ok then Inl (Errorf ''the referenced image stream tag is invalid: %s'' [or_name outputTo])
               else (case api_GetImageStream w s ns streamName of
                       Inl err \<Rightarrow>
                         if IsNotFound err
                         then Inl (Errorf ''the referenced output image stream %s/%s does not exist'' [ns, streamName])
                         else Inl (ErrorfE ''the referenced output image stream %s/%s could not be found by build %s/%s: %v''
                                [ns, streamName, b_Namespace b, b_Name b] [err])
                     | Inr repository \<Rightarrow>
                         if repository = []
                         then Inl (Errorf ''the image stream %s/%s cannot be used as the output for build %s/%s''
                                [ns, or_name outputTo, b_Namespace b, b_Name b])
                         else Inr (repository @ tag))
          else Inr [])"

definition docker_image_ref :: "string \<Rightarrow> object_reference" where
  "docker_image_ref ref = subject_ref ''DockerImage'' [] ref"

definition IsFatal :: "go_error \<Rightarrow> bool" where
  "IsFatal err \<longleftrightarrow> (case err of FatalErr _ \<Rightarrow> True | _ \<Rightarrow> False)"

definition create_pod :: "'s build_world \<Rightarrow> build \<Rightarrow> build_pod \<Rightarrow> 's \<Rightarrow> 's \<times> build \<times> go_error option" where
  "create_pod w b podSpec s =
     (case api_CreatePod w s (b_Namespace b) podSpec of
        (s', Some err) \<Rightarrow>
          if IsAlreadyExists err then
            (case api_GetPod w s' (p_Namespace podSpec) (p_Name podSpec) of
               Inl e \<Rightarrow> (s', b, None)
             | Inr existingPod \<Rightarrow>
                 if p_Created existingPod < b_Created b
                 then (s', set_reason ''BuildPodExists''
                        ''The pod for this build already exists and is older than the build.''
                        (b\<lparr>b_Phase := PhaseError\<rparr>), None)
                 else (s', b, None))
          else (s', set_reason ''CannotCreateBuildPod'' ''Failed creating build pod.'' b,
                Some (ErrorfE ''failed to create build pod: %v'' [] [err]))
      | (s', None) \<Rightarrow>
          (s', set_reason [] []
             ((setBuildPodNameAnnotation (p_Name podSpec) b)\<lparr>b_Phase := PhasePending\<rparr>), None))"

definition nextBuildPhase :: "'s build_world \<Rightarrow> build \<Rightarrow> 's \<Rightarrow> 's \<times> build \<times> go_error option" where
  "nextBuildPhase w b s =
     (if b_Cancelled b then (s, b\<lparr>b_Phase := PhaseCancelled\<rparr>, None)
      else (case resolveOutputDockerImageReference w b s of
        Inl err \<Rightarrow>
          (s, set_reason ''InvalidOutputReference'' ''Output image could not be resolved.'' b, Some err)
      | Inr ref \<Rightarrow>
          let b' = b\<lparr>b_OutputRef := ref\<rparr> in
          (case w_Copy w b' of
             Inl err \<Rightarrow> (s, b', Some (ErrorfE ''unable to copy build: %v'' [] [err]))
           | Inr buildCopy \<Rightarrow>
               let buildCopy' =
                 (case b_OutputTo b' of
                    None \<Rightarrow> buildCopy
                  | Some outputTo \<Rightarrow>
                      if or_name outputTo \<noteq> []
                      then buildCopy\<lparr>b_OutputTo := Some (docker_image_ref ref)\<rparr> else buildCopy)
               in (case w_CreateBuildPod w buildCopy' of
                     Inl err \<Rightarrow>
                       let e = ErrorfE ''failed to create a build pod spec for build %s/%s: %v''
                         [b_Namespace b, b_Name b] [err]
                       in (s, set_reason ''CannotCreateBuildPodSpec'' ''Failed to create pod spec.'' b',
                           Some (if IsFatal err then FatalErr e else e))
                   | Inr podSpec \<Rightarrow>
                       (case w_ApplyDefaults w podSpec of
                          (podSpec1, Some err) \<Rightarrow>
                            (s, b', Some (ErrorfE ''failed to apply build defaults for build %s/%s: %v''
                              [b_Namespace b, b_Name b] [err]))
                        | (podSpec1, None) \<Rightarrow>
                            (case w_ApplyOverrides w podSpec1 of
                               (podSpec2, Some err) \<Rightarrow>
                                 (s, b', Some (ErrorfE ''failed to apply build overrides for build %s/%s: %v''
                                   [b_Namespace b, b_Name b] [err]))
                             | (podSpec2, None) \<Rightarrow> create_pod w b' podSpec2 s))))))"

text \<open>The part of \<open>HandleBuild\<close> after the cancellation.\<close>

definition handle_new ::
  "'s build_world \<Rightarrow> run_policy list \<Rightarrow> build \<Rightarrow> 's \<Rightarrow> 's \<times> build \<times> go_error option" where
  "handle_new w runPolicies b s =
     (if b_Phase b \<noteq> PhaseNew then (s, b, None)
      else (case ForBuild b runPolicies of
        None \<Rightarrow> (s, b, Some (Errorf ''unable to determine build scheduler for %s/%s'' [b_Namespace b, b_Name b]))
      | Some runPolicy \<Rightarrow>
          (case IsRunnable (api_of w) (w_Ticks w) runPolicy b s of
             (s', run, err) \<Rightarrow>
               if err \<noteq> None \<or> \<not> run then (s', b, err)
               else (case nextBuildPhase w b s' of
                       (s'', b', Some e) \<Rightarrow> (s'', b', Some e)
                     | (s'', b', None) \<Rightarrow> (fst (update_build w s'' b'), b', None)))))"

definition HandleBuild ::
  "'s build_world \<Rightarrow> run_policy list \<Rightarrow> int \<Rightarrow> build \<Rightarrow> 's \<Rightarrow> ('s \<times> build \<times> go_error option) option" where
  "HandleBuild w runPolicies now b s =
     (if b_Pipeline b then Some (s, b, None)
      else if b_Cancelled b \<and> b_Phase b \<noteq> PhaseCancelled then
        (case CancelBuild w runPolicies now b s of
           None \<Rightarrow> None
         | Some (s', b', Some cancelErr) \<Rightarrow>
             let b'' = set_reason ''CancelBuildFailed'' ''Failed to cancel build.'' b' in
             (case update_build w s' b'' of
                (s'', err) \<Rightarrow>
                  Some (s'', b'', Some (ErrorfE ''Failed to cancel build %s/%s: %v, will retry''
                    [b_Namespace b, b_Name b] (case err of None \<Rightarrow> [] | Some e \<Rightarrow> [e]))))
         | Some (s', b', None) \<Rightarrow> Some (handle_new w runPolicies b' s'))
      else Some (handle_new w runPolicies b s))"

section \<open>\<open>BuildPodController\<close>, \<open>BuildPodDeleteController\<close> and \<open>BuildDeleteController\<close>\<close>

text \<open>
  What the pod's phase makes of the build: the build with its reason and message changed, and the
  next phase.
\<close>

definition pod_status :: "'s build_world \<Rightarrow> 's \<Rightarrow> build_pod \<Rightarrow> build \<Rightarrow> build \<times> build_phase" where
  "pod_status w s pod b =
     (if b_Phase b = PhaseFailed then (b, b_Phase b)
      else (case p_Phase pod of
        PodRunning \<Rightarrow> (set_reason [] [] b, PhaseRunning)
      | PodPending \<Rightarrow>
          (case b_PushSecret b of
             None \<Rightarrow> (set_reason [] [] b, PhasePending)
           | Some secret \<Rightarrow>
               if b_Reason b \<noteq> ''MissingPushSecret'' \<and>
                  (case api_GetSecret w s (b_Namespace b) secret of
                     None \<Rightarrow> False | Some err \<Rightarrow> IsNotFound err)
               then (set_reason ''MissingPushSecret'' ''Missing push secret.'' b, PhasePending)
               else (set_reason [] [] b, PhasePending))
      | PodSucceeded \<Rightarrow>
          (set_reason [] [] b,
           if p_ExitCodes pod = [] then PhaseFailed
           else if list_ex (\<lambda>c. c \<noteq> None \<and> c \<noteq> Some 0) (p_ExitCodes pod) then PhaseFailed
           else PhaseComplete)
      | PodFailed \<Rightarrow> (b, PhaseFailed)
      | PodPhaseOther ph \<Rightarrow> (set_reason [] [] b, b_Phase b)))"

text \<open>
  \<open>got\<close> is what the build store holds for the pod's build; the result has the build as the
  handler leaves it there.
\<close>

definition HandlePod ::
  "'s build_world \<Rightarrow> run_policy list \<Rightarrow> int \<Rightarrow> go_error + build option \<Rightarrow> build_pod \<Rightarrow> 's
   \<Rightarrow> ('s \<times> build option \<times> go_error option) option" where
  "HandlePod w runPolicies now got pod s =
     (case got of
        Inl err \<Rightarrow> Some (s, None, Some err)
      | Inr None \<Rightarrow> Some (s, None, None)
      | Inr (Some build) \<Rightarrow>
          let (b, nextStatus) = pod_status w s pod build in
          if (\<not> hasBuildPodNameAnnotation b \<or> b_Phase b \<noteq> nextStatus \<or> b_Phase b = PhaseFailed)
             \<and> \<not> IsBuildComplete b then
            let b1 = (setBuildPodNameAnnotation (p_Name pod) b)\<lparr>b_Phase := nextStatus\<rparr>;
                b2 = (if IsBuildComplete b1 then setBuildCompletionTimeAndDuration now b1 else b1);
                b3 = (if b_Phase b2 = PhaseRunning then b2\<lparr>b_Start := Some now\<rparr> else b2)
            in (case update_build w s b3 of
                  (s', Some err) \<Rightarrow>
                    Some (s', Some b3, Some (ErrorfE ''failed to update build %s/%s: %v''
                      [b_Namespace b, b_Name b] [err]))
                | (s', None) \<Rightarrow>
                    if IsBuildComplete b3
                    then map_option (\<lambda>s''. (s'', Some b3, None)) (handleBuildCompletion w b3 runPolicies s')
                    else Some (s', Some b3, None))
          else Some (s, Some b, None))"

definition HandleBuildPodDeletion ::
  "'s build_world \<Rightarrow> int \<Rightarrow> go_error + build option \<Rightarrow> 's \<Rightarrow> 's \<times> build option \<times> go_error option" where
  "HandleBuildPodDeletion w now got s =
     (case got of
        Inl err \<Rightarrow> (s, None, Some err)
      | Inr None \<Rightarrow> (s, None, None)
      | Inr (Some b) \<Rightarrow>
          if b_Pipeline b \<or> b_Cancelled b \<or> IsBuildComplete b then (s, Some b, None)
          else if b_Phase b \<noteq> PhaseError then
            let b' = setBuildCompletionTimeAndDuration now
              (set_reason ''BuildPodDeleted'' ''The pod for this build was deleted before the build completed.''
                (b\<lparr>b_Phase := PhaseError\<rparr>))
            in (case update_build w s b' of
                  (s', Some err) \<Rightarrow>
                    (s', Some b', Some (ErrorfE ''Failed to update build %s/%s: %v'' [b_Namespace b, b_Name b] [err]))
                | (s', None) \<Rightarrow> (s', Some b', None))
          else (s, Some b, None))"

text \<open>
  \<open>GetPod\<close> returns an error or a pod here, so the code's test for a nil pod is the not-found case.
\<close>

definition HandleBuildDeletion :: "'s build_world \<Rightarrow> build \<Rightarrow> 's \<Rightarrow> 's \<times> go_error option" where
  "HandleBuildDeletion w b s =
     (if b_Pipeline b then (s, None)
      else (case api_GetPod w s (b_Namespace b) (GetBuildPodName b) of
        Inl err \<Rightarrow> if IsNotFound err then (s, None) else (s, Some err)
      | Inr pod \<Rightarrow>
          if GetBuildName pod \<noteq> b_Name b then (s, None)
          else (case api_DeletePod w s (b_Namespace b) pod of
                  (s', None) \<Rightarrow> (s', None)
                | (s', Some err) \<Rightarrow> if IsNotFound err then (s', None) else (s', Some err))))"

section \<open>The retries of the build queue\<close>

text \<open>\<open>limitedLogAndRetry\<close>: \<open>sentence\<close> is the text of the error as \<open>ErrorToSentence\<close> gives it.\<close>

definition limitedLogAndRetry ::
  "'s build_world \<Rightarrow> (go_error \<Rightarrow> string) \<Rightarrow> int \<Rightarrow> int \<Rightarrow> int \<Rightarrow> build \<Rightarrow> go_error \<Rightarrow> 's
   \<Rightarrow> 's \<times> build \<times> bool" where
  "limitedLogAndRetry w sentence maxTimeout start now b err s =
     (if \<not> IsFatal err \<and> now - start < maxTimeout then (s, b, True)
      else
        let b1 = b\<lparr>b_Phase := PhaseFailed\<rparr>;
            b2 = (if \<not> IsFatal err
                  then set_reason ''ExceededRetryTimeout'' ''Build did not complete and retrying timed out.'' b1
                  else b1);
            b3 = b2\<lparr>b_Message := sentence err, b_Completion := Some now\<rparr>
        in (case update_build w s b3 of
              (s', Some e) \<Rightarrow> (s', b3, \<not> IsNotFound e)
            | (s', None) \<Rightarrow> (s', b3, False)))"

text \<open>The handler of the queue, which records the error of \<open>HandleBuild\<close> in the build.\<close>

definition queue_Handle ::
  "'s build_world \<Rightarrow> run_policy list \<Rightarrow> (go_error \<Rightarrow> string) \<Rightarrow> int \<Rightarrow> build \<Rightarrow> 's
   \<Rightarrow> ('s \<times> build \<times> go_error option) option" where
  "queue_Handle w runPolicies sentence now b s =
     (case HandleBuild w runPolicies now b s of
        Some (s', b', Some err) \<Rightarrow>
          if b_Message b' \<noteq> sentence err then
            let b1 = (if b_Reason b' = [] then b'\<lparr>b_Reason := ''Error''\<rparr> else b');
                b2 = b1\<lparr>b_Message := sentence err\<rparr>
            in Some (fst (update_build w s' b2), b2, Some err)
          else Some (s', b', Some err)
      | res \<Rightarrow> res)"

section \<open>No handler panics\<close>

lemma handleBuildCompletion_total: "handleBuildCompletion w b ps s \<noteq> None"
  by (simp add: handleBuildCompletion_def OnComplete_def handleComplete_total del: not_None_eq split: option.splits)

lemma CancelBuild_total: "CancelBuild w ps now b s \<noteq> None"
  by (simp add: CancelBuild_def Let_def handleBuildCompletion_total del: not_None_eq split: prod.splits option.splits)

theorem build_handlers_never_panic:
  "HandleBuild w ps now b s \<noteq> None \<and> HandlePod w ps now got pod s \<noteq> None"
proof
  show "HandleBuild w ps now b s \<noteq> None"
    by (auto simp: HandleBuild_def Let_def CancelBuild_total simp del: not_None_eq split: prod.splits option.splits)
  show "HandlePod w ps now got pod s \<noteq> None"
    by (auto simp: HandlePod_def Let_def handleBuildCompletion_total simp del: not_None_eq
        split: sum.splits prod.splits option.splits)
qed

text \<open>
  A pending build whose pod is pending is never updated again, whatever happens to its push secret:
  a new reason alone is not recorded.
\<close>

lemma reason_change_is_not_recorded:
  assumes "hasBuildPodNameAnnotation b" "b_Phase b = PhasePending" "p_Phase pod = PodPending"
  shows "\<exists>b'. HandlePod w ps now (Inr (Some b)) pod s = Some (s, Some b', None)"
proof -
  obtain b' ph where st: "pod_status w s pod b = (b', ph)" by fastforce
  then have "ph = PhasePending" "b_Phase b' = PhasePending" "hasBuildPodNameAnnotation b'"
    using assms by (auto simp: pod_status_def set_reason_def hasBuildPodNameAnnotation_def
        split: if_splits option.splits)
  then show ?thesis using st by (simp add: HandlePod_def)
qed

section \<open>Worlds for examples\<close>

text \<open>Pods are created and found missing; the build operations are those of the argument.\<close>

definition sample_world :: "'s build_api \<Rightarrow> 's build_world" where
  "sample_world api =
     \<lparr>api_List = api_List api, api_Update = api_Update api,
      api_GetPod = (\<lambda>s ns n. Inl (NotFoundErr ''pods'' n)), api_CreatePod = (\<lambda>s ns p. (s, None)),
      api_DeletePod = (\<lambda>s ns p. (s, None)), api_GetImageStream = (\<lambda>s ns n. Inl (NotFoundErr ''imagestreams'' n)),
      api_GetSecret = (\<lambda>s ns n. None), w_Copy = Inr,
      w_CreateBuildPod = (\<lambda>b. Inr \<lparr>p_Namespace = b_Namespace b, p_Name = b_Name b @ ''-build'',
        p_Annotations = [(BuildAnnotation, b_Name b)], p_Created = 1, p_Phase = PodPending, p_ExitCodes = []\<rparr>),
      w_ApplyDefaults = (\<lambda>p. (p, None)), w_ApplyOverrides = (\<lambda>p. (p, None)), w_Ticks = 3,
      w_Uuid = (\<lambda>b. ''uuid'')\<rparr>"

definition list_world :: "build list build_world" where
  "list_world = sample_world list_api"

text \<open>The next update fails while the flag is set.\<close>

definition flaky_world :: "(bool \<times> build list) build_world" where
  "flaky_world = sample_world
     \<lparr>api_List = (\<lambda>s. api_List list_api (snd s)),
      api_Update = (\<lambda>s ns b. if fst s then ((False, snd s), Some ErrWaitTimeout)
        else (case api_Update list_api (snd s) ns b of (bs, e) \<Rightarrow> ((False, bs), e)))\<rparr>"

definition sample_pod :: "string \<Rightarrow> pod_phase \<Rightarrow> build_pod" where
  "sample_pod n ph =
     \<lparr>p_Namespace = ''ns'', p_Name = n @ ''-build'', p_Annotations = [(BuildAnnotation, n)], p_Created = 1,
      p_Phase = ph, p_ExitCodes = [Some 0]\<rparr>"

section \<open>Properties\<close>

text \<open>
  C37: a completed build stays as it is: none of the handlers of builds, pods and deleted pods changes
  the cluster or the phase of the build, whatever the pod reports.
\<close>

theorem completed_builds_stay_completed:
  assumes "IsBuildComplete b"
  shows "HandleBuild w ps now b s = Some (s, b, None) \<and>
    (\<exists>b'. HandlePod w ps now (Inr (Some b)) pod s = Some (s, Some b', None) \<and> b_Phase b' = b_Phase b) \<and>
    HandleBuildPodDeletion w now (Inr (Some b)) s = (s, Some b, None)"
proof (intro conjI)
  show "HandleBuild w ps now b s = Some (s, b, None)"
    using assms by (auto simp: HandleBuild_def CancelBuild_def isBuildCancellable_def IsBuildComplete_def handle_new_def)
  obtain b' ph where st: "pod_status w s pod b = (b', ph)" by fastforce
  then have "b_Phase b' = b_Phase b"
    by (auto simp: pod_status_def set_reason_def split: if_splits pod_phase.splits option.splits)
  then show "\<exists>b'. HandlePod w ps now (Inr (Some b)) pod s = Some (s, Some b', None) \<and> b_Phase b' = b_Phase b"
    using st assms by (simp add: HandlePod_def Let_def IsBuildComplete_def)
  show "HandleBuildPodDeletion w now (Inr (Some b)) s = (s, Some b, None)"
    using assms by (simp add: HandleBuildPodDeletion_def)
qed

lemma completed_builds_stay_completed_witness:
  "HandleBuild list_world GetAllRunPolicies 5 (sample_build ''a'' ''Serial'' ''1'' PhaseComplete) [] =
   Some ([], sample_build ''a'' ''Serial'' ''1'' PhaseComplete, None)"
  using completed_builds_stay_completed [of "sample_build ''a'' ''Serial'' ''1'' PhaseComplete" list_world
      GetAllRunPolicies 5 "[]" "sample_pod ''a'' PodRunning"]
  by (simp add: IsBuildComplete_def)

text \<open>
  The pod handler changes the cached build before it updates the server, so when the update
  fails the retry with the same pod finds nothing to do: the change of phase is not sent again.
\<close>

theorem failed_pod_update_is_not_retried:
  assumes "HandlePod w ps now (Inr (Some b)) pod s = Some (s1, Some b1, Some e)"
  shows "\<exists>b2. HandlePod w ps now' (Inr (Some b1)) pod s1 = Some (s1, Some b2, None) \<and> b_Phase b2 = b_Phase b1"
proof -
  obtain b0 ph where st: "pod_status w s pod b = (b0, ph)" by fastforce
  then have b0: "b_Phase b0 = b_Phase b"
    by (auto simp: pod_status_def set_reason_def split: if_splits pod_phase.splits option.splits)
  from assms st have "b_Phase b1 = ph \<and> hasBuildPodNameAnnotation b1"
    by (auto simp: HandlePod_def Let_def setBuildPodNameAnnotation_def hasBuildPodNameAnnotation_def
        setBuildCompletionTimeAndDuration_def update_conv'
        split: if_splits prod.splits option.splits)
  moreover obtain b2 ph2 where st2: "pod_status w s1 pod b1 = (b2, ph2)" by fastforce
  moreover have "b_Phase b2 = b_Phase b1" "hasBuildPodNameAnnotation b2 = hasBuildPodNameAnnotation b1"
    using st2 by (auto simp: pod_status_def set_reason_def hasBuildPodNameAnnotation_def
        split: if_splits pod_phase.splits option.splits)
  moreover have "ph2 = ph"
    using st st2 \<open>b_Phase b1 = ph \<and> hasBuildPodNameAnnotation b1\<close> b0
    by (auto simp: pod_status_def split: if_splits pod_phase.splits option.splits)
  ultimately show ?thesis
    by (auto simp: HandlePod_def Let_def IsBuildComplete_def)
qed

lemma failed_pod_update_is_not_retried_witness:
  "\<exists>b1 b2. HandlePod flaky_world GetAllRunPolicies 7
       (Inr (Some (sample_build ''a'' ''Serial'' ''1'' PhaseRunning))) (sample_pod ''a'' PodSucceeded)
       (True, [sample_build ''a'' ''Serial'' ''1'' PhaseRunning]) =
     Some ((False, [sample_build ''a'' ''Serial'' ''1'' PhaseRunning]), Some b1,
       Some (ErrorfE ''failed to update build %s/%s: %v'' [''ns'', ''a''] [ErrWaitTimeout])) \<and>
     HandlePod flaky_world GetAllRunPolicies 8 (Inr (Some b1)) (sample_pod ''a'' PodSucceeded)
       (False, [sample_build ''a'' ''Serial'' ''1'' PhaseRunning]) =
     Some ((False, [sample_build ''a'' ''Serial'' ''1'' PhaseRunning]), Some b2, None)"
proof -
  let ?s = "\<lambda>f. (f, [sample_build ''a'' ''Serial'' ''1'' PhaseRunning])"
  have "\<exists>b1. HandlePod flaky_world GetAllRunPolicies 7
       (Inr (Some (sample_build ''a'' ''Serial'' ''1'' PhaseRunning))) (sample_pod ''a'' PodSucceeded) (?s True) =
     Some (?s False, Some b1, Some (ErrorfE ''failed to update build %s/%s: %v'' [''ns'', ''a''] [ErrWaitTimeout]))"
    by (simp add: HandlePod_def pod_status_def sample_pod_def set_reason_def hasBuildPodNameAnnotation_def
        IsBuildComplete_def Let_def update_build_def flaky_world_def sample_world_def sample_build_def
        setBuildPodNameAnnotation_def setBuildCompletionTimeAndDuration_def annotation_names)
  then obtain b1 where b1: "HandlePod flaky_world GetAllRunPolicies 7
       (Inr (Some (sample_build ''a'' ''Serial'' ''1'' PhaseRunning))) (sample_pod ''a'' PodSucceeded) (?s True) =
     Some (?s False, Some b1, Some (ErrorfE ''failed to update build %s/%s: %v'' [''ns'', ''a''] [ErrWaitTimeout]))"
    by blast
  from failed_pod_update_is_not_retried [OF b1, of 8] b1 show ?thesis by blast
qed

text \<open>
  When the update of a cancelled build fails once and the second update, which only records the
  failure, succeeds, the build is stored as cancelled and as a failed cancellation, the error returned
  does not name its cause, and the retry ends without telling the run policy that the build completed.
\<close>

theorem failed_cancel_forgets_completion:
  assumes "\<not> b_Pipeline b" "b_Cancelled b" "isBuildCancellable b"
    and "delete_build_pod w b s = (s1, None)"
    and "update_build w s1 (cancelled_build now b) = (s2, Some err)"
    and "b' = set_reason ''CancelBuildFailed'' ''Failed to cancel build.'' (cancelled_build now b)"
    and "update_build w s2 b' = (s3, None)"
  shows "HandleBuild w ps now b s = Some (s3, b',
      Some (ErrorfE ''Failed to cancel build %s/%s: %v, will retry'' [b_Namespace b, b_Name b] [])) \<and>
    b_Phase b' = PhaseCancelled \<and> HandleBuild w ps now' b' s3 = Some (s3, b', None)"
proof -
  have ph: "b_Phase b' = PhaseCancelled"
    by (simp add: assms(6) set_reason_def cancelled_build_def setBuildCompletionTimeAndDuration_def Let_def
        split: option.splits)
  have "CancelBuild w ps now b s =
      Some (s2, cancelled_build now b, Some (ErrorfE ''Failed to update build %s/%s: %v'' [b_Namespace b, b_Name b] [err]))"
    using assms(3-5) by (simp add: CancelBuild_def Let_def)
  moreover have "b_Phase b \<noteq> PhaseCancelled" using assms(3) by (auto simp: isBuildCancellable_def)
  ultimately have "HandleBuild w ps now b s = Some (s3, b',
      Some (ErrorfE ''Failed to cancel build %s/%s: %v, will retry'' [b_Namespace b, b_Name b] []))"
    using assms by (simp add: HandleBuild_def Let_def)
  moreover have "HandleBuild w ps now' b' s3 = Some (s3, b', None)"
    using ph by (auto simp: HandleBuild_def handle_new_def)
  ultimately show ?thesis using ph by blast
qed

lemma failed_cancel_forgets_completion_witness:
  "\<exists>b'. HandleBuild flaky_world GetAllRunPolicies 7 ((sample_build ''a'' ''Serial'' ''1'' PhaseNew)\<lparr>b_Cancelled := True\<rparr>)
      (True, []) = Some ((False, []), b', Some (ErrorfE ''Failed to cancel build %s/%s: %v, will retry'' [''ns'', ''a''] [])) \<and>
     b_Phase b' = PhaseCancelled"
  using failed_cancel_forgets_completion [of "(sample_build ''a'' ''Serial'' ''1'' PhaseNew)\<lparr>b_Cancelled := True\<rparr>"
      flaky_world "(True, [])" "(True, [])" 7 "(False, [])" ErrWaitTimeout _ "(False, [])" GetAllRunPolicies 8, OF _ _ _ _ _ refl]
  by (simp add: isBuildCancellable_def delete_build_pod_def update_build_def flaky_world_def sample_world_def list_api_def
      sample_build_def cancelled_build_def set_reason_def setBuildCompletionTimeAndDuration_def)

end
