(* ===== verification/Build_Run.thy ===== *)
theory Build_Run
  imports Build_Controller
begin

text \<open>
  The builds of a cluster under the build controllers: what is assumed of the API server, the steps
  of the cluster, and the invariant that a serial build runs alone in its configuration.
\<close>

section \<open>The API server\<close>

definition bkey :: "build \<Rightarrow> string \<times> string" where
  "bkey b = (b_Namespace b, b_Name b)"

definition replace_build :: "build \<Rightarrow> build list \<Rightarrow> build list" where
  "replace_build b bs = map (\<lambda>x. if bkey x = bkey b then b else x) bs"

definition listed :: "string \<Rightarrow> selector \<Rightarrow> build list \<Rightarrow> build list" where
  "listed ns sel bs = filter (\<lambda>b. b_Namespace b = ns \<and> Selector_Matches sel (b_Labels b)) bs"

text \<open>
  A server that answers: a list returns the matching builds, an update replaces the build, and
  operations on pods leave the builds alone.
\<close>

definition server :: "'s build_world \<Rightarrow> ('s \<Rightarrow> build list) \<Rightarrow> bool" where
  "server w stored \<longleftrightarrow>
     (\<forall>s ns sel. api_List w s ns sel = Inr (listed ns sel (stored s))) \<and>
     (\<forall>s b. snd (update_build w s b) = None \<and> stored (fst (update_build w s b)) = replace_build b (stored s)) \<and>
     (\<forall>s ns p. stored (fst (api_CreatePod w s ns p)) = stored s) \<and>
     (\<forall>s ns p. stored (fst (api_DeletePod w s ns p)) = stored s)"

lemma server_List: "server w stored \<Longrightarrow> api_List w s ns sel = Inr (listed ns sel (stored s))"
  by (simp add: server_def)

lemma server_update:
  "server w stored \<Longrightarrow> update_build w s b = (s', e) \<Longrightarrow> e = None \<and> stored s' = replace_build b (stored s)"
  unfolding server_def by (metis fst_conv snd_conv)

lemma server_pods:
  "server w stored \<Longrightarrow> api_CreatePod w s ns p = (s', e) \<Longrightarrow> stored s' = stored s"
  "server w stored \<Longrightarrow> api_DeletePod w s ns p = (s', e) \<Longrightarrow> stored s' = stored s"
  unfolding server_def by (metis fst_conv)+

section \<open>What the handlers leave alone\<close>

text \<open>The identity of a build, its labels and its configuration; and the same with its phase.\<close>

definition ident :: "build \<Rightarrow> string \<times> string \<times> (string \<times> string) list \<times> string" where
  "ident b = (b_Namespace b, b_Name b, b_Labels b, ConfigNameForBuild b)"

definition core :: "build \<Rightarrow> (string \<times> string \<times> (string \<times> string) list \<times> string) \<times> build_phase" where
  "core b = (ident b, b_Phase b)"

abbreviation cores :: "build list \<Rightarrow> ((string \<times> string \<times> (string \<times> string) list \<times> string) \<times> build_phase) list" where
  "cores bs \<equiv> map core bs"

definition rephase :: "string \<times> string \<Rightarrow> build_phase \<Rightarrow> build list \<Rightarrow> build list" where
  "rephase k ph bs = map (\<lambda>x. if bkey x = k then x\<lparr>b_Phase := ph\<rparr> else x) bs"

lemma ident_bkey: "ident b = ident c \<Longrightarrow> bkey b = bkey c"
  by (simp add: ident_def bkey_def)

lemma ident_updates [simp]:
  "ident (b\<lparr>b_Phase := x1\<rparr>) = ident b" "ident (b\<lparr>b_Cancelled := x2\<rparr>) = ident b"
  "ident (b\<lparr>b_Start := x3\<rparr>) = ident b" "ident (b\<lparr>b_Completion := x4\<rparr>) = ident b"
  "ident (b\<lparr>b_Duration := x5\<rparr>) = ident b" "ident (b\<lparr>b_OutputRef := x6\<rparr>) = ident b"
  "ident (b\<lparr>b_Reason := x7\<rparr>) = ident b" "ident (b\<lparr>b_Message := x8\<rparr>) = ident b"
  "ident (set_reason r m b) = ident b"
  by (simp_all add: ident_def set_reason_def ConfigNameForBuild_def annotations_of_def
      cong: option.case_cong)

lemma ident_completion [simp]: "ident (setBuildCompletionTimeAndDuration now b) = ident b"
  by (simp add: setBuildCompletionTimeAndDuration_def Let_def split: option.splits)

lemma phase_updates [simp]:
  "b_Phase (set_reason r m b) = b_Phase b" "b_Phase (setBuildCompletionTimeAndDuration now b) = b_Phase b"
  "b_Phase (setBuildPodNameAnnotation n b) = b_Phase b"
  by (simp_all add: set_reason_def setBuildCompletionTimeAndDuration_def setBuildPodNameAnnotation_def
      Let_def split: option.splits)

lemma ident_annotation:
  "k \<noteq> BuildConfigAnnotation \<Longrightarrow> annotations_of b' = AList.update k v (annotations_of b) \<Longrightarrow>
   b_Namespace b' = b_Namespace b \<Longrightarrow> b_Name b' = b_Name b \<Longrightarrow> b_Labels b' = b_Labels b \<Longrightarrow>
   ident b' = ident b"
  by (simp add: ident_def ConfigNameForBuild_def update_conv' cong: option.case_cong)

lemma ident_pod_name [simp]: "ident (setBuildPodNameAnnotation n b) = ident b"
  by (rule ident_annotation [where k = BuildPodNameAnnotation and v = n])
    (simp_all add: setBuildPodNameAnnotation_def annotations_of_def annotation_names)

lemma set_annotation_core:
  "set_annotation BuildAcceptedAnnotation v b = Some b' \<Longrightarrow> core b' = core b"
proof -
  assume "set_annotation BuildAcceptedAnnotation v b = Some b'"
  then obtain m where "b_Annotations b = Some m" "b' = b\<lparr>b_Annotations := Some (AList.update BuildAcceptedAnnotation v m)\<rparr>"
    by (auto simp: set_annotation_def split: option.splits)
  then have "ident b' = ident b"
    by (intro ident_annotation [where k = BuildAcceptedAnnotation and v = v])
      (simp_all add: annotations_of_def annotation_names)
  then show ?thesis using \<open>b' = _\<close> by (simp add: core_def)
qed

lemma cores_replace:
  assumes "distinct (map bkey bs)" "c \<in> set bs" "ident c = ident b"
  shows "cores (replace_build b bs) = cores (rephase (bkey c) (b_Phase b) bs)"
proof -
  have "core b = core (x\<lparr>b_Phase := b_Phase b\<rparr>)" if "x \<in> set bs" "bkey x = bkey c" for x
  proof -
    have "x = c" using assms(1,2) that by (auto simp: distinct_map inj_on_def)
    then show ?thesis using assms(3) by (simp add: core_def)
  qed
  then show ?thesis
    using ident_bkey [OF assms(3)] by (auto simp: replace_build_def rephase_def)
qed

lemma rephase_same:
  assumes "distinct (map bkey bs)" "c \<in> set bs"
  shows "rephase (bkey c) (b_Phase c) bs = bs"
proof -
  have "x\<lparr>b_Phase := b_Phase c\<rparr> = x" if "x \<in> set bs" "bkey x = bkey c" for x
  proof -
    have "x = c" using assms that by (auto simp: distinct_map inj_on_def)
    then show ?thesis by simp
  qed
  then show ?thesis by (auto simp: rephase_def intro: map_idI)
qed

lemma bkey_core: "bkey b = (fst (fst (core b)), fst (snd (fst (core b))))"
  by (simp add: bkey_def core_def ident_def)

lemma core_bkey: "core b = core c \<Longrightarrow> bkey b = bkey c"
  by (simp add: bkey_core)

lemma cores_keys: "cores bs = cores bs' \<Longrightarrow> map bkey bs = map bkey bs'"
proof -
  assume "cores bs = cores bs'"
  then have "map (\<lambda>c. (fst (fst c), fst (snd (fst c)))) (cores bs) =
      map (\<lambda>c. (fst (fst c), fst (snd (fst c)))) (cores bs')" by simp
  then show ?thesis by (simp add: comp_def flip: bkey_core)
qed

lemma cores_mem: "cores bs = cores bs' \<Longrightarrow> b \<in> set bs \<Longrightarrow> \<exists>c \<in> set bs'. core c = core b"
proof -
  assume "cores bs = cores bs'" "b \<in> set bs"
  then have "core b \<in> core ` set bs'" by (metis image_eqI list.set_map)
  then show ?thesis by auto
qed

lemma cores_replace_same:
  "distinct (map bkey bs) \<Longrightarrow> c \<in> set bs \<Longrightarrow> core c = core b \<Longrightarrow> cores (replace_build b bs) = cores bs"
  using cores_replace [of bs c b] rephase_same [of bs c] by (simp add: core_def)

lemma cores_rephase: "cores xs = cores ys \<Longrightarrow> cores (rephase k ph xs) = cores (rephase k ph ys)"
proof -
  have step: "core (if bkey x = k then x\<lparr>b_Phase := ph\<rparr> else x) =
      (if (fst (fst (core x)), fst (snd (fst (core x)))) = k then (fst (core x), ph) else core x)" for x
    by (simp add: bkey_core) (simp add: core_def)
  have "cores (rephase k ph zs) =
      map (\<lambda>c. if (fst (fst c), fst (snd (fst c))) = k then (fst c, ph) else c) (cores zs)" for zs
    by (simp add: rephase_def step comp_def)
  moreover assume "cores xs = cores ys"
  ultimately show ?thesis by (simp del: map_map)
qed

section \<open>Loops of updates\<close>

text \<open>An update of the server is accepted at once, so the polls return after their first attempt.\<close>

lemma Poll_server:
  assumes "server w stored" "Poll ticks (update_condition (api_of w) b) s = (s', e)"
  shows "e = None \<and> stored s' = replace_build b (stored s)"
proof -
  obtain s1 e1 where u: "update_build w s b = (s1, e1)" by fastforce
  with server_update [OF assms(1) u] assms(2) show ?thesis
    by (auto simp: Poll.simps [of ticks] update_condition_def update_build_def)
qed

text \<open>\<open>fresh bs s\<close>: the builds are copies of stored ones.\<close>

definition copies :: "build list \<Rightarrow> build list \<Rightarrow> bool" where
  "copies bs stored_bs \<longleftrightarrow> core ` set bs \<subseteq> core ` set stored_bs"

lemma copies_cores: "cores xs = cores ys \<Longrightarrow> copies bs xs = copies bs ys"
  unfolding copies_def by (metis list.set_map)

lemma copies_Cons: "copies (b # bs) xs \<longleftrightarrow> (\<exists>c \<in> set xs. core c = core b) \<and> copies bs xs"
  unfolding copies_def by (force simp: image_iff)

lemma copies_subset: "set bs \<subseteq> set xs \<Longrightarrow> copies bs xs"
  unfolding copies_def by blast

lemma cores_distinct: "cores xs = cores ys \<Longrightarrow> distinct (map bkey xs) = distinct (map bkey ys)"
  by (metis cores_keys)

lemma accept_loop_cores:
  assumes "server w stored" "distinct (map bkey (stored s))" "copies bs (stored s)"
    "accept_loop (api_of w) ticks uuid bs s = Some (s', e)"
  shows "cores (stored s') = cores (stored s)"
  using assms(2-)
proof (induction bs arbitrary: s)
  case (Cons b bs)
  obtain b' where b': "set_annotation BuildAcceptedAnnotation (uuid b) b = Some b'"
    using Cons.prems(3) by (auto split: option.splits)
  obtain s1 e1 where poll: "Poll ticks (update_condition (api_of w) b') s = (s1, e1)" by fastforce
  note p = Poll_server [OF assms(1) poll]
  obtain c where "c \<in> set (stored s)" "core c = core b'"
    using Cons.prems(2) set_annotation_core [OF b'] by (auto simp: copies_Cons)
  then have same: "cores (stored s1) = cores (stored s)"
    using cores_replace_same Cons.prems(1) p by simp
  have rest: "accept_loop (api_of w) ticks uuid bs s1 = Some (s', e)"
    using Cons.prems(3) b' poll p by simp
  have "distinct (map bkey (stored s1))" "copies bs (stored s1)"
    using Cons.prems(1,2) cores_distinct [OF same] copies_cores [OF same] by (simp_all add: copies_Cons)
  from Cons.IH [OF this rest] same show ?case by simp
qed simp

lemma cancel_loop_cores:
  assumes "server w stored" "distinct (map bkey (stored s))" "copies bs (stored s)"
    "cancel_loop (api_of w) ticks bs s errs = (s', errs')"
  shows "cores (stored s') = cores (stored s)"
  using assms(2-)
proof (induction bs arbitrary: s)
  case (Cons b bs)
  obtain s1 e1 where poll: "Poll ticks (update_condition (api_of w) (b\<lparr>b_Cancelled := True\<rparr>)) s = (s1, e1)"
    by fastforce
  note p = Poll_server [OF assms(1) poll]
  obtain c where "c \<in> set (stored s)" "core c = core (b\<lparr>b_Cancelled := True\<rparr>)"
    using Cons.prems(2) by (auto simp: copies_Cons core_def)
  then have same: "cores (stored s1) = cores (stored s)"
    using cores_replace_same Cons.prems(1) p by simp
  have rest: "cancel_loop (api_of w) ticks bs s1 errs = (s', errs')"
    using Cons.prems(3) poll p by simp
  have "distinct (map bkey (stored s1))" "copies bs (stored s1)"
    using Cons.prems(1,2) cores_distinct [OF same] copies_cores [OF same] by (simp_all add: copies_Cons)
  from Cons.IH [OF this rest] same show ?case by simp
qed simp

lemma listed_subset: "set (listed ns sel bs) \<subseteq> set bs"
  by (auto simp: listed_def)

lemma server_listing: "server w stored \<Longrightarrow> listing (api_List w) b s =
    Inr (listed (b_Namespace b) (BuildConfigSelector (ConfigNameForBuild b)) (stored s))"
  by (simp add: listing_def server_List)

lemma handleComplete_cores:
  assumes "server w stored" "distinct (map bkey (stored s))"
    "handleComplete (api_of w) ticks uuid b s = Some (s', e)"
  shows "cores (stored s') = cores (stored s)"
proof (cases "s' = s")
  case False
  then obtain nextBuilds where gn: "GetNextConfigBuild (api_List w s) (b_Namespace b) (ConfigNameForBuild b) = (False, Inr nextBuilds)"
    and loop: "accept_loop (api_of w) ticks uuid nextBuilds s = Some (s', e)"
    using assms(3) by (auto simp: handleComplete_def Let_def split: if_splits prod.splits sum.splits)
  have "set nextBuilds \<subseteq> set (stored s)"
    using GetNextConfigBuild_members [OF server_List [OF assms(1)] gn] listed_subset by (fastforce simp: queued_def)
  then show ?thesis using accept_loop_cores [OF assms(1,2) copies_subset loop] by blast
qed simp

lemma cancelPreviousBuilds_cores:
  assumes "server w stored" "distinct (map bkey (stored s))"
    "cancelPreviousBuilds (api_of w) ticks b s = (s', errs)"
  shows "cores (stored s') = cores (stored s)"
proof (cases "s' = s")
  case False
  then obtain P where loop: "cancel_loop (api_of w) ticks
      (filter P (listed (b_Namespace b) (BuildConfigSelector (ConfigNameForBuild b)) (stored s))) s [] = (s', errs)"
    using assms(3)
    by (auto simp: cancelPreviousBuilds_def BuildConfigBuilds_def server_List [OF assms(1)] Let_def
        filter_loop_pure split: if_splits prod.splits option.splits)
  show ?thesis
    by (rule cancel_loop_cores [OF assms(1,2) copies_subset loop]) (use listed_subset in fastforce)
qed simp

lemma IsRunnable_cores:
  assumes "server w stored" "distinct (map bkey (stored s))"
    "IsRunnable (api_of w) ticks p b s = (s', run, e)"
  shows "cores (stored s') = cores (stored s)"
proof (cases p)
  case SerialLatestOnlyPolicy
  obtain s1 errs where c: "cancelPreviousBuilds (api_of w) ticks b s = (s1, errs)" by fastforce
  then have "s' = s \<or> s' = s1"
    using assms(3) SerialLatestOnlyPolicy
    by (auto simp: IsRunnable_def SerialLatestOnlyPolicy_IsRunnable_def Let_def
        split: if_splits prod.splits sum.splits option.splits)
  then show ?thesis using cancelPreviousBuilds_cores [OF assms(1,2) c] by auto
next
  case ParallelPolicy
  then show ?thesis using assms(3) by (auto simp: IsRunnable_def ParallelPolicy_IsRunnable_def Let_def split: if_splits)
next
  case SerialPolicy
  then show ?thesis using assms(3)
    by (auto simp: IsRunnable_def SerialPolicy_IsRunnable_def Let_def split: if_splits prod.splits sum.splits)
qed

lemma handleBuildCompletion_cores:
  assumes "server w stored" "distinct (map bkey (stored s))"
    "handleBuildCompletion w b ps s = Some s'"
  shows "cores (stored s') = cores (stored s)"
  using assms(3) handleComplete_cores [OF assms(1,2)]
  by (auto simp: handleBuildCompletion_def OnComplete_def split: if_splits option.splits)

section \<open>What a handler does to the phases\<close>

definition active_phase :: "build_phase \<Rightarrow> bool" where
  "active_phase ph \<longleftrightarrow> ph = PhasePending \<or> ph = PhaseRunning"

lemma is_active_phase: "is_active b \<longleftrightarrow> active_phase (b_Phase b)"
  by (simp add: is_active_def active_phase_def)

text \<open>The builds among which \<open>b\<close> may start: active ones are parallel, and so is \<open>b\<close>.\<close>

definition may_start :: "build \<Rightarrow> build list \<Rightarrow> bool" where
  "may_start b bs \<longleftrightarrow>
     (\<forall>c \<in> set (listed (b_Namespace b) (BuildConfigSelector (ConfigNameForBuild b)) bs).
        is_active c \<longrightarrow> BuildRunPolicy b = RunParallel \<and> BuildRunPolicy c = RunParallel)"

definition phase_effect :: "build \<Rightarrow> build list \<Rightarrow> build list \<Rightarrow> bool" where
  "phase_effect b bs bs' \<longleftrightarrow>
     (\<exists>ph. cores bs' = cores (rephase (bkey b) ph bs) \<and>
        (ph = b_Phase b \<or> \<not> active_phase ph \<or> is_active b \<or>
         (b_Phase b = PhaseNew \<and> ph = PhasePending \<and> (ConfigNameForBuild b \<noteq> [] \<longrightarrow> may_start b bs))))"

lemma phase_effect_none:
  "distinct (map bkey bs) \<Longrightarrow> b \<in> set bs \<Longrightarrow> cores bs' = cores bs \<Longrightarrow> phase_effect b bs bs'"
  unfolding phase_effect_def using rephase_same by (intro exI [of _ "b_Phase b"]) simp

lemma phase_effect_cores: "phase_effect b bs bs' \<Longrightarrow> cores bs'' = cores bs' \<Longrightarrow> phase_effect b bs bs''"
  by (simp add: phase_effect_def)

lemma phase_effect_replace:
  assumes "distinct (map bkey bs)" "b \<in> set bs" "ident b' = ident b" "bs' = replace_build b' bs"
    "b_Phase b' = b_Phase b \<or> \<not> active_phase (b_Phase b') \<or> is_active b"
  shows "phase_effect b bs bs'"
  unfolding phase_effect_def using assms cores_replace [of bs b b']
  by (intro exI [of _ "b_Phase b'"]) auto

lemma core_facts:
  assumes "core c = core d"
  shows "is_active c = is_active d" "BuildRunPolicy c = BuildRunPolicy d" "b_Namespace c = b_Namespace d"
    "b_Labels c = b_Labels d" "ConfigNameForBuild c = ConfigNameForBuild d"
  using assms by (simp_all add: core_def ident_def is_active_def BuildRunPolicy_def)

lemma may_start_cores: "cores bs = cores bs' \<Longrightarrow> may_start b bs \<Longrightarrow> may_start b bs'"
  unfolding may_start_def listed_def
proof (intro ballI impI)
  fix c
  assume "cores bs = cores bs'" and
    m: "\<forall>c\<in>set (filter (\<lambda>c. b_Namespace c = b_Namespace b \<and>
        Selector_Matches (BuildConfigSelector (ConfigNameForBuild b)) (b_Labels c)) bs).
      is_active c \<longrightarrow> BuildRunPolicy b = RunParallel \<and> BuildRunPolicy c = RunParallel" and
    c: "c \<in> set (filter (\<lambda>c. b_Namespace c = b_Namespace b \<and>
        Selector_Matches (BuildConfigSelector (ConfigNameForBuild b)) (b_Labels c)) bs')" "is_active c"
  then obtain d where "d \<in> set bs" "core d = core c"
    using cores_mem [of bs' bs c] \<open>cores bs = cores bs'\<close> by auto
  with m c core_facts [OF this(2)] show "BuildRunPolicy b = RunParallel \<and> BuildRunPolicy c = RunParallel"
    by auto
qed

lemma create_pod_effect:
  assumes "server w stored" "create_pod w b p s = (s', b', e)"
  shows "stored s' = stored s \<and> ident b' = ident b \<and> b_Phase b' \<in> {b_Phase b, PhasePending, PhaseError}"
  using assms(2) server_pods(1) [OF assms(1)]
  by (auto simp: create_pod_def split: prod.splits option.splits sum.splits if_splits)

lemma nextBuildPhase_effect:
  assumes "server w stored" "nextBuildPhase w b s = (s', b', e)"
  shows "stored s' = stored s \<and> ident b' = ident b \<and>
    b_Phase b' \<in> {b_Phase b, PhasePending, PhaseError, PhaseCancelled}"
  using assms(2) create_pod_effect [OF assms(1)]
  by (auto simp: nextBuildPhase_def Let_def split: if_splits sum.splits prod.splits option.splits; fastforce)

lemma handle_new_effect:
  assumes "server w stored" "distinct (map bkey (stored s))" "b \<in> set (stored s)"
    "handle_new w GetAllRunPolicies b s = (s', b', e)"
  shows "phase_effect b (stored s) (stored s')"
proof (cases "b_Phase b = PhaseNew")
  case True
  obtain s1 run err where run: "IsRunnable (api_of w) (w_Ticks w) (policy_of b) b s = (s1, run, err)"
    using prod_cases3 by blast
  note same = IsRunnable_cores [OF assms(1,2) run]
  obtain s2 b2 e2 where nb: "nextBuildPhase w b s1 = (s2, b2, e2)" using prod_cases3 by blast
  note eff = nextBuildPhase_effect [OF assms(1) nb]
  show ?thesis
  proof (cases "err = None \<and> run \<and> e2 = None")
    case False
    then have "cores (stored s') = cores (stored s)"
      using assms(4) True run nb same eff by (auto simp: handle_new_def split: if_splits option.splits)
    then show ?thesis by (rule phase_effect_none [OF assms(2,3)])
  next
    case ok: True
    obtain u where u: "update_build w s2 b2 = (s', u)"
      using assms(4) True run nb ok by (cases "update_build w s2 b2") (auto simp: handle_new_def)
    have up: "stored s' = replace_build b2 (stored s1)"
      using server_update [OF assms(1) u] eff by simp
    obtain c where c: "c \<in> set (stored s1)" "core c = core b"
      using cores_mem [OF same [symmetric] assms(3)] by blast
    have "cores (stored s') = cores (rephase (bkey b) (b_Phase b2) (stored s1))"
      using cores_replace [of "stored s1" c b2] c eff up assms(2) cores_distinct [OF same] core_bkey [OF c(2)]
      by (simp add: core_def)
    also have "\<dots> = cores (rephase (bkey b) (b_Phase b2) (stored s))"
      using cores_rephase [OF same] .
    finally have cs: "cores (stored s') = cores (rephase (bkey b) (b_Phase b2) (stored s))" .
    have "may_start b (stored s)" if "ConfigNameForBuild b \<noteq> []"
    proof (rule may_start_cores [OF same])
      show "may_start b (stored s1)"
        unfolding may_start_def
        using policy_exclusive [of "api_of w" _ b s s1] run ok that server_listing [OF assms(1), of b s1]
        by auto
    qed
    then show ?thesis
      unfolding phase_effect_def using cs eff True
      by (intro exI [of _ "b_Phase b2"]) (auto simp: active_phase_def)
  qed
next
  case False
  then show ?thesis using assms(4) phase_effect_none [OF assms(2,3)] by (simp add: handle_new_def)
qed

lemma delete_build_pod_stored:
  "server w stored \<Longrightarrow> delete_build_pod w b s = (s', e) \<Longrightarrow> stored s' = stored s"
  using server_pods(2) [of w stored]
  by (auto simp: delete_build_pod_def split: sum.splits prod.splits option.splits if_splits)

lemma cancelled_build_simps [simp]:
  "ident (cancelled_build now b) = ident b" "b_Phase (cancelled_build now b) = PhaseCancelled"
  by (simp_all add: cancelled_build_def)

lemma keys_replace [simp]: "map bkey (replace_build b bs) = map bkey bs"
  by (simp add: replace_build_def)

lemma CancelBuild_effect:
  assumes "server w stored" "distinct (map bkey (stored s))" "b \<in> set (stored s)"
    "CancelBuild w ps now b s = Some (s', b', e)"
  shows "(e = None \<longrightarrow> phase_effect b (stored s) (stored s') \<and> (b' = b \<and> s' = s \<and> b_Phase b \<noteq> PhaseNew \<or> b_Phase b' = PhaseCancelled)) \<and>
    (e \<noteq> None \<longrightarrow> b' = b \<and> stored s' = stored s)"
proof (cases "isBuildCancellable b")
  case True
  obtain s1 e1 where d: "delete_build_pod w b s = (s1, e1)" by fastforce
  note st1 = delete_build_pod_stored [OF assms(1) d]
  show ?thesis
  proof (cases e1)
    case (Some err)
    then show ?thesis using assms(4) True d st1 by (auto simp: CancelBuild_def)
  next
    case None
    obtain s2 u where u: "update_build w s1 (cancelled_build now b) = (s2, u)" by fastforce
    note up = server_update [OF assms(1) u]
    have h: "handleBuildCompletion w (cancelled_build now b) ps s2 = Some s'" "b' = cancelled_build now b" "e = None"
      using assms(4) True d None u up by (auto simp: CancelBuild_def Let_def)
    have "phase_effect b (stored s) (stored s2)"
      using assms(2,3) up st1 by (intro phase_effect_replace [of _ _ "cancelled_build now b"]) (auto simp: active_phase_def)
    moreover have "distinct (map bkey (stored s2))" using up st1 assms(2) by simp
    ultimately show ?thesis
      using phase_effect_cores handleBuildCompletion_cores [OF assms(1) _ h(1)] h by simp
  qed
next
  case False
  then show ?thesis
    using assms(4) phase_effect_none [OF assms(2,3)] by (auto simp: CancelBuild_def isBuildCancellable_def)
qed

lemma HandleBuild_effect:
  assumes "server w stored" "distinct (map bkey (stored s))" "b \<in> set (stored s)"
    "HandleBuild w GetAllRunPolicies now b s = Some (s', b', e)"
  shows "phase_effect b (stored s) (stored s')"
proof (cases "b_Pipeline b \<or> \<not> (b_Cancelled b \<and> b_Phase b \<noteq> PhaseCancelled)")
  case True
  then show ?thesis
    using assms(4) handle_new_effect [OF assms(1-3)] phase_effect_none [OF assms(2,3)]
    by (auto simp: HandleBuild_def split: if_splits)
next
  case False
  then obtain s1 b1 e1 where c: "CancelBuild w GetAllRunPolicies now b s = Some (s1, b1, e1)"
    using assms(4) by (auto simp: HandleBuild_def split: option.splits)
  note eff = CancelBuild_effect [OF assms(1-3) c]
  show ?thesis
  proof (cases e1)
    case None
    then have "handle_new w GetAllRunPolicies b1 s1 = (s1, b1, None)"
      using eff by (auto simp: handle_new_def)
    then show ?thesis using assms(4) c False None eff by (simp add: HandleBuild_def)
  next
    case (Some err)
    then have b1: "b1 = b" "stored s1 = stored s" using eff by auto
    obtain s2 u where u: "update_build w s1 (set_reason ''CancelBuildFailed'' ''Failed to cancel build.'' b) = (s2, u)"
      by fastforce
    then have "s' = s2" using assms(4) c False Some b1 by (simp add: HandleBuild_def Let_def)
    then show ?thesis
      using server_update [OF assms(1) u] assms(2,3) b1
      by (intro phase_effect_replace [of _ _ "set_reason ''CancelBuildFailed'' ''Failed to cancel build.'' b"]) auto
  qed
qed

lemma HandlePod_effect:
  assumes "server w stored" "distinct (map bkey (stored s))" "b \<in> set (stored s)" "b_Phase b \<noteq> PhaseNew"
    "HandlePod w ps now (Inr (Some b)) pod s = Some (s', got, e)"
  shows "phase_effect b (stored s) (stored s')"
proof (cases "s' = s")
  case False
  obtain b0 ph where st: "pod_status w s pod b = (b0, ph)" by fastforce
  have b0: "ident b0 = ident b" "b_Phase b0 = b_Phase b"
    using st by (auto simp: pod_status_def split: if_splits pod_phase.splits option.splits)
  define b1 where "b1 = (setBuildPodNameAnnotation (p_Name pod) b0)\<lparr>b_Phase := ph\<rparr>"
  define b2 where "b2 = (if IsBuildComplete b1 then setBuildCompletionTimeAndDuration now b1 else b1)"
  define b3 where "b3 = (if b_Phase b2 = PhaseRunning then b2\<lparr>b_Start := Some now\<rparr> else b2)"
  obtain s1 u where u: "update_build w s b3 = (s1, u)" by fastforce
  note up = server_update [OF assms(1) u]
  have "\<not> IsBuildComplete b0" and h: "s' = s1 \<or> handleBuildCompletion w b3 ps s1 = Some s'"
    using assms(5) False st u up
    by (auto simp: HandlePod_def Let_def b1_def b2_def b3_def split: if_splits option.splits)
  then have "is_active b" using assms(4) b0(2) by (auto simp: IsBuildComplete_def is_active_def)
  moreover have "ident b3 = ident b" using b0(1) by (simp add: b1_def b2_def b3_def)
  ultimately have eff: "phase_effect b (stored s) (stored s1)"
    using assms(2,3) up by (intro phase_effect_replace [of _ _ b3]) auto
  have "distinct (map bkey (stored s1))" using up assms(2) by simp
  then show ?thesis
    using h phase_effect_cores [OF eff] handleBuildCompletion_cores [OF assms(1)] eff by blast
qed (simp add: phase_effect_none assms)

lemma HandleBuildPodDeletion_effect:
  assumes "server w stored" "distinct (map bkey (stored s))" "b \<in> set (stored s)"
    "HandleBuildPodDeletion w now (Inr (Some b)) s = (s', got, e)"
  shows "phase_effect b (stored s) (stored s')"
proof (cases "s' = s")
  case False
  let ?b = "setBuildCompletionTimeAndDuration now (set_reason ''BuildPodDeleted''
    ''The pod for this build was deleted before the build completed.'' (b\<lparr>b_Phase := PhaseError\<rparr>))"
  obtain u where u: "update_build w s ?b = (s', u)"
    using assms(4) False
    by (auto simp: HandleBuildPodDeletion_def Let_def split: if_splits prod.splits option.splits)
  then show ?thesis
    using server_update [OF assms(1) u] assms(2,3)
    by (intro phase_effect_replace [of _ _ ?b]) (auto simp: active_phase_def)
qed (simp add: phase_effect_none assms)

section \<open>The cluster\<close>

text \<open>
  Builds of a configuration carry its name in the annotation and its label value in the label, as
  the build generator sets them.
\<close>

definition labelled :: "build \<Rightarrow> bool" where
  "labelled b \<longleftrightarrow> ConfigNameForBuild b \<noteq> [] \<and>
     map_of (b_Labels b) BuildConfigLabel = Some (LabelValue (ConfigNameForBuild b))"

definition same_config :: "build \<Rightarrow> build \<Rightarrow> bool" where
  "same_config c d \<longleftrightarrow> b_Namespace c = b_Namespace d \<and> ConfigNameForBuild c = ConfigNameForBuild d"

definition serial_alone :: "build list \<Rightarrow> bool" where
  "serial_alone bs \<longleftrightarrow> (\<forall>c \<in> set bs. \<forall>d \<in> set bs.
     same_config c d \<and> is_active c \<and> is_active d \<and> BuildRunPolicy c \<noteq> RunParallel \<longrightarrow> bkey c = bkey d)"

definition cluster_inv :: "build list \<Rightarrow> bool" where
  "cluster_inv bs \<longleftrightarrow> distinct (map bkey bs) \<and> list_all labelled bs \<and> serial_alone bs"

text \<open>
  What happens in the cluster: the controllers handle an event, with any pod reporting for a build, or
  users create, cancel and delete builds.
\<close>

datatype cluster_event =
    BuildEvent build int
  | PodEvent build build_pod int
  | PodDeleted build int
  | BuildDeleted build
  | UserCreates build
  | UserCancels build
  | UserDeletes "string \<times> string"

inductive cluster_step :: "'s build_world \<Rightarrow> ('s \<Rightarrow> build list) \<Rightarrow> cluster_event \<Rightarrow> 's \<Rightarrow> 's \<Rightarrow> bool"
  for w stored where
  build_event: "HandleBuild w GetAllRunPolicies now b s = Some (s', b', e) \<Longrightarrow>
    cluster_step w stored (BuildEvent b now) s s'"
| pod_event: "HandlePod w GetAllRunPolicies now (Inr (Some b)) pod s = Some (s', got, e) \<Longrightarrow>
    cluster_step w stored (PodEvent b pod now) s s'"
| pod_deleted: "HandleBuildPodDeletion w now (Inr (Some b)) s = (s', got, e) \<Longrightarrow>
    cluster_step w stored (PodDeleted b now) s s'"
| build_deleted: "HandleBuildDeletion w b s = (s', e) \<Longrightarrow> cluster_step w stored (BuildDeleted b) s s'"
| user_creates: "bkey b \<notin> bkey ` set (stored s) \<Longrightarrow> stored s' = stored s @ [b] \<Longrightarrow>
    cluster_step w stored (UserCreates b) s s'"
| user_cancels: "b \<in> set (stored s) \<Longrightarrow> stored s' = replace_build (b\<lparr>b_Cancelled := True\<rparr>) (stored s) \<Longrightarrow>
    cluster_step w stored (UserCancels b) s s'"
| user_deletes: "stored s' = filter (\<lambda>x. bkey x \<noteq> k) (stored s) \<Longrightarrow> cluster_step w stored (UserDeletes k) s s'"

text \<open>
  The events that a claim may be limited to.  The controllers see current builds, pods report only for
  builds that were started, and the builds that users create are new and labelled.  The handlers check
  none of this.
\<close>

definition expected :: "('s \<Rightarrow> build list) \<Rightarrow> 's \<Rightarrow> cluster_event \<Rightarrow> bool" where
  "expected stored s ev =
     (case ev of
        BuildEvent b now \<Rightarrow> b \<in> set (stored s)
      | PodEvent b pod now \<Rightarrow> b \<in> set (stored s) \<and> b_Phase b \<noteq> PhaseNew
      | PodDeleted b now \<Rightarrow> b \<in> set (stored s)
      | UserCreates b \<Rightarrow> labelled b \<and> b_Phase b = PhaseNew
      | _ \<Rightarrow> True)"

definition cluster_moves :: "'s build_world \<Rightarrow> ('s \<Rightarrow> build list) \<Rightarrow> ('s \<Rightarrow> cluster_event \<Rightarrow> bool) \<Rightarrow> 's \<Rightarrow> 's \<Rightarrow> bool" where
  "cluster_moves w stored P s s' \<longleftrightarrow> (\<exists>ev. P s ev \<and> cluster_step w stored ev s s')"

lemma labelled_matches:
  "labelled d \<Longrightarrow> ConfigNameForBuild d = n \<Longrightarrow> Selector_Matches (BuildConfigSelector n) (b_Labels d)"
  by (auto simp: labelled_def BuildConfigSelector_def SelectorFromSet1_def)

lemma cluster_inv_core:
  assumes "cores bs' = cores bs" "cluster_inv bs"
  shows "cluster_inv bs'"
proof -
  have "labelled c" if "c \<in> set bs'" for c
    using cores_mem [OF assms(1) that] core_facts assms(2)
    unfolding cluster_inv_def labelled_def list_all_iff by metis
  moreover have "serial_alone bs'"
    unfolding serial_alone_def
  proof (intro ballI impI)
    fix c d
    assume "c \<in> set bs'" "d \<in> set bs'" and
      a: "same_config c d \<and> is_active c \<and> is_active d \<and> BuildRunPolicy c \<noteq> RunParallel"
    then obtain c0 d0 where 0: "c0 \<in> set bs" "core c0 = core c" "d0 \<in> set bs" "core d0 = core d"
      using cores_mem [OF assms(1)] by metis
    then have "bkey c0 = bkey d0"
      using a assms(2) core_facts [OF 0(2)] core_facts [OF 0(4)]
      unfolding cluster_inv_def serial_alone_def same_config_def by metis
    then show "bkey c = bkey d" using 0 core_bkey by metis
  qed
  ultimately show ?thesis
    using assms cores_distinct [OF assms(1)] by (simp add: cluster_inv_def list_all_iff)
qed

lemma rephase_mem:
  assumes "distinct (map bkey bs)" "b \<in> set bs" "c \<in> set (rephase (bkey b) ph bs)"
  shows "c = b\<lparr>b_Phase := ph\<rparr> \<or> (c \<in> set bs \<and> bkey c \<noteq> bkey b)"
  using assms by (auto simp: rephase_def distinct_map inj_on_def)

lemma phase_update_facts [simp]:
  "bkey (b\<lparr>b_Phase := ph\<rparr>) = bkey b" "BuildRunPolicy (b\<lparr>b_Phase := ph\<rparr>) = BuildRunPolicy b"
  "is_active (b\<lparr>b_Phase := ph\<rparr>) = active_phase ph" "same_config (b\<lparr>b_Phase := ph\<rparr>) d = same_config b d"
  "same_config d (b\<lparr>b_Phase := ph\<rparr>) = same_config d b" "labelled (b\<lparr>b_Phase := ph\<rparr>) = labelled b"
  by (simp_all add: bkey_def BuildRunPolicy_def is_active_phase same_config_def labelled_def
      ConfigNameForBuild_def annotations_of_def cong: option.case_cong)

lemma same_config_sym: "same_config c d \<Longrightarrow> same_config d c"
  by (simp add: same_config_def)

lemma may_start_same_config:
  assumes "may_start b bs" "d \<in> set bs" "is_active d" "labelled d" "same_config b d"
  shows "BuildRunPolicy b = RunParallel \<and> BuildRunPolicy d = RunParallel"
  using assms labelled_matches [OF assms(4), of "ConfigNameForBuild b"]
  by (auto simp: may_start_def listed_def same_config_def)

lemma cluster_inv_effect:
  assumes inv: "cluster_inv bs" and b: "b \<in> set bs" and eff: "phase_effect b bs bs'"
  shows "cluster_inv bs'"
proof -
  have dist: "distinct (map bkey bs)" and lab: "\<And>c. c \<in> set bs \<Longrightarrow> labelled c"
    and alone: "\<And>c d. c \<in> set bs \<Longrightarrow> d \<in> set bs \<Longrightarrow> same_config c d \<Longrightarrow> is_active c \<Longrightarrow> is_active d \<Longrightarrow>
      BuildRunPolicy c \<noteq> RunParallel \<Longrightarrow> bkey c = bkey d"
    using inv by (auto simp: cluster_inv_def serial_alone_def list_all_iff)
  obtain ph where cs: "cores bs' = cores (rephase (bkey b) ph bs)" and
    ph: "ph = b_Phase b \<or> \<not> active_phase ph \<or> is_active b \<or>
      b_Phase b = PhaseNew \<and> ph = PhasePending \<and> (ConfigNameForBuild b \<noteq> [] \<longrightarrow> may_start b bs)"
    using eff by (auto simp: phase_effect_def)
  have mem: "c = b\<lparr>b_Phase := ph\<rparr> \<or> (c \<in> set bs \<and> bkey c \<noteq> bkey b)" if "c \<in> set (rephase (bkey b) ph bs)" for c
    by (rule rephase_mem [OF dist b that])
  have start: "is_active b \<or> may_start b bs" if "active_phase ph"
    using ph that lab [OF b] by (auto simp: labelled_def is_active_phase)
  have "serial_alone (rephase (bkey b) ph bs)"
    unfolding serial_alone_def
  proof (intro ballI impI)
    fix c d
    assume c: "c \<in> set (rephase (bkey b) ph bs)" and d: "d \<in> set (rephase (bkey b) ph bs)"
      and a: "same_config c d \<and> is_active c \<and> is_active d \<and> BuildRunPolicy c \<noteq> RunParallel"
    from mem [OF c] mem [OF d] show "bkey c = bkey d"
    proof (elim disjE)
      assume "c = b\<lparr>b_Phase := ph\<rparr>" "d \<in> set bs \<and> bkey d \<noteq> bkey b"
      then show ?thesis
        using a start alone [OF b, of d] may_start_same_config [of b bs d] lab by auto
    next
      assume "c \<in> set bs \<and> bkey c \<noteq> bkey b" "d = b\<lparr>b_Phase := ph\<rparr>"
      then show ?thesis
        using a start alone [of c b] b may_start_same_config [of b bs c] lab same_config_sym [of c b] by auto
    next
      assume "c = b\<lparr>b_Phase := ph\<rparr>" "d = b\<lparr>b_Phase := ph\<rparr>"
      then show ?thesis by simp
    next
      assume "c \<in> set bs \<and> bkey c \<noteq> bkey b" "d \<in> set bs \<and> bkey d \<noteq> bkey b"
      then show ?thesis using a alone by blast
    qed
  qed
  moreover have "map bkey (rephase (bkey b) ph bs) = map bkey bs" by (auto simp: rephase_def)
  moreover have "list_all labelled (rephase (bkey b) ph bs)"
    using mem lab b by (force simp: list_all_iff)
  ultimately have "cluster_inv (rephase (bkey b) ph bs)" using dist by (simp add: cluster_inv_def)
  then show ?thesis by (rule cluster_inv_core [OF cs])
qed

lemma cluster_inv_create:
  assumes "cluster_inv bs" "labelled b" "b_Phase b = PhaseNew" "bkey b \<notin> bkey ` set bs"
  shows "cluster_inv (bs @ [b])"
  using assms by (auto simp: cluster_inv_def serial_alone_def is_active_def)

lemma cluster_inv_delete: "cluster_inv bs \<Longrightarrow> cluster_inv (filter P bs)"
  by (auto simp: cluster_inv_def serial_alone_def list_all_iff distinct_map_filter)

lemma HandleBuildDeletion_stored:
  "server w stored \<Longrightarrow> HandleBuildDeletion w b s = (s', e) \<Longrightarrow> stored s' = stored s"
  using server_pods(2) [of w stored]
  by (auto simp: HandleBuildDeletion_def split: if_splits sum.splits prod.splits option.splits)

lemma cluster_step_inv:
  assumes "server w stored" "cluster_step w stored ev s s'" "expected stored s ev" "cluster_inv (stored s)"
  shows "cluster_inv (stored s')"
proof -
  have dist: "distinct (map bkey (stored s))" using assms(4) by (simp add: cluster_inv_def)
  note inv = cluster_inv_effect [OF assms(4)]
  from assms(2) show ?thesis
  proof cases
    case (build_event now b b' e)
    then show ?thesis using inv HandleBuild_effect [OF assms(1) dist] assms(3) by (auto simp: expected_def)
  next
    case (pod_event now b pod got e)
    then show ?thesis using inv HandlePod_effect [OF assms(1) dist] assms(3) by (auto simp: expected_def)
  next
    case (pod_deleted now b got e)
    then show ?thesis using inv HandleBuildPodDeletion_effect [OF assms(1) dist] assms(3) by (auto simp: expected_def)
  next
    case (build_deleted b e)
    then show ?thesis using assms(4) HandleBuildDeletion_stored [OF assms(1)] by simp
  next
    case (user_creates b)
    then show ?thesis using cluster_inv_create assms(3,4) by (simp add: expected_def)
  next
    case (user_cancels b)
    then have "phase_effect b (stored s) (stored s')"
      using dist by (intro phase_effect_replace [of _ _ "b\<lparr>b_Cancelled := True\<rparr>"]) auto
    then show ?thesis using inv user_cancels by blast
  next
    case (user_deletes k)
    then show ?thesis using cluster_inv_delete assms(4) by simp
  qed
qed

lemma cluster_reachable_inv:
  assumes "server w stored" "(cluster_moves w stored (expected stored))\<^sup>*\<^sup>* s0 s" "stored s0 = []"
  shows "cluster_inv (stored s)"
  using assms(2)
proof (induction rule: rtranclp_induct)
  case base
  then show ?case using assms(3) by (simp add: cluster_inv_def serial_alone_def)
next
  case (step s s')
  then show ?case using cluster_step_inv [OF assms(1)] unfolding cluster_moves_def by blast
qed

section \<open>What is cancelled\<close>

definition cancel_target :: "string \<Rightarrow> string \<Rightarrow> int \<Rightarrow> build \<Rightarrow> bool" where
  "cancel_target ns name n x \<longleftrightarrow>
     b_Namespace x = ns \<and> Selector_Matches (BuildConfigSelector name) (b_Labels x) \<and>
     \<not> IsBuildComplete x \<and> b_Phase x \<noteq> PhaseRunning \<and> fst (BuildNumber x) < n"

lemma cancel_loop_flags:
  assumes "server w stored" "distinct (map bkey (stored s))" "set bs \<subseteq> set (stored s)" "distinct (map bkey bs)"
  shows "\<exists>s'. cancel_loop (api_of w) ticks bs s errs = (s', errs) \<and>
    stored s' = map (\<lambda>x. if bkey x \<in> bkey ` set bs then x\<lparr>b_Cancelled := True\<rparr> else x) (stored s)"
  using assms(2-)
proof (induction bs arbitrary: s)
  case Nil
  then show ?case by simp
next
  case (Cons b bs)
  obtain s1 e1 where poll: "Poll ticks (update_condition (api_of w) (b\<lparr>b_Cancelled := True\<rparr>)) s = (s1, e1)"
    by fastforce
  note p = Poll_server [OF assms(1) poll]
  have flag: "stored s1 = map (\<lambda>x. if bkey x = bkey b then x\<lparr>b_Cancelled := True\<rparr> else x) (stored s)"
  proof -
    have "x = b" if "x \<in> set (stored s)" "bkey x = bkey b" for x
      using Cons.prems(1,2) that by (auto simp: distinct_map inj_on_def)
    then show ?thesis using p by (auto simp: replace_build_def bkey_def)
  qed
  have keys: "bkey (x\<lparr>b_Cancelled := True\<rparr>) = bkey x" for x by (simp add: bkey_def)
  have "map bkey (stored s1) = map bkey (stored s)" by (simp add: flag keys)
  then have "distinct (map bkey (stored s1))" using Cons.prems(1) by simp
  moreover have "set bs \<subseteq> set (stored s1)"
  proof
    fix c assume "c \<in> set bs"
    moreover from this have "bkey c \<in> bkey ` set bs" by simp
    ultimately have "c \<in> set (stored s)" "bkey c \<noteq> bkey b" using Cons.prems(2,3) by (auto simp del: image_eqI)
    then show "c \<in> set (stored s1)" by (auto simp: flag intro!: image_eqI [of _ _ c])
  qed
  ultimately obtain s' where s': "cancel_loop (api_of w) ticks bs s1 errs = (s', errs)"
      "stored s' = map (\<lambda>x. if bkey x \<in> bkey ` set bs then x\<lparr>b_Cancelled := True\<rparr> else x) (stored s1)"
    using Cons.IH [of s1] Cons.prems(3) by auto
  have "stored s' = map (\<lambda>x. if bkey x \<in> bkey ` set (b # bs) then x\<lparr>b_Cancelled := True\<rparr> else x) (stored s)"
    using Cons.prems(3) by (auto simp: s'(2) flag keys)
  then show ?case using s'(1) poll p by (intro exI [of _ s']) simp
qed

section \<open>Examples\<close>

lemma list_server: "server list_world (\<lambda>s. s)"
  by (auto simp: server_def list_world_def sample_world_def list_api_def listed_def update_build_def
      replace_build_def bkey_def)

abbreviation queued_serial :: build where
  "queued_serial \<equiv> sample_build ''a'' ''Serial'' ''1'' PhaseNew"

abbreviation queued_parallel :: build where
  "queued_parallel \<equiv> sample_build ''b'' ''Parallel'' ''2'' PhaseNew"

abbreviation queued_latest :: build where
  "queued_latest \<equiv> sample_build ''c'' ''SerialLatestOnly'' ''2'' PhaseNew"

abbreviation started_serial :: build where
  "started_serial \<equiv> setBuildPodNameAnnotation ''a-build'' (sample_build ''a'' ''Serial'' ''1'' PhasePending)"

lemma map_option_fst_Some: "map_option fst x = Some a \<Longrightarrow> \<exists>b e. x = Some (a, b, e)"
  by (cases x) auto

abbreviation list_moves :: "build list \<Rightarrow> build list \<Rightarrow> bool" where
  "list_moves \<equiv> cluster_moves list_world (\<lambda>s. s) (expected (\<lambda>s. s))"

lemma sample_run: "list_moves\<^sup>*\<^sup>* [] [started_serial, queued_parallel]"
proof -
  have lab: "labelled queued_serial" "labelled queued_parallel"
    by (simp_all add: labelled_def) (simp_all add: sample_build_def LabelValue_def)
  have s1: "list_moves [] [queued_serial]"
    unfolding cluster_moves_def
    by (intro exI [of _ "UserCreates queued_serial"] conjI user_creates) (simp_all add: expected_def lab)
  have s2: "list_moves [queued_serial] [queued_serial, queued_parallel]"
    unfolding cluster_moves_def
    by (intro exI [of _ "UserCreates queued_parallel"] conjI user_creates) (simp_all add: expected_def lab bkey_def)
  have "map_option fst (HandleBuild list_world GetAllRunPolicies 0 queued_serial
      [queued_serial, queued_parallel]) = Some [started_serial, queued_parallel]"
    by code_simp
  from map_option_fst_Some [OF this] obtain b' e where
    h: "HandleBuild list_world GetAllRunPolicies 0 queued_serial
      [queued_serial, queued_parallel] = Some ([started_serial, queued_parallel], b', e)" by blast
  have s3: "list_moves [queued_serial, queued_parallel] [started_serial, queued_parallel]"
    unfolding cluster_moves_def
    by (intro exI [of _ "BuildEvent queued_serial 0"] conjI build_event [OF h]) (simp add: expected_def)
  have "list_moves\<^sup>*\<^sup>* [] [queued_serial]" using s1 by (rule r_into_rtranclp [where r = list_moves])
  from this s2 have "list_moves\<^sup>*\<^sup>* [] [queued_serial, queued_parallel]" by (rule rtranclp.rtrancl_into_rtrancl)
  from this s3 show ?thesis by (rule rtranclp.rtrancl_into_rtrancl)
qed

section \<open>Properties\<close>

text \<open>
  C24: in every state the controllers and users reach from an empty cluster, a running or pending serial
  build is the only running or pending build of its configuration.  This is so with a server that answers
  and as long as the events are as expected: the controllers are given current builds, pods report only
  for builds that are no longer new (\<open>HandlePod\<close> itself does not ask), and users create new builds with the
  label and the annotation of their configuration.
\<close>

theorem serial_builds_run_alone:
  assumes "server w stored" "stored s0 = []" "(cluster_moves w stored (expected stored))\<^sup>*\<^sup>* s0 s"
    "c \<in> set (stored s)" "d \<in> set (stored s)" "same_config c d" "is_active c" "is_active d"
    "BuildRunPolicy c \<noteq> RunParallel"
  shows "b_Name c = b_Name d"
  using cluster_reachable_inv [OF assms(1,3,2)] assms
  unfolding cluster_inv_def serial_alone_def bkey_def by blast

lemma serial_builds_run_alone_witness:
  "\<exists>d. filter is_active [started_serial, queued_parallel] = [d] \<and> BuildRunPolicy started_serial \<noteq> RunParallel \<and>
     b_Name started_serial = b_Name d"
proof -
  have a: "is_active started_serial" "BuildRunPolicy started_serial \<noteq> RunParallel" "\<not> is_active queued_parallel"
    by code_simp+
  have "b_Name started_serial = b_Name started_serial"
    by (rule serial_builds_run_alone [OF list_server refl sample_run])
      (use a in \<open>simp_all add: same_config_def\<close>)
  with a show ?thesis by simp
qed

text \<open>
  Under the latest-only policy exactly the queued and pending builds of the configuration with a
  lower number get the cancelled flag, and nothing else changes.
\<close>

theorem latest_only_cancels_lower_numbers:
  assumes "server w stored" "distinct (map bkey (stored s))" "BuildNumber b = (n, None)"
    "ConfigNameForBuild b \<noteq> []"
  shows "\<exists>s'. cancelPreviousBuilds (api_of w) ticks b s = (s', []) \<and>
    stored s' = map (\<lambda>x. if cancel_target (b_Namespace b) (ConfigNameForBuild b) n x
      then x\<lparr>b_Cancelled := True\<rparr> else x) (stored s)"
proof -
  let ?P = "\<lambda>x. if IsBuildComplete x \<or> b_Phase x = PhaseRunning then False else fst (BuildNumber x) < n"
  let ?ts = "filter ?P (listed (b_Namespace b) (BuildConfigSelector (ConfigNameForBuild b)) (stored s))"
  have "set ?ts \<subseteq> set (listed (b_Namespace b) (BuildConfigSelector (ConfigNameForBuild b)) (stored s))"
    by (rule filter_is_subset)
  then have sub: "set ?ts \<subseteq> set (stored s)" using listed_subset by (rule subset_trans)
  have dist: "distinct (map bkey ?ts)"
    using assms(2) unfolding listed_def by (intro distinct_map_filter)
  have loop: "cancelPreviousBuilds (api_of w) ticks b s = cancel_loop (api_of w) ticks ?ts s []"
    using assms(3,4) by (simp add: cancelPreviousBuilds_def BuildConfigBuilds_def server_List [OF assms(1)]
        Let_def filter_loop_pure [where P = ?P])
  have keys: "bkey x \<in> bkey ` set ?ts \<longleftrightarrow> cancel_target (b_Namespace b) (ConfigNameForBuild b) n x"
    if "x \<in> set (stored s)" for x
  proof -
    have "bkey x \<in> bkey ` set ?ts \<longleftrightarrow> x \<in> set ?ts"
      by (rule inj_on_image_mem_iff [OF _ that sub]) (use assms(2) in \<open>simp add: distinct_map\<close>)
    then show ?thesis using that by (auto simp: listed_def cancel_target_def)
  qed
  from cancel_loop_flags [OF assms(1,2) sub dist, of ticks "[]"]
  obtain s' where s': "cancel_loop (api_of w) ticks ?ts s [] = (s', [])"
    "stored s' = map (\<lambda>x. if bkey x \<in> bkey ` set ?ts then x\<lparr>b_Cancelled := True\<rparr> else x) (stored s)"
    by blast
  have "stored s' = map (\<lambda>x. if cancel_target (b_Namespace b) (ConfigNameForBuild b) n x
      then x\<lparr>b_Cancelled := True\<rparr> else x) (stored s)"
    unfolding s'(2) by (rule map_cong [OF refl]) (simp only: keys)
  with loop s'(1) show ?thesis by metis
qed

lemma latest_only_cancels_lower_numbers_witness:
  "\<exists>s'. cancelPreviousBuilds (api_of list_world) 3 queued_latest [started_serial, queued_latest] = (s', []) \<and>
     map (\<lambda>b. (b_Name b, b_Cancelled b)) s' = [(''a'', True), (''c'', False)]"
proof -
  have d: "distinct (map bkey [started_serial, queued_latest])" by code_simp
  have n: "BuildNumber queued_latest = (2, None)" by (simp add: ParseInt_sample)
  have t: "cancel_target ''ns'' ''bc'' 2 started_serial" "\<not> cancel_target ''ns'' ''bc'' 2 queued_latest"
    "b_Name started_serial = ''a''" "\<not> b_Cancelled queued_latest"
    by code_simp+
  show ?thesis
    using latest_only_cancels_lower_numbers [of list_world "\<lambda>s. s" "[started_serial, queued_latest]"
        queued_latest 2 3, OF list_server d n] t by simp
qed

text \<open>
  When the update of a started build fails, the build stays queued in the server although its pod
  exists: a parallel build may then start, and the pod's next event makes the serial build run beside it.
\<close>

theorem lost_update_breaks_serial:
  "\<exists>s1 b1 s2 b2 s3 b3.
     HandleBuild flaky_world GetAllRunPolicies 0 queued_serial (True, [queued_serial, queued_parallel])
       = Some (s1, b1, None) \<and>
     HandleBuild flaky_world GetAllRunPolicies 0 queued_parallel s1 = Some (s2, b2, None) \<and>
     HandlePod flaky_world GetAllRunPolicies 0 (Inr (Some queued_serial)) (sample_pod ''a'' PodRunning) s2
       = Some (s3, b3, None) \<and>
     map (\<lambda>b. (b_Name b, b_Phase b)) (snd s3) = [(''a'', PhaseRunning), (''b'', PhasePending)]"
proof -
  let ?p = "\<lambda>n ph b. (setBuildPodNameAnnotation (n @ ''-build'') b)\<lparr>b_Phase := ph\<rparr>"
  have h1: "HandleBuild flaky_world GetAllRunPolicies 0 queued_serial (True, [queued_serial, queued_parallel])
      = Some ((False, [queued_serial, queued_parallel]), ?p ''a'' PhasePending queued_serial, None)"
    by code_simp
  have h2: "HandleBuild flaky_world GetAllRunPolicies 0 queued_parallel (False, [queued_serial, queued_parallel])
      = Some ((False, [queued_serial, ?p ''b'' PhasePending queued_parallel]), ?p ''b'' PhasePending queued_parallel, None)"
    by code_simp
  have h3: "HandlePod flaky_world GetAllRunPolicies 0 (Inr (Some queued_serial)) (sample_pod ''a'' PodRunning)
        (False, [queued_serial, ?p ''b'' PhasePending queued_parallel])
      = Some ((False, [(?p ''a'' PhaseRunning queued_serial)\<lparr>b_Start := Some 0\<rparr>, ?p ''b'' PhasePending queued_parallel]),
          Some ((?p ''a'' PhaseRunning queued_serial)\<lparr>b_Start := Some 0\<rparr>), None)"
    by code_simp
  have h4: "map (\<lambda>b. (b_Name b, b_Phase b)) (snd (False, [(?p ''a'' PhaseRunning queued_serial)\<lparr>b_Start := Some 0\<rparr>,
      ?p ''b'' PhasePending queued_parallel])) = [(''a'', PhaseRunning), (''b'', PhasePending)]"
    by code_simp
  show ?thesis
    by (intro exI conjI) (rule h1, rule h2, rule h3, rule h4)
qed

end
