(* ===== verification/Deploy_Types.thy ===== *)
theory Deploy_Types
  imports Build_Types "HOL-Library.Multiset"
begin

text \<open>
  Deployment configurations and the replication controllers that are their deployments: the types of
  \<open>origin/pkg/deploy/api/types.go\<close> with the fields the controllers and registries read or write, and
  the helpers of \<open>origin/pkg/deploy/util/util.go\<close>.

  A Go map is an association list; where a nil map matters, because a write to it panics, it is an
  option.  Sums of \<open>int32\<close> wrap around.  Deep copies do not fail.  What the code only copies or
  compares of a template and of a strategy is one field, \<open>pt_Rest\<close> and \<open>ds_Rest\<close>.
\<close>

section \<open>Data\<close>

definition to_int32 :: "int \<Rightarrow> int" where
  "to_int32 x = (x + 2 ^ 31) mod 2 ^ 32 - 2 ^ 31"

definition to_int64 :: "int \<Rightarrow> int" where
  "to_int64 x = (x + 2 ^ 63) mod 2 ^ 64 - 2 ^ 63"

definition format_int :: "int \<Rightarrow> string" where
  "format_int v = (if v < 0 then CHR ''-'' # decimal (nat (- v)) else decimal (nat v))"

text \<open>\<open>%q\<close> of a name: names are DNS subdomains, which need no escapes.\<close>

definition quoted_name :: "string \<Rightarrow> string" where
  "quoted_name name = CHR 0x22 # name @ [CHR 0x22]"

record template_container =
  tc_Name :: string
  tc_Image :: string
  tc_Rest :: string

record pod_template =
  pt_Labels :: "(string \<times> string) list"
  pt_Annotations :: "(string \<times> string) list"
  pt_Containers :: "template_container list"
  pt_DNSPolicy :: string
  pt_PullSecrets :: "string list"
  pt_NodeSelector :: "(string \<times> string) list"
  pt_Rest :: string

datatype int_or_string = IntVal int | StrVal string

record custom_params =
  cp_Image :: string
  cp_Environment :: "(string \<times> string) list"
  cp_Command :: "string list"

record rolling_params =
  rp_MaxUnavailable :: int_or_string
  rp_MaxSurge :: int_or_string

record deploy_strategy =
  ds_Type :: string
  ds_Custom :: "custom_params option"
  ds_Rolling :: "rolling_params option"
  ds_Resources :: string
  ds_Labels :: "(string \<times> string) list"
  ds_Annotations :: "(string \<times> string) list"
  ds_ActiveDeadlineSeconds :: "int option"
  ds_Rest :: string

record image_change_params =
  ip_Automatic :: bool
  ip_ContainerNames :: "string list"
  ip_From :: object_reference
  ip_LastTriggeredImage :: string

record trigger_policy =
  tg_Type :: string
  tg_Image :: "image_change_params option"

record deploy_condition =
  cd_Type :: string
  cd_Status :: string
  cd_LastUpdateTime :: nat
  cd_LastTransitionTime :: nat
  cd_Reason :: string
  cd_Message :: string

record deploy_cause =
  ca_Type :: string
  ca_ImageTrigger :: "object_reference option"

record deploy_details =
  dd_Message :: string
  dd_Causes :: "deploy_cause list"

record dc_spec =
  sp_Strategy :: deploy_strategy
  sp_MinReadySeconds :: int
  sp_Triggers :: "trigger_policy list"
  sp_Replicas :: int
  sp_RevisionHistoryLimit :: "int option"
  sp_Test :: bool
  sp_Paused :: bool
  sp_Selector :: "(string \<times> string) list"
  sp_Template :: "pod_template option"

record dc_status =
  st_LatestVersion :: int
  st_ObservedGeneration :: int
  st_Replicas :: int
  st_UpdatedReplicas :: int
  st_AvailableReplicas :: int
  st_UnavailableReplicas :: int
  st_Details :: "deploy_details option"
  st_Conditions :: "deploy_condition list"
  st_ReadyReplicas :: int

record deployment_config =
  dc_Namespace :: string
  dc_Name :: string
  dc_Generation :: int
  dc_Labels :: "(string \<times> string) list"
  dc_Annotations :: "(string \<times> string) list option"
  dc_Deleted :: bool
  dc_Spec :: dc_spec
  dc_Status :: dc_status

record replication_controller =
  rc_Namespace :: string
  rc_Name :: string
  rc_ResourceVersion :: nat
  rc_Created :: nat
  rc_Labels :: "(string \<times> string) list"
  rc_Annotations :: "(string \<times> string) list option"
  rc_Replicas :: int
  rc_Selector :: "(string \<times> string) list"
  rc_Template :: "pod_template option"
  rc_StatusReplicas :: int
  rc_StatusReadyReplicas :: int

section \<open>Names\<close>

definition DeploymentConfigAnnotation :: string where
  "DeploymentConfigAnnotation = ''openshift.io/deployment-config.name''"
definition DeploymentAnnotation :: string where "DeploymentAnnotation = ''openshift.io/deployment.name''"
definition DeploymentPodAnnotation :: string where "DeploymentPodAnnotation = ''openshift.io/deployer-pod.name''"
definition DeploymentIgnorePodAnnotation :: string where
  "DeploymentIgnorePodAnnotation = ''deploy.openshift.io/deployer-pod.ignore''"
definition DeployerPodForDeploymentLabel :: string where
  "DeployerPodForDeploymentLabel = ''openshift.io/deployer-pod-for.name''"
definition DeploymentStatusAnnotation :: string where
  "DeploymentStatusAnnotation = ''openshift.io/deployment.phase''"
definition DeploymentEncodedConfigAnnotation :: string where
  "DeploymentEncodedConfigAnnotation = ''openshift.io/encoded-deployment-config''"
definition DeploymentVersionAnnotation :: string where
  "DeploymentVersionAnnotation = ''openshift.io/deployment-config.latest-version''"
definition DeploymentLabel :: string where "DeploymentLabel = ''deployment''"
definition DeploymentConfigLabel :: string where "DeploymentConfigLabel = ''deploymentconfig''"
definition DesiredReplicasAnnotation :: string where
  "DesiredReplicasAnnotation = ''kubectl.kubernetes.io/desired-replicas''"
definition DeploymentStatusReasonAnnotation :: string where
  "DeploymentStatusReasonAnnotation = ''openshift.io/deployment.status-reason''"
definition DeploymentCancelledAnnotation :: string where
  "DeploymentCancelledAnnotation = ''openshift.io/deployment.cancelled''"
definition DeploymentReplicasAnnotation :: string where
  "DeploymentReplicasAnnotation = ''openshift.io/deployment.replicas''"
definition DeploymentCancelledAnnotationValue :: string where "DeploymentCancelledAnnotationValue = ''true''"

lemmas deploy_keys =
  DeploymentConfigAnnotation_def DeploymentAnnotation_def DeploymentPodAnnotation_def
  DeploymentIgnorePodAnnotation_def DeployerPodForDeploymentLabel_def DeploymentStatusAnnotation_def
  DeploymentEncodedConfigAnnotation_def DeploymentVersionAnnotation_def DeploymentLabel_def
  DeploymentConfigLabel_def DesiredReplicasAnnotation_def DeploymentStatusReasonAnnotation_def
  DeploymentCancelledAnnotation_def DeploymentReplicasAnnotation_def

definition StatusNew :: string where "StatusNew = ''New''"
definition StatusPending :: string where "StatusPending = ''Pending''"
definition StatusRunning :: string where "StatusRunning = ''Running''"
definition StatusComplete :: string where "StatusComplete = ''Complete''"
definition StatusFailed :: string where "StatusFailed = ''Failed''"

lemmas deploy_phases = StatusNew_def StatusPending_def StatusRunning_def StatusComplete_def StatusFailed_def

definition TriggerManual :: string where "TriggerManual = ''Manual''"
definition TriggerOnImageChange :: string where "TriggerOnImageChange = ''ImageChange''"
definition TriggerOnConfigChange :: string where "TriggerOnConfigChange = ''ConfigChange''"

section \<open>Accessors\<close>

definition rc_annotations :: "replication_controller \<Rightarrow> (string \<times> string) list" where
  "rc_annotations rc = (case rc_Annotations rc of None \<Rightarrow> [] | Some m \<Rightarrow> m)"

definition annotationFor :: "replication_controller \<Rightarrow> string \<Rightarrow> string" where
  "annotationFor rc key = map_value (rc_annotations rc) key"

definition DeploymentConfigNameFor :: "replication_controller \<Rightarrow> string" where
  "DeploymentConfigNameFor rc = annotationFor rc DeploymentConfigAnnotation"

definition DeploymentStatusFor :: "replication_controller \<Rightarrow> string" where
  "DeploymentStatusFor rc = annotationFor rc DeploymentStatusAnnotation"

definition EncodedDeploymentConfigFor :: "replication_controller \<Rightarrow> string" where
  "EncodedDeploymentConfigFor rc = annotationFor rc DeploymentEncodedConfigAnnotation"

definition DeploymentVersionFor :: "replication_controller \<Rightarrow> int" where
  "DeploymentVersionFor rc =
     (case ParseInt (annotationFor rc DeploymentVersionAnnotation) of
        (v, None) \<Rightarrow> v
      | (_, Some _) \<Rightarrow> - 1)"

definition IsDeploymentCancelled :: "replication_controller \<Rightarrow> bool" where
  "IsDeploymentCancelled rc \<longleftrightarrow>
     to_lower (annotationFor rc DeploymentCancelledAnnotation) = to_lower DeploymentCancelledAnnotationValue"

definition IsCompleteDeployment :: "replication_controller \<Rightarrow> bool" where
  "IsCompleteDeployment rc \<longleftrightarrow> DeploymentStatusFor rc = StatusComplete"

definition IsFailedDeployment :: "replication_controller \<Rightarrow> bool" where
  "IsFailedDeployment rc \<longleftrightarrow> DeploymentStatusFor rc = StatusFailed"

definition IsTerminatedDeployment :: "replication_controller \<Rightarrow> bool" where
  "IsTerminatedDeployment rc \<longleftrightarrow> IsCompleteDeployment rc \<or> IsFailedDeployment rc"

definition CanTransitionPhase :: "string \<Rightarrow> string \<Rightarrow> bool" where
  "CanTransitionPhase now next' =
     (if now = StatusNew then
        next' = StatusPending \<or> next' = StatusRunning \<or> next' = StatusFailed \<or> next' = StatusComplete
      else if now = StatusPending then next' = StatusRunning \<or> next' = StatusFailed \<or> next' = StatusComplete
      else if now = StatusRunning then next' = StatusFailed \<or> next' = StatusComplete
      else False)"

definition DeployerPodNameForDeployment :: "string \<Rightarrow> string" where
  "DeployerPodNameForDeployment deployment = the (GetPodName deployment ''deploy'')"

definition DeploymentNameForConfigVersion :: "string \<Rightarrow> int \<Rightarrow> string" where
  "DeploymentNameForConfigVersion name version = name @ ''-'' @ format_int version"

definition LatestDeploymentNameForConfig :: "deployment_config \<Rightarrow> string" where
  "LatestDeploymentNameForConfig config = dc_Name config @ ''-'' @ format_int (st_LatestVersion (dc_Status config))"

definition LabelForDeploymentConfig :: "deployment_config \<Rightarrow> string" where
  "LabelForDeploymentConfig config = dc_Namespace config @ ''/'' @ dc_Name config"

definition ConfigSelector :: "string \<Rightarrow> selector" where
  "ConfigSelector name = SelectorFromSet1 DeploymentConfigAnnotation name"

definition DeployerPodSelector :: "string \<Rightarrow> selector" where
  "DeployerPodSelector name = SelectorFromSet1 DeployerPodForDeploymentLabel name"

definition HasChangeTrigger :: "deployment_config \<Rightarrow> bool" where
  "HasChangeTrigger config \<longleftrightarrow> (\<exists>t \<in> set (sp_Triggers (dc_Spec config)). tg_Type t = TriggerOnConfigChange)"

section \<open>Deployments of a configuration\<close>

text \<open>
  \<open>sort.Sort\<close> is not stable: it is an argument, any function that sorts by the key it is used with.
\<close>

type_synonym sorter = "replication_controller list \<Rightarrow> replication_controller list"

definition sorts_by :: "(replication_controller \<Rightarrow> 'k::linorder) \<Rightarrow> sorter \<Rightarrow> bool" where
  "sorts_by key srt \<longleftrightarrow> (\<forall>xs. mset (srt xs) = mset xs \<and> sorted (map key (srt xs)))"

definition LatestDeploymentInfo ::
  "sorter \<Rightarrow> deployment_config \<Rightarrow> replication_controller list \<Rightarrow> bool \<times> replication_controller option" where
  "LatestDeploymentInfo byLatestVersionDesc config deployments =
     (if st_LatestVersion (dc_Status config) = 0 \<or> deployments = [] then (False, None)
      else let candidate = hd (byLatestVersionDesc deployments)
           in (DeploymentVersionFor candidate = st_LatestVersion (dc_Status config), Some candidate))"

definition active_step ::
  "replication_controller \<Rightarrow> replication_controller option \<times> int \<Rightarrow> replication_controller option \<times> int" where
  "active_step d = (\<lambda>(active, last).
     if IsCompleteDeployment d \<and> DeploymentVersionFor d > last then (Some d, DeploymentVersionFor d) else (active, last))"

definition ActiveDeployment :: "replication_controller list \<Rightarrow> replication_controller option" where
  "ActiveDeployment deployments = fst (fold active_step deployments (None, 0))"

definition DeploymentsForCleanup ::
  "sorter \<Rightarrow> deployment_config \<Rightarrow> replication_controller list \<Rightarrow> replication_controller list" where
  "DeploymentsForCleanup byLatestVersionAsc config deployments =
     (let sorted_ds = byLatestVersionAsc deployments
      in case ActiveDeployment sorted_ds of
           None \<Rightarrow> filter (\<lambda>d. DeploymentVersionFor d \<noteq> st_LatestVersion (dc_Status config)) sorted_ds
         | Some active \<Rightarrow> filter (\<lambda>d. DeploymentVersionFor d < DeploymentVersionFor active) sorted_ds)"

definition GetReplicaCountForDeployments :: "replication_controller list \<Rightarrow> int" where
  "GetReplicaCountForDeployments ds = foldl (\<lambda>total d. to_int32 (total + rc_Replicas d)) 0 ds"

definition GetStatusReplicaCountForDeployments :: "replication_controller list \<Rightarrow> int" where
  "GetStatusReplicaCountForDeployments ds = foldl (\<lambda>total d. to_int32 (total + rc_StatusReplicas d)) 0 ds"

definition GetReadyReplicaCountForReplicationControllers :: "replication_controller list \<Rightarrow> int" where
  "GetReadyReplicaCountForReplicationControllers ds =
     foldl (\<lambda>total d. to_int32 (total + rc_StatusReadyReplicas d)) 0 ds"

end
