(* ===== verification/Deploy_Controller.thy ===== *)
theory Deploy_Controller
  imports Deploy_Types
begin

text \<open>
  The deployment controller (\<open>origin/pkg/deploy/controller/deployment/controller.go\<close>): it starts a
  deployment by creating its deployer pod, and the phase of the deployment follows the pod.

  What the controller calls is a record of answers; a handler gives the calls it makes that change the
  cluster, in their order, and how it ends.  Events and log lines are left out.
\<close>

record deployer_pod =
  dp_Namespace :: string
  dp_Name :: string
  dp_Labels :: "(string \<times> string) list"
  dp_Annotations :: "(string \<times> string) list"
  dp_Phase :: pod_phase
  dp_Image :: string
  dp_Command :: "string list"
  dp_Env :: "(string \<times> string) list"
  dp_Resources :: string
  dp_ImagePullPolicy :: string
  dp_ActiveDeadlineSeconds :: int
  dp_DNSPolicy :: string
  dp_PullSecrets :: "string list"
  dp_NodeSelector :: "(string \<times> string) list"
  dp_RestartPolicy :: string
  dp_ServiceAccountName :: string
  dp_GracePeriodSeconds :: int

record deploy_world =
  dw_DeployerImage :: string
  dw_ServiceAccount :: string
  dw_Environment :: "(string \<times> string) list"
  dw_Decode :: "string \<Rightarrow> go_error + deployment_config"
  dw_GetPod :: "string \<Rightarrow> string \<Rightarrow> go_error + deployer_pod"
  dw_ListPods :: "string \<Rightarrow> selector \<Rightarrow> go_error + deployer_pod list"
  dw_CreatePod :: "string \<Rightarrow> deployer_pod \<Rightarrow> go_error + deployer_pod"
  dw_DeletePod :: "string \<Rightarrow> string \<Rightarrow> go_error option"
  dw_UpdateRC :: "replication_controller \<Rightarrow> go_error option"

datatype deploy_call =
    CallCreatePod string deployer_pod
  | CallDeletePod string string
  | CallUpdateRC replication_controller

datatype handled = Returned "go_error option" | Panicked

section \<open>The deployer pod\<close>

definition DecodeDeploymentConfig ::
  "(string \<Rightarrow> go_error + deployment_config) \<Rightarrow> replication_controller \<Rightarrow> go_error + deployment_config" where
  "DecodeDeploymentConfig decode rc =
     (case decode (EncodedDeploymentConfigFor rc) of
        Inl e \<Rightarrow> Inl (ErrorfE ''failed to decode DeploymentConfig from controller: %v'' [] [e])
      | Inr config \<Rightarrow> Inr config)"

definition makeDeployerContainer ::
  "deploy_world \<Rightarrow> deploy_strategy \<Rightarrow> string \<times> string list \<times> (string \<times> string) list" where
  "makeDeployerContainer w strategy =
     (case ds_Custom strategy of
        None \<Rightarrow> (dw_DeployerImage w, [], dw_Environment w)
      | Some p \<Rightarrow>
          (if length (cp_Image p) > 0 then cp_Image p else dw_DeployerImage w,
           if length (cp_Command p) > 0 then cp_Command p else [],
           cp_Environment p @ filter (\<lambda>(name, _). name \<notin> fst ` set (cp_Environment p)) (dw_Environment w)))"

text \<open>\<open>MergeInto\<close> of \<open>origin/pkg/util/labels.go\<close> without flags: keys of the destination are kept.\<close>

definition MergeInto :: "(string \<times> string) list \<Rightarrow> (string \<times> string) list \<Rightarrow> (string \<times> string) list" where
  "MergeInto dst src = dst @ filter (\<lambda>(k, _). map_of dst k = None) src"

definition MaxDeploymentDurationSeconds :: int where "MaxDeploymentDurationSeconds = 21600"

definition deployer_pod_of ::
  "deploy_world \<Rightarrow> replication_controller \<Rightarrow> deployment_config \<Rightarrow> pod_template \<Rightarrow> deployer_pod" where
  "deployer_pod_of w deployment config template =
     (let strategy = sp_Strategy (dc_Spec config)
      in case makeDeployerContainer w strategy of (img, command, env) \<Rightarrow>
        \<lparr>dp_Namespace = [], dp_Name = DeployerPodNameForDeployment (rc_Name deployment),
         dp_Labels = MergeInto [(DeployerPodForDeploymentLabel, rc_Name deployment)] (ds_Labels strategy),
         dp_Annotations = MergeInto [(DeploymentAnnotation, rc_Name deployment)] (ds_Annotations strategy),
         dp_Phase = PodPhaseOther [],
         dp_Image = img, dp_Command = command,
         dp_Env = env @ [(''OPENSHIFT_DEPLOYMENT_NAME'', rc_Name deployment),
           (''OPENSHIFT_DEPLOYMENT_NAMESPACE'', rc_Namespace deployment)],
         dp_Resources = ds_Resources strategy, dp_ImagePullPolicy = ''IfNotPresent'',
         dp_ActiveDeadlineSeconds =
           (case ds_ActiveDeadlineSeconds strategy of None \<Rightarrow> MaxDeploymentDurationSeconds | Some s \<Rightarrow> s),
         dp_DNSPolicy = pt_DNSPolicy template, dp_PullSecrets = pt_PullSecrets template,
         dp_NodeSelector = pt_NodeSelector template, dp_RestartPolicy = ''Never'',
         dp_ServiceAccountName = dw_ServiceAccount w, dp_GracePeriodSeconds = 10\<rparr>)"

text \<open>The template of the deployment is read through a pointer: \<open>None\<close> is the panic on a nil one.\<close>

definition makeDeployerPod :: "deploy_world \<Rightarrow> replication_controller \<Rightarrow> (go_error + deployer_pod) option" where
  "makeDeployerPod w deployment =
     (case DecodeDeploymentConfig (dw_Decode w) deployment of
        Inl e \<Rightarrow> Some (Inl e)
      | Inr config \<Rightarrow>
          map_option (\<lambda>template. Inr (deployer_pod_of w deployment config template)) (rc_Template deployment))"

definition LabelForDeployment :: "replication_controller \<Rightarrow> string" where
  "LabelForDeployment rc = rc_Namespace rc @ ''/'' @ rc_Name rc"

definition cleanupDeployerPods :: "deploy_world \<Rightarrow> replication_controller \<Rightarrow> deploy_call list \<times> go_error option" where
  "cleanupDeployerPods w deployment =
     (case dw_ListPods w (rc_Namespace deployment) (DeployerPodSelector (rc_Name deployment)) of
        Inl e \<Rightarrow> ([], Some (ErrorfE ''couldn't fetch deployer pods for %q: %v'' [LabelForDeployment deployment] [e]))
      | Inr pods \<Rightarrow>
          (map (\<lambda>p. CallDeletePod (dp_Namespace p) (dp_Name p)) pods,
           if \<exists>p \<in> set pods. (case dw_DeletePod w (dp_Namespace p) (dp_Name p) of None \<Rightarrow> False | Some e \<Rightarrow> \<not> IsNotFound e)
           then Some (Errorf ''couldn't clean up all deployer pods for %s'' [rc_Name deployment]) else None))"

section \<open>The next phase\<close>

text \<open>\<open>nextStatus\<close> with the annotations it leaves.\<close>

definition nextStatus ::
  "deployer_pod \<Rightarrow> replication_controller \<Rightarrow> (string \<times> string) list \<Rightarrow> string \<times> (string \<times> string) list" where
  "nextStatus pod deployment updated =
     (case dp_Phase pod of
        PodPending \<Rightarrow> (StatusPending, updated)
      | PodRunning \<Rightarrow> (StatusRunning, updated)
      | PodSucceeded \<Rightarrow>
          (let u = (if IsDeploymentCancelled deployment
                    then AList.delete DeploymentStatusReasonAnnotation (AList.delete DeploymentCancelledAnnotation updated)
                    else updated)
           in (StatusComplete,
               AList.delete DesiredReplicasAnnotation
                 (AList.update DeploymentReplicasAnnotation (map_value u DesiredReplicasAnnotation) u)))
      | PodFailed \<Rightarrow> (StatusFailed, updated)
      | PodPhaseOther _ \<Rightarrow> (StatusNew, updated))"

definition nextStatusComp :: "string \<Rightarrow> string \<Rightarrow> string" where
  "nextStatusComp fromDeployer fromPath = (if CanTransitionPhase fromPath fromDeployer then fromDeployer else fromPath)"

text \<open>
  The switch on the current phase: the calls it makes, and either the end of the handler or the phase
  to go to with the annotations to write.
\<close>

type_synonym choice_result = "deploy_call list \<times> (handled + string \<times> (string \<times> string) list)"

definition after_cleanup ::
  "deploy_call list \<times> go_error option \<Rightarrow> string \<Rightarrow> (string \<times> string) list \<Rightarrow> choice_result" where
  "after_cleanup cleanup nextS updated =
     (case cleanup of
        (calls, Some e) \<Rightarrow> (calls, Inl (Returned (Some e)))
      | (calls, None) \<Rightarrow> (calls, Inr (nextS, updated)))"

definition start_deployer ::
  "deploy_world \<Rightarrow> replication_controller \<Rightarrow> (string \<times> string) list \<Rightarrow> choice_result" where
  "start_deployer w deployment updated =
     (if map_of (rc_annotations deployment) DeploymentIgnorePodAnnotation \<noteq> None then ([], Inl (Returned None))
      else (case makeDeployerPod w deployment of
              None \<Rightarrow> ([], Inl Panicked)
            | Some (Inl e) \<Rightarrow> ([], Inl (Returned (Some (FatalErr
                (ErrorfE ''couldn't make deployer pod for %s: %v'' [LabelForDeployment deployment] [e])))))
            | Some (Inr pod) \<Rightarrow>
                ([CallCreatePod (rc_Namespace deployment) pod],
                 (case dw_CreatePod w (rc_Namespace deployment) pod of
                    Inl e \<Rightarrow> Inl (Returned (Some
                      (ErrorfE ''couldn't create deployer pod for %s: %v'' [LabelForDeployment deployment] [e])))
                  | Inr created \<Rightarrow>
                      Inr (StatusPending, AList.update DeploymentPodAnnotation (dp_Name created) updated)))))"

definition new_deployment ::
  "deploy_world \<Rightarrow> replication_controller \<Rightarrow> go_error + deployer_pod \<Rightarrow> string \<Rightarrow> (string \<times> string) list \<Rightarrow> choice_result" where
  "new_deployment w deployment deployer nextS updated =
     (if IsDeploymentCancelled deployment then after_cleanup (cleanupDeployerPods w deployment) StatusPending updated
      else (case deployer of
              Inl e \<Rightarrow>
                if IsNotFound e then start_deployer w deployment updated
                else ([], Inl (Returned (Some
                  (ErrorfE ''couldn't fetch existing deployer pod for %s: %v'' [LabelForDeployment deployment] [e]))))
            | Inr pod \<Rightarrow>
                ([], Inr (if map_value (dp_Annotations pod) DeploymentAnnotation \<noteq> rc_Name deployment
                          then (StatusFailed, AList.update DeploymentStatusReasonAnnotation
                            ''unrelated pod with the same name as this deployment is already running'' updated)
                          else (nextStatusComp nextS StatusPending,
                            AList.update DeploymentPodAnnotation (dp_Name pod) updated)))))"

definition in_flight_deployment ::
  "deploy_world \<Rightarrow> replication_controller \<Rightarrow> go_error + deployer_pod \<Rightarrow> string \<Rightarrow> (string \<times> string) list \<Rightarrow> choice_result" where
  "in_flight_deployment w deployment deployer nextS updated =
     (case deployer of
        Inl e \<Rightarrow>
          ([], Inr (if IsNotFound e
                    then (StatusFailed,
                      if IsDeploymentCancelled deployment then updated
                      else AList.update DeploymentStatusReasonAnnotation ''deployer pod no longer exists'' updated)
                    else (nextS, updated)))
      | Inr pod \<Rightarrow>
          if IsDeploymentCancelled deployment then after_cleanup (cleanupDeployerPods w deployment) nextS updated
          else ([], Inr (nextS, updated)))"

definition phase_choice ::
  "deploy_world \<Rightarrow> replication_controller \<Rightarrow> go_error + deployer_pod \<Rightarrow> string \<Rightarrow> (string \<times> string) list \<Rightarrow> choice_result" where
  "phase_choice w deployment deployer nextS updated =
     (let currentStatus = DeploymentStatusFor deployment in
      if currentStatus = StatusNew then new_deployment w deployment deployer nextS updated
      else if currentStatus = StatusPending \<or> currentStatus = StatusRunning
      then in_flight_deployment w deployment deployer nextS updated
      else if currentStatus = StatusFailed \<and> IsDeploymentCancelled deployment \<or> currentStatus = StatusComplete
      then after_cleanup (cleanupDeployerPods w deployment) nextS updated
      else ([], Inr (nextS, updated)))"

text \<open>The deployment that is written for a new phase; a test deployment that ends is scaled down.\<close>

definition transitioned ::
  "(string \<Rightarrow> go_error + deployment_config) \<Rightarrow> replication_controller \<Rightarrow> string \<Rightarrow> (string \<times> string) list
   \<Rightarrow> replication_controller" where
  "transitioned decode deployment nextS updated =
     (let d = deployment\<lparr>rc_Annotations := Some (AList.update DeploymentStatusAnnotation nextS updated)\<rparr>
      in if rc_Replicas d \<noteq> 0 \<and> IsTerminatedDeployment d
         then (case DecodeDeploymentConfig decode d of
                 Inl _ \<Rightarrow> d
               | Inr config \<Rightarrow> if sp_Test (dc_Spec config) then d\<lparr>rc_Replicas := 0\<rparr> else d)
         else d)"

definition DeploymentController_Handle ::
  "deploy_world \<Rightarrow> replication_controller \<Rightarrow> deploy_call list \<times> handled" where
  "DeploymentController_Handle w deployment =
     (let currentStatus = DeploymentStatusFor deployment;
          updated = rc_annotations deployment;
          deployer = dw_GetPod w (rc_Namespace deployment) (DeployerPodNameForDeployment (rc_Name deployment));
          (nextS, updated1) =
            (case deployer of Inl _ \<Rightarrow> (currentStatus, updated) | Inr pod \<Rightarrow> nextStatus pod deployment updated)
      in case phase_choice w deployment deployer nextS updated1 of
           (calls, Inl end') \<Rightarrow> (calls, end')
         | (calls, Inr (nextS', updated2)) \<Rightarrow>
             if CanTransitionPhase currentStatus nextS'
             then (let d = transitioned (dw_Decode w) deployment nextS' updated2
                   in (calls @ [CallUpdateRC d],
                       Returned (case dw_UpdateRC w d of
                           None \<Rightarrow> None
                         | Some e \<Rightarrow> Some (ErrorfE ''couldn't update deployment %s to status %s: %v''
                             [LabelForDeployment deployment, nextS'] [e]))))
             else (calls, Returned None))"

section \<open>The queue\<close>

datatype queue_call = Forget | AddRateLimited

definition DeploymentController_handleErr :: "nat \<Rightarrow> go_error option \<Rightarrow> queue_call" where
  "DeploymentController_handleErr numRequeues err =
     (case err of
        None \<Rightarrow> Forget
      | Some (FatalErr _) \<Rightarrow> Forget
      | Some _ \<Rightarrow> if numRequeues < 2 then AddRateLimited else Forget)"

end
