(* ===== verification/Deploy_Phases.thy ===== *)
theory Deploy_Phases
  imports Deploy_Controller
begin

text \<open>
  The phases of a deployment: what one run of the deployment controller writes, and what the runs of
  several workers with caches of their own, next to other writers, do to a deployment.
\<close>

section \<open>Annotations and phases\<close>

lemma map_value_update [simp]: "map_value (AList.update k v m) k' = (if k' = k then v else map_value m k')"
  by (simp add: map_value_def update_conv')

lemma map_value_delete [simp]: "map_value (AList.delete k m) k' = (if k' = k then [] else map_value m k')"
  by (simp add: map_value_def delete_conv')

lemma phases_distinct [simp]:
  "StatusNew \<noteq> StatusPending" "StatusNew \<noteq> StatusRunning" "StatusNew \<noteq> StatusComplete" "StatusNew \<noteq> StatusFailed"
  "StatusPending \<noteq> StatusNew" "StatusPending \<noteq> StatusRunning" "StatusPending \<noteq> StatusComplete" "StatusPending \<noteq> StatusFailed"
  "StatusRunning \<noteq> StatusNew" "StatusRunning \<noteq> StatusPending" "StatusRunning \<noteq> StatusComplete" "StatusRunning \<noteq> StatusFailed"
  "StatusComplete \<noteq> StatusNew" "StatusComplete \<noteq> StatusPending" "StatusComplete \<noteq> StatusRunning" "StatusComplete \<noteq> StatusFailed"
  "StatusFailed \<noteq> StatusNew" "StatusFailed \<noteq> StatusPending" "StatusFailed \<noteq> StatusRunning" "StatusFailed \<noteq> StatusComplete"
  by (simp_all add: deploy_phases)

lemma CanTransitionPhase_trans:
  "CanTransitionPhase a b \<Longrightarrow> CanTransitionPhase b c \<Longrightarrow> CanTransitionPhase a c"
  by (auto simp: CanTransitionPhase_def split: if_splits)

lemma CanTransitionPhase_irrefl [simp]: "\<not> CanTransitionPhase a a"
  by (auto simp: CanTransitionPhase_def)

lemma CanTransitionPhase_terminal [simp]:
  "\<not> CanTransitionPhase StatusComplete b" "\<not> CanTransitionPhase StatusFailed b"
  by (auto simp: CanTransitionPhase_def)

lemma transitioned_annotations [simp]:
  "rc_annotations (transitioned decode d phase updated) = AList.update DeploymentStatusAnnotation phase updated"
  by (auto simp: transitioned_def Let_def rc_annotations_def split: sum.split)

lemma transitioned_phase [simp]: "DeploymentStatusFor (transitioned decode d phase updated) = phase"
  by (simp add: DeploymentStatusFor_def annotationFor_def)

lemma transitioned_fields [simp]:
  "rc_Name (transitioned decode d phase updated) = rc_Name d"
  "rc_Namespace (transitioned decode d phase updated) = rc_Namespace d"
  "rc_ResourceVersion (transitioned decode d phase updated) = rc_ResourceVersion d"
  "rc_Template (transitioned decode d phase updated) = rc_Template d"
  by (auto simp: transitioned_def Let_def split: sum.split)

section \<open>What one run writes\<close>

lemma cleanup_calls_delete:
  "CallUpdateRC d' \<notin> set (fst (cleanupDeployerPods w d))" "CallCreatePod n p \<notin> set (fst (cleanupDeployerPods w d))"
  by (auto simp: cleanupDeployerPods_def split: sum.split)

lemma phase_choice_calls:
  "phase_choice w d deployer nextS updated = (calls, r) \<Longrightarrow> CallUpdateRC d' \<notin> set calls"
  using cleanup_calls_delete(1) [of d' w d]
  by (auto simp: phase_choice_def new_deployment_def in_flight_deployment_def start_deployer_def after_cleanup_def Let_def
    split: if_splits sum.splits option.splits prod.splits)

lemma Handle_writes:
  assumes "DeploymentController_Handle w d = (calls, end')" "CallUpdateRC d' \<in> set calls"
  obtains phase updated where "d' = transitioned (dw_Decode w) d phase updated"
    "CanTransitionPhase (DeploymentStatusFor d) phase"
proof -
  obtain nextS updated1 where n: "(case dw_GetPod w (rc_Namespace d) (DeployerPodNameForDeployment (rc_Name d)) of
      Inl _ \<Rightarrow> (DeploymentStatusFor d, rc_annotations d) | Inr pod \<Rightarrow> nextStatus pod d (rc_annotations d)) = (nextS, updated1)"
    by fastforce
  obtain calls0 r where c: "phase_choice w d (dw_GetPod w (rc_Namespace d) (DeployerPodNameForDeployment (rc_Name d)))
      nextS updated1 = (calls0, r)" by fastforce
  show thesis
    using assms that phase_choice_calls [OF c, of d']
    by (auto simp: DeploymentController_Handle_def Let_def n c split: sum.splits prod.splits if_splits)
qed

section \<open>Many workers\<close>

text \<open>
  The deployment in the cluster and the versions of it that some cache may still hold.  The API server
  accepts a write of a deployment when its version is the current one.  A worker runs the handler on any
  version that a cache holds; the other writers, users who cancel, the deployment config controller and
  the deployer, write what the relation \<open>others\<close> relates to such a version.
\<close>

record deploy_system =
  sy_Deployment :: replication_controller
  sy_Cached :: "replication_controller set"

type_synonym writers = "replication_controller \<Rightarrow> replication_controller \<Rightarrow> bool"

definition accept :: "replication_controller \<Rightarrow> deploy_system \<Rightarrow> deploy_system" where
  "accept d s =
     (if rc_ResourceVersion d = rc_ResourceVersion (sy_Deployment s)
      then (let stored = d\<lparr>rc_ResourceVersion := Suc (rc_ResourceVersion d)\<rparr>
            in \<lparr>sy_Deployment = stored, sy_Cached = insert stored (sy_Cached s)\<rparr>)
      else s)"

inductive deploy_step :: "writers \<Rightarrow> deploy_system \<Rightarrow> deploy_system \<Rightarrow> bool" for others where
  controller: "d \<in> sy_Cached s \<Longrightarrow> DeploymentController_Handle w d = (calls, end') \<Longrightarrow> CallUpdateRC d' \<in> set calls \<Longrightarrow>
    deploy_step others s (accept d' s)"
| other: "d \<in> sy_Cached s \<Longrightarrow> others d d' \<Longrightarrow> deploy_step others s (accept d' s)"

inductive deploy_run :: "writers \<Rightarrow> deploy_system \<Rightarrow> deploy_system \<Rightarrow> bool" for others where
  start: "deploy_run others s s"
| more: "deploy_run others s s' \<Longrightarrow> deploy_step others s' s'' \<Longrightarrow> deploy_run others s s''"

inductive_cases deploy_step_cases: "deploy_step others s s'"

text \<open>Writers who send the version they have read and leave its phase alone.\<close>

definition polite :: "writers \<Rightarrow> bool" where
  "polite others \<longleftrightarrow> (\<forall>d d'. others d d' \<longrightarrow>
     rc_ResourceVersion d' = rc_ResourceVersion d \<and> DeploymentStatusFor d' = DeploymentStatusFor d)"

definition versions_known :: "deploy_system \<Rightarrow> bool" where
  "versions_known s \<longleftrightarrow> (\<forall>d \<in> sy_Cached s. rc_ResourceVersion d \<le> rc_ResourceVersion (sy_Deployment s) \<and>
     (rc_ResourceVersion d = rc_ResourceVersion (sy_Deployment s) \<longrightarrow> d = sy_Deployment s))"

lemma accept_versions_known: "versions_known s \<Longrightarrow> versions_known (accept d s)"
  by (auto simp: versions_known_def accept_def Let_def)

lemma deploy_step_forward:
  assumes "deploy_step others s s'" "versions_known s" "polite others"
  shows "versions_known s'"
    "DeploymentStatusFor (sy_Deployment s') = DeploymentStatusFor (sy_Deployment s) \<or>
     CanTransitionPhase (DeploymentStatusFor (sy_Deployment s)) (DeploymentStatusFor (sy_Deployment s'))"
proof -
  have known: "d = sy_Deployment s" if "d \<in> sy_Cached s" "rc_ResourceVersion d = rc_ResourceVersion (sy_Deployment s)" for d
    using that assms(2) by (simp add: versions_known_def)
  have stored: "DeploymentStatusFor (d\<lparr>rc_ResourceVersion := v\<rparr>) = DeploymentStatusFor d" for d v
    by (simp add: DeploymentStatusFor_def annotationFor_def rc_annotations_def)
  show "versions_known s'"
    using assms(1,2) accept_versions_known by (auto elim: deploy_step_cases)
  show "DeploymentStatusFor (sy_Deployment s') = DeploymentStatusFor (sy_Deployment s) \<or>
     CanTransitionPhase (DeploymentStatusFor (sy_Deployment s)) (DeploymentStatusFor (sy_Deployment s'))"
    using assms(1)
  proof cases
    case (controller d w calls end' d')
    then obtain phase updated where d': "d' = transitioned (dw_Decode w) d phase updated"
      "CanTransitionPhase (DeploymentStatusFor d) phase" by (elim Handle_writes)
    then show ?thesis using controller known [of d] by (auto simp: accept_def Let_def stored)
  next
    case (other d d')
    then show ?thesis using known [of d] assms(3) by (auto simp: polite_def accept_def Let_def stored)
  qed
qed

lemma deploy_run_forward:
  assumes "deploy_run others s s'" "versions_known s" "polite others"
  shows "versions_known s' \<and> (DeploymentStatusFor (sy_Deployment s') = DeploymentStatusFor (sy_Deployment s) \<or>
     CanTransitionPhase (DeploymentStatusFor (sy_Deployment s)) (DeploymentStatusFor (sy_Deployment s')))"
  using assms
proof induction
  case (more s s' s'')
  then have IH: "versions_known s'" "DeploymentStatusFor (sy_Deployment s') = DeploymentStatusFor (sy_Deployment s) \<or>
     CanTransitionPhase (DeploymentStatusFor (sy_Deployment s)) (DeploymentStatusFor (sy_Deployment s'))" by simp_all
  show ?case using deploy_step_forward [OF more.hyps(2) IH(1) more.prems(2)] IH(2) CanTransitionPhase_trans by metis
qed simp

text \<open>
  C39: the phase of a deployment only moves forward.  Whatever workers with stale caches do to a
  deployment, beside other writers who send the version they have read and leave its phase alone,
  between two points of a run its phase is the same or has gone the way from New over Pending and
  Running to Complete or Failed, and a phase that ends a deployment stays.
\<close>

theorem deployment_phases_move_forward:
  assumes "polite others" "deploy_run others \<lparr>sy_Deployment = d, sy_Cached = {d}\<rparr> s" "deploy_run others s s'"
  shows "(DeploymentStatusFor (sy_Deployment s') = DeploymentStatusFor (sy_Deployment s) \<or>
      CanTransitionPhase (DeploymentStatusFor (sy_Deployment s)) (DeploymentStatusFor (sy_Deployment s'))) \<and>
    (IsTerminatedDeployment (sy_Deployment s) \<longrightarrow>
      DeploymentStatusFor (sy_Deployment s') = DeploymentStatusFor (sy_Deployment s))"
proof -
  have "versions_known s" using deploy_run_forward [OF assms(2) _ assms(1)] by (simp add: versions_known_def)
  then show ?thesis using deploy_run_forward [OF assms(3) _ assms(1)]
    by (auto simp: IsTerminatedDeployment_def IsCompleteDeployment_def IsFailedDeployment_def)
qed

section \<open>The deployer pod decides\<close>

lemmas Handle_defs = DeploymentController_Handle_def phase_choice_def new_deployment_def in_flight_deployment_def
  after_cleanup_def Let_def

definition deployer_status :: "deployer_pod \<Rightarrow> string" where
  "deployer_status pod = (case dp_Phase pod of
     PodSucceeded \<Rightarrow> StatusComplete | PodFailed \<Rightarrow> StatusFailed | PodRunning \<Rightarrow> StatusRunning | _ \<Rightarrow> StatusPending)"

definition in_flight :: "replication_controller \<Rightarrow> bool" where
  "in_flight d \<longleftrightarrow> DeploymentStatusFor d \<in> {StatusNew, StatusPending, StatusRunning}"

text \<open>
  A deployment follows its deployer pod.  When the pod exists and nobody has cancelled the
  deployment, a run writes the phase that the pod's phase stands for, once and only if that is a step
  forward, and for a test configuration whose deployment ends it scales the deployment down.
\<close>

theorem deployment_follows_its_pod:
  assumes "in_flight d" "\<not> IsDeploymentCancelled d"
    "dw_GetPod w (rc_Namespace d) (DeployerPodNameForDeployment (rc_Name d)) = Inr pod"
    "map_value (dp_Annotations pod) DeploymentAnnotation = rc_Name d"
  shows "if CanTransitionPhase (DeploymentStatusFor d) (deployer_status pod)
    then \<exists>d' e. DeploymentController_Handle w d = ([CallUpdateRC d'], Returned e) \<and>
        (e = None \<longleftrightarrow> dw_UpdateRC w d' = None) \<and> DeploymentStatusFor d' = deployer_status pod \<and>
        rc_Replicas d' \<in> {0, rc_Replicas d} \<and>
        (\<forall>config. IsTerminatedDeployment d' \<and> dw_Decode w (EncodedDeploymentConfigFor d') = Inr config \<and>
           sp_Test (dc_Spec config) \<longrightarrow> rc_Replicas d' = 0)
    else DeploymentController_Handle w d = ([], Returned None)"
proof -
  obtain nextS updated where n: "nextStatus pod d (rc_annotations d) = (nextS, updated)" by fastforce
  obtain phase updated' where c: "phase_choice w d (Inr pod) nextS updated = ([], Inr (phase, updated'))"
    and p: "CanTransitionPhase (DeploymentStatusFor d) (deployer_status pod) \<Longrightarrow> phase = deployer_status pod"
    "\<not> CanTransitionPhase (DeploymentStatusFor d) (deployer_status pod) \<Longrightarrow> \<not> CanTransitionPhase (DeploymentStatusFor d) phase"
    using assms n
    by (auto simp: phase_choice_def new_deployment_def in_flight_deployment_def nextStatusComp_def nextStatus_def
      deployer_status_def in_flight_def CanTransitionPhase_def Let_def split: pod_phase.splits if_splits)
  let ?d = "transitioned (dw_Decode w) d phase updated'"
  have H: "DeploymentController_Handle w d =
      (if CanTransitionPhase (DeploymentStatusFor d) phase then ([CallUpdateRC ?d], Returned (case dw_UpdateRC w ?d of
          None \<Rightarrow> None | Some e \<Rightarrow> Some (ErrorfE ''couldn't update deployment %s to status %s: %v''
            [LabelForDeployment d, phase] [e]))) else ([], Returned None))"
    by (simp add: DeploymentController_Handle_def assms(3) n c Let_def)
  have "rc_Replicas ?d \<in> {0, rc_Replicas d}" by (auto simp: transitioned_def Let_def split: sum.split)
  moreover have "rc_Replicas ?d = 0"
    if "IsTerminatedDeployment ?d" "dw_Decode w (EncodedDeploymentConfigFor ?d) = Inr config" "sp_Test (dc_Spec config)" for config
  proof -
    let ?d0 = "d\<lparr>rc_Annotations := Some (AList.update DeploymentStatusAnnotation phase updated')\<rparr>"
    have a: "rc_annotations ?d0 = AList.update DeploymentStatusAnnotation phase updated'" by (simp add: rc_annotations_def)
    then have "IsTerminatedDeployment ?d0" "dw_Decode w (EncodedDeploymentConfigFor ?d0) = Inr config"
      using that by (simp_all add: IsTerminatedDeployment_def IsCompleteDeployment_def IsFailedDeployment_def
        DeploymentStatusFor_def EncodedDeploymentConfigFor_def annotationFor_def a)
    then show ?thesis using that(3) by (simp add: transitioned_def DecodeDeploymentConfig_def Let_def)
  qed
  ultimately show ?thesis using p H by (auto split: option.split)
qed

section \<open>Cancelled deployments\<close>

definition run_writes :: "deploy_world \<Rightarrow> replication_controller \<Rightarrow> replication_controller \<Rightarrow> bool" where
  "run_writes w d d' \<longleftrightarrow> (\<exists>calls. DeploymentController_Handle w d = (calls @ [CallUpdateRC d'], Returned None))"

lemma cleaned_up:
  assumes "dw_ListPods w (rc_Namespace d) (DeployerPodSelector (rc_Name d)) = Inr pods"
    "\<And>p. p \<in> set pods \<Longrightarrow> dw_DeletePod w (dp_Namespace p) (dp_Name p) = None"
  shows "cleanupDeployerPods w d = (map (\<lambda>p. CallDeletePod (dp_Namespace p) (dp_Name p)) pods, None)"
  using assms by (auto simp: cleanupDeployerPods_def)

lemma transitioned_cancelled:
  "IsDeploymentCancelled (transitioned decode d phase updated) \<longleftrightarrow>
     to_lower (map_value updated DeploymentCancelledAnnotation) = to_lower DeploymentCancelledAnnotationValue"
  by (simp add: IsDeploymentCancelled_def annotationFor_def deploy_keys)

lemma IsDeploymentCancelled_value:
  "IsDeploymentCancelled d \<longleftrightarrow>
     to_lower (map_value (rc_annotations d) DeploymentCancelledAnnotation) = to_lower DeploymentCancelledAnnotationValue"
  by (simp add: IsDeploymentCancelled_def annotationFor_def)

lemma in_flight_without_pod:
  assumes "DeploymentStatusFor d \<in> {StatusPending, StatusRunning}" "IsDeploymentCancelled d"
    "dw_GetPod w (rc_Namespace d) (DeployerPodNameForDeployment (rc_Name d)) = Inl e" "IsNotFound e"
    "\<And>d. dw_UpdateRC w d = None"
  shows "run_writes w d (transitioned (dw_Decode w) d StatusFailed (rc_annotations d))"
  using assms by (auto simp: run_writes_def Handle_defs CanTransitionPhase_def)

text \<open>
  A cancelled deployment fails.  From every phase it can be cancelled in, once its deployer pod is
  gone and the API server answers, it takes at most two runs of the controller to write that the
  deployment has failed.
\<close>

theorem cancelled_deployment_fails:
  assumes "in_flight d" "IsDeploymentCancelled d"
    "dw_GetPod w (rc_Namespace d) (DeployerPodNameForDeployment (rc_Name d)) = Inl e" "IsNotFound e"
    "dw_ListPods w (rc_Namespace d) (DeployerPodSelector (rc_Name d)) = Inr pods"
    "\<And>p. p \<in> set pods \<Longrightarrow> dw_DeletePod w (dp_Namespace p) (dp_Name p) = None"
    "\<And>d. dw_UpdateRC w d = None"
  shows "\<exists>d1. run_writes w d d1 \<and> (IsFailedDeployment d1 \<or>
    (in_flight d1 \<and> (\<exists>d2. run_writes w d1 d2 \<and> IsFailedDeployment d2)))"
proof (cases "DeploymentStatusFor d = StatusNew")
  case True
  let ?d1 = "transitioned (dw_Decode w) d StatusPending (rc_annotations d)"
  have "run_writes w d ?d1"
    using True assms(2,3,7) cleaned_up [OF assms(5,6)]
    by (simp add: run_writes_def Handle_defs CanTransitionPhase_def)
  moreover have "run_writes w ?d1 (transitioned (dw_Decode w) ?d1 StatusFailed (rc_annotations ?d1))"
    using assms(2-4,7) by (intro in_flight_without_pod) (simp_all add: transitioned_cancelled IsDeploymentCancelled_value deploy_keys)
  ultimately show ?thesis by (metis IsFailedDeployment_def in_flight_def insertCI transitioned_phase)
next
  case False
  then have "run_writes w d (transitioned (dw_Decode w) d StatusFailed (rc_annotations d))"
    using assms(1-4,7) by (intro in_flight_without_pod) (auto simp: in_flight_def)
  then show ?thesis by (metis IsFailedDeployment_def transitioned_phase)
qed

text \<open>
  A cancellation that comes too late is not always undone: of a new deployment whose deployer pod has
  already succeeded, the controller drops the cancellation and the wanted number of replicas as for a
  deployment that is complete, but writes the phase Pending and deletes the pod; the next run, which
  finds neither pod nor cancellation, fails the deployment for having lost its pod.
\<close>

theorem late_cancellation_fails_a_success:
  assumes "DeploymentStatusFor d = StatusNew" "IsDeploymentCancelled d"
    "dw_GetPod w (rc_Namespace d) (DeployerPodNameForDeployment (rc_Name d)) = Inr pod" "dp_Phase pod = PodSucceeded"
    "dw_ListPods w (rc_Namespace d) (DeployerPodSelector (rc_Name d)) = Inr pods"
    "\<And>p. p \<in> set pods \<Longrightarrow> dw_DeletePod w (dp_Namespace p) (dp_Name p) = None"
    "\<And>d. dw_UpdateRC w d = None" "\<And>ns name. dw_GetPod w' ns name = Inl (NotFoundErr ''pods'' name)"
    "\<And>d. dw_UpdateRC w' d = None"
  shows "\<exists>d1 d2. run_writes w d d1 \<and> DeploymentStatusFor d1 = StatusPending \<and> \<not> IsDeploymentCancelled d1 \<and>
    run_writes w' d1 d2 \<and> IsFailedDeployment d2 \<and>
    annotationFor d2 DeploymentStatusReasonAnnotation = ''deployer pod no longer exists''"
proof -
  define u where "u = snd (nextStatus pod d (rc_annotations d))"
  have n: "nextStatus pod d (rc_annotations d) = (StatusComplete, u)"
    using assms(4) by (simp add: u_def nextStatus_def Let_def)
  have u: "map_value u DeploymentCancelledAnnotation = []"
    using assms(2,4) by (simp add: u_def nextStatus_def Let_def deploy_keys)
  let ?d1 = "transitioned (dw_Decode w) d StatusPending u"
  let ?u2 = "AList.update DeploymentStatusReasonAnnotation ''deployer pod no longer exists'' (rc_annotations ?d1)"
  let ?d2 = "transitioned (dw_Decode w') ?d1 StatusFailed ?u2"
  have "run_writes w d ?d1"
    using assms(1-3,7) n cleaned_up [OF assms(5,6)] by (simp add: run_writes_def Handle_defs CanTransitionPhase_def)
  moreover have nc: "\<not> IsDeploymentCancelled ?d1"
    by (simp add: transitioned_cancelled u DeploymentCancelledAnnotationValue_def to_lower_def)
  moreover have "run_writes w' ?d1 ?d2"
    using nc assms(8,9) by (simp add: run_writes_def Handle_defs CanTransitionPhase_def)
  moreover have "annotationFor ?d2 DeploymentStatusReasonAnnotation = ''deployer pod no longer exists''"
    by (simp add: annotationFor_def deploy_keys)
  ultimately show ?thesis by (metis IsFailedDeployment_def transitioned_phase)
qed

section \<open>Pods\<close>

text \<open>Which pods a run creates and deletes.\<close>

lemma cleanup_deletes:
  "CallDeletePod ns name \<in> set (fst (cleanupDeployerPods w d)) \<longleftrightarrow>
     (\<exists>pods p. dw_ListPods w (rc_Namespace d) (DeployerPodSelector (rc_Name d)) = Inr pods \<and> p \<in> set pods \<and>
        dp_Namespace p = ns \<and> dp_Name p = name)"
  by (auto simp: cleanupDeployerPods_def split: sum.split)

lemma deployer_pod_identity [simp]:
  "dp_Name (deployer_pod_of w d config template) = DeployerPodNameForDeployment (rc_Name d)"
  "map_value (dp_Annotations (deployer_pod_of w d config template)) DeploymentAnnotation = rc_Name d"
  "Selector_Matches (DeployerPodSelector (rc_Name d)) (dp_Labels (deployer_pod_of w d config template))"
  by (simp_all add: deployer_pod_of_def MergeInto_def map_value_def Let_def DeployerPodSelector_def
    SelectorFromSet1_def split: prod.split)

lemma made_deployer_pod:
  assumes "makeDeployerPod w d = Some (Inr pod)"
  obtains config template where "pod = deployer_pod_of w d config template"
  using assms by (auto simp: makeDeployerPod_def split: sum.splits)

lemma phase_choice_creates:
  assumes "phase_choice w d deployer nextS updated = (calls, r)" "CallCreatePod ns pod \<in> set calls"
  shows "DeploymentStatusFor d = StatusNew \<and> \<not> IsDeploymentCancelled d \<and> ns = rc_Namespace d \<and>
    makeDeployerPod w d = Some (Inr pod) \<and> calls = [CallCreatePod ns pod]"
proof (cases "fst (start_deployer w d updated) = calls \<and> DeploymentStatusFor d = StatusNew \<and> \<not> IsDeploymentCancelled d")
  case True
  then show ?thesis using assms(2) by (auto simp: start_deployer_def split: if_splits option.splits sum.splits)
next
  case False
  then have "calls = [] \<or> calls = fst (cleanupDeployerPods w d)"
    using assms(1) by (auto simp: phase_choice_def new_deployment_def in_flight_deployment_def after_cleanup_def Let_def
      split: if_splits sum.splits option.splits prod.splits)
  then show ?thesis using assms(2) cleanup_calls_delete(2) [of ns pod w d] by auto
qed

text \<open>A run creates one pod at most, of a new deployment that is not cancelled, and one that the controller
finds again by name, annotation and label.\<close>

theorem created_deployer_pod:
  assumes "DeploymentController_Handle w d = (calls, end')" "CallCreatePod ns pod \<in> set calls"
  shows "DeploymentStatusFor d = StatusNew \<and> \<not> IsDeploymentCancelled d \<and> ns = rc_Namespace d \<and>
    dp_Name pod = DeployerPodNameForDeployment (rc_Name d) \<and>
    map_value (dp_Annotations pod) DeploymentAnnotation = rc_Name d \<and>
    Selector_Matches (DeployerPodSelector (rc_Name d)) (dp_Labels pod) \<and>
    filter (\<lambda>c. \<exists>n p. c = CallCreatePod n p) calls = [CallCreatePod ns pod]"
proof -
  obtain nextS updated1 where n: "(case dw_GetPod w (rc_Namespace d) (DeployerPodNameForDeployment (rc_Name d)) of
      Inl _ \<Rightarrow> (DeploymentStatusFor d, rc_annotations d) | Inr pod \<Rightarrow> nextStatus pod d (rc_annotations d)) = (nextS, updated1)"
    by fastforce
  obtain calls0 r where c: "phase_choice w d (dw_GetPod w (rc_Namespace d) (DeployerPodNameForDeployment (rc_Name d)))
      nextS updated1 = (calls0, r)" by fastforce
  have "calls = calls0 \<or> (\<exists>d'. calls = calls0 @ [CallUpdateRC d'])"
    using assms(1) by (auto simp: DeploymentController_Handle_def Let_def n c split: sum.splits prod.splits if_splits)
  then have made: "DeploymentStatusFor d = StatusNew \<and> \<not> IsDeploymentCancelled d \<and> ns = rc_Namespace d \<and>
      makeDeployerPod w d = Some (Inr pod) \<and> calls0 = [CallCreatePod ns pod]"
    using phase_choice_creates [OF c, of ns pod] assms(2) by auto
  then obtain config template where "pod = deployer_pod_of w d config template" by (elim conjE made_deployer_pod)
  then show ?thesis using made \<open>calls = calls0 \<or> _\<close> by auto
qed

text \<open>The name of a deployment that is too long for a label selects every pod of its namespace.\<close>

theorem long_deployment_name_deletes_every_pod:
  assumes "IsCompleteDeployment d" "63 < length (rc_Name d)"
    "dw_ListPods w (rc_Namespace d) = (\<lambda>sel. Inr (filter (\<lambda>p. Selector_Matches sel (dp_Labels p)) pods))"
    "p \<in> set pods"
  shows "CallDeletePod (dp_Namespace p) (dp_Name p) \<in> set (fst (DeploymentController_Handle w d))"
proof -
  have "CallDeletePod (dp_Namespace p) (dp_Name p) \<in> set (fst (cleanupDeployerPods w d))"
    using assms(2-4) by (auto simp: cleanup_deletes DeployerPodSelector_def SelectorFromSet1_def IsValidLabelValue_def)
  then show ?thesis
    using assms(1) by (auto simp: Handle_defs IsCompleteDeployment_def split: sum.split prod.split option.split)
qed

end
