(* ===== verification/Deploy_Make.thy ===== *)
theory Deploy_Make
  imports Deploy_Phases
begin

text \<open>
  The deployment of a version of a configuration: \<open>MakeDeployment\<close> of \<open>origin/pkg/deploy/util/util.go\<close>.
  The codec is a parameter; \<open>None\<close> is the panic on a configuration without a template.
\<close>

section \<open>\<open>MakeDeployment\<close>\<close>

definition deployment_template :: "deployment_config \<Rightarrow> pod_template \<Rightarrow> pod_template" where
  "deployment_template config template =
     template\<lparr>
       pt_Labels := AList.update DeploymentLabel (LatestDeploymentNameForConfig config)
         (AList.update DeploymentConfigLabel (dc_Name config) (pt_Labels template)),
       pt_Annotations := AList.update DeploymentVersionAnnotation (format_int (st_LatestVersion (dc_Status config)))
         (AList.update DeploymentConfigAnnotation (dc_Name config)
           (AList.update DeploymentAnnotation (LatestDeploymentNameForConfig config) (pt_Annotations template)))\<rparr>"

definition base_annotations :: "deployment_config \<Rightarrow> string \<Rightarrow> (string \<times> string) list" where
  "base_annotations config encodedConfig =
     [(DeploymentConfigAnnotation, dc_Name config), (DeploymentStatusAnnotation, StatusNew),
      (DeploymentEncodedConfigAnnotation, encodedConfig),
      (DeploymentVersionAnnotation, format_int (st_LatestVersion (dc_Status config))),
      (DesiredReplicasAnnotation, format_int (sp_Replicas (dc_Spec config))),
      (DeploymentReplicasAnnotation, format_int 0)]"

definition deployment_annotations :: "deployment_config \<Rightarrow> string \<Rightarrow> (string \<times> string) list" where
  "deployment_annotations config encodedConfig =
     (let base = base_annotations config encodedConfig;
          reasoned = (case st_Details (dc_Status config) of
             None \<Rightarrow> base
           | Some details \<Rightarrow>
               if length (dd_Message details) > 0
               then AList.update DeploymentStatusReasonAnnotation (dd_Message details) base else base)
      in case map_of (case dc_Annotations config of None \<Rightarrow> [] | Some m \<Rightarrow> m) DeploymentIgnorePodAnnotation of
           None \<Rightarrow> reasoned
         | Some v \<Rightarrow> AList.update DeploymentIgnorePodAnnotation v reasoned)"

definition MakeDeployment ::
  "(deployment_config \<Rightarrow> go_error + string) \<Rightarrow> deployment_config \<Rightarrow> (go_error + replication_controller) option" where
  "MakeDeployment encode config =
     (case encode config of
        Inl e \<Rightarrow> Some (Inl e)
      | Inr encodedConfig \<Rightarrow>
          (case sp_Template (dc_Spec config) of
             None \<Rightarrow> None
           | Some template \<Rightarrow> Some (Inr
               \<lparr>rc_Namespace = dc_Namespace config, rc_Name = LatestDeploymentNameForConfig config,
                rc_ResourceVersion = 0, rc_Created = 0,
                rc_Labels = AList.update DeploymentConfigAnnotation (dc_Name config) (dc_Labels config),
                rc_Annotations = Some (deployment_annotations config encodedConfig),
                rc_Replicas = 0,
                rc_Selector = AList.update DeploymentLabel (LatestDeploymentNameForConfig config)
                  (AList.update DeploymentConfigLabel (dc_Name config) (sp_Selector (dc_Spec config))),
                rc_Template = Some (deployment_template config template),
                rc_StatusReplicas = 0, rc_StatusReadyReplicas = 0\<rparr>)))"

section \<open>Versions as text\<close>

lemma ParseInt_format_int [number_text]:
  assumes "- (2 ^ 63) \<le> v" "v < 2 ^ 63"
  shows "ParseInt (format_int v) = (v, None)"
proof (cases "v < 0")
  case True
  have "\<not> (2 :: int) ^ 64 \<le> - v" "\<not> 2 ^ 63 < - v" using assms by simp_all
  then show ?thesis
    using True by (simp add: format_int_def ParseInt_def Let_def digits_value_decimal)
next
  case False
  then have "ParseInt (decimal (nat v)) = (int (nat v), None)" using assms(2) by (intro ParseInt_decimal) simp
  then show ?thesis using False by (simp add: format_int_def)
qed

lemma format_int_inject [simp]: "format_int v = format_int v' \<longleftrightarrow> v = v'"
proof
  have sign: "hd (decimal n) \<noteq> CHR ''-''" for n by (metis decimal_hd_digit sign_not_digit(1))
  have ne: "decimal n \<noteq> CHR ''-'' # s" for n s using sign [of n] by (cases "decimal n") auto
  show "format_int v = format_int v' \<Longrightarrow> v = v'"
    by (auto simp: format_int_def ne ne [symmetric] split: if_splits)
qed simp

lemma deployment_names_inject:
  "DeploymentNameForConfigVersion name v = DeploymentNameForConfigVersion name v' \<longleftrightarrow> v = v'"
  by (simp add: DeploymentNameForConfigVersion_def)

section \<open>Made deployments\<close>

lemma base_annotations_values:
  "map_value (base_annotations config enc) DeploymentStatusAnnotation = StatusNew"
  "map_value (base_annotations config enc) DeploymentVersionAnnotation = format_int (st_LatestVersion (dc_Status config))"
  "map_value (base_annotations config enc) DeploymentEncodedConfigAnnotation = enc"
  "map_value (base_annotations config enc) DeploymentConfigAnnotation = dc_Name config"
  "map_value (base_annotations config enc) DeploymentCancelledAnnotation = []"
  by (simp_all add: base_annotations_def map_value_def deploy_keys)

lemma deployment_annotations_value:
  "k \<noteq> DeploymentStatusReasonAnnotation \<Longrightarrow> k \<noteq> DeploymentIgnorePodAnnotation \<Longrightarrow>
   map_value (deployment_annotations config enc) k = map_value (base_annotations config enc) k"
  by (simp add: deployment_annotations_def Let_def split: option.split)

lemma other_keys:
  "k \<in> {DeploymentStatusAnnotation, DeploymentVersionAnnotation, DeploymentEncodedConfigAnnotation,
      DeploymentConfigAnnotation, DeploymentCancelledAnnotation} \<Longrightarrow>
   k \<noteq> DeploymentStatusReasonAnnotation \<and> k \<noteq> DeploymentIgnorePodAnnotation"
  by (elim insertE emptyE) (simp_all add: deploy_keys)

lemma deployment_annotations_values [simp]:
  "map_value (deployment_annotations config enc) DeploymentStatusAnnotation = StatusNew"
  "map_value (deployment_annotations config enc) DeploymentVersionAnnotation = format_int (st_LatestVersion (dc_Status config))"
  "map_value (deployment_annotations config enc) DeploymentEncodedConfigAnnotation = enc"
  "map_value (deployment_annotations config enc) DeploymentConfigAnnotation = dc_Name config"
  "map_value (deployment_annotations config enc) DeploymentCancelledAnnotation = []"
  by (simp_all add: deployment_annotations_value base_annotations_values other_keys)

lemma made_fields:
  assumes "MakeDeployment encode config = Some (Inr rc)"
  obtains enc template where "encode config = Inr enc" "sp_Template (dc_Spec config) = Some template"
    "rc_annotations rc = deployment_annotations config enc"
    "rc_Namespace rc = dc_Namespace config" "rc_Name rc = LatestDeploymentNameForConfig config"
    "rc_Labels rc = AList.update DeploymentConfigAnnotation (dc_Name config) (dc_Labels config)" "rc_Replicas rc = 0"
    "rc_Template rc = Some (deployment_template config template)"
    "rc_Selector rc = AList.update DeploymentLabel (LatestDeploymentNameForConfig config)
                  (AList.update DeploymentConfigLabel (dc_Name config) (sp_Selector (dc_Spec config)))"
  using assms by (auto simp: MakeDeployment_def rc_annotations_def split: sum.splits option.splits)

definition selects :: "(string \<times> string) list \<Rightarrow> (string \<times> string) list \<Rightarrow> bool" where
  "selects selector labels \<longleftrightarrow> (\<forall>k v. map_of selector k = Some v \<longrightarrow> map_of labels k = Some v)"

text \<open>
  What a deployment says of its version and configuration is what it was made from.  Its version
  reads back as the latest version of the configuration, its encoded configuration decodes to the
  configuration, it is listed with the deployments of the configuration, it is new, not cancelled and
  without replicas, its name is unlike that of any other version, and its selector selects its pods when
  the selector of the configuration does.
\<close>

theorem made_deployment_reads_back:
  assumes "MakeDeployment encode config = Some (Inr rc)" "\<And>s. encode config = Inr s \<Longrightarrow> decode s = Inr config"
    "- (2 ^ 63) \<le> st_LatestVersion (dc_Status config)" "st_LatestVersion (dc_Status config) < 2 ^ 63"
  shows "DeploymentVersionFor rc = st_LatestVersion (dc_Status config) \<and>
    DecodeDeploymentConfig decode rc = Inr config \<and>
    DeploymentConfigNameFor rc = dc_Name config \<and> Selector_Matches (ConfigSelector (dc_Name config)) (rc_Labels rc) \<and>
    DeploymentStatusFor rc = StatusNew \<and> \<not> IsDeploymentCancelled rc \<and> rc_Replicas rc = 0 \<and>
    (\<forall>v. rc_Name rc = DeploymentNameForConfigVersion (dc_Name config) v \<longleftrightarrow> v = st_LatestVersion (dc_Status config)) \<and>
    (\<forall>template. sp_Template (dc_Spec config) = Some template \<and> selects (sp_Selector (dc_Spec config)) (pt_Labels template) \<longrightarrow>
       (\<exists>made. rc_Template rc = Some made \<and> selects (rc_Selector rc) (pt_Labels made)))"
proof -
  obtain enc template where m: "encode config = Inr enc" "sp_Template (dc_Spec config) = Some template"
    "rc_annotations rc = deployment_annotations config enc"
    "rc_Namespace rc = dc_Namespace config" "rc_Name rc = LatestDeploymentNameForConfig config"
    "rc_Labels rc = AList.update DeploymentConfigAnnotation (dc_Name config) (dc_Labels config)" "rc_Replicas rc = 0"
    "rc_Template rc = Some (deployment_template config template)"
    "rc_Selector rc = AList.update DeploymentLabel (LatestDeploymentNameForConfig config)
                  (AList.update DeploymentConfigLabel (dc_Name config) (sp_Selector (dc_Spec config)))"
    by (rule made_fields [OF assms(1)])
  have "DeploymentVersionFor rc = st_LatestVersion (dc_Status config)"
    using assms(3,4) by (simp add: DeploymentVersionFor_def annotationFor_def m(3) ParseInt_format_int)
  moreover have "DecodeDeploymentConfig decode rc = Inr config"
    using assms(2) m(1) by (simp add: DecodeDeploymentConfig_def EncodedDeploymentConfigFor_def annotationFor_def m(3))
  moreover have "DeploymentConfigNameFor rc = dc_Name config" "DeploymentStatusFor rc = StatusNew" "\<not> IsDeploymentCancelled rc"
    by (simp_all add: DeploymentConfigNameFor_def DeploymentStatusFor_def IsDeploymentCancelled_def annotationFor_def m(3)
      DeploymentCancelledAnnotationValue_def to_lower_def)
  moreover have "Selector_Matches (ConfigSelector (dc_Name config)) (rc_Labels rc)"
    by (simp add: m(6) ConfigSelector_def SelectorFromSet1_def update_conv')
  moreover have "rc_Name rc = DeploymentNameForConfigVersion (dc_Name config) v \<longleftrightarrow> v = st_LatestVersion (dc_Status config)" for v
    unfolding m(5) LatestDeploymentNameForConfig_def DeploymentNameForConfigVersion_def by auto
  moreover have "selects (rc_Selector rc) (pt_Labels (deployment_template config template))"
    if "selects (sp_Selector (dc_Spec config)) (pt_Labels template)"
    using that by (auto simp: selects_def m(9) deployment_template_def update_conv' deploy_keys)
  ultimately show ?thesis using m(2,7,8) by simp
qed

end
