(* ===== verification/Image_Refs.thy ===== *)
theory Image_Refs
  imports Go_Prelude
begin

text \<open>
  References to Docker images: the regular expressions and the parser of the docker distribution
  (\<open>github.com/docker/distribution/reference\<close>, \<open>digest\<close>), the split of a name into registry,
  namespace and name (\<open>origin/pkg/image/reference/reference.go\<close>) and the operations on
  \<open>DockerImageReference\<close> (\<open>origin/pkg/image/api/helper.go\<close>).

  A regular expression is a datatype, and a match the list of what can remain of the input, in the
  order in which Go's leftmost-first search prefers it.
\<close>

section \<open>Regular expressions\<close>

datatype rexp =
    Eps
  | Class "char \<Rightarrow> bool"
  | Then rexp rexp
  | Or rexp rexp
  | Many rexp

text \<open>The first occurrence of each element.\<close>

definition firsts :: "'a list \<Rightarrow> 'a list" where
  "firsts xs = rev (remdups (rev xs))"

lemma set_firsts [simp]: "set (firsts xs) = set xs"
  by (simp add: firsts_def)

text \<open>What remains after a match; a repetition goes on only when it has consumed something.\<close>

function rests :: "rexp \<Rightarrow> string \<Rightarrow> string list" where
  "rests Eps s = [s]"
| "rests (Class f) s = (case s of [] \<Rightarrow> [] | c # cs \<Rightarrow> if f c then [cs] else [])"
| "rests (Then a b) s = firsts (concat (map (rests b) (rests a s)))"
| "rests (Or a b) s = firsts (rests a s @ rests b s)"
| "rests (Many a) s =
     firsts (concat (map (\<lambda>t. if length t < length s then rests (Many a) t else []) (rests a s)) @ [s])"
  by pat_completeness auto

termination
  by (relation "measures [\<lambda>(r, s). size r, \<lambda>(r, s). length s]") auto

declare rests.simps(5) [simp del]

definition Optional :: "rexp \<Rightarrow> rexp" where "Optional r = Or r Eps"
definition Repeated :: "rexp \<Rightarrow> rexp" where "Repeated r = Then r (Many r)"
definition Literal :: "char \<Rightarrow> rexp" where "Literal c = Class (\<lambda>d. d = c)"

fun Upto :: "nat \<Rightarrow> rexp \<Rightarrow> rexp" where
  "Upto 0 r = Eps"
| "Upto (Suc n) r = Optional (Then r (Upto n r))"

fun Times :: "nat \<Rightarrow> rexp \<Rightarrow> rexp" where
  "Times 0 r = Eps"
| "Times (Suc n) r = Then r (Times n r)"

text \<open>An anchored match: the whole input.\<close>

definition matches :: "rexp \<Rightarrow> string \<Rightarrow> bool" where
  "matches r s \<longleftrightarrow> [] \<in> set (rests r s)"

section \<open>The grammar of references\<close>

definition code_in :: "nat \<Rightarrow> nat \<Rightarrow> char \<Rightarrow> bool" where
  "code_in lo hi c \<longleftrightarrow> lo \<le> (of_char c :: nat) \<and> (of_char c :: nat) \<le> hi"

definition lower :: "char \<Rightarrow> bool" where "lower = code_in 97 122"
definition upper :: "char \<Rightarrow> bool" where "upper = code_in 65 90"
definition digit :: "char \<Rightarrow> bool" where "digit = code_in 48 57"
definition letter :: "char \<Rightarrow> bool" where "letter c \<longleftrightarrow> lower c \<or> upper c"
definition word_char :: "char \<Rightarrow> bool" where "word_char c \<longleftrightarrow> letter c \<or> digit c \<or> c = CHR ''_''"
definition xdigit :: "char \<Rightarrow> bool" where "xdigit c \<longleftrightarrow> digit c \<or> code_in 97 102 c \<or> code_in 65 70 c"

definition alphaNumericRegexp :: rexp where
  "alphaNumericRegexp = Repeated (Class (\<lambda>c. lower c \<or> digit c))"

definition separatorRegexp :: rexp where
  "separatorRegexp =
     Or (Class (\<lambda>c. c = CHR ''.'' \<or> c = CHR ''_''))
       (Or (Then (Literal CHR ''_'') (Literal CHR ''_'')) (Many (Literal CHR ''-'')))"

definition nameComponentRegexp :: rexp where
  "nameComponentRegexp =
     Then alphaNumericRegexp (Optional (Repeated (Then separatorRegexp alphaNumericRegexp)))"

definition hostnameComponentRegexp :: rexp where
  "hostnameComponentRegexp =
     Or (Class (\<lambda>c. letter c \<or> digit c))
       (Then (Class (\<lambda>c. letter c \<or> digit c))
         (Then (Many (Class (\<lambda>c. letter c \<or> digit c \<or> c = CHR ''-''))) (Class (\<lambda>c. letter c \<or> digit c))))"

definition hostnameRegexp :: rexp where
  "hostnameRegexp =
     Then hostnameComponentRegexp
       (Then (Optional (Repeated (Then (Literal CHR ''.'') hostnameComponentRegexp)))
         (Optional (Then (Literal CHR '':'') (Repeated (Class digit)))))"

definition TagRegexp :: rexp where
  "TagRegexp = Then (Class word_char) (Upto 127 (Class (\<lambda>c. word_char c \<or> c = CHR ''.'' \<or> c = CHR ''-'')))"

definition DigestRegexp :: rexp where
  "DigestRegexp =
     Then (Class letter) (Then (Many (Class (\<lambda>c. letter c \<or> digit c)))
       (Then (Many (Then (Class (\<lambda>c. c \<in> {CHR ''-'', CHR ''_'', CHR ''+'', CHR ''.''}))
                (Then (Class letter) (Many (Class (\<lambda>c. letter c \<or> digit c))))))
         (Then (Literal CHR '':'') (Then (Times 32 (Class xdigit)) (Many (Class xdigit))))))"

definition NameRegexp :: rexp where
  "NameRegexp =
     Then (Optional (Then hostnameRegexp (Literal CHR ''/'')))
       (Then nameComponentRegexp (Optional (Repeated (Then (Literal CHR ''/'') nameComponentRegexp))))"

section \<open>Digests\<close>

definition DigestRegexpAnchored :: rexp where
  "DigestRegexpAnchored =
     Then (Repeated (Class (\<lambda>c. letter c \<or> digit c \<or> c \<in> {CHR ''-'', CHR ''_'', CHR ''+'', CHR ''.''})))
       (Then (Literal CHR '':'') (Repeated (Class xdigit)))"

definition Algorithm_Size :: "string \<Rightarrow> nat option" where
  "Algorithm_Size a =
     (if a = ''sha256'' then Some 32 else if a = ''sha384'' then Some 48 else if a = ''sha512'' then Some 64 else None)"

definition digest_Validate :: "string \<Rightarrow> go_error option" where
  "digest_Validate s =
     (if \<not> matches DigestRegexpAnchored s then Some (Errorf ''invalid checksum digest format'' [])
      else (case first_index CHR '':'' s of
              None \<Rightarrow> Some (Errorf ''invalid checksum digest format'' [])
            | Some i \<Rightarrow>
                if i + 1 = length s then Some (Errorf ''invalid checksum digest format'' [])
                else (case Algorithm_Size (take i s) of
                        None \<Rightarrow> Some (Errorf ''unsupported digest algorithm'' [])
                      | Some n \<Rightarrow>
                          if n * 2 \<noteq> length (drop (i + 1) s) then Some (Errorf ''invalid checksum digest length'' [])
                          else None)))"

definition ParseDigest :: "string \<Rightarrow> go_error + string" where
  "ParseDigest s = (case digest_Validate s of Some e \<Rightarrow> Inl e | None \<Rightarrow> Inr s)"

text \<open>\<open>Hex\<close>, for a digest that parses.\<close>

definition digest_Hex :: "string \<Rightarrow> string" where
  "digest_Hex d = (case first_index CHR '':'' d of None \<Rightarrow> [] | Some i \<Rightarrow> drop (i + 1) d)"

section \<open>Parsing references\<close>

text \<open>The groups of \<open>ReferenceRegexp\<close> in the preferred match: name, tag and digest, empty when unmatched.\<close>

definition consumed :: "string \<Rightarrow> string \<Rightarrow> string" where
  "consumed s t = take (length s - length t) s"

definition optional_group :: "char \<Rightarrow> rexp \<Rightarrow> string \<Rightarrow> (string \<times> string) list" where
  "optional_group c r s =
     (case s of
        [] \<Rightarrow> []
      | d # ds \<Rightarrow> if d = c then map (\<lambda>t. (consumed ds t, t)) (rests r ds) else []) @ [([], s)]"

definition ReferenceRegexp_groups :: "string \<Rightarrow> (string \<times> string \<times> string) list" where
  "ReferenceRegexp_groups s =
     concat (map (\<lambda>t1.
       concat (map (\<lambda>(tag, t2).
         concat (map (\<lambda>(dig, t3). if t3 = [] then [(consumed s t1, tag, dig)] else [])
           (optional_group CHR ''@'' DigestRegexp t2)))
         (optional_group CHR '':'' TagRegexp t1)))
       (rests NameRegexp s))"

text \<open>
  \<open>ParseNamed\<close>: the name, the tag and the digest.  A match has a name (\<open>ReferenceRegexp_name\<close>), so
  the types of references without a name do not arise.
\<close>

definition docker_Parse :: "string \<Rightarrow> go_error + string \<times> string \<times> string" where
  "docker_Parse s =
     (case ReferenceRegexp_groups s of
        [] \<Rightarrow> if s = [] then Inl (Errorf ''repository name must have at least one component'' [])
              else Inl (Errorf ''invalid reference format'' [])
      | (name, tag, dig) # _ \<Rightarrow>
          if length name > 255 then Inl (Errorf ''repository name must not be more than 255 characters'' [])
          else if dig \<noteq> [] then
            (case ParseDigest dig of Inl e \<Rightarrow> Inl e | Inr d \<Rightarrow> Inr (name, tag, d))
          else Inr (name, tag, []))"

record docker_image_reference =
  ref_Registry :: string
  ref_Namespace :: string
  ref_Name :: string
  ref_Tag :: string
  ref_ID :: string

definition ParseNamedDockerImageReference :: "string \<Rightarrow> go_error + docker_image_reference" where
  "ParseNamedDockerImageReference spec =
     (case docker_Parse spec of
        Inl e \<Rightarrow> Inl e
      | Inr (name, tag, dig) \<Rightarrow>
          let (registry, rest) =
                (case first_index CHR ''/'' name of
                   None \<Rightarrow> ([], name)
                 | Some i \<Rightarrow>
                     if \<not> list_ex (\<lambda>c. c = CHR '':'' \<or> c = CHR ''.'') (take i name) \<and> take i name \<noteq> ''localhost''
                     then ([], name) else (take i name, drop (i + 1) name));
              (namespace, nm) =
                (case first_index CHR ''/'' rest of
                   None \<Rightarrow> ([], rest)
                 | Some i \<Rightarrow> (take i rest, drop (i + 1) rest))
          in Inr \<lparr>ref_Registry = registry, ref_Namespace = namespace, ref_Name = nm, ref_Tag = tag, ref_ID = dig\<rparr>)"

definition ParseDockerImageReference :: "string \<Rightarrow> go_error + docker_image_reference" where
  "ParseDockerImageReference spec = ParseNamedDockerImageReference spec"

section \<open>Operations on references\<close>

definition DockerDefaultNamespace :: string where "DockerDefaultNamespace = ''library''"
definition DockerDefaultRegistry :: string where "DockerDefaultRegistry = ''docker.io''"
definition DockerDefaultV1Registry :: string where "DockerDefaultV1Registry = ''index.'' @ DockerDefaultRegistry"
definition DockerDefaultV2Registry :: string where "DockerDefaultV2Registry = ''registry-1.'' @ DockerDefaultRegistry"
definition DefaultImageTag :: string where "DefaultImageTag = ''latest''"

definition IsRegistryDockerHub :: "string \<Rightarrow> bool" where
  "IsRegistryDockerHub registry \<longleftrightarrow>
     registry \<in> {DockerDefaultRegistry, DockerDefaultV1Registry, DockerDefaultV2Registry}"

definition DockerClientDefaults :: "docker_image_reference \<Rightarrow> docker_image_reference" where
  "DockerClientDefaults r =
     (let r1 = (if length (ref_Registry r) = 0 then r\<lparr>ref_Registry := DockerDefaultRegistry\<rparr> else r);
          r2 = (if length (ref_Namespace r1) = 0 \<and> IsRegistryDockerHub (ref_Registry r1)
                then r1\<lparr>ref_Namespace := DockerDefaultNamespace\<rparr> else r1)
      in if length (ref_Tag r2) = 0 then r2\<lparr>ref_Tag := DefaultImageTag\<rparr> else r2)"

definition ref_Equal :: "docker_image_reference \<Rightarrow> docker_image_reference \<Rightarrow> bool" where
  "ref_Equal r other \<longleftrightarrow> DockerClientDefaults r = DockerClientDefaults other"

definition Minimal :: "docker_image_reference \<Rightarrow> docker_image_reference" where
  "Minimal r = (if ref_Tag r = DefaultImageTag then r\<lparr>ref_Tag := []\<rparr> else r)"

definition AsRepository :: "docker_image_reference \<Rightarrow> docker_image_reference" where
  "AsRepository r = r\<lparr>ref_Tag := [], ref_ID := []\<rparr>"

definition DaemonMinimal :: "docker_image_reference \<Rightarrow> docker_image_reference" where
  "DaemonMinimal r =
     (let r1 = (if ref_Registry r \<in> {DockerDefaultV1Registry, DockerDefaultV2Registry}
                then r\<lparr>ref_Registry := DockerDefaultRegistry\<rparr> else r);
          r2 = (if IsRegistryDockerHub (ref_Registry r1) \<and> ref_Namespace r1 = DockerDefaultNamespace
                then r1\<lparr>ref_Namespace := []\<rparr> else r1)
      in Minimal r2)"

definition AsV2 :: "docker_image_reference \<Rightarrow> docker_image_reference" where
  "AsV2 r =
     (if ref_Registry r \<in> {DockerDefaultV1Registry, DockerDefaultRegistry}
      then r\<lparr>ref_Registry := DockerDefaultV2Registry\<rparr> else r)"

definition MostSpecific :: "docker_image_reference \<Rightarrow> docker_image_reference" where
  "MostSpecific r =
     (if length (ref_ID r) = 0 then r
      else (case ParseDigest (ref_ID r) of
              Inr _ \<Rightarrow> r\<lparr>ref_Tag := []\<rparr>
            | Inl _ \<Rightarrow> if length (ref_Tag r) = 0 then r\<lparr>ref_Tag := ref_ID r, ref_ID := []\<rparr> else r))"

definition NameString :: "docker_image_reference \<Rightarrow> string" where
  "NameString r =
     (if length (ref_Name r) = 0 then []
      else if length (ref_Tag r) > 0 then ref_Name r @ '':'' @ ref_Tag r
      else if length (ref_ID r) > 0 then
        ref_Name r @ (case ParseDigest (ref_ID r) of Inr _ \<Rightarrow> ''@'' @ ref_ID r | Inl _ \<Rightarrow> '':'' @ ref_ID r)
      else ref_Name r)"

definition Exact :: "docker_image_reference \<Rightarrow> string" where
  "Exact r =
     (let name = NameString r
      in if length name = 0 then name
         else (if length (ref_Registry r) > 0 then ref_Registry r @ ''/'' else []) @
              (if length (ref_Namespace r) \<noteq> 0 then ref_Namespace r @ ''/'' else []) @ name)"

definition RepositoryName :: "docker_image_reference \<Rightarrow> string" where
  "RepositoryName r = Exact (r\<lparr>ref_Tag := [], ref_ID := [], ref_Registry := []\<rparr>)"

definition ref_String :: "docker_image_reference \<Rightarrow> string" where
  "ref_String r =
     Exact (if length (ref_Namespace r) = 0 \<and> IsRegistryDockerHub (ref_Registry r)
            then r\<lparr>ref_Namespace := DockerDefaultNamespace\<rparr> else r)"

definition MostAccuratePullSpec :: "string \<Rightarrow> string \<Rightarrow> string \<Rightarrow> string \<times> bool" where
  "MostAccuratePullSpec pullSpec id' tag =
     (case ParseDockerImageReference pullSpec of
        Inl _ \<Rightarrow> (pullSpec, False)
      | Inr ref0 \<Rightarrow>
          let ref1 = (if length id' > 0 then ref0\<lparr>ref_ID := id'\<rparr> else ref0);
              ref2 = (if length tag > 0 then ref1\<lparr>ref_Tag := tag\<rparr> else ref1)
          in (Exact (MostSpecific ref2), True))"

section \<open>Names of image stream tags and images\<close>

text \<open>\<open>strings.SplitN\<close> with a limit of three pieces.\<close>

definition splitN3 :: "char \<Rightarrow> string \<Rightarrow> string list" where
  "splitN3 sep s = (case splitN2 sep s of [a, b] \<Rightarrow> a # splitN2 sep b | ws \<Rightarrow> ws)"

definition ParseImageStreamImageName :: "string \<Rightarrow> (string \<times> string) \<times> go_error option" where
  "ParseImageStreamImageName input =
     (case splitN3 CHR ''@'' input of
        [name, id'] \<Rightarrow>
          ((name, id'), if length name = 0 \<or> length id' = 0
                        then Some (Errorf ''image stream image name %q must have a name and ID'' [input]) else None)
      | _ \<Rightarrow> (([], []), Some (Errorf ''expected exactly one @ in the isimage name %q'' [input])))"

definition ParseImageStreamTagName :: "string \<Rightarrow> (string \<times> string) \<times> go_error option" where
  "ParseImageStreamTagName istag =
     (if CHR ''@'' \<in> set istag
      then (([], []), Some (Errorf ''%q is an image stream image, not an image stream tag'' [istag]))
      else (case splitN3 CHR '':'' istag of
              [name, tag] \<Rightarrow>
                ((name, tag), if length name = 0 \<or> length tag = 0
                              then Some (Errorf ''image stream tag name %q must have a name and a tag'' [istag]) else None)
            | _ \<Rightarrow> (([], []), Some (Errorf ''expected exactly one : delimiter in the istag %q'' [istag]))))"

definition MakeImageStreamImageName :: "string \<Rightarrow> string \<Rightarrow> string" where
  "MakeImageStreamImageName name id' = name @ ''@'' @ id'"

definition SplitImageStreamTag :: "string \<Rightarrow> string \<times> string \<times> bool" where
  "SplitImageStreamTag nameAndTag =
     (let parts = splitN2 CHR '':'' nameAndTag;
          tag = (if length parts > 1 then parts ! 1 else [])
      in (parts ! 0, if length tag = 0 then DefaultImageTag else tag, length parts = 2))"

definition SplitImageStreamImage :: "string \<Rightarrow> string \<times> string \<times> bool" where
  "SplitImageStreamImage nameAndID =
     (let parts = splitN2 CHR ''@'' nameAndID
      in (parts ! 0, if length parts > 1 then parts ! 1 else [], length parts = 2))"

definition JoinImageStreamTag :: "string \<Rightarrow> string \<Rightarrow> string" where
  "JoinImageStreamTag name tag = name @ '':'' @ (if length tag = 0 then DefaultImageTag else tag)"

definition NormalizeImageStreamTag :: "string \<Rightarrow> string" where
  "NormalizeImageStreamTag name =
     (case SplitImageStreamTag name of
        (stripped, tag, ok) \<Rightarrow> if \<not> ok then JoinImageStreamTag stripped tag else name)"

definition JoinImageSignatureName :: "string \<Rightarrow> string \<Rightarrow> go_error + string" where
  "JoinImageSignatureName imageName signatureName =
     (if length imageName = 0 then Inl (Errorf ''imageName may not be empty'' [])
      else if length signatureName = 0 then Inl (Errorf ''signatureName may not be empty'' [])
      else if CHR ''@'' \<in> set imageName \<or> CHR ''@'' \<in> set signatureName
      then Inl (Errorf ''neither imageName nor signatureName can contain @'' [])
      else Inr (imageName @ ''@'' @ signatureName))"

definition SplitImageSignatureName :: "string \<Rightarrow> (string \<times> string) \<times> go_error option" where
  "SplitImageSignatureName imageSignatureName =
     (case split_char CHR ''@'' imageSignatureName of
        [imageName, signatureName] \<Rightarrow>
          ((imageName, signatureName),
           if length imageName = 0 \<or> length signatureName = 0
           then Some (Errorf ''image signature name %q must have an image name and signature name'' [imageSignatureName])
           else None)
      | _ \<Rightarrow> (([], []), Some (Errorf ''expected exactly one @ in the image signature name %q'' [imageSignatureName])))"

end
