(* ===== verification/Image_Streams.thy ===== *)
theory Image_Streams
  imports Image_Refs Policy_Types "HOL-Library.AList"
begin

text \<open>
  Image streams (\<open>origin/pkg/image/api/types.go\<close>) and the operations on them of
  \<open>origin/pkg/image/api/helper.go\<close>: following and resolving tags, adding events to the history of a
  tag and carrying them over to the tags that track it.

  A map is an association list with distinct keys.  Where the order of a range matters, it is an
  argument; elsewhere a range goes through the list.  The tags of the status may be a nil map.  The
  operations change a stream in place: here they return it.  Times are numbers, 0 the zero time.
\<close>

section \<open>Streams\<close>

record tag_reference =
  tr_Name :: string
  tr_Annotations :: "(string \<times> string) list"
  tr_From :: "object_reference option"
  tr_Reference :: bool
  tr_Generation :: "int option"
  tr_Insecure :: bool
  tr_Scheduled :: bool
  tr_ReferencePolicy :: string

record tag_event =
  te_Created :: nat
  te_DockerImageReference :: string
  te_Image :: string
  te_Generation :: int

record tag_event_condition =
  tc_Type :: string
  tc_Status :: string
  tc_LastTransitionTime :: nat
  tc_Reason :: string
  tc_Message :: string
  tc_Generation :: int

record tag_event_list =
  tl_Items :: "tag_event list"
  tl_Conditions :: "tag_event_condition list"

record image_stream =
  is_Name :: string
  is_Namespace :: string
  is_UID :: string
  is_ResourceVersion :: string
  is_Generation :: int
  is_CreationTimestamp :: nat
  is_Annotations :: "(string \<times> string) list"
  is_SpecRepository :: string
  is_SpecTags :: "(string \<times> tag_reference) list"
  is_StatusRepository :: string
  is_StatusTags :: "(string \<times> tag_event_list) list option"

definition LocalTagReferencePolicy :: string where "LocalTagReferencePolicy = ''Local''"
definition SourceTagReferencePolicy :: string where "SourceTagReferencePolicy = ''Source''"
definition ImportSuccess :: string where "ImportSuccess = ''ImportSuccess''"

definition zero_tag_reference :: tag_reference where
  "zero_tag_reference =
     \<lparr>tr_Name = [], tr_Annotations = [], tr_From = None, tr_Reference = False, tr_Generation = None,
      tr_Insecure = False, tr_Scheduled = False, tr_ReferencePolicy = []\<rparr>"

definition empty_history :: tag_event_list where
  "empty_history = \<lparr>tl_Items = [], tl_Conditions = []\<rparr>"

text \<open>\<open>stream.Status.Tags[tag]\<close> and the assignment to it; reading a nil map gives zero values.\<close>

definition status_tags :: "image_stream \<Rightarrow> (string \<times> tag_event_list) list" where
  "status_tags s = (case is_StatusTags s of None \<Rightarrow> [] | Some m \<Rightarrow> m)"

definition status_tag :: "image_stream \<Rightarrow> string \<Rightarrow> tag_event_list option" where
  "status_tag s tag = map_of (status_tags s) tag"

definition history :: "image_stream \<Rightarrow> string \<Rightarrow> tag_event_list" where
  "history s tag = (case status_tag s tag of None \<Rightarrow> empty_history | Some l \<Rightarrow> l)"

definition set_history :: "string \<Rightarrow> tag_event_list \<Rightarrow> image_stream \<Rightarrow> image_stream" where
  "set_history tag l s = s\<lparr>is_StatusTags := Some (AList.update tag l (status_tags s))\<rparr>"

definition spec_tag :: "image_stream \<Rightarrow> string \<Rightarrow> tag_reference option" where
  "spec_tag s tag = map_of (is_SpecTags s) tag"

definition set_spec_tag :: "string \<Rightarrow> tag_reference \<Rightarrow> image_stream \<Rightarrow> image_stream" where
  "set_spec_tag tag r s = s\<lparr>is_SpecTags := AList.update tag r (is_SpecTags s)\<rparr>"

section \<open>Following and resolving tags\<close>

definition terminating_tag :: "tag_reference \<Rightarrow> bool" where
  "terminating_tag r \<longleftrightarrow>
     (case tr_From r of
        None \<Rightarrow> True
      | Some from \<Rightarrow> or_kind from \<noteq> ''ImageStreamTag'' \<or> CHR '':'' \<in> set (or_name from))"

function FollowTag_loop ::
  "image_stream \<Rightarrow> string list \<Rightarrow> string \<Rightarrow> bool \<Rightarrow> string \<times> tag_reference option \<times> bool \<times> bool" where
  "FollowTag_loop s seen tag multiple =
     (if tag \<in> set seen then (tag, None, False, multiple)
      else (case spec_tag s tag of
              None \<Rightarrow> (tag, None, False, multiple)
            | Some r \<Rightarrow>
                if terminating_tag r then (tag, Some r, True, multiple)
                else (case tr_From r of
                        None \<Rightarrow> (tag, Some r, True, multiple)
                      | Some from \<Rightarrow> FollowTag_loop s (tag # seen) (or_name from) True)))"
  by pat_completeness auto

termination
proof (relation "measure (\<lambda>(s, seen, tag, multiple). card (fst ` set (is_SpecTags s) - set seen))", goal_cases)
  case (2 s seen tag multiple r source)
  then have "tag \<in> fst ` set (is_SpecTags s) - set seen"
    by (auto simp: spec_tag_def intro: rev_image_eqI dest: map_of_SomeD)
  then have "fst ` set (is_SpecTags s) - set (tag # seen) \<subset> fst ` set (is_SpecTags s) - set seen" by auto
  then show ?case by (simp add: psubset_card_mono del: set_simps)
qed simp

declare FollowTag_loop.simps [simp del]

definition FollowTagReference :: "image_stream \<Rightarrow> string \<Rightarrow> string \<times> tag_reference option \<times> bool \<times> bool" where
  "FollowTagReference s tag = FollowTag_loop s [] tag False"

definition digestOrImageMatch :: "string \<Rightarrow> string \<Rightarrow> bool" where
  "digestOrImageMatch img imageID \<longleftrightarrow>
     (case ParseDigest img of
        Inr d \<Rightarrow> has_prefix (digest_Hex d) imageID \<or> has_prefix img imageID
      | Inl _ \<Rightarrow> has_prefix img imageID)"

text \<open>The tag and the event, for a range of the status in the given order of tags.\<close>

fun latest_event_in :: "string \<Rightarrow> string \<Rightarrow> tag_event list \<Rightarrow> string \<times> tag_event option \<Rightarrow> string \<times> tag_event option" where
  "latest_event_in imageID tag [] best = best"
| "latest_event_in imageID tag (e # es) best =
     latest_event_in imageID tag es
       (if digestOrImageMatch (te_Image e) imageID \<and>
           (case snd best of None \<Rightarrow> True | Some b \<Rightarrow> te_Created b < te_Created e)
        then (tag, Some e) else best)"

definition LatestImageTagEvent :: "string list \<Rightarrow> image_stream \<Rightarrow> string \<Rightarrow> string \<times> tag_event option" where
  "LatestImageTagEvent order s imageID =
     fold (\<lambda>tag. latest_event_in imageID tag (tl_Items (history s tag))) order ([], None)"

definition default_tag :: "string \<Rightarrow> string" where
  "default_tag tag = (if length tag = 0 then DefaultImageTag else tag)"

definition LatestTaggedImage :: "image_stream \<Rightarrow> string \<Rightarrow> tag_event option" where
  "LatestTaggedImage s tag =
     (case status_tag s (default_tag tag) of
        None \<Rightarrow> None
      | Some l \<Rightarrow> (case tl_Items l of [] \<Rightarrow> None | e # _ \<Rightarrow> Some e))"

definition ResolveLatestTaggedImage :: "image_stream \<Rightarrow> string \<Rightarrow> string \<times> bool" where
  "ResolveLatestTaggedImage s tag0 =
     (let tag = default_tag tag0 in
      case LatestTaggedImage s tag of
        None \<Rightarrow> ([], False)
      | Some latest \<Rightarrow>
          (case spec_tag s tag of
             None \<Rightarrow> (te_DockerImageReference latest, True)
           | Some r \<Rightarrow>
               if tr_ReferencePolicy r = LocalTagReferencePolicy then
                 (if length (is_StatusRepository s) = 0 \<or> length (te_Image latest) = 0
                  then (te_DockerImageReference latest, True)
                  else (case ParseDockerImageReference (is_StatusRepository s) of
                          Inl _ \<Rightarrow> (te_DockerImageReference latest, True)
                        | Inr ref \<Rightarrow> (Exact (ref\<lparr>ref_Tag := [], ref_ID := te_Image latest\<rparr>), True)))
               else (te_DockerImageReference latest, True)))"

definition DockerImageReferenceForImage :: "string list \<Rightarrow> image_stream \<Rightarrow> string \<Rightarrow> string \<times> bool" where
  "DockerImageReferenceForImage order s imageID =
     (case LatestImageTagEvent order s imageID of
        (tag, event) \<Rightarrow>
          if length tag = 0 then ([], False)
          else (case event of
                  None \<Rightarrow> ([], False)
                | Some e \<Rightarrow>
                    (case spec_tag s tag of
                       None \<Rightarrow> (te_DockerImageReference e, True)
                     | Some r \<Rightarrow>
                         if tr_ReferencePolicy r = LocalTagReferencePolicy then
                           (case ParseDockerImageReference (is_StatusRepository s) of
                              Inl _ \<Rightarrow> (te_DockerImageReference e, True)
                            | Inr ref \<Rightarrow> (Exact (ref\<lparr>ref_Tag := [], ref_ID := te_Image e\<rparr>), True))
                         else (te_DockerImageReference e, True))))"

definition DockerImageReferenceForStream :: "image_stream \<Rightarrow> go_error + docker_image_reference" where
  "DockerImageReferenceForStream s =
     (let spec0 = is_StatusRepository s;
          spec = (if length spec0 = 0 then is_SpecRepository s else spec0)
      in if length spec = 0 then Inl (Errorf ''no possible pull spec for %s/%s'' [is_Namespace s, is_Name s])
         else ParseDockerImageReference spec)"

text \<open>\<open>ResolveImageID\<close>: the event whose reference is reported is the last match of the range.\<close>

definition matching_events :: "string list \<Rightarrow> image_stream \<Rightarrow> string \<Rightarrow> tag_event list" where
  "matching_events order s imageID =
     filter (\<lambda>e. digestOrImageMatch (te_Image e) imageID) (concat (map (\<lambda>tag. tl_Items (history s tag)) order))"

definition ResolveImageID :: "nat \<Rightarrow> string list \<Rightarrow> image_stream \<Rightarrow> string \<Rightarrow> go_error + tag_event" where
  "ResolveImageID now order s imageID =
     (let es = matching_events order s imageID;
          images = remdups (map te_Image es)
      in if length images = 1 then
           Inr \<lparr>te_Created = now, te_DockerImageReference = te_DockerImageReference (last es),
                te_Image = te_Image (last es), te_Generation = 0\<rparr>
         else if length images = 0 then Inl (NotFoundErr ''imagestreamimage'' imageID)
         else Inl (ConflictErr ''imagestreamimage'' imageID))"

section \<open>Histories of tags\<close>

definition DifferentTagEvent :: "image_stream \<Rightarrow> string \<Rightarrow> tag_event \<Rightarrow> bool" where
  "DifferentTagEvent s tag event =
     (case tl_Items (history s tag) of
        [] \<Rightarrow> True
      | previous # _ \<Rightarrow>
          \<not> (te_DockerImageReference previous = te_DockerImageReference event \<and> te_Image previous = te_Image event))"

definition DifferentTagGeneration :: "image_stream \<Rightarrow> string \<Rightarrow> bool" where
  "DifferentTagGeneration s tag =
     (case spec_tag s tag of
        None \<Rightarrow> True
      | Some r \<Rightarrow>
          (case tr_Generation r of
             None \<Rightarrow> True
           | Some g \<Rightarrow> (case tl_Items (history s tag) of [] \<Rightarrow> True | e # _ \<Rightarrow> te_Generation e < g)))"

definition AddTagEventToImageStream :: "image_stream \<Rightarrow> string \<Rightarrow> tag_event \<Rightarrow> image_stream \<times> bool" where
  "AddTagEventToImageStream s tag event =
     (case tl_Items (history s tag) of
        [] \<Rightarrow> (set_history tag \<lparr>tl_Items = [event], tl_Conditions = []\<rparr> s, True)
      | previous # older \<Rightarrow>
          let sameRef = (te_DockerImageReference previous = te_DockerImageReference event);
              sameImage = (te_Image previous = te_Image event);
              sameGen = (te_Generation previous = te_Generation event)
          in if sameRef \<and> sameImage \<and> sameGen then (s, False)
             else if sameImage \<and> sameRef then
               (set_history tag \<lparr>tl_Items = previous\<lparr>te_Generation := te_Generation event\<rparr> # older, tl_Conditions = []\<rparr> s,
                True)
             else if sameRef then
               (set_history tag \<lparr>tl_Items =
                  previous\<lparr>te_Image := te_Image event, te_Generation := te_Generation event\<rparr> # older,
                  tl_Conditions = []\<rparr> s, True)
             else if sameImage then
               (set_history tag \<lparr>tl_Items =
                  previous\<lparr>te_DockerImageReference := te_DockerImageReference event,
                           te_Generation := te_Generation event\<rparr> # older,
                  tl_Conditions = []\<rparr> s, True)
             else (set_history tag \<lparr>tl_Items = event # previous # older, tl_Conditions = []\<rparr> s, True))"

definition HasTagCondition :: "image_stream \<Rightarrow> string \<Rightarrow> tag_event_condition \<Rightarrow> bool" where
  "HasTagCondition s tag condition =
     list_ex (\<lambda>existing. tc_Type condition = tc_Type existing \<and> tc_Status condition = tc_Status existing \<and>
       tc_Reason condition = tc_Reason existing) (tl_Conditions (history s tag))"

definition SetTagConditions :: "image_stream \<Rightarrow> string \<Rightarrow> tag_event_condition list \<Rightarrow> image_stream" where
  "SetTagConditions s tag conditions = set_history tag ((history s tag)\<lparr>tl_Conditions := conditions\<rparr>) s"

definition LatestObservedTagGeneration :: "image_stream \<Rightarrow> string \<Rightarrow> int" where
  "LatestObservedTagGeneration s tag =
     (case status_tag s tag of
        None \<Rightarrow> 0
      | Some l \<Rightarrow>
          let lastGen = (case tl_Items l of [] \<Rightarrow> 0 | e # _ \<Rightarrow> if te_Generation e > 0 then te_Generation e else 0)
          in (case find (\<lambda>c. tc_Type c = ImportSuccess) (tl_Conditions l) of
                None \<Rightarrow> lastGen
              | Some c \<Rightarrow> if tc_Generation c > lastGen then tc_Generation c else lastGen))"

section \<open>Tags that track a tag\<close>

text \<open>The tests of \<open>UpdateTrackingTags\<close> on a tag of the spec.\<close>

definition tracks_tag :: "image_stream \<Rightarrow> tag_reference \<Rightarrow> string \<Rightarrow> bool" where
  "tracks_tag s r updatedTag \<longleftrightarrow>
     (case tr_From r of
        None \<Rightarrow> False
      | Some from \<Rightarrow>
          let tagRefNamespace = (if length (or_namespace from) = 0 then is_Namespace s else or_namespace from);
              (tagRefName, tag) =
                (case split_char CHR '':'' (or_name from) of
                   [a, b] \<Rightarrow> (a, b)
                 | _ \<Rightarrow> (is_Name s, or_name from))
          in or_kind from = ''ImageStreamTag'' \<and> tagRefNamespace = is_Namespace s \<and> tagRefName = is_Name s \<and>
             tag = updatedTag)"

fun UpdateTracking_loop ::
  "string \<Rightarrow> tag_event \<Rightarrow> (string \<times> tag_reference) list \<Rightarrow> image_stream \<times> nat \<Rightarrow> image_stream \<times> nat" where
  "UpdateTracking_loop updatedTag updatedImage [] (s, updated) = (s, updated)"
| "UpdateTracking_loop updatedTag updatedImage ((specTag, r) # rest) (s, updated) =
     (if \<not> tracks_tag s r updatedTag then UpdateTracking_loop updatedTag updatedImage rest (s, updated)
      else (case AddTagEventToImageStream s specTag updatedImage of
              (s', added) \<Rightarrow>
                UpdateTracking_loop updatedTag updatedImage rest (s', if added then updated + 1 else updated)))"

definition UpdateTrackingTags :: "image_stream \<Rightarrow> string \<Rightarrow> tag_event \<Rightarrow> image_stream \<times> nat" where
  "UpdateTrackingTags s updatedTag updatedImage =
     UpdateTracking_loop updatedTag updatedImage (is_SpecTags s) (s, 0)"

definition tag_events_changed :: "tag_event list \<Rightarrow> tag_event list \<Rightarrow> bool \<times> bool" where
  "tag_events_changed new old =
     (case new of
        [] \<Rightarrow> (case old of [] \<Rightarrow> (False, False) | _ # _ \<Rightarrow> (True, True))
      | n # _ \<Rightarrow> (case old of [] \<Rightarrow> (True, False) | p # _ \<Rightarrow> (n \<noteq> p, False)))"

text \<open>
  What the update can see of the old stream: there is none, its tags of the status are the same map as
  those of the new stream, or they are a map of their own.
\<close>

datatype old_status = NoOld | SharedOld | OldTags "(string \<times> tag_event_list) list"

definition old_items :: "old_status \<Rightarrow> image_stream \<Rightarrow> string \<Rightarrow> tag_event list" where
  "old_items old s tag =
     (case old of
        NoOld \<Rightarrow> []
      | SharedOld \<Rightarrow> tl_Items (history s tag)
      | OldTags m \<Rightarrow> (case map_of m tag of None \<Rightarrow> [] | Some l \<Rightarrow> tl_Items l))"

text \<open>\<open>UpdateChangedTrackingTags\<close>, for the tags that its range visits, in order.\<close>

fun UpdateChangedTrackingTags :: "old_status \<Rightarrow> string list \<Rightarrow> image_stream \<Rightarrow> image_stream \<times> nat" where
  "UpdateChangedTrackingTags old [] s = (s, 0)"
| "UpdateChangedTrackingTags old (tag # order) s =
     (case tl_Items (history s tag) of
        [] \<Rightarrow> UpdateChangedTrackingTags old order s
      | e # es \<Rightarrow>
          let skip = (old \<noteq> NoOld \<and>
                (case tag_events_changed (e # es) (old_items old s tag) of (changed, deleted) \<Rightarrow> \<not> changed \<or> deleted))
          in if skip then UpdateChangedTrackingTags old order s
             else (case UpdateTrackingTags s tag e of
                     (s1, n) \<Rightarrow> (case UpdateChangedTrackingTags old order s1 of (s2, m) \<Rightarrow> (s2, n + m))))"

section \<open>What the operations do to histories\<close>

lemma map_of_update [simp]: "map_of (AList.update k v xs) = (map_of xs)(k \<mapsto> v)"
  by (rule AList.update_conv')

lemma history_set [simp]:
  "history (set_history tag l s) t = (if t = tag then l else history s t)"
  by (simp add: history_def status_tag_def status_tags_def set_history_def)

lemma set_history_fields [simp]:
  "is_SpecTags (set_history tag l s) = is_SpecTags s" "is_Name (set_history tag l s) = is_Name s"
  "is_Namespace (set_history tag l s) = is_Namespace s" "is_Generation (set_history tag l s) = is_Generation s"
  "is_StatusRepository (set_history tag l s) = is_StatusRepository s"
  "is_SpecRepository (set_history tag l s) = is_SpecRepository s"
  "is_CreationTimestamp (set_history tag l s) = is_CreationTimestamp s"
  by (simp_all add: set_history_def)

lemma spec_tag_set [simp]:
  "spec_tag (set_spec_tag tag r s) t = (if t = tag then Some r else spec_tag s t)"
  "history (set_spec_tag tag r s) = history s" "status_tags (set_spec_tag tag r s) = status_tags s"
  "is_StatusTags (set_spec_tag tag r s) = is_StatusTags s"
  by (simp_all add: spec_tag_def set_spec_tag_def history_def status_tag_def status_tags_def fun_eq_iff)

lemma set_spec_tag_fields [simp]:
  "is_Name (set_spec_tag tag r s) = is_Name s" "is_Namespace (set_spec_tag tag r s) = is_Namespace s"
  "is_Generation (set_spec_tag tag r s) = is_Generation s"
  "is_StatusRepository (set_spec_tag tag r s) = is_StatusRepository s"
  "is_SpecRepository (set_spec_tag tag r s) = is_SpecRepository s"
  "is_CreationTimestamp (set_spec_tag tag r s) = is_CreationTimestamp s"
  by (simp_all add: set_spec_tag_def)

lemma spec_tag_history [simp]: "spec_tag (set_history tag l s) t = spec_tag s t"
  by (simp add: spec_tag_def)

lemma tracks_set [simp]: "tracks_tag (set_history tag l s) = tracks_tag s"
  by (intro ext) (simp only: tracks_tag_def set_history_fields)

text \<open>What adding an event leaves alone.\<close>

lemma AddTagEvent_frame:
  assumes "AddTagEventToImageStream s tag event = (s', added)"
  obtains l where "s' = set_history tag l s" "added" | "s' = s" "\<not> added"
proof -
  have "(\<exists>l. s' = set_history tag l s \<and> added) \<or> s' = s \<and> \<not> added"
    using assms by (auto simp: AddTagEventToImageStream_def Let_def split: list.splits if_splits)
  then show thesis using that by blast
qed

text \<open>The latest event of the tag is the event; what is older than the latest event never changes.\<close>

definition shows_event :: "image_stream \<Rightarrow> string \<Rightarrow> tag_event \<Rightarrow> bool" where
  "shows_event s tag event \<longleftrightarrow>
     (case tl_Items (history s tag) of
        [] \<Rightarrow> False
      | e # _ \<Rightarrow> te_Image e = te_Image event \<and> te_DockerImageReference e = te_DockerImageReference event \<and>
          te_Generation e = te_Generation event)"

lemma AddTagEvent_shows:
  "AddTagEventToImageStream s tag event = (s', added) \<Longrightarrow> shows_event s' tag event"
  by (auto simp: AddTagEventToImageStream_def shows_event_def Let_def split: list.splits if_splits)

lemma AddTagEvent_older:
  assumes "AddTagEventToImageStream s tag event = (s', added)"
  shows "tl (tl_Items (history s' tag)) \<in> {tl_Items (history s tag), tl (tl_Items (history s tag))}"
  using assms by (auto simp: AddTagEventToImageStream_def Let_def split: list.splits if_splits)

lemma AddTagEvent_other:
  "AddTagEventToImageStream s tag event = (s', added) \<Longrightarrow> t \<noteq> tag \<Longrightarrow> history s' t = history s t"
  by (erule AddTagEvent_frame) simp_all

lemma AddTagEvent_unchanged:
  assumes "AddTagEventToImageStream s tag event = (s', added)"
  shows "added \<longleftrightarrow> \<not> shows_event s tag event"
  using assms by (auto simp: AddTagEventToImageStream_def shows_event_def Let_def split: list.splits if_splits)

end
