(* ===== verification/Registry_Store.thy ===== *)
theory Registry_Store
  imports Go_Prelude
begin

text \<open>
  The generic registry store of the API server for objects outside namespaces: \<open>Get\<close>, \<open>Create\<close> and
  \<open>Update\<close> of \<open>kubernetes/pkg/registry/generic/registry/store.go\<close> with \<open>BeforeCreate\<close> and
  \<open>BeforeUpdate\<close> of \<open>kubernetes/pkg/api/rest\<close>, over the versioned storage of
  \<open>kubernetes/pkg/storage/etcd3/store.go\<close>.  Access to the metadata of an object is a record of
  functions with the laws of the locale \<open>object_meta\<close>, and so is the strategy of a resource.
  Finalizers, deletion, TTLs, preconditions and generated names are not modelled.
\<close>

section \<open>Metadata and strategies\<close>

record 'o meta_ops =
  m_Name :: "'o \<Rightarrow> string"
  m_UID :: "'o \<Rightarrow> string"
  m_ResourceVersion :: "'o \<Rightarrow> nat"
  m_set_UID :: "string \<Rightarrow> 'o \<Rightarrow> 'o"
  m_set_ResourceVersion :: "nat \<Rightarrow> 'o \<Rightarrow> 'o"

record 'o rest_strategy =
  rs_Resource :: string
  rs_PrepareForCreate :: "'o \<Rightarrow> 'o"
  rs_PrepareForUpdate :: "'o \<Rightarrow> 'o \<Rightarrow> 'o"
  rs_Validate :: "'o \<Rightarrow> go_error list"
  rs_ValidateUpdate :: "'o \<Rightarrow> 'o \<Rightarrow> go_error list"
  rs_AllowCreateOnUpdate :: bool
  rs_AllowUnconditionalUpdate :: bool

definition NewInvalid :: "string \<Rightarrow> string \<Rightarrow> go_error list \<Rightarrow> go_error" where
  "NewInvalid resource name errs = ErrorfE ''%s %q is invalid'' [resource, name] errs"

definition IsValidPathSegmentName :: "string \<Rightarrow> go_error list" where
  "IsValidPathSegmentName name =
     (if name = ''.'' \<or> name = ''..'' then [Errorf ''may not be %s'' [name]]
      else if CHR ''/'' \<in> set name then [Errorf ''may not contain %s'' [''/'']]
      else if CHR ''%'' \<in> set name then [Errorf ''may not contain %s'' [''%'']]
      else [])"

text \<open>The key of an object outside namespaces is a fixed prefix and its name; the value is the error,
a bad request.\<close>

definition NoNamespaceKeyFunc :: "string \<Rightarrow> go_error option" where
  "NoNamespaceKeyFunc name =
     (if name = [] then Some (BadRequestErr ''Name parameter required.'' [])
      else if IsValidPathSegmentName name \<noteq> []
      then Some (ErrorfE ''Name parameter invalid: %q: %s'' [name] (IsValidPathSegmentName name))
      else None)"

section \<open>Storage\<close>

text \<open>
  The objects, at most one of a name, and the revision of the last write.  An object in storage
  carries the revision of its own last write.
\<close>

record 'o storage_state =
  st_Objects :: "'o list"
  st_Revision :: nat

definition storage_lookup :: "'o meta_ops \<Rightarrow> 'o storage_state \<Rightarrow> string \<Rightarrow> 'o option" where
  "storage_lookup M st name = find (\<lambda>x. m_Name M x = name) (st_Objects st)"

definition storage_put :: "'o meta_ops \<Rightarrow> 'o \<Rightarrow> 'o storage_state \<Rightarrow> 'o \<times> 'o storage_state" where
  "storage_put M obj st =
     (let rev = Suc (st_Revision st);
          out = m_set_ResourceVersion M rev obj
      in (out, \<lparr>st_Objects = out # filter (\<lambda>x. m_Name M x \<noteq> m_Name M obj) (st_Objects st),
                st_Revision = rev\<rparr>))"

text \<open>\<open>GuaranteedUpdate\<close> writes nothing when the encoded object is the stored one.\<close>

definition storage_GuaranteedUpdate ::
  "'o meta_ops \<Rightarrow> 'o \<Rightarrow> 'o \<Rightarrow> 'o storage_state \<Rightarrow> 'o \<times> 'o storage_state" where
  "storage_GuaranteedUpdate M existing obj st =
     (if m_set_ResourceVersion M (m_ResourceVersion M existing) obj = existing then (existing, st)
      else storage_put M obj st)"

section \<open>The store\<close>

definition Store_Get :: "'o meta_ops \<Rightarrow> 'o rest_strategy \<Rightarrow> string \<Rightarrow> 'o storage_state \<Rightarrow> go_error + 'o" where
  "Store_Get M S name st =
     (case NoNamespaceKeyFunc name of
        Some e \<Rightarrow> Inl e
      | None \<Rightarrow>
          (case storage_lookup M st name of
             None \<Rightarrow> Inl (NotFoundErr (rs_Resource S) name)
           | Some x \<Rightarrow> Inr x))"

text \<open>The name in \<open>ValidateObjectMeta\<close>, with path segments as valid names.\<close>

definition ValidateObjectMeta_name :: "string \<Rightarrow> go_error list" where
  "ValidateObjectMeta_name name =
     (if name = [] then [Errorf ''metadata.name: Required value'' []] else IsValidPathSegmentName name)"

definition BeforeCreate :: "'o meta_ops \<Rightarrow> 'o rest_strategy \<Rightarrow> string \<Rightarrow> 'o \<Rightarrow> go_error + 'o" where
  "BeforeCreate M S uid obj =
     (let obj' = m_set_UID M uid (rs_PrepareForCreate S obj);
          errs = rs_Validate S obj';
          meta_errs = ValidateObjectMeta_name (m_Name M obj')
      in if errs \<noteq> [] then Inl (NewInvalid (rs_Resource S) (m_Name M obj') errs)
         else if meta_errs \<noteq> [] then Inl (NewInvalid (rs_Resource S) (m_Name M obj') meta_errs)
         else Inr obj')"

definition Store_Create ::
  "'o meta_ops \<Rightarrow> 'o rest_strategy \<Rightarrow> string \<Rightarrow> 'o \<Rightarrow> 'o storage_state
   \<Rightarrow> 'o storage_state \<times> (go_error + 'o)" where
  "Store_Create M S uid obj st =
     (case BeforeCreate M S uid obj of
        Inl e \<Rightarrow> (st, Inl e)
      | Inr obj' \<Rightarrow>
          (case NoNamespaceKeyFunc (m_Name M obj') of
             Some e \<Rightarrow> (st, Inl e)
           | None \<Rightarrow>
               if m_ResourceVersion M obj' \<noteq> 0 then
                 (st, Inl (Errorf ''resourceVersion should not be set on objects to be created'' []))
               else if storage_lookup M st (m_Name M obj') \<noteq> None then
                 (st, Inl (AlreadyExistsErr (rs_Resource S) (m_Name M obj')))
               else (case storage_put M obj' st of (out, st') \<Rightarrow> (st', Inr out))))"

text \<open>
  \<open>ValidateObjectMetaUpdate\<close>: an empty UID is filled in from the old object, and name and UID may
  not change.
\<close>

definition BeforeUpdate :: "'o meta_ops \<Rightarrow> 'o rest_strategy \<Rightarrow> 'o \<Rightarrow> 'o \<Rightarrow> go_error + 'o" where
  "BeforeUpdate M S obj old =
     (let obj1 = rs_PrepareForUpdate S obj old;
          obj2 = (if m_UID M obj1 = [] then m_set_UID M (m_UID M old) obj1 else obj1);
          errs = (if m_Name M obj2 \<noteq> m_Name M old then [Errorf ''metadata.name: field is immutable'' []] else []) @
                 (if m_UID M obj2 \<noteq> m_UID M old then [Errorf ''metadata.uid: field is immutable'' []] else []) @
                 rs_ValidateUpdate S obj2 old
      in if errs \<noteq> [] then Inl (NewInvalid (rs_Resource S) (m_Name M obj2) errs) else Inr obj2)"

definition Store_Update ::
  "'o meta_ops \<Rightarrow> 'o rest_strategy \<Rightarrow> string \<Rightarrow> string \<Rightarrow> 'o \<Rightarrow> 'o storage_state
   \<Rightarrow> 'o storage_state \<times> (go_error + 'o)" where
  "Store_Update M S uid name obj st =
     (case NoNamespaceKeyFunc name of
        Some e \<Rightarrow> (st, Inl e)
      | None \<Rightarrow>
          (case storage_lookup M st name of
             None \<Rightarrow>
               if \<not> rs_AllowCreateOnUpdate S then (st, Inl (NotFoundErr (rs_Resource S) name))
               else (case BeforeCreate M S uid obj of
                       Inl e \<Rightarrow> (st, Inl e)
                     | Inr obj' \<Rightarrow> (case storage_put M obj' st of (out, st') \<Rightarrow> (st', Inr out)))
           | Some existing \<Rightarrow>
               let doUnconditionalUpdate = (m_ResourceVersion M obj = 0 \<and> rs_AllowUnconditionalUpdate S);
                   checked =
                     (if doUnconditionalUpdate then Inr (m_set_ResourceVersion M (m_ResourceVersion M existing) obj)
                      else if m_ResourceVersion M obj = 0
                      then Inl (NewInvalid (rs_Resource S) name
                        [Errorf ''metadata.resourceVersion: must be specified for an update'' []])
                      else if m_ResourceVersion M obj \<noteq> m_ResourceVersion M existing
                      then Inl (ConflictErr (rs_Resource S) name)
                      else Inr obj)
               in (case checked of
                     Inl e \<Rightarrow> (st, Inl e)
                   | Inr obj1 \<Rightarrow>
                       (case BeforeUpdate M S obj1 existing of
                          Inl e \<Rightarrow> (st, Inl e)
                        | Inr obj2 \<Rightarrow>
                            (case storage_GuaranteedUpdate M existing obj2 st of (out, st') \<Rightarrow> (st', Inr out))))))"

section \<open>What the operations do to the objects\<close>

locale object_meta =
  fixes M :: "'o meta_ops"
  assumes name_set [simp]: "m_Name M (m_set_UID M u x) = m_Name M x"
      "m_Name M (m_set_ResourceVersion M v x) = m_Name M x"
    and uid_set [simp]: "m_UID M (m_set_UID M u x) = u" "m_UID M (m_set_ResourceVersion M v x) = m_UID M x"
    and version_set [simp]: "m_ResourceVersion M (m_set_ResourceVersion M v x) = v"
begin

lemma lookup_name: "storage_lookup M st n = Some x \<Longrightarrow> m_Name M x = n"
  by (auto simp: storage_lookup_def find_Some_iff)

lemma lookup_put:
  "storage_put M obj st = (out, st') \<Longrightarrow>
   out = m_set_ResourceVersion M (Suc (st_Revision st)) obj \<and>
   storage_lookup M st' = (storage_lookup M st)(m_Name M obj \<mapsto> out)"
proof -
  have "find (\<lambda>x. m_Name M x = n) (filter (\<lambda>x. m_Name M x \<noteq> m) xs) =
      (if n = m then None else find (\<lambda>x. m_Name M x = n) xs)" for n m xs
    by (induction xs) (auto simp: find_None_iff)
  then show "storage_put M obj st = (out, st') \<Longrightarrow> ?thesis"
    by (auto simp: storage_put_def storage_lookup_def Let_def fun_eq_iff)
qed

lemma key_name: "NoNamespaceKeyFunc n = None \<Longrightarrow> n \<noteq> []"
  by (auto simp: NoNamespaceKeyFunc_def)

lemma Get_lookup: "Store_Get M S n st = Inr x \<Longrightarrow> storage_lookup M st n = Some x \<and> n \<noteq> []"
  by (auto simp: Store_Get_def key_name split: option.splits)

lemma Create_stores:
  assumes "Store_Create M S uid obj st = (st', Inr out)"
  shows "m_Name M out \<noteq> [] \<and> storage_lookup M st (m_Name M out) = None \<and>
    storage_lookup M st' = (storage_lookup M st)(m_Name M out \<mapsto> out) \<and> m_UID M out = uid \<and>
    out = m_set_ResourceVersion M (Suc (st_Revision st)) (m_set_UID M uid (rs_PrepareForCreate S obj)) \<and>
    rs_Validate S (m_set_UID M uid (rs_PrepareForCreate S obj)) = []"
proof -
  let ?obj = "m_set_UID M uid (rs_PrepareForCreate S obj)"
  have v: "rs_Validate S ?obj = []" and n: "storage_lookup M st (m_Name M ?obj) = None"
    and p: "storage_put M ?obj st = (out, st')" and k: "NoNamespaceKeyFunc (m_Name M ?obj) = None"
    using assms by (auto simp: Store_Create_def BeforeCreate_def Let_def split: if_splits prod.splits option.splits)
  from lookup_put [OF p] have out: "out = m_set_ResourceVersion M (Suc (st_Revision st)) ?obj"
    "storage_lookup M st' = (storage_lookup M st)(m_Name M ?obj \<mapsto> out)" by simp_all
  then show ?thesis using v n key_name [OF k] by simp
qed

lemma Create_error: "Store_Create M S uid obj st = (st', Inl e) \<Longrightarrow> st' = st"
  by (auto simp: Store_Create_def split: sum.splits option.splits if_splits prod.splits)

lemma Update_stores:
  assumes "Store_Update M S uid name obj st = (st', Inr out)" "\<not> rs_AllowCreateOnUpdate S"
    "\<not> rs_AllowUnconditionalUpdate S"
  shows "\<exists>old obj2. storage_lookup M st name = Some old \<and> m_ResourceVersion M obj = m_ResourceVersion M old \<and>
    BeforeUpdate M S obj old = Inr obj2 \<and> m_Name M out = name \<and> m_UID M out = m_UID M old \<and>
    (\<exists>v. out = m_set_ResourceVersion M v obj2) \<and>
    storage_lookup M st' = (storage_lookup M st)(name \<mapsto> out)"
proof -
  obtain old where old: "storage_lookup M st name = Some old"
    using assms by (auto simp: Store_Update_def split: option.splits)
  then obtain obj2 where v: "m_ResourceVersion M obj = m_ResourceVersion M old"
    and b: "BeforeUpdate M S obj old = Inr obj2" and g: "storage_GuaranteedUpdate M old obj2 st = (out, st')"
    using assms by (auto simp: Store_Update_def Let_def split: if_splits option.splits sum.splits prod.splits)
  have n: "m_Name M obj2 = name" "m_UID M obj2 = m_UID M old"
    using b lookup_name [OF old] by (auto simp: BeforeUpdate_def Let_def split: if_splits)
  show ?thesis
  proof (cases "m_set_ResourceVersion M (m_ResourceVersion M old) obj2 = old")
    case True
    then have "out = old" "st' = st" using g by (simp_all add: storage_GuaranteedUpdate_def)
    moreover have "storage_lookup M st = (storage_lookup M st)(name \<mapsto> old)" using old by auto
    ultimately show ?thesis using old v b n lookup_name [OF old] True by metis
  next
    case False
    then have "storage_put M obj2 st = (out, st')" using g by (simp add: storage_GuaranteedUpdate_def)
    from lookup_put [OF this] show ?thesis using old v b n by auto
  qed
qed

lemma Update_error: "Store_Update M S uid name obj st = (st', Inl e) \<Longrightarrow> st' = st"
  by (auto simp: Store_Update_def Let_def split: option.splits sum.splits if_splits prod.splits)

lemma Create_put:
  "Store_Create M S uid obj st = (st', r) \<Longrightarrow> st' = st \<or> (\<exists>x out. storage_put M x st = (out, st'))"
  by (cases r) (auto simp: Store_Create_def split: sum.splits option.splits if_splits prod.splits)

lemma Update_put:
  "Store_Update M S uid n obj st = (st', r) \<Longrightarrow> st' = st \<or> (\<exists>x out. storage_put M x st = (out, st'))"
  by (auto simp: Store_Update_def storage_GuaranteedUpdate_def Let_def
      split: sum.splits option.splits if_splits prod.splits)

end

end
