(* ===== verification/Deploy_Instantiate.thy ===== *)
theory Deploy_Instantiate
  imports Deploy_Make Image_Streams Registry_Store K8s_Names
begin

text \<open>
  New versions of a deployment configuration: the instantiate endpoint
  (\<open>origin/pkg/deploy/registry/instantiate/rest.go\<close>) and the controller that calls it for every
  configuration with triggers (\<open>controller/generictrigger\<close>).

  The endpoint changes the configuration it has read in place.  \<open>None\<close> is a panic, on a nil template or
  on an image change trigger without parameters, both of which validation excludes.
\<close>

section \<open>Comparing templates\<close>

text \<open>\<open>DeepEqual\<close> of maps and of templates: the order of a map is none.\<close>

definition same_map :: "(string \<times> string) list \<Rightarrow> (string \<times> string) list \<Rightarrow> bool" where
  "same_map m m' \<longleftrightarrow> (\<forall>k \<in> set (map fst (m @ m')). map_of m k = map_of m' k)"

definition same_template :: "pod_template option \<Rightarrow> pod_template option \<Rightarrow> bool" where
  "same_template a b =
     (case (a, b) of
        (None, None) \<Rightarrow> True
      | (Some t, Some t') \<Rightarrow>
          same_map (pt_Labels t) (pt_Labels t') \<and> same_map (pt_Annotations t) (pt_Annotations t') \<and>
          pt_Containers t = pt_Containers t' \<and> pt_DNSPolicy t = pt_DNSPolicy t' \<and> pt_PullSecrets t = pt_PullSecrets t' \<and>
          same_map (pt_NodeSelector t) (pt_NodeSelector t') \<and> pt_Rest t = pt_Rest t'
      | _ \<Rightarrow> False)"

section \<open>The environment\<close>

record deploy_request =
  rq_Name :: string
  rq_Latest :: bool
  rq_Force :: bool

record instantiate_env =
  ie_GetConfig :: "string \<Rightarrow> go_error + deployment_config"
  ie_GetStream :: "string \<Rightarrow> string \<Rightarrow> go_error + image_stream"
  ie_GetRC :: "string \<Rightarrow> string \<Rightarrow> go_error + replication_controller"
  ie_Decode :: "string \<Rightarrow> go_error + deployment_config"
  ie_Admit :: "deployment_config \<Rightarrow> deployment_config \<Rightarrow> go_error option"
  ie_Update :: "deployment_config \<Rightarrow> go_error + deployment_config"

definition ValidateDeploymentRequest :: "deploy_request \<Rightarrow> go_error list" where
  "ValidateDeploymentRequest req =
     (if length (rq_Name req) = 0 then [Errorf ''name: name of the deployment config is missing'' []]
      else if IsDNS1123Subdomain (rq_Name req) \<noteq> [] then [Errorf ''name: name of the deployment config is invalid'' [rq_Name req]]
      else [])"

definition ValidateRequestForDeploymentConfig :: "deploy_request \<Rightarrow> deployment_config \<Rightarrow> go_error list" where
  "ValidateRequestForDeploymentConfig req config =
     ValidateDeploymentRequest req @
     (if sp_Paused (dc_Spec config)
      then [Errorf ''spec.paused: deployment config %q is paused - unpause to request a new deployment'' [dc_Name config]]
      else [])"

section \<open>Processing triggers\<close>

definition update_containers :: "string list \<Rightarrow> string \<Rightarrow> template_container list \<Rightarrow> template_container list" where
  "update_containers names img cs =
     map (\<lambda>c. if tc_Name c \<in> set names \<and> tc_Image c \<noteq> img then c\<lparr>tc_Image := img\<rparr> else c) cs"

definition updates_some :: "string list \<Rightarrow> string \<Rightarrow> template_container list \<Rightarrow> bool" where
  "updates_some names img cs \<longleftrightarrow> (\<exists>c \<in> set cs. tc_Name c \<in> set names \<and> tc_Image c \<noteq> img)"

text \<open>One round of the loop: the errors, the trigger and the template it leaves.\<close>

definition process_trigger ::
  "instantiate_env \<Rightarrow> bool \<Rightarrow> bool \<Rightarrow> trigger_policy \<Rightarrow> pod_template option
   \<Rightarrow> (go_error list \<times> trigger_policy \<times> pod_template option) option" where
  "process_trigger env force paused trigger template =
     (if tg_Type trigger \<noteq> TriggerOnImageChange then Some ([], trigger, template)
      else (case tg_Image trigger of
        None \<Rightarrow> if \<not> force \<and> paused then Some ([], trigger, template) else None
      | Some params \<Rightarrow>
          if \<not> force \<and> (paused \<or> \<not> ip_Automatic params) then Some ([], trigger, template)
          else (case SplitImageStreamTag (or_name (ip_From params)) of
            (name, tag, _) \<Rightarrow>
              (case ie_GetStream env (or_namespace (ip_From params)) name of
                 Inl e \<Rightarrow> Some (if IsNotFound e then [] else [e], trigger, template)
               | Inr stream \<Rightarrow>
                   (case ResolveLatestTaggedImage stream tag of
                      (latestReference, ok) \<Rightarrow>
                        if \<not> ok \<or> length latestReference = 0 \<or> latestReference = ip_LastTriggeredImage params
                        then Some ([], trigger, template)
                        else (case template of
                          None \<Rightarrow> None
                        | Some t \<Rightarrow> Some ([],
                            (if updates_some (ip_ContainerNames params) latestReference (pt_Containers t)
                             then trigger\<lparr>tg_Image := Some (params\<lparr>ip_LastTriggeredImage := latestReference\<rparr>)\<rparr> else trigger),
                            Some (t\<lparr>pt_Containers :=
                              update_containers (ip_ContainerNames params) latestReference (pt_Containers t)\<rparr>))))))))"

fun process_loop ::
  "instantiate_env \<Rightarrow> bool \<Rightarrow> bool \<Rightarrow> trigger_policy list \<Rightarrow> pod_template option
   \<Rightarrow> (go_error list \<times> trigger_policy list \<times> pod_template option) option" where
  "process_loop env force paused [] template = Some ([], [], template)"
| "process_loop env force paused (t # ts) template =
     (case process_trigger env force paused t template of
        None \<Rightarrow> None
      | Some (errs, t', template1) \<Rightarrow>
          (case process_loop env force paused ts template1 of
             None \<Rightarrow> None
           | Some (errs', ts', template2) \<Rightarrow> Some (errs @ errs', t' # ts', template2)))"

definition processTriggers ::
  "instantiate_env \<Rightarrow> bool \<Rightarrow> deployment_config \<Rightarrow> (deployment_config \<times> go_error option) option" where
  "processTriggers env force config =
     (case process_loop env force (sp_Paused (dc_Spec config)) (sp_Triggers (dc_Spec config)) (sp_Template (dc_Spec config)) of
        None \<Rightarrow> None
      | Some (errs, triggers, template) \<Rightarrow>
          Some (config\<lparr>dc_Spec := (dc_Spec config)\<lparr>sp_Triggers := triggers, sp_Template := template\<rparr>\<rparr>,
                if errs = [] then None else Some (InternalErr (AggregateErr errs))))"

section \<open>Whether to deploy\<close>

definition decodeFromLatestDeployment :: "instantiate_env \<Rightarrow> deployment_config \<Rightarrow> go_error + deployment_config" where
  "decodeFromLatestDeployment env config =
     (if st_LatestVersion (dc_Status config) = 0 then Inr config
      else (case ie_GetRC env (dc_Namespace config) (LatestDeploymentNameForConfig config) of
              Inl e \<Rightarrow> Inl e
            | Inr deployment \<Rightarrow>
                (case DecodeDeploymentConfig (ie_Decode env) deployment of
                   Inl e \<Rightarrow> Inl (InternalErr e)
                 | Inr decoded \<Rightarrow> Inr decoded)))"

fun triggeredByDifferentImage :: "image_change_params \<Rightarrow> trigger_policy list \<Rightarrow> bool option" where
  "triggeredByDifferentImage params [] = Some False"
| "triggeredByDifferentImage params (t # ts) =
     (if tg_Type t \<noteq> TriggerOnImageChange then triggeredByDifferentImage params ts
      else (case tg_Image t of
              None \<Rightarrow> None
            | Some prev \<Rightarrow>
                if or_name (ip_From prev) \<noteq> or_name (ip_From params) \<or> or_namespace (ip_From prev) \<noteq> or_namespace (ip_From params)
                then triggeredByDifferentImage params ts
                else Some (ip_LastTriggeredImage prev \<noteq> ip_LastTriggeredImage params)))"

text \<open>The loop over the triggers: whether all images are resolved, and the causes.\<close>

definition image_cause :: "image_change_params \<Rightarrow> deploy_cause" where
  "image_cause params =
     \<lparr>ca_Type = TriggerOnImageChange,
      ca_ImageTrigger = Some \<lparr>or_kind = ''ImageStreamTag'', or_namespace = or_namespace (ip_From params),
        or_name = or_name (ip_From params), or_uid = [], or_api_version = [], or_resource_version = [], or_field_path = []\<rparr>\<rparr>"

fun trigger_loop ::
  "int \<Rightarrow> trigger_policy list \<Rightarrow> trigger_policy list \<Rightarrow> (bool \<times> deploy_cause list) option" where
  "trigger_loop version previous [] = Some (True, [])"
| "trigger_loop version previous (t # ts) =
     (if tg_Type t \<noteq> TriggerOnImageChange then trigger_loop version previous ts
      else (case tg_Image t of
        None \<Rightarrow> None
      | Some params \<Rightarrow>
          if length (ip_LastTriggeredImage params) = 0
          then map_option (\<lambda>(_, causes). (False, causes)) (trigger_loop version previous ts)
          else if \<not> ip_Automatic params then trigger_loop version previous ts
          else (case (if version > 0 then triggeredByDifferentImage params previous else Some True) of
                  None \<Rightarrow> None
                | Some different \<Rightarrow>
                    map_option (\<lambda>(resolved, causes). (resolved, if different then image_cause params # causes else causes))
                      (trigger_loop version previous ts))))"

definition canTrigger ::
  "instantiate_env \<Rightarrow> bool \<Rightarrow> deployment_config \<Rightarrow> (go_error + bool \<times> deploy_cause list) option" where
  "canTrigger env force config =
     (case decodeFromLatestDeployment env config of
        Inl e \<Rightarrow> Some (Inl e)
      | Inr decoded \<Rightarrow>
          (case trigger_loop (st_LatestVersion (dc_Status config)) (sp_Triggers (dc_Spec decoded)) (sp_Triggers (dc_Spec config)) of
             None \<Rightarrow> None
           | Some (resolved, causes) \<Rightarrow> Some
               (if \<not> resolved then Inl (BadRequestErr
                  ''cannot trigger a deployment for %q because it contains unresolved images'' [dc_Name config])
                else if force then Inr (True, [\<lparr>ca_Type = TriggerManual, ca_ImageTrigger = None\<rparr>])
                else if HasChangeTrigger config \<and> causes = [] \<and>
                        (st_LatestVersion (dc_Status config) = 0 \<or>
                         \<not> same_template (sp_Template (dc_Spec config)) (sp_Template (dc_Spec decoded)))
                     then Inr (True, [\<lparr>ca_Type = TriggerOnConfigChange, ca_ImageTrigger = None\<rparr>])
                else Inr (causes \<noteq> [], causes))))"

section \<open>The endpoint\<close>

definition cause_message :: "deploy_cause list \<Rightarrow> string" where
  "cause_message causes =
     (let t = ca_Type (hd causes) in
      if t = TriggerOnConfigChange then ''config change''
      else if t = TriggerOnImageChange then ''image change''
      else if t = TriggerManual then ''manual change'' else [])"

definition next_version :: "deploy_cause list \<Rightarrow> deployment_config \<Rightarrow> deployment_config" where
  "next_version causes config =
     config\<lparr>dc_Status := (dc_Status config)\<lparr>
       st_Details := Some \<lparr>dd_Message = cause_message causes, dd_Causes = causes\<rparr>,
       st_LatestVersion := to_int64 (st_LatestVersion (dc_Status config) + 1)\<rparr>\<rparr>"

text \<open>
  The outcome: a panic, an error, the status that nothing is to be deployed, or the updated configuration.
  What is called the old configuration is the same pointer as the new one, so the admission plugins are
  shown the new configuration twice.
\<close>

definition instantiate_Create ::
  "instantiate_env \<Rightarrow> deploy_request \<Rightarrow> (go_error + deployment_config option) option" where
  "instantiate_Create env req =
     (case ie_GetConfig env (rq_Name req) of
        Inl e \<Rightarrow> Some (Inl e)
      | Inr stored \<Rightarrow>
          let errs = ValidateRequestForDeploymentConfig req stored in
          if errs \<noteq> [] then Some (Inl (NewInvalid ''DeploymentRequest'' (rq_Name req) errs))
          else (case (if rq_Latest req then processTriggers env (rq_Force req) stored else Some (stored, None)) of
                  None \<Rightarrow> None
                | Some (_, Some e) \<Rightarrow> Some (Inl e)
                | Some (config, None) \<Rightarrow>
                    (case canTrigger env (rq_Force req) config of
                       None \<Rightarrow> None
                     | Some (Inl e) \<Rightarrow> Some (Inl e)
                     | Some (Inr (can, causes)) \<Rightarrow> Some
                         (if \<not> can then Inr None
                          else let new = next_version causes config
                               in (case ie_Admit env new new of
                                     Some e \<Rightarrow> Inl e
                                   | None \<Rightarrow> (case ie_Update env new of Inl e \<Rightarrow> Inl e | Inr updated \<Rightarrow> Inr (Some updated)))))))"

section \<open>The trigger controller\<close>

text \<open>The request that the controller makes for a configuration, if any.\<close>

definition TriggerController_Handle :: "deployment_config \<Rightarrow> deploy_request option" where
  "TriggerController_Handle config =
     (if sp_Triggers (dc_Spec config) = [] \<or> sp_Paused (dc_Spec config) then None
      else Some \<lparr>rq_Name = dc_Name config, rq_Latest = True, rq_Force = False\<rparr>)"

definition HasSynced :: "deployment_config \<Rightarrow> int \<Rightarrow> bool" where
  "HasSynced dc generation \<longleftrightarrow> st_ObservedGeneration (dc_Status dc) \<ge> generation"

text \<open>Whether an update of a configuration puts it into the queue of the controller.\<close>

definition updateDeploymentConfig_enqueues ::
  "(string \<Rightarrow> go_error + deployment_config) \<Rightarrow> (string \<Rightarrow> string \<Rightarrow> go_error + replication_controller)
   \<Rightarrow> bool \<Rightarrow> deployment_config \<Rightarrow> bool" where
  "updateDeploymentConfig_enqueues decode getRC sameResourceVersion newDc \<longleftrightarrow>
     (if sameResourceVersion then False
      else if sp_Triggers (dc_Spec newDc) = [] \<or> sp_Paused (dc_Spec newDc) then False
      else if \<not> HasSynced newDc (dc_Generation newDc) then False
      else if st_LatestVersion (dc_Status newDc) = 0 then True
      else (case getRC (dc_Namespace newDc) (LatestDeploymentNameForConfig newDc) of
              Inl _ \<Rightarrow> True
            | Inr latestRc \<Rightarrow>
                (case DecodeDeploymentConfig decode latestRc of
                   Inl _ \<Rightarrow> False
                 | Inr initial \<Rightarrow> \<not> same_template (sp_Template (dc_Spec newDc)) (sp_Template (dc_Spec initial)))))"

end
