(* ===== verification/Deploy_Strategy.thy ===== *)
theory Deploy_Strategy
  imports Deploy_Instantiate
begin

text \<open>
  Writes of deployment configurations: the strategies of \<open>origin/pkg/deploy/registry/deployconfig\<close> and of
  \<open>registry/instantiate\<close> with the validation of the status, and rollbacks (\<open>registry/rollback\<close>).

  What validation asks of the metadata and of the spec is a parameter, the function \<open>other\<close> of the new
  and the old configuration; the images that the validation of a template sets it also restores.
\<close>

section \<open>Comparing specs\<close>

text \<open>
  \<open>reflect.DeepEqual\<close>, up to one thing: it tells nil maps and slices from empty ones, which encoding does
  not keep apart and the lists here do not either.
\<close>

definition same_strategy :: "deploy_strategy \<Rightarrow> deploy_strategy \<Rightarrow> bool" where
  "same_strategy s s' \<longleftrightarrow>
     same_map (ds_Labels s) (ds_Labels s') \<and> same_map (ds_Annotations s) (ds_Annotations s') \<and>
     s\<lparr>ds_Labels := [], ds_Annotations := []\<rparr> = s'\<lparr>ds_Labels := [], ds_Annotations := []\<rparr>"

definition same_spec :: "dc_spec \<Rightarrow> dc_spec \<Rightarrow> bool" where
  "same_spec s s' \<longleftrightarrow>
     same_strategy (sp_Strategy s) (sp_Strategy s') \<and> sp_MinReadySeconds s = sp_MinReadySeconds s' \<and>
     sp_Triggers s = sp_Triggers s' \<and> sp_Replicas s = sp_Replicas s' \<and>
     sp_RevisionHistoryLimit s = sp_RevisionHistoryLimit s' \<and> sp_Test s = sp_Test s' \<and> sp_Paused s = sp_Paused s' \<and>
     same_map (sp_Selector s) (sp_Selector s') \<and> same_template (sp_Template s) (sp_Template s')"

section \<open>Preparing\<close>

definition empty_status :: dc_status where
  "empty_status = \<lparr>st_LatestVersion = 0, st_ObservedGeneration = 0, st_Replicas = 0, st_UpdatedReplicas = 0,
     st_AvailableReplicas = 0, st_UnavailableReplicas = 0, st_Details = None, st_Conditions = [], st_ReadyReplicas = 0\<rparr>"

definition forget_image :: "trigger_policy \<Rightarrow> trigger_policy" where
  "forget_image t = t\<lparr>tg_Image := map_option (\<lambda>p. p\<lparr>ip_LastTriggeredImage := []\<rparr>) (tg_Image t)\<rparr>"

definition config_PrepareForCreate :: "deployment_config \<Rightarrow> deployment_config" where
  "config_PrepareForCreate dc =
     dc\<lparr>dc_Generation := 1, dc_Status := empty_status,
        dc_Spec := (dc_Spec dc)\<lparr>sp_Triggers := map forget_image (sp_Triggers (dc_Spec dc))\<rparr>\<rparr>"

definition bump_generation :: "deployment_config \<Rightarrow> deployment_config \<Rightarrow> deployment_config" where
  "bump_generation newDc oldDc =
     (if \<not> same_spec (dc_Spec oldDc) (dc_Spec newDc) \<or>
         st_LatestVersion (dc_Status newDc) \<noteq> st_LatestVersion (dc_Status oldDc)
      then newDc\<lparr>dc_Generation := to_int64 (dc_Generation oldDc + 1)\<rparr> else newDc)"

definition config_PrepareForUpdate :: "deployment_config \<Rightarrow> deployment_config \<Rightarrow> deployment_config" where
  "config_PrepareForUpdate newDc oldDc =
     (let newVersion = st_LatestVersion (dc_Status newDc); oldVersion = st_LatestVersion (dc_Status oldDc);
          status = (if newVersion = to_int64 (oldVersion + 1)
                    then (dc_Status oldDc)\<lparr>st_LatestVersion := newVersion\<rparr> else dc_Status oldDc)
      in bump_generation (newDc\<lparr>dc_Status := status\<rparr>) oldDc)"

definition instantiate_PrepareForUpdate :: "deployment_config \<Rightarrow> deployment_config \<Rightarrow> deployment_config" where
  "instantiate_PrepareForUpdate newDc oldDc =
     bump_generation (newDc\<lparr>dc_Status := (dc_Status oldDc)\<lparr>
       st_LatestVersion := st_LatestVersion (dc_Status newDc), st_Details := st_Details (dc_Status newDc)\<rparr>\<rparr>) oldDc"

definition config_status_PrepareForUpdate :: "deployment_config \<Rightarrow> deployment_config \<Rightarrow> deployment_config" where
  "config_status_PrepareForUpdate newDc oldDc = newDc\<lparr>dc_Spec := dc_Spec oldDc, dc_Labels := dc_Labels oldDc\<rparr>"

section \<open>Validation of the status\<close>

definition ValidateDeploymentConfigStatus :: "dc_status \<Rightarrow> go_error list" where
  "ValidateDeploymentConfigStatus status =
     (if st_LatestVersion status < 0 then [Errorf ''status.latestVersion: latestVersion cannot be negative'' []] else []) @
     (if st_ObservedGeneration status < 0 then [Errorf ''status.observedGeneration: observedGeneration cannot be negative'' []] else []) @
     (if st_ReadyReplicas status < 0 then [Errorf ''status.readyReplicas: must be greater than or equal to 0'' []] else [])"

definition ValidateDeploymentConfigStatusUpdate :: "deployment_config \<Rightarrow> deployment_config \<Rightarrow> go_error list" where
  "ValidateDeploymentConfigStatusUpdate newConfig oldConfig =
     (let new = dc_Status newConfig; old = dc_Status oldConfig in
      ValidateDeploymentConfigStatus new @
      (if st_LatestVersion new < st_LatestVersion old
       then [Errorf ''status.latestVersion: latestVersion cannot be decremented'' []]
       else if st_LatestVersion new > to_int64 (st_LatestVersion old + 1)
       then [Errorf ''status.latestVersion: latestVersion can only be incremented by 1'' []] else []) @
      (if st_ObservedGeneration new < st_ObservedGeneration old
       then [Errorf ''status.observedGeneration: observedGeneration cannot be decremented'' []] else []))"

type_synonym other_validation = "deployment_config \<Rightarrow> deployment_config \<Rightarrow> go_error list"

datatype write_path = ByUser | ByInstantiate | ByStatus

definition prepared_config :: "write_path \<Rightarrow> deployment_config \<Rightarrow> deployment_config \<Rightarrow> deployment_config" where
  "prepared_config path newDc oldDc =
     (case path of
        ByUser \<Rightarrow> config_PrepareForUpdate newDc oldDc
      | ByInstantiate \<Rightarrow> instantiate_PrepareForUpdate newDc oldDc
      | ByStatus \<Rightarrow> config_status_PrepareForUpdate newDc oldDc)"

text \<open>
  An update of a stored configuration on one of the three ways: what is stored, or the errors.  The
  generation that a request carries is dropped before (\<open>BeforeUpdate\<close> of \<open>kubernetes/pkg/api/rest\<close>).
\<close>

definition update_config ::
  "other_validation \<Rightarrow> write_path \<Rightarrow> deployment_config \<Rightarrow> deployment_config \<Rightarrow> go_error + deployment_config" where
  "update_config other path newDc oldDc =
     (let prepared = prepared_config path (newDc\<lparr>dc_Generation := dc_Generation oldDc\<rparr>) oldDc;
          errs = other prepared oldDc @
            (if path = ByStatus then [] else ValidateDeploymentConfigStatus (dc_Status prepared)) @
            ValidateDeploymentConfigStatusUpdate prepared oldDc
      in if errs \<noteq> [] then Inl (NewInvalid ''deploymentconfigs'' (dc_Name prepared) errs) else Inr prepared)"

section \<open>Rollbacks\<close>

record rollback_spec =
  rb_Revision :: int
  rb_IncludeTriggers :: bool
  rb_IncludeTemplate :: bool
  rb_IncludeReplicationMeta :: bool
  rb_IncludeStrategy :: bool

text \<open>\<open>None\<close> is the panic on an image change trigger without parameters.\<close>

definition disable_trigger :: "trigger_policy \<Rightarrow> trigger_policy option" where
  "disable_trigger t =
     (if tg_Type t = TriggerOnImageChange
      then map_option (\<lambda>p. t\<lparr>tg_Image := Some (p\<lparr>ip_Automatic := False\<rparr>)\<rparr>) (tg_Image t) else Some t)"

definition disable_triggers :: "trigger_policy list \<Rightarrow> trigger_policy list option" where
  "disable_triggers ts = those (map disable_trigger ts)"

definition GenerateRollback ::
  "deployment_config \<Rightarrow> deployment_config \<Rightarrow> rollback_spec \<Rightarrow> deployment_config option" where
  "GenerateRollback fromDc toDc spec =
     (let s = dc_Spec fromDc; t = dc_Spec toDc;
          s1 = (if rb_IncludeTemplate spec then s\<lparr>sp_Template := sp_Template t\<rparr> else s);
          s2 = (if rb_IncludeReplicationMeta spec then s1\<lparr>sp_Replicas := sp_Replicas t, sp_Selector := sp_Selector t\<rparr> else s1);
          s3 = (if rb_IncludeTriggers spec then s2\<lparr>sp_Triggers := sp_Triggers t\<rparr> else s2);
          s4 = (if rb_IncludeStrategy spec then s3\<lparr>sp_Strategy := sp_Strategy t\<rparr> else s3)
      in map_option (\<lambda>triggers. fromDc\<lparr>dc_Spec := s4\<lparr>sp_Triggers := triggers\<rparr>,
            dc_Status := (dc_Status fromDc)\<lparr>st_LatestVersion := to_int64 (st_LatestVersion (dc_Status fromDc) + 1)\<rparr>\<rparr>)
          (disable_triggers (sp_Triggers s4)))"

record rollback_request =
  rr_Name :: string
  rr_UpdatedAnnotations :: "(string \<times> string) list"
  rr_Spec :: rollback_spec

definition ValidateDeploymentConfigRollback :: "rollback_request \<Rightarrow> go_error list" where
  "ValidateDeploymentConfigRollback rollback =
     (if length (rr_Name rollback) = 0 then [Errorf ''name: name of the deployment config is missing'' []]
      else if IsDNS1123Subdomain (rr_Name rollback) \<noteq> []
      then [Errorf ''name: name of the deployment config is invalid'' [rr_Name rollback]] else []) @
     (if rb_Revision (rr_Spec rollback) < 0 then [Errorf ''spec.revision: must be non-negative'' []] else [])"

definition rollback_invalid :: "rollback_request \<Rightarrow> go_error \<Rightarrow> go_error" where
  "rollback_invalid rollback reason =
     NewInvalid ''DeploymentConfigRollback'' (rr_Name rollback)
       [ErrorfE ''name: Invalid value: %q: %v'' [rr_Name rollback] [reason]]"

definition merged_annotations ::
  "(string \<times> string) list option \<Rightarrow> (string \<times> string) list \<Rightarrow> (string \<times> string) list option" where
  "merged_annotations annotations updates =
     (if updates = [] then annotations
      else Some (fold (\<lambda>(k, v). AList.update k v) updates (case annotations of None \<Rightarrow> [] | Some m \<Rightarrow> m)))"

definition rollback_Create ::
  "(string \<Rightarrow> string \<Rightarrow> go_error + deployment_config) \<Rightarrow> (string \<Rightarrow> string \<Rightarrow> go_error + replication_controller)
   \<Rightarrow> (string \<Rightarrow> go_error + deployment_config) \<Rightarrow> string option \<Rightarrow> rollback_request
   \<Rightarrow> (go_error + deployment_config) option" where
  "rollback_Create getConfig getRC decode ctxNamespace rollback =
     (case ctxNamespace of
        None \<Rightarrow> Some (Inl (BadRequestErr ''namespace parameter required.'' []))
      | Some namespace \<Rightarrow>
          let errs = ValidateDeploymentConfigRollback rollback in
          if errs \<noteq> [] then Some (Inl (NewInvalid ''DeploymentConfigRollback'' (rr_Name rollback) errs))
          else (case getConfig namespace (rr_Name rollback) of
            Inl e \<Rightarrow> Some (Inl (rollback_invalid rollback
              (ErrorfE ''cannot get deployment config %q: %v'' [rr_Name rollback] [e])))
          | Inr fromDc \<Rightarrow>
              let latest = st_LatestVersion (dc_Status fromDc) in
              if latest = 0 then Some (Inl (rollback_invalid rollback (Errorf ''cannot rollback an undeployed config'' [])))
              else if latest = 1 then Some (Inl (rollback_invalid rollback
                (Errorf ''no previous deployment exists for %q'' [LabelForDeploymentConfig fromDc])))
              else let revision = (if rb_Revision (rr_Spec rollback) > 0 then rb_Revision (rr_Spec rollback) else to_int64 (latest - 1))
                in (case getRC namespace (DeploymentNameForConfigVersion (dc_Name fromDc) revision) of
                      Inl e \<Rightarrow> Some (Inl (rollback_invalid rollback e))
                    | Inr target \<Rightarrow>
                        (case DecodeDeploymentConfig decode target of
                           Inl e \<Rightarrow> Some (Inl (rollback_invalid rollback
                             (ErrorfE ''couldn't decode deployment config from deployment: %v'' [] [e])))
                         | Inr toDc \<Rightarrow>
                             map_option Inr (GenerateRollback
                               (fromDc\<lparr>dc_Annotations := merged_annotations (dc_Annotations fromDc) (rr_UpdatedAnnotations rollback)\<rparr>)
                               toDc (rr_Spec rollback))))))"

end
