(* ===== verification/Deploy_Versions.thy ===== *)
theory Deploy_Versions
  imports Deploy_Strategy
begin

text \<open>
  Versions of deployment configurations: who can make one, and what makes one.
\<close>

section \<open>Updates\<close>

lemma to_int64_id: "- (2 ^ 63) \<le> x \<Longrightarrow> x < 2 ^ 63 \<Longrightarrow> to_int64 x = x"
  by (simp add: to_int64_def)


lemma bump_fields [simp]:
  "dc_Status (bump_generation new old) = dc_Status new" "dc_Spec (bump_generation new old) = dc_Spec new"
  by (simp_all add: bump_generation_def)



section \<open>New versions\<close>

lemma process_loop_types:
  "process_loop env force paused ts template = Some (errs, ts', template') \<Longrightarrow> map tg_Type ts' = map tg_Type ts"
proof (induction ts arbitrary: template errs ts' template')
  case (Cons t ts)
  obtain e1 t1 tm1 where p: "process_trigger env force paused t template = Some (e1, t1, tm1)"
    using Cons.prems by (auto split: option.splits)
  have "tg_Type t1 = tg_Type t"
    using p by (auto simp: process_trigger_def split: if_splits option.splits sum.splits prod.splits)
  then show ?case using Cons.prems Cons.IH [of tm1] p by (auto split: option.splits)
qed simp

lemma processTriggers_status:
  assumes "processTriggers env force config = Some (config', e)"
  shows "dc_Status config' = dc_Status config" "sp_Paused (dc_Spec config') = sp_Paused (dc_Spec config)"
    "dc_Name config' = dc_Name config" "dc_Namespace config' = dc_Namespace config"
    "\<exists>triggers template. config' = config\<lparr>dc_Spec := (dc_Spec config)\<lparr>sp_Triggers := triggers, sp_Template := template\<rparr>\<rparr> \<and>
      map tg_Type triggers = map tg_Type (sp_Triggers (dc_Spec config))"
  using assms process_loop_types by (auto simp: processTriggers_def split: option.splits)

lemma trigger_loop_resolved:
  "trigger_loop version previous ts = Some (True, causes) \<Longrightarrow> t \<in> set ts \<Longrightarrow> tg_Type t = TriggerOnImageChange \<Longrightarrow>
   \<exists>params. tg_Image t = Some params \<and> ip_LastTriggeredImage params \<noteq> []"
proof (induction ts arbitrary: causes)
  case (Cons x ts)
  then show ?case by (auto split: if_splits option.splits)
qed simp

definition image_changed :: "int \<Rightarrow> trigger_policy list \<Rightarrow> trigger_policy \<Rightarrow> bool" where
  "image_changed version previous t \<longleftrightarrow> tg_Type t = TriggerOnImageChange \<and>
     (\<exists>params. tg_Image t = Some params \<and> ip_Automatic params \<and> ip_LastTriggeredImage params \<noteq> [] \<and>
        (0 < version \<longrightarrow> triggeredByDifferentImage params previous = Some True))"

lemma trigger_loop_causes:
  "trigger_loop version previous ts = Some (resolved, causes) \<Longrightarrow> causes \<noteq> [] \<longleftrightarrow> (\<exists>t \<in> set ts. image_changed version previous t)"
proof (induction ts arbitrary: resolved causes)
  case (Cons t ts)
  then show ?case by (auto simp: image_changed_def split: if_splits option.splits)
qed simp

text \<open>
  A request makes at most one new version, and only for a reason.  An accepted request makes the
  version that follows, of a configuration that is not paused and all of whose images are resolved,
  changing nothing of the spec but the images; unless the request forces it, either the template differs
  from the one deployed last and the configuration asks for such deployments, or an automatic trigger has
  another image than it had then.
\<close>

theorem new_versions_have_a_reason:
  assumes "instantiate_Create env req = Some (Inr (Some updated))" "ie_GetConfig env (rq_Name req) = Inr stored"
    "0 \<le> st_LatestVersion (dc_Status stored)" "st_LatestVersion (dc_Status stored) < 2 ^ 63 - 1"
  shows "\<exists>config causes decoded.
    (rq_Latest req \<and> processTriggers env (rq_Force req) stored = Some (config, None) \<or> \<not> rq_Latest req \<and> config = stored) \<and>
    decodeFromLatestDeployment env config = Inr decoded \<and>
    ie_Update env (next_version causes config) = Inr updated \<and> causes \<noteq> [] \<and>
    st_LatestVersion (dc_Status (next_version causes config)) = st_LatestVersion (dc_Status stored) + 1 \<and>
    \<not> sp_Paused (dc_Spec stored) \<and>
    (\<forall>t \<in> set (sp_Triggers (dc_Spec config)). tg_Type t = TriggerOnImageChange \<longrightarrow>
       (\<exists>params. tg_Image t = Some params \<and> ip_LastTriggeredImage params \<noteq> [])) \<and>
    (\<not> rq_Force req \<and> 0 < st_LatestVersion (dc_Status stored) \<longrightarrow>
       HasChangeTrigger config \<and> \<not> same_template (sp_Template (dc_Spec config)) (sp_Template (dc_Spec decoded)) \<or>
       (\<exists>t \<in> set (sp_Triggers (dc_Spec config)).
          image_changed (st_LatestVersion (dc_Status stored)) (sp_Triggers (dc_Spec decoded)) t))"
proof -
  have paused: "\<not> sp_Paused (dc_Spec stored)"
    using assms(1,2) by (auto simp: instantiate_Create_def ValidateRequestForDeploymentConfig_def Let_def split: if_splits)
  obtain config causes where c: "(if rq_Latest req then processTriggers env (rq_Force req) stored else Some (stored, None)) = Some (config, None)"
    and can: "canTrigger env (rq_Force req) config = Some (Inr (True, causes))"
    and up: "ie_Update env (next_version causes config) = Inr updated"
    using assms(1,2) unfolding instantiate_Create_def
    by (auto simp: Let_def split: if_splits option.splits prod.splits sum.splits)
  have st: "dc_Status config = dc_Status stored"
    using c processTriggers_status(1) by (auto split: if_splits)
  obtain decoded causes0 where d: "decodeFromLatestDeployment env config = Inr decoded"
    and l: "trigger_loop (st_LatestVersion (dc_Status config)) (sp_Triggers (dc_Spec decoded)) (sp_Triggers (dc_Spec config)) =
      Some (True, causes0)"
    using can by (auto simp: canTrigger_def split: sum.splits option.splits if_splits)
  have causes: "causes \<noteq> []" "\<not> rq_Force req \<Longrightarrow> 0 < st_LatestVersion (dc_Status stored) \<Longrightarrow>
      HasChangeTrigger config \<and> \<not> same_template (sp_Template (dc_Spec config)) (sp_Template (dc_Spec decoded)) \<or> causes0 \<noteq> []"
    using can unfolding canTrigger_def d l sum.case option.case prod.case by (auto simp: st split: if_splits)
  have version: "st_LatestVersion (dc_Status (next_version causes config)) = st_LatestVersion (dc_Status stored) + 1"
    using assms(3,4) by (simp add: next_version_def st to_int64_id)
  have c': "rq_Latest req \<and> processTriggers env (rq_Force req) stored = Some (config, None) \<or> \<not> rq_Latest req \<and> config = stored"
    using c by (simp split: if_splits)
  have resolved: "\<forall>t \<in> set (sp_Triggers (dc_Spec config)). tg_Type t = TriggerOnImageChange \<longrightarrow>
       (\<exists>params. tg_Image t = Some params \<and> ip_LastTriggeredImage params \<noteq> [])"
    using trigger_loop_resolved [OF l] by blast
  have reason: "\<not> rq_Force req \<and> 0 < st_LatestVersion (dc_Status stored) \<longrightarrow>
       HasChangeTrigger config \<and> \<not> same_template (sp_Template (dc_Spec config)) (sp_Template (dc_Spec decoded)) \<or>
       (\<exists>t \<in> set (sp_Triggers (dc_Spec config)).
          image_changed (st_LatestVersion (dc_Status stored)) (sp_Triggers (dc_Spec decoded)) t)"
    using causes(2) trigger_loop_causes [OF l] st by auto
  show ?thesis
    by (intro exI [of _ config] exI [of _ causes] exI [of _ decoded] conjI)
      (rule c' d up causes(1) version paused resolved reason)+
qed

section \<open>Images that stay unresolved\<close>

lemma update_containers_id:
  "\<not> updates_some names img cs \<Longrightarrow> update_containers names img cs = cs"
  by (auto simp: updates_some_def update_containers_def intro!: map_idI)

text \<open>
  A configuration whose template already names the image that a trigger resolves to cannot be
  deployed.  The endpoint records the image of a trigger only when it changes a container; a first
  request, forced or not, is then refused because an image is not resolved, and so is every later one.
\<close>

theorem running_image_is_never_resolved:
  assumes "ie_GetConfig env (rq_Name req) = Inr stored" "ValidateRequestForDeploymentConfig req stored = []"
    "rq_Latest req" "st_LatestVersion (dc_Status stored) = 0"
    "sp_Triggers (dc_Spec stored) = [trigger]" "tg_Type trigger = TriggerOnImageChange" "tg_Image trigger = Some params"
    "ip_LastTriggeredImage params = []" "sp_Template (dc_Spec stored) = Some template"
    "SplitImageStreamTag (or_name (ip_From params)) = (name, tag, ok)"
    "ie_GetStream env (or_namespace (ip_From params)) name = Inr stream"
    "ResolveLatestTaggedImage stream tag = (img, True)"
    "\<And>c. c \<in> set (pt_Containers template) \<Longrightarrow> tc_Name c \<in> set (ip_ContainerNames params) \<Longrightarrow> tc_Image c = img"
  shows "instantiate_Create env req = Some (Inl (BadRequestErr
    ''cannot trigger a deployment for %q because it contains unresolved images'' [dc_Name stored]))"
proof -
  have same: "\<not> updates_some (ip_ContainerNames params) img (pt_Containers template)"
    using assms(13) by (auto simp: updates_some_def)
  have "process_trigger env (rq_Force req) (sp_Paused (dc_Spec stored)) trigger (Some template) = Some ([], trigger, Some template)"
    using assms(6-8,10-12) same by (simp add: process_trigger_def update_containers_id)
  then have "processTriggers env (rq_Force req) stored = Some (stored, None)"
    using assms(5,9) by (simp add: processTriggers_def)
  moreover have "trigger_loop 0 [trigger] [trigger] = Some (False, [])"
    using assms(6-8) by simp
  then have "canTrigger env (rq_Force req) stored = Some (Inl (BadRequestErr
      ''cannot trigger a deployment for %q because it contains unresolved images'' [dc_Name stored]))"
    using assms(4,5) by (simp add: canTrigger_def decodeFromLatestDeployment_def)
  ultimately show ?thesis using assms(1-3) by (simp add: instantiate_Create_def)
qed

section \<open>Rollbacks\<close>

definition automatic :: "trigger_policy \<Rightarrow> bool" where
  "automatic t \<longleftrightarrow> tg_Type t = TriggerOnImageChange \<and> (case tg_Image t of None \<Rightarrow> True | Some p \<Rightarrow> ip_Automatic p)"

lemma disable_triggers_automatic:
  "disable_triggers ts = Some ts' \<Longrightarrow> t \<in> set ts' \<Longrightarrow> \<not> automatic t"
proof (induction ts arbitrary: ts')
  case (Cons x ts)
  then show ?case
    by (auto simp: disable_triggers_def disable_trigger_def automatic_def split: option.splits if_splits)
qed (simp add: disable_triggers_def)

lemma process_trigger_idle: "\<not> automatic t \<Longrightarrow> process_trigger env False paused t template = Some ([], t, template)"
  by (cases "tg_Image t") (auto simp: process_trigger_def automatic_def)

lemma process_loop_idle:
  "(\<And>t. t \<in> set ts \<Longrightarrow> \<not> automatic t) \<Longrightarrow> process_loop env False paused ts template = Some ([], ts, template)"
  by (induction ts arbitrary: template) (simp_all add: process_trigger_idle)

lemma trigger_loop_idle:
  "(\<And>t. t \<in> set ts \<Longrightarrow> \<not> automatic t) \<Longrightarrow> \<exists>resolved. trigger_loop version previous ts = Some (resolved, [])"
proof (induction ts)
  case (Cons t ts)
  then obtain resolved where "trigger_loop version previous ts = Some (resolved, [])" by auto
  then show ?case using Cons.prems [of t] by (auto simp: automatic_def split: option.splits)
qed auto

text \<open>
  A rollback is not triggered away.  Once the configuration that a rollback has generated is stored
  and its template deployed, the requests of the trigger controller make no new version of it, whatever
  the image streams say.
\<close>

theorem rollback_is_not_triggered_away:
  assumes "GenerateRollback fromDc toDc spec = Some rollback" "ie_GetConfig env (dc_Name stored) = Inr stored"
    "sp_Triggers (dc_Spec stored) = sp_Triggers (dc_Spec rollback)" "st_LatestVersion (dc_Status stored) \<noteq> 0"
    "\<And>decoded. decodeFromLatestDeployment env stored = Inr decoded \<Longrightarrow>
       same_template (sp_Template (dc_Spec stored)) (sp_Template (dc_Spec decoded))"
    "TriggerController_Handle stored = Some req"
  shows "\<exists>answer. instantiate_Create env req = Some answer \<and> (\<forall>updated. answer \<noteq> Inr (Some updated))"
proof -
  have req: "rq_Name req = dc_Name stored" "rq_Latest req" "\<not> rq_Force req"
    using assms(6) by (auto simp: TriggerController_Handle_def split: if_splits)
  obtain ts where "disable_triggers ts = Some (sp_Triggers (dc_Spec rollback))"
    using assms(1) by (auto simp: GenerateRollback_def Let_def)
  then have idle: "\<And>t. t \<in> set (sp_Triggers (dc_Spec stored)) \<Longrightarrow> \<not> automatic t"
    using disable_triggers_automatic assms(3) by metis
  then have p: "processTriggers env False stored = Some (stored, None)"
    using process_loop_idle by (simp add: processTriggers_def)
  have "\<exists>r. canTrigger env False stored = Some r \<and> (\<forall>causes. r \<noteq> Inr (True, causes))"
  proof (cases "decodeFromLatestDeployment env stored")
    case (Inr decoded)
    obtain resolved where "trigger_loop (st_LatestVersion (dc_Status stored)) (sp_Triggers (dc_Spec decoded))
        (sp_Triggers (dc_Spec stored)) = Some (resolved, [])"
      using trigger_loop_idle [OF idle] by blast
    then show ?thesis using Inr assms(4,5) by (simp add: canTrigger_def)
  qed (simp add: canTrigger_def)
  then obtain r where r: "canTrigger env False stored = Some r" "\<forall>causes. r \<noteq> Inr (True, causes)" by blast
  have no: "(\<exists>e. r = Inl e) \<or> (\<exists>causes. r = Inr (False, causes))"
  proof (cases r)
    case (Inr b)
    then show ?thesis using r(2) by (cases b) auto
  qed simp
  have "\<exists>answer. instantiate_Create env req = Some answer \<and> (\<forall>updated. answer \<noteq> Inr (Some updated))"
    if "ValidateRequestForDeploymentConfig req stored = []"
    using that r(1) no req assms(2) p by (auto simp: instantiate_Create_def)
  then show ?thesis using req assms(2) by (cases "ValidateRequestForDeploymentConfig req stored = []") (auto simp: instantiate_Create_def)
qed

end
