(* ===== verification/Deploy_Status.thy ===== *)
theory Deploy_Status
  imports Deploy_Make
begin

text \<open>
  The status of a deployment configuration: its conditions and counts (\<open>origin/pkg/deploy/util/util.go\<close>)
  and how the deployment config controller computes and writes it
  (\<open>controller/deploymentconfig/controller.go\<close>).
\<close>

section \<open>Conditions\<close>

definition NewDeploymentCondition :: "nat \<Rightarrow> string \<Rightarrow> string \<Rightarrow> string \<Rightarrow> string \<Rightarrow> deploy_condition" where
  "NewDeploymentCondition now type status reason message =
     \<lparr>cd_Type = type, cd_Status = status, cd_LastUpdateTime = now, cd_LastTransitionTime = now,
      cd_Reason = reason, cd_Message = message\<rparr>"

definition GetDeploymentCondition :: "dc_status \<Rightarrow> string \<Rightarrow> deploy_condition option" where
  "GetDeploymentCondition status type = List.find (\<lambda>c. cd_Type c = type) (st_Conditions status)"

definition filterOutCondition :: "deploy_condition list \<Rightarrow> string \<Rightarrow> deploy_condition list" where
  "filterOutCondition conditions type = filter (\<lambda>c. cd_Type c \<noteq> type) conditions"

definition SetDeploymentCondition :: "deploy_condition \<Rightarrow> dc_status \<Rightarrow> dc_status" where
  "SetDeploymentCondition condition status =
     (case GetDeploymentCondition status (cd_Type condition) of
        None \<Rightarrow> status\<lparr>st_Conditions := filterOutCondition (st_Conditions status) (cd_Type condition) @ [condition]\<rparr>
      | Some currentCond \<Rightarrow>
          if cd_Status currentCond = cd_Status condition \<and> cd_Reason currentCond = cd_Reason condition then status
          else let condition' =
                 (if cd_Status currentCond = cd_Status condition
                  then condition\<lparr>cd_LastTransitionTime := cd_LastTransitionTime currentCond\<rparr> else condition)
               in status\<lparr>st_Conditions := filterOutCondition (st_Conditions status) (cd_Type condition) @ [condition']\<rparr>)"

definition RemoveDeploymentCondition :: "string \<Rightarrow> dc_status \<Rightarrow> dc_status" where
  "RemoveDeploymentCondition type status =
     status\<lparr>st_Conditions := filterOutCondition (st_Conditions status) type\<rparr>"

definition DeploymentAvailable :: string where "DeploymentAvailable = ''Available''"
definition DeploymentProgressing :: string where "DeploymentProgressing = ''Progressing''"

section \<open>Counts\<close>

text \<open>\<open>GetValueFromIntOrPercent\<close>; its floating point division is exact for percentages up to 100.\<close>

definition int_or_percent :: "int_or_string \<Rightarrow> int \<Rightarrow> bool \<Rightarrow> go_error + int" where
  "int_or_percent v tot roundUp =
     (case v of
        IntVal i \<Rightarrow> Inr i
      | StrVal s \<Rightarrow>
          (case Atoi (filter (\<lambda>c. c \<noteq> CHR ''%'') s) of
             Inl e \<Rightarrow> Inl (ErrorfE ''invalid value for IntOrString: %v'' [] [ErrorfE ''invalid value %q: %v'' [s] [e]])
           | Inr p \<Rightarrow> Inr (if roundUp then - ((- (p * tot)) div 100) else (p * tot) div 100)))"

definition ResolveFenceposts :: "int_or_string \<Rightarrow> int_or_string \<Rightarrow> int \<Rightarrow> int \<times> int \<times> go_error option" where
  "ResolveFenceposts maxSurge maxUnavailable desired =
     (case int_or_percent maxSurge desired True of
        Inl e \<Rightarrow> (0, 0, Some e)
      | Inr surge \<Rightarrow>
          (case int_or_percent maxUnavailable desired False of
             Inl e \<Rightarrow> (0, 0, Some e)
           | Inr unavailable \<Rightarrow>
               (to_int32 surge, to_int32 (if surge = 0 \<and> unavailable = 0 then 1 else unavailable), None)))"

text \<open>\<open>None\<close> is the panic on a rolling strategy without parameters.\<close>

definition MaxUnavailable :: "deployment_config \<Rightarrow> int option" where
  "MaxUnavailable config =
     (if ds_Type (sp_Strategy (dc_Spec config)) \<noteq> ''Rolling'' then Some 0
      else map_option (\<lambda>p. fst (snd (ResolveFenceposts (rp_MaxSurge p) (rp_MaxUnavailable p) (sp_Replicas (dc_Spec config)))))
             (ds_Rolling (sp_Strategy (dc_Spec config))))"

record status_pod =
  pd_Phase :: pod_phase
  pd_Deleted :: bool
  pd_Conditions :: "(string \<times> string \<times> int option) list"

definition IsPodAvailable :: "int \<Rightarrow> int \<Rightarrow> status_pod \<Rightarrow> bool" where
  "IsPodAvailable minReadySeconds now pod \<longleftrightarrow>
     pd_Phase pod \<noteq> PodSucceeded \<and> pd_Phase pod \<noteq> PodFailed \<and> \<not> pd_Deleted pod \<and>
     (\<exists>(type, status, transition) \<in> set (pd_Conditions pod).
        type = ''Ready'' \<and> status = ''True'' \<and>
        (minReadySeconds = 0 \<or>
         (case transition of None \<Rightarrow> False | Some t \<Rightarrow> t + minReadySeconds * 1000000000 < now)))"

definition GetAvailablePods :: "status_pod list \<Rightarrow> int \<Rightarrow> int \<Rightarrow> int" where
  "GetAvailablePods pods minReadySeconds now =
     foldl (\<lambda>available pod. if IsPodAvailable minReadySeconds now pod then to_int32 (available + 1) else available) 0 pods"

definition IsProgressing :: "dc_status \<Rightarrow> dc_status \<Rightarrow> bool" where
  "IsProgressing old new \<longleftrightarrow>
     st_UpdatedReplicas new > st_UpdatedReplicas old \<or>
     to_int32 (st_Replicas new - st_UpdatedReplicas new) < to_int32 (st_Replicas old - st_UpdatedReplicas old)"

section \<open>The status that the controller computes\<close>

record config_world =
  cw_RCs :: "replication_controller list"
  cw_GetRC :: "nat \<Rightarrow> string \<Rightarrow> string \<Rightarrow> go_error + replication_controller"
  cw_UpdateRC :: "nat \<Rightarrow> replication_controller \<Rightarrow> go_error + replication_controller"
  cw_CreateRC :: "replication_controller \<Rightarrow> go_error + replication_controller"
  cw_DeleteRC :: "string \<Rightarrow> string \<Rightarrow> go_error option"
  cw_ListPods :: "string \<Rightarrow> (string \<times> string) list \<Rightarrow> go_error + status_pod list"
  cw_UpdateStatus :: "deployment_config \<Rightarrow> go_error option"
  cw_Encode :: "deployment_config \<Rightarrow> go_error + string"
  cw_ErrorText :: "go_error \<Rightarrow> string"
  cw_Now :: nat
  cw_SortDesc :: sorter
  cw_SortAsc :: sorter

datatype config_call =
    ConfigUpdateRC replication_controller
  | ConfigCreateRC replication_controller
  | ConfigDeleteRC string string
  | ConfigUpdateStatus deployment_config

definition availability_condition :: "nat \<Rightarrow> deployment_config \<Rightarrow> int \<Rightarrow> dc_status \<Rightarrow> deploy_condition" where
  "availability_condition now config unavailable newStatus =
     (if st_AvailableReplicas newStatus \<ge> to_int32 (sp_Replicas (dc_Spec config) - unavailable) \<and>
         st_AvailableReplicas newStatus > 0
      then NewDeploymentCondition now DeploymentAvailable ''True'' [] ''Deployment config has minimum availability.''
      else NewDeploymentCondition now DeploymentAvailable ''False'' [] ''Deployment config does not have minimum availability.'')"

definition progress_conditions ::
  "nat \<Rightarrow> deployment_config \<Rightarrow> replication_controller option \<Rightarrow> dc_status \<Rightarrow> dc_status" where
  "progress_conditions now config latestRC newStatus =
     (case latestRC of
        None \<Rightarrow> newStatus
      | Some rc \<Rightarrow>
          let phase = DeploymentStatusFor rc; name = rc_Name rc;
              cond = (\<lambda>status reason msg. NewDeploymentCondition now DeploymentProgressing status reason msg)
          in if phase = StatusPending then
               SetDeploymentCondition (cond ''Unknown'' [] (''replication controller '' @ quoted_name name @ '' is waiting for pod '' @
                 quoted_name (DeployerPodNameForDeployment name) @ '' to run'')) newStatus
             else if phase = StatusRunning then
               (if IsProgressing (dc_Status config) newStatus
                then SetDeploymentCondition (cond ''True'' ''ReplicationControllerUpdated''
                       (''replication controller '' @ quoted_name name @ '' is progressing''))
                     (RemoveDeploymentCondition DeploymentProgressing newStatus)
                else newStatus)
             else if phase = StatusFailed then
               SetDeploymentCondition (cond ''False'' ''ProgressDeadlineExceeded''
                 (''replication controller '' @ quoted_name name @ '' has failed progressing'')) newStatus
             else if phase = StatusComplete then
               SetDeploymentCondition (cond ''True'' ''NewReplicationControllerAvailable''
                 (''replication controller '' @ quoted_name name @ '' successfully rolled out'')) newStatus
             else newStatus)"

definition updateConditions ::
  "nat \<Rightarrow> deployment_config \<Rightarrow> replication_controller option \<Rightarrow> dc_status \<Rightarrow> dc_status option" where
  "updateConditions now config latestRC newStatus =
     map_option (\<lambda>unavailable. progress_conditions now config latestRC
         (SetDeploymentCondition (availability_condition now config unavailable newStatus) newStatus))
       (MaxUnavailable config)"

definition counted_status ::
  "config_world \<Rightarrow> deployment_config \<Rightarrow> replication_controller list \<Rightarrow> replication_controller option
   \<Rightarrow> status_pod list \<Rightarrow> dc_status" where
  "counted_status w config deployments latestRC pods =
     (let available = GetAvailablePods pods (sp_MinReadySeconds (dc_Spec config)) (int (cw_Now w))
      in \<lparr>st_LatestVersion = st_LatestVersion (dc_Status config),
          st_ObservedGeneration = dc_Generation config,
          st_Replicas = GetStatusReplicaCountForDeployments deployments,
          st_UpdatedReplicas =
            (case latestRC of None \<Rightarrow> 0 | Some rc \<Rightarrow> GetStatusReplicaCountForDeployments [rc]),
          st_AvailableReplicas = available,
          st_UnavailableReplicas = to_int32 (GetReplicaCountForDeployments deployments - available),
          st_Details = st_Details (dc_Status config),
          st_Conditions = st_Conditions (dc_Status config),
          st_ReadyReplicas = GetReadyReplicaCountForReplicationControllers deployments\<rparr>)"

definition calculateStatus ::
  "config_world \<Rightarrow> deployment_config \<Rightarrow> replication_controller list \<Rightarrow> deploy_condition list
   \<Rightarrow> (go_error + dc_status) option" where
  "calculateStatus w config deployments additional =
     (case cw_ListPods w (dc_Namespace config) (sp_Selector (dc_Spec config)) of
        Inl e \<Rightarrow> Some (Inl e)
      | Inr pods \<Rightarrow>
          let latestRC = (case LatestDeploymentInfo (cw_SortDesc w) config deployments of
                (True, rc) \<Rightarrow> rc | (False, _) \<Rightarrow> None)
          in map_option (\<lambda>status. Inr (fold SetDeploymentCondition additional status))
               (updateConditions (cw_Now w) config latestRC (counted_status w config deployments latestRC pods)))"

definition updateStatus ::
  "config_world \<Rightarrow> deployment_config \<Rightarrow> replication_controller list \<Rightarrow> deploy_condition list
   \<Rightarrow> config_call list \<times> handled" where
  "updateStatus w config deployments additional =
     (case calculateStatus w config deployments additional of
        None \<Rightarrow> ([], Panicked)
      | Some (Inl e) \<Rightarrow> ([], Returned (Some e))
      | Some (Inr newStatus) \<Rightarrow>
          if newStatus = dc_Status config then ([], Returned None)
          else let copied = config\<lparr>dc_Status := newStatus\<rparr>
               in ([ConfigUpdateStatus copied], Returned (cw_UpdateStatus w copied)))"

section \<open>The status settles\<close>

lemma find_filter_out: "List.find (\<lambda>c. cd_Type c = t) (filter (\<lambda>c. cd_Type c \<noteq> t') cs) =
    (if t = t' then None else List.find (\<lambda>c. cd_Type c = t) cs)"
  by (induction cs) auto

lemma find_append: "List.find P (xs @ ys) = (case List.find P xs of None \<Rightarrow> List.find P ys | Some x \<Rightarrow> Some x)"
  by (induction xs) auto

definition settled :: "deploy_condition \<Rightarrow> dc_status \<Rightarrow> bool" where
  "settled c s \<longleftrightarrow> (\<exists>c0. GetDeploymentCondition s (cd_Type c) = Some c0 \<and> cd_Status c0 = cd_Status c \<and> cd_Reason c0 = cd_Reason c)"

lemma settled_Set [simp]: "settled c s \<Longrightarrow> SetDeploymentCondition c s = s"
  by (auto simp: settled_def SetDeploymentCondition_def)

lemma Set_settles: "cd_Type c' = cd_Type c \<Longrightarrow> cd_Status c' = cd_Status c \<Longrightarrow> cd_Reason c' = cd_Reason c \<Longrightarrow>
    settled c' (SetDeploymentCondition c s)"
  by (auto simp: settled_def SetDeploymentCondition_def GetDeploymentCondition_def filterOutCondition_def
    find_append find_filter_out Let_def split: option.splits)

lemma Get_Set_other [simp]:
  "cd_Type c \<noteq> t \<Longrightarrow> GetDeploymentCondition (SetDeploymentCondition c s) t = GetDeploymentCondition s t"
  by (auto simp: SetDeploymentCondition_def GetDeploymentCondition_def filterOutCondition_def
    find_append find_filter_out Let_def split: option.splits)

lemma Get_Remove_other [simp]:
  "t' \<noteq> t \<Longrightarrow> GetDeploymentCondition (RemoveDeploymentCondition t' s) t = GetDeploymentCondition s t"
  by (simp add: RemoveDeploymentCondition_def GetDeploymentCondition_def filterOutCondition_def find_filter_out)

lemma Set_counts:
  "SetDeploymentCondition c s = s\<lparr>st_Conditions := st_Conditions (SetDeploymentCondition c s)\<rparr>"
  by (simp add: SetDeploymentCondition_def Let_def split: option.split)

lemma progress_counts:
  "progress_conditions now config latestRC s = s\<lparr>st_Conditions := st_Conditions (progress_conditions now config latestRC s)\<rparr>"
  using Set_counts [of _ s] Set_counts [of _ "RemoveDeploymentCondition DeploymentProgressing s"]
  by (auto simp: progress_conditions_def RemoveDeploymentCondition_def Let_def split: option.split)

lemma condition_types [simp]: "cd_Type (availability_condition now config u s) = DeploymentAvailable"
  "cd_Type (NewDeploymentCondition now t st r m) = t" "cd_Status (NewDeploymentCondition now t st r m) = st"
  "cd_Reason (NewDeploymentCondition now t st r m) = r"
  "DeploymentProgressing \<noteq> DeploymentAvailable" "DeploymentAvailable \<noteq> DeploymentProgressing"
  by (simp_all add: availability_condition_def NewDeploymentCondition_def DeploymentProgressing_def DeploymentAvailable_def)

lemma progress_keeps_availability [simp]:
  "GetDeploymentCondition (progress_conditions now config latestRC s) DeploymentAvailable =
   GetDeploymentCondition s DeploymentAvailable"
  by (auto simp: progress_conditions_def Let_def split: option.split)

lemma progress_settles:
  assumes "s1 = progress_conditions now config latestRC s" "dc_Status config' = s1"
  shows "progress_conditions now' config' latestRC s1 = s1"
proof (cases latestRC)
  case (Some rc)
  have "settled c' s1" if "s1 = SetDeploymentCondition c s" "cd_Type c' = cd_Type c" "cd_Status c' = cd_Status c"
    "cd_Reason c' = cd_Reason c" for c c' using that Set_settles by simp
  then show ?thesis
    using assms Some by (auto simp: progress_conditions_def Let_def IsProgressing_def intro!: settled_Set split: if_splits)
qed (simp add: progress_conditions_def)

lemma availability_settles:
  assumes "st_AvailableReplicas s1 = st_AvailableReplicas s" "sp_Replicas (dc_Spec config') = sp_Replicas (dc_Spec config)"
    "GetDeploymentCondition s1 DeploymentAvailable =
     GetDeploymentCondition (SetDeploymentCondition (availability_condition now config u s) s) DeploymentAvailable"
  shows "settled (availability_condition now' config' u s1) s1"
proof -
  have "cd_Status (availability_condition now' config' u s1) = cd_Status (availability_condition now config u s)"
    "cd_Reason (availability_condition now' config' u s1) = cd_Reason (availability_condition now config u s)"
    using assms(1,2) by (simp_all add: availability_condition_def)
  then have "settled (availability_condition now' config' u s1) (SetDeploymentCondition (availability_condition now config u s) s)"
    by (intro Set_settles) simp_all
  then show ?thesis using assms(3) by (simp add: settled_def)
qed

text \<open>
  The status of a configuration settles.  A status that the controller has written, whatever the
  conditions were before, is what it computes from then on, at any later time at which as many pods are
  available: it does not write the status again, and so does not keep itself awake with its own writes.
\<close>

theorem written_status_settles:
  assumes "updateStatus w config deployments [] = ([ConfigUpdateStatus config'], Returned None)"
    "\<And>pods. cw_ListPods w (dc_Namespace config) (sp_Selector (dc_Spec config)) = Inr pods \<Longrightarrow>
      GetAvailablePods pods (sp_MinReadySeconds (dc_Spec config)) (int later) =
      GetAvailablePods pods (sp_MinReadySeconds (dc_Spec config)) (int (cw_Now w))"
  shows "updateStatus (w\<lparr>cw_Now := later\<rparr>) config' deployments [] = ([], Returned None)"
proof -
  let ?w = "w\<lparr>cw_Now := later\<rparr>"
  define latest where "latest = (case LatestDeploymentInfo (cw_SortDesc w) config deployments of
    (True, rc) \<Rightarrow> rc | (False, _) \<Rightarrow> None)"
  obtain pods u s1 where pods: "cw_ListPods w (dc_Namespace config) (sp_Selector (dc_Spec config)) = Inr pods"
    and u: "MaxUnavailable config = Some u" and config': "config' = config\<lparr>dc_Status := s1\<rparr>"
    and s1: "s1 = progress_conditions (cw_Now w) config latest
      (SetDeploymentCondition (availability_condition (cw_Now w) config u (counted_status w config deployments latest pods))
        (counted_status w config deployments latest pods))"
    using assms(1) unfolding updateStatus_def calculateStatus_def updateConditions_def latest_def [symmetric]
    by (auto simp: Let_def split: option.splits sum.splits if_splits)
  let ?c = "counted_status w config deployments latest pods"
  have counts: "s1 = ?c\<lparr>st_Conditions := st_Conditions s1\<rparr>"
    unfolding s1 by (subst progress_counts, subst Set_counts) simp
  have "MaxUnavailable config' = MaxUnavailable config" by (simp add: config' MaxUnavailable_def)
  then have u': "MaxUnavailable config' = Some u" using u by simp
  have "counted_status ?w config' deployments latest pods = ?c\<lparr>st_Conditions := st_Conditions s1\<rparr>"
    using assms(2) [OF pods] arg_cong [OF counts, of st_Details] arg_cong [OF counts, of st_LatestVersion]
    by (simp add: counted_status_def config' Let_def)
  then have c': "counted_status ?w config' deployments latest pods = s1" using counts by simp
  have "settled (availability_condition later config' u s1) s1"
    by (rule availability_settles [of s1 ?c config' config "cw_Now w"])
      (simp_all add: config' s1 progress_counts [THEN arg_cong [of _ _ st_AvailableReplicas]]
        Set_counts [THEN arg_cong [of _ _ st_AvailableReplicas]])
  moreover have "progress_conditions later config' latest s1 = s1"
    by (rule progress_settles [OF s1]) (simp add: config')
  moreover have "LatestDeploymentInfo (cw_SortDesc w) config' deployments = LatestDeploymentInfo (cw_SortDesc w) config deployments"
    using arg_cong [OF counts, of st_LatestVersion] by (simp add: LatestDeploymentInfo_def config' counted_status_def Let_def)
  ultimately show ?thesis
    using u' c' pods unfolding updateStatus_def calculateStatus_def updateConditions_def
    by (simp add: config' latest_def Let_def)
qed

end
