(* ===== verification/Deploy_Config.thy ===== *)
theory Deploy_Config
  imports Deploy_Status
begin

text \<open>
  The deployment config controller (\<open>origin/pkg/deploy/controller/deploymentconfig/controller.go\<close>): it
  cancels running deployments for a newer version, makes the deployment of a version, scales the
  deployments of a configuration and deletes old ones.

  The handler gives the calls it makes, with every attempt of a retried one, and how it ends.  The store
  of replication controllers answers by attempt, since it changes while the controller waits; it lists
  without an error.
\<close>

section \<open>Retries\<close>

datatype 'a attempt = Got 'a | Err go_error | Crash

text \<open>
  \<open>RetryOnConflict\<close> of \<open>kubernetes/pkg/client/retry/util.go\<close>, over \<open>ExponentialBackoff\<close>.  After the last
  step it ends with the last conflict, which there is with at least one step.
\<close>

fun RetryOnConflict ::
  "(nat \<Rightarrow> config_call list \<times> 'a attempt) \<Rightarrow> nat \<Rightarrow> nat \<Rightarrow> go_error \<Rightarrow> config_call list \<times> 'a attempt" where
  "RetryOnConflict fn 0 i lastErr = ([], Err lastErr)"
| "RetryOnConflict fn (Suc steps) i lastErr =
     (case fn i of
        (calls, Err e) \<Rightarrow>
          if IsConflict e
          then (case RetryOnConflict fn steps (Suc i) e of (calls', r) \<Rightarrow> (calls @ calls', r))
          else (calls, Err e)
      | result \<Rightarrow> result)"

definition DefaultBackoff_Steps :: nat where "DefaultBackoff_Steps = 4"

definition retry_default :: "(nat \<Rightarrow> config_call list \<times> 'a attempt) \<Rightarrow> config_call list \<times> 'a attempt" where
  "retry_default fn = RetryOnConflict fn DefaultBackoff_Steps 0 (Errorf ''timed out waiting for the condition'' [])"

section \<open>Cancelling\<close>

text \<open>The annotations of the copy are written without a look at whether there are any: a nil map panics.\<close>

definition cancelled_copy :: "replication_controller \<Rightarrow> (string \<times> string) list \<Rightarrow> replication_controller" where
  "cancelled_copy rc m = rc\<lparr>rc_Annotations := Some
     (AList.update DeploymentStatusReasonAnnotation ''newer deployment was found running''
       (AList.update DeploymentCancelledAnnotation DeploymentCancelledAnnotationValue m))\<rparr>"

definition cancel_attempt ::
  "config_world \<Rightarrow> replication_controller \<Rightarrow> nat \<Rightarrow> config_call list \<times> replication_controller option attempt" where
  "cancel_attempt w deployment i =
     (case cw_GetRC w i (rc_Namespace deployment) (rc_Name deployment) of
        Inl e \<Rightarrow> ([], if IsNotFound e then Got None else Err e)
      | Inr rc \<Rightarrow>
          (case rc_Annotations rc of
             None \<Rightarrow> ([], Crash)
           | Some m \<Rightarrow>
               let copied = cancelled_copy rc m
               in ([ConfigUpdateRC copied],
                   (case cw_UpdateRC w i copied of Inl e \<Rightarrow> Err e | Inr updated \<Rightarrow> Got (Some updated)))))"

text \<open>Whether any deployment still runs; \<open>None\<close> is the panic.  What is put back into the list of
deployments is not read any more, since the handler ends with an error.\<close>

fun cancel_running :: "config_world \<Rightarrow> replication_controller list \<Rightarrow> config_call list \<times> bool option" where
  "cancel_running w [] = ([], Some False)"
| "cancel_running w (d # ds) =
     (if IsTerminatedDeployment d then cancel_running w ds
      else (case (if IsDeploymentCancelled d then ([], Got None) else retry_default (cancel_attempt w d)) of
              (calls, Crash) \<Rightarrow> (calls, None)
            | (calls, _) \<Rightarrow>
                (case cancel_running w ds of (calls', r) \<Rightarrow> (calls @ calls', map_option (\<lambda>_. True) r))))"

section \<open>Old deployments\<close>

text \<open>
  \<open>cleanupOldDeployments\<close> with the list of deployments as its sort leaves it; errors are only logged.
  A negative limit, which validation excludes, runs past the end of the list: \<open>None\<close>, a panic, whose
  calls are not given.
\<close>

definition cleanupOldDeployments ::
  "config_world \<Rightarrow> deployment_config \<Rightarrow> replication_controller list
   \<Rightarrow> (config_call list \<times> replication_controller list) option" where
  "cleanupOldDeployments w config deployments =
     (case sp_RevisionHistoryLimit (dc_Spec config) of
        None \<Rightarrow> Some ([], deployments)
      | Some limit \<Rightarrow>
          let prunable = DeploymentsForCleanup (cw_SortAsc w) config deployments;
              left' = cw_SortAsc w deployments
          in if int (length prunable) \<le> limit then Some ([], left')
             else if limit < 0 then None
             else Some (map (\<lambda>d. ConfigDeleteRC (rc_Namespace d) (rc_Name d))
                          (filter (\<lambda>d. rc_Replicas d = 0) (take (length prunable - nat limit) prunable)), left'))"

section \<open>Reconciling\<close>

definition scale_attempt ::
  "config_world \<Rightarrow> replication_controller \<Rightarrow> int \<Rightarrow> nat \<Rightarrow> config_call list \<times> replication_controller attempt" where
  "scale_attempt w deployment newReplicaCount i =
     (case cw_GetRC w i (rc_Namespace deployment) (rc_Name deployment) of
        Inl e \<Rightarrow> ([], Err e)
      | Inr rc \<Rightarrow>
          let copied = rc\<lparr>rc_Replicas := newReplicaCount\<rparr>
          in ([ConfigUpdateRC copied], (case cw_UpdateRC w i copied of Inl e \<Rightarrow> Err e | Inr updated \<Rightarrow> Got updated)))"

definition wanted_replicas :: "deployment_config \<Rightarrow> replication_controller option \<Rightarrow> replication_controller \<Rightarrow> int" where
  "wanted_replicas config active deployment =
     (if sp_Test (dc_Spec config) then 0
      else case active of
             None \<Rightarrow> 0
           | Some a \<Rightarrow> if rc_Name deployment = rc_Name a then sp_Replicas (dc_Spec config) else 0)"

fun reconcile_loop ::
  "config_world \<Rightarrow> deployment_config \<Rightarrow> replication_controller option \<Rightarrow> replication_controller list
   \<Rightarrow> config_call list \<times> replication_controller list attempt" where
  "reconcile_loop w config active [] = ([], Got [])"
| "reconcile_loop w config active (d # ds) =
     (case (if wanted_replicas config active d \<noteq> rc_Replicas d
            then retry_default (scale_attempt w d (wanted_replicas config active d)) else ([], Got d)) of
        (calls, Err e) \<Rightarrow> (calls, Err e)
      | (calls, Crash) \<Rightarrow> (calls, Crash)
      | (calls, Got d') \<Rightarrow>
          (case reconcile_loop w config active ds of
             (calls', Got ds') \<Rightarrow> (calls @ calls', Got (d' # ds'))
           | (calls', r) \<Rightarrow> (calls @ calls', r)))"

definition then_status ::
  "config_world \<Rightarrow> deployment_config \<Rightarrow> replication_controller list \<Rightarrow> deploy_condition list
   \<Rightarrow> config_call list \<times> handled" where
  "then_status w config deployments additional =
     (case cleanupOldDeployments w config deployments of
        None \<Rightarrow> ([], Panicked)
      | Some (calls, left') \<Rightarrow> (case updateStatus w config left' additional of (calls', end') \<Rightarrow> (calls @ calls', end')))"

definition reconcileDeployments ::
  "config_world \<Rightarrow> deployment_config \<Rightarrow> replication_controller list \<Rightarrow> config_call list \<times> handled" where
  "reconcileDeployments w config existing =
     (case reconcile_loop w config (ActiveDeployment existing) existing of
        (calls, Got updated) \<Rightarrow> (case then_status w config updated [] of (calls', end') \<Rightarrow> (calls @ calls', end'))
      | (calls, Err e) \<Rightarrow> (calls, Returned (Some e))
      | (calls, Crash) \<Rightarrow> (calls, Panicked))"

section \<open>The handler\<close>

definition new_rc_condition :: "nat \<Rightarrow> deployment_config \<Rightarrow> replication_controller \<Rightarrow> deploy_condition" where
  "new_rc_condition now config created =
     NewDeploymentCondition now DeploymentProgressing ''True'' ''NewReplicationControllerCreated''
       (''Created new replication controller '' @ quoted_name (rc_Name created) @ '' for version '' @
        format_int (st_LatestVersion (dc_Status config)))"

definition failed_rc_condition :: "config_world \<Rightarrow> go_error \<Rightarrow> deploy_condition" where
  "failed_rc_condition w e =
     NewDeploymentCondition (cw_Now w) DeploymentProgressing ''False'' ''ReplicationControllerCreateError'' (cw_ErrorText w e)"

definition deploy_latest ::
  "config_world \<Rightarrow> deployment_config \<Rightarrow> replication_controller list \<Rightarrow> config_call list \<times> handled" where
  "deploy_latest w config existing =
     (case MakeDeployment (cw_Encode w) config of
        None \<Rightarrow> ([], Panicked)
      | Some (Inl e) \<Rightarrow> ([], Returned (Some (FatalErr (ErrorfE
            ''couldn't make deployment from (potentially invalid) deployment config %s: %v'' [LabelForDeploymentConfig config] [e]))))
      | Some (Inr deployment) \<Rightarrow>
          (case (case cw_CreateRC w deployment of
                   Inl e \<Rightarrow>
                     if IsAlreadyExists e then updateStatus w config existing []
                     else (case updateStatus w config existing [failed_rc_condition w e] of
                             (calls, Panicked) \<Rightarrow> (calls, Panicked)
                           | (calls, Returned _) \<Rightarrow> (calls, Returned (Some (ErrorfE
                               ''couldn't create deployment for deployment config %s: %v'' [LabelForDeploymentConfig config] [e]))))
                 | Inr created \<Rightarrow>
                     then_status w config (existing @ [created]) [new_rc_condition (cw_Now w) config created]) of
             (calls, end') \<Rightarrow> (ConfigCreateRC deployment # calls, end')))"

definition config_deployments :: "config_world \<Rightarrow> deployment_config \<Rightarrow> replication_controller list" where
  "config_deployments w config =
     filter (\<lambda>rc. rc_Namespace rc = dc_Namespace config \<and> Selector_Matches (ConfigSelector (dc_Name config)) (rc_Labels rc))
       (cw_RCs w)"

definition DeploymentConfigController_Handle ::
  "config_world \<Rightarrow> deployment_config \<Rightarrow> config_call list \<times> handled" where
  "DeploymentConfigController_Handle w config =
     (if st_LatestVersion (dc_Status config) = 0 then updateStatus w config [] []
      else let listed = config_deployments w config in
        if dc_Deleted config then updateStatus w config listed []
        else let (latestIsDeployed, latest) = LatestDeploymentInfo (cw_SortDesc w) config listed;
                 existing = (if listed = [] then [] else cw_SortDesc w listed)
             in if latestIsDeployed then
                  (if (case latest of None \<Rightarrow> False | Some l \<Rightarrow> \<not> IsTerminatedDeployment l)
                   then updateStatus w config existing []
                   else reconcileDeployments w config existing)
                else
                  (case cancel_running w existing of
                     (calls, None) \<Rightarrow> (calls, Panicked)
                   | (calls, Some awaiting) \<Rightarrow>
                       (case (if awaiting then ([], Returned (Some (Errorf
                                  ''found previous inflight deployment for %s - requeuing'' [LabelForDeploymentConfig config])))
                              else if sp_Paused (dc_Spec config) then then_status w config existing []
                              else deploy_latest w config existing) of
                          (calls', end') \<Rightarrow> (calls @ calls', end'))))"

section \<open>The queue\<close>

definition MaxRetries :: nat where "MaxRetries = 5"

definition DeploymentConfigController_handleErr :: "nat \<Rightarrow> go_error option \<Rightarrow> queue_call" where
  "DeploymentConfigController_handleErr numRequeues err =
     (case err of
        None \<Rightarrow> Forget
      | Some (FatalErr _) \<Rightarrow> Forget
      | Some _ \<Rightarrow> if numRequeues < MaxRetries then AddRateLimited else Forget)"

end
