(* ===== verification/Deploy_Config_Safety.thy ===== *)
theory Deploy_Config_Safety
  imports Deploy_Config
begin

text \<open>
  What the deployment config controller does to the deployments of a configuration: when it makes one,
  which it cancels, to what it scales them and which it deletes.
\<close>

section \<open>Calls\<close>

fun creates :: "config_call \<Rightarrow> bool" where
  "creates (ConfigCreateRC _) = True"
| "creates _ = False"

fun deletes :: "config_call \<Rightarrow> bool" where
  "deletes (ConfigDeleteRC _ _) = True"
| "deletes _ = False"

fun updates_rc :: "config_call \<Rightarrow> bool" where
  "updates_rc (ConfigUpdateRC _) = True"
| "updates_rc _ = False"

lemma updateStatus_calls: "c \<in> set (fst (updateStatus w config ds extra)) \<Longrightarrow> \<exists>config'. c = ConfigUpdateStatus config'"
  by (auto simp: updateStatus_def Let_def split: option.splits sum.splits if_splits)

lemma retry_calls: "(\<And>i c. c \<in> set (fst (fn i)) \<Longrightarrow> P c) \<Longrightarrow> c \<in> set (fst (RetryOnConflict fn steps i lastErr)) \<Longrightarrow> P c"
proof (induction fn steps i lastErr rule: RetryOnConflict.induct)
  case (2 fn steps i lastErr)
  show ?case
  proof (cases "c \<in> set (fst (fn i))")
    case True
    then show ?thesis using 2(2) by blast
  next
    case False
    then show ?thesis using 2 by (auto split: prod.splits attempt.splits if_splits)
  qed
qed simp

lemma cancel_running_calls:
  "c \<in> set (fst (cancel_running w ds)) \<Longrightarrow> \<exists>rc m. rc_Annotations rc = Some m \<and> c = ConfigUpdateRC (cancelled_copy rc m)"
proof (induction ds)
  case (Cons d ds)
  let ?r = "if IsDeploymentCancelled d then ([], Got None) else retry_default (cancel_attempt w d)"
  have "\<exists>rc m. rc_Annotations rc = Some m \<and> c' = ConfigUpdateRC (cancelled_copy rc m)"
    if "c' \<in> set (fst (cancel_attempt w d i))" for c' i
    using that by (auto simp: cancel_attempt_def Let_def split: sum.splits option.splits)
  then have first: "\<exists>rc m. rc_Annotations rc = Some m \<and> c = ConfigUpdateRC (cancelled_copy rc m)" if "c \<in> set (fst ?r)"
    using retry_calls [of "cancel_attempt w d"
      "\<lambda>c. \<exists>rc m. rc_Annotations rc = Some m \<and> c = ConfigUpdateRC (cancelled_copy rc m)"] that
    by (auto simp: retry_default_def split: if_splits)
  show ?case
  proof (cases "IsTerminatedDeployment d \<or> c \<notin> set (fst ?r)")
    case True
    then have "c \<in> set (fst (cancel_running w ds))"
      using Cons.prems by (auto simp del: not_None_eq split: prod.splits attempt.splits if_splits)
    then show ?thesis by (rule Cons.IH)
  next
    case False
    then show ?thesis using first by blast
  qed
qed simp

lemma scale_attempt_calls:
  "c \<in> set (fst (scale_attempt w d n i)) \<Longrightarrow> \<exists>rc. cw_GetRC w i (rc_Namespace d) (rc_Name d) = Inr rc \<and> c = ConfigUpdateRC (rc\<lparr>rc_Replicas := n\<rparr>)"
  by (auto simp: scale_attempt_def Let_def split: sum.splits)

lemma cleanup_calls: "cleanupOldDeployments w config ds = Some (calls, left') \<Longrightarrow> c \<in> set calls \<Longrightarrow> deletes c"
  by (auto simp: cleanupOldDeployments_def Let_def split: option.splits if_splits)

lemma then_status_calls: "c \<in> set (fst (then_status w config ds extra)) \<Longrightarrow> deletes c \<or> (\<exists>config'. c = ConfigUpdateStatus config')"
  using cleanup_calls updateStatus_calls
  by (auto simp: then_status_def split: option.splits prod.splits) (metis fst_conv)

section \<open>The active deployment\<close>

lemma active_step_fold:
  assumes "fold active_step ds (a0, v0) = (a, v)" "0 \<le> v0"
    "case a0 of None \<Rightarrow> v0 = 0 | Some x \<Rightarrow> IsCompleteDeployment x \<and> DeploymentVersionFor x = v0 \<and> 0 < v0"
  shows "(case a of None \<Rightarrow> v = 0 | Some x \<Rightarrow> (x \<in> set ds \<or> a0 = Some x) \<and> IsCompleteDeployment x \<and> DeploymentVersionFor x = v \<and> 0 < v) \<and>
    v0 \<le> v \<and> (\<forall>d \<in> set ds. IsCompleteDeployment d \<longrightarrow> DeploymentVersionFor d \<le> v)"
  using assms
proof (induction ds arbitrary: a0 v0)
  case (Cons d ds)
  obtain a1 v1 where 1: "active_step d (a0, v0) = (a1, v1)" by fastforce
  have "fold active_step ds (a1, v1) = (a, v)" using Cons.prems(1) 1 by simp
  moreover have "0 \<le> v1" "v0 \<le> v1" "IsCompleteDeployment d \<Longrightarrow> DeploymentVersionFor d \<le> v1" "a1 = a0 \<or> a1 = Some d"
    "case a1 of None \<Rightarrow> v1 = 0 | Some x \<Rightarrow> IsCompleteDeployment x \<and> DeploymentVersionFor x = v1 \<and> 0 < v1"
    using 1 Cons.prems(2,3) by (auto simp: active_step_def split: if_splits option.splits)
  ultimately show ?case using Cons.IH [of a1 v1] by (auto split: option.splits)
qed (auto split: option.splits)

lemma ActiveDeployment_Some:
  assumes "ActiveDeployment ds = Some a"
  shows "a \<in> set ds" "IsCompleteDeployment a" "0 < DeploymentVersionFor a"
    "\<And>d. d \<in> set ds \<Longrightarrow> IsCompleteDeployment d \<Longrightarrow> DeploymentVersionFor d \<le> DeploymentVersionFor a"
proof -
  obtain v where v: "fold active_step ds (None, 0) = (Some a, v)"
    using assms by (metis ActiveDeployment_def prod.collapse)
  show "a \<in> set ds" "IsCompleteDeployment a" "0 < DeploymentVersionFor a"
    "\<And>d. d \<in> set ds \<Longrightarrow> IsCompleteDeployment d \<Longrightarrow> DeploymentVersionFor d \<le> DeploymentVersionFor a"
    using active_step_fold [OF v] by auto
qed

lemma ActiveDeployment_None:
  assumes "ActiveDeployment ds = None" "d \<in> set ds" "IsCompleteDeployment d"
  shows "DeploymentVersionFor d \<le> 0"
proof -
  obtain v where v: "fold active_step ds (None, 0) = (None, v)"
    using assms by (metis ActiveDeployment_def prod.collapse)
  show ?thesis using active_step_fold [OF v] assms(2,3) by auto
qed

section \<open>Sorting\<close>

lemma sorts_by_set: "sorts_by key srt \<Longrightarrow> set (srt xs) = set xs"
  unfolding sorts_by_def by (metis set_mset_mset)

definition newest_first :: "sorter \<Rightarrow> bool" where
  "newest_first srt \<longleftrightarrow> sorts_by (\<lambda>d. - DeploymentVersionFor d) srt"

definition oldest_first :: "sorter \<Rightarrow> bool" where
  "oldest_first srt \<longleftrightarrow> sorts_by DeploymentVersionFor srt"

lemma newest_first_hd:
  assumes "newest_first srt" "xs \<noteq> []" "d \<in> set xs"
  shows "hd (srt xs) \<in> set xs" "DeploymentVersionFor d \<le> DeploymentVersionFor (hd (srt xs))"
proof -
  have s: "set (srt xs) = set xs" "sorted (map (\<lambda>d. - DeploymentVersionFor d) (srt xs))"
    using assms(1) sorts_by_set [of _ srt xs] unfolding newest_first_def by (blast, simp add: sorts_by_def)
  then obtain y ys where y: "srt xs = y # ys" using assms(2) by (cases "srt xs") auto
  show "hd (srt xs) \<in> set xs" using s(1) y by auto
  have "d \<in> insert y (set ys)" using assms(3) s(1) y by auto
  then show "DeploymentVersionFor d \<le> DeploymentVersionFor (hd (srt xs))" using s(2) y by auto
qed

section \<open>When a deployment is made\<close>

lemma cancel_running_result:
  "snd (cancel_running w ds) = Some running \<Longrightarrow> running \<longleftrightarrow> (\<exists>d \<in> set ds. \<not> IsTerminatedDeployment d)"
proof (induction ds arbitrary: running)
  case (Cons d ds)
  then show ?case by (auto split: prod.splits attempt.splits if_splits)
qed simp

lemma reconcile_loop_calls:
  "c \<in> set (fst (reconcile_loop w config active ds)) \<Longrightarrow> \<exists>d \<in> set ds. \<exists>i rc.
     cw_GetRC w i (rc_Namespace d) (rc_Name d) = Inr rc \<and> c = ConfigUpdateRC (rc\<lparr>rc_Replicas := wanted_replicas config active d\<rparr>)"
proof (induction ds)
  case (Cons d ds)
  let ?n = "wanted_replicas config active d"
  let ?r = "if ?n \<noteq> rc_Replicas d then retry_default (scale_attempt w d ?n) else ([], Got d)"
  let ?P = "\<lambda>c. \<exists>i rc. cw_GetRC w i (rc_Namespace d) (rc_Name d) = Inr rc \<and> c = ConfigUpdateRC (rc\<lparr>rc_Replicas := ?n\<rparr>)"
  have "?P c'" if "c' \<in> set (fst (scale_attempt w d ?n i))" for c' i using scale_attempt_calls [OF that] by blast
  then have first: "?P c" if "c \<in> set (fst ?r)"
    using retry_calls [of "scale_attempt w d ?n" ?P c] that by (simp add: retry_default_def split: if_splits)
  show ?case
  proof (cases "c \<in> set (fst ?r)")
    case False
    then have "c \<in> set (fst (reconcile_loop w config active ds))"
      using Cons.prems by (auto split: prod.splits attempt.splits if_splits)
    then show ?thesis using Cons.IH by auto
  qed (use first in auto)
qed simp

lemma reconcileDeployments_calls:
  assumes "c \<in> set (fst (reconcileDeployments w config ds))"
  shows "deletes c \<or> (\<exists>config'. c = ConfigUpdateStatus config') \<or> c \<in> set (fst (reconcile_loop w config (ActiveDeployment ds) ds))"
  using assms then_status_calls by (auto simp: reconcileDeployments_def split: prod.splits attempt.splits) (metis fst_conv)+

lemma no_creation:
  "updateStatus w config ds extra = (cs, e) \<Longrightarrow> c \<in> set cs \<Longrightarrow> \<not> creates c"
  "then_status w config ds extra = (cs, e) \<Longrightarrow> c \<in> set cs \<Longrightarrow> \<not> creates c"
  using updateStatus_calls [of c w config ds extra] then_status_calls [of c w config ds extra]
  by (cases c; simp)+

lemma deploy_latest_creates:
  "c \<in> set (fst (deploy_latest w config ds)) \<Longrightarrow> creates c \<Longrightarrow>
   \<exists>rc. MakeDeployment (cw_Encode w) config = Some (Inr rc) \<and> c = ConfigCreateRC rc"
  by (auto simp: deploy_latest_def dest: no_creation
    split: option.splits sum.splits prod.splits handled.splits if_splits)

lemma Handle_cases:
  assumes "DeploymentConfigController_Handle w config = (calls, end')" "newest_first (cw_SortDesc w)"
  obtains (status) ds where "(calls, end') = updateStatus w config ds []"
  | (reconcile) ds latest where "(calls, end') = reconcileDeployments w config ds" "set ds = set (config_deployments w config)"
      "ds = cw_SortDesc w (config_deployments w config)" "latest \<in> set ds"
      "IsTerminatedDeployment latest" "DeploymentVersionFor latest = st_LatestVersion (dc_Status config)"
      "st_LatestVersion (dc_Status config) \<noteq> 0" "\<not> dc_Deleted config"
  | (new) ds calls0 r where "cancel_running w ds = (calls0, r)" "set ds = set (config_deployments w config)"
      "st_LatestVersion (dc_Status config) \<noteq> 0" "\<not> dc_Deleted config"
      "\<And>d. d \<in> set ds \<Longrightarrow> DeploymentVersionFor d = st_LatestVersion (dc_Status config) \<Longrightarrow>
         \<exists>d' \<in> set ds. DeploymentVersionFor d < DeploymentVersionFor d'"
      "r = None \<and> calls = calls0 \<and> end' = Panicked \<or>
       r = Some True \<and> calls = calls0 \<and> (\<exists>e. end' = Returned (Some e)) \<or>
       r = Some False \<and> sp_Paused (dc_Spec config) \<and> (\<exists>calls1. calls = calls0 @ calls1 \<and> (calls1, end') = then_status w config ds []) \<or>
       r = Some False \<and> \<not> sp_Paused (dc_Spec config) \<and> (\<exists>calls1. calls = calls0 @ calls1 \<and> (calls1, end') = deploy_latest w config ds)"
proof (cases "st_LatestVersion (dc_Status config) = 0 \<or> dc_Deleted config")
  case True
  then have "(calls, end') =
      updateStatus w config (if st_LatestVersion (dc_Status config) = 0 then [] else config_deployments w config) []"
    using assms(1) by (auto simp: DeploymentConfigController_Handle_def Let_def)
  then show thesis by (rule status)
next
  case False
  define listed where "listed = config_deployments w config"
  define ds where "ds = (if listed = [] then [] else cw_SortDesc w listed)"
  have set_ds: "set ds = set listed"
    using sorts_by_set assms(2) by (auto simp: ds_def newest_first_def)
  obtain deployed latest where info: "LatestDeploymentInfo (cw_SortDesc w) config listed = (deployed, latest)" by fastforce
  have "DeploymentConfigController_Handle w config = (if deployed then
                  (if (case latest of None \<Rightarrow> False | Some l \<Rightarrow> \<not> IsTerminatedDeployment l)
                   then updateStatus w config ds [] else reconcileDeployments w config ds)
                else (case cancel_running w ds of
                     (calls, None) \<Rightarrow> (calls, Panicked)
                   | (calls, Some awaiting) \<Rightarrow>
                       (case (if awaiting then ([], Returned (Some (Errorf
                                  ''found previous inflight deployment for %s - requeuing'' [LabelForDeploymentConfig config])))
                              else if sp_Paused (dc_Spec config) then then_status w config ds []
                              else deploy_latest w config ds) of
                          (calls', end') \<Rightarrow> (calls @ calls', end'))))"
    unfolding DeploymentConfigController_Handle_def listed_def [symmetric] Let_def info prod.case ds_def [symmetric]
    using False by simp
  note H = trans [OF assms(1) [symmetric] this]
  show thesis
  proof (cases deployed)
    case True
    then obtain l where l: "latest = Some l" "listed \<noteq> []" "l = hd (cw_SortDesc w listed)"
      "DeploymentVersionFor l = st_LatestVersion (dc_Status config)"
      using info by (auto simp: LatestDeploymentInfo_def Let_def split: if_splits)
    have "l \<in> set ds" using newest_first_hd(1) [OF assms(2) l(2)] l(2,3) set_ds by (metis list.set_sel(1))
    then show thesis
      using H True l reconcile [of ds l] status [of ds] False set_ds by (auto simp: listed_def ds_def split: if_splits)
  next
    case no: False
    have later: "\<exists>d' \<in> set ds. DeploymentVersionFor d < DeploymentVersionFor d'"
      if d: "d \<in> set ds" "DeploymentVersionFor d = st_LatestVersion (dc_Status config)" for d
    proof -
      have ne: "listed \<noteq> []" using d(1) set_ds by auto
      have "DeploymentVersionFor (hd (cw_SortDesc w listed)) \<noteq> st_LatestVersion (dc_Status config)"
        using info no ne False by (auto simp: LatestDeploymentInfo_def Let_def)
      then show ?thesis using newest_first_hd [OF assms(2) ne, of d] d set_ds by force
    qed
    obtain calls0 r where c: "cancel_running w ds = (calls0, r)" by fastforce
    show thesis
      by (rule new [OF c])
        (use H no c False later set_ds in \<open>auto simp: listed_def split: option.splits prod.splits if_splits\<close>)
  qed
qed

text \<open>
  C38: a deployment is made only when all is quiet.  When the controller makes a deployment, it is the one
  of the latest version, of a configuration that is neither paused nor being deleted; every deployment
  of the configuration has ended, and none is of the latest version, unless there is a later one.
\<close>

theorem deployments_are_made_when_quiet:
  assumes "DeploymentConfigController_Handle w config = (calls, end')" "newest_first (cw_SortDesc w)"
    "ConfigCreateRC rc \<in> set calls"
  shows "MakeDeployment (cw_Encode w) config = Some (Inr rc) \<and> st_LatestVersion (dc_Status config) \<noteq> 0 \<and>
    \<not> sp_Paused (dc_Spec config) \<and> \<not> dc_Deleted config \<and>
    (\<forall>d \<in> set (config_deployments w config). IsTerminatedDeployment d \<and>
       (DeploymentVersionFor d = st_LatestVersion (dc_Status config) \<longrightarrow>
        (\<exists>d' \<in> set (config_deployments w config). DeploymentVersionFor d < DeploymentVersionFor d')))"
  using assms(1,2)
proof (cases rule: Handle_cases)
  case (status ds)
  then show ?thesis using updateStatus_calls assms(3) by (metis config_call.distinct fst_conv)
next
  case (reconcile ds latest)
  then have "ConfigCreateRC rc \<in> set (fst (reconcileDeployments w config ds))" using assms(3) by (metis fst_conv)
  then show ?thesis using reconcileDeployments_calls reconcile_loop_calls by fastforce
next
  case (new ds calls0 r)
  have c0: "ConfigCreateRC rc \<notin> set calls0" using cancel_running_calls [of "ConfigCreateRC rc" w ds] new(1) by auto
  have "ConfigCreateRC rc \<notin> set (fst (then_status w config ds []))" using then_status_calls by fastforce
  then have r: "r = Some False" "\<not> sp_Paused (dc_Spec config)" "ConfigCreateRC rc \<in> set (fst (deploy_latest w config ds))"
    using new(6) assms(3) c0 by (auto dest: arg_cong [of _ _ fst])
  have "MakeDeployment (cw_Encode w) config = Some (Inr rc)" using deploy_latest_creates [OF r(3)] by auto
  moreover have "\<not> (\<exists>d \<in> set ds. \<not> IsTerminatedDeployment d)" using cancel_running_result [of w ds False] new(1) r(1) by simp
  ultimately show ?thesis using new(2-5) r(2) by auto
qed

end
