(* ===== verification/Deploy_Reconcile.thy ===== *)
theory Deploy_Reconcile
  imports Deploy_Config_Safety
begin

text \<open>
  To what the deployment config controller scales the deployments of a configuration, which old ones it
  deletes, and what it does with replication controllers that only look like deployments.
\<close>

section \<open>Scaling\<close>

lemma retry_got:
  "RetryOnConflict fn steps i lastErr = (calls, Got a) \<Longrightarrow> \<exists>j c. fn j = (c, Got a) \<and> set c \<subseteq> set calls"
proof (induction fn steps i lastErr arbitrary: calls rule: RetryOnConflict.induct)
  case (2 fn steps i lastErr)
  show ?case
  proof (cases "fn i")
    case (Pair c r)
    show ?thesis
    proof (cases r)
      case (Err e)
      then obtain calls' where "IsConflict e" "RetryOnConflict fn steps (Suc i) e = (calls', Got a)" "calls = c @ calls'"
        using 2(2) Pair by (auto split: if_splits prod.splits)
      then show ?thesis using 2(1) [OF Pair [symmetric] Err] by fastforce
    qed (use 2(2) Pair in auto)
  qed
qed simp

text \<open>What the controller relies on: the store finds by name, and an update stores what was sent.\<close>

definition faithful_store :: "config_world \<Rightarrow> bool" where
  "faithful_store w \<longleftrightarrow>
     (\<forall>i ns name rc. cw_GetRC w i ns name = Inr rc \<longrightarrow> rc_Namespace rc = ns \<and> rc_Name rc = name) \<and>
     (\<forall>i d d'. cw_UpdateRC w i d = Inr d' \<longrightarrow> rc_Replicas d' = rc_Replicas d)"

definition scaled_by ::
  "config_world \<Rightarrow> config_call list \<Rightarrow> replication_controller \<Rightarrow> int \<Rightarrow> bool" where
  "scaled_by w calls d n \<longleftrightarrow> rc_Replicas d = n \<or>
     (\<exists>i rc d'. rc_Namespace rc = rc_Namespace d \<and> rc_Name rc = rc_Name d \<and> rc_Replicas rc = n \<and>
        ConfigUpdateRC rc \<in> set calls \<and> cw_UpdateRC w i rc = Inr d' \<and> rc_Replicas d' = n)"

lemma scaled_by_mono: "scaled_by w calls d n \<Longrightarrow> set calls \<subseteq> set calls' \<Longrightarrow> scaled_by w calls' d n"
  unfolding scaled_by_def by blast

lemma scale_attempt_got:
  assumes "scale_attempt w d n i = (c, Got d')" "faithful_store w"
  shows "scaled_by w c d n"
proof -
  obtain rc where "cw_GetRC w i (rc_Namespace d) (rc_Name d) = Inr rc" "c = [ConfigUpdateRC (rc\<lparr>rc_Replicas := n\<rparr>)]"
    "cw_UpdateRC w i (rc\<lparr>rc_Replicas := n\<rparr>) = Inr d'"
    using assms(1) by (auto simp: scale_attempt_def Let_def split: sum.splits)
  moreover from this have "rc_Replicas d' = n" "rc_Namespace rc = rc_Namespace d" "rc_Name rc = rc_Name d"
    using assms(2) by (fastforce simp: faithful_store_def)+
  ultimately show ?thesis
    unfolding scaled_by_def by (intro disjI2 exI [of _ i] exI [of _ "rc\<lparr>rc_Replicas := n\<rparr>"] exI [of _ d']) simp
qed

lemma reconcile_loop_scales:
  assumes "faithful_store w"
  shows "reconcile_loop w config active ds = (calls, Got ds') \<Longrightarrow> d \<in> set ds \<Longrightarrow>
    scaled_by w calls d (wanted_replicas config active d)"
proof (induction ds arbitrary: calls ds')
  case (Cons x ds)
  let ?n = "wanted_replicas config active x"
  obtain c0 r0 where r0: "(if ?n \<noteq> rc_Replicas x then retry_default (scale_attempt w x ?n) else ([], Got x)) = (c0, r0)"
    by fastforce
  obtain c1 r1 where r1: "reconcile_loop w config active ds = (c1, r1)" by fastforce
  obtain x' ds1 where x': "r0 = Got x'" "r1 = Got ds1" "calls = c0 @ c1"
    using Cons.prems(1) r0 r1 by (auto split: attempt.splits)
  have "scaled_by w c0 x ?n"
  proof (cases "?n = rc_Replicas x")
    case False
    then have "retry_default (scale_attempt w x ?n) = (c0, Got x')" using r0 x'(1) by simp
    then obtain j c where "scale_attempt w x ?n j = (c, Got x')" "set c \<subseteq> set c0"
      unfolding retry_default_def by (blast dest: retry_got)
    then show ?thesis using scale_attempt_got [OF _ assms] scaled_by_mono by blast
  qed (simp add: scaled_by_def)
  then show ?case using Cons.IH [of c1 ds1] Cons.prems(2) r1 x' scaled_by_mono [of w _ _ _ calls] by auto
qed simp

lemma deployed_reconciles:
  assumes "LatestDeploymentInfo (cw_SortDesc w) config (config_deployments w config) = (True, Some latest)"
    "IsTerminatedDeployment latest" "\<not> dc_Deleted config"
  shows "DeploymentConfigController_Handle w config =
    reconcileDeployments w config (cw_SortDesc w (config_deployments w config))"
proof -
  have "st_LatestVersion (dc_Status config) \<noteq> 0" "config_deployments w config \<noteq> []"
    using assms(1) by (auto simp: LatestDeploymentInfo_def split: if_splits)
  then show ?thesis using assms by (simp add: DeploymentConfigController_Handle_def Let_def)
qed

text \<open>
  The active deployment follows the configuration and all others are scaled down.  When the
  deployment of the latest version has ended and the controller has done its work without an error,
  the deployments of the configuration have these numbers of replicas, or the API server has stored an
  update of theirs to it: the active one, which is the complete one with the greatest version, that of
  the configuration, unless it is a test; every other one zero.
\<close>

theorem reconciled_deployments_follow_the_configuration:
  assumes "DeploymentConfigController_Handle w config = (calls, Returned None)"
    "newest_first (cw_SortDesc w)" "faithful_store w" "\<not> dc_Deleted config"
    "LatestDeploymentInfo (cw_SortDesc w) config (config_deployments w config) = (True, Some latest)"
    "IsTerminatedDeployment latest"
  shows "\<exists>active.
    (case active of
       None \<Rightarrow> \<forall>d \<in> set (config_deployments w config). IsCompleteDeployment d \<longrightarrow> DeploymentVersionFor d \<le> 0
     | Some a \<Rightarrow> a \<in> set (config_deployments w config) \<and> IsCompleteDeployment a \<and>
         (\<forall>d \<in> set (config_deployments w config). IsCompleteDeployment d \<longrightarrow> DeploymentVersionFor d \<le> DeploymentVersionFor a)) \<and>
    (\<forall>d \<in> set (config_deployments w config). scaled_by w calls d
       (if \<not> sp_Test (dc_Spec config) \<and> map_option rc_Name active = Some (rc_Name d) then sp_Replicas (dc_Spec config) else 0))"
proof -
  let ?ds = "cw_SortDesc w (config_deployments w config)"
  let ?a = "ActiveDeployment ?ds"
  have ds: "set ?ds = set (config_deployments w config)"
    using assms(2) sorts_by_set unfolding newest_first_def by blast
  have H: "reconcileDeployments w config ?ds = (calls, Returned None)"
    using deployed_reconciles [OF assms(5,6,4)] assms(1) by simp
  obtain c0 r0 where r0: "reconcile_loop w config ?a ?ds = (c0, r0)" by fastforce
  obtain ds' where ds': "r0 = Got ds'" "set c0 \<subseteq> set calls"
    using H r0 by (auto simp: reconcileDeployments_def split: attempt.splits prod.splits)
  have "scaled_by w calls d (wanted_replicas config ?a d)" if "d \<in> set (config_deployments w config)" for d
    using reconcile_loop_scales [OF assms(3), of config ?a ?ds c0 ds' d] that ds r0 ds' scaled_by_mono by blast
  moreover have "wanted_replicas config ?a d = (if \<not> sp_Test (dc_Spec config) \<and> map_option rc_Name ?a = Some (rc_Name d)
      then sp_Replicas (dc_Spec config) else 0)" for d
    by (auto simp: wanted_replicas_def split: option.split)
  moreover have "case ?a of
       None \<Rightarrow> \<forall>d \<in> set (config_deployments w config). IsCompleteDeployment d \<longrightarrow> DeploymentVersionFor d \<le> 0
     | Some a \<Rightarrow> a \<in> set (config_deployments w config) \<and> IsCompleteDeployment a \<and>
         (\<forall>d \<in> set (config_deployments w config). IsCompleteDeployment d \<longrightarrow> DeploymentVersionFor d \<le> DeploymentVersionFor a)"
    using ActiveDeployment_None [of ?ds] ActiveDeployment_Some [of ?ds] ds by (auto split: option.split)
  ultimately show ?thesis by (intro exI [of _ ?a]) simp
qed

section \<open>Old deployments\<close>

lemma oldest_first_filter_take:
  assumes "oldest_first srt" "d \<in> set (take n (filter P (srt ds)))" "d' \<in> set (drop n (filter P (srt ds)))"
  shows "DeploymentVersionFor d \<le> DeploymentVersionFor d'"
proof -
  have "sorted (map DeploymentVersionFor (filter P (srt ds)))"
    using assms(1) by (simp add: oldest_first_def sorts_by_def sorted_filter)
  then have "sorted (map DeploymentVersionFor (take n (filter P (srt ds)) @ drop n (filter P (srt ds))))" by simp
  then show ?thesis using assms(2,3) unfolding map_append sorted_append by fastforce
qed

definition cleanup_candidate :: "deployment_config \<Rightarrow> replication_controller list \<Rightarrow> replication_controller \<Rightarrow> bool" where
  "cleanup_candidate config ds d \<longleftrightarrow> d \<in> set ds \<and>
     (if \<exists>a \<in> set ds. IsCompleteDeployment a \<and> 0 < DeploymentVersionFor a
      then \<exists>a \<in> set ds. IsCompleteDeployment a \<and> DeploymentVersionFor d < DeploymentVersionFor a
      else DeploymentVersionFor d \<noteq> st_LatestVersion (dc_Status config))"

lemma DeploymentsForCleanup_candidates:
  assumes "oldest_first srt"
  shows "set (DeploymentsForCleanup srt config ds) = {d. cleanup_candidate config ds d}"
    "\<exists>P. DeploymentsForCleanup srt config ds = filter P (srt ds)"
proof -
  have s: "set (srt ds) = set ds" using assms sorts_by_set unfolding oldest_first_def by blast
  show "\<exists>P. DeploymentsForCleanup srt config ds = filter P (srt ds)"
    by (auto simp: DeploymentsForCleanup_def Let_def split: option.split)
  show "set (DeploymentsForCleanup srt config ds) = {d. cleanup_candidate config ds d}"
  proof (cases "ActiveDeployment (srt ds)")
    case None
    then have "\<not> (\<exists>a \<in> set ds. IsCompleteDeployment a \<and> 0 < DeploymentVersionFor a)"
      using ActiveDeployment_None [of "srt ds"] s by fastforce
    then show ?thesis using None s by (auto simp: DeploymentsForCleanup_def cleanup_candidate_def Let_def)
  next
    case (Some a)
    note a = ActiveDeployment_Some [OF Some]
    have "\<exists>a \<in> set ds. IsCompleteDeployment a \<and> 0 < DeploymentVersionFor a" using a(1-3) s by auto
    moreover have "(\<exists>a \<in> set ds. IsCompleteDeployment a \<and> DeploymentVersionFor d < DeploymentVersionFor a) \<longleftrightarrow>
        DeploymentVersionFor d < DeploymentVersionFor a" for d
    proof
      assume "\<exists>b \<in> set ds. IsCompleteDeployment b \<and> DeploymentVersionFor d < DeploymentVersionFor b"
      then obtain b where "b \<in> set (srt ds)" "IsCompleteDeployment b" "DeploymentVersionFor d < DeploymentVersionFor b"
        using s by blast
      then show "DeploymentVersionFor d < DeploymentVersionFor a" using a(4) [of b] by simp
    qed (use a(1,2) s in blast)
    ultimately show ?thesis using Some s by (auto simp: DeploymentsForCleanup_def cleanup_candidate_def Let_def)
  qed
qed

text \<open>
  Cleaning up spares what is in use.  Deployments are deleted only under a limit, only without
  replicas, and only if a complete deployment is newer, or, when none is complete, if they are not of
  the latest version.  As many such deployments as the limit says stay, and none of those that stay
  is older than one that is deleted.
\<close>

theorem cleanup_spares_what_is_in_use:
  assumes "cleanupOldDeployments w config ds = Some (calls, left')" "oldest_first (cw_SortAsc w)" "distinct ds"
  shows "\<exists>old kept. distinct (old @ kept) \<and> set (old @ kept) = {d. cleanup_candidate config ds d} \<and>
    calls = map (\<lambda>d. ConfigDeleteRC (rc_Namespace d) (rc_Name d)) (filter (\<lambda>d. rc_Replicas d = 0) old) \<and>
    (\<forall>d \<in> set old. \<forall>d' \<in> set kept. DeploymentVersionFor d \<le> DeploymentVersionFor d') \<and>
    (old \<noteq> [] \<longrightarrow> (\<exists>limit. sp_RevisionHistoryLimit (dc_Spec config) = Some limit \<and> int (length kept) = limit))"
proof -
  let ?p = "DeploymentsForCleanup (cw_SortAsc w) config ds"
  obtain P where P: "?p = filter P (cw_SortAsc w ds)" using DeploymentsForCleanup_candidates(2) [OF assms(2)] by blast
  have "distinct (cw_SortAsc w ds)"
    using assms(2,3) unfolding oldest_first_def sorts_by_def by (metis distinct_count_atmost_1 set_mset_mset)
  then have d: "distinct ?p" unfolding P by simp
  show ?thesis
  proof (cases "calls = []")
    case True
    then show ?thesis
      by (intro exI [of _ "[]"] exI [of _ ?p]) (simp add: d DeploymentsForCleanup_candidates(1) [OF assms(2)])
  next
    case False
    then obtain limit where l: "sp_RevisionHistoryLimit (dc_Spec config) = Some limit" "0 \<le> limit" "limit < int (length ?p)"
      "calls = map (\<lambda>d. ConfigDeleteRC (rc_Namespace d) (rc_Name d))
        (filter (\<lambda>d. rc_Replicas d = 0) (take (length ?p - nat limit) ?p))"
      using assms(1) by (auto simp: cleanupOldDeployments_def Let_def split: option.splits if_splits)
    let ?n = "length ?p - nat limit"
    have "int (length (drop ?n ?p)) = limit" using l(2,3) by simp
    moreover have "\<forall>d \<in> set (take ?n ?p). \<forall>d' \<in> set (drop ?n ?p). DeploymentVersionFor d \<le> DeploymentVersionFor d'"
      using oldest_first_filter_take [OF assms(2), of _ ?n P ds] unfolding P by blast
    ultimately show ?thesis
      using d l DeploymentsForCleanup_candidates(1) [OF assms(2), of config ds]
      by (intro exI [of _ "take ?n ?p"] exI [of _ "drop ?n ?p"]) simp
  qed
qed

section \<open>Replication controllers that only look like deployments\<close>

lemma cancel_running_panics:
  assumes "d \<in> set ds" "\<not> IsTerminatedDeployment d" "\<not> IsDeploymentCancelled d"
    "cw_GetRC w 0 (rc_Namespace d) (rc_Name d) = Inr rc" "rc_Annotations rc = None"
  shows "snd (cancel_running w ds) = None"
  using assms(1)
proof (induction ds)
  case (Cons x ds)
  have crash: "retry_default (cancel_attempt w d) = ([], Crash)"
    using assms(4,5) by (simp add: retry_default_def DefaultBackoff_Steps_def cancel_attempt_def numeral_eq_Suc)
  show ?case
  proof (cases "x = d")
    case True
    then show ?thesis using assms(2,3) crash by simp
  next
    case False
    then show ?thesis using Cons by (auto split: prod.split attempt.split)
  qed
qed simp

text \<open>
  A replication controller that has the label of a configuration but no annotations stops the
  controller.  While the latest version of the configuration is not deployed, the controller cancels
  what has not ended, and writes the annotations into a map that is nil.
\<close>

theorem unannotated_controller_panics:
  assumes "rc \<in> set (cw_RCs w)" "rc_Namespace rc = dc_Namespace config"
    "Selector_Matches (ConfigSelector (dc_Name config)) (rc_Labels rc)" "rc_Annotations rc = None"
    "cw_GetRC w 0 (rc_Namespace rc) (rc_Name rc) = Inr rc"
    "st_LatestVersion (dc_Status config) \<noteq> 0" "\<not> dc_Deleted config" "newest_first (cw_SortDesc w)"
    "\<And>d. d \<in> set (config_deployments w config) \<Longrightarrow> DeploymentVersionFor d \<noteq> st_LatestVersion (dc_Status config)"
  shows "snd (DeploymentConfigController_Handle w config) = Panicked"
proof -
  let ?listed = "config_deployments w config"
  have rc: "rc \<in> set ?listed" using assms(1-3) by (simp add: config_deployments_def)
  then have ne: "?listed \<noteq> []" by auto
  then have "fst (LatestDeploymentInfo (cw_SortDesc w) config ?listed) = False"
    using newest_first_hd(1) [OF assms(8) ne rc] assms(6,9) by (auto simp: LatestDeploymentInfo_def Let_def)
  then obtain latest where info: "LatestDeploymentInfo (cw_SortDesc w) config ?listed = (False, latest)"
    by (metis prod.collapse)
  have "rc \<in> set (cw_SortDesc w ?listed)" using rc assms(8) sorts_by_set unfolding newest_first_def by blast
  moreover have "annotationFor rc k = []" for k using assms(4) by (simp add: annotationFor_def rc_annotations_def map_value_def)
  ultimately have "snd (cancel_running w (cw_SortDesc w ?listed)) = None"
    using assms(4,5) by (intro cancel_running_panics [of rc])
      (simp_all add: IsTerminatedDeployment_def IsCompleteDeployment_def IsFailedDeployment_def DeploymentStatusFor_def
        IsDeploymentCancelled_def deploy_phases DeploymentCancelledAnnotationValue_def to_lower_def)
  then show ?thesis
    using info ne assms(6,7) by (auto simp: DeploymentConfigController_Handle_def Let_def split: prod.split option.split)
qed

text \<open>The name of a configuration that is too long for a label makes every replication controller of the
namespace one of its deployments.\<close>

lemma long_config_name_owns_the_namespace:
  "63 < length (dc_Name config) \<Longrightarrow>
   config_deployments w config = filter (\<lambda>rc. rc_Namespace rc = dc_Namespace config) (cw_RCs w)"
  by (simp add: config_deployments_def ConfigSelector_def SelectorFromSet1_def IsValidLabelValue_def)

end
