(* ===== verification/Identity_Types.thy ===== *)
theory Identity_Types
  imports Registry_Store Policy_Types Go_Numbers
begin

text \<open>
  Users and identities (\<open>origin/pkg/user/api/types.go\<close>) with their validation
  (\<open>user/api/validation/validation.go\<close>) and REST strategies (\<open>user/registry/user\<close>,
  \<open>user/registry/identity\<close>), the registries as a record of operations on a state, and what the login
  code relies on as the locale \<open>identity_registries\<close>.  The locale is interpreted on two generic
  registry stores whose calls may fail at any time.
\<close>

section \<open>Data\<close>

record user_obj =
  u_Name :: string
  u_UID :: string
  u_ResourceVersion :: nat
  u_FullName :: string
  u_Identities :: "string list"
  u_Groups :: "string list"

text \<open>The reference to the user is its name and UID.\<close>

record identity_obj =
  i_Name :: string
  i_UID :: string
  i_ResourceVersion :: nat
  i_ProviderName :: string
  i_ProviderUserName :: string
  i_UserName :: string
  i_UserUID :: string
  i_Extra :: "(string \<times> string) list"

section \<open>Validation\<close>

text \<open>The reasons a name is refused, without the path of the field.\<close>

definition ValidateUserName :: "string \<Rightarrow> go_error list" where
  "ValidateUserName name =
     (if IsValidPathSegmentName name \<noteq> [] then IsValidPathSegmentName name
      else if CHR '':'' \<in> set name then [Errorf ''may not contain %s'' ['':'']]
      else if name = ''~'' then [Errorf ''may not equal %s'' [''~'']]
      else [])"

definition ValidateGroupName :: "string \<Rightarrow> go_error list" where
  "ValidateGroupName name =
     (if IsValidPathSegmentName name \<noteq> [] then IsValidPathSegmentName name
      else if CHR '':'' \<in> set name then [Errorf ''may not contain %s'' ['':'']]
      else if name = ''~'' then [Errorf ''may not equal %s'' [''~'']]
      else [])"

definition ValidateIdentityName :: "string \<Rightarrow> go_error list" where
  "ValidateIdentityName name =
     (if IsValidPathSegmentName name \<noteq> [] then IsValidPathSegmentName name
      else let parts = split_char CHR '':'' name in
        if length parts \<noteq> 2 then [Errorf ''must be in the format <providerName>:<providerUserName>'' []]
        else if parts ! 0 = [] then [Errorf ''must be in the format <providerName>:<providerUserName> with a non-empty providerName'' []]
        else if parts ! 1 = [] then [Errorf ''must be in the format <providerName>:<providerUserName> with a non-empty providerUserName'' []]
        else [])"

definition ValidateIdentityProviderName :: "string \<Rightarrow> go_error list" where
  "ValidateIdentityProviderName name =
     (if IsValidPathSegmentName name \<noteq> [] then IsValidPathSegmentName name
      else if CHR '':'' \<in> set name then [Errorf ''may not contain %s'' ['':'']]
      else [])"

text \<open>The name and the labels of the metadata are checked with the name validator of the resource.\<close>

definition ValidateUser :: "user_obj \<Rightarrow> go_error list" where
  "ValidateUser u =
     (if u_Name u = [] then [Errorf ''metadata.name: Required value'' []] else ValidateUserName (u_Name u)) @
     concat (map ValidateIdentityName (u_Identities u)) @
     concat (map (\<lambda>g. if g = [] then [Errorf ''may not be empty'' []] else ValidateGroupName g) (u_Groups u))"

definition ValidateIdentity :: "identity_obj \<Rightarrow> go_error list" where
  "ValidateIdentity i =
     (if i_Name i = [] then [Errorf ''metadata.name: Required value'' []] else ValidateIdentityName (i_Name i)) @
     (if i_ProviderName i = [] then [Errorf ''providerName: Required value'' []]
      else ValidateIdentityProviderName (i_ProviderName i)) @
     (if i_ProviderUserName i = [] then [Errorf ''providerUserName: Required value'' []]
      else ValidateIdentityProviderName (i_ProviderUserName i)) @
     (if i_ProviderName i \<noteq> [] \<and> i_ProviderUserName i \<noteq> [] \<and>
         i_Name i \<noteq> i_ProviderName i @ '':'' @ i_ProviderUserName i
      then [Errorf ''user.name: must be %s'' [i_ProviderName i @ '':'' @ i_ProviderUserName i]] else []) @
     ValidateUserName (i_UserName i) @
     (if i_UserName i = [] \<and> i_UserUID i \<noteq> []
      then [Errorf ''username is required when uid is provided'' []] else []) @
     (if i_UserName i \<noteq> [] \<and> i_UserUID i = []
      then [Errorf ''uid is required when username is provided'' []] else [])"

definition ValidateIdentityUpdate :: "identity_obj \<Rightarrow> identity_obj \<Rightarrow> go_error list" where
  "ValidateIdentityUpdate i old =
     ValidateIdentity i @
     (if i_ProviderName i \<noteq> i_ProviderName old then [Errorf ''may not change providerName'' []] else []) @
     (if i_ProviderUserName i \<noteq> i_ProviderUserName old
      then [Errorf ''may not change providerUserName'' []] else [])"

section \<open>Strategies\<close>

definition identityName :: "string \<Rightarrow> string \<Rightarrow> string" where
  "identityName provider identity = provider @ '':'' @ identity"

definition user_strategy :: "user_obj rest_strategy" where
  "user_strategy =
     \<lparr>rs_Resource = ''users'', rs_PrepareForCreate = (\<lambda>u. u), rs_PrepareForUpdate = (\<lambda>u old. u),
      rs_Validate = ValidateUser, rs_ValidateUpdate = (\<lambda>u old. ValidateUser u),
      rs_AllowCreateOnUpdate = False, rs_AllowUnconditionalUpdate = False\<rparr>"

definition identity_strategy :: "identity_obj rest_strategy" where
  "identity_strategy =
     \<lparr>rs_Resource = ''identities'',
      rs_PrepareForCreate = (\<lambda>i. i\<lparr>i_Name := identityName (i_ProviderName i) (i_ProviderUserName i)\<rparr>),
      rs_PrepareForUpdate = (\<lambda>i old. i),
      rs_Validate = ValidateIdentity, rs_ValidateUpdate = ValidateIdentityUpdate,
      rs_AllowCreateOnUpdate = False, rs_AllowUnconditionalUpdate = False\<rparr>"

definition user_meta :: "user_obj meta_ops" where
  "user_meta = \<lparr>m_Name = u_Name, m_UID = u_UID, m_ResourceVersion = u_ResourceVersion,
     m_set_UID = (\<lambda>x u. u\<lparr>u_UID := x\<rparr>), m_set_ResourceVersion = (\<lambda>v u. u\<lparr>u_ResourceVersion := v\<rparr>)\<rparr>"

definition identity_meta :: "identity_obj meta_ops" where
  "identity_meta = \<lparr>m_Name = i_Name, m_UID = i_UID, m_ResourceVersion = i_ResourceVersion,
     m_set_UID = (\<lambda>x i. i\<lparr>i_UID := x\<rparr>), m_set_ResourceVersion = (\<lambda>v i. i\<lparr>i_ResourceVersion := v\<rparr>)\<rparr>"

interpretation um: object_meta user_meta
  by unfold_locales (simp_all add: user_meta_def)

interpretation im: object_meta identity_meta
  by unfold_locales (simp_all add: identity_meta_def)

section \<open>Registries\<close>

text \<open>Every call returns the new state: a call may fail for a reason outside the registries.\<close>

record 's registries =
  r_GetUser :: "'s \<Rightarrow> string \<Rightarrow> 's \<times> (go_error + user_obj)"
  r_CreateUser :: "'s \<Rightarrow> user_obj \<Rightarrow> 's \<times> (go_error + user_obj)"
  r_UpdateUser :: "'s \<Rightarrow> user_obj \<Rightarrow> 's \<times> (go_error + user_obj)"
  r_GetIdentity :: "'s \<Rightarrow> string \<Rightarrow> 's \<times> (go_error + identity_obj)"
  r_CreateIdentity :: "'s \<Rightarrow> identity_obj \<Rightarrow> 's \<times> (go_error + identity_obj)"
  r_UpdateIdentity :: "'s \<Rightarrow> identity_obj \<Rightarrow> 's \<times> (go_error + identity_obj)"

text \<open>Two stores, and the failures still to come: one entry for each of the next calls.\<close>

record id_world =
  w_Users :: "user_obj storage_state"
  w_Identities :: "identity_obj storage_state"
  w_Faults :: "go_error option list"

definition faulty :: "(id_world \<Rightarrow> id_world \<times> (go_error + 'a)) \<Rightarrow> id_world \<Rightarrow> id_world \<times> (go_error + 'a)" where
  "faulty f s =
     (case w_Faults s of
        [] \<Rightarrow> f s
      | None # fs \<Rightarrow> f (s\<lparr>w_Faults := fs\<rparr>)
      | Some e # fs \<Rightarrow> (s\<lparr>w_Faults := fs\<rparr>, Inl e))"

text \<open>
  \<open>Get\<close> of the user storage: \<open>~\<close> stands for the authenticated user, of which the login code's
  context has none.
\<close>

definition user_Get :: "string \<Rightarrow> user_obj storage_state \<Rightarrow> go_error + user_obj" where
  "user_Get name st =
     (if name = ''~'' then Inl (ForbiddenErr ''user'' ''~'' (Errorf ''requests to ~ must be authenticated'' []))
      else if ValidateUserName name \<noteq> [] then Inl (ErrorfE ''metadata.name: Invalid value: %q'' [name] (ValidateUserName name))
      else Store_Get user_meta user_strategy name st)"

definition on_users ::
  "(user_obj storage_state \<Rightarrow> user_obj storage_state \<times> (go_error + 'a)) \<Rightarrow> id_world \<Rightarrow> id_world \<times> (go_error + 'a)" where
  "on_users f s = (case f (w_Users s) of (st, r) \<Rightarrow> (s\<lparr>w_Users := st\<rparr>, r))"

definition on_identities ::
  "(identity_obj storage_state \<Rightarrow> identity_obj storage_state \<times> (go_error + 'a)) \<Rightarrow> id_world \<Rightarrow> id_world \<times> (go_error + 'a)" where
  "on_identities f s = (case f (w_Identities s) of (st, r) \<Rightarrow> (s\<lparr>w_Identities := st\<rparr>, r))"

text \<open>\<open>uuid\<close> gives the random UID of a new object.\<close>

definition store_registries :: "(id_world \<Rightarrow> string) \<Rightarrow> id_world registries" where
  "store_registries uuid =
     \<lparr>r_GetUser = (\<lambda>s n. faulty (on_users (\<lambda>st. (st, user_Get n st))) s),
      r_CreateUser = (\<lambda>s u. faulty (on_users (Store_Create user_meta user_strategy (uuid s) u)) s),
      r_UpdateUser = (\<lambda>s u. faulty (on_users (Store_Update user_meta user_strategy (uuid s) (u_Name u) u)) s),
      r_GetIdentity = (\<lambda>s n. faulty (on_identities (\<lambda>st. (st, Store_Get identity_meta identity_strategy n st))) s),
      r_CreateIdentity = (\<lambda>s i. faulty (on_identities (Store_Create identity_meta identity_strategy (uuid s) i)) s),
      r_UpdateIdentity = (\<lambda>s i. faulty (on_identities (Store_Update identity_meta identity_strategy (uuid s) (i_Name i) i)) s)\<rparr>"

definition stored_users :: "id_world \<Rightarrow> string \<Rightarrow> user_obj option" where
  "stored_users s = storage_lookup user_meta (w_Users s)"

definition stored_identities :: "id_world \<Rightarrow> string \<Rightarrow> identity_obj option" where
  "stored_identities s = storage_lookup identity_meta (w_Identities s)"

section \<open>What the login code relies on\<close>

locale identity_registries =
  fixes R :: "'s registries"
    and users :: "'s \<Rightarrow> string \<Rightarrow> user_obj option"
    and ids :: "'s \<Rightarrow> string \<Rightarrow> identity_obj option"
  assumes user_keyed: "users s n = Some u \<Longrightarrow> u_Name u = n"
    and identity_keyed: "ids s n = Some i \<Longrightarrow> i_Name i = n"
    and GetUser: "r_GetUser R s n = (s', r) \<Longrightarrow>
      users s' = users s \<and> ids s' = ids s \<and> (\<forall>u. r = Inr u \<longrightarrow> users s n = Some u \<and> n \<noteq> [])"
    and GetIdentity: "r_GetIdentity R s n = (s', r') \<Longrightarrow>
      users s' = users s \<and> ids s' = ids s \<and> (\<forall>i. r' = Inr i \<longrightarrow> ids s n = Some i)"
    and CreateUser: "r_CreateUser R s u = (s', Inr u') \<Longrightarrow>
      u_Name u \<noteq> [] \<and> users s (u_Name u) = None \<and> users s' = (users s)(u_Name u \<mapsto> u') \<and> ids s' = ids s \<and>
      u_Name u' = u_Name u \<and> u_Identities u' = u_Identities u \<and> u_Groups u' = u_Groups u"
    and UpdateUser: "r_UpdateUser R s u = (s', Inr u') \<Longrightarrow>
      \<exists>old. users s (u_Name u) = Some old \<and> u_ResourceVersion u = u_ResourceVersion old \<and>
        users s' = (users s)(u_Name u \<mapsto> u') \<and> ids s' = ids s \<and>
        u_Name u' = u_Name u \<and> u_UID u' = u_UID old \<and> u_Identities u' = u_Identities u \<and> u_Groups u' = u_Groups u"
    and CreateIdentity: "r_CreateIdentity R s i = (s', Inr i') \<Longrightarrow>
      i_Name i' = identityName (i_ProviderName i) (i_ProviderUserName i) \<and> ids s (i_Name i') = None \<and>
      ids s' = (ids s)(i_Name i' \<mapsto> i') \<and> users s' = users s \<and>
      i_UserName i' = i_UserName i \<and> i_UserUID i' = i_UserUID i"
    and UpdateIdentity: "r_UpdateIdentity R s i = (s', Inr i') \<Longrightarrow>
      \<exists>old. ids s (i_Name i) = Some old \<and>
        ids s' = (ids s)(i_Name i \<mapsto> i') \<and> users s' = users s \<and> i_Name i' = i_Name i \<and>
        i_UserName i' = i_UserName i \<and> i_UserUID i' = i_UserUID i"
    and failed: "r_CreateUser R s u = (s', Inl e) \<Longrightarrow> users s' = users s \<and> ids s' = ids s"
      "r_UpdateUser R s u = (s', Inl e) \<Longrightarrow> users s' = users s \<and> ids s' = ids s"
      "r_CreateIdentity R s i = (s', Inl e) \<Longrightarrow> users s' = users s \<and> ids s' = ids s"
      "r_UpdateIdentity R s i = (s', Inl e) \<Longrightarrow> users s' = users s \<and> ids s' = ids s"

text \<open>A call on the stores either fails and changes nothing, or is the call on one store.\<close>

lemma faulty_cases:
  assumes "faulty f s = (s', r)"
  shows "(\<exists>e. r = Inl e \<and> w_Users s' = w_Users s \<and> w_Identities s' = w_Identities s) \<or>
    (\<exists>fs. f (s\<lparr>w_Faults := fs\<rparr>) = (s', r))"
proof (cases "w_Faults s")
  case Nil
  then have "s\<lparr>w_Faults := []\<rparr> = s" by (cases s) simp
  moreover have "f s = (s', r)" using Nil assms by (simp add: faulty_def)
  ultimately have "f (s\<lparr>w_Faults := []\<rparr>) = (s', r)" by simp
  then show ?thesis by blast
next
  case (Cons x fs)
  with assms show ?thesis by (cases x) (auto simp: faulty_def)
qed

lemma on_users_faulty:
  assumes "faulty (on_users f) s = (s', r)"
  shows "w_Identities s' = w_Identities s \<and>
    ((\<exists>e. r = Inl e \<and> w_Users s' = w_Users s) \<or> f (w_Users s) = (w_Users s', r))"
  using faulty_cases [OF assms] by (cases "f (w_Users s)") (auto simp: on_users_def)

lemma on_identities_faulty:
  assumes "faulty (on_identities f) s = (s', r)"
  shows "w_Users s' = w_Users s \<and>
    ((\<exists>e. r = Inl e \<and> w_Identities s' = w_Identities s) \<or> f (w_Identities s) = (w_Identities s', r))"
  using faulty_cases [OF assms] by (cases "f (w_Identities s)") (auto simp: on_identities_def)

lemma user_meta_simps [simp]:
  "m_Name user_meta = u_Name" "m_UID user_meta = u_UID" "m_ResourceVersion user_meta = u_ResourceVersion"
  "m_set_UID user_meta x u = u\<lparr>u_UID := x\<rparr>" "m_set_ResourceVersion user_meta v u = u\<lparr>u_ResourceVersion := v\<rparr>"
  by (simp_all add: user_meta_def)

lemma identity_meta_simps [simp]:
  "m_Name identity_meta = i_Name" "m_UID identity_meta = i_UID"
  "m_ResourceVersion identity_meta = i_ResourceVersion"
  "m_set_UID identity_meta x i = i\<lparr>i_UID := x\<rparr>"
  "m_set_ResourceVersion identity_meta v i = i\<lparr>i_ResourceVersion := v\<rparr>"
  by (simp_all add: identity_meta_def)

lemma user_Get_stored: "user_Get n st = Inr u \<Longrightarrow> storage_lookup user_meta st n = Some u \<and> n \<noteq> []"
  by (auto simp: user_Get_def dest: um.Get_lookup split: if_splits)

lemma user_Create_stored:
  assumes "Store_Create user_meta user_strategy uid u st = (st', Inr u')"
  shows "u_Name u \<noteq> [] \<and> storage_lookup user_meta st (u_Name u) = None \<and>
    storage_lookup user_meta st' = (storage_lookup user_meta st)(u_Name u \<mapsto> u') \<and>
    u_Name u' = u_Name u \<and> u_Identities u' = u_Identities u \<and> u_Groups u' = u_Groups u"
proof -
  note c = um.Create_stores [OF assms]
  then have "u' = u\<lparr>u_UID := uid, u_ResourceVersion := Suc (st_Revision st)\<rparr>"
    by (simp add: user_strategy_def)
  then have "u_Name u' = u_Name u \<and> u_Identities u' = u_Identities u \<and> u_Groups u' = u_Groups u" by simp
  with c show ?thesis by simp
qed

lemma user_Update_stored:
  assumes "Store_Update user_meta user_strategy uid (u_Name u) u st = (st', Inr u')"
  shows "\<exists>old. storage_lookup user_meta st (u_Name u) = Some old \<and>
    u_ResourceVersion u = u_ResourceVersion old \<and>
    storage_lookup user_meta st' = (storage_lookup user_meta st)(u_Name u \<mapsto> u') \<and>
    u_Name u' = u_Name u \<and> u_UID u' = u_UID old \<and> u_Identities u' = u_Identities u \<and> u_Groups u' = u_Groups u"
proof -
  obtain old u2 v where o: "storage_lookup user_meta st (u_Name u) = Some old"
    "u_ResourceVersion u = u_ResourceVersion old" "BeforeUpdate user_meta user_strategy u old = Inr u2"
    "u_Name u' = u_Name u" "u_UID u' = u_UID old" "u' = u2\<lparr>u_ResourceVersion := v\<rparr>"
    "storage_lookup user_meta st' = (storage_lookup user_meta st)(u_Name u \<mapsto> u')"
    using um.Update_stores [OF assms] by (auto simp: user_strategy_def)
  have "u_Identities u2 = u_Identities u \<and> u_Groups u2 = u_Groups u"
    using o(3) by (auto simp: BeforeUpdate_def user_strategy_def Let_def split: if_splits)
  then show ?thesis using o by (intro exI [of _ old]) simp
qed

lemma identity_Create_stored:
  assumes "Store_Create identity_meta identity_strategy uid i st = (st', Inr i')"
  shows "i_Name i' = identityName (i_ProviderName i) (i_ProviderUserName i) \<and>
    storage_lookup identity_meta st (i_Name i') = None \<and>
    storage_lookup identity_meta st' = (storage_lookup identity_meta st)(i_Name i' \<mapsto> i') \<and>
    i_UserName i' = i_UserName i \<and> i_UserUID i' = i_UserUID i"
proof -
  note c = im.Create_stores [OF assms]
  then have "i' = i\<lparr>i_Name := identityName (i_ProviderName i) (i_ProviderUserName i), i_UID := uid,
      i_ResourceVersion := Suc (st_Revision st)\<rparr>"
    by (simp add: identity_strategy_def)
  then have "i_Name i' = identityName (i_ProviderName i) (i_ProviderUserName i) \<and>
      i_UserName i' = i_UserName i \<and> i_UserUID i' = i_UserUID i" by simp
  with c show ?thesis by simp
qed

lemma identity_Update_stored:
  assumes "Store_Update identity_meta identity_strategy uid (i_Name i) i st = (st', Inr i')"
  shows "\<exists>old. storage_lookup identity_meta st (i_Name i) = Some old \<and>
    storage_lookup identity_meta st' = (storage_lookup identity_meta st)(i_Name i \<mapsto> i') \<and>
    i_Name i' = i_Name i \<and> i_UserName i' = i_UserName i \<and> i_UserUID i' = i_UserUID i"
proof -
  obtain old i2 v where o: "storage_lookup identity_meta st (i_Name i) = Some old"
    "BeforeUpdate identity_meta identity_strategy i old = Inr i2" "i_Name i' = i_Name i"
    "i' = i2\<lparr>i_ResourceVersion := v\<rparr>"
    "storage_lookup identity_meta st' = (storage_lookup identity_meta st)(i_Name i \<mapsto> i')"
    using im.Update_stores [OF assms] by (auto simp: identity_strategy_def)
  have "i_UserName i2 = i_UserName i \<and> i_UserUID i2 = i_UserUID i"
    using o(2) by (auto simp: BeforeUpdate_def identity_strategy_def Let_def split: if_splits)
  then show ?thesis using o by (intro exI [of _ old]) simp
qed

interpretation world: identity_registries "store_registries uuid" stored_users stored_identities
proof
  fix s s' :: id_world and n u u' i i' e r r'
  show "stored_users s n = Some u \<Longrightarrow> u_Name u = n"
    using um.lookup_name by (fastforce simp: stored_users_def)
  show "stored_identities s n = Some i \<Longrightarrow> i_Name i = n"
    using im.lookup_name by (fastforce simp: stored_identities_def)
  show "r_GetUser (store_registries uuid) s n = (s', r) \<Longrightarrow>
      stored_users s' = stored_users s \<and> stored_identities s' = stored_identities s \<and>
      (\<forall>u. r = Inr u \<longrightarrow> stored_users s n = Some u \<and> n \<noteq> [])"
    using user_Get_stored
    by (auto simp: store_registries_def stored_users_def stored_identities_def dest!: on_users_faulty)
  show "r_GetIdentity (store_registries uuid) s n = (s', r') \<Longrightarrow>
      stored_users s' = stored_users s \<and> stored_identities s' = stored_identities s \<and>
      (\<forall>i. r' = Inr i \<longrightarrow> stored_identities s n = Some i)"
    by (auto simp: store_registries_def stored_users_def stored_identities_def
        dest!: on_identities_faulty dest: im.Get_lookup)
  show "r_CreateUser (store_registries uuid) s u = (s', Inr u') \<Longrightarrow>
      u_Name u \<noteq> [] \<and> stored_users s (u_Name u) = None \<and> stored_users s' = (stored_users s)(u_Name u \<mapsto> u') \<and>
      stored_identities s' = stored_identities s \<and>
      u_Name u' = u_Name u \<and> u_Identities u' = u_Identities u \<and> u_Groups u' = u_Groups u"
    using user_Create_stored
    by (fastforce simp: store_registries_def stored_users_def stored_identities_def dest!: on_users_faulty)
  show "r_UpdateUser (store_registries uuid) s u = (s', Inr u') \<Longrightarrow>
      \<exists>old. stored_users s (u_Name u) = Some old \<and> u_ResourceVersion u = u_ResourceVersion old \<and>
        stored_users s' = (stored_users s)(u_Name u \<mapsto> u') \<and> stored_identities s' = stored_identities s \<and>
        u_Name u' = u_Name u \<and> u_UID u' = u_UID old \<and> u_Identities u' = u_Identities u \<and> u_Groups u' = u_Groups u"
    using user_Update_stored
    by (fastforce simp: store_registries_def stored_users_def stored_identities_def dest!: on_users_faulty)
  show "r_CreateIdentity (store_registries uuid) s i = (s', Inr i') \<Longrightarrow>
      i_Name i' = identityName (i_ProviderName i) (i_ProviderUserName i) \<and> stored_identities s (i_Name i') = None \<and>
      stored_identities s' = (stored_identities s)(i_Name i' \<mapsto> i') \<and> stored_users s' = stored_users s \<and>
      i_UserName i' = i_UserName i \<and> i_UserUID i' = i_UserUID i"
    using identity_Create_stored
    by (fastforce simp: store_registries_def stored_users_def stored_identities_def dest!: on_identities_faulty)
  show "r_UpdateIdentity (store_registries uuid) s i = (s', Inr i') \<Longrightarrow>
      \<exists>old. stored_identities s (i_Name i) = Some old \<and>
        stored_identities s' = (stored_identities s)(i_Name i \<mapsto> i') \<and> stored_users s' = stored_users s \<and>
        i_Name i' = i_Name i \<and> i_UserName i' = i_UserName i \<and> i_UserUID i' = i_UserUID i"
    using identity_Update_stored
    by (fastforce simp: store_registries_def stored_users_def stored_identities_def dest!: on_identities_faulty)
  show "r_CreateUser (store_registries uuid) s u = (s', Inl e) \<Longrightarrow>
      stored_users s' = stored_users s \<and> stored_identities s' = stored_identities s"
    by (auto simp: store_registries_def stored_users_def stored_identities_def
        dest!: on_users_faulty dest: um.Create_error)
  show "r_UpdateUser (store_registries uuid) s u = (s', Inl e) \<Longrightarrow>
      stored_users s' = stored_users s \<and> stored_identities s' = stored_identities s"
    by (auto simp: store_registries_def stored_users_def stored_identities_def
        dest!: on_users_faulty dest: um.Update_error)
  show "r_CreateIdentity (store_registries uuid) s i = (s', Inl e) \<Longrightarrow>
      stored_users s' = stored_users s \<and> stored_identities s' = stored_identities s"
    by (auto simp: store_registries_def stored_users_def stored_identities_def
        dest!: on_identities_faulty dest: im.Create_error)
  show "r_UpdateIdentity (store_registries uuid) s i = (s', Inl e) \<Longrightarrow>
      stored_users s' = stored_users s \<and> stored_identities s' = stored_identities s"
    by (auto simp: store_registries_def stored_users_def stored_identities_def
        dest!: on_identities_faulty dest: im.Update_error)
qed

end
