(* ===== verification/Identity_Mapping.thy ===== *)
theory Identity_Mapping
  imports Identity_Types
begin

text \<open>
  The mapping between identities and users as a REST resource
  (\<open>origin/pkg/user/registry/useridentitymapping/rest.go\<close>): a mapping is not stored, it exists when
  the identity references the user by name and UID and the user lists the identity.
\<close>

record identity_mapping =
  mp_Name :: string
  mp_UID :: string
  mp_ResourceVersion :: nat
  mp_IdentityName :: string
  mp_IdentityUID :: string
  mp_UserName :: string
  mp_UserUID :: string

section \<open>References\<close>

definition hasUserMapping :: "identity_obj \<Rightarrow> bool" where
  "hasUserMapping i \<longleftrightarrow> 0 < length (i_UserName i)"

definition identityReferencesUser :: "identity_obj \<Rightarrow> user_obj \<Rightarrow> bool" where
  "identityReferencesUser i u \<longleftrightarrow> i_UserName i = u_Name u \<and> i_UserUID i = u_UID u"

definition userReferencesIdentity :: "user_obj \<Rightarrow> identity_obj \<Rightarrow> bool" where
  "userReferencesIdentity u i \<longleftrightarrow> Has (NewString (u_Identities u)) (i_Name i)"

text \<open>The four functions below return \<open>None\<close> when they modify nothing.\<close>

definition addIdentityToUser :: "identity_obj \<Rightarrow> user_obj \<Rightarrow> user_obj option" where
  "addIdentityToUser i u =
     (let identities = NewString (u_Identities u) in
      if Has identities (i_Name i) then None
      else Some (u\<lparr>u_Identities := SList (Some (Insert (elems identities) [i_Name i]))\<rparr>))"

definition removeIdentityFromUser :: "identity_obj \<Rightarrow> user_obj \<Rightarrow> user_obj option" where
  "removeIdentityFromUser i u =
     (let identities = NewString (u_Identities u) in
      if \<not> Has identities (i_Name i) then None
      else Some (u\<lparr>u_Identities := SList (Delete identities (i_Name i))\<rparr>))"

definition setIdentityUser :: "identity_obj \<Rightarrow> user_obj \<Rightarrow> identity_obj option" where
  "setIdentityUser i u =
     (if identityReferencesUser i u then None
      else Some (i\<lparr>i_UserName := u_Name u, i_UserUID := u_UID u\<rparr>))"

definition unsetIdentityUser :: "identity_obj \<Rightarrow> identity_obj option" where
  "unsetIdentityUser i =
     (if \<not> hasUserMapping i then None else Some (i\<lparr>i_UserName := [], i_UserUID := []\<rparr>))"

definition mappingFor :: "user_obj \<Rightarrow> identity_obj \<Rightarrow> identity_mapping" where
  "mappingFor u i =
     \<lparr>mp_Name = i_Name i, mp_UID = i_UID i, mp_ResourceVersion = i_ResourceVersion i,
      mp_IdentityName = i_Name i, mp_IdentityUID = i_UID i, mp_UserName = u_Name u, mp_UserUID = u_UID u\<rparr>"

section \<open>Related objects\<close>

definition mappingNotFound :: "string \<Rightarrow> go_error" where
  "mappingNotFound name = NotFoundErr ''useridentitymapping'' name"

definition getRelatedObjects ::
  "'s registries \<Rightarrow> string \<Rightarrow> 's
   \<Rightarrow> 's \<times> (go_error + identity_obj) \<times> (go_error + user_obj) \<times> (go_error + identity_mapping)" where
  "getRelatedObjects R name s =
     (case r_GetIdentity R s name of
        (s1, Inl e) \<Rightarrow> (s1, Inl e, Inl (NotFoundErr ''user'' []), Inl (mappingNotFound name))
      | (s1, Inr i) \<Rightarrow>
          if \<not> hasUserMapping i
          then (s1, Inr i, Inl (NotFoundErr ''user'' []), Inl (mappingNotFound name))
          else (case r_GetUser R s1 (i_UserName i) of
                  (s2, Inl e) \<Rightarrow> (s2, Inr i, Inl e, Inl (mappingNotFound name))
                | (s2, Inr u) \<Rightarrow>
                    if \<not> identityReferencesUser i u \<or> \<not> userReferencesIdentity u i
                    then (s2, Inr i, Inr u, Inl (mappingNotFound name))
                    else (s2, Inr i, Inr u, Inr (mappingFor u i))))"

definition mapping_Get ::
  "'s registries \<Rightarrow> string \<Rightarrow> 's \<Rightarrow> 's \<times> (go_error + identity_mapping)" where
  "mapping_Get R name s = (case getRelatedObjects R name s of (s', i, u, m) \<Rightarrow> (s', m))"

section \<open>Validation of mappings\<close>

text \<open>
  \<open>BeforeCreate\<close> and \<open>BeforeUpdate\<close> with the strategy of mappings; the common check of the name asks for
  no more than \<open>ValidateIdentityName\<close>.
\<close>

definition ValidateUserIdentityMapping :: "identity_mapping \<Rightarrow> go_error list" where
  "ValidateUserIdentityMapping m =
     (if mp_Name m = [] then [Errorf ''metadata.name: Required value'' []] else ValidateIdentityName (mp_Name m)) @
     (if mp_IdentityName m = [] then [Errorf ''identity.name: Required value'' []] else []) @
     (if mp_IdentityName m \<noteq> mp_Name m then [Errorf ''identity.name: must match metadata.name'' []] else []) @
     (if mp_UserName m = [] then [Errorf ''user.name: Required value'' []] else [])"

definition mapping_prepare :: "identity_mapping \<Rightarrow> identity_mapping" where
  "mapping_prepare m =
     (let m' = (if mp_Name m = [] then m\<lparr>mp_Name := mp_IdentityName m\<rparr> else m)
      in m'\<lparr>mp_IdentityUID := [], mp_UserUID := []\<rparr>)"

definition mapping_PrepareForCreate :: "identity_mapping \<Rightarrow> identity_mapping" where
  "mapping_PrepareForCreate m = (mapping_prepare m)\<lparr>mp_ResourceVersion := 0\<rparr>"

definition mapping_BeforeCreate :: "string \<Rightarrow> identity_mapping \<Rightarrow> go_error + identity_mapping" where
  "mapping_BeforeCreate uid m =
     (let m' = (mapping_PrepareForCreate m)\<lparr>mp_UID := uid\<rparr>
      in if ValidateUserIdentityMapping m' \<noteq> []
         then Inl (NewInvalid ''useridentitymapping'' (mp_Name m') (ValidateUserIdentityMapping m'))
         else Inr m')"

definition mapping_BeforeUpdate :: "identity_mapping \<Rightarrow> identity_mapping \<Rightarrow> go_error + identity_mapping" where
  "mapping_BeforeUpdate m old =
     (let m1 = mapping_prepare m;
          m2 = (if mp_UID m1 = [] then m1\<lparr>mp_UID := mp_UID old\<rparr> else m1);
          errs = (if mp_ResourceVersion m2 = 0
                  then [Errorf ''metadata.resourceVersion: must be specified for an update'' []] else []) @
                 (if mp_Name m2 \<noteq> mp_Name old then [Errorf ''metadata.name: field is immutable'' []] else []) @
                 (if mp_UID m2 \<noteq> mp_UID old then [Errorf ''metadata.uid: field is immutable'' []] else []) @
                 ValidateUserIdentityMapping m2
      in if errs \<noteq> [] then Inl (NewInvalid ''useridentitymapping'' (mp_Name m2) errs) else Inr m2)"

section \<open>Create and update\<close>

fun error_of :: "go_error + 'a \<Rightarrow> go_error option" where
  "error_of (Inl e) = Some e"
| "error_of (Inr x) = None"

definition serious :: "go_error + 'a \<Rightarrow> bool" where
  "serious r \<longleftrightarrow> (case error_of r of None \<Rightarrow> False | Some e \<Rightarrow> \<not> IsNotFound e)"

text \<open>The checks before anything is written: the mapping to write, or the unchanged old mapping.\<close>

definition mapping_checks ::
  "string \<Rightarrow> identity_mapping \<Rightarrow> bool \<Rightarrow> go_error + identity_mapping
   \<Rightarrow> go_error + (identity_mapping \<times> bool) + identity_mapping" where
  "mapping_checks uid m forceCreate oldMapping =
     (case oldMapping of
        Inr old \<Rightarrow>
          if forceCreate then Inl (AlreadyExistsErr ''useridentitymapping'' (mp_Name old))
          else (case mapping_BeforeUpdate m old of
                  Inl e \<Rightarrow> Inl e
                | Inr m' \<Rightarrow>
                    if 0 < mp_ResourceVersion m' \<and> mp_ResourceVersion m' \<noteq> mp_ResourceVersion old
                    then Inl (ConflictErr ''useridentitymapping'' (mp_Name m'))
                    else if mp_UserName m' = mp_UserName old then Inr (Inr old)
                    else Inr (Inl (m', False)))
      | Inl e \<Rightarrow>
          (case mapping_BeforeCreate uid m of
             Inl e' \<Rightarrow> Inl e'
           | Inr m' \<Rightarrow>
               if 0 < mp_ResourceVersion m' then Inl (NotFoundErr ''useridentitymapping'' (mp_Name m'))
               else Inr (Inl (m', True))))"

definition update_if ::
  "('s \<Rightarrow> 'o \<Rightarrow> 's \<times> (go_error + 'o)) \<Rightarrow> 'o \<Rightarrow> 'o option \<Rightarrow> 's \<Rightarrow> 's \<times> (go_error + 'o)" where
  "update_if upd unchanged changed s =
     (case changed of None \<Rightarrow> (s, Inr unchanged) | Some x \<Rightarrow> upd s x)"

text \<open>The writes: the new user, the identity, the old user.  An error of the last one is logged.\<close>

definition mapping_writes ::
  "'s registries \<Rightarrow> identity_obj \<Rightarrow> user_obj \<Rightarrow> user_obj option \<Rightarrow> 's
   \<Rightarrow> 's \<times> (go_error + identity_mapping)" where
  "mapping_writes R i newUser oldUser s =
     (case update_if (r_UpdateUser R) newUser (addIdentityToUser i newUser) s of
        (s1, Inl e) \<Rightarrow> (s1, Inl e)
      | (s1, Inr _) \<Rightarrow>
          (case update_if (r_UpdateIdentity R) i (setIdentityUser i newUser) s1 of
             (s2, Inl e) \<Rightarrow> (s2, Inl e)
           | (s2, Inr i') \<Rightarrow>
               let s3 = (case oldUser of
                           None \<Rightarrow> s2
                         | Some old \<Rightarrow>
                             (case removeIdentityFromUser i' old of
                                None \<Rightarrow> s2 | Some old' \<Rightarrow> fst (r_UpdateUser R s2 old')))
               in (s3, Inr (mappingFor newUser i'))))"

definition createOrUpdate ::
  "'s registries \<Rightarrow> string \<Rightarrow> identity_mapping \<Rightarrow> bool \<Rightarrow> 's
   \<Rightarrow> 's \<times> (go_error + identity_mapping \<times> bool)" where
  "createOrUpdate R uid m forceCreate s =
     (case getRelatedObjects R (mp_Name m) s of
        (s1, ident, oldUser, oldMapping) \<Rightarrow>
          if serious oldMapping then (s1, Inl (the (error_of oldMapping)))
          else if serious ident then (s1, Inl (the (error_of ident)))
          else if serious oldUser then (s1, Inl (the (error_of oldUser)))
          else (case mapping_checks uid m forceCreate oldMapping of
                  Inl e \<Rightarrow> (s1, Inl e)
                | Inr (Inr old) \<Rightarrow> (s1, Inr (old, False))
                | Inr (Inl (m', creating)) \<Rightarrow>
                    (case ident of
                       Inl e \<Rightarrow> (s1, Inl (NewInvalid ''UserIdentityMapping'' (mp_Name m')
                         [Errorf ''identity.name: referenced identity does not exist'' []]))
                     | Inr i \<Rightarrow>
                         (case r_GetUser R s1 (mp_UserName m') of
                            (s2, Inl e) \<Rightarrow>
                              (s2, Inl (if IsNotFound e
                                 then NewInvalid ''UserIdentityMapping'' (mp_Name m')
                                   [Errorf ''user.name: referenced user does not exist'' []]
                                 else e))
                          | (s2, Inr newUser) \<Rightarrow>
                              (case mapping_writes R i newUser
                                 (case oldUser of Inl e \<Rightarrow> None | Inr u \<Rightarrow> Some u) s2 of
                                 (s3, Inl e) \<Rightarrow> (s3, Inl e)
                               | (s3, Inr mapping) \<Rightarrow> (s3, Inr (mapping, creating)))))))"

definition mapping_Create ::
  "'s registries \<Rightarrow> string \<Rightarrow> identity_mapping \<Rightarrow> 's \<Rightarrow> 's \<times> (go_error + identity_mapping)" where
  "mapping_Create R uid m s =
     (case createOrUpdate R uid (mapping_PrepareForCreate m) True s of
        (s', Inl e) \<Rightarrow> (s', Inl e) | (s', Inr (mapping, _)) \<Rightarrow> (s', Inr mapping))"

definition mapping_Update ::
  "'s registries \<Rightarrow> string \<Rightarrow> identity_mapping \<Rightarrow> 's \<Rightarrow> 's \<times> (go_error + identity_mapping \<times> bool)" where
  "mapping_Update R uid m s = createOrUpdate R uid (mapping_prepare m) False s"

definition mapping_Delete :: "'s registries \<Rightarrow> string \<Rightarrow> 's \<Rightarrow> 's \<times> go_error option" where
  "mapping_Delete R name s =
     (case getRelatedObjects R name s of
        (s1, Inr i, Inr u, Inr m) \<Rightarrow>
          (case update_if (r_UpdateUser R) u (removeIdentityFromUser i u) s1 of
             (s2, Inl e) \<Rightarrow> (s2, Some e)
           | (s2, Inr _) \<Rightarrow> (fst (update_if (r_UpdateIdentity R) i (unsetIdentityUser i) s2), None))
      | (s1, _, _, Inl e) \<Rightarrow> (s1, Some e)
      | (s1, _, _, Inr m) \<Rightarrow> (s1, None))"

section \<open>What a mapping is\<close>

definition maps_to ::
  "(string \<Rightarrow> user_obj option) \<Rightarrow> (string \<Rightarrow> identity_obj option) \<Rightarrow> string \<Rightarrow> string \<Rightarrow> bool" where
  "maps_to us is iname uname \<longleftrightarrow>
     (\<exists>i u. is iname = Some i \<and> us uname = Some u \<and> uname \<noteq> [] \<and> i_UserName i = uname \<and>
        i_UserUID i = u_UID u \<and> iname \<in> set (u_Identities u))"

text \<open>
  The identity references a user of the same name but of another UID, which lists the identity: what
  is left when the user was deleted and created again from a copy.
\<close>

definition stale_reference ::
  "(string \<Rightarrow> user_obj option) \<Rightarrow> (string \<Rightarrow> identity_obj option) \<Rightarrow> string \<Rightarrow> string \<Rightarrow> bool" where
  "stale_reference us is iname uname \<longleftrightarrow>
     (\<exists>i u. is iname = Some i \<and> us uname = Some u \<and> i_UserName i = uname \<and>
        i_UserUID i \<noteq> u_UID u \<and> iname \<in> set (u_Identities u))"

lemma maps_to_unique: "maps_to us is n u \<Longrightarrow> maps_to us is n v \<Longrightarrow> u = v"
  by (auto simp: maps_to_def)

lemma addIdentity_simps:
  "addIdentityToUser i u = Some u' \<Longrightarrow> u_Name u' = u_Name u \<and> u_UID u' = u_UID u \<and>
     set (u_Identities u') = insert (i_Name i) (set (u_Identities u))"
  "addIdentityToUser i u = None \<longleftrightarrow> i_Name i \<in> set (u_Identities u)"
  by (auto simp: addIdentityToUser_def Let_def gset_simps split: if_splits)

lemma removeIdentity_simps:
  "removeIdentityFromUser i u = Some u' \<Longrightarrow> u_Name u' = u_Name u \<and> u_UID u' = u_UID u \<and>
     set (u_Identities u') = set (u_Identities u) - {i_Name i}"
  "removeIdentityFromUser i u = None \<longleftrightarrow> i_Name i \<notin> set (u_Identities u)"
  by (auto simp: removeIdentityFromUser_def Let_def gset_simps Delete_def NewString_def split: if_splits)

lemma setIdentityUser_simps:
  "setIdentityUser i u = Some i' \<Longrightarrow> i_Name i' = i_Name i \<and> i_UserName i' = u_Name u \<and> i_UserUID i' = u_UID u"
  "setIdentityUser i u = None \<longleftrightarrow> i_UserName i = u_Name u \<and> i_UserUID i = u_UID u"
  by (auto simp: setIdentityUser_def identityReferencesUser_def split: if_splits)

section \<open>What the operations establish\<close>

context identity_registries
begin

lemma related:
  assumes "getRelatedObjects R n s = (s', gi, gu, gm)"
  shows "users s' = users s \<and> ids s' = ids s \<and>
    (\<forall>i. gi = Inr i \<longrightarrow> ids s n = Some i) \<and>
    (\<forall>u. gu = Inr u \<longrightarrow> (\<exists>i. gi = Inr i \<and> i_UserName i \<noteq> [] \<and> users s (i_UserName i) = Some u)) \<and>
    (\<forall>m. gm = Inr m \<longrightarrow> (\<exists>i u. gi = Inr i \<and> gu = Inr u \<and> m = mappingFor u i \<and>
       i_UserUID i = u_UID u \<and> n \<in> set (u_Identities u)))"
proof -
  obtain s1 r where gi: "r_GetIdentity R s n = (s1, r)" by fastforce
  note i = GetIdentity [OF gi]
  show ?thesis
  proof (cases "\<exists>i. r = Inr i \<and> hasUserMapping i")
    case False
    then show ?thesis using assms gi i by (cases r) (auto simp: getRelatedObjects_def)
  next
    case True
    then obtain x where x: "r = Inr x" "hasUserMapping x" by blast
    obtain s2 r2 where gu2: "r_GetUser R s1 (i_UserName x) = (s2, r2)" by fastforce
    have "i_Name x = n" using i x identity_keyed by blast
    then show ?thesis
      using assms gi i x gu2 GetUser [OF gu2]
      by (cases r2) (auto simp: getRelatedObjects_def hasUserMapping_def identityReferencesUser_def
          userReferencesIdentity_def gset_simps split: if_splits)
  qed
qed

lemma related_maps_to:
  assumes "getRelatedObjects R n s = (s', gi, gu, Inr m)"
  shows "maps_to (users s) (ids s) n (mp_UserName m)"
proof -
  obtain i u where iu: "gi = Inr i" "gu = Inr u" "m = mappingFor u i" "i_UserUID i = u_UID u" "n \<in> set (u_Identities u)"
    "ids s n = Some i" "users s (i_UserName i) = Some u" "i_UserName i \<noteq> []"
    using related [OF assms] by auto
  have "u_Name u = i_UserName i" using user_keyed iu(7) .
  then show ?thesis
    using iu by (auto simp: maps_to_def mappingFor_def intro!: exI [of _ i] exI [of _ u])
qed

text \<open>The writes leave the identity mapped to the new user unless the old user is that user.\<close>

lemma first_write:
  assumes "update_if (r_UpdateUser R) u (addIdentityToUser i u) s = (s1, Inr x)"
    "users s (u_Name u) = Some u" "ids s (i_Name i) = Some i"
  shows "ids s1 = ids s \<and> (\<exists>u1. users s1 = (users s)(u_Name u \<mapsto> u1) \<and> u_UID u1 = u_UID u \<and>
    i_Name i \<in> set (u_Identities u1) \<and> (u1 = u \<or> i_Name i \<notin> set (u_Identities u)))"
proof (cases "addIdentityToUser i u")
  case None
  then have "s1 = s" "x = u" using assms(1) by (simp_all add: update_if_def)
  moreover have "i_Name i \<in> set (u_Identities u)" using None addIdentity_simps(2) by blast
  moreover have "users s = (users s)(u_Name u \<mapsto> u)" using assms(2) by auto
  ultimately show ?thesis by (intro conjI exI [of _ u]) simp_all
next
  case (Some u')
  note add = addIdentity_simps(1) [OF Some]
  have "i_Name i \<notin> set (u_Identities u)" using addIdentity_simps(2) [of i u] Some by auto
  moreover have "r_UpdateUser R s u' = (s1, Inr x)" using assms(1) Some by (simp add: update_if_def)
  ultimately show ?thesis using UpdateUser [of s u' s1 x] add assms(2) by auto
qed

lemma second_write:
  assumes "update_if (r_UpdateIdentity R) i (setIdentityUser i u) s = (s1, Inr i')"
    "ids s (i_Name i) = Some i"
  shows "users s1 = users s \<and> ids s1 = (ids s)(i_Name i \<mapsto> i') \<and> i_Name i' = i_Name i \<and>
    i_UserName i' = u_Name u \<and> i_UserUID i' = u_UID u"
proof (cases "setIdentityUser i u")
  case None
  then have "s1 = s" "i' = i" using assms(1) by (simp_all add: update_if_def)
  moreover have "i_UserName i = u_Name u \<and> i_UserUID i = u_UID u" using None setIdentityUser_simps(2) by blast
  moreover have "ids s = (ids s)(i_Name i \<mapsto> i)" using assms(2) by auto
  ultimately show ?thesis by (intro conjI) simp_all
next
  case (Some i1)
  then show ?thesis
    using assms UpdateIdentity [of s i1 s1 i'] setIdentityUser_simps(1) [OF Some] by (auto simp: update_if_def)
qed

lemma writes_map:
  assumes "mapping_writes R i u oldUser s = (s', Inr m)"
    and stored: "users s (u_Name u) = Some u" "ids s (i_Name i) = Some i" "u_Name u \<noteq> []"
    and old: "\<And>v. oldUser = Some v \<Longrightarrow> u_Name v \<noteq> u_Name u \<or> i_Name i \<notin> set (u_Identities v)"
  shows "maps_to (users s') (ids s') (i_Name i) (u_Name u) \<and> mp_UserName m = u_Name u"
proof -
  obtain s1 x where w1: "update_if (r_UpdateUser R) u (addIdentityToUser i u) s = (s1, Inr x)"
    using assms(1) by (auto simp: mapping_writes_def split: prod.splits sum.splits)
  note f = first_write [OF w1 stored(1,2)]
  obtain s2 i' where w2: "update_if (r_UpdateIdentity R) i (setIdentityUser i u) s1 = (s2, Inr i')"
    using assms(1) w1 by (auto simp: mapping_writes_def split: prod.splits sum.splits)
  have "ids s1 (i_Name i) = Some i" using f stored(2) by simp
  note g = second_write [OF w2 this]
  have m: "m = mappingFor u i'"
    and s': "s' = (case oldUser of None \<Rightarrow> s2
      | Some v \<Rightarrow> (case removeIdentityFromUser i' v of None \<Rightarrow> s2 | Some v' \<Rightarrow> fst (r_UpdateUser R s2 v')))"
    using assms(1) w1 w2 by (auto simp: mapping_writes_def Let_def)
  have two: "maps_to (users s2) (ids s2) (i_Name i) (u_Name u)"
    using f g stored(3) by (auto simp: maps_to_def)
  have "users s' (u_Name u) = users s2 (u_Name u) \<and> ids s' = ids s2"
  proof (cases "\<exists>v v'. oldUser = Some v \<and> removeIdentityFromUser i' v = Some v'")
    case False
    then show ?thesis by (auto simp: s' split: option.splits)
  next
    case True
    then obtain v v' where v: "oldUser = Some v" "removeIdentityFromUser i' v = Some v'" by blast
    obtain r where u: "r_UpdateUser R s2 v' = (s', r)" using v by (cases "r_UpdateUser R s2 v'") (simp add: s')
    have "u_Name v' \<noteq> u_Name u"
      using old [OF v(1)] removeIdentity_simps(1) [OF v(2)] removeIdentity_simps(2) [of i' v] v(2) g by auto
    then show ?thesis
      using u UpdateUser [of s2 v' s'] failed(2) [of s2 v' s'] by (cases r) fastforce+
  qed
  then show ?thesis using two m by (auto simp: maps_to_def mappingFor_def)
qed

lemma checks_user: 
  assumes "mapping_checks uid m fc r = Inr (Inl (m', c))"
  shows "mp_UserName m' = mp_UserName m \<and> mp_UserName m' \<noteq> [] \<and> mp_Name m' = (if mp_Name m = [] then mp_IdentityName m else mp_Name m) \<and>
    (\<forall>old. r = Inr old \<longrightarrow> mp_UserName m' \<noteq> mp_UserName old)"
proof (cases r)
  case (Inl e)
  then have "mapping_BeforeCreate uid m = Inr m'"
    using assms by (auto simp: mapping_checks_def split: sum.splits if_splits)
  then show ?thesis using Inl
    by (auto simp: mapping_BeforeCreate_def mapping_PrepareForCreate_def mapping_prepare_def Let_def
        ValidateUserIdentityMapping_def split: if_splits)
next
  case (Inr old)
  then have "mapping_BeforeUpdate m old = Inr m'" "mp_UserName m' \<noteq> mp_UserName old"
    using assms by (auto simp: mapping_checks_def split: sum.splits if_splits)
  then show ?thesis using Inr
    by (auto simp: mapping_BeforeUpdate_def mapping_prepare_def Let_def
        ValidateUserIdentityMapping_def split: if_splits)
qed

lemma createOrUpdate_maps:
  assumes res: "createOrUpdate R uid m fc s = (s', Inr (mapping, c))"
    and fresh: "\<not> stale_reference (users s) (ids s) (mp_Name m) (mp_UserName m)"
  shows "maps_to (users s') (ids s') (mp_Name m) (mp_UserName m) \<and> mp_UserName mapping = mp_UserName m"
proof -
  obtain s1 gi gu gm where rel: "getRelatedObjects R (mp_Name m) s = (s1, gi, gu, gm)"
    using prod_cases4 by blast
  note r = related [OF rel]
  have ns: "\<not> serious gm" "\<not> serious gi" "\<not> serious gu"
    using res rel by (auto simp: createOrUpdate_def split: if_splits)
  from res rel ns consider
      (same) old where "mapping_checks uid m fc gm = Inr (Inr old)" "s' = s1" "mapping = old"
    | (writes) m' i s2 u where "mapping_checks uid m fc gm = Inr (Inl (m', c))" "gi = Inr i"
        "r_GetUser R s1 (mp_UserName m') = (s2, Inr u)"
        "mapping_writes R i u (case gu of Inl e \<Rightarrow> None | Inr v \<Rightarrow> Some v) s2 = (s', Inr mapping)"
    by (auto simp: createOrUpdate_def split: sum.splits prod.splits if_splits)
  then show ?thesis
  proof cases
    case same
    then obtain m' where old: "gm = Inr old" "mapping_BeforeUpdate m old = Inr m'" "mp_UserName m' = mp_UserName old"
      by (auto simp: mapping_checks_def split: sum.splits if_splits)
    then have "mp_UserName old = mp_UserName m"
      by (auto simp: mapping_BeforeUpdate_def mapping_prepare_def Let_def split: if_splits)
    then show ?thesis using related_maps_to rel old(1) r same by metis
  next
    case writes
    note c = checks_user [OF writes(1)]
    have i: "ids s2 (mp_Name m) = Some i" and u: "users s2 (mp_UserName m) = Some u"
      using r writes(2) GetUser [OF writes(3)] c by auto
    have names: "i_Name i = mp_Name m" "u_Name u = mp_UserName m"
      using identity_keyed [OF i] user_keyed [OF u] .
    have old: "u_Name v \<noteq> u_Name u \<or> i_Name i \<notin> set (u_Identities v)"
      if v: "(case gu of Inl e \<Rightarrow> None | Inr v \<Rightarrow> Some v) = Some v" for v
    proof (rule ccontr)
      assume "\<not> ?thesis"
      then have a: "u_Name v = mp_UserName m" "mp_Name m \<in> set (u_Identities v)" using names by auto
      from v have gu: "gu = Inr v" by (cases gu) auto
      then have "users s (i_UserName i) = Some v" "i_UserName i \<noteq> []" "ids s (mp_Name m) = Some i" using r writes(2) by auto
      moreover from this have "i_UserName i = mp_UserName m" using user_keyed a by fastforce
      moreover from calculation have "i_UserUID i = u_UID v" using fresh a unfolding stale_reference_def by auto
      ultimately have "gm = Inr (mappingFor v i)"
        using rel gu writes(2) a names user_keyed
        by (auto simp: getRelatedObjects_def identityReferencesUser_def userReferencesIdentity_def gset_simps
            split: prod.splits sum.splits if_splits)
      then show False using c a by (auto simp: mappingFor_def)
    qed
    from writes_map [OF writes(4) _ _ _ old] show ?thesis
      using i u names c by auto
  qed
qed

lemma Delete_unmaps:
  assumes "mapping_Delete R n s = (s', None)"
  shows "\<not> maps_to (users s') (ids s') n v"
proof -
  obtain s1 gi gu gm where rel: "getRelatedObjects R n s = (s1, gi, gu, gm)"
    using prod_cases4 by blast
  note r = related [OF rel]
  obtain m where m: "gm = Inr m" using assms rel by (cases gm; cases gi; cases gu) (auto simp: mapping_Delete_def)
  then obtain i u where iu: "gi = Inr i" "gu = Inr u" "n \<in> set (u_Identities u)" "ids s n = Some i"
    "users s (i_UserName i) = Some u" "i_UserName i \<noteq> []"
    using r by auto
  have names: "i_Name i = n" "u_Name u = i_UserName i" using identity_keyed [OF iu(4)] user_keyed [OF iu(5)] .
  obtain u' where u': "removeIdentityFromUser i u = Some u'"
    using removeIdentity_simps(2) [of i u] iu(3) names by auto
  note rm = removeIdentity_simps(1) [OF u']
  obtain s2 z where z: "r_UpdateUser R s1 u' = (s2, z)" by fastforce
  have del: "mapping_Delete R n s = (case z of Inl e \<Rightarrow> (s2, Some e)
      | Inr _ \<Rightarrow> (fst (update_if (r_UpdateIdentity R) i (unsetIdentityUser i) s2), None))"
    by (simp add: mapping_Delete_def rel m iu update_if_def [of "r_UpdateUser R"] u' z)
  obtain x where x: "z = Inr x" using del assms by (cases z) simp_all
  have w: "r_UpdateUser R s1 u' = (s2, Inr x)" using z x by simp
  have s': "s' = fst (update_if (r_UpdateIdentity R) i (unsetIdentityUser i) s2)"
    using del assms x by simp
  have nm: "u_Name u' = i_UserName i" using rm names(2) by simp
  obtain old where upd: "users s2 = (users s1)(u_Name u' \<mapsto> x)" "ids s2 = ids s1" "u_Identities x = u_Identities u'"
    using UpdateUser [OF w] by blast
  have two: "users s2 = (users s1)(i_UserName i \<mapsto> x)" using upd(1) nm by simp
  have gone: "n \<notin> set (u_Identities x)" using rm names(1) upd(3) by simp
  obtain i1 where "unsetIdentityUser i = Some i1" "i_UserName i1 = []" "i_Name i1 = n"
    using iu(6) names by (auto simp: unsetIdentityUser_def hasUserMapping_def)
  moreover obtain r' where "r_UpdateIdentity R s2 i1 = (s', r')"
    using s' calculation(1) by (cases "r_UpdateIdentity R s2 i1") (simp add: update_if_def)
  ultimately have "users s' = users s2 \<and> (ids s' = ids s2 \<or> (\<exists>y. ids s' n = Some y \<and> i_UserName y = []))"
    using UpdateIdentity [of s2 i1 s'] failed(4) [of s2 i1 s'] by (cases r') auto
  then show ?thesis using two upd(2) gone iu(4,5) r by (auto simp: maps_to_def)
qed

end

section \<open>Properties of the mapping\<close>

text \<open>
  An update of a mapping that succeeds, even when the cleanup of the old user fails, leaves the
  identity mapped to the requested user, unless the identity references an earlier user of that name.
\<close>

theorem mapping_update_maps:
  assumes "mapping_Update (store_registries uuid) uid m s = (s', Inr (mapping, created))"
    "\<not> stale_reference (stored_users s) (stored_identities s) (mp_Name (mapping_prepare m)) (mp_UserName m)"
  shows "maps_to (stored_users s') (stored_identities s') (mp_Name (mapping_prepare m)) (mp_UserName m) \<and>
    mp_UserName mapping = mp_UserName m"
proof -
  have n: "mp_UserName (mapping_prepare m) = mp_UserName m" by (simp add: mapping_prepare_def Let_def)
  show ?thesis
    using world.createOrUpdate_maps [OF assms(1) [unfolded mapping_Update_def]] assms(2) n by simp
qed

definition demo_user :: "string \<Rightarrow> string \<Rightarrow> string list \<Rightarrow> nat \<Rightarrow> user_obj" where
  "demo_user name uid identities v =
     \<lparr>u_Name = name, u_UID = uid, u_ResourceVersion = v, u_FullName = [], u_Identities = identities, u_Groups = []\<rparr>"

definition demo_identity :: "string \<Rightarrow> string \<Rightarrow> identity_obj" where
  "demo_identity uname uid =
     \<lparr>i_Name = ''idp:bob'', i_UID = ''i1'', i_ResourceVersion = 1, i_ProviderName = ''idp'',
      i_ProviderUserName = ''bob'', i_UserName = uname, i_UserUID = uid, i_Extra = []\<rparr>"

definition demo_mapping :: "string \<Rightarrow> nat \<Rightarrow> identity_mapping" where
  "demo_mapping uname v =
     \<lparr>mp_Name = ''idp:bob'', mp_UID = [], mp_ResourceVersion = v, mp_IdentityName = ''idp:bob'',
      mp_IdentityUID = [], mp_UserName = uname, mp_UserUID = []\<rparr>"

definition demo_stores :: "user_obj list \<Rightarrow> identity_obj list \<Rightarrow> id_world" where
  "demo_stores us is =
     \<lparr>w_Users = \<lparr>st_Objects = us, st_Revision = 9\<rparr>, w_Identities = \<lparr>st_Objects = is, st_Revision = 9\<rparr>,
      w_Faults = []\<rparr>"

text \<open>An identity mapped to one user is mapped to another.\<close>

definition remapped :: "id_world \<times> (go_error + identity_mapping \<times> bool)" where
  "remapped = mapping_Update (store_registries (\<lambda>_. ''x'')) ''m'' (demo_mapping ''al'' 1)
     (demo_stores [demo_user ''bob'' ''u1'' [''idp:bob''] 3, demo_user ''al'' ''u2'' [] 4] [demo_identity ''bob'' ''u1''])"

definition remade :: "id_world \<times> (go_error + identity_mapping \<times> bool)" where
  "remade = mapping_Update (store_registries (\<lambda>_. ''x'')) ''m'' (demo_mapping ''bob'' 0)
     (demo_stores [demo_user ''bob'' ''u2'' [''idp:bob''] 3] [demo_identity ''bob'' ''u1''])"

lemma mapping_update_maps_witness:
  "maps_to (stored_users (fst remapped)) (stored_identities (fst remapped)) ''idp:bob'' ''al''"
proof -
  have run: "snd remapped = Inr (mappingFor (demo_user ''al'' ''u2'' [''idp:bob''] 10)
      (demo_identity ''al'' ''u2''\<lparr>i_ResourceVersion := 10\<rparr>), False)"
    by code_simp
  have "mapping_Update (store_registries (\<lambda>_. ''x'')) ''m'' (demo_mapping ''al'' 1)
     (demo_stores [demo_user ''bob'' ''u1'' [''idp:bob''] 3, demo_user ''al'' ''u2'' [] 4] [demo_identity ''bob'' ''u1''])
     = (fst remapped, Inr (mappingFor (demo_user ''al'' ''u2'' [''idp:bob''] 10)
      (demo_identity ''al'' ''u2''\<lparr>i_ResourceVersion := 10\<rparr>), False))"
    unfolding run [symmetric] by (simp add: remapped_def)
  note m = mapping_update_maps [OF this]
  have "\<not> stale_reference (stored_users (demo_stores [demo_user ''bob'' ''u1'' [''idp:bob''] 3, demo_user ''al'' ''u2'' [] 4] [demo_identity ''bob'' ''u1'']))
      (stored_identities (demo_stores [demo_user ''bob'' ''u1'' [''idp:bob''] 3, demo_user ''al'' ''u2'' [] 4] [demo_identity ''bob'' ''u1'']))
      (mp_Name (mapping_prepare (demo_mapping ''al'' 1))) (mp_UserName (demo_mapping ''al'' 1))"
    by (simp add: stale_reference_def stored_users_def storage_lookup_def demo_stores_def demo_user_def demo_mapping_def)
  from m [OF this] show ?thesis by (simp add: mapping_prepare_def demo_mapping_def)
qed

text \<open>
  When a user that lists an identity was created anew, mapping the identity to it again reports
  success but removes the identity from the user, and no mapping exists.
\<close>

theorem recreated_user_loses_identity:
  "snd remade = Inr (mappingFor (demo_user ''bob'' ''u2'' [''idp:bob''] 3)
     (demo_identity ''bob'' ''u2''\<lparr>i_ResourceVersion := 10\<rparr>), True) \<and>
   map_option u_Identities (stored_users (fst remade) ''bob'') = Some [] \<and>
   \<not> maps_to (stored_users (fst remade)) (stored_identities (fst remade)) ''idp:bob'' ''bob''"
proof -
  have r: "snd remade = Inr (mappingFor (demo_user ''bob'' ''u2'' [''idp:bob''] 3)
     (demo_identity ''bob'' ''u2''\<lparr>i_ResourceVersion := 10\<rparr>), True)"
    by code_simp
  have u: "stored_users (fst remade) ''bob'' = Some (demo_user ''bob'' ''u2'' [] 10)"
    by code_simp
  have n: "u_Identities (demo_user ''bob'' ''u2'' [] 10) = []" by (simp add: demo_user_def)
  show ?thesis using r by (simp add: maps_to_def u n)
qed

end
