(* ===== verification/Identity_Mapper.thy ===== *)
theory Identity_Mapper
  imports Identity_Mapping
begin

text \<open>
  The user of an identity at login (\<open>origin/pkg/auth/userregistry/identitymapper\<close>): the mapper that
  only looks users up and the one that creates them, with the strategies claim, add and generate and
  the initialization of users (\<open>origin/pkg/user/initializer.go\<close>).  The code runs over a record of
  registry calls, so the same definitions describe a login alone and a login among others, whose
  calls come between its own.
\<close>

section \<open>Identity information\<close>

record identity_info =
  in_ProviderName :: string
  in_ProviderUserName :: string
  in_Extra :: "(string \<times> string) list"

definition GetIdentityName :: "identity_info \<Rightarrow> string" where
  "GetIdentityName info = in_ProviderName info @ '':'' @ in_ProviderUserName info"

definition IdentityDisplayNameKey :: string where "IdentityDisplayNameKey = ''name''"
definition IdentityPreferredUsernameKey :: string where
  "IdentityPreferredUsernameKey = ''preferred_username''"

definition getPreferredUserName :: "identity_obj \<Rightarrow> string" where
  "getPreferredUserName identity =
     (case map_of (i_Extra identity) IdentityPreferredUsernameKey of
        Some login \<Rightarrow> if 0 < length login then login else i_ProviderUserName identity
      | None \<Rightarrow> i_ProviderUserName identity)"

text \<open>A missing key of the extra map reads as the empty string.\<close>

definition InitializeUser :: "identity_obj \<Rightarrow> user_obj \<Rightarrow> user_obj" where
  "InitializeUser identity user =
     (if length (u_FullName user) = 0
      then user\<lparr>u_FullName := (case map_of (i_Extra identity) IdentityDisplayNameKey of None \<Rightarrow> [] | Some x \<Rightarrow> x)\<rparr>
      else user)"

definition desired_user :: "string \<Rightarrow> identity_obj \<Rightarrow> user_obj" where
  "desired_user name identity =
     InitializeUser identity
       \<lparr>u_Name = name, u_UID = [], u_ResourceVersion = 0, u_FullName = [],
        u_Identities = [i_Name identity], u_Groups = []\<rparr>"

section \<open>Strategies for new identities\<close>

type_synonym 's user_getter = "string \<Rightarrow> identity_obj \<Rightarrow> 's \<Rightarrow> 's \<times> (go_error + user_obj)"

definition claim_error_format :: string where
  "claim_error_format = ''user %q cannot be claimed by identity %q because it is already mapped to %v''"

definition NewClaimError :: "user_obj \<Rightarrow> identity_obj \<Rightarrow> go_error" where
  "NewClaimError user identity =
     Errorf claim_error_format ([u_Name user, i_Name identity] @ u_Identities user)"

definition StrategyAdd :: "'s registries \<Rightarrow> 's user_getter" where
  "StrategyAdd R preferredUserName identity s =
     (case r_GetUser R s preferredUserName of
        (s1, Inl e) \<Rightarrow>
          if IsNotFound e then r_CreateUser R s1 (desired_user preferredUserName identity)
          else (s1, Inl e)
      | (s1, Inr persistedUser) \<Rightarrow>
          if Has (NewString (u_Identities persistedUser)) (i_Name identity) then (s1, Inr persistedUser)
          else
            let user = persistedUser\<lparr>u_Identities := u_Identities persistedUser @ [i_Name identity]\<rparr>;
                user' = (if length (u_Identities user) = 1 then InitializeUser identity user else user)
            in r_UpdateUser R s1 user')"

definition StrategyClaim :: "'s registries \<Rightarrow> 's user_getter" where
  "StrategyClaim R preferredUserName identity s =
     (case r_GetUser R s preferredUserName of
        (s1, Inl e) \<Rightarrow>
          if IsNotFound e then r_CreateUser R s1 (desired_user preferredUserName identity)
          else (s1, Inl e)
      | (s1, Inr persistedUser) \<Rightarrow>
          if Has (NewString (u_Identities persistedUser)) (i_Name identity) then (s1, Inr persistedUser)
          else if length (u_Identities persistedUser) = 0
          then r_UpdateUser R s1 (InitializeUser identity (persistedUser\<lparr>u_Identities := [i_Name identity]\<rparr>))
          else (s1, Inl (NewClaimError persistedUser identity)))"

definition MaxGenerateAttempts :: nat where "MaxGenerateAttempts = 100"

definition DefaultGenerator :: "string \<Rightarrow> nat \<Rightarrow> string" where
  "DefaultGenerator base sequence = (if sequence = 0 then base else base @ decimal (sequence + 1))"

fun generate_loop ::
  "'s registries \<Rightarrow> (string \<Rightarrow> nat \<Rightarrow> string) \<Rightarrow> string \<Rightarrow> identity_obj \<Rightarrow> nat list \<Rightarrow> 's
   \<Rightarrow> 's \<times> (go_error + user_obj)" where
  "generate_loop R generator base identity [] s =
     (s, Inl (Errorf ''Could not create user, max attempts exceeded'' []))"
| "generate_loop R generator base identity (sequence # rest) s =
     (case r_GetUser R s (generator base sequence) of
        (s1, Inl e) \<Rightarrow>
          if IsNotFound e then r_CreateUser R s1 (desired_user (generator base sequence) identity)
          else (s1, Inl e)
      | (s1, Inr persistedUser) \<Rightarrow>
          if Has (NewString (u_Identities persistedUser)) (i_Name identity) then (s1, Inr persistedUser)
          else generate_loop R generator base identity rest s1)"

definition StrategyGenerate :: "'s registries \<Rightarrow> 's user_getter" where
  "StrategyGenerate R preferredUserName identity s =
     generate_loop R DefaultGenerator preferredUserName identity [0..<MaxGenerateAttempts] s"

section \<open>Mappers\<close>

definition user_DefaultInfo :: "user_obj \<Rightarrow> user_info" where
  "user_DefaultInfo u = \<lparr>ui_name = u_Name u, ui_uid = u_UID u, ui_groups = u_Groups u, ui_extra = []\<rparr>"

definition new_identity :: "identity_info \<Rightarrow> identity_obj" where
  "new_identity info =
     \<lparr>i_Name = GetIdentityName info, i_UID = [], i_ResourceVersion = 0,
      i_ProviderName = in_ProviderName info, i_ProviderUserName = in_ProviderUserName info,
      i_UserName = [], i_UserUID = [], i_Extra = in_Extra info\<rparr>"

definition createIdentityAndMapping ::
  "'s registries \<Rightarrow> 's user_getter \<Rightarrow> identity_info \<Rightarrow> 's \<Rightarrow> 's \<times> (go_error + user_info)" where
  "createIdentityAndMapping R strategy info s =
     (let identity = new_identity info in
      case strategy (getPreferredUserName identity) identity s of
        (s1, Inl e) \<Rightarrow> (s1, Inl e)
      | (s1, Inr persistedUser) \<Rightarrow>
          (case r_CreateIdentity R s1
                  (identity\<lparr>i_UserName := u_Name persistedUser, i_UserUID := u_UID persistedUser\<rparr>) of
             (s2, Inl e) \<Rightarrow> (s2, Inl e)
           | (s2, Inr _) \<Rightarrow> (s2, Inr (user_DefaultInfo persistedUser))))"

definition getMapping :: "'s registries \<Rightarrow> identity_obj \<Rightarrow> 's \<Rightarrow> 's \<times> (go_error + user_info)" where
  "getMapping R identity s =
     (if length (i_UserName identity) = 0 then (s, Inl (mappingNotFound (i_Name identity)))
      else (case r_GetUser R s (i_UserName identity) of
              (s1, Inl e) \<Rightarrow> (s1, Inl e)
            | (s1, Inr u) \<Rightarrow>
                if u_UID u \<noteq> i_UserUID identity then (s1, Inl (mappingNotFound (i_Name identity)))
                else if \<not> Has (NewString (u_Identities u)) (i_Name identity)
                then (s1, Inl (mappingNotFound (i_Name identity)))
                else (s1, Inr (user_DefaultInfo u))))"

fun userForWithRetries ::
  "'s registries \<Rightarrow> 's user_getter \<Rightarrow> identity_info \<Rightarrow> nat \<Rightarrow> 's \<Rightarrow> 's \<times> (go_error + user_info)" where
  "userForWithRetries R strategy info allowedRetries s =
     (case r_GetIdentity R s (GetIdentityName info) of
        (s1, Inl e) \<Rightarrow>
          if IsNotFound e then
            (case createIdentityAndMapping R strategy info s1 of
               (s2, Inl e') \<Rightarrow>
                 if (IsAlreadyExists e' \<or> IsConflict e') \<and> allowedRetries > 0
                 then userForWithRetries R strategy info (allowedRetries - 1) s2
                 else (s2, Inl e')
             | (s2, Inr ui) \<Rightarrow> (s2, Inr ui))
          else (s1, Inl e)
      | (s1, Inr identity) \<Rightarrow> getMapping R identity s1)"

declare userForWithRetries.simps [simp del]

definition provisioning_UserFor ::
  "'s registries \<Rightarrow> 's user_getter \<Rightarrow> identity_info \<Rightarrow> 's \<Rightarrow> 's \<times> (go_error + user_info)" where
  "provisioning_UserFor R strategy info s = userForWithRetries R strategy info 3 s"

definition lookup_error_format :: string where
  "lookup_error_format = ''lookup of user for %q failed: %v''"

definition NewLookupError :: "identity_info \<Rightarrow> go_error \<Rightarrow> go_error" where
  "NewLookupError info err = ErrorfE lookup_error_format [GetIdentityName info] [err]"

definition lookup_UserFor ::
  "'s registries \<Rightarrow> identity_info \<Rightarrow> 's \<Rightarrow> 's \<times> (go_error + user_info)" where
  "lookup_UserFor R info s =
     (case mapping_Get R (GetIdentityName info) s of
        (s1, Inl e) \<Rightarrow> (s1, Inl (NewLookupError info e))
      | (s1, Inr mapping) \<Rightarrow>
          (case r_GetUser R s1 (mp_UserName mapping) of
             (s2, Inl e) \<Rightarrow> (s2, Inl (NewLookupError info e))
           | (s2, Inr u) \<Rightarrow> (s2, Inr (user_DefaultInfo u))))"

definition NewIdentityUserMapper ::
  "'s registries \<Rightarrow> string \<Rightarrow> go_error + (identity_info \<Rightarrow> 's \<Rightarrow> 's \<times> (go_error + user_info))" where
  "NewIdentityUserMapper R mapping_method =
     (if mapping_method = ''lookup'' then Inr (lookup_UserFor R)
      else if mapping_method = ''claim'' then Inr (provisioning_UserFor R (StrategyClaim R))
      else if mapping_method = ''add'' then Inr (provisioning_UserFor R (StrategyAdd R))
      else if mapping_method = ''generate'' then Inr (provisioning_UserFor R (StrategyGenerate R))
      else Inl (Errorf ''unsupported mapping method %q'' [mapping_method]))"

section \<open>Errors shown to the user\<close>

fun IsClaimError :: "go_error \<Rightarrow> bool" where
  "IsClaimError (Errorf format args) \<longleftrightarrow> format = claim_error_format"
| "IsClaimError _ \<longleftrightarrow> False"

fun IsLookupError :: "go_error \<Rightarrow> bool" where
  "IsLookupError (ErrorfE format args errs) \<longleftrightarrow> format = lookup_error_format"
| "IsLookupError _ \<longleftrightarrow> False"

definition AuthenticationErrorCode :: "go_error \<Rightarrow> string" where
  "AuthenticationErrorCode err =
     (if IsClaimError err then ''mapping_claim_error''
      else if IsLookupError err then ''mapping_lookup_error''
      else ''authentication_error'')"

definition AuthenticationErrorMessage :: "string \<Rightarrow> string" where
  "AuthenticationErrorMessage code =
     (if code = ''mapping_claim_error'' then ''Could not create user.''
      else if code = ''mapping_lookup_error'' then ''Could not find user.''
      else ''An authentication error occurred.'')"

end
