(* ===== verification/Identity_Login.thy ===== *)
theory Identity_Login
  imports Identity_Mapper
begin

text \<open>
  What a login establishes.  The contract of a strategy is the locale \<open>new_identity_strategy\<close>: the
  user it returns is stored, lists the identity, and no identity was touched.  It is interpreted for
  each of the three strategies on the two registry stores.
\<close>

lemma InitializeUser_simps [simp]:
  "u_Name (InitializeUser i u) = u_Name u" "u_UID (InitializeUser i u) = u_UID u"
  "u_Identities (InitializeUser i u) = u_Identities u" "u_Groups (InitializeUser i u) = u_Groups u"
  "u_ResourceVersion (InitializeUser i u) = u_ResourceVersion u"
  by (simp_all add: InitializeUser_def)

lemma desired_user_simps [simp]:
  "u_Name (desired_user n i) = n" "u_Identities (desired_user n i) = [i_Name i]"
  by (simp_all add: desired_user_def)

lemma new_identity_simps [simp]:
  "i_Name (new_identity info) = GetIdentityName info"
  "identityName (i_ProviderName (new_identity info)) (i_ProviderUserName (new_identity info)) = GetIdentityName info"
  by (simp_all add: new_identity_def identityName_def GetIdentityName_def)

section \<open>A login alone\<close>

locale new_identity_strategy = identity_registries +
  fixes strategy :: "string \<Rightarrow> identity_obj \<Rightarrow> 'a \<Rightarrow> 'a \<times> (go_error + user_obj)"
  assumes user_stored: "strategy pref i s = (s', Inr u) \<Longrightarrow>
      users s' (u_Name u) = Some u \<and> u_Name u \<noteq> [] \<and> i_Name i \<in> set (u_Identities u) \<and> ids s' = ids s"
begin

lemma created_maps_to:
  assumes "createIdentityAndMapping R strategy info s = (s', Inr ui)"
  shows "maps_to (users s') (ids s') (GetIdentityName info) (ui_name ui) \<and>
    (\<exists>u. users s' (ui_name ui) = Some u \<and> ui = user_DefaultInfo u)"
proof -
  obtain s1 u where s1: "strategy (getPreferredUserName (new_identity info)) (new_identity info) s = (s1, Inr u)"
    using assms by (auto simp: createIdentityAndMapping_def Let_def split: prod.splits sum.splits)
  then obtain i where ci: "r_CreateIdentity R s1
      ((new_identity info)\<lparr>i_UserName := u_Name u, i_UserUID := u_UID u\<rparr>) = (s', Inr i)"
    and ui: "ui = user_DefaultInfo u"
    using assms by (auto simp: createIdentityAndMapping_def Let_def split: prod.splits sum.splits)
  note u = user_stored [OF s1]
  have nm: "identityName (i_ProviderName (new_identity info)) (i_ProviderUserName (new_identity info)) = GetIdentityName info"
    by simp
  from CreateIdentity [OF ci] nm have "ids s' (GetIdentityName info) = Some i" "users s' = users s1"
    "i_UserName i = u_Name u" "i_UserUID i = u_UID u" by auto
  then show ?thesis using u ui by (auto simp: maps_to_def user_DefaultInfo_def)
qed

lemma getMapping_maps_to:
  assumes "getMapping R i s = (s', Inr ui)" "ids s n = Some i"
  shows "maps_to (users s') (ids s') n (ui_name ui) \<and>
    (\<exists>u. users s' (ui_name ui) = Some u \<and> ui = user_DefaultInfo u)"
proof -
  obtain u where g: "r_GetUser R s (i_UserName i) = (s', Inr u)" and ui: "ui = user_DefaultInfo u"
    and ok: "u_UID u = i_UserUID i" "i_Name i \<in> set (u_Identities u)"
    using assms(1) by (auto simp: getMapping_def gset_simps split: if_splits prod.splits sum.splits)
  note u = GetUser [OF g]
  have "u_Name u = i_UserName i" "i_Name i = n" using u user_keyed identity_keyed [OF assms(2)] by auto
  then show ?thesis using u ui ok assms(2) by (auto simp: maps_to_def user_DefaultInfo_def)
qed

lemma login_maps_to:
  "userForWithRetries R strategy info n s = (s', Inr ui) \<Longrightarrow>
   maps_to (users s') (ids s') (GetIdentityName info) (ui_name ui) \<and>
   (\<exists>u. users s' (ui_name ui) = Some u \<and> ui = user_DefaultInfo u)"
proof (induction n arbitrary: s rule: less_induct)
  case (less n)
  obtain s1 r where g: "r_GetIdentity R s (GetIdentityName info) = (s1, r)" by fastforce
  show ?case
  proof (cases r)
    case (Inr i)
    then have "getMapping R i s1 = (s', Inr ui)"
      using less.prems g by (simp add: userForWithRetries.simps [of _ _ _ n])
    moreover have "ids s1 (GetIdentityName info) = Some i" using GetIdentity [OF g] Inr by simp
    ultimately show ?thesis by (rule getMapping_maps_to)
  next
    case (Inl e)
    obtain s2 z where c: "createIdentityAndMapping R strategy info s1 = (s2, z)" by fastforce
    show ?thesis
    proof (cases z)
      case (Inr ui')
      then have "s' = s2 \<and> ui' = ui"
        using less.prems g Inl c by (simp add: userForWithRetries.simps [of _ _ _ n] split: if_splits)
      then show ?thesis using created_maps_to c Inr by blast
    next
      case (Inl e')
      then have "userForWithRetries R strategy info (n - 1) s2 = (s', Inr ui)" "n - 1 < n"
        using less.prems g \<open>r = Inl e\<close> c
        by (simp_all add: userForWithRetries.simps [of _ _ _ n] split: if_splits)
      then show ?thesis using less.IH by blast
    qed
  qed
qed

end

context identity_registries
begin

lemma create_desired:
  assumes "r_CreateUser R s (desired_user name i) = (s', Inr u)"
  shows "users s' (u_Name u) = Some u \<and> u_Name u \<noteq> [] \<and> i_Name i \<in> set (u_Identities u) \<and> ids s' = ids s"
  using CreateUser [OF assms] by simp

lemma update_listing:
  assumes "r_UpdateUser R s v = (s', Inr u)" "i_Name i \<in> set (u_Identities v)" "u_Name v \<noteq> []"
  shows "users s' (u_Name u) = Some u \<and> u_Name u \<noteq> [] \<and> i_Name i \<in> set (u_Identities u) \<and> ids s' = ids s"
  using UpdateUser [OF assms(1)] assms(2,3) by auto

lemma found_listing:
  assumes "r_GetUser R s n = (s', Inr u)" "Has (NewString (u_Identities u)) (i_Name i)"
  shows "users s' (u_Name u) = Some u \<and> u_Name u \<noteq> [] \<and> i_Name i \<in> set (u_Identities u) \<and> ids s' = ids s"
  using GetUser [OF assms(1)] assms(2) user_keyed [of s n u] by (auto simp: gset_simps)

lemma add_user:
  assumes "StrategyAdd R pref i s = (s', Inr u)"
  shows "users s' (u_Name u) = Some u \<and> u_Name u \<noteq> [] \<and> i_Name i \<in> set (u_Identities u) \<and> ids s' = ids s"
proof -
  obtain s1 r where g: "r_GetUser R s pref = (s1, r)" by fastforce
  note G = GetUser [OF g]
  show ?thesis
  proof (cases r)
    case (Inl e)
    then have "r_CreateUser R s1 (desired_user pref i) = (s', Inr u)"
      using assms g by (simp add: StrategyAdd_def split: if_splits)
    then show ?thesis using create_desired G by fastforce
  next
    case (Inr v)
    show ?thesis
    proof (cases "Has (NewString (u_Identities v)) (i_Name i)")
      case True
      then have "s1 = s'" "v = u" using assms g Inr by (simp_all add: StrategyAdd_def)
      then show ?thesis using found_listing g Inr True by simp
    next
      case False
      have "u_Name v \<noteq> []" using G Inr user_keyed by auto
      moreover obtain w where "r_UpdateUser R s1 w = (s', Inr u)" "u_Name w = u_Name v" "i_Name i \<in> set (u_Identities w)"
        using assms g Inr False by (simp add: StrategyAdd_def Let_def split: if_splits)
      ultimately show ?thesis using update_listing G by fastforce
    qed
  qed
qed

lemma claim_user:
  assumes "StrategyClaim R pref i s = (s', Inr u)"
  shows "users s' (u_Name u) = Some u \<and> u_Name u \<noteq> [] \<and> i_Name i \<in> set (u_Identities u) \<and> ids s' = ids s"
proof -
  obtain s1 r where g: "r_GetUser R s pref = (s1, r)" by fastforce
  note G = GetUser [OF g]
  show ?thesis
  proof (cases r)
    case (Inl e)
    then have "r_CreateUser R s1 (desired_user pref i) = (s', Inr u)"
      using assms g by (simp add: StrategyClaim_def split: if_splits)
    then show ?thesis using create_desired G by fastforce
  next
    case (Inr v)
    show ?thesis
    proof (cases "Has (NewString (u_Identities v)) (i_Name i)")
      case True
      then have "s1 = s'" "v = u" using assms g Inr by (simp_all add: StrategyClaim_def)
      then show ?thesis using found_listing g Inr True by simp
    next
      case False
      have "u_Name v \<noteq> []" using G Inr user_keyed by auto
      moreover have "r_UpdateUser R s1 (InitializeUser i (v\<lparr>u_Identities := [i_Name i]\<rparr>)) = (s', Inr u)"
        using assms g Inr False by (simp add: StrategyClaim_def split: if_splits)
      ultimately show ?thesis using update_listing [of s1 "InitializeUser i (v\<lparr>u_Identities := [i_Name i]\<rparr>)" s' u i] G by simp
    qed
  qed
qed

lemma generate_user:
  "generate_loop R gen base i seqs s = (s', Inr u) \<Longrightarrow>
   users s' (u_Name u) = Some u \<and> u_Name u \<noteq> [] \<and> i_Name i \<in> set (u_Identities u) \<and> ids s' = ids s"
proof (induction seqs arbitrary: s)
  case Nil
  then show ?case by simp
next
  case (Cons q seqs)
  obtain s1 r where g: "r_GetUser R s (gen base q) = (s1, r)" by fastforce
  note G = GetUser [OF g]
  show ?case
  proof (cases r)
    case (Inl e)
    then have "r_CreateUser R s1 (desired_user (gen base q) i) = (s', Inr u)"
      using Cons.prems g by (simp split: if_splits)
    then show ?thesis using create_desired G by fastforce
  next
    case (Inr v)
    show ?thesis
    proof (cases "Has (NewString (u_Identities v)) (i_Name i)")
      case True
      then have "s1 = s'" "v = u" using Cons.prems g Inr by simp_all
      then show ?thesis using found_listing g Inr True by simp
    next
      case False
      then have "generate_loop R gen base i seqs s1 = (s', Inr u)" using Cons.prems g Inr by simp
      then show ?thesis using Cons.IH G by simp
    qed
  qed
qed

lemma StrategyGenerate_user:
  "StrategyGenerate R pref i s = (s', Inr u) \<Longrightarrow>
   users s' (u_Name u) = Some u \<and> u_Name u \<noteq> [] \<and> i_Name i \<in> set (u_Identities u) \<and> ids s' = ids s"
  unfolding StrategyGenerate_def by (rule generate_user)

end

context identity_registries
begin

lemma lookup_maps_to:
  assumes "lookup_UserFor R info s = (s', Inr ui)"
  shows "maps_to (users s') (ids s') (GetIdentityName info) (ui_name ui) \<and>
    (\<exists>u. users s' (ui_name ui) = Some u \<and> ui = user_DefaultInfo u)"
proof -
  obtain s1 gi gu gm where rel: "getRelatedObjects R (GetIdentityName info) s = (s1, gi, gu, gm)"
    using prod_cases4 by blast
  obtain m u where m: "gm = Inr m" and g: "r_GetUser R s1 (mp_UserName m) = (s', Inr u)" and ui: "ui = user_DefaultInfo u"
    using assms rel by (auto simp: lookup_UserFor_def mapping_Get_def split: sum.splits prod.splits)
  have "maps_to (users s) (ids s) (GetIdentityName info) (mp_UserName m)"
    using related_maps_to rel m by blast
  moreover have "users s' = users s" "ids s' = ids s" "users s' (mp_UserName m) = Some u"
    using GetUser [OF g] related [OF rel] by simp_all
  moreover from this have "u_Name u = mp_UserName m" using user_keyed by blast
  ultimately show ?thesis using ui by (auto simp: user_DefaultInfo_def)
qed

end

interpretation add_login: new_identity_strategy "store_registries uuid" stored_users stored_identities
  "StrategyAdd (store_registries uuid)"
  by unfold_locales (rule world.add_user)

interpretation claim_login: new_identity_strategy "store_registries uuid" stored_users stored_identities
  "StrategyClaim (store_registries uuid)"
  by unfold_locales (rule world.claim_user)

interpretation generate_login: new_identity_strategy "store_registries uuid" stored_users stored_identities
  "StrategyGenerate (store_registries uuid)"
  by unfold_locales (rule world.StrategyGenerate_user)

end
