(* ===== verification/Identity_Races.thy ===== *)
theory Identity_Races
  imports Identity_Login
begin

text \<open>
  Logins among others.  Between the registry calls of a login any other process may act: the record
  \<open>shared\<close> holds what the others do before each of the next calls, and a log of the own calls.  The
  locale \<open>versioned_registries\<close> adds to the registries that a resource version determines the user,
  which is what the conflict check of an update rests on; \<open>careful_strategy\<close> is the contract of the
  strategies that never give a user of one identity to another.
\<close>

section \<open>Calls among others\<close>

record 's shared =
  sh_State :: 's
  sh_Others :: "('s \<Rightarrow> 's) list"
  sh_Own :: "('s \<times> 's) list"

definition among_call :: "('s \<Rightarrow> 's \<times> 'r) \<Rightarrow> 's shared \<Rightarrow> 's shared \<times> 'r" where
  "among_call f sh =
     (let s = (case sh_Others sh of [] \<Rightarrow> sh_State sh | g # gs \<Rightarrow> g (sh_State sh)) in
      case f s of
        (s', r) \<Rightarrow> (\<lparr>sh_State = s', sh_Others = tl (sh_Others sh), sh_Own = sh_Own sh @ [(s, s')]\<rparr>, r))"

definition among :: "'s registries \<Rightarrow> 's shared registries" where
  "among R =
     \<lparr>r_GetUser = (\<lambda>sh n. among_call (\<lambda>s. r_GetUser R s n) sh),
      r_CreateUser = (\<lambda>sh u. among_call (\<lambda>s. r_CreateUser R s u) sh),
      r_UpdateUser = (\<lambda>sh u. among_call (\<lambda>s. r_UpdateUser R s u) sh),
      r_GetIdentity = (\<lambda>sh n. among_call (\<lambda>s. r_GetIdentity R s n) sh),
      r_CreateIdentity = (\<lambda>sh i. among_call (\<lambda>s. r_CreateIdentity R s i) sh),
      r_UpdateIdentity = (\<lambda>sh i. among_call (\<lambda>s. r_UpdateIdentity R s i) sh)\<rparr>"

lemma among_simps [simp]:
  "r_GetUser (among R) sh n = among_call (\<lambda>s. r_GetUser R s n) sh"
  "r_CreateUser (among R) sh u = among_call (\<lambda>s. r_CreateUser R s u) sh"
  "r_UpdateUser (among R) sh u = among_call (\<lambda>s. r_UpdateUser R s u) sh"
  "r_GetIdentity (among R) sh n = among_call (\<lambda>s. r_GetIdentity R s n) sh"
  "r_CreateIdentity (among R) sh i = among_call (\<lambda>s. r_CreateIdentity R s i) sh"
  "r_UpdateIdentity (among R) sh i = among_call (\<lambda>s. r_UpdateIdentity R s i) sh"
  by (simp_all add: among_def)

section \<open>How many calls a login makes\<close>

text \<open>Whatever the registries answer and whatever the others do.\<close>

definition calls :: "'s shared \<Rightarrow> nat" where
  "calls sh = length (sh_Own sh)"

lemma calls_among_call: "among_call f sh = (sh', r) \<Longrightarrow> calls sh' = Suc (calls sh)"
  by (auto simp: among_call_def calls_def Let_def split: prod.splits)

lemma add_calls: "StrategyAdd (among R) pref i sh = (sh', r) \<Longrightarrow> calls sh' \<le> calls sh + 2"
  by (auto simp: StrategyAdd_def Let_def dest!: calls_among_call split: prod.splits sum.splits if_splits)

lemma claim_calls: "StrategyClaim (among R) pref i sh = (sh', r) \<Longrightarrow> calls sh' \<le> calls sh + 2"
  by (auto simp: StrategyClaim_def Let_def dest!: calls_among_call split: prod.splits sum.splits if_splits)

lemma generate_loop_calls:
  "generate_loop (among R) gen base i seqs sh = (sh', r) \<Longrightarrow> calls sh' \<le> calls sh + length seqs + 1"
proof (induction seqs arbitrary: sh)
  case Nil
  then show ?case by simp
next
  case (Cons q seqs)
  obtain s1 z where g: "among_call (\<lambda>s. r_GetUser R s (gen base q)) sh = (s1, z)" by fastforce
  note c = calls_among_call [OF g]
  from Cons.prems g consider "calls sh' = calls s1"
    | y where "among_call (\<lambda>s. r_CreateUser R s (desired_user (gen base q) i)) s1 = (sh', y)"
    | "generate_loop (among R) gen base i seqs s1 = (sh', r)"
    by (cases z) (auto split: if_splits)
  then show ?case
  proof cases
    case 1
    then show ?thesis using c by simp
  next
    case 2
    then show ?thesis using c calls_among_call by fastforce
  next
    case 3
    then show ?thesis using Cons.IH [of s1] c by simp
  qed
qed

lemma generate_calls: "StrategyGenerate (among R) pref i sh = (sh', r) \<Longrightarrow> calls sh' \<le> calls sh + 101"
  using generate_loop_calls [of R DefaultGenerator pref i "[0..<MaxGenerateAttempts]" sh sh' r]
  by (simp add: StrategyGenerate_def MaxGenerateAttempts_def del: upt_Suc)

lemma create_calls:
  assumes "createIdentityAndMapping (among R) strategy info sh = (sh', r)"
    and st: "\<And>pref i s s' r. strategy pref i s = (s', r) \<Longrightarrow> calls s' \<le> calls s + k"
  shows "calls sh' \<le> calls sh + k + 1"
proof -
  obtain s1 z where s1: "strategy (getPreferredUserName (new_identity info)) (new_identity info) sh = (s1, z)"
    by fastforce
  have "sh' = s1 \<or> (\<exists>f y. among_call f s1 = (sh', y :: go_error + identity_obj))"
    using assms(1) s1
    by (cases z) (auto simp: createIdentityAndMapping_def Let_def split: prod.splits sum.splits)
  then show ?thesis using st [OF s1] calls_among_call by fastforce
qed

lemma getMapping_calls: "getMapping (among R) i sh = (sh', r) \<Longrightarrow> calls sh' \<le> calls sh + 1"
  by (auto simp: getMapping_def dest!: calls_among_call split: prod.splits sum.splits if_splits)

lemma retries_calls:
  assumes st: "\<And>pref i s s' r. strategy pref i s = (s', r) \<Longrightarrow> calls s' \<le> calls s + k"
  shows "userForWithRetries (among R) strategy info n sh = (sh', r) \<Longrightarrow> calls sh' \<le> calls sh + (n + 1) * (k + 2)"
proof (induction n arbitrary: sh rule: less_induct)
  case (less n)
  obtain s1 z where g: "among_call (\<lambda>s. r_GetIdentity R s (GetIdentityName info)) sh = (s1, z)" by fastforce
  note c = calls_among_call [OF g]
  show ?case
  proof (cases z)
    case (Inr i)
    then have "getMapping (among R) i s1 = (sh', r)"
      using less.prems g by (simp add: userForWithRetries.simps [of _ _ _ n])
    then show ?thesis using getMapping_calls c by fastforce
  next
    case (Inl e)
    obtain s2 y where m: "createIdentityAndMapping (among R) strategy info s1 = (s2, y)" by fastforce
    have m': "calls s2 \<le> calls s1 + k + 1" using create_calls [OF m] st by blast
    from less.prems g Inl m consider "sh' = s1" | "sh' = s2"
      | "0 < n" "userForWithRetries (among R) strategy info (n - 1) s2 = (sh', r)"
      by (cases y) (auto simp: userForWithRetries.simps [of _ _ _ n] split: if_splits)
    then show ?thesis
    proof cases
      case 3
      from 3 obtain m where n: "n = Suc m" by (cases n) auto
      then have "calls sh' \<le> calls s2 + (m + 1) * (k + 2)" using less.IH [of m s2] 3 by simp
      then show ?thesis using c m' n by simp
    qed (use c m' in auto)
  qed
qed

lemma lookup_calls: "lookup_UserFor (among R) info sh = (sh', r) \<Longrightarrow> calls sh' \<le> calls sh + 3"
  by (auto simp: lookup_UserFor_def mapping_Get_def getRelatedObjects_def dest!: calls_among_call
      split: prod.splits sum.splits if_splits)

section \<open>Users are claimed once\<close>

text \<open>
  What a change of the users keeps: a user with identities stays, with its UID and its identities,
  and if no user had two identities none gets a second one.
\<close>

definition single_identity :: "(string \<Rightarrow> user_obj option) \<Rightarrow> bool" where
  "single_identity us \<longleftrightarrow> (\<forall>n u. us n = Some u \<longrightarrow> length (u_Identities u) \<le> 1)"

definition claims_kept :: "(string \<Rightarrow> user_obj option) \<Rightarrow> (string \<Rightarrow> user_obj option) \<Rightarrow> bool" where
  "claims_kept us us' \<longleftrightarrow>
     (\<forall>n u. us n = Some u \<and> u_Identities u \<noteq> [] \<longrightarrow>
        (\<exists>u'. us' n = Some u' \<and> u_Identities u' = u_Identities u \<and> u_UID u' = u_UID u)) \<and>
     (single_identity us \<longrightarrow> single_identity us')"

lemma claims_kept_refl [simp]: "claims_kept us us"
  by (simp add: claims_kept_def)

lemma claims_kept_trans: "claims_kept a b \<Longrightarrow> claims_kept b c \<Longrightarrow> claims_kept a c"
  unfolding claims_kept_def by metis

lemma claims_kept_new:
  assumes "us n = None \<or> (\<exists>old. us n = Some old \<and> u_Identities old = [])" "length (u_Identities u) \<le> 1"
  shows "claims_kept us (us(n \<mapsto> u))"
  using assms by (auto simp: claims_kept_def single_identity_def)

definition lists_identity :: "(string \<Rightarrow> user_obj option) \<Rightarrow> string \<Rightarrow> string \<Rightarrow> string \<Rightarrow> bool" where
  "lists_identity us uname uid iname \<longleftrightarrow>
     (\<exists>u. us uname = Some u \<and> u_UID u = uid \<and> iname \<in> set (u_Identities u))"

lemma lists_kept: "claims_kept us us' \<Longrightarrow> lists_identity us n x i \<Longrightarrow> lists_identity us' n x i"
  unfolding claims_kept_def lists_identity_def by (metis list.set(1) empty_iff)

lemma lists_single:
  assumes "lists_identity us n x i" "single_identity us"
  shows "\<exists>u. us n = Some u \<and> u_UID u = x \<and> u_Identities u = [i]"
proof -
  obtain u where u: "us n = Some u" "u_UID u = x" "i \<in> set (u_Identities u)"
    using assms(1) by (auto simp: lists_identity_def)
  then have "length (u_Identities u) \<le> 1" using assms(2) by (auto simp: single_identity_def)
  then have "u_Identities u = [i]" using u(3) by (cases "u_Identities u") auto
  then show ?thesis using u by blast
qed

text \<open>What every process may rely on: time goes on and claims are kept.\<close>

definition rely_on :: "('s \<Rightarrow> 's \<Rightarrow> bool) \<Rightarrow> ('s \<Rightarrow> string \<Rightarrow> user_obj option) \<Rightarrow> 's \<Rightarrow> 's \<Rightarrow> bool" where
  "rely_on later users s s' \<longleftrightarrow> later s s' \<and> claims_kept (users s) (users s')"

text \<open>
  A piece of a login among others: its own calls satisfy what the others rely on, and so does the
  whole.
\<close>

definition runs :: "('s \<Rightarrow> 's \<Rightarrow> bool) \<Rightarrow> 's shared \<Rightarrow> 's shared \<Rightarrow> bool" where
  "runs rely sh sh' \<longleftrightarrow>
     set (sh_Others sh') \<subseteq> set (sh_Others sh) \<and> rely (sh_State sh) (sh_State sh') \<and>
     (\<exists>own. sh_Own sh' = sh_Own sh @ own \<and> (\<forall>(a, b) \<in> set own. rely a b))"

definition good :: "('s \<Rightarrow> 's \<Rightarrow> bool) \<Rightarrow> ('s \<Rightarrow> bool) \<Rightarrow> 's shared \<Rightarrow> bool" where
  "good rely valid sh \<longleftrightarrow> valid (sh_State sh) \<and> (\<forall>g \<in> set (sh_Others sh). \<forall>s. rely s (g s))"

locale versioned_registries = identity_registries +
  fixes valid :: "'a \<Rightarrow> bool" and later :: "'a \<Rightarrow> 'a \<Rightarrow> bool"
  assumes later_refl [simp]: "later s s"
    and later_trans: "later a b \<Longrightarrow> later b c \<Longrightarrow> later a c"
    and later_valid: "later a b \<Longrightarrow> valid a \<Longrightarrow> valid b"
    and version: "valid s \<Longrightarrow> later s s' \<Longrightarrow> users s n = Some u \<Longrightarrow> users s' n = Some u' \<Longrightarrow>
      u_ResourceVersion u = u_ResourceVersion u' \<Longrightarrow> u = u'"
    and calls_later: "r_GetUser R s n = (s', ru) \<Longrightarrow> later s s'"
      "r_CreateUser R s u = (s', ru) \<Longrightarrow> later s s'" "r_UpdateUser R s u = (s', ru) \<Longrightarrow> later s s'"
      "r_GetIdentity R s n = (s', ri) \<Longrightarrow> later s s'" "r_CreateIdentity R s i = (s', ri) \<Longrightarrow> later s s'"
begin

abbreviation rely :: "'a \<Rightarrow> 'a \<Rightarrow> bool" where
  "rely \<equiv> rely_on later users"

lemma rely_refl [simp]: "rely s s"
  by (simp add: rely_on_def)

lemma rely_trans: "rely a b \<Longrightarrow> rely b c \<Longrightarrow> rely a c"
  unfolding rely_on_def using later_trans claims_kept_trans by blast

lemma get_rely: "r_GetUser R s n = (s', ru) \<Longrightarrow> rely s s'"
  "r_GetIdentity R s n = (s', ri) \<Longrightarrow> rely s s'"
  using GetUser [of s n s' ru] GetIdentity [of s n s' ri] calls_later by (auto simp: rely_on_def)

lemma create_identity_rely:
  assumes "r_CreateIdentity R s i = (s', ri)"
  shows "rely s s'"
  using assms CreateIdentity [of s i s'] failed(3) [of s i s'] calls_later(5) [OF assms]
  by (cases ri) (auto simp: rely_on_def)

lemma create_user_rely:
  assumes "r_CreateUser R s u = (s', ru)" "length (u_Identities u) \<le> 1"
  shows "rely s s'"
proof (cases ru)
  case (Inl e)
  then show ?thesis using assms failed(1) [of s u s' e] calls_later(2) by (simp add: rely_on_def)
next
  case (Inr v)
  then have "claims_kept (users s) (users s')"
    using CreateUser [of s u s' v] assms claims_kept_new [of "users s" "u_Name u" v] by simp
  then show ?thesis using calls_later(2) assms(1) by (simp add: rely_on_def)
qed

text \<open>The conflict check: the copy that was read is still the stored user.\<close>

lemma claim_rely:
  assumes "r_UpdateUser R s u = (s', ru)" "length (u_Identities u) \<le> 1"
    and read: "users s0 (u_Name u) = Some old" "u_Identities old = []"
      "u_ResourceVersion u = u_ResourceVersion old" "rely s0 s" "valid s0"
  shows "rely s s'"
proof (cases ru)
  case (Inl e)
  then show ?thesis using assms failed(2) [of s u s' e] calls_later(3) by (simp add: rely_on_def)
next
  case (Inr v)
  then have w: "r_UpdateUser R s u = (s', Inr v)" using assms(1) by simp
  obtain cur where cur: "users s (u_Name u) = Some cur" "u_ResourceVersion u = u_ResourceVersion cur"
    "users s' = (users s)(u_Name u \<mapsto> v)" "u_Identities v = u_Identities u"
    using UpdateUser [OF w] by blast
  have "later s0 s" using read(4) by (simp add: rely_on_def)
  moreover have "u_ResourceVersion old = u_ResourceVersion cur" using read(3) cur(2) by (rule trans [OF sym])
  ultimately have "old = cur" using version read(1,5) cur(1) by blast
  then have "claims_kept (users s) (users s')"
    using claims_kept_new [of "users s" "u_Name u" v] cur read(2) assms(2) by simp
  then show ?thesis using calls_later(3) assms(1) by (simp add: rely_on_def)
qed

text \<open>One call among others.\<close>

lemma runs_refl [simp]: "runs rely sh sh"
  by (simp add: runs_def)

lemma runs_trans: "runs rely a b \<Longrightarrow> runs rely b c \<Longrightarrow> runs rely a c"
  unfolding runs_def by (fastforce intro: rely_trans)

lemma runs_good: "runs rely a b \<Longrightarrow> good rely valid a \<Longrightarrow> good rely valid b"
  unfolding runs_def good_def rely_on_def using later_valid by blast

lemma among_call_runs:
  assumes "among_call f sh = (sh', r)" "good rely valid sh"
  obtains s where "f s = (sh_State sh', r)" "rely (sh_State sh) s" "valid s"
    "rely s (sh_State sh') \<Longrightarrow> runs rely sh sh'"
proof -
  define s where "s = (case sh_Others sh of [] \<Rightarrow> sh_State sh | g # gs \<Rightarrow> g (sh_State sh))"
  have r: "rely (sh_State sh) s"
    using assms(2) by (auto simp: s_def good_def split: list.splits)
  have v: "valid s" using r assms(2) later_valid by (auto simp: good_def rely_on_def)
  have f: "f s = (sh_State sh', r)" and o: "sh_Others sh' = tl (sh_Others sh)" "sh_Own sh' = sh_Own sh @ [(s, sh_State sh')]"
    using assms(1) by (auto simp: among_call_def s_def [symmetric] Let_def split: prod.splits)
  have "set (tl (sh_Others sh)) \<subseteq> set (sh_Others sh)" by (cases "sh_Others sh") auto
  then have "runs rely sh sh'" if "rely s (sh_State sh')"
    using that r o rely_trans by (auto simp: runs_def)
  then show ?thesis using that f r v by blast
qed

lemma get_user_runs:
  assumes "r_GetUser (among R) sh n = (sh', r)" "good rely valid sh"
  shows "runs rely sh sh' \<and> (\<forall>u. r = Inr u \<longrightarrow> users (sh_State sh') n = Some u \<and> u_Name u = n \<and> n \<noteq> [])"
proof -
  obtain s where s: "r_GetUser R s n = (sh_State sh', r)" "rely s (sh_State sh') \<Longrightarrow> runs rely sh sh'"
    using among_call_runs assms by (metis among_simps(1))
  then show ?thesis using GetUser [OF s(1)] get_rely(1) [OF s(1)] user_keyed by auto
qed

lemma get_identity_runs:
  assumes "r_GetIdentity (among R) sh n = (sh', r)" "good rely valid sh"
  shows "runs rely sh sh' \<and> (\<forall>i. r = Inr i \<longrightarrow> i_Name i = n)"
proof -
  obtain s where s: "r_GetIdentity R s n = (sh_State sh', r)" "rely s (sh_State sh') \<Longrightarrow> runs rely sh sh'"
    using among_call_runs assms by (metis among_simps(4))
  then show ?thesis using GetIdentity [OF s(1)] get_rely(2) [OF s(1)] identity_keyed by auto
qed

lemma create_identity_runs:
  assumes "r_CreateIdentity (among R) sh i = (sh', r)" "good rely valid sh"
  shows "runs rely sh sh'"
proof -
  obtain s where s: "r_CreateIdentity R s i = (sh_State sh', r)" "rely s (sh_State sh') \<Longrightarrow> runs rely sh sh'"
    using among_call_runs assms by (metis among_simps(5))
  then show ?thesis using create_identity_rely [OF s(1)] by simp
qed

lemma create_user_runs:
  assumes "r_CreateUser (among R) sh (desired_user n i) = (sh', r)" "good rely valid sh"
  shows "runs rely sh sh' \<and>
    (\<forall>u. r = Inr u \<longrightarrow> lists_identity (users (sh_State sh')) (u_Name u) (u_UID u) (i_Name i))"
proof -
  obtain s where s: "r_CreateUser R s (desired_user n i) = (sh_State sh', r)" "rely s (sh_State sh') \<Longrightarrow> runs rely sh sh'"
    using among_call_runs assms by (metis among_simps(2))
  then show ?thesis
    using create_user_rely [OF s(1)] create_desired [of s n i "sh_State sh'"] by (auto simp: lists_identity_def)
qed

lemma claim_runs:
  assumes "r_UpdateUser (among R) sh u = (sh', r)" "good rely valid sh"
    and read: "users (sh_State sh) (u_Name u) = Some old" "u_Identities old = []"
      "u_ResourceVersion u = u_ResourceVersion old" "u_Identities u = [i_Name i]" "u_Name u \<noteq> []"
  shows "runs rely sh sh' \<and>
    (\<forall>v. r = Inr v \<longrightarrow> lists_identity (users (sh_State sh')) (u_Name v) (u_UID v) (i_Name i))"
proof -
  obtain s where s: "r_UpdateUser R s u = (sh_State sh', r)" "rely (sh_State sh) s"
    "rely s (sh_State sh') \<Longrightarrow> runs rely sh sh'"
    using among_call_runs assms by (metis among_simps(3))
  have "valid (sh_State sh)" using assms(2) by (simp add: good_def)
  then have "rely s (sh_State sh')" using claim_rely [OF s(1) _ read(1,2,3) s(2)] read(4) by simp
  moreover have "lists_identity (users (sh_State sh')) (u_Name v) (u_UID v) (i_Name i)" if "r = Inr v" for v
    using update_listing [of s u "sh_State sh'" v i] s(1) that read(4,5) by (auto simp: lists_identity_def)
  ultimately show ?thesis using s(3) by blast
qed

end

end
