(* ===== verification/Identity_Claims.thy ===== *)
theory Identity_Claims
  imports Identity_Races
begin

text \<open>
  The strategies claim and generate never take a user from an identity, however their calls
  interleave with those of others; the contract \<open>careful_strategy\<close> is interpreted for both on the two
  registry stores, and the properties of the login are stated for them.
\<close>

section \<open>Careful strategies\<close>

context versioned_registries
begin

lemma found_runs:
  assumes "r_GetUser (among R) sh n = (sh', Inr u)" "good rely valid sh"
    "Has (NewString (u_Identities u)) (i_Name i)"
  shows "runs rely sh sh' \<and> lists_identity (users (sh_State sh')) (u_Name u) (u_UID u) (i_Name i)"
  using get_user_runs [OF assms(1,2)] assms(3) by (auto simp: lists_identity_def gset_simps)

lemma StrategyClaim_runs:
  assumes "StrategyClaim (among R) pref i sh = (sh', r)" "good rely valid sh"
  shows "runs rely sh sh' \<and>
    (\<forall>u. r = Inr u \<longrightarrow> lists_identity (users (sh_State sh')) (u_Name u) (u_UID u) (i_Name i))"
proof -
  obtain s1 z where g: "r_GetUser (among R) sh pref = (s1, z)" by fastforce
  note G = get_user_runs [OF g assms(2)]
  have good1: "good rely valid s1" using G runs_good assms(2) by blast
  show ?thesis
  proof (cases z)
    case (Inl e)
    show ?thesis
    proof (cases "IsNotFound e")
      case False
      then show ?thesis using assms g Inl G by (auto simp: StrategyClaim_def)
    next
      case True
      then have "r_CreateUser (among R) s1 (desired_user pref i) = (sh', r)"
        using assms(1) g Inl by (simp add: StrategyClaim_def)
      then show ?thesis using create_user_runs good1 G runs_trans by blast
    qed
  next
    case (Inr v)
    consider "Has (NewString (u_Identities v)) (i_Name i)"
      | "\<not> Has (NewString (u_Identities v)) (i_Name i)" "u_Identities v = []"
      | "\<not> Has (NewString (u_Identities v)) (i_Name i)" "u_Identities v \<noteq> []" by blast
    then show ?thesis
    proof cases
      case 1
      then have "sh' = s1" "r = Inr v" using assms(1) g Inr by (simp_all add: StrategyClaim_def)
      then show ?thesis using found_runs [of sh pref s1 v i] g Inr assms(2) 1 by simp
    next
      case 2
      let ?w = "InitializeUser i (v\<lparr>u_Identities := [i_Name i]\<rparr>)"
      have "r_UpdateUser (among R) s1 ?w = (sh', r)"
        using assms(1) g Inr 2 by (simp add: StrategyClaim_def)
      moreover have "users (sh_State s1) (u_Name v) = Some v" "u_Name v \<noteq> []" using G Inr by auto
      ultimately have "runs rely s1 sh' \<and>
        (\<forall>u. r = Inr u \<longrightarrow> lists_identity (users (sh_State sh')) (u_Name u) (u_UID u) (i_Name i))"
        using claim_runs [of s1 ?w sh' r v i] good1 2 by simp
      then show ?thesis using G runs_trans by blast
    next
      case 3
      then have "sh' = s1" "\<nexists>u. r = Inr u" using assms(1) g Inr by (auto simp: StrategyClaim_def)
      then show ?thesis using G by simp
    qed
  qed
qed

lemma generate_loop_runs:
  "generate_loop (among R) gen base i seqs sh = (sh', r) \<Longrightarrow> good rely valid sh \<Longrightarrow>
   runs rely sh sh' \<and>
   (\<forall>u. r = Inr u \<longrightarrow> lists_identity (users (sh_State sh')) (u_Name u) (u_UID u) (i_Name i))"
proof (induction seqs arbitrary: sh)
  case Nil
  then show ?case by auto
next
  case (Cons q seqs)
  obtain s1 z where g: "r_GetUser (among R) sh (gen base q) = (s1, z)" by fastforce
  note G = get_user_runs [OF g Cons.prems(2)]
  have good1: "good rely valid s1" using G runs_good Cons.prems(2) by blast
  show ?case
  proof (cases z)
    case (Inl e)
    show ?thesis
    proof (cases "IsNotFound e")
      case False
      then show ?thesis using Cons.prems g Inl G by auto
    next
      case True
      then have "r_CreateUser (among R) s1 (desired_user (gen base q) i) = (sh', r)"
        using Cons.prems g Inl by simp
      then show ?thesis using create_user_runs good1 G runs_trans by blast
    qed
  next
    case (Inr v)
    show ?thesis
    proof (cases "Has (NewString (u_Identities v)) (i_Name i)")
      case True
      then have "sh' = s1" "r = Inr v" using Cons.prems g Inr by simp_all
      then show ?thesis using found_runs [of sh "gen base q" s1 v i] g Inr Cons.prems(2) True by simp
    next
      case False
      then have "generate_loop (among R) gen base i seqs s1 = (sh', r)" using Cons.prems g Inr by simp
      then show ?thesis using Cons.IH good1 G runs_trans by blast
    qed
  qed
qed

lemma StrategyGenerate_runs:
  "StrategyGenerate (among R) pref i sh = (sh', r) \<Longrightarrow> good rely valid sh \<Longrightarrow>
   runs rely sh sh' \<and>
   (\<forall>u. r = Inr u \<longrightarrow> lists_identity (users (sh_State sh')) (u_Name u) (u_UID u) (i_Name i))"
  unfolding StrategyGenerate_def by (rule generate_loop_runs)

end

locale careful_strategy = versioned_registries +
  fixes strategy :: "string \<Rightarrow> identity_obj \<Rightarrow> 'a shared \<Rightarrow> 'a shared \<times> (go_error + user_obj)"
  assumes strategy_runs: "strategy pref i sh = (sh', r) \<Longrightarrow> good rely valid sh \<Longrightarrow>
      runs rely sh sh' \<and>
      (\<forall>u. r = Inr u \<longrightarrow> lists_identity (users (sh_State sh')) (u_Name u) (u_UID u) (i_Name i))"
begin

lemma create_runs:
  assumes "createIdentityAndMapping (among R) strategy info sh = (sh', r)" "good rely valid sh"
  shows "runs rely sh sh' \<and>
    (\<forall>ui. r = Inr ui \<longrightarrow> lists_identity (users (sh_State sh')) (ui_name ui) (ui_uid ui) (GetIdentityName info))"
proof -
  obtain s1 z where st: "strategy (getPreferredUserName (new_identity info)) (new_identity info) sh = (s1, z)"
    by fastforce
  note S = strategy_runs [OF st assms(2)]
  have good1: "good rely valid s1" using S runs_good assms(2) by blast
  show ?thesis
  proof (cases z)
    case (Inl e)
    then show ?thesis using assms(1) st S by (auto simp: createIdentityAndMapping_def Let_def)
  next
    case (Inr u)
    obtain s2 y where ci: "r_CreateIdentity (among R) s1
        ((new_identity info)\<lparr>i_UserName := u_Name u, i_UserUID := u_UID u\<rparr>) = (s2, y)" by fastforce
    have C: "runs rely s1 s2" using create_identity_runs [OF ci good1] .
    have "sh' = s2" and ui: "\<forall>ui. r = Inr ui \<longrightarrow> ui = user_DefaultInfo u"
      using assms(1) st Inr ci by (auto simp: createIdentityAndMapping_def Let_def split: sum.splits)
    moreover have "lists_identity (users (sh_State s2)) (u_Name u) (u_UID u) (GetIdentityName info)"
      using S Inr C lists_kept by (auto simp: runs_def rely_on_def)
    ultimately show ?thesis using S C runs_trans by (auto simp: user_DefaultInfo_def)
  qed
qed

lemma getMapping_runs:
  assumes "getMapping (among R) i sh = (sh', r)" "good rely valid sh"
  shows "runs rely sh sh' \<and>
    (\<forall>ui. r = Inr ui \<longrightarrow> lists_identity (users (sh_State sh')) (ui_name ui) (ui_uid ui) (i_Name i))"
proof (cases "length (i_UserName i) = 0")
  case True
  then show ?thesis using assms by (auto simp: getMapping_def)
next
  case False
  obtain s1 z where g: "r_GetUser (among R) sh (i_UserName i) = (s1, z)" by fastforce
  note G = get_user_runs [OF g assms(2)]
  have "sh' = s1" using assms(1) g False by (auto simp: getMapping_def split: sum.splits if_splits)
  moreover have "lists_identity (users (sh_State s1)) (ui_name ui) (ui_uid ui) (i_Name i)" if rr: "r = Inr ui" for ui
  proof -
    obtain u where u: "z = Inr u" "i_Name i \<in> set (u_Identities u)" "ui = user_DefaultInfo u"
      using assms(1) g False rr by (auto simp: getMapping_def gset_simps split: sum.splits if_splits)
    then show ?thesis using G by (auto simp: lists_identity_def user_DefaultInfo_def)
  qed
  ultimately show ?thesis using G by blast
qed

lemma login_runs:
  "userForWithRetries (among R) strategy info n sh = (sh', r) \<Longrightarrow> good rely valid sh \<Longrightarrow>
   runs rely sh sh' \<and>
   (\<forall>ui. r = Inr ui \<longrightarrow> lists_identity (users (sh_State sh')) (ui_name ui) (ui_uid ui) (GetIdentityName info))"
proof (induction n arbitrary: sh rule: less_induct)
  case (less n)
  obtain s1 z where g: "r_GetIdentity (among R) sh (GetIdentityName info) = (s1, z)" by fastforce
  note G = get_identity_runs [OF g less.prems(2)]
  have good1: "good rely valid s1" using G runs_good less.prems(2) by blast
  have run: "userForWithRetries (among R) strategy info n sh = (case (s1, z) of
        (s1, Inl e) \<Rightarrow>
          if IsNotFound e then
            (case createIdentityAndMapping (among R) strategy info s1 of
               (s2, Inl e') \<Rightarrow>
                 if (IsAlreadyExists e' \<or> IsConflict e') \<and> n > 0
                 then userForWithRetries (among R) strategy info (n - 1) s2
                 else (s2, Inl e')
             | (s2, Inr ui) \<Rightarrow> (s2, Inr ui))
          else (s1, Inl e)
      | (s1, Inr identity) \<Rightarrow> getMapping (among R) identity s1)"
    unfolding g [symmetric] by (rule userForWithRetries.simps)
  show ?case
  proof (cases z)
    case (Inr i)
    then have "getMapping (among R) i s1 = (sh', r)" using less.prems(1) run by simp
    from getMapping_runs [OF this good1] show ?thesis using G Inr runs_trans by metis
  next
    case (Inl e)
    obtain s2 y where c: "createIdentityAndMapping (among R) strategy info s1 = (s2, y)" by fastforce
    note C = create_runs [OF c good1]
    have good2: "good rely valid s2" using C runs_good good1 by blast
    from less.prems(1) run Inl c consider "sh' = s1" "\<nexists>ui. r = Inr ui" | "sh' = s2" "r = y"
      | "0 < n" "userForWithRetries (among R) strategy info (n - 1) s2 = (sh', r)"
      by (cases y) (auto split: if_splits)
    then show ?thesis
    proof cases
      case 1
      then show ?thesis using G by blast
    next
      case 2
      then show ?thesis using C G runs_trans by blast
    next
      case 3
      then show ?thesis using less.IH [of "n - 1" s2] good2 C G runs_trans by (metis diff_less zero_less_one)
    qed
  qed
qed

text \<open>The user of a successful login has this one identity, then and ever after.\<close>

lemma login_exclusive:
  assumes "userForWithRetries (among R) strategy info n sh = (sh', Inr ui)" "good rely valid sh"
    "single_identity (users (sh_State sh))" "rely (sh_State sh') s"
  shows "\<exists>u. users s (ui_name ui) = Some u \<and> u_UID u = ui_uid ui \<and> u_Identities u = [GetIdentityName info]"
proof -
  note L = login_runs [OF assms(1,2)]
  then have "rely (sh_State sh) (sh_State sh')" by (simp add: runs_def)
  then have "rely (sh_State sh) s" using assms(4) rely_trans by blast
  then have "single_identity (users s)" using assms(3) by (simp add: rely_on_def claims_kept_def)
  moreover have "lists_identity (users s) (ui_name ui) (ui_uid ui) (GetIdentityName info)"
    using L assms(4) lists_kept by (auto simp: rely_on_def)
  ultimately show ?thesis using lists_single by blast
qed

end

section \<open>On the two stores\<close>

definition versions_valid :: "id_world \<Rightarrow> bool" where
  "versions_valid s \<longleftrightarrow>
     (\<forall>n u. stored_users s n = Some u \<longrightarrow> u_ResourceVersion u \<le> st_Revision (w_Users s))"

definition users_later :: "id_world \<Rightarrow> id_world \<Rightarrow> bool" where
  "users_later s s' \<longleftrightarrow>
     st_Revision (w_Users s) \<le> st_Revision (w_Users s') \<and> (versions_valid s \<longrightarrow> versions_valid s') \<and>
     (\<forall>n u. stored_users s' n = Some u \<longrightarrow>
        stored_users s n = Some u \<or> st_Revision (w_Users s) < u_ResourceVersion u)"

lemma later_same: "w_Users s' = w_Users s \<Longrightarrow> users_later s s'"
  by (auto simp: users_later_def versions_valid_def stored_users_def)

lemma later_put:
  assumes "storage_put user_meta x (w_Users s) = (out, w_Users s')"
  shows "users_later s s'"
proof -
  have rev: "st_Revision (w_Users s') = Suc (st_Revision (w_Users s))"
    using assms unfolding storage_put_def Let_def prod.inject by (metis storage_state.select_convs(2))
  have l: "stored_users s' = (stored_users s)(u_Name x \<mapsto> out)"
    "u_ResourceVersion out = Suc (st_Revision (w_Users s))"
    using um.lookup_put [OF assms] by (simp_all add: stored_users_def)
  show ?thesis using rev l by (auto simp: users_later_def versions_valid_def intro: le_SucI)
qed

lemma users_later_trans: "users_later a b \<Longrightarrow> users_later b c \<Longrightarrow> users_later a c"
  unfolding users_later_def by (metis le_less_trans less_le_trans order.trans)

lemma world_calls_later:
  "r_GetUser (store_registries uuid) s n = (s', ru) \<Longrightarrow> users_later s s'"
  "r_CreateUser (store_registries uuid) s u = (s', ru) \<Longrightarrow> users_later s s'"
  "r_UpdateUser (store_registries uuid) s u = (s', ru) \<Longrightarrow> users_later s s'"
  "r_GetIdentity (store_registries uuid) s n = (s', ri) \<Longrightarrow> users_later s s'"
  "r_CreateIdentity (store_registries uuid) s i = (s', ri) \<Longrightarrow> users_later s s'"
proof -
  show "r_GetUser (store_registries uuid) s n = (s', ru) \<Longrightarrow> users_later s s'"
    by (rule later_same) (auto simp: store_registries_def dest!: on_users_faulty)
  show "r_CreateUser (store_registries uuid) s u = (s', ru) \<Longrightarrow> users_later s s'"
    using later_same later_put
    by (fastforce simp: store_registries_def dest!: on_users_faulty dest: um.Create_put)
  show "r_UpdateUser (store_registries uuid) s u = (s', ru) \<Longrightarrow> users_later s s'"
    using later_same later_put
    by (fastforce simp: store_registries_def dest!: on_users_faulty dest: um.Update_put)
  show "r_GetIdentity (store_registries uuid) s n = (s', ri) \<Longrightarrow> users_later s s'"
    by (rule later_same) (auto simp: store_registries_def dest!: on_identities_faulty)
  show "r_CreateIdentity (store_registries uuid) s i = (s', ri) \<Longrightarrow> users_later s s'"
    by (rule later_same) (auto simp: store_registries_def dest!: on_identities_faulty)
qed

interpretation shared_world: versioned_registries "store_registries uuid" stored_users stored_identities
  versions_valid users_later
proof
  fix a b c s s' :: id_world and n u u'
  show "users_later s s" by (rule later_same) simp
  show "users_later a b \<Longrightarrow> users_later b c \<Longrightarrow> users_later a c" by (rule users_later_trans)
  show "users_later a b \<Longrightarrow> versions_valid a \<Longrightarrow> versions_valid b" by (simp add: users_later_def)
  assume v: "versions_valid s" "users_later s s'" and l: "stored_users s n = Some u" "stored_users s' n = Some u'"
    and e: "u_ResourceVersion u = u_ResourceVersion u'"
  have "u_ResourceVersion u' \<le> st_Revision (w_Users s)" using v(1) l(1) e [symmetric] by (simp add: versions_valid_def)
  moreover have "stored_users s n = Some u' \<or> st_Revision (w_Users s) < u_ResourceVersion u'"
    using v(2) l(2) unfolding users_later_def by blast
  ultimately have "stored_users s n = Some u'" by simp
  then show "u = u'" using l(1) by simp
qed (rule world_calls_later, assumption)+

interpretation careful_claim: careful_strategy "store_registries uuid" stored_users stored_identities
  versions_valid users_later "StrategyClaim (among (store_registries uuid))"
  by unfold_locales (rule shared_world.StrategyClaim_runs)

interpretation careful_generate: careful_strategy "store_registries uuid" stored_users stored_identities
  versions_valid users_later "StrategyGenerate (among (store_registries uuid))"
  by unfold_locales (rule shared_world.StrategyGenerate_runs)

section \<open>Properties of the login\<close>

text \<open>
  C26: whatever the mapping method and whichever registry calls fail, a login that returns a user
  leaves the stored identity referencing that user by name and UID and the user listing the identity,
  and the returned name, UID and groups are those of the stored user.
\<close>

theorem login_user_matches_identity:
  assumes "NewIdentityUserMapper (store_registries uuid) mapping_method = Inr login"
    "login info s = (s', Inr ui)"
  shows "maps_to (stored_users s') (stored_identities s') (GetIdentityName info) (ui_name ui) \<and>
    (\<exists>u. stored_users s' (ui_name ui) = Some u \<and> ui = user_DefaultInfo u)"
  using assms world.lookup_maps_to add_login.login_maps_to claim_login.login_maps_to generate_login.login_maps_to
  unfolding NewIdentityUserMapper_def
  by (auto simp: provisioning_UserFor_def split: if_splits)

definition demo_info :: identity_info where
  "demo_info = \<lparr>in_ProviderName = ''idp'', in_ProviderUserName = ''bob'', in_Extra = [(''name'', ''Bob'')]\<rparr>"

definition demo_login :: "id_world \<times> (go_error + user_info)" where
  "demo_login = provisioning_UserFor (store_registries (\<lambda>_. ''u1''))
     (StrategyClaim (store_registries (\<lambda>_. ''u1''))) demo_info (demo_stores [] [])"

lemma login_user_matches_identity_witness:
  "maps_to (stored_users (fst demo_login)) (stored_identities (fst demo_login)) ''idp:bob'' ''bob''"
proof -
  let ?R = "store_registries (\<lambda>_. ''u1'')"
  have m: "NewIdentityUserMapper ?R ''claim'' = Inr (provisioning_UserFor ?R (StrategyClaim ?R))"
    by (simp add: NewIdentityUserMapper_def)
  have r: "snd demo_login = Inr \<lparr>ui_name = ''bob'', ui_uid = ''u1'', ui_groups = [], ui_extra = []\<rparr>"
    by code_simp
  have "provisioning_UserFor ?R (StrategyClaim ?R) demo_info (demo_stores [] []) =
      (fst demo_login, Inr \<lparr>ui_name = ''bob'', ui_uid = ''u1'', ui_groups = [], ui_extra = []\<rparr>)"
    unfolding r [symmetric] by (simp add: demo_login_def)
  from login_user_matches_identity [OF m this] show ?thesis
    by (simp add: GetIdentityName_def demo_info_def)
qed

text \<open>
  C27: with the methods claim and generate, in a store whose versions are valid and whose users have at
  most one identity each (as they have unless the method add or an administrator gave a user two), the
  calls of a login, interleaved with calls of others that keep claims, keep claims themselves, and the
  user it returns has exactly this identity in the final and in every later state; so two identities
  never log in as one user.
\<close>

theorem claimed_users_are_exclusive:
  assumes "NewIdentityUserMapper (among (store_registries uuid)) mapping_method = Inr login"
    "mapping_method \<in> {''claim'', ''generate''}"
    and run: "login info \<lparr>sh_State = s, sh_Others = others, sh_Own = []\<rparr> = (sh, r)"
    and others: "\<forall>g \<in> set others. \<forall>a. rely_on users_later stored_users a (g a)"
    and start: "versions_valid s" "single_identity (stored_users s)"
  shows "(\<forall>(a, b) \<in> set (sh_Own sh). rely_on users_later stored_users a b) \<and>
    (\<forall>ui s'. r = Inr ui \<and> rely_on users_later stored_users (sh_State sh) s' \<longrightarrow>
       (\<exists>u. stored_users s' (ui_name ui) = Some u \<and> u_UID u = ui_uid ui \<and>
          u_Identities u = [GetIdentityName info]))"
proof -
  let ?sh = "\<lparr>sh_State = s, sh_Others = others, sh_Own = []\<rparr>"
  have g: "good (rely_on users_later stored_users) versions_valid ?sh" "single_identity (stored_users (sh_State ?sh))"
    using others start by (simp_all add: good_def)
  obtain strategy where st: "userForWithRetries (among (store_registries uuid)) strategy info 3 ?sh = (sh, r)"
    "strategy = StrategyClaim (among (store_registries uuid)) \<or>
     strategy = StrategyGenerate (among (store_registries uuid))"
    using assms(1-3) by (auto simp: NewIdentityUserMapper_def provisioning_UserFor_def)
  have "runs (rely_on users_later stored_users) ?sh sh"
    using st careful_claim.login_runs careful_generate.login_runs g(1) by blast
  moreover have "\<exists>u. stored_users s' (ui_name ui) = Some u \<and> u_UID u = ui_uid ui \<and> u_Identities u = [GetIdentityName info]"
    if "r = Inr ui" "rely_on users_later stored_users (sh_State sh) s'" for ui s'
    using st careful_claim.login_exclusive careful_generate.login_exclusive g that by blast
  ultimately show ?thesis by (auto simp: runs_def)
qed

lemma key_valid: "NoNamespaceKeyFunc n = None \<Longrightarrow> n \<noteq> [] \<and> IsValidPathSegmentName n = []"
  by (simp add: NoNamespaceKeyFunc_def split: if_splits)

lemma user_create_ok:
  assumes "w_Faults s = []" "ValidateUser (v\<lparr>u_UID := uuid s\<rparr>) = []" "u_ResourceVersion v = 0"
    "stored_users s (u_Name v) = None"
  shows "\<exists>s' u. r_CreateUser (store_registries uuid) s v = (s', Inr u) \<and> w_Faults s' = [] \<and>
    u_UID u = uuid s \<and> u_Name u = u_Name v \<and> u_Groups u = u_Groups v \<and> u_Identities u = u_Identities v \<and>
    stored_users s' = (stored_users s)(u_Name v \<mapsto> u) \<and> stored_identities s' = stored_identities s"
proof -
  let ?v = "v\<lparr>u_UID := uuid s\<rparr>"
  obtain out st where p: "storage_put user_meta ?v (w_Users s) = (out, st)" by fastforce
  note l = um.lookup_put [OF p]
  have k: "NoNamespaceKeyFunc (u_Name v) = None"
    using assms(2) by (auto simp: ValidateUser_def ValidateUserName_def NoNamespaceKeyFunc_def split: if_splits)
  have "r_CreateUser (store_registries uuid) s v = (s\<lparr>w_Users := st\<rparr>, Inr out)"
    using assms p k key_valid [OF k]
    by (simp add: store_registries_def faulty_def on_users_def Store_Create_def BeforeCreate_def ValidateObjectMeta_name_def user_strategy_def Let_def
        stored_users_def)
  then show ?thesis using l assms(1)
    by (intro exI [of _ "s\<lparr>w_Users := st\<rparr>"] exI [of _ out]) (simp add: stored_users_def stored_identities_def)
qed

lemma identity_create_ok:
  assumes "w_Faults s = []" "ValidateIdentity (i\<lparr>i_UID := uuid s\<rparr>) = []" "i_ResourceVersion i = 0"
    "i_Name i = identityName (i_ProviderName i) (i_ProviderUserName i)" "stored_identities s (i_Name i) = None"
  shows "\<exists>s' i'. r_CreateIdentity (store_registries uuid) s i = (s', Inr i') \<and> stored_users s' = stored_users s \<and>
    stored_identities s' = (stored_identities s)(i_Name i \<mapsto> i')"
proof -
  let ?i = "i\<lparr>i_UID := uuid s\<rparr>"
  obtain out st where p: "storage_put identity_meta ?i (w_Identities s) = (out, st)" by fastforce
  note l = im.lookup_put [OF p]
  have k: "NoNamespaceKeyFunc (i_Name i) = None"
    using assms(2) by (auto simp: ValidateIdentity_def ValidateIdentityName_def NoNamespaceKeyFunc_def split: if_splits)
  have n: "i\<lparr>i_Name := identityName (i_ProviderName i) (i_ProviderUserName i), i_UID := uuid s\<rparr> = ?i"
    unfolding assms(4) [symmetric] by simp
  have "r_CreateIdentity (store_registries uuid) s i = (s\<lparr>w_Identities := st\<rparr>, Inr out)"
    using assms(1,2,3,5) p k key_valid [OF k]
    by (simp add: n ValidateObjectMeta_name_def store_registries_def faulty_def on_identities_def Store_Create_def BeforeCreate_def identity_strategy_def Let_def
        stored_identities_def)
  then show ?thesis using l
    by (intro exI [of _ "s\<lparr>w_Identities := st\<rparr>"] exI [of _ out]) (simp add: stored_users_def stored_identities_def)
qed

lemma new_login_desired:
  assumes "w_Faults s = []" "stored_users s pref = None" "stored_identities s (GetIdentityName info) = None"
    "\<forall>s. uuid s \<noteq> []" "pref \<noteq> []" "ValidateUserName pref = []"
    "ValidateIdentityName (GetIdentityName info) = []"
    "in_ProviderName info \<noteq> []" "ValidateIdentityProviderName (in_ProviderName info) = []"
    "in_ProviderUserName info \<noteq> []" "ValidateIdentityProviderName (in_ProviderUserName info) = []"
  shows "\<exists>s1 u s2 i. r_CreateUser (store_registries uuid) s (desired_user pref (new_identity info)) = (s1, Inr u) \<and>
    r_CreateIdentity (store_registries uuid) s1 ((new_identity info)\<lparr>i_UserName := u_Name u, i_UserUID := u_UID u\<rparr>) = (s2, Inr i) \<and>
    u_Name u = pref \<and> u_Groups u = [] \<and> u_Identities u = [GetIdentityName info] \<and> stored_users s2 = (stored_users s)(pref \<mapsto> u) \<and>
    stored_identities s2 = (stored_identities s)(GetIdentityName info \<mapsto> i)"
proof -
  let ?d = "desired_user pref (new_identity info)"
  have d: "u_Groups ?d = []" "u_ResourceVersion ?d = 0" by (simp_all add: desired_user_def)
  then have dv: "ValidateUser (?d\<lparr>u_UID := uuid s\<rparr>) = []" using assms(5-7) by (simp add: ValidateUser_def)
  have "stored_users s (u_Name ?d) = None" using assms(2) by simp
  from user_create_ok [where s = s and v = ?d and uuid = uuid, OF assms(1) dv d(2) this]
  obtain s1 u where u: "r_CreateUser (store_registries uuid) s ?d = (s1, Inr u)" "w_Faults s1 = []"
    "u_UID u = uuid s" "u_Name u = pref" "u_Groups u = []" "u_Identities u = [GetIdentityName info]"
    "stored_users s1 = (stored_users s)(pref \<mapsto> u)" "stored_identities s1 = stored_identities s"
    unfolding d(1) desired_user_simps new_identity_simps by blast
  let ?i = "(new_identity info)\<lparr>i_UserName := u_Name u, i_UserUID := u_UID u\<rparr>"
  have "GetIdentityName info \<noteq> []" by (simp add: GetIdentityName_def)
  then have v: "ValidateIdentity (?i\<lparr>i_UID := uuid s1\<rparr>) = []"
    using assms(4-11) u by (simp add: ValidateIdentity_def new_identity_def GetIdentityName_def)
  have "i_ResourceVersion ?i = 0" "i_Name ?i = identityName (i_ProviderName ?i) (i_ProviderUserName ?i)"
    "i_Name ?i = GetIdentityName info"
    by (simp_all add: new_identity_def identityName_def GetIdentityName_def)
  then obtain s2 i where "r_CreateIdentity (store_registries uuid) s1 ?i = (s2, Inr i)" "stored_users s2 = stored_users s1"
    "stored_identities s2 = (stored_identities s1)(GetIdentityName info \<mapsto> i)"
    using identity_create_ok [where s = s1 and i = ?i and uuid = uuid] u(2) v assms(3) u(8) by metis
  then show ?thesis using u by (intro exI conjI) (assumption | simp)+
qed

lemma absent_calls:
  assumes "w_Faults s = []"
  shows "stored_identities s n = None \<Longrightarrow> ValidateIdentityName n = [] \<Longrightarrow> n \<noteq> [] \<Longrightarrow>
      r_GetIdentity (store_registries uuid) s n = (s, Inl (NotFoundErr ''identities'' n))"
    "stored_users s n = None \<Longrightarrow> ValidateUserName n = [] \<Longrightarrow> n \<noteq> [] \<Longrightarrow>
      r_GetUser (store_registries uuid) s n = (s, Inl (NotFoundErr ''users'' n))"
proof -
  assume "stored_identities s n = None" "ValidateIdentityName n = []" "n \<noteq> []"
  then show "r_GetIdentity (store_registries uuid) s n = (s, Inl (NotFoundErr ''identities'' n))"
    using assms by (auto simp: store_registries_def faulty_def on_identities_def Store_Get_def NoNamespaceKeyFunc_def
        ValidateIdentityName_def stored_identities_def identity_strategy_def split: if_splits)
next
  assume "stored_users s n = None" "ValidateUserName n = []" "n \<noteq> []"
  then show "r_GetUser (store_registries uuid) s n = (s, Inl (NotFoundErr ''users'' n))"
    using assms by (auto simp: store_registries_def faulty_def on_users_def user_Get_def Store_Get_def NoNamespaceKeyFunc_def
        ValidateUserName_def stored_users_def user_strategy_def split: if_splits)
qed

text \<open>
  C28: when no call fails and the names are valid, the first login of an identity whose preferred
  name is free succeeds under each provisioning method, and creates the user of that name and the
  identity, and changes nothing else.
\<close>

theorem new_login_creates_user:
  assumes "NewIdentityUserMapper (store_registries uuid) mapping_method = Inr login"
    "mapping_method \<in> {''claim'', ''add'', ''generate''}"
    "w_Faults s = []" "\<forall>s. uuid s \<noteq> []"
    and pref: "pref = getPreferredUserName (new_identity info)" "pref \<noteq> []" "ValidateUserName pref = []"
    and valid: "ValidateIdentityName (GetIdentityName info) = []"
    "in_ProviderName info \<noteq> []" "ValidateIdentityProviderName (in_ProviderName info) = []"
    "in_ProviderUserName info \<noteq> []" "ValidateIdentityProviderName (in_ProviderUserName info) = []"
    and absent: "stored_users s pref = None" "stored_identities s (GetIdentityName info) = None"
  shows "\<exists>s' u i. login info s = (s', Inr (user_DefaultInfo u)) \<and> u_Name u = pref \<and> u_Groups u = [] \<and> u_Identities u = [GetIdentityName info] \<and>
    stored_users s' = (stored_users s)(pref \<mapsto> u) \<and>
    stored_identities s' = (stored_identities s)(GetIdentityName info \<mapsto> i)"
proof -
  let ?R = "store_registries uuid"
  let ?i = "new_identity info"
  obtain s1 u s2 i where c: "r_CreateUser ?R s (desired_user pref ?i) = (s1, Inr u)"
    "r_CreateIdentity ?R s1 (?i\<lparr>i_UserName := u_Name u, i_UserUID := u_UID u\<rparr>) = (s2, Inr i)"
    and r: "u_Name u = pref" "u_Groups u = []" "u_Identities u = [GetIdentityName info]" "stored_users s2 = (stored_users s)(pref \<mapsto> u)"
    "stored_identities s2 = (stored_identities s)(GetIdentityName info \<mapsto> i)"
    using new_login_desired [OF assms(3) absent assms(4) pref(2,3) valid] by blast
  have n: "GetIdentityName info \<noteq> []" by (simp add: GetIdentityName_def)
  note g = absent_calls(1) [OF assms(3) absent(2) valid(1) n] absent_calls(2) [OF assms(3) absent(1) pref(3,2)]
  have "StrategyClaim ?R pref ?i s = (s1, Inr u)" "StrategyAdd ?R pref ?i s = (s1, Inr u)"
    using g c(1) by (simp_all add: StrategyClaim_def StrategyAdd_def)
  moreover have "[0..<MaxGenerateAttempts] = 0 # [1..<MaxGenerateAttempts]"
    by (simp add: MaxGenerateAttempts_def upt_conv_Cons)
  then have "StrategyGenerate ?R pref ?i s = (s1, Inr u)"
    using g c(1) by (simp add: StrategyGenerate_def DefaultGenerator_def)
  ultimately have st: "strategy pref ?i s = (s1, Inr u)"
    if "strategy \<in> {StrategyClaim ?R, StrategyAdd ?R, StrategyGenerate ?R}" for strategy
    using that by blast
  have cr: "createIdentityAndMapping ?R strategy info s = (s2, Inr (user_DefaultInfo u))"
    if "strategy \<in> {StrategyClaim ?R, StrategyAdd ?R, StrategyGenerate ?R}" for strategy
    using st [OF that] c(2) by (simp add: createIdentityAndMapping_def Let_def pref(1) [symmetric])
  have pv: "provisioning_UserFor ?R strategy info s = (s2, Inr (user_DefaultInfo u))"
    if "strategy \<in> {StrategyClaim ?R, StrategyAdd ?R, StrategyGenerate ?R}" for strategy
    using cr [OF that] g(1) by (simp add: provisioning_UserFor_def userForWithRetries.simps [of _ _ _ 3])
  have "login \<in> provisioning_UserFor ?R ` {StrategyClaim ?R, StrategyAdd ?R, StrategyGenerate ?R}"
    using assms(1,2) by (auto simp: NewIdentityUserMapper_def)
  then have "login info s = (s2, Inr (user_DefaultInfo u))" using pv by blast
  then show ?thesis using r by blast
qed

lemma new_login_creates_user_witness:
  "\<exists>s' u i. provisioning_UserFor (store_registries (\<lambda>_. ''u1'')) (StrategyGenerate (store_registries (\<lambda>_. ''u1'')))
       demo_info (demo_stores [] []) = (s', Inr (user_DefaultInfo u)) \<and> u_Name u = ''bob'' \<and> u_Groups u = [] \<and> u_Identities u = [GetIdentityName demo_info] \<and>
     stored_users s' = (stored_users (demo_stores [] []))(''bob'' \<mapsto> u) \<and>
     stored_identities s' = (stored_identities (demo_stores [] []))(GetIdentityName demo_info \<mapsto> i)"
proof (rule new_login_creates_user [where mapping_method = "''generate''"])
  show "NewIdentityUserMapper (store_registries (\<lambda>_. ''u1'')) ''generate'' =
      Inr (provisioning_UserFor (store_registries (\<lambda>_. ''u1'')) (StrategyGenerate (store_registries (\<lambda>_. ''u1''))))"
    by (simp add: NewIdentityUserMapper_def)
  show "''bob'' = getPreferredUserName (new_identity demo_info)" "ValidateUserName ''bob'' = []"
    "ValidateIdentityName (GetIdentityName demo_info) = []" "in_ProviderName demo_info \<noteq> []"
    "ValidateIdentityProviderName (in_ProviderName demo_info) = []" "in_ProviderUserName demo_info \<noteq> []"
    "ValidateIdentityProviderName (in_ProviderUserName demo_info) = []"
    by code_simp+
qed (simp_all add: demo_stores_def stored_users_def stored_identities_def storage_lookup_def)


definition demo_others :: "(id_world \<Rightarrow> id_world) list" where
  "demo_others = [\<lambda>a. fst (r_CreateUser (store_registries (\<lambda>_. ''u7'')) a (demo_user ''al'' [] [''idp:al''] 0))]"

definition demo_shared :: "id_world shared" where
  "demo_shared = \<lparr>sh_State = demo_stores [demo_user ''bob'' ''u2'' [] 4] [], sh_Others = demo_others, sh_Own = []\<rparr>"

definition demo_race :: "id_world shared \<times> (go_error + user_info)" where
  "demo_race = provisioning_UserFor (among (store_registries (\<lambda>_. ''u1'')))
     (StrategyClaim (among (store_registries (\<lambda>_. ''u1'')))) demo_info demo_shared"

lemma claimed_users_are_exclusive_witness:
  "\<exists>u. stored_users (sh_State (fst demo_race)) ''bob'' = Some u \<and> u_UID u = ''u2'' \<and> u_Identities u = [''idp:bob'']"
proof -
  let ?R = "among (store_registries (\<lambda>_. ''u1''))"
  let ?ui = "\<lparr>ui_name = ''bob'', ui_uid = ''u2'', ui_groups = [], ui_extra = []\<rparr>"
  have m: "NewIdentityUserMapper ?R ''claim'' = Inr (provisioning_UserFor ?R (StrategyClaim ?R))" "''claim'' \<in> {''claim'', ''generate''}"
    by (simp_all add: NewIdentityUserMapper_def)
  have r: "snd demo_race = Inr ?ui" by code_simp
  have run: "provisioning_UserFor ?R (StrategyClaim ?R) demo_info
      \<lparr>sh_State = demo_stores [demo_user ''bob'' ''u2'' [] 4] [], sh_Others = demo_others, sh_Own = []\<rparr>
      = (fst demo_race, Inr ?ui)"
    unfolding r [symmetric] by (simp add: demo_race_def demo_shared_def)
  have o: "\<forall>g \<in> set demo_others. \<forall>a. rely_on users_later stored_users a (g a)"
    using shared_world.create_user_rely [OF prod.collapse [symmetric]] by (simp add: demo_others_def demo_user_def)
  have st: "versions_valid (demo_stores [demo_user ''bob'' ''u2'' [] 4] [])"
    "single_identity (stored_users (demo_stores [demo_user ''bob'' ''u2'' [] 4] []))"
    by (auto simp: versions_valid_def single_identity_def stored_users_def storage_lookup_def demo_stores_def
        demo_user_def split: if_splits)
  have "rely_on users_later stored_users (sh_State (fst demo_race)) (sh_State (fst demo_race))" by simp
  then show ?thesis
    using claimed_users_are_exclusive [OF m run o st] by (fastforce simp: GetIdentityName_def demo_info_def)
qed

text \<open>
  C29: a login ends after at most 412 registry calls (four attempts, each of at most 103), whatever
  the registries answer and whatever others do between the calls.
\<close>

theorem login_calls_are_bounded:
  assumes "NewIdentityUserMapper (among R) mapping_method = Inr login"
  shows "length (sh_Own (fst (login info sh))) \<le> length (sh_Own sh) + 412"
proof -
  obtain sh' r where l: "login info sh = (sh', r)" by fastforce
  have "userForWithRetries (among R) (StrategyAdd (among R)) info 3 sh = (sh', r) \<Longrightarrow> calls sh' \<le> calls sh + 16"
    using retries_calls [of "StrategyAdd (among R)" 2 R info 3 sh sh' r] add_calls by fastforce
  moreover have "userForWithRetries (among R) (StrategyClaim (among R)) info 3 sh = (sh', r) \<Longrightarrow> calls sh' \<le> calls sh + 16"
    using retries_calls [of "StrategyClaim (among R)" 2 R info 3 sh sh' r] claim_calls by fastforce
  moreover have "userForWithRetries (among R) (StrategyGenerate (among R)) info 3 sh = (sh', r) \<Longrightarrow> calls sh' \<le> calls sh + 412"
    using retries_calls [of "StrategyGenerate (among R)" 101 R info 3 sh sh' r] generate_calls by fastforce
  ultimately have "calls sh' \<le> calls sh + 412"
    using assms l lookup_calls [of R info sh sh' r]
    by (fastforce simp: NewIdentityUserMapper_def provisioning_UserFor_def split: if_splits)
  then show ?thesis using l by (simp add: calls_def)
qed

lemma login_calls_are_bounded_witness:
  "length (sh_Own (fst demo_race)) \<le> 412"
proof -
  let ?R = "among (store_registries (\<lambda>_. ''u1''))"
  have "NewIdentityUserMapper ?R ''claim'' = Inr (provisioning_UserFor ?R (StrategyClaim ?R))"
    by (simp add: NewIdentityUserMapper_def)
  from login_calls_are_bounded [OF this, of demo_info demo_shared] show ?thesis
    by (simp add: demo_race_def demo_shared_def)
qed

end
