(* ===== verification/Scc_Types.thy ===== *)
theory Scc_Types
  imports Policy_Types
begin

text \<open>
  Security context constraints and the parts of pods they are about (\<open>kubernetes/pkg/api/types.go\<close>),
  the validation of constraints (\<open>api/validation/validation.go\<close>), the kinds of volumes
  (\<open>securitycontextconstraints/util/util.go\<close>), and the effective security context of a container
  (\<open>securitycontext/provider.go\<close>).

  A pointer that may be nil is an option; numbers of users and groups are only compared, so they are
  integers.  Annotations are a map; a nil map reads like an empty one.
\<close>

section \<open>Pods\<close>

record se_linux_options =
  se_User :: string
  se_Role :: string
  se_Type :: string
  se_Level :: string

record capabilities =
  cap_Add :: "string list"
  cap_Drop :: "string list"

record security_context =
  sc_Capabilities :: "capabilities option"
  sc_Privileged :: "bool option"
  sc_SELinuxOptions :: "se_linux_options option"
  sc_RunAsUser :: "int option"
  sc_RunAsNonRoot :: "bool option"
  sc_ReadOnlyRootFilesystem :: "bool option"

definition empty_security_context :: security_context where
  "empty_security_context =
     \<lparr>sc_Capabilities = None, sc_Privileged = None, sc_SELinuxOptions = None, sc_RunAsUser = None,
      sc_RunAsNonRoot = None, sc_ReadOnlyRootFilesystem = None\<rparr>"

record pod_security_context =
  psc_HostNetwork :: bool
  psc_HostPID :: bool
  psc_HostIPC :: bool
  psc_SELinuxOptions :: "se_linux_options option"
  psc_RunAsUser :: "int option"
  psc_RunAsNonRoot :: "bool option"
  psc_SupplementalGroups :: "int list"
  psc_FSGroup :: "int option"

definition empty_pod_security_context :: pod_security_context where
  "empty_pod_security_context =
     \<lparr>psc_HostNetwork = False, psc_HostPID = False, psc_HostIPC = False, psc_SELinuxOptions = None,
      psc_RunAsUser = None, psc_RunAsNonRoot = None, psc_SupplementalGroups = [], psc_FSGroup = None\<rparr>"

record container =
  ct_Name :: string
  ct_HostPorts :: "int list"
  ct_SecurityContext :: "security_context option"

text \<open>A volume is the list of its sources that are set, by the names of their kinds.\<close>

type_synonym volume = "string list"

record pod =
  pod_Name :: string
  pod_Annotations :: "string \<rightharpoonup> string"
  pod_ServiceAccountName :: string
  pod_SecurityContext :: "pod_security_context option"
  pod_InitContainers :: "container list"
  pod_Containers :: "container list"
  pod_Volumes :: "volume list"

definition SeccompPodAnnotationKey :: string where
  "SeccompPodAnnotationKey = ''seccomp.security.alpha.kubernetes.io/pod''"
definition SeccompContainerAnnotationKeyPrefix :: string where
  "SeccompContainerAnnotationKeyPrefix = ''container.seccomp.security.alpha.kubernetes.io/''"
definition SysctlsPodAnnotationKey :: string where
  "SysctlsPodAnnotationKey = ''security.alpha.kubernetes.io/sysctls''"
definition UnsafeSysctlsPodAnnotationKey :: string where
  "UnsafeSysctlsPodAnnotationKey = ''security.alpha.kubernetes.io/unsafe-sysctls''"

text \<open>\<open>annotations[key]\<close>\<close>

definition annotation :: "(string \<rightharpoonup> string) \<Rightarrow> string \<Rightarrow> string" where
  "annotation m key = (case m key of None \<Rightarrow> [] | Some v \<Rightarrow> v)"

section \<open>Constraints\<close>

record id_range =
  rng_Min :: int
  rng_Max :: int

record selinux_strategy_options =
  sel_Type :: string
  sel_SELinuxOptions :: "se_linux_options option"

record run_as_user_options =
  rau_Type :: string
  rau_UID :: "int option"
  rau_UIDRangeMin :: "int option"
  rau_UIDRangeMax :: "int option"

record group_strategy_options =
  grp_Type :: string
  grp_Ranges :: "id_range list"

record scc =
  scc_Name :: string
  scc_Annotations :: "string \<rightharpoonup> string"
  scc_Priority :: "int option"
  scc_AllowPrivilegedContainer :: bool
  scc_DefaultAddCapabilities :: "string list"
  scc_RequiredDropCapabilities :: "string list"
  scc_AllowedCapabilities :: "string list"
  scc_Volumes :: "string list"
  scc_AllowHostNetwork :: bool
  scc_AllowHostPorts :: bool
  scc_AllowHostPID :: bool
  scc_AllowHostIPC :: bool
  scc_SELinuxContext :: selinux_strategy_options
  scc_RunAsUser :: run_as_user_options
  scc_SupplementalGroups :: group_strategy_options
  scc_FSGroup :: group_strategy_options
  scc_ReadOnlyRootFilesystem :: bool
  scc_SeccompProfiles :: "string list"
  scc_Users :: "string list"
  scc_Groups :: "string list"

definition MustRunAs :: string where "MustRunAs = ''MustRunAs''"
definition MustRunAsRange :: string where "MustRunAsRange = ''MustRunAsRange''"
definition MustRunAsNonRoot :: string where "MustRunAsNonRoot = ''MustRunAsNonRoot''"
definition RunAsAny :: string where "RunAsAny = ''RunAsAny''"

lemmas strategy_names = MustRunAs_def MustRunAsRange_def MustRunAsNonRoot_def RunAsAny_def

section \<open>Validation of constraints\<close>

fun hasCap :: "string \<Rightarrow> string list \<Rightarrow> bool" where
  "hasCap needle [] = False"
| "hasCap needle (c # haystack) = (needle = c \<or> hasCap needle haystack)"

definition validateSCCCapsAgainstDrops :: "string list \<Rightarrow> string list \<Rightarrow> string \<Rightarrow> go_error list" where
  "validateSCCCapsAgainstDrops requiredDrops capsToCheck fldPath =
     map (\<lambda>c. Errorf ''%s: Invalid value: %q: capability is listed in %s and requiredDropCapabilities'' [fldPath, c, fldPath])
       (filter (\<lambda>c. hasCap c requiredDrops) capsToCheck)"

fun validateIDRanges :: "id_range list \<Rightarrow> string \<Rightarrow> go_error list" where
  "validateIDRanges [] fldPath = []"
| "validateIDRanges (r # rs) fldPath =
     (if rng_Min r < 0 then [Errorf ''%s: min cannot be negative'' [fldPath]] else []) @
     (if rng_Max r < 0 then [Errorf ''%s: max cannot be negative'' [fldPath]] else []) @
     (if rng_Min r > rng_Max r then [Errorf ''%s: min cannot be greater than max'' [fldPath]] else []) @
     validateIDRanges rs fldPath"

text \<open>The checks of the metadata are left out.\<close>

definition ValidateSecurityContextConstraints :: "scc \<Rightarrow> go_error list" where
  "ValidateSecurityContextConstraints s =
     (case scc_Priority s of
        None \<Rightarrow> []
      | Some p \<Rightarrow> if p < 0 then [Errorf ''priority: priority cannot be negative'' []] else []) @
     (if rau_Type (scc_RunAsUser s) \<in> {MustRunAs, MustRunAsNonRoot, RunAsAny, MustRunAsRange} then []
      else [Errorf ''runAsUser.type: Invalid value: %q'' [rau_Type (scc_RunAsUser s)]]) @
     (case rau_UID (scc_RunAsUser s) of
        None \<Rightarrow> []
      | Some uid \<Rightarrow> if uid < 0 then [Errorf ''runAsUser.uid: uid cannot be negative'' []] else []) @
     (if sel_Type (scc_SELinuxContext s) \<in> {MustRunAs, RunAsAny} then []
      else [Errorf ''seLinuxContext.type: Invalid value: %q'' [sel_Type (scc_SELinuxContext s)]]) @
     (if grp_Type (scc_FSGroup s) \<noteq> MustRunAs \<and> grp_Type (scc_FSGroup s) \<noteq> RunAsAny
      then [Errorf ''fsGroup.type: Unsupported value: %q'' [grp_Type (scc_FSGroup s)]] else []) @
     validateIDRanges (grp_Ranges (scc_FSGroup s)) ''fsGroup'' @
     (if grp_Type (scc_SupplementalGroups s) \<noteq> MustRunAs \<and> grp_Type (scc_SupplementalGroups s) \<noteq> RunAsAny
      then [Errorf ''supplementalGroups.type: Unsupported value: %q'' [grp_Type (scc_SupplementalGroups s)]] else []) @
     validateIDRanges (grp_Ranges (scc_SupplementalGroups s)) ''supplementalGroups'' @
     validateSCCCapsAgainstDrops (scc_RequiredDropCapabilities s) (scc_DefaultAddCapabilities s) ''defaultAddCapabilities'' @
     validateSCCCapsAgainstDrops (scc_RequiredDropCapabilities s) (scc_AllowedCapabilities s) ''allowedCapabilities''"

section \<open>Volumes\<close>

definition FSTypeAll :: string where "FSTypeAll = ''*''"

text \<open>The order in which the sources of a volume are looked at.\<close>

definition volume_sources :: "string list" where
  "volume_sources =
     [''hostPath'', ''emptyDir'', ''gcePersistentDisk'', ''awsElasticBlockStore'', ''gitRepo'', ''secret'',
      ''nfs'', ''iscsi'', ''glusterfs'', ''persistentVolumeClaim'', ''rbd'', ''flexVolume'', ''cinder'', ''cephFS'',
      ''flocker'', ''downwardAPI'', ''fc'', ''azureFile'', ''configMap'', ''vsphere'', ''quobyte'', ''azureDisk'',
      ''photonPersistentDisk'']"

definition GetVolumeFSType :: "volume \<Rightarrow> go_error + string" where
  "GetVolumeFSType v =
     (case find (\<lambda>t. t \<in> set v) volume_sources of
        Some t \<Rightarrow> Inr t
      | None \<Rightarrow> Inl (Errorf ''unknown volume type for volume: %#v'' v))"

fun FSTypeToStringSet :: "string list \<Rightarrow> sset" where
  "FSTypeToStringSet fsTypes = NewString fsTypes"

definition SCCAllowsFSType :: "scc \<Rightarrow> string \<Rightarrow> bool" where
  "SCCAllowsFSType s fsType \<longleftrightarrow> list_ex (\<lambda>v. v = fsType \<or> v = FSTypeAll) (scc_Volumes s)"

definition SCCAllowsAllVolumes :: "scc \<Rightarrow> bool" where
  "SCCAllowsAllVolumes s \<longleftrightarrow> SCCAllowsFSType s FSTypeAll"

section \<open>The effective security context\<close>

definition securityContextFromPodSecurityContext :: "pod \<Rightarrow> security_context option" where
  "securityContextFromPodSecurityContext p =
     (case pod_SecurityContext p of
        None \<Rightarrow> None
      | Some psc \<Rightarrow>
          Some (empty_security_context
            \<lparr>sc_SELinuxOptions := psc_SELinuxOptions psc, sc_RunAsUser := psc_RunAsUser psc,
             sc_RunAsNonRoot := psc_RunAsNonRoot psc\<rparr>))"

text \<open>A field that is set in the first value wins.\<close>

definition overriding :: "'a option \<Rightarrow> 'a option \<Rightarrow> 'a option" where
  "overriding a b = (case a of None \<Rightarrow> b | Some x \<Rightarrow> Some x)"

definition DetermineEffectiveSecurityContext :: "pod \<Rightarrow> container \<Rightarrow> security_context option" where
  "DetermineEffectiveSecurityContext p c =
     (case (securityContextFromPodSecurityContext p, ct_SecurityContext c) of
        (None, None) \<Rightarrow> None
      | (Some effective, None) \<Rightarrow> Some effective
      | (None, Some csc) \<Rightarrow> Some csc
      | (Some effective, Some csc) \<Rightarrow>
          Some \<lparr>sc_Capabilities = overriding (sc_Capabilities csc) (sc_Capabilities effective),
                sc_Privileged = overriding (sc_Privileged csc) (sc_Privileged effective),
                sc_SELinuxOptions = overriding (sc_SELinuxOptions csc) (sc_SELinuxOptions effective),
                sc_RunAsUser = overriding (sc_RunAsUser csc) (sc_RunAsUser effective),
                sc_RunAsNonRoot = overriding (sc_RunAsNonRoot csc) (sc_RunAsNonRoot effective),
                sc_ReadOnlyRootFilesystem =
                  overriding (sc_ReadOnlyRootFilesystem csc) (sc_ReadOnlyRootFilesystem effective)\<rparr>)"

section \<open>Lemmas\<close>

lemma overriding_simps [simp]: "overriding None b = b" "overriding (Some x) b = Some x"
  "overriding a a = a" "overriding a (overriding a b) = overriding a b"
  by (simp_all add: overriding_def split: option.splits)

lemma hasCap_set [simp]: "hasCap c cs \<longleftrightarrow> c \<in> set cs"
  by (induction cs) auto

lemma validateIDRanges_Nil:
  "validateIDRanges rs f = [] \<longleftrightarrow> (\<forall>r \<in> set rs. 0 \<le> rng_Min r \<and> rng_Min r \<le> rng_Max r)"
  by (induction rs) auto

lemma ValidateSecurityContextConstraints_Nil:
  assumes "ValidateSecurityContextConstraints s = []"
  shows "set (scc_RequiredDropCapabilities s) \<inter> (set (scc_DefaultAddCapabilities s) \<union> set (scc_AllowedCapabilities s)) = {}"
    "\<forall>r \<in> set (grp_Ranges (scc_FSGroup s)). rng_Min r \<le> rng_Max r"
    "\<forall>r \<in> set (grp_Ranges (scc_SupplementalGroups s)). rng_Min r \<le> rng_Max r"
  using assms
  by (auto simp: ValidateSecurityContextConstraints_def validateSCCCapsAgainstDrops_def validateIDRanges_Nil
      filter_empty_conv simp del: not_None_eq)

end
