(* ===== verification/Scc_Strategies.thy ===== *)
theory Scc_Strategies
  imports Scc_Types
begin

text \<open>
  The strategies of security context constraints
  (\<open>kubernetes/pkg/securitycontextconstraints/{user,selinux,group,capabilities,seccomp}\<close> and
  \<open>security/podsecuritypolicy/sysctl\<close>).  A strategy is what its constructor keeps of the options, with
  a case for each file of its package; it
  generates a value for what a pod leaves open and validates what it has (the numbers found and
  wanted are left out of the messages).  The locale
  \<open>defaulting\<close> is what the provider relies on: a generated value is valid, and filling in twice
  changes nothing.
\<close>

section \<open>Run as user\<close>

datatype user_strategy =
    UserMustRunAs int
  | UserMustRunAsRange int int
  | UserNonRoot
  | UserRunAsAny

definition createUserStrategy :: "run_as_user_options \<Rightarrow> go_error + user_strategy" where
  "createUserStrategy opts =
     (if rau_Type opts = MustRunAs then
        (case rau_UID opts of
           None \<Rightarrow> Inl (Errorf ''MustRunAs requires a UID'' [])
         | Some uid \<Rightarrow> Inr (UserMustRunAs uid))
      else if rau_Type opts = MustRunAsRange then
        (case rau_UIDRangeMin opts of
           None \<Rightarrow> Inl (Errorf ''MustRunAsRange requires a UIDRangeMin'' [])
         | Some lo \<Rightarrow>
             (case rau_UIDRangeMax opts of
                None \<Rightarrow> Inl (Errorf ''MustRunAsRange requires a UIDRangeMax'' [])
              | Some hi \<Rightarrow> Inr (UserMustRunAsRange lo hi)))
      else if rau_Type opts = MustRunAsNonRoot then Inr UserNonRoot
      else if rau_Type opts = RunAsAny then Inr UserRunAsAny
      else Inl (Errorf ''Unrecognized RunAsUser strategy type %s'' [rau_Type opts]))"

fun user_Generate :: "user_strategy \<Rightarrow> int option" where
  "user_Generate (UserMustRunAs uid) = Some uid"
| "user_Generate (UserMustRunAsRange lo hi) = Some lo"
| "user_Generate UserNonRoot = None"
| "user_Generate UserRunAsAny = None"

text \<open>\<open>Validate\<close> on the run-as-user field of a container, after the check of its security context.\<close>

fun user_check :: "user_strategy \<Rightarrow> string \<Rightarrow> int option \<Rightarrow> go_error list" where
  "user_check (UserMustRunAs uid) name None = [Errorf ''unable to validate nil runAsUser for container %s'' [name]]"
| "user_check (UserMustRunAs uid) name (Some x) =
     (if uid \<noteq> x then [Errorf ''UID on container %s does not match required UID'' [name]] else [])"
| "user_check (UserMustRunAsRange lo hi) name None =
     [Errorf ''unable to validate nil RunAsUser for container %s'' [name]]"
| "user_check (UserMustRunAsRange lo hi) name (Some x) =
     (if x < lo \<or> x > hi then [Errorf ''UID on container %s does not match required range'' [name]] else [])"
| "user_check UserNonRoot name x =
     (if x = Some 0 then [Errorf ''running with the root UID is forbidden by the security context constraints %s'' [name]]
      else [])"
| "user_check UserRunAsAny name x = []"

definition user_Validate :: "user_strategy \<Rightarrow> container \<Rightarrow> go_error list" where
  "user_Validate s c =
     (if s = UserRunAsAny then []
      else (case ct_SecurityContext c of
              None \<Rightarrow> [Errorf ''unable to validate nil security context for container %s'' [ct_Name c]]
            | Some sc \<Rightarrow> user_check s (ct_Name c) (sc_RunAsUser sc)))"

section \<open>SELinux\<close>

datatype selinux_strategy =
    SELinuxMustRunAs se_linux_options
  | SELinuxRunAsAny

definition createSELinuxStrategy :: "selinux_strategy_options \<Rightarrow> go_error + selinux_strategy" where
  "createSELinuxStrategy opts =
     (if sel_Type opts = MustRunAs then
        (case sel_SELinuxOptions opts of
           None \<Rightarrow> Inl (Errorf ''MustRunAs requires SELinuxOptions'' [])
         | Some o' \<Rightarrow> Inr (SELinuxMustRunAs o'))
      else if sel_Type opts = RunAsAny then Inr SELinuxRunAsAny
      else Inl (Errorf ''Unrecognized SELinuxContext strategy type %s'' [sel_Type opts]))"

fun selinux_Generate :: "selinux_strategy \<Rightarrow> se_linux_options option" where
  "selinux_Generate (SELinuxMustRunAs opts) = Some opts"
| "selinux_Generate SELinuxRunAsAny = None"

fun selinux_check :: "selinux_strategy \<Rightarrow> string \<Rightarrow> se_linux_options option \<Rightarrow> go_error list" where
  "selinux_check (SELinuxMustRunAs opts) name None = [Errorf ''unable to validate nil seLinuxOptions for %s'' [name]]"
| "selinux_check (SELinuxMustRunAs opts) name (Some x) =
     (if se_Level x \<noteq> se_Level opts then [Errorf ''seLinuxOptions.level on %s does not match required level'' [name]] else []) @
     (if se_Role x \<noteq> se_Role opts then [Errorf ''seLinuxOptions.role on %s does not match required role'' [name]] else []) @
     (if se_Type x \<noteq> se_Type opts then [Errorf ''seLinuxOptions.type on %s does not match required type'' [name]] else []) @
     (if se_User x \<noteq> se_User opts then [Errorf ''seLinuxOptions.user on %s does not match required user'' [name]] else [])"
| "selinux_check SELinuxRunAsAny name x = []"

definition selinux_Validate :: "selinux_strategy \<Rightarrow> container \<Rightarrow> go_error list" where
  "selinux_Validate s c =
     (if s = SELinuxRunAsAny then []
      else (case ct_SecurityContext c of
              None \<Rightarrow> [Errorf ''unable to validate nil security context for %s'' [ct_Name c]]
            | Some sc \<Rightarrow> selinux_check s (ct_Name c) (sc_SELinuxOptions sc)))"

section \<open>Groups\<close>

text \<open>The constructor refuses an empty list of ranges; a strategy keeps the first range and the rest.\<close>

datatype group_strategy =
    GroupMustRunAs id_range "id_range list" string
  | GroupRunAsAny

definition group_NewMustRunAs :: "id_range list \<Rightarrow> string \<Rightarrow> go_error + group_strategy" where
  "group_NewMustRunAs ranges field =
     (case ranges of
        [] \<Rightarrow> Inl (Errorf ''ranges must be supplied for MustRunAs'' [])
      | r # rs \<Rightarrow> Inr (GroupMustRunAs r rs field))"

definition createFSGroupStrategy :: "group_strategy_options \<Rightarrow> go_error + group_strategy" where
  "createFSGroupStrategy opts =
     (if grp_Type opts = RunAsAny then Inr GroupRunAsAny
      else if grp_Type opts = MustRunAs then group_NewMustRunAs (grp_Ranges opts) ''fsGroup''
      else Inl (Errorf ''Unrecognized FSGroup strategy type %s'' [grp_Type opts]))"

definition createSupplementalGroupStrategy :: "group_strategy_options \<Rightarrow> go_error + group_strategy" where
  "createSupplementalGroupStrategy opts =
     (if grp_Type opts = RunAsAny then Inr GroupRunAsAny
      else if grp_Type opts = MustRunAs then group_NewMustRunAs (grp_Ranges opts) ''supplementalGroups''
      else Inl (Errorf ''Unrecognized SupplementalGroups strategy type %s'' [grp_Type opts]))"

fun group_Generate :: "group_strategy \<Rightarrow> int list" where
  "group_Generate (GroupMustRunAs r rs field) = [rng_Min r]"
| "group_Generate GroupRunAsAny = []"

fun group_GenerateSingle :: "group_strategy \<Rightarrow> int option" where
  "group_GenerateSingle (GroupMustRunAs r rs field) = Some (rng_Min r)"
| "group_GenerateSingle GroupRunAsAny = None"

definition fallsInRange :: "int \<Rightarrow> id_range \<Rightarrow> bool" where
  "fallsInRange gid rng \<longleftrightarrow> gid \<ge> rng_Min rng \<and> gid \<le> rng_Max rng"

definition isGroupValid :: "id_range list \<Rightarrow> int \<Rightarrow> bool" where
  "isGroupValid ranges gid \<longleftrightarrow> list_ex (fallsInRange gid) ranges"

fun group_Validate :: "group_strategy \<Rightarrow> pod \<Rightarrow> int list \<Rightarrow> go_error list" where
  "group_Validate (GroupMustRunAs r rs field) p groups =
     (if pod_SecurityContext p = None then [Errorf ''unable to validate nil security context'' []]
      else (if length groups = 0 then [Errorf ''%s: unable to validate empty groups against required ranges'' [field]] else []) @
           map (\<lambda>g. Errorf ''%s: %d is not an allowed group'' [field])
             (filter (\<lambda>g. \<not> isGroupValid (r # rs) g) groups))"
| "group_Validate GroupRunAsAny p groups = []"

section \<open>Capabilities\<close>

record cap_strategy =
  cs_defaultAdd :: "string list"
  cs_requiredDrop :: "string list"
  cs_allowed :: "string list"

definition makeCapSet :: "string list \<Rightarrow> sset" where
  "makeCapSet caps = NewString caps"

definition caps_Generate :: "cap_strategy \<Rightarrow> security_context option \<Rightarrow> capabilities option" where
  "caps_Generate s sc =
     (let (containerAdd, containerDrop) =
            (case sc of
               None \<Rightarrow> (NewString [], NewString [])
             | Some x \<Rightarrow> (case sc_Capabilities x of
                            None \<Rightarrow> (NewString [], NewString [])
                          | Some caps \<Rightarrow> (makeCapSet (cap_Add caps), makeCapSet (cap_Drop caps))));
          defaultAdd = SetDifference (makeCapSet (cs_defaultAdd s)) containerDrop;
          combinedAdd = SList (SetUnion defaultAdd containerAdd);
          combinedDrop = SList (SetUnion (makeCapSet (cs_requiredDrop s)) containerDrop)
      in if length combinedAdd = 0 \<and> length combinedDrop = 0 then None
         else Some \<lparr>cap_Add = combinedAdd, cap_Drop = combinedDrop\<rparr>)"

definition caps_check :: "cap_strategy \<Rightarrow> capabilities option \<Rightarrow> go_error list" where
  "caps_check s caps =
     (case caps of
        None \<Rightarrow>
          if length (cs_defaultAdd s) = 0 \<and> length (cs_requiredDrop s) = 0 then []
          else [Errorf ''required capabilities are not set on the securityContext'' []]
      | Some c \<Rightarrow>
          map (\<lambda>x. Errorf ''%s: capability may not be added'' [x])
            (filter (\<lambda>x. \<not> Has (makeCapSet (cs_defaultAdd s)) x \<and> \<not> Has (makeCapSet (cs_allowed s)) x) (cap_Add c)) @
          map (\<lambda>x. Errorf ''%s is required to be dropped but was not found'' [x])
            (filter (\<lambda>x. \<not> Has (makeCapSet (cap_Drop c)) x) (cs_requiredDrop s)))"

definition caps_Validate :: "cap_strategy \<Rightarrow> container \<Rightarrow> go_error list" where
  "caps_Validate s c =
     (case ct_SecurityContext c of
        None \<Rightarrow> [Errorf ''no security context is set'' []]
      | Some sc \<Rightarrow> caps_check s (sc_Capabilities sc))"

section \<open>Seccomp\<close>

definition allowAnyProfile :: string where "allowAnyProfile = ''*''"

fun seccomp_Generate :: "string list \<Rightarrow> string" where
  "seccomp_Generate [] = []"
| "seccomp_Generate (p # ps) = (if p \<noteq> allowAnyProfile then p else seccomp_Generate ps)"

definition isProfileAllowed :: "string \<Rightarrow> string list \<Rightarrow> bool" where
  "isProfileAllowed profile allowedProfiles \<longleftrightarrow>
     (length allowedProfiles = 0 \<and> profile = []) \<or>
     list_ex (\<lambda>p. profile = p \<or> p = allowAnyProfile) allowedProfiles"

definition seccomp_check :: "string list \<Rightarrow> string \<Rightarrow> go_error list" where
  "seccomp_check allowedProfiles profile =
     (if length allowedProfiles = 0 \<and> profile \<noteq> [] then [Errorf ''seccomp may not be set'' []]
      else if \<not> isProfileAllowed profile allowedProfiles
      then [Errorf ''%s is not a valid seccomp profile. Valid values are %v'' (profile # allowedProfiles)]
      else [])"

definition seccomp_ValidatePod :: "string list \<Rightarrow> pod \<Rightarrow> go_error list" where
  "seccomp_ValidatePod allowedProfiles p =
     seccomp_check allowedProfiles (annotation (pod_Annotations p) SeccompPodAnnotationKey)"

definition profileForContainer :: "pod \<Rightarrow> container \<Rightarrow> string" where
  "profileForContainer p c =
     (case pod_Annotations p (SeccompContainerAnnotationKeyPrefix @ ct_Name c) of
        Some containerProfile \<Rightarrow> containerProfile
      | None \<Rightarrow> annotation (pod_Annotations p) SeccompPodAnnotationKey)"

definition seccomp_ValidateContainer :: "string list \<Rightarrow> pod \<Rightarrow> container \<Rightarrow> go_error list" where
  "seccomp_ValidateContainer allowedProfiles p c = seccomp_check allowedProfiles (profileForContainer p c)"

section \<open>Sysctls\<close>

text \<open>A nil list of patterns stands for the default one.\<close>

definition NewMustMatchPatterns :: "string list option \<Rightarrow> string list" where
  "NewMustMatchPatterns patterns = (case patterns of None \<Rightarrow> [''*''] | Some ps \<Rightarrow> ps)"

definition SysctlsFromPodSecurityPolicyAnnotation :: "string \<Rightarrow> string list" where
  "SysctlsFromPodSecurityPolicyAnnotation ann = (if length ann = 0 then [] else split_char CHR '','' ann)"

fun parse_sysctls :: "string list \<Rightarrow> go_error + (string \<times> string) list" where
  "parse_sysctls [] = Inr []"
| "parse_sysctls (kv # kvs) =
     (case split_char CHR ''='' kv of
        [name, val] \<Rightarrow>
          if length name = 0 then Inl (Errorf ''sysctl %q not of the format sysctl_name=value'' [kv])
          else (case parse_sysctls kvs of Inl e \<Rightarrow> Inl e | Inr xs \<Rightarrow> Inr ((name, val) # xs))
      | _ \<Rightarrow> Inl (Errorf ''sysctl %q not of the format sysctl_name=value'' [kv]))"

definition SysctlsFromPodAnnotation :: "string \<Rightarrow> go_error + (string \<times> string) list" where
  "SysctlsFromPodAnnotation ann = (if length ann = 0 then Inr [] else parse_sysctls (split_char CHR '','' ann))"

text \<open>\<open>None\<close> is a panic: the last character of an empty pattern is looked at.\<close>

fun ValidateSysctl :: "string list \<Rightarrow> string \<Rightarrow> go_error list option" where
  "ValidateSysctl [] name = Some [Errorf ''sysctl %q is not allowed'' [name]]"
| "ValidateSysctl (p # ps) name =
     (if p = [] then None
      else if last p = CHR ''*'' then
        (if has_prefix name (butlast p) then Some [] else ValidateSysctl ps name)
      else if name = p then Some []
      else ValidateSysctl ps name)"

fun validate_sysctls :: "string list \<Rightarrow> (string \<times> string) list \<Rightarrow> go_error list option" where
  "validate_sysctls patterns [] = Some []"
| "validate_sysctls patterns ((name, val) # rest) =
     (case ValidateSysctl patterns name of
        None \<Rightarrow> None
      | Some errs \<Rightarrow> map_option ((@) errs) (validate_sysctls patterns rest))"

definition validateAnnotation :: "string list \<Rightarrow> pod \<Rightarrow> string \<Rightarrow> go_error list option" where
  "validateAnnotation patterns p key =
     (case SysctlsFromPodAnnotation (annotation (pod_Annotations p) key) of
        Inl e \<Rightarrow> Some [e]
      | Inr sysctls \<Rightarrow>
          if length sysctls > 0 then
            (if length patterns = 0 then Some [Errorf ''sysctls are not allowed'' []]
             else validate_sysctls patterns sysctls)
          else Some [])"

definition sysctls_Validate :: "string list \<Rightarrow> pod \<Rightarrow> go_error list option" where
  "sysctls_Validate patterns p =
     (case validateAnnotation patterns p SysctlsPodAnnotationKey of
        None \<Rightarrow> None
      | Some e1 \<Rightarrow> map_option ((@) e1) (validateAnnotation patterns p UnsafeSysctlsPodAnnotationKey))"

section \<open>What the provider relies on\<close>

text \<open>
  \<open>unset\<close> is what a pod leaves open, \<open>gen\<close> the generated value and \<open>check\<close> the errors of a value;
  \<open>ok\<close> says which strategies can generate a valid value.
\<close>

locale defaulting =
  fixes ok :: "'s \<Rightarrow> bool" and unset :: "'v \<Rightarrow> bool" and gen :: "'s \<Rightarrow> 'v" and check :: "'s \<Rightarrow> 'v \<Rightarrow> 'e list"
  assumes generated_valid: "ok s \<Longrightarrow> check s (gen s) = []"
    and unset_unique: "unset v \<Longrightarrow> unset w \<Longrightarrow> v = w"
begin

definition fill :: "'s \<Rightarrow> 'v \<Rightarrow> 'v" where
  "fill s v = (if unset v then gen s else v)"

lemma fill_idem: "fill s (fill s v) = fill s v"
  by (simp add: fill_def)

lemma fill_unset_valid: "ok s \<Longrightarrow> unset v \<Longrightarrow> check s (fill s v) = []"
  by (simp add: fill_def generated_valid)

lemma fill_valid_cases: "check s (fill s v) = [] \<Longrightarrow> unset v \<or> check s v = []"
  by (cases "unset v") (simp_all add: fill_def)

end

fun user_ok :: "user_strategy \<Rightarrow> bool" where
  "user_ok (UserMustRunAsRange lo hi) \<longleftrightarrow> lo \<le> hi"
| "user_ok _ \<longleftrightarrow> True"

fun group_ok :: "group_strategy \<Rightarrow> bool" where
  "group_ok (GroupMustRunAs r rs field) \<longleftrightarrow> rng_Min r \<le> rng_Max r"
| "group_ok GroupRunAsAny \<longleftrightarrow> True"

text \<open>The errors of the groups of a pod that has a security context.\<close>

definition group_check :: "group_strategy \<Rightarrow> int list \<Rightarrow> go_error list" where
  "group_check s groups =
     group_Validate s \<lparr>pod_Name = [], pod_Annotations = Map.empty, pod_ServiceAccountName = [],
       pod_SecurityContext = Some empty_pod_security_context, pod_InitContainers = [], pod_Containers = [],
       pod_Volumes = []\<rparr> groups"

lemma group_Validate_check: "pod_SecurityContext p = Some x \<Longrightarrow> group_Validate s p groups = group_check s groups"
  by (cases s) (simp_all add: group_check_def)

interpretation user_default: defaulting user_ok "\<lambda>v. v = None" user_Generate "\<lambda>s. user_check s name"
proof
  fix s v w
  show "user_ok s \<Longrightarrow> user_check s name (user_Generate s) = []" by (cases s) auto
  show "v = None \<Longrightarrow> w = None \<Longrightarrow> v = w" by simp
qed

interpretation selinux_default: defaulting "\<lambda>_. True" "\<lambda>v. v = None" selinux_Generate "\<lambda>s. selinux_check s name"
proof
  fix s v w
  show "selinux_check s name (selinux_Generate s) = []" by (cases s) simp_all
  show "v = None \<Longrightarrow> w = None \<Longrightarrow> v = w" by simp
qed

interpretation supplemental_default: defaulting group_ok "\<lambda>v. v = []" group_Generate group_check
proof
  fix s v w
  show "group_ok s \<Longrightarrow> group_check s (group_Generate s) = []"
    by (cases s) (simp_all add: group_check_def isGroupValid_def fallsInRange_def)
  show "v = [] \<Longrightarrow> w = [] \<Longrightarrow> v = w" by simp
qed

interpretation fsgroup_default: defaulting group_ok "\<lambda>v. v = None" group_GenerateSingle
  "\<lambda>s v. group_check s (case v of None \<Rightarrow> [] | Some g \<Rightarrow> [g])"
proof
  fix s v w
  show "group_ok s \<Longrightarrow> group_check s (case group_GenerateSingle s of None \<Rightarrow> [] | Some g \<Rightarrow> [g]) = []"
    by (cases s) (simp_all add: group_check_def isGroupValid_def fallsInRange_def)
  show "v = None \<Longrightarrow> w = None \<Longrightarrow> v = w" by simp
qed

interpretation seccomp_default: defaulting "\<lambda>_. True" "\<lambda>_. False" seccomp_Generate seccomp_check
proof
  fix s :: "string list" and v w :: string
  have "s \<noteq> [] \<Longrightarrow> list_ex (\<lambda>p. seccomp_Generate s = p \<or> p = allowAnyProfile) s" by (induction s) auto
  then show "seccomp_check s (seccomp_Generate s) = []"
    by (cases s) (auto simp: seccomp_check_def isProfileAllowed_def)
qed simp

section \<open>Capabilities\<close>

definition caps_list :: "(capabilities \<Rightarrow> string list) \<Rightarrow> capabilities option \<Rightarrow> string set" where
  "caps_list f caps = (case caps of None \<Rightarrow> {} | Some c \<Rightarrow> set (f c))"

lemma caps_list_None [simp]: "caps_list f None = {}"
  by (simp add: caps_list_def)

lemma caps_list_if:
  "caps_list cap_Add (if length a = 0 \<and> length b = 0 then None else Some \<lparr>cap_Add = a, cap_Drop = b\<rparr>) = set a"
  "caps_list cap_Drop (if length a = 0 \<and> length b = 0 then None else Some \<lparr>cap_Add = a, cap_Drop = b\<rparr>) = set b"
  by (simp_all add: caps_list_def)

definition sets_of :: "capabilities option \<Rightarrow> sset \<times> sset" where
  "sets_of caps = (case caps of None \<Rightarrow> (NewString [], NewString [])
     | Some c \<Rightarrow> (makeCapSet (cap_Add c), makeCapSet (cap_Drop c)))"

lemma sets_of_Has: "Has (fst (sets_of caps)) x \<longleftrightarrow> x \<in> caps_list cap_Add caps"
  "Has (snd (sets_of caps)) x \<longleftrightarrow> x \<in> caps_list cap_Drop caps"
  by (simp_all add: sets_of_def caps_list_def makeCapSet_def gset_simps split: option.splits)

lemma caps_Generate_eq:
  "caps_Generate s (Some sc) =
     (let add = SList (SetUnion (SetDifference (makeCapSet (cs_defaultAdd s)) (snd (sets_of (sc_Capabilities sc))))
            (fst (sets_of (sc_Capabilities sc))));
          drops = SList (SetUnion (makeCapSet (cs_requiredDrop s)) (snd (sets_of (sc_Capabilities sc))))
      in if length add = 0 \<and> length drops = 0 then None else Some \<lparr>cap_Add = add, cap_Drop = drops\<rparr>)"
  by (simp add: caps_Generate_def sets_of_def Let_def split: option.split)

lemma caps_Generate_sets:
  "caps_list cap_Add (caps_Generate s (Some sc)) =
     (set (cs_defaultAdd s) - caps_list cap_Drop (sc_Capabilities sc)) \<union> caps_list cap_Add (sc_Capabilities sc)"
  "caps_list cap_Drop (caps_Generate s (Some sc)) = set (cs_requiredDrop s) \<union> caps_list cap_Drop (sc_Capabilities sc)"
  unfolding caps_Generate_eq Let_def caps_list_if
  by (auto simp: makeCapSet_def Has_elems gset_simps sets_of_Has)

text \<open>\<open>List\<close> of a union depends only on what the set has, so generating twice changes nothing.\<close>

lemma SList_SetUnion: "SList (SetUnion a b) = sorted_list_of_set {x. Has a x \<or> Has b x}"
proof -
  have "set (elems (SetUnion a b)) = {x. Has a x \<or> Has b x}"
    by (auto simp: Has_elems gset_simps)
  moreover have "distinct (elems (SetUnion a b))"
    by (simp add: SetUnion_def distinct_Insert)
  ultimately show ?thesis by (metis SList_def sorted_list_of_set_sort_remdups distinct_remdups_id)
qed

lemma caps_Generate_sorted:
  "caps_Generate s (Some sc) =
     (let add = sorted_list_of_set (caps_list cap_Add (caps_Generate s (Some sc)));
          drops = sorted_list_of_set (caps_list cap_Drop (caps_Generate s (Some sc)))
      in if length add = 0 \<and> length drops = 0 then None else Some \<lparr>cap_Add = add, cap_Drop = drops\<rparr>)"
proof -
  have A: "{x. Has (SetDifference (makeCapSet (cs_defaultAdd s)) (snd (sets_of (sc_Capabilities sc)))) x \<or>
      Has (fst (sets_of (sc_Capabilities sc))) x} = caps_list cap_Add (caps_Generate s (Some sc))"
    unfolding caps_Generate_sets by (auto simp: makeCapSet_def gset_simps sets_of_Has)
  have B: "{x. Has (makeCapSet (cs_requiredDrop s)) x \<or> Has (snd (sets_of (sc_Capabilities sc))) x}
      = caps_list cap_Drop (caps_Generate s (Some sc))"
    unfolding caps_Generate_sets by (auto simp: makeCapSet_def gset_simps sets_of_Has)
  show ?thesis
    by (subst caps_Generate_eq) (simp only: SList_SetUnion A B)
qed

lemma caps_Generate_idem:
  assumes "sc_Capabilities sc' = caps_Generate s (Some sc)"
  shows "caps_Generate s (Some sc') = caps_Generate s (Some sc)"
proof -
  have "caps_list cap_Add (caps_Generate s (Some sc')) = caps_list cap_Add (caps_Generate s (Some sc))"
    "caps_list cap_Drop (caps_Generate s (Some sc')) = caps_list cap_Drop (caps_Generate s (Some sc))"
    by (auto simp: caps_Generate_sets assms)
  then show ?thesis by (metis caps_Generate_sorted)
qed

text \<open>A generated set of capabilities is checked by what the container itself asks for.\<close>

lemma caps_check_generated:
  "caps_check s (caps_Generate s (Some sc)) = [] \<longleftrightarrow>
   caps_list cap_Add (sc_Capabilities sc) \<subseteq> set (cs_defaultAdd s) \<union> set (cs_allowed s)"
proof (cases "caps_Generate s (Some sc)")
  case None
  note g = caps_Generate_sets [of s sc, unfolded None caps_list_None, symmetric]
  show ?thesis using g None by (auto simp: caps_check_def)
next
  case (Some c)
  have a: "set (cap_Add c) = (set (cs_defaultAdd s) - caps_list cap_Drop (sc_Capabilities sc)) \<union> caps_list cap_Add (sc_Capabilities sc)"
    and d: "set (cap_Drop c) = set (cs_requiredDrop s) \<union> caps_list cap_Drop (sc_Capabilities sc)"
    using caps_Generate_sets [of s sc] Some by (simp_all add: caps_list_def)
  have "caps_check s (Some c) = [] \<longleftrightarrow>
      set (cap_Add c) \<subseteq> set (cs_defaultAdd s) \<union> set (cs_allowed s) \<and> set (cs_requiredDrop s) \<subseteq> set (cap_Drop c)"
    by (auto simp: caps_check_def makeCapSet_def gset_simps filter_empty_conv)
  then show ?thesis using Some a d by auto
qed

end
