(* ===== verification/Scc_Provider.thy ===== *)
theory Scc_Provider
  imports Scc_Strategies
begin

text \<open>
  The provider of a security context constraint (\<open>kubernetes/pkg/securitycontextconstraints/provider.go\<close>)
  and the assignment of security contexts to a pod (\<open>AssignSecurityContext\<close> of
  \<open>origin/pkg/security/scc/matcher.go\<close>).  No strategy fails to generate, so the contexts are created
  without errors.  A validation returns \<open>None\<close> when it panics.
\<close>

section \<open>Providers\<close>

record provider =
  pv_scc :: scc
  pv_user :: user_strategy
  pv_selinux :: selinux_strategy
  pv_fsGroup :: group_strategy
  pv_supplementalGroup :: group_strategy
  pv_caps :: cap_strategy
  pv_seccomp :: "string list"
  pv_sysctls :: "string list"

definition SysctlsPodSecurityPolicyAnnotationKey :: string where
  "SysctlsPodSecurityPolicyAnnotationKey = ''security.alpha.kubernetes.io/sysctls''"

definition createSysctlsStrategy :: "scc \<Rightarrow> string list" where
  "createSysctlsStrategy s =
     NewMustMatchPatterns
       (map_option SysctlsFromPodSecurityPolicyAnnotation
         (scc_Annotations s SysctlsPodSecurityPolicyAnnotationKey))"

definition NewSimpleProvider :: "scc \<Rightarrow> go_error + provider" where
  "NewSimpleProvider s =
     (case createUserStrategy (scc_RunAsUser s) of
        Inl e \<Rightarrow> Inl e
      | Inr user \<Rightarrow>
     (case createSELinuxStrategy (scc_SELinuxContext s) of
        Inl e \<Rightarrow> Inl e
      | Inr selinux \<Rightarrow>
     (case createFSGroupStrategy (scc_FSGroup s) of
        Inl e \<Rightarrow> Inl e
      | Inr fsGroup \<Rightarrow>
     (case createSupplementalGroupStrategy (scc_SupplementalGroups s) of
        Inl e \<Rightarrow> Inl e
      | Inr supGroup \<Rightarrow>
          Inr \<lparr>pv_scc = s, pv_user = user, pv_selinux = selinux, pv_fsGroup = fsGroup,
               pv_supplementalGroup = supGroup,
               pv_caps = \<lparr>cs_defaultAdd = scc_DefaultAddCapabilities s,
                 cs_requiredDrop = scc_RequiredDropCapabilities s, cs_allowed = scc_AllowedCapabilities s\<rparr>,
               pv_seccomp = scc_SeccompProfiles s, pv_sysctls = createSysctlsStrategy s\<rparr>))))"

section \<open>Creating contexts\<close>

definition CreatePodSecurityContext ::
  "provider \<Rightarrow> pod \<Rightarrow> pod_security_context \<times> (string \<rightharpoonup> string)" where
  "CreatePodSecurityContext pv p =
     (let sc0 = (case pod_SecurityContext p of None \<Rightarrow> empty_pod_security_context | Some x \<Rightarrow> x);
          sc1 = (if length (psc_SupplementalGroups sc0) = 0
                 then sc0\<lparr>psc_SupplementalGroups := group_Generate (pv_supplementalGroup pv)\<rparr> else sc0);
          sc2 = (if psc_FSGroup sc1 = None
                 then sc1\<lparr>psc_FSGroup := group_GenerateSingle (pv_fsGroup pv)\<rparr> else sc1);
          sc3 = (if psc_SELinuxOptions sc2 = None
                 then sc2\<lparr>psc_SELinuxOptions := selinux_Generate (pv_selinux pv)\<rparr> else sc2);
          annotations =
            (if pod_Annotations p SeccompPodAnnotationKey = None \<and> seccomp_Generate (pv_seccomp pv) \<noteq> []
             then (pod_Annotations p)(SeccompPodAnnotationKey \<mapsto> seccomp_Generate (pv_seccomp pv))
             else pod_Annotations p)
      in (sc3, annotations))"

definition CreateContainerSecurityContext :: "provider \<Rightarrow> container \<Rightarrow> security_context" where
  "CreateContainerSecurityContext pv c =
     (let sc0 = (case ct_SecurityContext c of None \<Rightarrow> empty_security_context | Some x \<Rightarrow> x);
          sc1 = (if sc_RunAsUser sc0 = None then sc0\<lparr>sc_RunAsUser := user_Generate (pv_user pv)\<rparr> else sc0);
          sc2 = (if sc_SELinuxOptions sc1 = None
                 then sc1\<lparr>sc_SELinuxOptions := selinux_Generate (pv_selinux pv)\<rparr> else sc1);
          sc3 = (if sc_Privileged sc2 = None then sc2\<lparr>sc_Privileged := Some False\<rparr> else sc2);
          sc4 = (if rau_Type (scc_RunAsUser (pv_scc pv)) = MustRunAsNonRoot
                 then sc3\<lparr>sc_RunAsNonRoot := Some True\<rparr> else sc3);
          sc5 = sc4\<lparr>sc_Capabilities := caps_Generate (pv_caps pv) (ct_SecurityContext c)\<rparr>
      in if scc_ReadOnlyRootFilesystem (pv_scc pv) \<and> sc_ReadOnlyRootFilesystem sc5 = None
         then sc5\<lparr>sc_ReadOnlyRootFilesystem := Some True\<rparr> else sc5)"

section \<open>Validating contexts\<close>

text \<open>Errors of checks made one after another; a panic ends them.\<close>

fun all_errors :: "go_error list option list \<Rightarrow> go_error list option" where
  "all_errors [] = Some []"
| "all_errors (x # xs) = (case x of None \<Rightarrow> None | Some es \<Rightarrow> map_option ((@) es) (all_errors xs))"

definition host_check ::
  "bool \<Rightarrow> (pod_security_context \<Rightarrow> bool) \<Rightarrow> go_error \<Rightarrow> pod \<Rightarrow> go_error list option" where
  "host_check allowed used err p =
     (if allowed then Some []
      else (case pod_SecurityContext p of
              None \<Rightarrow> None
            | Some psc \<Rightarrow> Some (if used psc then [err] else [])))"

definition host_checks :: "scc \<Rightarrow> pod \<Rightarrow> go_error list option" where
  "host_checks s p =
     all_errors
       [host_check (scc_AllowHostPID s) psc_HostPID (Errorf ''hostPID: Host PID is not allowed to be used'' []) p,
        host_check (scc_AllowHostIPC s) psc_HostIPC (Errorf ''hostIPC: Host IPC is not allowed to be used'' []) p]"

definition ValidatePodSecurityContext :: "provider \<Rightarrow> pod \<Rightarrow> go_error list option" where
  "ValidatePodSecurityContext pv p =
     (case pod_SecurityContext p of
        None \<Rightarrow> Some [Errorf ''No security context is set'' []]
      | Some psc \<Rightarrow>
          let fsGroups = (case psc_FSGroup psc of None \<Rightarrow> [] | Some g \<Rightarrow> [g]);
              dummy = \<lparr>ct_Name = pod_Name p, ct_HostPorts = [],
                ct_SecurityContext = Some (empty_security_context\<lparr>sc_SELinuxOptions := psc_SELinuxOptions psc\<rparr>)\<rparr>
          in all_errors
               [Some (group_Validate (pv_fsGroup pv) p fsGroups),
                Some (group_Validate (pv_supplementalGroup pv) p (psc_SupplementalGroups psc)),
                Some (seccomp_ValidatePod (pv_seccomp pv) p),
                Some (selinux_Validate (pv_selinux pv) dummy),
                host_check (scc_AllowHostNetwork (pv_scc pv)) psc_HostNetwork
                  (Errorf ''hostNetwork: Host network is not allowed to be used'' []) p,
                host_checks (pv_scc pv) p,
                sysctls_Validate (pv_sysctls pv) p])"

definition volume_errors :: "scc \<Rightarrow> pod \<Rightarrow> go_error list" where
  "volume_errors s p =
     (if length (pod_Volumes p) > 0 \<and> \<not> SCCAllowsAllVolumes s then
        concat (map (\<lambda>v. case GetVolumeFSType v of
                  Inl e \<Rightarrow> [e]
                | Inr fsType \<Rightarrow>
                    if \<not> Has (FSTypeToStringSet (scc_Volumes s)) fsType
                    then [Errorf ''%s volumes are not allowed to be used'' [fsType]] else [])
          (pod_Volumes p))
      else [])"

definition hasHostPort :: "container \<Rightarrow> go_error list" where
  "hasHostPort c =
     map (\<lambda>port. Errorf ''hostPort: Host ports are not allowed to be used'' []) (filter (\<lambda>port. port > 0) (ct_HostPorts c))"

definition ValidateContainerSecurityContext :: "provider \<Rightarrow> pod \<Rightarrow> container \<Rightarrow> go_error list option" where
  "ValidateContainerSecurityContext pv p c =
     (case ct_SecurityContext c of
        None \<Rightarrow> Some [Errorf ''No security context is set'' []]
      | Some sc \<Rightarrow>
          all_errors
            [Some (user_Validate (pv_user pv) c),
             Some (selinux_Validate (pv_selinux pv) c),
             Some (seccomp_ValidateContainer (pv_seccomp pv) p c),
             (if scc_AllowPrivilegedContainer (pv_scc pv) then Some []
              else (case sc_Privileged sc of
                      None \<Rightarrow> None
                    | Some b \<Rightarrow> Some (if b then [Errorf ''privileged: Privileged containers are not allowed'' []] else []))),
             Some (caps_Validate (pv_caps pv) c),
             Some (volume_errors (pv_scc pv) p),
             host_check (scc_AllowHostNetwork (pv_scc pv)) psc_HostNetwork
               (Errorf ''hostNetwork: Host network is not allowed to be used'' []) p,
             Some (if \<not> scc_AllowHostPorts (pv_scc pv)
                   then concat (map hasHostPort (pod_Containers p)) @ concat (map hasHostPort (pod_InitContainers p))
                   else []),
             host_checks (pv_scc pv) p,
             Some (if scc_ReadOnlyRootFilesystem (pv_scc pv) then
                     (case sc_ReadOnlyRootFilesystem sc of
                        None \<Rightarrow> [Errorf ''ReadOnlyRootFilesystem may not be nil and must be set to true'' []]
                      | Some b \<Rightarrow> if \<not> b then [Errorf ''ReadOnlyRootFilesystem must be set to true'' []] else [])
                   else [])])"

section \<open>Assigning contexts to a pod\<close>

definition resolveContainerSecurityContext ::
  "provider \<Rightarrow> pod \<Rightarrow> container \<Rightarrow> (security_context \<times> go_error list) option" where
  "resolveContainerSecurityContext pv p c =
     (let c1 = c\<lparr>ct_SecurityContext := DetermineEffectiveSecurityContext p c\<rparr>;
          csc = CreateContainerSecurityContext pv c1
      in map_option (Pair csc) (ValidateContainerSecurityContext pv p (c1\<lparr>ct_SecurityContext := Some csc\<rparr>)))"

fun resolve_containers ::
  "provider \<Rightarrow> pod \<Rightarrow> container list \<Rightarrow> (container list \<times> go_error list) option" where
  "resolve_containers pv p [] = Some ([], [])"
| "resolve_containers pv p (c # cs) =
     (case resolveContainerSecurityContext pv p c of
        None \<Rightarrow> None
      | Some (csc, errs) \<Rightarrow>
          (case resolve_containers pv p cs of
             None \<Rightarrow> None
           | Some (cs', errs') \<Rightarrow> Some (c\<lparr>ct_SecurityContext := Some csc\<rparr> # cs', errs @ errs')))"

text \<open>Any error leaves the pod as it was.\<close>

definition AssignSecurityContext :: "provider \<Rightarrow> pod \<Rightarrow> (go_error list \<times> pod) option" where
  "AssignSecurityContext pv p =
     (let (psc, annotations) = CreatePodSecurityContext pv p;
          p1 = p\<lparr>pod_SecurityContext := Some psc, pod_Annotations := annotations\<rparr>
      in case ValidatePodSecurityContext pv p1 of
           None \<Rightarrow> None
         | Some errs0 \<Rightarrow>
             (case resolve_containers pv p1 (pod_InitContainers p1) of
                None \<Rightarrow> None
              | Some (inits, errs1) \<Rightarrow>
                  (case resolve_containers pv p1 (pod_Containers p1) of
                     None \<Rightarrow> None
                   | Some (containers, errs2) \<Rightarrow>
                       let errs = errs0 @ errs1 @ errs2 in
                       if length errs > 0 then Some (errs, p)
                       else Some ([], p1\<lparr>pod_InitContainers := inits, pod_Containers := containers\<rparr>))))"

end
