(* ===== verification/Alloc_Bitmap.thy ===== *)
theory Alloc_Bitmap
  imports Go_Numbers
begin

text \<open>
  \<open>kubernetes/pkg/registry/core/service/allocator/bitmap.go\<close> and \<open>utils.go\<close>: the
  allocator behind the UID, MCS label and network id pools.  The \<open>big.Int\<close> is a natural
  number read bitwise, the search strategy is a function field as in the code, and the random
  draw \<open>rand.Intn(max)\<close> is an argument.  The interface \<open>allocator.Interface\<close> is the record
  \<open>alloc_ops\<close> of operations with the locale \<open>allocation\<close> for what its clients rely on.
\<close>

unbundle bit_operations_syntax

named_theorems alloc_simps \<open>effect of the operations on the set of allocated offsets\<close>

section \<open>The bitmap\<close>

text \<open>The draw, the bitmap, the maximum and the count; the answer is an offset, when it finds one.\<close>

type_synonym allocate_strategy = "nat \<Rightarrow> nat \<Rightarrow> nat \<Rightarrow> int \<Rightarrow> nat option"

record alloc_bitmap =
  am_strategy :: allocate_strategy
  am_max :: nat
  am_rangeSpec :: string
  am_count :: int
  am_allocated :: nat

fun scan_from :: "nat \<Rightarrow> nat \<Rightarrow> nat \<Rightarrow> nat \<Rightarrow> nat \<Rightarrow> nat option" where
  "scan_from offset allocated limit i 0 = None"
| "scan_from offset allocated limit i (Suc todo) =
     (let candidate = (offset + i) mod limit
      in if \<not> bit allocated candidate then Some candidate
         else scan_from offset allocated limit (Suc i) todo)"

definition randomScanStrategy :: allocate_strategy where
  "randomScanStrategy draw allocated limit count =
     (if count \<ge> int limit then None else scan_from draw allocated limit 0 limit)"

fun scan_contiguous :: "nat \<Rightarrow> nat \<Rightarrow> nat \<Rightarrow> nat option" where
  "scan_contiguous allocated i 0 = None"
| "scan_contiguous allocated i (Suc todo) =
     (if \<not> bit allocated i then Some i else scan_contiguous allocated (Suc i) todo)"

definition contiguousScanStrategy :: allocate_strategy where
  "contiguousScanStrategy draw allocated limit count =
     (if count \<ge> int limit then None else scan_contiguous allocated 0 limit)"

definition NewAllocationMap :: "nat \<Rightarrow> string \<Rightarrow> alloc_bitmap" where
  "NewAllocationMap limit rangeSpec =
     \<lparr>am_strategy = randomScanStrategy, am_max = limit, am_rangeSpec = rangeSpec, am_count = 0,
      am_allocated = 0\<rparr>"

definition NewContiguousAllocationMap :: "nat \<Rightarrow> string \<Rightarrow> alloc_bitmap" where
  "NewContiguousAllocationMap limit rangeSpec =
     \<lparr>am_strategy = contiguousScanStrategy, am_max = limit, am_rangeSpec = rangeSpec,
      am_count = 0, am_allocated = 0\<rparr>"

definition bm_Allocate :: "alloc_bitmap \<Rightarrow> nat \<Rightarrow> alloc_bitmap \<times> (go_error + bool)" where
  "bm_Allocate r offset =
     (if bit (am_allocated r) offset then (r, Inr False)
      else (r\<lparr>am_allocated := set_bit offset (am_allocated r), am_count := am_count r + 1\<rparr>,
            Inr True))"

definition bm_AllocateNext ::
  "nat \<Rightarrow> alloc_bitmap \<Rightarrow> alloc_bitmap \<times> (go_error + nat option)" where
  "bm_AllocateNext draw r =
     (case am_strategy r draw (am_allocated r) (am_max r) (am_count r) of
        None \<Rightarrow> (r, Inr None)
      | Some n \<Rightarrow>
          (r\<lparr>am_count := am_count r + 1, am_allocated := set_bit n (am_allocated r)\<rparr>,
           Inr (Some n)))"

definition bm_Release :: "alloc_bitmap \<Rightarrow> nat \<Rightarrow> alloc_bitmap \<times> go_error option" where
  "bm_Release r offset =
     (if \<not> bit (am_allocated r) offset then (r, None)
      else (r\<lparr>am_allocated := unset_bit offset (am_allocated r), am_count := am_count r - 1\<rparr>,
            None))"

definition bm_Has :: "alloc_bitmap \<Rightarrow> nat \<Rightarrow> bool" where
  "bm_Has r offset = bit (am_allocated r) offset"

definition bm_Free :: "alloc_bitmap \<Rightarrow> int" where
  "bm_Free r = int (am_max r) - am_count r"

text \<open>\<open>big.Int.Bytes\<close> (big-endian, no leading zero byte) and \<open>SetBytes\<close>.\<close>

fun big_Bytes :: "nat \<Rightarrow> nat list" where
  "big_Bytes n = (if n = 0 then [] else big_Bytes (n div 256) @ [n mod 256])"

declare big_Bytes.simps [simp del]

definition big_SetBytes :: "nat list \<Rightarrow> nat" where
  "big_SetBytes bs = foldl (\<lambda>acc b. acc * 256 + b) 0 bs"

definition bitCounts :: "nat list" where
  "bitCounts =
     [0, 1, 1, 2, 1, 2, 2, 3, 1, 2, 2, 3, 2, 3, 3, 4, 1, 2, 2, 3, 2, 3, 3, 4, 2, 3, 3, 4, 3, 4, 4, 5,
      1, 2, 2, 3, 2, 3, 3, 4, 2, 3, 3, 4, 3, 4, 4, 5, 2, 3, 3, 4, 3, 4, 4, 5, 3, 4, 4, 5, 4, 5, 5, 6,
      1, 2, 2, 3, 2, 3, 3, 4, 2, 3, 3, 4, 3, 4, 4, 5, 2, 3, 3, 4, 3, 4, 4, 5, 3, 4, 4, 5, 4, 5, 5, 6,
      2, 3, 3, 4, 3, 4, 4, 5, 3, 4, 4, 5, 4, 5, 5, 6, 3, 4, 4, 5, 4, 5, 5, 6, 4, 5, 5, 6, 5, 6, 6, 7,
      1, 2, 2, 3, 2, 3, 3, 4, 2, 3, 3, 4, 3, 4, 4, 5, 2, 3, 3, 4, 3, 4, 4, 5, 3, 4, 4, 5, 4, 5, 5, 6,
      2, 3, 3, 4, 3, 4, 4, 5, 3, 4, 4, 5, 4, 5, 5, 6, 3, 4, 4, 5, 4, 5, 5, 6, 4, 5, 5, 6, 5, 6, 6, 7,
      2, 3, 3, 4, 3, 4, 4, 5, 3, 4, 4, 5, 4, 5, 5, 6, 3, 4, 4, 5, 4, 5, 5, 6, 4, 5, 5, 6, 5, 6, 6, 7,
      3, 4, 4, 5, 4, 5, 5, 6, 4, 5, 5, 6, 5, 6, 6, 7, 4, 5, 5, 6, 5, 6, 6, 7, 5, 6, 6, 7, 6, 7, 7, 8]"

definition countBits :: "nat \<Rightarrow> int" where
  "countBits n = int (sum_list (map (\<lambda>b. bitCounts ! b) (big_Bytes n)))"

definition bm_Snapshot :: "alloc_bitmap \<Rightarrow> string \<times> nat list" where
  "bm_Snapshot r = (am_rangeSpec r, big_Bytes (am_allocated r))"

definition range_mismatch :: go_error where
  "range_mismatch = Errorf ''the provided range does not match the current range'' []"

definition bm_Restore :: "alloc_bitmap \<Rightarrow> string \<Rightarrow> nat list \<Rightarrow> alloc_bitmap \<times> go_error option" where
  "bm_Restore r rangeSpec data =
     (if am_rangeSpec r \<noteq> rangeSpec then (r, Some range_mismatch)
      else (r\<lparr>am_allocated := big_SetBytes data, am_count := countBits (big_SetBytes data)\<rparr>, None))"

section \<open>The count is the number of set bits\<close>

definition bits_of :: "nat \<Rightarrow> nat set" where
  "bits_of n = {i. bit n i}"

fun popcount :: "nat \<Rightarrow> nat" where
  "popcount n = (if n = 0 then 0 else n mod 2 + popcount (n div 2))"

declare popcount.simps [simp del]

lemma bits_of_step: "bits_of n = (if odd n then {0} else {}) \<union> Suc ` bits_of (n div 2)"
proof (intro set_eqI)
  fix i show "i \<in> bits_of n \<longleftrightarrow> i \<in> (if odd n then {0} else {}) \<union> Suc ` bits_of (n div 2)"
    by (cases i) (auto simp: bits_of_def bit_0 bit_Suc)
qed

lemma popcount_bits: "finite (bits_of n) \<and> card (bits_of n) = popcount n"
proof (induction n rule: popcount.induct)
  case (1 n)
  show ?case
  proof (cases "n = 0")
    case False
    with 1 have IH: "finite (bits_of (n div 2))" "card (bits_of (n div 2)) = popcount (n div 2)"
      by auto
    have fin: "finite (bits_of n)"
      using IH(1) by (simp add: bits_of_step [of n])
    have "card (bits_of n) = n mod 2 + card (Suc ` bits_of (n div 2))"
      using IH(1) by (subst bits_of_step) (simp add: card_insert_if image_iff odd_iff_mod_2_eq_one)
    with fin show ?thesis
      using False IH(2) by (simp add: popcount.simps [of n] card_image)
  qed (simp add: bits_of_def popcount.simps [of 0])
qed

lemma finite_bits_of [simp]: "finite (bits_of n)"
  by (simp add: popcount_bits)

lemma popcount_numerals:
  "popcount 0 = 0" "popcount (Suc 0) = 1"
  "popcount (numeral k) = numeral k mod 2 + popcount (numeral k div 2)"
  by (simp_all add: popcount.simps [of 0] popcount.simps [of "Suc 0"] popcount.simps [of "numeral k"])

lemma bitCounts_table: "map popcount [0..<256] = bitCounts"
  by (simp add: bitCounts_def upt_rec [of 0 256] upt_rec [of "Suc 0" 256] upt_rec_numeral popcount_numerals
      flip: numeral_2_eq_2)

lemma bitCounts_popcount: "b < 256 \<Longrightarrow> bitCounts ! b = popcount b"
  by (simp flip: bitCounts_table)

lemma bits_of_byte:
  "bits_of n = bits_of (n mod 256) \<union> (\<lambda>i. i + 8) ` bits_of (n div 256)"
proof (intro set_eqI)
  fix i
  have low: "bit (n mod 256) j \<longleftrightarrow> j < 8 \<and> bit n j" for j
    using bit_take_bit_iff [of 8 n j] by (simp add: take_bit_eq_mod)
  have high: "bit (n div 256) j \<longleftrightarrow> bit n (8 + j)" for j
    using bit_drop_bit_eq [of 8 n] by (simp add: drop_bit_eq_div fun_eq_iff)
  show "i \<in> bits_of n \<longleftrightarrow> i \<in> bits_of (n mod 256) \<union> (\<lambda>i. i + 8) ` bits_of (n div 256)"
  proof (cases "i < 8")
    case False
    then obtain k where "i = k + 8" by (metis add.commute le_iff_add not_less)
    then show ?thesis
      by (simp add: bits_of_def low high image_iff add.commute)
  qed (auto simp: bits_of_def low)
qed

lemma popcount_byte: "popcount n = popcount (n mod 256) + popcount (n div 256)"
proof -
  have "bits_of (n mod 256) \<inter> (\<lambda>i. i + 8) ` bits_of (n div 256) = {}"
    using bit_take_bit_iff [of 8 n] by (auto simp: bits_of_def take_bit_eq_mod)
  then have "card (bits_of n) = card (bits_of (n mod 256)) + card (bits_of (n div 256))"
    by (subst bits_of_byte) (simp add: card_Un_disjoint card_image inj_on_def)
  then show ?thesis by (simp add: popcount_bits)
qed

lemma countBits_card: "countBits n = int (card (bits_of n))"
proof -
  have "sum_list (map (\<lambda>b. bitCounts ! b) (big_Bytes n)) = popcount n"
  proof (induction n rule: big_Bytes.induct)
    case (1 n)
    show ?case
    proof (cases "n = 0")
      case False
      with 1 show ?thesis
        by (simp add: big_Bytes.simps [of n] bitCounts_popcount popcount_byte [of n])
    qed (simp add: big_Bytes.simps [of 0] popcount.simps [of 0])
  qed
  then show ?thesis by (simp add: countBits_def popcount_bits)
qed

lemma SetBytes_Bytes: "big_SetBytes (big_Bytes n) = n"
proof (induction n rule: big_Bytes.induct)
  case (1 n)
  then show ?case
    by (cases "n = 0") (simp_all add: big_Bytes.simps [of n] big_Bytes.simps [of 0] big_SetBytes_def)
qed

section \<open>The interface \<open>allocator.Interface\<close>\<close>

record 's alloc_ops =
  op_Allocate :: "'s \<Rightarrow> nat \<Rightarrow> 's \<times> (go_error + bool)"
  op_AllocateNext :: "nat \<Rightarrow> 's \<Rightarrow> 's \<times> (go_error + nat option)"
  op_Release :: "'s \<Rightarrow> nat \<Rightarrow> 's \<times> go_error option"
  op_Has :: "'s \<Rightarrow> nat \<Rightarrow> bool"
  op_Free :: "'s \<Rightarrow> int"

definition bitmap_ops :: "alloc_bitmap alloc_ops" where
  "bitmap_ops =
     \<lparr>op_Allocate = bm_Allocate, op_AllocateNext = bm_AllocateNext, op_Release = bm_Release,
      op_Has = bm_Has, op_Free = bm_Free\<rparr>"

text \<open>
  What a pool of \<open>cap\<close> offsets promises: \<open>ok\<close> is kept, an offset in range can be taken once,
  \<open>AllocateNext\<close> finds a free offset whenever there is one, and \<open>Release\<close> frees exactly its
  argument.
\<close>

locale allocation =
  fixes ops :: "'s alloc_ops" and ok :: "'s \<Rightarrow> bool" and cap :: nat
  assumes Has_range: "ok s \<Longrightarrow> op_Has ops s n \<Longrightarrow> n < cap"
    and Allocate_taken: "ok s \<Longrightarrow> op_Has ops s n \<Longrightarrow> op_Allocate ops s n = (s, Inr False)"
    and Allocate_free: "ok s \<Longrightarrow> \<not> op_Has ops s n \<Longrightarrow> n < cap \<Longrightarrow>
      (\<exists>s'. op_Allocate ops s n = (s', Inr True) \<and> ok s'
        \<and> op_Has ops s' = (op_Has ops s)(n := True))"
    and Next_full: "ok s \<Longrightarrow> (\<And>n. n < cap \<Longrightarrow> op_Has ops s n) \<Longrightarrow>
      op_AllocateNext ops draw s = (s, Inr None)"
    and Next_free: "ok s \<Longrightarrow> \<not> op_Has ops s m \<Longrightarrow> m < cap \<Longrightarrow>
      (\<exists>s' n. op_AllocateNext ops draw s = (s', Inr (Some n)) \<and> n < cap \<and> \<not> op_Has ops s n
        \<and> ok s' \<and> op_Has ops s' = (op_Has ops s)(n := True))"
    and Release_ok: "ok s \<Longrightarrow>
      (\<exists>s'. op_Release ops s n = (s', None) \<and> ok s'
        \<and> op_Has ops s' = (op_Has ops s)(n := False))"
    and Free_count: "ok s \<Longrightarrow> op_Free ops s = int cap - int (card {n. op_Has ops s n})"
begin

lemma Next_cases:
  assumes "ok s"
  obtains (full) "op_AllocateNext ops draw s = (s, Inr None)" "\<And>n. n < cap \<Longrightarrow> op_Has ops s n"
  | (found) s' n where "op_AllocateNext ops draw s = (s', Inr (Some n))" "n < cap"
      "\<not> op_Has ops s n" "ok s'" "op_Has ops s' = (op_Has ops s)(n := True)"
proof (cases "\<exists>m < cap. \<not> op_Has ops s m")
  case True
  then show ?thesis using Next_free [OF assms] found by blast
next
  case False
  then have "\<And>n. n < cap \<Longrightarrow> op_Has ops s n" by blast
  moreover from this have "op_AllocateNext ops draw s = (s, Inr None)"
    by (rule Next_full [OF assms])
  ultimately show ?thesis by (rule full [rotated])
qed

lemma Allocate_cases:
  assumes "ok s" "n < cap"
  obtains (taken) "op_Allocate ops s n = (s, Inr False)" "op_Has ops s n"
  | (fresh) s' where "op_Allocate ops s n = (s', Inr True)" "\<not> op_Has ops s n" "ok s'"
      "op_Has ops s' = (op_Has ops s)(n := True)"
  using Allocate_taken Allocate_free assms by blast

lemma Release_cases:
  assumes "ok s"
  obtains s' where "op_Release ops s n = (s', None)" "ok s'"
    "op_Has ops s' = (op_Has ops s)(n := False)"
  using Release_ok [OF assms] by blast

end

section \<open>The bitmap implements it\<close>

definition bitmap_ok :: "allocate_strategy \<Rightarrow> nat \<Rightarrow> alloc_bitmap \<Rightarrow> bool" where
  "bitmap_ok strategy cap r \<longleftrightarrow> am_max r = cap \<and> am_strategy r = strategy
     \<and> strategy \<in> {randomScanStrategy, contiguousScanStrategy}
     \<and> am_count r = countBits (am_allocated r) \<and> bits_of (am_allocated r) \<subseteq> {..<cap}"

lemma bits_of_set_bit [alloc_simps]: "bits_of (set_bit n a) = insert n (bits_of a)"
  by (auto simp: bits_of_def bit_set_bit_iff)

lemma bits_of_unset_bit [alloc_simps]: "bits_of (unset_bit n a) = bits_of a - {n}"
  by (auto simp: bits_of_def bit_unset_bit_iff)

lemma bit_bits_of [alloc_simps]: "bit a n \<longleftrightarrow> n \<in> bits_of a"
  by (simp add: bits_of_def)

lemma scan_from_Some:
  "scan_from d a m i l = Some x \<Longrightarrow> \<not> bit a x \<and> (0 < m \<longrightarrow> x < m)"
  by (induction l arbitrary: i) (auto simp: Let_def split: if_splits)

lemma scan_from_None:
  "scan_from d a m i l = None \<Longrightarrow> i \<le> j \<Longrightarrow> j < i + l \<Longrightarrow> bit a ((d + j) mod m)"
proof (induction l arbitrary: i)
  case (Suc l)
  then show ?case
    by (cases "i = j") (auto simp: Let_def split: if_splits)
qed simp

lemma scan_contiguous_Some:
  "scan_contiguous a i l = Some x \<Longrightarrow> \<not> bit a x \<and> i \<le> x \<and> x < i + l \<and> (\<forall>j. i \<le> j \<and> j < x \<longrightarrow> bit a j)"
proof (induction l arbitrary: i)
  case (Suc l)
  then show ?case
  proof (cases "bit a i")
    case True
    have IH: "\<not> bit a x \<and> Suc i \<le> x \<and> x < Suc i + l \<and> (\<forall>j. Suc i \<le> j \<and> j < x \<longrightarrow> bit a j)"
      using Suc.IH [of "Suc i"] Suc.prems True by simp
    have "bit a j" if "i \<le> j" "j < x" for j
      using that IH True by (cases "j = i") auto
    with IH show ?thesis by auto
  qed auto
qed simp

lemma scan_contiguous_None:
  "scan_contiguous a i l = None \<Longrightarrow> i \<le> j \<Longrightarrow> j < i + l \<Longrightarrow> bit a j"
proof (induction l arbitrary: i)
  case (Suc l)
  then show ?case by (cases "i = j") (auto split: if_splits)
qed simp

text \<open>Either strategy finds a free offset below the maximum exactly when there is one.\<close>

lemma strategy_Some:
  assumes "strategy \<in> {randomScanStrategy, contiguousScanStrategy}"
    and "strategy d a m c = Some x"
  shows "\<not> bit a x \<and> x < m"
  using assms scan_from_Some [of d a m 0 m x] scan_contiguous_Some [of a 0 m x]
  by (cases "m = 0") (auto simp: randomScanStrategy_def contiguousScanStrategy_def split: if_splits)

lemma strategy_None:
  assumes "strategy \<in> {randomScanStrategy, contiguousScanStrategy}"
    and "strategy d a m c = None" and "c < int m" and "x < m"
  shows "bit a x"
proof -
  obtain j where "j < m" "(d + j) mod m = x" using residue_reached [OF assms(4)] by blast
  then show ?thesis
    using assms scan_from_None [of d a m 0 m j] scan_contiguous_None [of a 0 m x]
    by (auto simp: randomScanStrategy_def contiguousScanStrategy_def)
qed

lemma bitmap_ok_count: "bitmap_ok strategy cap r \<Longrightarrow> am_count r = int (card (bits_of (am_allocated r)))"
  by (simp add: bitmap_ok_def countBits_card)

lemma bitmap_Next:
  assumes ok: "bitmap_ok strategy cap r" and m: "m < cap" "\<not> bit (am_allocated r) m"
  shows "\<exists>n. am_strategy r d (am_allocated r) (am_max r) (am_count r) = Some n
    \<and> n < cap \<and> \<not> bit (am_allocated r) n"
proof -
  have "bits_of (am_allocated r) \<subset> {..<cap}"
    using ok m by (auto simp: bitmap_ok_def bits_of_def)
  then have "card (bits_of (am_allocated r)) < cap"
    using psubset_card_mono [of "{..<cap}"] by simp
  then have lt: "am_count r < int (am_max r)"
    using ok bitmap_ok_count [OF ok] by (simp add: bitmap_ok_def)
  have strategy: "am_strategy r \<in> {randomScanStrategy, contiguousScanStrategy}" "am_max r = cap"
    using ok by (simp_all add: bitmap_ok_def)
  show ?thesis
  proof (cases "am_strategy r d (am_allocated r) (am_max r) (am_count r)")
    case None
    then show ?thesis using strategy_None [OF strategy(1) None lt] m strategy(2) by simp
  next
    case (Some n)
    then show ?thesis using strategy_Some [OF strategy(1) Some] strategy(2) by simp
  qed
qed

lemma bitmap_full:
  assumes ok: "bitmap_ok strategy cap r" and full: "\<And>n. n < cap \<Longrightarrow> bit (am_allocated r) n"
  shows "am_strategy r d (am_allocated r) (am_max r) (am_count r) = None"
proof (rule ccontr)
  assume "am_strategy r d (am_allocated r) (am_max r) (am_count r) \<noteq> None"
  then obtain x where "am_strategy r d (am_allocated r) (am_max r) (am_count r) = Some x" by blast
  moreover have "am_strategy r \<in> {randomScanStrategy, contiguousScanStrategy}" "am_max r = cap"
    using ok by (simp_all add: bitmap_ok_def)
  ultimately have "\<not> bit (am_allocated r) x" "x < cap"
    using strategy_Some by blast+
  then show False using full by simp
qed

lemma bitmap_ok_set:
  "bitmap_ok strategy cap r \<Longrightarrow> n < cap \<Longrightarrow> \<not> bit (am_allocated r) n \<Longrightarrow>
   bitmap_ok strategy cap (r\<lparr>am_allocated := set_bit n (am_allocated r), am_count := am_count r + 1\<rparr>)"
  "bitmap_ok strategy cap r \<Longrightarrow> n < cap \<Longrightarrow> \<not> bit (am_allocated r) n \<Longrightarrow>
   bitmap_ok strategy cap (r\<lparr>am_count := am_count r + 1, am_allocated := set_bit n (am_allocated r)\<rparr>)"
  by (simp_all add: bitmap_ok_def countBits_card alloc_simps)

lemma bitmap_ok_unset:
  "bitmap_ok strategy cap r \<Longrightarrow> bit (am_allocated r) n \<Longrightarrow>
   bitmap_ok strategy cap (r\<lparr>am_allocated := unset_bit n (am_allocated r), am_count := am_count r - 1\<rparr>)"
proof -
  assume ok: "bitmap_ok strategy cap r" and n: "bit (am_allocated r) n"
  then have "int (card (bits_of (am_allocated r) - {n})) = int (card (bits_of (am_allocated r))) - 1"
    using card_Suc_Diff1 [of "bits_of (am_allocated r)" n] by (simp add: bit_bits_of)
  with ok show ?thesis
    by (auto simp: bitmap_ok_def countBits_card alloc_simps)
qed

lemmas bitmap_op_defs = bitmap_ops_def bm_Allocate_def bm_AllocateNext_def bm_Release_def
  bm_Has_def bm_Free_def

interpretation bitmap: allocation bitmap_ops "bitmap_ok strategy cap" cap for strategy cap
proof unfold_locales
  fix s n assume "bitmap_ok strategy cap s" "op_Has bitmap_ops s n"
  then show "n < cap" by (auto simp: bitmap_ok_def bitmap_op_defs bits_of_def)
next
  fix s n assume "op_Has bitmap_ops s n"
  then show "op_Allocate bitmap_ops s n = (s, Inr False)" by (simp add: bitmap_op_defs)
next
  fix s n assume "bitmap_ok strategy cap s" "\<not> op_Has bitmap_ops s n" "n < cap"
  then show "\<exists>s'. op_Allocate bitmap_ops s n = (s', Inr True) \<and> bitmap_ok strategy cap s'
      \<and> op_Has bitmap_ops s' = (op_Has bitmap_ops s)(n := True)"
    by (auto simp: bitmap_op_defs bitmap_ok_set fun_eq_iff bit_set_bit_iff)
next
  fix s draw assume "bitmap_ok strategy cap s" "\<And>n. n < cap \<Longrightarrow> op_Has bitmap_ops s n"
  then have "am_strategy s draw (am_allocated s) (am_max s) (am_count s) = None"
    by (intro bitmap_full) (simp_all add: bitmap_op_defs)
  then show "op_AllocateNext bitmap_ops draw s = (s, Inr None)" by (simp add: bitmap_op_defs)
next
  fix s m draw assume ok: "bitmap_ok strategy cap s" and m: "\<not> op_Has bitmap_ops s m" "m < cap"
  obtain n where n: "am_strategy s draw (am_allocated s) (am_max s) (am_count s) = Some n"
      "n < cap" "\<not> bit (am_allocated s) n"
    using bitmap_Next [OF ok m(2)] m(1) by (auto simp: bitmap_op_defs)
  then show "\<exists>s' n. op_AllocateNext bitmap_ops draw s = (s', Inr (Some n)) \<and> n < cap
      \<and> \<not> op_Has bitmap_ops s n \<and> bitmap_ok strategy cap s'
      \<and> op_Has bitmap_ops s' = (op_Has bitmap_ops s)(n := True)"
    using bitmap_ok_set(2) [OF ok n(2,3)]
    by (auto simp: bitmap_op_defs fun_eq_iff bit_set_bit_iff add.commute)
next
  fix s n assume "bitmap_ok strategy cap s"
  then show "\<exists>s'. op_Release bitmap_ops s n = (s', None) \<and> bitmap_ok strategy cap s'
      \<and> op_Has bitmap_ops s' = (op_Has bitmap_ops s)(n := False)"
    by (auto simp: bitmap_op_defs bitmap_ok_unset fun_eq_iff bit_unset_bit_iff)
next
  fix s assume "bitmap_ok strategy cap s"
  then show "op_Free bitmap_ops s = int cap - int (card {n. op_Has bitmap_ops s n})"
    using bitmap_ok_count [of strategy cap s] by (simp add: bitmap_op_defs bitmap_ok_def bits_of_def)
qed

text \<open>With the random strategy, any free offset may be the one that is drawn.\<close>

lemma random_draw:
  assumes ok: "bitmap_ok randomScanStrategy cap r" and n: "n < cap" "\<not> bit (am_allocated r) n"
  shows "am_strategy r n (am_allocated r) (am_max r) (am_count r) = Some n"
proof -
  have "am_strategy r = randomScanStrategy" "am_max r = cap" using ok by (simp_all add: bitmap_ok_def)
  moreover from this have "am_count r < int cap"
    using bitmap_Next [OF ok n, of n] by (auto simp: randomScanStrategy_def split: if_splits)
  moreover have "scan_from n (am_allocated r) cap 0 cap = Some n"
    using n by (cases cap) simp_all
  ultimately show ?thesis by (simp add: randomScanStrategy_def)
qed

lemma New_ok:
  "bitmap_ok randomScanStrategy cap (NewAllocationMap cap spec)"
  "bitmap_ok contiguousScanStrategy cap (NewContiguousAllocationMap cap spec)"
  by (simp_all add: bitmap_ok_def NewAllocationMap_def NewContiguousAllocationMap_def
      countBits_card bits_of_def)

lemma New_empty:
  "op_Has bitmap_ops (NewAllocationMap cap spec) = (\<lambda>_. False)"
  "op_Has bitmap_ops (NewContiguousAllocationMap cap spec) = (\<lambda>_. False)"
  by (simp_all add: bitmap_op_defs NewAllocationMap_def NewContiguousAllocationMap_def fun_eq_iff)

text \<open>
  \<open>Restore\<close> with what \<open>Snapshot\<close> returned brings back the bitmap: the allocated set is that
  of the snapshot and the count, recomputed from the byte table \<open>bitCounts\<close>, is its cardinality,
  whatever was allocated in between; a snapshot of another range is refused and changes nothing.
\<close>

theorem snapshot_restore:
  "bm_Restore later (fst (bm_Snapshot r)) (snd (bm_Snapshot r)) =
     (if am_rangeSpec later = am_rangeSpec r
      then (later\<lparr>am_allocated := am_allocated r,
                  am_count := int (card {n. op_Has bitmap_ops r n})\<rparr>, None)
      else (later, Some range_mismatch))"
  by (auto simp: bm_Restore_def bm_Snapshot_def SetBytes_Bytes countBits_card bits_of_def
      bitmap_op_defs)

end
