(* ===== verification/Uid_Ranges.thy ===== *)
theory Uid_Ranges
  imports Alloc_Bitmap
begin

text \<open>
  UID blocks of projects: \<open>origin/pkg/security/uid/uid.go\<close>, blocks and ranges of 32-bit user ids
  with their text forms, and \<open>origin/pkg/security/uidallocator/allocator.go\<close>, the allocator of blocks
  over any \<open>allocator.Interface\<close>.
\<close>

section \<open>Blocks\<close>

record block =
  bl_Start :: "32 word"
  bl_End :: "32 word"

definition uid_text :: "32 word \<Rightarrow> string" where "uid_text w = decimal (unat w)"

text \<open>\<open>fmt.Sscanf(in, "%d<sep>%d", ...)\<close>\<close>

definition scan_pair :: "char \<Rightarrow> string \<Rightarrow> go_error + 32 word \<times> 32 word \<times> string" where
  "scan_pair sep s =
     (case scan_uint32 s of
        Inl e \<Rightarrow> Inl e
      | Inr (a, rest) \<Rightarrow>
          (case scan_char sep rest of
             Inl e \<Rightarrow> Inl e
           | Inr rest1 \<Rightarrow>
               (case scan_uint32 rest1 of
                  Inl e \<Rightarrow> Inl e
                | Inr (b, rest2) \<Rightarrow> Inr (a, b, rest2))))"

definition ParseBlock :: "string \<Rightarrow> go_error + block" where
  "ParseBlock s =
     (if CHR ''/'' \<in> set s then
        (case scan_pair CHR ''/'' s of
           Inl e \<Rightarrow> Inl e
         | Inr (start, sz, rest) \<Rightarrow> Inr \<lparr>bl_Start = start, bl_End = start + sz - 1\<rparr>)
      else
        (case scan_pair CHR ''-'' s of
           Inl e \<Rightarrow> Inl e
         | Inr (start, stop, rest) \<Rightarrow> Inr \<lparr>bl_Start = start, bl_End = stop\<rparr>))"

definition block_Size :: "block \<Rightarrow> 32 word" where
  "block_Size b = bl_End b - bl_Start b + 1"

definition block_String :: "block \<Rightarrow> string" where
  "block_String b = uid_text (bl_Start b) @ ''/'' @ uid_text (block_Size b)"

definition block_RangeString :: "block \<Rightarrow> string" where
  "block_RangeString b = uid_text (bl_Start b) @ ''-'' @ uid_text (bl_End b)"

section \<open>Ranges\<close>

record uid_range =
  ur_block :: block
  ur_size :: "32 word"

definition uid_NewRange :: "32 word \<Rightarrow> 32 word \<Rightarrow> 32 word \<Rightarrow> go_error + uid_range" where
  "uid_NewRange start stop sz =
     (if start > stop
      then Inl (Errorf ''start %d must be less than end %d'' [uid_text start, uid_text stop])
      else if sz = 0 then Inl (Errorf ''block size must be a positive integer'' [])
      else if stop - start < sz
      then Inl (Errorf ''block size must be less than or equal to the range'' [])
      else Inr \<lparr>ur_block = \<lparr>bl_Start = start, bl_End = stop\<rparr>, ur_size = sz\<rparr>)"

definition uid_ParseRange :: "string \<Rightarrow> go_error + uid_range" where
  "uid_ParseRange s =
     (case scan_pair CHR ''-'' s of
        Inl e \<Rightarrow> Inl e
      | Inr (start, stop, rest) \<Rightarrow>
          (case scan_char CHR ''/'' rest of
             Inl e \<Rightarrow> Inl e
           | Inr rest1 \<Rightarrow>
               (case scan_uint32 rest1 of
                  Inl e \<Rightarrow> Inl e
                | Inr (b, rest2) \<Rightarrow> uid_NewRange start stop b)))"

definition uid_Size :: "uid_range \<Rightarrow> 32 word" where
  "uid_Size r = block_Size (ur_block r) div ur_size r"

definition uid_String :: "uid_range \<Rightarrow> string" where
  "uid_String r = block_RangeString (ur_block r) @ ''/'' @ uid_text (ur_size r)"

definition BlockAt :: "uid_range \<Rightarrow> 32 word \<Rightarrow> block \<times> bool" where
  "BlockAt r offset =
     (if offset > uid_Size r then (\<lparr>bl_Start = 0, bl_End = 0\<rparr>, False)
      else (let start = bl_Start (ur_block r) + offset * ur_size r
            in (\<lparr>bl_Start = start, bl_End = start + ur_size r - 1\<rparr>, True)))"

definition uid_Offset :: "uid_range \<Rightarrow> block \<Rightarrow> bool \<times> 32 word" where
  "uid_Offset r b =
     (if bl_Start b < bl_Start (ur_block r) then (False, 0)
      else if bl_End b > bl_End (ur_block r) then (False, 0)
      else if bl_End b - bl_Start b + 1 \<noteq> ur_size r then (False, 0)
      else if (bl_Start b - bl_Start (ur_block r)) mod ur_size r \<noteq> 0 then (False, 0)
      else (True, (bl_Start b - bl_Start (ur_block r)) div ur_size r))"

definition uid_Contains :: "uid_range \<Rightarrow> block \<Rightarrow> bool" where
  "uid_Contains r b = fst (uid_Offset r b)"

section \<open>The allocator of blocks\<close>

record 's uid_allocator =
  ua_r :: uid_range
  ua_ops :: "'s alloc_ops"
  ua_alloc :: 's

definition ua_ErrFull :: go_error where "ua_ErrFull = Errorf ''range is full'' []"
definition ua_ErrNotInRange :: go_error where
  "ua_ErrNotInRange = Errorf ''provided UID range is not in the valid range'' []"
definition ua_ErrAllocated :: go_error where
  "ua_ErrAllocated = Errorf ''provided UID range is already allocated'' []"

definition ua_New :: "'s alloc_ops \<Rightarrow> uid_range \<Rightarrow> (nat \<Rightarrow> string \<Rightarrow> 's) \<Rightarrow> 's uid_allocator" where
  "ua_New ops r factory =
     \<lparr>ua_r = r, ua_ops = ops, ua_alloc = factory (unat (uid_Size r)) (uid_String r)\<rparr>"

definition ua_NewInMemory :: "uid_range \<Rightarrow> alloc_bitmap uid_allocator" where
  "ua_NewInMemory r = ua_New bitmap_ops r NewContiguousAllocationMap"

definition ua_Free :: "'s uid_allocator \<Rightarrow> int" where
  "ua_Free a = op_Free (ua_ops a) (ua_alloc a)"

definition ua_Allocate :: "'s uid_allocator \<Rightarrow> block \<Rightarrow> 's uid_allocator \<times> go_error option" where
  "ua_Allocate a b =
     (case uid_Offset (ua_r a) b of
        (False, offset) \<Rightarrow> (a, Some ua_ErrNotInRange)
      | (True, offset) \<Rightarrow>
          (case op_Allocate (ua_ops a) (ua_alloc a) (unat offset) of
             (s, Inl err) \<Rightarrow> (a\<lparr>ua_alloc := s\<rparr>, Some err)
           | (s, Inr False) \<Rightarrow> (a\<lparr>ua_alloc := s\<rparr>, Some ua_ErrAllocated)
           | (s, Inr True) \<Rightarrow> (a\<lparr>ua_alloc := s\<rparr>, None)))"

definition ua_AllocateNext :: "nat \<Rightarrow> 's uid_allocator \<Rightarrow> 's uid_allocator \<times> (go_error + block)" where
  "ua_AllocateNext draw a =
     (case op_AllocateNext (ua_ops a) draw (ua_alloc a) of
        (s, Inl err) \<Rightarrow> (a\<lparr>ua_alloc := s\<rparr>, Inl err)
      | (s, Inr None) \<Rightarrow> (a\<lparr>ua_alloc := s\<rparr>, Inl ua_ErrFull)
      | (s, Inr (Some offset)) \<Rightarrow>
          (a\<lparr>ua_alloc := s\<rparr>,
           case BlockAt (ua_r a) (of_nat offset) of
             (b, False) \<Rightarrow> Inl ua_ErrNotInRange
           | (b, True) \<Rightarrow> Inr b))"

definition ua_Release :: "'s uid_allocator \<Rightarrow> block \<Rightarrow> 's uid_allocator \<times> go_error option" where
  "ua_Release a b =
     (case uid_Offset (ua_r a) b of
        (False, offset) \<Rightarrow> (a, None)
      | (True, offset) \<Rightarrow>
          (case op_Release (ua_ops a) (ua_alloc a) (unat offset) of
             (s, err) \<Rightarrow> (a\<lparr>ua_alloc := s\<rparr>, err)))"

definition ua_Has :: "'s uid_allocator \<Rightarrow> block \<Rightarrow> bool" where
  "ua_Has a b =
     (case uid_Offset (ua_r a) b of
        (False, offset) \<Rightarrow> False
      | (True, offset) \<Rightarrow> op_Has (ua_ops a) (ua_alloc a) (unat offset))"

section \<open>Text forms\<close>

lemma separators [simp]: "\<not> is_digit CHR ''/''" "\<not> is_digit CHR ''-''"
  by (simp_all add: is_digit_def)

lemma scan_pair_text:
  assumes "\<not> is_digit c" "rest = [] \<or> \<not> is_digit (hd rest)"
  shows "scan_pair c (uid_text a @ c # uid_text b @ rest) = Inr (a, b, rest)"
  using assms scan_uint32_decimal [of "c # uid_text b @ rest" a] scan_uint32_decimal [of rest b]
  by (simp add: scan_pair_def uid_text_def scan_char_def)

lemma slash_not_in_uid_text: "CHR ''/'' \<notin> set (uid_text a)"
  by (simp add: uid_text_def decimal_no_char)

lemma range_texts:
  "uid_NewRange start stop sz = Inr r \<Longrightarrow> uid_ParseRange (uid_String r) = Inr r"
proof -
  assume new: "uid_NewRange start stop sz = Inr r"
  then have r: "r = \<lparr>ur_block = \<lparr>bl_Start = start, bl_End = stop\<rparr>, ur_size = sz\<rparr>"
    by (auto simp: uid_NewRange_def split: if_splits)
  have "scan_pair CHR ''-'' (uid_String r) = Inr (start, stop, CHR ''/'' # uid_text sz)"
    using scan_pair_text [of "CHR ''-''" "CHR ''/'' # uid_text sz" start stop]
    by (simp add: r uid_String_def block_RangeString_def)
  moreover have "scan_uint32 (uid_text sz) = Inr (sz, [])"
    using scan_uint32_decimal [of "[]" sz] by (simp add: uid_text_def)
  ultimately show ?thesis using new by (simp add: uid_ParseRange_def scan_char_def)
qed

lemma block_texts:
  "ParseBlock (block_String b) = Inr b" "ParseBlock (block_RangeString b) = Inr b"
  using scan_pair_text [of "CHR ''/''" "[]" "bl_Start b" "block_Size b"]
    scan_pair_text [of "CHR ''-''" "[]" "bl_Start b" "bl_End b"]
  by (simp_all add: ParseBlock_def block_String_def block_RangeString_def block_Size_def
      slash_not_in_uid_text)

text \<open>
  The text forms of blocks and ranges are read back as they were: \<open>ParseBlock\<close> inverts both
  \<open>String\<close> (start and size) and \<open>RangeString\<close> (start and end) on every block, and \<open>ParseRange\<close>
  inverts \<open>String\<close> on every range \<open>NewRange\<close> accepts.
\<close>

theorem uid_text_roundtrip:
  assumes "uid_NewRange start stop sz = Inr r"
  shows "ParseBlock (block_String b) = Inr b \<and> ParseBlock (block_RangeString b) = Inr b
    \<and> uid_ParseRange (uid_String r) = Inr r"
  using range_texts [OF assms] block_texts by blast

theorem uid_text_roundtrip_witness:
  "uid_ParseRange (uid_String \<lparr>ur_block = \<lparr>bl_Start = 1000, bl_End = 1999\<rparr>, ur_size = 10\<rparr>)
    = Inr \<lparr>ur_block = \<lparr>bl_Start = 1000, bl_End = 1999\<rparr>, ur_size = 10\<rparr>"
proof -
  have "uid_NewRange 1000 1999 10 = Inr \<lparr>ur_block = \<lparr>bl_Start = 1000, bl_End = 1999\<rparr>, ur_size = 10\<rparr>"
    by (simp add: uid_NewRange_def)
  from uid_text_roundtrip [OF this] show ?thesis by blast
qed

section \<open>Blocks and offsets\<close>

definition range_ok :: "uid_range \<Rightarrow> bool" where
  "range_ok r \<longleftrightarrow> bl_Start (ur_block r) \<le> bl_End (ur_block r) \<and> ur_size r \<noteq> 0
     \<and> bl_End (ur_block r) - bl_Start (ur_block r) + 1 \<noteq> 0"

lemma NewRange_ok:
  "uid_NewRange start stop sz = Inr r \<Longrightarrow> stop - start + 1 \<noteq> 0 \<Longrightarrow> range_ok r"
  by (auto simp: uid_NewRange_def range_ok_def not_less split: if_splits)

lemmas word_nat_arith = word_less_nat_alt word_le_nat_alt unat_sub_if' unat_word_ariths unat_div unat_mod

lemma unat_less32: "unat (w :: 32 word) < 4294967296"
  using unsigned_less [of w] by (rule order.strict_trans2) simp

lemma uid_Size_nat:
  assumes "range_ok r"
  shows "unat (uid_Size r)
    = (unat (bl_End (ur_block r)) - unat (bl_Start (ur_block r)) + 1) div unat (ur_size r)"
proof -
  let ?E = "bl_End (ur_block r)" and ?S = "bl_Start (ur_block r)"
  have "unat (?E - ?S + 1) = unat (?E - ?S) + 1"
    using assms by (metis range_ok_def unatSuc add.commute Suc_eq_plus1)
  moreover have "unat (?E - ?S) = unat ?E - unat ?S"
    using assms by (simp add: range_ok_def unat_sub_if' word_le_nat_alt)
  ultimately show ?thesis by (simp add: uid_Size_def block_Size_def unat_div)
qed

text \<open>Where the block at an offset starts and ends, as natural numbers.\<close>

lemma BlockAt_nat:
  assumes r: "range_ok r" and off: "off < uid_Size r"
  shows "\<exists>b. BlockAt r off = (b, True)
    \<and> unat (bl_Start b) = unat (bl_Start (ur_block r)) + unat off * unat (ur_size r)
    \<and> unat (bl_End b) = unat (bl_Start b) + unat (ur_size r) - 1
    \<and> unat (bl_End b) \<le> unat (bl_End (ur_block r))"
proof -
  define S E z k where "S = unat (bl_Start (ur_block r))" and "E = unat (bl_End (ur_block r))"
    and "z = unat (ur_size r)" and "k = unat off"
  have ord: "S \<le> E" "0 < z" "E < 4294967296"
    using r unat_less32 by (auto simp: range_ok_def S_def E_def z_def word_le_nat_alt unat_gt_0)
  have "k < (E - S + 1) div z"
    using off uid_Size_nat [OF r] by (simp add: word_less_nat_alt S_def E_def z_def k_def)
  then have "(k + 1) * z \<le> E - S + 1"
    by (metis Suc_eq_plus1 Suc_leI div_times_less_eq_dividend mult_le_mono1 order.trans)
  then have top: "S + k * z + z \<le> E + 1" using ord by (simp add: algebra_simps)
  have mul: "unat (off * ur_size r) = k * z"
    using top ord by (simp add: unat_word_ariths k_def z_def)
  have start: "unat (bl_Start (ur_block r) + off * ur_size r) = S + k * z"
    using top ord by (simp add: unat_word_ariths(1) mul S_def)
  have "unat (bl_Start (ur_block r) + off * ur_size r + ur_size r - 1) = S + k * z + z - 1"
  proof -
    have pred: "unat (ur_size r - 1) = z - 1"
      using ord(2) by (simp add: unat_sub_if' z_def)
    have "unat ((bl_Start (ur_block r) + off * ur_size r) + (ur_size r - 1)) = S + k * z + z - 1"
      using top ord unfolding unat_word_ariths(1) [of "_ + _"] start pred by simp
    then show ?thesis by (simp only: add_diff_eq)
  qed
  with start top off ord show ?thesis
    by (simp add: BlockAt_def Let_def S_def [symmetric] E_def [symmetric] z_def [symmetric]
        k_def [symmetric] not_less less_imp_le)
qed

text \<open>The test of \<open>Offset\<close> over natural numbers, for a block that does not wrap around.\<close>

lemma uid_Offset_nat:
  assumes r: "range_ok r" and b: "bl_Start b \<le> bl_End b"
  defines "S \<equiv> unat (bl_Start (ur_block r))" and "E \<equiv> unat (bl_End (ur_block r))"
    and "z \<equiv> unat (ur_size r)" and "s \<equiv> unat (bl_Start b)" and "e \<equiv> unat (bl_End b)"
  shows "uid_Offset r b = (True, off) \<longleftrightarrow>
    S \<le> s \<and> e \<le> E \<and> e + 1 - s = z \<and> (s - S) mod z = 0 \<and> unat off = (s - S) div z"
proof (cases "S \<le> s \<and> e \<le> E")
  case True
  have "s \<le> e" using b by (simp add: s_def e_def word_le_nat_alt)
  have small: "e - s + 1 < 4294967296"
  proof -
    have "unat (bl_End (ur_block r) - bl_Start (ur_block r) + 1) = E - S + 1"
      using r by (metis range_ok_def unatSuc add.commute Suc_eq_plus1 unat_sub_if' word_le_nat_alt
          E_def S_def)
    then have "E - S + 1 < 4294967296" using unat_less32 by metis
    then show ?thesis using True by linarith
  qed
  have diff: "unat (bl_End b - bl_Start b) = e - s" "unat (bl_Start b - bl_Start (ur_block r)) = s - S"
    using \<open>s \<le> e\<close> True by (simp_all add: unat_sub_if' s_def e_def S_def)
  have sz: "unat (bl_End b - bl_Start b + 1) = e + 1 - s"
    using small \<open>s \<le> e\<close> by (simp add: unat_word_ariths(1) diff(1))
  have size_eq: "bl_End b - bl_Start b + 1 = ur_size r \<longleftrightarrow> e + 1 - s = z"
    unfolding word_unat_eq_iff sz z_def ..
  have mod_eq: "(bl_Start b - bl_Start (ur_block r)) mod ur_size r = 0 \<longleftrightarrow> (s - S) mod z = 0"
    unfolding word_unat_eq_iff unat_mod diff(2) z_def by simp
  have div_eq: "(bl_Start b - bl_Start (ur_block r)) div ur_size r = off \<longleftrightarrow> unat off = (s - S) div z"
    unfolding word_unat_eq_iff unat_div diff(2) z_def by auto
  have in_range: "\<not> bl_Start b < bl_Start (ur_block r)" "\<not> bl_End b > bl_End (ur_block r)"
    using True by (simp_all add: word_less_nat_alt s_def S_def e_def E_def)
  show ?thesis
    using True in_range by (simp add: uid_Offset_def size_eq mod_eq div_eq)
next
  case False
  then show ?thesis by (auto simp: uid_Offset_def word_less_nat_alt S_def E_def s_def e_def)
qed

lemma Offset_BlockAt:
  assumes r: "range_ok r" and b: "bl_Start b \<le> bl_End b"
  shows "uid_Offset r b = (True, off) \<longleftrightarrow> off < uid_Size r \<and> BlockAt r off = (b, True)"
proof -
  define S E z s e k where "S = unat (bl_Start (ur_block r))" and "E = unat (bl_End (ur_block r))"
    and "z = unat (ur_size r)" and "s = unat (bl_Start b)" and "e = unat (bl_End b)" and "k = unat off"
  have ord: "S \<le> E" "0 < z" "s \<le> e"
    using r b by (auto simp: range_ok_def S_def E_def z_def s_def e_def word_le_nat_alt unat_gt_0)
  note off_nat = uid_Offset_nat [OF r b, of off, folded S_def E_def z_def s_def e_def k_def]
  have lt: "off < uid_Size r \<longleftrightarrow> k < (E - S + 1) div z"
    using uid_Size_nat [OF r] by (simp add: word_less_nat_alt S_def E_def z_def k_def)
  show ?thesis
  proof
    assume "uid_Offset r b = (True, off)"
    with off_nat have o: "S \<le> s" "e \<le> E" "e + 1 - s = z" "(s - S) mod z = 0" "k = (s - S) div z" by auto
    have "z dvd s - S" using o(4) by (rule mod_0_imp_dvd)
    then have "s - S = k * z" unfolding o(5) by (rule dvd_div_mult_self [symmetric])
    then have s_eq: "s = S + k * z" using o(1) by simp
    have "S + k * z + z \<le> E + 1" using o(2,3) ord(3) unfolding s_eq by linarith
    then have "(k + 1) * z \<le> E - S + 1" by simp
    then have "k < (E - S + 1) div z" using ord(2) by (simp add: less_eq_div_iff_mult_less_eq flip: Suc_le_eq)
    then have off: "off < uid_Size r" using lt by simp
    from BlockAt_nat [OF r off] obtain c where c: "BlockAt r off = (c, True)"
        "unat (bl_Start c) = S + k * z" "unat (bl_End c) = unat (bl_Start c) + z - 1"
      by (auto simp: S_def k_def z_def)
    have "bl_Start c = bl_Start b" "bl_End c = bl_End b"
      using c s_eq o(3) ord by (simp_all add: word_unat_eq_iff s_def e_def)
    then have "c = b" by (cases c; cases b) simp
    with c(1) off show "off < uid_Size r \<and> BlockAt r off = (b, True)" by simp
  next
    assume a: "off < uid_Size r \<and> BlockAt r off = (b, True)"
    then have v: "s = S + k * z" "e = s + z - 1" "e \<le> E"
      using BlockAt_nat [OF r, of off] by (auto simp: S_def k_def z_def s_def e_def E_def)
    then show "uid_Offset r b = (True, off)"
      unfolding off_nat using ord by simp
  qed
qed

lemma BlockAt_ordered:
  "range_ok r \<Longrightarrow> off < uid_Size r \<Longrightarrow> BlockAt r off = (b, True) \<Longrightarrow> bl_Start b \<le> bl_End b"
proof -
  assume r: "range_ok r" and "off < uid_Size r" "BlockAt r off = (b, True)"
  then have "unat (bl_End b) = unat (bl_Start b) + unat (ur_size r) - 1"
    using BlockAt_nat [of r off] by auto
  moreover have "0 < unat (ur_size r)" using r by (simp add: range_ok_def unat_gt_0)
  ultimately show ?thesis by (simp add: word_le_nat_alt)
qed

text \<open>
  In a range accepted by \<open>NewRange\<close> that is not the whole 32-bit space, \<open>Offset\<close> and \<open>BlockAt\<close>
  are inverse to each other: a block that does not wrap around has the offset \<open>off\<close> exactly when
  \<open>off\<close> is below \<open>Size\<close> and \<open>BlockAt\<close> returns that block for it.
\<close>

theorem uid_Offset_inverts_BlockAt:
  assumes "uid_NewRange start stop sz = Inr r" "stop - start + 1 \<noteq> 0" "bl_Start b \<le> bl_End b"
  shows "uid_Offset r b = (True, off) \<longleftrightarrow> off < uid_Size r \<and> BlockAt r off = (b, True)"
  by (rule Offset_BlockAt [OF NewRange_ok [OF assms(1,2)] assms(3)])

theorem uid_Offset_inverts_BlockAt_witness:
  "uid_Offset \<lparr>ur_block = \<lparr>bl_Start = 1000, bl_End = 1999\<rparr>, ur_size = 10\<rparr>
     \<lparr>bl_Start = 1070, bl_End = 1079\<rparr> = (True, 7)"
proof -
  have new: "uid_NewRange 1000 1999 10 = Inr \<lparr>ur_block = \<lparr>bl_Start = 1000, bl_End = 1999\<rparr>, ur_size = 10\<rparr>"
    by (simp add: uid_NewRange_def)
  have "(1999 :: 32 word) - 1000 + 1 \<noteq> 0" by code_simp
  from uid_Offset_inverts_BlockAt [OF new this, of "\<lparr>bl_Start = 1070, bl_End = 1079\<rparr>" 7]
  show ?thesis by (simp add: uid_Size_def block_Size_def BlockAt_def)
qed

text \<open>
  Three boundary cases.  A block whose end wraps around, as \<open>ParseBlock\<close> returns for a start near
  \<open>2 ^ 32\<close>, is contained in a range it does not touch; \<open>BlockAt\<close> accepts the offset \<open>Size\<close>, one past
  the last, and returns a block outside the range; \<open>NewRange\<close> refuses a block size equal to the size
  of the range, which its error message allows.
\<close>

theorem uid_range_boundary_cases:
  "(\<exists>r b. uid_NewRange 10 100 10 = Inr r \<and> ParseBlock ''4294967290/10'' = Inr b
       \<and> uid_Contains r b \<and> bl_Start b > bl_End (ur_block r))
   \<and> (\<exists>r b. uid_NewRange 0 99 10 = Inr r \<and> BlockAt r (uid_Size r) = (b, True) \<and> \<not> uid_Contains r b)
   \<and> (\<exists>e. uid_NewRange 0 9 10 = Inl e) \<and> block_Size \<lparr>bl_Start = 0, bl_End = 9\<rparr> = 10"
proof -
  have "ParseBlock ''4294967290/10'' = Inr \<lparr>bl_Start = 4294967290, bl_End = 3\<rparr>"
    by (simp add: ParseBlock_def scan_pair_def scan_uint32_def scan_char_def is_digit_def
        digits_value_def digit_value_def)
  then show ?thesis
    by (simp add: uid_NewRange_def uid_Contains_def uid_Offset_def BlockAt_def uid_Size_def block_Size_def)
qed

section \<open>Allocated blocks are disjoint\<close>

definition uids_of :: "block \<Rightarrow> 32 word set" where
  "uids_of b = {u. bl_Start b \<le> u \<and> u \<le> bl_End b}"

lemma blocks_disjoint:
  assumes r: "range_ok r" and m: "m < uid_Size r" "BlockAt r m = (b, True)"
    and n: "n < uid_Size r" "BlockAt r n = (c, True)" and less: "m < n"
  shows "uids_of b \<inter> uids_of c = {}"
proof -
  have "unat (bl_End b) < unat (bl_Start c)"
  proof -
    have "unat m * unat (ur_size r) + unat (ur_size r) \<le> unat n * unat (ur_size r)"
    proof -
      have "Suc (unat m) \<le> unat n" using less by (simp add: word_less_nat_alt Suc_le_eq)
      then have "Suc (unat m) * unat (ur_size r) \<le> unat n * unat (ur_size r)" by (rule mult_le_mono1)
      then show ?thesis by simp
    qed
    moreover have "0 < unat (ur_size r)" using r by (simp add: range_ok_def unat_gt_0)
    ultimately show ?thesis using BlockAt_nat [OF r m(1)] BlockAt_nat [OF r n(1)] m(2) n(2) by auto
  qed
  then show ?thesis by (auto simp: uids_of_def word_le_nat_alt)
qed

definition ua_ok :: "'s alloc_ops \<Rightarrow> ('s \<Rightarrow> bool) \<Rightarrow> 's uid_allocator \<Rightarrow> bool" where
  "ua_ok ops ok a \<longleftrightarrow> ua_ops a = ops \<and> ok (ua_alloc a) \<and> range_ok (ua_r a)"

lemma ua_Has_ordered:
  "range_ok (ua_r a) \<Longrightarrow> bl_Start b \<le> bl_End b \<Longrightarrow>
   ua_Has a b \<longleftrightarrow> (\<exists>off. off < uid_Size (ua_r a) \<and> BlockAt (ua_r a) off = (b, True)
     \<and> op_Has (ua_ops a) (ua_alloc a) (unat off))"
proof -
  assume "range_ok (ua_r a)" "bl_Start b \<le> bl_End b"
  note iff = Offset_BlockAt [OF this]
  have "ua_Has a b \<longleftrightarrow> (\<exists>off. uid_Offset (ua_r a) b = (True, off)
      \<and> op_Has (ua_ops a) (ua_alloc a) (unat off))"
    by (cases "uid_Offset (ua_r a) b") (auto simp: ua_Has_def split: bool.splits)
  then show ?thesis unfolding iff by simp
qed

context allocation
begin

lemma ua_AllocateNext_cases:
  assumes a: "ua_ok ops ok a" and cap: "unat (uid_Size (ua_r a)) = cap"
  obtains (full) "ua_AllocateNext draw a = (a, Inl ua_ErrFull)"
      "\<And>off. off < uid_Size (ua_r a) \<Longrightarrow> op_Has ops (ua_alloc a) (unat off)"
  | (found) a' b off where "ua_AllocateNext draw a = (a', Inr b)" "off < uid_Size (ua_r a)"
      "BlockAt (ua_r a) off = (b, True)" "\<not> op_Has ops (ua_alloc a) (unat off)"
      "op_Has ops (ua_alloc a') = (op_Has ops (ua_alloc a))(unat off := True)" "ua_ok ops ok a'"
      "ua_r a' = ua_r a"
proof -
  from a have ok: "ok (ua_alloc a)" and ops: "ua_ops a = ops" and r: "range_ok (ua_r a)"
    by (simp_all add: ua_ok_def)
  show ?thesis
  proof (rule Next_cases [OF ok, of draw])
    assume "op_AllocateNext ops draw (ua_alloc a) = (ua_alloc a, Inr None)"
      "\<And>n. n < cap \<Longrightarrow> op_Has ops (ua_alloc a) n"
    then show ?thesis
      using full cap by (simp add: ua_AllocateNext_def ops word_less_nat_alt)
  next
    fix s n assume s: "op_AllocateNext ops draw (ua_alloc a) = (s, Inr (Some n))" "n < cap"
      "\<not> op_Has ops (ua_alloc a) n" "ok s" "op_Has ops s = (op_Has ops (ua_alloc a))(n := True)"
    let ?off = "of_nat n :: 32 word"
    have "n < 2 ^ LENGTH(32)"
      using s(2) cap unat_less32 [of "uid_Size (ua_r a)"] by simp
    then have n: "unat ?off = n" by (simp add: unsigned_of_nat take_bit_nat_eq_self)
    have off: "?off < uid_Size (ua_r a)" using s(2) cap by (simp add: word_less_nat_alt n)
    obtain b where b: "BlockAt (ua_r a) ?off = (b, True)" using BlockAt_nat [OF r off] by blast
    show ?thesis
    proof (rule found [OF _ off b])
      show "ua_AllocateNext draw a = (a\<lparr>ua_alloc := s\<rparr>, Inr b)"
        by (simp add: ua_AllocateNext_def ops s(1) b)
    qed (use s n a in \<open>simp_all add: ua_ok_def\<close>)
  qed
qed

lemma ua_Allocate_ok:
  assumes a: "ua_ok ops ok a" and cap: "unat (uid_Size (ua_r a)) = cap" and b: "bl_Start b \<le> bl_End b"
  shows "ua_ok ops ok (fst (ua_Allocate a b)) \<and> ua_r (fst (ua_Allocate a b)) = ua_r a"
proof (cases "uid_Offset (ua_r a) b")
  case (Pair c off)
  from a have ok: "ok (ua_alloc a)" and ops: "ua_ops a = ops" and r: "range_ok (ua_r a)"
    by (simp_all add: ua_ok_def)
  show ?thesis
  proof (cases c)
    case True
    then have "unat off < cap"
      using Offset_BlockAt [OF r b, of off] Pair cap by (simp add: word_less_nat_alt)
    then show ?thesis
      using a True Pair by (rule_tac Allocate_cases [OF ok]) (auto simp: ua_Allocate_def ops ua_ok_def)
  qed (use a Pair in \<open>simp add: ua_Allocate_def\<close>)
qed

lemma ua_Release_ok:
  assumes a: "ua_ok ops ok a"
  shows "ua_ok ops ok (fst (ua_Release a b)) \<and> ua_r (fst (ua_Release a b)) = ua_r a"
proof (cases "uid_Offset (ua_r a) b")
  case (Pair c off)
  from a have ok: "ok (ua_alloc a)" and ops: "ua_ops a = ops" by (simp_all add: ua_ok_def)
  obtain s where "op_Release ops (ua_alloc a) (unat off) = (s, None)" "ok s"
    by (rule Release_cases [OF ok])
  then show ?thesis using a Pair by (cases c) (simp_all add: ua_Release_def ops ua_ok_def)
qed

end

text \<open>
  What is done to an in-memory allocator of a range, where the blocks whose allocation is asked for have
  a property; with one that always holds, these are all its states.
\<close>

inductive ua_reach :: "(block \<Rightarrow> bool) \<Rightarrow> uid_range \<Rightarrow> alloc_bitmap uid_allocator \<Rightarrow> bool"
  for asked r where
  new: "ua_reach asked r (ua_NewInMemory r)"
| allocate: "ua_reach asked r a \<Longrightarrow> asked b \<Longrightarrow> ua_reach asked r (fst (ua_Allocate a b))"
| allocate_next: "ua_reach asked r a \<Longrightarrow> ua_reach asked r (fst (ua_AllocateNext draw a))"
| release: "ua_reach asked r a \<Longrightarrow> ua_reach asked r (fst (ua_Release a b))"

definition not_wrapping :: "block \<Rightarrow> bool" where
  "not_wrapping b \<longleftrightarrow> bl_Start b \<le> bl_End b"

abbreviation ua_bitmap :: "uid_range \<Rightarrow> alloc_bitmap \<Rightarrow> bool" where
  "ua_bitmap r \<equiv> bitmap_ok contiguousScanStrategy (unat (uid_Size r))"

lemma ua_reach_ok:
  assumes "ua_reach not_wrapping r a" "range_ok r"
  shows "ua_ok bitmap_ops (ua_bitmap r) a \<and> ua_r a = r"
  using assms
proof (induction rule: ua_reach.induct)
  case new
  then show ?case by (simp add: ua_ok_def ua_NewInMemory_def ua_New_def New_ok)
next
  case (allocate a b)
  then have ok: "ua_ok bitmap_ops (ua_bitmap r) a" "unat (uid_Size (ua_r a)) = unat (uid_Size r)" by simp_all
  show ?case using bitmap.ua_Allocate_ok [OF ok, of b] allocate by (simp add: not_wrapping_def)
next
  case (allocate_next a draw)
  then have ok: "ua_ok bitmap_ops (ua_bitmap r) a" "unat (uid_Size (ua_r a)) = unat (uid_Size r)" by simp_all
  show ?case
    by (rule bitmap.ua_AllocateNext_cases [OF ok, of draw]) (use allocate_next in auto)
next
  case (release a b)
  then have ok: "ua_ok bitmap_ops (ua_bitmap r) a" by simp
  show ?case using bitmap.ua_Release_ok [OF ok, of b] release by simp
qed

text \<open>
  C35: projects get disjoint blocks of user ids.  Take a range accepted by \<open>NewRange\<close> that is not the
  whole 32-bit space and an in-memory allocator of it in any state reached by its operations, where
  no block was asked for whose end wraps around (\<open>Offset\<close> does not refuse those).  Then
  \<open>AllocateNext\<close> returns a block of the range that shares no user id with any allocated block, unless all
  \<open>Size\<close> blocks are allocated; and it fails only then.
\<close>

theorem allocated_uid_blocks_are_disjoint:
  assumes "uid_NewRange start stop sz = Inr r" "stop - start + 1 \<noteq> 0" "ua_reach not_wrapping r a"
  shows "(\<exists>a' b. ua_AllocateNext draw a = (a', Inr b) \<and> uid_Contains r b \<and> ua_Has a' b
       \<and> (\<forall>c. not_wrapping c \<and> ua_Has a c \<longrightarrow> uids_of b \<inter> uids_of c = {}))
    \<or> (\<exists>e. ua_AllocateNext draw a = (a, Inl e)
        \<and> (\<forall>off. off < uid_Size r \<longrightarrow> (\<exists>b. BlockAt r off = (b, True) \<and> ua_Has a b)))"
proof -
  have ok: "ua_ok bitmap_ops (ua_bitmap r) a" and ua_r: "ua_r a = r"
    using ua_reach_ok [OF assms(3) NewRange_ok [OF assms(1,2)]] by simp_all
  have r: "range_ok (ua_r a)" and ops: "ua_ops a = bitmap_ops" using ok by (simp_all add: ua_ok_def)
  have Has_at: "ua_Has x b \<longleftrightarrow> op_Has bitmap_ops (ua_alloc x) (unat off)"
    if "off < uid_Size (ua_r x)" "BlockAt (ua_r x) off = (b, True)" "ua_ok bitmap_ops q x" for x b off q
  proof -
    have rx: "range_ok (ua_r x)" "ua_ops x = bitmap_ops" using that(3) by (simp_all add: ua_ok_def)
    have "uid_Offset (ua_r x) b = (True, off)"
      using Offset_BlockAt [OF rx(1) BlockAt_ordered [OF rx(1) that(1,2)]] that(1,2) by simp
    then show ?thesis by (simp add: ua_Has_def rx(2))
  qed
  show ?thesis
  proof (rule bitmap.ua_AllocateNext_cases [OF ok, of draw])
    show "unat (uid_Size (ua_r a)) = unat (uid_Size r)" by (simp add: ua_r)
  next
    assume full: "ua_AllocateNext draw a = (a, Inl ua_ErrFull)"
      "\<And>off. off < uid_Size (ua_r a) \<Longrightarrow> op_Has bitmap_ops (ua_alloc a) (unat off)"
    then show ?thesis using BlockAt_nat [OF r] Has_at [OF _ _ ok] unfolding ua_r by blast
  next
    fix a' b off
    assume f: "ua_AllocateNext draw a = (a', Inr b)" "off < uid_Size (ua_r a)"
      "BlockAt (ua_r a) off = (b, True)" "\<not> op_Has bitmap_ops (ua_alloc a) (unat off)"
      "op_Has bitmap_ops (ua_alloc a') = (op_Has bitmap_ops (ua_alloc a))(unat off := True)"
      "ua_ok bitmap_ops (ua_bitmap r) a'" "ua_r a' = ua_r a"
    have "uid_Contains (ua_r a) b"
      using Offset_BlockAt [OF r BlockAt_ordered [OF r f(2,3)], of off] f(2,3) by (simp add: uid_Contains_def)
    moreover have "ua_Has a' b" using Has_at [of off a' b] f by simp
    moreover have "uids_of b \<inter> uids_of c = {}" if "not_wrapping c" "ua_Has a c" for c
    proof -
      have c: "bl_Start c \<le> bl_End c" "ua_Has a c" using that by (simp_all add: not_wrapping_def)
      obtain o' where o': "o' < uid_Size (ua_r a)" "BlockAt (ua_r a) o' = (c, True)"
          "op_Has bitmap_ops (ua_alloc a) (unat o')"
        using c ua_Has_ordered [OF r c(1)] by (auto simp: ops)
      then have "o' < off \<or> off < o'" using f(4) by (metis linorder_less_linear)
      then show ?thesis
        using blocks_disjoint [OF r] f(2,3) o'(1,2) by blast
    qed
    ultimately show ?thesis using f(1) unfolding ua_r by blast
  qed
qed

definition sample_uid_range :: uid_range where
  "sample_uid_range = \<lparr>ur_block = \<lparr>bl_Start = 1000, bl_End = 1999\<rparr>, ur_size = 10\<rparr>"

theorem allocated_uid_blocks_are_disjoint_witness:
  "\<exists>a' b. ua_AllocateNext 0 (ua_NewInMemory sample_uid_range) = (a', Inr b) \<and> ua_Has a' b
     \<and> uid_Contains sample_uid_range b"
proof -
  have new: "uid_NewRange 1000 1999 10 = Inr sample_uid_range" "(1999 :: 32 word) - 1000 + 1 \<noteq> 0"
    by (simp add: uid_NewRange_def sample_uid_range_def, code_simp)
  have "\<not> ua_Has (ua_NewInMemory sample_uid_range) b" for b
    by (simp add: ua_Has_def ua_NewInMemory_def ua_New_def New_empty split: prod.splits bool.splits)
  moreover have "(0 :: 32 word) < uid_Size sample_uid_range"
    by (simp add: uid_Size_def block_Size_def sample_uid_range_def)
  ultimately show ?thesis
    using allocated_uid_blocks_are_disjoint [OF new ua_reach.new, of 0] by metis
qed

end
