(* ===== verification/Scc_Admission.thy ===== *)
theory Scc_Admission
  imports Scc_Provider Uid_Ranges K8s_Names
begin

text \<open>
  The choice of a security context constraint for a pod: \<open>origin/pkg/security/scc\<close> (matching,
  ordering, values allocated to the namespace) and the admission plugin
  \<open>origin/pkg/security/admission/admission.go\<close>.  The list of constraints and the namespaces are
  arguments: what the caches and the API server answer during one admission.  A pod in a message is
  named by its name alone.
\<close>

section \<open>Which constraints apply\<close>

definition constraintSupportsGroup :: "string \<Rightarrow> string list \<Rightarrow> bool" where
  "constraintSupportsGroup g constraintGroups = list_ex (\<lambda>x. x = g) constraintGroups"

definition ConstraintAppliesTo :: "scc \<Rightarrow> user_info \<Rightarrow> bool" where
  "ConstraintAppliesTo s u \<longleftrightarrow>
     list_ex (\<lambda>x. ui_name u = x) (scc_Users s) \<or>
     list_ex (\<lambda>g. constraintSupportsGroup g (scc_Groups s)) (ui_groups u)"

definition FindApplicableSCCs :: "go_error + scc list \<Rightarrow> user_info \<Rightarrow> go_error + scc list" where
  "FindApplicableSCCs lister u =
     (case lister of Inl e \<Rightarrow> Inl e | Inr constraints \<Rightarrow> Inr (filter (\<lambda>s. ConstraintAppliesTo s u) constraints))"

fun dedup_loop :: "scc list \<Rightarrow> string list \<Rightarrow> scc list" where
  "dedup_loop [] added = []"
| "dedup_loop (s # sccs) added =
     (if \<not> Has (Some added) (scc_Name s) then s # dedup_loop sccs (Insert added [scc_Name s])
      else dedup_loop sccs added)"

definition DeduplicateSecurityContextConstraints :: "scc list \<Rightarrow> scc list" where
  "DeduplicateSecurityContextConstraints sccs = dedup_loop sccs []"

section \<open>Their order\<close>

definition getPriority :: "scc \<Rightarrow> int" where
  "getPriority s = (case scc_Priority s of None \<Rightarrow> 0 | Some p \<Rightarrow> p)"

definition hasHostVolume :: "scc \<Rightarrow> bool" where
  "hasHostVolume s \<longleftrightarrow> list_ex (\<lambda>v. v = ''hostPath'' \<or> v = FSTypeAll) (scc_Volumes s)"

definition hasNonTrivialVolume :: "scc \<Rightarrow> bool" where
  "hasNonTrivialVolume s \<longleftrightarrow>
     list_ex (\<lambda>v. v \<noteq> ''hostPath'' \<and> v \<noteq> FSTypeAll \<and>
       v \<notin> {''secret'', ''configMap'', ''emptyDir'', ''downwardAPI''}) (scc_Volumes s)"

definition volumePointValue :: "scc \<Rightarrow> int" where
  "volumePointValue s = (if hasHostVolume s then 10 else if hasNonTrivialVolume s then 5 else 0)"

definition pointValue :: "scc \<Rightarrow> int" where
  "pointValue s =
     (if scc_AllowPrivilegedContainer s then 20 else 0) + volumePointValue s +
     (if sel_Type (scc_SELinuxContext s) = RunAsAny then 4
      else if sel_Type (scc_SELinuxContext s) = MustRunAs then 1 else 0) +
     (if rau_Type (scc_RunAsUser s) = RunAsAny then 4
      else if rau_Type (scc_RunAsUser s) = MustRunAsNonRoot then 3
      else if rau_Type (scc_RunAsUser s) = MustRunAsRange then 2
      else if rau_Type (scc_RunAsUser s) = MustRunAs then 1 else 0)"

text \<open>\<open>ByPriority.Less\<close>\<close>

definition ByPriority_Less :: "scc \<Rightarrow> scc \<Rightarrow> bool" where
  "ByPriority_Less i j =
     (if getPriority i > getPriority j then True
      else if getPriority i < getPriority j then False
      else if pointValue i < pointValue j then True
      else if pointValue i > pointValue j then False
      else scc_Name i < scc_Name j)"

text \<open>\<open>sort.Sort\<close> is an insertion sort here: the result is the only sorted one (\<open>sort_unique\<close>).\<close>

fun insert_scc :: "scc \<Rightarrow> scc list \<Rightarrow> scc list" where
  "insert_scc x [] = [x]"
| "insert_scc x (y # ys) = (if ByPriority_Less y x then y # insert_scc x ys else x # y # ys)"

definition sort_by_priority :: "scc list \<Rightarrow> scc list" where
  "sort_by_priority sccs = foldr insert_scc sccs []"

section \<open>Values allocated to the namespace\<close>

definition UIDRangeAnnotation :: string where "UIDRangeAnnotation = ''openshift.io/sa.scc.uid-range''"
definition SupplementalGroupsAnnotation :: string where
  "SupplementalGroupsAnnotation = ''openshift.io/sa.scc.supplemental-groups''"
definition MCSAnnotation :: string where "MCSAnnotation = ''openshift.io/sa.scc.mcs''"
definition ValidatedSCCAnnotation :: string where "ValidatedSCCAnnotation = ''openshift.io/scc''"

record kube_namespace =
  kn_Name :: string
  kn_Annotations :: "string \<rightharpoonup> string"

definition requiresPreAllocatedUIDRange :: "scc \<Rightarrow> bool" where
  "requiresPreAllocatedUIDRange s \<longleftrightarrow>
     rau_Type (scc_RunAsUser s) = MustRunAsRange \<and>
     rau_UIDRangeMin (scc_RunAsUser s) = None \<and> rau_UIDRangeMax (scc_RunAsUser s) = None"

definition requiresPreAllocatedSELinuxLevel :: "scc \<Rightarrow> bool" where
  "requiresPreAllocatedSELinuxLevel s \<longleftrightarrow>
     sel_Type (scc_SELinuxContext s) = MustRunAs \<and>
     (case sel_SELinuxOptions (scc_SELinuxContext s) of None \<Rightarrow> True | Some x \<Rightarrow> se_Level x = [])"

definition requiresPreallocatedSupplementalGroups :: "scc \<Rightarrow> bool" where
  "requiresPreallocatedSupplementalGroups s \<longleftrightarrow>
     grp_Type (scc_SupplementalGroups s) = MustRunAs \<and> length (grp_Ranges (scc_SupplementalGroups s)) = 0"

definition requiresPreallocatedFSGroup :: "scc \<Rightarrow> bool" where
  "requiresPreallocatedFSGroup s \<longleftrightarrow>
     grp_Type (scc_FSGroup s) = MustRunAs \<and> length (grp_Ranges (scc_FSGroup s)) = 0"

definition getPreallocatedUIDRange :: "kube_namespace \<Rightarrow> go_error + int \<times> int" where
  "getPreallocatedUIDRange ns =
     (case kn_Annotations ns UIDRangeAnnotation of
        None \<Rightarrow> Inl (Errorf ''unable to find annotation %s'' [UIDRangeAnnotation])
      | Some val \<Rightarrow>
          if length val = 0 then Inl (Errorf ''found annotation %s but it was empty'' [UIDRangeAnnotation])
          else (case ParseBlock val of
                  Inl e \<Rightarrow> Inl e
                | Inr b \<Rightarrow> Inr (uint (bl_Start b), uint (bl_End b))))"

definition getPreallocatedLevel :: "kube_namespace \<Rightarrow> go_error + string" where
  "getPreallocatedLevel ns =
     (case kn_Annotations ns MCSAnnotation of
        None \<Rightarrow> Inl (Errorf ''unable to find annotation %s'' [MCSAnnotation])
      | Some level \<Rightarrow>
          if length level = 0 then Inl (Errorf ''found annotation %s but it was empty'' [MCSAnnotation])
          else Inr level)"

definition getSupplementalGroupsAnnotation :: "kube_namespace \<Rightarrow> go_error + string" where
  "getSupplementalGroupsAnnotation ns =
     (case (case kn_Annotations ns SupplementalGroupsAnnotation of
              Some groups \<Rightarrow> Some groups
            | None \<Rightarrow> kn_Annotations ns UIDRangeAnnotation) of
        None \<Rightarrow> Inl (Errorf ''unable to find supplemental group or uid annotation for namespace %s'' [kn_Name ns])
      | Some groups \<Rightarrow>
          if length groups = 0
          then Inl (Errorf ''unable to find groups using %s and %s annotations''
                 [SupplementalGroupsAnnotation, UIDRangeAnnotation])
          else Inr groups)"

fun parse_blocks :: "string list \<Rightarrow> go_error + block list" where
  "parse_blocks [] = Inr []"
| "parse_blocks (segment # segments) =
     (case ParseBlock segment of
        Inl e \<Rightarrow> Inl e
      | Inr b \<Rightarrow> (case parse_blocks segments of Inl e \<Rightarrow> Inl e | Inr bs \<Rightarrow> Inr (b # bs)))"

definition parseSupplementalGroupAnnotation :: "string \<Rightarrow> go_error + block list" where
  "parseSupplementalGroupAnnotation groups =
     (case parse_blocks (split_char CHR '','' groups) of
        Inl e \<Rightarrow> Inl e
      | Inr [] \<Rightarrow> Inl (Errorf ''no blocks parsed from annotation %s'' [groups])
      | Inr (b # bs) \<Rightarrow> Inr (b # bs))"

definition getPreallocatedFSGroup :: "kube_namespace \<Rightarrow> go_error + id_range list" where
  "getPreallocatedFSGroup ns =
     (case getSupplementalGroupsAnnotation ns of
        Inl e \<Rightarrow> Inl e
      | Inr groups \<Rightarrow>
          (case parseSupplementalGroupAnnotation groups of
             Inl e \<Rightarrow> Inl e
           | Inr blocks \<Rightarrow>
               Inr [\<lparr>rng_Min = uint (bl_Start (hd blocks)), rng_Max = uint (bl_Start (hd blocks))\<rparr>]))"

definition getPreallocatedSupplementalGroups :: "kube_namespace \<Rightarrow> go_error + id_range list" where
  "getPreallocatedSupplementalGroups ns =
     (case getSupplementalGroupsAnnotation ns of
        Inl e \<Rightarrow> Inl e
      | Inr groups \<Rightarrow>
          (case parseSupplementalGroupAnnotation groups of
             Inl e \<Rightarrow> Inl e
           | Inr blocks \<Rightarrow>
               Inr (map (\<lambda>b. \<lparr>rng_Min = uint (bl_Start b), rng_Max = uint (bl_End b)\<rparr>) blocks)))"

section \<open>Providers of constraints\<close>

definition resolve_uid_range :: "kube_namespace \<Rightarrow> scc \<Rightarrow> go_error + scc" where
  "resolve_uid_range ns s =
     (if \<not> requiresPreAllocatedUIDRange s then Inr s
      else (case getPreallocatedUIDRange ns of
              Inl e \<Rightarrow> Inl (ErrorfE ''unable to find pre-allocated uid annotation for namespace %s while trying to configure SCC %s: %v'' [kn_Name ns, scc_Name s] [e])
            | Inr (lo, hi) \<Rightarrow>
                Inr (s\<lparr>scc_RunAsUser := (scc_RunAsUser s)\<lparr>rau_UIDRangeMin := Some lo, rau_UIDRangeMax := Some hi\<rparr>\<rparr>)))"

definition resolve_selinux_level :: "kube_namespace \<Rightarrow> scc \<Rightarrow> go_error + scc" where
  "resolve_selinux_level ns s =
     (if \<not> requiresPreAllocatedSELinuxLevel s then Inr s
      else (case getPreallocatedLevel ns of
              Inl e \<Rightarrow> Inl (ErrorfE ''unable to find pre-allocated mcs annotation for namespace %s while trying to configure SCC %s: %v'' [kn_Name ns, scc_Name s] [e])
            | Inr level \<Rightarrow>
                let opts = (case sel_SELinuxOptions (scc_SELinuxContext s) of
                              None \<Rightarrow> \<lparr>se_User = [], se_Role = [], se_Type = [], se_Level = []\<rparr> | Some x \<Rightarrow> x)
                in Inr (s\<lparr>scc_SELinuxContext :=
                     (scc_SELinuxContext s)\<lparr>sel_SELinuxOptions := Some (opts\<lparr>se_Level := level\<rparr>)\<rparr>\<rparr>)))"

definition resolve_fs_group :: "kube_namespace \<Rightarrow> scc \<Rightarrow> go_error + scc" where
  "resolve_fs_group ns s =
     (if \<not> requiresPreallocatedFSGroup s then Inr s
      else (case getPreallocatedFSGroup ns of
              Inl e \<Rightarrow> Inl (ErrorfE ''unable to find pre-allocated group annotation for namespace %s while trying to configure SCC %s: %v'' [kn_Name ns, scc_Name s] [e])
            | Inr ranges \<Rightarrow> Inr (s\<lparr>scc_FSGroup := (scc_FSGroup s)\<lparr>grp_Ranges := ranges\<rparr>\<rparr>)))"

definition resolve_supplemental_groups :: "kube_namespace \<Rightarrow> scc \<Rightarrow> go_error + scc" where
  "resolve_supplemental_groups ns s =
     (if \<not> requiresPreallocatedSupplementalGroups s then Inr s
      else (case getPreallocatedSupplementalGroups ns of
              Inl e \<Rightarrow> Inl (ErrorfE ''unable to find pre-allocated group annotation for namespace %s while trying to configure SCC %s: %v'' [kn_Name ns, scc_Name s] [e])
            | Inr ranges \<Rightarrow> Inr (s\<lparr>scc_SupplementalGroups := (scc_SupplementalGroups s)\<lparr>grp_Ranges := ranges\<rparr>\<rparr>)))"

definition resolve_constraint :: "kube_namespace \<Rightarrow> scc \<Rightarrow> go_error + scc" where
  "resolve_constraint ns s =
     (case resolve_uid_range ns s of Inl e \<Rightarrow> Inl e | Inr s1 \<Rightarrow>
     (case resolve_selinux_level ns s1 of Inl e \<Rightarrow> Inl e | Inr s2 \<Rightarrow>
     (case resolve_fs_group ns s2 of Inl e \<Rightarrow> Inl e | Inr s3 \<Rightarrow>
        resolve_supplemental_groups ns s3)))"

definition getNamespaceByName ::
  "string \<Rightarrow> kube_namespace option \<Rightarrow> (string \<Rightarrow> go_error + kube_namespace) \<Rightarrow> go_error + kube_namespace" where
  "getNamespaceByName name ns client =
     (case ns of
        Some n \<Rightarrow> if name = kn_Name n then Inr n else client name
      | None \<Rightarrow> client name)"

definition requiresNamespaceAllocations :: "scc \<Rightarrow> bool" where
  "requiresNamespaceAllocations s \<longleftrightarrow>
     requiresPreAllocatedUIDRange s \<or> requiresPreAllocatedSELinuxLevel s \<or>
     requiresPreallocatedFSGroup s \<or> requiresPreallocatedSupplementalGroups s"

text \<open>The second component is the namespace to reuse.\<close>

definition CreateProviderFromConstraint ::
  "string \<Rightarrow> kube_namespace option \<Rightarrow> scc \<Rightarrow> (string \<Rightarrow> go_error + kube_namespace)
   \<Rightarrow> (go_error + provider) \<times> kube_namespace option" where
  "CreateProviderFromConstraint ns namespace s client =
     (let create = (\<lambda>s'. case NewSimpleProvider s' of
            Inl e \<Rightarrow> Inl (ErrorfE ''error creating provider for SCC %s in namespace %s: %v'' [scc_Name s, ns] [e])
          | Inr pv \<Rightarrow> Inr pv)
      in if \<not> requiresNamespaceAllocations s then (create s, namespace)
         else (case getNamespaceByName ns namespace client of
                 Inl e \<Rightarrow>
                   (Inl (ErrorfE ''error fetching namespace %s required to preallocate values for %s: %v'' [ns, scc_Name s] [e]), None)
               | Inr n \<Rightarrow>
                   (case resolve_constraint n s of
                      Inl e \<Rightarrow> (Inl e, Some n)
                    | Inr s' \<Rightarrow> (create s', Some n))))"

fun providers_loop ::
  "string \<Rightarrow> scc list \<Rightarrow> (string \<Rightarrow> go_error + kube_namespace) \<Rightarrow> kube_namespace option
   \<Rightarrow> provider list \<times> go_error list" where
  "providers_loop ns [] client namespace = ([], [])"
| "providers_loop ns (s # sccs) client namespace =
     (case CreateProviderFromConstraint ns namespace s client of
        (Inl e, namespace') \<Rightarrow> (case providers_loop ns sccs client namespace' of (pvs, errs) \<Rightarrow> (pvs, e # errs))
      | (Inr pv, namespace') \<Rightarrow> (case providers_loop ns sccs client namespace' of (pvs, errs) \<Rightarrow> (pv # pvs, errs)))"

definition CreateProvidersFromConstraints ::
  "string \<Rightarrow> scc list \<Rightarrow> (string \<Rightarrow> go_error + kube_namespace) \<Rightarrow> provider list \<times> go_error list" where
  "CreateProvidersFromConstraints ns sccs client = providers_loop ns sccs client None"

section \<open>Admission\<close>

record admission_attributes =
  aa_Group :: string
  aa_Resource :: string
  aa_Subresource :: string
  aa_Namespace :: string
  aa_User :: user_info

text \<open>The providers are tried in order; \<open>None\<close> is a panic.\<close>

fun try_providers :: "provider list \<Rightarrow> pod \<Rightarrow> go_error list \<Rightarrow> (pod \<times> go_error option) option" where
  "try_providers [] p errs =
     Some (p, Some (ForbiddenErr ''pods'' (pod_Name p)
       (ErrorfE ''unable to validate against any security context constraint: %v'' [] errs)))"
| "try_providers (pv # pvs) p errs =
     (case AssignSecurityContext pv p of
        None \<Rightarrow> None
      | Some (errs', p') \<Rightarrow>
          if length errs' > 0 then try_providers pvs p' (errs @ errs')
          else Some (p'\<lparr>pod_Annotations := (pod_Annotations p')(ValidatedSCCAnnotation \<mapsto> scc_Name (pv_scc pv))\<rparr>, None))"

definition service_account_UserInfo :: "string \<Rightarrow> string \<Rightarrow> user_info" where
  "service_account_UserInfo namespace name =
     \<lparr>ui_name = MakeUsername namespace name, ui_uid = [], ui_groups = MakeGroupNames namespace name, ui_extra = []\<rparr>"

definition matched_constraints ::
  "go_error + scc list \<Rightarrow> admission_attributes \<Rightarrow> pod \<Rightarrow> go_error + scc list" where
  "matched_constraints lister a p =
     (case FindApplicableSCCs lister (aa_User a) of
        Inl e \<Rightarrow> Inl e
      | Inr matched \<Rightarrow>
          if length (pod_ServiceAccountName p) > 0 then
            (case FindApplicableSCCs lister (service_account_UserInfo (aa_Namespace a) (pod_ServiceAccountName p)) of
               Inl e \<Rightarrow> Inl e
             | Inr sa \<Rightarrow> Inr (matched @ sa))
          else Inr matched)"

text \<open>The object is a pod or something else; a pod is changed in place.\<close>

definition Admit ::
  "go_error + scc list \<Rightarrow> (string \<Rightarrow> go_error + kube_namespace) \<Rightarrow> admission_attributes \<Rightarrow> pod option
   \<Rightarrow> (pod option \<times> go_error option) option" where
  "Admit lister client a obj =
     (if aa_Group a \<noteq> [] \<or> aa_Resource a \<noteq> ''pods'' then Some (obj, None)
      else if length (aa_Subresource a) \<noteq> 0 then Some (obj, None)
      else (case obj of
              None \<Rightarrow> Some (None, None)
            | Some p \<Rightarrow>
                (case matched_constraints lister a p of
                   Inl e \<Rightarrow> Some (Some p, Some (ForbiddenErr ''pods'' (pod_Name p) e))
                 | Inr matched \<Rightarrow>
                     let sorted_sccs = sort_by_priority (DeduplicateSecurityContextConstraints matched);
                         (providers, errs) = CreateProvidersFromConstraints (aa_Namespace a) sorted_sccs client
                     in if length providers = 0
                        then Some (Some p, Some (ForbiddenErr ''pods'' (pod_Name p)
                               (Errorf ''no providers available to validate pod request'' [])))
                        else map_option (\<lambda>(p', r). (Some p', r)) (try_providers providers p []))))"

end
