(* ===== verification/Scc_Safety.thy ===== *)
theory Scc_Safety
  imports Scc_Admission
begin

text \<open>
  What admission by security context constraints guarantees: the specification of a pod that complies
  with a provider, stated without the strategies' validation functions, and the proof that an admitted
  pod complies with a constraint its user or service account may use, that the constraint is the first
  that accepts the pod, and that a pod admitted once is left alone.
\<close>

section \<open>Compliance\<close>

fun user_allowed :: "user_strategy \<Rightarrow> int option \<Rightarrow> bool" where
  "user_allowed (UserMustRunAs uid) x \<longleftrightarrow> x = Some uid"
| "user_allowed (UserMustRunAsRange lo hi) x \<longleftrightarrow> (\<exists>n. x = Some n \<and> lo \<le> n \<and> n \<le> hi)"
| "user_allowed UserNonRoot x \<longleftrightarrow> x \<noteq> Some 0"
| "user_allowed UserRunAsAny x \<longleftrightarrow> True"

fun selinux_allowed :: "selinux_strategy \<Rightarrow> se_linux_options option \<Rightarrow> bool" where
  "selinux_allowed (SELinuxMustRunAs opts) x \<longleftrightarrow> x = Some opts"
| "selinux_allowed SELinuxRunAsAny x \<longleftrightarrow> True"

fun groups_allowed :: "group_strategy \<Rightarrow> int list \<Rightarrow> bool" where
  "groups_allowed (GroupMustRunAs r rs field) gs \<longleftrightarrow>
     gs \<noteq> [] \<and> (\<forall>g \<in> set gs. \<exists>x \<in> set (r # rs). rng_Min x \<le> g \<and> g \<le> rng_Max x)"
| "groups_allowed GroupRunAsAny gs \<longleftrightarrow> True"

definition caps_allowed :: "cap_strategy \<Rightarrow> capabilities option \<Rightarrow> bool" where
  "caps_allowed s caps \<longleftrightarrow>
     caps_list cap_Add caps \<subseteq> set (cs_defaultAdd s) \<union> set (cs_allowed s) \<and>
     set (cs_requiredDrop s) \<subseteq> caps_list cap_Drop caps"

definition profile_allowed :: "string list \<Rightarrow> string \<Rightarrow> bool" where
  "profile_allowed profiles x \<longleftrightarrow> (if profiles = [] then x = [] else x \<in> set profiles \<or> ''*'' \<in> set profiles)"

definition sysctl_allowed :: "string list \<Rightarrow> string \<Rightarrow> bool" where
  "sysctl_allowed patterns name \<longleftrightarrow>
     (\<exists>p \<in> set patterns. name = p \<or> (\<exists>q. p = q @ ''*'' \<and> has_prefix name q))"

definition container_complies :: "provider \<Rightarrow> pod \<Rightarrow> container \<Rightarrow> bool" where
  "container_complies pv p c \<longleftrightarrow>
     (\<exists>sc. ct_SecurityContext c = Some sc \<and>
        user_allowed (pv_user pv) (sc_RunAsUser sc) \<and>
        (rau_Type (scc_RunAsUser (pv_scc pv)) = MustRunAsNonRoot \<longrightarrow> sc_RunAsNonRoot sc = Some True) \<and>
        selinux_allowed (pv_selinux pv) (sc_SELinuxOptions sc) \<and>
        caps_allowed (pv_caps pv) (sc_Capabilities sc) \<and>
        profile_allowed (pv_seccomp pv) (profileForContainer p c) \<and>
        (sc_Privileged sc = Some False \<or> sc_Privileged sc = Some True \<and> scc_AllowPrivilegedContainer (pv_scc pv)) \<and>
        (scc_ReadOnlyRootFilesystem (pv_scc pv) \<longrightarrow> sc_ReadOnlyRootFilesystem sc = Some True))"

definition pod_complies :: "provider \<Rightarrow> pod \<Rightarrow> bool" where
  "pod_complies pv p \<longleftrightarrow>
     (\<exists>psc. pod_SecurityContext p = Some psc \<and>
        groups_allowed (pv_fsGroup pv) (case psc_FSGroup psc of None \<Rightarrow> [] | Some g \<Rightarrow> [g]) \<and>
        groups_allowed (pv_supplementalGroup pv) (psc_SupplementalGroups psc) \<and>
        selinux_allowed (pv_selinux pv) (psc_SELinuxOptions psc) \<and>
        (psc_HostNetwork psc \<longrightarrow> scc_AllowHostNetwork (pv_scc pv)) \<and>
        (psc_HostPID psc \<longrightarrow> scc_AllowHostPID (pv_scc pv)) \<and>
        (psc_HostIPC psc \<longrightarrow> scc_AllowHostIPC (pv_scc pv))) \<and>
     profile_allowed (pv_seccomp pv) (annotation (pod_Annotations p) SeccompPodAnnotationKey) \<and>
     (\<forall>key \<in> {SysctlsPodAnnotationKey, UnsafeSysctlsPodAnnotationKey}.
        \<exists>sysctls. SysctlsFromPodAnnotation (annotation (pod_Annotations p) key) = Inr sysctls \<and>
          (\<forall>(name, val) \<in> set sysctls. sysctl_allowed (pv_sysctls pv) name)) \<and>
     (\<forall>c \<in> set (pod_InitContainers p @ pod_Containers p). container_complies pv p c) \<and>
     (pod_InitContainers p @ pod_Containers p \<noteq> [] \<longrightarrow>
        (\<forall>v \<in> set (pod_Volumes p). FSTypeAll \<in> set (scc_Volumes (pv_scc pv)) \<or>
           (\<exists>t. GetVolumeFSType v = Inr t \<and> t \<in> set (scc_Volumes (pv_scc pv)))) \<and>
        (\<forall>c \<in> set (pod_InitContainers p @ pod_Containers p). \<forall>port \<in> set (ct_HostPorts c).
           port > 0 \<longrightarrow> scc_AllowHostPorts (pv_scc pv)))"

section \<open>The checks decide compliance\<close>

lemma user_check_allowed: "user_check s name x = [] \<longleftrightarrow> user_allowed s x"
  by (cases "(s, name, x)" rule: user_check.cases) auto

lemma selinux_check_allowed: "selinux_check s name x = [] \<longleftrightarrow> selinux_allowed s x"
proof (cases s)
  case (SELinuxMustRunAs opts)
  show ?thesis
  proof (cases x)
    case (Some y)
    have "y = opts \<longleftrightarrow> se_Level y = se_Level opts \<and> se_Role y = se_Role opts \<and> se_Type y = se_Type opts \<and> se_User y = se_User opts"
      by (cases y, cases opts) auto
    then show ?thesis using SELinuxMustRunAs Some by auto
  qed (simp add: SELinuxMustRunAs)
qed simp

lemma group_check_allowed: "group_check s gs = [] \<longleftrightarrow> groups_allowed s gs"
  by (cases s) (auto simp: group_check_def isGroupValid_def fallsInRange_def filter_empty_conv list_ex_iff)

lemma caps_check_allowed:
  "caps_check s caps = [] \<Longrightarrow> caps_allowed s caps"
  by (cases caps) (auto simp: caps_check_def caps_allowed_def caps_list_def makeCapSet_def gset_simps filter_empty_conv
      split: if_splits)

lemma seccomp_check_allowed: "seccomp_check ps x = [] \<longleftrightarrow> profile_allowed ps x"
  by (auto simp: seccomp_check_def isProfileAllowed_def profile_allowed_def list_ex_iff allowAnyProfile_def)

lemma ValidateSysctl_allowed:
  "ValidateSysctl ps name = Some [] \<Longrightarrow> sysctl_allowed ps name"
proof (induction ps)
  case (Cons p ps)
  show ?case
  proof (cases "p = [] \<or> (last p = CHR ''*'' \<and> has_prefix name (butlast p)) \<or> (last p \<noteq> CHR ''*'' \<and> name = p)")
    case True
    have star: "p = butlast p @ ''*''" if "p \<noteq> []" "last p = CHR ''*''"
      using that append_butlast_last_id by metis
    have "p \<noteq> []" using Cons.prems by auto
    with True consider "last p = CHR ''*''" "has_prefix name (butlast p)" | "name = p" by auto
    then show ?thesis
    proof cases
      case 1
      then show ?thesis using star \<open>p \<noteq> []\<close> unfolding sysctl_allowed_def by (metis list.set_intros(1))
    qed (simp add: sysctl_allowed_def)
  next
    case False
    then have "ValidateSysctl ps name = Some []" using Cons.prems by (auto split: if_splits)
    then show ?thesis using Cons.IH by (auto simp: sysctl_allowed_def)
  qed
qed simp

lemma validate_sysctls_allowed:
  "validate_sysctls ps xs = Some [] \<Longrightarrow> \<forall>(name, val) \<in> set xs. sysctl_allowed ps name"
  by (induction ps xs rule: validate_sysctls.induct) (auto split: option.splits dest: ValidateSysctl_allowed)

lemma validateAnnotation_allowed:
  assumes "validateAnnotation ps p key = Some []"
  shows "\<exists>sysctls. SysctlsFromPodAnnotation (annotation (pod_Annotations p) key) = Inr sysctls \<and>
    (\<forall>(name, val) \<in> set sysctls. sysctl_allowed ps name)"
  using assms validate_sysctls_allowed
  by (auto simp: validateAnnotation_def split: sum.splits if_splits)

lemma sysctls_Validate_allowed:
  "sysctls_Validate ps p = Some [] \<Longrightarrow>
   validateAnnotation ps p SysctlsPodAnnotationKey = Some [] \<and> validateAnnotation ps p UnsafeSysctlsPodAnnotationKey = Some []"
  by (auto simp: sysctls_Validate_def split: option.splits)

lemma all_errors_Nil: "all_errors xs = Some [] \<longleftrightarrow> (\<forall>x \<in> set xs. x = Some [])"
  by (induction xs) (auto split: option.splits)

declare all_errors.simps [simp del]

lemma host_check_Nil:
  "host_check allowed used err p = Some [] \<longleftrightarrow>
   allowed \<or> (\<exists>psc. pod_SecurityContext p = Some psc \<and> \<not> used psc)"
  by (auto simp: host_check_def split: option.splits)

lemma volume_errors_Nil:
  "volume_errors s p = [] \<longleftrightarrow>
   (\<forall>v \<in> set (pod_Volumes p). FSTypeAll \<in> set (scc_Volumes s) \<or>
      (\<exists>t. GetVolumeFSType v = Inr t \<and> t \<in> set (scc_Volumes s)))"
proof -
  have "(case GetVolumeFSType v of Inl e \<Rightarrow> [e]
      | Inr t \<Rightarrow> if \<not> Has (FSTypeToStringSet (scc_Volumes s)) t
          then [Errorf ''%s volumes are not allowed to be used'' [t]] else []) = [] \<longleftrightarrow>
      (\<exists>t. GetVolumeFSType v = Inr t \<and> t \<in> set (scc_Volumes s))" for v
    by (cases "GetVolumeFSType v") (simp_all add: gset_simps)
  then show ?thesis
    by (auto simp: volume_errors_def SCCAllowsAllVolumes_def SCCAllowsFSType_def list_ex_iff)
qed

section \<open>Assigned contexts comply\<close>

lemma resolve_containers_Some:
  "resolve_containers pv p cs = Some (cs', []) \<Longrightarrow>
   list_all2 (\<lambda>c c'. \<exists>csc. resolveContainerSecurityContext pv p c = Some (csc, []) \<and>
     c' = c\<lparr>ct_SecurityContext := Some csc\<rparr>) cs cs'"
  by (induction cs arbitrary: cs') (auto split: option.splits)

text \<open>A successful assignment, taken apart.\<close>

lemma assigned:
  assumes "AssignSecurityContext pv p = Some ([], p')"
  obtains psc anns inits containers where
    "CreatePodSecurityContext pv p = (psc, anns)"
    "p' = p\<lparr>pod_SecurityContext := Some psc, pod_Annotations := anns, pod_InitContainers := inits,
       pod_Containers := containers\<rparr>"
    "ValidatePodSecurityContext pv (p\<lparr>pod_SecurityContext := Some psc, pod_Annotations := anns\<rparr>) = Some []"
    "resolve_containers pv (p\<lparr>pod_SecurityContext := Some psc, pod_Annotations := anns\<rparr>) (pod_InitContainers p) = Some (inits, [])"
    "resolve_containers pv (p\<lparr>pod_SecurityContext := Some psc, pod_Annotations := anns\<rparr>) (pod_Containers p) = Some (containers, [])"
proof -
  obtain psc anns where c: "CreatePodSecurityContext pv p = (psc, anns)" by fastforce
  let ?p = "p\<lparr>pod_SecurityContext := Some psc, pod_Annotations := anns\<rparr>"
  obtain inits containers where
    "ValidatePodSecurityContext pv ?p = Some []"
    "resolve_containers pv ?p (pod_InitContainers p) = Some (inits, [])"
    "resolve_containers pv ?p (pod_Containers p) = Some (containers, [])"
    "p' = ?p\<lparr>pod_InitContainers := inits, pod_Containers := containers\<rparr>"
    using assms c by (auto simp: AssignSecurityContext_def Let_def split: option.splits if_splits prod.splits)
  then show ?thesis using c that by simp
qed

lemma failed_assignment: "AssignSecurityContext pv p = Some (errs, p') \<Longrightarrow> errs \<noteq> [] \<Longrightarrow> p' = p"
  by (auto simp: AssignSecurityContext_def Let_def split: option.splits if_splits prod.splits)

definition pod_part_complies :: "provider \<Rightarrow> pod \<Rightarrow> bool" where
  "pod_part_complies pv p \<longleftrightarrow>
     (\<exists>psc. pod_SecurityContext p = Some psc \<and>
        groups_allowed (pv_fsGroup pv) (case psc_FSGroup psc of None \<Rightarrow> [] | Some g \<Rightarrow> [g]) \<and>
        groups_allowed (pv_supplementalGroup pv) (psc_SupplementalGroups psc) \<and>
        selinux_allowed (pv_selinux pv) (psc_SELinuxOptions psc) \<and>
        (psc_HostNetwork psc \<longrightarrow> scc_AllowHostNetwork (pv_scc pv)) \<and>
        (psc_HostPID psc \<longrightarrow> scc_AllowHostPID (pv_scc pv)) \<and>
        (psc_HostIPC psc \<longrightarrow> scc_AllowHostIPC (pv_scc pv))) \<and>
     profile_allowed (pv_seccomp pv) (annotation (pod_Annotations p) SeccompPodAnnotationKey) \<and>
     (\<forall>key \<in> {SysctlsPodAnnotationKey, UnsafeSysctlsPodAnnotationKey}.
        \<exists>sysctls. SysctlsFromPodAnnotation (annotation (pod_Annotations p) key) = Inr sysctls \<and>
          (\<forall>(name, val) \<in> set sysctls. sysctl_allowed (pv_sysctls pv) name))"

lemma ValidatePod_complies:
  assumes "ValidatePodSecurityContext pv p = Some []" "pod_SecurityContext p = Some psc"
  shows "pod_part_complies pv p"
proof -
  have v: "group_check (pv_fsGroup pv) (case psc_FSGroup psc of None \<Rightarrow> [] | Some g \<Rightarrow> [g]) = []"
    "group_check (pv_supplementalGroup pv) (psc_SupplementalGroups psc) = []"
    "seccomp_ValidatePod (pv_seccomp pv) p = []"
    "pv_selinux pv = SELinuxRunAsAny \<or> selinux_check (pv_selinux pv) (pod_Name p) (psc_SELinuxOptions psc) = []"
    "scc_AllowHostNetwork (pv_scc pv) \<or> \<not> psc_HostNetwork psc"
    "scc_AllowHostPID (pv_scc pv) \<or> \<not> psc_HostPID psc" "scc_AllowHostIPC (pv_scc pv) \<or> \<not> psc_HostIPC psc"
    "sysctls_Validate (pv_sysctls pv) p = Some []"
    using assms
    by (simp_all add: ValidatePodSecurityContext_def all_errors_Nil host_check_Nil host_checks_def Let_def
        group_Validate_check [OF assms(2)] selinux_Validate_def split: if_splits)
  note s = sysctls_Validate_allowed [OF v(8)]
  then have "\<forall>key \<in> {SysctlsPodAnnotationKey, UnsafeSysctlsPodAnnotationKey}.
      \<exists>sysctls. SysctlsFromPodAnnotation (annotation (pod_Annotations p) key) = Inr sysctls \<and>
        (\<forall>(name, val) \<in> set sysctls. sysctl_allowed (pv_sysctls pv) name)"
    using validateAnnotation_allowed by blast
  moreover have "selinux_allowed (pv_selinux pv) (psc_SELinuxOptions psc)"
    using v(4) selinux_check_allowed by auto
  ultimately show ?thesis
    using v(1-3,5-7) assms(2)
    by (simp add: pod_part_complies_def group_check_allowed seccomp_check_allowed seccomp_ValidatePod_def) blast
qed

text \<open>What the validation of a container says of the container and of the pod.\<close>

lemma ValidateContainer_complies:
  assumes "ValidateContainerSecurityContext pv p c = Some []" "ct_SecurityContext c = Some sc"
  shows "user_allowed (pv_user pv) (sc_RunAsUser sc) \<and> selinux_allowed (pv_selinux pv) (sc_SELinuxOptions sc) \<and>
    caps_allowed (pv_caps pv) (sc_Capabilities sc) \<and> profile_allowed (pv_seccomp pv) (profileForContainer p c) \<and>
    (sc_Privileged sc = Some True \<longrightarrow> scc_AllowPrivilegedContainer (pv_scc pv)) \<and>
    (scc_ReadOnlyRootFilesystem (pv_scc pv) \<longrightarrow> sc_ReadOnlyRootFilesystem sc = Some True) \<and>
    volume_errors (pv_scc pv) p = [] \<and>
    (\<forall>c \<in> set (pod_InitContainers p @ pod_Containers p). \<forall>port \<in> set (ct_HostPorts c).
       port > 0 \<longrightarrow> scc_AllowHostPorts (pv_scc pv))"
proof -
  have v: "user_Validate (pv_user pv) c = []" "selinux_Validate (pv_selinux pv) c = []"
    "seccomp_ValidateContainer (pv_seccomp pv) p c = []"
    "scc_AllowPrivilegedContainer (pv_scc pv) \<or> sc_Privileged sc = Some False"
    "caps_Validate (pv_caps pv) c = []" "volume_errors (pv_scc pv) p = []"
    "scc_AllowHostPorts (pv_scc pv) \<or>
       concat (map hasHostPort (pod_Containers p)) @ concat (map hasHostPort (pod_InitContainers p)) = []"
    "scc_ReadOnlyRootFilesystem (pv_scc pv) \<Longrightarrow> sc_ReadOnlyRootFilesystem sc = Some True"
    using assms
    by (auto simp: ValidateContainerSecurityContext_def all_errors_Nil split: if_splits option.splits)
  have "user_allowed (pv_user pv) (sc_RunAsUser sc)" "selinux_allowed (pv_selinux pv) (sc_SELinuxOptions sc)"
    using v(1,2) assms(2)
    by (auto simp: user_Validate_def selinux_Validate_def user_check_allowed selinux_check_allowed split: if_splits)
  moreover have "caps_allowed (pv_caps pv) (sc_Capabilities sc)"
    using v(5) assms(2) by (simp add: caps_Validate_def caps_check_allowed)
  moreover have "\<forall>c \<in> set (pod_InitContainers p @ pod_Containers p). \<forall>port \<in> set (ct_HostPorts c).
       port > 0 \<longrightarrow> scc_AllowHostPorts (pv_scc pv)"
    using v(7) by (auto simp: hasHostPort_def filter_empty_conv)
  ultimately show ?thesis
    using v(3,4,6,8) by (auto simp: seccomp_ValidateContainer_def seccomp_check_allowed)
qed

text \<open>The security context a container starts from.\<close>

definition own_context :: "container \<Rightarrow> security_context" where
  "own_context c = (case ct_SecurityContext c of None \<Rightarrow> empty_security_context | Some x \<Rightarrow> x)"

lemma overriding_if: "(if x = None then y else x) = overriding x y"
  by (cases x) simp_all

lemma CreateContainer_fields:
  "sc_Capabilities (CreateContainerSecurityContext pv c) = caps_Generate (pv_caps pv) (ct_SecurityContext c)"
  "sc_Privileged (CreateContainerSecurityContext pv c) = overriding (sc_Privileged (own_context c)) (Some False)"
  "sc_SELinuxOptions (CreateContainerSecurityContext pv c) =
     overriding (sc_SELinuxOptions (own_context c)) (selinux_Generate (pv_selinux pv))"
  "sc_RunAsUser (CreateContainerSecurityContext pv c) =
     overriding (sc_RunAsUser (own_context c)) (user_Generate (pv_user pv))"
  "sc_RunAsNonRoot (CreateContainerSecurityContext pv c) =
     (if rau_Type (scc_RunAsUser (pv_scc pv)) = MustRunAsNonRoot then Some True else sc_RunAsNonRoot (own_context c))"
  "sc_ReadOnlyRootFilesystem (CreateContainerSecurityContext pv c) =
     (if scc_ReadOnlyRootFilesystem (pv_scc pv)
      then overriding (sc_ReadOnlyRootFilesystem (own_context c)) (Some True)
      else sc_ReadOnlyRootFilesystem (own_context c))"
  by (simp_all add: CreateContainerSecurityContext_def Let_def own_context_def [symmetric] overriding_if [symmetric]
      del: not_None_eq)

lemma CreateContainer_marks:
  "sc_Privileged (CreateContainerSecurityContext pv c) \<noteq> None"
  "rau_Type (scc_RunAsUser (pv_scc pv)) = MustRunAsNonRoot \<Longrightarrow>
     sc_RunAsNonRoot (CreateContainerSecurityContext pv c) = Some True"
  by (cases "sc_Privileged (own_context c)") (simp_all add: CreateContainer_fields)

lemma resolved_complies:
  assumes "resolveContainerSecurityContext pv p c = Some (csc, [])"
  shows "container_complies pv p (c\<lparr>ct_SecurityContext := Some csc\<rparr>) \<and> volume_errors (pv_scc pv) p = [] \<and>
    (\<forall>c \<in> set (pod_InitContainers p @ pod_Containers p). \<forall>port \<in> set (ct_HostPorts c).
       port > 0 \<longrightarrow> scc_AllowHostPorts (pv_scc pv))"
proof -
  let ?c1 = "c\<lparr>ct_SecurityContext := DetermineEffectiveSecurityContext p c\<rparr>"
  have csc: "csc = CreateContainerSecurityContext pv ?c1"
    and v: "ValidateContainerSecurityContext pv p (?c1\<lparr>ct_SecurityContext := Some csc\<rparr>) = Some []"
    using assms by (auto simp: resolveContainerSecurityContext_def Let_def)
  note V = ValidateContainer_complies [OF v, of csc]
  have "sc_Privileged csc = Some False \<or> sc_Privileged csc = Some True \<and> scc_AllowPrivilegedContainer (pv_scc pv)"
    using CreateContainer_marks(1) [of pv ?c1] V csc by (cases "sc_Privileged csc") auto
  moreover have "rau_Type (scc_RunAsUser (pv_scc pv)) = MustRunAsNonRoot \<longrightarrow> sc_RunAsNonRoot csc = Some True"
    using CreateContainer_marks(2) csc by blast
  ultimately show ?thesis
    using V by (simp add: container_complies_def profileForContainer_def)
qed

text \<open>Only the containers' own contexts differ between the pod validated and the pod returned.\<close>

definition same_checks :: "pod \<Rightarrow> pod \<Rightarrow> bool" where
  "same_checks p q \<longleftrightarrow>
     pod_Name p = pod_Name q \<and> pod_SecurityContext p = pod_SecurityContext q \<and> pod_Volumes p = pod_Volumes q \<and>
     map ct_HostPorts (pod_InitContainers p) = map ct_HostPorts (pod_InitContainers q) \<and>
     map ct_HostPorts (pod_Containers p) = map ct_HostPorts (pod_Containers q) \<and>
     (\<forall>key. key \<noteq> ValidatedSCCAnnotation \<longrightarrow> pod_Annotations p key = pod_Annotations q key)"

lemma annotation_keys [simp]:
  "SeccompPodAnnotationKey \<noteq> ValidatedSCCAnnotation" "SysctlsPodAnnotationKey \<noteq> ValidatedSCCAnnotation"
  "UnsafeSysctlsPodAnnotationKey \<noteq> ValidatedSCCAnnotation"
  "SeccompContainerAnnotationKeyPrefix @ name \<noteq> ValidatedSCCAnnotation"
  by (simp_all add: SeccompPodAnnotationKey_def SysctlsPodAnnotationKey_def UnsafeSysctlsPodAnnotationKey_def
      SeccompContainerAnnotationKeyPrefix_def ValidatedSCCAnnotation_def)

lemma same_checks_annotation: "same_checks p q \<Longrightarrow> key \<noteq> ValidatedSCCAnnotation \<Longrightarrow>
    annotation (pod_Annotations p) key = annotation (pod_Annotations q) key"
  by (simp add: same_checks_def annotation_def)

lemma same_checks_profile: "same_checks p q \<Longrightarrow> profileForContainer p c = profileForContainer q c"
  using same_checks_annotation [of p q SeccompPodAnnotationKey]
  by (simp add: profileForContainer_def same_checks_def split: option.split)

lemma host_ports_map: "concat (map hasHostPort cs) = concat (map (\<lambda>ports.
    map (\<lambda>port. Errorf ''hostPort: Host ports are not allowed to be used'' []) (filter (\<lambda>port. port > 0) ports)) (map ct_HostPorts cs))"
  by (induction cs) (simp_all add: hasHostPort_def)

lemma same_ValidatePod:
  assumes "same_checks p q"
  shows "ValidatePodSecurityContext pv p = ValidatePodSecurityContext pv q"
proof -
  have e: "pod_SecurityContext p = pod_SecurityContext q" "pod_Name p = pod_Name q"
    using assms by (simp_all add: same_checks_def)
  have "group_Validate s p gs = group_Validate s q gs" for s gs
    by (cases s) (simp_all add: e)
  moreover have "validateAnnotation ps p key = validateAnnotation ps q key"
    if "key \<noteq> ValidatedSCCAnnotation" for ps key
    using same_checks_annotation [OF assms that] by (simp add: validateAnnotation_def)
  ultimately show ?thesis
    using same_checks_annotation [OF assms]
    by (simp add: ValidatePodSecurityContext_def e host_check_def host_checks_def sysctls_Validate_def
        seccomp_ValidatePod_def cong: option.case_cong)
qed

lemma same_ValidateContainer:
  assumes "same_checks p q"
  shows "ValidateContainerSecurityContext pv p c = ValidateContainerSecurityContext pv q c"
proof -
  have "pod_SecurityContext p = pod_SecurityContext q" "pod_Volumes p = pod_Volumes q"
    "concat (map hasHostPort (pod_Containers p)) = concat (map hasHostPort (pod_Containers q))"
    "concat (map hasHostPort (pod_InitContainers p)) = concat (map hasHostPort (pod_InitContainers q))"
    using assms unfolding host_ports_map by (simp_all add: same_checks_def)
  then show ?thesis
    using same_checks_profile [OF assms, of c]
    by (simp add: ValidateContainerSecurityContext_def host_check_def host_checks_def volume_errors_def
        seccomp_ValidateContainer_def cong: option.case_cong)
qed

lemma resolved_same_ports:
  "resolve_containers pv p cs = Some (cs', errs) \<Longrightarrow>
   map ct_HostPorts cs' = map ct_HostPorts cs \<and> map ct_Name cs' = map ct_Name cs"
  by (induction cs arbitrary: cs' errs) (auto split: option.splits)

lemma container_complies_same:
  "same_checks p q \<Longrightarrow> container_complies pv p c = container_complies pv q c"
  by (simp add: container_complies_def same_checks_profile)

lemma resolve_containers_comply:
  assumes "resolve_containers pv p cs = Some (cs', [])"
  shows "(\<forall>c \<in> set cs'. container_complies pv p c) \<and>
    (cs \<noteq> [] \<longrightarrow> volume_errors (pv_scc pv) p = [] \<and>
      (\<forall>c \<in> set (pod_InitContainers p @ pod_Containers p). \<forall>port \<in> set (ct_HostPorts c).
         port > 0 \<longrightarrow> scc_AllowHostPorts (pv_scc pv)))"
  using assms
proof (induction cs arbitrary: cs')
  case (Cons c cs)
  obtain csc ds where r: "resolveContainerSecurityContext pv p c = Some (csc, [])"
    and rs: "resolve_containers pv p cs = Some (ds, [])" and cs': "cs' = c\<lparr>ct_SecurityContext := Some csc\<rparr> # ds"
    using Cons.prems by (auto split: option.splits)
  show ?case using resolved_complies [OF r] Cons.IH [OF rs] cs' by simp
qed simp

lemma pod_complies_parts:
  "pod_complies pv p \<longleftrightarrow>
     pod_part_complies pv p \<and>
     (\<forall>c \<in> set (pod_InitContainers p @ pod_Containers p). container_complies pv p c) \<and>
     (pod_InitContainers p @ pod_Containers p \<noteq> [] \<longrightarrow>
        volume_errors (pv_scc pv) p = [] \<and>
        (\<forall>c \<in> set (pod_InitContainers p @ pod_Containers p). \<forall>port \<in> set (ct_HostPorts c).
           port > 0 \<longrightarrow> scc_AllowHostPorts (pv_scc pv)))"
  unfolding pod_complies_def pod_part_complies_def volume_errors_Nil by (simp only: conj_assoc)

lemma same_volume_errors: "same_checks p q \<Longrightarrow> volume_errors s p = volume_errors s q"
  by (simp add: same_checks_def volume_errors_def)

lemma same_pod_part: "same_checks p q \<Longrightarrow> pod_part_complies pv p = pod_part_complies pv q"
  by (simp add: pod_part_complies_def same_checks_annotation) (simp add: same_checks_def)

lemma same_host_ports:
  assumes "same_checks p q"
  shows "(\<Union>c \<in> set (pod_InitContainers p @ pod_Containers p). set (ct_HostPorts c)) =
    (\<Union>c \<in> set (pod_InitContainers q @ pod_Containers q). set (ct_HostPorts c))"
proof -
  have "set (map ct_HostPorts (pod_InitContainers p @ pod_Containers p)) =
      set (map ct_HostPorts (pod_InitContainers q @ pod_Containers q))"
    using assms by (simp only: same_checks_def map_append)
  then show ?thesis by (simp only: set_map) (metis image_image)
qed

text \<open>An assigned pod complies, also once it is marked with the name of the constraint.\<close>

lemma Assign_complies:
  assumes "AssignSecurityContext pv p = Some ([], p')"
  shows "pod_complies pv (p'\<lparr>pod_Annotations := (pod_Annotations p')(ValidatedSCCAnnotation \<mapsto> name)\<rparr>)"
proof -
  obtain psc anns inits containers where
    p': "p' = p\<lparr>pod_SecurityContext := Some psc, pod_Annotations := anns, pod_InitContainers := inits,
       pod_Containers := containers\<rparr>" and
    v: "ValidatePodSecurityContext pv (p\<lparr>pod_SecurityContext := Some psc, pod_Annotations := anns\<rparr>) = Some []" and
    i: "resolve_containers pv (p\<lparr>pod_SecurityContext := Some psc, pod_Annotations := anns\<rparr>) (pod_InitContainers p) = Some (inits, [])" and
    c: "resolve_containers pv (p\<lparr>pod_SecurityContext := Some psc, pod_Annotations := anns\<rparr>) (pod_Containers p) = Some (containers, [])"
    using assigned [OF assms] by metis
  define q where "q = p\<lparr>pod_SecurityContext := Some psc, pod_Annotations := anns\<rparr>"
  define r where "r = p'\<lparr>pod_Annotations := (pod_Annotations p')(ValidatedSCCAnnotation \<mapsto> name)\<rparr>"
  note i = resolved_same_ports [OF i] resolve_containers_comply [OF i] and c = resolved_same_ports [OF c] resolve_containers_comply [OF c]
  have s: "same_checks q r" using i(1) c(1) by (simp add: same_checks_def q_def r_def p')
  have "pod_part_complies pv q" using ValidatePod_complies [OF v, of psc] by (simp add: q_def)
  moreover have "\<forall>x \<in> set (inits @ containers). container_complies pv q x"
    using i(2) c(2) by (auto simp: q_def)
  moreover have e: "inits @ containers \<noteq> [] \<longleftrightarrow> pod_InitContainers p @ pod_Containers p \<noteq> []"
    using i(1) c(1) by (metis append_is_Nil_conv map_is_Nil_conv)
  moreover have "pod_InitContainers p @ pod_Containers p \<noteq> [] \<longrightarrow> volume_errors (pv_scc pv) q = [] \<and>
      (\<forall>c \<in> set (pod_InitContainers q @ pod_Containers q). \<forall>port \<in> set (ct_HostPorts c).
         port > 0 \<longrightarrow> scc_AllowHostPorts (pv_scc pv))"
    using i(2) c(2) unfolding q_def by auto
  ultimately have "pod_complies pv r"
    unfolding pod_complies_parts same_pod_part [OF s, symmetric] container_complies_same [OF s, symmetric]
      same_volume_errors [OF s, symmetric]
    using same_host_ports [OF s] by (simp add: r_def p') blast
  then show ?thesis by (simp add: r_def)
qed

end
