(* ===== verification/Scc_Selection.thy ===== *)
theory Scc_Selection
  imports Scc_Safety "HOL-Library.Product_Lexorder" "HOL-Library.Multiset"
begin

text \<open>
  Which constraint admits a pod: the order of the constraints is a strict total order of their names,
  so sorting them has one result, the first constraint whose provider accepts the pod admits it, and
  the reuse of the namespace fetched for one constraint by the next ones changes no provider.
\<close>

section \<open>The order of constraints\<close>

definition priority_key :: "scc \<Rightarrow> int \<times> int \<times> string" where
  "priority_key s = (- getPriority s, pointValue s, scc_Name s)"

lemma Less_key: "ByPriority_Less i j \<longleftrightarrow> priority_key i < priority_key j"
  by (auto simp: ByPriority_Less_def priority_key_def)

lemma key_inj: "priority_key i = priority_key j \<Longrightarrow> scc_Name i = scc_Name j"
  by (simp add: priority_key_def)

lemma insert_scc_insort: "insert_scc x ys = insort_key priority_key x ys"
proof (induction ys)
  case (Cons y ys)
  have "ByPriority_Less y x \<longleftrightarrow> \<not> priority_key x \<le> priority_key y" by (simp only: Less_key not_le)
  then show ?case using Cons.IH by simp
qed simp

lemma sort_by_priority_key: "sort_by_priority sccs = sort_key priority_key sccs"
proof -
  have "insert_scc = insort_key priority_key" by (intro ext insert_scc_insort)
  then show ?thesis by (simp only: sort_by_priority_def sort_key_def)
qed

definition priority_sorted :: "scc list \<Rightarrow> bool" where
  "priority_sorted sccs \<longleftrightarrow> sorted_wrt (\<lambda>i j. \<not> ByPriority_Less j i) sccs"

lemma priority_sorted_key: "priority_sorted sccs \<longleftrightarrow> sorted (map priority_key sccs)"
  by (simp add: priority_sorted_def sorted_wrt_map Less_key not_less)

lemma distinct_names_inj: "distinct (map scc_Name sccs) \<Longrightarrow> inj_on priority_key (set sccs)"
  unfolding distinct_map by (blast intro: inj_onI dest: inj_onD key_inj)

lemma sort_by_priority_set [simp]: "set (sort_by_priority sccs) = set sccs"
  by (simp add: sort_by_priority_key)

lemma sort_by_priority_sorted: "priority_sorted (sort_by_priority sccs)"
  by (simp add: sort_by_priority_key priority_sorted_key)

text \<open>Constraints of distinct names have exactly one order, so every sort gives the same one.\<close>

theorem sorted_constraints_unique:
  assumes "distinct (map scc_Name sccs)"
  shows "priority_sorted ts \<and> mset ts = mset sccs \<longleftrightarrow> ts = sort_by_priority sccs"
proof
  assume "priority_sorted ts \<and> mset ts = mset sccs"
  then show "ts = sort_by_priority sccs"
    using sort_key_inj_key_eq [of sccs ts priority_key] distinct_names_inj [OF assms]
    by (simp add: sort_by_priority_key priority_sorted_key)
qed (simp add: sort_by_priority_sorted, simp add: sort_by_priority_key)

section \<open>Points\<close>

lemma volumePointValue_bounds: "0 \<le> volumePointValue s" "volumePointValue s \<le> 10"
  by (simp_all add: volumePointValue_def)

lemma strategy_points:
  "0 \<le> (if a then 4 else if b then 1 else 0 :: int)" "(if a then 4 else if b then 1 else 0 :: int) \<le> 4"
  "0 \<le> (if a then 4 else if b then 3 else if c then 2 else if d then 1 else 0 :: int)"
  "(if a then 4 else if b then 3 else if c then 2 else if d then 1 else 0 :: int) \<le> 4"
  by simp_all

lemma pointValue_bounds:
  "(if scc_AllowPrivilegedContainer s then 20 else 0) \<le> pointValue s"
  "pointValue s \<le> (if scc_AllowPrivilegedContainer s then 20 else 0) + 18"
proof -
  have add: "p \<le> p + v + x + y \<and> p + v + x + y \<le> p + 18"
    if "0 \<le> v" "v \<le> 10" "0 \<le> x" "x \<le> 4" "0 \<le> y" "y \<le> 4" for p v x y :: int
    using that by simp
  show "(if scc_AllowPrivilegedContainer s then 20 else 0) \<le> pointValue s"
    "pointValue s \<le> (if scc_AllowPrivilegedContainer s then 20 else 0) + 18"
    using add [OF volumePointValue_bounds [of s] strategy_points] unfolding pointValue_def by blast+
qed

text \<open>A constraint that allows privileged containers scores above every one that does not.\<close>

lemma privileged_points:
  assumes "scc_AllowPrivilegedContainer s" "\<not> scc_AllowPrivilegedContainer t"
  shows "pointValue t < pointValue s"
  using assms pointValue_bounds(1) [of s] pointValue_bounds(2) [of t] by simp

lemma privileged_sorts_last:
  "scc_AllowPrivilegedContainer s \<Longrightarrow> \<not> scc_AllowPrivilegedContainer t \<Longrightarrow> getPriority t = getPriority s \<Longrightarrow>
   ByPriority_Less t s"
  using privileged_points [of s t] by (simp add: ByPriority_Less_def)

section \<open>Constraints that apply once each\<close>

lemma dedup_loop_set:
  "set (dedup_loop sccs added) \<subseteq> set sccs"
  "s \<in> set (dedup_loop sccs added) \<Longrightarrow> scc_Name s \<notin> set added"
  by (induction sccs added rule: dedup_loop.induct) (auto simp: gset_simps split: if_splits)

lemma dedup_loop_distinct: "distinct (map scc_Name (dedup_loop sccs added))"
proof (induction sccs added rule: dedup_loop.induct)
  case (2 s sccs added)
  have "scc_Name s \<notin> scc_Name ` set (dedup_loop sccs (Insert added [scc_Name s]))"
    using dedup_loop_set(2) [of _ sccs "Insert added [scc_Name s]"] by (force simp: gset_simps)
  then show ?case using 2 by simp
qed simp

lemma dedup_loop_names:
  "s \<in> set sccs \<Longrightarrow> scc_Name s \<notin> set added \<Longrightarrow> \<exists>t \<in> set (dedup_loop sccs added). scc_Name t = scc_Name s"
proof (induction sccs added rule: dedup_loop.induct)
  case (2 r sccs added)
  show ?case
  proof (cases "scc_Name r = scc_Name s")
    case True
    then show ?thesis using 2(4) by (auto simp: gset_simps)
  next
    case False
    then have "s \<in> set sccs" using 2(3) by auto
    then show ?thesis using 2(1,2) 2(4) False by (auto simp: gset_simps)
  qed
qed simp

lemma Deduplicate_distinct: "distinct (map scc_Name (DeduplicateSecurityContextConstraints sccs))"
  by (simp add: DeduplicateSecurityContextConstraints_def dedup_loop_distinct)

lemma Deduplicate_set:
  assumes "inj_on scc_Name (set sccs)"
  shows "set (DeduplicateSecurityContextConstraints sccs) = set sccs"
proof
  show "set (DeduplicateSecurityContextConstraints sccs) \<subseteq> set sccs"
    by (simp add: DeduplicateSecurityContextConstraints_def dedup_loop_set)
  show "set sccs \<subseteq> set (DeduplicateSecurityContextConstraints sccs)"
  proof
    fix s assume s: "s \<in> set sccs"
    then obtain t where "t \<in> set (DeduplicateSecurityContextConstraints sccs)" "scc_Name t = scc_Name s"
      using dedup_loop_names [OF s, of "[]"] by (auto simp: DeduplicateSecurityContextConstraints_def)
    then show "s \<in> set (DeduplicateSecurityContextConstraints sccs)"
      using assms s dedup_loop_set(1) unfolding inj_on_def DeduplicateSecurityContextConstraints_def by (metis subsetD)
  qed
qed

section \<open>Providers without the shared namespace\<close>

text \<open>The provider of one constraint, its values read from a namespace fetched for it alone.\<close>

definition constraint_provider ::
  "string \<Rightarrow> (string \<Rightarrow> go_error + kube_namespace) \<Rightarrow> scc \<Rightarrow> go_error + provider" where
  "constraint_provider ns client s = fst (CreateProviderFromConstraint ns None s client)"

lemma shared_namespace_step:
  assumes "\<forall>n. namespace = Some n \<longrightarrow> client ns = Inr n"
  shows "fst (CreateProviderFromConstraint ns namespace s client) = constraint_provider ns client s"
    "snd (CreateProviderFromConstraint ns namespace s client) = Some n \<Longrightarrow> client ns = Inr n"
proof -
  have g: "getNamespaceByName ns namespace client = client ns"
    using assms by (cases namespace) (auto simp: getNamespaceByName_def)
  show "fst (CreateProviderFromConstraint ns namespace s client) = constraint_provider ns client s"
    by (auto simp: constraint_provider_def CreateProviderFromConstraint_def Let_def g
        getNamespaceByName_def [of ns None] split: sum.splits)
  show "snd (CreateProviderFromConstraint ns namespace s client) = Some n \<Longrightarrow> client ns = Inr n"
    using assms by (auto simp: CreateProviderFromConstraint_def Let_def g split: sum.splits if_splits)
qed

fun rights :: "('a + 'b) list \<Rightarrow> 'b list" where
  "rights [] = []"
| "rights (Inl a # xs) = rights xs"
| "rights (Inr b # xs) = b # rights xs"

fun lefts :: "('a + 'b) list \<Rightarrow> 'a list" where
  "lefts [] = []"
| "lefts (Inl a # xs) = a # lefts xs"
| "lefts (Inr b # xs) = lefts xs"

lemma rights_append: "rights (xs @ ys) = rights xs @ rights ys"
  by (induction xs rule: rights.induct) simp_all

lemma providers_loop_eq:
  assumes "\<And>n. namespace = Some n \<Longrightarrow> client ns = Inr n"
  shows "providers_loop ns sccs client namespace =
    (rights (map (constraint_provider ns client) sccs), lefts (map (constraint_provider ns client) sccs))"
  using assms
proof (induction sccs arbitrary: namespace)
  case (Cons s sccs)
  obtain r namespace' where c: "CreateProviderFromConstraint ns namespace s client = (r, namespace')" by fastforce
  have inv: "\<forall>n. namespace = Some n \<longrightarrow> client ns = Inr n" using Cons.prems by blast
  note step = shared_namespace_step [where client = client and ns = ns and s = s, OF inv, unfolded c fst_conv snd_conv]
  have "providers_loop ns sccs client namespace' =
      (rights (map (constraint_provider ns client) sccs), lefts (map (constraint_provider ns client) sccs))"
    using Cons.IH step(2) by blast
  moreover have "constraint_provider ns client s = r" using step(1) by simp
  ultimately show ?case using c by (cases r) simp_all
qed simp

lemma providers_created:
  "CreateProvidersFromConstraints ns sccs client =
     (rights (map (constraint_provider ns client) sccs), lefts (map (constraint_provider ns client) sccs))"
  unfolding CreateProvidersFromConstraints_def by (rule providers_loop_eq) simp

section \<open>Trying the providers\<close>

definition marked :: "pod \<Rightarrow> string \<Rightarrow> pod" where
  "marked p name = p\<lparr>pod_Annotations := (pod_Annotations p)(ValidatedSCCAnnotation \<mapsto> name)\<rparr>"

definition rejects :: "pod \<Rightarrow> provider \<Rightarrow> bool" where
  "rejects p pv \<longleftrightarrow> (\<exists>es. es \<noteq> [] \<and> AssignSecurityContext pv p = Some (es, p))"

lemma try_providers_result:
  "try_providers pvs p errs = Some (p', None) \<Longrightarrow>
     \<exists>before pv after p1. pvs = before @ pv # after \<and> (\<forall>q \<in> set before. rejects p q) \<and>
       AssignSecurityContext pv p = Some ([], p1) \<and> p' = marked p1 (scc_Name (pv_scc pv))"
  "try_providers pvs p errs = Some (p', Some e) \<Longrightarrow> p' = p \<and> (\<forall>q \<in> set pvs. rejects p q)"
proof (induction pvs arbitrary: errs)
  case (Cons pv pvs)
  have skip: "try_providers (pv # pvs) p errs = try_providers pvs p (errs @ es)" "rejects p pv"
    if "AssignSecurityContext pv p = Some (es, p1)" "es \<noteq> []" for es p1 errs
    using that failed_assignment [OF that] by (auto simp: rejects_def)
  {
    case 1
    then obtain es p1 where a: "AssignSecurityContext pv p = Some (es, p1)" by (auto split: option.splits)
    show ?case
    proof (cases "es = []")
      case True
      then show ?thesis using 1 a by (intro exI [of _ "[]"]) (simp add: marked_def)
    next
      case False
      then have t: "try_providers pvs p (errs @ es) = Some (p', None)" using 1 unfolding skip(1) [OF a False] by simp
      from Cons.IH(1) [OF t] obtain before pv' after p2 where "pvs = before @ pv' # after" "\<forall>q \<in> set before. rejects p q"
        "AssignSecurityContext pv' p = Some ([], p2)" "p' = marked p2 (scc_Name (pv_scc pv'))"
        by blast
      then show ?thesis using skip(2) [OF a False] by (intro exI [of _ "pv # before"]) auto
    qed
  next
    case 2
    then obtain es p1 where a: "AssignSecurityContext pv p = Some (es, p1)" by (auto split: option.splits)
    then have "es \<noteq> []" using 2 by auto
    then show ?case using Cons.IH(2) 2 skip [OF a] by auto
  }
qed auto

section \<open>The constraint a provider comes from\<close>

lemma NewSimpleProvider_scc: "NewSimpleProvider s = Inr pv \<Longrightarrow> pv_scc pv = s"
  by (auto simp: NewSimpleProvider_def split: sum.splits)

lemma resolve_constraint_name: "resolve_constraint n s = Inr s' \<Longrightarrow> scc_Name s' = scc_Name s"
  by (auto simp: resolve_constraint_def resolve_uid_range_def resolve_selinux_level_def resolve_fs_group_def
      resolve_supplemental_groups_def Let_def split: sum.splits if_splits)

definition resolved_for :: "string \<Rightarrow> (string \<Rightarrow> go_error + kube_namespace) \<Rightarrow> scc \<Rightarrow> scc \<Rightarrow> bool" where
  "resolved_for ns client s s' \<longleftrightarrow>
     (if requiresNamespaceAllocations s then \<exists>n. client ns = Inr n \<and> resolve_constraint n s = Inr s' else s' = s)"

lemma constraint_provider_Inr:
  "constraint_provider ns client s = Inr pv \<longleftrightarrow> (\<exists>s'. resolved_for ns client s s' \<and> NewSimpleProvider s' = Inr pv)"
  by (auto simp: constraint_provider_def CreateProviderFromConstraint_def resolved_for_def Let_def
      getNamespaceByName_def split: sum.splits)

lemma constraint_provider_name: "constraint_provider ns client s = Inr pv \<Longrightarrow> scc_Name (pv_scc pv) = scc_Name s"
  using constraint_provider_Inr NewSimpleProvider_scc resolve_constraint_name
  by (metis resolved_for_def)

lemma rights_split:
  "rights (map f xs) = before @ b # after \<Longrightarrow>
   \<exists>us x vs. xs = us @ x # vs \<and> f x = Inr b \<and> rights (map f us) = before"
proof (induction xs arbitrary: before)
  case (Cons x xs)
  show ?case
  proof (cases "f x")
    case (Inl a)
    then obtain us y vs where "xs = us @ y # vs" "f y = Inr b" "rights (map f us) = before"
      using Cons by auto
    then show ?thesis using Inl by (intro exI [of _ "x # us"]) auto
  next
    case (Inr c)
    show ?thesis
    proof (cases before)
      case Nil
      then show ?thesis using Cons.prems Inr by (intro exI [of _ "[]"]) auto
    next
      case (Cons d ds)
      then obtain us y vs where "xs = us @ y # vs" "f y = Inr b" "rights (map f us) = ds"
        using Cons.IH [of ds] Cons.prems Inr by auto
      then show ?thesis using Inr Cons Cons.prems by (intro exI [of _ "x # us"]) auto
    qed
  qed
qed simp

lemma rights_set: "b \<in> set (rights (map f xs)) \<longleftrightarrow> (\<exists>x \<in> set xs. f x = Inr b)"
proof (induction xs)
  case (Cons x xs)
  then show ?case by (cases "f x") auto
qed simp

end
