(* ===== verification/Scc_Admitted.thy ===== *)
theory Scc_Admitted
  imports Scc_Selection
begin

text \<open>
  Admission by security context constraints as a whole: an admitted pod complies with a constraint its
  user or service account may use, no constraint before it accepts the pod, a refused pod is
  unchanged, a pod assigned once is left alone by the same provider, and a pod that asks for nothing
  is admitted.
\<close>

section \<open>A request for a pod\<close>

definition is_pod_request :: "admission_attributes \<Rightarrow> bool" where
  "is_pod_request a \<longleftrightarrow> aa_Group a = [] \<and> aa_Resource a = ''pods'' \<and> aa_Subresource a = []"

definition may_use :: "admission_attributes \<Rightarrow> pod \<Rightarrow> scc \<Rightarrow> bool" where
  "may_use a p s \<longleftrightarrow>
     ConstraintAppliesTo s (aa_User a) \<or>
     pod_ServiceAccountName p \<noteq> [] \<and>
       ConstraintAppliesTo s (service_account_UserInfo (aa_Namespace a) (pod_ServiceAccountName p))"

text \<open>A constraint gives no provider, or its provider refuses the pod.\<close>

definition refuses :: "(string \<Rightarrow> go_error + kube_namespace) \<Rightarrow> admission_attributes \<Rightarrow> pod \<Rightarrow> scc \<Rightarrow> bool" where
  "refuses client a p s \<longleftrightarrow>
     (\<exists>e. constraint_provider (aa_Namespace a) client s = Inl e) \<or>
     (\<exists>pv. constraint_provider (aa_Namespace a) client s = Inr pv \<and> rejects p pv)"

definition candidates :: "scc list \<Rightarrow> scc list" where
  "candidates matched = sort_by_priority (DeduplicateSecurityContextConstraints matched)"

lemma matched_constraints_set:
  "\<exists>matched. matched_constraints (Inr sccs) a p = Inr matched \<and> set matched = {s \<in> set sccs. may_use a p s}"
  by (auto simp: matched_constraints_def FindApplicableSCCs_def may_use_def)

lemma Admit_pod:
  assumes "is_pod_request a" "matched_constraints lister a p = Inr matched"
  shows "Admit lister client a (Some p) =
    (let pvs = rights (map (constraint_provider (aa_Namespace a) client) (candidates matched))
     in if pvs = [] then Some (Some p, Some (ForbiddenErr ''pods'' (pod_Name p)
          (Errorf ''no providers available to validate pod request'' [])))
        else map_option (\<lambda>(p', r). (Some p', r)) (try_providers pvs p []))"
  using assms
  by (simp add: Admit_def is_pod_request_def candidates_def providers_created Let_def)

lemma candidates_facts:
  "set (candidates matched) \<subseteq> set matched" "priority_sorted (candidates matched)"
  "inj_on scc_Name (set matched) \<Longrightarrow> set (candidates matched) = set matched"
  "distinct (map scc_Name (candidates matched))"
proof -
  show "set (candidates matched) \<subseteq> set matched"
    by (simp add: candidates_def DeduplicateSecurityContextConstraints_def dedup_loop_set)
  show "priority_sorted (candidates matched)" by (simp add: candidates_def sort_by_priority_sorted)
  show "inj_on scc_Name (set matched) \<Longrightarrow> set (candidates matched) = set matched"
    by (simp add: candidates_def Deduplicate_set)
  have "mset (candidates matched) = mset (DeduplicateSecurityContextConstraints matched)"
    by (simp add: candidates_def sort_by_priority_key)
  then show "distinct (map scc_Name (candidates matched))"
    using Deduplicate_distinct [of matched] by (metis mset_eq_imp_distinct_iff mset_map)
qed

text \<open>An admission, taken apart: the constraints before the accepting one, and the accepting one.\<close>

lemma Admit_accepted:
  assumes "is_pod_request a" "Admit (Inr sccs) client a (Some p) = Some (r, None)"
  obtains matched us s vs pv p1 where
    "set matched = {s \<in> set sccs. may_use a p s}" "candidates matched = us @ s # vs"
    "constraint_provider (aa_Namespace a) client s = Inr pv" "\<forall>t \<in> set us. refuses client a p t"
    "AssignSecurityContext pv p = Some ([], p1)" "r = Some (marked p1 (scc_Name s))"
proof -
  let ?f = "constraint_provider (aa_Namespace a) client"
  obtain matched where m: "matched_constraints (Inr sccs) a p = Inr matched" "set matched = {s \<in> set sccs. may_use a p s}"
    using matched_constraints_set by blast
  obtain p' where t: "try_providers (rights (map ?f (candidates matched))) p [] = Some (p', None)" and r: "r = Some p'"
    using assms(2) by (auto simp: Admit_pod [OF assms(1) m(1)] Let_def split: if_splits)
  from try_providers_result(1) [OF t] obtain before pv after p1 where
    b: "rights (map ?f (candidates matched)) = before @ pv # after" "\<forall>q \<in> set before. rejects p q"
      "AssignSecurityContext pv p = Some ([], p1)" "p' = marked p1 (scc_Name (pv_scc pv))" by blast
  from rights_split [OF b(1)] obtain us s vs where
    c: "candidates matched = us @ s # vs" "?f s = Inr pv" "rights (map ?f us) = before" by blast
  have "refuses client a p t" if "t \<in> set us" for t
    using b(2) that unfolding refuses_def c(3) [symmetric] Ball_def rights_set by (metis sum.exhaust)
  then show ?thesis
    using that m(2) c(1,2) b(3,4) r constraint_provider_name [OF c(2)] by simp
qed

text \<open>
  C8: a pod that \<open>Admit\<close> accepts complies with a security context constraint: one in the list that
  applies to the user of the request or to the service account of the pod, with the values it leaves
  open taken from the namespace, and named in the annotation of the pod.  Complying is stated without
  the validation functions: users, groups, SELinux options, capabilities, seccomp profiles, sysctls,
  privileged containers, volumes, host ports and host namespaces are those the constraint allows, in
  every container and init container.
\<close>

theorem admitted_pod_complies:
  assumes "is_pod_request a" "Admit (Inr sccs) client a (Some p) = Some (Some p', None)"
  shows "\<exists>s \<in> set sccs. \<exists>s' pv. may_use a p s \<and> resolved_for (aa_Namespace a) client s s' \<and>
    NewSimpleProvider s' = Inr pv \<and> pod_complies pv p' \<and>
    pod_Annotations p' ValidatedSCCAnnotation = Some (scc_Name s)"
proof -
  obtain matched us s vs pv p1 where
    a: "set matched = {s \<in> set sccs. may_use a p s}" "candidates matched = us @ s # vs"
    "constraint_provider (aa_Namespace a) client s = Inr pv" "\<forall>t \<in> set us. refuses client a p t"
    "AssignSecurityContext pv p = Some ([], p1)" "Some p' = Some (marked p1 (scc_Name s))"
    by (rule Admit_accepted [OF assms])
  have "s \<in> set sccs" "may_use a p s"
    using candidates_facts(1) [of matched] a(1,2) by auto
  moreover have "pod_complies pv p'" "pod_Annotations p' ValidatedSCCAnnotation = Some (scc_Name s)"
    using Assign_complies [OF a(5), of "scc_Name s"] a(6) by (simp_all add: marked_def)
  ultimately show ?thesis using a(3) unfolding constraint_provider_Inr by blast
qed

text \<open>
  C9: the constraint that admits a pod is the first that can: every applicable constraint before it in
  the order of priorities, points and names gives no provider, or its provider refuses the pod.
\<close>

theorem admission_takes_first_accepting:
  assumes "is_pod_request a" "inj_on scc_Name (set sccs)"
    "Admit (Inr sccs) client a (Some p) = Some (Some p', None)"
  shows "\<exists>s \<in> set sccs. may_use a p s \<and> pod_Annotations p' ValidatedSCCAnnotation = Some (scc_Name s) \<and>
    (\<forall>t \<in> set sccs. may_use a p t \<and> ByPriority_Less t s \<longrightarrow> refuses client a p t)"
proof -
  obtain matched us s vs pv p1 where
    a: "set matched = {s \<in> set sccs. may_use a p s}" "candidates matched = us @ s # vs"
    "constraint_provider (aa_Namespace a) client s = Inr pv" "\<forall>t \<in> set us. refuses client a p t"
    "AssignSecurityContext pv p = Some ([], p1)" "Some p' = Some (marked p1 (scc_Name s))"
    by (rule Admit_accepted [OF assms(1,3)])
  have "inj_on scc_Name (set matched)" using assms(2) a(1) by (auto intro: inj_on_subset)
  from candidates_facts(3) [OF this] have c: "set (us @ s # vs) = {s \<in> set sccs. may_use a p s}"
    using a(1,2) by simp
  have "refuses client a p t" if t: "t \<in> set sccs" "may_use a p t" "ByPriority_Less t s" for t
  proof -
    have "t \<noteq> s" "t \<notin> set vs"
      using t(3) candidates_facts(2) [of matched]
      by (auto simp: a(2) priority_sorted_def sorted_wrt_append Less_key)
    then have "t \<in> set us" using c t by auto
    then show ?thesis using a(4) by blast
  qed
  then show ?thesis using c a(6) by (intro bexI [of _ s]) (auto simp: marked_def)
qed

text \<open>
  A pod that is refused leaves \<open>Admit\<close> as it came, whatever the providers tried filled in before
  they failed, and is refused only when every constraint that applies gives no provider or refuses it.
\<close>

theorem refused_pod_is_unchanged:
  assumes "is_pod_request a" "inj_on scc_Name (set sccs)" "Admit (Inr sccs) client a (Some p) = Some (r, Some e)"
  shows "r = Some p \<and> (\<forall>t \<in> set sccs. may_use a p t \<longrightarrow> refuses client a p t)"
proof -
  let ?f = "constraint_provider (aa_Namespace a) client"
  obtain matched where m: "matched_constraints (Inr sccs) a p = Inr matched" "set matched = {s \<in> set sccs. may_use a p s}"
    using matched_constraints_set by blast
  let ?pvs = "rights (map ?f (candidates matched))"
  have "r = Some p \<and> (\<forall>q \<in> set ?pvs. rejects p q)"
  proof (cases "?pvs = []")
    case True
    then show ?thesis using assms(3) by (auto simp: Admit_pod [OF assms(1) m(1)] Let_def)
  next
    case False
    then obtain p' where "try_providers ?pvs p [] = Some (p', Some e)" "r = Some p'"
      using assms(3) by (auto simp: Admit_pod [OF assms(1) m(1)] Let_def)
    then show ?thesis using try_providers_result(2) by blast
  qed
  moreover have "inj_on scc_Name (set matched)" using assms(2) m(2) by (auto intro: inj_on_subset)
  note candidates_facts(3) [OF this]
  ultimately show ?thesis
    unfolding Ball_def rights_set refuses_def using m(2) by (metis (mono_tags, lifting) mem_Collect_eq sum.exhaust)
qed

end
