(* ===== verification/Scc_Repeat.thy ===== *)
theory Scc_Repeat
  imports Scc_Admitted
begin

text \<open>
  Assigning security contexts again changes nothing: what a provider filled in is set, and is what the
  provider would fill in.
\<close>

section \<open>Filling in\<close>

definition own_pod_context :: "pod \<Rightarrow> pod_security_context" where
  "own_pod_context p = (case pod_SecurityContext p of None \<Rightarrow> empty_pod_security_context | Some x \<Rightarrow> x)"

definition fill_pod_context :: "provider \<Rightarrow> pod_security_context \<Rightarrow> pod_security_context" where
  "fill_pod_context pv x =
     x\<lparr>psc_SupplementalGroups :=
         (if psc_SupplementalGroups x = [] then group_Generate (pv_supplementalGroup pv) else psc_SupplementalGroups x),
       psc_FSGroup := overriding (psc_FSGroup x) (group_GenerateSingle (pv_fsGroup pv)),
       psc_SELinuxOptions := overriding (psc_SELinuxOptions x) (selinux_Generate (pv_selinux pv))\<rparr>"

definition fill_annotations :: "provider \<Rightarrow> (string \<rightharpoonup> string) \<Rightarrow> string \<rightharpoonup> string" where
  "fill_annotations pv m =
     (if m SeccompPodAnnotationKey = None \<and> seccomp_Generate (pv_seccomp pv) \<noteq> []
      then m(SeccompPodAnnotationKey \<mapsto> seccomp_Generate (pv_seccomp pv)) else m)"

lemma CreatePod_eq:
  "CreatePodSecurityContext pv p = (fill_pod_context pv (own_pod_context p), fill_annotations pv (pod_Annotations p))"
proof -
  have e: "(case pod_SecurityContext p of None \<Rightarrow> empty_pod_security_context | Some x \<Rightarrow> x) = own_pod_context p"
    by (simp add: own_pod_context_def)
  show ?thesis
    unfolding CreatePodSecurityContext_def e
    by (cases "own_pod_context p"; cases "psc_FSGroup (own_pod_context p)"; cases "psc_SELinuxOptions (own_pod_context p)")
      (simp_all add: fill_pod_context_def fill_annotations_def del: not_None_eq)
qed

lemma overriding_absorb [simp]: "overriding (overriding a b) b = overriding a b"
  by (cases a) simp_all

lemma overriding_None [simp]: "overriding a None = a"
  by (cases a) simp_all

lemma fill_pod_context_idem: "fill_pod_context pv (fill_pod_context pv x) = fill_pod_context pv x"
  by (cases x) (simp add: fill_pod_context_def)

lemma fill_annotations_idem:
  "fill_annotations pv ((fill_annotations pv m)(ValidatedSCCAnnotation \<mapsto> name)) =
   (fill_annotations pv m)(ValidatedSCCAnnotation \<mapsto> name)"
proof -
  have same: "fill_annotations pv n = n" if "n SeccompPodAnnotationKey \<noteq> None \<or> seccomp_Generate (pv_seccomp pv) = []" for n
    using that by (auto simp: fill_annotations_def)
  show ?thesis
  proof (rule same)
    show "((fill_annotations pv m)(ValidatedSCCAnnotation \<mapsto> name)) SeccompPodAnnotationKey \<noteq> None \<or>
        seccomp_Generate (pv_seccomp pv) = []"
      by (cases "m SeccompPodAnnotationKey") (simp_all add: fill_annotations_def)
  qed
qed

section \<open>Containers\<close>

lemma Determine_created:
  assumes "pod_SecurityContext q = Some psc" "pod_SecurityContext r = Some psc"
    "csc = CreateContainerSecurityContext pv (c\<lparr>ct_SecurityContext := DetermineEffectiveSecurityContext q c\<rparr>)"
  shows "DetermineEffectiveSecurityContext r (c\<lparr>ct_SecurityContext := Some csc\<rparr>) = Some csc"
proof -
  obtain d where d: "DetermineEffectiveSecurityContext q c = Some d"
    "overriding (sc_SELinuxOptions d) (psc_SELinuxOptions psc) = sc_SELinuxOptions d"
    "overriding (sc_RunAsUser d) (psc_RunAsUser psc) = sc_RunAsUser d"
    "overriding (sc_RunAsNonRoot d) (psc_RunAsNonRoot psc) = sc_RunAsNonRoot d"
    using assms(1)
    by (cases "ct_SecurityContext c")
      (auto simp: DetermineEffectiveSecurityContext_def securityContextFromPodSecurityContext_def empty_security_context_def)
  have o: "overriding (overriding a b) x = overriding a b" if "overriding a x = a" for a b x :: "'a option"
    using that by (cases a) auto
  have "overriding (sc_SELinuxOptions csc) (psc_SELinuxOptions psc) = sc_SELinuxOptions csc"
    "overriding (sc_RunAsUser csc) (psc_RunAsUser psc) = sc_RunAsUser csc"
    "overriding (sc_RunAsNonRoot csc) (psc_RunAsNonRoot psc) = sc_RunAsNonRoot csc"
    using d(2-4) by (simp_all add: assms(3) d(1) CreateContainer_fields own_context_def o)
  then show ?thesis
    by (simp add: DetermineEffectiveSecurityContext_def securityContextFromPodSecurityContext_def assms(2)
        empty_security_context_def)
qed

lemma Create_created:
  assumes "csc = CreateContainerSecurityContext pv c" "ct_SecurityContext c = Some d" "ct_SecurityContext c' = Some csc"
  shows "CreateContainerSecurityContext pv c' = csc"
proof (rule security_context.equality)
  have "caps_Generate (pv_caps pv) (Some csc) = caps_Generate (pv_caps pv) (Some d)"
    by (rule caps_Generate_idem) (simp add: assms(1,2) CreateContainer_fields)
  then show "sc_Capabilities (CreateContainerSecurityContext pv c') = sc_Capabilities csc"
    using assms by (simp add: CreateContainer_fields)
  have own: "own_context c' = CreateContainerSecurityContext pv c" by (simp add: own_context_def assms(1,3))
  then show "sc_Privileged (CreateContainerSecurityContext pv c') = sc_Privileged csc"
    "sc_SELinuxOptions (CreateContainerSecurityContext pv c') = sc_SELinuxOptions csc"
    "sc_RunAsUser (CreateContainerSecurityContext pv c') = sc_RunAsUser csc"
    "sc_RunAsNonRoot (CreateContainerSecurityContext pv c') = sc_RunAsNonRoot csc"
    "sc_ReadOnlyRootFilesystem (CreateContainerSecurityContext pv c') = sc_ReadOnlyRootFilesystem csc"
    by (simp_all add: CreateContainer_fields own assms(1))
qed simp

lemma resolve_again:
  assumes "same_checks q r" "pod_SecurityContext q = Some psc"
    "resolveContainerSecurityContext pv q c = Some (csc, [])"
  shows "resolveContainerSecurityContext pv r (c\<lparr>ct_SecurityContext := Some csc\<rparr>) = Some (csc, [])"
proof -
  let ?c1 = "c\<lparr>ct_SecurityContext := DetermineEffectiveSecurityContext q c\<rparr>"
  have csc: "csc = CreateContainerSecurityContext pv ?c1"
    and v: "ValidateContainerSecurityContext pv q (?c1\<lparr>ct_SecurityContext := Some csc\<rparr>) = Some []"
    using assms(3) by (auto simp: resolveContainerSecurityContext_def Let_def)
  have r: "pod_SecurityContext r = Some psc" using assms(1,2) by (simp add: same_checks_def)
  note D = Determine_created [OF assms(2) r csc]
  obtain d where "DetermineEffectiveSecurityContext q c = Some d"
    using assms(2) by (cases "ct_SecurityContext c")
      (auto simp: DetermineEffectiveSecurityContext_def securityContextFromPodSecurityContext_def)
  then have "CreateContainerSecurityContext pv (c\<lparr>ct_SecurityContext := Some csc\<rparr>) = csc"
    by (intro Create_created [OF csc]) simp_all
  then show ?thesis
    using v by (simp add: resolveContainerSecurityContext_def D same_ValidateContainer [OF assms(1)])
qed

lemma resolve_containers_again:
  assumes "same_checks q r" "pod_SecurityContext q = Some psc" "resolve_containers pv q cs = Some (cs', [])"
  shows "resolve_containers pv r cs' = Some (cs', [])"
  using assms(3)
proof (induction cs arbitrary: cs')
  case (Cons c cs)
  obtain csc ds where "resolveContainerSecurityContext pv q c = Some (csc, [])"
    "resolve_containers pv q cs = Some (ds, [])" "cs' = c\<lparr>ct_SecurityContext := Some csc\<rparr> # ds"
    using Cons.prems by (auto split: option.splits)
  then show ?case using resolve_again [OF assms(1,2)] Cons.IH by simp
qed simp

section \<open>Pods\<close>

text \<open>
  C11: assigning security contexts is idempotent: a provider accepts a pod it assigned contexts to, also
  once the pod is annotated, and changes nothing in it, although the defaults of the pod are mixed
  into the contexts of the containers and default capabilities are merged again.
\<close>

theorem assigned_pod_is_left_alone:
  assumes "AssignSecurityContext pv p = Some ([], p')"
  shows "AssignSecurityContext pv (marked p' name) = Some ([], marked p' name)"
proof -
  define psc where "psc = fill_pod_context pv (own_pod_context p)"
  define anns where "anns = fill_annotations pv (pod_Annotations p)"
  define q where "q = p\<lparr>pod_SecurityContext := Some psc, pod_Annotations := anns\<rparr>"
  obtain psc' anns' inits containers where a:
    "CreatePodSecurityContext pv p = (psc', anns')"
    "p' = p\<lparr>pod_SecurityContext := Some psc', pod_Annotations := anns', pod_InitContainers := inits,
       pod_Containers := containers\<rparr>"
    "ValidatePodSecurityContext pv (p\<lparr>pod_SecurityContext := Some psc', pod_Annotations := anns'\<rparr>) = Some []"
    "resolve_containers pv (p\<lparr>pod_SecurityContext := Some psc', pod_Annotations := anns'\<rparr>) (pod_InitContainers p) = Some (inits, [])"
    "resolve_containers pv (p\<lparr>pod_SecurityContext := Some psc', pod_Annotations := anns'\<rparr>) (pod_Containers p) = Some (containers, [])"
    by (rule assigned [OF assms])
  have e: "psc' = psc" "anns' = anns" using a(1) by (simp_all add: CreatePod_eq psc_def anns_def)
  note a = a(2-5) [unfolded e, folded q_def]
  define r where "r = marked p' name"
  have s: "same_checks q r"
    using resolved_same_ports [OF a(3)] resolved_same_ports [OF a(4)]
    by (simp add: same_checks_def q_def r_def marked_def a(1))
  have q: "pod_SecurityContext q = Some psc" by (simp add: q_def)
  have "CreatePodSecurityContext pv r = (psc, pod_Annotations r)"
  proof -
    have "own_pod_context r = psc" "pod_Annotations r = anns(ValidatedSCCAnnotation \<mapsto> name)"
      by (simp_all add: r_def marked_def a(1) q_def own_pod_context_def)
    then show ?thesis by (simp add: CreatePod_eq psc_def fill_pod_context_idem anns_def fill_annotations_idem)
  qed
  moreover have "r\<lparr>pod_SecurityContext := Some psc, pod_Annotations := pod_Annotations r\<rparr> = r"
    by (simp add: r_def marked_def a(1) q_def)
  moreover have "ValidatePodSecurityContext pv r = Some []" using a(2) same_ValidatePod [OF s] by simp
  moreover have "resolve_containers pv r (pod_InitContainers r) = Some (pod_InitContainers r, [])"
    "resolve_containers pv r (pod_Containers r) = Some (pod_Containers r, [])"
    using resolve_containers_again [OF s q a(3)] resolve_containers_again [OF s q a(4)]
    by (simp_all add: r_def marked_def a(1))
  ultimately have "AssignSecurityContext pv r = Some ([], r)"
    by (simp add: AssignSecurityContext_def Let_def)
  then show ?thesis by (simp add: r_def)
qed

end
