(* ===== verification/Scc_Plain.thy ===== *)
theory Scc_Plain
  imports Scc_Repeat
begin

text \<open>
  Completeness of admission: a pod that leaves everything open is admitted whenever some constraint it
  may use has a provider whose ranges are not empty; and the one way a validation panics, an empty
  pattern of sysctls.
\<close>

section \<open>Pods that ask for nothing\<close>

definition asks_nothing :: "pod \<Rightarrow> bool" where
  "asks_nothing p \<longleftrightarrow>
     pod_SecurityContext p = None \<and> pod_Volumes p = [] \<and>
     (\<forall>key \<in> {SeccompPodAnnotationKey, SysctlsPodAnnotationKey, UnsafeSysctlsPodAnnotationKey}.
        pod_Annotations p key = None) \<and>
     (\<forall>c \<in> set (pod_InitContainers p @ pod_Containers p).
        ct_SecurityContext c = None \<and> (\<forall>port \<in> set (ct_HostPorts c). port \<le> 0) \<and>
        pod_Annotations p (SeccompContainerAnnotationKeyPrefix @ ct_Name c) = None)"

definition provider_ok :: "provider \<Rightarrow> bool" where
  "provider_ok pv \<longleftrightarrow> user_ok (pv_user pv) \<and> group_ok (pv_fsGroup pv) \<and> group_ok (pv_supplementalGroup pv)"

lemma validated_provider_ok:
  assumes "ValidateSecurityContextConstraints s = []" "NewSimpleProvider s = Inr pv" "user_ok (pv_user pv)"
  shows "provider_ok pv"
proof -
  have "group_ok g" if "\<forall>r \<in> set (grp_Ranges opts). rng_Min r \<le> rng_Max r"
    "createFSGroupStrategy opts = Inr g \<or> createSupplementalGroupStrategy opts = Inr g" for opts g
    using that
    by (cases "grp_Ranges opts")
      (auto simp: createFSGroupStrategy_def createSupplementalGroupStrategy_def group_NewMustRunAs_def split: if_splits)
  then show ?thesis
    using assms ValidateSecurityContextConstraints_Nil [OF assms(1)]
    by (auto simp: provider_ok_def NewSimpleProvider_def split: sum.splits)
qed

lemma more_keys [simp]:
  "SysctlsPodAnnotationKey \<noteq> SeccompPodAnnotationKey" "UnsafeSysctlsPodAnnotationKey \<noteq> SeccompPodAnnotationKey"
  "SeccompContainerAnnotationKeyPrefix @ name \<noteq> SeccompPodAnnotationKey"
  by (simp_all add: SeccompPodAnnotationKey_def SysctlsPodAnnotationKey_def UnsafeSysctlsPodAnnotationKey_def
      SeccompContainerAnnotationKeyPrefix_def)

text \<open>The pod that is validated.\<close>

definition filled :: "provider \<Rightarrow> pod \<Rightarrow> pod" where
  "filled pv p = p\<lparr>pod_SecurityContext := Some (fill_pod_context pv (own_pod_context p)),
     pod_Annotations := fill_annotations pv (pod_Annotations p)\<rparr>"

lemma filled_annotations:
  assumes "asks_nothing p"
  shows "annotation (pod_Annotations (filled pv p)) SeccompPodAnnotationKey = seccomp_Generate (pv_seccomp pv)"
    "pod_Annotations (filled pv p) SysctlsPodAnnotationKey = None"
    "pod_Annotations (filled pv p) UnsafeSysctlsPodAnnotationKey = None"
    "c \<in> set (pod_InitContainers p @ pod_Containers p) \<Longrightarrow>
       pod_Annotations (filled pv p) (SeccompContainerAnnotationKeyPrefix @ ct_Name c) = None"
  using assms by (auto simp: asks_nothing_def filled_def fill_annotations_def annotation_def)

lemma filled_context:
  assumes "asks_nothing p"
  shows "pod_SecurityContext (filled pv p) = Some (fill_pod_context pv empty_pod_security_context)"
  using assms by (simp add: asks_nothing_def filled_def own_pod_context_def)

lemma fill_empty:
  "psc_SupplementalGroups (fill_pod_context pv empty_pod_security_context) = group_Generate (pv_supplementalGroup pv)"
  "psc_FSGroup (fill_pod_context pv empty_pod_security_context) = group_GenerateSingle (pv_fsGroup pv)"
  "psc_SELinuxOptions (fill_pod_context pv empty_pod_security_context) = selinux_Generate (pv_selinux pv)"
  "psc_HostNetwork (fill_pod_context pv empty_pod_security_context) = False"
  "psc_HostPID (fill_pod_context pv empty_pod_security_context) = False"
  "psc_HostIPC (fill_pod_context pv empty_pod_security_context) = False"
  "psc_RunAsUser (fill_pod_context pv empty_pod_security_context) = None"
  "psc_RunAsNonRoot (fill_pod_context pv empty_pod_security_context) = None"
  by (simp_all add: fill_pod_context_def empty_pod_security_context_def)

lemma validate_no_sysctls:
  "pod_Annotations p key = None \<Longrightarrow> validateAnnotation ps p key = Some []"
  by (simp add: validateAnnotation_def annotation_def SysctlsFromPodAnnotation_def)

lemma filled_pod_validates:
  assumes "asks_nothing p"
  shows "ValidatePodSecurityContext pv (filled pv p) =
    Some (group_check (pv_fsGroup pv) (case group_GenerateSingle (pv_fsGroup pv) of None \<Rightarrow> [] | Some g \<Rightarrow> [g]) @
      group_check (pv_supplementalGroup pv) (group_Generate (pv_supplementalGroup pv)))"
proof -
  let ?q = "filled pv p"
  note ctx = filled_context [OF assms, of pv] and ann = filled_annotations [where pv = pv, OF assms]
  have "sysctls_Validate (pv_sysctls pv) ?q = Some []"
    by (simp add: sysctls_Validate_def validate_no_sysctls ann(2,3))
  moreover have "seccomp_ValidatePod (pv_seccomp pv) ?q = []"
    by (simp add: seccomp_ValidatePod_def ann(1) seccomp_default.generated_valid)
  moreover have "host_check x used e ?q = Some []" if "used \<in> {psc_HostNetwork, psc_HostPID, psc_HostIPC}" for x used e
    using that by (auto simp: host_check_Nil ctx fill_empty)
  then have "host_check x psc_HostNetwork e ?q = Some []" "host_checks (pv_scc pv) ?q = Some []" for x e
    by (simp_all add: host_checks_def all_errors_Nil)
  ultimately show ?thesis
    by (simp add: ValidatePodSecurityContext_def ctx group_Validate_check [OF ctx] fill_empty all_errors.simps
        selinux_Validate_def selinux_default.generated_valid Let_def)
qed

lemma filled_container_validates:
  assumes "asks_nothing p" "c \<in> set (pod_InitContainers p @ pod_Containers p)"
  shows "\<exists>csc. resolveContainerSecurityContext pv (filled pv p) c =
    Some (csc, if pv_user pv = UserRunAsAny then [] else user_check (pv_user pv) (ct_Name c) (user_Generate (pv_user pv)))"
proof -
  let ?q = "filled pv p"
  note ctx = filled_context [OF assms(1), of pv] and ann = filled_annotations [where pv = pv, OF assms(1)]
  define d where "d = empty_security_context\<lparr>sc_SELinuxOptions := selinux_Generate (pv_selinux pv)\<rparr>"
  have c: "ct_SecurityContext c = None" using assms by (simp add: asks_nothing_def)
  have d: "DetermineEffectiveSecurityContext ?q c = Some d"
    by (simp add: DetermineEffectiveSecurityContext_def securityContextFromPodSecurityContext_def ctx c fill_empty d_def
        empty_security_context_def)
  define c1 where "c1 = c\<lparr>ct_SecurityContext := Some d\<rparr>"
  define csc where "csc = CreateContainerSecurityContext pv c1"
  have own: "own_context c1 = d" by (simp add: own_context_def c1_def)
  have f: "sc_Privileged csc = Some False" "sc_SELinuxOptions csc = selinux_Generate (pv_selinux pv)"
    "sc_RunAsUser csc = user_Generate (pv_user pv)" "sc_Capabilities csc = caps_Generate (pv_caps pv) (Some d)"
    "scc_ReadOnlyRootFilesystem (pv_scc pv) \<Longrightarrow> sc_ReadOnlyRootFilesystem csc = Some True"
    by (simp_all add: csc_def CreateContainer_fields own) (simp_all add: c1_def d_def empty_security_context_def)
  have "caps_check (pv_caps pv) (sc_Capabilities csc) = []"
    by (simp add: f(4) caps_check_generated) (simp add: d_def empty_security_context_def)
  moreover have "seccomp_ValidateContainer (pv_seccomp pv) ?q (c1\<lparr>ct_SecurityContext := Some csc\<rparr>) = []"
    using ann(4) [OF assms(2)]
    by (simp add: seccomp_ValidateContainer_def profileForContainer_def c1_def ann(1) seccomp_default.generated_valid)
  moreover have "host_check x used e ?q = Some []" if "used \<in> {psc_HostNetwork, psc_HostPID, psc_HostIPC}" for x used e
    using that by (auto simp: host_check_Nil ctx fill_empty)
  then have "host_check x psc_HostNetwork e ?q = Some []" "host_checks (pv_scc pv) ?q = Some []" for x e
    by (simp_all add: host_checks_def all_errors_Nil)
  moreover have "volume_errors (pv_scc pv) ?q = []"
    using assms(1) by (simp add: volume_errors_def filled_def asks_nothing_def)
  moreover have "concat (map hasHostPort (pod_Containers ?q)) = []" "concat (map hasHostPort (pod_InitContainers ?q)) = []"
    using assms(1) by (auto simp: hasHostPort_def filled_def asks_nothing_def filter_empty_conv not_less)
  ultimately have "ValidateContainerSecurityContext pv ?q (c1\<lparr>ct_SecurityContext := Some csc\<rparr>) =
      Some (if pv_user pv = UserRunAsAny then [] else user_check (pv_user pv) (ct_Name c) (user_Generate (pv_user pv)))"
    using f(5)
    by (simp add: ValidateContainerSecurityContext_def all_errors.simps user_Validate_def selinux_Validate_def
        caps_Validate_def f(1-3) selinux_default.generated_valid c1_def)
  then show ?thesis by (simp add: resolveContainerSecurityContext_def d csc_def c1_def Let_def)
qed

section \<open>Their assignment and admission\<close>

lemma plain_containers:
  assumes "\<And>c. c \<in> set cs \<Longrightarrow> \<exists>csc. resolveContainerSecurityContext pv q c = Some (csc, g c)"
  shows "\<exists>cs'. resolve_containers pv q cs = Some (cs', concat (map g cs))"
  using assms
proof (induction cs)
  case (Cons c cs)
  obtain csc where "resolveContainerSecurityContext pv q c = Some (csc, g c)" using Cons.prems by auto
  moreover obtain cs' where "resolve_containers pv q cs = Some (cs', concat (map g cs))" using Cons by auto
  ultimately show ?case by simp
qed simp

lemma Assign_filled:
  "AssignSecurityContext pv p =
    (case ValidatePodSecurityContext pv (filled pv p) of
       None \<Rightarrow> None
     | Some errs0 \<Rightarrow>
         (case resolve_containers pv (filled pv p) (pod_InitContainers p) of
            None \<Rightarrow> None
          | Some (inits, errs1) \<Rightarrow>
              (case resolve_containers pv (filled pv p) (pod_Containers p) of
                 None \<Rightarrow> None
               | Some (containers, errs2) \<Rightarrow>
                   let errs = errs0 @ errs1 @ errs2 in
                   if length errs > 0 then Some (errs, p)
                   else Some ([], (filled pv p)\<lparr>pod_InitContainers := inits, pod_Containers := containers\<rparr>))))"
proof -
  have "pod_InitContainers (filled pv p) = pod_InitContainers p" "pod_Containers (filled pv p) = pod_Containers p"
    by (simp_all add: filled_def)
  then show ?thesis
    unfolding AssignSecurityContext_def CreatePod_eq filled_def [symmetric] Let_def [of "filled pv p"]
    by (simp add: Let_def [of "filled pv p"] filled_def [symmetric] cong: option.case_cong prod.case_cong)
qed

lemma plain_assignment:
  assumes "asks_nothing p"
  shows "\<exists>errs p'. AssignSecurityContext pv p = Some (errs, p') \<and> (provider_ok pv \<longrightarrow> errs = [])"
proof -
  define g where "g c = (if pv_user pv = UserRunAsAny then []
    else user_check (pv_user pv) (ct_Name c) (user_Generate (pv_user pv)))" for c :: container
  have r: "\<exists>csc. resolveContainerSecurityContext pv (filled pv p) c = Some (csc, g c)"
    if "c \<in> set (pod_InitContainers p @ pod_Containers p)" for c
    using filled_container_validates [OF assms that] by (simp add: g_def)
  have rs: "\<exists>cs'. resolve_containers pv (filled pv p) cs = Some (cs', concat (map g cs))"
    if "set cs \<subseteq> set (pod_InitContainers p @ pod_Containers p)" for cs
    by (rule plain_containers) (use r that in blast)
  obtain inits where i: "resolve_containers pv (filled pv p) (pod_InitContainers p) = Some (inits, concat (map g (pod_InitContainers p)))"
    using rs [of "pod_InitContainers p"] by auto
  obtain containers where c: "resolve_containers pv (filled pv p) (pod_Containers p) = Some (containers, concat (map g (pod_Containers p)))"
    using rs [of "pod_Containers p"] by auto
  define errs0 where "errs0 = group_check (pv_fsGroup pv) (case group_GenerateSingle (pv_fsGroup pv) of None \<Rightarrow> [] | Some g \<Rightarrow> [g]) @
      group_check (pv_supplementalGroup pv) (group_Generate (pv_supplementalGroup pv))"
  note v = filled_pod_validates [OF assms, of pv, folded errs0_def]
  define errs where "errs = errs0 @ concat (map g (pod_InitContainers p)) @ concat (map g (pod_Containers p))"
  have "\<exists>p'. AssignSecurityContext pv p = Some (errs, p')"
    by (auto simp: Assign_filled v i c errs_def Let_def)
  moreover have "errs = []" if ok: "provider_ok pv"
  proof -
    have "errs0 = []"
      using ok by (simp add: errs0_def provider_ok_def fsgroup_default.generated_valid supplemental_default.generated_valid)
    moreover have "g c = []" for c using ok by (simp add: g_def provider_ok_def user_default.generated_valid)
    ultimately show ?thesis unfolding errs_def by simp
  qed
  ultimately show ?thesis by blast
qed

lemma plain_try_providers:
  assumes "asks_nothing p" "pv \<in> set pvs" "provider_ok pv"
  shows "\<exists>p'. try_providers pvs p errs = Some (p', None)"
  using assms(2)
proof (induction pvs arbitrary: errs)
  case (Cons q qs)
  obtain es p' where a: "AssignSecurityContext q p = Some (es, p')" "provider_ok q \<longrightarrow> es = []"
    using plain_assignment [OF assms(1)] by blast
  show ?case
  proof (cases "es = []")
    case False
    then have "pv \<in> set qs" using Cons.prems a(2) assms(3) by auto
    then show ?thesis using Cons.IH a(1) False failed_assignment [OF a(1) False] by simp
  qed (simp add: a(1))
qed simp

text \<open>
  C10: a pod that asks for nothing is admitted whenever one constraint that applies is valid once its
  values are taken from the namespace, has a provider, and does not have an empty range of users:
  no constraint tried before makes the admission fail.
\<close>

theorem plain_pod_is_admitted:
  assumes "is_pod_request a" "asks_nothing p" "inj_on scc_Name (set sccs)" "s \<in> set sccs" "may_use a p s"
    "resolved_for (aa_Namespace a) client s s'" "ValidateSecurityContextConstraints s' = []"
    "NewSimpleProvider s' = Inr pv" "user_ok (pv_user pv)"
  shows "\<exists>p'. Admit (Inr sccs) client a (Some p) = Some (Some p', None)"
proof -
  let ?f = "constraint_provider (aa_Namespace a) client"
  obtain matched where m: "matched_constraints (Inr sccs) a p = Inr matched" "set matched = {s \<in> set sccs. may_use a p s}"
    using matched_constraints_set by blast
  let ?pvs = "rights (map ?f (candidates matched))"
  have "inj_on scc_Name (set matched)" using assms(3) m(2) by (auto intro: inj_on_subset)
  then have "s \<in> set (candidates matched)" using candidates_facts(3) m(2) assms(4,5) by auto
  moreover have "?f s = Inr pv" unfolding constraint_provider_Inr using assms(6,8) by blast
  ultimately have pv: "pv \<in> set ?pvs" unfolding rights_set by blast
  from plain_try_providers [OF assms(2) this validated_provider_ok [OF assms(7-9)]]
  obtain p' where "try_providers ?pvs p [] = Some (p', None)" by blast
  moreover have "?pvs \<noteq> []" using pv by auto
  ultimately show ?thesis by (simp add: Admit_pod [OF assms(1) m(1)])
qed

section \<open>Empty patterns\<close>

text \<open>A lookup panics exactly when an empty pattern comes before every pattern that matches.\<close>

definition pattern_matches :: "string \<Rightarrow> string \<Rightarrow> bool" where
  "pattern_matches name p \<longleftrightarrow>
     p \<noteq> [] \<and> (if last p = CHR ''*'' then has_prefix name (butlast p) else name = p)"

lemma ValidateSysctl_panics:
  "ValidateSysctl ps name = None \<longleftrightarrow>
     (\<exists>before after. ps = before @ [] # after \<and> (\<forall>p \<in> set before. \<not> pattern_matches name p))"
proof (induction ps)
  case (Cons p ps)
  show ?case
  proof (cases "p = []")
    case True
    then show ?thesis by (auto intro: exI [of _ "[]"])
  next
    case False
    have "(\<exists>before after. p # ps = before @ [] # after \<and> (\<forall>x \<in> set before. \<not> pattern_matches name x)) \<longleftrightarrow>
        (\<exists>before after. ps = before @ [] # after \<and> (\<forall>x \<in> set (p # before). \<not> pattern_matches name x))"
      (is "?l \<longleftrightarrow> ?r")
    proof
      assume ?l
      then obtain before after where b: "p # ps = before @ [] # after" "\<forall>x \<in> set before. \<not> pattern_matches name x" by blast
      then show ?r using False by (cases before) auto
    next
      assume ?r
      then obtain before after where "ps = before @ [] # after" "\<forall>x \<in> set (p # before). \<not> pattern_matches name x" by blast
      then show ?l by (intro exI [of _ "p # before"] exI [of _ after]) simp
    qed
    moreover have "ValidateSysctl (p # ps) name = (if pattern_matches name p then Some [] else ValidateSysctl ps name)"
      using False by (simp add: pattern_matches_def)
    ultimately show ?thesis using Cons.IH by simp
  qed
qed simp

end
