(* ===== verification/Scc_Example.thy ===== *)
theory Scc_Example
  imports Scc_Plain
begin

text \<open>
  Admission on concrete constraints: two constraints, a namespace with the values allocated to it, a
  request and a pod, evaluated step by step; and a constraint whose annotation makes admission panic.
\<close>

section \<open>A restricted and a privileged constraint\<close>

definition restricted_scc :: scc where
  "restricted_scc =
     \<lparr>scc_Name = ''restricted'', scc_Annotations = Map.empty, scc_Priority = None,
      scc_AllowPrivilegedContainer = False, scc_DefaultAddCapabilities = [],
      scc_RequiredDropCapabilities = [''KILL''], scc_AllowedCapabilities = [], scc_Volumes = [''secret''],
      scc_AllowHostNetwork = False, scc_AllowHostPorts = False, scc_AllowHostPID = False, scc_AllowHostIPC = False,
      scc_SELinuxContext = \<lparr>sel_Type = MustRunAs, sel_SELinuxOptions = None\<rparr>,
      scc_RunAsUser = \<lparr>rau_Type = MustRunAsRange, rau_UID = None, rau_UIDRangeMin = None, rau_UIDRangeMax = None\<rparr>,
      scc_SupplementalGroups = \<lparr>grp_Type = RunAsAny, grp_Ranges = []\<rparr>,
      scc_FSGroup = \<lparr>grp_Type = MustRunAs, grp_Ranges = []\<rparr>, scc_ReadOnlyRootFilesystem = False,
      scc_SeccompProfiles = [], scc_Users = [], scc_Groups = [''system:authenticated'']\<rparr>"

definition privileged_scc :: scc where
  "privileged_scc = restricted_scc
     \<lparr>scc_Name := ''privileged'', scc_AllowPrivilegedContainer := True, scc_Volumes := [''*''],
      scc_RequiredDropCapabilities := [], scc_AllowHostNetwork := True,
      scc_SELinuxContext := \<lparr>sel_Type = RunAsAny, sel_SELinuxOptions = None\<rparr>,
      scc_RunAsUser := \<lparr>rau_Type = RunAsAny, rau_UID = None, rau_UIDRangeMin = None, rau_UIDRangeMax = None\<rparr>,
      scc_FSGroup := \<lparr>grp_Type = RunAsAny, grp_Ranges = []\<rparr>\<rparr>"

definition example_namespace :: kube_namespace where
  "example_namespace =
     \<lparr>kn_Name = ''ns'', kn_Annotations = [UIDRangeAnnotation \<mapsto> ''1000/10'', MCSAnnotation \<mapsto> ''s0:c1,c0'']\<rparr>"

definition example_request :: admission_attributes where
  "example_request =
     \<lparr>aa_Group = [], aa_Resource = ''pods'', aa_Subresource = [], aa_Namespace = ''ns'',
      aa_User = \<lparr>ui_name = ''u'', ui_uid = [], ui_groups = [''system:authenticated''], ui_extra = []\<rparr>\<rparr>"

definition example_container :: container where
  "example_container = \<lparr>ct_Name = ''c'', ct_HostPorts = [], ct_SecurityContext = None\<rparr>"

definition example_pod :: pod where
  "example_pod =
     \<lparr>pod_Name = ''p'', pod_Annotations = Map.empty, pod_ServiceAccountName = [], pod_SecurityContext = None,
      pod_InitContainers = [], pod_Containers = [example_container], pod_Volumes = []\<rparr>"

definition resolved_scc :: scc where
  "resolved_scc = restricted_scc
     \<lparr>scc_RunAsUser := \<lparr>rau_Type = MustRunAsRange, rau_UID = None, rau_UIDRangeMin = Some 1000, rau_UIDRangeMax = Some 1009\<rparr>,
      scc_SELinuxContext := \<lparr>sel_Type = MustRunAs,
        sel_SELinuxOptions = Some \<lparr>se_User = [], se_Role = [], se_Type = [], se_Level = ''s0:c1,c0''\<rparr>\<rparr>,
      scc_FSGroup := \<lparr>grp_Type = MustRunAs, grp_Ranges = [\<lparr>rng_Min = 1000, rng_Max = 1000\<rparr>]\<rparr>\<rparr>"

lemma example_block: "ParseBlock ''1000/10'' = Inr \<lparr>bl_Start = 1000, bl_End = 1009\<rparr>"
  by (simp add: ParseBlock_def scan_pair_def scan_uint32_def scan_char_def is_digit_def digits_value_def digit_value_def)

lemma example_resolved: "resolve_constraint example_namespace restricted_scc = Inr resolved_scc"
proof -
  have k: "UIDRangeAnnotation \<noteq> MCSAnnotation" "SupplementalGroupsAnnotation \<noteq> UIDRangeAnnotation"
    "SupplementalGroupsAnnotation \<noteq> MCSAnnotation"
    by (simp_all add: UIDRangeAnnotation_def MCSAnnotation_def SupplementalGroupsAnnotation_def)
  have u: "getPreallocatedUIDRange example_namespace = Inr (1000, 1009)"
    by (simp add: getPreallocatedUIDRange_def example_namespace_def k example_block)
  have l: "getPreallocatedLevel example_namespace = Inr ''s0:c1,c0''"
    by (simp add: getPreallocatedLevel_def example_namespace_def)
  have "split_char CHR '','' ''1000/10'' = [''1000/10'']" by code_simp
  then have g: "getPreallocatedFSGroup example_namespace = Inr [\<lparr>rng_Min = 1000, rng_Max = 1000\<rparr>]"
    by (simp add: getPreallocatedFSGroup_def getSupplementalGroupsAnnotation_def parseSupplementalGroupAnnotation_def
        example_namespace_def k example_block)
  show ?thesis
    by (simp add: resolve_constraint_def resolve_uid_range_def resolve_selinux_level_def resolve_fs_group_def
        resolve_supplemental_groups_def requiresPreAllocatedUIDRange_def requiresPreAllocatedSELinuxLevel_def
        requiresPreallocatedFSGroup_def requiresPreallocatedSupplementalGroups_def u l g restricted_scc_def
        resolved_scc_def strategy_names)
qed

definition example_provider :: provider where
  "example_provider =
     \<lparr>pv_scc = resolved_scc, pv_user = UserMustRunAsRange 1000 1009,
      pv_selinux = SELinuxMustRunAs \<lparr>se_User = [], se_Role = [], se_Type = [], se_Level = ''s0:c1,c0''\<rparr>,
      pv_fsGroup = GroupMustRunAs \<lparr>rng_Min = 1000, rng_Max = 1000\<rparr> [] ''fsGroup'',
      pv_supplementalGroup = GroupRunAsAny,
      pv_caps = \<lparr>cs_defaultAdd = [], cs_requiredDrop = [''KILL''], cs_allowed = []\<rparr>,
      pv_seccomp = [], pv_sysctls = [''*'']\<rparr>"

lemma example_NewSimpleProvider: "NewSimpleProvider resolved_scc = Inr example_provider"
  by (simp add: NewSimpleProvider_def createUserStrategy_def createSELinuxStrategy_def createFSGroupStrategy_def
      createSupplementalGroupStrategy_def group_NewMustRunAs_def createSysctlsStrategy_def NewMustMatchPatterns_def
      resolved_scc_def restricted_scc_def example_provider_def strategy_names)

definition example_assigned :: pod where
  "example_assigned = example_pod
     \<lparr>pod_SecurityContext := Some (empty_pod_security_context
        \<lparr>psc_FSGroup := Some 1000,
         psc_SELinuxOptions := Some \<lparr>se_User = [], se_Role = [], se_Type = [], se_Level = ''s0:c1,c0''\<rparr>\<rparr>),
      pod_Containers := [example_container
        \<lparr>ct_SecurityContext := Some
           \<lparr>sc_Capabilities = Some \<lparr>cap_Add = [], cap_Drop = [''KILL'']\<rparr>, sc_Privileged = Some False,
            sc_SELinuxOptions = Some \<lparr>se_User = [], se_Role = [], se_Type = [], se_Level = ''s0:c1,c0''\<rparr>,
            sc_RunAsUser = Some 1000, sc_RunAsNonRoot = None, sc_ReadOnlyRootFilesystem = None\<rparr>\<rparr>]\<rparr>"

lemma example_Assign: "AssignSecurityContext example_provider example_pod = Some ([], example_assigned)"
proof -
  have "ValidatePodSecurityContext example_provider (filled example_provider example_pod) = Some []"
    "resolve_containers example_provider (filled example_provider example_pod) (pod_InitContainers example_pod) = Some ([], [])"
    "resolve_containers example_provider (filled example_provider example_pod) (pod_Containers example_pod) =
       Some (pod_Containers example_assigned, [])"
    by code_simp+
  moreover have "(filled example_provider example_pod)
      \<lparr>pod_InitContainers := [], pod_Containers := pod_Containers example_assigned\<rparr> = example_assigned"
    by (simp add: filled_def example_assigned_def example_pod_def own_pod_context_def fill_pod_context_def
        fill_annotations_def example_provider_def empty_pod_security_context_def)
  ultimately show ?thesis by (simp add: Assign_filled)
qed

abbreviation example_client :: "string \<Rightarrow> go_error + kube_namespace" where
  "example_client \<equiv> \<lambda>name. Inr example_namespace"

lemma example_may_use: "may_use example_request p restricted_scc" "may_use example_request p privileged_scc"
  by (simp_all add: may_use_def ConstraintAppliesTo_def constraintSupportsGroup_def example_request_def
      restricted_scc_def privileged_scc_def)

lemma example_resolved_for: "resolved_for (aa_Namespace example_request) example_client restricted_scc resolved_scc"
  using example_resolved
  by (simp add: resolved_for_def requiresNamespaceAllocations_def requiresPreAllocatedUIDRange_def restricted_scc_def)

lemma example_constraint_provider:
  "constraint_provider (aa_Namespace example_request) example_client restricted_scc = Inr example_provider"
  using constraint_provider_Inr example_resolved_for example_NewSimpleProvider by blast

lemma example_request_pod: "is_pod_request example_request"
  by (simp add: is_pod_request_def example_request_def)

lemma example_names: "inj_on scc_Name (set [privileged_scc, restricted_scc])"
  by (simp add: restricted_scc_def privileged_scc_def)

lemma example_matched:
  "matched_constraints (Inr [privileged_scc, restricted_scc]) example_request example_pod = Inr [privileged_scc, restricted_scc]"
  by (simp add: matched_constraints_def FindApplicableSCCs_def ConstraintAppliesTo_def constraintSupportsGroup_def
      example_request_def restricted_scc_def privileged_scc_def example_pod_def)

lemma example_candidates: "candidates [privileged_scc, restricted_scc] = [restricted_scc, privileged_scc]"
proof -
  have n: "scc_Name privileged_scc \<noteq> scc_Name restricted_scc"
    by (simp add: restricted_scc_def privileged_scc_def)
  have "ByPriority_Less restricted_scc privileged_scc"
    by (simp add: ByPriority_Less_def getPriority_def pointValue_def volumePointValue_def hasHostVolume_def
        hasNonTrivialVolume_def restricted_scc_def privileged_scc_def strategy_names FSTypeAll_def)
  moreover have "DeduplicateSecurityContextConstraints [privileged_scc, restricted_scc] = [privileged_scc, restricted_scc]"
    using n by (auto simp: DeduplicateSecurityContextConstraints_def gset_simps)
  ultimately show ?thesis
    by (simp add: candidates_def sort_by_priority_def)
qed

lemma example_Admit:
  "Admit (Inr [privileged_scc, restricted_scc]) example_client example_request (Some example_pod) =
     Some (Some (marked example_assigned ''restricted''), None)"
proof -
  obtain pvs where "rights (map (constraint_provider (aa_Namespace example_request) example_client)
      (candidates [privileged_scc, restricted_scc])) = example_provider # pvs"
    by (simp add: example_candidates example_constraint_provider)
  moreover have "scc_Name (pv_scc example_provider) = ''restricted''"
    by (simp add: example_provider_def resolved_scc_def restricted_scc_def)
  ultimately show ?thesis
    by (simp add: Admit_pod [OF example_request_pod example_matched] example_Assign marked_def)
qed

section \<open>The theorems at work\<close>

theorem admitted_pod_complies_witness:
  "pod_complies example_provider (marked example_assigned ''restricted'')"
proof -
  from admitted_pod_complies [OF example_request_pod example_Admit]
  obtain s s' pv where w: "s \<in> set [privileged_scc, restricted_scc]"
    "resolved_for (aa_Namespace example_request) example_client s s'" "NewSimpleProvider s' = Inr pv"
    "pod_complies pv (marked example_assigned ''restricted'')"
    "pod_Annotations (marked example_assigned ''restricted'') ValidatedSCCAnnotation = Some (scc_Name s)" by blast
  show ?thesis
  proof (cases "s = restricted_scc")
    case True
    then have "constraint_provider (aa_Namespace example_request) example_client restricted_scc = Inr pv"
      using w(2,3) constraint_provider_Inr by blast
    then show ?thesis using w(4) example_constraint_provider by simp
  next
    case False
    then show ?thesis using w(1,5) by (simp add: privileged_scc_def marked_def)
  qed
qed

theorem admission_takes_first_accepting_witness:
  "\<exists>s \<in> set [privileged_scc, restricted_scc].
     pod_Annotations (marked example_assigned ''restricted'') ValidatedSCCAnnotation = Some (scc_Name s)"
  using admission_takes_first_accepting [OF example_request_pod example_names example_Admit] by blast

theorem assigned_pod_is_left_alone_witness:
  "AssignSecurityContext example_provider (marked example_assigned ''restricted'') =
     Some ([], marked example_assigned ''restricted'')"
  by (rule assigned_pod_is_left_alone [OF example_Assign])

theorem sorted_constraints_unique_witness:
  "sort_by_priority [privileged_scc, restricted_scc] = [restricted_scc, privileged_scc]"
proof -
  have "distinct (map scc_Name [privileged_scc, restricted_scc])"
    by (simp add: restricted_scc_def privileged_scc_def)
  moreover have "priority_sorted [restricted_scc, privileged_scc]"
    by (simp add: priority_sorted_def ByPriority_Less_def getPriority_def pointValue_def volumePointValue_def
        hasHostVolume_def hasNonTrivialVolume_def restricted_scc_def privileged_scc_def strategy_names FSTypeAll_def)
  ultimately show ?thesis
    using sorted_constraints_unique [of "[privileged_scc, restricted_scc]" "[restricted_scc, privileged_scc]"] by simp
qed

theorem plain_pod_is_admitted_witness:
  "\<exists>p'. Admit (Inr [privileged_scc, restricted_scc]) example_client example_request (Some example_pod) = Some (Some p', None)"
proof (rule plain_pod_is_admitted [OF example_request_pod _ example_names _ example_may_use(1) example_resolved_for _
      example_NewSimpleProvider])
  show "asks_nothing example_pod" by (simp add: asks_nothing_def example_pod_def example_container_def)
  show "restricted_scc \<in> set [privileged_scc, restricted_scc]" by simp
  show "ValidateSecurityContextConstraints resolved_scc = []"
    by (simp add: ValidateSecurityContextConstraints_def resolved_scc_def restricted_scc_def strategy_names
        validateSCCCapsAgainstDrops_def)
  show "user_ok (pv_user example_provider)" by (simp add: example_provider_def)
qed

section \<open>A refused pod\<close>

definition port_pod :: pod where
  "port_pod = example_pod\<lparr>pod_Containers := [example_container\<lparr>ct_HostPorts := [80]\<rparr>]\<rparr>"

lemma port_pod_refused:
  "\<exists>e. Admit (Inr [restricted_scc]) example_client example_request (Some port_pod) = Some (Some port_pod, Some e)"
proof -
  have "ValidatePodSecurityContext example_provider (filled example_provider port_pod) = Some []"
    "resolve_containers example_provider (filled example_provider port_pod) (pod_InitContainers port_pod) = Some ([], [])"
    by code_simp+
  moreover have "(case resolve_containers example_provider (filled example_provider port_pod) (pod_Containers port_pod) of
      None \<Rightarrow> False | Some (cs, errs) \<Rightarrow> errs \<noteq> [])"
    by code_simp
  ultimately obtain errs where a: "AssignSecurityContext example_provider port_pod = Some (errs, port_pod)" "errs \<noteq> []"
    by (auto simp: Assign_filled Let_def split: option.splits)
  have m: "matched_constraints (Inr [restricted_scc]) example_request port_pod = Inr [restricted_scc]"
    by (simp add: matched_constraints_def FindApplicableSCCs_def ConstraintAppliesTo_def constraintSupportsGroup_def
        example_request_def restricted_scc_def example_pod_def port_pod_def)
  have "candidates [restricted_scc] = [restricted_scc]"
    by (simp add: candidates_def sort_by_priority_def DeduplicateSecurityContextConstraints_def gset_simps)
  then show ?thesis
    by (simp add: Admit_pod [OF example_request_pod m] example_constraint_provider a)
qed

theorem refused_pod_is_unchanged_witness:
  "refuses example_client example_request port_pod restricted_scc"
proof -
  obtain e where r: "Admit (Inr [restricted_scc]) example_client example_request (Some port_pod) = Some (Some port_pod, Some e)"
    using port_pod_refused by blast
  show ?thesis using refused_pod_is_unchanged [OF example_request_pod _ r] example_may_use(1) by simp
qed

section \<open>A pattern that is empty\<close>

definition sysctl_scc :: "string \<Rightarrow> scc" where
  "sysctl_scc patterns = restricted_scc
     \<lparr>scc_Annotations := [SysctlsPodSecurityPolicyAnnotationKey \<mapsto> patterns],
      scc_SELinuxContext := \<lparr>sel_Type = RunAsAny, sel_SELinuxOptions = None\<rparr>,
      scc_RunAsUser := \<lparr>rau_Type = RunAsAny, rau_UID = None, rau_UIDRangeMin = None, rau_UIDRangeMax = None\<rparr>,
      scc_FSGroup := \<lparr>grp_Type = RunAsAny, grp_Ranges = []\<rparr>\<rparr>"

definition sysctl_pod :: pod where
  "sysctl_pod = example_pod\<lparr>pod_Annotations := [SysctlsPodAnnotationKey \<mapsto> ''kernel.sem=1'']\<rparr>"

definition sysctl_provider :: "string \<Rightarrow> provider" where
  "sysctl_provider patterns =
     \<lparr>pv_scc = sysctl_scc patterns, pv_user = UserRunAsAny, pv_selinux = SELinuxRunAsAny, pv_fsGroup = GroupRunAsAny,
      pv_supplementalGroup = GroupRunAsAny,
      pv_caps = \<lparr>cs_defaultAdd = [], cs_requiredDrop = [''KILL''], cs_allowed = []\<rparr>,
      pv_seccomp = [], pv_sysctls = SysctlsFromPodSecurityPolicyAnnotation patterns\<rparr>"

lemma sysctl_constraint_provider: "constraint_provider ns client (sysctl_scc patterns) = Inr (sysctl_provider patterns)"
  by (simp add: constraint_provider_def CreateProviderFromConstraint_def requiresNamespaceAllocations_def
      requiresPreAllocatedUIDRange_def requiresPreAllocatedSELinuxLevel_def requiresPreallocatedFSGroup_def
      requiresPreallocatedSupplementalGroups_def NewSimpleProvider_def createUserStrategy_def createSELinuxStrategy_def
      createFSGroupStrategy_def createSupplementalGroupStrategy_def createSysctlsStrategy_def NewMustMatchPatterns_def
      sysctl_scc_def restricted_scc_def sysctl_provider_def strategy_names Let_def)

lemma sysctl_Admit:
  "Admit (Inr [sysctl_scc patterns]) client example_request (Some sysctl_pod) =
     map_option (\<lambda>(p', r). (Some p', r)) (try_providers [sysctl_provider patterns] sysctl_pod [])"
proof -
  have m: "matched_constraints (Inr [sysctl_scc patterns]) example_request sysctl_pod = Inr [sysctl_scc patterns]"
    by (simp add: matched_constraints_def FindApplicableSCCs_def ConstraintAppliesTo_def constraintSupportsGroup_def
        example_request_def restricted_scc_def sysctl_scc_def example_pod_def sysctl_pod_def)
  have "candidates [sysctl_scc patterns] = [sysctl_scc patterns]"
    by (simp add: candidates_def sort_by_priority_def DeduplicateSecurityContextConstraints_def gset_simps)
  then show ?thesis
    by (simp add: Admit_pod [OF example_request_pod m] sysctl_constraint_provider del: try_providers.simps)
qed

text \<open>
  A constraint whose annotation of sysctls ends with a comma passes validation and makes the
  admission of every pod that sets another sysctl panic; without the comma the pod is refused.
\<close>

theorem empty_sysctl_pattern_panics:
  "ValidateSecurityContextConstraints (sysctl_scc ''kernel.shm,'') = [] \<and>
   Admit (Inr [sysctl_scc ''kernel.shm,'']) client example_request (Some sysctl_pod) = None \<and>
   (\<exists>e. Admit (Inr [sysctl_scc ''kernel.shm'']) client example_request (Some sysctl_pod) = Some (Some sysctl_pod, Some e))"
proof (intro conjI)
  show "ValidateSecurityContextConstraints (sysctl_scc ''kernel.shm,'') = []"
    by (simp add: ValidateSecurityContextConstraints_def sysctl_scc_def restricted_scc_def strategy_names
        validateSCCCapsAgainstDrops_def)
  have "ValidatePodSecurityContext (sysctl_provider ''kernel.shm,'') (filled (sysctl_provider ''kernel.shm,'') sysctl_pod) = None"
    by code_simp
  then show "Admit (Inr [sysctl_scc ''kernel.shm,'']) client example_request (Some sysctl_pod) = None"
    by (simp add: sysctl_Admit Assign_filled)
  let ?pv = "sysctl_provider ''kernel.shm''"
  have "(case ValidatePodSecurityContext ?pv (filled ?pv sysctl_pod) of None \<Rightarrow> False | Some errs \<Rightarrow> errs \<noteq> [])"
    "resolve_containers ?pv (filled ?pv sysctl_pod) (pod_InitContainers sysctl_pod) \<noteq> None"
    "resolve_containers ?pv (filled ?pv sysctl_pod) (pod_Containers sysctl_pod) \<noteq> None"
    by code_simp+
  then obtain errs where "AssignSecurityContext ?pv sysctl_pod = Some (errs, sysctl_pod)" "errs \<noteq> []"
    by (auto simp: Assign_filled Let_def split: option.splits)
  then show "\<exists>e. Admit (Inr [sysctl_scc ''kernel.shm'']) client example_request (Some sysctl_pod) = Some (Some sysctl_pod, Some e)"
    by (simp add: sysctl_Admit)
qed

end
