(* ===== verification/Image_Strategy.thy ===== *)
theory Image_Strategy
  imports Image_Streams Subjects Registry_Store
begin

text \<open>
  What a write does to an image stream: the strategies of
  \<open>origin/pkg/image/registry/imagestream/strategy.go\<close> for users, for the status and for the server
  itself, with the validation of \<open>origin/pkg/image/api/validation/validation.go\<close>.

  The default registry, the registry of streams, access reviews and limits are parameters, and so are
  the orders in which the ranges visit maps whose order matters.
\<close>

section \<open>Validation\<close>

definition RepositoryNameComponentAnchoredRegexp :: rexp where
  "RepositoryNameComponentAnchoredRegexp =
     Then (Repeated (Class (\<lambda>c. lower c \<or> digit c)))
       (Many (Then (Class (\<lambda>c. c = CHR ''.'' \<or> c = CHR ''_'' \<or> c = CHR ''-''))
         (Repeated (Class (\<lambda>c. lower c \<or> digit c)))))"

definition ValidateImageStreamName :: "string \<Rightarrow> go_error list" where
  "ValidateImageStreamName name =
     (if IsValidPathSegmentName name \<noteq> [] then IsValidPathSegmentName name
      else if \<not> matches RepositoryNameComponentAnchoredRegexp name then [Errorf ''must match %q'' []]
      else [])"

definition ValidateImageStreamTagReference :: "tag_reference \<Rightarrow> go_error list" where
  "ValidateImageStreamTagReference r =
     (case tr_From r of
        None \<Rightarrow> []
      | Some from \<Rightarrow>
          (if length (or_name from) = 0 then [Errorf ''from.name: Required value'' []] else []) @
          (if or_kind from = ''DockerImage'' then
             (case ParseDockerImageReference (or_name from) of
                Inl e \<Rightarrow> if length (or_name from) > 0 then [ErrorfE ''from.name: Invalid value'' [or_name from] [e]] else []
              | Inr ref \<Rightarrow>
                  if length (ref_ID ref) > 0 \<and> tr_Scheduled r
                  then [Errorf ''from.name: only tags can be scheduled for import'' [or_name from]] else [])
           else if or_kind from \<in> {''ImageStreamImage'', ''ImageStreamTag''} then
             (if tr_Scheduled r
              then [Errorf ''importPolicy.scheduled: only tags pointing to Docker repositories may be scheduled'' []]
              else [])
           else [Errorf ''from.kind: Required value'' []])) @
     (if tr_ReferencePolicy r \<in> {SourceTagReferencePolicy, LocalTagReferencePolicy} then []
      else [Errorf ''referencePolicy.type: Invalid value'' [tr_ReferencePolicy r]])"

definition ValidateImageStream :: "image_stream \<Rightarrow> go_error list" where
  "ValidateImageStream s =
     (if is_Name s = [] then [Errorf ''metadata.name: Required value'' []] else ValidateImageStreamName (is_Name s)) @
     (if length (is_Namespace s @ ''/'' @ is_Name s) > 255
      then [Errorf ''metadata.name: 'namespace/name' cannot be longer than 255 characters'' []] else []) @
     (if length (is_SpecRepository s) \<noteq> 0 then
        (case ParseDockerImageReference (is_SpecRepository s) of
           Inl e \<Rightarrow> [e]
         | Inr ref \<Rightarrow>
             (if length (ref_Tag ref) > 0 then [Errorf ''the repository name may not contain a tag'' []] else []) @
             (if length (ref_ID ref) > 0 then [Errorf ''the repository name may not contain an ID'' []] else []))
      else []) @
     concat (map (\<lambda>(tag, r). ValidateImageStreamTagReference r) (is_SpecTags s)) @
     concat (map (\<lambda>(tag, l). concat (map (\<lambda>e. if length (te_DockerImageReference e) = 0
         then [Errorf ''dockerImageReference: Required value'' [tag]] else []) (tl_Items l))) (status_tags s))"

text \<open>The metadata: what may not change, once an empty UID has been filled in.\<close>

definition ValidateStreamMetaUpdate :: "image_stream \<Rightarrow> image_stream \<Rightarrow> go_error list" where
  "ValidateStreamMetaUpdate new old =
     (if length (is_ResourceVersion new) = 0 then [Errorf ''metadata.resourceVersion: must be specified for an update'' []] else []) @
     (if is_Generation new < is_Generation old then [Errorf ''metadata.generation: must not be decremented'' []] else []) @
     (if is_Name new \<noteq> is_Name old then [Errorf ''metadata.name: field is immutable'' []] else []) @
     (if is_Namespace new \<noteq> is_Namespace old then [Errorf ''metadata.namespace: field is immutable'' []] else []) @
     (if is_UID new \<noteq> is_UID old then [Errorf ''metadata.uid: field is immutable'' []] else [])"

definition ValidateImageStreamUpdate :: "image_stream \<Rightarrow> image_stream \<Rightarrow> go_error list" where
  "ValidateImageStreamUpdate new old = ValidateStreamMetaUpdate new old @ ValidateImageStream new"

definition ValidateImageStreamStatusUpdate :: "image_stream \<Rightarrow> image_stream \<Rightarrow> go_error list" where
  "ValidateImageStreamStatusUpdate new old = ValidateStreamMetaUpdate new old"

section \<open>Changes of references\<close>

definition parseFromReference :: "image_stream \<Rightarrow> object_reference \<Rightarrow> go_error + string \<times> string" where
  "parseFromReference s from =
     (if or_kind from \<notin> {''ImageStreamTag'', ''ImageStreamImage''}
      then Inl (Errorf ''invalid from.kind %q - only ImageStreamTag and ImageStreamImage are allowed'' [or_kind from])
      else (case split_char (if or_kind from = ''ImageStreamTag'' then CHR '':'' else CHR ''@'') (or_name from) of
              [_] \<Rightarrow> Inr (is_Name s, or_name from)
            | [a, b] \<Rightarrow> Inr (a, b)
            | _ \<Rightarrow> Inl (Errorf ''invalid from.name %q'' [or_name from])))"

definition tagRefGenerationChanged :: "tag_reference \<Rightarrow> tag_reference \<Rightarrow> bool" where
  "tagRefGenerationChanged old new =
     (case (tr_Generation old, tr_Generation new) of
        (Some g, Some h) \<Rightarrow> g \<noteq> h \<and> h = 0
      | _ \<Rightarrow> False)"

definition ref_namespace :: "object_reference \<Rightarrow> string \<Rightarrow> string" where
  "ref_namespace from streamNamespace =
     (if length (or_namespace from) = 0 then streamNamespace else or_namespace from)"

definition tagRefChanged :: "tag_reference \<Rightarrow> tag_reference \<Rightarrow> string \<Rightarrow> bool" where
  "tagRefChanged old new streamNamespace =
     (case tr_From new of
        None \<Rightarrow> False
      | Some from \<Rightarrow>
          if length (or_kind from) = 0 \<and> length (or_name from) = 0 then False
          else (let oldFrom = (case tr_From old of None \<Rightarrow> subject_ref [] [] [] | Some f \<Rightarrow> f)
                in if ref_namespace oldFrom streamNamespace \<noteq> ref_namespace from streamNamespace then True
                   else if or_name oldFrom \<noteq> or_name from then True
                   else tagRefGenerationChanged old new))"

definition tagEventChanged :: "tag_event \<Rightarrow> tag_event \<Rightarrow> bool" where
  "tagEventChanged old new \<longleftrightarrow>
     te_Image old \<noteq> te_Image new \<or> te_DockerImageReference old \<noteq> te_DockerImageReference new \<or>
     te_Generation old > te_Generation new"

text \<open>\<open>Semantic.DeepEqual\<close> on specs: maps are compared as maps.\<close>

definition maps_equal :: "('a \<Rightarrow> 'a \<Rightarrow> bool) \<Rightarrow> (string \<times> 'a) list \<Rightarrow> (string \<times> 'a) list \<Rightarrow> bool" where
  "maps_equal eq m1 m2 =
     list_all (\<lambda>k. case (map_of m1 k, map_of m2 k) of
         (Some a, Some b) \<Rightarrow> eq a b | (None, None) \<Rightarrow> True | _ \<Rightarrow> False) (map fst m1 @ map fst m2)"

definition tag_references_equal :: "tag_reference \<Rightarrow> tag_reference \<Rightarrow> bool" where
  "tag_references_equal a b \<longleftrightarrow>
     a\<lparr>tr_Annotations := []\<rparr> = b\<lparr>tr_Annotations := []\<rparr> \<and> maps_equal (=) (tr_Annotations a) (tr_Annotations b)"

definition specs_equal :: "image_stream \<Rightarrow> image_stream \<Rightarrow> bool" where
  "specs_equal a b \<longleftrightarrow>
     is_SpecRepository a = is_SpecRepository b \<and> maps_equal tag_references_equal (is_SpecTags a) (is_SpecTags b)"

section \<open>Preparation\<close>

record stream_env =
  env_DefaultRegistry :: "string option"
  env_Get :: "string \<Rightarrow> string \<Rightarrow> go_error + image_stream"
  env_Review :: "string \<Rightarrow> subject_access_review \<Rightarrow> go_error + bool option"
  env_VerifyLimits :: "string \<Rightarrow> image_stream \<Rightarrow> go_error option"
  env_Now :: nat

definition dockerImageRepository :: "stream_env \<Rightarrow> image_stream \<Rightarrow> string \<times> image_stream" where
  "dockerImageRepository env s =
     (case env_DefaultRegistry env of
        None \<Rightarrow> (is_SpecRepository s, s)
      | Some registry \<Rightarrow>
          let s1 = (if length (is_Namespace s) = 0 then s\<lparr>is_Namespace := ''default''\<rparr> else s)
          in (ref_String \<lparr>ref_Registry = registry, ref_Namespace = is_Namespace s1, ref_Name = is_Name s1,
                          ref_Tag = [], ref_ID = []\<rparr>, s1))"

definition set_all_generations :: "int \<Rightarrow> (string \<times> tag_reference) list \<Rightarrow> (string \<times> tag_reference) list" where
  "set_all_generations g = map (\<lambda>(tag, r). (tag, r\<lparr>tr_Generation := Some g\<rparr>))"

definition PrepareForCreate :: "stream_env \<Rightarrow> image_stream \<Rightarrow> image_stream" where
  "PrepareForCreate env s =
     (case dockerImageRepository env s of
        (repository, s1) \<Rightarrow>
          s1\<lparr>is_StatusRepository := repository, is_StatusTags := Some [], is_Generation := 1,
             is_SpecTags := set_all_generations 1 (is_SpecTags s1)\<rparr>)"

definition internal_PrepareForCreate :: "stream_env \<Rightarrow> image_stream \<Rightarrow> image_stream" where
  "internal_PrepareForCreate env s =
     (case dockerImageRepository env s of
        (repository, s1) \<Rightarrow>
          s1\<lparr>is_StatusRepository := repository, is_Generation := 1,
             is_SpecTags := set_all_generations 1 (is_SpecTags s1)\<rparr>)"

definition updateSpecTagGenerationsForUpdate :: "image_stream \<Rightarrow> image_stream \<Rightarrow> image_stream" where
  "updateSpecTagGenerationsForUpdate s old =
     s\<lparr>is_SpecTags := map (\<lambda>(tag, r).
         (tag, if tr_Generation r = Some 0 then r
               else (case spec_tag old tag of
                       Some oldRef \<Rightarrow> r\<lparr>tr_Generation := tr_Generation oldRef\<rparr>
                     | None \<Rightarrow> r))) (is_SpecTags s)\<rparr>"

definition ensureSpecTagGenerationsAreSet :: "image_stream \<Rightarrow> image_stream \<Rightarrow> image_stream" where
  "ensureSpecTagGenerationsAreSet s old =
     s\<lparr>is_SpecTags := map (\<lambda>(tag, r).
         (tag, let changed = (case spec_tag old tag of
                                None \<Rightarrow> True | Some oldRef \<Rightarrow> tagRefChanged oldRef r (is_Namespace s));
                   g = (if changed then None else tr_Generation r)
               in if g \<noteq> None \<and> g \<noteq> Some 0 then r\<lparr>tr_Generation := g\<rparr>
                  else r\<lparr>tr_Generation := Some (is_Generation s)\<rparr>)) (is_SpecTags s)\<rparr>"

definition prepareForUpdate :: "stream_env \<Rightarrow> bool \<Rightarrow> image_stream \<Rightarrow> image_stream \<Rightarrow> image_stream" where
  "prepareForUpdate env resetStatus s old =
     (let s1 = s\<lparr>is_Generation := is_Generation old\<rparr>;
          s2 = (if resetStatus
                then s1\<lparr>is_StatusRepository := is_StatusRepository old, is_StatusTags := is_StatusTags old\<rparr> else s1)
      in case dockerImageRepository env s2 of
           (repository, s3) \<Rightarrow>
             let s4 = updateSpecTagGenerationsForUpdate (s3\<lparr>is_StatusRepository := repository\<rparr>) old;
                 s5 = (if \<not> specs_equal old s4 \<or> is_Generation s4 = 0
                       then s4\<lparr>is_Generation := is_Generation old + 1\<rparr> else s4)
             in ensureSpecTagGenerationsAreSet s5 old)"

text \<open>\<open>updateObservedGenerationForStatusUpdate\<close>\<close>

definition observe_generation :: "image_stream \<Rightarrow> image_stream \<Rightarrow> string \<Rightarrow> tag_event_list \<Rightarrow> tag_event_list" where
  "observe_generation s old tag newer =
     (case tl_Items newer of
        [] \<Rightarrow> newer
      | e # es \<Rightarrow>
          if te_Generation e \<noteq> 0 then newer
          else (let g = (case tl_Items (history old tag) of
                           [] \<Rightarrow> is_Generation s
                         | p # _ \<Rightarrow>
                             if \<not> tagEventChanged p e then is_Generation s
                             else (case spec_tag s tag of
                                     None \<Rightarrow> is_Generation s
                                   | Some r \<Rightarrow> (case tr_Generation r of None \<Rightarrow> is_Generation s | Some h \<Rightarrow> h)))
                in newer\<lparr>tl_Items := e\<lparr>te_Generation := g\<rparr> # es\<rparr>))"

definition updateObservedGenerationForStatusUpdate :: "image_stream \<Rightarrow> image_stream \<Rightarrow> image_stream" where
  "updateObservedGenerationForStatusUpdate s old =
     s\<lparr>is_StatusTags := map_option (map (\<lambda>(tag, l). (tag, observe_generation s old tag l))) (is_StatusTags s)\<rparr>"

definition status_PrepareForUpdate :: "image_stream \<Rightarrow> image_stream \<Rightarrow> image_stream" where
  "status_PrepareForUpdate s old =
     updateObservedGenerationForStatusUpdate
       (s\<lparr>is_SpecTags := is_SpecTags old, is_SpecRepository := is_SpecRepository old\<rparr>) old"

end
