(* ===== verification/Image_Tags.thy ===== *)
theory Image_Tags
  imports Image_Streams
begin

text \<open>
  What following a tag finds, and what is carried over to the tags that track a tag.
\<close>

section \<open>Following tags\<close>

text \<open>One step from a tag of the spec to the tag of the same stream that it names.\<close>

inductive follows_tag :: "image_stream \<Rightarrow> string \<Rightarrow> string \<Rightarrow> bool" for s where
  follows_step: "spec_tag s t = Some r \<Longrightarrow> \<not> terminating_tag r \<Longrightarrow> tr_From r = Some f \<Longrightarrow> follows_tag s t (or_name f)"

inductive_cases follows_tagE: "follows_tag s t u"

lemma follows_functional: "follows_tag s t u \<Longrightarrow> follows_tag s t v \<Longrightarrow> u = v"
  by (auto elim!: follows_tagE)

definition terminal_tag :: "image_stream \<Rightarrow> string \<Rightarrow> tag_reference \<Rightarrow> bool" where
  "terminal_tag s t r \<longleftrightarrow> spec_tag s t = Some r \<and> terminating_tag r"

lemma terminal_stops: "terminal_tag s t r \<Longrightarrow> \<not> follows_tag s t u"
  by (auto simp: terminal_tag_def elim!: follows_tagE)

lemma not_terminating_source: "\<not> terminating_tag r \<Longrightarrow> \<exists>f. tr_From r = Some f"
  by (auto simp: terminating_tag_def split: option.splits)

text \<open>The loop, whose seen tags all lead to the tag at hand.\<close>

lemma FollowTag_loop_sound:
  assumes "\<And>x. x \<in> set seen \<Longrightarrow> (follows_tag s)\<^sup>+\<^sup>+ x tag"
    "FollowTag_loop s seen tag multiple = (final, ref, ok, multiple')"
  shows "(follows_tag s)\<^sup>*\<^sup>* tag final \<and>
    (if ok then (\<exists>r. ref = Some r \<and> terminal_tag s final r)
      else ref = None \<and> (spec_tag s final = None \<or> (follows_tag s)\<^sup>+\<^sup>+ final final)) \<and>
    (multiple' \<longleftrightarrow> multiple \<or> tag \<notin> set seen \<and> (\<exists>u. follows_tag s tag u))"
  using assms
proof (induction s seen tag multiple arbitrary: final ref ok multiple' rule: FollowTag_loop.induct)
  case (1 s seen tag multiple)
  note eq = FollowTag_loop.simps [of s seen tag multiple]
  show ?case
  proof (cases "tag \<in> set seen")
    case True
    then show ?thesis using "1.prems" eq by auto
  next
    case notin: False
    show ?thesis
    proof (cases "spec_tag s tag")
      case None
      then show ?thesis using "1.prems"(2) eq notin by (auto elim: follows_tagE)
    next
      case (Some r)
      show ?thesis
      proof (cases "terminating_tag r")
        case True
        then have t: "terminal_tag s tag r" using Some by (simp add: terminal_tag_def)
        have "final = tag" "ref = Some r" "ok" "multiple' = multiple"
          using "1.prems"(2) eq notin Some True by simp_all
        then show ?thesis using t terminal_stops [OF t] by simp
      next
        case False
        then obtain f where f: "tr_From r = Some f" using not_terminating_source by blast
        have step: "follows_tag s tag (or_name f)" using Some False f by (rule follows_step)
        have seen: "(follows_tag s)\<^sup>+\<^sup>+ x (or_name f)" if "x \<in> set (tag # seen)" for x
          using that step "1.prems"(1) by (auto intro: tranclp.intros)
        have rest: "FollowTag_loop s (tag # seen) (or_name f) True = (final, ref, ok, multiple')"
          using "1.prems"(2) eq notin Some False f by simp
        note IH = "1.IH" [OF notin Some False f seen rest]
        show ?thesis using IH step notin by (auto intro: converse_rtranclp_into_rtranclp)
      qed
    qed
  qed
qed

text \<open>Steps are functional, so what is reached from a tag is before or after any tag reached.\<close>

lemma reached_compare:
  assumes "(follows_tag s)\<^sup>*\<^sup>* t u" "(follows_tag s)\<^sup>*\<^sup>* t v"
  shows "(follows_tag s)\<^sup>*\<^sup>* u v \<or> (follows_tag s)\<^sup>*\<^sup>* v u"
  using assms
proof (induction rule: rtranclp_induct)
  case (step y z)
  show ?case
  proof (cases "(follows_tag s)\<^sup>*\<^sup>* v y")
    case True
    then show ?thesis using step.hyps(2) by (auto intro: rtranclp.rtrancl_into_rtrancl)
  next
    case False
    then have "(follows_tag s)\<^sup>*\<^sup>* y v" using step.IH step.prems by blast
    then show ?thesis
    proof (cases rule: converse_rtranclpE)
      case base
      then show ?thesis using False by simp
    next
      case (step w)
      then show ?thesis using \<open>follows_tag s y z\<close> follows_functional by metis
    qed
  qed
qed simp

lemma cycle_goes_on:
  assumes "(follows_tag s)\<^sup>+\<^sup>+ t t" "(follows_tag s)\<^sup>*\<^sup>* t u"
  shows "\<exists>w. follows_tag s u w"
proof -
  have "(follows_tag s)\<^sup>+\<^sup>+ u u" using assms(2,1)
  proof (induction rule: rtranclp_induct)
    case (step y z)
    from step.IH [OF step.prems] obtain w where "follows_tag s y w" "(follows_tag s)\<^sup>*\<^sup>* w y"
      by (auto dest: tranclpD)
    then have "(follows_tag s)\<^sup>*\<^sup>* z y" using step.hyps(2) follows_functional by metis
    then show ?case using step.hyps(2) by (rule rtranclp_into_tranclp1)
  qed simp
  then show ?thesis by (auto dest: tranclpD)
qed

text \<open>
  C18: following a tag always ends.  It is ok exactly when some tag that ends the chain of references is
  reached, and then returns that tag with its reference; otherwise the last tag is missing from the
  spec or on a circle.  Multiple says that the first tag referred to another.
\<close>

theorem FollowTagReference_complete:
  assumes "FollowTagReference s tag = (final, ref, ok, multiple)"
  shows "(follows_tag s)\<^sup>*\<^sup>* tag final \<and>
    (ok \<longleftrightarrow> (\<exists>u r. (follows_tag s)\<^sup>*\<^sup>* tag u \<and> terminal_tag s u r)) \<and>
    (if ok then (\<exists>r. ref = Some r \<and> terminal_tag s final r)
     else ref = None \<and> (spec_tag s final = None \<or> (follows_tag s)\<^sup>+\<^sup>+ final final)) \<and>
    (multiple \<longleftrightarrow> (\<exists>u. follows_tag s tag u))"
proof -
  have loop: "FollowTag_loop s [] tag False = (final, ref, ok, multiple)"
    using assms by (simp add: FollowTagReference_def)
  have sound: "(follows_tag s)\<^sup>*\<^sup>* tag final"
    "if ok then (\<exists>r. ref = Some r \<and> terminal_tag s final r)
      else ref = None \<and> (spec_tag s final = None \<or> (follows_tag s)\<^sup>+\<^sup>+ final final)"
    "multiple \<longleftrightarrow> (\<exists>u. follows_tag s tag u)"
    using FollowTag_loop_sound [OF _ loop] by simp_all
  have "\<not> terminal_tag s u r" if "\<not> ok" "(follows_tag s)\<^sup>*\<^sup>* tag u" for u r
  proof
    assume u: "terminal_tag s u r"
    have "(follows_tag s)\<^sup>*\<^sup>* final u"
      using reached_compare [OF sound(1) that(2)] terminal_stops [OF u] by (metis converse_rtranclpE rtranclp.rtrancl_refl)
    moreover have "spec_tag s final = None \<or> (follows_tag s)\<^sup>+\<^sup>+ final final" using sound(2) that(1) by simp
    ultimately show False
    proof (elim disjE)
      assume r: "(follows_tag s)\<^sup>*\<^sup>* final u" and n: "spec_tag s final = None"
      from r have "final = u"
      proof (cases rule: converse_rtranclpE)
        case (step w)
        then show ?thesis using n by (auto elim: follows_tagE)
      qed
      then show False using u n by (simp add: terminal_tag_def)
    qed (use cycle_goes_on terminal_stops [OF u] in blast)
  qed
  moreover have "\<exists>u r. (follows_tag s)\<^sup>*\<^sup>* tag u \<and> terminal_tag s u r" if ok using sound(1,2) that by auto
  ultimately have "ok \<longleftrightarrow> (\<exists>u r. (follows_tag s)\<^sup>*\<^sup>* tag u \<and> terminal_tag s u r)" by blast
  then show ?thesis using sound by blast
qed

definition tag_to :: "string \<Rightarrow> string \<Rightarrow> tag_reference" where
  "tag_to kind name = zero_tag_reference\<lparr>tr_From := Some (subject_ref kind [] name), tr_ReferencePolicy := ''Source''\<rparr>"

definition example_stream :: "(string \<times> tag_reference) list \<Rightarrow> (string \<times> tag_event_list) list \<Rightarrow> image_stream" where
  "example_stream spec status =
     \<lparr>is_Name = ''app'', is_Namespace = ''ns'', is_UID = ''u'', is_ResourceVersion = ''1'', is_Generation = 1,
      is_CreationTimestamp = 1, is_Annotations = [], is_SpecRepository = [], is_SpecTags = spec,
      is_StatusRepository = [], is_StatusTags = Some status\<rparr>"

theorem FollowTagReference_complete_witness:
  "(follows_tag (example_stream [(''a'', tag_to ''ImageStreamTag'' ''b''), (''b'', tag_to ''DockerImage'' ''c'')] []))\<^sup>*\<^sup>*
     ''a'' ''b''"
proof -
  have "FollowTagReference (example_stream [(''a'', tag_to ''ImageStreamTag'' ''b''), (''b'', tag_to ''DockerImage'' ''c'')] [])
      ''a'' = (''b'', Some (tag_to ''DockerImage'' ''c''), True, True)" by code_simp
  from FollowTagReference_complete [OF this] show ?thesis by blast
qed

section \<open>Tags that track a tag\<close>

lemma UpdateTracking_loop_effect:
  assumes "UpdateTracking_loop tag e rs (s, n) = (s', m)" "distinct (map fst rs)"
  shows "(\<forall>t. if \<exists>r. (t, r) \<in> set rs \<and> tracks_tag s r tag then shows_event s' t e else history s' t = history s t) \<and>
    is_SpecTags s' = is_SpecTags s \<and> is_Name s' = is_Name s \<and> is_Namespace s' = is_Namespace s \<and>
    m = n + length (filter (\<lambda>(t, r). tracks_tag s r tag \<and> \<not> shows_event s t e) rs)"
  using assms
proof (induction tag e rs "(s, n)" arbitrary: s n rule: UpdateTracking_loop.induct)
  case (2 tag e t r rest s n)
  show ?case
  proof (cases "tracks_tag s r tag")
    case False
    have only: "(\<exists>r'. (x, r') \<in> set ((t, r) # rest) \<and> tracks_tag s r' tag) \<longleftrightarrow>
        (\<exists>r'. (x, r') \<in> set rest \<and> tracks_tag s r' tag)" for x using False by auto
    show ?thesis using "2.hyps"(1) [OF False] "2.prems" False unfolding only by simp
  next
    case True
    obtain s1 added where a: "AddTagEventToImageStream s t e = (s1, added)" by (cases "AddTagEventToImageStream s t e")
    have same: "tracks_tag s1 = tracks_tag s" "is_SpecTags s1 = is_SpecTags s" "is_Name s1 = is_Name s"
      "is_Namespace s1 = is_Namespace s" by (rule AddTagEvent_frame [OF a]; simp)+
    have rest: "UpdateTracking_loop tag e rest (s1, if added then n + 1 else n) = (s', m)"
      using "2.prems"(1) True a by simp
    have IH: "(\<forall>x. if \<exists>r. (x, r) \<in> set rest \<and> tracks_tag s r tag then shows_event s' x e else history s' x = history s1 x) \<and>
      is_SpecTags s' = is_SpecTags s \<and> is_Name s' = is_Name s \<and> is_Namespace s' = is_Namespace s \<and>
      m = (if added then n + 1 else n) + length (filter (\<lambda>(x, r). tracks_tag s r tag \<and> \<not> shows_event s1 x e) rest)"
      using "2.hyps"(2) [OF _ a [symmetric] rest] "2.prems"(2) True same by simp
    have t: "t \<notin> fst ` set rest" using "2.prems"(2) by simp
    have shows_t: "shows_event s1 t e" by (rule AddTagEvent_shows [OF a])
    have other: "history s1 x = history s x" if "x \<noteq> t" for x using AddTagEvent_other [OF a that] .
    have "shows_event s1 x e \<longleftrightarrow> shows_event s x e" if "x \<in> fst ` set rest" for x
    proof -
      have "x \<noteq> t" using that t by metis
      then show ?thesis using other [of x] by (simp add: shows_event_def)
    qed
    then have cnt: "filter (\<lambda>(x, r). tracks_tag s r tag \<and> \<not> shows_event s1 x e) rest =
        filter (\<lambda>(x, r). tracks_tag s r tag \<and> \<not> shows_event s x e) rest"
      by (intro filter_cong refl) (force simp: image_iff)
    have t': "shows_event s' t e"
      using IH t shows_t by (auto simp: shows_event_def dest!: spec [of _ t] split: if_splits)
    have "if \<exists>r'. (x, r') \<in> set ((t, r) # rest) \<and> tracks_tag s r' tag then shows_event s' x e
        else history s' x = history s x" for x
    proof (cases "x = t")
      case x: True
      then have "\<exists>r'. (x, r') \<in> set ((t, r) # rest) \<and> tracks_tag s r' tag" using True by auto
      then show ?thesis using t' x by simp
    next
      case x: False
      then have "(\<exists>r'. (x, r') \<in> set ((t, r) # rest) \<and> tracks_tag s r' tag) \<longleftrightarrow>
          (\<exists>r'. (x, r') \<in> set rest \<and> tracks_tag s r' tag)" by simp
      then show ?thesis using IH other [OF x] by simp
    qed
    then show ?thesis using IH cnt True AddTagEvent_unchanged [OF a] by simp
  qed
qed simp

lemma UpdateTrackingTags_effect:
  assumes "UpdateTrackingTags s tag e = (s', n)" "distinct (map fst (is_SpecTags s))"
  shows "if \<exists>r. spec_tag s t = Some r \<and> tracks_tag s r tag then shows_event s' t e else history s' t = history s t"
    "is_SpecTags s' = is_SpecTags s" "is_Name s' = is_Name s" "is_Namespace s' = is_Namespace s"
    "n = length (filter (\<lambda>(t, r). tracks_tag s r tag \<and> \<not> shows_event s t e) (is_SpecTags s))"
  using UpdateTracking_loop_effect [OF assms(1) [unfolded UpdateTrackingTags_def] assms(2)] assms(2)
  by (simp_all add: spec_tag_def)

text \<open>With the old status shared with the new, nothing is carried over.\<close>

lemma tag_events_same: "tag_events_changed es es = (False, False)"
  by (cases es) (simp_all add: tag_events_changed_def)

lemma shared_old_carries_nothing: "UpdateChangedTrackingTags SharedOld order s = (s, 0)"
  by (induction order) (auto simp: old_items_def tag_events_same split: list.splits)

text \<open>
  What a range of a map visits first decides which image a tag ends up with.  Of a tag, one that
  tracks it and one that tracks that one, the last follows a change of the first in one order only.
\<close>

definition chain_stream :: image_stream where
  "chain_stream = example_stream
     [(''a'', tag_to ''DockerImage'' ''r''), (''b'', tag_to ''ImageStreamTag'' ''a''), (''c'', tag_to ''ImageStreamTag'' ''b'')]
     [(''a'', \<lparr>tl_Items = [\<lparr>te_Created = 2, te_DockerImageReference = ''new'', te_Image = ''new'', te_Generation = 1\<rparr>],
               tl_Conditions = []\<rparr>),
      (''b'', \<lparr>tl_Items = [\<lparr>te_Created = 1, te_DockerImageReference = ''old'', te_Image = ''old'', te_Generation = 1\<rparr>],
               tl_Conditions = []\<rparr>),
      (''c'', \<lparr>tl_Items = [\<lparr>te_Created = 1, te_DockerImageReference = ''old'', te_Image = ''old'', te_Generation = 1\<rparr>],
               tl_Conditions = []\<rparr>)]"

definition chain_old :: old_status where
  "chain_old = OldTags
     (map (\<lambda>t. (t, \<lparr>tl_Items = [\<lparr>te_Created = 1, te_DockerImageReference = ''old'', te_Image = ''old'', te_Generation = 1\<rparr>],
                    tl_Conditions = []\<rparr>)) [''a'', ''b'', ''c''])"

definition image_of_tag :: "image_stream \<Rightarrow> string \<Rightarrow> string option" where
  "image_of_tag s t = map_option te_Image (LatestTaggedImage s t)"

theorem tracking_depends_on_order:
  "image_of_tag (fst (UpdateChangedTrackingTags chain_old [''a'', ''b'', ''c''] chain_stream)) ''c'' = Some ''new'' \<and>
   image_of_tag (fst (UpdateChangedTrackingTags chain_old [''b'', ''a'', ''c''] chain_stream)) ''c'' = Some ''old''"
  by code_simp

end
