(* ===== verification/Image_Update.thy ===== *)
theory Image_Update
  imports Image_Strategy Image_Tags
begin

text \<open>
  The rest of the strategies of \<open>origin/pkg/image/registry/imagestream/strategy.go\<close>: verifying that the
  user may read what the tags refer to, turning changed tags into events of the status, and the writes
  as a whole.
\<close>

section \<open>Verifying access\<close>

definition layers_review :: "user_info \<Rightarrow> string \<Rightarrow> subject_access_review" where
  "layers_review user streamName =
     AddUserToSAR user
       \<lparr>sar_type = \<lparr>tm_kind = [], tm_api_version = []\<rparr>,
        sar_action = \<lparr>act_namespace = [], act_verb = ''get'', act_group = [], act_version = [],
          act_resource = ''imagestreams/layers'', act_resource_name = streamName, act_path = [],
          act_is_non_resource_url = False, act_content = None\<rparr>,
        sar_user = [], sar_groups = None, sar_scopes = None\<rparr>"

definition may_pull :: "stream_env \<Rightarrow> user_info \<Rightarrow> string \<Rightarrow> string \<Rightarrow> bool" where
  "may_pull env user namespace streamName =
     (case env_Review env namespace (layers_review user streamName) of
        Inr (Some allowed) \<Rightarrow> allowed
      | _ \<Rightarrow> False)"

definition reference_unchanged :: "(string \<times> tag_reference) list \<Rightarrow> string \<Rightarrow> tag_reference \<Rightarrow> string \<Rightarrow> bool" where
  "reference_unchanged oldTags tag r namespace =
     (case map_of oldTags tag of None \<Rightarrow> False | Some oldRef \<Rightarrow> \<not> tagRefChanged oldRef r namespace)"

definition verify_tag ::
  "stream_env \<Rightarrow> user_info \<Rightarrow> (string \<times> tag_reference) list \<Rightarrow> image_stream \<Rightarrow> string \<times> tag_reference \<Rightarrow> go_error list" where
  "verify_tag env user oldTags s = (\<lambda>(tag, r).
     (case tr_From r of
        None \<Rightarrow> []
      | Some from \<Rightarrow>
          if length (or_namespace from) = 0 then []
          else if is_Namespace s = or_namespace from then []
          else if reference_unchanged oldTags tag r (is_Namespace s) then []
          else (case parseFromReference s from of
                  Inl _ \<Rightarrow> [Errorf ''from.name: must be of the form <tag>, <repo>:<tag>, <id>, or <repo>@<id>'' [or_name from]]
                | Inr (streamName, _) \<Rightarrow>
                    if \<not> may_pull env user (or_namespace from) streamName
                    then [ForbiddenErr ''spec.tags'' tag (Errorf ''%s/%s'' [or_namespace from, streamName])] else [])))"

definition Verify ::
  "stream_env \<Rightarrow> user_info \<Rightarrow> (string \<times> tag_reference) list \<Rightarrow> image_stream \<Rightarrow> go_error list" where
  "Verify env user oldTags s = concat (map (verify_tag env user oldTags s) (is_SpecTags s))"

section \<open>Events of changed tags\<close>

text \<open>The orders in which the ranges visit the tags of the spec, those of the status at the end, and those
of the status of the stream that a tag refers to.\<close>

record range_orders =
  ro_Spec :: "string list"
  ro_Status :: "string list"
  ro_Resolve :: "string \<Rightarrow> string list"

text \<open>The event is a pointer: for an image stream tag it points into the status of the stream.\<close>

definition tagReferenceToTagEvent ::
  "nat \<Rightarrow> string list \<Rightarrow> image_stream \<Rightarrow> tag_reference \<Rightarrow> string \<Rightarrow> go_error + tag_event option" where
  "tagReferenceToTagEvent now order s r tagOrID =
     (case tr_From r of
        None \<Rightarrow> Inl (Errorf ''nil from'' [])
      | Some from \<Rightarrow>
          let event =
                (if or_kind from = ''DockerImage'' then
                   Inr (Some \<lparr>te_Created = now, te_DockerImageReference = or_name from, te_Image = [], te_Generation = 0\<rparr>)
                 else if or_kind from = ''ImageStreamImage'' then
                   (case ResolveImageID now order s tagOrID of Inl e \<Rightarrow> Inl e | Inr e \<Rightarrow> Inr (Some e))
                 else if or_kind from = ''ImageStreamTag'' then Inr (LatestTaggedImage s tagOrID)
                 else Inl (Errorf ''invalid from.kind %q: it must be DockerImage, ImageStreamImage or ImageStreamTag''
                   [or_kind from]))
          in (case event of
                Inl e \<Rightarrow> Inl e
              | Inr None \<Rightarrow> Inr None
              | Inr (Some e) \<Rightarrow>
                  Inr (Some (case tr_Generation r of None \<Rightarrow> e | Some g \<Rightarrow> e\<lparr>te_Generation := g\<rparr>))))"

text \<open>The event of a tag in the internal registry is altered to pull from this stream.\<close>

definition localize_event :: "stream_env \<Rightarrow> image_stream \<Rightarrow> image_stream \<Rightarrow> bool \<Rightarrow> tag_event \<Rightarrow> tag_event" where
  "localize_event env s streamRef isReference event =
     (if isReference then event
      else (case ParseDockerImageReference (te_DockerImageReference event) of
              Inl _ \<Rightarrow> event
            | Inr ref \<Rightarrow>
                if env_DefaultRegistry env = Some (ref_Registry ref) \<and> ref_Namespace ref = is_Namespace streamRef \<and>
                   ref_Name ref = is_Name streamRef
                then event\<lparr>te_DockerImageReference :=
                  Exact (ref\<lparr>ref_Namespace := is_Namespace s, ref_Name := is_Name s\<rparr>)\<rparr>
                else event))"

text \<open>What the assignments through the pointer leave in the history of the tag it points to.\<close>

definition set_latest :: "string \<Rightarrow> tag_event \<Rightarrow> image_stream \<Rightarrow> image_stream" where
  "set_latest tag event s =
     set_history tag ((history s tag)\<lparr>tl_Items := event # tl (tl_Items (history s tag))\<rparr>) s"

text \<open>
  One round of the range of \<open>tagsChanged\<close>, in two steps: the event of a changed tag, with the tag of the
  stream that the pointer to the event points to, if any; and the assignments.
\<close>

definition changed_tag_event ::
  "stream_env \<Rightarrow> range_orders \<Rightarrow> string \<Rightarrow> image_stream \<Rightarrow> tag_reference \<Rightarrow> object_reference
   \<Rightarrow> go_error + (tag_event \<times> string option) option" where
  "changed_tag_event env orders tag s r from =
     (if or_kind from = ''DockerImage'' \<and> length (or_name from) > 0 then
        (if tr_Reference r then
           (case tagReferenceToTagEvent (env_Now env) [] s r [] of
              Inl e \<Rightarrow> Inl e
            | Inr None \<Rightarrow> Inr None
            | Inr (Some event) \<Rightarrow> Inr (Some (event, None)))
         else Inr None)
      else (case parseFromReference s from of
         Inl _ \<Rightarrow> Inl (Errorf ''from.name: must be of the form <tag>, <repo>:<tag>, <id>, or <repo>@<id>'' [or_name from])
       | Inr (streamName, tagOrID) \<Rightarrow>
           let namespace = ref_namespace from (is_Namespace s);
               foreign = (namespace \<noteq> is_Namespace s \<or> streamName \<noteq> is_Name s)
           in (case (if foreign then env_Get env namespace streamName else Inr s) of
                 Inl e \<Rightarrow> Inl (if IsNotFound e then NotFoundErr ''from.name'' (or_name from)
                   else ErrorfE ''unable to retrieve image stream: %v'' [] [e])
               | Inr streamRef \<Rightarrow>
                   (case tagReferenceToTagEvent (env_Now env) (ro_Resolve orders tag) streamRef r tagOrID of
                      Inl e \<Rightarrow> Inl (ErrorfE ''error generating tag event: %v'' [] [e])
                    | Inr None \<Rightarrow> Inr None
                    | Inr (Some event) \<Rightarrow>
                        Inr (Some (localize_event env s streamRef (tr_Reference r) event,
                          if \<not> foreign \<and> or_kind from = ''ImageStreamTag'' then Some (default_tag tagOrID) else None))))))"

definition tag_changed ::
  "stream_env \<Rightarrow> range_orders \<Rightarrow> (string \<times> tag_reference) list \<Rightarrow> string \<Rightarrow> image_stream \<Rightarrow> image_stream \<times> go_error list" where
  "tag_changed env orders oldTags tag s =
     (case spec_tag s tag of
        None \<Rightarrow> (s, [])
      | Some r0 \<Rightarrow>
          if reference_unchanged oldTags tag r0 (is_Namespace s) then (s, [])
          else (case tr_From r0 of
                  None \<Rightarrow> (s, [])
                | Some from \<Rightarrow>
                    let r = r0\<lparr>tr_Generation := Some (is_Generation s)\<rparr>
                    in (case changed_tag_event env orders tag s r from of
                          Inl e \<Rightarrow> (s, [e])
                        | Inr None \<Rightarrow> (s, [])
                        | Inr (Some (event, target)) \<Rightarrow>
                            (fst (AddTagEventToImageStream
                               (set_spec_tag tag r (case target of None \<Rightarrow> s | Some t \<Rightarrow> set_latest t event s)) tag event),
                             []))))"

fun tags_changed_loop ::
  "stream_env \<Rightarrow> range_orders \<Rightarrow> (string \<times> tag_reference) list \<Rightarrow> string list \<Rightarrow> image_stream \<Rightarrow> image_stream \<times> go_error list" where
  "tags_changed_loop env orders oldTags [] s = (s, [])"
| "tags_changed_loop env orders oldTags (tag # tags) s =
     (case tag_changed env orders oldTags tag s of
        (s1, errs) \<Rightarrow> (case tags_changed_loop env orders oldTags tags s1 of (s2, errs') \<Rightarrow> (s2, errs @ errs')))"

definition old_spec_tags :: "image_stream option \<Rightarrow> (string \<times> tag_reference) list" where
  "old_spec_tags old = (case old of None \<Rightarrow> [] | Some o' \<Rightarrow> is_SpecTags o')"

text \<open>The creation time that the last loop of the code assigns goes to copies of the events.\<close>

definition tagsChanged ::
  "stream_env \<Rightarrow> range_orders \<Rightarrow> (string \<times> tag_reference) list \<Rightarrow> old_status \<Rightarrow> image_stream \<Rightarrow> image_stream \<times> go_error list" where
  "tagsChanged env orders oldTags oldStatus s =
     (case tags_changed_loop env orders oldTags (ro_Spec orders) s of
        (s1, errs) \<Rightarrow> (fst (UpdateChangedTrackingTags oldStatus (ro_Status orders) s1), errs))"

definition validateTagsAndLimits ::
  "stream_env \<Rightarrow> user_info option \<Rightarrow> string option \<Rightarrow> range_orders \<Rightarrow> (string \<times> tag_reference) list \<Rightarrow> old_status
   \<Rightarrow> image_stream \<Rightarrow> image_stream \<times> go_error option" where
  "validateTagsAndLimits env user ctxNamespace orders oldTags oldStatus s =
     (case user of
        None \<Rightarrow> (s, Some (ForbiddenErr ''imagestreams'' (is_Name s) (Errorf ''no user context available'' [])))
      | Some u \<Rightarrow>
          (case tagsChanged env orders oldTags oldStatus s of
             (s1, errs1) \<Rightarrow>
               let errs = Verify env u oldTags s @ errs1
               in if errs \<noteq> [] then (s1, Some (NewInvalid ''imagestreams'' (is_Name s1) errs))
                  else (s1, env_VerifyLimits env (case ctxNamespace of None \<Rightarrow> is_Namespace s1 | Some ns \<Rightarrow> ns) s1)))"

section \<open>Writes\<close>

definition option_errors :: "go_error option \<Rightarrow> go_error list" where
  "option_errors e = (case e of None \<Rightarrow> [] | Some x \<Rightarrow> [InternalErr x])"

definition stream_Validate ::
  "stream_env \<Rightarrow> user_info option \<Rightarrow> string option \<Rightarrow> range_orders \<Rightarrow> image_stream \<Rightarrow> image_stream \<times> go_error list" where
  "stream_Validate env user ctxNamespace orders s =
     (case validateTagsAndLimits env user ctxNamespace orders [] NoOld s of
        (s1, e) \<Rightarrow> (s1, option_errors e @ ValidateImageStream s1))"

definition stream_ValidateUpdate ::
  "stream_env \<Rightarrow> user_info option \<Rightarrow> string option \<Rightarrow> range_orders \<Rightarrow> old_status \<Rightarrow> image_stream \<Rightarrow> image_stream
   \<Rightarrow> image_stream \<times> go_error list" where
  "stream_ValidateUpdate env user ctxNamespace orders oldStatus s old =
     (case validateTagsAndLimits env user ctxNamespace orders (is_SpecTags old) oldStatus s of
        (s1, e) \<Rightarrow> (s1, option_errors e @ ValidateImageStreamUpdate s1 old))"

definition status_ValidateUpdate :: "stream_env \<Rightarrow> string option \<Rightarrow> image_stream \<Rightarrow> image_stream \<Rightarrow> go_error list" where
  "status_ValidateUpdate env ctxNamespace s old =
     (case env_VerifyLimits env (case ctxNamespace of None \<Rightarrow> is_Namespace s | Some ns \<Rightarrow> ns) s of
        None \<Rightarrow> [] | Some e \<Rightarrow> [ForbiddenErr ''imageStream'' [] e]) @
     ValidateImageStreamStatusUpdate s old"

text \<open>Tags of the status are shared by a prepared stream and the old one when they are copied and not nil.\<close>

definition status_after_prepare :: "bool \<Rightarrow> image_stream \<Rightarrow> old_status" where
  "status_after_prepare resetStatus old =
     (if resetStatus \<and> is_StatusTags old \<noteq> None then SharedOld else OldTags (status_tags old))"

text \<open>\<open>BeforeCreate\<close> and \<open>BeforeUpdate\<close> with these strategies, after which the store writes the stream.\<close>

definition finish_write :: "image_stream \<times> go_error list \<Rightarrow> go_error + image_stream" where
  "finish_write w = (case w of (s, errs) \<Rightarrow> if errs \<noteq> [] then Inl (NewInvalid ''imagestreams'' (is_Name s) errs) else Inr s)"

definition create_stream ::
  "stream_env \<Rightarrow> user_info option \<Rightarrow> string option \<Rightarrow> range_orders \<Rightarrow> image_stream \<Rightarrow> go_error + image_stream" where
  "create_stream env user ctxNamespace orders s =
     finish_write (stream_Validate env user ctxNamespace orders (PrepareForCreate env s))"

definition fill_uid :: "image_stream \<Rightarrow> image_stream \<Rightarrow> image_stream" where
  "fill_uid s old = (if is_UID s = [] then s\<lparr>is_UID := is_UID old\<rparr> else s)"

definition update_stream ::
  "stream_env \<Rightarrow> bool \<Rightarrow> user_info option \<Rightarrow> string option \<Rightarrow> range_orders \<Rightarrow> image_stream \<Rightarrow> image_stream
   \<Rightarrow> go_error + image_stream" where
  "update_stream env resetStatus user ctxNamespace orders s old =
     finish_write (stream_ValidateUpdate env user ctxNamespace orders (status_after_prepare resetStatus old)
       (fill_uid (prepareForUpdate env resetStatus s old) old) old)"

definition update_status ::
  "stream_env \<Rightarrow> string option \<Rightarrow> image_stream \<Rightarrow> image_stream \<Rightarrow> go_error + image_stream" where
  "update_status env ctxNamespace s old =
     (let s1 = fill_uid (status_PrepareForUpdate (s\<lparr>is_Generation := is_Generation old\<rparr>) old) old
      in finish_write (s1, status_ValidateUpdate env ctxNamespace s1 old))"

end
