(* ===== verification/Image_Invariants.thy ===== *)
theory Image_Invariants
  imports Image_Update
begin

text \<open>
  What the writes of image streams keep.  A write changes a prepared stream in two loops: one over the
  changed tags of the spec, which give an event each, and one over the tags of the status, whose newest
  events the tracking tags take over.  The locales below state what a property of streams has to satisfy
  to be kept by the loops; their interpretations stand where the properties are defined.
\<close>

section \<open>Adding an event\<close>

lemma AddTagEvent_fields:
  "is_SpecTags (fst (AddTagEventToImageStream s t e)) = is_SpecTags s"
  "is_Generation (fst (AddTagEventToImageStream s t e)) = is_Generation s"
  "is_Name (fst (AddTagEventToImageStream s t e)) = is_Name s"
  "is_Namespace (fst (AddTagEventToImageStream s t e)) = is_Namespace s"
  "spec_tag (fst (AddTagEventToImageStream s t e)) = spec_tag s"
proof -
  obtain s' added where a: "AddTagEventToImageStream s t e = (s', added)" by (cases "AddTagEventToImageStream s t e")
  show "is_SpecTags (fst (AddTagEventToImageStream s t e)) = is_SpecTags s"
    "is_Generation (fst (AddTagEventToImageStream s t e)) = is_Generation s"
    "is_Name (fst (AddTagEventToImageStream s t e)) = is_Name s"
    "is_Namespace (fst (AddTagEventToImageStream s t e)) = is_Namespace s"
    "spec_tag (fst (AddTagEventToImageStream s t e)) = spec_tag s"
    by (rule AddTagEvent_frame [OF a]; simp add: a fun_eq_iff)+
qed

lemma AddTagEvent_other_tag: "x \<noteq> t \<Longrightarrow> history (fst (AddTagEventToImageStream s t e)) x = history s x"
  by (cases "AddTagEventToImageStream s t e") (simp add: AddTagEvent_other)

section \<open>Properties kept by the tracking of tags\<close>

text \<open>
  \<open>P\<close> holds of streams and \<open>Q\<close> of the events that tracking tags copy: the newest events satisfy \<open>Q\<close>, and
  an event with \<open>Q\<close> may be added to any tag of the spec.
\<close>

locale event_invariant =
  fixes P :: "image_stream \<Rightarrow> bool" and Q :: "tag_event \<Rightarrow> bool"
  assumes latest: "P s \<Longrightarrow> tl_Items (history s tag) = e # es \<Longrightarrow> Q e"
    and add: "P s \<Longrightarrow> Q e \<Longrightarrow> t \<in> fst ` set (is_SpecTags s) \<Longrightarrow> P (fst (AddTagEventToImageStream s t e))"
begin

lemma tracking_loop:
  "P s \<Longrightarrow> Q e \<Longrightarrow> fst ` set rs \<subseteq> fst ` set (is_SpecTags s) \<Longrightarrow> P (fst (UpdateTracking_loop tag e rs (s, n)))"
proof (induction tag e rs "(s, n)" arbitrary: s n rule: UpdateTracking_loop.induct)
  case (2 tag e t r rest s n)
  obtain s1 added where a: "AddTagEventToImageStream s t e = (s1, added)" by (cases "AddTagEventToImageStream s t e")
  have "P s1" "is_SpecTags s1 = is_SpecTags s"
    using add [of s e t] "2.prems" AddTagEvent_fields(1) [of s t e] a by simp_all
  then show ?case using 2 a by simp
qed simp

lemma tracking: "P s \<Longrightarrow> Q e \<Longrightarrow> P (fst (UpdateTrackingTags s tag e))"
  by (simp add: UpdateTrackingTags_def tracking_loop)

lemma changed_tracking: "P s \<Longrightarrow> P (fst (UpdateChangedTrackingTags old order s))"
proof (induction order arbitrary: s)
  case (Cons tag order)
  have "P (fst (UpdateTrackingTags s tag e))" if "tl_Items (history s tag) = e # es" for e es
    using tracking latest Cons.prems that by blast
  then show ?case using Cons by (auto simp: Let_def split: list.split prod.split) (metis fst_conv)+
qed simp

end

section \<open>Properties kept by the events of changed tags\<close>

locale tag_invariant =
  fixes P :: "image_stream \<Rightarrow> bool" and env :: stream_env and orders :: range_orders
    and oldTags :: "(string \<times> tag_reference) list"
  assumes tag: "P s \<Longrightarrow> P (fst (tag_changed env orders oldTags tag s))"
begin

lemma tags: "P s \<Longrightarrow> P (fst (tags_changed_loop env orders oldTags tags s))"
proof (induction tags arbitrary: s)
  case (Cons t tags)
  then show ?case using tag [of s t] by (simp split: prod.split) (metis fst_conv)
qed simp

end

section \<open>Properties kept by writes\<close>

locale write_invariant = event_invariant P Q + tag_invariant P env orders oldTags
  for P :: "image_stream \<Rightarrow> bool" and Q :: "tag_event \<Rightarrow> bool" and env :: stream_env
    and orders :: range_orders and oldTags :: "(string \<times> tag_reference) list"
begin

lemma changed: "P s \<Longrightarrow> P (fst (tagsChanged env orders oldTags oldStatus s))"
  using tags [of s "ro_Spec orders"] by (auto simp: tagsChanged_def changed_tracking split: prod.split)

lemma changed_result: "tagsChanged env orders oldTags oldStatus s = (s', errs) \<Longrightarrow> P s \<Longrightarrow> P s'"
  using changed by (metis fst_conv)

end

end
