(* ===== verification/Image_Generations.thy ===== *)
theory Image_Generations
  imports Image_Invariants
begin

text \<open>
  Generations: which one a write gives to a tag, that users cannot choose it, and the well-formedness of
  streams that every write keeps.
\<close>

section \<open>What a changed tag does to a stream\<close>

lemma tag_event_generation:
  "tagReferenceToTagEvent now order s r tagOrID = Inr (Some e) \<Longrightarrow> tr_Generation r = Some g \<Longrightarrow> te_Generation e = g"
  by (auto simp: tagReferenceToTagEvent_def Let_def split: option.splits sum.splits if_splits)

lemma tag_event_latest:
  "tagReferenceToTagEvent now order s r tagOrID = Inr (Some e) \<Longrightarrow> tr_From r = Some f \<Longrightarrow>
   or_kind f = ''ImageStreamTag'' \<Longrightarrow> \<exists>e0. LatestTaggedImage s tagOrID = Some e0 \<and> te_Image e = te_Image e0"
  by (auto simp: tagReferenceToTagEvent_def Let_def split: option.splits sum.splits if_splits)

lemma localize_fields [simp]:
  "te_Generation (localize_event env s x b e) = te_Generation e" "te_Image (localize_event env s x b e) = te_Image e"
  by (simp_all add: localize_event_def split: sum.split)

lemma changed_tag_event_facts:
  assumes "changed_tag_event env orders tag s r from = Inr (Some (e, target))"
    "tr_Generation r = Some g" "tr_From r = Some from"
  shows "te_Generation e = g"
    "target = Some t \<Longrightarrow> \<exists>source e0. t = default_tag source \<and> LatestTaggedImage s source = Some e0 \<and> te_Image e = te_Image e0"
proof -
  show "te_Generation e = g"
    using assms by (auto simp: changed_tag_event_def Let_def dest: tag_event_generation
      split: if_splits sum.splits option.splits prod.splits)
  show "\<exists>source e0. t = default_tag source \<and> LatestTaggedImage s source = Some e0 \<and> te_Image e = te_Image e0"
    if "target = Some t"
  proof -
    have "\<exists>source x. t = default_tag source \<and> or_kind from = ''ImageStreamTag'' \<and> te_Image e = te_Image x \<and>
        tagReferenceToTagEvent (env_Now env) (ro_Resolve orders tag) s r source = Inr (Some x)"
      using assms that by (fastforce simp: changed_tag_event_def Let_def
        split: if_splits sum.splits option.splits prod.splits)
    then show ?thesis using tag_event_latest assms(3) by metis
  qed
qed

lemma tag_changed_elim:
  assumes "tag_changed env orders oldTags tag s = (s', errs)"
  obtains (same) "s' = s"
  | (event) r f e target where "spec_tag s tag = Some r" "tr_From r = Some f"
      "\<not> reference_unchanged oldTags tag r (is_Namespace s)" "te_Generation e = is_Generation s"
      "\<And>t. target = Some t \<Longrightarrow>
        \<exists>source e0. t = default_tag source \<and> LatestTaggedImage s source = Some e0 \<and> te_Image e = te_Image e0"
      "s' = fst (AddTagEventToImageStream (set_spec_tag tag (r\<lparr>tr_Generation := Some (is_Generation s)\<rparr>)
        (case target of None \<Rightarrow> s | Some t \<Rightarrow> set_latest t e s)) tag e)"
proof -
  have "s' = s \<or> (\<exists>r f e target. spec_tag s tag = Some r \<and> tr_From r = Some f \<and>
      \<not> reference_unchanged oldTags tag r (is_Namespace s) \<and>
      changed_tag_event env orders tag s (r\<lparr>tr_Generation := Some (is_Generation s)\<rparr>) f = Inr (Some (e, target)) \<and>
      s' = fst (AddTagEventToImageStream (set_spec_tag tag (r\<lparr>tr_Generation := Some (is_Generation s)\<rparr>)
        (case target of None \<Rightarrow> s | Some t \<Rightarrow> set_latest t e s)) tag e))"
    using assms by (auto simp: tag_changed_def Let_def split: option.splits if_splits sum.splits prod.splits)
  then consider "s' = s" | r f e target where "spec_tag s tag = Some r" "tr_From r = Some f"
      "\<not> reference_unchanged oldTags tag r (is_Namespace s)"
      "changed_tag_event env orders tag s (r\<lparr>tr_Generation := Some (is_Generation s)\<rparr>) f = Inr (Some (e, target))"
      "s' = fst (AddTagEventToImageStream (set_spec_tag tag (r\<lparr>tr_Generation := Some (is_Generation s)\<rparr>)
        (case target of None \<Rightarrow> s | Some t \<Rightarrow> set_latest t e s)) tag e)" by blast
  then show thesis
  proof cases
    case 2
    have f: "tr_From (r\<lparr>tr_Generation := Some (is_Generation s)\<rparr>) = Some f" using 2(2) by simp
    note facts = changed_tag_event_facts [OF 2(4) _ f, of "is_Generation s"]
    show thesis by (rule event [OF 2(1-3) facts(1) facts(2) 2(5)]) simp_all
  qed (rule same)
qed

section \<open>Well-formed streams\<close>

text \<open>
  The type of a stream: its tags have one name each and a generation, set and positive, and no generation
  of a tag or of an event of the status is newer than the stream.
\<close>

definition wf_spec :: "image_stream \<Rightarrow> bool" where
  "wf_spec s \<longleftrightarrow> distinct (map fst (is_SpecTags s)) \<and> 0 < is_Generation s \<and>
     (\<forall>t r. spec_tag s t = Some r \<longrightarrow> (\<exists>g. tr_Generation r = Some g \<and> 0 < g \<and> g \<le> is_Generation s))"

definition wf_status :: "image_stream \<Rightarrow> bool" where
  "wf_status s \<longleftrightarrow> (\<forall>t. \<forall>e \<in> set (tl_Items (history s t)). te_Generation e \<le> is_Generation s)"

definition wf_stream :: "image_stream \<Rightarrow> bool" where
  "wf_stream s \<longleftrightarrow> wf_spec s \<and> wf_status s"

lemma AddTagEvent_items:
  "set (tl_Items (history (fst (AddTagEventToImageStream s t e)) x)) \<subseteq>
     set (tl_Items (history s x)) \<union> {e' . te_Generation e' = te_Generation e}"
  by (auto simp: AddTagEventToImageStream_def Let_def split: list.splits)

text \<open>Streams with no event newer than a generation, which need not be that of the stream.\<close>

definition bounded_events :: "image_stream \<Rightarrow> int \<Rightarrow> bool" where
  "bounded_events s g \<longleftrightarrow> (\<forall>t. \<forall>e \<in> set (tl_Items (history s t)). te_Generation e \<le> g)"

lemma wf_status_bounded: "wf_status s = bounded_events s (is_Generation s)"
  by (simp add: wf_status_def bounded_events_def)

lemma bounded_events_mono: "bounded_events s g \<Longrightarrow> g \<le> h \<Longrightarrow> bounded_events s h"
  unfolding bounded_events_def by (meson order_trans)

lemma bounded_events_cong: "history s = history s' \<Longrightarrow> bounded_events s g = bounded_events s' g"
  by (simp add: bounded_events_def)

lemma AddTagEvent_bounded:
  "bounded_events s g \<Longrightarrow> te_Generation e \<le> g \<Longrightarrow> bounded_events (fst (AddTagEventToImageStream s t e)) g"
  unfolding bounded_events_def using AddTagEvent_items [of s t e] by fastforce

lemma in_tl: "x \<in> set (tl xs) \<Longrightarrow> x \<in> set xs"
  by (cases xs) simp_all

lemma set_latest_fields [simp]:
  "is_SpecTags (set_latest t e s) = is_SpecTags s" "is_Generation (set_latest t e s) = is_Generation s"
  "is_Name (set_latest t e s) = is_Name s" "is_Namespace (set_latest t e s) = is_Namespace s"
  "spec_tag (set_latest t e s) = spec_tag s"
  by (simp_all add: set_latest_def fun_eq_iff)

lemma set_latest_bounded:
  "bounded_events s g \<Longrightarrow> te_Generation e \<le> g \<Longrightarrow> bounded_events (set_latest t e s) g"
  by (auto simp: bounded_events_def set_latest_def dest!: in_tl)

lemma set_spec_tag_bounded [simp]: "bounded_events (set_spec_tag t r s) g = bounded_events s g"
  by (simp add: bounded_events_def)

text \<open>A round and the whole of \<open>tagsChanged\<close>: only generations of tags change in the spec, to that of the stream.\<close>

definition same_but_generation :: "tag_reference \<Rightarrow> tag_reference \<Rightarrow> bool" where
  "same_but_generation r r' \<longleftrightarrow> r' = r\<lparr>tr_Generation := tr_Generation r'\<rparr>"

definition spec_refreshed :: "(string \<times> tag_reference) list \<Rightarrow> image_stream \<Rightarrow> image_stream \<Rightarrow> bool" where
  "spec_refreshed oldTags s s' \<longleftrightarrow> map fst (is_SpecTags s') = map fst (is_SpecTags s) \<and>
     (\<forall>t. case spec_tag s t of
            None \<Rightarrow> spec_tag s' t = None
          | Some r \<Rightarrow> spec_tag s' t = Some r \<or>
              \<not> reference_unchanged oldTags t r (is_Namespace s) \<and>
              spec_tag s' t = Some (r\<lparr>tr_Generation := Some (is_Generation s)\<rparr>))"

lemma spec_refreshed_refl [simp]: "spec_refreshed oldTags s s"
  by (simp add: spec_refreshed_def split: option.split)

lemma spec_refreshed_cong:
  "is_SpecTags s'' = is_SpecTags s' \<Longrightarrow> spec_refreshed oldTags s s'' \<longleftrightarrow> spec_refreshed oldTags s s'"
  by (simp only: spec_refreshed_def spec_tag_def)

lemma spec_refreshed_trans:
  assumes "spec_refreshed oldTags s s'" "spec_refreshed oldTags s' s''" "is_Generation s' = is_Generation s"
    "is_Namespace s' = is_Namespace s"
  shows "spec_refreshed oldTags s s''"
proof -
  have "case spec_tag s t of
            None \<Rightarrow> spec_tag s'' t = None
          | Some r \<Rightarrow> spec_tag s'' t = Some r \<or> \<not> reference_unchanged oldTags t r (is_Namespace s) \<and>
              spec_tag s'' t = Some (r\<lparr>tr_Generation := Some (is_Generation s)\<rparr>)" for t
    using assms unfolding spec_refreshed_def by (auto split: option.splits dest!: spec [of _ t])
  then show ?thesis using assms by (simp add: spec_refreshed_def)
qed

lemma spec_refreshed_tag:
  assumes "spec_refreshed oldTags s s'" "spec_tag s t = Some r"
  shows "spec_tag s' t = Some r \<or> \<not> reference_unchanged oldTags t r (is_Namespace s) \<and>
    spec_tag s' t = Some (r\<lparr>tr_Generation := Some (is_Generation s)\<rparr>)"
  using assms unfolding spec_refreshed_def by (auto dest!: spec [of _ t])

lemma spec_refreshed_back:
  assumes "spec_refreshed oldTags s s'" "spec_tag s' t = Some r'"
  obtains r where "spec_tag s t = Some r"
    "r' = r \<or> \<not> reference_unchanged oldTags t r (is_Namespace s) \<and> r' = r\<lparr>tr_Generation := Some (is_Generation s)\<rparr>"
  using assms unfolding spec_refreshed_def by (auto dest!: spec [of _ t] split: option.splits)

lemma map_fst_update: "map_of xs k \<noteq> None \<Longrightarrow> map fst (AList.update k v xs) = map fst xs"
  by (induction xs) auto

lemma spec_tag_None: "spec_tag s t = None \<longleftrightarrow> t \<notin> fst ` set (is_SpecTags s)"
  by (simp add: spec_tag_def map_of_eq_None_iff)

text \<open>What a write changes in a prepared stream, its status apart.\<close>

definition same_frame :: "(string \<times> tag_reference) list \<Rightarrow> image_stream \<Rightarrow> image_stream \<Rightarrow> bool" where
  "same_frame oldTags s s' \<longleftrightarrow> spec_refreshed oldTags s s' \<and> is_Generation s' = is_Generation s \<and>
     is_Name s' = is_Name s \<and> is_Namespace s' = is_Namespace s"

lemma same_frame_refl [simp]: "same_frame oldTags s s"
  by (simp add: same_frame_def)

lemma same_frame_trans: "same_frame oldTags s s' \<Longrightarrow> same_frame oldTags s' s'' \<Longrightarrow> same_frame oldTags s s''"
  unfolding same_frame_def using spec_refreshed_trans [of oldTags s s' s''] by simp

lemma same_frame_event: "same_frame oldTags s s' \<Longrightarrow> same_frame oldTags s (fst (AddTagEventToImageStream s' t e))"
  unfolding same_frame_def AddTagEvent_fields using spec_refreshed_cong [OF AddTagEvent_fields(1)] by simp

lemma tag_changed_frame: "same_frame oldTags s (fst (tag_changed env orders oldTags tag s))"
  and tag_changed_bounded:
    "bounded_events s g \<Longrightarrow> is_Generation s \<le> g \<Longrightarrow> bounded_events (fst (tag_changed env orders oldTags tag s)) g"
proof -
  obtain s' errs where tc: "tag_changed env orders oldTags tag s = (s', errs)"
    by (cases "tag_changed env orders oldTags tag s")
  have "same_frame oldTags s s' \<and> (bounded_events s g \<and> is_Generation s \<le> g \<longrightarrow> bounded_events s' g)" for g
    using tc
  proof (cases rule: tag_changed_elim)
    case (event r f e target)
    define s1 where "s1 = (case target of None \<Rightarrow> s | Some t \<Rightarrow> set_latest t e s)"
    have s1: "bounded_events s g \<and> is_Generation s \<le> g \<longrightarrow> bounded_events s1 g" "is_SpecTags s1 = is_SpecTags s"
      "is_Generation s1 = is_Generation s" "is_Name s1 = is_Name s" "is_Namespace s1 = is_Namespace s"
      "spec_tag s1 = spec_tag s"
      using event(4) set_latest_bounded by (simp_all add: s1_def split: option.split)
    define s2 where "s2 = set_spec_tag tag (r\<lparr>tr_Generation := Some (is_Generation s)\<rparr>) s1"
    have s2: "bounded_events s g \<and> is_Generation s \<le> g \<longrightarrow> bounded_events s2 g" "is_Generation s2 = is_Generation s"
      "is_Name s2 = is_Name s" "is_Namespace s2 = is_Namespace s"
      using s1 by (simp_all add: s2_def)
    have "map fst (is_SpecTags s2) = map fst (is_SpecTags s)"
      using map_fst_update [of "is_SpecTags s" tag] event(1) s1(2)
      by (simp add: s2_def set_spec_tag_def spec_tag_def)
    moreover have "spec_tag s2 t = (if t = tag then Some (r\<lparr>tr_Generation := Some (is_Generation s)\<rparr>) else spec_tag s t)" for t
      using s1(6) by (simp add: s2_def)
    ultimately have "same_frame oldTags s s2"
      using event(1,3) s2 by (auto simp: same_frame_def spec_refreshed_def split: option.split)
    then show ?thesis
      using event(4,6) s2 same_frame_event AddTagEvent_bounded [of s2 g e tag]
      unfolding s1_def [symmetric] s2_def [symmetric] by simp
  qed simp
  then show "same_frame oldTags s (fst (tag_changed env orders oldTags tag s))"
    "bounded_events s g \<Longrightarrow> is_Generation s \<le> g \<Longrightarrow> bounded_events (fst (tag_changed env orders oldTags tag s)) g"
    using tc by simp_all
qed

interpretation framed: write_invariant "same_frame oldTags s0" "\<lambda>_. True" env orders oldTags
  for oldTags s0 env orders
  by unfold_locales (use same_frame_event same_frame_trans tag_changed_frame in blast)+

text \<open>Events stay below every bound of the events before and of the generation of the stream.\<close>

interpretation bounded: write_invariant "\<lambda>s. is_Generation s \<le> g \<and> bounded_events s g" "\<lambda>e. te_Generation e \<le> g"
    env orders oldTags
  for g env orders oldTags
proof
  show "te_Generation e \<le> g"
    if "is_Generation s \<le> g \<and> bounded_events s g" "tl_Items (history s tag) = e # es" for s tag e es
    using that unfolding bounded_events_def by (metis list.set_intros(1))
  show "is_Generation (fst (AddTagEventToImageStream s t e)) \<le> g \<and> bounded_events (fst (AddTagEventToImageStream s t e)) g"
    if "is_Generation s \<le> g \<and> bounded_events s g" "te_Generation e \<le> g" for s e t
    using that AddTagEvent_bounded [of s g e t] by (simp add: AddTagEvent_fields)
  show "is_Generation (fst (tag_changed env orders oldTags tag s)) \<le> g \<and>
      bounded_events (fst (tag_changed env orders oldTags tag s)) g"
    if "is_Generation s \<le> g \<and> bounded_events s g" for s tag
    using that tag_changed_frame [of oldTags s env orders tag] tag_changed_bounded by (simp add: same_frame_def)
qed

lemma tagsChanged_frame: "tagsChanged env orders oldTags oldStatus s = (s', errs) \<Longrightarrow> same_frame oldTags s s'"
  using framed.changed_result [of env orders oldTags oldStatus s s' errs s] by simp

lemma tagsChanged_bounded:
  "tagsChanged env orders oldTags oldStatus s = (s', errs) \<Longrightarrow> bounded_events s g \<Longrightarrow> is_Generation s \<le> g \<Longrightarrow>
   bounded_events s' g"
  using bounded.changed_result [of env orders oldTags oldStatus s s' errs g] by simp

end
