(* ===== verification/Image_Writes.thy ===== *)
theory Image_Writes
  imports Image_Generations
begin

text \<open>
  What a write of an image stream guarantees: users do not choose generations, written streams are
  well-formed, a user learns nothing of streams that the user may not pull from, and the tags that are
  not changed keep their images.
\<close>

section \<open>Preparing an update\<close>

lemma map_of_map_values: "map_of (map (\<lambda>(k, v). (k, f k v)) xs) k = map_option (f k) (map_of xs k)"
  by (induction xs) auto

lemma map_fst_values: "map fst (map (\<lambda>(k, v). (k, f k v)) xs) = map fst xs"
  by (induction xs) auto

definition kept_generation :: "image_stream \<Rightarrow> string \<Rightarrow> tag_reference \<Rightarrow> tag_reference" where
  "kept_generation old t r =
     (if tr_Generation r = Some 0 then r
      else (case spec_tag old t of Some oldRef \<Rightarrow> r\<lparr>tr_Generation := tr_Generation oldRef\<rparr> | None \<Rightarrow> r))"

lemma updateSpec_tag:
  "spec_tag (updateSpecTagGenerationsForUpdate s old) t = map_option (kept_generation old t) (spec_tag s t)"
  "map fst (is_SpecTags (updateSpecTagGenerationsForUpdate s old)) = map fst (is_SpecTags s)"
  using map_of_map_values [of "kept_generation old" "is_SpecTags s" t] map_fst_values [of "kept_generation old" "is_SpecTags s"]
  by (simp_all add: updateSpecTagGenerationsForUpdate_def spec_tag_def kept_generation_def [abs_def])

text \<open>A change of what a tag refers to, other than a request to start over with its generation.\<close>

definition source_changed :: "tag_reference \<Rightarrow> tag_reference \<Rightarrow> string \<Rightarrow> bool" where
  "source_changed old new streamNamespace =
     tagRefChanged (old\<lparr>tr_Generation := None\<rparr>) (new\<lparr>tr_Generation := None\<rparr>) streamNamespace"

lemma tagRefChanged_source:
  "tagRefChanged old new ns \<longleftrightarrow> source_changed old new ns \<or>
     (\<exists>f. tr_From new = Some f \<and> (or_kind f \<noteq> [] \<or> or_name f \<noteq> [])) \<and> tagRefGenerationChanged old new"
  by (auto simp: tagRefChanged_def source_changed_def tagRefGenerationChanged_def Let_def split: option.split)

lemma source_changed_generation [simp]: "source_changed (old\<lparr>tr_Generation := g\<rparr>) (new\<lparr>tr_Generation := h\<rparr>) = source_changed old new"
  "source_changed old (new\<lparr>tr_Generation := h\<rparr>) = source_changed old new"
  by (simp_all add: source_changed_def fun_eq_iff)

lemma same_source: "tr_From old = tr_From new \<Longrightarrow> \<not> source_changed old new ns"
  by (auto simp: source_changed_def tagRefChanged_def tagRefGenerationChanged_def split: option.split)

definition ensured_generation :: "image_stream \<Rightarrow> image_stream \<Rightarrow> string \<Rightarrow> tag_reference \<Rightarrow> tag_reference" where
  "ensured_generation s old t r =
     (let changed = (case spec_tag old t of
                       None \<Rightarrow> True | Some oldRef \<Rightarrow> tagRefChanged oldRef r (is_Namespace s));
          g = (if changed then None else tr_Generation r)
      in if g \<noteq> None \<and> g \<noteq> Some 0 then r\<lparr>tr_Generation := g\<rparr>
         else r\<lparr>tr_Generation := Some (is_Generation s)\<rparr>)"

lemma ensureSpec_tag:
  "spec_tag (ensureSpecTagGenerationsAreSet s old) t = map_option (ensured_generation s old t) (spec_tag s t)"
  "map fst (is_SpecTags (ensureSpecTagGenerationsAreSet s old)) = map fst (is_SpecTags s)"
  using map_of_map_values [of "ensured_generation s old" "is_SpecTags s" t]
    map_fst_values [of "ensured_generation s old" "is_SpecTags s"]
  by (simp_all add: ensureSpecTagGenerationsAreSet_def spec_tag_def ensured_generation_def [abs_def] del: not_None_eq)

lemma ensureSpec_fields [simp]:
  "is_Generation (ensureSpecTagGenerationsAreSet s old) = is_Generation s"
  "is_Namespace (ensureSpecTagGenerationsAreSet s old) = is_Namespace s"
  "is_StatusTags (ensureSpecTagGenerationsAreSet s old) = is_StatusTags s"
  by (simp_all add: ensureSpecTagGenerationsAreSet_def)

lemma updateSpec_fields [simp]:
  "is_Generation (updateSpecTagGenerationsForUpdate s old) = is_Generation s"
  "is_Namespace (updateSpecTagGenerationsForUpdate s old) = is_Namespace s"
  "is_StatusTags (updateSpecTagGenerationsForUpdate s old) = is_StatusTags s"
  "is_SpecRepository (updateSpecTagGenerationsForUpdate s old) = is_SpecRepository s"
  by (simp_all add: updateSpecTagGenerationsForUpdate_def)

lemma dockerImageRepository_fields:
  assumes "dockerImageRepository env s = (repository, s')"
  shows "is_SpecTags s' = is_SpecTags s" "is_Generation s' = is_Generation s" "is_StatusTags s' = is_StatusTags s"
    "is_Name s' = is_Name s"
  using assms by (auto simp: dockerImageRepository_def Let_def split: option.splits)

text \<open>The tags of an update, its generation and its status.\<close>

lemma prepareForUpdate_facts:
  assumes "prepareForUpdate env resetStatus s old = s'"
  obtains s4 where "\<And>t. spec_tag s4 t = map_option (kept_generation old t) (spec_tag s t)"
    "is_Generation s' = (if \<not> specs_equal old s4 \<or> is_Generation old = 0 then is_Generation old + 1 else is_Generation old)"
    "\<And>t. spec_tag s' t = map_option (ensured_generation s' old t) (spec_tag s4 t)"
    "map fst (is_SpecTags s') = map fst (is_SpecTags s)"
    "is_StatusTags s' = (if resetStatus then is_StatusTags old else is_StatusTags s)"
proof -
  define s1 where "s1 = s\<lparr>is_Generation := is_Generation old\<rparr>"
  define s2 where "s2 = (if resetStatus
    then s1\<lparr>is_StatusRepository := is_StatusRepository old, is_StatusTags := is_StatusTags old\<rparr> else s1)"
  have s2: "is_SpecTags s2 = is_SpecTags s" "is_Generation s2 = is_Generation old"
    "is_StatusTags s2 = (if resetStatus then is_StatusTags old else is_StatusTags s)"
    by (simp_all add: s2_def s1_def)
  obtain repository s3 where s3: "dockerImageRepository env s2 = (repository, s3)" by (cases "dockerImageRepository env s2")
  note f3 = dockerImageRepository_fields [OF s3]
  define s4 where "s4 = updateSpecTagGenerationsForUpdate (s3\<lparr>is_StatusRepository := repository\<rparr>) old"
  have tags4: "spec_tag s4 t = map_option (kept_generation old t) (spec_tag s t)" for t
    using f3(1) s2(1) unfolding s4_def updateSpec_tag by (simp add: spec_tag_def)
  have f4: "is_Generation s4 = is_Generation old" "map fst (is_SpecTags s4) = map fst (is_SpecTags s)"
    "is_StatusTags s4 = (if resetStatus then is_StatusTags old else is_StatusTags s)"
    using f3 s2 by (simp_all add: s4_def updateSpec_tag(2))
  define s5 where "s5 = (if \<not> specs_equal old s4 \<or> is_Generation s4 = 0
    then s4\<lparr>is_Generation := is_Generation old + 1\<rparr> else s4)"
  have f5: "is_SpecTags s5 = is_SpecTags s4" "is_StatusTags s5 = is_StatusTags s4"
    "is_Generation s5 = (if \<not> specs_equal old s4 \<or> is_Generation old = 0 then is_Generation old + 1 else is_Generation old)"
    using f4(1) by (simp_all add: s5_def)
  have s': "s' = ensureSpecTagGenerationsAreSet s5 old"
    using assms [symmetric]
    unfolding prepareForUpdate_def Let_def s1_def [symmetric] s2_def [symmetric] s3 prod.case s4_def [symmetric]
      s5_def [symmetric] .
  have "ensured_generation s' old = ensured_generation s5 old"
    unfolding s' ensured_generation_def [abs_def] ensureSpec_fields ..
  then have tags': "spec_tag s' t = map_option (ensured_generation s' old t) (spec_tag s4 t)" for t
    unfolding s' ensureSpec_tag using f5(1) by (simp add: spec_tag_def)
  show thesis
    by (rule that [OF tags4 _ tags']) (simp_all add: s' f5 f4 ensureSpec_tag(2))
qed

lemma specs_equal_tag:
  assumes "specs_equal a b"
  shows "(case (spec_tag a t, spec_tag b t) of
    (Some x, Some y) \<Rightarrow> tr_From x = tr_From y \<and> tr_Generation x = tr_Generation y | (None, None) \<Rightarrow> True | _ \<Rightarrow> False)"
proof (cases "t \<in> fst ` set (is_SpecTags a) \<union> fst ` set (is_SpecTags b)")
  case True
  then have "case (map_of (is_SpecTags a) t, map_of (is_SpecTags b) t) of
      (Some x, Some y) \<Rightarrow> tag_references_equal x y | (None, None) \<Rightarrow> True | _ \<Rightarrow> False"
    using assms by (auto simp: specs_equal_def maps_equal_def list_all_iff)
  moreover have "tr_From x = tr_From y \<and> tr_Generation x = tr_Generation y" if "tag_references_equal x y" for x y
    using that by (cases x; cases y) (simp add: tag_references_equal_def)
  ultimately show ?thesis by (auto simp: spec_tag_def split: option.splits)
next
  case False
  then have "map_of (is_SpecTags a) t = None" "map_of (is_SpecTags b) t = None" by (simp_all add: map_of_eq_None_iff)
  then show ?thesis by (simp add: spec_tag_def)
qed

text \<open>The generation of a tag after the preparation.\<close>

definition starts_over :: "image_stream \<Rightarrow> string \<Rightarrow> string \<Rightarrow> tag_reference \<Rightarrow> bool" where
  "starts_over old ns t r \<longleftrightarrow>
     (case spec_tag old t of None \<Rightarrow> True | Some oldRef \<Rightarrow> tr_Generation r = Some 0 \<or> source_changed oldRef r ns)"

lemma prepared_tag:
  assumes "prepareForUpdate env resetStatus s old = s'" "wf_spec old" "spec_tag s t = Some r"
  obtains g where "spec_tag s' t = Some (r\<lparr>tr_Generation := Some g\<rparr>)"
    "if starts_over old (is_Namespace s') t r then g = is_Generation old + 1 \<and> is_Generation s' = g
     else (\<exists>oldRef. spec_tag old t = Some oldRef \<and> tr_Generation oldRef = Some g)"
proof -
  obtain s4 where tag4: "\<And>t. spec_tag s4 t = map_option (kept_generation old t) (spec_tag s t)"
    and gen: "is_Generation s' =
      (if \<not> specs_equal old s4 \<or> is_Generation old = 0 then is_Generation old + 1 else is_Generation old)"
    and tag': "\<And>t. spec_tag s' t = map_option (ensured_generation s' old t) (spec_tag s4 t)"
    using prepareForUpdate_facts [OF assms(1)] by metis
  define r4 where "r4 = kept_generation old t r"
  have r4: "spec_tag s4 t = Some r4" "spec_tag s' t = Some (ensured_generation s' old t r4)"
    using tag4 [of t] tag' [of t] assms(3) by (simp_all add: r4_def)
  have same: "tr_From r4 = tr_From r" "r4\<lparr>tr_Generation := g\<rparr> = r\<lparr>tr_Generation := g\<rparr>" for g
    by (simp_all add: r4_def kept_generation_def split: option.split)
  show thesis
  proof (cases "spec_tag old t")
    case None
    then have "\<not> specs_equal old s4" using specs_equal_tag [of old s4 t] r4(1) by auto
    then show thesis
      using that [of "is_Generation old + 1"] None gen r4(2) same(2) by (simp add: ensured_generation_def starts_over_def)
  next
    case (Some oldRef)
    obtain g where g: "tr_Generation oldRef = Some g" "0 < g" using assms(2) Some by (auto simp: wf_spec_def)
    show thesis
    proof (cases "starts_over old (is_Namespace s') t r")
      case True
      have "\<not> specs_equal old s4"
      proof
        assume "specs_equal old s4"
        then have eq: "tr_From oldRef = tr_From r" "tr_Generation r4 = Some g"
          using specs_equal_tag [of old s4 t] Some r4(1) g(1) same(1) by auto
        then show False using True Some g(2) same_source [of oldRef r] by (auto simp: starts_over_def r4_def kept_generation_def)
      qed
      then have G: "is_Generation s' = is_Generation old + 1" using gen by simp
      have "tr_Generation r4 = Some 0 \<or> tagRefChanged oldRef r4 (is_Namespace s')"
      proof (cases "tr_Generation r = Some 0")
        case False
        then have "source_changed oldRef r4 (is_Namespace s')" using True Some by (simp add: starts_over_def r4_def kept_generation_def)
        then show ?thesis by (simp add: tagRefChanged_source)
      qed (simp add: r4_def kept_generation_def)
      then have "ensured_generation s' old t r4 = r\<lparr>tr_Generation := Some (is_Generation old + 1)\<rparr>"
        using Some G same(2) by (auto simp: ensured_generation_def)
      then show thesis using that [of "is_Generation old + 1"] r4(2) True G by simp
    next
      case False
      then have r4': "r4 = r\<lparr>tr_Generation := Some g\<rparr>" using Some g(1) by (simp add: starts_over_def r4_def kept_generation_def)
      have "\<not> tagRefChanged oldRef r4 (is_Namespace s')"
        using False Some g by (simp add: starts_over_def r4' tagRefChanged_source tagRefGenerationChanged_def)
      then have "ensured_generation s' old t r4 = r\<lparr>tr_Generation := Some g\<rparr>"
        using Some g(2) by (simp add: ensured_generation_def r4')
      then show thesis using that [of g] r4(2) False Some g(1) by simp
    qed
  qed
qed

section \<open>Writes that succeed\<close>

lemma validate_result:
  "validateTagsAndLimits env user ctxNamespace orders oldTags oldStatus s = (s', None) \<longleftrightarrow>
     (\<exists>u. user = Some u \<and> tagsChanged env orders oldTags oldStatus s = (s', []) \<and> Verify env u oldTags s = [] \<and>
       env_VerifyLimits env (case ctxNamespace of None \<Rightarrow> is_Namespace s' | Some ns \<Rightarrow> ns) s' = None)"
  by (cases user; cases "tagsChanged env orders oldTags oldStatus s")
    (auto simp: validateTagsAndLimits_def Let_def)

lemma finish_write_result: "finish_write w = Inr s' \<longleftrightarrow> w = (s', [])"
  by (cases w) (auto simp: finish_write_def)

lemma option_errors_Nil [simp]: "option_errors e = [] \<longleftrightarrow> e = None"
  by (simp add: option_errors_def split: option.split)

lemma update_stream_result:
  "update_stream env resetStatus user ctxNamespace orders s old = Inr s' \<longleftrightarrow>
     validateTagsAndLimits env user ctxNamespace orders (is_SpecTags old) (status_after_prepare resetStatus old)
       (fill_uid (prepareForUpdate env resetStatus s old) old) = (s', None) \<and> ValidateImageStreamUpdate s' old = []"
  by (auto simp: update_stream_def finish_write_result stream_ValidateUpdate_def split: prod.splits)

lemma create_stream_result:
  "create_stream env user ctxNamespace orders s = Inr s' \<longleftrightarrow>
     validateTagsAndLimits env user ctxNamespace orders [] NoOld (PrepareForCreate env s) = (s', None) \<and>
     ValidateImageStream s' = []"
  by (auto simp: create_stream_def finish_write_result stream_Validate_def split: prod.splits)

lemma fill_uid_fields [simp]:
  "is_SpecTags (fill_uid s old) = is_SpecTags s" "is_Generation (fill_uid s old) = is_Generation s"
  "is_Namespace (fill_uid s old) = is_Namespace s" "is_Name (fill_uid s old) = is_Name s"
  "history (fill_uid s old) = history s" "spec_tag (fill_uid s old) = spec_tag s"
  "is_StatusTags (fill_uid s old) = is_StatusTags s"
  by (simp_all add: fill_uid_def history_def status_tag_def status_tags_def spec_tag_def fun_eq_iff)

lemma wf_status_cong: "history s = history s' \<Longrightarrow> is_Generation s' \<le> is_Generation s \<Longrightarrow> wf_status s' \<Longrightarrow> wf_status s"
  unfolding wf_status_def by (metis order_trans)

lemma history_status: "is_StatusTags s = is_StatusTags s' \<Longrightarrow> history s = history s'"
  by (simp add: history_def status_tag_def status_tags_def fun_eq_iff)

lemma wf_spec_generation:
  assumes "wf_spec s" "spec_tag s t = Some r" "tr_Generation r = Some g"
  shows "0 < g \<and> g \<le> is_Generation s"
proof -
  obtain h where "tr_Generation r = Some h" "0 < h" "h \<le> is_Generation s" using assms(1,2) unfolding wf_spec_def by blast
  then show ?thesis using assms(3) by simp
qed

text \<open>The tags of an update are those of the preparation: \<open>tagsChanged\<close> sets generations that are set.\<close>

lemma prepared_changed_generation:
  assumes "prepareForUpdate env resetStatus s old = s5" "wf_spec old" "spec_tag s5 t = Some r5"
    "\<not> reference_unchanged (is_SpecTags old) t r5 (is_Namespace s5)"
  shows "tr_Generation r5 = Some (is_Generation s5)"
proof -
  obtain r where r: "spec_tag s t = Some r"
    using prepareForUpdate_facts [OF assms(1)] assms(3)
    by (metis (no_types, lifting) map_option_is_None not_None_eq option.distinct(1))
  obtain g where g: "spec_tag s5 t = Some (r\<lparr>tr_Generation := Some g\<rparr>)"
    "if starts_over old (is_Namespace s5) t r then g = is_Generation old + 1 \<and> is_Generation s5 = g
     else (\<exists>oldRef. spec_tag old t = Some oldRef \<and> tr_Generation oldRef = Some g)"
    by (rule prepared_tag [OF assms(1,2) r])
  have r5: "r5 = r\<lparr>tr_Generation := Some g\<rparr>" using g(1) assms(3) by simp
  have pos: "0 < g"
  proof (cases "starts_over old (is_Namespace s5) t r")
    case True
    then show ?thesis using g(2) assms(2) by (simp add: wf_spec_def)
  qed (use g(2) wf_spec_generation [OF assms(2)] in auto)
  have "starts_over old (is_Namespace s5) t r"
  proof (cases "spec_tag old t")
    case (Some oldRef)
    then have "tagRefChanged oldRef r5 (is_Namespace s5)" using assms(4) by (simp add: reference_unchanged_def spec_tag_def)
    then have "source_changed oldRef r (is_Namespace s5)"
      using pos by (simp add: tagRefChanged_source r5 tagRefGenerationChanged_def split: option.splits)
    then show ?thesis using Some by (simp add: starts_over_def)
  qed (simp add: starts_over_def)
  then show ?thesis using g(2) r5 by simp
qed

lemma refreshed_prepared:
  assumes "prepareForUpdate env resetStatus s old = s5" "wf_spec old" "spec_refreshed (is_SpecTags old) s5 s6"
  shows "spec_tag s6 t = spec_tag s5 t"
proof (cases "spec_tag s5 t")
  case None
  then show ?thesis using assms(3) by (auto simp: spec_refreshed_def dest!: spec [of _ t])
next
  case (Some r5)
  show ?thesis
  proof (cases "spec_tag s6 t = Some r5")
    case False
    then have "\<not> reference_unchanged (is_SpecTags old) t r5 (is_Namespace s5)"
      "spec_tag s6 t = Some (r5\<lparr>tr_Generation := Some (is_Generation s5)\<rparr>)"
      using spec_refreshed_tag [OF assms(3) Some] by auto
    moreover have "r5\<lparr>tr_Generation := Some (is_Generation s5)\<rparr> = r5"
      using prepared_changed_generation [OF assms(1,2) Some calculation(1)] by (cases r5) simp
    ultimately show ?thesis using Some by simp
  qed (simp add: Some)
qed

lemma update_stream_parts:
  assumes "update_stream env resetStatus user ctxNamespace orders s old = Inr s'"
  obtains u s5 where "user = Some u" "prepareForUpdate env resetStatus s old = s5"
    "tagsChanged env orders (is_SpecTags old) (status_after_prepare resetStatus old) (fill_uid s5 old) = (s', [])"
    "Verify env u (is_SpecTags old) (fill_uid s5 old) = []"
  using assms unfolding update_stream_result validate_result by blast

lemma spec_refreshed_fill: "spec_refreshed oldTags (fill_uid s old) s' = spec_refreshed oldTags s s'"
  unfolding spec_refreshed_def fill_uid_fields ..

lemma prepared_generation:
  assumes "prepareForUpdate env resetStatus s old = s5"
  shows "is_Generation old \<le> is_Generation s5" "is_Generation s5 \<le> is_Generation old + 1"
proof -
  obtain s4 where "is_Generation s5 =
      (if \<not> specs_equal old s4 \<or> is_Generation old = 0 then is_Generation old + 1 else is_Generation old)"
    using prepareForUpdate_facts [OF assms] by metis
  then show "is_Generation old \<le> is_Generation s5" "is_Generation s5 \<le> is_Generation old + 1" by (simp_all split: if_splits)
qed

lemma prepared_history:
  assumes "prepareForUpdate env resetStatus s old = s5"
  shows "history s5 = history (if resetStatus then old else s)"
proof -
  have "is_StatusTags s5 = (if resetStatus then is_StatusTags old else is_StatusTags s)"
    by (rule prepareForUpdate_facts [OF assms])
  then show ?thesis by (intro history_status) simp
qed

lemma update_stream_tags:
  assumes "update_stream env resetStatus user ctxNamespace orders s old = Inr s'" "wf_spec old"
  obtains s5 where "prepareForUpdate env resetStatus s old = s5" "\<And>t. spec_tag s' t = spec_tag s5 t"
    "map fst (is_SpecTags s') = map fst (is_SpecTags s)" "is_Generation s' = is_Generation s5"
    "is_Namespace s' = is_Namespace s5"
    "\<And>g. bounded_events (if resetStatus then old else s) g \<Longrightarrow> is_Generation s' \<le> g \<Longrightarrow> bounded_events s' g"
proof -
  obtain u s5 where s5: "prepareForUpdate env resetStatus s old = s5" and
    t: "tagsChanged env orders (is_SpecTags old) (status_after_prepare resetStatus old) (fill_uid s5 old) = (s', [])"
    using update_stream_parts [OF assms(1)] by metis
  note c = tagsChanged_frame [OF t, unfolded same_frame_def]
  have tags: "spec_tag s' x = spec_tag s5 x" for x
    using refreshed_prepared [OF s5 assms(2)] c spec_refreshed_fill by blast
  have keys: "map fst (is_SpecTags s') = map fst (is_SpecTags s5)" using c by (simp add: spec_refreshed_def)
  also have "\<dots> = map fst (is_SpecTags s)" using prepareForUpdate_facts [OF s5] by metis
  finally have keys: "map fst (is_SpecTags s') = map fst (is_SpecTags s)" .
  have "bounded_events s' g" if "bounded_events (if resetStatus then old else s) g" "is_Generation s' \<le> g" for g
  proof (rule tagsChanged_bounded [OF t])
    show "bounded_events (fill_uid s5 old) g"
      using that(1) bounded_events_cong [OF prepared_history [OF s5]] bounded_events_cong [OF fill_uid_fields(5)] by simp
    show "is_Generation (fill_uid s5 old) \<le> g" using that(2) c by simp
  qed
  then show thesis using that [OF s5 tags keys] c by simp
qed

end
