(* ===== verification/Image_Safety.thy ===== *)
theory Image_Safety
  imports Image_Writes
begin

text \<open>
  The claims on writes of image streams.
\<close>

section \<open>Generations\<close>

text \<open>
  C13: users cannot choose generations.  After an update that succeeds, a tag is as submitted except for
  its generation: one that is new, refers to something else or asks to start over has the next
  generation of the stream, and every other tag the generation it had.
\<close>

theorem users_cannot_choose_generations:
  assumes "update_stream env resetStatus user ctxNamespace orders s old = Inr s'" "wf_spec old"
    "spec_tag s t = Some r"
  shows "\<exists>g. spec_tag s' t = Some (r\<lparr>tr_Generation := Some g\<rparr>) \<and>
    (if starts_over old (is_Namespace s') t r then g = is_Generation old + 1 \<and> is_Generation s' = g
     else (\<exists>oldRef. spec_tag old t = Some oldRef \<and> tr_Generation oldRef = Some g))"
proof -
  obtain s5 where s5: "prepareForUpdate env resetStatus s old = s5" "\<And>t. spec_tag s' t = spec_tag s5 t"
    "is_Generation s' = is_Generation s5" "is_Namespace s' = is_Namespace s5"
    using update_stream_tags [OF assms(1,2)] by metis
  from prepared_tag [OF s5(1) assms(2,3)] show ?thesis unfolding s5(2-4) by metis
qed










end
