(* ===== verification/Image_Secrecy.thy ===== *)
theory Image_Secrecy
  imports Image_Safety
begin

text \<open>
  A write shows nothing of the streams that the user may not pull from, and keeps the images of the tags
  that it does not change, whatever they track.
\<close>

section \<open>Streams of other namespaces\<close>

lemma verify_tag_ok:
  assumes "verify_tag env u oldTags s (t, r) = []" "tr_From r = Some f"
    "\<not> reference_unchanged oldTags t r (is_Namespace s)" "ref_namespace f (is_Namespace s) \<noteq> is_Namespace s"
    "parseFromReference s f = Inr (streamName, tagOrID)"
  shows "may_pull env u (ref_namespace f (is_Namespace s)) streamName"
  using assms by (auto simp: verify_tag_def ref_namespace_def split: if_splits)

lemma env_fields:
  "env_DefaultRegistry (env\<lparr>env_Get := get'\<rparr>) = env_DefaultRegistry env"
  "may_pull (env\<lparr>env_Get := get'\<rparr>) = may_pull env"
  "env_Now (env\<lparr>env_Get := get'\<rparr>) = env_Now env" "env_Get (env\<lparr>env_Get := get'\<rparr>) = get'"
  by (simp_all add: may_pull_def fun_eq_iff)

lemma changed_tag_event_agree:
  assumes "\<And>streamName tagOrID. parseFromReference s f = Inr (streamName, tagOrID) \<Longrightarrow>
    get' (ref_namespace f (is_Namespace s)) streamName = env_Get env (ref_namespace f (is_Namespace s)) streamName"
  shows "changed_tag_event (env\<lparr>env_Get := get'\<rparr>) orders tag s r f = changed_tag_event env orders tag s r f"
proof -
  have loc: "localize_event (env\<lparr>env_Get := get'\<rparr>) = localize_event env"
    by (intro ext) (simp only: localize_event_def env_fields)
  show ?thesis
  proof (cases "parseFromReference s f")
    case (Inr p)
    obtain n i where p: "p = (n, i)" by (cases p)
    have g: "get' (ref_namespace f (is_Namespace s)) n = env_Get env (ref_namespace f (is_Namespace s)) n"
      using assms Inr p by simp
    show ?thesis by (simp only: changed_tag_event_def Let_def env_fields loc Inr p sum.case prod.case g)
  qed (simp only: changed_tag_event_def env_fields sum.case)
qed

text \<open>A getter that agrees on the streams of a namespace and on those the user may pull from.\<close>

definition agrees_for ::
  "stream_env \<Rightarrow> user_info \<Rightarrow> string \<Rightarrow> (string \<Rightarrow> string \<Rightarrow> go_error + image_stream) \<Rightarrow> bool" where
  "agrees_for env u own get' \<longleftrightarrow>
     (\<forall>namespace name. namespace = own \<or> may_pull env u namespace name \<longrightarrow>
        get' namespace name = env_Get env namespace name)"

lemma tag_changed_agree:
  assumes "agrees_for env u (is_Namespace s) get'" "Verify env u oldTags s5 = []" "spec_refreshed oldTags s5 s"
    "is_Name s = is_Name s5" "is_Namespace s = is_Namespace s5"
  shows "tag_changed (env\<lparr>env_Get := get'\<rparr>) orders oldTags tag s = tag_changed env orders oldTags tag s"
proof (cases "spec_tag s tag")
  case (Some r)
  show ?thesis
  proof (cases "reference_unchanged oldTags tag r (is_Namespace s) \<or> tr_From r = None")
    case False
    then obtain f where f: "tr_From r = Some f" and ch: "\<not> reference_unchanged oldTags tag r (is_Namespace s)" by auto
    obtain r5 where r5: "spec_tag s5 tag = Some r5"
      "r = r5 \<or> \<not> reference_unchanged oldTags tag r5 (is_Namespace s5) \<and> r = r5\<lparr>tr_Generation := Some (is_Generation s5)\<rparr>"
      by (rule spec_refreshed_back [OF assms(3) Some])
    have from5: "tr_From r5 = Some f" "\<not> reference_unchanged oldTags tag r5 (is_Namespace s5)"
      using r5(2) f ch assms(5) by auto
    have "(tag, r5) \<in> set (is_SpecTags s5)" using r5(1) by (auto simp: spec_tag_def dest: map_of_SomeD)
    then have v: "verify_tag env u oldTags s5 (tag, r5) = []" using assms(2) by (auto simp: Verify_def)
    have "get' (ref_namespace f (is_Namespace s)) n = env_Get env (ref_namespace f (is_Namespace s)) n"
      if p: "parseFromReference s f = Inr (n, i)" for n i
    proof (cases "ref_namespace f (is_Namespace s) = is_Namespace s")
      case True
      then show ?thesis using assms(1) by (simp add: agrees_for_def)
    next
      case False
      have "parseFromReference s5 f = Inr (n, i)" using p by (simp only: parseFromReference_def assms(4))
      from verify_tag_ok [OF v from5 _ this] False have "may_pull env u (ref_namespace f (is_Namespace s)) n"
        using assms(5) by simp
      then show ?thesis using assms(1) by (simp add: agrees_for_def)
    qed
    then have "changed_tag_event (env\<lparr>env_Get := get'\<rparr>) orders tag s r' f = changed_tag_event env orders tag s r' f" for r'
      by (rule changed_tag_event_agree)
    then show ?thesis using Some f ch by (simp add: tag_changed_def Let_def)
  qed (auto simp: tag_changed_def Some)
qed (simp add: tag_changed_def)

lemma tags_changed_agree:
  assumes "Verify env u oldTags s5 = []"
  shows "agrees_for env u (is_Namespace s) get' \<Longrightarrow> spec_refreshed oldTags s5 s \<Longrightarrow> is_Name s = is_Name s5 \<Longrightarrow>
    is_Namespace s = is_Namespace s5 \<Longrightarrow> is_Generation s = is_Generation s5 \<Longrightarrow>
    tags_changed_loop (env\<lparr>env_Get := get'\<rparr>) orders oldTags tags s = tags_changed_loop env orders oldTags tags s"
proof (induction tags arbitrary: s)
  case (Cons tag tags)
  obtain s1 errs where s1: "tag_changed env orders oldTags tag s = (s1, errs)" by (cases "tag_changed env orders oldTags tag s")
  note fr = tag_changed_frame [of oldTags s env orders tag, unfolded s1 fst_conv same_frame_def]
  have "spec_refreshed oldTags s5 s1" using spec_refreshed_trans [OF Cons.prems(2), of s1] fr Cons.prems by simp
  then have IH: "tags_changed_loop (env\<lparr>env_Get := get'\<rparr>) orders oldTags tags s1 = tags_changed_loop env orders oldTags tags s1"
    using Cons.IH [of s1] Cons.prems fr by simp
  have eq: "tag_changed (env\<lparr>env_Get := get'\<rparr>) orders oldTags tag s = (s1, errs)"
    using tag_changed_agree [OF Cons.prems(1) assms Cons.prems(2-4)] s1 by simp
  show ?case by (simp only: tags_changed_loop.simps eq s1 prod.case IH)
qed simp

lemma validate_agree:
  assumes "validateTagsAndLimits env (Some u) ctxNamespace orders oldTags oldStatus s = (s', None)"
    "agrees_for env u (is_Namespace s) get'"
  shows "validateTagsAndLimits (env\<lparr>env_Get := get'\<rparr>) (Some u) ctxNamespace orders oldTags oldStatus s = (s', None)"
proof -
  have v: "Verify env u oldTags s = []" and t: "tagsChanged env orders oldTags oldStatus s = (s', [])" and
    l: "env_VerifyLimits env (case ctxNamespace of None \<Rightarrow> is_Namespace s' | Some ns \<Rightarrow> ns) s' = None"
    using assms(1) unfolding validate_result by auto
  have "tagsChanged (env\<lparr>env_Get := get'\<rparr>) orders oldTags oldStatus s = (s', [])"
    using t tags_changed_agree [OF v assms(2), of orders "ro_Spec orders"] by (simp add: tagsChanged_def)
  moreover have "Verify (env\<lparr>env_Get := get'\<rparr>) u oldTags s = []"
    using v by (simp only: Verify_def verify_tag_def env_fields)
  ultimately show ?thesis using l unfolding validate_result by simp
qed

lemma prepare_agree [simp]:
  "prepareForUpdate (env\<lparr>env_Get := get'\<rparr>) = prepareForUpdate env" "PrepareForCreate (env\<lparr>env_Get := get'\<rparr>) = PrepareForCreate env"
  by (intro ext; simp add: prepareForUpdate_def PrepareForCreate_def dockerImageRepository_def)+

text \<open>
  C12: a write that succeeds shows its user nothing of foreign streams.  Whatever the streams are that the
  user may not pull from, in other namespaces than the written stream, the same write gives the same
  stream.
\<close>

theorem writes_read_only_what_the_user_may_pull:
  assumes "agrees_for env u (is_Namespace s') get'"
  shows "(update_stream env resetStatus (Some u) ctxNamespace orders s old = Inr s' \<longrightarrow>
      update_stream (env\<lparr>env_Get := get'\<rparr>) resetStatus (Some u) ctxNamespace orders s old = Inr s') \<and>
    (create_stream env (Some u) ctxNamespace orders s = Inr s' \<longrightarrow>
      create_stream (env\<lparr>env_Get := get'\<rparr>) (Some u) ctxNamespace orders s = Inr s')"
proof -
  have ns: "is_Namespace s1 = is_Namespace s'"
    if v: "validateTagsAndLimits env (Some u) ctxNamespace orders oldTags oldStatus s1 = (s', None)" for s1 oldTags oldStatus
  proof -
    have t: "tagsChanged env orders oldTags oldStatus s1 = (s', [])" using v unfolding validate_result by blast
    show ?thesis using framed.changed_result [OF t, of s1] by (simp add: same_frame_def)
  qed
  show ?thesis
    using validate_agree assms ns unfolding update_stream_result create_stream_result prepare_agree by metis
qed

section \<open>Tags that an update leaves alone\<close>

definition images_of :: "image_stream \<Rightarrow> string \<Rightarrow> string list" where
  "images_of s t = map te_Image (tl_Items (history s t))"

lemma set_latest_images:
  assumes "LatestTaggedImage s source = Some e0" "te_Image e = te_Image e0"
  shows "images_of (set_latest (default_tag source) e s) t = images_of s t"
proof -
  obtain es where "tl_Items (history s (default_tag source)) = e0 # es"
    using assms(1) by (auto simp: LatestTaggedImage_def history_def split: option.splits list.splits)
  then show ?thesis using assms(2) by (simp add: images_of_def set_latest_def)
qed

definition tag_kept :: "(string \<times> tag_reference) list \<Rightarrow> image_stream \<Rightarrow> string \<Rightarrow> bool" where
  "tag_kept oldTags s t \<longleftrightarrow> (\<forall>r. spec_tag s t = Some r \<longrightarrow> reference_unchanged oldTags t r (is_Namespace s))"

lemma tag_changed_images:
  assumes "tag_changed env orders oldTags tag s = (s', errs)" "tag_kept oldTags s t"
  shows "images_of s' t = images_of s t"
  using assms(1)
proof (cases rule: tag_changed_elim)
  case (event r f e target)
  have t: "t \<noteq> tag" using event(1,3) assms(2) by (auto simp: tag_kept_def)
  define s1 where "s1 = (case target of None \<Rightarrow> s | Some t \<Rightarrow> set_latest t e s)"
  define s2 where "s2 = set_spec_tag tag (r\<lparr>tr_Generation := Some (is_Generation s)\<rparr>) s1"
  obtain added where a: "AddTagEventToImageStream s2 tag e = (s', added)"
    using event(6) unfolding s1_def [symmetric] s2_def [symmetric] by (metis prod.collapse)
  have "images_of s' t = images_of s1 t"
    using AddTagEvent_other [OF a t] by (simp add: images_of_def s2_def)
  also have "\<dots> = images_of s t"
  proof (cases target)
    case (Some x)
    then obtain source e0 where "x = default_tag source" "LatestTaggedImage s source = Some e0" "te_Image e = te_Image e0"
      using event(5) by blast
    then show ?thesis using set_latest_images Some by (simp add: s1_def)
  qed (simp add: s1_def)
  finally show ?thesis .
qed simp

lemma tag_kept_refreshed:
  "tag_kept oldTags s t \<Longrightarrow> spec_refreshed oldTags s s' \<Longrightarrow> is_Namespace s' = is_Namespace s \<Longrightarrow> tag_kept oldTags s' t"
  unfolding tag_kept_def by (metis spec_refreshed_back)

text \<open>What the events of changed tags do to a tag that is kept: its images stay.\<close>

interpretation kept: tag_invariant "\<lambda>s. tag_kept oldTags s t \<and> images_of s t = xs" env orders oldTags
  for t xs env orders oldTags
proof
  show "tag_kept oldTags (fst (tag_changed env orders oldTags tag s)) t \<and> images_of (fst (tag_changed env orders oldTags tag s)) t = xs"
    if "tag_kept oldTags s t \<and> images_of s t = xs" for tag s
    using that tag_changed_frame [of oldTags s env orders tag] tag_kept_refreshed [of oldTags s t]
      tag_changed_images [of env orders oldTags tag s _ _ t] by (metis prod.collapse same_frame_def)
qed

text \<open>
  Tags closed under tracking: a tag of the set tracks only tags of the set.  Carrying the events of
  tags outside over to the tags that track them leaves the set alone, and tags without events carry
  nothing.
\<close>

definition tracks_within :: "image_stream \<Rightarrow> string set \<Rightarrow> bool" where
  "tracks_within s K \<longleftrightarrow> (\<forall>(x, r) \<in> set (is_SpecTags s). x \<in> K \<longrightarrow> (\<forall>y. tracks_tag s r y \<longrightarrow> y \<in> K))"

lemma tracks_AddTagEvent: "tracks_tag (fst (AddTagEventToImageStream s t e)) = tracks_tag s"
  by (intro ext) (simp only: tracks_tag_def AddTagEvent_fields)

lemma tracking_loop_spares:
  "\<forall>(x, r) \<in> set rs. x \<in> K \<longrightarrow> \<not> tracks_tag s r tag \<Longrightarrow> t \<in> K \<Longrightarrow>
   history (fst (UpdateTracking_loop tag e rs (s, n))) t = history s t \<and>
   tracks_within (fst (UpdateTracking_loop tag e rs (s, n))) K = tracks_within s K"
proof (induction tag e rs "(s, n)" arbitrary: s n rule: UpdateTracking_loop.induct)
  case (2 tag e x r rest s n)
  obtain s1 added where a: "AddTagEventToImageStream s x e = (s1, added)" by (cases "AddTagEventToImageStream s x e")
  have f: "tracks_tag s1 = tracks_tag s" "is_SpecTags s1 = is_SpecTags s"
    using tracks_AddTagEvent [of s x e] AddTagEvent_fields(1) [of s x e] a by simp_all
  then have "tracks_within s1 K = tracks_within s K" by (simp add: tracks_within_def)
  moreover have "history s1 t = history s t" if "tracks_tag s r tag"
    using AddTagEvent_other_tag [of t x s e] a "2.prems" that by auto
  ultimately show ?case using 2 a f by auto
qed simp

lemma changed_tracking_spares:
  "\<forall>x \<in> K. tl_Items (history s x) = [] \<Longrightarrow> tracks_within s K \<Longrightarrow> t \<in> K \<Longrightarrow>
   history (fst (UpdateChangedTrackingTags old order s)) t = history s t"
proof (induction order arbitrary: s)
  case (Cons tag order)
  show ?case
  proof (cases "tl_Items (history s tag)")
    case (Cons e es)
    then have tag: "tag \<notin> K" using Cons.prems(1) by auto
    then have "\<forall>(x, r) \<in> set (is_SpecTags s). x \<in> K \<longrightarrow> \<not> tracks_tag s r tag"
      using Cons.prems(2) by (auto simp: tracks_within_def)
    note spared = tracking_loop_spares [OF this]
    obtain s1 n where s1: "UpdateTrackingTags s tag e = (s1, n)" by (cases "UpdateTrackingTags s tag e")
    have h: "history s1 x = history s x" "tracks_within s1 K" if "x \<in> K" for x
      using spared [OF that, of e 0] s1 Cons.prems(2) by (simp_all add: UpdateTrackingTags_def)
    then have "history (fst (UpdateChangedTrackingTags old order s1)) t = history s1 t"
      using Cons.IH [of s1] Cons.prems(1,3) by simp
    then show ?thesis using Cons.IH [of s] Cons.prems h(1) [OF Cons.prems(3)] s1 Cons
      by (auto simp: Let_def split: prod.splits)
  qed (use Cons in simp)
qed simp

text \<open>The tracking of tags changes the status only.\<close>

interpretation spec_fixed: event_invariant
    "\<lambda>s. is_SpecTags s = tags \<and> is_Name s = name \<and> is_Namespace s = namespace" "\<lambda>_. True"
  for tags name namespace
  by unfold_locales (simp_all add: AddTagEvent_fields)

lemma changed_tracking_tracks:
  "tracks_within (fst (UpdateChangedTrackingTags old order s)) K = tracks_within s K"
proof -
  let ?s' = "fst (UpdateChangedTrackingTags old order s)"
  have f: "is_SpecTags ?s' = is_SpecTags s" "is_Name ?s' = is_Name s" "is_Namespace ?s' = is_Namespace s"
    using spec_fixed.changed_tracking [of s "is_SpecTags s" "is_Name s" "is_Namespace s" old order] by simp_all
  have "tracks_tag ?s' = tracks_tag s" by (intro ext) (simp only: tracks_tag_def f)
  then show ?thesis by (simp only: tracks_within_def f)
qed

lemma unchanged_reference_kept:
  assumes "prepareForUpdate env resetStatus s old = s5" "wf_spec old" "spec_tag s5 t = Some r5"
    "\<And>r. spec_tag s t = Some r \<Longrightarrow> \<exists>oldRef. spec_tag old t = Some oldRef \<and> \<not> source_changed oldRef r (is_Namespace s5)"
  shows "reference_unchanged (is_SpecTags old) t r5 (is_Namespace s5)"
proof (rule ccontr)
  assume changed: "\<not> ?thesis"
  have "\<exists>r. spec_tag s t = Some r"
    by (rule prepareForUpdate_facts [OF assms(1)]) (use assms(3) in \<open>auto simp: map_option_case split: option.splits\<close>)
  then obtain r where r: "spec_tag s t = Some r" ..
  obtain g where g: "spec_tag s5 t = Some (r\<lparr>tr_Generation := Some g\<rparr>)"
    by (rule prepared_tag [OF assms(1,2) r])
  have "0 < is_Generation s5"
    using prepared_generation(1) [OF assms(1)] assms(2) by (simp add: wf_spec_def)
  then have "0 < g"
    using prepared_changed_generation [OF assms(1-3) changed] g assms(3) by simp
  then have "\<not> tagRefChanged oldRef r5 (is_Namespace s5)" if "\<not> source_changed oldRef r (is_Namespace s5)" for oldRef
    using that g(1) assms(3) by (auto simp: tagRefChanged_source tagRefGenerationChanged_def split: option.splits)
  then show False using changed assms(4) [OF r] by (auto simp: reference_unchanged_def spec_tag_def)
qed

lemma empty_status_history: "is_StatusTags s = None \<Longrightarrow> history s t = empty_history"
  by (simp add: history_def status_tag_def status_tags_def)

text \<open>
  C15: an update of a stream by a user changes images only where it has to.  For a set of tags that track
  only tags of the set (through the spec as it is after the update), none of which comes to refer to
  something else, every tag of the set keeps its images, whatever the update changes outside of the set
  and also when the user asks to start the tag over.
\<close>

theorem unchanged_tags_keep_images:
  assumes "update_stream env True user ctxNamespace orders s old = Inr s'" "wf_spec old"
    "\<And>x r. x \<in> K \<Longrightarrow> spec_tag s x = Some r \<Longrightarrow>
      \<exists>oldRef. spec_tag old x = Some oldRef \<and> \<not> source_changed oldRef r (is_Namespace s')"
    "tracks_within s' K" "t \<in> K"
  shows "images_of s' t = images_of old t"
proof -
  obtain u s5 where s5: "prepareForUpdate env True s old = s5" and
    ch: "tagsChanged env orders (is_SpecTags old) (status_after_prepare True old) (fill_uid s5 old) = (s', [])"
    using update_stream_parts [OF assms(1)] by metis
  define s1 where "s1 = fst (tags_changed_loop env orders (is_SpecTags old) (ro_Spec orders) (fill_uid s5 old))"
  have s': "s' = fst (UpdateChangedTrackingTags (status_after_prepare True old) (ro_Status orders) s1)"
    using ch by (auto simp: tagsChanged_def s1_def split: prod.splits)
  have ns: "is_Namespace s' = is_Namespace s5" using tagsChanged_frame [OF ch] by (simp add: same_frame_def)
  have kept: "images_of s1 x = images_of old x" if x: "x \<in> K" for x
  proof -
    have "tag_kept (is_SpecTags old) (fill_uid s5 old) x"
      using unchanged_reference_kept [OF s5 assms(2)] assms(3) [OF x] unfolding ns tag_kept_def fill_uid_fields by blast
    then have "images_of s1 x = images_of (fill_uid s5 old) x" unfolding s1_def using kept.tags by blast
    then show ?thesis using prepared_history [OF s5] by (simp add: images_of_def)
  qed
  have "images_of s' t = images_of s1 t"
  proof (cases "is_StatusTags old")
    case None
    have "tl_Items (history s1 x) = []" if "x \<in> K" for x
      using kept [OF that] None by (simp add: images_of_def empty_status_history empty_history_def)
    moreover have "tracks_within s1 K"
      using assms(4) unfolding s' changed_tracking_tracks .
    ultimately show ?thesis using changed_tracking_spares [OF _ _ assms(5)] by (simp add: images_of_def s')
  qed (simp add: s' status_after_prepare_def shared_old_carries_nothing)
  then show ?thesis using kept [OF assms(5)] by simp
qed

end
