(* ===== verification/Image_Tag_Rest.thy ===== *)
theory Image_Tag_Rest
  imports Image_Secrecy
begin

text \<open>
  Image stream tags (\<open>origin/pkg/image/registry/imagestreamtag\<close>): a tag of a stream as a resource of its
  own, created, updated and deleted by writing the stream.

  An operation answers with the write of the stream that it asks the registry for; the registry of
  streams makes it with \<open>create_stream\<close> of the users' strategy or \<open>update_stream\<close> of the internal one
  (\<open>registry.go\<close>).  Images are left out of the tags.
\<close>

section \<open>Image stream tags\<close>

record image_stream_tag =
  ist_Name :: string
  ist_Namespace :: string
  ist_UID :: string
  ist_ResourceVersion :: string
  ist_CreationTimestamp :: nat
  ist_Annotations :: "(string \<times> string) list"
  ist_Tag :: "tag_reference option"
  ist_Generation :: int
  ist_Conditions :: "tag_event_condition list"
  ist_ImageName :: string
  ist_ImageReference :: string

definition nameAndTag :: "string \<Rightarrow> go_error + string \<times> string" where
  "nameAndTag id' =
     (case ParseImageStreamTagName id' of
        (_, Some _) \<Rightarrow> Inl (BadRequestErr ''ImageStreamTags must be retrieved with <name>:<tag>'' [])
      | (nt, None) \<Rightarrow> Inr nt)"

text \<open>\<open>newISTag\<close> without the fields of the image; its name and reference come from the event.\<close>

definition newISTag :: "string \<Rightarrow> image_stream \<Rightarrow> bool \<Rightarrow> go_error + image_stream_tag" where
  "newISTag tag s allowEmptyEvent =
     (let istagName = JoinImageStreamTag (is_Name s) tag;
          event = (case LatestTaggedImage s tag of
                     Some e \<Rightarrow> if length (te_Image e) = 0 then None else Some e
                   | None \<Rightarrow> None)
      in if event = None \<and> \<not> allowEmptyEvent then Inl (NotFoundErr ''imagestreamtags'' istagName)
         else (let e = (case event of
                          Some x \<Rightarrow> x
                        | None \<Rightarrow> \<lparr>te_Created = is_CreationTimestamp s, te_DockerImageReference = [], te_Image = [],
                                    te_Generation = 0\<rparr>)
               in Inr \<lparr>ist_Name = istagName, ist_Namespace = is_Namespace s, ist_UID = is_UID s,
                       ist_ResourceVersion = is_ResourceVersion s, ist_CreationTimestamp = te_Created e,
                       ist_Annotations = (case spec_tag s tag of None \<Rightarrow> [] | Some r \<Rightarrow> tr_Annotations r),
                       ist_Tag = spec_tag s tag, ist_Generation = te_Generation e,
                       ist_Conditions = tl_Conditions (history s tag), ist_ImageName = te_Image e,
                       ist_ImageReference = te_DockerImageReference e\<rparr>))"

definition ValidateImageStreamTag :: "image_stream_tag \<Rightarrow> go_error list" where
  "ValidateImageStreamTag ist =
     (if ist_Name ist = [] then [Errorf ''metadata.name: Required value'' []] else IsValidPathSegmentName (ist_Name ist)) @
     (case ist_Tag ist of
        None \<Rightarrow> []
      | Some r \<Rightarrow>
          ValidateImageStreamTagReference r @
          (if tr_Annotations r \<noteq> [] \<and> \<not> maps_equal (=) (tr_Annotations r) (ist_Annotations ist)
           then [Errorf ''tag.annotations: must not be provided or must be equal to the object meta annotations'' []]
           else []))"

definition ValidateImageStreamTagUpdate :: "image_stream_tag \<Rightarrow> image_stream_tag \<Rightarrow> go_error list" where
  "ValidateImageStreamTagUpdate new old =
     (case ist_Tag new of
        None \<Rightarrow> []
      | Some r \<Rightarrow>
          ValidateImageStreamTagReference r @
          (if tr_Annotations r \<noteq> [] \<and> \<not> maps_equal (=) (tr_Annotations r) (ist_Annotations new)
           then [Errorf ''tag.annotations: must not be provided or must be equal to the object meta annotations'' []]
           else [])) @
     (if new\<lparr>ist_Annotations := [], ist_Tag := None, ist_Generation := ist_Generation old\<rparr> \<noteq>
         old\<lparr>ist_Annotations := [], ist_Tag := None\<rparr>
      then [Errorf ''metadata: may not update fields other than metadata.annotations'' []] else [])"

definition istag_PrepareForUpdate :: "image_stream_tag \<Rightarrow> image_stream_tag \<Rightarrow> image_stream_tag" where
  "istag_PrepareForUpdate new old =
     new\<lparr>ist_Tag := map_option (\<lambda>r. r\<lparr>tr_Annotations := ist_Annotations new\<rparr>) (ist_Tag new),
         ist_Conditions := ist_Conditions old, ist_ImageName := ist_ImageName old,
         ist_ImageReference := ist_ImageReference old\<rparr>"

section \<open>Operations\<close>

datatype stream_write = CreateStream image_stream | UpdateStream image_stream
datatype 'a outcome = Done 'a | Fails go_error | PanicsNil

definition new_stream :: "string \<Rightarrow> string \<Rightarrow> image_stream" where
  "new_stream namespace name =
     \<lparr>is_Name = name, is_Namespace = namespace, is_UID = [], is_ResourceVersion = [], is_Generation = 0,
      is_CreationTimestamp = 0, is_Annotations = [], is_SpecRepository = [], is_SpecTags = [],
      is_StatusRepository = [], is_StatusTags = None\<rparr>"

text \<open>\<open>Create\<close>, for the namespace of the request, if any.\<close>

definition istag_Create ::
  "(string \<Rightarrow> go_error + image_stream) \<Rightarrow> string option \<Rightarrow> image_stream_tag \<Rightarrow> stream_write outcome" where
  "istag_Create get ctxNamespace ist =
     (if ValidateImageStreamTag ist \<noteq> [] then Fails (NewInvalid ''imagestreamtags'' (ist_Name ist) (ValidateImageStreamTag ist))
      else (case ctxNamespace of
              None \<Rightarrow> Fails (BadRequestErr ''a namespace must be specified to import images'' [])
            | Some namespace \<Rightarrow>
                (case SplitImageStreamTag (ist_Name ist) of
                   (streamName, tag, ok) \<Rightarrow>
                     if \<not> ok then Fails (Errorf ''%q must be of the form <stream_name>:<tag>'' [ist_Name ist])
                     else (case (case get streamName of
                                   Inr s \<Rightarrow> Inr s
                                 | Inl e \<Rightarrow> if IsNotFound e then Inr (new_stream namespace streamName) else Inl e) of
                             Inl e \<Rightarrow> Fails e
                           | Inr target \<Rightarrow>
                               if spec_tag target tag \<noteq> None then Fails (AlreadyExistsErr ''imagestreamtag'' (ist_Name ist))
                               else (case ist_Tag ist of
                                       None \<Rightarrow> PanicsNil
                                     | Some r \<Rightarrow>
                                         let s = set_spec_tag tag r target
                                         in Done (if is_CreationTimestamp target = 0 then CreateStream s else UpdateStream s))))))"

text \<open>
  \<open>Update\<close>: \<open>modify\<close> is what the request makes of the old tag, \<open>now\<close> and \<open>uid\<close> what a stream that did not
  exist is given.
\<close>

definition istag_Update ::
  "(string \<Rightarrow> go_error + image_stream) \<Rightarrow> string option \<Rightarrow> nat \<Rightarrow> string
   \<Rightarrow> (image_stream_tag \<Rightarrow> go_error + image_stream_tag) \<Rightarrow> string \<Rightarrow> stream_write outcome" where
  "istag_Update get ctxNamespace now uid modify tagName =
     (case nameAndTag tagName of
        Inl e \<Rightarrow> Fails e
      | Inr (name, tag) \<Rightarrow>
          (case (case get name of
                   Inr s \<Rightarrow> Inr (s, False)
                 | Inl e \<Rightarrow>
                     if \<not> IsNotFound e then Inl e
                     else (case ctxNamespace of
                             None \<Rightarrow> Inl (BadRequestErr ''namespace is required on ImageStreamTags'' [])
                           | Some namespace \<Rightarrow>
                               Inr ((new_stream namespace name)\<lparr>is_CreationTimestamp := now, is_UID := uid\<rparr>, True))) of
             Inl e \<Rightarrow> Fails e
           | Inr (s, create) \<Rightarrow>
               (case newISTag tag s True of
                  Inl e \<Rightarrow> Fails e
                | Inr old \<Rightarrow>
                    (case modify old of
                       Inl e \<Rightarrow> Fails e
                     | Inr ist0 \<Rightarrow>
                         if ist_ResourceVersion ist0 \<noteq> [] \<and> is_ResourceVersion s = []
                         then Fails (NotFoundErr ''imagestreamtags'' tagName)
                         else if ist_ResourceVersion ist0 \<noteq> [] \<and> is_ResourceVersion s \<noteq> ist_ResourceVersion ist0
                         then Fails (ConflictErr ''imagestreamtags'' (ist_Name ist0))
                         else (let ist1 = ist0\<lparr>ist_ResourceVersion := is_ResourceVersion s\<rparr>;
                                   ist = (if create then ist1\<lparr>ist_Conditions := [], ist_ImageName := [], ist_ImageReference := []\<rparr>
                                          else istag_PrepareForUpdate ist1 old);
                                   errs = (if create then ValidateImageStreamTag ist else ValidateImageStreamTagUpdate ist old);
                                   r0 = (case spec_tag s tag of None \<Rightarrow> zero_tag_reference | Some r \<Rightarrow> r);
                                   r = (case ist_Tag ist of None \<Rightarrow> r0 | Some x \<Rightarrow> x\<lparr>tr_Name := tag\<rparr>);
                                   s' = set_spec_tag tag (r\<lparr>tr_Annotations := ist_Annotations ist\<rparr>) s
                               in if errs \<noteq> [] then Fails (NewInvalid ''imagestreamtags'' (ist_Name ist) errs)
                                  else Done (if create then CreateStream s' else UpdateStream s'))))))"

definition istag_Delete ::
  "(string \<Rightarrow> go_error + image_stream) \<Rightarrow> string \<Rightarrow> stream_write outcome" where
  "istag_Delete get id' =
     (case nameAndTag id' of
        Inl e \<Rightarrow> Fails e
      | Inr (name, tag) \<Rightarrow>
          (case get name of
             Inl e \<Rightarrow> Fails e
           | Inr s \<Rightarrow>
               let s1 = (case status_tag s tag of
                           None \<Rightarrow> s | Some _ \<Rightarrow> s\<lparr>is_StatusTags := Some (AList.delete tag (status_tags s))\<rparr>);
                   s2 = (case spec_tag s1 tag of
                           None \<Rightarrow> s1 | Some _ \<Rightarrow> s1\<lparr>is_SpecTags := AList.delete tag (is_SpecTags s1)\<rparr>)
               in if status_tag s tag = None \<and> spec_tag s1 tag = None then Fails (NotFoundErr ''imagestreamtags'' tag)
                  else Done (UpdateStream s2)))"

section \<open>Creating a tag\<close>

definition istag_of :: "string \<Rightarrow> tag_reference option \<Rightarrow> image_stream_tag" where
  "istag_of name r =
     \<lparr>ist_Name = name, ist_Namespace = ''ns'', ist_UID = [], ist_ResourceVersion = [], ist_CreationTimestamp = 0,
      ist_Annotations = [], ist_Tag = r, ist_Generation = 0, ist_Conditions = [], ist_ImageName = [],
      ist_ImageReference = []\<rparr>"

text \<open>
  The creation of an image stream tag panics exactly when it is valid, has no tag reference and names
  a tag that its stream does not have, such as any tag of a stream that does not exist: the validation
  does not ask for the reference.
\<close>

theorem istag_create_panics_without_reference:
  "(istag_Create get ctxNamespace ist = PanicsNil \<longleftrightarrow>
      ValidateImageStreamTag ist = [] \<and> ist_Tag ist = None \<and> ctxNamespace \<noteq> None \<and>
      (\<exists>name tag. SplitImageStreamTag (ist_Name ist) = (name, tag, True) \<and>
         (case get name of Inr s \<Rightarrow> spec_tag s tag = None | Inl e \<Rightarrow> IsNotFound e))) \<and>
   istag_Create (\<lambda>name. Inl (NotFoundErr ''imagestreams'' name)) (Some ''ns'') (istag_of ''app:t'' None) = PanicsNil"
proof
  show "istag_Create (\<lambda>name. Inl (NotFoundErr ''imagestreams'' name)) (Some ''ns'') (istag_of ''app:t'' None) = PanicsNil"
    by code_simp
  obtain name tag ok where sp: "SplitImageStreamTag (ist_Name ist) = (name, tag, ok)" by (cases "SplitImageStreamTag (ist_Name ist)")
  have new: "spec_tag (new_stream ns name) tag = None" for ns by (simp add: new_stream_def spec_tag_def)
  show "istag_Create get ctxNamespace ist = PanicsNil \<longleftrightarrow>
      ValidateImageStreamTag ist = [] \<and> ist_Tag ist = None \<and> ctxNamespace \<noteq> None \<and>
      (\<exists>name tag. SplitImageStreamTag (ist_Name ist) = (name, tag, True) \<and>
         (case get name of Inr s \<Rightarrow> spec_tag s tag = None | Inl e \<Rightarrow> IsNotFound e))"
    using new by (auto simp: istag_Create_def sp Let_def split: option.splits sum.splits if_splits)
qed

section \<open>Deleting a tag\<close>

definition no_trace :: "string \<Rightarrow> image_stream \<Rightarrow> bool" where
  "no_trace t s \<longleftrightarrow> spec_tag s t = None \<and> tl_Items (history s t) = []"

interpretation untraced: write_invariant "no_trace t" "\<lambda>_. True" env orders oldTags
  for t env orders oldTags
proof
  show "no_trace t (fst (AddTagEventToImageStream s x e))"
    if "no_trace t s" "x \<in> fst ` set (is_SpecTags s)" for s e x
  proof -
    have "t \<noteq> x" using that by (auto simp: no_trace_def spec_tag_None)
    then show ?thesis using that(1) by (simp add: no_trace_def AddTagEvent_fields AddTagEvent_other_tag)
  qed
  show "no_trace t (fst (tag_changed env orders oldTags tag s))" if n: "no_trace t s" for tag s
  proof -
    let ?s' = "fst (tag_changed env orders oldTags tag s)"
    have "tag_kept oldTags s t" using n by (simp add: tag_kept_def no_trace_def)
    then have "images_of ?s' t = images_of s t" using kept.tag by blast
    moreover have "spec_tag ?s' t = None"
      using tag_changed_frame [of oldTags s env orders tag] n
      by (auto simp: same_frame_def spec_refreshed_def no_trace_def dest!: spec [of _ t])
    ultimately show ?thesis using n by (simp add: images_of_def no_trace_def)
  qed
qed (rule TrueI)

lemma update_stream_no_trace:
  assumes "update_stream env False user ctxNamespace orders s old = Inr s'" "no_trace t s"
  shows "no_trace t s'"
proof -
  obtain u s5 where s5: "prepareForUpdate env False s old = s5" and
    tc: "tagsChanged env orders (is_SpecTags old) (status_after_prepare False old) (fill_uid s5 old) = (s', [])"
    using update_stream_parts [OF assms(1)] by metis
  have "is_StatusTags s5 = (if False then is_StatusTags old else is_StatusTags s)" by (rule prepareForUpdate_facts [OF s5])
  then have h: "history s5 = history s" by (intro history_status) simp
  have keys: "map fst (is_SpecTags s5) = map fst (is_SpecTags s)" by (rule prepareForUpdate_facts [OF s5])
  have "spec_tag s5 t = None" using assms(2) unfolding no_trace_def spec_tag_None set_map [symmetric] keys by blast
  then have n: "no_trace t (fill_uid s5 old)" using h assms(2) by (simp add: no_trace_def)
  show ?thesis by (rule untraced.changed_result [OF tc n])
qed

text \<open>
  Deleting an image stream tag deletes its history.  The write that the deletion asks for, when the
  internal strategy accepts it, leaves the stream without the tag and without events of the tag.
\<close>

theorem istag_delete_deletes_history:
  assumes "istag_Delete get id' = Done w" "nameAndTag id' = Inr (name, tag)" "get name = Inr s0"
  shows "\<exists>s. w = UpdateStream s \<and>
    (\<forall>env user ctxNamespace orders old s'. update_stream env False user ctxNamespace orders s old = Inr s' \<longrightarrow>
       spec_tag s' tag = None \<and> tl_Items (history s' tag) = [])"
proof -
  define s1 where "s1 = (case status_tag s0 tag of
    None \<Rightarrow> s0 | Some _ \<Rightarrow> s0\<lparr>is_StatusTags := Some (AList.delete tag (status_tags s0))\<rparr>)"
  define s2 where "s2 = (case spec_tag s1 tag of
    None \<Rightarrow> s1 | Some _ \<Rightarrow> s1\<lparr>is_SpecTags := AList.delete tag (is_SpecTags s1)\<rparr>)"
  have w: "w = UpdateStream s2"
    using assms(1)
    unfolding istag_Delete_def assms(2,3) sum.case prod.case Let_def s1_def [symmetric] s2_def [symmetric]
    by (simp split: if_splits)
  have "tl_Items (history s1 tag) = []"
    by (cases "status_tag s0 tag") (simp_all add: s1_def history_def status_tag_def status_tags_def empty_history_def AList.delete_conv')
  moreover have "history s2 = history s1"
    by (intro history_status) (simp add: s2_def split: option.split)
  moreover have "spec_tag s2 tag = None"
    by (cases "spec_tag s1 tag") (simp_all add: s2_def spec_tag_def AList.delete_conv')
  ultimately have "no_trace tag s2" by (simp add: no_trace_def)
  then show ?thesis using w update_stream_no_trace by (auto simp: no_trace_def)
qed

end
