(* ===== verification/Image_Import.thy ===== *)
theory Image_Import
  imports Image_Safety
begin

text \<open>
  The import controller of \<open>origin/pkg/image/controller/controller.go\<close>: which tags of a stream it asks
  the server to import, and when.
\<close>

section \<open>Deciding\<close>

definition DockerImageRepositoryCheckAnnotation :: string where
  "DockerImageRepositoryCheckAnnotation = ''openshift.io/image.dockerRepositoryCheck''"
definition InsecureRepositoryAnnotation :: string where
  "InsecureRepositoryAnnotation = ''openshift.io/image.insecureRepository''"

definition stream_annotation :: "image_stream \<Rightarrow> string \<Rightarrow> string" where
  "stream_annotation s key = (case map_of (is_Annotations s) key of None \<Rightarrow> [] | Some v \<Rightarrow> v)"

definition tagImportable :: "tag_reference \<Rightarrow> bool" where
  "tagImportable r =
     (case tr_From r of
        None \<Rightarrow> False
      | Some from \<Rightarrow> if or_kind from \<noteq> ''DockerImage'' \<or> tr_Reference r then False else True)"

definition tagNeedsImport :: "image_stream \<Rightarrow> string \<Rightarrow> tag_reference \<Rightarrow> bool \<Rightarrow> bool" where
  "tagNeedsImport s tag r importWhenGenerationNil =
     (if \<not> tagImportable r then False
      else (case tr_Generation r of
              None \<Rightarrow> importWhenGenerationNil
            | Some g \<Rightarrow> g > LatestObservedTagGeneration s tag))"

definition needsImport :: "image_stream \<Rightarrow> bool \<times> bool" where
  "needsImport s =
     (let unchecked = (length (stream_annotation s DockerImageRepositoryCheckAnnotation) = 0)
      in if unchecked \<and> length (is_SpecRepository s) > 0 then (True, False)
         else if unchecked \<and> list_ex (\<lambda>(tag, r). tagImportable r) (is_SpecTags s) then (True, True)
         else if list_ex (\<lambda>(tag, r). tagNeedsImport s tag r False) (is_SpecTags s) then (True, True)
         else (False, False))"

definition needsScheduling :: "image_stream \<Rightarrow> bool" where
  "needsScheduling s = list_ex (\<lambda>(tag, r). tagImportable r \<and> tr_Scheduled r) (is_SpecTags s)"

definition resetScheduledTags :: "image_stream \<Rightarrow> image_stream" where
  "resetScheduledTags s =
     s\<lparr>is_SpecTags := map (\<lambda>(tag, r).
         (tag, if tagImportable r \<and> tr_Scheduled r then r\<lparr>tr_Generation := Some (is_Generation s + 1)\<rparr> else r))
       (is_SpecTags s)\<rparr>"

section \<open>Importing\<close>

record image_import_spec =
  ii_From :: string
  ii_To :: string
  ii_Insecure :: bool
  ii_Scheduled :: bool

record stream_import =
  isi_Name :: string
  isi_Namespace :: string
  isi_UID :: string
  isi_ResourceVersion :: string
  isi_Images :: "image_import_spec list"
  isi_Repository :: "(string \<times> bool) option"

definition import_spec :: "string \<Rightarrow> tag_reference \<Rightarrow> image_import_spec" where
  "import_spec tag r =
     \<lparr>ii_From = (case tr_From r of None \<Rightarrow> [] | Some from \<Rightarrow> or_name from), ii_To = tag,
      ii_Insecure = tr_Insecure r, ii_Scheduled = tr_Scheduled r\<rparr>"

definition import_request :: "bool \<Rightarrow> image_stream \<Rightarrow> stream_import" where
  "import_request partially s =
     \<lparr>isi_Name = is_Name s, isi_Namespace = is_Namespace s, isi_UID = is_UID s,
      isi_ResourceVersion = is_ResourceVersion s,
      isi_Images = map (\<lambda>(tag, r). import_spec tag r)
        (filter (\<lambda>(tag, r). partially \<and> tagImportable r \<or> tagNeedsImport s tag r True) (is_SpecTags s)),
      isi_Repository =
        (if \<not> partially \<and> length (is_SpecRepository s) > 0
         then Some (is_SpecRepository s, stream_annotation s InsecureRepositoryAnnotation = ''true'') else None)\<rparr>"

text \<open>The import of a request; an error says whether it is the one for a stream that is gone.\<close>

type_synonym import_call = "stream_import \<Rightarrow> (go_error \<times> bool) option"

definition ErrNotImportable :: go_error where
  "ErrNotImportable = Errorf ''the specified stream cannot be imported'' []"

definition import_Next :: "import_call \<Rightarrow> image_stream \<Rightarrow> stream_import option \<times> go_error option" where
  "import_Next call s =
     (case needsImport s of
        (ok, partially) \<Rightarrow>
          if \<not> ok then (None, None)
          else (let isi = import_request partially s
                in (Some isi,
                    case call isi of
                      None \<Rightarrow> None
                    | Some (e, streamGone) \<Rightarrow> if IsNotFound e \<and> streamGone then Some ErrNotImportable else Some e)))"

definition NextTimed :: "import_call \<Rightarrow> image_stream \<Rightarrow> stream_import option \<times> go_error option" where
  "NextTimed call s =
     (if \<not> needsScheduling s then (None, Some ErrNotImportable)
      else import_Next call (resetScheduledTags s))"

definition NextTimedByName ::
  "import_call \<Rightarrow> (string \<Rightarrow> string \<Rightarrow> go_error + image_stream) \<Rightarrow> string \<Rightarrow> string
   \<Rightarrow> stream_import option \<times> go_error option" where
  "NextTimedByName call get namespace name =
     (case get namespace name of
        Inl e \<Rightarrow> (None, Some (if IsNotFound e then ErrNotImportable else e))
      | Inr s \<Rightarrow> NextTimed call s)"

section \<open>What is imported\<close>

definition requests_tag :: "stream_import option \<Rightarrow> string \<Rightarrow> string \<Rightarrow> bool" where
  "requests_tag request tag name \<longleftrightarrow>
     (case request of None \<Rightarrow> False | Some isi \<Rightarrow> \<exists>x \<in> set (isi_Images isi). ii_To x = tag \<and> ii_From x = name)"

lemma import_request_tags:
  assumes "distinct (map fst (is_SpecTags s))"
  shows "requests_tag (Some (import_request partially s)) tag name \<longleftrightarrow>
    (\<exists>r f. spec_tag s tag = Some r \<and> tr_From r = Some f \<and> or_name f = name \<and>
      (partially \<and> tagImportable r \<or> tagNeedsImport s tag r True))"
proof -
  have imp: "\<exists>f. tr_From r = Some f" if "partially \<and> tagImportable r \<or> tagNeedsImport s t r True" for t r
    using that by (auto simp: tagImportable_def tagNeedsImport_def split: option.splits if_splits)
  have "requests_tag (Some (import_request partially s)) tag name \<longleftrightarrow>
      (\<exists>r. (tag, r) \<in> set (is_SpecTags s) \<and> (partially \<and> tagImportable r \<or> tagNeedsImport s tag r True) \<and>
        ii_From (import_spec tag r) = name)"
    by (auto simp: requests_tag_def import_request_def import_spec_def)
  also have "\<dots> \<longleftrightarrow> (\<exists>r f. spec_tag s tag = Some r \<and> tr_From r = Some f \<and> or_name f = name \<and>
      (partially \<and> tagImportable r \<or> tagNeedsImport s tag r True))"
    using imp assms by (auto simp: spec_tag_def import_spec_def) (metis (no_types, lifting) option.simps(5))+
  finally show ?thesis .
qed

lemma observed_bound:
  assumes "wf_status s" "\<And>c. c \<in> set (tl_Conditions (history s tag)) \<Longrightarrow> tc_Generation c \<le> is_Generation s"
    "0 \<le> is_Generation s"
  shows "LatestObservedTagGeneration s tag \<le> is_Generation s"
proof (cases "status_tag s tag")
  case None
  then show ?thesis using assms(3) by (simp add: LatestObservedTagGeneration_def)
next
  case (Some l)
  then have h: "history s tag = l" by (simp add: history_def)
  have items: "te_Generation e \<le> is_Generation s" if "e \<in> set (tl_Items l)" for e
    using assms(1) h that unfolding wf_status_def by metis
  have conds: "tc_Generation c \<le> is_Generation s" if "find (\<lambda>c. tc_Type c = ImportSuccess) (tl_Conditions l) = Some c" for c
    using assms(2) h that by (auto simp: find_Some_iff)
  show ?thesis
    using items conds assms(3) Some
    by (auto simp: LatestObservedTagGeneration_def Let_def split: list.splits option.splits)
qed

lemma needsImport_any:
  assumes "(tag, r) \<in> set (is_SpecTags s)" "tagNeedsImport s tag r False"
  shows "fst (needsImport s)"
proof -
  have "list_ex (\<lambda>(tag, r). tagNeedsImport s tag r False) (is_SpecTags s)" using assms by (auto simp: list_ex_iff)
  then show ?thesis by (simp add: needsImport_def Let_def)
qed

lemma tagNeedsImport_nil: "tagNeedsImport s tag r False \<Longrightarrow> tagNeedsImport s tag r True"
  by (auto simp: tagNeedsImport_def split: option.splits if_splits)

text \<open>
  In a well-formed stream none of whose conditions is newer than the stream, no tag has been observed
  at a newer generation.
\<close>

lemma wf_stream_observed:
  "wf_stream s \<Longrightarrow> (\<And>c. c \<in> set (tl_Conditions (history s tag)) \<Longrightarrow> tc_Generation c \<le> is_Generation s) \<Longrightarrow>
   LatestObservedTagGeneration s tag \<le> is_Generation s"
  using observed_bound [of s tag] by (simp add: wf_stream_def wf_spec_def)

text \<open>
  C17: a timed import asks for every scheduled tag that can be imported and has not been observed at a
  generation newer than its stream: when the tag is scheduled, comes from a Docker image and is not a
  reference, and neither its newest event nor its import condition has a generation newer than the
  stream, the request has the tag with the image it comes from.
\<close>

theorem timed_imports_request_scheduled_tags:
  assumes "distinct (map fst (is_SpecTags s))" "LatestObservedTagGeneration s tag \<le> is_Generation s"
    "spec_tag s tag = Some r" "tr_From r = Some f" "or_kind f = ''DockerImage''" "\<not> tr_Reference r" "tr_Scheduled r"
  shows "requests_tag (fst (NextTimed call s)) tag (or_name f)"
proof -
  define s' where "s' = resetScheduledTags s"
  note wf = assms(1)
  have imp: "tagImportable r" using assms(4-6) by (simp add: tagImportable_def)
  have mem: "(tag, r) \<in> set (is_SpecTags s)" using assms(3) by (auto simp: spec_tag_def dest: map_of_SomeD)
  define r' where "r' = r\<lparr>tr_Generation := Some (is_Generation s + 1)\<rparr>"
  have mem': "(tag, r') \<in> set (is_SpecTags s')" using mem imp assms(7) by (force simp: s'_def resetScheduledTags_def r'_def)
  have keys: "map fst (is_SpecTags s') = map fst (is_SpecTags s)"
    by (auto simp: s'_def resetScheduledTags_def intro!: map_cong)
  then have tag': "spec_tag s' tag = Some r'" using mem' wf by (simp add: spec_tag_def)
  have "status_tag s' tag = status_tag s tag" by (simp add: s'_def resetScheduledTags_def status_tag_def status_tags_def)
  then have "LatestObservedTagGeneration s' tag = LatestObservedTagGeneration s tag"
    by (simp only: LatestObservedTagGeneration_def)
  then have "LatestObservedTagGeneration s' tag \<le> is_Generation s" using assms(2) by simp
  then have needs: "tagNeedsImport s' tag r' False"
    using assms(4-6) by (simp add: tagNeedsImport_def r'_def tagImportable_def)
  have sched: "needsScheduling s" using mem imp assms(7) by (auto simp: needsScheduling_def list_ex_iff)
  have ok: "fst (needsImport s')" by (rule needsImport_any [OF mem' needs])
  have "requests_tag (Some (import_request (snd (needsImport s')) s')) tag (or_name f)"
    using import_request_tags [of s'] keys wf tag' assms(4) tagNeedsImport_nil [OF needs] by (simp add: r'_def)
  moreover have "fst (NextTimed call s) = Some (import_request (snd (needsImport s')) s')"
    using sched ok
    by (cases "needsImport s'") (simp add: NextTimed_def import_Next_def s'_def [symmetric] Let_def)
  ultimately show ?thesis by simp
qed

text \<open>
  Without a scheduled import, a stream that has been checked is imported exactly when some tag has a
  generation newer than what was observed of it.
\<close>

lemma checked_streams_import_newer_tags:
  assumes "stream_annotation s DockerImageRepositoryCheckAnnotation \<noteq> []"
  shows "fst (import_Next call s) \<noteq> None \<longleftrightarrow> (\<exists>(tag, r) \<in> set (is_SpecTags s). tagNeedsImport s tag r False)"
  using assms by (auto simp: import_Next_def needsImport_def Let_def list_ex_iff)

end
