(* ===== verification/Image_Examples.thy ===== *)
theory Image_Examples
  imports Image_Tag_Rest Image_Import
begin

text \<open>
  Writes of image streams evaluated: the claims at concrete streams, and a pending import that an
  unrelated tag cancels.
\<close>

definition example_env :: stream_env where
  "example_env =
     \<lparr>env_DefaultRegistry = None, env_Get = (\<lambda>namespace name. Inl (NotFoundErr ''imagestreams'' name)),
      env_Review = (\<lambda>namespace review. Inr None), env_VerifyLimits = (\<lambda>namespace s. None), env_Now = 5\<rparr>"

definition example_user :: user_info where
  "example_user = \<lparr>ui_name = ''u'', ui_uid = [], ui_groups = [], ui_extra = []\<rparr>"

definition spec_order :: "string list \<Rightarrow> range_orders" where
  "spec_order tags = \<lparr>ro_Spec = tags, ro_Status = tags, ro_Resolve = (\<lambda>tag. [])\<rparr>"

definition at_generation :: "int \<Rightarrow> tag_reference \<Rightarrow> tag_reference" where
  "at_generation g r = r\<lparr>tr_Generation := Some g\<rparr>"

definition one_event :: "string \<Rightarrow> int \<Rightarrow> tag_event_list" where
  "one_event img g = \<lparr>tl_Items = [\<lparr>te_Created = 1, te_DockerImageReference = img, te_Image = img, te_Generation = g\<rparr>],
     tl_Conditions = []\<rparr>"

text \<open>The tag \<open>b\<close> tracks \<open>a\<close>, which is changed from \<open>x\<close> to \<open>y\<close>.\<close>

definition tracked_old :: image_stream where
  "tracked_old = example_stream
     [(''a'', at_generation 1 (tag_to ''ImageStreamTag'' ''x'')), (''b'', at_generation 1 (tag_to ''ImageStreamTag'' ''a''))]
     [(''x'', one_event ''i'' 1), (''y'', one_event ''j'' 1), (''a'', one_event ''i'' 1), (''b'', one_event ''i'' 1)]"

definition tracked_new :: image_stream where
  "tracked_new = tracked_old\<lparr>is_SpecTags :=
     [(''a'', at_generation 7 (tag_to ''ImageStreamTag'' ''y'')), (''b'', at_generation 0 (tag_to ''ImageStreamTag'' ''a''))]\<rparr>"

definition written :: "go_error + image_stream \<Rightarrow> image_stream" where
  "written r = (case r of Inr s \<Rightarrow> s | Inl _ \<Rightarrow> example_stream [] [])"

definition tracked_update :: "go_error + image_stream" where
  "tracked_update = update_stream example_env True (Some example_user) None (spec_order [''a'', ''b'']) tracked_new tracked_old"

lemma tracked_update_succeeds: "tracked_update = Inr (written tracked_update)"
  by code_simp

lemma tracked_facts:
  "is_Namespace (written tracked_update) = ''ns''" "spec_tag tracked_new ''b'' = Some (at_generation 0 (tag_to ''ImageStreamTag'' ''a''))"
  "spec_tag tracked_old ''b'' = Some (at_generation 1 (tag_to ''ImageStreamTag'' ''a''))"
  "\<not> source_changed (at_generation 1 (tag_to ''ImageStreamTag'' ''a'')) (at_generation 0 (tag_to ''ImageStreamTag'' ''a'')) ''ns''"
  "distinct (map fst (is_SpecTags tracked_new))" "is_Generation tracked_old = 1"
  by code_simp+

lemma tracked_wf: "wf_stream tracked_old" "is_StatusTags tracked_old \<noteq> None"
  by (auto simp: wf_stream_def wf_spec_def wf_status_def tracked_old_def example_stream_def spec_tag_def history_def
      status_tag_def status_tags_def at_generation_def one_event_def empty_history_def split: option.splits if_splits)

lemma tracked_wf_spec: "wf_spec tracked_old"
  using tracked_wf(1) by (simp add: wf_stream_def)

theorem users_cannot_choose_generations_witness:
  "\<exists>g. spec_tag (written tracked_update) ''b'' = Some ((at_generation 0 (tag_to ''ImageStreamTag'' ''a''))\<lparr>tr_Generation := Some g\<rparr>) \<and>
     g = 2"
proof -
  have "starts_over tracked_old ''ns'' ''b'' (at_generation 0 (tag_to ''ImageStreamTag'' ''a''))" by code_simp
  then show ?thesis
    using users_cannot_choose_generations [OF tracked_update_succeeds [unfolded tracked_update_def] tracked_wf_spec tracked_facts(2)]
      tracked_facts(1,6) unfolding tracked_update_def [symmetric] by auto
qed


text \<open>The tags \<open>x\<close> and \<open>y\<close> of the status and a tag \<open>c\<close> that tracks none but \<open>x\<close> are left alone when \<open>a\<close> changes.\<close>

definition untouched_old :: image_stream where
  "untouched_old = example_stream
     [(''a'', at_generation 1 (tag_to ''ImageStreamTag'' ''x'')), (''c'', at_generation 1 (tag_to ''ImageStreamTag'' ''x''))]
     [(''x'', one_event ''i'' 1), (''y'', one_event ''j'' 1), (''a'', one_event ''i'' 1), (''c'', one_event ''k'' 1)]"

definition untouched_new :: image_stream where
  "untouched_new = untouched_old\<lparr>is_SpecTags :=
     [(''a'', at_generation 7 (tag_to ''ImageStreamTag'' ''y'')), (''c'', at_generation 0 (tag_to ''ImageStreamTag'' ''x''))]\<rparr>"

definition untouched_update :: "go_error + image_stream" where
  "untouched_update = update_stream example_env True (Some example_user) None (spec_order [''a'', ''c'']) untouched_new untouched_old"

lemma untouched_update_succeeds: "untouched_update = Inr (written untouched_update)"
  by code_simp

lemma untouched_spec:
  "is_SpecTags (written untouched_update) =
     [(''a'', at_generation 2 (tag_to ''ImageStreamTag'' ''y'')), (''c'', at_generation 2 (tag_to ''ImageStreamTag'' ''x''))]"
  "is_Namespace (written untouched_update) = ''ns''" "is_Name (written untouched_update) = is_Name untouched_old"
  "spec_tag untouched_new ''c'' = Some (at_generation 0 (tag_to ''ImageStreamTag'' ''x''))" "spec_tag untouched_new ''x'' = None"
  "spec_tag untouched_old ''c'' = Some (at_generation 1 (tag_to ''ImageStreamTag'' ''x''))"
  "\<not> source_changed (at_generation 1 (tag_to ''ImageStreamTag'' ''x'')) (at_generation 0 (tag_to ''ImageStreamTag'' ''x'')) ''ns''"
  by code_simp+

lemma tracks_x: "tracks_tag s (at_generation g (tag_to ''ImageStreamTag'' ''x'')) y \<Longrightarrow> y = ''x''"
  by (auto simp: tracks_tag_def at_generation_def tag_to_def subject_ref_def zero_tag_reference_def Let_def split: if_splits)

theorem unchanged_tags_keep_images_witness:
  "images_of (written untouched_update) ''a'' = [''j'', ''i''] \<and> images_of (written untouched_update) ''c'' = [''k'']"
proof -
  have "wf_spec untouched_old"
    by (auto simp: wf_spec_def untouched_old_def example_stream_def spec_tag_def at_generation_def split: if_splits)
  moreover have "tracks_within (written untouched_update) {''c'', ''x''}"
    by (auto simp: tracks_within_def untouched_spec dest: tracks_x)
  moreover have "\<exists>oldRef. spec_tag untouched_old x = Some oldRef \<and>
      \<not> source_changed oldRef r (is_Namespace (written untouched_update))"
    if "x \<in> {''c'', ''x''}" "spec_tag untouched_new x = Some r" for x r
    using that untouched_spec by auto
  ultimately have "images_of (written untouched_update) ''c'' = images_of untouched_old ''c''"
    using unchanged_tags_keep_images [OF untouched_update_succeeds [unfolded untouched_update_def], of "{''c'', ''x''}" "''c''"]
    unfolding untouched_update_def [symmetric] by blast
  also have "\<dots> = [''k'']" by code_simp
  finally have b: "images_of (written untouched_update) ''c'' = [''k'']" .
  have "images_of (written untouched_update) ''a'' = [''j'', ''i'']" by code_simp
  then show ?thesis using b by simp
qed

definition other_streams :: "string \<Rightarrow> string \<Rightarrow> go_error + image_stream" where
  "other_streams namespace name =
     (if namespace = ''ns'' then Inl (NotFoundErr ''imagestreams'' name) else Inr tracked_old)"

theorem writes_read_only_what_the_user_may_pull_witness:
  "update_stream (example_env\<lparr>env_Get := other_streams\<rparr>) True (Some example_user) None (spec_order [''a'', ''b''])
     tracked_new tracked_old = tracked_update"
proof -
  have "agrees_for example_env example_user (is_Namespace (written tracked_update)) other_streams"
    unfolding tracked_facts(1) by (simp add: agrees_for_def other_streams_def may_pull_def example_env_def)
  from writes_read_only_what_the_user_may_pull [OF this] tracked_update_succeeds show ?thesis
    unfolding tracked_update_def by metis
qed

section \<open>Imports\<close>

definition scheduled_stream :: image_stream where
  "scheduled_stream = example_stream
     [(''a'', (at_generation 1 (tag_to ''DockerImage'' ''r''))\<lparr>tr_Scheduled := True\<rparr>)] [(''a'', one_event ''i'' 1)]"

theorem timed_imports_request_scheduled_tags_witness:
  "requests_tag (fst (NextTimed (\<lambda>isi. None) scheduled_stream)) ''a'' ''r''"
proof -
  have "wf_stream scheduled_stream" "\<And>t c. c \<in> set (tl_Conditions (history scheduled_stream t)) \<Longrightarrow>
      tc_Generation c \<le> is_Generation scheduled_stream"
    by (auto simp: wf_stream_def wf_spec_def wf_status_def scheduled_stream_def example_stream_def spec_tag_def history_def
        status_tag_def status_tags_def at_generation_def one_event_def empty_history_def split: option.splits if_splits)
  then have wf: "distinct (map fst (is_SpecTags scheduled_stream))"
      "LatestObservedTagGeneration scheduled_stream ''a'' \<le> is_Generation scheduled_stream"
    using wf_stream_observed by (simp_all add: wf_stream_def wf_spec_def)
  define r where "r = (at_generation 1 (tag_to ''DockerImage'' ''r''))\<lparr>tr_Scheduled := True\<rparr>"
  have r: "spec_tag scheduled_stream ''a'' = Some r" unfolding r_def by code_simp
  have f: "tr_From r = Some (subject_ref ''DockerImage'' [] ''r'')" "\<not> tr_Reference r" "tr_Scheduled r"
    by (simp_all add: r_def at_generation_def tag_to_def zero_tag_reference_def)
  show ?thesis
    using timed_imports_request_scheduled_tags [OF wf r f(1) _ f(2,3)] by (simp add: subject_ref_def)
qed

text \<open>A stream whose tag \<open>a\<close> waits for an import, and the same stream with a tag \<open>b\<close> that tracks \<open>a\<close>.\<close>

definition pending_stream :: image_stream where
  "pending_stream = (example_stream [(''a'', at_generation 2 (tag_to ''DockerImage'' ''r''))] [(''a'', one_event ''i'' 1)])
     \<lparr>is_Generation := 2, is_Annotations := [(DockerImageRepositoryCheckAnnotation, ''2016'')]\<rparr>"

definition tracking_added :: image_stream where
  "tracking_added = pending_stream\<lparr>is_SpecTags :=
     [(''a'', at_generation 2 (tag_to ''DockerImage'' ''r'')), (''b'', tag_to ''ImageStreamTag'' ''a'')]\<rparr>"

text \<open>
  Adding a tag can cancel the pending import of another.  The event of the tag that the new tag
  refers to gets, through the pointer that is returned for it, the generation of the new tag; the
  import controller then takes the tag for imported, although its image and its reference are as before.
\<close>

theorem new_tag_cancels_pending_import:
  "needsImport pending_stream = (True, True) \<and>
   (case update_stream example_env True (Some example_user) None (spec_order [''a'', ''b'']) tracking_added pending_stream of
      Inr s' \<Rightarrow> needsImport s' = (False, False) \<and> spec_tag s' ''a'' = spec_tag pending_stream ''a'' \<and>
        images_of s' ''a'' = images_of pending_stream ''a''
    | Inl _ \<Rightarrow> False)"
  by code_simp

section \<open>Deleting a tag\<close>

definition deleted_update :: "go_error + image_stream" where
  "deleted_update = update_stream example_env False (Some example_user) None (spec_order []) (example_stream [] [])
     (example_stream [] [(''t'', one_event ''i'' 1)])"

theorem istag_delete_deletes_history_witness: "tl_Items (history (written deleted_update) ''t'') = []"
proof -
  have del: "istag_Delete (\<lambda>name. Inr (example_stream [] [(''t'', one_event ''i'' 1)])) ''app:t'' =
      Done (UpdateStream (example_stream [] []))"
    by code_simp
  have nt: "nameAndTag ''app:t'' = Inr (''app'', ''t'')" by code_simp
  have up: "deleted_update = Inr (written deleted_update)" by code_simp
  show ?thesis using istag_delete_deletes_history [OF del nt refl] up unfolding deleted_update_def by auto
qed

end
