(* ===== verification/Image_Mapping.thy ===== *)
theory Image_Mapping
  imports Image_Tags
begin

text \<open>
  The writes that go through other resources: a pushed image tagged by an image stream mapping
  (\<open>origin/pkg/image/registry/imagestreammapping\<close>), with its retries on conflicts, and the image
  stream tags (\<open>origin/pkg/image/registry/imagestreamtag\<close>).

  The registries answer as their parameters say; what another writer does between two calls shows in
  the answers.  A dereferenced nil pointer is the result \<open>Panics\<close>.
\<close>

section \<open>Mappings\<close>

record image_object =
  img_Name :: string
  img_DockerImageReference :: string
  img_Annotations :: "(string \<times> string) list"

record stream_mapping =
  ism_Name :: string
  ism_Namespace :: string
  ism_DockerImageRepository :: string
  ism_Image :: image_object
  ism_Tag :: string

definition ManagedByOpenShiftAnnotation :: string where
  "ManagedByOpenShiftAnnotation = ''openshift.io/image.managed''"

definition maxRetriesOnConflict :: nat where "maxRetriesOnConflict = 10"

definition mapping_PrepareForCreate :: "string option \<Rightarrow> stream_mapping \<Rightarrow> stream_mapping" where
  "mapping_PrepareForCreate defaultRegistry m =
     (if length (img_DockerImageReference (ism_Image m)) = 0 then
        (case defaultRegistry of
           None \<Rightarrow> m
         | Some registry \<Rightarrow>
             m\<lparr>ism_Image := (ism_Image m)\<lparr>img_DockerImageReference :=
               Exact \<lparr>ref_Registry = registry, ref_Namespace = ism_Namespace m, ref_Name = ism_Name m, ref_Tag = [],
                      ref_ID = img_Name (ism_Image m)\<rparr>\<rparr>\<rparr>)
      else m)"

definition findStreamForMapping ::
  "(string \<Rightarrow> go_error + image_stream) \<Rightarrow> (go_error + image_stream list) \<Rightarrow> stream_mapping \<Rightarrow> go_error + image_stream" where
  "findStreamForMapping get streams m =
     (if length (ism_Name m) > 0 then get (ism_Name m)
      else if length (ism_DockerImageRepository m) \<noteq> 0 then
        (case streams of
           Inl e \<Rightarrow> Inl e
         | Inr items \<Rightarrow>
             (case find (\<lambda>s. ism_DockerImageRepository m = is_SpecRepository s) items of
                Some s \<Rightarrow> Inr s
              | None \<Rightarrow> Inl (ErrorfE ''ImageStreamMapping is invalid'' []
                  [NotFoundErr ''dockerImageStream'' (ism_DockerImageRepository m)])))
      else Inl (NotFoundErr ''imagestream'' []))"

text \<open>The reference that the event of the pushed image gets.\<close>

definition mapping_reference :: "image_stream \<Rightarrow> image_object \<Rightarrow> go_error option \<Rightarrow> string" where
  "mapping_reference s img imageCreateErr =
     (if (case imageCreateErr of None \<Rightarrow> False | Some e \<Rightarrow> IsAlreadyExists e) \<and>
         map_of (img_Annotations img) ManagedByOpenShiftAnnotation = Some ''true''
      then (case DockerImageReferenceForStream s of
              Inr streamRef \<Rightarrow> Exact (streamRef\<lparr>ref_ID := img_Name img\<rparr>)
            | Inl _ \<Rightarrow> img_DockerImageReference img)
      else img_DockerImageReference img)"

datatype tag_result = Tagged | Failed go_error | Panics

text \<open>The event that was the latest one, as its pointer shows it after an event has been added: the
array of the events is written in place, unless the event is put in front of it.\<close>

definition last_event_after :: "image_stream \<Rightarrow> image_stream \<Rightarrow> string \<Rightarrow> tag_event option" where
  "last_event_after s s' tag =
     (if length (tl_Items (history s' tag)) = length (tl_Items (history s tag)) then LatestTaggedImage s' tag
      else LatestTaggedImage s tag)"

text \<open>
  The function that \<open>ExponentialBackoff\<close> calls, \<open>steps\<close> times at most: the answers to the updates of the
  status and the streams found after a conflict are numbered by the call.
\<close>

fun tag_attempts ::
  "(nat \<Rightarrow> image_stream \<Rightarrow> go_error option) \<Rightarrow> (nat \<Rightarrow> go_error + image_stream) \<Rightarrow> string \<Rightarrow> tag_event
   \<Rightarrow> nat \<Rightarrow> nat \<Rightarrow> image_stream \<Rightarrow> tag_result" where
  "tag_attempts update find_latest tag event 0 i s = Failed (Errorf ''timed out waiting for the condition'' [])"
| "tag_attempts update find_latest tag event (Suc steps) i s =
     (let event' = event\<lparr>te_Generation := is_Generation s\<rparr>;
          (s1, added) = AddTagEventToImageStream s tag event'
      in if \<not> added then Tagged
         else (case update i (fst (UpdateTrackingTags s1 tag event')) of
                 None \<Rightarrow> Tagged
               | Some err \<Rightarrow>
                   if \<not> IsConflict err then Failed err
                   else (case find_latest i of
                           Inl e \<Rightarrow> Failed e
                         | Inr latestStream \<Rightarrow>
                             (case last_event_after s s1 tag of
                                None \<Rightarrow> tag_attempts update find_latest tag event steps (Suc i) latestStream
                              | Some lastEvent \<Rightarrow>
                                  (case LatestTaggedImage latestStream tag of
                                     None \<Rightarrow> Panics
                                   | Some newerEvent \<Rightarrow>
                                       if lastEvent\<lparr>te_Generation := te_Generation newerEvent, te_Created := te_Created newerEvent\<rparr>
                                          = newerEvent
                                       then tag_attempts update find_latest tag event steps (Suc i) latestStream
                                       else Failed err)))))"

definition mapping_tag :: "stream_mapping \<Rightarrow> string" where
  "mapping_tag m = (if length (ism_Tag m) = 0 then DefaultImageTag else ism_Tag m)"

definition mapping_event :: "nat \<Rightarrow> go_error option \<Rightarrow> stream_mapping \<Rightarrow> image_stream \<Rightarrow> tag_event" where
  "mapping_event now imageCreateErr m s =
     \<lparr>te_Created = now, te_DockerImageReference = mapping_reference s (ism_Image m) imageCreateErr,
      te_Image = img_Name (ism_Image m), te_Generation = 0\<rparr>"

text \<open>\<open>Create\<close>, from the creation of the image on, for the stream found for the mapping.\<close>

definition mapping_Create ::
  "(nat \<Rightarrow> image_stream \<Rightarrow> go_error option) \<Rightarrow> (nat \<Rightarrow> go_error + image_stream) \<Rightarrow> nat
   \<Rightarrow> go_error option \<Rightarrow> stream_mapping \<Rightarrow> image_stream \<Rightarrow> tag_result" where
  "mapping_Create update find_latest now imageCreateErr m s =
     (case imageCreateErr of
        Some e \<Rightarrow>
          if \<not> IsAlreadyExists e then Failed e
          else tag_attempts update find_latest (mapping_tag m) (mapping_event now imageCreateErr m s) maxRetriesOnConflict 0 s
      | None \<Rightarrow>
          tag_attempts update find_latest (mapping_tag m) (mapping_event now imageCreateErr m s) maxRetriesOnConflict 0 s)"

section \<open>What a push does\<close>

text \<open>The stream of an attempt, and what the attempt submits.\<close>

definition stream_at :: "(nat \<Rightarrow> go_error + image_stream) \<Rightarrow> image_stream \<Rightarrow> nat \<Rightarrow> go_error + image_stream" where
  "stream_at find_latest s k = (case k of 0 \<Rightarrow> Inr s | Suc j \<Rightarrow> find_latest j)"

definition pushed :: "image_stream \<Rightarrow> string \<Rightarrow> tag_event \<Rightarrow> image_stream" where
  "pushed s tag event =
     (let event' = event\<lparr>te_Generation := is_Generation s\<rparr>
      in fst (UpdateTrackingTags (fst (AddTagEventToImageStream s tag event')) tag event'))"

definition same_event :: "tag_event \<Rightarrow> tag_event \<Rightarrow> bool" where
  "same_event a b \<longleftrightarrow> te_DockerImageReference a = te_DockerImageReference b \<and> te_Image a = te_Image b"

definition tags_image :: "image_stream \<Rightarrow> string \<Rightarrow> tag_event \<Rightarrow> bool" where
  "tags_image s tag event \<longleftrightarrow> (case tl_Items (history s tag) of [] \<Rightarrow> False | e # _ \<Rightarrow> same_event e event)"

lemma shows_tags: "shows_event s tag (event\<lparr>te_Generation := g\<rparr>) \<Longrightarrow> tags_image s tag event"
  by (auto simp: shows_event_def tags_image_def same_event_def split: list.splits)

lemma pushed_tags:
  assumes "distinct (map fst (is_SpecTags s))"
  shows "tags_image (pushed s tag event) tag event"
    "spec_tag s t = Some r \<Longrightarrow> tracks_tag s r tag \<Longrightarrow> tags_image (pushed s tag event) t event"
proof -
  define event' where "event' = event\<lparr>te_Generation := is_Generation s\<rparr>"
  obtain s1 added where s1: "AddTagEventToImageStream s tag event' = (s1, added)" by (cases "AddTagEventToImageStream s tag event'")
  obtain s2 n where s2: "UpdateTrackingTags s1 tag event' = (s2, n)" by (cases "UpdateTrackingTags s1 tag event'")
  have p: "pushed s tag event = s2" by (simp add: pushed_def event'_def [symmetric] s1 s2)
  have f: "is_SpecTags s1 = is_SpecTags s" "tracks_tag s1 = tracks_tag s" by (rule AddTagEvent_frame [OF s1]; simp)+
  have eff: "if \<exists>r. spec_tag s x = Some r \<and> tracks_tag s r tag then shows_event s2 x event' else history s2 x = history s1 x" for x
    using UpdateTrackingTags_effect(1) [OF s2, of x] assms f by (simp add: spec_tag_def)
  have "shows_event s2 tag event'"
    using eff [of tag] AddTagEvent_shows [OF s1] by (auto simp: shows_event_def split: if_splits)
  then show "tags_image (pushed s tag event) tag event" unfolding p event'_def by (rule shows_tags)
  assume "spec_tag s t = Some r" "tracks_tag s r tag"
  then have "shows_event s2 t event'" using eff [of t] by auto
  then show "tags_image (pushed s tag event) t event" unfolding p event'_def by (rule shows_tags)
qed

lemma LatestTaggedImage_history:
  "tag \<noteq> [] \<Longrightarrow> LatestTaggedImage s tag = (case tl_Items (history s tag) of [] \<Rightarrow> None | e # _ \<Rightarrow> Some e)"
  by (simp add: LatestTaggedImage_def history_def default_tag_def empty_history_def split: option.split)

text \<open>When the latest event is not the one that was there, it is the added one.\<close>

lemma last_event_seen:
  assumes "AddTagEventToImageStream s tag event = (s1, added)" "last_event_after s s1 tag = Some e"
    "LatestTaggedImage s tag = Some e0" "tag \<noteq> []"
  shows "same_event e e0 \<or> same_event e event"
  using assms
  by (auto simp: AddTagEventToImageStream_def last_event_after_def LatestTaggedImage_def history_def default_tag_def
      same_event_def Let_def status_tag_def set_history_def status_tags_def split: list.splits option.splits if_splits)

lemma same_event_trans: "same_event a b \<Longrightarrow> same_event b c \<Longrightarrow> same_event a c"
  by (simp add: same_event_def)

lemma tag_attempts_Tagged:
  assumes "tag_attempts update find_latest tag event steps i s = Tagged" "tag \<noteq> []"
    "LatestTaggedImage s tag = Some e" "same_event e e0 \<or> same_event e event" "stream_at find_latest s0 i = Inr s"
  shows "\<exists>k sk e. k < i + steps \<and> stream_at find_latest s0 k = Inr sk \<and> LatestTaggedImage sk tag = Some e \<and>
    (same_event e e0 \<or> same_event e event) \<and> (tags_image sk tag event \<or> update k (pushed sk tag event) = None)"
  using assms
proof (induction update find_latest tag event steps i s arbitrary: e rule: tag_attempts.induct)
  case (2 update find_latest tag event steps i s)
  define event' where "event' = event\<lparr>te_Generation := is_Generation s\<rparr>"
  obtain s1 added where s1: "AddTagEventToImageStream s tag event' = (s1, added)" by (cases "AddTagEventToImageStream s tag event'")
  have p: "fst (UpdateTrackingTags s1 tag event') = pushed s tag event" by (simp add: pushed_def event'_def [symmetric] s1)
  note eq = tag_attempts.simps(2) [of update find_latest tag event steps i s]
  show ?case
  proof (cases "added \<and> update i (pushed s tag event) \<noteq> None")
    case False
    then have "tags_image s tag event \<or> update i (pushed s tag event) = None"
      using AddTagEvent_unchanged [OF s1] shows_tags [of s tag "is_Generation s" event] by (auto simp: event'_def)
    then show ?thesis using "2.prems" by (intro exI [of _ i] exI [of _ s] exI [of _ e]) simp
  next
    case True
    then obtain err where err: "added" "update i (pushed s tag event) = Some err" by auto
    note ev = event'_def [symmetric]
    have c: "IsConflict err" using "2.prems"(1) eq err s1 p by (auto simp: ev Let_def split: if_splits)
    obtain ls where ls: "find_latest i = Inr ls"
      using "2.prems"(1) eq err s1 p c by (auto simp: ev Let_def split: sum.splits)
    obtain x xs where "tl_Items (history s1 tag) = x # xs"
      using AddTagEvent_shows [OF s1] by (auto simp: shows_event_def split: list.splits)
    then have "last_event_after s s1 tag \<noteq> None"
      using "2.prems"(3) LatestTaggedImage_history [OF "2.prems"(2), of s1] by (simp add: last_event_after_def)
    then obtain lastEvent where le: "last_event_after s s1 tag = Some lastEvent" by blast
    obtain ne where ne: "LatestTaggedImage ls tag = Some ne"
      using "2.prems"(1) eq err s1 p c ls le by (auto simp: ev Let_def split: option.splits)
    have same: "lastEvent\<lparr>te_Generation := te_Generation ne, te_Created := te_Created ne\<rparr> = ne" and
      rest: "tag_attempts update find_latest tag event steps (Suc i) ls = Tagged"
      using "2.prems"(1) eq err s1 p c ls le ne by (auto simp: ev Let_def split: if_splits)
    have "same_event ne lastEvent" using same by (metis same_event_def tag_event.ext_inject tag_event.surjective
        tag_event.update_convs(1) tag_event.update_convs(4))
    moreover have "same_event lastEvent e \<or> same_event lastEvent event"
      using last_event_seen [OF s1 le "2.prems"(3,2)] by (simp add: event'_def same_event_def)
    ultimately have n: "same_event ne e0 \<or> same_event ne event" using "2.prems"(4) same_event_trans by metis
    have at: "stream_at find_latest s0 (Suc i) = Inr ls" using ls by (simp add: stream_at_def)
    have "\<exists>k sk e. k < Suc i + steps \<and> stream_at find_latest s0 k = Inr sk \<and> LatestTaggedImage sk tag = Some e \<and>
        (same_event e e0 \<or> same_event e event) \<and> (tags_image sk tag event \<or> update k (pushed sk tag event) = None)"
      by (rule "2.IH"(2) [OF event'_def refl s1 [symmetric] _ _ _ ls le ne same rest "2.prems"(2) ne n at])
        (use err c p in simp_all)
    then show ?thesis by simp
  qed
qed simp

lemma mapping_tag_ne: "mapping_tag m \<noteq> []"
  by (simp add: mapping_tag_def DefaultImageTag_def)

text \<open>
  C16: pushes of an image to a tag that already has an event, when the streams found have one spec entry
  for each tag.  A push that succeeds ends, after at most ten attempts, at a stream whose tag shows the
  pushed image or that accepted the image for the tag and for every tag that tracks it.  The event that it
  put the image in front of, or in place of, is the one that the push saw first, or the pushed image
  itself.
\<close>

theorem push_replaces_only_what_it_saw:
  assumes "mapping_Create update find_latest now imageCreateErr m s = Tagged"
    "LatestTaggedImage s (mapping_tag m) = Some e0"
    "\<And>k sk. stream_at find_latest s k = Inr sk \<Longrightarrow> distinct (map fst (is_SpecTags sk))"
  shows "\<exists>k sk e. k < maxRetriesOnConflict \<and> stream_at find_latest s k = Inr sk \<and>
    LatestTaggedImage sk (mapping_tag m) = Some e \<and>
    (same_event e e0 \<or> same_event e (mapping_event now imageCreateErr m s)) \<and>
    (tags_image sk (mapping_tag m) (mapping_event now imageCreateErr m s) \<or>
     (let s' = pushed sk (mapping_tag m) (mapping_event now imageCreateErr m s)
      in update k s' = None \<and> tags_image s' (mapping_tag m) (mapping_event now imageCreateErr m s) \<and>
         (\<forall>t r. spec_tag sk t = Some r \<and> tracks_tag sk r (mapping_tag m) \<longrightarrow>
            tags_image s' t (mapping_event now imageCreateErr m s))))"
proof -
  define event where "event = mapping_event now imageCreateErr m s"
  have t: "tag_attempts update find_latest (mapping_tag m) event maxRetriesOnConflict 0 s = Tagged"
    using assms(1) by (auto simp: mapping_Create_def event_def split: option.splits if_splits)
  obtain k sk e where k: "k < 0 + maxRetriesOnConflict" "stream_at find_latest s k = Inr sk"
    "LatestTaggedImage sk (mapping_tag m) = Some e" "same_event e e0 \<or> same_event e event"
    "tags_image sk (mapping_tag m) event \<or> update k (pushed sk (mapping_tag m) event) = None"
    using tag_attempts_Tagged [OF t mapping_tag_ne assms(2), of e0 s] by (auto simp: same_event_def stream_at_def)
  show ?thesis
    using k pushed_tags [OF assms(3) [OF k(2)], where tag = "mapping_tag m" and event = event]
    unfolding event_def [symmetric] Let_def by (intro exI [of _ k] exI [of _ sk] exI [of _ e]) auto
qed

section \<open>Other writers\<close>

definition push_stream :: "(string \<times> tag_event_list) list \<Rightarrow> image_stream" where
  "push_stream status = example_stream [(''b'', tag_to ''ImageStreamTag'' ''a'')] status"

definition history_of :: "string \<Rightarrow> string \<Rightarrow> tag_event_list" where
  "history_of ref img = \<lparr>tl_Items = [\<lparr>te_Created = 1, te_DockerImageReference = ref, te_Image = img, te_Generation = 1\<rparr>],
     tl_Conditions = []\<rparr>"

definition push_to_a :: stream_mapping where
  "push_to_a = \<lparr>ism_Name = ''app'', ism_Namespace = ''ns'', ism_DockerImageRepository = [],
     ism_Image = \<lparr>img_Name = ''new'', img_DockerImageReference = ''r'', img_Annotations = []\<rparr>, ism_Tag = ''a''\<rparr>"

text \<open>The first update meets a conflict, and the stream found then is the given one.\<close>

definition conflict_first :: "image_stream \<Rightarrow> image_stream \<Rightarrow> tag_result" where
  "conflict_first found s =
     mapping_Create (\<lambda>i s'. if i = 0 then Some (ConflictErr ''imagestreams'' ''app'') else None) (\<lambda>i. Inr found) 5 None
       push_to_a s"

theorem push_replaces_only_what_it_saw_witness:
  "\<exists>k sk e. k < maxRetriesOnConflict \<and>
     stream_at (\<lambda>i. Inr (push_stream [(''a'', history_of ''o'' ''old'')])) (push_stream [(''a'', history_of ''o'' ''old'')]) k = Inr sk \<and>
     LatestTaggedImage sk ''a'' = Some e"
proof -
  have t: "conflict_first (push_stream [(''a'', history_of ''o'' ''old'')]) (push_stream [(''a'', history_of ''o'' ''old'')]) = Tagged"
    by code_simp
  have e: "LatestTaggedImage (push_stream [(''a'', history_of ''o'' ''old'')]) (mapping_tag push_to_a) =
      Some \<lparr>te_Created = 1, te_DockerImageReference = ''o'', te_Image = ''old'', te_Generation = 1\<rparr>"
    by code_simp
  have d: "distinct (map fst (is_SpecTags sk))"
    if "stream_at (\<lambda>i. Inr (push_stream [(''a'', history_of ''o'' ''old'')])) (push_stream [(''a'', history_of ''o'' ''old'')]) k = Inr sk"
    for k sk
    using that by (auto simp: stream_at_def push_stream_def example_stream_def split: nat.splits)
  have tag: "mapping_tag push_to_a = ''a''" by code_simp
  show ?thesis
    using push_replaces_only_what_it_saw [OF t [unfolded conflict_first_def] e, unfolded tag] d by (meson order_refl)
qed

text \<open>
  Three ways in which the check for other writers fails.  A tag that another writer has deleted makes
  the request panic; a push that keeps the reference of the latest event reports a conflict although the
  tag has not changed, because the event it compares with has been written in place; and a first image
  of another writer is replaced without a conflict.
\<close>

theorem push_conflict_check_fails:
  "conflict_first (push_stream []) (push_stream [(''a'', history_of ''o'' ''old'')]) = Panics \<and>
   conflict_first (push_stream [(''a'', history_of ''r'' ''old'')]) (push_stream [(''a'', history_of ''r'' ''old'')]) =
     Failed (ConflictErr ''imagestreams'' ''app'') \<and>
   conflict_first (push_stream [(''a'', history_of ''x'' ''other'')]) (push_stream []) = Tagged"
  by code_simp

end
