(* ===== verification/Image_Parse.thy ===== *)
theory Image_Parse
  imports Image_Refs
begin

text \<open>
  The matcher of regular expressions decides their language, the references it finds are the input cut
  into pieces, and a reference that is parsed is printed as it was.
\<close>

section \<open>The language of a regular expression\<close>

inductive accepts :: "rexp \<Rightarrow> string \<Rightarrow> bool" where
  accepts_Eps: "accepts Eps []"
| accepts_Class: "f c \<Longrightarrow> accepts (Class f) [c]"
| accepts_Then: "accepts a p \<Longrightarrow> accepts b q \<Longrightarrow> accepts (Then a b) (p @ q)"
| accepts_Or1: "accepts a p \<Longrightarrow> accepts (Or a b) p"
| accepts_Or2: "accepts b p \<Longrightarrow> accepts (Or a b) p"
| accepts_Many0: "accepts (Many a) []"
| accepts_Many1: "accepts a p \<Longrightarrow> accepts (Many a) q \<Longrightarrow> accepts (Many a) (p @ q)"

inductive_cases accepts_ThenE: "accepts (Then a b) p"
inductive_simps accepts_simps: "accepts Eps p" "accepts (Class f) p" "accepts (Or a b) p"

lemma accepts_Then_iff: "accepts (Then a b) s \<longleftrightarrow> (\<exists>p q. s = p @ q \<and> accepts a p \<and> accepts b q)"
  by (blast elim: accepts_ThenE intro: accepts_Then)

lemma rests_Many_set:
  "t \<in> set (rests (Many a) s) \<longleftrightarrow>
     t = s \<or> (\<exists>u \<in> set (rests a s). length u < length s \<and> t \<in> set (rests (Many a) u))"
  by (subst rests.simps(5)) auto

lemma rests_sound: "t \<in> set (rests r s) \<Longrightarrow> \<exists>p. s = p @ t \<and> accepts r p"
proof (induction r s arbitrary: t rule: rests.induct)
  case (1 s)
  then show ?case by (auto intro: accepts_Eps)
next
  case (2 f s)
  then show ?case by (auto split: list.splits if_splits intro: accepts_Class)
next
  case (3 a b s)
  from "3.prems" obtain u where u: "u \<in> set (rests a s)" "t \<in> set (rests b u)" by auto
  from "3.IH"(1) [OF u(1)] obtain p where p: "s = p @ u" "accepts a p" by blast
  from "3.IH"(2) [OF u] obtain q where "u = q @ t" "accepts b q" by blast
  then show ?case using p by (intro exI [of _ "p @ q"]) (simp add: accepts.accepts_Then)
next
  case (4 a b s)
  then show ?case by (auto simp: accepts_simps)
next
  case (5 a s)
  from "5.prems" consider "t = s" |
    u where "u \<in> set (rests a s)" "length u < length s" "t \<in> set (rests (Many a) u)"
    by (subst (asm) rests_Many_set) blast
  then show ?case
  proof cases
    case 1
    then show ?thesis by (auto intro: accepts_Many0)
  next
    case 2
    from "5.IH"(1) [OF 2(1)] obtain p where p: "s = p @ u" "accepts a p" by blast
    from "5.IH"(2) [OF 2(1-3)] obtain q where "u = q @ t" "accepts (Many a) q" by blast
    then show ?thesis using p by (intro exI [of _ "p @ q"]) (auto intro: accepts_Many1)
  qed
qed

lemma rests_complete: "accepts r p \<Longrightarrow> t \<in> set (rests r (p @ t))"
proof (induction arbitrary: t rule: accepts.induct)
  case (accepts_Then a p b q)
  then show ?case using accepts_Then.IH(1) [of "q @ t"] by auto
next
  case (accepts_Many1 a p q)
  show ?case
  proof (cases "p = []")
    case True
    then show ?thesis using accepts_Many1.IH(2) by simp
  next
    case False
    have "q @ t \<in> set (rests a (p @ q @ t))" using accepts_Many1.IH(1) by blast
    moreover have "length (q @ t) < length (p @ q @ t)" using False by simp
    ultimately show ?thesis
      using accepts_Many1.IH(2) [of t] by (subst rests_Many_set) (intro disjI2 bexI [of _ "q @ t"], simp_all)
  qed
next
  case (accepts_Many0 a)
  then show ?case by (subst rests_Many_set) simp
qed auto

lemma rests_iff: "t \<in> set (rests r s) \<longleftrightarrow> (\<exists>p. s = p @ t \<and> accepts r p)"
  using rests_sound rests_complete by blast

lemma matches_accepts: "matches r s \<longleftrightarrow> accepts r s"
  by (simp add: matches_def rests_iff)

section \<open>Names are made of nonempty components\<close>

primrec only_chars :: "(char \<Rightarrow> bool) \<Rightarrow> rexp \<Rightarrow> bool" where
  "only_chars P Eps \<longleftrightarrow> True"
| "only_chars P (Class f) \<longleftrightarrow> (\<forall>c. f c \<longrightarrow> P c)"
| "only_chars P (Then a b) \<longleftrightarrow> only_chars P a \<and> only_chars P b"
| "only_chars P (Or a b) \<longleftrightarrow> only_chars P a \<and> only_chars P b"
| "only_chars P (Many a) \<longleftrightarrow> only_chars P a"

lemma accepts_only_chars: "accepts r p \<Longrightarrow> only_chars P r \<Longrightarrow> list_all P p"
  by (induction rule: accepts.induct) auto

definition nonempty :: "rexp \<Rightarrow> bool" where
  "nonempty r \<longleftrightarrow> (\<forall>p. accepts r p \<longrightarrow> p \<noteq> [])"

lemma nonempty_intros:
  "nonempty (Class f)" "nonempty a \<Longrightarrow> nonempty (Then a b)" "nonempty a \<Longrightarrow> nonempty b \<Longrightarrow> nonempty (Or a b)"
  by (auto simp: nonempty_def accepts_Then_iff accepts_simps)

lemma nonempty_Repeated: "nonempty a \<Longrightarrow> nonempty (Repeated a)"
  by (simp add: Repeated_def nonempty_intros)

text \<open>No component between slashes is empty.\<close>

definition clean :: "string \<Rightarrow> bool" where
  "clean s \<longleftrightarrow> [] \<notin> set (split_char CHR ''/'' s)"

lemma split_char_slash: "split_char c (s @ c # t) = split_char c s @ split_char c t"
proof (induction s)
  case (Cons d s)
  then show ?case by (cases "split_char c s") auto
qed simp

lemma clean_join: "clean s \<Longrightarrow> clean t \<Longrightarrow> clean (s @ CHR ''/'' # t)"
  by (simp add: clean_def split_char_slash)

lemma clean_single: "CHR ''/'' \<notin> set s \<Longrightarrow> clean s \<longleftrightarrow> s \<noteq> []"
  by (auto simp: clean_def split_char_join)

lemma clean_not_Nil: "clean s \<Longrightarrow> s \<noteq> []"
  by (auto simp: clean_def)

lemma clean_cut:
  assumes "first_index CHR ''/'' s = Some i" "clean s"
  shows "take i s \<noteq> []" "clean (drop (i + 1) s)" "s = take i s @ CHR ''/'' # drop (i + 1) s"
proof -
  have s: "CHR ''/'' \<notin> set (take i s)" "s = take i s @ CHR ''/'' # drop (i + 1) s"
    using assms(1) by (simp_all add: first_index_Some)
  then have "split_char CHR ''/'' s = take i s # split_char CHR ''/'' (drop (i + 1) s)"
    using split_char_append by metis
  then show "take i s \<noteq> []" "clean (drop (i + 1) s)" using assms(2) by (auto simp: clean_def)
  show "s = take i s @ CHR ''/'' # drop (i + 1) s" by (rule s(2))
qed

lemma accepts_clean:
  assumes "nonempty r" "only_chars (\<lambda>c. c \<noteq> CHR ''/'') r" "accepts r p"
  shows "clean p"
proof -
  have "CHR ''/'' \<notin> set p" using accepts_only_chars [OF assms(3,2)] by (auto simp: list_all_iff)
  then show ?thesis using assms(1,3) by (simp add: clean_single nonempty_def)
qed

lemma slash_classes [simp]: "\<not> lower CHR ''/''" "\<not> digit CHR ''/''" "\<not> letter CHR ''/''"
  by (simp_all add: lower_def digit_def letter_def upper_def code_in_def)

lemma nameComponent_clean: "accepts nameComponentRegexp p \<Longrightarrow> clean p"
proof (rule accepts_clean)
  show "nonempty nameComponentRegexp"
    by (simp add: nameComponentRegexp_def alphaNumericRegexp_def nonempty_intros nonempty_Repeated)
  show "only_chars (\<lambda>c. c \<noteq> CHR ''/'') nameComponentRegexp"
    by (auto simp: nameComponentRegexp_def alphaNumericRegexp_def separatorRegexp_def Repeated_def Optional_def Literal_def)
qed

lemma hostname_clean: "accepts hostnameRegexp p \<Longrightarrow> clean p"
proof (rule accepts_clean)
  show "nonempty hostnameRegexp"
    by (simp add: hostnameRegexp_def hostnameComponentRegexp_def nonempty_intros)
  show "only_chars (\<lambda>c. c \<noteq> CHR ''/'') hostnameRegexp"
    by (auto simp: hostnameRegexp_def hostnameComponentRegexp_def Repeated_def Optional_def Literal_def)
qed

lemma components_clean:
  assumes "accepts (Many (Then (Literal CHR ''/'') nameComponentRegexp)) q" "clean p"
  shows "clean (p @ q)"
  using assms
proof (induction "Many (Then (Literal CHR ''/'') nameComponentRegexp)" q arbitrary: p rule: accepts.induct)
  case (accepts_Many1 c q)
  then obtain d where d: "c = CHR ''/'' # d" "accepts nameComponentRegexp d"
    by (auto simp: accepts_Then_iff accepts_simps Literal_def)
  then have "clean (p @ c)" using clean_join [OF accepts_Many1.prems nameComponent_clean] by simp
  then show ?case using accepts_Many1.hyps(3) [of "p @ c"] by simp
qed simp

lemma NameRegexp_clean:
  assumes "accepts NameRegexp p"
  shows "clean p"
proof -
  obtain h c q where p: "p = h @ c @ q"
    and H: "accepts (Optional (Then hostnameRegexp (Literal CHR ''/''))) h"
    and c: "accepts nameComponentRegexp c"
    and Q: "accepts (Optional (Repeated (Then (Literal CHR ''/'') nameComponentRegexp))) q"
    using assms unfolding NameRegexp_def accepts_Then_iff by blast
  have h: "h = [] \<or> (\<exists>x. accepts hostnameRegexp x \<and> h = x @ [CHR ''/''])"
    using H unfolding Optional_def accepts_simps accepts_Then_iff Literal_def by blast
  have q: "q = [] \<or> accepts (Repeated (Then (Literal CHR ''/'') nameComponentRegexp)) q"
    using Q unfolding Optional_def accepts_simps by blast
  from q have "accepts (Many (Then (Literal CHR ''/'') nameComponentRegexp)) q"
    unfolding Repeated_def by (blast elim: accepts_ThenE intro: accepts_Many0 accepts_Many1)
  then have "clean (c @ q)" by (rule components_clean) (rule nameComponent_clean [OF c])
  then show ?thesis using h hostname_clean clean_join unfolding p by auto
qed

section \<open>The groups of a reference\<close>

lemma consumed_append [simp]: "consumed (p @ t) t = p"
  by (simp add: consumed_def)

lemma starts_with_Class: "accepts (Then (Class f) b) p \<Longrightarrow> p \<noteq> []"
  by (auto simp: accepts_Then_iff accepts_simps)

lemma optional_group_pieces:
  assumes "(g, u) \<in> set (optional_group c r s)" "\<And>p. accepts r p \<Longrightarrow> p \<noteq> []"
  shows "s = (if g = [] then [] else c # g) @ u \<and> (g = [] \<or> accepts r g)"
proof -
  from assms(1) consider "g = []" "u = s" |
    ds where "s = c # ds" "u \<in> set (rests r ds)" "g = consumed ds u"
    by (auto simp: optional_group_def split: list.splits if_splits)
  then show ?thesis
  proof cases
    case 2
    from rests_sound [OF 2(2)] obtain p where "ds = p @ u" "accepts r p" by blast
    then show ?thesis using 2 assms(2) by auto
  qed simp
qed

lemma ReferenceRegexp_pieces:
  assumes "(name, tag, dig) \<in> set (ReferenceRegexp_groups s)"
  shows "s = name @ (if tag = [] then [] else CHR '':'' # tag) @ (if dig = [] then [] else CHR ''@'' # dig)"
    "accepts NameRegexp name" "tag = [] \<or> accepts TagRegexp tag" "dig = [] \<or> accepts DigestRegexp dig"
proof -
  obtain t1 t2 where t: "t1 \<in> set (rests NameRegexp s)" "name = consumed s t1"
    "(tag, t2) \<in> set (optional_group CHR '':'' TagRegexp t1)" "(dig, []) \<in> set (optional_group CHR ''@'' DigestRegexp t2)"
    using assms by (auto simp: ReferenceRegexp_groups_def split: if_splits)
  from rests_sound [OF t(1)] obtain p where p: "s = p @ t1" "accepts NameRegexp p" by blast
  have "p' \<noteq> []" if "accepts TagRegexp p' \<or> accepts DigestRegexp p'" for p'
    using that starts_with_Class unfolding TagRegexp_def DigestRegexp_def by blast
  then have "t1 = (if tag = [] then [] else CHR '':'' # tag) @ t2 \<and> (tag = [] \<or> accepts TagRegexp tag)"
    "t2 = (if dig = [] then [] else CHR ''@'' # dig) @ [] \<and> (dig = [] \<or> accepts DigestRegexp dig)"
    using optional_group_pieces [OF t(3)] optional_group_pieces [OF t(4)] by blast+
  then show "s = name @ (if tag = [] then [] else CHR '':'' # tag) @ (if dig = [] then [] else CHR ''@'' # dig)"
    "accepts NameRegexp name" "tag = [] \<or> accepts TagRegexp tag" "dig = [] \<or> accepts DigestRegexp dig"
    using p t(2) by auto
qed

lemma ReferenceRegexp_name: "(name, tag, dig) \<in> set (ReferenceRegexp_groups s) \<Longrightarrow> name \<noteq> []"
  using ReferenceRegexp_pieces(2) NameRegexp_clean clean_not_Nil by blast

lemma ParseDigest_same: "ParseDigest s = Inr d \<Longrightarrow> d = s"
  by (auto simp: ParseDigest_def split: option.splits)

lemma docker_Parse_pieces:
  assumes "docker_Parse s = Inr (name, tag, dig)"
  shows "s = name @ (if tag = [] then [] else CHR '':'' # tag) @ (if dig = [] then [] else CHR ''@'' # dig)"
    "accepts NameRegexp name" "dig = [] \<or> ParseDigest dig = Inr dig"
proof -
  have "\<exists>d. (name, tag, d) \<in> set (ReferenceRegexp_groups s) \<and> dig = d \<and> (d = [] \<or> ParseDigest d = Inr d)"
    using assms
    by (auto simp: docker_Parse_def split: list.splits if_splits sum.splits) (metis ParseDigest_same)+
  then show "s = name @ (if tag = [] then [] else CHR '':'' # tag) @ (if dig = [] then [] else CHR ''@'' # dig)"
    "accepts NameRegexp name" "dig = [] \<or> ParseDigest dig = Inr dig"
    using ReferenceRegexp_pieces by blast+
qed

section \<open>Printing what was parsed\<close>

lemma first_index_split: "first_index c s = Some i \<Longrightarrow> take i s @ c # drop (i + 1) s = s"
  by (simp add: first_index_Some)

text \<open>The pieces of a name, put together again, are the name; the last one is not empty.\<close>

lemma ParseNamed_pieces:
  assumes "ParseNamedDockerImageReference s = Inr r"
  obtains name where "docker_Parse s = Inr (name, ref_Tag r, ref_ID r)" "ref_Name r \<noteq> []"
    "name = (if ref_Registry r = [] then [] else ref_Registry r @ ''/'') @
      (if ref_Namespace r = [] then [] else ref_Namespace r @ ''/'') @ ref_Name r"
proof -
  obtain name tag dig where d: "docker_Parse s = Inr (name, tag, dig)"
    using assms by (auto simp: ParseNamedDockerImageReference_def split: sum.splits)
  have c: "clean name" using NameRegexp_clean docker_Parse_pieces(2) [OF d] by blast
  obtain registry rest where
    cut1: "name = (if registry = [] then [] else registry @ ''/'') @ rest" "clean rest" and
    s1: "(case first_index CHR ''/'' name of None \<Rightarrow> ([], name)
      | Some i \<Rightarrow> if \<not> list_ex (\<lambda>c. c = CHR '':'' \<or> c = CHR ''.'') (take i name) \<and> take i name \<noteq> ''localhost''
          then ([], name) else (take i name, drop (i + 1) name)) = (registry, rest)"
  proof (cases "first_index CHR ''/'' name")
    case (Some i)
    show thesis
    proof (cases "\<not> list_ex (\<lambda>c. c = CHR '':'' \<or> c = CHR ''.'') (take i name) \<and> take i name \<noteq> ''localhost''")
      case True
      then show thesis using that [of "[]" name] c Some by simp
    next
      case False
      then show thesis using that [of "take i name" "drop (i + 1) name"] clean_cut [OF Some c] Some by auto
    qed
  qed (use that [of "[]" name] c in simp)
  obtain namespace nm where
    cut2: "rest = (if namespace = [] then [] else namespace @ ''/'') @ nm" "nm \<noteq> []" and
    s2: "(case first_index CHR ''/'' rest of None \<Rightarrow> ([], rest) | Some i \<Rightarrow> (take i rest, drop (i + 1) rest)) = (namespace, nm)"
  proof (cases "first_index CHR ''/'' rest")
    case (Some i)
    note cc = clean_cut [OF Some cut1(2)]
    show thesis using that [of "take i rest" "drop (i + 1) rest"] cc(1,3) clean_not_Nil [OF cc(2)] Some by simp
  qed (use that [of "[]" rest] cut1(2) clean_not_Nil in auto)
  have "r = \<lparr>ref_Registry = registry, ref_Namespace = namespace, ref_Name = nm, ref_Tag = tag, ref_ID = dig\<rparr>"
    using assms unfolding ParseNamedDockerImageReference_def d by (simp add: s1 s2)
  then show ?thesis using that [of name] d cut1(1) cut2 by auto
qed

text \<open>
  C19: printing inverts parsing.  \<open>Exact\<close> of a parsed reference is the text it was parsed from; when the
  text has a tag and a digest, \<open>Exact\<close> prints the tag and \<open>Exact\<close> after \<open>MostSpecific\<close> the digest.
\<close>

theorem image_reference_roundtrip:
  assumes "ParseDockerImageReference s = Inr r"
  shows "(if ref_Tag r = [] \<or> ref_ID r = [] then Exact r = s
     else \<exists>name. s = name @ '':'' @ ref_Tag r @ ''@'' @ ref_ID r \<and> Exact r = name @ '':'' @ ref_Tag r \<and>
       Exact (MostSpecific r) = name @ ''@'' @ ref_ID r)"
proof -
  obtain name where n: "docker_Parse s = Inr (name, ref_Tag r, ref_ID r)" "ref_Name r \<noteq> []"
    "name = (if ref_Registry r = [] then [] else ref_Registry r @ ''/'') @
      (if ref_Namespace r = [] then [] else ref_Namespace r @ ''/'') @ ref_Name r"
    using ParseNamed_pieces assms(1) unfolding ParseDockerImageReference_def by metis
  note d = docker_Parse_pieces [OF n(1)]
  have one: "Exact r = s" if "ref_Tag r = [] \<or> ref_ID r = []"
    using d(1,3) n(2) that unfolding n(3) by (auto simp: Exact_def NameString_def Let_def)
  have "s = name @ '':'' @ ref_Tag r @ ''@'' @ ref_ID r" "Exact r = name @ '':'' @ ref_Tag r"
    "Exact (MostSpecific r) = name @ ''@'' @ ref_ID r" if "ref_Tag r \<noteq> []" "ref_ID r \<noteq> []"
    using d(1,3) n(2) that unfolding n(3) by (auto simp: Exact_def NameString_def MostSpecific_def Let_def)
  then show ?thesis using one by auto
qed

theorem image_reference_roundtrip_witness:
  "Exact \<lparr>ref_Registry = [], ref_Namespace = ''n'', ref_Name = ''a'', ref_Tag = ''t'', ref_ID = []\<rparr> = ''n/a:t''"
proof -
  have "ParseDockerImageReference ''n/a:t'' =
      Inr \<lparr>ref_Registry = [], ref_Namespace = ''n'', ref_Name = ''a'', ref_Tag = ''t'', ref_ID = []\<rparr>"
    by code_simp
  from image_reference_roundtrip [OF this] show ?thesis by simp
qed

section \<open>Defaults\<close>

lemma default_names:
  "DockerDefaultRegistry \<noteq> []" "DockerDefaultV1Registry \<noteq> []" "DockerDefaultV2Registry \<noteq> []"
  "DockerDefaultNamespace \<noteq> []" "DefaultImageTag \<noteq> []"
  "DockerDefaultV1Registry \<noteq> DockerDefaultRegistry" "DockerDefaultV2Registry \<noteq> DockerDefaultRegistry"
  by (simp_all add: DockerDefaultRegistry_def DockerDefaultV1Registry_def DockerDefaultV2Registry_def
      DockerDefaultNamespace_def DefaultImageTag_def)

lemma defaults_fields:
  "ref_Registry (DockerClientDefaults r) = (if ref_Registry r = [] then DockerDefaultRegistry else ref_Registry r)"
  "ref_Namespace (DockerClientDefaults r) =
     (if ref_Namespace r = [] \<and> (ref_Registry r = [] \<or> IsRegistryDockerHub (ref_Registry r))
      then DockerDefaultNamespace else ref_Namespace r)"
  "ref_Name (DockerClientDefaults r) = ref_Name r" "ref_ID (DockerClientDefaults r) = ref_ID r"
  "ref_Tag (DockerClientDefaults r) = (if ref_Tag r = [] then DefaultImageTag else ref_Tag r)"
  by (auto simp: DockerClientDefaults_def Let_def IsRegistryDockerHub_def)

lemma minimal_fields:
  "ref_Registry (DaemonMinimal r) =
     (if IsRegistryDockerHub (ref_Registry r) then DockerDefaultRegistry else ref_Registry r)"
  "ref_Namespace (DaemonMinimal r) =
     (if ref_Namespace r = DockerDefaultNamespace \<and> IsRegistryDockerHub (ref_Registry r) then [] else ref_Namespace r)"
  "ref_Name (DaemonMinimal r) = ref_Name r" "ref_ID (DaemonMinimal r) = ref_ID r"
  "ref_Tag (DaemonMinimal r) = (if ref_Tag r = DefaultImageTag then [] else ref_Tag r)"
  by (auto simp: DaemonMinimal_def Minimal_def Let_def IsRegistryDockerHub_def)

lemma hub_default [simp]: "IsRegistryDockerHub DockerDefaultRegistry"
  by (simp add: IsRegistryDockerHub_def)

lemma DockerClientDefaults_idem: "DockerClientDefaults (DockerClientDefaults r) = DockerClientDefaults r"
  by (rule docker_image_reference.equality) (auto simp: defaults_fields default_names)

lemma DaemonMinimal_idem: "DaemonMinimal (DaemonMinimal r) = DaemonMinimal r"
  by (rule docker_image_reference.equality) (auto simp: minimal_fields default_names)

text \<open>Clearing the defaults and setting them again changes only the registry of Docker Hub.\<close>

lemma defaults_of_minimal:
  "DockerClientDefaults (DaemonMinimal (DockerClientDefaults r)) =
   (if IsRegistryDockerHub (ref_Registry (DockerClientDefaults r))
    then (DockerClientDefaults r)\<lparr>ref_Registry := DockerDefaultRegistry\<rparr> else DockerClientDefaults r)"
  by (rule docker_image_reference.equality) (auto simp: defaults_fields minimal_fields default_names)

section \<open>Names of tags and images\<close>

lemma splitN2_append: "c \<notin> set a \<Longrightarrow> splitN2 c (a @ c # b) = [a, b]"
proof -
  assume a: "c \<notin> set a"
  then have "takeWhile (\<lambda>d. d \<noteq> c) (a @ c # b) = a" "dropWhile (\<lambda>d. d \<noteq> c) (a @ c # b) = c # b"
    by (induction a) auto
  then show ?thesis by (simp add: splitN2_def)
qed

lemma Split_Join_tag:
  "CHR '':'' \<notin> set name \<Longrightarrow> SplitImageStreamTag (JoinImageStreamTag name tag) =
     (name, if tag = [] then DefaultImageTag else tag, True)"
  by (simp add: SplitImageStreamTag_def JoinImageStreamTag_def splitN2_append DefaultImageTag_def)

lemma Split_Make_image:
  "CHR ''@'' \<notin> set name \<Longrightarrow> SplitImageStreamImage (MakeImageStreamImageName name id') = (name, id', True)"
  by (simp add: SplitImageStreamImage_def MakeImageStreamImageName_def splitN2_append)

lemma Split_Join_signature:
  assumes "JoinImageSignatureName i n = Inr s"
  shows "SplitImageSignatureName s = ((i, n), None)"
proof -
  have s: "s = i @ CHR ''@'' # n" "i \<noteq> []" "n \<noteq> []" "CHR ''@'' \<notin> set i" "CHR ''@'' \<notin> set n"
    using assms by (auto simp: JoinImageSignatureName_def split: if_splits)
  then show ?thesis by (simp add: SplitImageSignatureName_def split_char_append split_char_join)
qed

lemma NormalizeImageStreamTag_idem: "NormalizeImageStreamTag (NormalizeImageStreamTag name) = NormalizeImageStreamTag name"
proof (cases "CHR '':'' \<in> set name")
  case True
  then show ?thesis by (simp add: NormalizeImageStreamTag_def SplitImageStreamTag_def splitN2_def Let_def)
next
  case False
  then have "NormalizeImageStreamTag name = name @ CHR '':'' # DefaultImageTag"
    by (simp add: NormalizeImageStreamTag_def SplitImageStreamTag_def splitN2_def Let_def JoinImageStreamTag_def
        DefaultImageTag_def)
  then show ?thesis
    using False by (simp add: NormalizeImageStreamTag_def SplitImageStreamTag_def splitN2_append Let_def)
qed

end
