(* ===== verification/Event_Queue.thy ===== *)
theory Event_Queue
  imports Kube_Store
begin

text \<open>
  \<open>origin/pkg/client/cache/eventqueue.go\<close>: a store that offers its consumer a compressed sequence of
  watch events.  The queue works on any \<open>Store\<close>, a parameter; the theorems rest on the laws of
  \<open>kv_store\<close> and are stated for the cache that \<open>NewEventQueue\<close> creates.  A panic is \<open>None\<close> or
  \<open>PopPanic\<close>; \<open>Pop\<close> on an empty queue waits, which is \<open>PopBlocked\<close>.
\<close>

section \<open>State and operations\<close>

record ('s, 'o) event_queue =
  eq_store :: 's
  eq_events :: "string \<Rightarrow> event_type option"
  eq_queue :: "string list"
  eq_lastReplaceKey :: string
  eq_replaceCalled :: bool
  eq_replaceCount :: nat

datatype watch_effect = EffectAdd | EffectCompress | EffectDelete

fun watchEventEffectMatrix :: "event_type \<Rightarrow> event_type \<Rightarrow> watch_effect option" where
  "watchEventEffectMatrix Added Modified = Some EffectCompress"
| "watchEventEffectMatrix Added Deleted = Some EffectDelete"
| "watchEventEffectMatrix Modified Modified = Some EffectCompress"
| "watchEventEffectMatrix Modified Deleted = Some EffectCompress"
| "watchEventEffectMatrix _ _ = None"

fun watchEventCompressionMatrix :: "event_type \<Rightarrow> event_type \<Rightarrow> event_type option" where
  "watchEventCompressionMatrix Added Modified = Some Added"
| "watchEventCompressionMatrix Modified Modified = Some Modified"
| "watchEventCompressionMatrix Modified Deleted = Some Deleted"
| "watchEventCompressionMatrix _ _ = None"

definition updateStore ::
  "('s, 'o) store_if \<Rightarrow> 's \<Rightarrow> 'o \<Rightarrow> event_type \<Rightarrow> 's \<times> go_error option" where
  "updateStore ops s x eventType =
     (if eventType = Deleted then (s, None)
      else if eventType = Added then st_Add ops s x
      else st_Update ops s x)"

definition queueWithout :: "string list \<Rightarrow> string \<Rightarrow> string list" where
  "queueWithout queue key = filter (\<lambda>qkey. qkey \<noteq> key) queue"

definition handleEvent ::
  "('s, 'o) store_if \<Rightarrow> 'o key_func \<Rightarrow> ('s, 'o) event_queue \<Rightarrow> 'o \<Rightarrow> event_type \<Rightarrow>
   (('s, 'o) event_queue \<times> go_error option) option" where
  "handleEvent ops keyFn eq x newEventType =
     (case keyFn x of
        Inl err \<Rightarrow> Some (eq, Some err)
      | Inr key \<Rightarrow>
          (case (case eq_events eq key of
                   None \<Rightarrow> Some EffectAdd
                 | Some queuedEventType \<Rightarrow> watchEventEffectMatrix queuedEventType newEventType) of
             None \<Rightarrow> None
           | Some effect \<Rightarrow>
               (let (s, err) = updateStore ops (eq_store eq) x newEventType;
                    eq1 = eq\<lparr>eq_store := s\<rparr>
                in case err of
                     Some e \<Rightarrow> Some (eq1, Some e)
                   | None \<Rightarrow>
                       (case effect of
                          EffectAdd \<Rightarrow>
                            Some (eq1\<lparr>eq_events := (eq_events eq1)(key \<mapsto> newEventType),
                                      eq_queue := eq_queue eq1 @ [key]\<rparr>, None)
                        | EffectCompress \<Rightarrow>
                            (case Option.bind (eq_events eq1 key) (\<lambda>q. watchEventCompressionMatrix q newEventType) of
                               None \<Rightarrow> None
                             | Some t \<Rightarrow> Some (eq1\<lparr>eq_events := (eq_events eq1)(key \<mapsto> t)\<rparr>, None))
                        | EffectDelete \<Rightarrow>
                            Some (eq1\<lparr>eq_events := (eq_events eq1)(key := None),
                                      eq_queue := queueWithout (eq_queue eq1) key\<rparr>, None)))))"

definition eq_Add where "eq_Add ops keyFn eq x = handleEvent ops keyFn eq x Added"
definition eq_Update where "eq_Update ops keyFn eq x = handleEvent ops keyFn eq x Modified"
definition eq_Delete where "eq_Delete ops keyFn eq x = handleEvent ops keyFn eq x Deleted"

text \<open>The items of the queue; a key that is not in the store is a panic.\<close>

fun list_items :: "('s, 'o) store_if \<Rightarrow> 's \<Rightarrow> string list \<Rightarrow> 'o list option" where
  "list_items ops s [] = Some []"
| "list_items ops s (key # keys) =
     (case st_GetByKey ops s key of
        Inr (Some item) \<Rightarrow> map_option (\<lambda>items. item # items) (list_items ops s keys)
      | _ \<Rightarrow> None)"

definition eq_List :: "('s, 'o) store_if \<Rightarrow> ('s, 'o) event_queue \<Rightarrow> 'o list option" where
  "eq_List ops eq = list_items ops (eq_store eq) (eq_queue eq)"

text \<open>\<open>ListKeys\<close> copies into a slice of length 0, so it copies nothing.\<close>

definition eq_ListKeys :: "('s, 'o) event_queue \<Rightarrow> string list" where
  "eq_ListKeys eq = take 0 (eq_queue eq)"

definition eq_ContainedIDs :: "('s, 'o) event_queue \<Rightarrow> sset" where
  "eq_ContainedIDs eq = Some (Insert [] (eq_queue eq))"

definition eq_GetByKey :: "('s, 'o) store_if \<Rightarrow> ('s, 'o) event_queue \<Rightarrow> string \<Rightarrow> go_error + 'o option" where
  "eq_GetByKey ops eq key =
     (case eq_events eq key of None \<Rightarrow> Inr None | Some _ \<Rightarrow> st_GetByKey ops (eq_store eq) key)"

definition eq_Get :: "('s, 'o) store_if \<Rightarrow> 'o key_func \<Rightarrow> ('s, 'o) event_queue \<Rightarrow> 'o \<Rightarrow> go_error + 'o option" where
  "eq_Get ops keyFn eq x =
     (case keyFn x of Inl err \<Rightarrow> Inl err | Inr key \<Rightarrow> eq_GetByKey ops eq key)"

text \<open>The event type a \<open>Pop\<close> returns is the empty string, here \<open>None\<close>, when the key has no event.\<close>

datatype 'o pop_result = Popped "event_type option" 'o | PopErr go_error | PopPanic | PopBlocked

definition eq_Pop ::
  "('s, 'o) store_if \<Rightarrow> ('s, 'o) event_queue \<Rightarrow> ('s, 'o) event_queue \<times> 'o pop_result" where
  "eq_Pop ops eq =
     (case eq_queue eq of
        [] \<Rightarrow> (eq, PopBlocked)
      | key # rest \<Rightarrow>
          (let eventType = eq_events eq key;
               eq1 = eq\<lparr>eq_queue := rest, eq_events := (eq_events eq)(key := None)\<rparr>;
               eq2 = (if eq_lastReplaceKey eq1 \<noteq> [] \<and> eq_lastReplaceKey eq1 = key
                      then eq1\<lparr>eq_lastReplaceKey := []\<rparr> else eq1)
           in case st_GetByKey ops (eq_store eq2) key of
                Inl err \<Rightarrow> (eq2, PopErr err)
              | Inr None \<Rightarrow> (eq2, PopPanic)
              | Inr (Some x) \<Rightarrow>
                  (if eventType = Some Deleted then
                     (case st_Delete ops (eq_store eq2) x of
                        (s, Some err) \<Rightarrow> (eq2\<lparr>eq_store := s\<rparr>, PopErr err)
                      | (s, None) \<Rightarrow> (eq2\<lparr>eq_store := s\<rparr>, Popped eventType x))
                   else (eq2, Popped eventType x))))"

text \<open>\<open>Cancel\<close> wakes the waiting \<open>Pop\<close>, whose loop tests the queue again: no change of state.\<close>

definition eq_Cancel :: "('s, 'o) event_queue \<Rightarrow> ('s, 'o) event_queue" where
  "eq_Cancel eq = eq"

fun replace_keys ::
  "'o key_func \<Rightarrow> 'o list \<Rightarrow> ('s, 'o) event_queue \<Rightarrow> ('s, 'o) event_queue \<times> go_error option" where
  "replace_keys keyFn [] eq = (eq, None)"
| "replace_keys keyFn (x # xs) eq =
     (case keyFn x of
        Inl err \<Rightarrow> (eq, Some err)
      | Inr key \<Rightarrow>
          replace_keys keyFn xs
            (eq\<lparr>eq_queue := eq_queue eq @ [key], eq_events := (eq_events eq)(key \<mapsto> Modified)\<rparr>))"

definition eq_Replace ::
  "('s, 'o) store_if \<Rightarrow> 'o key_func \<Rightarrow> ('s, 'o) event_queue \<Rightarrow> 'o list \<Rightarrow> string \<Rightarrow>
   ('s, 'o) event_queue \<times> go_error option" where
  "eq_Replace ops keyFn eq xs resourceVersion =
     (let eq1 = eq\<lparr>eq_replaceCalled := True, eq_replaceCount := length xs,
                   eq_events := (\<lambda>_. None), eq_queue := []\<rparr>
      in case replace_keys keyFn xs eq1 of
           (eq2, Some err) \<Rightarrow> (eq2, Some err)
         | (eq2, None) \<Rightarrow>
             (case st_Replace ops (eq_store eq2) xs resourceVersion of
                (s, Some err) \<Rightarrow> (eq2\<lparr>eq_store := s\<rparr>, Some err)
              | (s, None) \<Rightarrow>
                  (let eq3 = eq2\<lparr>eq_store := s\<rparr>
                   in (eq3\<lparr>eq_lastReplaceKey :=
                             (if 0 < length (eq_queue eq3) then last (eq_queue eq3) else [])\<rparr>, None))))"

definition eq_ListSuccessfulAtLeastOnce where "eq_ListSuccessfulAtLeastOnce eq = eq_replaceCalled eq"
definition eq_ListCount where "eq_ListCount eq = eq_replaceCount eq"
definition eq_ListConsumed where "eq_ListConsumed eq \<longleftrightarrow> eq_lastReplaceKey eq = []"

definition eq_Resync :: "('s, 'o) store_if \<Rightarrow> ('s, 'o) event_queue \<Rightarrow> ('s, 'o) event_queue" where
  "eq_Resync ops eq =
     (let inQueue = NewString (eq_queue eq);
          eq1 = eq\<lparr>eq_queue := eq_queue eq @ filter (\<lambda>i. \<not> Has inQueue i) (st_ListKeys ops (eq_store eq))\<rparr>
      in if 0 < length (eq_queue eq1) then eq1 else eq1\<lparr>eq_lastReplaceKey := []\<rparr>)"

definition NewEventQueueForStore :: "'s \<Rightarrow> ('s, 'o) event_queue" where
  "NewEventQueueForStore s =
     \<lparr>eq_store = s, eq_events = (\<lambda>_. None), eq_queue = [], eq_lastReplaceKey = [],
      eq_replaceCalled = False, eq_replaceCount = 0\<rparr>"

definition NewEventQueue :: "('o cache_map, 'o) event_queue" where
  "NewEventQueue = NewEventQueueForStore []"

section \<open>Compression loses nothing\<close>

text \<open>
  The producer's view \<open>L\<close> is what the events say the objects are, the consumer's view \<open>V\<close> what the
  popped events say.  Producers follow the watch protocol: an object is added only when it does not
  exist, and modified or deleted only when it does.
\<close>

definition apply_event :: "event_type \<Rightarrow> string \<Rightarrow> 'o \<Rightarrow> (string \<Rightarrow> 'o option) \<Rightarrow> (string \<Rightarrow> 'o option)" where
  "apply_event t k x M = (if t = Deleted then M(k := None) else M(k \<mapsto> x))"

definition valid_event :: "(string \<Rightarrow> 'o option) \<Rightarrow> string \<Rightarrow> event_type \<Rightarrow> bool" where
  "valid_event L k t \<longleftrightarrow> t = Added \<and> L k = None \<or> (t = Modified \<or> t = Deleted) \<and> L k \<noteq> None"

inductive eq_run ::
  "('s, 'o) store_if \<Rightarrow> 'o key_func \<Rightarrow> ('s, 'o) event_queue \<Rightarrow>
   (string \<Rightarrow> 'o option) \<Rightarrow> (string \<Rightarrow> 'o option) \<Rightarrow> bool"
  for ops :: "('s, 'o) store_if" and key :: "'o key_func" where
  new: "(\<And>k. st_GetByKey ops s k = Inr None) \<Longrightarrow>
    eq_run ops key (NewEventQueueForStore s) Map.empty Map.empty"
| event: "eq_run ops key q L V \<Longrightarrow> key x = Inr k \<Longrightarrow> valid_event L k t \<Longrightarrow>
    handleEvent ops key q x t = Some (q', err) \<Longrightarrow> eq_run ops key q' (apply_event t k x L) V"
| pop: "eq_run ops key q L V \<Longrightarrow> eq_Pop ops q = (q', Popped (Some t) x) \<Longrightarrow> key x = Inr k \<Longrightarrow>
    eq_run ops key q' L (apply_event t k x V)"
| relist: "eq_run ops key q L V \<Longrightarrow> map key xs = map Inr ks \<Longrightarrow> distinct ks \<Longrightarrow> dom V \<subseteq> set ks \<Longrightarrow>
    [] \<notin> set ks \<Longrightarrow> eq_Replace ops key q xs v = (q', err) \<Longrightarrow> eq_run ops key q' (map_of (zip ks xs)) V"

text \<open>What holds of one key: the queued event, the stored object and the two views.\<close>

fun key_ok :: "event_type option \<Rightarrow> 'o option \<Rightarrow> 'o option \<Rightarrow> 'o option \<Rightarrow> bool" where
  "key_ok None s l v \<longleftrightarrow> v = l \<and> (l \<noteq> None \<longrightarrow> s = l)"
| "key_ok (Some Added) s l v \<longleftrightarrow> v = None \<and> l \<noteq> None \<and> s = l"
| "key_ok (Some Modified) s l v \<longleftrightarrow> l \<noteq> None \<and> s = l"
| "key_ok (Some Deleted) s l v \<longleftrightarrow> l = None \<and> s \<noteq> None"
| "key_ok (Some ErrorEvent) s l v \<longleftrightarrow> False"

lemma replace_keys_ok:
  assumes "map key xs = map Inr ks"
  shows "replace_keys key xs q =
    (q\<lparr>eq_queue := eq_queue q @ ks,
       eq_events := (\<lambda>k. if k \<in> set ks then Some Modified else eq_events q k)\<rparr>, None)"
  using assms
proof (induction xs arbitrary: ks q)
  case (Cons x xs)
  then obtain k ks' where "ks = k # ks'" "key x = Inr k" "map key xs = map Inr ks'" by (cases ks) auto
  then show ?case using Cons.IH [of ks'] by (auto simp: fun_eq_iff)
qed simp

context kv_store
begin

definition eq_inv :: "('s, 'o) event_queue \<Rightarrow> (string \<Rightarrow> 'o option) \<Rightarrow> (string \<Rightarrow> 'o option) \<Rightarrow> bool" where
  "eq_inv q L V \<longleftrightarrow>
     distinct (eq_queue q) \<and> (\<forall>k. k \<in> set (eq_queue q) \<longleftrightarrow> eq_events q k \<noteq> None) \<and>
     (\<forall>k x. lookup (eq_store q) k = Some x \<longrightarrow> key x = Inr k) \<and>
     (\<forall>k. key_ok (eq_events q k) (lookup (eq_store q) k) (L k) (V k)) \<and>
     (eq_lastReplaceKey q = [] \<or>
      eq_events q (eq_lastReplaceKey q) = Some Modified \<or> eq_events q (eq_lastReplaceKey q) = Some Deleted)"

lemma eq_inv_new:
  assumes "\<And>k. st_GetByKey ops s k = Inr None"
  shows "eq_inv (NewEventQueueForStore s) Map.empty Map.empty"
  using assms by (simp add: eq_inv_def NewEventQueueForStore_def lookup_def)

lemma updateStore_ok:
  assumes "key x = Inr k" "t \<noteq> ErrorEvent"
  obtains s' where "updateStore ops s x t = (s', None)"
    "lookup s' = (if t = Deleted then lookup s else (lookup s)(k \<mapsto> x))"
proof (cases "t = Added")
  case True
  then show ?thesis
    using that [of "fst (st_Add ops s x)"] assms Add_ok [of x k s] lookup_simps(1) [of x k s]
    by (simp add: updateStore_def prod_eq_iff)
next
  case False
  then show ?thesis
    using that [of "fst (st_Update ops s x)"] that [of s] assms Update_ok [of x k s] lookup_simps(2) [of x k s]
    by (cases "t = Deleted") (simp_all add: updateStore_def prod_eq_iff)
qed

text \<open>One key changes: its event, its object in the store, and the views of it.\<close>

lemma eq_inv_upd:
  assumes inv: "eq_inv q L V"
    and queue: "distinct queue'"
      "set queue' = (if e' = None then set (eq_queue q) - {k} else insert k (set (eq_queue q)))"
    and store: "\<And>k'. k' \<noteq> k \<Longrightarrow> lookup s' k' = lookup (eq_store q) k'"
      "\<And>x. lookup s' k = Some x \<Longrightarrow> key x = Inr k"
    and ok: "key_ok e' (lookup s' k) l v"
    and last: "r = [] \<or> r = eq_lastReplaceKey q \<and> (r = k \<longrightarrow> e' = Some Modified \<or> e' = Some Deleted)"
    and q': "eq_queue q' = queue'" "eq_events q' = (eq_events q)(k := e')" "eq_store q' = s'"
      "eq_lastReplaceKey q' = r"
  shows "eq_inv q' (L(k := l)) (V(k := v))"
  unfolding eq_inv_def
proof (intro conjI allI impI)
  show "distinct (eq_queue q')" using queue q' by simp
  show "k' \<in> set (eq_queue q') \<longleftrightarrow> eq_events q' k' \<noteq> None" for k'
    using inv queue(2) q' by (auto simp: eq_inv_def)
  show "key x = Inr k'" if "lookup (eq_store q') k' = Some x" for k' x
    using inv store that q' by (cases "k' = k") (auto simp: eq_inv_def)
  show "key_ok (eq_events q' k') (lookup (eq_store q') k') ((L(k := l)) k') ((V(k := v)) k')" for k'
    using inv store(1) [of k'] ok q' by (cases "k' = k") (auto simp: eq_inv_def)
  show "eq_lastReplaceKey q' = [] \<or> eq_events q' (eq_lastReplaceKey q') = Some Modified \<or>
      eq_events q' (eq_lastReplaceKey q') = Some Deleted"
    using inv last q' by (auto simp: eq_inv_def)
qed

lemma eq_invD:
  assumes "eq_inv q L V"
  shows "key_ok (eq_events q k) (lookup (eq_store q) k) (L k) (V k)"
    and "k \<in> set (eq_queue q) \<longleftrightarrow> eq_events q k \<noteq> None"
    and "distinct (eq_queue q)" and "lookup (eq_store q) k = Some x \<Longrightarrow> key x = Inr k"
  using assms unfolding eq_inv_def by blast+

lemma handleEvent_add:
  assumes "key x = Inr k" "updateStore ops (eq_store q) x t = (s', None)" "eq_events q k = None"
  shows "handleEvent ops key q x t =
    Some (q\<lparr>eq_store := s', eq_events := (eq_events q)(k \<mapsto> t), eq_queue := eq_queue q @ [k]\<rparr>, None)"
  using assms by (simp add: handleEvent_def)

lemma handleEvent_queued:
  assumes "key x = Inr k" "updateStore ops (eq_store q) x t = (s', None)" "eq_events q k = Some e"
  shows "handleEvent ops key q x t =
    (case (watchEventEffectMatrix e t, watchEventCompressionMatrix e t) of
       (Some EffectCompress, Some t') \<Rightarrow>
         Some (q\<lparr>eq_store := s', eq_events := (eq_events q)(k \<mapsto> t')\<rparr>, None)
     | (Some EffectDelete, _) \<Rightarrow>
         Some (q\<lparr>eq_store := s', eq_events := (eq_events q)(k := None),
                 eq_queue := queueWithout (eq_queue q) k\<rparr>, None)
     | _ \<Rightarrow> None)"
  using assms by (cases e; cases t) (simp_all add: handleEvent_def)

text \<open>Only adding an object whose deletion is still queued panics.\<close>

lemma handleEvent_inv:
  assumes inv: "eq_inv q L V" and key: "key x = Inr k" and valid: "valid_event L k t"
  shows "if t = Added \<and> eq_events q k = Some Deleted then handleEvent ops key q x t = None
    else \<exists>q'. handleEvent ops key q x t = Some (q', None) \<and> eq_inv q' (apply_event t k x L) V"
proof -
  have t: "t \<noteq> ErrorEvent" using valid by (auto simp: valid_event_def)
  obtain s' where upd: "updateStore ops (eq_store q) x t = (s', None)"
    and look: "lookup s' = (if t = Deleted then lookup (eq_store q) else (lookup (eq_store q))(k \<mapsto> x))"
    using updateStore_ok [OF key t] by metis
  note inv' = eq_invD [OF inv]
  have store: "\<And>k'. k' \<noteq> k \<Longrightarrow> lookup s' k' = lookup (eq_store q) k'"
    "\<And>y. lookup s' k = Some y \<Longrightarrow> key y = Inr k"
    using look key inv'(4) by (auto split: if_splits)
  have view: "apply_event t k x L = L(k := (if t = Deleted then None else Some x))" "V = V(k := V k)"
    by (simp_all add: apply_event_def)
  have last: "eq_lastReplaceKey q = k \<Longrightarrow> eq_lastReplaceKey q \<noteq> [] \<Longrightarrow>
      eq_events q k = Some Modified \<or> eq_events q k = Some Deleted"
    using inv by (auto simp: eq_inv_def)
  show ?thesis
  proof (cases "eq_events q k")
    case None
    have "k \<notin> set (eq_queue q)" using inv'(2) None by simp
    have "eq_inv (q\<lparr>eq_store := s', eq_events := (eq_events q)(k \<mapsto> t), eq_queue := eq_queue q @ [k]\<rparr>)
      (apply_event t k x L) V"
      unfolding view(1) by (subst view(2), rule eq_inv_upd [OF inv _ _ store])
        (use \<open>k \<notin> set (eq_queue q)\<close> inv'(1) [of k] inv'(3) valid None last look in
          \<open>auto simp: valid_event_def\<close>)
    then show ?thesis using handleEvent_add [OF key upd None] None by simp
  next
    case (Some e)
    have kq: "k \<in> set (eq_queue q)" using inv'(2) Some by simp
    note run = handleEvent_queued [OF key upd Some]
    have ok: "key_ok (Some e) (lookup (eq_store q) k) (L k) (V k)" using inv'(1) [of k] Some by simp
    consider "t = Added" "e = Deleted" | "e = Added" "t = Deleted"
      | t' where "watchEventEffectMatrix e t = Some EffectCompress" "watchEventCompressionMatrix e t = Some t'"
      using ok valid t by (cases e; cases t) (auto simp: valid_event_def)
    then show ?thesis
    proof cases
      case 1
      then show ?thesis using run Some by simp
    next
      case 2
      have "eq_inv (q\<lparr>eq_store := s', eq_events := (eq_events q)(k := None),
          eq_queue := queueWithout (eq_queue q) k\<rparr>) (apply_event t k x L) V"
        unfolding view(1) by (subst view(2), rule eq_inv_upd [OF inv _ _ store])
          (use ok 2 Some last inv'(3) in \<open>auto simp: queueWithout_def\<close>)
      then show ?thesis using run 2 Some by simp
    next
      case (3 t')
      have ok': "key_ok (Some t') (lookup s' k) (if t = Deleted then None else Some x) (V k)"
        using ok 3 valid look by (cases e; cases t) (auto simp: valid_event_def)
      have last': "eq_lastReplaceKey q = [] \<or> eq_lastReplaceKey q = eq_lastReplaceKey q \<and>
          (eq_lastReplaceKey q = k \<longrightarrow> Some t' = Some Modified \<or> Some t' = Some Deleted)"
        using last Some 3 by (cases e; cases t) auto
      have "eq_inv (q\<lparr>eq_store := s', eq_events := (eq_events q)(k \<mapsto> t')\<rparr>) (apply_event t k x L) V"
        unfolding view(1)
        by (subst view(2), rule eq_inv_upd [OF inv inv'(3) _ store ok' last']) (use kq in auto)
      then show ?thesis using run 3 Some by (cases e; cases t; simp)
    qed
  qed
qed

lemma eq_Pop_inv:
  assumes inv: "eq_inv q L V" and ne: "eq_queue q \<noteq> []"
  shows "\<exists>q' t x k. eq_Pop ops q = (q', Popped (Some t) x) \<and> key x = Inr k \<and>
    eq_queue q = k # eq_queue q' \<and> eq_inv q' L (apply_event t k x V)"
proof -
  obtain k rest where q: "eq_queue q = k # rest" using ne by (cases "eq_queue q") auto
  then have "k \<in> set (eq_queue q)" by simp
  then have "eq_events q k \<noteq> None" using inv unfolding eq_inv_def by blast
  then obtain t where t: "eq_events q k = Some t" by blast
  have ok: "key_ok (Some t) (lookup (eq_store q) k) (L k) (V k)"
    using inv t by (auto simp: eq_inv_def dest: spec [of _ k])
  then obtain x where x: "lookup (eq_store q) k = Some x" by (cases t) auto
  then have key: "key x = Inr k" using inv by (simp add: eq_inv_def)
  obtain s' where del: "st_Delete ops (eq_store q) x = (s', None)"
    using Delete_ok [OF key, of "eq_store q"] by (metis prod.collapse)
  then have gone: "lookup s' = (lookup (eq_store q))(k := None)"
    using lookup_simps(3) [OF key, of "eq_store q"] by simp
  let ?s = "if t = Deleted then s' else eq_store q"
  let ?r = "if eq_lastReplaceKey q \<noteq> [] \<and> eq_lastReplaceKey q = k then [] else eq_lastReplaceKey q"
  obtain q' where pop: "eq_Pop ops q = (q', Popped (Some t) x)"
    and q': "eq_queue q' = rest" "eq_events q' = (eq_events q)(k := None)" "eq_store q' = ?s"
      "eq_lastReplaceKey q' = ?r"
  proof
    let ?q = "q\<lparr>eq_queue := rest, eq_events := (eq_events q)(k := None), eq_lastReplaceKey := ?r, eq_store := ?s\<rparr>"
    show "eq_Pop ops q = (?q, Popped (Some t) x)"
      using x by (simp add: eq_Pop_def q Let_def t GetByKey_lookup del)
  qed simp_all
  have "eq_inv q' (L(k := L k)) (V(k := (if t = Deleted then None else Some x)))"
  proof (rule eq_inv_upd [OF inv _ _ _ _ _ _ q'])
    show "distinct rest" "set rest = (if None = None then set (eq_queue q) - {k} else insert k (set (eq_queue q)))"
      using eq_invD(3) [OF inv] by (auto simp: q)
    show "key_ok None (lookup ?s k) (L k) (if t = Deleted then None else Some x)"
      using ok x gone by (cases t) auto
    show "lookup ?s k' = lookup (eq_store q) k'" if "k' \<noteq> k" for k' using gone that by simp
    show "key y = Inr k" if "lookup ?s k = Some y" for y
      using gone that eq_invD(4) [OF inv] by (simp split: if_splits)
  qed auto
  then have "eq_inv q' L (apply_event t k x V)" by (simp add: apply_event_def split: if_splits)
  with pop q'(1) show ?thesis using key q by auto
qed

lemma eq_Replace_inv:
  assumes inv: "eq_inv q L V" and keys: "map key xs = map Inr ks" "distinct ks" "dom V \<subseteq> set ks" "[] \<notin> set ks"
  shows "\<exists>q'. eq_Replace ops key q xs v = (q', None) \<and> eq_inv q' (map_of (zip ks xs)) V"
proof -
  have len: "length ks = length xs" using keys(1) by (metis length_map)
  obtain s' where st: "st_Replace ops (eq_store q) xs v = (s', None)"
    using Replace_ok [OF keys(1), of "eq_store q" v] by (metis prod.collapse)
  then have look: "lookup s' = map_of (zip ks xs)"
    using lookup_simps(4) [OF keys(1,2), of "eq_store q" v] by simp
  have dom: "dom (map_of (zip ks xs)) = set ks" using len by (simp add: dom_map_of_zip)
  have gone: "map_of (zip ks xs) k = None" "V k = None" if "k \<notin> set ks" for k
    using that dom keys(3) by (blast intro: domIff [THEN iffD1] elim: notE)+
  have present: "\<exists>x. map_of (zip ks xs) k = Some x" if "k \<in> set ks" for k using that dom by blast
  have stored: "key x = Inr k" if "map_of (zip ks xs) k = Some x" for k x
  proof -
    from that have "(k, x) \<in> set (zip ks xs)" by (rule map_of_SomeD)
    then obtain i where "i < length xs" "k = ks ! i" "x = xs ! i" by (auto simp: in_set_zip)
    then show ?thesis using keys(1) len by (metis nth_map)
  qed
  let ?q' = "q\<lparr>eq_replaceCalled := True, eq_replaceCount := length xs,
    eq_events := (\<lambda>k. if k \<in> set ks then Some Modified else None), eq_queue := ks,
    eq_store := s', eq_lastReplaceKey := (if 0 < length ks then last ks else [])\<rparr>"
  have "eq_Replace ops key q xs v = (?q', None)"
    by (simp add: eq_Replace_def Let_def replace_keys_ok [OF keys(1)] st if_distrib cong: if_cong)
  moreover have "eq_inv ?q' (map_of (zip ks xs)) V"
    using keys stored gone present last_in_set [of ks]
    by (auto simp: eq_inv_def look)
  ultimately show ?thesis by blast
qed

lemma eq_run_inv: "eq_run ops key q L V \<Longrightarrow> eq_inv q L V"
proof (induction rule: eq_run.induct)
  case (new s)
  then show ?case by (rule eq_inv_new)
next
  case (event q L V x k t q' err)
  then show ?case using handleEvent_inv [of q L V x k t] by (auto split: if_splits)
next
  case (pop q L V q' t x k)
  then have "eq_queue q \<noteq> []" by (auto simp: eq_Pop_def)
  then show ?case using eq_Pop_inv [OF pop.IH] pop.hyps by auto
next
  case (relist q L V xs ks v q' err)
  then show ?case using eq_Replace_inv [of q L V xs ks v] by auto
qed

end

section \<open>Draining the queue\<close>

text \<open>\<open>n\<close> pops in a row, with the consumer's view.\<close>

fun eq_drain ::
  "('s, 'o) store_if \<Rightarrow> 'o key_func \<Rightarrow> nat \<Rightarrow> ('s, 'o) event_queue \<Rightarrow> (string \<Rightarrow> 'o option) \<Rightarrow>
   (('s, 'o) event_queue \<times> (string \<Rightarrow> 'o option)) option" where
  "eq_drain ops key 0 q V = Some (q, V)"
| "eq_drain ops key (Suc n) q V =
     (case eq_Pop ops q of
        (q', Popped (Some t) x) \<Rightarrow>
          (case key x of Inr k \<Rightarrow> eq_drain ops key n q' (apply_event t k x V) | Inl _ \<Rightarrow> None)
      | _ \<Rightarrow> None)"

context kv_store
begin

lemma drain_inv:
  "eq_inv q L V \<Longrightarrow> n = length (eq_queue q) \<Longrightarrow>
   \<exists>q' V'. eq_drain ops key n q V = Some (q', V') \<and> eq_queue q' = [] \<and> eq_inv q' L V'"
proof (induction n arbitrary: q V)
  case (Suc n)
  then have "eq_queue q \<noteq> []" by auto
  then obtain q' t x k where "eq_Pop ops q = (q', Popped (Some t) x)" "key x = Inr k"
    "eq_queue q = k # eq_queue q'" "eq_inv q' L (apply_event t k x V)"
    using eq_Pop_inv [OF Suc.prems(1)] by blast
  then show ?case using Suc.IH [of q' "apply_event t k x V"] Suc.prems(2) by simp
qed auto

lemma drained:
  assumes "eq_inv q L V" "eq_queue q = []"
  shows "V = L \<and> eq_lastReplaceKey q = []"
proof -
  have none: "eq_events q k = None" for k using eq_invD(2) [OF assms(1)] assms(2) by simp
  then have "V k = L k" for k using eq_invD(1) [OF assms(1), of k] by simp
  moreover have "eq_lastReplaceKey q = []" using assms(1) none by (auto simp: eq_inv_def)
  ultimately show ?thesis by auto
qed

lemma run_drain:
  assumes "eq_run ops key q L V"
  shows "\<exists>q'. eq_drain ops key (length (eq_queue q)) q V = Some (q', L) \<and> eq_queue q' = [] \<and>
    eq_ListConsumed q'"
  using drain_inv [OF eq_run_inv [OF assms] refl] drained unfolding eq_ListConsumed_def by metis

lemma run_panic:
  assumes "eq_run ops key q L V" "key x = Inr k" "valid_event L k t"
  shows "handleEvent ops key q x t = None \<longleftrightarrow> t = Added \<and> eq_events q k = Some Deleted"
  using handleEvent_inv [OF eq_run_inv [OF assms(1)] assms(2,3)] by (auto split: if_splits)

end

section \<open>Properties of the queue\<close>

text \<open>
  C31: compression loses nothing.  Whatever events a producer that follows the watch protocol sends,
  re-lists that drop no object the consumer has included, and wherever the consumer pops in between:
  popping as often as the queue is long empties it, without an error or a panic, and leaves the
  consumer with exactly the producer's objects; the last list is consumed by then.
\<close>

theorem event_queue_lossless:
  assumes "eq_run (cache_store key) key q L V"
  shows "\<exists>q'. eq_drain (cache_store key) key (length (eq_queue q)) q V = Some (q', L) \<and>
    eq_queue q' = [] \<and> eq_ListConsumed q'"
  by (rule cache.run_drain [OF assms])

lemma eq_run_new: "eq_run (cache_store key) key NewEventQueue Map.empty Map.empty"
  unfolding NewEventQueue_def by (rule eq_run.new) (simp add: cache_store_def)

text \<open>Objects of the witnesses: pairs of a key and a version.\<close>

definition fst_key :: "(string \<times> nat) key_func" where
  "fst_key x = Inr (fst x)"

definition run_events ::
  "((string \<times> nat) cache_map, string \<times> nat) event_queue \<Rightarrow> ((string \<times> nat) \<times> event_type) list \<Rightarrow>
   ((string \<times> nat) cache_map, string \<times> nat) event_queue option" where
  "run_events q evs =
     foldl (\<lambda>r (x, t). case r of None \<Rightarrow> None
              | Some q \<Rightarrow> map_option fst (handleEvent (cache_store fst_key) fst_key q x t)) (Some q) evs"

theorem event_queue_lossless_witness:
  "\<exists>q q'. handleEvent (cache_store fst_key) fst_key NewEventQueue (''a'', 1) Added = Some (q, None) \<and>
     eq_drain (cache_store fst_key) fst_key (length (eq_queue q)) q Map.empty =
       Some (q', Map.empty(''a'' \<mapsto> (''a'', 1)))"
proof -
  have key: "fst_key (''a'', 1) = Inr ''a''" by (simp add: fst_key_def)
  have "updateStore (cache_store fst_key) (eq_store NewEventQueue) (''a'', 1) Added = ([(''a'', ''a'', 1)], None)"
    by (simp add: NewEventQueue_def NewEventQueueForStore_def updateStore_def cache_store_def cache_put_def
        fst_key_def)
  moreover have "eq_events NewEventQueue ''a'' = None" by (simp add: NewEventQueue_def NewEventQueueForStore_def)
  ultimately obtain q where
    q: "handleEvent (cache_store fst_key) fst_key NewEventQueue (''a'', 1) Added = Some (q, None)"
    using cache.handleEvent_add [where key = fst_key and x = "(''a'', 1)", OF key] by blast
  have "eq_run (cache_store fst_key) fst_key q (apply_event Added ''a'' (''a'', 1) Map.empty) Map.empty"
    by (rule eq_run.event [OF eq_run_new key _ q]) (simp add: valid_event_def)
  from event_queue_lossless [OF this] q show ?thesis by (auto simp: apply_event_def)
qed

text \<open>
  Under the watch protocol a call of \<open>Add\<close>, \<open>Update\<close> or \<open>Delete\<close> panics exactly when it adds an
  object whose deletion is still queued.
\<close>

theorem event_queue_panics_exactly:
  assumes "eq_run (cache_store key) key q L V" "key x = Inr k" "valid_event L k t"
  shows "handleEvent (cache_store key) key q x t = None \<longleftrightarrow> t = Added \<and> eq_events q k = Some Deleted"
  by (rule cache.run_panic [OF assms])

theorem event_queue_panics_exactly_witness:
  "handleEvent (cache_store fst_key) fst_key NewEventQueue (''a'', 1) Added \<noteq> None"
  using event_queue_panics_exactly [OF eq_run_new, of fst_key "(''a'', 1)" "''a''" Added]
  by (simp add: fst_key_def valid_event_def NewEventQueue_def NewEventQueueForStore_def)

text \<open>
  What the queue gets wrong.  A resync queues every stored key without an event, so a deletion
  after it queues the key twice and the second pop panics; an object that was added and deleted
  before it was popped stays in the store and the next resync offers it; \<open>Cancel\<close> never unblocks a
  waiting \<open>Pop\<close>; and \<open>ListKeys\<close> is always empty.
\<close>

theorem event_queue_defects:
  "(\<exists>q1 q2 q3 q4 q5. run_events NewEventQueue [((''a'', 1), Added)] = Some q1 \<and>
      eq_Pop (cache_store fst_key) q1 = (q2, Popped (Some Added) (''a'', 1)) \<and>
      run_events (eq_Resync (cache_store fst_key) q2) [((''a'', 1), Deleted)] = Some q3 \<and>
      eq_Pop (cache_store fst_key) q3 = (q4, Popped (Some Deleted) (''a'', 1)) \<and>
      eq_Pop (cache_store fst_key) q4 = (q5, PopPanic)) \<and>
   (\<exists>q1 q2. run_events NewEventQueue [((''a'', 1), Added), ((''a'', 1), Deleted)] = Some q1 \<and>
      eq_queue q1 = [] \<and>
      eq_Pop (cache_store fst_key) (eq_Resync (cache_store fst_key) q1) = (q2, Popped None (''a'', 1))) \<and>
   (eq_queue q = [] \<longrightarrow> snd (eq_Pop ops (eq_Cancel q)) = PopBlocked) \<and>
   eq_ListKeys q = []"
  by (simp add: run_events_def handleEvent_def fst_key_def NewEventQueue_def NewEventQueueForStore_def
      updateStore_def cache_store_def cache_put_def cache_Delete_def eq_Pop_def eq_Resync_def gset_simps
      eq_Cancel_def eq_ListKeys_def queueWithout_def Let_def)

theorem event_queue_defects_witness:
  "snd (eq_Pop (cache_store fst_key) (eq_Cancel NewEventQueue)) = PopBlocked"
  using event_queue_defects [of NewEventQueue "cache_store fst_key"]
  by (simp add: NewEventQueue_def NewEventQueueForStore_def)

end
