(* ===== verification/Round_Robin.thy ===== *)
theory Round_Robin
  imports Go_Numbers "HOL-Library.AList" "HOL-Library.Multiset"
begin

text \<open>
  \<open>origin/pkg/proxy/userspace/roundrobin.go\<close>: the round-robin load balancer of the userspace proxy,
  with session affinity by client address.  The time is an argument, in nanoseconds, once for the
  test of an affinity record and once for its update; the random order of new endpoints is an
  argument.  \<open>net.SplitHostPort\<close> and \<open>net.JoinHostPort\<close> are modelled; the rounding of
  \<open>Duration.Minutes\<close> to a float is not.  An index out of range is a panic, \<open>None\<close>.
\<close>

section \<open>Host and port\<close>

definition addr_error :: "string \<Rightarrow> string \<Rightarrow> go_error" where
  "addr_error msg hostport = Errorf ''address %s: %s'' [hostport, msg]"

definition split_bracketed :: "string \<Rightarrow> nat \<Rightarrow> go_error + string \<times> nat \<times> nat" where
  "split_bracketed hostport i =
     (case first_index (CHR '']'') hostport of
        None \<Rightarrow> Inl (addr_error ''missing ']' in address'' hostport)
      | Some stop \<Rightarrow>
          (if stop + 1 = length hostport then Inl (addr_error ''missing port in address'' hostport)
           else if stop + 1 = i then Inr (take (stop - 1) (drop 1 hostport), 1, stop + 1)
           else if hostport ! (stop + 1) = CHR '':'' then Inl (addr_error ''too many colons in address'' hostport)
           else Inl (addr_error ''missing port in address'' hostport)))"

definition split_plain :: "string \<Rightarrow> nat \<Rightarrow> go_error + string \<times> nat \<times> nat" where
  "split_plain hostport i =
     (let host = take i hostport in
      if CHR '':'' \<in> set host then Inl (addr_error ''too many colons in address'' hostport)
      else if CHR ''%'' \<in> set host then Inl (addr_error ''missing brackets in address'' hostport)
      else Inr (host, 0, 0))"

definition SplitHostPort :: "string \<Rightarrow> go_error + string \<times> string" where
  "SplitHostPort hostport =
     (case last_index (CHR '':'') hostport of
        None \<Rightarrow> Inl (addr_error ''missing port in address'' hostport)
      | Some i \<Rightarrow>
          (case (if hd hostport = CHR ''['' then split_bracketed hostport i else split_plain hostport i) of
             Inl e \<Rightarrow> Inl e
           | Inr (host, j, k) \<Rightarrow>
               (if CHR ''['' \<in> set (drop j hostport)
                then Inl (addr_error ''unexpected '[' in address'' hostport)
                else if CHR '']'' \<in> set (drop k hostport)
                then Inl (addr_error ''unexpected ']' in address'' hostport)
                else Inr (host, drop (i + 1) hostport))))"

definition JoinHostPort :: "string \<Rightarrow> string \<Rightarrow> string" where
  "JoinHostPort host port =
     (if CHR '':'' \<in> set host \<or> CHR ''%'' \<in> set host then ''['' @ host @ '']:'' @ port
      else host @ '':'' @ port)"

section \<open>State\<close>

record affinity_state =
  af_clientIP :: string
  af_endpoint :: string
  af_lastUsed :: int

record affinity_policy =
  ap_affinityType :: string
  ap_affinityMap :: "(string \<times> affinity_state) list"
  ap_ttlMinutes :: int

record balancer_state =
  bs_endpoints :: "string list"
  bs_index :: nat
  bs_affinity :: affinity_policy

text \<open>Namespace and name of a service and the name of its port.\<close>

type_synonym service_port = "string \<times> string \<times> string"
type_synonym load_balancer = "(service_port \<times> balancer_state) list"

definition ErrMissingServiceEntry :: go_error where
  "ErrMissingServiceEntry = Errorf ''missing service entry'' []"

definition ErrMissingEndpoints :: go_error where
  "ErrMissingEndpoints = Errorf ''missing endpoints'' []"

definition NewLoadBalancerRR :: load_balancer where "NewLoadBalancerRR = []"

definition newAffinityPolicy :: "string \<Rightarrow> int \<Rightarrow> affinity_policy" where
  "newAffinityPolicy affinityType ttlMinutes =
     \<lparr>ap_affinityType = affinityType, ap_affinityMap = [], ap_ttlMinutes = ttlMinutes\<rparr>"

definition newServiceInternal :: "load_balancer \<Rightarrow> service_port \<Rightarrow> string \<Rightarrow> int \<Rightarrow> load_balancer" where
  "newServiceInternal lb svcPort affinityType ttlMinutes0 =
     (let ttlMinutes = (if ttlMinutes0 = 0 then 180 else ttlMinutes0) in
      case map_of lb svcPort of
        None \<Rightarrow> AList.update svcPort
                  \<lparr>bs_endpoints = [], bs_index = 0, bs_affinity = newAffinityPolicy affinityType ttlMinutes\<rparr> lb
      | Some state \<Rightarrow>
          (if affinityType \<noteq> [] then
             AList.update svcPort (state\<lparr>bs_affinity := (bs_affinity state)\<lparr>ap_affinityType := affinityType\<rparr>\<rparr>) lb
           else lb))"

definition NewService :: "load_balancer \<Rightarrow> service_port \<Rightarrow> string \<Rightarrow> int \<Rightarrow> load_balancer \<times> go_error option" where
  "NewService lb svcPort affinityType ttlMinutes = (newServiceInternal lb svcPort affinityType ttlMinutes, None)"

definition isSessionAffinity :: "affinity_policy \<Rightarrow> bool" where
  "isSessionAffinity affinity \<longleftrightarrow>
     \<not> (ap_affinityType affinity = [] \<or> ap_affinityType affinity = ''None'')"

definition ServiceHasEndpoints :: "load_balancer \<Rightarrow> service_port \<Rightarrow> bool" where
  "ServiceHasEndpoints lb svcPort =
     (case map_of lb svcPort of None \<Rightarrow> False | Some state \<Rightarrow> 0 < length (bs_endpoints state))"

section \<open>Choosing an endpoint\<close>

text \<open>\<open>int(d.Minutes())\<close>\<close>

definition whole_minutes :: "int \<Rightarrow> int" where
  "whole_minutes d = (if 0 \<le> d then d div 60000000000 else - ((- d) div 60000000000))"

definition usable_affinity :: "affinity_policy \<Rightarrow> string \<Rightarrow> int \<Rightarrow> affinity_state option" where
  "usable_affinity affinity ipaddr now =
     (case map_of (ap_affinityMap affinity) ipaddr of
        Some a \<Rightarrow> if whole_minutes (now - af_lastUsed a) < ap_ttlMinutes affinity then Some a else None
      | None \<Rightarrow> None)"

definition record_affinity :: "balancer_state \<Rightarrow> string \<Rightarrow> affinity_state \<Rightarrow> balancer_state" where
  "record_affinity state ipaddr a =
     state\<lparr>bs_affinity := (bs_affinity state)
       \<lparr>ap_affinityMap := AList.update ipaddr a (ap_affinityMap (bs_affinity state))\<rparr>\<rparr>"

definition take_next :: "balancer_state \<Rightarrow> (balancer_state \<times> string) option" where
  "take_next state =
     (if bs_index state < length (bs_endpoints state) then
        Some (state\<lparr>bs_index := (bs_index state + 1) mod length (bs_endpoints state)\<rparr>,
              bs_endpoints state ! bs_index state)
      else None)"

definition NextEndpoint ::
  "load_balancer \<Rightarrow> service_port \<Rightarrow> string \<Rightarrow> bool \<Rightarrow> int \<Rightarrow> int \<Rightarrow>
   (load_balancer \<times> (go_error + string)) option" where
  "NextEndpoint lb svcPort srcAddr sessionAffinityReset now now' =
     (case map_of lb svcPort of
        None \<Rightarrow> Some (lb, Inl ErrMissingServiceEntry)
      | Some state \<Rightarrow>
          if length (bs_endpoints state) = 0 then Some (lb, Inl ErrMissingEndpoints)
          else if isSessionAffinity (bs_affinity state) then
            (case SplitHostPort srcAddr of
               Inl err \<Rightarrow> Some (lb, Inl (ErrorfE ''malformed source address %q: %v'' [srcAddr] [err]))
             | Inr (ipaddr, _) \<Rightarrow>
                 (case (if sessionAffinityReset then None
                        else usable_affinity (bs_affinity state) ipaddr now) of
                    Some a \<Rightarrow>
                      Some (AList.update svcPort (record_affinity state ipaddr (a\<lparr>af_lastUsed := now'\<rparr>)) lb,
                            Inr (af_endpoint a))
                  | None \<Rightarrow>
                      (case take_next state of
                         None \<Rightarrow> None
                       | Some (state', endpoint) \<Rightarrow>
                           Some (AList.update svcPort
                                   (record_affinity state' ipaddr
                                     \<lparr>af_clientIP = ipaddr, af_endpoint = endpoint, af_lastUsed = now'\<rparr>) lb,
                                 Inr endpoint))))
          else
            (case take_next state of
               None \<Rightarrow> None
             | Some (state', endpoint) \<Rightarrow> Some (AList.update svcPort state' lb, Inr endpoint)))"

section \<open>Updating the endpoints\<close>

type_synonym host_port_pair = "string \<times> int"

definition isValidEndpoint :: "host_port_pair \<Rightarrow> bool" where
  "isValidEndpoint hpp \<longleftrightarrow> fst hpp \<noteq> [] \<and> 0 < snd hpp"

definition flattenValidEndpoints :: "host_port_pair list \<Rightarrow> string list" where
  "flattenValidEndpoints endpoints =
     map (\<lambda>hpp. JoinHostPort (fst hpp) (decimal (nat (snd hpp)))) (filter isValidEndpoint endpoints)"

fun remove_affinity_loop ::
  "string \<Rightarrow> (string \<times> affinity_state) list \<Rightarrow> (string \<times> affinity_state) list \<Rightarrow> (string \<times> affinity_state) list" where
  "remove_affinity_loop endpoint [] m = m"
| "remove_affinity_loop endpoint ((ip, a) # rest) m =
     (if map_of m ip = Some a \<and> af_endpoint a = endpoint
      then remove_affinity_loop endpoint rest (AList.delete (af_clientIP a) m)
      else remove_affinity_loop endpoint rest m)"

definition removeSessionAffinityByEndpoint :: "balancer_state \<Rightarrow> string \<Rightarrow> balancer_state" where
  "removeSessionAffinityByEndpoint state endpoint =
     (let m = ap_affinityMap (bs_affinity state)
      in state\<lparr>bs_affinity := (bs_affinity state)\<lparr>ap_affinityMap := remove_affinity_loop endpoint m m\<rparr>\<rparr>)"

text \<open>The counts of \<open>updateAffinityMap\<close>: one for a new endpoint, plus one for each existing entry.\<close>

definition endpoint_count :: "string list \<Rightarrow> string list \<Rightarrow> string \<Rightarrow> nat" where
  "endpoint_count newEndpoints existing e =
     (if e \<in> set newEndpoints then 1 else 0) + length (filter (\<lambda>x. x = e) existing)"

definition updateAffinityMap :: "load_balancer \<Rightarrow> service_port \<Rightarrow> string list \<Rightarrow> load_balancer" where
  "updateAffinityMap lb svcPort newEndpoints =
     (case map_of lb svcPort of
        None \<Rightarrow> lb
      | Some state \<Rightarrow>
          (let keys = filter (\<lambda>e. endpoint_count newEndpoints (bs_endpoints state) e = 1)
                        (remdups (newEndpoints @ bs_endpoints state))
           in AList.update svcPort (foldl removeSessionAffinityByEndpoint state keys) lb))"

record endpoint_subset =
  es_Addresses :: "string list"
  es_Ports :: "(string \<times> int) list"

record endpoints =
  ep_Namespace :: string
  ep_Name :: string
  ep_Subsets :: "endpoint_subset list"

definition subset_pairs :: "endpoint_subset \<Rightarrow> (string \<times> host_port_pair) list" where
  "subset_pairs ss =
     concat (map (\<lambda>(pname, pnum). map (\<lambda>ip. (pname, (ip, pnum))) (es_Addresses ss)) (es_Ports ss))"

definition portsToEndpoints :: "endpoints \<Rightarrow> (string \<times> host_port_pair list) list" where
  "portsToEndpoints svcEndpoints =
     foldl (\<lambda>m (pname, hpp). AList.update pname
              ((case map_of m pname of None \<Rightarrow> [] | Some l \<Rightarrow> l) @ [hpp]) m)
       [] (concat (map subset_pairs (ep_Subsets svcEndpoints)))"

definition slicesEquiv :: "string list \<Rightarrow> string list \<Rightarrow> bool" where
  "slicesEquiv lhs rhs \<longleftrightarrow> length lhs = length rhs \<and> sort lhs = sort rhs"

text \<open>One port name of the range; \<open>slicesEquiv\<close>, where it is reached, has sorted the new endpoints.\<close>

definition update_port ::
  "(service_port \<Rightarrow> string list \<Rightarrow> string list) \<Rightarrow> service_port \<Rightarrow> host_port_pair list \<Rightarrow>
   load_balancer \<Rightarrow> load_balancer" where
  "update_port shuffle svcPort pairs lb =
     (let state = map_of lb svcPort;
          curEndpoints = (case state of None \<Rightarrow> [] | Some st \<Rightarrow> bs_endpoints st);
          newEndpoints = flattenValidEndpoints pairs
      in if state = None \<or> length curEndpoints \<noteq> length newEndpoints \<or> \<not> slicesEquiv curEndpoints newEndpoints
         then
           (let new = (if state = None \<or> length curEndpoints \<noteq> length newEndpoints
                       then newEndpoints else sort newEndpoints);
                lb1 = newServiceInternal (updateAffinityMap lb svcPort new) svcPort [] 0
            in case map_of lb1 svcPort of
                 None \<Rightarrow> lb1
               | Some st \<Rightarrow> AList.update svcPort (st\<lparr>bs_endpoints := shuffle svcPort new, bs_index := 0\<rparr>) lb1)
         else lb)"

fun update_ports ::
  "(service_port \<Rightarrow> string list \<Rightarrow> string list) \<Rightarrow> string \<Rightarrow> string \<Rightarrow> (string \<times> host_port_pair list) list \<Rightarrow>
   load_balancer \<times> service_port list \<Rightarrow> load_balancer \<times> service_port list" where
  "update_ports shuffle namespace name [] r = r"
| "update_ports shuffle namespace name ((portname, pairs) # rest) (lb, registered) =
     (let svcPort = (namespace, name, portname)
      in update_ports shuffle namespace name rest
           (update_port shuffle svcPort pairs lb, registered @ [svcPort]))"

definition OnEndpointsUpdate ::
  "(service_port \<Rightarrow> string list \<Rightarrow> string list) \<Rightarrow> load_balancer \<Rightarrow> endpoints list \<Rightarrow> load_balancer" where
  "OnEndpointsUpdate shuffle lb allEndpoints =
     (let (lb1, registered) =
        foldl (\<lambda>r ep. update_ports shuffle (ep_Namespace ep) (ep_Name ep) (portsToEndpoints ep) r)
          (lb, []) allEndpoints
      in filter (\<lambda>(k, _). k \<in> set registered) lb1)"

definition CleanupStaleStickySessions :: "load_balancer \<Rightarrow> service_port \<Rightarrow> int \<Rightarrow> load_balancer" where
  "CleanupStaleStickySessions lb svcPort now =
     (case map_of lb svcPort of
        None \<Rightarrow> lb
      | Some state \<Rightarrow>
          AList.update svcPort
            (state\<lparr>bs_affinity := (bs_affinity state)
               \<lparr>ap_affinityMap :=
                  filter (\<lambda>(ip, a). \<not> whole_minutes (now - af_lastUsed a) \<ge> ap_ttlMinutes (bs_affinity state))
                    (ap_affinityMap (bs_affinity state))\<rparr>\<rparr>) lb)"

section \<open>The invariant\<close>

text \<open>
  The index points into the endpoints, and every affinity record is filed under its client and
  names one of the current endpoints, which are distinct.
\<close>

definition affinity_ok :: "string list \<Rightarrow> (string \<times> affinity_state) list \<Rightarrow> bool" where
  "affinity_ok eps m \<longleftrightarrow> distinct (map fst m) \<and>
     (\<forall>(ip, a) \<in> set m. af_clientIP a = ip \<and> af_endpoint a \<in> set eps)"

definition state_ok :: "balancer_state \<Rightarrow> bool" where
  "state_ok st \<longleftrightarrow> distinct (bs_endpoints st) \<and>
     (bs_endpoints st = [] \<and> bs_index st = 0 \<or> bs_index st < length (bs_endpoints st)) \<and>
     affinity_ok (bs_endpoints st) (ap_affinityMap (bs_affinity st))"

definition lb_ok :: "load_balancer \<Rightarrow> bool" where
  "lb_ok lb \<longleftrightarrow> distinct (map fst lb) \<and> (\<forall>(k, st) \<in> set lb. state_ok st)"

lemma lb_ok_lookup: "lb_ok lb \<Longrightarrow> map_of lb k = Some st \<Longrightarrow> state_ok st"
  by (auto simp: lb_ok_def dest!: map_of_SomeD)

lemma lb_okI:
  assumes "distinct (map fst lb)" "\<And>k st. map_of lb k = Some st \<Longrightarrow> state_ok st"
  shows "lb_ok lb"
  using assms by (auto simp: lb_ok_def)

lemma lb_ok_update: "lb_ok lb \<Longrightarrow> state_ok st \<Longrightarrow> lb_ok (AList.update k st lb)"
  by (rule lb_okI) (auto simp: lb_ok_def distinct_update update_conv' split: if_splits dest!: map_of_SomeD)

lemma remove_affinity_loop_filter:
  assumes "distinct (map fst m)" "\<forall>(ip, a) \<in> set rest. af_clientIP a = ip"
  shows "remove_affinity_loop e rest m = filter (\<lambda>(ip, a). \<not> ((ip, a) \<in> set rest \<and> af_endpoint a = e)) m"
  using assms
proof (induction rest arbitrary: m)
  case (Cons r rest)
  obtain ip a where r: "r = (ip, a)" by (cases r)
  show ?case
  proof (cases "map_of m ip = Some a \<and> af_endpoint a = e")
    case True
    have "AList.delete ip m = filter (\<lambda>(i, b). (i, b) \<noteq> (ip, a)) m"
      using True Cons.prems(1)
      by (auto simp: AList.delete_eq intro!: filter_cong) (metis Some_eq_map_of_iff option.inject)
    note del = this
    have "remove_affinity_loop e (r # rest) m = remove_affinity_loop e rest (AList.delete ip m)"
      using True Cons.prems by (simp add: r)
    also have "\<dots> = filter (\<lambda>(ip, a). \<not> ((ip, a) \<in> set rest \<and> af_endpoint a = e)) (AList.delete ip m)"
      by (rule Cons.IH) (use Cons.prems in \<open>auto simp: distinct_delete\<close>)
    also have "\<dots> = filter (\<lambda>(ip, a). \<not> ((ip, a) \<in> set (r # rest) \<and> af_endpoint a = e)) m"
      unfolding del filter_filter by (rule filter_cong) (use True in \<open>auto simp: r\<close>)
    finally show ?thesis .
  next
    case False
    have "(ip, a) \<in> set m \<Longrightarrow> af_endpoint a \<noteq> e"
      using False Cons.prems(1) by (metis Some_eq_map_of_iff)
    then show ?thesis
      using False Cons.IH [of m] Cons.prems by (auto simp: r intro!: filter_cong)
  qed
qed (simp add: case_prod_unfold)

lemma removeSessionAffinity_filter:
  assumes "affinity_ok eps (ap_affinityMap (bs_affinity st))"
  shows "ap_affinityMap (bs_affinity (removeSessionAffinityByEndpoint st e)) =
    filter (\<lambda>(ip, a). af_endpoint a \<noteq> e) (ap_affinityMap (bs_affinity st))"
proof -
  let ?m = "ap_affinityMap (bs_affinity st)"
  have "remove_affinity_loop e ?m ?m = filter (\<lambda>(ip, a). \<not> ((ip, a) \<in> set ?m \<and> af_endpoint a = e)) ?m"
    using assms by (intro remove_affinity_loop_filter) (auto simp: affinity_ok_def)
  also have "\<dots> = filter (\<lambda>(ip, a). af_endpoint a \<noteq> e) ?m"
    by (rule filter_cong) auto
  finally show ?thesis by (simp add: removeSessionAffinityByEndpoint_def Let_def)
qed

lemma affinity_ok_filter: "affinity_ok eps m \<Longrightarrow> affinity_ok eps (filter P m)"
  by (auto simp: affinity_ok_def distinct_map_filter)

lemma foldl_removeSessionAffinity:
  assumes "affinity_ok eps (ap_affinityMap (bs_affinity st))"
  shows "ap_affinityMap (bs_affinity (foldl removeSessionAffinityByEndpoint st es)) =
      filter (\<lambda>(ip, a). af_endpoint a \<notin> set es) (ap_affinityMap (bs_affinity st))
    \<and> bs_endpoints (foldl removeSessionAffinityByEndpoint st es) = bs_endpoints st
    \<and> bs_index (foldl removeSessionAffinityByEndpoint st es) = bs_index st"
  using assms
proof (induction es arbitrary: st)
  case (Cons e es)
  note rm = removeSessionAffinity_filter [OF Cons.prems, of e]
  have "affinity_ok eps (ap_affinityMap (bs_affinity (removeSessionAffinityByEndpoint st e)))"
    unfolding rm by (rule affinity_ok_filter [OF Cons.prems])
  from Cons.IH [OF this] show ?case
    unfolding rm by (auto simp: removeSessionAffinityByEndpoint_def Let_def intro!: filter_cong)
qed (simp add: case_prod_unfold)

text \<open>After \<open>updateAffinityMap\<close> the affinity records name endpoints that stay.\<close>

lemma updateAffinityMap_ok:
  assumes ok: "lb_ok lb" and st: "map_of lb k = Some st"
  shows "\<exists>st'. updateAffinityMap lb k new = AList.update k st' lb \<and> state_ok st' \<and>
    affinity_ok new (ap_affinityMap (bs_affinity st'))"
proof -
  have sok: "state_ok st" by (rule lb_ok_lookup [OF ok st])
  let ?keys = "filter (\<lambda>e. endpoint_count new (bs_endpoints st) e = 1) (remdups (new @ bs_endpoints st))"
  let ?st' = "foldl removeSessionAffinityByEndpoint st ?keys"
  have aff: "affinity_ok (bs_endpoints st) (ap_affinityMap (bs_affinity st))"
    using sok by (simp add: state_ok_def)
  note f = foldl_removeSessionAffinity [OF aff, of ?keys]
  have count: "length (filter (\<lambda>x. x = e) (bs_endpoints st)) = 1" if "e \<in> set (bs_endpoints st)" for e
    using that sok distinct_length_filter [of "bs_endpoints st" "\<lambda>x. x = e"]
    by (auto simp: state_ok_def Int_absorb1)
  have gone: "e \<in> set ?keys" if "e \<in> set (bs_endpoints st)" "e \<notin> set new" for e
    using count [OF that(1)] that by (simp add: endpoint_count_def)
  have "state_ok ?st'"
    using sok f affinity_ok_filter [OF aff] by (simp add: state_ok_def)
  moreover have "affinity_ok new (ap_affinityMap (bs_affinity ?st'))"
    using aff f gone by (auto simp: affinity_ok_def distinct_map_filter)
  moreover have "updateAffinityMap lb k new = AList.update k ?st' lb"
    by (simp add: updateAffinityMap_def st Let_def)
  ultimately show ?thesis by blast
qed

lemma affinity_ok_lookup:
  "affinity_ok eps m \<longleftrightarrow> distinct (map fst m) \<and>
     (\<forall>ip a. map_of m ip = Some a \<longrightarrow> af_clientIP a = ip \<and> af_endpoint a \<in> set eps)"
  by (auto simp: affinity_ok_def map_of_eq_Some_iff)

text \<open>The random order is a permutation.\<close>

definition permutes :: "(service_port \<Rightarrow> string list \<Rightarrow> string list) \<Rightarrow> bool" where
  "permutes shuffle \<longleftrightarrow> (\<forall>k xs. mset (shuffle k xs) = mset xs)"

lemma permutesD:
  assumes "permutes shuffle"
  shows "set (shuffle k xs) = set xs" and "distinct (shuffle k xs) \<longleftrightarrow> distinct xs"
  using assms unfolding permutes_def by (metis set_mset_mset, metis mset_eq_imp_distinct_iff)

lemma affinity_ok_update:
  "affinity_ok eps m \<Longrightarrow> af_clientIP a = ip \<Longrightarrow> af_endpoint a \<in> set eps \<Longrightarrow>
   affinity_ok eps (AList.update ip a m)"
  by (auto simp: affinity_ok_lookup distinct_update update_conv' split: if_splits)

lemma take_next_ok:
  assumes "state_ok st" "bs_endpoints st \<noteq> []"
  shows "\<exists>st' e. take_next st = Some (st', e) \<and> e \<in> set (bs_endpoints st) \<and> state_ok st' \<and>
    bs_endpoints st' = bs_endpoints st \<and> bs_affinity st' = bs_affinity st"
  using assms by (auto simp: take_next_def state_ok_def)

lemma record_affinity_ok:
  assumes "state_ok st" "af_clientIP a = ip" "af_endpoint a \<in> set (bs_endpoints st)"
  shows "state_ok (record_affinity st ip a)"
  using assms by (simp add: state_ok_def record_affinity_def affinity_ok_update)

lemma usable_affinity_ok:
  assumes "state_ok st" "usable_affinity (bs_affinity st) ip now = Some a"
  shows "af_clientIP a = ip \<and> af_endpoint a \<in> set (bs_endpoints st)"
  using assms
  by (auto simp: usable_affinity_def state_ok_def affinity_ok_def split: option.splits if_splits
      dest!: map_of_SomeD)

lemma NextEndpoint_ok:
  assumes ok: "lb_ok lb"
  shows "\<exists>lb' r. NextEndpoint lb svc src reset now now' = Some (lb', r) \<and> lb_ok lb' \<and>
    (\<forall>e. r = Inr e \<longrightarrow> (\<exists>st. map_of lb svc = Some st \<and> e \<in> set (bs_endpoints st)))"
proof (cases "map_of lb svc")
  case (Some st)
  have sok: "state_ok st" by (rule lb_ok_lookup [OF ok Some])
  show ?thesis
  proof (cases "bs_endpoints st = []")
    case False
    obtain st' e where step: "take_next st = Some (st', e)" "e \<in> set (bs_endpoints st)" "state_ok st'"
      "bs_endpoints st' = bs_endpoints st"
      using take_next_ok [OF sok False] by blast
    have touch: "usable_affinity (bs_affinity st) ip now = Some a \<Longrightarrow>
        af_endpoint a \<in> set (bs_endpoints st) \<and>
        lb_ok (AList.update svc (record_affinity st ip (a\<lparr>af_lastUsed := now'\<rparr>)) lb)" for ip a
      using usable_affinity_ok [OF sok] by (auto intro!: lb_ok_update [OF ok] record_affinity_ok [OF sok])
    have fresh: "lb_ok (AList.update svc (record_affinity st' ip
        \<lparr>af_clientIP = ip, af_endpoint = e, af_lastUsed = now'\<rparr>) lb)" for ip
      using step by (auto intro!: lb_ok_update [OF ok] record_affinity_ok)
    show ?thesis
      using step touch fresh lb_ok_update [OF ok step(3)] ok
      by (auto simp: NextEndpoint_def Some False split: sum.splits option.splits prod.splits)
  qed (simp add: NextEndpoint_def Some ok)
qed (simp add: NextEndpoint_def ok)

lemma newServiceInternal_ok:
  assumes "lb_ok lb"
  shows "lb_ok (newServiceInternal lb svc t m)" and "map_of (newServiceInternal lb svc t m) svc \<noteq> None"
  using assms lb_ok_lookup [OF assms, of svc]
  by (auto simp: newServiceInternal_def Let_def update_conv' newAffinityPolicy_def state_ok_def affinity_ok_def
      intro!: lb_ok_update split: option.splits)

lemma update_port_ok:
  assumes ok: "lb_ok lb" and perm: "permutes shuffle"
    and dist: "distinct (flattenValidEndpoints pairs)"
  shows "lb_ok (update_port shuffle svc pairs lb)"
proof -
  let ?f = "flattenValidEndpoints pairs"
  have set_state: "lb_ok (AList.update svc (st\<lparr>bs_endpoints := shuffle svc new, bs_index := 0\<rparr>) lb1)"
    if "lb_ok lb1" "state_ok st" "affinity_ok new (ap_affinityMap (bs_affinity st))" "distinct new" for lb1 st new
  proof (rule lb_ok_update [OF that(1)])
    have "set (shuffle svc new) = set new" "distinct (shuffle svc new)"
      using permutesD [OF perm] that(4) by simp_all
    then show "state_ok (st\<lparr>bs_endpoints := shuffle svc new, bs_index := 0\<rparr>)"
      using that by (cases "shuffle svc new") (auto simp: state_ok_def affinity_ok_def)
  qed
  have new_ok: "affinity_ok new (ap_affinityMap (bs_affinity st)) \<and> state_ok st"
    if lookup: "map_of (newServiceInternal (updateAffinityMap lb svc new) svc [] 0) svc = Some st" for st new
  proof (cases "map_of lb svc")
    case None
    then show ?thesis using lookup
      by (auto simp: updateAffinityMap_def newServiceInternal_def update_conv' newAffinityPolicy_def
          affinity_ok_def state_ok_def)
  next
    case (Some st0)
    then show ?thesis using lookup updateAffinityMap_ok [OF ok Some, of new]
      by (auto simp: newServiceInternal_def update_conv')
  qed
  have lb1: "lb_ok (newServiceInternal (updateAffinityMap lb svc new) svc [] 0)" for new
  proof (rule newServiceInternal_ok(1), cases "map_of lb svc")
    case (Some st0)
    then show "lb_ok (updateAffinityMap lb svc new)"
      using updateAffinityMap_ok [OF ok Some, of new] by (auto intro: lb_ok_update [OF ok])
  qed (simp add: updateAffinityMap_def ok)
  have "distinct (sort ?f)" using dist by simp
  then show ?thesis
    using ok dist lb1 new_ok set_state unfolding update_port_def Let_def
    by (auto split: option.splits simp del: distinct_sort)
qed

lemma update_ports_ok:
  assumes "lb_ok lb" "permutes shuffle"
    "\<forall>(p, pairs) \<in> set ports. distinct (flattenValidEndpoints pairs)"
  shows "lb_ok (fst (update_ports shuffle ns name ports (lb, registered)))"
  using assms
proof (induction ports arbitrary: lb registered)
  case (Cons p ports)
  then show ?case using update_port_ok [OF Cons.prems(1,2)] by (cases p) (auto simp: Let_def)
qed simp

lemma OnEndpointsUpdate_ok:
  assumes "lb_ok lb" and perm: "permutes shuffle"
    and dist: "\<forall>ep \<in> set eps. \<forall>(p, pairs) \<in> set (portsToEndpoints ep). distinct (flattenValidEndpoints pairs)"
  shows "lb_ok (OnEndpointsUpdate shuffle lb eps)"
proof -
  let ?step = "\<lambda>r ep. update_ports shuffle (ep_Namespace ep) (ep_Name ep) (portsToEndpoints ep) r"
  have "lb_ok (fst (foldl ?step (lb, reg) eps))" for reg
    using assms(1) dist
  proof (induction eps arbitrary: lb reg)
    case (Cons ep eps)
    obtain lb' reg' where step: "?step (lb, reg) ep = (lb', reg')" by fastforce
    have "lb_ok lb'"
      using update_ports_ok [OF Cons.prems(1) perm, of "portsToEndpoints ep" "ep_Namespace ep" "ep_Name ep" reg]
        Cons.prems(2) by (simp add: step)
    then show ?case using Cons.IH [of lb' reg'] Cons.prems(2) by (simp add: step)
  qed simp
  then have "lb_ok (filter P (fst (foldl ?step (lb, []) eps)))" for P
    by (auto simp: lb_ok_def distinct_map_filter)
  then show ?thesis by (simp add: OnEndpointsUpdate_def split_beta)
qed

lemma CleanupStaleStickySessions_ok: "lb_ok lb \<Longrightarrow> lb_ok (CleanupStaleStickySessions lb svc now)"
  using lb_ok_lookup [of lb svc]
  by (auto simp: CleanupStaleStickySessions_def state_ok_def intro!: lb_ok_update affinity_ok_filter
      split: option.splits)

section \<open>Properties of the balancer\<close>

inductive lb_reach :: "load_balancer \<Rightarrow> bool" where
  new: "lb_reach NewLoadBalancerRR"
| service: "lb_reach lb \<Longrightarrow> lb_reach (fst (NewService lb svc t ttl))"
| choose: "lb_reach lb \<Longrightarrow> NextEndpoint lb svc src reset now now' = Some (lb', r) \<Longrightarrow> lb_reach lb'"
| update: "lb_reach lb \<Longrightarrow> permutes shuffle \<Longrightarrow>
    \<forall>ep \<in> set eps. \<forall>(p, pairs) \<in> set (portsToEndpoints ep). distinct (flattenValidEndpoints pairs) \<Longrightarrow>
    lb_reach (OnEndpointsUpdate shuffle lb eps)"
| cleanup: "lb_reach lb \<Longrightarrow> lb_reach (CleanupStaleStickySessions lb svc now)"

lemma lb_reach_ok: "lb_reach lb \<Longrightarrow> lb_ok lb"
proof (induction rule: lb_reach.induct)
  case (choose lb svc src reset now now' lb' r)
  then show ?case using NextEndpoint_ok [of lb svc src reset now now'] by auto
qed (auto simp: NewService_def NewLoadBalancerRR_def lb_ok_def [of "[]"] newServiceInternal_ok
    OnEndpointsUpdate_ok CleanupStaleStickySessions_ok)

text \<open>
  C32: in every state the balancer reaches by updates whose endpoints of a port are distinct,
  \<open>NextEndpoint\<close> does not panic.  It fails, without effect, for an unknown service, for a service without
  endpoints and, with session affinity, for a malformed source address; in every other case it returns
  an endpoint that the service has at that time.
\<close>

theorem NextEndpoint_returns_current:
  assumes "lb_reach lb"
  shows "case map_of lb svc of
      None \<Rightarrow> NextEndpoint lb svc src reset now now' = Some (lb, Inl ErrMissingServiceEntry)
    | Some st \<Rightarrow>
        if bs_endpoints st = [] then NextEndpoint lb svc src reset now now' = Some (lb, Inl ErrMissingEndpoints)
        else if isSessionAffinity (bs_affinity st) \<and> isl (SplitHostPort src)
        then \<exists>err. NextEndpoint lb svc src reset now now' = Some (lb, Inl err)
        else \<exists>lb' e. NextEndpoint lb svc src reset now now' = Some (lb', Inr e) \<and> e \<in> set (bs_endpoints st)"
proof (cases "map_of lb svc")
  case None
  then show ?thesis by (simp add: NextEndpoint_def)
next
  case (Some st)
  obtain lb' r where r: "NextEndpoint lb svc src reset now now' = Some (lb', r)"
    and e: "\<And>e. r = Inr e \<Longrightarrow> \<exists>st. map_of lb svc = Some st \<and> e \<in> set (bs_endpoints st)"
    using NextEndpoint_ok [OF lb_reach_ok [OF assms], of svc src reset now now'] by blast
  consider "bs_endpoints st = []"
    | "bs_endpoints st \<noteq> []" "isSessionAffinity (bs_affinity st)" "isl (SplitHostPort src)"
    | "bs_endpoints st \<noteq> []" "\<not> (isSessionAffinity (bs_affinity st) \<and> isl (SplitHostPort src))" by blast
  then show ?thesis
  proof cases
    case 3
    then have "r \<noteq> Inl err" for err
      using r Some by (auto simp: NextEndpoint_def split: option.splits if_splits sum.splits prod.splits)
    then obtain x where "r = Inr x" by (cases r) auto
    then show ?thesis using 3 r e Some by auto
  qed (use Some in \<open>auto simp: NextEndpoint_def split: sum.splits\<close>)
qed

lemma mset_rotated: "mset (rotate n xs) = mset xs"
proof (induction n)
  case (Suc n)
  have "mset (rotate1 ys) = mset ys" for ys :: "'a list" by (cases ys) auto
  then show ?case using Suc by simp
qed simp

text \<open>Several choices for one service, and the endpoints they give.\<close>

fun choose_n :: "nat \<Rightarrow> load_balancer \<Rightarrow> service_port \<Rightarrow> string \<Rightarrow> int \<Rightarrow> (load_balancer \<times> string list) option" where
  "choose_n 0 lb svc src now = Some (lb, [])"
| "choose_n (Suc n) lb svc src now =
     (case NextEndpoint lb svc src False now now of
        Some (lb', Inr e) \<Rightarrow> map_option (\<lambda>(lb'', es). (lb'', e # es)) (choose_n n lb' svc src now)
      | _ \<Rightarrow> None)"

definition at_index :: "balancer_state \<Rightarrow> nat \<Rightarrow> balancer_state" where
  "at_index st i = st\<lparr>bs_index := i mod length (bs_endpoints st)\<rparr>"

lemma update_update_same: "AList.update k v (AList.update k w al) = AList.update k v al"
  by (induction al) auto

lemma update_same: "map_of al k = Some v \<Longrightarrow> AList.update k v al = al"
  by (induction al) auto

lemma choose_n_spec:
  assumes "map_of lb svc = Some st" "bs_endpoints st \<noteq> []" "\<not> isSessionAffinity (bs_affinity st)"
  shows "choose_n n (AList.update svc (at_index st i) lb) svc src now =
    Some (AList.update svc (at_index st (i + n)) lb,
          map (\<lambda>k. bs_endpoints st ! (k mod length (bs_endpoints st))) [i..<i + n])"
proof (induction n arbitrary: i)
  case (Suc n)
  have "NextEndpoint (AList.update svc (at_index st i) lb) svc src False now now =
      Some (AList.update svc (at_index st (Suc i)) lb, Inr (bs_endpoints st ! (i mod length (bs_endpoints st))))"
    using assms(2,3)
    by (simp add: NextEndpoint_def update_conv' take_next_def at_index_def update_update_same mod_Suc_eq)
  moreover have "[i..<i + Suc n] = i # [Suc i..<Suc i + n]" by (simp add: upt_conv_Cons)
  ultimately show ?case using Suc.IH [of "Suc i"] by simp
qed simp

text \<open>
  Without session affinity the choice is fair.  As many choices in a row as a service has
  endpoints return each endpoint once, in their order from the current index on, and leave the
  balancer as it was.
\<close>

theorem round_robin_is_fair:
  assumes "lb_reach lb" "map_of lb svc = Some st" "bs_endpoints st \<noteq> []" "\<not> isSessionAffinity (bs_affinity st)"
  shows "choose_n (length (bs_endpoints st)) lb svc src now =
      Some (lb, rotate (bs_index st) (bs_endpoints st)) \<and>
    mset (rotate (bs_index st) (bs_endpoints st)) = mset (bs_endpoints st)"
proof -
  let ?es = "bs_endpoints st" and ?i = "bs_index st"
  have "?i < length ?es"
    using lb_ok_lookup [OF lb_reach_ok [OF assms(1)] assms(2)] assms(3) by (auto simp: state_ok_def)
  then have same: "at_index st ?i = st" "at_index st (?i + length ?es) = st" by (simp_all add: at_index_def)
  have "map (\<lambda>k. ?es ! (k mod length ?es)) [?i..<?i + length ?es] = rotate ?i ?es"
    by (rule nth_equalityI) (simp_all add: nth_rotate add.commute)
  moreover have "choose_n (length ?es) lb svc src now =
      Some (lb, map (\<lambda>k. ?es ! (k mod length ?es)) [?i..<?i + length ?es])"
    using choose_n_spec [OF assms(2-4), of "length ?es" ?i src now] by (simp only: same update_same [OF assms(2)])
  ultimately show ?thesis by (simp add: mset_rotated)
qed

text \<open>Within the time to live a client keeps its endpoint.\<close>

lemma NextEndpoint_records:
  assumes "NextEndpoint lb svc src reset t t' = Some (lb', Inr e)" "map_of lb svc = Some st"
    "isSessionAffinity (bs_affinity st)" "SplitHostPort src = Inr (ip, p)"
  shows "\<exists>st' a. map_of lb' svc = Some (record_affinity st' ip a) \<and> bs_endpoints st' = bs_endpoints st \<and>
    bs_endpoints st \<noteq> [] \<and> bs_affinity st' = bs_affinity st \<and> af_endpoint a = e \<and> af_lastUsed a = t'"
proof (cases "if reset then None else usable_affinity (bs_affinity st) ip t")
  case (Some a)
  then show ?thesis using assms
    by (intro exI [of _ st] exI [of _ "a\<lparr>af_lastUsed := t'\<rparr>"])
      (auto simp: NextEndpoint_def update_conv' split: if_splits)
next
  case None
  have ne: "bs_endpoints st \<noteq> []" using assms by (auto simp: NextEndpoint_def)
  obtain st' e' where "take_next st = Some (st', e')"
    using assms None ne by (cases "take_next st") (auto simp: NextEndpoint_def)
  then show ?thesis using assms None ne
    by (intro exI [of _ st'] exI [of _ "\<lparr>af_clientIP = ip, af_endpoint = e', af_lastUsed = t'\<rparr>"])
      (auto simp: NextEndpoint_def update_conv' take_next_def split: if_splits)
qed

lemma affinity_sticks:
  assumes "NextEndpoint lb svc src reset t t' = Some (lb', Inr e)" "map_of lb svc = Some st"
    "isSessionAffinity (bs_affinity st)" "SplitHostPort src = Inr (ip, p)" "SplitHostPort src' = Inr (ip, p')"
    "whole_minutes (now - t') < ap_ttlMinutes (bs_affinity st)"
  shows "\<exists>lb''. NextEndpoint lb' svc src' False now now' = Some (lb'', Inr e)"
proof -
  obtain st' a where "map_of lb' svc = Some (record_affinity st' ip a)" "bs_endpoints st' = bs_endpoints st"
    "bs_endpoints st \<noteq> []" "bs_affinity st' = bs_affinity st" "af_endpoint a = e" "af_lastUsed a = t'"
    using NextEndpoint_records [OF assms(1-4)] by blast
  then show ?thesis
    using assms(3,5,6)
    by (simp add: NextEndpoint_def record_affinity_def usable_affinity_def isSessionAffinity_def update_conv')
qed

section \<open>Witnesses and defects\<close>

definition web :: service_port where "web = (''ns'', ''web'', ''http'')"

text \<open>The endpoints of the service: one subset for each address.\<close>

definition web_endpoints :: "string list \<Rightarrow> endpoints" where
  "web_endpoints ips =
     \<lparr>ep_Namespace = ''ns'', ep_Name = ''web'',
      ep_Subsets = map (\<lambda>ip. \<lparr>es_Addresses = [ip], es_Ports = [(''http'', 80)]\<rparr>) ips\<rparr>"

definition in_order :: "service_port \<Rightarrow> string list \<Rightarrow> string list" where
  "in_order k xs = xs"

lemma permutes_in_order: "permutes in_order"
  by (simp add: permutes_def in_order_def)

definition web_lb :: "string list \<Rightarrow> load_balancer" where
  "web_lb ips = OnEndpointsUpdate in_order NewLoadBalancerRR [web_endpoints ips]"

lemma web_lb_reach: "lb_reach (web_lb [''10.0.0.1'', ''10.0.0.2''])"
  unfolding web_lb_def
proof (rule lb_reach.update [OF lb_reach.new permutes_in_order])
  have "list_all (\<lambda>(p, pairs). distinct (flattenValidEndpoints pairs))
      (portsToEndpoints (web_endpoints [''10.0.0.1'', ''10.0.0.2'']))"
    by code_simp
  then show "\<forall>ep \<in> set [web_endpoints [''10.0.0.1'', ''10.0.0.2'']].
      \<forall>(p, pairs) \<in> set (portsToEndpoints ep). distinct (flattenValidEndpoints pairs)"
    by (simp add: list_all_iff)
qed

lemma web_lb_state:
  "map_of (web_lb [''10.0.0.1'', ''10.0.0.2'']) web =
     Some \<lparr>bs_endpoints = [''10.0.0.1:80'', ''10.0.0.2:80''], bs_index = 0,
           bs_affinity = newAffinityPolicy [] 180\<rparr>"
  by code_simp

theorem NextEndpoint_returns_current_witness:
  "\<exists>lb' e. NextEndpoint (web_lb [''10.0.0.1'', ''10.0.0.2'']) web ''1.2.3.4:5'' False 0 0 = Some (lb', Inr e)"
proof -
  have "\<not> isSessionAffinity (newAffinityPolicy [] 180)" by code_simp
  then show ?thesis
    using NextEndpoint_returns_current [OF web_lb_reach, of web "''1.2.3.4:5''" False 0 0]
    by (auto simp: web_lb_state)
qed

theorem round_robin_is_fair_witness:
  "choose_n 2 (web_lb [''10.0.0.1'', ''10.0.0.2'']) web ''1.2.3.4:5'' 0 =
     Some (web_lb [''10.0.0.1'', ''10.0.0.2''], [''10.0.0.1:80'', ''10.0.0.2:80''])"
proof -
  have "\<not> isSessionAffinity (newAffinityPolicy [] 180)" by code_simp
  then show ?thesis
    using round_robin_is_fair [OF web_lb_reach web_lb_state, of "''1.2.3.4:5''" 0] by (simp add: numeral_2_eq_2)
qed

text \<open>
  Two losses around session affinity.  An endpoint listed twice for a port is counted twice, so
  its affinity records survive when it disappears, and a client is sent to an endpoint the service
  no longer has; and an update that does not list a service deletes its entry with the affinity type,
  which the next update does not bring back.
\<close>

theorem affinity_defects:
  "(let lb1 = OnEndpointsUpdate in_order (fst (NewService NewLoadBalancerRR web ''ClientIP'' 180))
                [web_endpoints [''10.0.0.1'', ''10.0.0.1'']];
        (lb2, r2) = the (NextEndpoint lb1 web ''1.2.3.4:5'' False 0 0);
        lb3 = OnEndpointsUpdate in_order lb2 [web_endpoints [''10.0.0.9'']];
        (lb4, r4) = the (NextEndpoint lb3 web ''1.2.3.4:5'' False 1 1)
    in r4 = Inr ''10.0.0.1:80'' \<and> map_option bs_endpoints (map_of lb3 web) = Some [''10.0.0.9:80'']) \<and>
   (let lb1 = OnEndpointsUpdate in_order (fst (NewService NewLoadBalancerRR web ''ClientIP'' 180))
                [web_endpoints [''10.0.0.1'']];
        lb2 = OnEndpointsUpdate in_order (OnEndpointsUpdate in_order lb1 []) [web_endpoints [''10.0.0.1'']]
    in map_option (\<lambda>st. isSessionAffinity (bs_affinity st)) (map_of lb1 web) = Some True \<and>
       map_option (\<lambda>st. isSessionAffinity (bs_affinity st)) (map_of lb2 web) = Some False)"
  by code_simp

end
