(* ===== verification/Netid_Allocator.thy ===== *)
theory Netid_Allocator
  imports Alloc_Bitmap
begin

text \<open>
  Network ids of the multitenant SDN: the id range of \<open>origin/pkg/sdn/plugin/netid/netid.go\<close>
  over 32-bit words, the allocator of \<open>origin/pkg/sdn/plugin/netid/allocator.go\<close> over any
  \<open>allocator.Interface\<close>, and \<open>ValidVNID\<close> with the annotation accessors of
  \<open>origin/pkg/sdn/api/netid.go\<close>.
\<close>

section \<open>Ids and ranges\<close>

definition MaxVNID :: "32 word" where "MaxVNID = push_bit 24 1 - 1"
definition MinVNID :: "32 word" where "MinVNID = 10"
definition GlobalVNID :: "32 word" where "GlobalVNID = 0"

definition vnid_text :: "32 word \<Rightarrow> string" where "vnid_text w = decimal (unat w)"

definition ValidVNID :: "32 word \<Rightarrow> go_error option" where
  "ValidVNID vnid =
     (if vnid = GlobalVNID then None
      else if vnid < MinVNID
      then Some (Errorf ''VNID must be greater than or equal to %d'' [vnid_text MinVNID])
      else if vnid > MaxVNID
      then Some (Errorf ''VNID must be less than or equal to %d'' [vnid_text MaxVNID])
      else None)"

record netid_range =
  nr_Base :: "32 word"
  nr_Size :: "32 word"

definition nr_Contains :: "netid_range \<Rightarrow> 32 word \<Rightarrow> bool \<times> 32 word" where
  "nr_Contains r netid =
     (if netid \<ge> nr_Base r \<and> netid - nr_Base r < nr_Size r then (True, netid - nr_Base r)
      else (False, 0))"

definition nr_String :: "netid_range \<Rightarrow> string" where
  "nr_String r =
     (if nr_Size r = 0 then []
      else vnid_text (nr_Base r) @ ''-'' @ vnid_text (nr_Base r + nr_Size r - 1))"

definition nr_Set :: "netid_range \<Rightarrow> 32 word \<Rightarrow> 32 word \<Rightarrow> netid_range \<times> go_error option" where
  "nr_Set r base sz =
     (if base < MinVNID
      then (r, Some (Errorf ''invalid netid base, must be greater than %d'' [vnid_text MinVNID]))
      else if sz = 0
      then (r, Some (Errorf ''invalid netid size, must be greater than zero'' []))
      else if base + sz - 1 > MaxVNID
      then (r, Some (Errorf ''netid range exceeded max value %d'' [vnid_text MaxVNID]))
      else (r\<lparr>nr_Base := base, nr_Size := sz\<rparr>, None))"

definition NewNetIDRange :: "32 word \<Rightarrow> 32 word \<Rightarrow> go_error + netid_range" where
  "NewNetIDRange lo hi =
     (case nr_Set \<lparr>nr_Base = 0, nr_Size = 0\<rparr> lo (hi - lo + 1) of
        (r, Some err) \<Rightarrow> Inl err
      | (r, None) \<Rightarrow> Inr r)"

section \<open>The allocator\<close>

record 's netid_allocator =
  na_range :: netid_range
  na_ops :: "'s alloc_ops"
  na_alloc :: 's

definition na_ErrFull :: go_error where "na_ErrFull = Errorf ''range is full'' []"
definition na_ErrNotInRange :: go_error where
  "na_ErrNotInRange = Errorf ''provided netid is not in the valid range'' []"
definition na_ErrAllocated :: go_error where
  "na_ErrAllocated = Errorf ''provided netid is already allocated'' []"

definition na_New ::
  "'s alloc_ops \<Rightarrow> netid_range \<Rightarrow> (nat \<Rightarrow> string \<Rightarrow> 's) \<Rightarrow> 's netid_allocator" where
  "na_New ops r allocatorFactory =
     \<lparr>na_range = r, na_ops = ops, na_alloc = allocatorFactory (unat (nr_Size r)) (nr_String r)\<rparr>"

definition na_NewInMemory :: "netid_range \<Rightarrow> alloc_bitmap netid_allocator" where
  "na_NewInMemory r = na_New bitmap_ops r NewAllocationMap"

definition na_Free :: "'s netid_allocator \<Rightarrow> int" where
  "na_Free r = op_Free (na_ops r) (na_alloc r)"

definition na_Allocate ::
  "'s netid_allocator \<Rightarrow> 32 word \<Rightarrow> 's netid_allocator \<times> go_error option" where
  "na_Allocate r vnid =
     (let (ok, offset) = nr_Contains (na_range r) vnid
      in if \<not> ok then (r, Some na_ErrNotInRange)
         else (let (s, res) = op_Allocate (na_ops r) (na_alloc r) (unat offset);
                   r' = r\<lparr>na_alloc := s\<rparr>
               in case res of
                    Inl err \<Rightarrow> (r', Some err)
                  | Inr False \<Rightarrow> (r', Some na_ErrAllocated)
                  | Inr True \<Rightarrow> (r', None)))"

definition na_AllocateNext ::
  "nat \<Rightarrow> 's netid_allocator \<Rightarrow> 's netid_allocator \<times> (go_error + 32 word)" where
  "na_AllocateNext draw r =
     (let (s, res) = op_AllocateNext (na_ops r) draw (na_alloc r);
          r' = r\<lparr>na_alloc := s\<rparr>
      in case res of
           Inl err \<Rightarrow> (r', Inl err)
         | Inr None \<Rightarrow> (r', Inl na_ErrFull)
         | Inr (Some offset) \<Rightarrow> (r', Inr (nr_Base (na_range r) + of_nat offset)))"

definition na_Release ::
  "'s netid_allocator \<Rightarrow> 32 word \<Rightarrow> 's netid_allocator \<times> go_error option" where
  "na_Release r vnid =
     (let (ok, offset) = nr_Contains (na_range r) vnid
      in if \<not> ok then (r, None)
         else (let (s, err) = op_Release (na_ops r) (na_alloc r) (unat offset)
               in (r\<lparr>na_alloc := s\<rparr>, err)))"

definition na_Has :: "'s netid_allocator \<Rightarrow> 32 word \<Rightarrow> bool" where
  "na_Has r vnid =
     (let (ok, offset) = nr_Contains (na_range r) vnid
      in ok \<and> op_Has (na_ops r) (na_alloc r) (unat offset))"

section \<open>The annotation that asks for a change of network\<close>

text \<open>A \<open>NetNamespace\<close>: its name, network name, network id and annotations (\<open>None\<close>: a nil map).\<close>

record net_namespace =
  nn_Name :: string
  nn_NetName :: string
  nn_NetID :: "32 word"
  nn_Annotations :: "(string \<rightharpoonup> string) option"

definition ChangePodNetworkAnnotation :: string where
  "ChangePodNetworkAnnotation = ''pod.network.openshift.io/multitenant.change-network''"

type_synonym pod_network_action = string

definition GlobalPodNetwork :: pod_network_action where "GlobalPodNetwork = ''global''"
definition JoinPodNetwork :: pod_network_action where "JoinPodNetwork = ''join''"
definition IsolatePodNetwork :: pod_network_action where "IsolatePodNetwork = ''isolate''"

definition ErrorPodNetworkAnnotationNotFound :: go_error where
  "ErrorPodNetworkAnnotationNotFound = Errorf ''ChangePodNetworkAnnotation not found'' []"

definition nn_lookup :: "net_namespace \<Rightarrow> string \<Rightarrow> string option" where
  "nn_lookup netns k = (case nn_Annotations netns of None \<Rightarrow> None | Some m \<Rightarrow> m k)"

definition GetChangePodNetworkAnnotation ::
  "net_namespace \<Rightarrow> pod_network_action \<times> string \<times> go_error option" where
  "GetChangePodNetworkAnnotation netns =
     (case nn_lookup netns ChangePodNetworkAnnotation of
        None \<Rightarrow> ([], [], Some ErrorPodNetworkAnnotationNotFound)
      | Some text \<Rightarrow>
          let args = split_char CHR '':'' text in
          if args ! 0 = GlobalPodNetwork then (GlobalPodNetwork, [], None)
          else if args ! 0 = JoinPodNetwork then
            (if length args \<noteq> 2
             then ([], [], Some (Errorf ''invalid namespace for join pod network: %s'' [text]))
             else (JoinPodNetwork, args ! 1, None))
          else if args ! 0 = IsolatePodNetwork then (IsolatePodNetwork, [], None)
          else ([], [], Some (Errorf ''invalid ChangePodNetworkAnnotation: %s'' [text])))"

definition SetChangePodNetworkAnnotation ::
  "net_namespace \<Rightarrow> pod_network_action \<Rightarrow> string \<Rightarrow> net_namespace" where
  "SetChangePodNetworkAnnotation netns act params =
     (let m = (case nn_Annotations netns of None \<Rightarrow> Map.empty | Some m \<Rightarrow> m);
          text = (if params \<noteq> [] then act @ '':'' @ params else act)
      in netns\<lparr>nn_Annotations := Some (m(ChangePodNetworkAnnotation \<mapsto> text))\<rparr>)"

definition DeleteChangePodNetworkAnnotation :: "net_namespace \<Rightarrow> net_namespace" where
  "DeleteChangePodNetworkAnnotation netns =
     netns\<lparr>nn_Annotations :=
       map_option (\<lambda>m. m(ChangePodNetworkAnnotation := None)) (nn_Annotations netns)\<rparr>"

section \<open>Ranges\<close>

lemmas word_nat = word_less_nat_alt word_le_nat_alt unat_sub_if' unat_plus_if'

lemma MaxVNID_value [simp]: "MaxVNID = 16777215"
  by (simp add: MaxVNID_def)

lemma NewNetIDRange_Inr:
  "NewNetIDRange lo hi = Inr r \<longleftrightarrow>
     MinVNID \<le> lo \<and> hi \<le> MaxVNID \<and> hi - lo + 1 \<noteq> 0 \<and> r = \<lparr>nr_Base = lo, nr_Size = hi - lo + 1\<rparr>"
  by (auto simp: NewNetIDRange_def nr_Set_def not_less not_le split: prod.splits option.splits if_splits)

text \<open>The ids of a range that does not wrap around.\<close>

definition range_fits :: "netid_range \<Rightarrow> bool" where
  "range_fits r \<longleftrightarrow> unat (nr_Base r) + unat (nr_Size r) \<le> 2 ^ 32"

definition id_at :: "netid_range \<Rightarrow> nat \<Rightarrow> 32 word" where
  "id_at r n = nr_Base r + of_nat n"

definition range_ids :: "netid_range \<Rightarrow> 32 word set" where
  "range_ids r = {i. fst (nr_Contains r i)}"

lemma Contains_offset:
  "fst (nr_Contains r i) \<Longrightarrow> unat (snd (nr_Contains r i)) < unat (nr_Size r)
     \<and> id_at r (unat (snd (nr_Contains r i))) = i"
  by (auto simp: nr_Contains_def id_at_def word_less_nat_alt split: if_splits)

lemma unat_offset: "n < unat (nr_Size r) \<Longrightarrow> unat (of_nat n :: 32 word) = n"
  using order.strict_trans [OF _ unsigned_less [of "nr_Size r", where 'a = nat]]
  by (simp add: unsigned_of_nat take_bit_nat_eq_self)

lemma Contains_id_at:
  assumes "range_fits r" "n < unat (nr_Size r)"
  shows "nr_Contains r (id_at r n) = (True, of_nat n)"
proof -
  have "unat (nr_Base r) + n < 2 ^ 32"
    using assms by (simp add: range_fits_def)
  then have "nr_Base r \<le> id_at r n"
    by (simp add: id_at_def word_le_nat_alt unat_plus_if' unat_offset [OF assms(2)])
  moreover have "(of_nat n :: 32 word) < nr_Size r"
    using assms(2) by (simp add: word_less_nat_alt unat_offset [OF assms(2)])
  ultimately show ?thesis by (simp add: nr_Contains_def id_at_def)
qed

lemma id_at_inject:
  "range_fits r \<Longrightarrow> m < unat (nr_Size r) \<Longrightarrow> n < unat (nr_Size r) \<Longrightarrow>
   id_at r m = id_at r n \<longleftrightarrow> m = n"
  by (metis Contains_id_at snd_conv unat_offset)

section \<open>The allocator over any \<open>allocator.Interface\<close>\<close>

definition na_ids :: "'s netid_allocator \<Rightarrow> 32 word set" where
  "na_ids r = {i. na_Has r i}"

definition na_ok :: "'s alloc_ops \<Rightarrow> ('s \<Rightarrow> bool) \<Rightarrow> 's netid_allocator \<Rightarrow> bool" where
  "na_ok ops ok r \<longleftrightarrow> na_ops r = ops \<and> ok (na_alloc r) \<and> range_fits (na_range r)"

text \<open>Two allocators with the same operations and range that differ in one allocated offset.\<close>

lemma na_ids_update:
  assumes "na_ops r' = na_ops r" "na_range r' = na_range r" "nr_Contains (na_range r) i = (True, off)"
    and "op_Has (na_ops r) (na_alloc r') = (op_Has (na_ops r) (na_alloc r))(unat off := b)"
  shows "na_ids r' = (if b then insert i (na_ids r) else na_ids r - {i})"
proof -
  have same: "snd (nr_Contains (na_range r) j) = off \<longleftrightarrow> j = i" if "fst (nr_Contains (na_range r) j)" for j
    using Contains_offset [OF that] Contains_offset [of "na_range r" i] assms(3) by auto
  have off_same: "unat x = unat off \<longleftrightarrow> x = off" for x :: "32 word"
    by (simp add: word_unat_eq_iff)
  have "na_Has r' j \<longleftrightarrow> (if j = i then b else na_Has r j)" for j
    using assms same [of j]
    by (cases "nr_Contains (na_range r) j") (auto simp: na_Has_def off_same)
  then show ?thesis by (auto simp: na_ids_def)
qed

lemma na_Has_iff:
  "na_Has r i \<longleftrightarrow> fst (nr_Contains (na_range r) i)
     \<and> op_Has (na_ops r) (na_alloc r) (unat (snd (nr_Contains (na_range r) i)))"
  by (simp add: na_Has_def split_beta)

lemma na_ids_range: "na_ids r \<subseteq> range_ids (na_range r)"
  by (auto simp: na_ids_def range_ids_def na_Has_iff)

context allocation
begin

lemma na_AllocateNext_cases:
  assumes r: "na_ok ops ok r" and cap: "unat (nr_Size (na_range r)) = cap"
  obtains (full) "na_AllocateNext draw r = (r, Inl na_ErrFull)" "na_ids r = range_ids (na_range r)"
  | (found) r' i where "na_AllocateNext draw r = (r', Inr i)" "i \<in> range_ids (na_range r)"
      "i \<notin> na_ids r" "na_ids r' = insert i (na_ids r)" "na_ok ops ok r'"
      "na_range r' = na_range r"
proof -
  from r have ok: "ok (na_alloc r)" and ops: "na_ops r = ops" and fits: "range_fits (na_range r)"
    by (simp_all add: na_ok_def)
  show ?thesis
  proof (rule Next_cases [OF ok, of draw])
    assume "op_AllocateNext ops draw (na_alloc r) = (na_alloc r, Inr None)"
      and all: "\<And>n. n < cap \<Longrightarrow> op_Has ops (na_alloc r) n"
    then have "na_AllocateNext draw r = (r, Inl na_ErrFull)"
      by (simp add: na_AllocateNext_def ops)
    moreover have "range_ids (na_range r) \<subseteq> na_ids r"
      using all Contains_offset [of "na_range r"]
      by (auto simp: range_ids_def na_ids_def na_Has_iff ops cap)
    ultimately show ?thesis using full na_ids_range [of r] by blast
  next
    fix s' n
    assume s': "op_AllocateNext ops draw (na_alloc r) = (s', Inr (Some n))" "n < cap"
      "\<not> op_Has ops (na_alloc r) n" "ok s'" "op_Has ops s' = (op_Has ops (na_alloc r))(n := True)"
    let ?i = "id_at (na_range r) n"
    have n: "n < unat (nr_Size (na_range r))" using s'(2) cap by simp
    have c: "nr_Contains (na_range r) ?i = (True, of_nat n)" by (rule Contains_id_at [OF fits n])
    show ?thesis
    proof (rule found)
      show "na_AllocateNext draw r = (r\<lparr>na_alloc := s'\<rparr>, Inr ?i)"
        by (simp add: na_AllocateNext_def ops s'(1) id_at_def)
      show "?i \<in> range_ids (na_range r)" by (simp add: range_ids_def c)
      show "?i \<notin> na_ids r" using s'(3) by (simp add: na_ids_def na_Has_def c ops unat_offset [OF n])
      show "na_ids (r\<lparr>na_alloc := s'\<rparr>) = insert ?i (na_ids r)"
        using na_ids_update [of "r\<lparr>na_alloc := s'\<rparr>" r ?i "of_nat n" True] c s'(5)
        by (simp add: ops unat_offset [OF n])
    qed (use r s'(4) in \<open>simp_all add: na_ok_def\<close>)
  qed
qed

lemma na_Allocate_cases:
  assumes r: "na_ok ops ok r" and cap: "unat (nr_Size (na_range r)) = cap"
  obtains (outside) "na_Allocate r i = (r, Some na_ErrNotInRange)" "i \<notin> range_ids (na_range r)"
  | (taken) "na_Allocate r i = (r, Some na_ErrAllocated)" "i \<in> na_ids r"
  | (fresh) r' where "na_Allocate r i = (r', None)" "i \<in> range_ids (na_range r)" "i \<notin> na_ids r"
      "na_ids r' = insert i (na_ids r)" "na_ok ops ok r'" "na_range r' = na_range r"
proof (cases "nr_Contains (na_range r) i")
  case (Pair c off)
  from r have ok: "ok (na_alloc r)" and ops: "na_ops r = ops" by (simp_all add: na_ok_def)
  show ?thesis
  proof (cases c)
    case False
    then show ?thesis using outside Pair by (simp add: na_Allocate_def range_ids_def)
  next
    case True
    have off: "unat off < cap" using Contains_offset [of "na_range r" i] Pair True cap by simp
    show ?thesis
    proof (rule Allocate_cases [OF ok off])
      assume "op_Allocate ops (na_alloc r) (unat off) = (na_alloc r, Inr False)"
        "op_Has ops (na_alloc r) (unat off)"
      then show ?thesis
        using taken Pair True by (simp add: na_Allocate_def ops na_ids_def na_Has_def)
    next
      fix s' assume s': "op_Allocate ops (na_alloc r) (unat off) = (s', Inr True)"
        "\<not> op_Has ops (na_alloc r) (unat off)" "ok s'"
        "op_Has ops s' = (op_Has ops (na_alloc r))(unat off := True)"
      show ?thesis
      proof (rule fresh)
        show "na_Allocate r i = (r\<lparr>na_alloc := s'\<rparr>, None)"
          using Pair True s'(1) by (simp add: na_Allocate_def ops)
        show "i \<in> range_ids (na_range r)" using Pair True by (simp add: range_ids_def)
        show "i \<notin> na_ids r" using Pair True s'(2) by (simp add: na_ids_def na_Has_def ops)
        show "na_ids (r\<lparr>na_alloc := s'\<rparr>) = insert i (na_ids r)"
          using na_ids_update [of "r\<lparr>na_alloc := s'\<rparr>" r i off True] Pair True s'(4)
          by (simp add: ops)
      qed (use r s'(3) in \<open>simp_all add: na_ok_def\<close>)
    qed
  qed
qed

lemma na_Release_cases:
  assumes r: "na_ok ops ok r"
  obtains r' where "na_Release r i = (r', None)" "na_ids r' = na_ids r - {i}" "na_ok ops ok r'"
    "na_range r' = na_range r"
proof (cases "nr_Contains (na_range r) i")
  case (Pair c off)
  from r have ok: "ok (na_alloc r)" and ops: "na_ops r = ops" by (simp_all add: na_ok_def)
  show ?thesis
  proof (cases c)
    case False
    then have "i \<notin> na_ids r" using na_ids_range [of r] Pair by (auto simp: range_ids_def)
    then show ?thesis using that [of r] False Pair r by (simp add: na_Release_def)
  next
    case True
    obtain s' where s': "op_Release ops (na_alloc r) (unat off) = (s', None)" "ok s'"
      "op_Has ops s' = (op_Has ops (na_alloc r))(unat off := False)"
      by (rule Release_cases [OF ok])
    show ?thesis
    proof (rule that)
      show "na_Release r i = (r\<lparr>na_alloc := s'\<rparr>, None)"
        using Pair True s'(1) by (simp add: na_Release_def ops)
      show "na_ids (r\<lparr>na_alloc := s'\<rparr>) = na_ids r - {i}"
        using na_ids_update [of "r\<lparr>na_alloc := s'\<rparr>" r i off False] Pair True s'(3)
        by (simp add: ops)
    qed (use r s'(2) in \<open>simp_all add: na_ok_def\<close>)
  qed
qed

end

section \<open>Properties\<close>

lemma MinVNID_pos: "MinVNID \<le> i \<Longrightarrow> i \<noteq> GlobalVNID"
  by (auto simp: MinVNID_def GlobalVNID_def)

lemma new_range_contains:
  "hi - lo + 1 \<noteq> 0 \<Longrightarrow>
   fst (nr_Contains \<lparr>nr_Base = lo, nr_Size = hi - lo + 1\<rparr> i) \<longleftrightarrow> lo \<le> i \<and> (i \<le> hi \<or> hi < lo)"
proof -
  assume nz: "hi - lo + 1 \<noteq> 0"
  then have succ: "unat (hi - lo + 1) = unat (hi - lo) + 1"
    by (metis unatSuc add.commute Suc_eq_plus1)
  have bounds: "unat i < 2 ^ 32" "unat lo < 2 ^ 32" "unat hi < 2 ^ 32" "unat (hi - lo + 1) < 2 ^ 32"
    by (rule order.strict_trans2 [OF unsigned_less], simp)+
  show ?thesis
    using bounds unfolding succ
    by (auto simp: nr_Contains_def word_nat succ split: if_splits)
qed

text \<open>
  Which ids \<open>NewNetIDRange(lo, hi)\<close> ends up managing.  The bounds are checked with wrapping
  32-bit arithmetic: a range in order contains exactly the ids from \<open>lo\<close> to \<open>hi\<close>, all between
  \<open>MinVNID\<close> and \<open>MaxVNID\<close>; bounds in the wrong order are refused only when \<open>lo = hi + 1\<close>, and are
  otherwise accepted as a range of every id from \<open>lo\<close> on, those above \<open>MaxVNID\<close> included.
\<close>

theorem NewNetIDRange_ids:
  "(\<exists>r. NewNetIDRange lo hi = Inr r \<and> fst (nr_Contains r i)) \<longleftrightarrow>
     MinVNID \<le> lo \<and> hi \<le> MaxVNID \<and> hi - lo + 1 \<noteq> 0 \<and> lo \<le> i \<and> (i \<le> hi \<or> hi < lo)"
  by (auto simp: NewNetIDRange_Inr new_range_contains)

lemma split_char_two_elems: "sep \<notin> set b \<Longrightarrow> sep \<notin> set a \<Longrightarrow> split_char sep (a @ sep # b) = [a, b]"
  by (simp add: split_char_append split_char_join)

lemma action_texts:
  "CHR '':'' \<notin> set GlobalPodNetwork" "CHR '':'' \<notin> set JoinPodNetwork"
  "CHR '':'' \<notin> set IsolatePodNetwork"
  "GlobalPodNetwork \<noteq> JoinPodNetwork" "GlobalPodNetwork \<noteq> IsolatePodNetwork"
  "JoinPodNetwork \<noteq> IsolatePodNetwork"
  by (simp_all add: GlobalPodNetwork_def JoinPodNetwork_def IsolatePodNetwork_def)

lemma Set_lookup:
  "nn_lookup (SetChangePodNetworkAnnotation netns act params) ChangePodNetworkAnnotation =
     Some (if params \<noteq> [] then act @ '':'' @ params else act)"
  by (simp add: nn_lookup_def SetChangePodNetworkAnnotation_def Let_def)

lemma Get_action:
  assumes "GetChangePodNetworkAnnotation netns = (act, params, None)"
  shows "act \<in> {GlobalPodNetwork, IsolatePodNetwork} \<and> params = []
    \<or> act = JoinPodNetwork \<and> CHR '':'' \<notin> set params"
proof -
  obtain t where t: "nn_lookup netns ChangePodNetworkAnnotation = Some t"
    using assms by (auto simp: GetChangePodNetworkAnnotation_def split: option.splits)
  have "CHR '':'' \<notin> set (args ! 1)" if "split_char CHR '':'' t = args" "length args = 2" for args
  proof -
    from that(2) obtain x y where xy: "args = [x, y]"
      by (auto simp: length_Suc_conv numeral_2_eq_2)
    have "CHR '':'' \<notin> set y"
      using split_char_two that(1) unfolding xy by blast
    then show ?thesis by (simp add: xy)
  qed
  with assms t show ?thesis
    by (auto simp: GetChangePodNetworkAnnotation_def Let_def split: if_splits)
qed

lemma Get_Set_join:
  assumes "CHR '':'' \<notin> set params" "params \<noteq> []"
  shows "GetChangePodNetworkAnnotation (SetChangePodNetworkAnnotation netns JoinPodNetwork params)
    = (JoinPodNetwork, params, None)"
proof -
  have "split_char CHR '':'' (JoinPodNetwork @ CHR '':'' # params) = [JoinPodNetwork, params]"
    using assms action_texts by (intro split_char_two_elems) auto
  then show ?thesis
    using assms action_texts
    by (simp add: GetChangePodNetworkAnnotation_def Set_lookup Let_def)
qed

lemma Get_Set_plain:
  assumes "act \<in> {GlobalPodNetwork, IsolatePodNetwork}"
  shows "GetChangePodNetworkAnnotation (SetChangePodNetworkAnnotation netns act []) = (act, [], None)"
  using assms action_texts
  by (auto simp: GetChangePodNetworkAnnotation_def Set_lookup Let_def split_char_join)

lemma Get_Set_join_Nil:
  "GetChangePodNetworkAnnotation (SetChangePodNetworkAnnotation netns JoinPodNetwork [])
    = ([], [], Some (Errorf ''invalid namespace for join pod network: %s'' [JoinPodNetwork]))"
  using action_texts
  by (auto simp: GetChangePodNetworkAnnotation_def Set_lookup Let_def split_char_join)

text \<open>
  A request for a change of network written with \<open>SetChangePodNetworkAnnotation\<close> is read back
  by \<open>GetChangePodNetworkAnnotation\<close> exactly when it is \<open>global\<close> or \<open>isolate\<close> without a parameter
  or \<open>join\<close> with one that is not empty and has no colon.
\<close>

theorem pod_network_annotation_roundtrip:
  "GetChangePodNetworkAnnotation (SetChangePodNetworkAnnotation netns act params)
     = (act, params, None) \<longleftrightarrow>
   act \<in> {GlobalPodNetwork, IsolatePodNetwork} \<and> params = []
   \<or> act = JoinPodNetwork \<and> 0 < length params \<and> CHR '':'' \<notin> set params"
  using Get_action [of "SetChangePodNetworkAnnotation netns act params" act params]
    Get_Set_join [of params netns] Get_Set_plain [of act netns] Get_Set_join_Nil [of netns]
  by auto

end
