(* ===== verification/Vnids.thy ===== *)
theory Vnids
  imports Netid_Allocator "HOL-Library.AList"
begin

text \<open>
  \<open>origin/pkg/sdn/plugin/vnids_master.go\<close>: the SDN master's map from namespaces to virtual
  network ids, which it keeps in step with the \<open>NetNamespace\<close> objects of the API server.  The
  API calls are functions from the object sent to the error returned; the event handlers are
  the callbacks of \<open>watchNamespaces\<close> and \<open>watchNetNamespaces\<close>.  The lock makes each operation
  atomic, so an execution is a sequence of operations, the relation \<open>vnid_step\<close>.
\<close>

section \<open>The map and its operations\<close>

record 's vnid_map =
  vm_ids :: "(string \<times> 32 word) list"
  vm_netIDManager :: "'s netid_allocator"
  vm_adminNamespaces :: sset
  vm_allowRenumbering :: bool

definition NamespaceDefault :: string where "NamespaceDefault = ''default''"

text \<open>\<open>None\<close> is the panic on a range error.\<close>

definition newMasterVNIDMap :: "bool \<Rightarrow> alloc_bitmap vnid_map option" where
  "newMasterVNIDMap allowRenumbering =
     (case NewNetIDRange MinVNID MaxVNID of
        Inl err \<Rightarrow> None
      | Inr r \<Rightarrow> Some
          \<lparr>vm_ids = [], vm_netIDManager = na_NewInMemory r,
           vm_adminNamespaces = NewString [NamespaceDefault],
           vm_allowRenumbering = allowRenumbering\<rparr>)"

definition getVNID :: "'s vnid_map \<Rightarrow> string \<Rightarrow> 32 word option" where
  "getVNID vmap name = map_of (vm_ids vmap) name"

definition setVNID :: "'s vnid_map \<Rightarrow> string \<Rightarrow> 32 word \<Rightarrow> 's vnid_map" where
  "setVNID vmap name i = vmap\<lparr>vm_ids := AList.update name i (vm_ids vmap)\<rparr>"

definition unsetVNID :: "'s vnid_map \<Rightarrow> string \<Rightarrow> 's vnid_map \<times> 32 word option" where
  "unsetVNID vmap name =
     (vmap\<lparr>vm_ids := AList.delete name (vm_ids vmap)\<rparr>, getVNID vmap name)"

definition getVNIDCount :: "'s vnid_map \<Rightarrow> 32 word \<Rightarrow> nat" where
  "getVNIDCount vmap i = length (filter (\<lambda>(name, netid). i = netid) (vm_ids vmap))"

definition isAdminNamespace :: "'s vnid_map \<Rightarrow> string \<Rightarrow> bool" where
  "isAdminNamespace vmap nsName = Has (vm_adminNamespaces vmap) nsName"

fun populate_loop :: "'s vnid_map \<Rightarrow> net_namespace list \<Rightarrow> 's vnid_map \<times> go_error option" where
  "populate_loop vmap [] = (vmap, None)"
| "populate_loop vmap (netns # rest) =
     (let vmap1 = setVNID vmap (nn_NetName netns) (nn_NetID netns)
      in if nn_NetID netns = GlobalVNID then populate_loop vmap1 rest
         else (let (mgr, err) = na_Allocate (vm_netIDManager vmap1) (nn_NetID netns);
                   vmap2 = vmap1\<lparr>vm_netIDManager := mgr\<rparr>
               in case err of
                    None \<Rightarrow> populate_loop vmap2 rest
                  | Some e \<Rightarrow>
                      if e = na_ErrAllocated then populate_loop vmap2 rest
                      else (vmap2, Some (ErrorfE ''unable to allocate netid %d: %v''
                             [vnid_text (nn_NetID netns)] [e]))))"

definition populateVNIDs ::
  "'s vnid_map \<Rightarrow> go_error + net_namespace list \<Rightarrow> 's vnid_map \<times> go_error option" where
  "populateVNIDs vmap listed =
     (case listed of Inl err \<Rightarrow> (vmap, Some err) | Inr items \<Rightarrow> populate_loop vmap items)"

text \<open>The id, whether it existed, or the error.\<close>

definition allocateNetID ::
  "nat \<Rightarrow> 's vnid_map \<Rightarrow> string \<Rightarrow> 's vnid_map \<times> (go_error + 32 word \<times> bool)" where
  "allocateNetID draw vmap nsName =
     (case getVNID vmap nsName of
        Some netid \<Rightarrow> (vmap, Inr (netid, True))
      | None \<Rightarrow>
          if isAdminNamespace vmap nsName
          then (setVNID vmap nsName GlobalVNID, Inr (GlobalVNID, False))
          else (let (mgr, res) = na_AllocateNext draw (vm_netIDManager vmap);
                    vmap1 = vmap\<lparr>vm_netIDManager := mgr\<rparr>
                in case res of
                     Inl err \<Rightarrow> (vmap1, Inl err)
                   | Inr netid \<Rightarrow> (setVNID vmap1 nsName netid, Inr (netid, False))))"

definition netid_not_found :: "string \<Rightarrow> go_error" where
  "netid_not_found nsName = Errorf ''netid not found for namespace %q'' [nsName]"

definition releaseNetID :: "'s vnid_map \<Rightarrow> string \<Rightarrow> 's vnid_map \<times> go_error option" where
  "releaseNetID vmap nsName =
     (case unsetVNID vmap nsName of
        (vmap1, None) \<Rightarrow> (vmap1, Some (netid_not_found nsName))
      | (vmap1, Some netid) \<Rightarrow>
          if netid = GlobalVNID then (vmap1, None)
          else if getVNIDCount vmap1 netid = 0 then
            (let (mgr, err) = na_Release (vm_netIDManager vmap1) netid;
                 vmap2 = vmap1\<lparr>vm_netIDManager := mgr\<rparr>
             in case err of
                  Some e \<Rightarrow> (vmap2, Some (ErrorfE ''Error while releasing netid %d for namespace %q, %v''
                      [vnid_text netid, nsName] [e]))
                | None \<Rightarrow> (vmap2, None))
          else (vmap1, None))"

text \<open>The new id and whether it was allocated here, or the early return of the code.\<close>

definition new_netid ::
  "nat \<Rightarrow> 's vnid_map \<Rightarrow> 32 word \<Rightarrow> pod_network_action \<Rightarrow> string \<Rightarrow>
   's vnid_map \<times> ((go_error + 32 word) + 32 word \<times> bool)" where
  "new_netid draw vmap oldnetid act args =
     (if act = GlobalPodNetwork then (vmap, Inr (GlobalVNID, False))
      else if act = JoinPodNetwork then
        (case getVNID vmap args of
           None \<Rightarrow> (vmap, Inl (Inl (netid_not_found args)))
         | Some netid \<Rightarrow> (vmap, Inr (netid, False)))
      else if act = IsolatePodNetwork then
        if getVNIDCount vmap oldnetid = 1 then (vmap, Inl (Inr oldnetid))
        else (let (mgr, res) = na_AllocateNext draw (vm_netIDManager vmap);
                  vmap1 = vmap\<lparr>vm_netIDManager := mgr\<rparr>
              in case res of
                   Inl err \<Rightarrow> (vmap1, Inl (Inl err))
                 | Inr netid \<Rightarrow> (vmap1, Inr (netid, True)))
      else (vmap, Inl (Inl (Errorf ''invalid pod network action: %v'' [act]))))"

definition updateNetID ::
  "nat \<Rightarrow> 's vnid_map \<Rightarrow> string \<Rightarrow> pod_network_action \<Rightarrow> string \<Rightarrow>
   's vnid_map \<times> (go_error + 32 word)" where
  "updateNetID draw vmap nsName act args =
     (case getVNID vmap nsName of
        None \<Rightarrow> (vmap, Inl (netid_not_found nsName))
      | Some oldnetid \<Rightarrow>
          (case new_netid draw vmap oldnetid act args of
             (vmap1, Inl early) \<Rightarrow> (vmap1, early)
           | (vmap1, Inr (netid, allocated)) \<Rightarrow>
               (case releaseNetID vmap1 nsName of
                  (vmap2, Some err) \<Rightarrow>
                    (if allocated
                     then vmap2\<lparr>vm_netIDManager := fst (na_Release (vm_netIDManager vmap2) netid)\<rparr>
                     else vmap2, Inl err)
                | (vmap2, None) \<Rightarrow> (setVNID vmap2 nsName netid, Inr netid))))"

section \<open>The operations that also write to the API server\<close>

definition assignVNID ::
  "nat \<Rightarrow> (net_namespace \<Rightarrow> go_error option) \<Rightarrow> 's vnid_map \<Rightarrow> string \<Rightarrow>
   's vnid_map \<times> go_error option" where
  "assignVNID draw create vmap nsName =
     (case allocateNetID draw vmap nsName of
        (vmap1, Inl err) \<Rightarrow> (vmap1, Some err)
      | (vmap1, Inr (netid, existed)) \<Rightarrow>
          if existed then (vmap1, None)
          else (case create \<lparr>nn_Name = nsName, nn_NetName = nsName, nn_NetID = netid,
                             nn_Annotations = None\<rparr> of
                  Some err \<Rightarrow> (fst (releaseNetID vmap1 nsName), Some err)
                | None \<Rightarrow> (vmap1, None)))"

definition revokeVNID ::
  "(string \<Rightarrow> go_error option) \<Rightarrow> 's vnid_map \<Rightarrow> string \<Rightarrow> 's vnid_map \<times> go_error option" where
  "revokeVNID delete vmap nsName =
     (case delete nsName of
        Some err \<Rightarrow> (vmap, Some err)
      | None \<Rightarrow>
          (case releaseNetID vmap nsName of
             (vmap1, Some err) \<Rightarrow> (vmap1, Some err)
           | (vmap1, None) \<Rightarrow> (vmap1, None)))"

definition renumbering_refused :: go_error where
  "renumbering_refused = Errorf ''network plugin does not allow NetNamespace renumbering'' []"

definition updateVNID ::
  "nat \<Rightarrow> (net_namespace \<Rightarrow> go_error option) \<Rightarrow> 's vnid_map \<Rightarrow> net_namespace \<Rightarrow>
   's vnid_map \<times> net_namespace \<times> go_error option" where
  "updateVNID draw update vmap netns =
     (let (act, args, err) = GetChangePodNetworkAnnotation netns
      in if err = Some ErrorPodNetworkAnnotationNotFound then (vmap, netns, None)
         else if \<not> vm_allowRenumbering vmap
         then (vmap, DeleteChangePodNetworkAnnotation netns, Some renumbering_refused)
         else (case updateNetID draw vmap (nn_NetName netns) act args of
                 (vmap1, Inl e) \<Rightarrow> (vmap1, netns, Some e)
               | (vmap1, Inr netid) \<Rightarrow>
                   let netns1 = DeleteChangePodNetworkAnnotation (netns\<lparr>nn_NetID := netid\<rparr>)
                   in (vmap1, netns1, update netns1)))"

datatype delta_type = DeltaAdded | DeltaUpdated | DeltaDeleted | DeltaSync

fun watchNamespaces ::
  "nat \<Rightarrow> (net_namespace \<Rightarrow> go_error option) \<Rightarrow> (string \<Rightarrow> go_error option) \<Rightarrow> 's vnid_map \<Rightarrow>
   delta_type \<Rightarrow> string \<Rightarrow> 's vnid_map \<times> go_error option" where
  "watchNamespaces draw create delete vmap DeltaDeleted name =
     (let (vmap1, err) = revokeVNID delete vmap name
      in (vmap1, map_option (\<lambda>e. ErrorfE ''Error revoking netid: %v'' [] [e]) err))"
| "watchNamespaces draw create delete vmap delta name =
     (let (vmap1, err) = assignVNID draw create vmap name
      in (vmap1, map_option (\<lambda>e. ErrorfE ''Error assigning netid: %v'' [] [e]) err))"

fun watchNetNamespaces ::
  "nat \<Rightarrow> (net_namespace \<Rightarrow> go_error option) \<Rightarrow> 's vnid_map \<Rightarrow> delta_type \<Rightarrow> net_namespace \<Rightarrow>
   's vnid_map \<times> go_error option" where
  "watchNetNamespaces draw update vmap DeltaDeleted netns = (vmap, None)"
| "watchNetNamespaces draw update vmap delta netns =
     (let (vmap1, netns1, err) = updateVNID draw update vmap netns
      in (vmap1, map_option (\<lambda>e. ErrorfE ''Error updating netid: %v'' [] [e]) err))"

section \<open>The invariant\<close>

text \<open>
  The ids taken from the pool are those some namespace uses, with \<open>X\<close> the ids an operation has
  just taken and not yet entered.
\<close>

definition vnid_inv ::
  "'s alloc_ops \<Rightarrow> ('s \<Rightarrow> bool) \<Rightarrow> 32 word set \<Rightarrow> 's vnid_map \<Rightarrow> bool" where
  "vnid_inv ops ok X v \<longleftrightarrow>
     na_ok ops ok (vm_netIDManager v) \<and> distinct (map fst (vm_ids v))
     \<and> GlobalVNID \<notin> range_ids (na_range (vm_netIDManager v))
     \<and> X \<inter> ran (getVNID v) = {} \<and> GlobalVNID \<notin> X
     \<and> na_ids (vm_netIDManager v) = X \<union> (ran (getVNID v) - {GlobalVNID})"

text \<open>What no operation changes.\<close>

definition same_config :: "'s vnid_map \<Rightarrow> 's vnid_map \<Rightarrow> bool" where
  "same_config v v' \<longleftrightarrow>
     na_range (vm_netIDManager v') = na_range (vm_netIDManager v)
     \<and> vm_adminNamespaces v' = vm_adminNamespaces v
     \<and> vm_allowRenumbering v' = vm_allowRenumbering v"

lemma getVNID_set [simp]: "getVNID (setVNID v n i) = (getVNID v)(n \<mapsto> i)"
  by (simp add: getVNID_def setVNID_def update_conv' fun_eq_iff)

lemma unsetVNID_conv:
  "snd (unsetVNID v n) = getVNID v n"
  "getVNID (fst (unsetVNID v n)) = (getVNID v)(n := None)"
  by (simp_all add: unsetVNID_def getVNID_def delete_conv' fun_eq_iff)

lemma getVNID_manager [simp]:
  "getVNID (v\<lparr>vm_netIDManager := m\<rparr>) = getVNID v"
  "vm_netIDManager (setVNID v n i) = vm_netIDManager v"
  "setVNID (v\<lparr>vm_netIDManager := m\<rparr>) n i = (setVNID v n i)\<lparr>vm_netIDManager := m\<rparr>"
  by (simp_all add: getVNID_def setVNID_def fun_eq_iff)

lemma manager_same [simp]:
  "(setVNID v n i)\<lparr>vm_netIDManager := vm_netIDManager v\<rparr> = setVNID v n i"
  by (cases v) (simp add: setVNID_def)

lemma getVNIDCount_card:
  "distinct (map fst (vm_ids v)) \<Longrightarrow> getVNIDCount v i = card {n. getVNID v n = Some i}"
proof -
  assume d: "distinct (map fst (vm_ids v))"
  let ?al = "filter (\<lambda>(n, x). i = x) (vm_ids v)"
  have "distinct (map fst ?al)" using d by (rule distinct_map_filter)
  then have "length ?al = card (set (map fst ?al))"
    by (simp add: distinct_card del: set_map)
  also have "set (map fst ?al) = {n. getVNID v n = Some i}"
    using d by (force simp: getVNID_def map_of_eq_Some_iff)
  finally show ?thesis by (simp add: getVNIDCount_def)
qed

lemma finite_users [simp]: "finite {n. getVNID v n = Some i}"
  by (rule finite_subset [of _ "dom (map_of (vm_ids v))"]) (auto simp: getVNID_def finite_dom_map_of)

lemma getVNIDCount_0:
  "distinct (map fst (vm_ids v)) \<Longrightarrow> getVNIDCount v i = 0 \<longleftrightarrow> i \<notin> ran (getVNID v)"
  by (auto simp: getVNIDCount_card ran_def)

lemma getVNID_map_of: "getVNID v = map_of (vm_ids v)"
  by (simp add: getVNID_def fun_eq_iff)

lemma newMasterVNIDMap_inv:
  "\<exists>v cap. newMasterVNIDMap allow = Some v \<and> cap = unat (nr_Size (na_range (vm_netIDManager v)))
     \<and> vnid_inv bitmap_ops (bitmap_ok randomScanStrategy cap) {} v \<and> getVNID v = Map.empty
     \<and> na_range (vm_netIDManager v) = \<lparr>nr_Base = MinVNID, nr_Size = MaxVNID - MinVNID + 1\<rparr>"
  by (simp add: newMasterVNIDMap_def NewNetIDRange_def nr_Set_def MinVNID_def vnid_inv_def
      na_NewInMemory_def na_New_def na_ok_def New_ok range_fits_def range_ids_def nr_Contains_def
      GlobalVNID_def getVNID_map_of na_ids_def na_Has_iff New_empty)

section \<open>Every operation keeps it\<close>

lemma ran_upd_None: "ran (m(n := None)) = {i. \<exists>k. k \<noteq> n \<and> m k = Some i}"
  by (auto simp: ran_def)

lemma ran_split: "m n = Some i \<Longrightarrow> ran m = insert i (ran (m(n := None)))"
proof (intro set_eqI iffI)
  fix x assume "x \<in> ran m" and n: "m n = Some i"
  then obtain k where "m k = Some x" by (auto simp: ran_def)
  with n show "x \<in> insert i (ran (m(n := None)))"
    by (cases "k = n") (auto simp: ran_upd_None)
qed (auto simp: ran_def split: if_splits)

lemma distinct_update_keys [simp]:
  "distinct (map fst (AList.update n i al)) \<longleftrightarrow> distinct (map fst al)"
  by (induction al) (auto simp: dom_update update_keys)

text \<open>A request to join a namespace, the only user of its id, to itself.\<close>

definition self_join :: "'s vnid_map \<Rightarrow> string \<Rightarrow> pod_network_action \<Rightarrow> string \<Rightarrow> bool" where
  "self_join v n act args \<longleftrightarrow>
     act = JoinPodNetwork \<and> args = n \<and> getVNID v n \<noteq> Some GlobalVNID
     \<and> getVNIDCount v (the (getVNID v n)) = 1"

context allocation
begin

lemma releaseNetID_known:
  assumes inv: "vnid_inv ops ok X v" and i: "getVNID v n = Some i" "i \<notin> X"
  obtains v' where "releaseNetID v n = (v', None)" "vnid_inv ops ok X v'"
    "getVNID v' = (getVNID v)(n := None)" "same_config v v'"
proof -
  obtain v1 where u: "unsetVNID v n = (v1, Some i)"
    by (simp add: unsetVNID_def i)
  then have v1: "getVNID v1 = (getVNID v)(n := None)" "vm_netIDManager v1 = vm_netIDManager v"
    "same_config v v1"
    using unsetVNID_conv(2) [of v n] by (simp_all) (auto simp: unsetVNID_def same_config_def)
  have d: "distinct (map fst (vm_ids v1))"
    using inv u by (auto simp: vnid_inv_def unsetVNID_def distinct_delete)
  have ran: "ran (getVNID v) = insert i (ran (getVNID v1))"
    unfolding v1(1) using i(1) by (rule ran_split)
  have na: "na_ok ops ok (vm_netIDManager v)" using inv by (simp add: vnid_inv_def)
  obtain m where m: "na_Release (vm_netIDManager v) i = (m, None)"
    "na_ids m = na_ids (vm_netIDManager v) - {i}" "na_ok ops ok m" "na_range m = na_range (vm_netIDManager v)"
    by (rule na_Release_cases [OF na])
  show ?thesis
  proof (cases "i = GlobalVNID \<or> i \<in> ran (getVNID v1)")
    case True
    then have "releaseNetID v n = (v1, None)"
      by (auto simp: releaseNetID_def u getVNIDCount_0 [OF d])
    moreover have "vnid_inv ops ok X v1"
      using inv True ran d by (auto simp: vnid_inv_def v1(2))
    ultimately show ?thesis using that v1 by blast
  next
    case False
    let ?v2 = "v1\<lparr>vm_netIDManager := m\<rparr>"
    have "releaseNetID v n = (?v2, None)"
      using False by (simp add: releaseNetID_def u getVNIDCount_0 [OF d] v1(2) m(1))
    moreover have "vnid_inv ops ok X ?v2"
      using inv False ran d m i(2) by (auto simp: vnid_inv_def v1(2))
    moreover have "same_config v ?v2" using v1(3) m(4) by (simp add: same_config_def v1(2))
    ultimately show ?thesis using that v1 by simp
  qed
qed

lemma setVNID_inv:
  assumes "vnid_inv ops ok X v" "getVNID v n = None"
    and "i = GlobalVNID \<or> i \<in> ran (getVNID v) \<or> i \<in> X" "X \<subseteq> {i}" "i \<in> ran (getVNID v) \<Longrightarrow> X = {}"
  shows "vnid_inv ops ok {} (setVNID v n i)"
proof -
  have "ran ((getVNID v)(n \<mapsto> i)) = insert i (ran (getVNID v))"
    using assms(2) by (rule ran_map_upd)
  then show ?thesis
    using assms by (auto simp: vnid_inv_def) (auto simp: setVNID_def)
qed

lemma same_config_refl [simp]:
  "same_config v v" "same_config v (setVNID w n i) = same_config v w"
  "same_config v ((setVNID w n i)\<lparr>vm_netIDManager := m\<rparr>) = same_config v (w\<lparr>vm_netIDManager := m\<rparr>)"
  by (simp_all add: same_config_def setVNID_def)

lemma same_config_trans: "same_config u v \<Longrightarrow> same_config v w \<Longrightarrow> same_config u w"
  by (simp add: same_config_def)

lemma AllocateNext_inv:
  assumes inv: "vnid_inv ops ok {} v" and cap: "unat (nr_Size (na_range (vm_netIDManager v))) = cap"
  obtains (full) "na_AllocateNext draw (vm_netIDManager v) = (vm_netIDManager v, Inl na_ErrFull)"
      "range_ids (na_range (vm_netIDManager v)) \<subseteq> ran (getVNID v)"
  | (found) m i where "na_AllocateNext draw (vm_netIDManager v) = (m, Inr i)"
      "i \<in> range_ids (na_range (vm_netIDManager v))" "i \<notin> ran (getVNID v)"
      "vnid_inv ops ok {i} (v\<lparr>vm_netIDManager := m\<rparr>)" "same_config v (v\<lparr>vm_netIDManager := m\<rparr>)"
proof -
  have na: "na_ok ops ok (vm_netIDManager v)" using inv by (simp add: vnid_inv_def)
  show ?thesis
  proof (rule na_AllocateNext_cases [OF na cap, of draw])
    assume "na_AllocateNext draw (vm_netIDManager v) = (vm_netIDManager v, Inl na_ErrFull)"
      "na_ids (vm_netIDManager v) = range_ids (na_range (vm_netIDManager v))"
    then show ?thesis using full inv by (auto simp: vnid_inv_def)
  next
    fix m i
    assume m: "na_AllocateNext draw (vm_netIDManager v) = (m, Inr i)"
      "i \<in> range_ids (na_range (vm_netIDManager v))" "i \<notin> na_ids (vm_netIDManager v)"
      "na_ids m = insert i (na_ids (vm_netIDManager v))" "na_ok ops ok m"
      "na_range m = na_range (vm_netIDManager v)"
    have "i \<noteq> GlobalVNID" using inv m(2) by (auto simp: vnid_inv_def)
    moreover from this have "i \<notin> ran (getVNID v)" using inv m(3) by (auto simp: vnid_inv_def)
    ultimately show ?thesis
      using inv m by (intro found [of m i]) (auto simp: vnid_inv_def same_config_def)
  qed
qed

lemma allocateNetID_cases:
  assumes inv: "vnid_inv ops ok {} v" and cap: "unat (nr_Size (na_range (vm_netIDManager v))) = cap"
  obtains (known) i where "getVNID v n = Some i" "allocateNetID draw v n = (v, Inr (i, True))"
  | (full) "getVNID v n = None" "allocateNetID draw v n = (v, Inl na_ErrFull)"
      "range_ids (na_range (vm_netIDManager v)) \<subseteq> ran (getVNID v)"
  | (admin) v' where "getVNID v n = None" "isAdminNamespace v n"
      "allocateNetID draw v n = (v', Inr (GlobalVNID, False))" "vnid_inv ops ok {} v'"
      "getVNID v' = (getVNID v)(n \<mapsto> GlobalVNID)" "same_config v v'"
  | (fresh) v' i where "getVNID v n = None" "allocateNetID draw v n = (v', Inr (i, False))"
      "\<not> isAdminNamespace v n"
      "i \<in> range_ids (na_range (vm_netIDManager v))" "i \<notin> ran (getVNID v)" "vnid_inv ops ok {} v'"
      "getVNID v' = (getVNID v)(n \<mapsto> i)" "same_config v v'"
proof (cases "getVNID v n")
  case (Some i)
  then show ?thesis using known by (simp add: allocateNetID_def)
next
  case None
  show ?thesis
  proof (cases "isAdminNamespace v n")
    case True
    have "vnid_inv ops ok {} (setVNID v n GlobalVNID)" by (rule setVNID_inv [OF inv None]) auto
    then show ?thesis using admin None True by (simp add: allocateNetID_def)
  next
    case False
    show ?thesis
    proof (rule AllocateNext_inv [OF inv cap, of draw])
      assume "na_AllocateNext draw (vm_netIDManager v) = (vm_netIDManager v, Inl na_ErrFull)"
        and "range_ids (na_range (vm_netIDManager v)) \<subseteq> ran (getVNID v)"
      then show ?thesis using full None False by (simp add: allocateNetID_def)
    next
      fix m i
      assume m: "na_AllocateNext draw (vm_netIDManager v) = (m, Inr i)"
        "i \<in> range_ids (na_range (vm_netIDManager v))" "i \<notin> ran (getVNID v)"
        "vnid_inv ops ok {i} (v\<lparr>vm_netIDManager := m\<rparr>)" "same_config v (v\<lparr>vm_netIDManager := m\<rparr>)"
      have "vnid_inv ops ok {} (setVNID (v\<lparr>vm_netIDManager := m\<rparr>) n i)"
        using m(3) None by (intro setVNID_inv [OF m(4)]) auto
      then show ?thesis
        using None False m(1,2,3,5)
        by (intro fresh [of "setVNID (v\<lparr>vm_netIDManager := m\<rparr>) n i" i])
          (simp_all add: allocateNetID_def)
    qed
  qed
qed

end

lemma shared_id:
  assumes "vnid_inv ops ok X v" "getVNID v n = Some i" "getVNIDCount v i \<noteq> 1"
  shows "i \<in> ran ((getVNID v)(n := None))"
proof -
  have "card {k. getVNID v k = Some i} \<noteq> 1"
    using assms by (simp add: vnid_inv_def getVNIDCount_card)
  then have "{k. getVNID v k = Some i} \<noteq> {n}" by (metis is_singletonI is_singleton_altdef)
  then obtain k where "k \<noteq> n" "getVNID v k = Some i" using assms(2) by blast
  then show ?thesis by (auto simp: ran_upd_None)
qed

context allocation
begin

lemma release_then_set:
  assumes inv: "vnid_inv ops ok X v" and old: "getVNID v n = Some old" "old \<notin> X"
    and new: "i = GlobalVNID \<or> i \<in> ran ((getVNID v)(n := None)) \<or> i \<in> X" "X \<subseteq> {i}"
  obtains v' where "releaseNetID v n = (v', None)" "vnid_inv ops ok {} (setVNID v' n i)"
    "getVNID (setVNID v' n i) = (getVNID v)(n \<mapsto> i)" "same_config v v'"
proof -
  obtain v' where v': "releaseNetID v n = (v', None)" "vnid_inv ops ok X v'"
    "getVNID v' = (getVNID v)(n := None)" "same_config v v'"
    by (rule releaseNetID_known [OF inv old])
  have "vnid_inv ops ok {} (setVNID v' n i)"
    by (rule setVNID_inv [OF v'(2)]) (use new inv v'(2,3) in \<open>auto simp: vnid_inv_def\<close>)
  with v' show ?thesis using that by simp
qed

lemma updateNetID_inv:
  assumes inv: "vnid_inv ops ok {} v" and cap: "unat (nr_Size (na_range (vm_netIDManager v))) = cap"
    and no: "\<not> self_join v n act args"
  shows "\<exists>v'. fst (updateNetID draw v n act args) = v' \<and> vnid_inv ops ok {} v' \<and> same_config v v'"
proof (cases "getVNID v n")
  case None
  then show ?thesis using inv by (simp add: updateNetID_def)
next
  case (Some old)
  consider (glob) "act = GlobalPodNetwork" | (join) "act = JoinPodNetwork"
    | (iso) "act = IsolatePodNetwork" | (other) "act \<notin> {GlobalPodNetwork, JoinPodNetwork, IsolatePodNetwork}"
    by blast
  then show ?thesis
  proof cases
    case glob
    obtain v' where "releaseNetID v n = (v', None)" "vnid_inv ops ok {} (setVNID v' n GlobalVNID)"
        "same_config v v'"
      by (rule release_then_set [OF inv Some, of GlobalVNID]) auto
    then show ?thesis using glob Some by (simp add: updateNetID_def new_netid_def)
  next
    case join
    show ?thesis
    proof (cases "getVNID v args")
      case None
      then show ?thesis using join Some inv action_texts by (simp add: updateNetID_def new_netid_def)
    next
      case target: (Some i)
      have "i = GlobalVNID \<or> i \<in> ran ((getVNID v)(n := None))"
      proof (cases "args = n")
        case True
        then show ?thesis
          using no join target shared_id [OF inv target] by (auto simp: self_join_def)
      next
        case False
        then show ?thesis using target by (auto simp: ran_upd_None)
      qed
      then have new: "i = GlobalVNID \<or> i \<in> ran ((getVNID v)(n := None)) \<or> i \<in> {}" by simp
      obtain v' where "releaseNetID v n = (v', None)" "vnid_inv ops ok {} (setVNID v' n i)"
          "same_config v v'"
        by (rule release_then_set [OF inv Some _ new]) auto
      then show ?thesis using join Some target action_texts by (simp add: updateNetID_def new_netid_def)
    qed
  next
    case iso
    show ?thesis
    proof (cases "getVNIDCount v old = 1")
      case True
      then show ?thesis using iso Some inv action_texts by (simp add: updateNetID_def new_netid_def)
    next
      case shared: False
      show ?thesis
      proof (rule AllocateNext_inv [OF inv cap, of draw])
        assume "na_AllocateNext draw (vm_netIDManager v) = (vm_netIDManager v, Inl na_ErrFull)"
        then show ?thesis
          using iso Some inv shared action_texts by (simp add: updateNetID_def new_netid_def)
      next
        fix m i
        assume m: "na_AllocateNext draw (vm_netIDManager v) = (m, Inr i)" "i \<notin> ran (getVNID v)"
          "vnid_inv ops ok {i} (v\<lparr>vm_netIDManager := m\<rparr>)" "same_config v (v\<lparr>vm_netIDManager := m\<rparr>)"
        have old: "getVNID (v\<lparr>vm_netIDManager := m\<rparr>) n = Some old" "old \<notin> {i}"
          using Some m(2) by (auto simp: ran_def)
        obtain v' where "releaseNetID (v\<lparr>vm_netIDManager := m\<rparr>) n = (v', None)"
            "vnid_inv ops ok {} (setVNID v' n i)" "same_config (v\<lparr>vm_netIDManager := m\<rparr>) v'"
          by (rule release_then_set [OF m(3) old, of i]) auto
        then show ?thesis
          using iso Some shared m(1,4) action_texts same_config_trans [of v]
          by (simp add: updateNetID_def new_netid_def)
      qed
    qed
  next
    case other
    then show ?thesis using Some inv by (simp add: updateNetID_def new_netid_def)
  qed
qed

lemma assign_new:
  assumes n: "getVNID v n = None" "allocateNetID draw v n = (v1, Inr (i, False))"
    and v1: "vnid_inv ops ok {} v1" "getVNID v1 = (getVNID v)(n \<mapsto> i)" "same_config v v1"
  shows "\<exists>v'. assignVNID draw create v n = (v', create \<lparr>nn_Name = n, nn_NetName = n, nn_NetID = i,
             nn_Annotations = None\<rparr>)
    \<and> vnid_inv ops ok {} v' \<and> same_config v v'
    \<and> getVNID v' = (if snd (assignVNID draw create v n) = None then (getVNID v)(n \<mapsto> i) else getVNID v)"
proof -
  have known: "getVNID v1 n = Some i" using v1(2) by simp
  obtain v2 where v2: "releaseNetID v1 n = (v2, None)" "vnid_inv ops ok {} v2"
      "getVNID v2 = (getVNID v1)(n := None)" "same_config v1 v2"
    by (rule releaseNetID_known [OF v1(1) known]) auto
  have "getVNID v2 = getVNID v" using v2(3) v1(2) n(1) by (auto simp: fun_eq_iff)
  then show ?thesis
    using n v1 v2 same_config_trans [OF v1(3) v2(4)]
    by (cases "create \<lparr>nn_Name = n, nn_NetName = n, nn_NetID = i, nn_Annotations = None\<rparr>")
      (simp_all add: assignVNID_def)
qed

lemma assignVNID_inv:
  assumes inv: "vnid_inv ops ok {} v" and cap: "unat (nr_Size (na_range (vm_netIDManager v))) = cap"
  shows "vnid_inv ops ok {} (fst (assignVNID draw create v n)) \<and> same_config v (fst (assignVNID draw create v n))"
proof (rule allocateNetID_cases [OF inv cap, of n draw])
  fix v1 assume "getVNID v n = None" "allocateNetID draw v n = (v1, Inr (GlobalVNID, False))"
    "vnid_inv ops ok {} v1" "getVNID v1 = (getVNID v)(n \<mapsto> GlobalVNID)" "same_config v v1"
  from assign_new [OF this, of create] show ?thesis by auto
next
  fix v1 i assume "getVNID v n = None" "allocateNetID draw v n = (v1, Inr (i, False))"
    "vnid_inv ops ok {} v1" "getVNID v1 = (getVNID v)(n \<mapsto> i)" "same_config v v1"
  from assign_new [OF this, of create] show ?thesis by auto
qed (use inv in \<open>simp_all add: assignVNID_def\<close>)

lemma releaseNetID_unknown:
  "getVNID v n = None \<Longrightarrow> vnid_inv ops ok X v \<Longrightarrow>
   vnid_inv ops ok X (fst (releaseNetID v n)) \<and> same_config v (fst (releaseNetID v n))
   \<and> getVNID (fst (releaseNetID v n)) = getVNID v"
proof -
  assume "getVNID v n = None" and inv: "vnid_inv ops ok X v"
  then have "AList.delete n (vm_ids v) = vm_ids v"
    by (intro delete_id) (simp add: getVNID_def map_of_eq_None_iff)
  with inv show ?thesis
    using \<open>getVNID v n = None\<close>
    by (simp add: releaseNetID_def unsetVNID_def same_config_def)
qed

lemma releaseNetID_inv:
  "vnid_inv ops ok {} v \<Longrightarrow> vnid_inv ops ok {} (fst (releaseNetID v n)) \<and> same_config v (fst (releaseNetID v n))"
proof (cases "getVNID v n")
  case (Some i)
  assume inv: "vnid_inv ops ok {} v"
  obtain v' where "releaseNetID v n = (v', None)" "vnid_inv ops ok {} v'" "same_config v v'"
    by (rule releaseNetID_known [OF inv Some]) auto
  then show ?thesis by simp
qed (use releaseNetID_unknown in blast)

lemma revokeVNID_inv:
  "vnid_inv ops ok {} v \<Longrightarrow>
   vnid_inv ops ok {} (fst (revokeVNID delete v n)) \<and> same_config v (fst (revokeVNID delete v n))"
  using releaseNetID_inv [of v n] by (auto simp: revokeVNID_def split: option.splits prod.splits)

lemma updateVNID_inv:
  assumes "vnid_inv ops ok {} v" "unat (nr_Size (na_range (vm_netIDManager v))) = cap"
    and "\<not> self_join v (nn_NetName netns) (fst (GetChangePodNetworkAnnotation netns))
           (fst (snd (GetChangePodNetworkAnnotation netns)))"
  shows "vnid_inv ops ok {} (fst (updateVNID draw update v netns))
    \<and> same_config v (fst (updateVNID draw update v netns))"
  using updateNetID_inv [OF assms, of draw] assms(1)
  by (auto simp: updateVNID_def Let_def split_beta split: sum.splits prod.splits)

lemma populate_loop_inv:
  assumes "vnid_inv ops ok {} v" "unat (nr_Size (na_range (vm_netIDManager v))) = cap"
    and "distinct (map nn_NetName items)" "\<And>n. n \<in> nn_NetName ` set items \<Longrightarrow> getVNID v n = None"
    and "populate_loop v items = (v', None)"
  shows "vnid_inv ops ok {} v' \<and> same_config v v'"
  using assms
proof (induction items arbitrary: v)
  case (Cons netns rest)
  let ?n = "nn_NetName netns" and ?i = "nn_NetID netns"
  have n: "getVNID v ?n = None" using Cons.prems(4) by simp
  have rest: "getVNID (setVNID w ?n ?i) k = None" if "k \<in> nn_NetName ` set rest" "getVNID w = getVNID v" for k w
  proof -
    have "k \<noteq> ?n" using that(1) Cons.prems(3) by (metis distinct.simps(2) list.set_map list.simps(9))
    moreover have "getVNID v k = None" using that(1) by (intro Cons.prems(4)) auto
    ultimately show ?thesis by (simp add: that(2))
  qed
  have step: ?case
    if w: "vnid_inv ops ok {} (setVNID w ?n ?i)" "same_config v w" "getVNID w = getVNID v"
      and loop: "populate_loop (setVNID w ?n ?i) rest = (v', None)" for w
  proof -
    have "vnid_inv ops ok {} v' \<and> same_config (setVNID w ?n ?i) v'"
    proof (rule Cons.IH [OF w(1) _ _ _ loop])
      show "unat (nr_Size (na_range (vm_netIDManager (setVNID w ?n ?i)))) = cap"
        using Cons.prems(2) w(2) by (simp add: same_config_def)
      show "distinct (map nn_NetName rest)" using Cons.prems(3) by simp
    qed (erule rest [OF _ w(3)])
    moreover have "same_config v (setVNID w ?n ?i)" using w(2) by simp
    ultimately show ?thesis using same_config_trans by blast
  qed
  show ?case
  proof (cases "?i = GlobalVNID")
    case True
    have "vnid_inv ops ok {} (setVNID v ?n ?i)"
      by (rule setVNID_inv [OF Cons.prems(1) n]) (use True in auto)
    then show ?thesis using step [of v] Cons.prems(5) True by simp
  next
    case False
    have na: "na_ok ops ok (vm_netIDManager v)" using Cons.prems(1) by (simp add: vnid_inv_def)
    show ?thesis
    proof (rule na_Allocate_cases [OF na Cons.prems(2), of ?i])
      assume "na_Allocate (vm_netIDManager v) ?i = (vm_netIDManager v, Some na_ErrNotInRange)"
      then show ?thesis
        using Cons.prems(5) False by (simp add: na_ErrNotInRange_def na_ErrAllocated_def)
    next
      assume m: "na_Allocate (vm_netIDManager v) ?i = (vm_netIDManager v, Some na_ErrAllocated)"
        "?i \<in> na_ids (vm_netIDManager v)"
      have "vnid_inv ops ok {} (setVNID v ?n ?i)"
        by (rule setVNID_inv [OF Cons.prems(1) n]) (use m(2) Cons.prems(1) in \<open>auto simp: vnid_inv_def\<close>)
      then show ?thesis using step [of v] Cons.prems(5) False m(1) by simp
    next
      fix m assume m: "na_Allocate (vm_netIDManager v) ?i = (m, None)" "?i \<notin> na_ids (vm_netIDManager v)"
        "na_ids m = insert ?i (na_ids (vm_netIDManager v))" "na_ok ops ok m"
        "na_range m = na_range (vm_netIDManager v)"
      let ?w = "v\<lparr>vm_netIDManager := m\<rparr>"
      have "?i \<notin> ran (getVNID v)" using Cons.prems(1) m(2) False by (auto simp: vnid_inv_def)
      then have "vnid_inv ops ok {?i} ?w" using Cons.prems(1) m False by (auto simp: vnid_inv_def)
      then have "vnid_inv ops ok {} (setVNID ?w ?n ?i)"
        by (rule setVNID_inv) (use n \<open>?i \<notin> ran (getVNID v)\<close> in auto)
      then show ?thesis
        using step [of ?w] Cons.prems(5) False m(1,5) by (simp add: same_config_def)
    qed
  qed
qed simp

end

section \<open>Executions of the master\<close>

inductive vnid_step :: "alloc_bitmap vnid_map \<Rightarrow> alloc_bitmap vnid_map \<Rightarrow> bool" where
  namespace_event:
    "vnid_step v (fst (watchNamespaces draw create delete v delta name))"
| netnamespace_event:
    "\<not> self_join v (nn_NetName netns) (fst (GetChangePodNetworkAnnotation netns))
        (fst (snd (GetChangePodNetworkAnnotation netns))) \<Longrightarrow>
     vnid_step v (fst (watchNetNamespaces draw update v delta netns))"

inductive vnid_reach :: "alloc_bitmap vnid_map \<Rightarrow> bool" where
  started:
    "newMasterVNIDMap allow = Some v0 \<Longrightarrow> distinct (map nn_NetName items) \<Longrightarrow>
     populateVNIDs v0 (Inr items) = (v, None) \<Longrightarrow> vnid_reach v"
| stepped: "vnid_reach v \<Longrightarrow> vnid_step v v' \<Longrightarrow> vnid_reach v'"

definition master_range :: netid_range where
  "master_range = \<lparr>nr_Base = MinVNID, nr_Size = MaxVNID - MinVNID + 1\<rparr>"

abbreviation master_ok :: "alloc_bitmap \<Rightarrow> bool" where
  "master_ok \<equiv> bitmap_ok randomScanStrategy (unat (nr_Size master_range))"

lemma master_range_ids: "i \<in> range_ids master_range \<longleftrightarrow> MinVNID \<le> i \<and> i \<le> MaxVNID"
  using new_range_contains [of MaxVNID MinVNID i]
  by (simp add: range_ids_def master_range_def MinVNID_def)

lemma vnid_step_inv:
  assumes "vnid_step v v'" "vnid_inv bitmap_ops master_ok {} v" "na_range (vm_netIDManager v) = master_range"
  shows "vnid_inv bitmap_ops master_ok {} v' \<and> same_config v v'"
  using assms
proof (induction rule: vnid_step.induct)
  case (namespace_event v draw create delete delta name)
  note cap = arg_cong [OF namespace_event(2), of "\<lambda>r. unat (nr_Size r)"]
  show ?case
  proof (cases "delta = DeltaDeleted")
    case True
    then show ?thesis
      using bitmap.revokeVNID_inv [OF namespace_event(1), of delete name] by (simp add: split_beta)
  next
    case False
    then show ?thesis
      using bitmap.assignVNID_inv [OF namespace_event(1) cap, of draw create name]
      by (cases delta) (simp_all add: split_beta)
  qed
next
  case (netnamespace_event v netns draw update delta)
  note cap = arg_cong [OF netnamespace_event(3), of "\<lambda>r. unat (nr_Size r)"]
  show ?case
    using bitmap.updateVNID_inv [OF netnamespace_event(2) cap netnamespace_event(1), of draw update]
      netnamespace_event(2)
    by (cases delta) (simp_all add: split_beta)
qed

lemma vnid_reach_inv:
  "vnid_reach v \<Longrightarrow> vnid_inv bitmap_ops master_ok {} v \<and> na_range (vm_netIDManager v) = master_range
     \<and> vm_adminNamespaces v = NewString [NamespaceDefault]"
proof (induction rule: vnid_reach.induct)
  case (started allow v0 items v)
  have v0: "vnid_inv bitmap_ops master_ok {} v0" "na_range (vm_netIDManager v0) = master_range"
      "getVNID v0 = Map.empty"
    using newMasterVNIDMap_inv [of allow] started(1) by (auto simp: master_range_def)
  have "vm_adminNamespaces v0 = NewString [NamespaceDefault]"
    using started(1) by (auto simp: newMasterVNIDMap_def split: sum.splits)
  moreover have "vnid_inv bitmap_ops master_ok {} v \<and> same_config v0 v"
    by (rule bitmap.populate_loop_inv [OF v0(1) _ started(2)])
      (use started(3) v0 in \<open>simp_all add: populateVNIDs_def\<close>)
  ultimately show ?case using v0(2) by (simp add: same_config_def)
next
  case (stepped v v')
  then show ?case using vnid_step_inv [of v v'] by (simp add: same_config_def)
qed

section \<open>Properties\<close>

lemma reach_pool:
  assumes "vnid_reach v"
  shows "na_Has (vm_netIDManager v) i \<longleftrightarrow> i \<noteq> GlobalVNID \<and> i \<in> ran (getVNID v)"
    and "i \<in> ran (getVNID v) \<Longrightarrow> i = GlobalVNID \<or> MinVNID \<le> i \<and> i \<le> MaxVNID"
proof -
  have inv: "vnid_inv bitmap_ops master_ok {} v" and r: "na_range (vm_netIDManager v) = master_range"
    using vnid_reach_inv [OF assms] by auto
  then have ids: "na_ids (vm_netIDManager v) = ran (getVNID v) - {GlobalVNID}"
    by (simp add: vnid_inv_def)
  then show "na_Has (vm_netIDManager v) i \<longleftrightarrow> i \<noteq> GlobalVNID \<and> i \<in> ran (getVNID v)"
    by (auto simp: na_ids_def)
  assume "i \<in> ran (getVNID v)"
  then have "i \<noteq> GlobalVNID \<Longrightarrow> i \<in> range_ids master_range"
    using ids na_ids_range [of "vm_netIDManager v"] r by auto
  then show "i = GlobalVNID \<or> MinVNID \<le> i \<and> i \<le> MaxVNID"
    by (auto simp: master_range_ids)
qed

lemma reach_assign:
  assumes v: "vnid_reach v" and n: "getVNID v n = None" "\<not> isAdminNamespace v n"
  shows "(\<exists>i v'. assignVNID draw create v n = (v', create \<lparr>nn_Name = n, nn_NetName = n, nn_NetID = i,
             nn_Annotations = None\<rparr>)
      \<and> MinVNID \<le> i \<and> i \<le> MaxVNID \<and> i \<notin> ran (getVNID v)
      \<and> getVNID v' = (if snd (assignVNID draw create v n) = None then (getVNID v)(n \<mapsto> i) else getVNID v))
    \<or> assignVNID draw create v n = (v, Some na_ErrFull) \<and> {i. MinVNID \<le> i \<and> i \<le> MaxVNID} \<subseteq> ran (getVNID v)"
proof -
  have inv: "vnid_inv bitmap_ops master_ok {} v" and r: "na_range (vm_netIDManager v) = master_range"
    using vnid_reach_inv [OF v] by auto
  have cap: "unat (nr_Size (na_range (vm_netIDManager v))) = unat (nr_Size master_range)"
    by (simp add: r)
  show ?thesis
  proof (rule bitmap.allocateNetID_cases [OF inv cap, of n draw])
    fix v1 i
    assume f: "getVNID v n = None" "allocateNetID draw v n = (v1, Inr (i, False))"
      "i \<in> range_ids (na_range (vm_netIDManager v))" "i \<notin> ran (getVNID v)"
      "vnid_inv bitmap_ops master_ok {} v1" "getVNID v1 = (getVNID v)(n \<mapsto> i)" "same_config v v1"
    have "MinVNID \<le> i \<and> i \<le> MaxVNID" using f(3) by (simp add: r master_range_ids)
    with bitmap.assign_new [OF f(1,2,5,6,7), of create] f(4) show ?thesis by blast
  next
    assume "allocateNetID draw v n = (v, Inl na_ErrFull)"
      "range_ids (na_range (vm_netIDManager v)) \<subseteq> ran (getVNID v)"
    then show ?thesis
      by (auto simp: assignVNID_def r master_range_ids subset_iff)
  qed (use n in simp_all)
qed

text \<open>A master started with the namespaces \<open>default\<close> and \<open>a\<close>.\<close>

definition sample_netns :: "net_namespace list" where
  "sample_netns =
     [\<lparr>nn_Name = ''default'', nn_NetName = ''default'', nn_NetID = GlobalVNID, nn_Annotations = None\<rparr>,
      \<lparr>nn_Name = ''a'', nn_NetName = ''a'', nn_NetID = MinVNID, nn_Annotations = None\<rparr>]"

definition sample_master :: "alloc_bitmap vnid_map" where
  "sample_master = fst (populate_loop (the (newMasterVNIDMap True)) sample_netns)"

lemmas start_eval = newMasterVNIDMap_def NewNetIDRange_def nr_Set_def na_NewInMemory_def na_New_def
  NewAllocationMap_def GlobalVNID_def MinVNID_def na_Allocate_def nr_Contains_def bitmap_op_defs
  sample_netns_def setVNID_def

lemma sample_master_reach: "vnid_reach sample_master"
proof -
  have "snd (populate_loop (the (newMasterVNIDMap True)) sample_netns) = None"
    by (simp add: start_eval)
  then have "populateVNIDs (the (newMasterVNIDMap True)) (Inr sample_netns) = (sample_master, None)"
    by (simp add: populateVNIDs_def sample_master_def prod_eq_iff)
  moreover have "newMasterVNIDMap True = Some (the (newMasterVNIDMap True))"
    using newMasterVNIDMap_inv [of True] by auto
  moreover have "distinct (map nn_NetName sample_netns)" by (simp add: sample_netns_def)
  ultimately show ?thesis by (intro vnid_reach.started)
qed

lemma sample_master_ids:
  "vm_ids sample_master = [(''default'', 0), (''a'', 10)]"
  "\<not> isAdminNamespace sample_master ''b''"
  by (simp_all add: sample_master_def start_eval isAdminNamespace_def NamespaceDefault_def gset_simps)

text \<open>
  C30: in every state the master reaches from its start by namespace and network namespace
  events (requests to join a namespace to itself aside), the ids taken from the pool are exactly
  the non-global ids some namespace uses: none is leaked and none is in use but free.
\<close>

theorem pool_holds_exactly_the_used_ids:
  assumes "vnid_reach v"
  shows "na_Has (vm_netIDManager v) i \<longleftrightarrow> i \<noteq> GlobalVNID \<and> (\<exists>n. getVNID v n = Some i)"
  using reach_pool(1) [OF assms, of i] by (auto simp: ran_def)

theorem pool_holds_exactly_the_used_ids_witness:
  "na_Has (vm_netIDManager sample_master) 10 \<and> \<not> na_Has (vm_netIDManager sample_master) 11"
proof -
  have "\<nexists>n. getVNID sample_master n = Some 11"
    by (auto simp: getVNID_def sample_master_ids split: if_splits)
  moreover have "getVNID sample_master ''a'' = Some 10"
    by (simp add: getVNID_def sample_master_ids)
  ultimately show ?thesis
    using pool_holds_exactly_the_used_ids [OF sample_master_reach, of 10]
      pool_holds_exactly_the_used_ids [OF sample_master_reach, of 11]
    by (auto simp: GlobalVNID_def)
qed

text \<open>
  Assigning an id to a new namespace isolates it.  In every state reached, a namespace that
  has no id and is not an admin namespace is given an id between \<open>MinVNID\<close> and \<open>MaxVNID\<close> that no
  namespace uses, is recorded with it exactly when the API server accepts the object, and is left
  without one otherwise; the only other outcome is a full pool, when all ids are in use.
\<close>

theorem assigned_id_is_unused:
  assumes "vnid_reach v" "getVNID v n = None" "\<not> isAdminNamespace v n"
  shows "(\<exists>i v'. assignVNID draw create v n = (v', create \<lparr>nn_Name = n, nn_NetName = n, nn_NetID = i,
             nn_Annotations = None\<rparr>)
      \<and> MinVNID \<le> i \<and> i \<le> MaxVNID \<and> i \<notin> ran (getVNID v)
      \<and> getVNID v' = (if snd (assignVNID draw create v n) = None then (getVNID v)(n \<mapsto> i) else getVNID v))
    \<or> assignVNID draw create v n = (v, Some na_ErrFull) \<and> {i. MinVNID \<le> i \<and> i \<le> MaxVNID} \<subseteq> ran (getVNID v)"
  using assms by (rule reach_assign)

theorem assigned_id_is_unused_witness:
  "\<exists>i v'. assignVNID 0 (\<lambda>_. None) sample_master ''b'' = (v', None)
     \<and> MinVNID \<le> i \<and> getVNID v' = (getVNID sample_master)(''b'' \<mapsto> i) \<and> i \<notin> {0, 10}"
proof -
  have b: "getVNID sample_master ''b'' = None" by (simp add: getVNID_def sample_master_ids)
  have ran: "ran (getVNID sample_master) = {0, 10}"
    by (auto simp: getVNID_map_of sample_master_ids ran_def)
  have "(11::32 word) \<in> {i. MinVNID \<le> i \<and> i \<le> MaxVNID}" "(11::32 word) \<notin> {0, 10}"
    by (simp_all add: MinVNID_def)
  then have "\<not> {i. MinVNID \<le> i \<and> i \<le> MaxVNID} \<subseteq> ran (getVNID sample_master)"
    unfolding ran by blast
  with assigned_id_is_unused [OF sample_master_reach b sample_master_ids(2), of 0 "\<lambda>_. None"] ran
  show ?thesis by auto
qed

lemma draw_free_id:
  assumes na: "na_ok bitmap_ops (bitmap_ok randomScanStrategy cap) r"
    and cap: "unat (nr_Size (na_range r)) = cap"
    and i: "i \<in> range_ids (na_range r)" "i \<notin> na_ids r"
  shows "\<exists>r'. na_AllocateNext (unat (snd (nr_Contains (na_range r) i))) r = (r', Inr i)"
proof -
  let ?n = "unat (snd (nr_Contains (na_range r) i))"
  have n: "?n < cap" "id_at (na_range r) ?n = i"
    using Contains_offset [of "na_range r" i] i(1) cap by (simp_all add: range_ids_def)
  have r: "na_ops r = bitmap_ops" "bitmap_ok randomScanStrategy cap (na_alloc r)"
    using na by (simp_all add: na_ok_def)
  have "\<not> bit (am_allocated (na_alloc r)) ?n"
    using i by (simp add: na_ids_def na_Has_iff range_ids_def r(1) bitmap_op_defs)
  from random_draw [OF r(2) n(1) this] n(2) show ?thesis
    by (simp add: na_AllocateNext_def r(1) bitmap_op_defs id_at_def)
qed

lemma self_join_releases:
  assumes v: "vnid_reach v" and n: "getVNID v n = Some i" "i \<noteq> GlobalVNID" "getVNIDCount v i = 1"
  shows "\<exists>v1. updateNetID d v n JoinPodNetwork n = (v1, Inr i)
    \<and> getVNID v1 = getVNID v \<and> same_config v v1 \<and> na_ok bitmap_ops master_ok (vm_netIDManager v1)
    \<and> i \<notin> na_ids (vm_netIDManager v1) \<and> i \<in> range_ids master_range"
proof -
  have inv: "vnid_inv bitmap_ops master_ok {} v" and r: "na_range (vm_netIDManager v) = master_range"
    using vnid_reach_inv [OF v] by auto
  obtain w where w: "releaseNetID v n = (w, None)" "vnid_inv bitmap_ops master_ok {} w"
      "getVNID w = (getVNID v)(n := None)" "same_config v w"
    by (rule bitmap.releaseNetID_known [OF inv n(1)]) auto
  have "{k. getVNID v k = Some i} = {n}"
  proof -
    have "card {k. getVNID v k = Some i} = 1"
      using inv n(3) by (simp add: vnid_inv_def getVNIDCount_card)
    then obtain k where k: "{k. getVNID v k = Some i} = {k}" by (rule card_1_singletonE)
    have "n \<in> {k. getVNID v k = Some i}" using n(1) by simp
    then show ?thesis unfolding k by simp
  qed
  then have "i \<notin> ran (getVNID w)" by (auto simp: w(3) ran_upd_None)
  then have "i \<notin> na_ids (vm_netIDManager w)" using w(2) by (simp add: vnid_inv_def)
  moreover have "i \<in> range_ids master_range"
    using inv n na_ids_range [of "vm_netIDManager v"] r by (auto simp: vnid_inv_def ran_def)
  moreover have "na_ok bitmap_ops master_ok (vm_netIDManager w)" using w(2) by (simp add: vnid_inv_def)
  moreover have "updateNetID d v n JoinPodNetwork n = (setVNID w n i, Inr i)"
    using action_texts by (simp add: updateNetID_def new_netid_def n(1) w(1))
  moreover have "getVNID (setVNID w n i) = getVNID v" using n(1) w(3) by (auto simp: fun_eq_iff)
  ultimately show ?thesis using w(4) by auto
qed

text \<open>
  Joining a namespace to itself breaks the isolation of namespaces.  When a namespace is the
  only user of its id, \<open>updateNetID\<close> with the action \<open>join\<close> and its own name returns the id it has,
  after releasing it to the pool: the id is in use and free, and the next namespace that is
  assigned an id can be given the same one.
\<close>

theorem self_join_shares_an_id:
  assumes "vnid_reach v" "getVNID v n = Some i" "i \<noteq> GlobalVNID" "getVNIDCount v i = 1"
    and "getVNID v other = None" "\<not> isAdminNamespace v other"
  shows "\<exists>v1 draw v2. updateNetID d v n JoinPodNetwork n = (v1, Inr i)
    \<and> getVNID v1 n = Some i \<and> \<not> na_Has (vm_netIDManager v1) i
    \<and> allocateNetID draw v1 other = (v2, Inr (i, False))
    \<and> getVNID v2 n = Some i \<and> getVNID v2 other = Some i"
proof -
  obtain v1 where v1: "updateNetID d v n JoinPodNetwork n = (v1, Inr i)" "getVNID v1 = getVNID v"
      "same_config v v1" "na_ok bitmap_ops master_ok (vm_netIDManager v1)"
      "i \<notin> na_ids (vm_netIDManager v1)" "i \<in> range_ids master_range"
    using self_join_releases [OF assms(1-4)] by blast
  have r: "na_range (vm_netIDManager v1) = master_range"
    using vnid_reach_inv [OF assms(1)] v1(3) by (simp add: same_config_def)
  obtain draw m where "na_AllocateNext draw (vm_netIDManager v1) = (m, Inr i)"
    using draw_free_id [OF v1(4) _ _ v1(5)] v1(6) r by fastforce
  then have "allocateNetID draw v1 other = (setVNID (v1\<lparr>vm_netIDManager := m\<rparr>) other i, Inr (i, False))"
    using assms(5,6) v1(2,3) by (simp add: allocateNetID_def isAdminNamespace_def same_config_def)
  moreover have "getVNID (setVNID (v1\<lparr>vm_netIDManager := m\<rparr>) other i) = (getVNID v)(other \<mapsto> i)"
    using v1(2) by simp
  moreover have "n \<noteq> other" using assms(2,5) by auto
  ultimately show ?thesis
    using v1(1,2,5) assms(2) unfolding na_ids_def by fastforce
qed

theorem self_join_shares_an_id_witness:
  "\<exists>v1 draw v2. updateNetID 0 sample_master ''a'' JoinPodNetwork ''a'' = (v1, Inr 10)
    \<and> allocateNetID draw v1 ''b'' = (v2, Inr (10, False))
    \<and> getVNID v2 ''a'' = Some 10 \<and> getVNID v2 ''b'' = Some 10"
proof -
  have "getVNID sample_master ''a'' = Some 10" "(10::32 word) \<noteq> GlobalVNID"
      "getVNIDCount sample_master 10 = 1" "getVNID sample_master ''b'' = None"
    by (simp_all add: getVNID_def getVNIDCount_def sample_master_ids GlobalVNID_def)
  from self_join_shares_an_id [OF sample_master_reach this sample_master_ids(2), of 0]
  show ?thesis by blast
qed

end
