(* ===== verification/Subnet_Allocator.thy ===== *)
theory Subnet_Allocator
  imports Go_Numbers
begin

text \<open>
  \<open>origin/pkg/util/netutils/subnet_allocator.go\<close>, with the IPv4 helpers of \<open>common.go\<close>: the
  allocator of the node subnets of the cluster network.  An address is its four bytes, as in Go's
  \<open>net.IP\<close>; \<open>net.ParseCIDR\<close>, \<open>IPNet.Contains\<close> and \<open>IPNet.String\<close> are modelled for IPv4 (an IPv6
  text is refused here).  Counts of bits are natural numbers, as the checks of
  \<open>NewSubnetAllocator\<close> keep them below 33; addresses, masks and subnet numbers are 32-bit words.
\<close>

unbundle bit_operations_syntax

section \<open>Addresses and networks\<close>

record ipv4 =
  ip0 :: "8 word"
  ip1 :: "8 word"
  ip2 :: "8 word"
  ip3 :: "8 word"

definition IPToUint32 :: "ipv4 \<Rightarrow> 32 word" where
  "IPToUint32 ip =
     push_bit 24 (ucast (ip0 ip)) OR push_bit 16 (ucast (ip1 ip)) OR push_bit 8 (ucast (ip2 ip))
     OR ucast (ip3 ip)"

definition Uint32ToIP :: "32 word \<Rightarrow> ipv4" where
  "Uint32ToIP u =
     \<lparr>ip0 = ucast (drop_bit 24 u), ip1 = ucast (drop_bit 16 u), ip2 = ucast (drop_bit 8 u),
      ip3 = ucast u\<rparr>"

text \<open>\<open>net.CIDRMask(ones, 32)\<close>: that many leading ones.\<close>

definition CIDRMask :: "nat \<Rightarrow> 32 word" where
  "CIDRMask ones = push_bit (32 - ones) (mask ones)"

record ip_net =
  net_IP :: ipv4
  net_ones :: nat

definition net_Contains :: "ip_net \<Rightarrow> ipv4 \<Rightarrow> bool" where
  "net_Contains n ip \<longleftrightarrow>
     IPToUint32 (net_IP n) AND CIDRMask (net_ones n) = IPToUint32 ip AND CIDRMask (net_ones n)"

definition byte_text :: "8 word \<Rightarrow> string" where "byte_text b = decimal (unat b)"

definition ip_String :: "ipv4 \<Rightarrow> string" where
  "ip_String ip =
     byte_text (ip0 ip) @ ''.'' @ byte_text (ip1 ip) @ ''.'' @ byte_text (ip2 ip) @ ''.''
     @ byte_text (ip3 ip)"

definition net_String :: "ip_net \<Rightarrow> string" where
  "net_String n = ip_String (net_IP n) @ ''/'' @ decimal (net_ones n)"

definition parse_byte :: "string \<Rightarrow> 8 word option" where
  "parse_byte s =
     (if s \<noteq> [] \<and> list_all is_digit s \<and> digits_value s \<le> 255 then Some (of_nat (digits_value s))
      else None)"

definition ParseIPv4 :: "string \<Rightarrow> ipv4 option" where
  "ParseIPv4 s =
     (case map parse_byte (split_char CHR ''.'' s) of
        [Some a, Some b, Some c, Some d] \<Rightarrow> Some \<lparr>ip0 = a, ip1 = b, ip2 = c, ip3 = d\<rparr>
      | _ \<Rightarrow> None)"

text \<open>\<open>net.ParseCIDR\<close>: the address with its host part cleared, and the length of the prefix.\<close>

definition ParseCIDR :: "string \<Rightarrow> ip_net option" where
  "ParseCIDR s =
     (case splitN2 CHR ''/'' s of
        [addr, len] \<Rightarrow>
          (case ParseIPv4 addr of
             None \<Rightarrow> None
           | Some ip \<Rightarrow>
               if len \<noteq> [] \<and> list_all is_digit len \<and> digits_value len \<le> 32
               then Some \<lparr>net_IP = Uint32ToIP (IPToUint32 ip AND CIDRMask (digits_value len)),
                          net_ones = digits_value len\<rparr>
               else None)
      | _ \<Rightarrow> None)"

definition GenerateDefaultGateway :: "ip_net \<Rightarrow> ipv4" where
  "GenerateDefaultGateway sna = (net_IP sna)\<lparr>ip3 := ip3 (net_IP sna) OR 1\<rparr>"

section \<open>The allocator\<close>

record subnet_allocator =
  sa_network :: ip_net
  sa_hostBits :: nat
  sa_leftShift :: nat
  sa_leftMask :: "32 word"
  sa_rightShift :: nat
  sa_rightMask :: "32 word"
  sa_next :: "32 word"
  sa_allocMap :: "string \<Rightarrow> bool"

fun mark_in_use :: "ip_net \<Rightarrow> string list \<Rightarrow> (string \<Rightarrow> bool) \<Rightarrow> (string \<Rightarrow> bool)" where
  "mark_in_use netIP [] amap = amap"
| "mark_in_use netIP (netStr # rest) amap =
     (case ParseCIDR netStr of
        None \<Rightarrow> mark_in_use netIP rest amap
      | Some nIp \<Rightarrow>
          if \<not> net_Contains netIP (net_IP nIp) then mark_in_use netIP rest amap
          else mark_in_use netIP rest (amap(net_String nIp := True)))"

definition NewSubnetAllocator :: "string \<Rightarrow> nat \<Rightarrow> string list \<Rightarrow> go_error + subnet_allocator" where
  "NewSubnetAllocator network hostBits inUse =
     (case ParseCIDR network of
        None \<Rightarrow> Inl (Errorf ''Failed to parse network address: %q'' [network])
      | Some netIP \<Rightarrow>
          let netMaskSize = net_ones netIP in
          if hostBits = 0 then Inl (Errorf ''Host capacity cannot be zero.'' [])
          else if hostBits > 32 - netMaskSize
          then Inl (Errorf ''Subnet capacity cannot be larger than number of networks available.'' [])
          else
            let subnetBits = 32 - netMaskSize - hostBits;
                rotate = (hostBits mod 8 \<noteq> 0 \<and> (hostBits - 1) div 8 \<noteq> (hostBits + subnetBits - 1) div 8);
                leftShift = (if rotate then 8 - hostBits mod 8 else 0);
                leftMask = (if rotate then push_bit (32 - netMaskSize) 1 - 1 else 0xFFFFFFFF);
                rightShift = (if rotate then subnetBits - leftShift else 0);
                rightMask = (if rotate then push_bit hostBits (push_bit leftShift 1 - 1) else 0)
            in Inr \<lparr>sa_network = netIP, sa_hostBits = hostBits, sa_leftShift = leftShift,
                    sa_leftMask = leftMask, sa_rightShift = rightShift, sa_rightMask = rightMask,
                    sa_next = 0, sa_allocMap = mark_in_use netIP inUse (\<lambda>_. False)\<rparr>)"

definition subnet_address :: "subnet_allocator \<Rightarrow> 32 word \<Rightarrow> 32 word" where
  "subnet_address sna n =
     (let baseipu = IPToUint32 (net_IP (sa_network sna));
          shifted = push_bit (sa_hostBits sna) n
      in baseipu OR (push_bit (sa_leftShift sna) shifted AND sa_leftMask sna)
         OR (drop_bit (sa_rightShift sna) shifted AND sa_rightMask sna))"

definition numSubnetBits :: "subnet_allocator \<Rightarrow> nat" where
  "numSubnetBits sna = 32 - net_ones (sa_network sna) - sa_hostBits sna"

definition numSubnets :: "subnet_allocator \<Rightarrow> 32 word" where
  "numSubnets sna = push_bit (numSubnetBits sna) 1"

definition gen_subnet :: "subnet_allocator \<Rightarrow> 32 word \<Rightarrow> ip_net" where
  "gen_subnet sna n =
     \<lparr>net_IP = Uint32ToIP (subnet_address sna n),
      net_ones = numSubnetBits sna + net_ones (sa_network sna)\<rparr>"

text \<open>The loop over \<open>i\<close>, with the number of iterations left.\<close>

fun get_loop :: "subnet_allocator \<Rightarrow> 32 word \<Rightarrow> nat \<Rightarrow> subnet_allocator \<times> (go_error + ip_net)" where
  "get_loop sna i 0 =
     (sna\<lparr>sa_next := 0\<rparr>, Inl (Errorf ''No subnets available.'' []))"
| "get_loop sna i (Suc todo) =
     (let n = (i + sa_next sna) mod numSubnets sna;
          genSubnet = gen_subnet sna n
      in if \<not> sa_allocMap sna (net_String genSubnet)
         then (sna\<lparr>sa_allocMap := (sa_allocMap sna)(net_String genSubnet := True),
                   sa_next := n + 1\<rparr>, Inr genSubnet)
         else get_loop sna (i + 1) todo)"

definition GetNetwork :: "subnet_allocator \<Rightarrow> subnet_allocator \<times> (go_error + ip_net)" where
  "GetNetwork sna = get_loop sna 0 (unat (numSubnets sna))"

definition ReleaseNetwork :: "subnet_allocator \<Rightarrow> ip_net \<Rightarrow> subnet_allocator \<times> go_error option" where
  "ReleaseNetwork sna ipnet =
     (if \<not> net_Contains (sa_network sna) (net_IP ipnet)
      then (sna, Some (Errorf ''Provided subnet %v does not belong to the network %v.''
             [net_String ipnet, net_String (sa_network sna)]))
      else if \<not> sa_allocMap sna (net_String ipnet)
      then (sna, Some (Errorf ''Provided subnet %v is already available.'' [net_String ipnet]))
      else (sna\<lparr>sa_allocMap := (sa_allocMap sna)(net_String ipnet := False)\<rparr>, None))"

section \<open>Addresses as words\<close>

lemma bit_IPToUint32:
  "bit (IPToUint32 ip) j \<longleftrightarrow>
     (if j < 8 then bit (ip3 ip) j
      else if j < 16 then bit (ip2 ip) (j - 8)
      else if j < 24 then bit (ip1 ip) (j - 16)
      else if j < 32 then bit (ip0 ip) (j - 24) else False)"
  by (auto simp: IPToUint32_def bit_or_iff bit_push_bit_iff bit_ucast_iff
      dest: bit_imp_le_length)

lemma IPToUint32_Uint32ToIP [simp]: "IPToUint32 (Uint32ToIP u) = u"
proof (rule bit_word_eqI)
  fix j assume "j < LENGTH(32)"
  then show "bit (IPToUint32 (Uint32ToIP u)) j \<longleftrightarrow> bit u j"
    by (auto simp: bit_IPToUint32 Uint32ToIP_def bit_ucast_iff bit_drop_bit_eq)
qed

lemma Uint32ToIP_inject [simp]: "Uint32ToIP u = Uint32ToIP v \<longleftrightarrow> u = v"
  by (metis IPToUint32_Uint32ToIP)

lemma bit_CIDRMask: "k \<le> 32 \<Longrightarrow> bit (CIDRMask k) j \<longleftrightarrow> 32 - k \<le> j \<and> j < 32"
  by (auto simp: CIDRMask_def bit_push_bit_iff bit_mask_iff)

lemma net_Contains_bits:
  "net_ones n \<le> 32 \<Longrightarrow> net_Contains n ip \<longleftrightarrow>
     (\<forall>j. 32 - net_ones n \<le> j \<and> j < 32 \<longrightarrow> bit (IPToUint32 (net_IP n)) j = bit (IPToUint32 ip) j)"
  by (auto simp: net_Contains_def bit_eq_iff bit_and_iff bit_CIDRMask dest: bit_imp_le_length)

lemma decimal_split:
  assumes "decimal m @ c # s = decimal n @ c # t" "\<not> is_digit c"
  shows "m = n \<and> s = t"
proof -
  have "takeWhile is_digit (decimal m @ c # s) = decimal m"
    "dropWhile is_digit (decimal m @ c # s) = c # s"
    "takeWhile is_digit (decimal n @ c # t) = decimal n"
    "dropWhile is_digit (decimal n @ c # t) = c # t"
    using assms(2) by (simp_all add: takeWhile_decimal)
  with assms(1) show ?thesis by simp
qed

lemma byte_text_split:
  "byte_text a @ c # s = byte_text b @ c # t \<Longrightarrow> \<not> is_digit c \<Longrightarrow> a = b \<and> s = t"
  unfolding byte_text_def using decimal_split [of "unat a" c s "unat b" t] by (simp add: word_unat_eq_iff)

lemma net_String_inject [simp]: "net_String m = net_String n \<longleftrightarrow> m = n"
proof
  have dot: "\<not> is_digit CHR ''.''" "\<not> is_digit CHR ''/''" by (simp_all add: is_digit_def)
  assume "net_String m = net_String n"
  then have "byte_text (ip0 (net_IP m)) @ CHR ''.'' # byte_text (ip1 (net_IP m)) @ CHR ''.'' #
      byte_text (ip2 (net_IP m)) @ CHR ''.'' # byte_text (ip3 (net_IP m)) @ CHR ''/'' # decimal (net_ones m)
    = byte_text (ip0 (net_IP n)) @ CHR ''.'' # byte_text (ip1 (net_IP n)) @ CHR ''.'' #
      byte_text (ip2 (net_IP n)) @ CHR ''.'' # byte_text (ip3 (net_IP n)) @ CHR ''/'' # decimal (net_ones n)"
    by (simp add: net_String_def ip_String_def)
  then have "ip0 (net_IP m) = ip0 (net_IP n) \<and> ip1 (net_IP m) = ip1 (net_IP n)
      \<and> ip2 (net_IP m) = ip2 (net_IP n) \<and> ip3 (net_IP m) = ip3 (net_IP n) \<and> net_ones m = net_ones n"
    using dot by (fastforce dest!: byte_text_split)
  then show "m = n" by (cases m; cases n) (auto intro: ipv4.equality)
qed simp

section \<open>The numbering of the subnets is a rotation of bits\<close>

text \<open>
  Bit \<open>k\<close> of the subnet part of an address is bit \<open>rot_index s ls k\<close> of the subnet's number, where
  \<open>s\<close> is the number of subnet bits and \<open>ls\<close> the left shift; \<open>unrotate\<close> is the inverse.
\<close>

definition rot_index :: "nat \<Rightarrow> nat \<Rightarrow> nat \<Rightarrow> nat" where
  "rot_index s ls k = (if k < ls then s - ls + k else k - ls)"

definition sna_wf :: "subnet_allocator \<Rightarrow> bool" where
  "sna_wf a \<longleftrightarrow>
     (let L = 32 - net_ones (sa_network a); h = sa_hostBits a; s = L - h; ls = sa_leftShift a in
      net_ones (sa_network a) \<le> 32 \<and> 0 < h \<and> h \<le> L
      \<and> (\<forall>j < L. \<not> bit (IPToUint32 (net_IP (sa_network a))) j)
      \<and> unat (sa_next a) \<le> 2 ^ s
      \<and> (if ls = 0 then sa_leftMask a = - 1 \<and> sa_rightShift a = 0 \<and> sa_rightMask a = 0
         else ls < s \<and> sa_leftMask a = mask L \<and> sa_rightShift a = s - ls
              \<and> sa_rightMask a = push_bit h (mask ls)))"

lemma unat_pow2: "k < 32 \<Longrightarrow> unat (2 ^ k :: 32 word) = 2 ^ k"
proof -
  assume "k < 32"
  then have "unat (of_nat (2 ^ k) :: 32 word) = 2 ^ k"
    by (simp only: unsigned_of_nat take_bit_of_exp) simp
  then show ?thesis by simp
qed

lemma numSubnets_unat: "sna_wf a \<Longrightarrow> unat (numSubnets a) = 2 ^ numSubnetBits a"
  by (simp add: sna_wf_def Let_def numSubnets_def numSubnetBits_def push_bit_of_1 unat_pow2)

lemma bit_small: "sna_wf a \<Longrightarrow> n < numSubnets a \<Longrightarrow> bit n j \<Longrightarrow> j < numSubnetBits a"
proof (rule ccontr)
  assume wf: "sna_wf a" and n: "n < numSubnets a" "bit n j" "\<not> j < numSubnetBits a"
  have "unat n < 2 ^ numSubnetBits a"
    using n(1) numSubnets_unat [OF wf] by (simp add: word_less_nat_alt)
  moreover have "bit (unat n) j" using n(2) by (simp add: bit_unsigned_iff)
  ultimately show False
    using n(3) by (metis bit_take_bit_iff take_bit_nat_eq_self)
qed

lemma bit_subnet_address:
  assumes wf: "sna_wf a" and n: "n < numSubnets a" and j: "j < 32"
  shows "bit (subnet_address a n) j \<longleftrightarrow>
    (if j < sa_hostBits a then False
     else if j < 32 - net_ones (sa_network a)
     then bit n (rot_index (numSubnetBits a) (sa_leftShift a) (j - sa_hostBits a))
     else bit (IPToUint32 (net_IP (sa_network a))) j)"
proof -
  define h ls L t where "h = sa_hostBits a" and "ls = sa_leftShift a"
    and "L = 32 - net_ones (sa_network a)" and "t = numSubnetBits a"
  let ?base = "IPToUint32 (net_IP (sa_network a))"
  have w: "0 < h" "L = h + t" "L \<le> 32" "\<And>i. i < L \<Longrightarrow> \<not> bit ?base i"
    using wf by (auto simp: sna_wf_def Let_def numSubnetBits_def h_def L_def t_def)
  have small: "i < t" if "bit n i" for i using bit_small [OF wf n that] by (simp add: t_def)
  have "bit (subnet_address a n) j \<longleftrightarrow>
    (if j < h then False else if j < L then bit n (rot_index t ls (j - h)) else bit ?base j)"
  proof (cases "ls = 0")
    case True
    then have "bit (subnet_address a n) j \<longleftrightarrow> bit ?base j \<or> h \<le> j \<and> bit n (j - h)"
      using wf j by (auto simp: sna_wf_def Let_def subnet_address_def bit_or_iff bit_push_bit_iff
          ls_def h_def)
    then show ?thesis
      using True w small [of "j - h"] by (auto simp: rot_index_def)
  next
    case False
    have masks: "sa_leftMask a = mask L" "sa_rightShift a = t - ls" "sa_rightMask a = push_bit h (mask ls)"
        "ls < t"
      using wf False by (auto simp: sna_wf_def Let_def numSubnetBits_def ls_def h_def L_def t_def)
    have "bit (subnet_address a n) j \<longleftrightarrow> bit ?base j
        \<or> ls \<le> j \<and> h \<le> j - ls \<and> bit n (j - ls - h) \<and> j < L
        \<or> h \<le> t - ls + j \<and> t - ls + j < 32 \<and> bit n (t - ls + j - h) \<and> h \<le> j \<and> j - h < ls"
      using j by (auto simp: subnet_address_def Let_def masks bit_or_iff bit_and_iff bit_push_bit_iff
          bit_drop_bit_eq bit_mask_iff ls_def [symmetric] h_def [symmetric])
    moreover have "h \<le> j \<Longrightarrow> t - ls + j - h = t - ls + (j - h)" by simp
    ultimately show ?thesis
      using w masks(4) j small [of "j - h - ls"]
      by (auto simp: rot_index_def diff_diff_add add.commute)
  qed
  then show ?thesis by (simp add: h_def ls_def L_def t_def)
qed

lemma gen_subnet_Contains:
  assumes wf: "sna_wf a" and n: "n < numSubnets a"
  shows "net_Contains (gen_subnet a n) ip \<longleftrightarrow>
    net_Contains (sa_network a) ip
    \<and> (\<forall>k < numSubnetBits a. bit n (rot_index (numSubnetBits a) (sa_leftShift a) k)
          = bit (IPToUint32 ip) (sa_hostBits a + k))"
proof -
  define h L where "h = sa_hostBits a" and "L = 32 - net_ones (sa_network a)"
  define t where "t = numSubnetBits a"
  let ?r = "rot_index t (sa_leftShift a)" and ?base = "IPToUint32 (net_IP (sa_network a))"
  have w: "0 < h" "L = h + t" "L \<le> 32" "net_ones (sa_network a) = 32 - L"
    using wf by (auto simp: sna_wf_def Let_def numSubnetBits_def h_def L_def t_def)
  have ones: "net_ones (gen_subnet a n) = 32 - h"
    using w by (simp add: gen_subnet_def t_def [symmetric])
  have "net_Contains (gen_subnet a n) ip \<longleftrightarrow>
      (\<forall>j. h \<le> j \<and> j < 32 \<longrightarrow> bit (subnet_address a n) j = bit (IPToUint32 ip) j)"
    using w by (subst net_Contains_bits) (simp_all add: ones, simp add: gen_subnet_def)
  also have "\<dots> \<longleftrightarrow> (\<forall>j. h \<le> j \<and> j < 32 \<longrightarrow>
      (if j < L then bit n (?r (j - h)) else bit ?base j) = bit (IPToUint32 ip) j)"
    using bit_subnet_address [OF wf n] by (simp add: h_def L_def t_def)
  also have "\<dots> \<longleftrightarrow> (\<forall>j. L \<le> j \<and> j < 32 \<longrightarrow> bit ?base j = bit (IPToUint32 ip) j)
      \<and> (\<forall>j. h \<le> j \<and> j < L \<longrightarrow> bit n (?r (j - h)) = bit (IPToUint32 ip) j)"
    using w(2,3) by (auto simp: not_less)
  also have "(\<forall>j. h \<le> j \<and> j < L \<longrightarrow> bit n (?r (j - h)) = bit (IPToUint32 ip) j) \<longleftrightarrow>
      (\<forall>k < t. bit n (?r k) = bit (IPToUint32 ip) (h + k))"
  proof
    assume all: "\<forall>k < t. bit n (?r k) = bit (IPToUint32 ip) (h + k)"
    show "\<forall>j. h \<le> j \<and> j < L \<longrightarrow> bit n (?r (j - h)) = bit (IPToUint32 ip) j"
      using w(2) all by (metis le_add_diff_inverse less_diff_conv2 add.commute)
  next
    assume all: "\<forall>j. h \<le> j \<and> j < L \<longrightarrow> bit n (?r (j - h)) = bit (IPToUint32 ip) j"
    show "\<forall>k < t. bit n (?r k) = bit (IPToUint32 ip) (h + k)"
    proof (intro allI impI)
      fix k assume "k < t"
      then show "bit n (?r k) = bit (IPToUint32 ip) (h + k)"
        using all [rule_format, of "h + k"] w(2) by simp
    qed
  qed
  finally show ?thesis
    using w by (simp add: net_Contains_bits h_def t_def)
qed

text \<open>The number whose bits are rotated to the subnet bits of an address.\<close>

definition subnet_number :: "subnet_allocator \<Rightarrow> 32 word \<Rightarrow> 32 word" where
  "subnet_number a u =
     (let t = numSubnetBits a; ls = sa_leftShift a; m = take_bit t (drop_bit (sa_hostBits a) u)
      in drop_bit ls m OR push_bit (t - ls) (take_bit ls m))"

lemma rot_index_lt: "ls \<le> t \<Longrightarrow> k < t \<Longrightarrow> rot_index t ls k < t"
  by (auto simp: rot_index_def)

lemma rot_index_inverse:
  "ls \<le> t \<Longrightarrow> i < t \<Longrightarrow> \<exists>k < t. rot_index t ls k = i"
proof (cases "i < t - ls")
  case True
  then show ?thesis by (intro exI [of _ "i + ls"]) (simp add: rot_index_def)
next
  case False
  assume "ls \<le> t" "i < t"
  with False show ?thesis by (intro exI [of _ "i - (t - ls)"]) (auto simp: rot_index_def)
qed

lemma shift_le_bits: "sna_wf a \<Longrightarrow> sa_leftShift a \<le> numSubnetBits a"
  by (auto simp: sna_wf_def Let_def numSubnetBits_def split: if_splits)

lemma gen_subnet_unique:
  assumes wf: "sna_wf a" and n: "m < numSubnets a" "n < numSubnets a"
    and ip: "net_Contains (gen_subnet a m) ip" "net_Contains (gen_subnet a n) ip"
  shows "m = n"
proof (rule bit_word_eqI)
  fix i assume "i < LENGTH(32)"
  let ?t = "numSubnetBits a" and ?r = "rot_index (numSubnetBits a) (sa_leftShift a)"
  show "bit m i \<longleftrightarrow> bit n i"
  proof (cases "i < ?t")
    case True
    then obtain k where "k < ?t" "?r k = i"
      using rot_index_inverse [OF shift_le_bits [OF wf]] by blast
    then show ?thesis
      using ip gen_subnet_Contains [OF wf n(1), of ip] gen_subnet_Contains [OF wf n(2), of ip] by metis
  next
    case False
    then show ?thesis using bit_small [OF wf n(1)] bit_small [OF wf n(2)] by blast
  qed
qed

lemma subnet_number_bits:
  assumes wf: "sna_wf a" and k: "k < numSubnetBits a"
  shows "bit (subnet_number a u) (rot_index (numSubnetBits a) (sa_leftShift a) k) = bit u (sa_hostBits a + k)"
proof -
  have le: "sa_leftShift a \<le> numSubnetBits a" "sa_hostBits a + numSubnetBits a \<le> 32"
    using wf shift_le_bits [OF wf] by (auto simp: sna_wf_def Let_def numSubnetBits_def)
  then show ?thesis
    using k by (auto simp: subnet_number_def Let_def rot_index_def bit_or_iff bit_drop_bit_eq
        bit_push_bit_iff bit_take_bit_iff dest: bit_imp_le_length)
qed

lemma subnet_number_lt:
  assumes wf: "sna_wf a"
  shows "subnet_number a u < numSubnets a"
proof -
  let ?t = "numSubnetBits a"
  have "bit (subnet_number a u) i \<Longrightarrow> i < ?t" for i
    using shift_le_bits [OF wf]
    by (auto simp: subnet_number_def Let_def bit_or_iff bit_drop_bit_eq bit_push_bit_iff bit_take_bit_iff)
  then have "take_bit ?t (subnet_number a u) = subnet_number a u"
    by (intro bit_eqI) (auto simp: bit_take_bit_iff)
  then have "unat (subnet_number a u) < 2 ^ ?t"
    by (metis unsigned_take_bit_eq take_bit_nat_less_exp)
  then show ?thesis using numSubnets_unat [OF wf] by (simp add: word_less_nat_alt)
qed

lemma gen_subnet_covers:
  assumes wf: "sna_wf a" and ip: "net_Contains (sa_network a) ip"
  shows "subnet_number a (IPToUint32 ip) < numSubnets a
    \<and> net_Contains (gen_subnet a (subnet_number a (IPToUint32 ip))) ip"
  using subnet_number_lt [OF wf] gen_subnet_Contains [OF wf subnet_number_lt [OF wf]]
    subnet_number_bits [OF wf] ip by blast

lemma gen_subnet_inject:
  assumes "sna_wf a" "m < numSubnets a" "n < numSubnets a"
  shows "gen_subnet a m = gen_subnet a n \<longleftrightarrow> m = n"
proof
  assume eq: "gen_subnet a m = gen_subnet a n"
  have "net_Contains (gen_subnet a m) (net_IP (gen_subnet a m))" by (simp add: net_Contains_def)
  then show "m = n" using gen_subnet_unique [OF assms] eq by metis
qed simp

section \<open>The allocator keeps a set of subnet numbers\<close>

definition used :: "subnet_allocator \<Rightarrow> 32 word set" where
  "used a = {n. n < numSubnets a \<and> sa_allocMap a (net_String (gen_subnet a n))}"

lemma fields_irrelevant [simp]:
  "gen_subnet (a\<lparr>sa_allocMap := m\<rparr>) n = gen_subnet a n" "gen_subnet (a\<lparr>sa_next := i\<rparr>) n = gen_subnet a n"
  "numSubnets (a\<lparr>sa_allocMap := m\<rparr>) = numSubnets a" "numSubnets (a\<lparr>sa_next := i\<rparr>) = numSubnets a"
  "sna_wf (a\<lparr>sa_allocMap := m\<rparr>) = sna_wf a"
  "sna_wf (a\<lparr>sa_allocMap := m, sa_next := i\<rparr>) = sna_wf (a\<lparr>sa_next := i\<rparr>)"
  by (simp_all add: gen_subnet_def numSubnets_def numSubnetBits_def subnet_address_def sna_wf_def)

lemma used_next [simp]: "used (a\<lparr>sa_next := i\<rparr>) = used a"
  by (simp add: used_def)

lemma used_update:
  assumes "sna_wf a" "n < numSubnets a"
  shows "used (a\<lparr>sa_allocMap := (sa_allocMap a)(net_String (gen_subnet a n) := b)\<rparr>)
    = (if b then insert n (used a) else used a - {n})"
  using assms gen_subnet_inject [OF assms(1)] by (auto simp: used_def)

lemma wf_next: "sna_wf a \<Longrightarrow> n < numSubnets a \<Longrightarrow> sna_wf (a\<lparr>sa_next := n + 1\<rparr>)" "sna_wf a \<Longrightarrow> sna_wf (a\<lparr>sa_next := 0\<rparr>)"
proof -
  assume wf: "sna_wf a" and n: "n < numSubnets a"
  have "unat (n + 1) \<le> unat (numSubnets a)"
    using n by (metis inc_le word_le_nat_alt)
  then show "sna_wf (a\<lparr>sa_next := n + 1\<rparr>)"
    using wf numSubnets_unat [OF wf] by (auto simp: sna_wf_def Let_def numSubnetBits_def)
qed (auto simp: sna_wf_def Let_def)

lemma get_loop_cases:
  assumes wf: "sna_wf a" and i: "unat i + todo = unat (numSubnets a)"
  shows "(\<exists>a' n. get_loop a i todo = (a', Inr (gen_subnet a n)) \<and> n < numSubnets a \<and> n \<notin> used a
            \<and> used a' = insert n (used a) \<and> sna_wf a')
    \<or> (\<exists>e. get_loop a i todo = (a\<lparr>sa_next := 0\<rparr>, Inl e)
          \<and> (\<forall>j. unat i \<le> j \<and> j < unat (numSubnets a) \<longrightarrow>
               of_nat ((j + unat (sa_next a)) mod unat (numSubnets a)) \<in> used a))"
  using i
proof (induction todo arbitrary: i)
  case (Suc todo)
  let ?N = "numSubnets a" let ?n = "(i + sa_next a) mod ?N"
  have N: "unat ?N = 2 ^ numSubnetBits a" "numSubnetBits a \<le> 31" "unat (sa_next a) \<le> unat ?N"
    using wf numSubnets_unat [OF wf] by (auto simp: sna_wf_def Let_def numSubnetBits_def)
  have top: "(2::nat) ^ numSubnetBits a \<le> 2147483648"
    using power_increasing [OF N(2), of "2::nat"] by simp
  then have fits: "unat i + unat (sa_next a) < 2 ^ 32" using N Suc.prems top by simp
  have sum: "unat (i + sa_next a) = unat i + unat (sa_next a)"
    using fits by (simp add: unat_plus_if')
  have n: "unat ?n = (unat i + unat (sa_next a)) mod unat ?N" by (simp add: unat_mod sum)
  have "?n < ?N" using N(1) by (simp add: word_less_nat_alt n)
  then have in_used: "?n \<in> used a \<longleftrightarrow> sa_allocMap a (net_String (gen_subnet a ?n))"
    by (simp add: used_def)
  have of_n: "of_nat ((unat i + unat (sa_next a)) mod unat ?N) = ?n"
    by (simp flip: n)
  show ?case
  proof (cases "?n \<in> used a")
    case True
    have "unat (i + 1) = Suc (unat i)"
      using Suc.prems N(1) top by (simp add: unat_plus_if')
    then have "unat (i + 1) + todo = unat ?N" using Suc.prems by simp
    from Suc.IH [OF this] \<open>unat (i + 1) = Suc (unat i)\<close> True in_used of_n
    show ?thesis by (auto simp: Let_def) (metis Suc_leI le_neq_implies_less)
  next
    case False
    let ?a = "a\<lparr>sa_allocMap := (sa_allocMap a)(net_String (gen_subnet a ?n) := True), sa_next := ?n + 1\<rparr>"
    have "get_loop a i (Suc todo) = (?a, Inr (gen_subnet a ?n))"
      using False in_used by (simp add: Let_def)
    moreover have "used ?a = insert ?n (used a)"
      using used_update [OF wf \<open>?n < ?N\<close>, of True] by simp
    moreover have "sna_wf ?a" using wf_next(1) [OF wf \<open>?n < ?N\<close>] by simp
    ultimately show ?thesis using False \<open>?n < ?N\<close> by blast
  qed
qed auto

lemma GetNetwork_cases:
  assumes wf: "sna_wf a"
  shows "(\<exists>a' n. GetNetwork a = (a', Inr (gen_subnet a n)) \<and> n < numSubnets a \<and> n \<notin> used a
            \<and> used a' = insert n (used a) \<and> sna_wf a')
    \<or> (\<exists>e. GetNetwork a = (a\<lparr>sa_next := 0\<rparr>, Inl e) \<and> used a = {n. n < numSubnets a})"
proof -
  let ?N = "unat (numSubnets a)"
  have full: "used a = {n. n < numSubnets a}"
    if all: "\<forall>j. unat (0 :: 32 word) \<le> j \<and> j < ?N \<longrightarrow> of_nat ((j + unat (sa_next a)) mod ?N) \<in> used a"
  proof -
    have "n \<in> used a" if n: "n < numSubnets a" for n
    proof -
      have "unat n < ?N" using n by (simp add: word_less_nat_alt)
      then obtain j where "j < ?N" "(unat (sa_next a) + j) mod ?N = unat n"
        using residue_reached [of "unat n" ?N "unat (sa_next a)"] by blast
      with all have "of_nat (unat n) \<in> used a" by (metis add.commute le0 unsigned_0)
      then show ?thesis by simp
    qed
    then show ?thesis by (auto simp: used_def)
  qed
  show ?thesis
    using get_loop_cases [OF wf, of 0 ?N] full by (auto simp: GetNetwork_def)
qed

lemma ReleaseNetwork_gen:
  assumes wf: "sna_wf a" and n: "n < numSubnets a"
  shows "ReleaseNetwork a (gen_subnet a n) =
    (if n \<in> used a
     then (a\<lparr>sa_allocMap := (sa_allocMap a)(net_String (gen_subnet a n) := False)\<rparr>, None)
     else (a, Some (Errorf ''Provided subnet %v is already available.'' [net_String (gen_subnet a n)])))"
proof -
  have "net_Contains (gen_subnet a n) (net_IP (gen_subnet a n))" by (simp add: net_Contains_def)
  then have "net_Contains (sa_network a) (net_IP (gen_subnet a n))"
    using gen_subnet_Contains [OF wf n] by blast
  then show ?thesis using n by (simp add: ReleaseNetwork_def used_def)
qed

lemma ReleaseNetwork_wf: "sna_wf a \<Longrightarrow> sna_wf (fst (ReleaseNetwork a t))"
  by (simp add: ReleaseNetwork_def)

lemma ParseCIDR_base:
  assumes "ParseCIDR s = Some n"
  shows "net_ones n \<le> 32" "j < 32 - net_ones n \<Longrightarrow> \<not> bit (IPToUint32 (net_IP n)) j"
  using assms by (auto simp: ParseCIDR_def bit_and_iff bit_CIDRMask split: list.splits option.splits if_splits)

lemma rotation_fits:
  "(h::nat) mod 8 \<noteq> 0 \<Longrightarrow> (h - 1) div 8 \<noteq> (h + s - 1) div 8 \<Longrightarrow> 8 - h mod 8 < s"
proof -
  assume h: "h mod 8 \<noteq> 0" "(h - 1) div 8 \<noteq> (h + s - 1) div 8"
  obtain q r where hq: "h = 8 * q + r" "r < 8" using mult_div_mod_eq [of 8 h] mod_less_divisor [of 8 h] by (metis zero_less_numeral)
  have r: "0 < r" "h mod 8 = r" using h(1) hq by auto
  have "(h - 1) div 8 = q" using hq r by auto
  moreover have "(h + s - 1) div 8 = q" if "s \<le> 8 - r"
  proof -
    have "h + s - 1 = 8 * q + (r + s - 1)" "r + s - 1 < 8" using hq r that by auto
    then show ?thesis by simp
  qed
  ultimately show ?thesis using h(2) r(2) by fastforce
qed

lemma NewSubnetAllocator_wf:
  assumes "NewSubnetAllocator network h inUse = Inr a"
  shows "sna_wf a"
proof -
  obtain n where n: "ParseCIDR network = Some n" "0 < h" "h \<le> 32 - net_ones n"
    using assms by (auto simp: NewSubnetAllocator_def Let_def split: option.splits if_splits)
  have base: "net_ones n \<le> 32" "\<And>j. j < 32 - net_ones n \<Longrightarrow> \<not> bit (IPToUint32 (net_IP n)) j"
    using ParseCIDR_base [OF n(1)] by auto
  have masks: "2 ^ k - 1 = (mask k :: 32 word)" for k
    by (simp add: mask_eq_decr_exp)
  have fits: "h mod 8 \<noteq> 0 \<Longrightarrow> (h - 1) div 8 \<noteq> (h + (32 - net_ones n - h) - 1) div 8 \<Longrightarrow>
      8 - h mod 8 < 32 - net_ones n - h"
    by (rule rotation_fits)
  have pos: "h mod 8 < 8" by simp
  show ?thesis
  proof (cases "h mod 8 \<noteq> 0 \<and> (h - 1) div 8 \<noteq> (h + (32 - net_ones n - h) - 1) div 8")
    case True
    then have "a = \<lparr>sa_network = n, sa_hostBits = h, sa_leftShift = 8 - h mod 8,
        sa_leftMask = mask (32 - net_ones n), sa_rightShift = 32 - net_ones n - h - (8 - h mod 8),
        sa_rightMask = push_bit h (mask (8 - h mod 8)), sa_next = 0,
        sa_allocMap = mark_in_use n inUse (\<lambda>_. False)\<rparr>"
      using assms n by (auto simp: NewSubnetAllocator_def Let_def masks)
    then show ?thesis using base n(2,3) fits True pos by (simp add: sna_wf_def Let_def)
  next
    case False
    then have "a = \<lparr>sa_network = n, sa_hostBits = h, sa_leftShift = 0, sa_leftMask = 0xFFFFFFFF,
        sa_rightShift = 0, sa_rightMask = 0, sa_next = 0,
        sa_allocMap = mark_in_use n inUse (\<lambda>_. False)\<rparr>"
      using assms n by (auto simp: NewSubnetAllocator_def Let_def)
    then show ?thesis using base n(2,3) by (simp add: sna_wf_def Let_def)
  qed
qed

inductive subnet_reach :: "subnet_allocator \<Rightarrow> bool" where
  new: "NewSubnetAllocator network hostBits inUse = Inr a \<Longrightarrow> subnet_reach a"
| get: "subnet_reach a \<Longrightarrow> subnet_reach (fst (GetNetwork a))"
| release: "subnet_reach a \<Longrightarrow> subnet_reach (fst (ReleaseNetwork a ipnet))"

lemma subnet_reach_wf: "subnet_reach a \<Longrightarrow> sna_wf a"
proof (induction rule: subnet_reach.induct)
  case (get a)
  have next0: "sna_wf (a\<lparr>sa_next := 0\<rparr>)" by (rule wf_next(2)) (rule get.IH)
  from GetNetwork_cases [OF get.IH] show ?case
  proof
    assume "\<exists>a' n. GetNetwork a = (a', Inr (gen_subnet a n)) \<and> n < numSubnets a \<and> n \<notin> used a
        \<and> used a' = insert n (used a) \<and> sna_wf a'"
    then show ?thesis by (elim exE conjE) simp
  next
    assume "\<exists>e. GetNetwork a = (a\<lparr>sa_next := 0\<rparr>, Inl e) \<and> used a = {n. n < numSubnets a}"
    then show ?thesis using next0 by (elim exE conjE) simp
  qed
qed (simp_all add: NewSubnetAllocator_wf ReleaseNetwork_wf)

text \<open>The network \<open>10.1.0.0/16\<close> with six host bits, the example in the code's comment.\<close>

definition sample_allocator :: subnet_allocator where
  "sample_allocator =
     \<lparr>sa_network = \<lparr>net_IP = \<lparr>ip0 = 10, ip1 = 1, ip2 = 0, ip3 = 0\<rparr>, net_ones = 16\<rparr>, sa_hostBits = 6,
      sa_leftShift = 2, sa_leftMask = 0xFFFF, sa_rightShift = 8, sa_rightMask = 0xC0, sa_next = 0,
      sa_allocMap = (\<lambda>_. False)\<rparr>"

lemma sample_parse: "ParseCIDR ''10.1.0.0/16'' = Some (sa_network sample_allocator)"
  by code_simp

lemma sample_new: "NewSubnetAllocator ''10.1.0.0/16'' 6 [] = Inr sample_allocator"
  by (simp add: NewSubnetAllocator_def sample_parse) (simp add: sample_allocator_def)

lemma sample_reach: "subnet_reach sample_allocator"
  using sample_new by (rule subnet_reach.new)

lemma sample_second: "net_String (gen_subnet sample_allocator 1) = ''10.1.1.0/26''"
  by code_simp

lemma sample_free: "1 < numSubnets sample_allocator" "used sample_allocator = {}"
  by (simp_all add: used_def sample_allocator_def numSubnets_def numSubnetBits_def)

section \<open>Properties\<close>

text \<open>
  C33: the candidate subnets partition the cluster network.  Whatever the rotation of the subnet
  bits that \<open>NewSubnetAllocator\<close> chooses, every address of the network lies in exactly one of the
  \<open>numSubnets\<close> subnets the allocator generates, and no other address lies in any.
\<close>

theorem subnets_partition_the_network:
  assumes "subnet_reach a"
  shows "(\<exists>!n. n < numSubnets a \<and> net_Contains (gen_subnet a n) ip) \<longleftrightarrow> net_Contains (sa_network a) ip"
proof
  note wf = subnet_reach_wf [OF assms]
  assume "\<exists>!n. n < numSubnets a \<and> net_Contains (gen_subnet a n) ip"
  then obtain n where "n < numSubnets a" "net_Contains (gen_subnet a n) ip" by (elim ex1E conjE)
  then show "net_Contains (sa_network a) ip" using gen_subnet_Contains [OF wf, of n ip] by simp
next
  note wf = subnet_reach_wf [OF assms]
  assume "net_Contains (sa_network a) ip"
  note covers = gen_subnet_covers [OF wf this]
  from covers show "\<exists>!n. n < numSubnets a \<and> net_Contains (gen_subnet a n) ip"
  proof (rule ex1I)
    fix n assume n: "n < numSubnets a \<and> net_Contains (gen_subnet a n) ip"
    show "n = subnet_number a (IPToUint32 ip)"
      by (rule gen_subnet_unique [OF wf, of _ _ ip]) (use n covers in simp_all)
  qed
qed

text \<open>
  C34: \<open>GetNetwork\<close> refines the allocator's abstract specification, a set of subnet numbers in use:
  it hands out a subnet that is not in use and adds exactly that one, or fails when, and only when,
  every subnet is in use, leaving the set unchanged; \<open>ReleaseNetwork\<close> removes the subnet it is given
  when it is in use and is refused without effect otherwise.
\<close>

theorem GetNetwork_Release_refine_set:
  assumes "subnet_reach a"
  shows "((\<exists>a' n. GetNetwork a = (a', Inr (gen_subnet a n)) \<and> n < numSubnets a \<and> n \<notin> used a
             \<and> used a' = insert n (used a))
         \<or> (\<exists>a' e. GetNetwork a = (a', Inl e) \<and> used a = {n. n < numSubnets a} \<and> used a' = used a))
    \<and> (n < numSubnets a \<longrightarrow>
         (\<exists>a'. ReleaseNetwork a (gen_subnet a n) = (a', None) \<and> n \<in> used a \<and> used a' = used a - {n})
         \<or> (\<exists>e. ReleaseNetwork a (gen_subnet a n) = (a, Some e) \<and> n \<notin> used a))"
proof -
  note wf = subnet_reach_wf [OF assms]
  have "n < numSubnets a \<longrightarrow>
         (\<exists>a'. ReleaseNetwork a (gen_subnet a n) = (a', None) \<and> n \<in> used a \<and> used a' = used a - {n})
         \<or> (\<exists>e. ReleaseNetwork a (gen_subnet a n) = (a, Some e) \<and> n \<notin> used a)"
    using ReleaseNetwork_gen [OF wf] used_update [OF wf, of n False] by simp
  moreover have "used (a\<lparr>sa_next := 0\<rparr>) = used a" by simp
  ultimately show ?thesis using GetNetwork_cases [OF wf] by blast
qed

theorem subnets_partition_the_network_witness:
  "\<exists>!n. n < numSubnets sample_allocator \<and>
     net_Contains (gen_subnet sample_allocator n) \<lparr>ip0 = 10, ip1 = 1, ip2 = 7, ip3 = 200\<rparr>"
proof -
  have "net_Contains (sa_network sample_allocator) \<lparr>ip0 = 10, ip1 = 1, ip2 = 7, ip3 = 200\<rparr>"
    by code_simp
  then show ?thesis by (simp add: subnets_partition_the_network [OF sample_reach])
qed

theorem GetNetwork_Release_refine_set_witness:
  "(\<exists>a' n. GetNetwork sample_allocator = (a', Inr (gen_subnet sample_allocator n)) \<and> used a' = {n})
   \<and> (\<exists>e. ReleaseNetwork sample_allocator (gen_subnet sample_allocator 1) = (sample_allocator, Some e))"
  using GetNetwork_Release_refine_set [OF sample_reach, of 1] sample_free by auto

end
