(* ===== verification/Mcs_Labels.thy ===== *)
theory Mcs_Labels
  imports Alloc_Bitmap "HOL-Library.Multiset"
begin

text \<open>
  SELinux category labels of projects: \<open>origin/pkg/security/mcs/label.go\<close>, which numbers the sets
  of \<open>k\<close> categories by the combinatorial number system, and
  \<open>origin/pkg/security/mcsallocator/allocator.go\<close>, the allocator of labels over any
  \<open>allocator.Interface\<close>.  Go's \<open>uint\<close> and \<open>uint64\<close> are natural numbers with the wrap-around of the
  products written out, \<open>uint16\<close> categories are natural numbers reduced modulo \<open>2 ^ 16\<close> where the
  code converts.
\<close>

section \<open>Binomial coefficients and ranks\<close>

definition maxCategories :: nat where "maxCategories = 1024"

fun mcs_binomial_loop :: "nat \<Rightarrow> nat \<Rightarrow> nat \<Rightarrow> nat \<Rightarrow> nat" where
  "mcs_binomial_loop d 0 n r = r"
| "mcs_binomial_loop d (Suc todo) n r =
     mcs_binomial_loop (d + 1) todo (n - 1) ((r * n) mod 2 ^ 64 div d)"

definition mcs_binomial :: "nat \<Rightarrow> nat \<Rightarrow> nat" where
  "mcs_binomial n k =
     (if n < k then 0 else if k = n then 1 else mcs_binomial_loop 1 k n 1)"

text \<open>\<open>Categories.Offset\<close>; the second argument is \<open>k - i\<close>.\<close>

fun rank_loop :: "nat list \<Rightarrow> nat" where
  "rank_loop [] = 0"
| "rank_loop (c # cs) = (mcs_binomial c (Suc (length cs)) + rank_loop cs) mod 2 ^ 64"

definition categories_Offset :: "nat list \<Rightarrow> nat" where
  "categories_Offset categories = rank_loop categories"

text \<open>The inner loop: \<open>n\<close> goes down while its coefficient is above the offset.\<close>

fun cat_down :: "nat \<Rightarrow> nat \<Rightarrow> nat \<Rightarrow> nat" where
  "cat_down offset 0 j = 0"
| "cat_down offset (Suc n) j =
     (if mcs_binomial (Suc n) j > offset then cat_down offset n j else Suc n)"

fun cat_loop :: "nat \<Rightarrow> nat \<Rightarrow> nat \<Rightarrow> nat list" where
  "cat_loop offset n 0 = []"
| "cat_loop offset n (Suc j) =
     (let n' = cat_down offset n (Suc j)
      in n' mod 2 ^ 16 # cat_loop (offset - mcs_binomial n' (Suc j)) n' j)"

text \<open>\<open>sort.Sort\<close> with the order of \<open>Categories\<close>, the greatest first.\<close>

definition sort_categories :: "nat list \<Rightarrow> nat list" where
  "sort_categories cs = rev (sort cs)"

definition categoriesForOffset :: "nat \<Rightarrow> nat \<Rightarrow> nat \<Rightarrow> nat list" where
  "categoriesForOffset offset n k = sort_categories (cat_loop offset n k)"

section \<open>Labels\<close>

record mcs_label =
  ml_Prefix :: string
  ml_Categories :: "nat list"

definition mcs_NewLabel :: "string \<Rightarrow> nat \<Rightarrow> nat \<Rightarrow> mcs_label" where
  "mcs_NewLabel pfx offset k =
     \<lparr>ml_Prefix =
        (if 0 < length pfx \<and> \<not> (has_suffix pfx '':'' \<or> has_suffix pfx '','')
         then pfx @ '':'' else pfx),
      ml_Categories = categoriesForOffset offset maxCategories k\<rparr>"

fun parse_categories :: "string \<Rightarrow> string list \<Rightarrow> go_error + nat list" where
  "parse_categories segment [] = Inr []"
| "parse_categories segment (s # rest) =
     (if \<not> has_prefix s ''c'' then Inl (Errorf ''categories must start with c: %s'' [segment])
      else (case Atoi (tl s) of
              Inl err \<Rightarrow> Inl err
            | Inr i \<Rightarrow>
                (case parse_categories segment rest of
                   Inl err \<Rightarrow> Inl err
                 | Inr cs \<Rightarrow> Inr (nat (i mod 2 ^ 16) # cs))))"

fun has_duplicate :: "int \<Rightarrow> nat list \<Rightarrow> bool" where
  "has_duplicate prev [] = False"
| "has_duplicate prev (c # cs) = (int c = prev \<or> has_duplicate (int c) cs)"

definition ParseLabel :: "string \<Rightarrow> go_error + mcs_label" where
  "ParseLabel s =
     (if length s = 0 then Inr \<lparr>ml_Prefix = [], ml_Categories = []\<rparr>
      else
        (let parts = split_char CHR '':'' s;
             segment = last parts;
             joined = join_with '':'' (butlast parts);
             prefixString = (if 0 < length joined then joined @ '':'' else joined)
         in case parse_categories segment (split_char CHR '','' segment) of
              Inl err \<Rightarrow> Inl err
            | Inr cs \<Rightarrow>
                let categories = sort_categories cs in
                if has_duplicate (- 1) categories
                then Inl (Errorf ''labels may not contain duplicate categories: %s'' [s])
                else Inr \<lparr>ml_Prefix = prefixString, ml_Categories = categories\<rparr>))"

definition label_String :: "mcs_label \<Rightarrow> string" where
  "label_String l = ml_Prefix l @ join_with '','' (map (\<lambda>c. ''c'' @ decimal c) (ml_Categories l))"

section \<open>Ranges\<close>

record mcs_range =
  mr_prefix :: string
  mr_n :: nat
  mr_k :: nat

definition mcs_NewRange :: "string \<Rightarrow> nat \<Rightarrow> nat \<Rightarrow> go_error + mcs_range" where
  "mcs_NewRange pfx n k =
     (if n = 0 then Inl (Errorf ''label max value must be a positive integer'' [])
      else if k = 0 then Inl (Errorf ''label length must be a positive integer'' [])
      else Inr \<lparr>mr_prefix = pfx, mr_n = n, mr_k = k\<rparr>)"

definition mcs_format_error :: go_error where
  "mcs_format_error = Errorf ''range not in the format <prefix>/<numLabel>[,<maxCategory>]'' []"

text \<open>\<open>uint(i)\<close> of a 64-bit \<open>int\<close>\<close>

definition to_uint :: "int \<Rightarrow> nat" where "to_uint i = nat (i mod 2 ^ 64)"

definition mcs_ParseRange :: "string \<Rightarrow> go_error + mcs_range" where
  "mcs_ParseRange s =
     (case splitN2 CHR ''/'' s of
        [pfx, spec] \<Rightarrow>
          (let sz = splitN2 CHR '','' spec in
           case Atoi (sz ! 0) of
             Inl err \<Rightarrow> Inl mcs_format_error
           | Inr k \<Rightarrow>
               (case (if length sz > 1 then Atoi (sz ! 1) else Inr (int maxCategories)) of
                  Inl err \<Rightarrow> Inl mcs_format_error
                | Inr n \<Rightarrow>
                    if k > 5 then Inl (Errorf ''range may not include more than 5 labels'' [])
                    else if n > int maxCategories
                    then Inl (Errorf ''range may not include more than %d categories''
                           [decimal maxCategories])
                    else mcs_NewRange pfx (to_uint n) (to_uint k)))
      | _ \<Rightarrow> Inl mcs_format_error)"

definition mcs_Size :: "mcs_range \<Rightarrow> nat" where
  "mcs_Size r = mcs_binomial (mr_n r) (mr_k r)"

definition mcs_String :: "mcs_range \<Rightarrow> string" where
  "mcs_String r =
     (if mr_n r = maxCategories then mr_prefix r @ ''/'' @ decimal (mr_k r)
      else mr_prefix r @ ''/'' @ decimal (mr_k r) @ '','' @ decimal (mr_n r))"

text \<open>\<open>NewLabel\<close> never returns an error.\<close>

definition LabelAt :: "mcs_range \<Rightarrow> nat \<Rightarrow> mcs_label \<times> bool" where
  "LabelAt r offset = (mcs_NewLabel (mr_prefix r) offset (mr_k r), True)"

definition mcs_Contains :: "mcs_range \<Rightarrow> mcs_label \<Rightarrow> bool" where
  "mcs_Contains r l \<longleftrightarrow>
     ml_Prefix l = mr_prefix r \<and> length (ml_Categories l) = mr_k r
     \<and> list_all (\<lambda>i. \<not> i \<ge> mr_n r mod 2 ^ 16) (ml_Categories l)"

definition mcs_Offset :: "mcs_range \<Rightarrow> mcs_label \<Rightarrow> bool \<times> nat" where
  "mcs_Offset r l = (if \<not> mcs_Contains r l then (False, 0) else (True, categories_Offset (ml_Categories l)))"

section \<open>The allocator of labels\<close>

record 's mcs_allocator =
  ma_r :: mcs_range
  ma_ops :: "'s alloc_ops"
  ma_alloc :: 's

definition ma_ErrFull :: go_error where "ma_ErrFull = Errorf ''range is full'' []"
definition ma_ErrNotInRange :: go_error where
  "ma_ErrNotInRange = Errorf ''provided label is not in the valid range'' []"
definition ma_ErrAllocated :: go_error where
  "ma_ErrAllocated = Errorf ''provided label is already allocated'' []"

definition ma_New :: "'s alloc_ops \<Rightarrow> mcs_range \<Rightarrow> (nat \<Rightarrow> string \<Rightarrow> 's) \<Rightarrow> 's mcs_allocator" where
  "ma_New ops r factory =
     \<lparr>ma_r = r, ma_ops = ops, ma_alloc = factory (mcs_Size r) (mcs_String r)\<rparr>"

definition ma_NewInMemory :: "mcs_range \<Rightarrow> alloc_bitmap mcs_allocator" where
  "ma_NewInMemory r = ma_New bitmap_ops r NewContiguousAllocationMap"

definition ma_Free :: "'s mcs_allocator \<Rightarrow> int" where
  "ma_Free a = op_Free (ma_ops a) (ma_alloc a)"

definition ma_Allocate :: "'s mcs_allocator \<Rightarrow> mcs_label \<Rightarrow> 's mcs_allocator \<times> go_error option" where
  "ma_Allocate a l =
     (case mcs_Offset (ma_r a) l of
        (False, offset) \<Rightarrow> (a, Some ma_ErrNotInRange)
      | (True, offset) \<Rightarrow>
          (case op_Allocate (ma_ops a) (ma_alloc a) offset of
             (s, Inl err) \<Rightarrow> (a\<lparr>ma_alloc := s\<rparr>, Some err)
           | (s, Inr False) \<Rightarrow> (a\<lparr>ma_alloc := s\<rparr>, Some ma_ErrAllocated)
           | (s, Inr True) \<Rightarrow> (a\<lparr>ma_alloc := s\<rparr>, None)))"

definition ma_AllocateNext ::
  "nat \<Rightarrow> 's mcs_allocator \<Rightarrow> 's mcs_allocator \<times> (go_error + mcs_label)" where
  "ma_AllocateNext draw a =
     (case op_AllocateNext (ma_ops a) draw (ma_alloc a) of
        (s, Inl err) \<Rightarrow> (a\<lparr>ma_alloc := s\<rparr>, Inl err)
      | (s, Inr None) \<Rightarrow> (a\<lparr>ma_alloc := s\<rparr>, Inl ma_ErrFull)
      | (s, Inr (Some offset)) \<Rightarrow>
          (a\<lparr>ma_alloc := s\<rparr>,
           case LabelAt (ma_r a) offset of
             (l, False) \<Rightarrow> Inl ma_ErrNotInRange
           | (l, True) \<Rightarrow> Inr l))"

definition ma_Release :: "'s mcs_allocator \<Rightarrow> mcs_label \<Rightarrow> 's mcs_allocator \<times> go_error option" where
  "ma_Release a l =
     (case mcs_Offset (ma_r a) l of
        (False, offset) \<Rightarrow> (a, None)
      | (True, offset) \<Rightarrow>
          (case op_Release (ma_ops a) (ma_alloc a) offset of
             (s, err) \<Rightarrow> (a\<lparr>ma_alloc := s\<rparr>, err)))"

definition ma_Has :: "'s mcs_allocator \<Rightarrow> mcs_label \<Rightarrow> bool" where
  "ma_Has a l =
     (case mcs_Offset (ma_r a) l of
        (False, offset) \<Rightarrow> False
      | (True, offset) \<Rightarrow> op_Has (ma_ops a) (ma_alloc a) offset)"

section \<open>The loop computes binomial coefficients\<close>

lemma choose_step: "d \<le> n \<Longrightarrow> (n choose d) * (n - d) = Suc d * (n choose Suc d)"
  using binomial_absorption [of d n] binomial_absorb_comp [of n d] by (simp add: mult.commute)

lemma mcs_binomial_loop_choose:
  assumes "d + todo \<le> N" "N * N ^ (d + todo) < 2 ^ 64" "0 < N"
  shows "mcs_binomial_loop (Suc d) todo (N - d) (N choose d) = N choose (d + todo)"
  using assms
proof (induction todo arbitrary: d)
  case (Suc todo)
  have small: "(N choose d) * (N - d) < 2 ^ 64"
  proof -
    have "N choose d \<le> N ^ d" using Suc.prems(1) by (intro binomial_le_pow) simp
    then have "(N choose d) * (N - d) \<le> N ^ d * N" by (intro mult_le_mono) simp_all
    also have "N ^ d * N \<le> N * N ^ (d + Suc todo)"
    proof -
      have "N ^ d \<le> N ^ (d + Suc todo)" by (rule power_increasing) (use Suc.prems(3) in simp_all)
      then show ?thesis by (subst mult.commute) (rule mult_le_mono2)
    qed
    finally show ?thesis using Suc.prems(2) by linarith
  qed
  have "(N choose d) * (N - d) div Suc d = N choose Suc d"
    using choose_step [of d N] Suc.prems(1) by (metis add_leD1 nonzero_mult_div_cancel_left nat.distinct(1))
  then have "mcs_binomial_loop (Suc d) (Suc todo) (N - d) (N choose d)
      = mcs_binomial_loop (Suc (Suc d)) todo (N - Suc d) (N choose Suc d)"
    using small by simp
  then show ?case using Suc.IH [of "Suc d"] Suc.prems by simp
qed simp

lemma mcs_binomial_choose:
  assumes "n \<le> 1024" "k \<le> 5"
  shows "mcs_binomial n k = n choose k"
proof (cases "n < k \<or> k = n")
  case True
  then show ?thesis by (auto simp: mcs_binomial_def)
next
  case False
  then have k: "k \<le> n" "0 < n" by auto
  have "n * n ^ k \<le> 1024 * 1024 ^ 5"
  proof -
    have "n ^ k \<le> n ^ 5" using k assms(2) by (intro power_increasing) simp_all
    also have "\<dots> \<le> 1024 ^ 5" using assms(1) by (rule power_mono) simp
    finally show ?thesis using assms(1) by (intro mult_le_mono)
  qed
  then have "n * n ^ k < 2 ^ 64" by (rule order.strict_trans1) simp
  with mcs_binomial_loop_choose [of 0 k n] k False show ?thesis
    by (simp add: mcs_binomial_def)
qed

section \<open>Ranking and unranking\<close>

lemma choose_mono: "m \<le> n \<Longrightarrow> m choose k \<le> n choose k"
proof (induction rule: dec_induct)
  case (step n)
  have "n choose k \<le> Suc n choose k" by (cases k) simp_all
  with step show ?case by linarith
qed simp

text \<open>The greatest \<open>n\<close> whose coefficient is at most the offset.\<close>

lemma cat_down_greatest:
  assumes "n \<le> 1024" "0 < j" "j \<le> 5"
  shows "cat_down offset n j \<le> n \<and> (cat_down offset n j choose j) \<le> offset
    \<and> (\<forall>m \<le> n. (m choose j) \<le> offset \<longrightarrow> m \<le> cat_down offset n j)"
  using assms(1)
proof (induction n)
  case 0
  then show ?case using assms(2) by (cases j) simp_all
next
  case (Suc n)
  then show ?case
    using mcs_binomial_choose [of "Suc n" j] assms(3) by (auto simp: le_Suc_eq)
qed

lemma cat_down_eqI:
  assumes "n \<le> 1024" "0 < j" "j \<le> 5" "c \<le> n" "(c choose j) \<le> offset" "offset < (Suc c choose j)"
  shows "cat_down offset n j = c"
proof (rule antisym)
  note g = cat_down_greatest [OF assms(1-3), of offset]
  show "c \<le> cat_down offset n j" using g assms(4,5) by blast
  show "cat_down offset n j \<le> c"
  proof (rule ccontr)
    assume "\<not> cat_down offset n j \<le> c"
    then have "Suc c choose j \<le> cat_down offset n j choose j" by (intro choose_mono) simp
    then show False using g assms(6) by linarith
  qed
qed

text \<open>The categories of a label: distinct, below \<open>n\<close>, the greatest first.\<close>

definition category_set :: "nat \<Rightarrow> nat list \<Rightarrow> bool" where
  "category_set n cs \<longleftrightarrow> sorted_wrt (>) cs \<and> (\<forall>c \<in> set cs. c < n)"

lemma category_set_Cons: "category_set n (c # cs) \<longleftrightarrow> c < n \<and> category_set c cs"
  by (auto simp: category_set_def intro: less_trans)

fun choose_sum :: "nat list \<Rightarrow> nat" where
  "choose_sum [] = 0"
| "choose_sum (c # cs) = (c choose Suc (length cs)) + choose_sum cs"

lemma choose_sum_less: "category_set n cs \<Longrightarrow> choose_sum cs < (n choose length cs)"
proof (induction cs arbitrary: n)
  case (Cons c cs)
  then have "choose_sum (c # cs) < (c choose Suc (length cs)) + (c choose length cs)"
    by (simp add: category_set_Cons)
  also have "\<dots> = (Suc c choose Suc (length cs))" by simp
  also have "\<dots> \<le> (n choose Suc (length cs))"
    using Cons.prems by (intro choose_mono) (simp add: category_set_Cons)
  finally show ?case by simp
qed simp

lemma cat_loop_unranks:
  assumes "n \<le> 1024" "j \<le> 5" "offset < (n choose j)"
  shows "length (cat_loop offset n j) = j \<and> category_set n (cat_loop offset n j)
    \<and> choose_sum (cat_loop offset n j) = offset"
  using assms
proof (induction j arbitrary: offset n)
  case 0
  then show ?case by (simp add: category_set_def)
next
  case (Suc j)
  let ?c = "cat_down offset n (Suc j)"
  note g = cat_down_greatest [OF Suc.prems(1) _ Suc.prems(2), of offset]
  have c: "?c < n" using g Suc.prems(3) by (metis le_neq_implies_less not_le zero_less_Suc)
  have "offset < (Suc ?c choose Suc j)"
    using g c by (metis Suc_leI Suc_n_not_le_n not_le zero_less_Suc)
  then have rest: "offset - (?c choose Suc j) < (?c choose j)"
    using conjunct1 [OF conjunct2 [OF g]] by simp
  have le: "?c \<le> 1024" "j \<le> 5" using c Suc.prems by auto
  have mod: "?c mod 2 ^ 16 = ?c" using le by simp
  have "mcs_binomial ?c (Suc j) = ?c choose Suc j" by (rule mcs_binomial_choose [OF le(1) Suc.prems(2)])
  then have "cat_loop offset n (Suc j) = ?c # cat_loop (offset - (?c choose Suc j)) ?c j"
    using mod by (simp add: Let_def)
  then show ?case using Suc.IH [OF le rest] c g by (simp add: category_set_Cons)
qed

lemma cat_loop_ranks:
  assumes "n \<le> 1024" "length cs \<le> 5" "category_set n cs"
  shows "cat_loop (choose_sum cs) n (length cs) = cs"
  using assms
proof (induction cs arbitrary: n)
  case (Cons c cs)
  have c: "c < n" "category_set c cs" using Cons.prems(3) by (simp_all add: category_set_Cons)
  have "choose_sum cs < (c choose length cs)" using choose_sum_less [OF c(2)] .
  then have down: "cat_down (choose_sum (c # cs)) n (length (c # cs)) = c"
    using Cons.prems c by (intro cat_down_eqI) simp_all
  have le: "c \<le> 1024" "length cs \<le> 5" using c(1) Cons.prems by auto
  have "mcs_binomial c (Suc (length cs)) = c choose Suc (length cs)"
    using mcs_binomial_choose [of c "Suc (length cs)"] le Cons.prems(2) by simp
  moreover have "c mod 2 ^ 16 = c" using le by simp
  ultimately show ?case using Cons.IH [OF le c(2)] down by (simp add: Let_def)
qed simp

section \<open>Labels of a range\<close>

lemma sort_categories_id: "sorted_wrt (>) cs \<Longrightarrow> sort_categories cs = cs"
proof -
  assume "sorted_wrt (>) cs"
  then have "sorted_wrt (\<ge>) cs" by (rule sorted_wrt_mono_rel [rotated]) simp
  then have "sorted (rev cs)" by (simp add: sorted_wrt_rev)
  then have "sort cs = rev cs" by (intro properties_for_sort) simp_all
  then show ?thesis by (simp add: sort_categories_def)
qed

lemma categories_Offset_choose_sum:
  assumes "category_set 1024 cs" "length cs \<le> 5"
  shows "categories_Offset cs = choose_sum cs"
proof -
  have top: "(1024 :: nat) choose k < 2 ^ 64" if "k \<le> 5" for k
  proof -
    have "(1024 :: nat) choose k \<le> 1024 ^ k" using that by (intro binomial_le_pow) simp
    also have "(1024 :: nat) ^ k \<le> 1024 ^ 5" using that by (intro power_increasing) simp_all
    finally show ?thesis by (rule order.strict_trans1) simp
  qed
  have "rank_loop cs = choose_sum cs"
    using assms
  proof (induction cs)
    case (Cons c cs)
    have c: "category_set 1024 cs" "c < 1024"
      using Cons.prems(1) by (auto simp: category_set_def)
    have "choose_sum (c # cs) < 2 ^ 64"
      using choose_sum_less [OF Cons.prems(1)] top [OF Cons.prems(2)] by (rule order.strict_trans)
    moreover have "mcs_binomial c (Suc (length cs)) = c choose Suc (length cs)"
      using mcs_binomial_choose [of c "Suc (length cs)"] c Cons.prems(2) by simp
    ultimately show ?case using Cons.IH [OF c(1)] Cons.prems(2) by simp
  qed simp
  then show ?thesis by (simp add: categories_Offset_def)
qed

text \<open>A prefix that \<open>NewLabel\<close> leaves as it is.\<close>

definition closed_prefix :: "string \<Rightarrow> bool" where
  "closed_prefix p \<longleftrightarrow> p = [] \<or> has_suffix p '':'' \<or> has_suffix p '',''"

lemma mcs_Offset_iff:
  assumes r: "mr_n r \<le> maxCategories" "mr_k r \<le> 5" "0 < mr_k r" "closed_prefix (mr_prefix r)"
  shows "mcs_Offset r l = (True, off) \<and> sorted_wrt (>) (ml_Categories l)
    \<longleftrightarrow> off < mcs_Size r \<and> LabelAt r off = (l, True)"
proof -
  define n k where "n = mr_n r" and "k = mr_k r"
  have nk: "n \<le> 1024" "k \<le> 5" "0 < k" using r by (simp_all add: n_def k_def maxCategories_def)
  have Size: "mcs_Size r = n choose k"
    using mcs_binomial_choose [OF nk(1,2)] by (simp add: mcs_Size_def n_def k_def)
  have label: "LabelAt r off = (l, True) \<longleftrightarrow>
      ml_Prefix l = mr_prefix r \<and> ml_Categories l = sort_categories (cat_loop off 1024 k)"
    using r(4) by (cases l)
      (auto simp: LabelAt_def mcs_NewLabel_def categoriesForOffset_def closed_prefix_def k_def maxCategories_def)
  have contains: "mcs_Contains r l \<and> sorted_wrt (>) (ml_Categories l) \<longleftrightarrow>
      ml_Prefix l = mr_prefix r \<and> length (ml_Categories l) = k \<and> category_set n (ml_Categories l)"
    using nk(1) by (auto simp: mcs_Contains_def category_set_def list_all_iff n_def k_def not_le)
  have wide: "category_set n cs \<Longrightarrow> category_set 1024 cs" for cs
    using nk(1) by (auto simp: category_set_def)
  show ?thesis
  proof
    assume a: "mcs_Offset r l = (True, off) \<and> sorted_wrt (>) (ml_Categories l)"
    let ?cs = "ml_Categories l"
    have l: "ml_Prefix l = mr_prefix r" "length ?cs = k" "category_set n ?cs" "off = categories_Offset ?cs"
      using a contains by (auto simp: mcs_Offset_def split: if_splits)
    then have off: "off = choose_sum ?cs"
      using categories_Offset_choose_sum [OF wide] nk(2) by simp
    have "cat_loop off 1024 k = ?cs"
      using cat_loop_ranks [of 1024 ?cs] wide l nk(2) off by simp
    moreover have "off < n choose k" using choose_sum_less [OF l(3)] l(2) off by simp
    ultimately show "off < mcs_Size r \<and> LabelAt r off = (l, True)"
      using a l(1) by (simp add: Size label sort_categories_id)
  next
    assume a: "off < mcs_Size r \<and> LabelAt r off = (l, True)"
    let ?cs = "cat_loop off 1024 k"
    have lt: "off < n choose k" using a by (simp add: Size)
    then have "off < 1024 choose k" using choose_mono [OF nk(1), of k] by linarith
    from cat_loop_unranks [OF order_refl nk(2) this]
    have cs: "length ?cs = k" "category_set 1024 ?cs" "choose_sum ?cs = off" by auto
    then obtain c rest where split: "?cs = c # rest" using nk(3) by (cases ?cs) auto
    have "c < n"
    proof (rule ccontr)
      assume "\<not> c < n"
      then have "n choose k \<le> c choose k" by (intro choose_mono) simp
      then show False using lt cs(1,3) split by auto
    qed
    then have cats: "category_set n ?cs" using cs(2) split by (simp add: category_set_Cons)
    have l: "ml_Prefix l = mr_prefix r" "ml_Categories l = ?cs"
      using a cs(2) by (simp_all add: label sort_categories_id category_set_def)
    then have "mcs_Contains r l \<and> sorted_wrt (>) (ml_Categories l)"
      using contains cats cs(1) by simp
    then show "mcs_Offset r l = (True, off) \<and> sorted_wrt (>) (ml_Categories l)"
      using categories_Offset_choose_sum [OF cs(2)] cs(1,3) nk(2) l(2) by (simp add: mcs_Offset_def)
  qed
qed

text \<open>
  C36: the labels of a category range are numbered without gaps or repetitions.  In a range of at
  most 1024 categories and at most five per label, whose prefix is empty or ends in a colon or a comma
  (to any other prefix \<open>NewLabel\<close> appends a colon, and \<open>Offset\<close> then refuses the label), \<open>Offset\<close> gives a
  label whose categories descend the number \<open>off\<close> exactly when \<open>off\<close> is below \<open>Size\<close> and \<open>LabelAt\<close> returns
  that label for it; none of the 64-bit products overflows.
\<close>

theorem mcs_Offset_inverts_LabelAt:
  assumes "mcs_NewRange pfx n k = Inr r" "n \<le> maxCategories" "k \<le> 5" "closed_prefix pfx"
  shows "mcs_Offset r l = (True, off) \<and> sorted_wrt (>) (ml_Categories l)
    \<longleftrightarrow> off < mcs_Size r \<and> LabelAt r off = (l, True)"
  by (rule mcs_Offset_iff) (use assms in \<open>auto simp: mcs_NewRange_def split: if_splits\<close>)

theorem mcs_Offset_inverts_LabelAt_witness:
  "LabelAt \<lparr>mr_prefix = ''s0:'', mr_n = 1024, mr_k = 2\<rparr> 3 =
     (\<lparr>ml_Prefix = ''s0:'', ml_Categories = [3, 0]\<rparr>, True)"
proof -
  have new: "mcs_NewRange ''s0:'' 1024 2 = Inr \<lparr>mr_prefix = ''s0:'', mr_n = 1024, mr_k = 2\<rparr>"
    by (simp add: mcs_NewRange_def)
  have "closed_prefix ''s0:''" by (simp add: closed_prefix_def has_suffix_def)
  moreover have "mcs_binomial 3 2 = 3" "mcs_binomial 0 1 = 0"
    by (simp_all add: mcs_binomial_choose choose_two)
  then have "mcs_Offset \<lparr>mr_prefix = ''s0:'', mr_n = 1024, mr_k = 2\<rparr>
      \<lparr>ml_Prefix = ''s0:'', ml_Categories = [3, 0]\<rparr> = (True, 3)"
    by (simp add: mcs_Offset_def mcs_Contains_def categories_Offset_def flip: numeral_2_eq_2)
  ultimately show ?thesis
    using mcs_Offset_inverts_LabelAt [OF new, of "\<lparr>ml_Prefix = ''s0:'', ml_Categories = [3, 0]\<rparr>" 3]
    by (simp add: maxCategories_def)
qed

section \<open>Text forms of labels\<close>

lemma parse_categories_text:
  "list_all (\<lambda>c. c < 2 ^ 16) cs \<Longrightarrow>
   parse_categories segment (map (\<lambda>c. CHR ''c'' # decimal c) cs) = Inr cs"
proof (induction cs)
  case (Cons c cs)
  have "Atoi (decimal c) = Inr (int c)" using Cons.prems by (intro Atoi_decimal) simp
  then show ?case using Cons by (simp add: has_prefix_def)
qed simp

lemma split_join:
  "ws \<noteq> [] \<Longrightarrow> list_all (\<lambda>w. sep \<notin> set w) ws \<Longrightarrow> split_char sep (join_with [sep] ws) = ws"
proof (induction "[sep]" ws rule: join_with.induct)
  case (3 w v ws)
  then show ?case by (simp add: split_char_append)
qed (simp_all add: split_char_join)

lemma join_no_char:
  "c \<notin> set sep \<Longrightarrow> list_all (\<lambda>w. c \<notin> set w) ws \<Longrightarrow> c \<notin> set (join_with sep ws)"
  by (induction sep ws rule: join_with.induct) auto

lemma split_char_last:
  "sep \<notin> set t \<Longrightarrow> split_char sep (s @ sep # t) = split_char sep s @ [t]"
  by (induction s) (auto simp: split_char_join split: list.splits)

lemma join_split: "join_with [sep] (split_char sep s) = s"
proof (induction s)
  case (Cons c s)
  obtain w ws where "split_char sep s = w # ws" by (cases "split_char sep s") auto
  with Cons show ?case by (cases ws) auto
qed simp

lemma no_duplicate: "sorted_wrt (>) cs \<Longrightarrow> list_all (\<lambda>c. int c \<noteq> prev) cs \<Longrightarrow> \<not> has_duplicate prev cs"
proof (induction cs arbitrary: prev)
  case (Cons c cs)
  have "list_all (\<lambda>d. int d \<noteq> int c) cs" using Cons.prems(1) by (auto simp: list_all_iff)
  then have "\<not> has_duplicate (int c) cs" using Cons.prems(1) by (intro Cons.IH) simp_all
  then show ?case using Cons.prems(2) by simp
qed simp

lemma category_chars:
  "CHR '':'' \<notin> set (CHR ''c'' # decimal c)" "CHR '','' \<notin> set (CHR ''c'' # decimal c)"
  using decimal_no_char [of "CHR '':''" c] decimal_no_char [of "CHR '',''" c]
  by (auto simp: is_digit_def)

lemma ParseLabel_text:
  assumes cs: "cs \<noteq> []" "sorted_wrt (>) cs" "list_all (\<lambda>c. c < 2 ^ 16) cs"
    and p: "p = [] \<or> (\<exists>q. q \<noteq> [] \<and> p = q @ '':'')"
  shows "ParseLabel (label_String \<lparr>ml_Prefix = p, ml_Categories = cs\<rparr>)
    = Inr \<lparr>ml_Prefix = p, ml_Categories = cs\<rparr>"
proof -
  let ?ws = "map (\<lambda>c. CHR ''c'' # decimal c) cs"
  define seg where "seg = join_with '','' ?ws"
  have comma: "split_char CHR '','' seg = ?ws"
    unfolding seg_def using cs(1) category_chars by (intro split_join) (auto simp: list_all_iff)
  have colon: "CHR '':'' \<notin> set seg"
    unfolding seg_def using category_chars by (intro join_no_char) (auto simp: list_all_iff)
  have seg: "seg \<noteq> []" using comma cs(1) by (cases seg) (auto simp: neq_Nil_conv)
  have cats: "parse_categories seg ?ws = Inr cs" by (rule parse_categories_text [OF cs(3)])
  have dup: "\<not> has_duplicate (- 1) cs" by (rule no_duplicate [OF cs(2)]) (simp add: list_all_iff)
  have parts: "last (split_char CHR '':'' (p @ seg)) = seg
      \<and> (let joined = join_with '':'' (butlast (split_char CHR '':'' (p @ seg)))
         in (if 0 < length joined then joined @ '':'' else joined)) = p"
  proof (cases "p = []")
    case True
    then show ?thesis using split_char_join [OF colon] by simp
  next
    case False
    then obtain q where q: "q \<noteq> []" "p = q @ '':''" using p by blast
    then show ?thesis
      using split_char_last [OF colon, of q] join_split [of "CHR '':''" q] by simp
  qed
  have "label_String \<lparr>ml_Prefix = p, ml_Categories = cs\<rparr> = p @ seg"
    by (simp add: label_String_def seg_def)
  then show ?thesis
    using parts seg cats dup sort_categories_id [OF cs(2)]
    by (simp add: ParseLabel_def Let_def comma)
qed

text \<open>
  \<open>ParseLabel\<close> reads back what \<open>String\<close> prints for every label with at least one category, its
  categories in order and of 16 bits, whose prefix is empty or a non-empty text closed by a colon,
  which is the form \<open>NewLabel\<close> gives it.
\<close>

theorem mcs_label_text_roundtrip:
  assumes "ml_Categories l \<noteq> []" "sorted_wrt (>) (ml_Categories l)"
    and "list_all (\<lambda>c. c < 2 ^ 16) (ml_Categories l)"
    and "ml_Prefix l = [] \<or> (\<exists>q. q \<noteq> [] \<and> ml_Prefix l = q @ '':'')"
  shows "ParseLabel (label_String l) = Inr l"
  using ParseLabel_text [OF assms] by (cases l) simp

theorem mcs_label_text_roundtrip_witness:
  "ParseLabel (label_String \<lparr>ml_Prefix = ''s0:'', ml_Categories = [5, 2]\<rparr>)
    = Inr \<lparr>ml_Prefix = ''s0:'', ml_Categories = [5, 2]\<rparr>"
  by (rule mcs_label_text_roundtrip) (auto intro: exI [of _ "''s0''"])

text \<open>
  Numbers outside their type are accepted and reduced: \<open>ParseLabel\<close> reads the category
  \<open>c65537\<close> as \<open>c1\<close>, so two different texts name the same label, and \<open>ParseRange\<close> accepts a negative
  number of labels, which becomes \<open>2 ^ 64 - 1\<close> labels and an empty range.
\<close>

theorem mcs_numbers_are_truncated:
  "ParseLabel ''s0:c65537'' = ParseLabel ''s0:c1''
   \<and> (\<exists>r. mcs_ParseRange ''s0:/-1'' = Inr r \<and> mr_k r = 2 ^ 64 - 1 \<and> mcs_Size r = 0)"
proof -
  have "ParseLabel ''s0:c65537'' = ParseLabel ''s0:c1''"
    by (simp add: ParseLabel_def Let_def sort_categories_def has_prefix_def Atoi_def ParseInt_def is_digit_def digits_value_def digit_value_def)
  moreover have "mcs_ParseRange ''s0:/-1'' = Inr \<lparr>mr_prefix = ''s0:'', mr_n = 1024, mr_k = 2 ^ 64 - 1\<rparr>"
    by (simp add: mcs_ParseRange_def splitN2_def Atoi_def ParseInt_def Let_def is_digit_def digits_value_def digit_value_def
        maxCategories_def to_uint_def mcs_NewRange_def)
  ultimately show ?thesis by (simp add: mcs_Size_def mcs_binomial_def)
qed

end
