(* ===== verification/Spec2Isabelle.thy ===== *)
theory Spec2Isabelle
  imports Scopes Router_Chain Build_Run Deploy_Examples Identity_Claims Scc_Example Image_Examples Image_Mapping Image_Parse Event_Queue Round_Robin Vnids Subnet_Allocator Uid_Ranges Mcs_Labels
begin

text \<open>
  A verification development for OpenShift Origin (\<open>src/origin\<close>, Go): the decision core of its
  authorization subsystem, the route admission of its router, the run policies and controllers of
  its builds, its deployments, the users of identities at login, the admission of pods by security context
  constraints, its image streams, the event queue and the load balancer of its node components, and the allocators of its
  multi-tenant network and security ranges.

  \<^bold>\<open>Authorization.\<close>  A request is turned into attributes (\<open>authorizer/attributes_builder.go\<close>); the
  authorizer (\<open>authorizer/authorizer.go\<close>) asks the rule resolver (\<open>rulevalidation/find_rules.go\<close>)
  for the rules the user's role bindings give, in the cluster and in the request's namespace, and
  matches them (\<open>authorizer/attributes.go\<close>); tokens with scopes are narrowed by the scope authorizer
  (\<open>authorizer/scope\<close>); writers of roles must cover what they write
  (\<open>rulevalidation/user_covers.go\<close>, \<open>policy_comparator.go\<close>).  Policy stores are functions, errors are
  values, and every error path of the code is a branch of the model.

  \<^item> \<open>Go_Prelude\<close>: Go strings, error aggregation, \<open>sets.String\<close>.
  \<^item> \<open>K8s_Names\<close>: name validation and service account names of the Kubernetes fork.
  \<^item> \<open>Policy_Types\<close>, \<open>Policy_Helpers\<close>: the API types of \<open>authorization/api\<close>, resource groups and
    \<open>NormalizeResources\<close> (closure of a possibly cyclic table of groups).
  \<^item> \<open>Subjects\<close>: subjects of bindings and the binding adapters of \<open>authorization/interfaces\<close>.
  \<^item> \<open>Rule_Match\<close>, \<open>Rule_Cover\<close>, \<open>Rule_Resolver\<close>: matching, coverage, compaction and resolution of
    rules.  \<open>Messages\<close>: the forbidden messages.  \<open>Authorizer\<close>: the authorizer, the list of allowed
    subjects and the escalation check.  \<open>Scopes\<close>: token scopes.

  The theorems say that a decision is determined by the bound and resolvable rules alone, that
  \<open>Authorize\<close> and \<open>GetAllowedSubjects\<close> agree, that scopes only narrow, that the escalation check is
  sound, and where the code falls short of that (attribute restrictions, resource groups): the escalation check
  is sound for users whose restricted rules do not concern what is granted.

  \<^bold>\<open>Router.\<close>  \<open>Routes\<close> holds the route fields, the plugin interface and the admission by domain lists;
  \<open>Host_Admitter\<close> and \<open>Unique_Host\<close> are the two plugins that decide which routes are served
  (\<open>router/controller\<close>); \<open>Router_Chain\<close> puts one in front of the other as \<open>cmd/infra/router\<close> does.
  The rest of the router is a function on a state of any type.  The theorems give the invariants of
  the claims in every reachable state (one namespace for a host, distinct paths, no panic), what
  decides between accepting and refusing a route, that the chain, with the host function of the
  router's options (\<open>RouteSelectionFunc\<close> and the host name template), tracks only valid and admitted
  hosts, and the sequences of events on which claims are lost or never released.

  \<^bold>\<open>Builds.\<close>  \<open>Build_Types\<close> holds builds, their accessors and the listing of the builds of a
  configuration (\<open>build/api\<close>, \<open>build/util\<close>), \<open>Namer\<close> the bounded names of their pods
  (\<open>util/namer\<close>).  \<open>Build_Policies\<close> is \<open>build/controller/policy\<close>: the locale \<open>run_policy_contract\<close>
  says what a policy promises, and is interpreted on the three policies.  \<open>Build_Controller\<close> holds the
  handlers of \<open>build/controller/controller.go\<close>, which leave a changed build in memory next to the
  changed cluster, and \<open>Build_Run\<close> the cluster as a step relation of handlers and users over an API
  server given by its laws (\<open>server\<close>); the events a claim is limited to are a predicate of their own
  (\<open>expected\<close>), since the handlers do not check them.  The theorems say that a serial build runs alone, that a
  queue of builds does not get stuck, what the latest-only policy cancels, that completed builds
  stay completed and no handler panics, and what failing requests break.

  \<^bold>\<open>Deployments.\<close>  \<open>Deploy_Types\<close> holds deployment configurations, their deployments (replication
  controllers whose annotations carry version, phase and configuration) and the helpers of
  \<open>deploy/util\<close>; \<open>Deploy_Make\<close> makes the deployment of a version, \<open>Deploy_Status\<close> computes the status of a
  configuration.  \<open>Deploy_Controller\<close> is the controller of deployments and their deployer pods, and
  \<open>Deploy_Phases\<close> runs it as a step relation with stale caches and other writers; \<open>Deploy_Config\<close> is the
  controller of configurations (\<open>deploy/controller/deploymentconfig\<close>), with \<open>Deploy_Config_Safety\<close> and
  \<open>Deploy_Reconcile\<close> on what it makes, cancels, scales and deletes.  \<open>Deploy_Instantiate\<close> is the
  instantiate endpoint with the trigger controller, \<open>Deploy_Strategy\<close> the ways of writing a configuration
  and rollbacks, \<open>Deploy_Versions\<close> the theorems on versions.  A handler gives the calls it makes and how
  it ends, over a record of answers.  The theorems say that phases only move forward, that a deployment
  follows its pod, that one is made only when all others have ended, what reconciling and cleaning up
  leave, that users cannot forge a status, what causes a new version, and where names that are too long
  or late cancellations break this; \<open>Deploy_Examples\<close> evaluates some of it.

  \<^bold>\<open>Users at login.\<close>  \<open>Registry_Store\<close> is the generic registry store of the API server (get, create,
  update with the conflict check on the resource version) over the versioned storage;
  \<open>Identity_Types\<close> holds users and identities with their validation and strategies, the record of
  registry calls the login code uses, and what it relies on as the locale \<open>identity_registries\<close>,
  interpreted on two such stores whose calls may fail at any time.  \<open>Identity_Mapping\<close> is the REST
  resource \<open>user/registry/useridentitymapping\<close>, \<open>Identity_Mapper\<close> the mappers and strategies of
  \<open>auth/userregistry/identitymapper\<close>.  \<open>Identity_Login\<close>, \<open>Identity_Races\<close> and \<open>Identity_Claims\<close> prove
  what a login establishes, alone and among others: the calls of other processes come between its
  own (\<open>shared\<close>), and the locales \<open>new_identity_strategy\<close> and \<open>careful_strategy\<close> are the contracts of
  the strategies, the second by rely and guarantee.  The theorems say that the user of a login and
  the stored identity reference each other, that a new identity gets its preferred name, that a
  claimed user stays with its one identity whatever the interleaving, how many calls a login makes,
  what an update of a mapping establishes and when it destroys the mapping it reports.

  \<^bold>\<open>Security context constraints.\<close>  \<open>Scc_Types\<close> holds constraints with their validation and what they
  read of pods; \<open>Scc_Strategies\<close> the strategies of \<open>kubernetes/pkg/securitycontextconstraints\<close>, which
  generate what a pod leaves open and validate what it has, with the locale \<open>defaulting\<close> as the
  contract between the two, interpreted for each kind of strategy; \<open>Scc_Provider\<close> the provider and
  \<open>AssignSecurityContext\<close>; \<open>Scc_Admission\<close> the choice of a constraint (\<open>security/scc\<close>, with the values
  of the namespace allocated by \<open>Uid_Ranges\<close> and \<open>Mcs_Labels\<close>) and the admission plugin
  (\<open>security/admission\<close>).  \<open>Scc_Safety\<close> specifies which pods comply with a provider and proves that an
  assigned pod does; \<open>Scc_Selection\<close> proves that the order of constraints has one result and that
  sharing the fetched namespace changes no provider; \<open>Scc_Admitted\<close>, \<open>Scc_Repeat\<close> and \<open>Scc_Plain\<close> hold
  the theorems on admission (safe, first accepting constraint, unchanged on refusal, idempotent,
  complete for pods that ask for nothing), \<open>Scc_Example\<close> an admission evaluated and a panic.

  \<^bold>\<open>Image streams.\<close>  \<open>Image_Refs\<close> holds the references of Docker images with their regular expressions
  (\<open>docker/distribution/reference\<close>, \<open>digest\<close>) and the names of image stream tags, images and signatures;
  \<open>Image_Parse\<close> the language of the expressions and the round trip of parsing and printing.
  \<open>Image_Streams\<close> holds streams with the operations of \<open>image/api/helper.go\<close>: tags refer to images or
  to other tags, and the status keeps a history of events for each.  \<open>Image_Strategy\<close> and \<open>Image_Update\<close>
  are \<open>image/registry/imagestream/strategy.go\<close>: what a write by a user, by the server or to the status
  makes of a stream, with the check that the user may read what the tags refer to.  The code changes a
  stream in place; where two pointers reach the same events, what is written through one is written in
  the model too, and \<open>old_status\<close> says whether the prepared stream and the old one share their status.
  \<open>Image_Mapping\<close> is the push of an image (\<open>imagestreammapping\<close>) with its retries, \<open>Image_Tag_Rest\<close> the
  image stream tags (\<open>imagestreamtag\<close>), \<open>Image_Import\<close> the import controller (\<open>image/controller\<close>).
  \<open>Image_Tags\<close> proves what following a tag finds and which tags are carried over; \<open>Image_Invariants\<close> states as
  the locales \<open>event_invariant\<close>, \<open>tag_invariant\<close> and \<open>write_invariant\<close> what the loops of a write keep,
  interpreted on the frame of a write, the generations of events, the images of kept tags and deleted
  tags; \<open>Image_Generations\<close>, \<open>Image_Writes\<close>, \<open>Image_Safety\<close> and \<open>Image_Secrecy\<close> the claims on writes: generations are chosen by the
  server, what users write is well-formed and what the server writes keeps the bounds of what it submits,
  a write shows its user nothing of streams the user may not pull from, and tags that neither change nor
  track a changed tag keep their images; \<open>Image_Examples\<close> evaluates writes, one of
  which cancels a pending import.

  \<^bold>\<open>Node components.\<close>  \<open>Kube_Store\<close> is the object store of the Kubernetes client, with its interface
  as the locale \<open>kv_store\<close>; \<open>Event_Queue\<close> (\<open>client/cache/eventqueue.go\<close>) rests on it: compression
  of events loses nothing for producers that follow the watch protocol, and the theorems say when it
  panics and what a resync breaks.  \<open>Round_Robin\<close> is the load balancer of
  \<open>proxy/userspace/roundrobin.go\<close>: only current endpoints are returned, the choice is fair, and two
  ways in which session affinity goes wrong.

  \<^bold>\<open>Allocators.\<close>  \<open>Go_Numbers\<close> holds the decimal text of Go's numbers, \<open>Alloc_Bitmap\<close> the
  allocation bitmap of \<open>kubernetes/pkg/registry/core/service/allocator\<close> with the interface of
  allocators as the locale \<open>allocation\<close>, interpreted on the bitmap.  Its clients are
  \<open>Netid_Allocator\<close> and \<open>Vnids\<close> (\<open>sdn/plugin/netid\<close>, \<open>sdn/plugin/vnids_master.go\<close>: virtual network
  ids of namespaces, with the master's event handlers as a step relation), \<open>Uid_Ranges\<close>
  (\<open>security/uid\<close>, \<open>security/uidallocator\<close>) and \<open>Mcs_Labels\<close> (\<open>security/mcs\<close>,
  \<open>security/mcsallocator\<close>).  \<open>Subnet_Allocator\<close> is \<open>util/netutils/subnet_allocator.go\<close>.  The theorems
  give the numbering of blocks and labels (bijections with a range of offsets, with the machine
  widths), disjointness of what is allocated in every reachable state, the partition of the
  cluster network into node subnets, and the master's invariant that the pool holds exactly the
  ids in use.

  \<^bold>\<open>Bounds.\<close>  No model uses fuel (the retries of a login and the names it tries are bounded by the code): loops are structural recursions over the lists they range over or
  have a termination proof.  Machine integers are words or numbers with the wrap-around written
  out.  A random draw of the code is an argument of the operation, and the theorems hold for
  every value of it; so are the time and the number of attempts a poll makes before its timeout.  A lock makes each operation atomic, so concurrency is the order of the steps.

  \<^bold>\<open>Not modelled.\<close>  The REST storages of policies and builds, caches and the remote authorizer; deletion, finalizers and lists of the registry store; goroutines and watches
  themselves; anything that drives Docker, Open vSwitch, HAProxy or F5; the generation of builds and
  their pods, the strategies that run in deployer pods, the import and pruning of images and templates; generated code; third-party packages except the
  functions named above.  Case conversion is that of ASCII.
\<close>

end
